(* ===== verification/Prelude.thy ===== *)
theory Prelude imports Main "HOL-Library.Word" begin

text \<open>
  What every component theory shares: the machine integer types of the C code, the
  named collections of simplification rules, and the facts on words, lists and ring
  buffers that more than one component needs.
\<close>

unbundle bit_operations_syntax

section \<open>The C integer types\<close>

type_synonym u8 = "8 word"
type_synonym u16 = "16 word"
type_synonym u32 = "32 word"
type_synonym u64 = "64 word"

abbreviation to8 :: "u16 \<Rightarrow> u8" where
  "to8 w \<equiv> ucast w"

abbreviation to16 :: "u8 \<Rightarrow> u16" where
  "to16 w \<equiv> ucast w"

text \<open>
  Collections: \<open>cpu_frame\<close> rewrites the memory primitives of the CPU to record updates,
  \<open>flag_simps\<close> unfolds the flag macros, \<open>line_simps\<close> unfolds the bus line updates of
  the chips.
\<close>

named_theorems cpu_frame "the memory primitives as updates of the host field"
named_theorems flag_simps "the flag macros"
named_theorems insn_defs "the instruction handlers"
named_theorems mode_defs "the addressing mode functions"
named_theorems via_simps "the VIA's interrupt bookkeeping"

section \<open>Words\<close>

lemma bit_word_lit_8 [simp]:
  "bit (1 :: u8) n \<longleftrightarrow> n = 0"
  by (auto simp: bit_1_iff)

lemma and_bit_zero_iff:
  "w AND push_bit n 1 = 0 \<longleftrightarrow> \<not> bit w n" if "n < LENGTH('a)" for w :: "'a::len word"
proof
  assume h: "w AND push_bit n 1 = 0"
  show "\<not> bit w n"
  proof
    assume "bit w n"
    with that have "bit (w AND push_bit n 1) n" by (simp add: bit_simps)
    with h show False by simp
  qed
next
  assume "\<not> bit w n"
  then show "w AND push_bit n 1 = 0"
    by (auto intro!: bit_word_eqI simp: bit_simps)
qed

lemma u8_flag_iff:
  "(w AND 0x01 = 0) = (\<not> bit w 0)" "(w AND 0x02 = 0) = (\<not> bit w 1)"
  "(w AND 0x04 = 0) = (\<not> bit w 2)" "(w AND 0x08 = 0) = (\<not> bit w 3)"
  "(w AND 0x10 = 0) = (\<not> bit w 4)" "(w AND 0x20 = 0) = (\<not> bit w 5)"
  "(w AND 0x40 = 0) = (\<not> bit w 6)" "(w AND 0x80 = 0) = (\<not> bit w 7)" for w :: u8
  using and_bit_zero_iff[of 0 w] and_bit_zero_iff[of 1 w] and_bit_zero_iff[of 2 w]
    and_bit_zero_iff[of 3 w] and_bit_zero_iff[of 4 w] and_bit_zero_iff[of 5 w]
    and_bit_zero_iff[of 6 w] and_bit_zero_iff[of 7 w]
  by simp_all

lemma u16_bit7: "(w AND 0x0080 = 0) = (\<not> bit w 7)" for w :: u16
  using and_bit_zero_iff[of 7 w] by simp

lemma uint_u8_bounds: "0 \<le> uint (w :: u8)" "uint (w :: u8) < 256"
  using uint_lt2p[of w] by simp_all

lemma unat_u8_less: "unat (w :: u8) < 256"
  using unsigned_less[of w] by simp

lemma unat_u16_less: "unat (w :: u16) < 65536"
  using unsigned_less[of w] by simp

lemma uint_to16 [simp]: "uint (to16 w) = uint w"
proof -
  have "uint w < 2 ^ 16" by (rule order.strict_trans[OF uint_u8_bounds(2)]) simp
  then show ?thesis by (simp add: unsigned_ucast_eq take_bit_int_eq_self)
qed

lemma to8_to16 [simp]: "to8 (to16 w) = w"
  by (rule bit_word_eqI) (simp add: bit_simps)

lemma bit_u8_out [simp]: "8 \<le> n \<Longrightarrow> \<not> bit (w :: u8) n"
  by (simp add: impossible_bit)

lemma join_bytes_lo: "to8 (to16 l OR push_bit 8 (to16 h)) = l"
  by (rule bit_word_eqI) (simp add: bit_simps)

lemma join_bytes_hi: "to8 (drop_bit 8 (to16 l OR push_bit 8 (to16 h))) = h"
  by (rule bit_word_eqI) (auto simp: bit_simps)

lemma split_u16: "to16 (to8 w) OR push_bit 8 (to16 (to8 (drop_bit 8 w))) = w"
proof (rule bit_word_eqI)
  fix n assume "n < LENGTH(16)"
  then show "bit (to16 (to8 w) OR push_bit 8 (to16 (to8 (drop_bit 8 w)))) n = bit w n"
    by (cases "n < 8") (auto simp: bit_simps)
qed


section \<open>Words as integers\<close>

lemma mod_65536_256: "(v :: int) mod 65536 mod 256 = v mod 256"
  by (simp add: mod_mod_cancel)

lemma uint_to8: "uint (to8 w) = uint w mod 256"
  by (simp add: unsigned_ucast_eq take_bit_eq_mod)

lemma to8_plus: "to8 (v + w) = to8 v + to8 w"
  by (rule word_uint_eqI) (simp add: uint_to8 uint_word_ariths mod_65536_256 mod_simps)

lemma to8_minus: "to8 (v - w) = to8 v - to8 w"
  by (rule word_uint_eqI) (simp add: uint_to8 uint_word_ariths mod_65536_256 mod_simps)

lemma uint_drop_bit: "uint (drop_bit k w) = uint w div 2 ^ k" for w :: "'a::len word"
  by (simp only: unsigned_drop_bit_eq drop_bit_eq_div[where 'a=int] take_bit_length_eq
      unsigned_take_bit_eq[symmetric])

lemma uint_and_mask: "uint (w AND mask k) = uint w mod 2 ^ k" for w :: "'a::len word"
  by (metis take_bit_eq_mask unsigned_take_bit_eq take_bit_eq_mod)

lemma and_FF_u16: "w AND 0xFF = to16 (to8 w)" for w :: u16
proof -
  have "w AND mask 8 = to16 (to8 w)"
    by (rule bit_word_eqI) (auto simp: bit_simps)
  then show ?thesis by (simp add: mask_eq_exp_minus_1)
qed

lemma u16_high_zero_mask: "(w AND push_bit 8 (mask 8) = 0) = (drop_bit 8 w = 0)" for w :: u16
proof
  assume h: "w AND push_bit 8 (mask 8) = 0"
  show "drop_bit 8 w = 0"
  proof (rule bit_word_eqI)
    fix i assume "i < LENGTH(16)"
    from h have "bit (w AND push_bit 8 (mask 8)) (8 + i) = False" by simp
    then show "bit (drop_bit 8 w) i = bit 0 i"
      using bit_imp_le_length[of w "8 + i"] by (auto simp: bit_simps)
  qed
next
  assume h: "drop_bit 8 w = 0"
  show "w AND push_bit 8 (mask 8) = 0"
  proof (rule bit_word_eqI)
    fix i assume "i < LENGTH(16)"
    from h have "bit (drop_bit 8 w) (i - 8) = False" by simp
    then show "bit (w AND push_bit 8 (mask 8)) i = bit 0 i" by (auto simp: bit_simps)
  qed
qed

lemma u16_high_zero: "(w AND 0xFF00 = 0) = (uint w < 256)" for w :: u16
proof -
  have "(w AND push_bit 8 (mask 8) = 0) = (uint (drop_bit 8 w) = 0)"
    by (simp only: u16_high_zero_mask uint_0_iff)
  also have "\<dots> = (uint w < 256)" by (simp only: uint_drop_bit) auto
  finally show ?thesis by (simp add: mask_eq_exp_minus_1)
qed

lemma low_byte_zero: "(w AND 0x00FF = 0) = (to8 w = 0)" for w :: u16
  by (metis and_FF_u16 to8_to16 unsigned_0 ucast_0)

lemma sint_u8: "sint w = (if bit w 7 then uint w - 256 else uint w)" for w :: u8
  using uint_u8_bounds[of w]
  by (simp add: sint_uint signed_take_bit_eq_take_bit_minus bit_uint_iff take_bit_int_eq_self)

text \<open>The bits of the masks of the C code: \<open>bit_numeral_word_iff\<close> reduces words to these.\<close>

lemma bit_int_power:
  "bit (0x02 :: int) n \<longleftrightarrow> n = 1" "bit (0x04 :: int) n \<longleftrightarrow> n = 2" "bit (0x08 :: int) n \<longleftrightarrow> n = 3"
  "bit (0x10 :: int) n \<longleftrightarrow> n = 4" "bit (0x20 :: int) n \<longleftrightarrow> n = 5" "bit (0x40 :: int) n \<longleftrightarrow> n = 6"
  "bit (0x80 :: int) n \<longleftrightarrow> n = 7"
  using bit_exp_iff[of 1 n, where 'a=int] bit_exp_iff[of 2 n, where 'a=int]
    bit_exp_iff[of 3 n, where 'a=int] bit_exp_iff[of 4 n, where 'a=int]
    bit_exp_iff[of 5 n, where 'a=int] bit_exp_iff[of 6 n, where 'a=int]
    bit_exp_iff[of 7 n, where 'a=int]
  by auto

lemma bit_int_mask:
  "bit (0x03 :: int) n \<longleftrightarrow> n < 2" "bit (0x07 :: int) n \<longleftrightarrow> n < 3" "bit (0x0F :: int) n \<longleftrightarrow> n < 4"
  "bit (0x1F :: int) n \<longleftrightarrow> n < 5" "bit (0x3F :: int) n \<longleftrightarrow> n < 6" "bit (0x7F :: int) n \<longleftrightarrow> n < 7"
  "bit (0xFF :: int) n \<longleftrightarrow> n < 8"
  using bit_mask_iff[of 2 n, where 'a=int] bit_mask_iff[of 3 n, where 'a=int]
    bit_mask_iff[of 4 n, where 'a=int] bit_mask_iff[of 5 n, where 'a=int]
    bit_mask_iff[of 6 n, where 'a=int] bit_mask_iff[of 7 n, where 'a=int]
    bit_mask_iff[of 8 n, where 'a=int]
  by (simp_all add: mask_eq_exp_minus_1)

lemmas bit_lits = bit_int_power bit_int_mask bit_or_iff bit_and_iff bit_xor_iff

end
