(* ===== verification/Cpu_Tables.thy ===== *)
theory Cpu_Tables imports Prelude begin

text \<open>
  The addressing mode and cycle tables of the CPU core (\<open>src/emulator/cpu_core.c\<close>), for
  the NMOS 6502 and for the 65C02. The C mode tables hold function pointers, which
  \<open>getvalue\<close> and \<open>putvalue\<close> compare with \<open>acc\<close>; here they hold names, and
  \<open>Cpu_Addr.run_mode\<close> maps a name to its function. The handler tables are in
  \<open>Cpu_Step\<close>, after the handlers.
\<close>

section \<open>Names\<close>

datatype cpu_variant = CPU_NMOS | CPU_65C02

datatype amode =
    M_imp | M_acc | M_imm | M_zp | M_zpx | M_zpy | M_rel | M_abso | M_absx | M_absy |
    M_ind | M_ind_65c02 | M_ind_zp | M_ind_absx | M_indx | M_indy

section \<open>NMOS 6502\<close>

definition addrtable_nmos :: "amode list" where
  "addrtable_nmos = [
     M_imp, M_indx, M_imp, M_indx, M_zp, M_zp, M_zp, M_zp, M_imp, M_imm, M_acc, M_imm,
     M_abso, M_abso, M_abso, M_abso,
     M_rel, M_indy, M_imp, M_indy, M_zpx, M_zpx, M_zpx, M_zpx, M_imp, M_absy, M_imp,
     M_absy, M_absx, M_absx, M_absx, M_absx,
     M_abso, M_indx, M_imp, M_indx, M_zp, M_zp, M_zp, M_zp, M_imp, M_imm, M_acc, M_imm,
     M_abso, M_abso, M_abso, M_abso,
     M_rel, M_indy, M_imp, M_indy, M_zpx, M_zpx, M_zpx, M_zpx, M_imp, M_absy, M_imp,
     M_absy, M_absx, M_absx, M_absx, M_absx,
     M_imp, M_indx, M_imp, M_indx, M_zp, M_zp, M_zp, M_zp, M_imp, M_imm, M_acc, M_imm,
     M_abso, M_abso, M_abso, M_abso,
     M_rel, M_indy, M_imp, M_indy, M_zpx, M_zpx, M_zpx, M_zpx, M_imp, M_absy, M_imp,
     M_absy, M_absx, M_absx, M_absx, M_absx,
     M_imp, M_indx, M_imp, M_indx, M_zp, M_zp, M_zp, M_zp, M_imp, M_imm, M_acc, M_imm,
     M_ind, M_abso, M_abso, M_abso,
     M_rel, M_indy, M_imp, M_indy, M_zpx, M_zpx, M_zpx, M_zpx, M_imp, M_absy, M_imp,
     M_absy, M_absx, M_absx, M_absx, M_absx,
     M_imm, M_indx, M_imm, M_indx, M_zp, M_zp, M_zp, M_zp, M_imp, M_imm, M_imp, M_imm,
     M_abso, M_abso, M_abso, M_abso,
     M_rel, M_indy, M_imp, M_indy, M_zpx, M_zpx, M_zpy, M_zpy, M_imp, M_absy, M_imp,
     M_absy, M_absx, M_absx, M_absy, M_absy,
     M_imm, M_indx, M_imm, M_indx, M_zp, M_zp, M_zp, M_zp, M_imp, M_imm, M_imp, M_imm,
     M_abso, M_abso, M_abso, M_abso,
     M_rel, M_indy, M_imp, M_indy, M_zpx, M_zpx, M_zpy, M_zpy, M_imp, M_absy, M_imp,
     M_absy, M_absx, M_absx, M_absy, M_absy,
     M_imm, M_indx, M_imm, M_indx, M_zp, M_zp, M_zp, M_zp, M_imp, M_imm, M_imp, M_imm,
     M_abso, M_abso, M_abso, M_abso,
     M_rel, M_indy, M_imp, M_indy, M_zpx, M_zpx, M_zpx, M_zpx, M_imp, M_absy, M_imp,
     M_absy, M_absx, M_absx, M_absx, M_absx,
     M_imm, M_indx, M_imm, M_indx, M_zp, M_zp, M_zp, M_zp, M_imp, M_imm, M_imp, M_imm,
     M_abso, M_abso, M_abso, M_abso,
     M_rel, M_indy, M_imp, M_indy, M_zpx, M_zpx, M_zpx, M_zpx, M_imp, M_absy, M_imp,
     M_absy, M_absx, M_absx, M_absx, M_absx]"

definition ticktable_nmos :: "u32 list" where
  "ticktable_nmos = [
     7, 6, 2, 8, 3, 3, 5, 5, 3, 2, 2, 2, 4, 4, 6, 6,
     2, 5, 2, 8, 4, 4, 6, 6, 2, 4, 2, 7, 4, 4, 7, 7,
     6, 6, 2, 8, 3, 3, 5, 5, 4, 2, 2, 2, 4, 4, 6, 6,
     2, 5, 2, 8, 4, 4, 6, 6, 2, 4, 2, 7, 4, 4, 7, 7,
     6, 6, 2, 8, 3, 3, 5, 5, 3, 2, 2, 2, 3, 4, 6, 6,
     2, 5, 2, 8, 4, 4, 6, 6, 2, 4, 2, 7, 4, 4, 7, 7,
     6, 6, 2, 8, 3, 3, 5, 5, 4, 2, 2, 2, 5, 4, 6, 6,
     2, 5, 2, 8, 4, 4, 6, 6, 2, 4, 2, 7, 4, 4, 7, 7,
     2, 6, 2, 6, 3, 3, 3, 3, 2, 2, 2, 2, 4, 4, 4, 4,
     2, 6, 2, 6, 4, 4, 4, 4, 2, 5, 2, 5, 5, 5, 5, 5,
     2, 6, 2, 6, 3, 3, 3, 3, 2, 2, 2, 2, 4, 4, 4, 4,
     2, 5, 2, 5, 4, 4, 4, 4, 2, 4, 2, 4, 4, 4, 4, 4,
     2, 6, 2, 8, 3, 3, 5, 5, 2, 2, 2, 2, 4, 4, 6, 6,
     2, 5, 2, 8, 4, 4, 6, 6, 2, 4, 2, 7, 4, 4, 7, 7,
     2, 6, 2, 8, 3, 3, 5, 5, 2, 2, 2, 2, 4, 4, 6, 6,
     2, 5, 2, 8, 4, 4, 6, 6, 2, 4, 2, 7, 4, 4, 7, 7]"

section \<open>65C02\<close>

definition addrtable_65c02 :: "amode list" where
  "addrtable_65c02 = [
     M_imp, M_indx, M_imm, M_imp, M_zp, M_zp, M_zp, M_zp, M_imp, M_imm, M_acc, M_imp,
     M_abso, M_abso, M_abso, M_zp,
     M_rel, M_indy, M_ind_zp, M_imp, M_zp, M_zpx, M_zpx, M_zp, M_imp, M_absy, M_acc,
     M_imp, M_abso, M_absx, M_absx, M_zp,
     M_abso, M_indx, M_imm, M_imp, M_zp, M_zp, M_zp, M_zp, M_imp, M_imm, M_acc, M_imp,
     M_abso, M_abso, M_abso, M_zp,
     M_rel, M_indy, M_ind_zp, M_imp, M_zpx, M_zpx, M_zpx, M_zp, M_imp, M_absy, M_acc,
     M_imp, M_absx, M_absx, M_absx, M_zp,
     M_imp, M_indx, M_imm, M_imp, M_zp, M_zp, M_zp, M_zp, M_imp, M_imm, M_acc, M_imp,
     M_abso, M_abso, M_abso, M_zp,
     M_rel, M_indy, M_ind_zp, M_imp, M_zpx, M_zpx, M_zpx, M_zp, M_imp, M_absy, M_imp,
     M_imp, M_abso, M_absx, M_absx, M_zp,
     M_imp, M_indx, M_imm, M_imp, M_zp, M_zp, M_zp, M_zp, M_imp, M_imm, M_acc, M_imp,
     M_ind_65c02, M_abso, M_abso, M_zp,
     M_rel, M_indy, M_ind_zp, M_imp, M_zpx, M_zpx, M_zpx, M_zp, M_imp, M_absy, M_imp,
     M_imp, M_ind_absx, M_absx, M_absx, M_zp,
     M_rel, M_indx, M_imm, M_imp, M_zp, M_zp, M_zp, M_zp, M_imp, M_imm, M_imp, M_imp,
     M_abso, M_abso, M_abso, M_zp,
     M_rel, M_indy, M_ind_zp, M_imp, M_zpx, M_zpx, M_zpy, M_zp, M_imp, M_absy, M_imp,
     M_imp, M_abso, M_absx, M_absx, M_zp,
     M_imm, M_indx, M_imm, M_imp, M_zp, M_zp, M_zp, M_zp, M_imp, M_imm, M_imp, M_imp,
     M_abso, M_abso, M_abso, M_zp,
     M_rel, M_indy, M_ind_zp, M_imp, M_zpx, M_zpx, M_zpy, M_zp, M_imp, M_absy, M_imp,
     M_imp, M_absx, M_absx, M_absy, M_zp,
     M_imm, M_indx, M_imm, M_imp, M_zp, M_zp, M_zp, M_zp, M_imp, M_imm, M_imp, M_imp,
     M_abso, M_abso, M_abso, M_zp,
     M_rel, M_indy, M_ind_zp, M_imp, M_zpx, M_zpx, M_zpx, M_zp, M_imp, M_absy, M_imp,
     M_imp, M_abso, M_absx, M_absx, M_zp,
     M_imm, M_indx, M_imm, M_imp, M_zp, M_zp, M_zp, M_zp, M_imp, M_imm, M_imp, M_imp,
     M_abso, M_abso, M_abso, M_zp,
     M_rel, M_indy, M_ind_zp, M_imp, M_zpx, M_zpx, M_zpx, M_zp, M_imp, M_absy, M_imp,
     M_imp, M_abso, M_absx, M_absx, M_zp]"

definition ticktable_65c02 :: "u32 list" where
  "ticktable_65c02 = [
     7, 6, 2, 1, 5, 3, 5, 5, 3, 2, 2, 1, 6, 4, 6, 5,
     2, 5, 5, 1, 5, 4, 6, 5, 2, 4, 2, 1, 6, 4, 7, 5,
     6, 6, 2, 1, 3, 3, 5, 5, 4, 2, 2, 1, 4, 4, 6, 5,
     2, 5, 5, 1, 4, 4, 6, 5, 2, 4, 2, 1, 4, 4, 7, 5,
     6, 6, 2, 1, 3, 3, 5, 5, 3, 2, 2, 1, 3, 4, 6, 5,
     2, 5, 5, 1, 4, 4, 6, 5, 2, 4, 3, 1, 8, 4, 7, 5,
     6, 6, 2, 1, 3, 3, 5, 5, 4, 2, 2, 1, 5, 4, 6, 5,
     2, 5, 5, 1, 4, 4, 6, 5, 2, 4, 4, 1, 6, 4, 7, 5,
     2, 6, 2, 1, 3, 3, 3, 5, 2, 2, 2, 1, 4, 4, 4, 5,
     2, 6, 5, 1, 4, 4, 4, 5, 2, 5, 2, 1, 4, 5, 5, 5,
     2, 6, 2, 1, 3, 3, 3, 5, 2, 2, 2, 1, 4, 4, 4, 5,
     2, 5, 5, 1, 4, 4, 4, 5, 2, 4, 2, 1, 4, 4, 4, 5,
     2, 6, 2, 1, 3, 3, 5, 5, 2, 2, 2, 3, 4, 4, 6, 5,
     2, 5, 5, 1, 4, 4, 6, 5, 2, 4, 3, 3, 4, 4, 7, 5,
     2, 6, 2, 1, 3, 3, 5, 5, 2, 2, 2, 1, 4, 4, 6, 5,
     2, 5, 5, 1, 4, 4, 6, 5, 2, 4, 4, 1, 4, 4, 7, 5]"

section \<open>Selection\<close>

text \<open>
  \<open>cpu_select_tables\<close> points \<open>addrtable\<close> and \<open>ticktable\<close> at the tables of a
  variant; the state keeps which (\<open>cpu_tables\<close>), and these read through the pointers.
\<close>

fun addrtable :: "cpu_variant \<Rightarrow> u8 \<Rightarrow> amode" where
  "addrtable CPU_65C02 opc = addrtable_65c02 ! unat opc"
| "addrtable CPU_NMOS opc = addrtable_nmos ! unat opc"

fun ticktable :: "cpu_variant \<Rightarrow> u8 \<Rightarrow> u32" where
  "ticktable CPU_65C02 opc = ticktable_65c02 ! unat opc"
| "ticktable CPU_NMOS opc = ticktable_nmos ! unat opc"

section \<open>Facts about whole tables\<close>

lemma table_lengths:
  "length addrtable_nmos = 256" "length ticktable_nmos = 256"
  "length addrtable_65c02 = 256" "length ticktable_65c02 = 256"
  by (simp_all add: addrtable_nmos_def ticktable_nmos_def addrtable_65c02_def
      ticktable_65c02_def)

lemma list_all_nth_u8:
  "list_all P xs \<Longrightarrow> length xs = 256 \<Longrightarrow> P (xs ! unat (i :: u8))"
  by (simp add: list_all_length unat_u8_less)

lemma list_all_zip_nth_u8:
  assumes "list_all (\<lambda>(x, y). P x y) (zip xs ys)" "length xs = 256" "length ys = 256"
  shows "P (xs ! unat (i :: u8)) (ys ! unat i)"
proof -
  have "unat i < length (zip xs ys)" using assms(2,3) by (simp add: unat_u8_less)
  with assms(1) have "(\<lambda>(x, y). P x y) (zip xs ys ! unat i)" by (simp only: list_all_length)
  then show ?thesis using assms(2,3) by (simp add: unat_u8_less)
qed

lemma ticktable_bounds: "1 \<le> ticktable v opc \<and> ticktable v opc \<le> 8"
proof -
  have n: "list_all (\<lambda>t. 1 \<le> t \<and> t \<le> (8 :: u32)) ticktable_nmos"
    by (simp add: ticktable_nmos_def)
  have c: "list_all (\<lambda>t. 1 \<le> t \<and> t \<le> (8 :: u32)) ticktable_65c02"
    by (simp add: ticktable_65c02_def)
  show ?thesis
    by (cases v) (simp_all only: ticktable.simps list_all_nth_u8[OF n table_lengths(2)]
        list_all_nth_u8[OF c table_lengths(4)])
qed

end
