(* ===== verification/Cpu_State.thy ===== *)
theory Cpu_State imports Cpu_Tables begin

text \<open>
  The state of the CPU core (the file-scope variables of \<open>src/emulator/cpu_core.c\<close>), its
  memory interface, the stack helpers and the reset. What the host provides (the memory
  behind \<open>read6502\<close>/\<open>write6502\<close> or behind the external hooks, and the bus taps) is the
  type parameter \<open>'h\<close> and the functions of the \<open>hooks\<close> record.
\<close>

section \<open>State\<close>

record 'h hooks =
  read6502 :: "u16 \<Rightarrow> 'h \<Rightarrow> u8 \<times> 'h"
  write6502 :: "u16 \<Rightarrow> u8 \<Rightarrow> 'h \<Rightarrow> 'h"
  cpu_external_read :: "(u16 \<Rightarrow> 'h \<Rightarrow> u8 \<times> 'h) option"
  cpu_external_write :: "(u16 \<Rightarrow> u8 \<Rightarrow> 'h \<Rightarrow> 'h) option"
  cpu_bus_read_tap :: "(u16 \<Rightarrow> u8 \<Rightarrow> 'h \<Rightarrow> 'h) option"
  cpu_bus_write_tap :: "(u16 \<Rightarrow> u8 \<Rightarrow> 'h \<Rightarrow> 'h) option"
  loopexternal :: "'h \<Rightarrow> 'h"

record 'h cpu =
  cpu_pc :: u16
  cpu_sp :: u8
  cpu_a :: u8
  cpu_x :: u8
  cpu_y :: u8
  cpu_status :: u8
  cpu_variant_sel :: cpu_variant
  wai_pending :: bool
  stp_pending :: bool
  instructions :: u32
  clockticks6502 :: u64
  clockgoal6502 :: u64
  cpu_oldpc :: u16
  cpu_ea :: u16
  cpu_reladdr :: u16
  cpu_value :: u16
  cpu_result :: u16
  cpu_opcode :: u8
  cpu_tables :: cpu_variant
  penaltyop :: bool
  penaltyaddr :: bool
  callexternal :: bool
  cpu_hooks :: "'h hooks"
  cpu_host :: 'h

section \<open>Status flags\<close>

abbreviation (input) FLAG_CARRY :: u8 where "FLAG_CARRY \<equiv> 0x01"
abbreviation (input) FLAG_ZERO :: u8 where "FLAG_ZERO \<equiv> 0x02"
abbreviation (input) FLAG_INTERRUPT :: u8 where "FLAG_INTERRUPT \<equiv> 0x04"
abbreviation (input) FLAG_DECIMAL :: u8 where "FLAG_DECIMAL \<equiv> 0x08"
abbreviation (input) FLAG_BREAK :: u8 where "FLAG_BREAK \<equiv> 0x10"
abbreviation (input) FLAG_CONSTANT :: u8 where "FLAG_CONSTANT \<equiv> 0x20"
abbreviation (input) FLAG_OVERFLOW :: u8 where "FLAG_OVERFLOW \<equiv> 0x40"
abbreviation (input) FLAG_SIGN :: u8 where "FLAG_SIGN \<equiv> 0x80"

text \<open>The \<open>setX\<close> and \<open>clearX\<close> macros, by the flag they set or clear.\<close>

definition setflag :: "u8 \<Rightarrow> 'h cpu \<Rightarrow> 'h cpu" where
  "setflag f s = s\<lparr>cpu_status := cpu_status s OR f\<rparr>"

definition clearflag :: "u8 \<Rightarrow> 'h cpu \<Rightarrow> 'h cpu" where
  "clearflag f s = s\<lparr>cpu_status := cpu_status s AND NOT f\<rparr>"

definition zerocalc :: "u16 \<Rightarrow> 'h cpu \<Rightarrow> 'h cpu" where
  "zerocalc n s = (if n AND 0x00FF \<noteq> 0 then clearflag FLAG_ZERO s else setflag FLAG_ZERO s)"

definition signcalc :: "u16 \<Rightarrow> 'h cpu \<Rightarrow> 'h cpu" where
  "signcalc n s = (if n AND 0x0080 \<noteq> 0 then setflag FLAG_SIGN s else clearflag FLAG_SIGN s)"

definition carrycalc :: "u16 \<Rightarrow> 'h cpu \<Rightarrow> 'h cpu" where
  "carrycalc n s = (if n AND 0xFF00 \<noteq> 0 then setflag FLAG_CARRY s else clearflag FLAG_CARRY s)"

definition overflowcalc :: "u16 \<Rightarrow> u16 \<Rightarrow> u16 \<Rightarrow> 'h cpu \<Rightarrow> 'h cpu" where
  "overflowcalc n m v s =
     (if (n XOR m) AND (n XOR v) AND 0x0080 \<noteq> 0
      then setflag FLAG_OVERFLOW s else clearflag FLAG_OVERFLOW s)"

definition saveaccum :: "u16 \<Rightarrow> 'h cpu \<Rightarrow> 'h cpu" where
  [flag_simps]: "saveaccum n s = s\<lparr>cpu_a := to8 (n AND 0x00FF)\<rparr>"

abbreviation flag_set :: "u8 \<Rightarrow> 'h cpu \<Rightarrow> bool" where
  "flag_set f s \<equiv> cpu_status s AND f \<noteq> 0"

section \<open>Memory accesses\<close>

text \<open>One access to the host: the external hook if there is one, then the tap.\<close>

definition host_read :: "'h hooks \<Rightarrow> u16 \<Rightarrow> 'h \<Rightarrow> u8 \<times> 'h" where
  "host_read k addr h =
     (let (v, h1) = (case cpu_external_read k of
                       Some f \<Rightarrow> f addr h | None \<Rightarrow> read6502 k addr h)
      in (v, case cpu_bus_read_tap k of Some t \<Rightarrow> t addr v h1 | None \<Rightarrow> h1))"

definition host_write :: "'h hooks \<Rightarrow> u16 \<Rightarrow> u8 \<Rightarrow> 'h \<Rightarrow> 'h" where
  "host_write k addr v h =
     (let h1 = (case cpu_external_write k of
                  Some f \<Rightarrow> f addr v h | None \<Rightarrow> write6502 k addr v h)
      in (case cpu_bus_write_tap k of Some t \<Rightarrow> t addr v h1 | None \<Rightarrow> h1))"

definition cpu_read :: "u16 \<Rightarrow> 'h cpu \<Rightarrow> u8 \<times> 'h cpu" where
  "cpu_read addr s =
     (let (v, h) = host_read (cpu_hooks s) addr (cpu_host s) in (v, s\<lparr>cpu_host := h\<rparr>))"

definition cpu_write :: "u16 \<Rightarrow> u8 \<Rightarrow> 'h cpu \<Rightarrow> 'h cpu" where
  "cpu_write addr v s = s\<lparr>cpu_host := host_write (cpu_hooks s) addr v (cpu_host s)\<rparr>"

text \<open>
  Two bytes read from two addresses and put together, low byte first. The C code writes
  \<open>cpu_read(lo) | (cpu_read(hi) << 8)\<close>, whose operands C may evaluate in either order; the
  model takes them from left to right, the order the hardware reads them in.
\<close>

definition read_pair :: "u16 \<Rightarrow> u16 \<Rightarrow> 'h cpu \<Rightarrow> u16 \<times> 'h cpu" where
  "read_pair lo hi s =
     (let (l, s1) = cpu_read lo s; (h, s2) = cpu_read hi s1
      in (to16 l OR push_bit 8 (to16 h), s2))"

section \<open>Stack\<close>

definition BASE_STACK :: u16 where "BASE_STACK = 0x100"

definition push16 :: "u16 \<Rightarrow> 'h cpu \<Rightarrow> 'h cpu" where
  "push16 pushval s =
     (let s1 = cpu_write (BASE_STACK + to16 (cpu_sp s)) (to8 (drop_bit 8 pushval AND 0xFF)) s;
          s2 = cpu_write (BASE_STACK + ((to16 (cpu_sp s1) - 1) AND 0xFF))
                 (to8 (pushval AND 0xFF)) s1
      in s2\<lparr>cpu_sp := cpu_sp s2 - 2\<rparr>)"

definition push8 :: "u8 \<Rightarrow> 'h cpu \<Rightarrow> 'h cpu" where
  "push8 pushval s =
     cpu_write (BASE_STACK + to16 (cpu_sp s)) pushval (s\<lparr>cpu_sp := cpu_sp s - 1\<rparr>)"

definition pull16 :: "'h cpu \<Rightarrow> u16 \<times> 'h cpu" where
  "pull16 s =
     (let (w, s1) = read_pair (BASE_STACK + ((to16 (cpu_sp s) + 1) AND 0xFF))
                      (BASE_STACK + ((to16 (cpu_sp s) + 2) AND 0xFF)) s
      in (w, s1\<lparr>cpu_sp := cpu_sp s1 + 2\<rparr>))"

definition pull8 :: "'h cpu \<Rightarrow> u8 \<times> 'h cpu" where
  "pull8 s =
     (let s1 = s\<lparr>cpu_sp := cpu_sp s + 1\<rparr>
      in cpu_read (BASE_STACK + to16 (cpu_sp s1)) s1)"

section \<open>Reset and the pending flags\<close>

definition reset6502 :: "'h cpu \<Rightarrow> 'h cpu" where
  "reset6502 s =
     (let (w, s1) = read_pair 0xFFFC 0xFFFD s
      in s1\<lparr>cpu_pc := w, cpu_a := 0, cpu_x := 0, cpu_y := 0, cpu_sp := 0xFD,
            cpu_status := cpu_status s1 OR FLAG_CONSTANT,
            wai_pending := False, stp_pending := False\<rparr>)"

definition cpu_clear_wai :: "'h cpu \<Rightarrow> 'h cpu" where
  "cpu_clear_wai s = s\<lparr>wai_pending := False\<rparr>"

definition hookexternal :: "('h \<Rightarrow> 'h) option \<Rightarrow> 'h cpu \<Rightarrow> 'h cpu" where
  "hookexternal f s = (case f of
     Some g \<Rightarrow> s\<lparr>cpu_hooks := (cpu_hooks s)\<lparr>loopexternal := g\<rparr>, callexternal := True\<rparr>
   | None \<Rightarrow> s\<lparr>callexternal := False\<rparr>)"

section \<open>Accesses and macros as record updates\<close>

text \<open>
  Every flag macro only rewrites the status byte, and every memory access only the host.
  Stated as one update each, they let the record simplifier carry all frame reasoning.
\<close>

definition put_flag :: "u8 \<Rightarrow> bool \<Rightarrow> u8 \<Rightarrow> u8" where
  "put_flag f b p = (if b then p OR f else p AND NOT f)"

lemma setflag_eq [flag_simps]: "setflag f s = s\<lparr>cpu_status := put_flag f True (cpu_status s)\<rparr>"
  by (simp add: setflag_def put_flag_def)

lemma clearflag_eq [flag_simps]:
  "clearflag f s = s\<lparr>cpu_status := put_flag f False (cpu_status s)\<rparr>"
  by (simp add: clearflag_def put_flag_def)

lemma zerocalc_eq [flag_simps]:
  "zerocalc n s = s\<lparr>cpu_status := put_flag FLAG_ZERO (n AND 0x00FF = 0) (cpu_status s)\<rparr>"
  by (simp add: zerocalc_def flag_simps)

lemma signcalc_eq [flag_simps]:
  "signcalc n s = s\<lparr>cpu_status := put_flag FLAG_SIGN (n AND 0x0080 \<noteq> 0) (cpu_status s)\<rparr>"
  by (simp add: signcalc_def flag_simps)

lemma carrycalc_eq [flag_simps]:
  "carrycalc n s = s\<lparr>cpu_status := put_flag FLAG_CARRY (n AND 0xFF00 \<noteq> 0) (cpu_status s)\<rparr>"
  by (simp add: carrycalc_def flag_simps)

lemma overflowcalc_eq [flag_simps]:
  "overflowcalc n m v s = s\<lparr>cpu_status :=
     put_flag FLAG_OVERFLOW ((n XOR m) AND (n XOR v) AND 0x0080 \<noteq> 0) (cpu_status s)\<rparr>"
  by (simp add: overflowcalc_def flag_simps)

lemma bit_put_flag [simp]:
  "bit (put_flag 0x01 b p) i = (if i = 0 then b else bit p i)"
  "bit (put_flag 0x02 b p) i = (if i = 1 then b else bit p i)"
  "bit (put_flag 0x04 b p) i = (if i = 2 then b else bit p i)"
  "bit (put_flag 0x08 b p) i = (if i = 3 then b else bit p i)"
  "bit (put_flag 0x10 b p) i = (if i = 4 then b else bit p i)"
  "bit (put_flag 0x20 b p) i = (if i = 5 then b else bit p i)"
  "bit (put_flag 0x40 b p) i = (if i = 6 then b else bit p i)"
  "bit (put_flag 0x80 b p) i = (if i = 7 then b else bit p i)"
  by (cases "i < 8"; auto simp: put_flag_def bit_simps less_Suc_eq numeral_eq_Suc)+

definition pair_val :: "'h hooks \<Rightarrow> u16 \<Rightarrow> u16 \<Rightarrow> 'h \<Rightarrow> u16" where
  "pair_val k lo hi h =
     to16 (fst (host_read k lo h)) OR
     push_bit 8 (to16 (fst (host_read k hi (snd (host_read k lo h)))))"

definition pair_host :: "'h hooks \<Rightarrow> u16 \<Rightarrow> u16 \<Rightarrow> 'h \<Rightarrow> 'h" where
  "pair_host k lo hi h = snd (host_read k hi (snd (host_read k lo h)))"

lemma cpu_read_eq [cpu_frame]:
  "cpu_read addr s = (fst (host_read (cpu_hooks s) addr (cpu_host s)),
     s\<lparr>cpu_host := snd (host_read (cpu_hooks s) addr (cpu_host s))\<rparr>)"
  by (simp add: cpu_read_def split_def Let_def)

lemma read_pair_eq [cpu_frame]:
  "read_pair lo hi s = (pair_val (cpu_hooks s) lo hi (cpu_host s),
     s\<lparr>cpu_host := pair_host (cpu_hooks s) lo hi (cpu_host s)\<rparr>)"
  by (simp add: read_pair_def cpu_read_eq pair_val_def pair_host_def split_def Let_def)

lemma cpu_write_eq [cpu_frame]:
  "cpu_write addr v s = s\<lparr>cpu_host := host_write (cpu_hooks s) addr v (cpu_host s)\<rparr>"
  by (fact cpu_write_def)

lemma push8_eq [cpu_frame]:
  "push8 v s = s\<lparr>cpu_host := host_write (cpu_hooks s) (BASE_STACK + to16 (cpu_sp s)) v (cpu_host s),
     cpu_sp := cpu_sp s - 1\<rparr>"
  by (simp add: push8_def cpu_write_def)

lemma pull8_eq [cpu_frame]:
  "pull8 s = (fst (host_read (cpu_hooks s) (BASE_STACK + to16 (cpu_sp s + 1)) (cpu_host s)),
     s\<lparr>cpu_sp := cpu_sp s + 1,
       cpu_host := snd (host_read (cpu_hooks s) (BASE_STACK + to16 (cpu_sp s + 1)) (cpu_host s))\<rparr>)"
  by (simp add: pull8_def cpu_read_eq)

text \<open>The address arithmetic of the stack helpers stays inside page one.\<close>

lemma stack_index:
  "(to16 w - 1) AND 0xFF = to16 (w - 1)"
  "(to16 w + 1) AND 0xFF = to16 (w + 1)"
  "(to16 w + 2) AND 0xFF = to16 (w + 2)"
  by (simp_all add: and_FF_u16 to8_plus to8_minus)

lemma push16_eq [cpu_frame]:
  "push16 w s = s\<lparr>cpu_host := host_write (cpu_hooks s) (BASE_STACK + to16 (cpu_sp s - 1)) (to8 w)
       (host_write (cpu_hooks s) (BASE_STACK + to16 (cpu_sp s)) (to8 (drop_bit 8 w)) (cpu_host s)),
     cpu_sp := cpu_sp s - 2\<rparr>"
  by (simp add: push16_def cpu_write_def Let_def and_FF_u16 to8_minus)

lemma pull16_eq [cpu_frame]:
  "pull16 s = (pair_val (cpu_hooks s) (BASE_STACK + to16 (cpu_sp s + 1))
       (BASE_STACK + to16 (cpu_sp s + 2)) (cpu_host s),
     s\<lparr>cpu_host := pair_host (cpu_hooks s) (BASE_STACK + to16 (cpu_sp s + 1))
         (BASE_STACK + to16 (cpu_sp s + 2)) (cpu_host s),
       cpu_sp := cpu_sp s + 2\<rparr>)"
  by (simp add: pull16_def read_pair_eq stack_index Let_def)

section \<open>Power-on, and a host that is plain memory\<close>

text \<open>
  The C variables start zeroed. \<open>flat_hooks\<close> is the simplest host, 64K of memory and no
  hook or tap, on which concrete instances are evaluated.
\<close>

definition power_on :: "'h hooks \<Rightarrow> 'h \<Rightarrow> 'h cpu" where
  "power_on k h = \<lparr>cpu_pc = 0, cpu_sp = 0, cpu_a = 0, cpu_x = 0, cpu_y = 0, cpu_status = 0,
     cpu_variant_sel = CPU_NMOS, wai_pending = False, stp_pending = False, instructions = 0,
     clockticks6502 = 0, clockgoal6502 = 0, cpu_oldpc = 0, cpu_ea = 0, cpu_reladdr = 0,
     cpu_value = 0, cpu_result = 0, cpu_opcode = 0, cpu_tables = CPU_NMOS, penaltyop = False,
     penaltyaddr = False, callexternal = False, cpu_hooks = k, cpu_host = h\<rparr>"

definition flat_hooks :: "(u16 \<Rightarrow> u8) hooks" where
  "flat_hooks = \<lparr>read6502 = (\<lambda>a m. (m a, m)), write6502 = (\<lambda>a v m. m(a := v)),
     cpu_external_read = None, cpu_external_write = None, cpu_bus_read_tap = None,
     cpu_bus_write_tap = None, loopexternal = (\<lambda>m. m)\<rparr>"

lemma flat_host [simp]:
  "host_read flat_hooks a m = (m a, m)" "host_write flat_hooks a v m = m(a := v)"
  by (simp_all add: host_read_def host_write_def flat_hooks_def)

lemma power_on_fields [simp]:
  "cpu_hooks (power_on k h) = k" "cpu_host (power_on k h) = h" "cpu_status (power_on k h) = 0"
  "cpu_tables (power_on k h) = CPU_NMOS" "cpu_opcode (power_on k h) = 0"
  "cpu_ea (power_on k h) = 0" "cpu_a (power_on k h) = 0" "cpu_x (power_on k h) = 0"
  "cpu_y (power_on k h) = 0" "cpu_pc (power_on k h) = 0" "cpu_sp (power_on k h) = 0"
  "clockticks6502 (power_on k h) = 0" "clockgoal6502 (power_on k h) = 0"
  "penaltyop (power_on k h) = False" "penaltyaddr (power_on k h) = False"
  "cpu_variant_sel (power_on k h) = CPU_NMOS" "wai_pending (power_on k h) = False"
  "stp_pending (power_on k h) = False" "callexternal (power_on k h) = False"
  "instructions (power_on k h) = 0"
  by (simp_all add: power_on_def)

end
