(* ===== verification/Cpu_Addr.thy ===== *)
theory Cpu_Addr imports Cpu_State begin

text \<open>
  The addressing mode functions of \<open>src/emulator/cpu_core.c\<close>, which compute the effective
  address (or the branch offset) and step the program counter over the operand, and the
  operand accesses \<open>getvalue\<close> and \<open>putvalue\<close>.
\<close>

section \<open>Addressing modes\<close>

definition imp_mode :: "'h cpu \<Rightarrow> 'h cpu" where
  "imp_mode s = s"

definition acc_mode :: "'h cpu \<Rightarrow> 'h cpu" where
  "acc_mode s = s"

definition imm_mode :: "'h cpu \<Rightarrow> 'h cpu" where
  [mode_defs]: "imm_mode s = s\<lparr>cpu_ea := cpu_pc s, cpu_pc := cpu_pc s + 1\<rparr>"

text \<open>\<open>cpu_read(pc++)\<close>: the byte at the program counter, which moves on.\<close>

definition fetch :: "'h cpu \<Rightarrow> u8 \<times> 'h cpu" where
  "fetch s = (let (v, s1) = cpu_read (cpu_pc s) s in (v, s1\<lparr>cpu_pc := cpu_pc s1 + 1\<rparr>))"

definition zp_mode :: "'h cpu \<Rightarrow> 'h cpu" where
  [mode_defs]: "zp_mode s = (let (v, s1) = fetch s in s1\<lparr>cpu_ea := to16 v\<rparr>)"

definition zpx_mode :: "'h cpu \<Rightarrow> 'h cpu" where
  [mode_defs]: "zpx_mode s =
     (let (v, s1) = fetch s in s1\<lparr>cpu_ea := (to16 v + to16 (cpu_x s1)) AND 0xFF\<rparr>)"

definition zpy_mode :: "'h cpu \<Rightarrow> 'h cpu" where
  [mode_defs]: "zpy_mode s =
     (let (v, s1) = fetch s in s1\<lparr>cpu_ea := (to16 v + to16 (cpu_y s1)) AND 0xFF\<rparr>)"

definition rel_mode :: "'h cpu \<Rightarrow> 'h cpu" where
  [mode_defs]: "rel_mode s =
     (let (v, s1) = fetch s; r = to16 v
      in s1\<lparr>cpu_reladdr := (if r AND 0x80 \<noteq> 0 then r OR 0xFF00 else r)\<rparr>)"

definition abso_mode :: "'h cpu \<Rightarrow> 'h cpu" where
  [mode_defs]: "abso_mode s =
     (let (w, s1) = read_pair (cpu_pc s) (cpu_pc s + 1) s
      in s1\<lparr>cpu_ea := w, cpu_pc := cpu_pc s1 + 2\<rparr>)"

text \<open>The indexing part of \<open>absx\<close>, \<open>absy\<close> and \<open>indy\<close>: a page crossing is remembered.\<close>

definition index_ea :: "u16 \<Rightarrow> u8 \<Rightarrow> 'h cpu \<Rightarrow> 'h cpu" where
  "index_ea base i s =
     (let ea = base + to16 i
      in s\<lparr>cpu_ea := ea,
           penaltyaddr := (if base AND 0xFF00 \<noteq> ea AND 0xFF00 then True else penaltyaddr s)\<rparr>)"

definition absx_mode :: "'h cpu \<Rightarrow> 'h cpu" where
  [mode_defs]: "absx_mode s =
     (let (w, s1) = read_pair (cpu_pc s) (cpu_pc s + 1) s; s2 = index_ea w (cpu_x s1) s1
      in s2\<lparr>cpu_pc := cpu_pc s2 + 2\<rparr>)"

definition absy_mode :: "'h cpu \<Rightarrow> 'h cpu" where
  [mode_defs]: "absy_mode s =
     (let (w, s1) = read_pair (cpu_pc s) (cpu_pc s + 1) s; s2 = index_ea w (cpu_y s1) s1
      in s2\<lparr>cpu_pc := cpu_pc s2 + 2\<rparr>)"

definition ind_mode :: "'h cpu \<Rightarrow> 'h cpu" where
  [mode_defs]: "ind_mode s =
     (let (eahelp, s1) = read_pair (cpu_pc s) (cpu_pc s + 1) s;
          eahelp2 = (eahelp AND 0xFF00) OR ((eahelp + 1) AND 0x00FF);
          (w, s2) = read_pair eahelp eahelp2 s1
      in s2\<lparr>cpu_ea := w, cpu_pc := cpu_pc s2 + 2\<rparr>)"

definition ind_65c02_mode :: "'h cpu \<Rightarrow> 'h cpu" where
  [mode_defs]: "ind_65c02_mode s =
     (let (eahelp, s1) = read_pair (cpu_pc s) (cpu_pc s + 1) s;
          (w, s2) = read_pair eahelp (eahelp + 1) s1
      in s2\<lparr>cpu_ea := w, cpu_pc := cpu_pc s2 + 2\<rparr>)"

definition ind_zp_mode :: "'h cpu \<Rightarrow> 'h cpu" where
  [mode_defs]: "ind_zp_mode s =
     (let (zp, s1) = fetch s; (w, s2) = read_pair (to16 zp) (to16 (zp + 1)) s1
      in s2\<lparr>cpu_ea := w\<rparr>)"

definition ind_absx_mode :: "'h cpu \<Rightarrow> 'h cpu" where
  [mode_defs]: "ind_absx_mode s =
     (let (b, s1) = read_pair (cpu_pc s) (cpu_pc s + 1) s;
          base = b + to16 (cpu_x s1);
          (w, s2) = read_pair base (base + 1) s1
      in s2\<lparr>cpu_ea := w, cpu_pc := cpu_pc s2 + 2\<rparr>)"

definition indx_mode :: "'h cpu \<Rightarrow> 'h cpu" where
  [mode_defs]: "indx_mode s =
     (let (v, s1) = fetch s;
          eahelp = (to16 v + to16 (cpu_x s1)) AND 0xFF;
          (w, s2) = read_pair (eahelp AND 0x00FF) ((eahelp + 1) AND 0x00FF) s1
      in s2\<lparr>cpu_ea := w\<rparr>)"

definition indy_mode :: "'h cpu \<Rightarrow> 'h cpu" where
  [mode_defs]: "indy_mode s =
     (let (v, s1) = fetch s;
          eahelp = to16 v;
          eahelp2 = (eahelp AND 0xFF00) OR ((eahelp + 1) AND 0x00FF);
          (w, s2) = read_pair eahelp eahelp2 s1
      in index_ea w (cpu_y s2) s2)"

text \<open>The function a table entry names.\<close>

fun run_mode :: "amode \<Rightarrow> 'h cpu \<Rightarrow> 'h cpu" where
  "run_mode M_imp = imp_mode"
| "run_mode M_acc = acc_mode"
| "run_mode M_imm = imm_mode"
| "run_mode M_zp = zp_mode"
| "run_mode M_zpx = zpx_mode"
| "run_mode M_zpy = zpy_mode"
| "run_mode M_rel = rel_mode"
| "run_mode M_abso = abso_mode"
| "run_mode M_absx = absx_mode"
| "run_mode M_absy = absy_mode"
| "run_mode M_ind = ind_mode"
| "run_mode M_ind_65c02 = ind_65c02_mode"
| "run_mode M_ind_zp = ind_zp_mode"
| "run_mode M_ind_absx = ind_absx_mode"
| "run_mode M_indx = indx_mode"
| "run_mode M_indy = indy_mode"

section \<open>Operand access\<close>

definition acc_operand :: "'h cpu \<Rightarrow> bool" where
  "acc_operand s \<longleftrightarrow> addrtable (cpu_tables s) (cpu_opcode s) = M_acc"

definition getvalue :: "'h cpu \<Rightarrow> u16 \<times> 'h cpu" where
  "getvalue s =
     (if acc_operand s then (to16 (cpu_a s), s)
      else (let (v, s1) = cpu_read (cpu_ea s) s in (to16 v, s1)))"

definition putvalue :: "u16 \<Rightarrow> 'h cpu \<Rightarrow> 'h cpu" where
  "putvalue saveval s =
     (if acc_operand s then s\<lparr>cpu_a := to8 (saveval AND 0x00FF)\<rparr>
      else cpu_write (cpu_ea s) (to8 (saveval AND 0x00FF)) s)"

text \<open>\<open>value = getvalue()\<close>, as most handlers begin.\<close>

definition load_value :: "'h cpu \<Rightarrow> 'h cpu" where
  "load_value s = (let (v, s1) = getvalue s in s1\<lparr>cpu_value := v\<rparr>)"

definition operand :: "'h cpu \<Rightarrow> u8" where
  "operand s = (if acc_operand s then cpu_a s
     else fst (host_read (cpu_hooks s) (cpu_ea s) (cpu_host s)))"

definition operand_host :: "'h cpu \<Rightarrow> 'h" where
  "operand_host s = (if acc_operand s then cpu_host s
     else snd (host_read (cpu_hooks s) (cpu_ea s) (cpu_host s)))"

lemma fetch_eq [cpu_frame]:
  "fetch s = (fst (host_read (cpu_hooks s) (cpu_pc s) (cpu_host s)),
     s\<lparr>cpu_host := snd (host_read (cpu_hooks s) (cpu_pc s) (cpu_host s)),
       cpu_pc := cpu_pc s + 1\<rparr>)"
  by (simp add: fetch_def cpu_read_eq)

lemma index_ea_eq [cpu_frame]:
  "index_ea base i s = s\<lparr>cpu_ea := base + to16 i,
     penaltyaddr := (base AND 0xFF00 \<noteq> (base + to16 i) AND 0xFF00 \<or> penaltyaddr s)\<rparr>"
  by (simp add: index_ea_def Let_def)

lemma getvalue_eq [cpu_frame]:
  "getvalue s = (to16 (operand s), s\<lparr>cpu_host := operand_host s\<rparr>)"
  by (simp add: getvalue_def operand_def operand_host_def cpu_read_eq)

lemma load_value_eq [cpu_frame]:
  "load_value s = s\<lparr>cpu_host := operand_host s, cpu_value := to16 (operand s)\<rparr>"
  by (simp add: load_value_def getvalue_eq)

lemma putvalue_eq [cpu_frame]:
  "putvalue w s = s\<lparr>cpu_a := (if acc_operand s then to8 w else cpu_a s),
     cpu_host := (if acc_operand s then cpu_host s
       else host_write (cpu_hooks s) (cpu_ea s) (to8 w) (cpu_host s))\<rparr>"
  by (simp add: putvalue_def cpu_write_def and_FF_u16)

text \<open>Whether the accumulator is the operand depends on the fetched opcode alone.\<close>

lemma acc_operand_cong:
  "cpu_tables s = cpu_tables t \<Longrightarrow> cpu_opcode s = cpu_opcode t \<Longrightarrow>
   acc_operand s = acc_operand t"
  by (simp add: acc_operand_def)

end
