(* ===== verification/Cpu_Insn.thy ===== *)
theory Cpu_Insn imports Cpu_Addr begin

text \<open>
  The instruction handlers of \<open>src/emulator/cpu_core.c\<close>, one definition each, in the
  order of the source. Globals the C code uses as scratch (\<open>value\<close>, \<open>result\<close>, \<open>oldpc\<close>)
  are fields of the state and are written where the code writes them.
\<close>

section \<open>Arithmetic with carry\<close>

definition carry_in :: "'h cpu \<Rightarrow> u16" where
  "carry_in s = (if cpu_status s AND FLAG_CARRY \<noteq> 0 then 1 else 0)"

text \<open>The overflow test of the decimal paths: like signs in, another sign out.\<close>

definition overflow_like_signs :: "u16 \<Rightarrow> u16 \<Rightarrow> u16 \<Rightarrow> 'h cpu \<Rightarrow> 'h cpu" where
  "overflow_like_signs a m r s =
     (if (a XOR m) AND 0x80 = 0 \<and> (a XOR r) AND 0x80 \<noteq> 0
      then setflag FLAG_OVERFLOW s else clearflag FLAG_OVERFLOW s)"

text \<open>The digit-wise addition of the decimal path: the carry out and the byte.\<close>

definition bcd_add :: "u8 \<Rightarrow> u16 \<Rightarrow> u16 \<Rightarrow> bool \<times> u8" where
  "bcd_add a m c =
     (let lo = (to16 a AND 0x0F) + (m AND 0x0F) + c;
          hi = drop_bit 4 (to16 a) + drop_bit 4 m;
          (lo, hi) = (if lo > 9 then (lo - 10, hi + 1) else (lo, hi));
          (hi, cy) = (if hi > 9 then (hi - 10, True) else (hi, False))
      in (cy, to8 (push_bit 4 (hi AND 0x0F) OR (lo AND 0x0F))))"

text \<open>The digit-wise subtraction: \<open>lo\<close> and \<open>hi\<close> are \<open>int16_t\<close>, compared as signed.\<close>

definition bcd_sub :: "u8 \<Rightarrow> u16 \<Rightarrow> u16 \<Rightarrow> bool \<times> u8" where
  "bcd_sub a m c =
     (let lo = (to16 a AND 0x0F) - (m AND 0x0F) - (1 - c);
          hi = drop_bit 4 (to16 a) - drop_bit 4 m;
          (lo, hi) = (if lo <s 0 then (lo + 10, hi - 1) else (lo, hi));
          (hi, cy) = (if hi <s 0 then (hi + 10, False) else (hi, True))
      in (cy, to8 (push_bit 4 (hi AND 0x0F) OR (lo AND 0x0F))))"

definition put_carry :: "bool \<Rightarrow> 'h cpu \<Rightarrow> 'h cpu" where
  "put_carry cy s = (if cy then setflag FLAG_CARRY s else clearflag FLAG_CARRY s)"

text \<open>The binary path of ADC and SBC: add \<open>value\<close> and the carry to the accumulator.\<close>

definition add_binary :: "u16 \<Rightarrow> 'h cpu \<Rightarrow> 'h cpu" where
  "add_binary c s =
     (let r = to16 (cpu_a s) + cpu_value s + c;
          s = carrycalc r (s\<lparr>cpu_result := r\<rparr>);
          s = zerocalc r s;
          s = overflowcalc r (to16 (cpu_a s)) (cpu_value s) s
      in saveaccum r (signcalc r s))"

definition adc_insn :: "'h cpu \<Rightarrow> 'h cpu" where
  "adc_insn s =
     (let s = load_value (s\<lparr>penaltyop := True\<rparr>); c = carry_in s in
      if cpu_status s AND FLAG_DECIMAL \<noteq> 0 then
        let bin = to16 (cpu_a s) + cpu_value s + c;
            s = overflow_like_signs (to16 (cpu_a s)) (cpu_value s) bin s;
            s = signcalc bin (zerocalc bin s);
            (cy, r) = bcd_add (cpu_a s) (cpu_value s) c
        in (put_carry cy s)\<lparr>cpu_a := r\<rparr>
      else add_binary c s)"

definition adc_65c02_insn :: "'h cpu \<Rightarrow> 'h cpu" where
  "adc_65c02_insn s =
     (let c = carry_in s; s = load_value (s\<lparr>penaltyop := True\<rparr>) in
      if cpu_status s AND FLAG_DECIMAL \<noteq> 0 then
        let bin = to16 (cpu_a s) + cpu_value s + c;
            s = overflow_like_signs (to16 (cpu_a s)) (cpu_value s) bin s;
            (cy, r) = bcd_add (cpu_a s) (cpu_value s) c;
            s = put_carry cy s;
            s = (if r = 0 then setflag FLAG_ZERO s else clearflag FLAG_ZERO s);
            s = (if r AND 0x80 \<noteq> 0 then setflag FLAG_SIGN s else clearflag FLAG_SIGN s)
        in s\<lparr>cpu_a := r, clockticks6502 := clockticks6502 s + 1\<rparr>
      else add_binary (to16 (cpu_status s AND FLAG_CARRY)) s)"

section \<open>Logic and shifts\<close>

definition and_insn :: "'h cpu \<Rightarrow> 'h cpu" where
  [insn_defs]: "and_insn s =
     (let s = load_value (s\<lparr>penaltyop := True\<rparr>); r = to16 (cpu_a s) AND cpu_value s
      in saveaccum r (signcalc r (zerocalc r (s\<lparr>cpu_result := r\<rparr>))))"

definition asl_insn :: "'h cpu \<Rightarrow> 'h cpu" where
  [insn_defs]: "asl_insn s =
     (let s = load_value s; r = push_bit 1 (cpu_value s)
      in putvalue r (signcalc r (zerocalc r (carrycalc r (s\<lparr>cpu_result := r\<rparr>)))))"

section \<open>Branches\<close>

text \<open>The body every taken branch shares: move, and one or two extra cycles.\<close>

definition take_branch :: "u16 \<Rightarrow> 'h cpu \<Rightarrow> 'h cpu" where
  [insn_defs]: "take_branch off s =
     (let s = s\<lparr>cpu_oldpc := cpu_pc s, cpu_pc := cpu_pc s + off\<rparr>
      in s\<lparr>clockticks6502 := clockticks6502 s +
             (if cpu_oldpc s AND 0xFF00 \<noteq> cpu_pc s AND 0xFF00 then 2 else 1)\<rparr>)"

definition bcc_insn :: "'h cpu \<Rightarrow> 'h cpu" where
  [insn_defs]: "bcc_insn s =
     (if cpu_status s AND FLAG_CARRY = 0 then take_branch (cpu_reladdr s) s else s)"

definition bcs_insn :: "'h cpu \<Rightarrow> 'h cpu" where
  [insn_defs]: "bcs_insn s =
     (if cpu_status s AND FLAG_CARRY = FLAG_CARRY then take_branch (cpu_reladdr s) s else s)"

definition beq_insn :: "'h cpu \<Rightarrow> 'h cpu" where
  [insn_defs]: "beq_insn s =
     (if cpu_status s AND FLAG_ZERO = FLAG_ZERO then take_branch (cpu_reladdr s) s else s)"

definition bit_insn :: "'h cpu \<Rightarrow> 'h cpu" where
  [insn_defs]: "bit_insn s =
     (let s = load_value s; r = to16 (cpu_a s) AND cpu_value s;
          s = zerocalc r (s\<lparr>cpu_result := r\<rparr>)
      in s\<lparr>cpu_status := (cpu_status s AND 0x3F) OR to8 (cpu_value s AND 0xC0)\<rparr>)"

definition bmi_insn :: "'h cpu \<Rightarrow> 'h cpu" where
  [insn_defs]: "bmi_insn s =
     (if cpu_status s AND FLAG_SIGN = FLAG_SIGN then take_branch (cpu_reladdr s) s else s)"

definition bne_insn :: "'h cpu \<Rightarrow> 'h cpu" where
  [insn_defs]: "bne_insn s =
     (if cpu_status s AND FLAG_ZERO = 0 then take_branch (cpu_reladdr s) s else s)"

definition bpl_insn :: "'h cpu \<Rightarrow> 'h cpu" where
  [insn_defs]: "bpl_insn s =
     (if cpu_status s AND FLAG_SIGN = 0 then take_branch (cpu_reladdr s) s else s)"

definition brk_insn :: "'h cpu \<Rightarrow> 'h cpu" where
  [insn_defs]: "brk_insn s =
     (let s = s\<lparr>cpu_pc := cpu_pc s + 1\<rparr>;
          s = push16 (cpu_pc s) s;
          s = push8 (cpu_status s OR FLAG_BREAK) s;
          s = setflag FLAG_INTERRUPT s;
          (w, s) = read_pair 0xFFFE 0xFFFF s
      in s\<lparr>cpu_pc := w\<rparr>)"

definition brk_insn_65c02 :: "'h cpu \<Rightarrow> 'h cpu" where
  [insn_defs]: "brk_insn_65c02 s =
     (let s = s\<lparr>cpu_pc := cpu_pc s + 1\<rparr>;
          s = push16 (cpu_pc s) s;
          s = push8 (cpu_status s OR FLAG_BREAK) s;
          s = setflag FLAG_INTERRUPT s;
          s = clearflag FLAG_DECIMAL s;
          (w, s) = read_pair 0xFFFE 0xFFFF s
      in s\<lparr>cpu_pc := w\<rparr>)"

definition bvc_insn :: "'h cpu \<Rightarrow> 'h cpu" where
  [insn_defs]: "bvc_insn s =
     (if cpu_status s AND FLAG_OVERFLOW = 0 then take_branch (cpu_reladdr s) s else s)"

definition bvs_insn :: "'h cpu \<Rightarrow> 'h cpu" where
  [insn_defs]: "bvs_insn s =
     (if cpu_status s AND FLAG_OVERFLOW = FLAG_OVERFLOW
      then take_branch (cpu_reladdr s) s else s)"

section \<open>Flags, comparisons, increments\<close>

definition clc_insn :: "'h cpu \<Rightarrow> 'h cpu" where
  [insn_defs]: "clc_insn s = clearflag FLAG_CARRY s"

definition cld_insn :: "'h cpu \<Rightarrow> 'h cpu" where
  [insn_defs]: "cld_insn s = clearflag FLAG_DECIMAL s"

definition cli_insn :: "'h cpu \<Rightarrow> 'h cpu" where
  [insn_defs]: "cli_insn s = clearflag FLAG_INTERRUPT s"

definition clv_insn :: "'h cpu \<Rightarrow> 'h cpu" where
  [insn_defs]: "clv_insn s = clearflag FLAG_OVERFLOW s"

text \<open>The tests and flags shared by CMP, CPX and CPY, for the register's value.\<close>

definition compare_value :: "u8 \<Rightarrow> 'h cpu \<Rightarrow> 'h cpu" where
  [insn_defs]: "compare_value r s =
     (let s = s\<lparr>cpu_result := to16 r - cpu_value s\<rparr>;
          m = to8 (cpu_value s AND 0x00FF);
          s = (if r \<ge> m then setflag FLAG_CARRY s else clearflag FLAG_CARRY s);
          s = (if r = m then setflag FLAG_ZERO s else clearflag FLAG_ZERO s)
      in signcalc (cpu_result s) s)"

definition cmp_insn :: "'h cpu \<Rightarrow> 'h cpu" where
  [insn_defs]: "cmp_insn s =
     (let s = load_value (s\<lparr>penaltyop := True\<rparr>) in compare_value (cpu_a s) s)"

definition cpx_insn :: "'h cpu \<Rightarrow> 'h cpu" where
  [insn_defs]: "cpx_insn s = (let s = load_value s in compare_value (cpu_x s) s)"

definition cpy_insn :: "'h cpu \<Rightarrow> 'h cpu" where
  [insn_defs]: "cpy_insn s = (let s = load_value s in compare_value (cpu_y s) s)"

definition dec_insn :: "'h cpu \<Rightarrow> 'h cpu" where
  [insn_defs]: "dec_insn s =
     (let s = load_value s; r = cpu_value s - 1
      in putvalue r (signcalc r (zerocalc r (s\<lparr>cpu_result := r\<rparr>))))"

text \<open>\<open>zerocalc(r); signcalc(r);\<close> on a register.\<close>

definition nz8 :: "u8 \<Rightarrow> 'h cpu \<Rightarrow> 'h cpu" where
  [insn_defs]: "nz8 r s = signcalc (to16 r) (zerocalc (to16 r) s)"

definition dex_insn :: "'h cpu \<Rightarrow> 'h cpu" where
  [insn_defs]: "dex_insn s = (let s = s\<lparr>cpu_x := cpu_x s - 1\<rparr> in nz8 (cpu_x s) s)"

definition dey_insn :: "'h cpu \<Rightarrow> 'h cpu" where
  [insn_defs]: "dey_insn s = (let s = s\<lparr>cpu_y := cpu_y s - 1\<rparr> in nz8 (cpu_y s) s)"

definition eor_insn :: "'h cpu \<Rightarrow> 'h cpu" where
  [insn_defs]: "eor_insn s =
     (let s = load_value (s\<lparr>penaltyop := True\<rparr>); r = to16 (cpu_a s) XOR cpu_value s
      in saveaccum r (signcalc r (zerocalc r (s\<lparr>cpu_result := r\<rparr>))))"

definition inc_insn :: "'h cpu \<Rightarrow> 'h cpu" where
  [insn_defs]: "inc_insn s =
     (let s = load_value s; r = cpu_value s + 1
      in putvalue r (signcalc r (zerocalc r (s\<lparr>cpu_result := r\<rparr>))))"

definition inx_insn :: "'h cpu \<Rightarrow> 'h cpu" where
  [insn_defs]: "inx_insn s = (let s = s\<lparr>cpu_x := cpu_x s + 1\<rparr> in nz8 (cpu_x s) s)"

definition iny_insn :: "'h cpu \<Rightarrow> 'h cpu" where
  [insn_defs]: "iny_insn s = (let s = s\<lparr>cpu_y := cpu_y s + 1\<rparr> in nz8 (cpu_y s) s)"

section \<open>Jumps, loads, shifts right\<close>

definition jmp_insn :: "'h cpu \<Rightarrow> 'h cpu" where
  [insn_defs]: "jmp_insn s = s\<lparr>cpu_pc := cpu_ea s\<rparr>"

definition jsr_insn :: "'h cpu \<Rightarrow> 'h cpu" where
  [insn_defs]: "jsr_insn s = (let s = push16 (cpu_pc s - 1) s in s\<lparr>cpu_pc := cpu_ea s\<rparr>)"

definition lda_insn :: "'h cpu \<Rightarrow> 'h cpu" where
  [insn_defs]: "lda_insn s =
     (let s = load_value (s\<lparr>penaltyop := True\<rparr>);
          s = s\<lparr>cpu_a := to8 (cpu_value s AND 0x00FF)\<rparr>
      in nz8 (cpu_a s) s)"

definition ldx_insn :: "'h cpu \<Rightarrow> 'h cpu" where
  [insn_defs]: "ldx_insn s =
     (let s = load_value (s\<lparr>penaltyop := True\<rparr>);
          s = s\<lparr>cpu_x := to8 (cpu_value s AND 0x00FF)\<rparr>
      in nz8 (cpu_x s) s)"

definition ldy_insn :: "'h cpu \<Rightarrow> 'h cpu" where
  [insn_defs]: "ldy_insn s =
     (let s = load_value (s\<lparr>penaltyop := True\<rparr>);
          s = s\<lparr>cpu_y := to8 (cpu_value s AND 0x00FF)\<rparr>
      in nz8 (cpu_y s) s)"

definition lsr_insn :: "'h cpu \<Rightarrow> 'h cpu" where
  [insn_defs]: "lsr_insn s =
     (let s = load_value s; r = drop_bit 1 (cpu_value s);
          s = s\<lparr>cpu_result := r\<rparr>;
          s = (if cpu_value s AND 1 \<noteq> 0 then setflag FLAG_CARRY s else clearflag FLAG_CARRY s)
      in putvalue r (signcalc r (zerocalc r s)))"

definition nop_insn :: "'h cpu \<Rightarrow> 'h cpu" where
  [insn_defs]: "nop_insn s =
     (if cpu_opcode s \<in> {0x1C, 0x3C, 0x5C, 0x7C, 0xDC, 0xFC}
      then s\<lparr>penaltyop := True\<rparr> else s)"

definition ora_insn :: "'h cpu \<Rightarrow> 'h cpu" where
  [insn_defs]: "ora_insn s =
     (let s = load_value (s\<lparr>penaltyop := True\<rparr>); r = to16 (cpu_a s) OR cpu_value s
      in saveaccum r (signcalc r (zerocalc r (s\<lparr>cpu_result := r\<rparr>))))"

section \<open>Stack instructions and rotates\<close>

definition pha_insn :: "'h cpu \<Rightarrow> 'h cpu" where
  [insn_defs]: "pha_insn s = push8 (cpu_a s) s"

definition php_insn :: "'h cpu \<Rightarrow> 'h cpu" where
  [insn_defs]: "php_insn s = push8 (cpu_status s OR FLAG_BREAK) s"

definition pla_insn :: "'h cpu \<Rightarrow> 'h cpu" where
  [insn_defs]: "pla_insn s =
     (let (v, s) = pull8 s; s = s\<lparr>cpu_a := v\<rparr> in nz8 (cpu_a s) s)"

text \<open>The status from the stack: bit 4 dropped, bit 5 set (PLP and RTI).\<close>

definition pull_status :: "'h cpu \<Rightarrow> 'h cpu" where
  [insn_defs]: "pull_status s =
     (let (v, s) = pull8 s in s\<lparr>cpu_status := (v AND NOT FLAG_BREAK) OR FLAG_CONSTANT\<rparr>)"

definition plp_insn :: "'h cpu \<Rightarrow> 'h cpu" where
  [insn_defs]: "plp_insn s = pull_status s"

definition rol_insn :: "'h cpu \<Rightarrow> 'h cpu" where
  [insn_defs]: "rol_insn s =
     (let s = load_value s;
          r = push_bit 1 (cpu_value s) OR to16 (cpu_status s AND FLAG_CARRY)
      in putvalue r (signcalc r (zerocalc r (carrycalc r (s\<lparr>cpu_result := r\<rparr>)))))"

definition ror_insn :: "'h cpu \<Rightarrow> 'h cpu" where
  [insn_defs]: "ror_insn s =
     (let s = load_value s;
          r = drop_bit 1 (cpu_value s) OR push_bit 7 (to16 (cpu_status s AND FLAG_CARRY));
          s = s\<lparr>cpu_result := r\<rparr>;
          s = (if cpu_value s AND 1 \<noteq> 0 then setflag FLAG_CARRY s else clearflag FLAG_CARRY s)
      in putvalue r (signcalc r (zerocalc r s)))"

definition rti_insn :: "'h cpu \<Rightarrow> 'h cpu" where
  [insn_defs]: "rti_insn s =
     (let s = pull_status s; (w, s) = pull16 s
      in s\<lparr>cpu_value := w, cpu_pc := w\<rparr>)"

definition rts_insn :: "'h cpu \<Rightarrow> 'h cpu" where
  [insn_defs]: "rts_insn s = (let (w, s) = pull16 s in s\<lparr>cpu_value := w, cpu_pc := w + 1\<rparr>)"

definition sbc_insn :: "'h cpu \<Rightarrow> 'h cpu" where
  "sbc_insn s =
     (let (mval, s) = getvalue (s\<lparr>penaltyop := True\<rparr>); c = carry_in s in
      if cpu_status s AND FLAG_DECIMAL \<noteq> 0 then
        let bin_m = mval XOR 0x00FF;
            bin = to16 (cpu_a s) + bin_m + c;
            s = overflow_like_signs (to16 (cpu_a s)) bin_m bin s;
            s = signcalc bin (zerocalc bin s);
            (cy, r) = bcd_sub (cpu_a s) mval c
        in (put_carry cy s)\<lparr>cpu_a := r\<rparr>
      else add_binary c (s\<lparr>cpu_value := mval XOR 0x00FF\<rparr>))"

section \<open>65C02 instructions\<close>

definition bra_insn :: "'h cpu \<Rightarrow> 'h cpu" where
  [insn_defs]: "bra_insn s = take_branch (cpu_reladdr s) s"

definition phx_insn :: "'h cpu \<Rightarrow> 'h cpu" where
  [insn_defs]: "phx_insn s = push8 (cpu_x s) s"

definition phy_insn :: "'h cpu \<Rightarrow> 'h cpu" where
  [insn_defs]: "phy_insn s = push8 (cpu_y s) s"

definition plx_insn :: "'h cpu \<Rightarrow> 'h cpu" where
  [insn_defs]: "plx_insn s =
     (let (v, s) = pull8 s; s = s\<lparr>cpu_x := v\<rparr> in nz8 (cpu_x s) s)"

definition ply_insn :: "'h cpu \<Rightarrow> 'h cpu" where
  [insn_defs]: "ply_insn s =
     (let (v, s) = pull8 s; s = s\<lparr>cpu_y := v\<rparr> in nz8 (cpu_y s) s)"

definition stz_insn :: "'h cpu \<Rightarrow> 'h cpu" where
  [insn_defs]: "stz_insn s = putvalue 0 s"

text \<open>Z from \<open>a & value\<close>, before the write (TRB and TSB).\<close>

definition test_zero :: "'h cpu \<Rightarrow> 'h cpu" where
  [insn_defs]: "test_zero s =
     (if to16 (cpu_a s) AND cpu_value s = 0 then setflag FLAG_ZERO s
      else clearflag FLAG_ZERO s)"

definition trb_insn :: "'h cpu \<Rightarrow> 'h cpu" where
  [insn_defs]: "trb_insn s =
     (let s = test_zero (load_value s)
      in putvalue (cpu_value s AND (NOT (to16 (cpu_a s)) AND 0xFF)) s)"

definition tsb_insn :: "'h cpu \<Rightarrow> 'h cpu" where
  [insn_defs]: "tsb_insn s =
     (let s = test_zero (load_value s) in putvalue (cpu_value s OR to16 (cpu_a s)) s)"

definition bit_imm_insn :: "'h cpu \<Rightarrow> 'h cpu" where
  [insn_defs]: "bit_imm_insn s =
     (let s = load_value s; r = to16 (cpu_a s) AND cpu_value s
      in zerocalc r (s\<lparr>cpu_result := r\<rparr>))"

text \<open>\<open>1u << bit\<close>, the bit number in opcode bits 4 to 6.\<close>

definition opcode_bit :: "'h cpu \<Rightarrow> u8" where
  "opcode_bit s = push_bit (unat (drop_bit 4 (cpu_opcode s) AND 7)) 1"

definition rmb_insn :: "'h cpu \<Rightarrow> 'h cpu" where
  [insn_defs]: "rmb_insn s =
     (let (v, s) = cpu_read (cpu_ea s) s
      in cpu_write (cpu_ea s) (v AND NOT (opcode_bit s)) s)"

definition smb_insn :: "'h cpu \<Rightarrow> 'h cpu" where
  [insn_defs]: "smb_insn s =
     (let (v, s) = cpu_read (cpu_ea s) s
      in cpu_write (cpu_ea s) (v OR opcode_bit s) s)"

text \<open>\<open>pc += (int8_t)r\<close>: the offset byte, sign-extended.\<close>

definition bbr_insn :: "'h cpu \<Rightarrow> 'h cpu" where
  [insn_defs]: "bbr_insn s =
     (let (r, s) = fetch s; (v, s) = cpu_read (cpu_ea s) s
      in if v AND opcode_bit s = 0 then take_branch (scast r) s else s)"

definition bbs_insn :: "'h cpu \<Rightarrow> 'h cpu" where
  [insn_defs]: "bbs_insn s =
     (let (r, s) = fetch s; (v, s) = cpu_read (cpu_ea s) s
      in if v AND opcode_bit s \<noteq> 0 then take_branch (scast r) s else s)"

definition wai_insn :: "'h cpu \<Rightarrow> 'h cpu" where
  [insn_defs]: "wai_insn s = s\<lparr>wai_pending := True\<rparr>"

definition stp_insn :: "'h cpu \<Rightarrow> 'h cpu" where
  [insn_defs]: "stp_insn s = s\<lparr>stp_pending := True\<rparr>"

definition sbc_65c02_insn :: "'h cpu \<Rightarrow> 'h cpu" where
  "sbc_65c02_insn s =
     (let (mval, s) = getvalue (s\<lparr>penaltyop := True\<rparr>); c = carry_in s in
      if cpu_status s AND FLAG_DECIMAL \<noteq> 0 then
        let bin_m = mval XOR 0x00FF;
            bin = to16 (cpu_a s) + bin_m + c;
            s = overflow_like_signs (to16 (cpu_a s)) bin_m bin s;
            (cy, r) = bcd_sub (cpu_a s) mval c;
            s = put_carry cy s;
            s = (if r = 0 then setflag FLAG_ZERO s else clearflag FLAG_ZERO s);
            s = (if r AND 0x80 \<noteq> 0 then setflag FLAG_SIGN s else clearflag FLAG_SIGN s)
        in s\<lparr>cpu_a := r, clockticks6502 := clockticks6502 s + 1\<rparr>
      else add_binary (to16 (cpu_status s AND FLAG_CARRY))
             (s\<lparr>cpu_value := mval XOR 0x00FF\<rparr>))"

section \<open>Set flags, stores, transfers\<close>

definition sec_insn :: "'h cpu \<Rightarrow> 'h cpu" where
  [insn_defs]: "sec_insn s = setflag FLAG_CARRY s"

definition sed_insn :: "'h cpu \<Rightarrow> 'h cpu" where
  [insn_defs]: "sed_insn s = setflag FLAG_DECIMAL s"

definition sei_insn :: "'h cpu \<Rightarrow> 'h cpu" where
  [insn_defs]: "sei_insn s = setflag FLAG_INTERRUPT s"

definition sta_insn :: "'h cpu \<Rightarrow> 'h cpu" where
  [insn_defs]: "sta_insn s = putvalue (to16 (cpu_a s)) s"

definition stx_insn :: "'h cpu \<Rightarrow> 'h cpu" where
  [insn_defs]: "stx_insn s = putvalue (to16 (cpu_x s)) s"

definition sty_insn :: "'h cpu \<Rightarrow> 'h cpu" where
  [insn_defs]: "sty_insn s = putvalue (to16 (cpu_y s)) s"

definition tax_insn :: "'h cpu \<Rightarrow> 'h cpu" where
  [insn_defs]: "tax_insn s = (let s = s\<lparr>cpu_x := cpu_a s\<rparr> in nz8 (cpu_x s) s)"

definition tay_insn :: "'h cpu \<Rightarrow> 'h cpu" where
  [insn_defs]: "tay_insn s = (let s = s\<lparr>cpu_y := cpu_a s\<rparr> in nz8 (cpu_y s) s)"

definition tsx_insn :: "'h cpu \<Rightarrow> 'h cpu" where
  [insn_defs]: "tsx_insn s = (let s = s\<lparr>cpu_x := cpu_sp s\<rparr> in nz8 (cpu_x s) s)"

definition txa_insn :: "'h cpu \<Rightarrow> 'h cpu" where
  [insn_defs]: "txa_insn s = (let s = s\<lparr>cpu_a := cpu_x s\<rparr> in nz8 (cpu_a s) s)"

definition txs_insn :: "'h cpu \<Rightarrow> 'h cpu" where
  [insn_defs]: "txs_insn s = s\<lparr>cpu_sp := cpu_x s\<rparr>"

definition tya_insn :: "'h cpu \<Rightarrow> 'h cpu" where
  [insn_defs]: "tya_insn s = (let s = s\<lparr>cpu_a := cpu_y s\<rparr> in nz8 (cpu_a s) s)"

section \<open>Undocumented NMOS instructions\<close>

text \<open>They run two documented handlers; the page-crossing penalty is taken back.\<close>

definition no_penalty :: "'h cpu \<Rightarrow> 'h cpu" where
  [insn_defs]: "no_penalty s =
     (if penaltyop s \<and> penaltyaddr s
      then s\<lparr>clockticks6502 := clockticks6502 s - 1\<rparr> else s)"

definition lax_insn :: "'h cpu \<Rightarrow> 'h cpu" where
  [insn_defs]: "lax_insn s = ldx_insn (lda_insn s)"

definition sax_insn :: "'h cpu \<Rightarrow> 'h cpu" where
  [insn_defs]: "sax_insn s =
     (let s = stx_insn (sta_insn s)
      in no_penalty (putvalue (to16 (cpu_a s AND cpu_x s)) s))"

definition dcp_insn :: "'h cpu \<Rightarrow> 'h cpu" where
  [insn_defs]: "dcp_insn s = no_penalty (cmp_insn (dec_insn s))"

definition isb_insn :: "'h cpu \<Rightarrow> 'h cpu" where
  [insn_defs]: "isb_insn s = no_penalty (sbc_insn (inc_insn s))"

definition slo_insn :: "'h cpu \<Rightarrow> 'h cpu" where
  [insn_defs]: "slo_insn s = no_penalty (ora_insn (asl_insn s))"

definition rla_insn :: "'h cpu \<Rightarrow> 'h cpu" where
  [insn_defs]: "rla_insn s = no_penalty (and_insn (rol_insn s))"

definition sre_insn :: "'h cpu \<Rightarrow> 'h cpu" where
  [insn_defs]: "sre_insn s = no_penalty (eor_insn (lsr_insn s))"

definition rra_insn :: "'h cpu \<Rightarrow> 'h cpu" where
  [insn_defs]: "rra_insn s = no_penalty (adc_insn (ror_insn s))"

end
