(* ===== verification/Cpu_Step.thy ===== *)
theory Cpu_Step imports Cpu_Insn begin

text \<open>
  The handler tables and the execution loops of \<open>src/emulator/cpu_core.c\<close>: one
  instruction (\<open>step6502\<close>), a run of cycles (\<open>exec6502\<close>) and the two interrupts.
\<close>

section \<open>Handler tables\<close>

definition optable_nmos :: "('h cpu \<Rightarrow> 'h cpu) list" where
  "optable_nmos = [
     brk_insn, ora_insn, nop_insn, slo_insn, nop_insn, ora_insn, asl_insn, slo_insn,
     php_insn, ora_insn, asl_insn, nop_insn, nop_insn, ora_insn, asl_insn, slo_insn,
     bpl_insn, ora_insn, nop_insn, slo_insn, nop_insn, ora_insn, asl_insn, slo_insn,
     clc_insn, ora_insn, nop_insn, slo_insn, nop_insn, ora_insn, asl_insn, slo_insn,
     jsr_insn, and_insn, nop_insn, rla_insn, bit_insn, and_insn, rol_insn, rla_insn,
     plp_insn, and_insn, rol_insn, nop_insn, bit_insn, and_insn, rol_insn, rla_insn,
     bmi_insn, and_insn, nop_insn, rla_insn, nop_insn, and_insn, rol_insn, rla_insn,
     sec_insn, and_insn, nop_insn, rla_insn, nop_insn, and_insn, rol_insn, rla_insn,
     rti_insn, eor_insn, nop_insn, sre_insn, nop_insn, eor_insn, lsr_insn, sre_insn,
     pha_insn, eor_insn, lsr_insn, nop_insn, jmp_insn, eor_insn, lsr_insn, sre_insn,
     bvc_insn, eor_insn, nop_insn, sre_insn, nop_insn, eor_insn, lsr_insn, sre_insn,
     cli_insn, eor_insn, nop_insn, sre_insn, nop_insn, eor_insn, lsr_insn, sre_insn,
     rts_insn, adc_insn, nop_insn, rra_insn, nop_insn, adc_insn, ror_insn, rra_insn,
     pla_insn, adc_insn, ror_insn, nop_insn, jmp_insn, adc_insn, ror_insn, rra_insn,
     bvs_insn, adc_insn, nop_insn, rra_insn, nop_insn, adc_insn, ror_insn, rra_insn,
     sei_insn, adc_insn, nop_insn, rra_insn, nop_insn, adc_insn, ror_insn, rra_insn,
     nop_insn, sta_insn, nop_insn, sax_insn, sty_insn, sta_insn, stx_insn, sax_insn,
     dey_insn, nop_insn, txa_insn, nop_insn, sty_insn, sta_insn, stx_insn, sax_insn,
     bcc_insn, sta_insn, nop_insn, nop_insn, sty_insn, sta_insn, stx_insn, sax_insn,
     tya_insn, sta_insn, txs_insn, nop_insn, nop_insn, sta_insn, nop_insn, nop_insn,
     ldy_insn, lda_insn, ldx_insn, lax_insn, ldy_insn, lda_insn, ldx_insn, lax_insn,
     tay_insn, lda_insn, tax_insn, nop_insn, ldy_insn, lda_insn, ldx_insn, lax_insn,
     bcs_insn, lda_insn, nop_insn, lax_insn, ldy_insn, lda_insn, ldx_insn, lax_insn,
     clv_insn, lda_insn, tsx_insn, lax_insn, ldy_insn, lda_insn, ldx_insn, lax_insn,
     cpy_insn, cmp_insn, nop_insn, dcp_insn, cpy_insn, cmp_insn, dec_insn, dcp_insn,
     iny_insn, cmp_insn, dex_insn, nop_insn, cpy_insn, cmp_insn, dec_insn, dcp_insn,
     bne_insn, cmp_insn, nop_insn, dcp_insn, nop_insn, cmp_insn, dec_insn, dcp_insn,
     cld_insn, cmp_insn, nop_insn, dcp_insn, nop_insn, cmp_insn, dec_insn, dcp_insn,
     cpx_insn, sbc_insn, nop_insn, isb_insn, cpx_insn, sbc_insn, inc_insn, isb_insn,
     inx_insn, sbc_insn, nop_insn, sbc_insn, cpx_insn, sbc_insn, inc_insn, isb_insn,
     beq_insn, sbc_insn, nop_insn, isb_insn, nop_insn, sbc_insn, inc_insn, isb_insn,
     sed_insn, sbc_insn, nop_insn, isb_insn, nop_insn, sbc_insn, inc_insn, isb_insn]"

definition optable_65c02 :: "('h cpu \<Rightarrow> 'h cpu) list" where
  "optable_65c02 = [
     brk_insn_65c02, ora_insn, nop_insn, nop_insn, tsb_insn, ora_insn, asl_insn, rmb_insn,
     php_insn, ora_insn, asl_insn, nop_insn, tsb_insn, ora_insn, asl_insn, bbr_insn,
     bpl_insn, ora_insn, ora_insn, nop_insn, trb_insn, ora_insn, asl_insn, rmb_insn,
     clc_insn, ora_insn, inc_insn, nop_insn, trb_insn, ora_insn, asl_insn, bbr_insn,
     jsr_insn, and_insn, nop_insn, nop_insn, bit_insn, and_insn, rol_insn, rmb_insn,
     plp_insn, and_insn, rol_insn, nop_insn, bit_insn, and_insn, rol_insn, bbr_insn,
     bmi_insn, and_insn, and_insn, nop_insn, bit_insn, and_insn, rol_insn, rmb_insn,
     sec_insn, and_insn, dec_insn, nop_insn, bit_insn, and_insn, rol_insn, bbr_insn,
     rti_insn, eor_insn, nop_insn, nop_insn, nop_insn, eor_insn, lsr_insn, rmb_insn,
     pha_insn, eor_insn, lsr_insn, nop_insn, jmp_insn, eor_insn, lsr_insn, bbr_insn,
     bvc_insn, eor_insn, eor_insn, nop_insn, nop_insn, eor_insn, lsr_insn, rmb_insn,
     cli_insn, eor_insn, phy_insn, nop_insn, nop_insn, eor_insn, lsr_insn, bbr_insn,
     rts_insn, adc_65c02_insn, nop_insn, nop_insn, stz_insn, adc_65c02_insn, ror_insn,
     rmb_insn, pla_insn, adc_65c02_insn, ror_insn, nop_insn, jmp_insn, adc_65c02_insn,
     ror_insn, bbr_insn,
     bvs_insn, adc_65c02_insn, adc_65c02_insn, nop_insn, stz_insn, adc_65c02_insn,
     ror_insn, rmb_insn, sei_insn, adc_65c02_insn, ply_insn, nop_insn, jmp_insn,
     adc_65c02_insn, ror_insn, bbr_insn,
     bra_insn, sta_insn, nop_insn, nop_insn, sty_insn, sta_insn, stx_insn, smb_insn,
     dey_insn, bit_imm_insn, txa_insn, nop_insn, sty_insn, sta_insn, stx_insn, bbs_insn,
     bcc_insn, sta_insn, sta_insn, nop_insn, sty_insn, sta_insn, stx_insn, smb_insn,
     tya_insn, sta_insn, txs_insn, nop_insn, stz_insn, sta_insn, stz_insn, bbs_insn,
     ldy_insn, lda_insn, ldx_insn, nop_insn, ldy_insn, lda_insn, ldx_insn, smb_insn,
     tay_insn, lda_insn, tax_insn, nop_insn, ldy_insn, lda_insn, ldx_insn, bbs_insn,
     bcs_insn, lda_insn, lda_insn, nop_insn, ldy_insn, lda_insn, ldx_insn, smb_insn,
     clv_insn, lda_insn, tsx_insn, nop_insn, ldy_insn, lda_insn, ldx_insn, bbs_insn,
     cpy_insn, cmp_insn, nop_insn, nop_insn, cpy_insn, cmp_insn, dec_insn, smb_insn,
     iny_insn, cmp_insn, dex_insn, wai_insn, cpy_insn, cmp_insn, dec_insn, bbs_insn,
     bne_insn, cmp_insn, cmp_insn, nop_insn, nop_insn, cmp_insn, dec_insn, smb_insn,
     cld_insn, cmp_insn, phx_insn, stp_insn, nop_insn, cmp_insn, dec_insn, bbs_insn,
     cpx_insn, sbc_65c02_insn, nop_insn, nop_insn, cpx_insn, sbc_65c02_insn, inc_insn,
     smb_insn, inx_insn, sbc_65c02_insn, nop_insn, nop_insn, cpx_insn, sbc_65c02_insn,
     inc_insn, bbs_insn,
     beq_insn, sbc_65c02_insn, sbc_65c02_insn, nop_insn, nop_insn, sbc_65c02_insn,
     inc_insn, smb_insn, sed_insn, sbc_65c02_insn, plx_insn, nop_insn, nop_insn,
     sbc_65c02_insn, inc_insn, bbs_insn]"

fun optable :: "cpu_variant \<Rightarrow> u8 \<Rightarrow> 'h cpu \<Rightarrow> 'h cpu" where
  "optable CPU_65C02 opc = optable_65c02 ! unat opc"
| "optable CPU_NMOS opc = optable_nmos ! unat opc"

lemma optable_lengths [simp]: "length optable_nmos = 256" "length optable_65c02 = 256"
  by (simp_all add: optable_nmos_def optable_65c02_def)

section \<open>One instruction\<close>

definition cpu_select_tables :: "'h cpu \<Rightarrow> 'h cpu" where
  "cpu_select_tables s = s\<lparr>cpu_tables :=
     (if cpu_variant_sel s = CPU_65C02 then CPU_65C02 else CPU_NMOS)\<rparr>"

text \<open>
  From the opcode fetch to the cycle count: what the bodies of \<open>step6502\<close> and
  \<open>exec6502\<close> share.
\<close>

definition fetch_execute :: "'h cpu \<Rightarrow> 'h cpu" where
  "fetch_execute s =
     (let (opc, s) = fetch s;
          s = s\<lparr>cpu_opcode := opc, cpu_status := cpu_status s OR FLAG_CONSTANT,
                penaltyop := False, penaltyaddr := False\<rparr>;
          s = run_mode (addrtable (cpu_tables s) opc) s;
          s = optable (cpu_tables s) opc s;
          s = s\<lparr>clockticks6502 := clockticks6502 s + ucast (ticktable (cpu_tables s) opc)\<rparr>
      in if penaltyop s \<and> penaltyaddr s
         then s\<lparr>clockticks6502 := clockticks6502 s + 1\<rparr> else s)"

definition call_external :: "'h cpu \<Rightarrow> 'h cpu" where
  "call_external s =
     (if callexternal s then s\<lparr>cpu_host := loopexternal (cpu_hooks s) (cpu_host s)\<rparr> else s)"

definition step6502 :: "'h cpu \<Rightarrow> 'h cpu" where
  "step6502 s =
     (let s = cpu_select_tables s in
      if stp_pending s \<or> wai_pending s then
        let s = s\<lparr>clockticks6502 := clockticks6502 s + 1\<rparr>
        in s\<lparr>clockgoal6502 := clockticks6502 s\<rparr>
      else
        let s = fetch_execute s;
            s = s\<lparr>clockgoal6502 := clockticks6502 s\<rparr>;
            s = s\<lparr>instructions := instructions s + 1\<rparr>
        in call_external s)"

section \<open>A run of cycles\<close>

text \<open>One pass of the \<open>while\<close> loop of \<open>exec6502\<close>.\<close>

definition exec_body :: "'h cpu \<Rightarrow> 'h cpu" where
  "exec_body s =
     (if stp_pending s \<or> wai_pending s
      then s\<lparr>clockticks6502 := clockticks6502 s + 1\<rparr>
      else let s = fetch_execute s
           in call_external (s\<lparr>instructions := instructions s + 1\<rparr>))"

text \<open>The loop may in principle not end (the clock could wrap), so its result is an option.\<close>

partial_function (option) exec_loop :: "'h cpu \<Rightarrow> 'h cpu option" where
  "exec_loop s =
     (if clockticks6502 s < clockgoal6502 s then exec_loop (exec_body s) else Some s)"

definition exec6502 :: "u64 \<Rightarrow> 'h cpu \<Rightarrow> 'h cpu option" where
  "exec6502 tickcount s =
     (let s = cpu_select_tables s
      in exec_loop (s\<lparr>clockgoal6502 := clockgoal6502 s + tickcount\<rparr>))"

section \<open>Interrupts\<close>

definition nmi6502 :: "'h cpu \<Rightarrow> 'h cpu" where
  "nmi6502 s =
     (let s = s\<lparr>wai_pending := False\<rparr>;
          s = push16 (cpu_pc s) s;
          s = push8 (cpu_status s) s;
          s = s\<lparr>cpu_status := cpu_status s OR FLAG_INTERRUPT\<rparr>;
          (w, s) = read_pair 0xFFFA 0xFFFB s
      in s\<lparr>cpu_pc := w\<rparr>)"

definition irq6502 :: "'h cpu \<Rightarrow> 'h cpu" where
  "irq6502 s =
     (let s = s\<lparr>wai_pending := False\<rparr>;
          s = push16 (cpu_pc s) s;
          s = push8 (cpu_status s) s;
          s = s\<lparr>cpu_status := cpu_status s OR FLAG_INTERRUPT\<rparr>;
          (w, s) = read_pair 0xFFFE 0xFFFF s
      in s\<lparr>cpu_pc := w\<rparr>)"

lemma list_all_optable:
  assumes "list_all P optable_nmos" "list_all P optable_65c02"
  shows "P (optable v opc)"
  using assms by (cases v) (simp_all add: list_all_length unat_u8_less)

end
