(* ===== verification/Cpu_Inv.thy ===== *)
theory Cpu_Inv imports Cpu_Step begin

text \<open>
  Properties every instruction handler shares: what no handler touches, the two status
  bits that never change, and how far one handler moves the clock. Each is proved once
  for the list of all handlers and lifted to \<open>step6502\<close>, \<open>exec6502\<close> and the interrupts.
\<close>

section \<open>The handlers as one list\<close>

text \<open>Those with one straight body, the arithmetic ones, and the undocumented pairs.\<close>

definition plain_handlers :: "('h cpu \<Rightarrow> 'h cpu) list" where
  "plain_handlers = [
     and_insn, asl_insn, bbr_insn, bbs_insn, bcc_insn, bcs_insn, beq_insn, bit_insn,
     bit_imm_insn, bmi_insn, bne_insn, bpl_insn, bra_insn, brk_insn, brk_insn_65c02,
     bvc_insn, bvs_insn, clc_insn, cld_insn, cli_insn, clv_insn, cmp_insn, cpx_insn,
     cpy_insn, dec_insn, dex_insn, dey_insn, eor_insn, inc_insn, inx_insn, iny_insn,
     jmp_insn, jsr_insn, lda_insn, ldx_insn, ldy_insn, lsr_insn, nop_insn, ora_insn,
     pha_insn, php_insn, phx_insn, phy_insn, pla_insn, plp_insn, plx_insn, ply_insn,
     rmb_insn, rol_insn, ror_insn, rti_insn, rts_insn, sec_insn, sed_insn, sei_insn,
     smb_insn, sta_insn, stp_insn, stx_insn, sty_insn, stz_insn, tax_insn, tay_insn,
     trb_insn, tsb_insn, tsx_insn, txa_insn, txs_insn, tya_insn, wai_insn]"

definition arith_handlers :: "('h cpu \<Rightarrow> 'h cpu) list" where
  "arith_handlers = [adc_insn, adc_65c02_insn, sbc_insn, sbc_65c02_insn]"

definition pair_handlers :: "('h cpu \<Rightarrow> 'h cpu) list" where
  "pair_handlers = [
     lax_insn, sax_insn, dcp_insn, isb_insn, slo_insn, rla_insn, sre_insn, rra_insn]"

lemma optable_in_handlers:
  "optable v opc \<in> set plain_handlers \<union> set arith_handlers \<union> set pair_handlers"
proof (rule list_all_optable)
  show "list_all (\<lambda>f. f \<in> set plain_handlers \<union> set arith_handlers \<union> set pair_handlers)
      optable_nmos"
    by (simp add: optable_nmos_def plain_handlers_def arith_handlers_def pair_handlers_def)
  show "list_all (\<lambda>f. f \<in> set plain_handlers \<union> set arith_handlers \<union> set pair_handlers)
      optable_65c02"
    by (simp add: optable_65c02_def plain_handlers_def arith_handlers_def pair_handlers_def)
qed

lemma optable_cases:
  assumes "list_all P plain_handlers" "list_all P arith_handlers" "list_all P pair_handlers"
  shows "P (optable v opc)"
  using optable_in_handlers[of v opc] assms by (auto simp: list_all_iff)

section \<open>The arithmetic handlers as one update\<close>

lemma if_setflag [flag_simps]:
  "(if b then setflag f s else clearflag f s) = s\<lparr>cpu_status := put_flag f b (cpu_status s)\<rparr>"
  "(if b then clearflag f s else setflag f s) =
     s\<lparr>cpu_status := put_flag f (\<not> b) (cpu_status s)\<rparr>"
  by (simp_all add: setflag_eq clearflag_eq)

lemma put_carry_eq [flag_simps]:
  "put_carry cy s = s\<lparr>cpu_status := put_flag FLAG_CARRY cy (cpu_status s)\<rparr>"
  by (simp only: put_carry_def if_setflag)

lemma overflow_like_signs_eq [flag_simps]:
  "overflow_like_signs a m r s = s\<lparr>cpu_status := put_flag FLAG_OVERFLOW
     ((a XOR m) AND 0x80 = 0 \<and> (a XOR r) AND 0x80 \<noteq> 0) (cpu_status s)\<rparr>"
  by (simp only: overflow_like_signs_def if_setflag)

lemma no_penalty_eq:
  "no_penalty s = s\<lparr>clockticks6502 := clockticks6502 s -
     (if penaltyop s \<and> penaltyaddr s then 1 else 0)\<rparr>"
  by (simp add: no_penalty_def)

text \<open>The status after the binary path of ADC and SBC: \<open>r\<close> is the 16-bit sum.\<close>

definition arith_status :: "u16 \<Rightarrow> u16 \<Rightarrow> u16 \<Rightarrow> u8 \<Rightarrow> u8" where
  "arith_status a m r p =
     put_flag FLAG_SIGN (r AND 0x0080 \<noteq> 0)
       (put_flag FLAG_OVERFLOW ((r XOR a) AND (r XOR m) AND 0x0080 \<noteq> 0)
         (put_flag FLAG_ZERO (r AND 0x00FF = 0)
           (put_flag FLAG_CARRY (r AND 0xFF00 \<noteq> 0) p)))"

lemma add_binary_eq:
  "add_binary c s = (let r = to16 (cpu_a s) + cpu_value s + c in
     s\<lparr>cpu_result := r, cpu_a := to8 r,
       cpu_status := arith_status (to16 (cpu_a s)) (cpu_value s) r (cpu_status s)\<rparr>)"
  by (simp add: add_binary_def arith_status_def flag_simps Let_def and_FF_u16)

lemmas arith_defs = adc_insn_def adc_65c02_insn_def sbc_insn_def sbc_65c02_insn_def
  add_binary_eq

lemmas state_simps = cpu_frame flag_simps no_penalty_eq Let_def split_def

section \<open>What no handler touches\<close>

definition cpu_env :: "'h cpu \<Rightarrow> 'h hooks \<times> cpu_variant \<times> cpu_variant \<times> u8 \<times> u64 \<times> u32 \<times> bool"
where
  "cpu_env s = (cpu_hooks s, cpu_variant_sel s, cpu_tables s, cpu_opcode s,
     clockgoal6502 s, instructions s, callexternal s)"

lemma plain_env: "list_all (\<lambda>f. \<forall>s. cpu_env (f s) = cpu_env s) plain_handlers"
  by (simp add: plain_handlers_def insn_defs state_simps cpu_env_def)

lemma arith_env: "list_all (\<lambda>f. \<forall>s. cpu_env (f s) = cpu_env s) arith_handlers"
  by (simp add: arith_handlers_def arith_defs state_simps cpu_env_def)

lemmas pair_defs = lax_insn_def sax_insn_def dcp_insn_def isb_insn_def slo_insn_def
  rla_insn_def sre_insn_def rra_insn_def

lemmas plain_env_each = plain_env[unfolded plain_handlers_def list.pred_inject]
lemmas arith_env_each = arith_env[unfolded arith_handlers_def list.pred_inject]

lemma pair_env: "list_all (\<lambda>f. \<forall>s. cpu_env (f s) = cpu_env s) pair_handlers"
proof -
  have tail: "cpu_env (no_penalty s) = cpu_env s" "cpu_env (putvalue w s) = cpu_env s"
    for w and s :: "'h cpu"
    by (simp_all add: state_simps cpu_env_def)
  show ?thesis
    by (simp add: plain_env_each arith_env_each pair_handlers_def pair_defs tail Let_def)
qed

lemma handler_env: "cpu_env (optable v opc s) = cpu_env s"
  by (rule optable_cases[OF plain_env arith_env pair_env, THEN spec])

section \<open>The status bits the CPU does not have\<close>

text \<open>Bit 4 (break) exists only in pushed copies, and bit 5 reads as one.\<close>

definition status_ok :: "u8 \<Rightarrow> bool" where
  "status_ok p \<longleftrightarrow> bit p 5 \<and> \<not> bit p 4"

lemma status_ok_put_flag [simp]:
  "status_ok (put_flag FLAG_CARRY b p) = status_ok p"
  "status_ok (put_flag FLAG_ZERO b p) = status_ok p"
  "status_ok (put_flag FLAG_INTERRUPT b p) = status_ok p"
  "status_ok (put_flag FLAG_DECIMAL b p) = status_ok p"
  "status_ok (put_flag FLAG_OVERFLOW b p) = status_ok p"
  "status_ok (put_flag FLAG_SIGN b p) = status_ok p"
  by (simp_all add: status_ok_def)

lemma status_ok_pulled [simp]: "status_ok (p AND - 17 OR 32)"
  by (simp add: status_ok_def bit_simps)

lemma status_ok_bit_insn [simp]: "status_ok ((p AND 0x3F) OR to8 (w AND 0xC0)) = status_ok p"
  by (simp add: status_ok_def bit_simps)

lemma status_ok_arith [simp]: "status_ok (arith_status a m r p) = status_ok p"
  by (simp add: arith_status_def)

lemma plain_status:
  "list_all (\<lambda>f. \<forall>s. status_ok (cpu_status s) \<longrightarrow> status_ok (cpu_status (f s))) plain_handlers"
  by (simp add: plain_handlers_def insn_defs state_simps)

lemma arith_status_ok:
  "list_all (\<lambda>f. \<forall>s. status_ok (cpu_status s) \<longrightarrow> status_ok (cpu_status (f s))) arith_handlers"
  by (simp add: arith_handlers_def arith_defs state_simps)

lemmas plain_status_each = plain_status[unfolded plain_handlers_def list.pred_inject]
lemmas arith_status_each = arith_status_ok[unfolded arith_handlers_def list.pred_inject]

lemma pair_status:
  "list_all (\<lambda>f. \<forall>s. status_ok (cpu_status s) \<longrightarrow> status_ok (cpu_status (f s))) pair_handlers"
proof -
  have tail: "cpu_status (no_penalty s) = cpu_status s" "cpu_status (putvalue w s) = cpu_status s"
    for w and s :: "'h cpu"
    by (simp_all add: state_simps)
  show ?thesis
    by (simp add: plain_status_each arith_status_each pair_handlers_def pair_defs tail Let_def)
qed

lemma handler_status:
  "status_ok (cpu_status s) \<Longrightarrow> status_ok (cpu_status (optable v opc s))"
  by (rule optable_cases[OF plain_status arith_status_ok pair_status, THEN spec, THEN mp])

section \<open>How far one handler moves the clock\<close>

text \<open>
  A documented handler adds at most two cycles; an undocumented pair takes one back only
  where \<open>fetch_execute\<close> adds it again.
\<close>

definition clock_moved :: "'h cpu \<Rightarrow> 'h cpu \<Rightarrow> bool" where
  "clock_moved s t \<longleftrightarrow>
     (\<exists>d. unat d \<le> 2 \<and> clockticks6502 t = clockticks6502 s + d) \<or>
     (penaltyop t \<and> penaltyaddr t \<and> clockticks6502 t = clockticks6502 s - 1)"

lemma clock_moved_by [simp]:
  "clockticks6502 t = clockticks6502 s \<Longrightarrow> clock_moved s t"
  "clockticks6502 t = clockticks6502 s + 1 \<Longrightarrow> clock_moved s t"
  "clockticks6502 t = clockticks6502 s + 2 \<Longrightarrow> clock_moved s t"
  unfolding clock_moved_def
  by (rule disjI1, rule exI[of _ 0], simp) (rule disjI1, rule exI[of _ 1], simp,
      rule disjI1, rule exI[of _ 2], simp)

lemma plain_clock: "list_all (\<lambda>f. \<forall>s. clock_moved s (f s)) plain_handlers"
  by (simp add: plain_handlers_def insn_defs state_simps)

lemma arith_clock: "list_all (\<lambda>f. \<forall>s. clock_moved s (f s)) arith_handlers"
  by (simp add: arith_handlers_def arith_defs state_simps)

lemma no_penalty_clock:
  "clockticks6502 t = clockticks6502 s \<Longrightarrow> clock_moved s (no_penalty t)"
  by (cases "penaltyop t \<and> penaltyaddr t") (auto simp: no_penalty_def clock_moved_def)

lemma silent_clock:
  "clockticks6502 (lda_insn s) = clockticks6502 s" "clockticks6502 (ldx_insn s) = clockticks6502 s"
  "clockticks6502 (sta_insn s) = clockticks6502 s" "clockticks6502 (stx_insn s) = clockticks6502 s"
  "clockticks6502 (dec_insn s) = clockticks6502 s" "clockticks6502 (inc_insn s) = clockticks6502 s"
  "clockticks6502 (cmp_insn s) = clockticks6502 s" "clockticks6502 (sbc_insn s) = clockticks6502 s"
  "clockticks6502 (asl_insn s) = clockticks6502 s" "clockticks6502 (ora_insn s) = clockticks6502 s"
  "clockticks6502 (rol_insn s) = clockticks6502 s" "clockticks6502 (and_insn s) = clockticks6502 s"
  "clockticks6502 (lsr_insn s) = clockticks6502 s" "clockticks6502 (eor_insn s) = clockticks6502 s"
  "clockticks6502 (ror_insn s) = clockticks6502 s" "clockticks6502 (adc_insn s) = clockticks6502 s"
  "clockticks6502 (putvalue w s) = clockticks6502 s"
  by (simp_all add: insn_defs arith_defs state_simps)

lemma pair_clock: "list_all (\<lambda>f. \<forall>s. clock_moved s (f s)) pair_handlers"
  by (simp add: pair_handlers_def pair_defs Let_def no_penalty_clock silent_clock)

lemma handler_clock: "clock_moved s (optable v opc s)"
  by (rule optable_cases[OF plain_clock arith_clock pair_clock, THEN spec])

section \<open>Addressing modes\<close>

lemma run_mode_frame:
  "cpu_env (run_mode m s) = cpu_env s"
  "cpu_status (run_mode m s) = cpu_status s"
  "clockticks6502 (run_mode m s) = clockticks6502 s"
  "cpu_a (run_mode m s) = cpu_a s" "cpu_x (run_mode m s) = cpu_x s"
  "cpu_y (run_mode m s) = cpu_y s" "cpu_sp (run_mode m s) = cpu_sp s"
  "penaltyop (run_mode m s) = penaltyop s"
  "wai_pending (run_mode m s) = wai_pending s" "stp_pending (run_mode m s) = stp_pending s"
  by (cases m; simp add: mode_defs imp_mode_def acc_mode_def cpu_env_def cpu_frame Let_def split_def)+

lemma cpu_env_fields:
  "cpu_env s = cpu_env t \<longleftrightarrow> cpu_hooks s = cpu_hooks t \<and> cpu_variant_sel s = cpu_variant_sel t \<and>
     cpu_tables s = cpu_tables t \<and> cpu_opcode s = cpu_opcode t \<and>
     clockgoal6502 s = clockgoal6502 t \<and> instructions s = instructions t \<and>
     callexternal s = callexternal t"
  by (auto simp: cpu_env_def)

end
