(* ===== verification/Cpu_Machine.thy ===== *)
theory Cpu_Machine imports Cpu_Inv begin

text \<open>
  The CPU core as a state machine: the calls its host makes (\<open>step6502\<close>, \<open>irq6502\<close>,
  \<open>nmi6502\<close>, \<open>reset6502\<close>, and so on) as steps from the power-on state, the invariant of
  the status register, how far the clock moves, and the termination of \<open>exec6502\<close>.
\<close>

section \<open>One instruction\<close>

text \<open>\<open>fetch_execute\<close> in three parts: decode, run the mode and the handler, count the cycles.\<close>

definition decoded :: "'h cpu \<Rightarrow> 'h cpu" where
  "decoded s = (snd (fetch s))\<lparr>cpu_opcode := fst (fetch s),
     cpu_status := cpu_status s OR FLAG_CONSTANT, penaltyop := False, penaltyaddr := False\<rparr>"

definition handled :: "'h cpu \<Rightarrow> 'h cpu" where
  "handled s = (let d = decoded s in
     optable (cpu_tables s) (cpu_opcode d) (run_mode (addrtable (cpu_tables s) (cpu_opcode d)) d))"

lemma handler_fields [simp]:
  "cpu_hooks (optable v opc s) = cpu_hooks s"
  "cpu_variant_sel (optable v opc s) = cpu_variant_sel s"
  "cpu_tables (optable v opc s) = cpu_tables s"
  "cpu_opcode (optable v opc s) = cpu_opcode s"
  "clockgoal6502 (optable v opc s) = clockgoal6502 s"
  "instructions (optable v opc s) = instructions s"
  "callexternal (optable v opc s) = callexternal s"
  using handler_env[of v opc s] by (simp_all add: cpu_env_def)

lemma run_mode_fields [simp]:
  "cpu_hooks (run_mode m s) = cpu_hooks s"
  "cpu_variant_sel (run_mode m s) = cpu_variant_sel s"
  "cpu_tables (run_mode m s) = cpu_tables s"
  "cpu_opcode (run_mode m s) = cpu_opcode s"
  "clockgoal6502 (run_mode m s) = clockgoal6502 s"
  "instructions (run_mode m s) = instructions s"
  "callexternal (run_mode m s) = callexternal s"
  using run_mode_frame(1)[of m s] by (simp_all add: cpu_env_def)

lemma decoded_fields [simp]:
  "cpu_hooks (decoded s) = cpu_hooks s"
  "cpu_variant_sel (decoded s) = cpu_variant_sel s"
  "cpu_tables (decoded s) = cpu_tables s"
  "clockgoal6502 (decoded s) = clockgoal6502 s"
  "clockticks6502 (decoded s) = clockticks6502 s"
  "instructions (decoded s) = instructions s"
  "callexternal (decoded s) = callexternal s"
  "cpu_status (decoded s) = cpu_status s OR FLAG_CONSTANT"
  by (simp_all add: decoded_def cpu_frame)

lemma handled_fields [simp]:
  "cpu_hooks (handled s) = cpu_hooks s"
  "cpu_variant_sel (handled s) = cpu_variant_sel s"
  "cpu_tables (handled s) = cpu_tables s"
  "clockgoal6502 (handled s) = clockgoal6502 s"
  "instructions (handled s) = instructions s"
  "callexternal (handled s) = callexternal s"
  by (simp_all add: handled_def Let_def)

lemma fetch_execute_eq:
  "fetch_execute s = (handled s)\<lparr>clockticks6502 := clockticks6502 (handled s) +
       ucast (ticktable (cpu_tables s) (cpu_opcode (decoded s))) +
       (if penaltyop (handled s) \<and> penaltyaddr (handled s) then 1 else 0)\<rparr>"
proof -
  have "fetch_execute s =
     (let t = (handled s)\<lparr>clockticks6502 := clockticks6502 (handled s) +
            ucast (ticktable (cpu_tables s) (cpu_opcode (decoded s)))\<rparr>
      in if penaltyop t \<and> penaltyaddr t
         then t\<lparr>clockticks6502 := clockticks6502 t + 1\<rparr> else t)"
    by (simp only: fetch_execute_def handled_def decoded_def Let_def split_def
        run_mode_fields handler_fields) (simp add: cpu_frame)
  then show ?thesis by (simp add: Let_def)
qed

lemma fetch_execute_env [simp]:
  "cpu_hooks (fetch_execute s) = cpu_hooks s"
  "cpu_variant_sel (fetch_execute s) = cpu_variant_sel s"
  "cpu_tables (fetch_execute s) = cpu_tables s"
  "clockgoal6502 (fetch_execute s) = clockgoal6502 s"
  "instructions (fetch_execute s) = instructions s"
  "callexternal (fetch_execute s) = callexternal s"
  by (simp_all add: fetch_execute_eq)

lemma fetch_execute_status:
  assumes "\<not> bit (cpu_status s) 4"
  shows "status_ok (cpu_status (fetch_execute s))"
proof -
  have "status_ok (cpu_status s OR FLAG_CONSTANT)"
    using assms by (simp add: status_ok_def bit_simps)
  then show ?thesis
    by (simp add: fetch_execute_eq handled_def Let_def handler_status run_mode_frame)
qed

text \<open>The instruction's cycles: at least one, at most 8 + 2 + 1.\<close>

definition cycles_moved :: "u64 \<Rightarrow> u64 \<Rightarrow> bool" where
  "cycles_moved c c' \<longleftrightarrow> (\<exists>d. 1 \<le> d \<and> d \<le> 11 \<and> c' = c + word_of_nat d)"

lemma ticktable_unat: "1 \<le> unat (ticktable v opc) \<and> unat (ticktable v opc) \<le> 8"
  using ticktable_bounds[of v opc] by (simp add: word_le_nat_alt)

lemma clock_moved_cycles:
  fixes s t :: "'h cpu" and k :: u32
  assumes "clock_moved s t" "1 \<le> unat k" "unat k \<le> 8"
  shows "cycles_moved (clockticks6502 s)
    (clockticks6502 t + ucast k + (if penaltyop t \<and> penaltyaddr t then 1 else 0))"
  using assms(1) unfolding clock_moved_def
proof (elim disjE exE conjE)
  fix d assume d: "unat d \<le> 2" "clockticks6502 t = clockticks6502 s + d"
  let ?p = "if penaltyop t \<and> penaltyaddr t then 1 else 0 :: nat"
  have "clockticks6502 t + ucast k + (if penaltyop t \<and> penaltyaddr t then 1 else 0)
      = clockticks6502 s + word_of_nat (unat d + unat k + ?p)"
    by (simp add: d(2))
  then show ?thesis
    unfolding cycles_moved_def using assms(2,3) d(1)
    by (intro exI[of _ "unat d + unat k + ?p"]) simp
next
  assume p: "penaltyop t" "penaltyaddr t" and c: "clockticks6502 t = clockticks6502 s - 1"
  have "clockticks6502 t + ucast k + (if penaltyop t \<and> penaltyaddr t then 1 else 0)
      = clockticks6502 s + word_of_nat (unat k)"
    by (simp add: p c)
  then show ?thesis
    unfolding cycles_moved_def using assms(2,3) by (intro exI[of _ "unat k"]) simp
qed

lemma fetch_execute_clock: "cycles_moved (clockticks6502 s) (clockticks6502 (fetch_execute s))"
proof -
  let ?d = "decoded s"
  let ?m = "run_mode (addrtable (cpu_tables s) (cpu_opcode ?d)) ?d"
  have "clock_moved ?m (handled s)"
    unfolding handled_def Let_def by (rule handler_clock)
  moreover have "clockticks6502 ?m = clockticks6502 s" by (simp add: run_mode_frame)
  ultimately show ?thesis
    using clock_moved_cycles[of ?m "handled s" "ticktable (cpu_tables s) (cpu_opcode ?d)"]
      ticktable_unat by (simp add: fetch_execute_eq)
qed

lemma call_external_fields [simp]:
  "clockticks6502 (call_external s) = clockticks6502 s"
  "clockgoal6502 (call_external s) = clockgoal6502 s"
  "cpu_status (call_external s) = cpu_status s"
  "cpu_hooks (call_external s) = cpu_hooks s"
  "instructions (call_external s) = instructions s"
  by (simp_all add: call_external_def)

lemma cycles_moved_one: "cycles_moved c (c + 1)"
  unfolding cycles_moved_def by (rule exI[of _ 1]) simp

lemma exec_body_clock: "cycles_moved (clockticks6502 s) (clockticks6502 (exec_body s))"
  by (simp add: exec_body_def Let_def fetch_execute_clock cycles_moved_one)

lemma exec_body_goal: "clockgoal6502 (exec_body s) = clockgoal6502 s"
  by (simp add: exec_body_def Let_def fetch_execute_env)

lemma step6502_cycles: "cycles_moved (clockticks6502 s) (clockticks6502 (step6502 s))"
proof -
  have "clockticks6502 (cpu_select_tables s) = clockticks6502 s"
    by (simp add: cpu_select_tables_def)
  then show ?thesis
    using fetch_execute_clock[of "cpu_select_tables s"]
    by (simp add: step6502_def Let_def cycles_moved_one)
qed


section \<open>\<open>exec6502\<close> returns\<close>

text \<open>
  While the goal leaves room below \<open>2 ^ 64\<close>, each pass of the loop moves the clock up
  without wrapping, so the distance to the goal shrinks.
\<close>

lemma cycles_moved_unat:
  assumes "cycles_moved c c'" "unat c + 11 < 2 ^ 64"
  shows "unat c < unat c'" "unat c' \<le> unat c + 11"
proof -
  obtain d where d: "1 \<le> d" "d \<le> 11" "c' = c + word_of_nat d"
    using assms(1) by (auto simp: cycles_moved_def)
  have "unat c' = (unat c + d) mod 2 ^ 64"
    unfolding d(3) by (simp add: unat_word_ariths unat_of_nat mod_simps)
  also have "\<dots> = unat c + d" using assms(2) d(2) by simp
  finally show "unat c < unat c'" "unat c' \<le> unat c + 11" using d by simp_all
qed

lemma exec_loop_returns:
  assumes "unat (clockgoal6502 s) + 11 < 2 ^ 64"
  shows "\<exists>t. exec_loop s = Some t"
  using assms
proof (induction "unat (clockgoal6502 s) - unat (clockticks6502 s)" arbitrary: s
    rule: less_induct)
  case less
  show ?case
  proof (cases "clockticks6502 s < clockgoal6502 s")
    case True
    then have lt: "unat (clockticks6502 s) < unat (clockgoal6502 s)"
      by (simp add: word_less_nat_alt)
    then have room: "unat (clockticks6502 s) + 11 < 2 ^ 64" using less.prems by simp
    have "unat (clockticks6502 s) < unat (clockticks6502 (exec_body s))"
      by (rule cycles_moved_unat(1)[OF exec_body_clock room])
    with lt have "\<exists>t. exec_loop (exec_body s) = Some t"
      using less.prems by (intro less.hyps) (simp_all add: exec_body_goal)
    with True show ?thesis by (simp add: exec_loop.simps[of s])
  next
    case False
    then show ?thesis by (simp add: exec_loop.simps[of s])
  qed
qed

lemma exec_loop_stops:
  assumes "exec_loop s = Some t"
  shows "clockgoal6502 t = clockgoal6502 s \<and> clockgoal6502 t \<le> clockticks6502 t"
  using assms
proof (rule exec_loop.raw_induct[rotated])
  fix loop :: "'h cpu \<Rightarrow> 'h cpu option" and s t
  assume ih: "\<And>s t. loop s = Some t \<Longrightarrow>
      clockgoal6502 t = clockgoal6502 s \<and> clockgoal6502 t \<le> clockticks6502 t"
    and r: "(if clockticks6502 s < clockgoal6502 s then loop (exec_body s) else Some s) = Some t"
  show "clockgoal6502 t = clockgoal6502 s \<and> clockgoal6502 t \<le> clockticks6502 t"
    using r ih[of "exec_body s" t] by (auto simp: exec_body_goal split: if_splits)
qed

lemma exec_loop_overshoot:
  assumes "exec_loop s = Some t" "unat (clockgoal6502 s) + 11 < 2 ^ 64"
  shows "unat (clockticks6502 t) \<le> max (unat (clockticks6502 s)) (unat (clockgoal6502 s) + 10)"
proof -
  have "unat (clockgoal6502 s) + 11 < 2 ^ 64 \<longrightarrow>
      unat (clockticks6502 t) \<le> max (unat (clockticks6502 s)) (unat (clockgoal6502 s) + 10)"
    using assms(1)
  proof (rule exec_loop.raw_induct[rotated])
    fix loop :: "'a cpu \<Rightarrow> 'a cpu option" and s t
    assume ih: "\<And>s t. loop s = Some t \<Longrightarrow> unat (clockgoal6502 s) + 11 < 2 ^ 64 \<longrightarrow>
        unat (clockticks6502 t) \<le> max (unat (clockticks6502 s)) (unat (clockgoal6502 s) + 10)"
      and r: "(if clockticks6502 s < clockgoal6502 s then loop (exec_body s) else Some s) = Some t"
    show "unat (clockgoal6502 s) + 11 < 2 ^ 64 \<longrightarrow>
        unat (clockticks6502 t) \<le> max (unat (clockticks6502 s)) (unat (clockgoal6502 s) + 10)"
    proof (cases "clockticks6502 s < clockgoal6502 s")
      case True
      then have lt: "unat (clockticks6502 s) < unat (clockgoal6502 s)"
        by (simp add: word_less_nat_alt)
      show ?thesis
      proof
        assume room: "unat (clockgoal6502 s) + 11 < 2 ^ 64"
        then have "unat (clockticks6502 (exec_body s)) \<le> unat (clockticks6502 s) + 11"
          using lt by (intro cycles_moved_unat(2)[OF exec_body_clock]) simp
        moreover have "unat (clockticks6502 t) \<le>
            max (unat (clockticks6502 (exec_body s))) (unat (clockgoal6502 s) + 10)"
          using ih[of "exec_body s" t] r room True by (simp add: exec_body_goal)
        ultimately show "unat (clockticks6502 t) \<le>
            max (unat (clockticks6502 s)) (unat (clockgoal6502 s) + 10)" using lt by simp
      qed
    qed (use r in simp)
  qed
  then show ?thesis using assms(2) by blast
qed

text \<open>What every pass of the loop keeps, \<open>exec6502\<close> keeps.\<close>

lemma exec_loop_inv:
  assumes "exec_loop s = Some t" "P s" "\<And>s. P s \<Longrightarrow> P (exec_body s)"
  shows "P t"
proof -
  have "P s \<longrightarrow> P t" using assms(1)
    by (rule exec_loop.raw_induct[rotated]) (use assms(3) in \<open>auto split: if_splits\<close>)
  then show ?thesis using assms(2) by blast
qed

section \<open>Reachable states\<close>

text \<open>
  The calls a host makes, and the two things it writes directly: its own state and the
  variant selector.
\<close>

inductive cpu_trans :: "'h cpu \<Rightarrow> 'h cpu \<Rightarrow> bool" where
  tr_step: "cpu_trans s (step6502 s)"
| tr_exec: "exec6502 n s = Some t \<Longrightarrow> cpu_trans s t"
| tr_irq: "cpu_trans s (irq6502 s)"
| tr_nmi: "cpu_trans s (nmi6502 s)"
| tr_reset: "cpu_trans s (reset6502 s)"
| tr_clear_wai: "cpu_trans s (cpu_clear_wai s)"
| tr_hook: "cpu_trans s (hookexternal f s)"
| tr_host: "cpu_trans s (s\<lparr>cpu_host := h\<rparr>)"
| tr_variant: "cpu_trans s (s\<lparr>cpu_variant_sel := v\<rparr>)"

inductive cpu_reach :: "'h hooks \<Rightarrow> 'h \<Rightarrow> 'h cpu \<Rightarrow> bool" for k h where
  reach_power_on: "cpu_reach k h (power_on k h)"
| reach_trans: "cpu_reach k h s \<Longrightarrow> cpu_trans s t \<Longrightarrow> cpu_reach k h t"

inductive_cases cpu_transE: "cpu_trans s t"

lemma exec_body_status:
  "\<not> bit (cpu_status s) 4 \<Longrightarrow> \<not> bit (cpu_status (exec_body s)) 4"
  using fetch_execute_status[of s] by (simp add: exec_body_def Let_def status_ok_def)

lemma exec_body_status_ok:
  "status_ok (cpu_status s) \<Longrightarrow> status_ok (cpu_status (exec_body s))"
  using fetch_execute_status[of s] by (simp add: exec_body_def Let_def status_ok_def)

lemma select_tables_fields [simp]:
  "cpu_status (cpu_select_tables s) = cpu_status s"
  "stp_pending (cpu_select_tables s) = stp_pending s"
  "wai_pending (cpu_select_tables s) = wai_pending s"
  by (simp_all add: cpu_select_tables_def)

lemma interrupt_status:
  "cpu_status (irq6502 s) = cpu_status s OR FLAG_INTERRUPT"
  "cpu_status (nmi6502 s) = cpu_status s OR FLAG_INTERRUPT"
  "cpu_status (reset6502 s) = cpu_status s OR FLAG_CONSTANT"
  "cpu_status (cpu_clear_wai s) = cpu_status s"
  "cpu_status (hookexternal f s) = cpu_status s"
  by (simp_all add: irq6502_def nmi6502_def reset6502_def cpu_clear_wai_def hookexternal_def
      cpu_frame Let_def split: option.split)

text \<open>A predicate on the status that survives every call.\<close>

lemma trans_status:
  assumes "cpu_trans s t" "P (cpu_status s)"
    and body: "\<And>u :: 'h cpu. P (cpu_status u) \<Longrightarrow> P (cpu_status (fetch_execute u))"
    and irq: "\<And>p. P p \<Longrightarrow> P (p OR FLAG_INTERRUPT)"
    and con: "\<And>p. P p \<Longrightarrow> P (p OR FLAG_CONSTANT)"
  shows "P (cpu_status (t :: 'h cpu))"
  using assms(1)
proof cases
  case tr_step
  then show ?thesis using assms(2) body[of "cpu_select_tables s"]
    by (simp add: step6502_def Let_def)
next
  case (tr_exec n)
  show ?thesis
    by (rule exec_loop_inv[where P = "\<lambda>s. P (cpu_status s)", OF tr_exec[unfolded exec6502_def Let_def]])
      (use assms(2) body in \<open>simp_all add: exec_body_def Let_def\<close>)
qed (use assms(2) irq con in \<open>simp_all add: interrupt_status\<close>)

lemma trans_bit4:
  "cpu_trans s t \<Longrightarrow> \<not> bit (cpu_status s) 4 \<Longrightarrow> \<not> bit (cpu_status t) 4"
  by (erule trans_status[where P = "\<lambda>p. \<not> bit p 4"])
    (use fetch_execute_status in \<open>auto simp: status_ok_def bit_simps\<close>)

lemma trans_status_ok: "cpu_trans s t \<Longrightarrow> status_ok (cpu_status s) \<Longrightarrow> status_ok (cpu_status t)"
  by (erule trans_status[where P = status_ok])
    (use fetch_execute_status in \<open>auto simp: status_ok_def bit_simps\<close>)

lemma reach_bit4: "cpu_reach k h s \<Longrightarrow> \<not> bit (cpu_status s) 4"
  by (induction rule: cpu_reach.induct) (simp_all add: trans_bit4)

section \<open>Stopped and waiting\<close>

lemma exec_body_pending:
  "stp_pending s \<or> wai_pending s \<Longrightarrow>
   exec_body s = s\<lparr>clockticks6502 := clockticks6502 s + 1\<rparr>"
  by (simp add: exec_body_def)

lemma idle_exec_loop:
  assumes "exec_loop s = Some t" "stp_pending s \<or> wai_pending s"
  shows "t = s\<lparr>clockticks6502 := clockticks6502 t\<rparr>"
proof -
  have "(\<exists>c. t = s\<lparr>clockticks6502 := c\<rparr>)"
    using assms(1)
    by (rule exec_loop_inv[where P = "\<lambda>u. \<exists>c. u = s\<lparr>clockticks6502 := c\<rparr>"])
      (use assms(2) in \<open>auto simp: exec_body_pending intro: exI[of _ "clockticks6502 s"]\<close>)
  then show ?thesis by auto
qed

lemma clock_keeps_stp:
  "t = s\<lparr>clockgoal6502 := g, clockticks6502 := c\<rparr> \<Longrightarrow> stp_pending t = stp_pending s"
  by simp

lemma interrupt_pending:
  "stp_pending (irq6502 s) = stp_pending s" "stp_pending (nmi6502 s) = stp_pending s"
  "stp_pending (cpu_clear_wai s) = stp_pending s" "stp_pending (hookexternal f s) = stp_pending s"
  by (simp_all add: irq6502_def nmi6502_def cpu_clear_wai_def hookexternal_def
      cpu_frame Let_def split: option.split)

lemma select_tables_eq: "cpu_select_tables s = s\<lparr>cpu_tables := cpu_variant_sel s\<rparr>"
  by (cases "cpu_variant_sel s") (simp_all add: cpu_select_tables_def)

section \<open>Properties\<close>

text \<open>
  Property C1: \<open>exec6502\<close> returns as long as the goal does not come within 11 cycles of the
  64-bit range: the goal has moved by the cycles asked for, the clock has reached it, and
  the last instruction overshoots it by at most 10 cycles.
\<close>

theorem exec6502_returns:
  assumes "unat (clockgoal6502 s) + unat n + 11 < 2 ^ 64"
  shows "\<exists>t. exec6502 n s = Some t \<and> clockgoal6502 t = clockgoal6502 s + n \<and>
    unat (clockgoal6502 s) + unat n \<le> unat (clockticks6502 t) \<and>
    unat (clockticks6502 t) \<le>
      max (unat (clockticks6502 s)) (unat (clockgoal6502 s) + unat n + 10)"
proof -
  let ?u = "cpu_select_tables s\<lparr>clockgoal6502 := clockgoal6502 (cpu_select_tables s) + n\<rparr>"
  have g: "unat (clockgoal6502 s + n) = unat (clockgoal6502 s) + unat n"
    using assms by (simp add: unat_plus_if')
  have u: "clockgoal6502 ?u = clockgoal6502 s + n" "clockticks6502 ?u = clockticks6502 s"
    by (simp_all add: select_tables_eq)
  obtain t where t: "exec_loop ?u = Some t"
    using exec_loop_returns[of ?u] assms unfolding u g by auto
  have "clockgoal6502 t = clockgoal6502 s + n" "clockgoal6502 s + n \<le> clockticks6502 t"
    using exec_loop_stops[OF t] u by metis+
  moreover have "unat (clockticks6502 t) \<le>
      max (unat (clockticks6502 s)) (unat (clockgoal6502 s) + unat n + 10)"
    using exec_loop_overshoot[OF t] assms unfolding u g by simp
  ultimately show ?thesis using t g by (auto simp: exec6502_def word_le_nat_alt)
qed

theorem exec6502_returns_witness:
  "\<exists>t. exec6502 1000 (power_on flat_hooks (\<lambda>_. 0xEA)) = Some t \<and>
     1000 \<le> unat (clockticks6502 t) \<and> unat (clockticks6502 t) \<le> 1010"
  using exec6502_returns[of "power_on flat_hooks (\<lambda>_. 0xEA)" 1000] by auto

text \<open>
  One call of \<open>step6502\<close> takes between 1 and 11 cycles and moves the goal to
  the clock. If neither WAI nor STP is pending one instruction is counted; otherwise nothing but
  the clock moves, by one cycle.
\<close>

theorem step6502_correct:
  "(\<exists>d. 1 \<le> d \<and> d \<le> 11 \<and> clockticks6502 (step6502 s) = clockticks6502 s + word_of_nat d) \<and>
   clockgoal6502 (step6502 s) = clockticks6502 (step6502 s) \<and>
   (if stp_pending s \<or> wai_pending s
    then step6502 s = s\<lparr>cpu_tables := cpu_variant_sel s, clockticks6502 := clockticks6502 s + 1,
      clockgoal6502 := clockticks6502 s + 1\<rparr>
    else instructions (step6502 s) = instructions s + 1)"
  using step6502_cycles[of s] unfolding cycles_moved_def
  by (auto simp: step6502_def Let_def select_tables_eq)

text \<open>
  Property C15: in every state a host can reach from power-on the status register has bit 4
  clear (the break flag exists only in pushed copies), and from a reset on bit 5 is set too.
\<close>

theorem status_invariant:
  assumes "cpu_reach k h s"
  shows "\<not> bit (cpu_status s) 4 \<and>
    (\<forall>t. cpu_trans\<^sup>*\<^sup>* (reset6502 s) t \<longrightarrow> bit (cpu_status t) 5 \<and> \<not> bit (cpu_status t) 4)"
proof (intro conjI allI impI)
  show b: "\<not> bit (cpu_status s) 4" by (rule reach_bit4[OF assms])
  fix t assume "cpu_trans\<^sup>*\<^sup>* (reset6502 s) t"
  then have "status_ok (cpu_status t)"
  proof induction
    case base
    show ?case using b by (simp add: interrupt_status status_ok_def bit_simps)
  qed (rule trans_status_ok)
  then show "bit (cpu_status t) 5" "\<not> bit (cpu_status t) 4" by (simp_all add: status_ok_def)
qed

theorem status_invariant_witness:
  "bit (cpu_status (step6502 (reset6502 (power_on flat_hooks (\<lambda>_. 0x28))))) 5"
  using status_invariant[OF reach_power_on[of flat_hooks "\<lambda>_. 0x28"]] tr_step by blast

text \<open>
  Once STP has executed only a reset ends it, whatever the host calls.
\<close>

theorem stp_until_reset:
  assumes "stp_pending s" "cpu_trans s t"
  shows "stp_pending t \<or> t = reset6502 s"
  using assms(2)
proof cases
  case tr_step
  then show ?thesis using assms(1) by (simp add: step6502_def Let_def)
next
  case (tr_exec n)
  have "stp_pending t = stp_pending (cpu_select_tables s)"
    by (rule clock_keeps_stp, rule idle_exec_loop[OF tr_exec[unfolded exec6502_def Let_def]])
      (use assms(1) in simp)
  then show ?thesis using assms(1) by simp
qed (use assms(1) in \<open>simp_all add: interrupt_pending\<close>)

theorem stp_until_reset_witness:
  "let s = step6502 ((power_on flat_hooks (\<lambda>_. 0xDB))\<lparr>cpu_variant_sel := CPU_65C02\<rparr>)
   in stp_pending s \<and> (stp_pending (irq6502 s) \<or> irq6502 s = reset6502 s)"
proof -
  have "stp_pending (step6502 ((power_on flat_hooks (\<lambda>_. 0xDB))\<lparr>cpu_variant_sel := CPU_65C02\<rparr>))"
    by (simp add: step6502_def Let_def select_tables_eq fetch_execute_eq handled_def
        decoded_def cpu_frame optable_65c02_def addrtable_65c02_def stp_insn_def imp_mode_def call_external_def)
  then show ?thesis using stp_until_reset[OF _ tr_irq] by (simp add: Let_def)
qed

end
