(* ===== verification/Cpu_Alu.thy ===== *)
theory Cpu_Alu imports Cpu_Machine begin

text \<open>
  What the arithmetic handlers compute: ADC, SBC and the comparisons against integer
  arithmetic, in binary and in decimal mode, on both variants.
\<close>

lemma operand_penaltyop [simp]: "operand (s\<lparr>penaltyop := b\<rparr>) = operand s"
  by (simp add: operand_def acc_operand_def)

lemma operand_host_penaltyop [simp]: "operand_host (s\<lparr>penaltyop := b\<rparr>) = operand_host s"
  by (simp add: operand_host_def acc_operand_def)

lemma carry_in_eq: "carry_in s = of_bool (bit (cpu_status s) 0)"
  by (simp add: carry_in_def u8_flag_iff)

section \<open>The binary path\<close>

lemma sum_bounds:
  "uint (to16 a + to16 m + of_bool c) = uint a + uint m + of_bool c" for a m :: u8
proof -
  have "uint a + uint m + of_bool c < 2 ^ 16" using uint_u8_bounds(2)[of a] uint_u8_bounds(2)[of m]
    by (cases c) auto
  moreover have "0 \<le> uint a + uint m + of_bool c" by simp
  ultimately have "(uint a + uint m + of_bool c) mod 2 ^ 16 = uint a + uint m + of_bool c"
    by (rule mod_pos_pos_trivial[rotated])
  then show ?thesis by (cases c) (simp_all add: uint_word_ariths mod_simps)
qed

lemma to8_sum_bit7:
  "bit (to16 a + to16 m + of_bool c) 7 = bit (a + m + of_bool c) 7" for a m :: u8
proof -
  have "to8 (to16 a + to16 m + of_bool c) = a + m + of_bool c"
    by (simp add: to8_plus)
  then have "bit (to8 (to16 a + to16 m + of_bool c)) 7 = bit (a + m + of_bool c) 7" by simp
  then show ?thesis by (simp add: bit_simps)
qed

lemma bit7_uint: "bit w 7 \<longleftrightarrow> 128 \<le> uint w" for w :: u8
proof -
  have "sint w = (if bit w 7 then uint w - 256 else uint w)" by (rule sint_u8)
  moreover have "- 128 \<le> sint w" "sint w < 128"
    using sint_ge[of w] sint_lt[of w] by simp_all
  ultimately show ?thesis using uint_u8_bounds[of w] by (auto split: if_splits)
qed

lemma mod_if_256: "0 \<le> n \<Longrightarrow> n < 512 \<Longrightarrow> n mod 256 = (if n < 256 then n else n - 256)" for n :: int
  by (auto simp: mod_pos_pos_trivial) presburger

text \<open>The sign rule for overflow, on integers: like signs in, the other sign out.\<close>

lemma overflow_rule:
  fixes x y k :: int
  assumes "0 \<le> x" "x < 256" "0 \<le> y" "y < 256" "k = 0 \<or> k = 1"
  shows "((128 \<le> (x + y + k) mod 256) \<noteq> (128 \<le> x) \<and>
          (128 \<le> (x + y + k) mod 256) \<noteq> (128 \<le> y)) \<longleftrightarrow>
    (if 128 \<le> x then x - 256 else x) + (if 128 \<le> y then y - 256 else y) + k \<notin> {-128..127}"
proof -
  have "(x + y + k) mod 256 = (if x + y + k < 256 then x + y + k else x + y + k - 256)"
    using assms by (intro mod_if_256) auto
  then show ?thesis using assms by auto
qed

lemma uint_sum_wrap:
  "uint (a + m + of_bool c) = (uint a + uint m + of_bool c) mod 256" for a m :: u8
  by (simp add: uint_word_ariths mod_simps)

text \<open>
  The status that the binary path leaves, read back as integer facts: the carry and the
  byte together are the unsigned sum, V is signed overflow, N and Z describe the byte.
\<close>

lemma arith_status_sum:
  fixes a m p :: u8 and c :: bool
  defines "r \<equiv> to16 a + to16 m + of_bool c"
  defines "q \<equiv> arith_status (to16 a) (to16 m) r p"
  shows "uint (to8 r) + 256 * of_bool (bit q 0) = uint a + uint m + of_bool c"
    and "bit q 6 \<longleftrightarrow> sint a + sint m + of_bool c \<notin> {-128..127}"
    and "bit q 7 \<longleftrightarrow> bit (to8 r) 7"
    and "bit q 1 \<longleftrightarrow> to8 r = 0"
    and "\<And>n. n \<in> {2, 3, 4, 5} \<Longrightarrow> bit q n = bit p n"
proof -
  have r: "uint r = uint a + uint m + of_bool c" unfolding r_def by (rule sum_bounds)
  have r8: "to8 r = a + m + of_bool c" unfolding r_def by (simp add: to8_plus)
  have b: "bit q 0 \<longleftrightarrow> 256 \<le> uint r"
    by (simp add: q_def arith_status_def u16_high_zero not_less)
  show "uint (to8 r) + 256 * of_bool (bit q 0) = uint a + uint m + of_bool c"
    unfolding b uint_to8 r using uint_u8_bounds[of a] uint_u8_bounds[of m]
    by (cases c) (auto simp: mod_if_256)
  have sign: "bit r 7 \<longleftrightarrow> bit (to8 r) 7" by (simp add: bit_simps)
  have "bit q 6 \<longleftrightarrow> (bit r 7 \<noteq> bit a 7) \<and> (bit r 7 \<noteq> bit m 7)"
    unfolding q_def arith_status_def
    using u16_bit7[of "(r XOR to16 a) AND (r XOR to16 m)"] by (simp add: bit_simps and.assoc)
  then show "bit q 6 \<longleftrightarrow> sint a + sint m + of_bool c \<notin> {-128..127}"
    unfolding sign r8 bit7_uint uint_sum_wrap sint_u8
    by (subst overflow_rule[symmetric]) (simp_all add: uint_u8_bounds)
  show "bit q 7 \<longleftrightarrow> bit (to8 r) 7"
    by (simp add: q_def arith_status_def u16_bit7 sign)
  show "bit q 1 \<longleftrightarrow> to8 r = 0" by (simp add: q_def arith_status_def low_byte_zero)
  show "\<And>n. n \<in> {2, 3, 4, 5} \<Longrightarrow> bit q n = bit p n"
    by (auto simp: q_def arith_status_def)
qed

section \<open>Decimal digits\<close>

text \<open>
  The decimal paths work on the two nibbles in 16-bit words. The words are first read as
  the integers they stand for, then the digit rules give the decimal sum or difference.
\<close>

lemma low_nibble: "to16 a AND 0x0F = word_of_int (uint a mod 16)"
proof -
  have "to16 a AND mask 4 = word_of_int (uint a mod 16)"
    by (rule word_uint_eqI) (simp add: uint_and_mask uint_word_of_int mod_mod_cancel)
  then show ?thesis by (simp add: mask_eq_exp_minus_1)
qed
lemma high_nibble: "drop_bit 4 (to16 a) = word_of_int (uint a div 16)"
proof (rule word_uint_eqI)
  have "uint a div 16 < 65536" "0 \<le> uint a div 16" using uint_u8_bounds[of a] 
    by (auto simp: pos_imp_zdiv_nonneg_iff)
  then show "uint (drop_bit 4 (to16 a)) = uint (word_of_int (uint a div 16) :: u16)"
    by (simp add: uint_drop_bit uint_word_of_int)
qed
lemma join_nibbles_or:
  "to8 (push_bit 4 (h AND 0x0F) OR (l AND 0x0F)) = to8 (push_bit 4 (h AND mask 4)) + to8 (l AND mask 4)" for h l :: u16
proof -
  have "to8 (push_bit 4 (h AND mask 4)) + to8 (l AND mask 4) = to8 (push_bit 4 (h AND mask 4)) OR to8 (l AND mask 4)"
    by (rule disjunctive_add_eq_or) (auto intro!: bit_word_eqI simp: bit_simps)
  also have "\<dots> = to8 (push_bit 4 (h AND 0x0F) OR (l AND 0x0F))"
    by (rule bit_word_eqI) (simp add: mask_eq_exp_minus_1 bit_simps)
  finally show ?thesis by simp
qed
lemma join_nibbles:
  "uint (to8 (push_bit 4 (h AND 0x0F) OR (l AND 0x0F))) = 16 * (uint h mod 16) + uint l mod 16" for h l :: u16
proof -
  have p: "to8 (push_bit 4 (h AND mask 4)) = 16 * to8 (h AND mask 4)"
    by (rule word_uint_eqI)
      (simp add: push_bit_eq_mult uint_to8 uint_word_ariths mod_simps mod_65536_256 mult.commute)
  show ?thesis
    unfolding join_nibbles_or p
    by (simp add: uint_word_ariths uint_to8 uint_and_mask mod_mod_cancel)
qed
lemma word_neg_int: assumes "- 32768 \<le> L" "L < 32768" shows "((word_of_int L :: u16) <s 0) = (L < 0)" 
proof -
  have "sint (word_of_int L :: u16) = L" using assms
    by (simp only: sint_sbintrunc' signed_take_bit_int_eq_self_iff) simp
  then show ?thesis by (simp add: word_sless_alt)
qed
lemma word_gt9_int: "0 \<le> L \<Longrightarrow> L < 65536 \<Longrightarrow> (9 < (word_of_int L :: u16)) = (9 < L)" 
  by (simp add: word_less_def uint_word_of_int)
lemma nibble_bounds: "0 \<le> uint (a :: u8) mod 16" "uint a mod 16 < 16"  "0 \<le> uint a div 16" "uint a div 16 < 16"
  using uint_u8_bounds[of a] by (auto simp: pos_imp_zdiv_nonneg_iff)
text \<open>The byte with the digits \<open>H\<close> and \<open>L\<close>, and the 16-bit expression of the code that makes it.\<close>

definition digits :: "int \<Rightarrow> int \<Rightarrow> u8" where
  "digits H L = word_of_int (16 * (H mod 16) + L mod 16)"

definition pack :: "u16 \<Rightarrow> u16 \<Rightarrow> u8" where
  "pack h l = to8 (push_bit 4 (h AND 0x0F) OR (l AND 0x0F))"

lemma uint_digits: "uint (digits H L) = 16 * (H mod 16) + L mod 16"
proof -
  have "H mod 16 < 16" "L mod 16 < 16" "0 \<le> H mod 16" "0 \<le> L mod 16" by simp_all
  then have "16 * (H mod 16) + L mod 16 < 256" "0 \<le> 16 * (H mod 16) + L mod 16" by linarith+
  then show ?thesis by (simp add: digits_def uint_word_of_int del: of_int_add)
qed

lemma pack_int: "pack (word_of_int H) (word_of_int L) = digits H L"
  by (rule word_uint_eqI)
    (simp only: pack_def uint_digits join_nibbles uint_word_of_int, simp add: mod_mod_cancel)

lemma pack_zero: "pack 0 (word_of_int L) = digits 0 L"
  using pack_int[of 0 L] by simp

lemma bcd_add_int:
  assumes "L = uint a mod 16 + uint m mod 16 + of_bool c" "H = uint a div 16 + uint m div 16"
  shows "bcd_add a (to16 m) (of_bool c) = (let (L, H) = if 9 < L then (L - 10, H + 1) else (L, H);
     (H, c) = if 9 < H then (H - 10, True) else (H, False) in (c, digits H L))"
proof -
  have b: "0 \<le> L" "L \<le> 31" "0 \<le> H" "H \<le> 30" unfolding assms
    using nibble_bounds[of a] nibble_bounds[of m] by (auto simp: of_bool_def)
  have l: "(to16 a AND 0x0F) + (to16 m AND 0x0F) + of_bool c = word_of_int L"
    by (simp add: low_nibble assms)
  have h: "drop_bit 4 (to16 a) + drop_bit 4 (to16 m) = word_of_int H" by (simp add: high_nibble assms)
  have s: "(word_of_int L :: u16) - 10 = word_of_int (L - 10)" "(word_of_int H::u16) + 1 = word_of_int (H + 1)"
   "\<And>H. (word_of_int H :: u16) - 10 = word_of_int (H - 10)" 
    by simp_all
  show ?thesis
    unfolding bcd_add_def pack_def[symmetric] l h Let_def using b
    by (simp add: word_gt9_int pack_int pack_zero s del: of_int_add of_int_diff)
qed
lemma bcd_sub_int:
  assumes "L = uint a mod 16 - uint m mod 16 - (1 - of_bool c)" "H = uint a div 16 - uint m div 16"
  shows "bcd_sub a (to16 m) (of_bool c) = (let (L, H) = if L < 0 then (L + 10, H - 1) else (L, H);
     (H, c) = if H < 0 then (H + 10, False) else (H, True) in (c, digits H L))"
proof -
  have b: "- 16 \<le> L" "L \<le> 31" "- 15 \<le> H" "H \<le> 30" unfolding assms
    using nibble_bounds[of a] nibble_bounds[of m] by (auto simp: of_bool_def)
  have l: "(to16 a AND 0x0F) - (to16 m AND 0x0F) - (1 - of_bool c) = word_of_int L"
    by (simp add: low_nibble assms)
  have h: "drop_bit 4 (to16 a) - drop_bit 4 (to16 m) = word_of_int H" by (simp add: high_nibble assms)
  have s: "(word_of_int L :: u16) + 10 = word_of_int (L + 10)" "(word_of_int H::u16) - 1 = word_of_int (H - 1)"
   "\<And>H. (word_of_int H :: u16) + 10 = word_of_int (H + 10)" 
    by simp_all
  show ?thesis
    unfolding bcd_sub_def pack_def[symmetric] l h Let_def using b
    by (simp add: word_neg_int pack_int pack_zero s del: of_int_add of_int_diff)
qed
definition bcd_val :: "u8 \<Rightarrow> int" where "bcd_val b = 10 * (uint b div 16) + uint b mod 16"
definition bcd_ok :: "u8 \<Rightarrow> bool" where "bcd_ok b \<longleftrightarrow> uint b div 16 \<le> 9 \<and> uint b mod 16 \<le> 9"
lemma digits_word:
  assumes "0 \<le> H" "H \<le> 9" "0 \<le> L" "L \<le> 9"
  shows "bcd_ok (digits H L)" "bcd_val (digits H L) = 10 * H + L"
  using assms unfolding bcd_ok_def bcd_val_def uint_digits by simp_all
lemma bcd_nibbles:
  assumes "bcd_ok a"
  obtains h l where "uint a div 16 = h" "uint a mod 16 = l" "0 \<le> h" "h \<le> 9" "0 \<le> l" "l \<le> 9"
    "bcd_val a = 10 * h + l"
  using assms nibble_bounds[of a] by (auto simp: bcd_ok_def bcd_val_def)

lemma bcd_add_correct:
  assumes "bcd_ok a" "bcd_ok m" "bcd_add a (to16 m) (of_bool c) = (cy, r)"
  shows "bcd_ok r \<and> bcd_val r + 100 * of_bool cy = bcd_val a + bcd_val m + of_bool c"
proof -
  obtain h l where a: "uint a div 16 = h" "uint a mod 16 = l" "0 \<le> h" "h \<le> 9" "0 \<le> l" "l \<le> 9"
    "bcd_val a = 10 * h + l" using assms(1) by (rule bcd_nibbles)
  obtain k n where m: "uint m div 16 = k" "uint m mod 16 = n" "0 \<le> k" "k \<le> 9" "0 \<le> n" "n \<le> 9"
    "bcd_val m = 10 * k + n" using assms(2) by (rule bcd_nibbles)
  define L where "L = l + n + of_bool c"
  define H where "H = h + k + of_bool (9 < L)"
  have b: "0 \<le> L" "L \<le> 19" "0 \<le> H" "H \<le> 19" using a m by (auto simp: L_def H_def of_bool_def)
  have "bcd_add a (to16 m) (of_bool c) =
      (9 < H, digits (if 9 < H then H - 10 else H) (if 9 < L then L - 10 else L))"
    by (simp add: bcd_add_int[OF refl refl] a m L_def[symmetric] H_def Let_def)
  then have "cy = (9 < H)" "r = digits (if 9 < H then H - 10 else H) (if 9 < L then L - 10 else L)"
    using assms(3) by simp_all
  with b show ?thesis
    by (simp add: digits_word a m) (simp add: H_def L_def)
qed

lemma bcd_sub_correct:
  assumes "bcd_ok a" "bcd_ok m" "bcd_sub a (to16 m) (of_bool c) = (cy, r)"
  shows "bcd_ok r \<and> bcd_val r - 100 * of_bool (\<not> cy) = bcd_val a - bcd_val m - of_bool (\<not> c)"
proof -
  obtain h l where a: "uint a div 16 = h" "uint a mod 16 = l" "0 \<le> h" "h \<le> 9" "0 \<le> l" "l \<le> 9"
    "bcd_val a = 10 * h + l" using assms(1) by (rule bcd_nibbles)
  obtain k n where m: "uint m div 16 = k" "uint m mod 16 = n" "0 \<le> k" "k \<le> 9" "0 \<le> n" "n \<le> 9"
    "bcd_val m = 10 * k + n" using assms(2) by (rule bcd_nibbles)
  define L where "L = l - n - (1 - of_bool c)"
  define H where "H = h - k - of_bool (L < 0)"
  have b: "- 10 \<le> L" "L \<le> 9" "- 10 \<le> H" "H \<le> 9" using a m by (auto simp: L_def H_def of_bool_def)
  have "bcd_sub a (to16 m) (of_bool c) =
      (\<not> H < 0, digits (if H < 0 then H + 10 else H) (if L < 0 then L + 10 else L))"
    by (simp add: bcd_sub_int[OF refl refl] a m L_def[symmetric] H_def Let_def)
  then have "cy = (\<not> H < 0)" "r = digits (if H < 0 then H + 10 else H) (if L < 0 then L + 10 else L)"
    using assms(3) by simp_all
  with b show ?thesis
    by (simp add: digits_word a m) (simp add: H_def L_def)
qed

section \<open>The handlers\<close>

lemma to16_not: "to16 m XOR 0xFF = to16 (NOT m)"
proof -
  have "to16 m XOR mask 8 = to16 (NOT m)" by (rule bit_word_eqI) (auto simp: bit_simps)
  then show ?thesis by (simp add: mask_eq_exp_minus_1)
qed

lemma uint_not_u8: "uint (NOT m) = 255 - uint m" for m :: u8
proof -
  have "uint (NOT m) = (255 - uint m) mod 256"
    using mod_add_self2[of "- uint m - 1" 256]
    by (simp add: not_eq_complement uint_word_ariths mod_simps)
  then show ?thesis using uint_u8_bounds[of m] by simp
qed

lemma sint_not_u8: "sint (NOT m) = - 1 - sint m" for m :: u8
  by (simp add: sint_u8 uint_not_u8 bit_simps)

text \<open>What an arithmetic handler leaves: the accumulator and the status, from the operand.\<close>

lemma carry_word: "to16 (p AND 1) = of_bool (bit p 0)"
  by (rule bit_word_eqI) (auto simp: bit_simps)

lemma arith_status_diff:
  fixes a m p :: u8 and c :: bool
  defines "r \<equiv> to16 a + to16 (NOT m) + of_bool c"
  defines "q \<equiv> arith_status (to16 a) (to16 (NOT m)) r p"
  shows "uint (to8 r) - 256 * of_bool (\<not> bit q 0) = uint a - uint m - of_bool (\<not> c)"
    and "bit q 6 \<longleftrightarrow> sint a - sint m - of_bool (\<not> c) \<notin> {-128..127}"
    and "bit q 7 \<longleftrightarrow> bit (to8 r) 7"
    and "bit q 1 \<longleftrightarrow> to8 r = 0"
    and "\<And>n. n \<in> {2, 3, 4, 5} \<Longrightarrow> bit q n = bit p n"
proof -
  note sum = arith_status_sum[where a = a and m = "NOT m" and c = c and p = p,
      folded r_def, folded q_def]
  show "uint (to8 r) - 256 * of_bool (\<not> bit q 0) = uint a - uint m - of_bool (\<not> c)"
    using sum(1) by (simp add: uint_not_u8 of_bool_def split: if_splits)
  have "sint a + sint (NOT m) + of_bool c = sint a - sint m - of_bool (\<not> c)"
    by (simp add: sint_not_u8)
  with sum(2) show "bit q 6 \<longleftrightarrow> sint a - sint m - of_bool (\<not> c) \<notin> {-128..127}"
    by (simp only:)
qed (use arith_status_sum(3-5)[where a = a and m = "NOT m" and c = c and p = p] in
      \<open>simp_all add: r_def q_def\<close>)

lemma adc_binary_state:
  assumes "\<not> bit (cpu_status s) 3"
  defines "r \<equiv> to16 (cpu_a s) + to16 (operand s) + of_bool (bit (cpu_status s) 0)"
  shows "adc_insn s = s\<lparr>penaltyop := True, cpu_host := operand_host s,
      cpu_value := to16 (operand s), cpu_result := r, cpu_a := to8 r,
      cpu_status := arith_status (to16 (cpu_a s)) (to16 (operand s)) r (cpu_status s)\<rparr>"
    and "adc_65c02_insn s = adc_insn s"
  using assms(1)
  by (simp_all add: arith_defs load_value_eq carry_in_eq carry_word u8_flag_iff r_def Let_def)

lemma sbc_binary_state:
  assumes "\<not> bit (cpu_status s) 3"
  defines "r \<equiv> to16 (cpu_a s) + to16 (NOT (operand s)) + of_bool (bit (cpu_status s) 0)"
  shows "sbc_insn s = s\<lparr>penaltyop := True, cpu_host := operand_host s,
      cpu_value := to16 (NOT (operand s)), cpu_result := r, cpu_a := to8 r,
      cpu_status := arith_status (to16 (cpu_a s)) (to16 (NOT (operand s))) r (cpu_status s)\<rparr>"
    and "sbc_65c02_insn s = sbc_insn s"
  using assms(1)
  by (simp_all add: arith_defs getvalue_eq carry_in_eq carry_word u8_flag_iff r_def Let_def
      to16_not)

lemma carry_in_updates [simp]:
  "carry_in (s\<lparr>penaltyop := b\<rparr>) = carry_in s" "carry_in (s\<lparr>cpu_host := h\<rparr>) = carry_in s"
  "carry_in (s\<lparr>cpu_value := w\<rparr>) = carry_in s"
  by (simp_all add: carry_in_def)

lemma adc_decimal_state:
  assumes "bit (cpu_status s) 3" "f \<in> {adc_insn, adc_65c02_insn}"
    "bcd_add (cpu_a s) (to16 (operand s)) (carry_in s) = (cy, r)"
  shows "cpu_a (f s) = r \<and> bit (cpu_status (f s)) 0 = cy"
  using assms(2)
  by (elim insertE emptyE)
    (simp_all add: adc_insn_def adc_65c02_insn_def load_value_eq u8_flag_iff flag_simps
      Let_def assms(1,3))

lemma sbc_decimal_state:
  assumes "bit (cpu_status s) 3" "f \<in> {sbc_insn, sbc_65c02_insn}"
    "bcd_sub (cpu_a s) (to16 (operand s)) (carry_in s) = (cy, r)"
  shows "cpu_a (f s) = r \<and> bit (cpu_status (f s)) 0 = cy"
  using assms(2)
  by (elim insertE emptyE)
    (simp_all add: sbc_insn_def sbc_65c02_insn_def getvalue_eq u8_flag_iff flag_simps
      Let_def assms(1,3))

text \<open>
  Property C17: with the decimal flag clear, ADC on either variant adds the operand and the
  carry to the accumulator: the new carry and accumulator together are the unsigned sum, V
  tells whether the signed sum left the range of a byte, N and Z describe the accumulator,
  and I, D and the unused bits stay.
\<close>

theorem adc_binary_correct:
  assumes "\<not> bit (cpu_status s) 3" "f \<in> {adc_insn, adc_65c02_insn}"
  shows "(uint (cpu_a (f s)) + 256 * of_bool (bit (cpu_status (f s)) 0) =
      uint (cpu_a s) + uint (operand s) + of_bool (bit (cpu_status s) 0)) \<and>
    (bit (cpu_status (f s)) 6 \<longleftrightarrow>
      sint (cpu_a s) + sint (operand s) + of_bool (bit (cpu_status s) 0) \<notin> {-128..127}) \<and>
    (bit (cpu_status (f s)) 7 \<longleftrightarrow> bit (cpu_a (f s)) 7) \<and>
    (bit (cpu_status (f s)) 1 \<longleftrightarrow> cpu_a (f s) = 0) \<and>
    (\<forall>n\<in>{2, 3, 4, 5}. bit (cpu_status (f s)) n = bit (cpu_status s) n)"
proof -
  have f: "f s = adc_insn s" using assms adc_binary_state(2)[of s] by auto
  note r = arith_status_sum[where a = "cpu_a s" and m = "operand s" and
      c = "bit (cpu_status s) 0" and p = "cpu_status s"]
  show ?thesis
    unfolding f adc_binary_state(1)[OF assms(1)] using r by simp
qed

text \<open>
  With the decimal flag clear, SBC on either variant subtracts the operand and
  the borrow (the complement of the carry).
\<close>

theorem sbc_binary_correct:
  assumes "\<not> bit (cpu_status s) 3" "f \<in> {sbc_insn, sbc_65c02_insn}"
  shows "(uint (cpu_a (f s)) - 256 * of_bool (\<not> bit (cpu_status (f s)) 0) =
      uint (cpu_a s) - uint (operand s) - of_bool (\<not> bit (cpu_status s) 0)) \<and>
    (bit (cpu_status (f s)) 6 \<longleftrightarrow>
      sint (cpu_a s) - sint (operand s) - of_bool (\<not> bit (cpu_status s) 0) \<notin> {-128..127}) \<and>
    (bit (cpu_status (f s)) 7 \<longleftrightarrow> bit (cpu_a (f s)) 7) \<and>
    (bit (cpu_status (f s)) 1 \<longleftrightarrow> cpu_a (f s) = 0) \<and>
    (\<forall>n\<in>{2, 3, 4, 5}. bit (cpu_status (f s)) n = bit (cpu_status s) n)"
proof -
  have f: "f s = sbc_insn s" using assms sbc_binary_state(2)[of s] by auto
  note r = arith_status_diff[where a = "cpu_a s" and m = "operand s" and
      c = "bit (cpu_status s) 0" and p = "cpu_status s"]
  show ?thesis
    unfolding f sbc_binary_state(1)[OF assms(1)] using r by simp
qed

text \<open>
  Property C18: with the decimal flag set and valid digits, ADC and SBC on either variant
  compute on two-digit decimal numbers, with the carry as the hundred or the borrow.
\<close>

theorem decimal_correct:
  assumes "bit (cpu_status s) 3" "bcd_ok (cpu_a s)" "bcd_ok (operand s)"
  shows "(f \<in> {adc_insn, adc_65c02_insn} \<longrightarrow> bcd_ok (cpu_a (f s)) \<and>
      bcd_val (cpu_a (f s)) + 100 * of_bool (bit (cpu_status (f s)) 0) =
      bcd_val (cpu_a s) + bcd_val (operand s) + of_bool (bit (cpu_status s) 0)) \<and>
    (f \<in> {sbc_insn, sbc_65c02_insn} \<longrightarrow> bcd_ok (cpu_a (f s)) \<and>
      bcd_val (cpu_a (f s)) - 100 * of_bool (\<not> bit (cpu_status (f s)) 0) =
      bcd_val (cpu_a s) - bcd_val (operand s) - of_bool (\<not> bit (cpu_status s) 0))"
proof -
  let ?c = "bit (cpu_status s) 0"
  obtain cy r where a: "bcd_add (cpu_a s) (to16 (operand s)) (carry_in s) = (cy, r)"
    by (rule prod.exhaust)
  obtain cy' r' where b: "bcd_sub (cpu_a s) (to16 (operand s)) (carry_in s) = (cy', r')"
    by (rule prod.exhaust)
  have adc: "f \<in> {adc_insn, adc_65c02_insn} \<Longrightarrow> bcd_ok (cpu_a (f s)) \<and>
      bcd_val (cpu_a (f s)) + 100 * of_bool (bit (cpu_status (f s)) 0) =
      bcd_val (cpu_a s) + bcd_val (operand s) + of_bool ?c"
    using adc_decimal_state[OF assms(1) _ a] bcd_add_correct[OF assms(2,3) a[unfolded carry_in_eq]]
    by simp
  have sbc: "f \<in> {sbc_insn, sbc_65c02_insn} \<Longrightarrow> bcd_ok (cpu_a (f s)) \<and>
      bcd_val (cpu_a (f s)) - 100 * of_bool (\<not> bit (cpu_status (f s)) 0) =
      bcd_val (cpu_a s) - bcd_val (operand s) - of_bool (\<not> ?c)"
    using sbc_decimal_state[OF assms(1) _ b] bcd_sub_correct[OF assms(2,3) b[unfolded carry_in_eq]]
    by simp
  show ?thesis using adc sbc by blast
qed

text \<open>
  CMP, CPX and CPY set the carry to "register at least operand" on unsigned
  bytes, Z to equality and N to bit 7 of the difference; no other flag, no register and no
  memory write (the operand's read apart) is involved.
\<close>

theorem compare_correct:
  assumes "(f, r) \<in> {(cmp_insn, cpu_a s), (cpx_insn, cpu_x s), (cpy_insn, cpu_y s)}"
  shows "(bit (cpu_status (f s)) 0 \<longleftrightarrow> uint (operand s) \<le> uint r) \<and>
    (bit (cpu_status (f s)) 1 \<longleftrightarrow> r = operand s) \<and>
    (bit (cpu_status (f s)) 7 \<longleftrightarrow> bit (r - operand s) 7) \<and>
    (\<forall>n\<in>{2, 3, 4, 5, 6}. bit (cpu_status (f s)) n = bit (cpu_status s) n) \<and>
    (cpu_a (f s) = cpu_a s \<and> cpu_x (f s) = cpu_x s \<and> cpu_y (f s) = cpu_y s \<and>
      cpu_sp (f s) = cpu_sp s \<and> cpu_pc (f s) = cpu_pc s \<and> cpu_host (f s) = operand_host s)"
proof -
  have b: "bit (to16 r - to16 (operand s)) 7 = bit (r - operand s) 7"
    using bit_ucast_iff[where 'a=8 and 'b=16, of "to16 r - to16 (operand s)" 7]
    by (simp add: to8_minus)
  have st: "cpu_status (f s) = put_flag FLAG_SIGN (bit (r - operand s) 7)
      (put_flag FLAG_ZERO (r = operand s) (put_flag FLAG_CARRY (operand s \<le> r) (cpu_status s)))"
    using assms b by (auto simp: insn_defs cpu_frame flag_simps Let_def and_FF_u16 u16_bit7)
  have "cpu_a (f s) = cpu_a s \<and> cpu_x (f s) = cpu_x s \<and> cpu_y (f s) = cpu_y s \<and>
      cpu_sp (f s) = cpu_sp s \<and> cpu_pc (f s) = cpu_pc s \<and> cpu_host (f s) = operand_host s"
    using assms by (auto simp: insn_defs cpu_frame flag_simps Let_def)
  then show ?thesis by (simp add: st word_le_def)
qed

section \<open>Instances\<close>

abbreviation bench :: "u8 \<Rightarrow> u8 \<Rightarrow> u8 \<Rightarrow> (u16 \<Rightarrow> u8) cpu" where
  "bench m a p \<equiv> (power_on flat_hooks (\<lambda>_. m))\<lparr>cpu_a := a, cpu_status := p\<rparr>"

lemma operand_bench: "operand (bench m a p) = m"
  by (simp add: operand_def acc_operand_def addrtable_nmos_def)

theorem adc_binary_witness:
  "let s = bench 0x50 0x50 1 in
     uint (cpu_a (adc_insn s)) + 256 * of_bool (bit (cpu_status (adc_insn s)) 0) = 161 \<and>
     bit (cpu_status (adc_insn s)) 6"
  using adc_binary_correct[of "bench 0x50 0x50 1" adc_insn]
  by (simp add: operand_bench sint_u8 Let_def)

theorem sbc_binary_witness:
  "let s = bench 0xB0 0x50 1 in
     uint (cpu_a (sbc_65c02_insn s)) - 256 * of_bool (\<not> bit (cpu_status (sbc_65c02_insn s)) 0) = -96 \<and>
     bit (cpu_status (sbc_65c02_insn s)) 6"
  using sbc_binary_correct[of "bench 0xB0 0x50 1" sbc_65c02_insn]
  by (simp add: operand_bench sint_u8 Let_def)

theorem decimal_witness:
  "let s = adc_insn (bench 0x58 0x46 9); t = sbc_insn (bench 0x12 0x46 9) in
     bcd_val (cpu_a s) + 100 * of_bool (bit (cpu_status s) 0) = 105 \<and>
     bcd_val (cpu_a t) - 100 * of_bool (\<not> bit (cpu_status t) 0) = 34"
  using decimal_correct[of "bench 0x58 0x46 9" adc_insn]
    decimal_correct[of "bench 0x12 0x46 9" sbc_insn]
  by (simp add: operand_bench bcd_ok_def bcd_val_def[of "0x58"] bcd_val_def[of "0x46"]
      bcd_val_def[of "0x12"] Let_def)

theorem compare_witness:
  "let s = cmp_insn (bench 0x12 0x46 0) in
     bit (cpu_status s) 0 \<and> \<not> bit (cpu_status s) 1 \<and> \<not> bit (cpu_status s) 7"
  using compare_correct[of cmp_insn "0x46" "bench 0x12 0x46 0"]
  by (simp add: operand_bench Let_def)

end
