(* ===== verification/Cpu_Stack.thy ===== *)
theory Cpu_Stack imports Cpu_Machine begin

text \<open>
  The stack. The interface \<open>stack_page\<close> states what the host must promise of page one: a
  byte written there is read back, another slot keeps its byte, and no read anywhere
  changes one. From these laws the pushes and pulls, JSR/RTS, PHP/PLP, BRK/RTI and the
  interrupts are shown to match up; the hosts of the two machines and the flat memory
  provide the interface.
\<close>

section \<open>The interface\<close>

text \<open>Slot \<open>w\<close> of the stack page, and the byte the host would return for it.\<close>

definition slot :: "u8 \<Rightarrow> u16" where
  "slot w = BASE_STACK + to16 w"

definition stack_byte :: "'h hooks \<Rightarrow> 'h \<Rightarrow> u8 \<Rightarrow> u8" where
  "stack_byte k h w = fst (host_read k (slot w) h)"

locale stack_page =
  fixes k :: "'h hooks" and inv :: "'h \<Rightarrow> bool"
  assumes write_slot: "inv h \<Longrightarrow> stack_byte k (host_write k (slot w) v h) = (stack_byte k h)(w := v)"
    and read_keeps: "inv h \<Longrightarrow> stack_byte k (snd (host_read k a h)) = stack_byte k h"
    and write_inv: "inv h \<Longrightarrow> inv (host_write k (slot w) v h)"
    and read_inv: "inv h \<Longrightarrow> inv (snd (host_read k a h))"

lemma slot_inj: "slot w = slot v \<longleftrightarrow> w = v"
proof
  assume "slot w = slot v"
  then have "to16 w = to16 v" by (simp add: slot_def)
  then have "to8 (to16 w) = to8 (to16 v)" by simp
  then show "w = v" by simp
qed simp

text \<open>A status byte with bit 5 set and bit 4 clear survives the stack.\<close>

lemma status_ok_fix:
  assumes "status_ok p"
  shows "(p AND NOT FLAG_BREAK) OR FLAG_CONSTANT = p"
proof -
  have "put_flag 0x20 True (put_flag 0x10 False p) = p"
    by (rule bit_word_eqI) (use assms in \<open>auto simp: status_ok_def\<close>)
  then show ?thesis by (simp add: put_flag_def)
qed

lemma status_ok_break:
  assumes "status_ok p"
  shows "((p OR FLAG_BREAK) AND NOT FLAG_BREAK) OR FLAG_CONSTANT = p"
proof -
  have "(p OR FLAG_BREAK) AND NOT FLAG_BREAK = p AND NOT FLAG_BREAK"
    by (simp add: bit.conj_disj_distrib2)
  then show ?thesis using status_ok_fix[OF assms] by simp
qed

section \<open>The pushes and pulls over the interface\<close>

lemma push8_slot: "push8 v s = s\<lparr>cpu_host := host_write (cpu_hooks s) (slot (cpu_sp s)) v (cpu_host s),
    cpu_sp := cpu_sp s - 1\<rparr>"
  by (simp add: push8_eq slot_def)

lemma push16_slot: "push16 w s = s\<lparr>
    cpu_host := host_write (cpu_hooks s) (slot (cpu_sp s - 1)) (to8 w)
      (host_write (cpu_hooks s) (slot (cpu_sp s)) (to8 (drop_bit 8 w)) (cpu_host s)),
    cpu_sp := cpu_sp s - 2\<rparr>"
  by (simp add: push16_eq slot_def)

lemma pull8_slot: "pull8 s = (stack_byte (cpu_hooks s) (cpu_host s) (cpu_sp s + 1),
    s\<lparr>cpu_sp := cpu_sp s + 1,
      cpu_host := snd (host_read (cpu_hooks s) (slot (cpu_sp s + 1)) (cpu_host s))\<rparr>)"
  by (simp add: pull8_eq slot_def stack_byte_def)

text \<open>IRQ, NMI and BRK: the pushes, the status, the vector.\<close>

definition enter_vector :: "u16 \<Rightarrow> u16 \<Rightarrow> u8 \<Rightarrow> 'h cpu \<Rightarrow> 'h cpu" where
  "enter_vector a b p t = (let (w, u) = read_pair a b (t\<lparr>cpu_status := p\<rparr>) in u\<lparr>cpu_pc := w\<rparr>)"

lemma enter_vector_fields:
  "cpu_host (enter_vector a b p t) = cpu_host (snd (read_pair a b (t\<lparr>cpu_status := p\<rparr>)))"
  "cpu_sp (enter_vector a b p t) = cpu_sp (snd (read_pair a b (t\<lparr>cpu_status := p\<rparr>)))"
  by (simp_all add: enter_vector_def split_def Let_def)

lemma push_fields [simp]:
  "cpu_status (push16 w u) = cpu_status u" "cpu_pc (push16 w u) = cpu_pc u"
  "cpu_status (push8 v u) = cpu_status u" "cpu_pc (push8 v u) = cpu_pc u"
  by (simp_all add: push16_eq push8_eq)

lemma interrupt_vector:
  "irq6502 s = enter_vector 0xFFFE 0xFFFF (cpu_status s OR FLAG_INTERRUPT)
     (push8 (cpu_status s) (push16 (cpu_pc s) (s\<lparr>wai_pending := False\<rparr>)))"
  "nmi6502 s = enter_vector 0xFFFA 0xFFFB (cpu_status s OR FLAG_INTERRUPT)
     (push8 (cpu_status s) (push16 (cpu_pc s) (s\<lparr>wai_pending := False\<rparr>)))"
  by (simp_all add: irq6502_def nmi6502_def enter_vector_def Let_def)

lemma brk_vector:
  "brk_insn s = enter_vector 0xFFFE 0xFFFF (put_flag FLAG_INTERRUPT True (cpu_status s))
     (push8 (cpu_status s OR FLAG_BREAK) (push16 (cpu_pc s + 1) (s\<lparr>cpu_pc := cpu_pc s + 1\<rparr>)))"
  "brk_insn_65c02 s = enter_vector 0xFFFE 0xFFFF
     (put_flag FLAG_DECIMAL False (put_flag FLAG_INTERRUPT True (cpu_status s)))
     (push8 (cpu_status s OR FLAG_BREAK) (push16 (cpu_pc s + 1) (s\<lparr>cpu_pc := cpu_pc s + 1\<rparr>)))"
  by (simp_all add: brk_insn_def brk_insn_65c02_def enter_vector_def Let_def setflag_eq clearflag_eq)

lemma interrupt_eq:
  defines "t s \<equiv> push8 (cpu_status s) (push16 (cpu_pc s) (s\<lparr>wai_pending := False\<rparr>))"
  assumes "f = irq6502 \<or> f = nmi6502"
  shows "\<exists>a b. f s = enter_vector a b (cpu_status s OR FLAG_INTERRUPT) (t s)"
  using assms(2) interrupt_vector[of s] unfolding t_def by blast

lemma two_below: "w - 1 \<noteq> (w :: u8)" "w - 2 \<noteq> w" "w - 2 \<noteq> w - 1"
  by simp_all

context stack_page
begin

lemma pull16_value:
  assumes "inv h"
  shows "pair_val k (slot a) (slot b) h =
    to16 (stack_byte k h a) OR push_bit 8 (to16 (stack_byte k h b))"
  using read_keeps[OF assms, of "slot a"]
  by (simp add: pair_val_def stack_byte_def[symmetric] fun_eq_iff)

lemma pair_host_keeps:
  "inv h \<Longrightarrow> stack_byte k (pair_host k a b h) = stack_byte k h"
  "inv h \<Longrightarrow> inv (pair_host k a b h)"
  by (simp_all add: pair_host_def read_keeps read_inv)

lemma push16_stack:
  assumes "cpu_hooks s = k" "inv (cpu_host s)"
  shows "stack_byte k (cpu_host (push16 w s)) =
      (stack_byte k (cpu_host s))(cpu_sp s := to8 (drop_bit 8 w), cpu_sp s - 1 := to8 w)"
    and "inv (cpu_host (push16 w s))" "cpu_sp (push16 w s) = cpu_sp s - 2"
    and "cpu_hooks (push16 w s) = k"
  using assms by (simp_all add: push16_slot write_slot write_inv)

lemma push8_stack:
  assumes "cpu_hooks s = k" "inv (cpu_host s)"
  shows "stack_byte k (cpu_host (push8 v s)) = (stack_byte k (cpu_host s))(cpu_sp s := v)"
    and "inv (cpu_host (push8 v s))" "cpu_sp (push8 v s) = cpu_sp s - 1"
    and "cpu_hooks (push8 v s) = k"
  using assms by (simp_all add: push8_slot write_slot write_inv)

lemma pull16_stack:
  assumes "cpu_hooks s = k" "inv (cpu_host s)"
    and "stack_byte k (cpu_host s) (cpu_sp s + 1) = to8 w"
    and "stack_byte k (cpu_host s) (cpu_sp s + 2) = to8 (drop_bit 8 w)"
  shows "fst (pull16 s) = w" "cpu_sp (snd (pull16 s)) = cpu_sp s + 2"
    and "stack_byte k (cpu_host (snd (pull16 s))) = stack_byte k (cpu_host s)"
  using assms split_u16[of w]
  by (simp_all add: pull16_eq slot_def[symmetric] pull16_value pair_host_keeps)

lemma pull8_stack:
  assumes "cpu_hooks s = k" "inv (cpu_host s)"
  shows "fst (pull8 s) = stack_byte k (cpu_host s) (cpu_sp s + 1)"
    and "cpu_sp (snd (pull8 s)) = cpu_sp s + 1" "inv (cpu_host (snd (pull8 s)))"
    and "stack_byte k (cpu_host (snd (pull8 s))) = stack_byte k (cpu_host s)"
    and "cpu_hooks (snd (pull8 s)) = k"
  using assms by (simp_all add: pull8_slot read_keeps read_inv)

text \<open>
  A subroutine may do what it likes as long as, when it returns, the stack pointer is back
  and the two bytes above it are untouched.
\<close>

lemma jsr_rts_returns:
  assumes "cpu_hooks s = k" "inv (cpu_host s)" "cpu_hooks u = k" "inv (cpu_host u)"
    and "cpu_sp u = cpu_sp (jsr_insn s)"
    and "\<And>w. w \<in> {cpu_sp s, cpu_sp s - 1} \<Longrightarrow>
      stack_byte k (cpu_host u) w = stack_byte k (cpu_host (jsr_insn s)) w"
  shows "cpu_pc (jsr_insn s) = cpu_ea s \<and> cpu_pc (rts_insn u) = cpu_pc s \<and>
    cpu_sp (rts_insn u) = cpu_sp s"
proof -
  note p = push16_stack[OF assms(1,2), of "cpu_pc s - 1"]
  have sp: "cpu_sp u = cpu_sp s - 2" using assms(5) p by (simp add: jsr_insn_def Let_def)
  have "stack_byte k (cpu_host u) (cpu_sp u + 1) = to8 (cpu_pc s - 1)"
    using assms(6)[of "cpu_sp s - 1"] p by (simp add: jsr_insn_def sp Let_def)
  moreover have "stack_byte k (cpu_host u) (cpu_sp u + 2) = to8 (drop_bit 8 (cpu_pc s - 1))"
    using assms(6)[of "cpu_sp s"] p two_below[of "cpu_sp s"] by (simp add: jsr_insn_def sp Let_def)
  ultimately have "fst (pull16 u) = cpu_pc s - 1" "cpu_sp (snd (pull16 u)) = cpu_sp u + 2"
    using pull16_stack(1,2)[OF assms(3,4), of "cpu_pc s - 1"] by simp_all
  then show ?thesis by (simp add: rts_insn_def jsr_insn_def split_def sp Let_def push16_eq)
qed

text \<open>
  Entering a handler with the status \<open>p\<close> pushed over the return address, and leaving it by
  RTI: \<open>t\<close> is the state after the three pushes, \<open>u\<close> the one before RTI.
\<close>

lemma enter_rti:
  assumes "cpu_hooks s = k" "inv (cpu_host s)" "cpu_hooks u = k" "inv (cpu_host u)"
    and "t = push8 p (push16 pc s)" "cpu_sp u = cpu_sp t"
    and "\<And>w. w \<in> {cpu_sp s, cpu_sp s - 1, cpu_sp s - 2} \<Longrightarrow>
      stack_byte k (cpu_host u) w = stack_byte k (cpu_host t) w"
  shows "cpu_pc (rti_insn u) = pc \<and> cpu_sp (rti_insn u) = cpu_sp s \<and>
    cpu_status (rti_insn u) = (p AND NOT FLAG_BREAK) OR FLAG_CONSTANT"
proof -
  note p = push16_stack[OF assms(1,2), of pc]
  note q = push8_stack[OF p(4,2), of p]
  have sp: "cpu_sp u = cpu_sp s - 3" using assms(5,6) p q by simp
  have stk: "stack_byte k (cpu_host t) =
      (stack_byte k (cpu_host s))(cpu_sp s := to8 (drop_bit 8 pc), cpu_sp s - 1 := to8 pc,
        cpu_sp s - 2 := p)"
    by (simp add: assms(5) q p)
  note a = pull8_stack[OF assms(3,4)]
  let ?u = "pull_status u"
  have u: "cpu_hooks ?u = k" "inv (cpu_host ?u)" "cpu_sp ?u = cpu_sp s - 2"
    "stack_byte k (cpu_host ?u) = stack_byte k (cpu_host u)"
    "cpu_status ?u = (stack_byte k (cpu_host u) (cpu_sp s - 2) AND NOT FLAG_BREAK) OR FLAG_CONSTANT"
    using a by (simp_all add: pull_status_def split_def sp)
  have v: "stack_byte k (cpu_host u) (cpu_sp s - 2) = p"
    "stack_byte k (cpu_host u) (cpu_sp s - 1) = to8 pc"
    "stack_byte k (cpu_host u) (cpu_sp s) = to8 (drop_bit 8 pc)"
    using assms(7) by (simp_all add: stk)
  have "fst (pull16 ?u) = pc" "cpu_sp (snd (pull16 ?u)) = cpu_sp s"
    using pull16_stack(1,2)[OF u(1,2), of pc] by (simp_all add: u v)
  moreover have "cpu_status (snd (pull16 ?u)) = cpu_status ?u"
    by (simp add: pull16_eq)
  ultimately show ?thesis by (simp add: rti_insn_def Let_def split_def u(5) v(1))
qed

text \<open>The states IRQ, NMI and BRK leave, up to the pushes.\<close>

lemma vector_stack:
  assumes "cpu_hooks t = k" "inv (cpu_host t)"
  shows "stack_byte k (cpu_host (snd (read_pair a b t))) = stack_byte k (cpu_host t)"
    and "cpu_sp (snd (read_pair a b t)) = cpu_sp t"
  using assms by (simp_all add: read_pair_eq pair_host_keeps)

lemma enter_stack:
  assumes "cpu_hooks s = k" "inv (cpu_host s)" "t = push8 p (push16 pc s)"
  shows "cpu_hooks t = k" "inv (cpu_host t)" "cpu_sp t = cpu_sp s - 3"
    and "stack_byte k (cpu_host t) (cpu_sp s - 2) = p"
  using push16_stack[OF assms(1,2), of pc] push8_stack[of "push16 pc s" p]
  by (simp_all add: assms(3))

lemma interrupt_entry:
  assumes "cpu_hooks s = k" "inv (cpu_host s)" "f = irq6502 \<or> f = nmi6502"
    and t: "t = push8 (cpu_status s) (push16 (cpu_pc s) s)"
  shows "stack_byte k (cpu_host (f s)) = stack_byte k (cpu_host t)" "cpu_sp (f s) = cpu_sp t"
proof -
  let ?t = "push8 (cpu_status s) (push16 (cpu_pc s) (s\<lparr>wai_pending := False\<rparr>))"
  let ?u = "?t\<lparr>cpu_status := cpu_status s OR FLAG_INTERRUPT\<rparr>"
  have e: "cpu_host ?t = cpu_host t" "cpu_sp ?t = cpu_sp t"
    by (simp_all add: t push8_slot push16_slot)
  have h: "cpu_hooks ?u = k" "inv (cpu_host ?u)"
    using enter_stack(1,2)[of "s\<lparr>wai_pending := False\<rparr>"] assms(1,2) by simp_all
  obtain a b where "f s = enter_vector a b (cpu_status s OR FLAG_INTERRUPT) ?t"
    using interrupt_eq[OF assms(3)] by blast
  then have "cpu_host (f s) = cpu_host (snd (read_pair a b ?u))"
    "cpu_sp (f s) = cpu_sp (snd (read_pair a b ?u))"
    by (simp_all only: enter_vector_fields)
  then show "stack_byte k (cpu_host (f s)) = stack_byte k (cpu_host t)" "cpu_sp (f s) = cpu_sp t"
    using vector_stack[OF h, of a b] e by simp_all
qed

text \<open>
  An interrupt and the RTI that ends its handler: the pushed status has bit 4 clear, and
  the program continues where it was, with its stack pointer and its status.
\<close>

lemma interrupt_returns:
  assumes "cpu_hooks s = k" "inv (cpu_host s)" "cpu_hooks u = k" "inv (cpu_host u)"
    and "f = irq6502 \<or> f = nmi6502" "status_ok (cpu_status s)"
    and "cpu_sp u = cpu_sp (f s)"
    and "\<And>w. w \<in> {cpu_sp s, cpu_sp s - 1, cpu_sp s - 2} \<Longrightarrow>
      stack_byte k (cpu_host u) w = stack_byte k (cpu_host (f s)) w"
  shows "\<not> bit (stack_byte k (cpu_host (f s)) (cpu_sp s - 2)) 4 \<and> cpu_pc (rti_insn u) = cpu_pc s \<and>
    cpu_sp (rti_insn u) = cpu_sp s \<and> cpu_status (rti_insn u) = cpu_status s"
proof -
  note e = interrupt_entry[OF assms(1,2,5) refl]
  have "(cpu_status s AND NOT FLAG_BREAK) OR FLAG_CONSTANT = cpu_status s"
    using assms(6) by (rule status_ok_fix)
  then show ?thesis
    using enter_rti[OF assms(1-4) refl, of "cpu_status s" "cpu_pc s"] assms(6,7,8) e
      enter_stack(4)[OF assms(1,2) refl, of "cpu_status s" "cpu_pc s"]
    by (simp add: status_ok_def)
qed

lemma brk_entry:
  assumes "cpu_hooks s = k" "inv (cpu_host s)" "f = brk_insn \<or> f = brk_insn_65c02"
    and t: "t = push8 (cpu_status s OR FLAG_BREAK) (push16 (cpu_pc s + 1) s)"
  shows "stack_byte k (cpu_host (f s)) = stack_byte k (cpu_host t)" "cpu_sp (f s) = cpu_sp t"
proof -
  let ?t = "push8 (cpu_status s OR FLAG_BREAK) (push16 (cpu_pc s + 1) (s\<lparr>cpu_pc := cpu_pc s + 1\<rparr>))"
  have e: "cpu_host ?t = cpu_host t" "cpu_sp ?t = cpu_sp t"
    by (simp_all add: t push8_slot push16_slot)
  have h: "cpu_hooks (?t\<lparr>cpu_status := p\<rparr>) = k" "inv (cpu_host (?t\<lparr>cpu_status := p\<rparr>))" for p
    using enter_stack(1,2)[of "s\<lparr>cpu_pc := cpu_pc s + 1\<rparr>"] assms(1,2) by simp_all
  obtain p where "f s = enter_vector 0xFFFE 0xFFFF p ?t"
    using assms(3) brk_vector[of s] by blast
  then have "cpu_host (f s) = cpu_host (snd (read_pair 0xFFFE 0xFFFF (?t\<lparr>cpu_status := p\<rparr>)))"
    "cpu_sp (f s) = cpu_sp (snd (read_pair 0xFFFE 0xFFFF (?t\<lparr>cpu_status := p\<rparr>)))"
    by (simp_all only: enter_vector_fields)
  then show "stack_byte k (cpu_host (f s)) = stack_byte k (cpu_host t)" "cpu_sp (f s) = cpu_sp t"
    using vector_stack[OF h] e by simp_all
qed

lemma brk_returns:
  assumes "cpu_hooks s = k" "inv (cpu_host s)" "cpu_hooks u = k" "inv (cpu_host u)"
    and "f = brk_insn \<or> f = brk_insn_65c02" "status_ok (cpu_status s)"
    and "cpu_sp u = cpu_sp (f s)"
    and "\<And>w. w \<in> {cpu_sp s, cpu_sp s - 1, cpu_sp s - 2} \<Longrightarrow>
      stack_byte k (cpu_host u) w = stack_byte k (cpu_host (f s)) w"
  shows "bit (stack_byte k (cpu_host (f s)) (cpu_sp s - 2)) 4 \<and> cpu_pc (rti_insn u) = cpu_pc s + 1 \<and>
    cpu_sp (rti_insn u) = cpu_sp s \<and> cpu_status (rti_insn u) = cpu_status s"
proof -
  note e = brk_entry[OF assms(1,2,5) refl]
  have "((cpu_status s OR FLAG_BREAK) AND NOT FLAG_BREAK) OR FLAG_CONSTANT = cpu_status s"
    using assms(6) by (rule status_ok_break)
  then show ?thesis
    using enter_rti[OF assms(1-4) refl, of "cpu_status s OR FLAG_BREAK" "cpu_pc s + 1"] assms(7,8) e
      enter_stack(4)[OF assms(1,2) refl, of "cpu_status s OR FLAG_BREAK" "cpu_pc s + 1"]
    by (simp add: bit_simps)
qed

end

interpretation flat: stack_page flat_hooks "\<lambda>_. True"
  by unfold_locales (auto simp: stack_byte_def fun_eq_iff slot_inj)

end
