(* ===== verification/Cpu_Control.thy ===== *)
theory Cpu_Control imports Cpu_Machine begin

text \<open>
  Branches and their cycles, the indirect jump of the two variants, and the shifts and bit
  instructions on bytes.
\<close>

section \<open>Branches\<close>

text \<open>The conditional branches: handler, the status bit tested, and the value that takes it.\<close>

definition branch_table :: "(('h cpu \<Rightarrow> 'h cpu) \<times> nat \<times> bool) list" where
  "branch_table = [(bcc_insn, 0, False), (bcs_insn, 0, True), (bne_insn, 1, False),
     (beq_insn, 1, True), (bvc_insn, 6, False), (bvs_insn, 6, True), (bpl_insn, 7, False),
     (bmi_insn, 7, True)]"

lemma and_self_iff: "(w AND 0x01 = 0x01) = bit w 0" "(w AND 0x02 = 0x02) = bit w 1"
  "(w AND 0x40 = 0x40) = bit w 6" "(w AND 0x80 = 0x80) = bit w 7" for w :: u8
proof -
  have "(w AND push_bit n 1 = push_bit n 1) = bit w n" if "n < 8" for n
  proof
    assume "w AND push_bit n 1 = push_bit n 1"
    then have "bit (w AND push_bit n 1) n = bit (push_bit n 1 :: u8) n" by simp
    then show "bit w n" using that by (simp add: bit_simps)
  next
    assume "bit w n"
    then show "w AND push_bit n 1 = push_bit n 1"
      by (auto intro!: bit_word_eqI simp: bit_simps)
  qed
  from this[of 0] this[of 1] this[of 6] this[of 7]
  show "(w AND 0x01 = 0x01) = bit w 0" "(w AND 0x02 = 0x02) = bit w 1"
    "(w AND 0x40 = 0x40) = bit w 6" "(w AND 0x80 = 0x80) = bit w 7" by simp_all
qed

lemma branch_handlers:
  "(f, n, v) \<in> set branch_table \<Longrightarrow>
   f s = (if bit (cpu_status s) n = v then take_branch (cpu_reladdr s) s else s)"
  by (auto simp: branch_table_def bcc_insn_def bcs_insn_def bne_insn_def beq_insn_def
      bvc_insn_def bvs_insn_def bpl_insn_def bmi_insn_def u8_flag_iff and_self_iff)

text \<open>The operand byte is the offset, sign-extended.\<close>

lemma sign_extend_offset:
  "(if to16 b AND 0x80 \<noteq> 0 then to16 b OR 0xFF00 else to16 b) = (scast b :: u16)"
proof -
  have m: "(0xFF00 :: u16) = push_bit 8 (mask 8)" by (simp add: mask_eq_exp_minus_1)
  have e: "(to16 b AND 0x80 \<noteq> 0) = bit b 7"
    using and_bit_zero_iff[of 7 "to16 b"] by (simp add: bit_simps)
  show ?thesis unfolding e m
  proof (rule bit_word_eqI)
    fix n assume "n < LENGTH(16)"
    then show "bit (if bit b 7 then to16 b OR push_bit 8 (mask 8) else to16 b) n =
        bit (scast b :: u16) n"
      by (cases "n < 8") (auto simp: bit_simps)
  qed
qed

text \<open>
  A conditional branch is taken exactly when its flag has its value. Then the
  program counter moves from the next instruction by the operand byte as a signed offset, at
  the cost of one more cycle, or of two when the target is in another page. Nothing else but
  the scratch variables changes.
\<close>

theorem branch_correct:
  fixes s :: "'h cpu"
  assumes "(f, n, v) \<in> set branch_table"
  defines "off \<equiv> fst (host_read (cpu_hooks s) (cpu_pc s) (cpu_host s))"
  defines "next \<equiv> cpu_pc s + 1" and "target \<equiv> cpu_pc s + 1 + scast off"
  shows "if bit (cpu_status s) n = v
    then cpu_pc (f (rel_mode s)) = target \<and> clockticks6502 (f (rel_mode s)) = clockticks6502 s +
      (if next AND 0xFF00 \<noteq> target AND 0xFF00 then 2 else 1)
    else cpu_pc (f (rel_mode s)) = next \<and> clockticks6502 (f (rel_mode s)) = clockticks6502 s"
proof -
  have r: "rel_mode s = s\<lparr>cpu_host := snd (host_read (cpu_hooks s) (cpu_pc s) (cpu_host s)),
      cpu_pc := next, cpu_reladdr := scast off\<rparr>"
    by (simp add: rel_mode_def fetch_eq sign_extend_offset Let_def off_def next_def)
  show ?thesis
    unfolding branch_handlers[OF assms(1)] r
    by (simp add: take_branch_def Let_def next_def target_def)
qed

theorem branch_witness:
  "let s = (power_on flat_hooks (\<lambda>_. 0xFC))\<lparr>cpu_pc := 0x0201\<rparr>
   in cpu_pc (bne_insn (rel_mode s)) = 0x01FE \<and> clockticks6502 (bne_insn (rel_mode s)) = 2"
proof -
  have m: "(bne_insn, 1, False) \<in> set branch_table" by (simp add: branch_table_def)
  have "(scast (0xFC :: u8) :: u16) = 0xFFFC" by simp
  then show ?thesis
    using branch_correct[OF m, of "(power_on flat_hooks (\<lambda>_. 0xFC))\<lparr>cpu_pc := 0x0201\<rparr>"]
    by (simp add: Let_def)
qed

section \<open>The indirect jump\<close>

lemma high_page: "p AND 0xFF00 = push_bit 8 (drop_bit 8 p)" for p :: u16
proof -
  have "p AND push_bit 8 (mask 8) = push_bit 8 (drop_bit 8 p)"
    by (rule bit_word_eqI) (auto simp: bit_simps)
  then show ?thesis by (simp add: mask_eq_exp_minus_1)
qed

lemma page_or: "push_bit 8 w OR to16 b = push_bit 8 w + to16 b"
  by (rule disjunctive_add_eq_or[symmetric]) (auto intro!: bit_word_eqI simp: bit_simps)

lemma uint_page: "uint (push_bit 8 (drop_bit 8 p)) = uint p - uint p mod 256" for p :: u16
proof -
  have b: "uint p < 65536" "0 \<le> uint p" using uint_lt2p[of p] by simp_all
  have "uint (push_bit 8 (drop_bit 8 p)) = (uint p - uint p mod 256) mod 65536"
    by (simp add: push_bit_eq_mult uint_word_ariths uint_drop_bit minus_mod_eq_div_mult mult.commute)
  moreover have "0 \<le> uint p - uint p mod 256" using b by (simp add: zmod_le_nonneg_dividend)
  moreover have "uint p - uint p mod 256 \<le> uint p" by simp
  ultimately show ?thesis using b by simp
qed
lemma page_wrap_sum:
  fixes p :: u16
  assumes "to8 p \<noteq> 0xFF" shows "push_bit 8 (drop_bit 8 p) + to16 (to8 p + 1) = p + 1"
proof (rule word_uint_eqI)
  have "uint (to8 p) \<noteq> uint (0xFF :: u8)" using assms by (simp only: word_uint_eq_iff not_False_eq_True)
  then have l: "uint p mod 256 \<noteq> 255" by (simp add: uint_to8)
  then have m: "(uint p mod 256 + 1) mod 256 = uint p mod 256 + 1"
    using pos_mod_bound[of 256 "uint p"] pos_mod_sign[of 256 "uint p"] by simp
  show "uint (push_bit 8 (drop_bit 8 p) + to16 (to8 p + 1)) = uint (p + 1)"
    using m by (simp add: uint_word_ariths(1) uint_page uint_to8)
qed
lemma page_wrap:
  "(p AND 0xFF00) OR to16 (to8 p + 1) = (if to8 p = 0xFF then p AND 0xFF00 else p + 1)"
  by (simp add: page_wrap_sum high_page page_or)

text \<open>
  \<open>JMP (ptr)\<close> reads its target from \<open>ptr\<close> and \<open>ptr + 1\<close> on the 65C02. On NMOS
  the high byte comes from the same page: the two variants agree unless the pointer's low
  byte is 0xFF, and then NMOS wraps to the start of that page.
\<close>

theorem jmp_indirect:
  fixes s :: "'h cpu"
  defines "ptr \<equiv> pair_val (cpu_hooks s) (cpu_pc s) (cpu_pc s + 1) (cpu_host s)"
    and "h \<equiv> pair_host (cpu_hooks s) (cpu_pc s) (cpu_pc s + 1) (cpu_host s)"
  shows "cpu_pc (jmp_insn (ind_65c02_mode s)) = pair_val (cpu_hooks s) ptr (ptr + 1) h \<and>
    cpu_pc (jmp_insn (ind_mode s)) = (if to8 ptr = 0xFF
      then pair_val (cpu_hooks s) ptr (ptr AND 0xFF00) h
      else cpu_pc (jmp_insn (ind_65c02_mode s)))"
proof -
  have hi: "(ptr AND 0xFF00) OR to16 (to8 ptr + 1) = (if to8 ptr = 0xFF then ptr AND 0xFF00 else ptr + 1)"
    by (rule page_wrap)
  show ?thesis
    by (simp add: jmp_insn_def ind_65c02_mode_def ind_mode_def read_pair_eq and_FF_u16 to8_plus
        ptr_def[symmetric] h_def[symmetric] hi Let_def)
qed

section \<open>Rotates, shifts and bit instructions\<close>

lemma rol_acc:
  assumes "acc_operand s"
  shows "cpu_a (rol_insn s) = push_bit 1 (cpu_a s) OR of_bool (bit (cpu_status s) 0)"
    and "bit (cpu_status (rol_insn s)) 0 = bit (cpu_a s) 7" "acc_operand (rol_insn s)"
proof -
  let ?r = "push_bit 1 (to16 (cpu_a s)) OR of_bool (bit (cpu_status s) 0)"
  have r: "to16 (cpu_status s AND 1) = of_bool (bit (cpu_status s) 0)"
    by (rule bit_word_eqI) (auto simp: bit_simps)
  have c: "(?r AND 0xFF00 \<noteq> 0) = bit (cpu_a s) 7"
  proof -
    have "(?r AND push_bit 8 (mask 8) = 0) = (drop_bit 8 ?r = 0)" by (rule u16_high_zero_mask)
    also have "drop_bit 8 ?r = of_bool (bit (cpu_a s) 7)"
    proof (rule bit_word_eqI)
      fix n assume "n < LENGTH(16)"
      show "bit (drop_bit 8 ?r) n = bit (of_bool (bit (cpu_a s) 7) :: u16) n"
        by (cases n) (auto simp: bit_simps simp del: push_bit_Suc One_nat_def)
    qed
    finally show ?thesis by (simp add: mask_eq_exp_minus_1)
  qed
  have e: "cpu_a (rol_insn s) = to8 ?r" "bit (cpu_status (rol_insn s)) 0 = (?r AND 0xFF00 \<noteq> 0)"
    "cpu_tables (rol_insn s) = cpu_tables s"  "cpu_opcode (rol_insn s) = cpu_opcode s"
    using assms by (simp_all add: rol_insn_def Let_def cpu_frame flag_simps operand_def
       acc_operand_def r del: push_bit_Suc One_nat_def)
  show "cpu_a (rol_insn s) = push_bit 1 (cpu_a s) OR of_bool (bit (cpu_status s) 0)"
    unfolding e by (rule bit_word_eqI) (auto simp: bit_simps simp del: push_bit_Suc One_nat_def)
  show "bit (cpu_status (rol_insn s)) 0 = bit (cpu_a s) 7" using e(2) c by simp
  show "acc_operand (rol_insn s)" using assms e(3,4) by (simp add: acc_operand_def)
qed
lemma ror_acc:
  assumes "acc_operand s"
  shows "cpu_a (ror_insn s) = drop_bit 1 (cpu_a s) OR push_bit 7 (of_bool (bit (cpu_status s) 0))"
    and "bit (cpu_status (ror_insn s)) 0 = bit (cpu_a s) 0" "acc_operand (ror_insn s)"
proof -
  let ?r = "drop_bit 1 (to16 (cpu_a s)) OR push_bit 7 (of_bool (bit (cpu_status s) 0))"
  have r: "to16 (cpu_status s AND 1) = of_bool (bit (cpu_status s) 0)"
    by (rule bit_word_eqI) (auto simp: bit_simps)
  have c: "(to16 (cpu_a s) AND 1 \<noteq> 0) = bit (cpu_a s) 0"
    using and_bit_zero_iff[of 0 "to16 (cpu_a s)"] by (simp add: bit_simps)
  have e: "cpu_a (ror_insn s) = to8 ?r" "bit (cpu_status (ror_insn s)) 0 = (to16 (cpu_a s) AND 1 \<noteq> 0)"
    "cpu_tables (ror_insn s) = cpu_tables s"  "cpu_opcode (ror_insn s) = cpu_opcode s"
    using assms by (simp_all add: ror_insn_def Let_def cpu_frame flag_simps operand_def
       acc_operand_def r del: drop_bit_Suc push_bit_Suc One_nat_def)
  show "cpu_a (ror_insn s) = drop_bit 1 (cpu_a s) OR push_bit 7 (of_bool (bit (cpu_status s) 0))"
    unfolding e by (rule bit_word_eqI) (auto simp: bit_simps simp del: drop_bit_Suc push_bit_Suc One_nat_def)
  show "bit (cpu_status (ror_insn s)) 0 = bit (cpu_a s) 0" using e(2) c by simp
  show "acc_operand (ror_insn s)" using assms e(3,4) by (simp add: acc_operand_def)
qed

text \<open>
  On the accumulator ROR undoes ROL and ROL undoes ROR, the carry included:
  each rotates the nine bits made of the carry and the byte.
\<close>

theorem rotate_roundtrip:
  assumes "acc_operand s"
  shows "cpu_a (ror_insn (rol_insn s)) = cpu_a s \<and> cpu_a (rol_insn (ror_insn s)) = cpu_a s \<and>
    bit (cpu_status (ror_insn (rol_insn s))) 0 = bit (cpu_status s) 0 \<and>
    bit (cpu_status (rol_insn (ror_insn s))) 0 = bit (cpu_status s) 0"
proof -
  note l = rol_acc[OF assms] and r = ror_acc[OF assms]
  note lr = ror_acc[OF l(3)] and rl = rol_acc[OF r(3)]
  have "cpu_a (ror_insn (rol_insn s)) = cpu_a s"
  proof (rule bit_word_eqI)
    fix n assume "n < LENGTH(8)"
    then show "bit (cpu_a (ror_insn (rol_insn s))) n = bit (cpu_a s) n" unfolding lr l
      by (cases "n = 7") (auto simp: bit_simps simp del: drop_bit_Suc push_bit_Suc One_nat_def)
  qed
  moreover have "cpu_a (rol_insn (ror_insn s)) = cpu_a s"
  proof (rule bit_word_eqI)
    fix n assume "n < LENGTH(8)"
    then show "bit (cpu_a (rol_insn (ror_insn s))) n = bit (cpu_a s) n" unfolding rl r
      by (cases n) (auto simp: bit_simps simp del: drop_bit_Suc push_bit_Suc)
  qed
  ultimately show ?thesis using lr(2) rl(2) unfolding l(1) r(1)
    by (simp add: bit_simps del: drop_bit_Suc push_bit_Suc One_nat_def)
qed

theorem rotate_witness:
  "let s = (power_on flat_hooks (\<lambda>_. 0))\<lparr>cpu_a := 0x96, cpu_opcode := 0x2A\<rparr>
   in cpu_a (ror_insn (rol_insn s)) = 0x96"
  using rotate_roundtrip[of "(power_on flat_hooks (\<lambda>_. 0))\<lparr>cpu_a := 0x96, cpu_opcode := 0x2A\<rparr>"]
  by (simp add: Let_def acc_operand_def addrtable_nmos_def)

text \<open>The byte that RMB and SMB write, and the bit the opcode names.\<close>

lemma opcode_bit_iff:
  "bit (opcode_bit s) n \<longleftrightarrow> n = unat (drop_bit 4 (cpu_opcode s) AND 7)"
proof -
  have "unat (drop_bit 4 (cpu_opcode s) AND 7) < 8"
  proof -
    have "drop_bit 4 (cpu_opcode s) AND 7 \<le> 7" by (simp add: word_and_le1)
    then show ?thesis by (simp add: word_le_nat_alt)
  qed
  then show ?thesis by (auto simp: opcode_bit_def bit_simps)
qed

text \<open>
  RMB and SMB read the byte at the effective address and write it back with
  the bit named by the opcode cleared or set and every other bit unchanged; no register and
  no flag moves.
\<close>

theorem memory_bit_correct:
  fixes s :: "'h cpu"
  defines "b \<equiv> unat (drop_bit 4 (cpu_opcode s) AND 7)"
    and "r \<equiv> host_read (cpu_hooks s) (cpu_ea s) (cpu_host s)"
  shows "(\<exists>v. rmb_insn s = s\<lparr>cpu_host := host_write (cpu_hooks s) (cpu_ea s) v (snd r)\<rparr> \<and>
      (\<forall>n. bit v n = (n \<noteq> b \<and> bit (fst r) n))) \<and>
    (\<exists>v. smb_insn s = s\<lparr>cpu_host := host_write (cpu_hooks s) (cpu_ea s) v (snd r)\<rparr> \<and>
      (\<forall>n. bit v n = (n = b \<or> bit (fst r) n)))"
proof (intro conjI exI)
  show "rmb_insn s = s\<lparr>cpu_host := host_write (cpu_hooks s) (cpu_ea s)
      (fst r AND NOT (opcode_bit s)) (snd r)\<rparr>"
    "smb_insn s = s\<lparr>cpu_host := host_write (cpu_hooks s) (cpu_ea s)
      (fst r OR opcode_bit s) (snd r)\<rparr>"
    by (simp_all add: rmb_insn_def smb_insn_def cpu_frame opcode_bit_def r_def)
  show "\<forall>n. bit (fst r AND NOT (opcode_bit s)) n = (n \<noteq> b \<and> bit (fst r) n)"
    "\<forall>n. bit (fst r OR opcode_bit s) n = (n = b \<or> bit (fst r) n)"
    using bit_imp_le_length[of "fst r"] by (auto simp: bit_simps opcode_bit_iff b_def)
qed

end
