(* ===== verification/Bus.thy ===== *)
theory Bus imports Prelude begin

text \<open>
  The bus of \<open>src/emulator/bus.c\<close>: the lines of \<open>struct bus\<close>, the chips registered on it
  as records of operations over the machine's state, and the dispatch of reads, writes and
  clock ticks in registration order. A machine extends the record \<open>bus\<close> with the states of
  its chips, so that a chip reads and drives the lines of whatever machine it is in.
\<close>

section \<open>Lines\<close>

record bus =
  bus_addr :: u16
  bus_data :: u8
  bus_rwb :: bool
  bus_romcs :: bool
  bus_ramcs :: bool
  bus_viacs :: bool
  bus_wr :: bool
  bus_irq :: bool
  bus_nmi :: bool
  bus_res :: bool
  bank_config :: u8
  bus_cks :: bool
  bus_ck :: bool
  r_bits :: u8
  cpu_cycle_due :: bool
  osc_ticks :: u64

definition bus_init :: bus where
  "bus_init = \<lparr>bus_addr = 0, bus_data = 0, bus_rwb = True, bus_romcs = False, bus_ramcs = False,
     bus_viacs = False, bus_wr = False, bus_irq = False, bus_nmi = False, bus_res = False,
     bank_config = 0, bus_cks = False, bus_ck = False, r_bits = 0, cpu_cycle_due = False,
     osc_ticks = 0\<rparr>"

section \<open>Chips\<close>

text \<open>
  \<open>struct chip_ops\<close>: a chip implements a subset of the operations. A read that claims the
  access returns its byte, a write tells whether it claimed it.
\<close>

record 'm chip =
  chip_tick :: "('m \<Rightarrow> 'm) option"
  chip_read :: "(u16 \<Rightarrow> 'm \<Rightarrow> u8 option \<times> 'm) option"
  chip_write :: "(u16 \<Rightarrow> u8 \<Rightarrow> 'm \<Rightarrow> bool \<times> 'm) option"
  chip_reset :: "('m \<Rightarrow> 'm) option"

definition BUS_MAX_CHIPS :: nat where "BUS_MAX_CHIPS = 16"

text \<open>\<open>None\<close> is the \<open>-1\<close> of a full bus.\<close>

definition bus_add_chip :: "'m chip list \<Rightarrow> 'm chip \<Rightarrow> 'm chip list option" where
  "bus_add_chip chips c = (if length chips \<ge> BUS_MAX_CHIPS then None else Some (chips @ [c]))"

fun bus_reset :: "'m chip list \<Rightarrow> 'm \<Rightarrow> 'm" where
  "bus_reset [] m = m"
| "bus_reset (c # cs) m =
     bus_reset cs (case chip_reset c of Some f \<Rightarrow> f m | None \<Rightarrow> m)"

fun bus_read :: "'m chip list \<Rightarrow> u16 \<Rightarrow> 'm \<Rightarrow> u8 option \<times> 'm" where
  "bus_read [] addr m = (None, m)"
| "bus_read (c # cs) addr m =
     (case chip_read c of
        Some f \<Rightarrow> (case f addr m of (Some v, m') \<Rightarrow> (Some v, m') | (None, m') \<Rightarrow> bus_read cs addr m')
      | None \<Rightarrow> bus_read cs addr m)"

fun bus_write :: "'m chip list \<Rightarrow> u16 \<Rightarrow> u8 \<Rightarrow> 'm \<Rightarrow> bool \<times> 'm" where
  "bus_write [] addr v m = (False, m)"
| "bus_write (c # cs) addr v m =
     (case chip_write c of
        Some f \<Rightarrow> (case f addr v m of (True, m') \<Rightarrow> (True, m') | (False, m') \<Rightarrow> bus_write cs addr v m')
      | None \<Rightarrow> bus_write cs addr v m)"

fun tick_chips :: "'m chip list \<Rightarrow> 'm \<Rightarrow> 'm" where
  "tick_chips [] m = m"
| "tick_chips (c # cs) m = tick_chips cs (case chip_tick c of Some f \<Rightarrow> f m | None \<Rightarrow> m)"

text \<open>One oscillator tick; \<open>count\<close> increments \<open>osc_ticks\<close> in the machine's state.\<close>

definition bus_step :: "('m \<Rightarrow> 'm) \<Rightarrow> 'm chip list \<Rightarrow> 'm \<Rightarrow> 'm" where
  "bus_step count chips m = tick_chips chips (count m)"

section \<open>Dispatch\<close>

definition passes_read :: "u16 \<Rightarrow> 'm \<Rightarrow> 'm chip \<Rightarrow> bool" where
  "passes_read addr m c \<longleftrightarrow> (case chip_read c of Some f \<Rightarrow> f addr m = (None, m) | None \<Rightarrow> True)"

definition passes_write :: "u16 \<Rightarrow> u8 \<Rightarrow> 'm \<Rightarrow> 'm chip \<Rightarrow> bool" where
  "passes_write addr v m c \<longleftrightarrow>
     (case chip_write c of Some f \<Rightarrow> f addr v m = (False, m) | None \<Rightarrow> True)"

lemma bus_read_skip:
  "list_all (passes_read addr m) cs \<Longrightarrow> bus_read (cs @ ds) addr m = bus_read ds addr m"
  by (induction cs) (auto simp: passes_read_def split: option.splits)

lemma bus_write_skip:
  "list_all (passes_write addr v m) cs \<Longrightarrow> bus_write (cs @ ds) addr v m = bus_write ds addr v m"
  by (induction cs) (auto simp: passes_write_def split: option.splits)

lemma bus_read_unclaimed: "list_all (passes_read addr m) cs \<Longrightarrow> bus_read cs addr m = (None, m)"
  using bus_read_skip[of addr m cs "[]"] by simp

lemma bus_write_unclaimed:
  "list_all (passes_write addr v m) cs \<Longrightarrow> bus_write cs addr v m = (False, m)"
  using bus_write_skip[of addr v m cs "[]"] by simp

text \<open>
  The first chip that claims a read answers it. The chips before it that let the
  access pass leave no trace, the chips after it are not asked.
\<close>

theorem first_claim_wins:
  assumes "list_all (passes_read addr m) before" "chip_read c = Some f" "f addr m = (Some v, m')"
  shows "bus_read (before @ c # after) addr m = (Some v, m')"
  using bus_read_skip[OF assms(1)] assms(2,3) by simp

theorem first_claim_witness:
  "bus_read [\<lparr>chip_tick = None, chip_read = None, chip_write = None, chip_reset = None\<rparr>,
     \<lparr>chip_tick = None, chip_read = Some (\<lambda>a m. (Some 7, m + 1)), chip_write = None,
       chip_reset = None\<rparr>] 5 (0 :: nat) = (Some 7, 1)"
  using first_claim_wins[of 5 0
      "[\<lparr>chip_tick = None, chip_read = None, chip_write = None, chip_reset = None\<rparr>]"]
  by (simp add: passes_read_def)

lemma tick_chips_append: "tick_chips (cs @ ds) m = tick_chips ds (tick_chips cs m)"
  by (induction cs arbitrary: m) simp_all

text \<open>A predicate every chip keeps, a tick of the whole bus keeps.\<close>

lemma tick_chips_inv:
  assumes "P m" "\<And>c f m. c \<in> set cs \<Longrightarrow> chip_tick c = Some f \<Longrightarrow> P m \<Longrightarrow> P (f m)"
  shows "P (tick_chips cs m)"
  using assms
proof (induction cs arbitrary: m)
  case (Cons c cs)
  have "P (case chip_tick c of Some f \<Rightarrow> f m | None \<Rightarrow> m)"
    using Cons.prems by (auto split: option.split)
  then have "P (tick_chips cs (case chip_tick c of Some f \<Rightarrow> f m | None \<Rightarrow> m))"
    by (rule Cons.IH) (use Cons.prems(2) in auto)
  then show ?case by simp
qed simp

end
