(* ===== verification/Cpu_Chip.thy ===== *)
theory Cpu_Chip imports Cpu_Stack Bus begin

text \<open>
  The CPU as a chip on the bus (\<open>src/emulator/chips/cpu_65c02.c\<close>): one instruction runs at
  once, and the rest of its cycles are owed to the following CPU cycles. The lines are those
  of the machine that is the host of the CPU core.
\<close>

record cpu_65c02_state =
  cycles_owed :: u64
  prev_res :: bool
  prev_nmi :: bool

definition cpu_65c02_init :: cpu_65c02_state where
  "cpu_65c02_init = \<lparr>cycles_owed = 0, prev_res = False, prev_nmi = False\<rparr>"

text \<open>The edges and levels of RES, NMI and IRQ, sampled before the cycle.\<close>

definition cpu_lines ::
  "cpu_65c02_state \<Rightarrow> 'a bus_scheme cpu \<Rightarrow> cpu_65c02_state \<times> 'a bus_scheme cpu" where
  "cpu_lines c s =
     (let (c, s) = (if bus_res (cpu_host s) \<and> \<not> prev_res c
                    then (c\<lparr>cycles_owed := 0\<rparr>, reset6502 s) else (c, s));
          c = c\<lparr>prev_res := bus_res (cpu_host s)\<rparr>;
          s = (if bus_nmi (cpu_host s) \<and> \<not> prev_nmi c then nmi6502 s else s);
          c = c\<lparr>prev_nmi := bus_nmi (cpu_host s)\<rparr>;
          s = (if (bus_irq (cpu_host s) \<or> bus_nmi (cpu_host s)) \<and> wai_pending s
               then cpu_clear_wai s else s);
          s = (if bus_irq (cpu_host s) \<and> cycles_owed c = 0 \<and> cpu_status s AND 0x04 = 0
               then irq6502 s else s)
      in (c, s))"

text \<open>A CPU cycle: pay for one owed, or run the next instruction.\<close>

definition cpu_cycle ::
  "cpu_65c02_state \<Rightarrow> 'a bus_scheme cpu \<Rightarrow> cpu_65c02_state \<times> 'a bus_scheme cpu" where
  "cpu_cycle c s =
     (if cycles_owed c > 0 then (c\<lparr>cycles_owed := cycles_owed c - 1\<rparr>, s)
      else let before = clockticks6502 s; s = step6502 s; consumed = clockticks6502 s - before
           in (if consumed > 0 then c\<lparr>cycles_owed := consumed - 1\<rparr> else c, s))"

definition cpu_65c02_tick ::
  "cpu_65c02_state \<Rightarrow> 'a bus_scheme cpu \<Rightarrow> cpu_65c02_state \<times> 'a bus_scheme cpu" where
  "cpu_65c02_tick c s =
     (let (c, s) = cpu_lines c s in
      if \<not> cpu_cycle_due (cpu_host s) then (c, s)
      else cpu_cycle c (s\<lparr>cpu_host := (cpu_host s)\<lparr>cpu_cycle_due := False\<rparr>\<rparr>))"

definition cpu_65c02_reset ::
  "cpu_65c02_state \<Rightarrow> 'a bus_scheme cpu \<Rightarrow> cpu_65c02_state \<times> 'a bus_scheme cpu" where
  "cpu_65c02_reset c s =
     (c\<lparr>cycles_owed := 0, prev_res := False, prev_nmi := False\<rparr>, reset6502 s)"

section \<open>Cycle accounting\<close>

lemma call_clock [simp]:
  "clockticks6502 (reset6502 s) = clockticks6502 s" "clockticks6502 (irq6502 s) = clockticks6502 s"
  "clockticks6502 (nmi6502 s) = clockticks6502 s" "clockticks6502 (cpu_clear_wai s) = clockticks6502 s"
  by (simp_all add: reset6502_def irq6502_def nmi6502_def cpu_clear_wai_def cpu_frame Let_def)

lemma cpu_lines_clock:
  assumes "cpu_lines c s = (c', s')"
  shows "clockticks6502 s' = clockticks6502 s"
    and "cycles_owed c' = (if bus_res (cpu_host s) \<and> \<not> prev_res c then 0 else cycles_owed c)"
  using assms by (auto simp: cpu_lines_def Let_def split: if_splits)

lemma step_consumed:
  obtains d where "1 \<le> d" "d \<le> 11" "clockticks6502 (step6502 s) - clockticks6502 s = (word_of_nat d :: u64)"
    "unat (clockticks6502 (step6502 s) - clockticks6502 s) = d"
proof -
  obtain d where d: "1 \<le> d" "d \<le> 11"
    "clockticks6502 (step6502 s) = clockticks6502 s + word_of_nat d"
    using step6502_cycles[of s] by (auto simp: cycles_moved_def)
  have "unat (word_of_nat d :: u64) = d"
    using d(2) by (simp add: unat_of_nat)
  with d that show ?thesis by simp
qed

lemma cpu_cycle_account:
  assumes "cpu_cycle c s = (c', s')"
  shows "clockticks6502 s' - cycles_owed c' = clockticks6502 s - cycles_owed c + 1"
    and "unat (cycles_owed c) \<le> 10 \<Longrightarrow> unat (cycles_owed c') \<le> 10"
proof -
  obtain d where d: "1 \<le> d" "d \<le> 11"
      "clockticks6502 (step6502 s) - clockticks6502 s = (word_of_nat d :: u64)"
      "unat (clockticks6502 (step6502 s) - clockticks6502 s) = d"
    by (rule step_consumed)
  have pos: "0 < clockticks6502 (step6502 s) - clockticks6502 s"
    using d(1,4) by (metis word_gt_0 not_one_le_zero unat_0)
  have m: "unat (clockticks6502 (step6502 s) - clockticks6502 s - 1) = d - 1"
  proof -
    have "clockticks6502 (step6502 s) - clockticks6502 s \<noteq> 0" using pos by (metis less_irrefl)
    then show ?thesis using d(4) unat_minus_one by metis
  qed
  show "clockticks6502 s' - cycles_owed c' = clockticks6502 s - cycles_owed c + 1"
    using assms pos by (auto simp: cpu_cycle_def Let_def word_gt_0 split: if_splits)
  show "unat (cycles_owed c) \<le> 10 \<Longrightarrow> unat (cycles_owed c') \<le> 10"
    using assms m d(2) pos unat_minus_one[of "cycles_owed c"]
    by (auto simp: cpu_cycle_def Let_def split: if_splits)
qed

text \<open>
  Property C25: the CPU keeps the pace of its clock. Except at a reset edge, the cycles of the
  core less the cycles owed advance by exactly one with every CPU cycle, and by none on a tick
  without one; never more than ten cycles are owed.
\<close>

theorem cpu_pace:
  assumes "\<not> (bus_res (cpu_host s) \<and> \<not> prev_res c)"
    and "cpu_65c02_tick c s = (c', s')"
  shows "clockticks6502 s' - cycles_owed c' = clockticks6502 s - cycles_owed c +
      (if cpu_cycle_due (cpu_host (snd (cpu_lines c s))) then 1 else 0) \<and>
    (unat (cycles_owed c) \<le> 10 \<longrightarrow> unat (cycles_owed c') \<le> 10)"
proof -
  obtain c1 s1 where l: "cpu_lines c s = (c1, s1)" by (rule prod.exhaust)
  have e: "clockticks6502 s1 = clockticks6502 s" "cycles_owed c1 = cycles_owed c"
    using cpu_lines_clock[OF l] assms(1) by auto
  show ?thesis
  proof (cases "cpu_cycle_due (cpu_host s1)")
    case True
    then have "cpu_cycle c1 (s1\<lparr>cpu_host := (cpu_host s1)\<lparr>cpu_cycle_due := False\<rparr>\<rparr>) = (c', s')"
      using assms(2) by (simp add: cpu_65c02_tick_def l)
    from cpu_cycle_account[OF this] True show ?thesis by (simp add: e l)
  next
    case False
    then show ?thesis using assms(2) e by (simp add: cpu_65c02_tick_def l)
  qed
qed

text \<open>
  While an instruction's cycles are owed and no control line asks for anything,
  the core does not move: a tick only clears the request and pays one cycle.
\<close>

theorem owed_cycles_idle:
  assumes "0 < cycles_owed c" "bus_res (cpu_host s) \<longrightarrow> prev_res c" "bus_nmi (cpu_host s) \<longrightarrow> prev_nmi c"
    "wai_pending s \<longrightarrow> \<not> bus_irq (cpu_host s) \<and> \<not> bus_nmi (cpu_host s)" "cpu_cycle_due (cpu_host s)"
  shows "cpu_65c02_tick c s =
    (c\<lparr>cycles_owed := cycles_owed c - 1, prev_res := bus_res (cpu_host s), prev_nmi := bus_nmi (cpu_host s)\<rparr>,
     s\<lparr>cpu_host := (cpu_host s)\<lparr>cpu_cycle_due := False\<rparr>\<rparr>)"
proof -
  have h: "\<not> (bus_res (cpu_host s) \<and> \<not> prev_res c)" 
    "\<not> (bus_nmi (cpu_host s) \<and> \<not> prev_nmi (c\<lparr>prev_res := bus_res (cpu_host s)\<rparr>))"
    "\<not> ((bus_irq (cpu_host s) \<or> bus_nmi (cpu_host s)) \<and> wai_pending s)"
    "\<not> (bus_irq (cpu_host s) \<and> cycles_owed (c\<lparr>prev_res := bus_res (cpu_host s),
        prev_nmi := bus_nmi (cpu_host s)\<rparr>) = 0 \<and> cpu_status s AND 0x04 = 0)"
    using assms by auto
  have "cpu_lines c s =
      (c\<lparr>prev_res := bus_res (cpu_host s), prev_nmi := bus_nmi (cpu_host s)\<rparr>, s)"
    unfolding cpu_lines_def Let_def if_not_P[OF h(1)] prod.case cpu_65c02_state.simps
      if_not_P[OF h(2)] if_not_P[OF h(3)] if_not_P[OF h(4)] ..
  then show ?thesis using assms(1,5) by (simp add: cpu_65c02_tick_def cpu_cycle_def)
qed

section \<open>Instances\<close>

text \<open>A machine that is only the bus, and finds NOP everywhere.\<close>

definition nop_hooks :: "'a hooks" where
  "nop_hooks = \<lparr>read6502 = (\<lambda>a m. (0xEA, m)), write6502 = (\<lambda>a v m. m),
     cpu_external_read = None, cpu_external_write = None, cpu_bus_read_tap = None,
     cpu_bus_write_tap = None, loopexternal = (\<lambda>m. m)\<rparr>"

theorem cpu_pace_witness:
  "case cpu_65c02_tick cpu_65c02_init (power_on nop_hooks (bus_init\<lparr>cpu_cycle_due := True\<rparr>)) of
     (c, s) \<Rightarrow> clockticks6502 s - cycles_owed c = 1 \<and> unat (cycles_owed c) \<le> 10"
proof -
  obtain c s where t:
    "cpu_65c02_tick cpu_65c02_init (power_on nop_hooks (bus_init\<lparr>cpu_cycle_due := True\<rparr>)) = (c, s)"
    by (rule prod.exhaust)
  show ?thesis
    unfolding t prod.case using cpu_pace[OF _ t] by (simp add: bus_init_def cpu_65c02_init_def cpu_lines_def Let_def)
qed

theorem owed_cycles_witness:
  "let s = power_on nop_hooks (bus_init\<lparr>cpu_cycle_due := True\<rparr>) in
   cpu_pc (snd (cpu_65c02_tick (cpu_65c02_init\<lparr>cycles_owed := 3\<rparr>) s)) = cpu_pc s \<and>
   cycles_owed (fst (cpu_65c02_tick (cpu_65c02_init\<lparr>cycles_owed := 3\<rparr>) s)) = 2"
  using owed_cycles_idle[of "cpu_65c02_init\<lparr>cycles_owed := 3\<rparr>"
      "power_on nop_hooks (bus_init\<lparr>cpu_cycle_due := True\<rparr>)"]
  by (simp add: bus_init_def cpu_65c02_init_def Let_def)

end
