(* ===== verification/Clock_22v10.thy ===== *)
theory Clock_22v10 imports Bus begin

text \<open>
  The 22V10 PLD of the wendy2c (\<open>src/emulator/chips/clock_22v10.c\<close> and the generated
  equations of \<open>clock_22v10_pld_generated.h\<close>): chip selects, RAM bank lines and the CPU
  clock.
\<close>

named_theorems pld_defs "the PLD's combinational equations"

section \<open>The equations\<close>

type_synonym pld_fun =
  "bool \<Rightarrow> bool \<Rightarrow> bool \<Rightarrow> bool \<Rightarrow> bool \<Rightarrow> bool \<Rightarrow> bool \<Rightarrow> bool \<Rightarrow> bool \<Rightarrow> bool \<Rightarrow> bool"

definition pld_romcs :: pld_fun where
  [pld_defs]: "pld_romcs a15 a14 a13 a12 a11 c4 c3 c2 c1 c0 \<longleftrightarrow>
      (\<not> c4 \<and> \<not> c3 \<and> \<not> c2 \<and> \<not> c1 \<and> \<not> c0 \<and> a15 \<and> a14 \<and> a13 \<and> a12 \<and> a11) \<or>
      (\<not> c4 \<and> \<not> c3 \<and> \<not> c2 \<and> \<not> c1 \<and> \<not> c0 \<and> a15 \<and> \<not> a14) \<or>
      (\<not> c4 \<and> \<not> c3 \<and> \<not> c2 \<and> \<not> c1 \<and> \<not> c0 \<and> a15 \<and> a14 \<and> \<not> a13) \<or>
      (\<not> c4 \<and> \<not> c3 \<and> \<not> c2 \<and> \<not> c1 \<and> \<not> c0 \<and> a15 \<and> a14 \<and> a13 \<and> \<not> a12) \<or>
      (c4 \<and> \<not> c2 \<and> \<not> c1 \<and> \<not> c0 \<and> a15 \<and> \<not> a14) \<or>
      (c4 \<and> \<not> c2 \<and> \<not> c1 \<and> \<not> c0 \<and> a15 \<and> a14 \<and> \<not> a13) \<or>
      (c4 \<and> \<not> c2 \<and> \<not> c1 \<and> \<not> c0 \<and> a15 \<and> a14 \<and> a13 \<and> \<not> a12)"

definition pld_viacs :: pld_fun where
  [pld_defs]: "pld_viacs a15 a14 a13 a12 a11 c4 c3 c2 c1 c0 \<longleftrightarrow>
      (a15 \<and> a14 \<and> a13 \<and> a12 \<and> \<not> a11)"

definition pld_ramcs :: pld_fun where
  [pld_defs]: "pld_ramcs a15 a14 a13 a12 a11 c4 c3 c2 c1 c0 \<longleftrightarrow>
      \<not> ((\<not> c4 \<and> \<not> c3 \<and> \<not> c2 \<and> \<not> c1 \<and> \<not> c0 \<and> a15 \<and> a14 \<and> a13 \<and> a12 \<and> a11) \<or>
      (\<not> c4 \<and> \<not> c3 \<and> \<not> c2 \<and> \<not> c1 \<and> \<not> c0 \<and> a15 \<and> \<not> a14) \<or>
      (\<not> c4 \<and> \<not> c3 \<and> \<not> c2 \<and> \<not> c1 \<and> \<not> c0 \<and> a15 \<and> a14 \<and> \<not> a13) \<or>
      (\<not> c4 \<and> \<not> c3 \<and> \<not> c2 \<and> \<not> c1 \<and> \<not> c0 \<and> a15 \<and> a14 \<and> a13 \<and> \<not> a12) \<or>
      (c4 \<and> \<not> c2 \<and> \<not> c1 \<and> \<not> c0 \<and> a15 \<and> \<not> a14) \<or>
      (c4 \<and> \<not> c2 \<and> \<not> c1 \<and> \<not> c0 \<and> a15 \<and> a14 \<and> \<not> a13) \<or>
      (c4 \<and> \<not> c2 \<and> \<not> c1 \<and> \<not> c0 \<and> a15 \<and> a14 \<and> a13 \<and> \<not> a12) \<or>
      (a15 \<and> a14 \<and> a13 \<and> a12 \<and> \<not> a11))"

definition pld_r15 :: pld_fun where
  [pld_defs]: "pld_r15 a15 a14 a13 a12 a11 c4 c3 c2 c1 c0 \<longleftrightarrow>
      (\<not> a15 \<and> \<not> a14 \<and> \<not> c4 \<and> \<not> c3 \<and> \<not> c2 \<and> \<not> c1 \<and> \<not> c0) \<or>
      (\<not> a15 \<and> \<not> a14 \<and> \<not> c4 \<and> c0) \<or>
      (\<not> a15 \<and> \<not> a14 \<and> c4 \<and> \<not> c3) \<or>
      (a15 \<and> a14)"

definition pld_r16 :: pld_fun where
  [pld_defs]: "pld_r16 a15 a14 a13 a12 a11 c4 c3 c2 c1 c0 \<longleftrightarrow>
      (\<not> a15 \<and> \<not> a14 \<and> \<not> c4 \<and> c1) \<or>
      (\<not> a15 \<and> \<not> a14 \<and> c4 \<and> c3) \<or>
      (a15 \<and> \<not> a14 \<and> c4 \<and> c0) \<or>
      (a15 \<and> \<not> a13 \<and> c4 \<and> c0) \<or>
      (a15 \<and> \<not> a12 \<and> c4 \<and> c0) \<or>
      (a15 \<and> \<not> a11 \<and> c4 \<and> c0)"

definition pld_r17 :: pld_fun where
  [pld_defs]: "pld_r17 a15 a14 a13 a12 a11 c4 c3 c2 c1 c0 \<longleftrightarrow>
      (\<not> a15 \<and> \<not> a14 \<and> \<not> c4 \<and> c2) \<or>
      (a15 \<and> \<not> a14 \<and> c4 \<and> c1) \<or>
      (a15 \<and> \<not> a13 \<and> c4 \<and> c1) \<or>
      (a15 \<and> \<not> a12 \<and> c4 \<and> c1) \<or>
      (a15 \<and> \<not> a11 \<and> c4 \<and> c1)"

definition pld_r18 :: pld_fun where
  [pld_defs]: "pld_r18 a15 a14 a13 a12 a11 c4 c3 c2 c1 c0 \<longleftrightarrow>
      (\<not> a15 \<and> \<not> a14 \<and> \<not> c4 \<and> c3) \<or>
      (a15 \<and> \<not> a14 \<and> c4 \<and> c2) \<or>
      (a15 \<and> \<not> a13 \<and> c4 \<and> c2) \<or>
      (a15 \<and> \<not> a12 \<and> c4 \<and> c2) \<or>
      (a15 \<and> \<not> a11 \<and> c4 \<and> c2)"

section \<open>The table\<close>

text \<open>
  The outputs for all combinations of A15..A11 (\<open>a\<close>) and the five bank bits (\<open>cb\<close>), as
  one byte: ROMCS, RAMCS, VIACS in bits 0 to 2, R18..R15 in bits 6 to 3.
\<close>

definition pld_at :: "pld_fun \<Rightarrow> nat \<Rightarrow> nat \<Rightarrow> bool" where
  "pld_at f a cb = f (bit a 4) (bit a 3) (bit a 2) (bit a 1) (bit a 0)
     (bit cb 4) (bit cb 3) (bit cb 2) (bit cb 1) (bit cb 0)"

definition pld_entry :: "nat \<Rightarrow> nat \<Rightarrow> u8" where
  "pld_entry a cb =
     (if pld_at pld_romcs a cb then 0x01 else 0) OR (if pld_at pld_ramcs a cb then 0x02 else 0) OR
     (if pld_at pld_viacs a cb then 0x04 else 0) OR
     push_bit 3 (push_bit 3 (of_bool (pld_at pld_r18 a cb)) OR
       push_bit 2 (of_bool (pld_at pld_r17 a cb)) OR push_bit 1 (of_bool (pld_at pld_r16 a cb)) OR
       of_bool (pld_at pld_r15 a cb))"

definition pld_table :: "u8 list" where
  "pld_table = map (\<lambda>i. pld_entry (i div 32) (i mod 32)) [0..<32 * 32]"

definition clock_22v10_refresh_combinational :: "'a bus_scheme \<Rightarrow> 'a bus_scheme" where
  "clock_22v10_refresh_combinational b =
     (let out = pld_table ! unat (push_bit 5 (drop_bit 11 (bus_addr b)) OR
                                  to16 (bank_config b AND 0x1F))
      in b\<lparr>bus_romcs := out AND 0x01 \<noteq> 0, bus_ramcs := out AND 0x02 \<noteq> 0,
           bus_viacs := out AND 0x04 \<noteq> 0, r_bits := drop_bit 3 out,
           bus_wr := \<not> bus_rwb b \<and> bus_ck b\<rparr>)"

definition clock_22v10_tick :: "'a bus_scheme \<Rightarrow> 'a bus_scheme" where
  "clock_22v10_tick b =
     (let b = clock_22v10_refresh_combinational b;
          prev_cks = bus_cks b; prev_ck = bus_ck b;
          new_cks = (\<not> prev_cks);
          new_ck = ((prev_ck \<and> \<not> prev_cks) \<or> (\<not> prev_ck \<and> prev_cks) \<or>
                    (\<not> bus_romcs b \<and> \<not> prev_ck));
          b = (if prev_ck \<and> \<not> new_ck then b\<lparr>cpu_cycle_due := True\<rparr> else b)
      in b\<lparr>bus_cks := new_cks, bus_ck := new_ck, bus_wr := \<not> bus_rwb b \<and> new_ck\<rparr>)"

section \<open>The table is the equations\<close>

definition pld_lines :: "pld_fun \<Rightarrow> 'a bus_scheme \<Rightarrow> bool" where
  "pld_lines f b = f (bit (bus_addr b) 15) (bit (bus_addr b) 14) (bit (bus_addr b) 13)
     (bit (bus_addr b) 12) (bit (bus_addr b) 11) (bit (bank_config b) 4) (bit (bank_config b) 3)
     (bit (bank_config b) 2) (bit (bank_config b) 1) (bit (bank_config b) 0)"

lemma mask5: "(0x1F :: u8) = mask 5"
  by (simp add: mask_eq_exp_minus_1)

lemma table_index:
  "unat (push_bit 5 (drop_bit 11 a) OR to16 (c AND 0x1F)) =
     32 * unat (drop_bit 11 a) + unat (c AND mask 5)" for a :: u16
proof -
  have "push_bit 5 (drop_bit 11 a) OR to16 (c AND mask 5) =
      push_bit 5 (drop_bit 11 a) + to16 (c AND mask 5)"
    by (rule disjunctive_add_eq_or[symmetric]) (auto intro!: bit_word_eqI simp: bit_simps)
  moreover have "unat (drop_bit 11 a) < 32"
    using unat_u16_less[of a] by (simp add: drop_bit_eq_div unat_div)
  moreover have "unat (c AND mask 5) < 32"
    using and_mask_less'[of 5 c] by (simp add: word_less_nat_alt)
  ultimately show ?thesis
    by (simp add: mask5 push_bit_eq_mult unat_word_ariths unsigned_ucast_eq take_bit_nat_eq_self)
qed

lemma table_lookup:
  "pld_table ! unat (push_bit 5 (drop_bit 11 a) OR to16 (c AND 0x1F)) =
     pld_entry (unat (drop_bit 11 a)) (unat (c AND mask 5))"
proof -
  have "unat (drop_bit 11 a) < 32"
    using unat_u16_less[of a] by (simp add: drop_bit_eq_div unat_div)
  moreover have "unat (c AND mask 5) < 32"
    using and_mask_less'[of 5 c] by (simp add: word_less_nat_alt)
  ultimately show ?thesis by (simp add: table_index pld_table_def)
qed

lemma pld_at_lines:
  "pld_at f (unat (drop_bit 11 (bus_addr b))) (unat (bank_config b AND mask 5)) = pld_lines f b"
  by (simp add: pld_at_def pld_lines_def bit_unsigned_iff bit_simps)

lemma if_bit_u8:
  "(if p then 0x01 else 0 :: u8) = push_bit 0 (of_bool p)"
  "(if p then 0x02 else 0 :: u8) = push_bit 1 (of_bool p)"
  "(if p then 0x04 else 0 :: u8) = push_bit 2 (of_bool p)"
  by simp_all

lemma bit_push_bool: "bit (push_bit k (of_bool p) :: u8) n \<longleftrightarrow> p \<and> n = k \<and> k < 8"
  by (auto simp: bit_push_bit_iff)

lemma pld_entry_shape:
  "pld_entry a cb = push_bit 0 (of_bool (pld_at pld_romcs a cb)) OR
     push_bit 1 (of_bool (pld_at pld_ramcs a cb)) OR push_bit 2 (of_bool (pld_at pld_viacs a cb)) OR
     push_bit 6 (of_bool (pld_at pld_r18 a cb)) OR push_bit 5 (of_bool (pld_at pld_r17 a cb)) OR
     push_bit 4 (of_bool (pld_at pld_r16 a cb)) OR push_bit 3 (of_bool (pld_at pld_r15 a cb))"
proof -
  have "(of_bool (pld_at pld_r15 a cb) :: u8) = push_bit 0 (of_bool (pld_at pld_r15 a cb))" by simp
  then show ?thesis
    unfolding pld_entry_def if_bit_u8 by (simp only: push_bit_or push_bit_push_bit) simp
qed

lemma pld_entry_bits:
  "bit (pld_entry a cb) 0 = pld_at pld_romcs a cb" "bit (pld_entry a cb) 1 = pld_at pld_ramcs a cb"
  "bit (pld_entry a cb) 2 = pld_at pld_viacs a cb" "bit (pld_entry a cb) 3 = pld_at pld_r15 a cb"
  "bit (pld_entry a cb) 4 = pld_at pld_r16 a cb" "bit (pld_entry a cb) 5 = pld_at pld_r17 a cb"
  "bit (pld_entry a cb) 6 = pld_at pld_r18 a cb" "\<not> bit (pld_entry a cb) 7"
  unfolding pld_entry_shape bit_or_iff bit_push_bool by simp_all

lemma refresh_lines:
  "bus_romcs (clock_22v10_refresh_combinational b) = pld_lines pld_romcs b"
  "bus_ramcs (clock_22v10_refresh_combinational b) = pld_lines pld_ramcs b"
  "bus_viacs (clock_22v10_refresh_combinational b) = pld_lines pld_viacs b"
  "bit (r_bits (clock_22v10_refresh_combinational b)) 0 = pld_lines pld_r15 b"
  "bit (r_bits (clock_22v10_refresh_combinational b)) 1 = pld_lines pld_r16 b"
  "bit (r_bits (clock_22v10_refresh_combinational b)) 2 = pld_lines pld_r17 b"
  "bit (r_bits (clock_22v10_refresh_combinational b)) 3 = pld_lines pld_r18 b"
proof -
  let ?e = "pld_entry (unat (drop_bit 11 (bus_addr b))) (unat (bank_config b AND mask 5))"
  note e = pld_entry_bits[of "unat (drop_bit 11 (bus_addr b))" "unat (bank_config b AND mask 5)",
      unfolded pld_at_lines]
  show "bus_romcs (clock_22v10_refresh_combinational b) = pld_lines pld_romcs b"
    "bus_ramcs (clock_22v10_refresh_combinational b) = pld_lines pld_ramcs b"
    "bus_viacs (clock_22v10_refresh_combinational b) = pld_lines pld_viacs b"
    using e by (simp_all add: clock_22v10_refresh_combinational_def Let_def table_lookup u8_flag_iff)
  have "r_bits (clock_22v10_refresh_combinational b) = drop_bit 3 ?e"
    by (simp add: clock_22v10_refresh_combinational_def Let_def table_lookup)
  then show "bit (r_bits (clock_22v10_refresh_combinational b)) 0 = pld_lines pld_r15 b"
    "bit (r_bits (clock_22v10_refresh_combinational b)) 1 = pld_lines pld_r16 b"
    "bit (r_bits (clock_22v10_refresh_combinational b)) 2 = pld_lines pld_r17 b"
    "bit (r_bits (clock_22v10_refresh_combinational b)) 3 = pld_lines pld_r18 b"
    using e by (simp_all add: bit_drop_bit_eq)
qed

lemma via_window:
  "pld_lines pld_viacs b \<longleftrightarrow> drop_bit 11 (bus_addr b) = 0x1E"
proof -
  have n: "{..<16 :: nat} = {0, 1, 2, 3, 4, 5, 6, 7, 8, 9, 10, 11, 12, 13, 14, 15}" by auto presburger
  have h: "\<not> bit (bus_addr b) (11 + k)" if "5 \<le> k" for k
    using that bit_imp_le_length[of "bus_addr b" "11 + k"] by auto
  have "drop_bit 11 (bus_addr b) = 0x1E \<longleftrightarrow>
      (\<forall>k\<in>{..<16}. bit (bus_addr b) (11 + k) = bit (0x1E :: u16) k)"
  proof
    assume "\<forall>k\<in>{..<16}. bit (bus_addr b) (11 + k) = bit (0x1E :: u16) k"
    then show "drop_bit 11 (bus_addr b) = 0x1E"
      by (intro bit_word_eqI) (simp add: bit_drop_bit_eq)
  qed (metis bit_drop_bit_eq comp_apply)
  also have "\<dots> \<longleftrightarrow> pld_lines pld_viacs b"
    unfolding n using h[of 5] h[of 6] h[of 7] h[of 8] h[of 9] h[of 10] h[of 11] h[of 12] h[of 13]
      h[of 14] h[of 15]
    by (simp add: pld_lines_def pld_viacs_def) blast
  finally show ?thesis by blast
qed

text \<open>
  Property C26: the PLD's table gives the equations of the generated file for the current
  address and bank bits, and in every state exactly one of ROM, RAM and VIA is selected; the
  VIA has the window $F000..$F7FF in every bank configuration.
\<close>

theorem refresh_correct:
  fixes b :: "'a bus_scheme"
  defines "t \<equiv> clock_22v10_refresh_combinational b"
  shows "bus_romcs t = pld_lines pld_romcs b \<and> bus_ramcs t = pld_lines pld_ramcs b \<and>
    bus_viacs t = pld_lines pld_viacs b \<and> bit (r_bits t) 0 = pld_lines pld_r15 b \<and>
    bit (r_bits t) 1 = pld_lines pld_r16 b \<and> bit (r_bits t) 2 = pld_lines pld_r17 b \<and>
    bit (r_bits t) 3 = pld_lines pld_r18 b \<and>
    (bus_ramcs t = (\<not> bus_romcs t \<and> \<not> bus_viacs t)) \<and> \<not> (bus_romcs t \<and> bus_viacs t) \<and>
    bus_viacs t = (drop_bit 11 (bus_addr b) = 0x1E)"
proof -
  have x: "pld_lines pld_ramcs b = (\<not> pld_lines pld_romcs b \<and> \<not> pld_lines pld_viacs b)"
    "\<not> (pld_lines pld_romcs b \<and> pld_lines pld_viacs b)"
    unfolding pld_lines_def pld_defs
    by (cases "bit (bus_addr b) 15"; cases "bit (bus_addr b) 14"; cases "bit (bus_addr b) 13";
        cases "bit (bus_addr b) 12"; cases "bit (bus_addr b) 11"; simp)+
  show ?thesis unfolding t_def refresh_lines
    by (intro conjI refl) (use x via_window[of b] in \<open>simp_all only:\<close>, blast)
qed

section \<open>The CPU clock\<close>

text \<open>What the tick does to the two registered outputs, by the selected chip.\<close>

lemma tick_clock:
  "bus_cks (clock_22v10_tick b) = (\<not> bus_cks b)"
  "bus_ck (clock_22v10_tick b) = (if pld_lines pld_romcs b then bus_ck b \<noteq> bus_cks b
     else \<not> (bus_ck b \<and> bus_cks b))"
  "cpu_cycle_due (clock_22v10_tick b) =
     (cpu_cycle_due b \<or> bus_ck b \<and> \<not> bus_ck (clock_22v10_tick b))"
  "bus_addr (clock_22v10_tick b) = bus_addr b" "bank_config (clock_22v10_tick b) = bank_config b"
  "bus_rwb (clock_22v10_tick b) = bus_rwb b"
proof -
  have f: "bus_cks (clock_22v10_refresh_combinational b) = bus_cks b"
    "bus_ck (clock_22v10_refresh_combinational b) = bus_ck b"
    "cpu_cycle_due (clock_22v10_refresh_combinational b) = cpu_cycle_due b"
    "bus_addr (clock_22v10_refresh_combinational b) = bus_addr b"
    "bank_config (clock_22v10_refresh_combinational b) = bank_config b"
    "bus_rwb (clock_22v10_refresh_combinational b) = bus_rwb b"
    by (simp_all add: clock_22v10_refresh_combinational_def Let_def)
  show "bus_cks (clock_22v10_tick b) = (\<not> bus_cks b)"
    "bus_ck (clock_22v10_tick b) = (if pld_lines pld_romcs b then bus_ck b \<noteq> bus_cks b
     else \<not> (bus_ck b \<and> bus_cks b))"
    "cpu_cycle_due (clock_22v10_tick b) =
     (cpu_cycle_due b \<or> bus_ck b \<and> \<not> bus_ck (clock_22v10_tick b))"
    "bus_addr (clock_22v10_tick b) = bus_addr b" "bank_config (clock_22v10_tick b) = bank_config b"
    "bus_rwb (clock_22v10_tick b) = bus_rwb b"
    by (auto simp: clock_22v10_tick_def Let_def f refresh_lines)
qed

lemma tick_region [simp]: "pld_lines f (clock_22v10_tick b) = pld_lines f b"
  by (simp add: pld_lines_def tick_clock)

text \<open>
  While the address stays in one region the CPU clock has a period of four
  oscillator ticks in ROM and of two elsewhere: from CKS and CK low, a cycle becomes due on
  exactly the last tick of each period, and from any state at most three ticks lead to that
  phase.
\<close>

theorem clock_period:
  fixes b :: "'a bus_scheme"
  defines "t k \<equiv> (clock_22v10_tick ^^ k) b"
    and "p \<equiv> if pld_lines pld_romcs b then 4 else 2 :: nat"
  shows "(\<not> bus_cks b \<and> \<not> bus_ck b \<and> \<not> cpu_cycle_due b \<longrightarrow>
      (\<forall>k. 0 < k \<and> k < p \<longrightarrow> \<not> cpu_cycle_due (t k)) \<and> cpu_cycle_due (t p) \<and>
      \<not> bus_cks (t p) \<and> \<not> bus_ck (t p)) \<and>
    (\<exists>k\<le>3. \<not> bus_cks (t k) \<and> \<not> bus_ck (t k))"
proof -
  have t: "t 0 = b" "t (Suc k) = clock_22v10_tick (t k)" for k by (simp_all add: t_def)
  have r: "pld_lines pld_romcs (t k) = pld_lines pld_romcs b" for k
    by (induction k) (simp_all add: t)
  have s: "t 1 = clock_22v10_tick b" "t 2 = clock_22v10_tick (t 1)" "t 3 = clock_22v10_tick (t 2)"
    "t 4 = clock_22v10_tick (t 3)"
    using t(2)[of 0] t(2)[of 1] t(2)[of 2] t(2)[of 3] t(1) by (simp_all add: numeral_eq_Suc)
  note s' = s[unfolded One_nat_def]
  have phase: "\<not> bus_cks (t 0) \<and> \<not> bus_ck (t 0) \<or> \<not> bus_cks (t 1) \<and> \<not> bus_ck (t 1) \<or>
      \<not> bus_cks (t 2) \<and> \<not> bus_ck (t 2) \<or> \<not> bus_cks (t 3) \<and> \<not> bus_ck (t 3)"
    by (auto simp: s' t(1) tick_clock(1,2))
  have "\<exists>k\<le>3. \<not> bus_cks (t k) \<and> \<not> bus_ck (t k)"
  proof -
    obtain k where "k \<in> {0, 1, 2, 3}" "\<not> bus_cks (t k) \<and> \<not> bus_ck (t k)"
      using phase by blast
    then show ?thesis by (intro exI[of _ k]) auto
  qed
  moreover have "(\<forall>k. 0 < k \<and> k < p \<longrightarrow> \<not> cpu_cycle_due (t k)) \<and> cpu_cycle_due (t p) \<and>
      \<not> bus_cks (t p) \<and> \<not> bus_ck (t p)"
    if "\<not> bus_cks b \<and> \<not> bus_ck b \<and> \<not> cpu_cycle_due b"
  proof -
    have "\<not> cpu_cycle_due (t k)" if "k = 1 \<or> p = 4 \<and> (k = 2 \<or> k = 3)" for k
      using that \<open>\<not> bus_cks b \<and> \<not> bus_ck b \<and> \<not> cpu_cycle_due b\<close>
      by (auto simp: s' tick_clock(1-3) p_def split: if_splits)
    moreover have "k = 1 \<or> p = 4 \<and> (k = 2 \<or> k = 3)" if "0 < k \<and> k < p" for k
      using that by (auto simp: p_def split: if_splits)
    moreover have "cpu_cycle_due (t p) \<and> \<not> bus_cks (t p) \<and> \<not> bus_ck (t p)"
      using that by (cases "pld_lines pld_romcs b") (auto simp: s' tick_clock(1-3) p_def)
    ultimately show ?thesis by blast
  qed
  ultimately show ?thesis by blast
qed

theorem clock_period_witness:
  "cpu_cycle_due ((clock_22v10_tick ^^ 4) (bus_init\<lparr>bus_addr := 0x8000\<rparr>)) \<and>
   \<not> cpu_cycle_due ((clock_22v10_tick ^^ 3) (bus_init\<lparr>bus_addr := 0x8000\<rparr>)) \<and>
   cpu_cycle_due ((clock_22v10_tick ^^ 2) bus_init)"
proof -
  have r: "pld_lines pld_romcs (bus_init\<lparr>bus_addr := 0x8000\<rparr>)" "\<not> pld_lines pld_romcs bus_init"
    by (simp_all add: pld_lines_def pld_romcs_def bus_init_def)
  have q: "\<not> bus_cks (bus_init\<lparr>bus_addr := a\<rparr>)" "\<not> bus_ck (bus_init\<lparr>bus_addr := a\<rparr>)"
    "\<not> cpu_cycle_due (bus_init\<lparr>bus_addr := a\<rparr>)" "\<not> bus_cks bus_init" "\<not> bus_ck bus_init"
    "\<not> cpu_cycle_due bus_init" for a
    by (simp_all add: bus_init_def)
  show ?thesis
    using clock_period[of "bus_init\<lparr>bus_addr := 0x8000\<rparr>"] clock_period[of bus_init]
    by (simp add: r q)
qed

end
