(* ===== verification/Memory_Chips.thy ===== *)
theory Memory_Chips imports Bus begin

text \<open>
  The two memories (\<open>chips/ram_628128.c\<close>, \<open>chips/rom_28c256.c\<close>) and Michael's address
  decode (\<open>chips/glue_michael.c\<close>). A memory array is a total function on its addresses;
  the bounds of every access are proved.
\<close>

section \<open>RAM\<close>

abbreviation (input) RAM_628128_SIZE :: nat where "RAM_628128_SIZE \<equiv> 0x80000"

type_synonym ram_628128_state = "u32 \<Rightarrow> u8"

definition physical_addr :: "'a bus_scheme \<Rightarrow> u16 \<Rightarrow> u32" where
  "physical_addr b addr =
     push_bit 15 (ucast (r_bits b AND 0x0F)) OR
     push_bit 14 (ucast (drop_bit 15 addr AND 1)) OR ucast (addr AND 0x3FFF)"

definition ram_628128_read :: "'a bus_scheme \<Rightarrow> u16 \<Rightarrow> ram_628128_state \<Rightarrow> u8 option" where
  "ram_628128_read b addr s =
     (if \<not> bus_ramcs b \<or> \<not> bus_rwb b then None else Some (s (physical_addr b addr)))"

definition ram_628128_write ::
  "'a bus_scheme \<Rightarrow> u16 \<Rightarrow> u8 \<Rightarrow> ram_628128_state \<Rightarrow> bool \<times> ram_628128_state" where
  "ram_628128_write b addr v s =
     (if \<not> bus_ramcs b \<or> bus_rwb b then (False, s) else (True, s(physical_addr b addr := v)))"

definition ram_628128_init :: ram_628128_state where
  "ram_628128_init = (\<lambda>_. 0)"

section \<open>ROM\<close>

abbreviation (input) ROM_28C256_SIZE :: u16 where "ROM_28C256_SIZE \<equiv> 0x8000"

type_synonym rom_28c256_state = "u16 \<Rightarrow> u8"

definition rom_28c256_read :: "'a bus_scheme \<Rightarrow> u16 \<Rightarrow> rom_28c256_state \<Rightarrow> u8 option" where
  "rom_28c256_read b addr s =
     (if \<not> bus_romcs b \<or> \<not> bus_rwb b then None else Some (s (addr AND (ROM_28C256_SIZE - 1))))"

definition rom_28c256_write :: "'a bus_scheme \<Rightarrow> u16 \<Rightarrow> u8 \<Rightarrow> bool" where
  "rom_28c256_write b addr v \<longleftrightarrow> bus_romcs b \<and> \<not> bus_rwb b"

definition rom_28c256_init :: rom_28c256_state where
  "rom_28c256_init = (\<lambda>_. 0xFF)"

text \<open>
  The load, from the bytes of the file (\<open>None\<close>: it could not be opened): the bytes that
  fit, padded with 0xFF. The result is None where the C code returns -1.
\<close>

definition rom_28c256_load :: "u8 list option \<Rightarrow> rom_28c256_state option" where
  "rom_28c256_load file = (case file of None \<Rightarrow> None | Some bytes \<Rightarrow>
     (let cs = take (unat ROM_28C256_SIZE) bytes in
      if cs = [] then None
      else Some (\<lambda>a. if unat a < length cs then cs ! unat a else 0xFF)))"

section \<open>Michael's decode\<close>

datatype glue_michael_ram = GLUE_MICHAEL_RAM_16K | GLUE_MICHAEL_RAM_EATER
  | GLUE_MICHAEL_RAM_FULL | GLUE_MICHAEL_RAM_MIRROR8K

definition glue_michael_ram_by_name :: "string \<Rightarrow> glue_michael_ram option" where
  "glue_michael_ram_by_name name =
     map_of [(''16k'', GLUE_MICHAEL_RAM_16K), (''eater'', GLUE_MICHAEL_RAM_EATER),
       (''full'', GLUE_MICHAEL_RAM_FULL), (''mirror8k'', GLUE_MICHAEL_RAM_MIRROR8K)] name"

text \<open>The lines set, and the address the selected chips see.\<close>

definition glue_michael_decode ::
  "glue_michael_ram \<Rightarrow> 'a bus_scheme \<Rightarrow> u16 \<times> 'a bus_scheme" where
  "glue_michael_decode ram_decode b =
     (let a = bus_addr b;
          b = b\<lparr>bus_romcs := a AND 0x8000 \<noteq> 0, bus_viacs := a AND 0xE000 = 0x6000, r_bits := 0\<rparr>
      in case ram_decode of
           GLUE_MICHAEL_RAM_16K \<Rightarrow> (a, b\<lparr>bus_ramcs := a < 0x4000\<rparr>)
         | GLUE_MICHAEL_RAM_EATER \<Rightarrow>
             (a, b\<lparr>bus_ramcs := if bus_rwb b then a < 0x4000 else a < 0x8000\<rparr>)
         | GLUE_MICHAEL_RAM_FULL \<Rightarrow>
             (a, b\<lparr>bus_ramcs := a < 0x6000, r_bits := to8 (drop_bit 14 a AND 1)\<rparr>)
         | GLUE_MICHAEL_RAM_MIRROR8K \<Rightarrow>
             (let b = b\<lparr>bus_ramcs := a < 0x6000\<rparr>
              in (if bus_ramcs b then a AND 0x1FFF else a, b)))"

definition glue_michael_tick :: "glue_michael_ram \<Rightarrow> 'a bus_scheme \<Rightarrow> 'a bus_scheme" where
  "glue_michael_tick ram_decode b =
     (snd (glue_michael_decode ram_decode b))\<lparr>cpu_cycle_due := True\<rparr>"

section \<open>The physical address\<close>

lemma nibble_u8: "(0x0F :: u8) = mask 4" and low14_u16: "(0x3FFF :: u16) = mask 14"
  by (simp_all add: mask_eq_exp_minus_1)

lemma bit_physical_addr:
  "bit (physical_addr b addr) n \<longleftrightarrow>
     (if n < 14 then bit addr n else if n = 14 then bit addr 15
      else n < 19 \<and> bit (r_bits b) (n - 15))"
proof -
  have one: "bit (ucast (drop_bit 15 addr AND 1) :: u32) k \<longleftrightarrow> k = 0 \<and> bit addr 15" for k
    by (auto simp: bit_simps)
  have lo: "bit (ucast (addr AND mask 14) :: u32) n \<longleftrightarrow> n < 14 \<and> bit addr n"
    by (auto simp: bit_simps)
  have hi: "bit (ucast (r_bits b AND mask 4) :: u32) k \<longleftrightarrow> k < 4 \<and> bit (r_bits b) k" for k
    by (auto simp: bit_simps)
  show ?thesis
    unfolding physical_addr_def nibble_u8 low14_u16 bit_or_iff bit_push_bit_iff one lo hi
    by auto
qed

lemma physical_addr_bound: "physical_addr b addr < word_of_nat RAM_628128_SIZE"
proof -
  have "physical_addr b addr = take_bit 19 (physical_addr b addr)"
    by (rule bit_word_eqI) (auto simp: bit_simps bit_physical_addr)
  then have "unat (physical_addr b addr) = take_bit 19 (unat (physical_addr b addr))"
    by (metis unsigned_take_bit_eq)
  then have "unat (physical_addr b addr) < 2 ^ 19" by (metis take_bit_nat_less_exp)
  then show ?thesis by (simp add: word_less_nat_alt)
qed

text \<open>Two accesses meet in the RAM exactly when bank, CPU A15 and A13..A0 agree.\<close>

lemma physical_addr_eq:
  "physical_addr b a = physical_addr b' a' \<longleftrightarrow>
     take_bit 14 a = take_bit 14 a' \<and> bit a 15 = bit a' 15 \<and>
     take_bit 4 (r_bits b) = take_bit 4 (r_bits b')"
proof
  assume e: "physical_addr b a = physical_addr b' a'"
  then have p: "bit (physical_addr b a) n = bit (physical_addr b' a') n" for n by simp
  have "bit a n = bit a' n" if "n < 14" for n
    using p[of n] that by (simp add: bit_physical_addr)
  moreover have "bit a 15 = bit a' 15" using p[of 14] by (simp add: bit_physical_addr)
  moreover have "bit (r_bits b) n = bit (r_bits b') n" if "n < 4" for n
    using p[of "n + 15"] that by (simp add: bit_physical_addr)
  ultimately show "take_bit 14 a = take_bit 14 a' \<and> bit a 15 = bit a' 15 \<and>
     take_bit 4 (r_bits b) = take_bit 4 (r_bits b')"
    by (auto intro!: bit_word_eqI simp: bit_take_bit_iff)
next
  assume h: "take_bit 14 a = take_bit 14 a' \<and> bit a 15 = bit a' 15 \<and>
     take_bit 4 (r_bits b) = take_bit 4 (r_bits b')"
  have "bit a n = bit a' n" if "n < 14" for n
    using h that by (metis bit_take_bit_iff)
  moreover have "bit (r_bits b) n = bit (r_bits b') n" if "n < 4" for n
    using h that by (metis bit_take_bit_iff)
  ultimately show "physical_addr b a = physical_addr b' a'"
    using h by (intro bit_word_eqI) (auto simp: bit_physical_addr)
qed

text \<open>
  The RAM's physical address of an access is within the chip, and two accesses
  reach the same byte exactly when they agree in the bank lines, in A15 and in A13..A0: A14 is
  not connected.
\<close>

theorem ram_addressing:
  "unat (physical_addr b a) < RAM_628128_SIZE \<and>
   (physical_addr b a = physical_addr b' a' \<longleftrightarrow>
     take_bit 14 a = take_bit 14 a' \<and> bit a 15 = bit a' 15 \<and>
     take_bit 4 (r_bits b) = take_bit 4 (r_bits b'))"
  using physical_addr_bound[of b a] physical_addr_eq by (simp add: word_less_nat_alt)

section \<open>Michael's map\<close>

text \<open>The address ranges of the decode, as bounds.\<close>

lemma top_bit_u16: "bit a 15 \<longleftrightarrow> 0x8000 \<le> a" for a :: u16
proof -
  have b: "unat a < 65536" by (rule unat_u16_less)
  have "bit a 15 \<longleftrightarrow> odd (unat a div 32768)"
    using bit_iff_odd[of "unat a" 15] by (simp add: bit_unsigned_iff)
  also have "\<dots> \<longleftrightarrow> 32768 \<le> unat a"
  proof (cases "32768 \<le> unat a")
    case True
    then have "unat a div 32768 = 1" using b by (intro div_nat_eqI) simp_all
    then show ?thesis using True by simp
  qed simp
  finally show ?thesis by (simp add: word_le_nat_alt)
qed

lemma decode_rom: "a AND 0x8000 \<noteq> 0 \<longleftrightarrow> 0x8000 \<le> a" for a :: u16
  using and_bit_zero_iff[of 15 a] by (simp add: top_bit_u16)

lemma decode_via: "a AND 0xE000 = 0x6000 \<longleftrightarrow> 0x6000 \<le> a \<and> a < 0x8000" for a :: u16
proof -
  have m: "a AND push_bit 13 (mask 3) = push_bit 13 (drop_bit 13 a)"
    by (rule bit_word_eqI) (auto simp: bit_simps)
  have d: "unat (drop_bit 13 a) = unat a div 8192"
    by (simp add: drop_bit_eq_div unat_div)
  have "push_bit 13 (drop_bit 13 a) = push_bit 13 3 \<longleftrightarrow> drop_bit 13 a = 3"
  proof
    assume e: "push_bit 13 (drop_bit 13 a) = push_bit 13 3"
    have "drop_bit 13 a = drop_bit 13 (push_bit 13 (drop_bit 13 a))"
      by (rule bit_word_eqI) (use bit_imp_le_length[of a] in \<open>force simp: bit_simps\<close>)
    also have "\<dots> = drop_bit 13 (push_bit 13 3)" by (simp only: e)
    finally show "drop_bit 13 a = 3" by simp
  qed simp
  also have "\<dots> \<longleftrightarrow> unat a div 8192 = 3"
    by (simp add: d[symmetric] word_unat_eq_iff)
  also have "\<dots> \<longleftrightarrow> 0x6000 \<le> a \<and> a < 0x8000"
  proof -
    have "unat a div 8192 = 3 \<longleftrightarrow> 24576 \<le> unat a \<and> unat a < 32768" by auto
    then show ?thesis by (simp add: word_le_nat_alt word_less_nat_alt)
  qed
  finally show ?thesis using m by (simp add: mask_eq_exp_minus_1)
qed

text \<open>
  Michael's decode never selects two chips for a read, and for a write only in
  Ben Eater's variant, where the VIA's window is also written to RAM. ROM is the upper half,
  the VIA is $6000..$7FFF, and reads find RAM below $4000 in every variant (below $6000 in
  full and mirror8k).
\<close>

theorem michael_map:
  fixes b :: "'a bus_scheme"
  defines "a \<equiv> bus_addr b" and "t v \<equiv> snd (glue_michael_decode v b)"
  shows "(bus_romcs (t v) \<longleftrightarrow> 0x8000 \<le> a) \<and> (bus_viacs (t v) \<longleftrightarrow> 0x6000 \<le> a \<and> a < 0x8000) \<and>
    (bus_ramcs (t v) \<longleftrightarrow> a <
      (if v = GLUE_MICHAEL_RAM_16K then 0x4000
       else if v = GLUE_MICHAEL_RAM_EATER then if bus_rwb b then 0x4000 else 0x8000
       else 0x6000)) \<and>
    \<not> (bus_romcs (t v) \<and> (bus_ramcs (t v) \<or> bus_viacs (t v))) \<and>
    \<not> (bus_ramcs (t v) \<and> bus_viacs (t v) \<and> \<not> (v = GLUE_MICHAEL_RAM_EATER \<and> \<not> bus_rwb b))"
proof -
  have l: "a < 0x4000 \<Longrightarrow> a < 0x6000" "a < 0x6000 \<Longrightarrow> a < 0x8000"
    by (simp_all add: word_less_nat_alt)
  show ?thesis
    using l by (cases v) (auto simp: t_def a_def glue_michael_decode_def Let_def decode_rom decode_via not_le)
qed

end
