(* ===== verification/Via_6522.thy ===== *)
theory Via_6522 imports Bus begin

text \<open>
  The 6522 VIA of \<open>src/emulator/chips/via_6522.c\<close>: registers, timers, the shift register
  and the interrupt bookkeeping. The external drive of port B (a callback in the C code) is
  an argument of the read: the byte it would give, or None when nothing is installed.
\<close>

section \<open>State\<close>

record via_6522_state =
  orb :: u8
  ora :: u8
  ddrb :: u8
  ddra :: u8
  t1c :: u16
  t1l :: u16
  t2c :: u16
  t2l_lo :: u8
  via_sr :: u8
  via_acr :: u8
  via_pcr :: u8
  via_ifr :: u8
  via_ier :: u8
  pb7 :: bool
  t1_running :: bool
  t2_running :: bool
  t1_loaded :: bool
  t2_loaded :: bool
  t1_reload :: bool
  t1_armed :: bool
  t2_armed :: bool
  sr_bits_remaining :: u8
  sr_shift_total :: u32
  cb2_in :: bool
  prev_cb2 :: bool
  ca2_in :: bool
  via_prev_res :: bool
  porta_input :: u8

definition via_6522_init :: via_6522_state where
  "via_6522_init = \<lparr>orb = 0, ora = 0, ddrb = 0, ddra = 0, t1c = 0, t1l = 0, t2c = 0, t2l_lo = 0,
     via_sr = 0, via_acr = 0, via_pcr = 0, via_ifr = 0, via_ier = 0, pb7 = False,
     t1_running = False, t2_running = False, t1_loaded = False, t2_loaded = False,
     t1_reload = False, t1_armed = False, t2_armed = False, sr_bits_remaining = 0,
     sr_shift_total = 0, cb2_in = False, prev_cb2 = False, ca2_in = False, via_prev_res = False,
     porta_input = 0\<rparr>"

abbreviation (input) VIA_INT_CA2 :: u8 where "VIA_INT_CA2 \<equiv> 0x01"
abbreviation (input) VIA_INT_SR :: u8 where "VIA_INT_SR \<equiv> 0x04"
abbreviation (input) VIA_INT_CB2 :: u8 where "VIA_INT_CB2 \<equiv> 0x08"
abbreviation (input) VIA_INT_T2 :: u8 where "VIA_INT_T2 \<equiv> 0x20"
abbreviation (input) VIA_INT_T1 :: u8 where "VIA_INT_T1 \<equiv> 0x40"
abbreviation (input) VIA_ACR_T1_CONT :: u8 where "VIA_ACR_T1_CONT \<equiv> 0x40"
abbreviation (input) VIA_ACR_T1_OUT :: u8 where "VIA_ACR_T1_OUT \<equiv> 0x80"
abbreviation (input) VIA_ACR_SR_MODE :: u8 where "VIA_ACR_SR_MODE \<equiv> 0x1C"
abbreviation (input) VIA_ACR_SR_IN_T2 :: u8 where "VIA_ACR_SR_IN_T2 \<equiv> 0x04"
abbreviation (input) VIA_PCR_CB2_MASK :: u8 where "VIA_PCR_CB2_MASK \<equiv> 0xE0"
abbreviation (input) VIA_PCR_CB2_IND_NEG_E :: u8 where "VIA_PCR_CB2_IND_NEG_E \<equiv> 0x20"
abbreviation (input) VIA_PCR_CA2_MASK :: u8 where "VIA_PCR_CA2_MASK \<equiv> 0x0E"
abbreviation (input) VIA_PCR_CA2_POS_E :: u8 where "VIA_PCR_CA2_POS_E \<equiv> 0x04"

section \<open>Interrupts and pins\<close>

type_synonym 'a via_bus = "via_6522_state \<times> 'a bus_scheme"

definition update_bank_config :: "'a via_bus \<Rightarrow> 'a via_bus" where
  "update_bank_config = (\<lambda>(s, b). (s, b\<lparr>bank_config := (orb s AND ddrb s) AND 0x1F\<rparr>))"

definition update_irq :: "'a via_bus \<Rightarrow> 'a via_bus" where
  "update_irq = (\<lambda>(s, b).
     let pending = via_ifr s AND via_ier s AND 0x7F
     in (s\<lparr>via_ifr := if pending \<noteq> 0 then via_ifr s OR 0x80 else via_ifr s AND 0x7F\<rparr>,
         b\<lparr>bus_irq := pending \<noteq> 0\<rparr>))"

definition via_set_ifr :: "u8 \<Rightarrow> 'a via_bus \<Rightarrow> 'a via_bus" where
  "via_set_ifr m = (\<lambda>(s, b). update_irq (s\<lparr>via_ifr := via_ifr s OR m\<rparr>, b))"

definition via_clear_ifr :: "u8 \<Rightarrow> 'a via_bus \<Rightarrow> 'a via_bus" where
  "via_clear_ifr m = (\<lambda>(s, b). update_irq (s\<lparr>via_ifr := via_ifr s AND NOT m\<rparr>, b))"

definition portb_pin_value :: "u8 option \<Rightarrow> via_6522_state \<Rightarrow> u8" where
  "portb_pin_value drive s =
     (let v = orb s AND ddrb s;
          v = (case drive of Some d \<Rightarrow> v OR (d AND NOT (ddrb s)) | None \<Rightarrow> v)
      in if via_acr s AND VIA_ACR_T1_OUT \<noteq> 0
         then (v AND 0x7F) OR (if pb7 s then 0x80 else 0) else v)"

definition porta_pin_value :: "via_6522_state \<Rightarrow> u8" where
  "porta_pin_value s = (ora s AND ddra s) OR (porta_input s AND NOT (ddra s))"

definition ora_access :: "'a via_bus \<Rightarrow> 'a via_bus" where
  "ora_access = (\<lambda>(s, b). if via_pcr s AND 0x0A = 0 then via_clear_ifr VIA_INT_CA2 (s, b) else (s, b))"

section \<open>Register accesses\<close>

text \<open>The byte read and the state after; the low four address bits pick the register.\<close>

definition via_read_reg :: "u8 option \<Rightarrow> u16 \<Rightarrow> 'a via_bus \<Rightarrow> u8 \<times> 'a via_bus" where
  "via_read_reg drive reg = (\<lambda>(s, b).
     if reg = 0x0 then (portb_pin_value drive s, (s, b))
     else if reg = 0x1 then
       (let (s, b) = ora_access (s, b) in (porta_pin_value s, (s, b)))
     else if reg = 0xF then (porta_pin_value s, (s, b))
     else if reg = 0x2 then (ddrb s, (s, b))
     else if reg = 0x3 then (ddra s, (s, b))
     else if reg = 0x4 then (to8 (t1c s AND 0xFF), via_clear_ifr VIA_INT_T1 (s, b))
     else if reg = 0x5 then (to8 (drop_bit 8 (t1c s) AND 0xFF), (s, b))
     else if reg = 0x6 then (to8 (t1l s AND 0xFF), (s, b))
     else if reg = 0x7 then (to8 (drop_bit 8 (t1l s) AND 0xFF), (s, b))
     else if reg = 0x8 then (to8 (t2c s AND 0xFF), via_clear_ifr VIA_INT_T2 (s, b))
     else if reg = 0x9 then (to8 (drop_bit 8 (t2c s) AND 0xFF), (s, b))
     else if reg = 0xA then
       (let v = via_sr s; (s, b) = via_clear_ifr VIA_INT_SR (s, b)
        in (v, (if via_acr s AND VIA_ACR_SR_MODE = VIA_ACR_SR_IN_T2
                then s\<lparr>sr_bits_remaining := 8\<rparr> else s, b)))
     else if reg = 0xB then (via_acr s, (s, b))
     else if reg = 0xC then (via_pcr s, (s, b))
     else if reg = 0xD then (via_ifr s, (s, b))
     else (via_ier s OR 0x80, (s, b)))"

definition via_6522_read ::
  "u8 option \<Rightarrow> u16 \<Rightarrow> 'a via_bus \<Rightarrow> u8 option \<times> 'a via_bus" where
  "via_6522_read drive addr v =
     (if \<not> bus_viacs (snd v) then (None, v)
      else let (x, v) = via_read_reg drive (addr AND 0xF) v in (Some x, v))"

definition via_write_reg :: "u16 \<Rightarrow> u8 \<Rightarrow> 'a via_bus \<Rightarrow> 'a via_bus" where
  "via_write_reg reg d = (\<lambda>(s, b).
     if reg = 0x0 then update_bank_config (s\<lparr>orb := d\<rparr>, b)
     else if reg = 0x1 then (let (s, b) = ora_access (s, b) in (s\<lparr>ora := d\<rparr>, b))
     else if reg = 0xF then (s\<lparr>ora := d\<rparr>, b)
     else if reg = 0x2 then update_bank_config (s\<lparr>ddrb := d\<rparr>, b)
     else if reg = 0x3 then (s\<lparr>ddra := d\<rparr>, b)
     else if reg = 0x4 \<or> reg = 0x6 then (s\<lparr>t1l := (t1l s AND 0xFF00) OR to16 d\<rparr>, b)
     else if reg = 0x5 then
       (let s = s\<lparr>t1l := (t1l s AND 0x00FF) OR push_bit 8 (to16 d)\<rparr>;
            s = s\<lparr>t1c := t1l s, t1_running := True, t1_loaded := True, t1_armed := True,
                  t1_reload := False\<rparr>;
            (s, b) = via_clear_ifr VIA_INT_T1 (s, b)
        in (if via_acr s AND VIA_ACR_T1_OUT \<noteq> 0 then s\<lparr>pb7 := False\<rparr> else s, b))
     else if reg = 0x7 then
       via_clear_ifr VIA_INT_T1 (s\<lparr>t1l := (t1l s AND 0x00FF) OR push_bit 8 (to16 d)\<rparr>, b)
     else if reg = 0x8 then (s\<lparr>t2l_lo := d\<rparr>, b)
     else if reg = 0x9 then
       via_clear_ifr VIA_INT_T2
         (s\<lparr>t2c := to16 (t2l_lo s) OR push_bit 8 (to16 d), t2_running := True,
            t2_loaded := True, t2_armed := True\<rparr>, b)
     else if reg = 0xA then via_clear_ifr VIA_INT_SR (s\<lparr>via_sr := d\<rparr>, b)
     else if reg = 0xB then (s\<lparr>via_acr := d\<rparr>, b)
     else if reg = 0xC then (s\<lparr>via_pcr := d\<rparr>, b)
     else if reg = 0xD then update_irq (s\<lparr>via_ifr := via_ifr s AND NOT (d AND 0x7F)\<rparr>, b)
     else update_irq (s\<lparr>via_ier := if d AND 0x80 \<noteq> 0 then via_ier s OR (d AND 0x7F)
                                   else via_ier s AND NOT (d AND 0x7F)\<rparr>, b))"

definition via_6522_write :: "u16 \<Rightarrow> u8 \<Rightarrow> 'a via_bus \<Rightarrow> bool \<times> 'a via_bus" where
  "via_6522_write addr d v =
     (if \<not> bus_viacs (snd v) then (False, v) else (True, via_write_reg (addr AND 0xF) d v))"

section \<open>Reset and tick\<close>

definition via_6522_apply_reset :: "via_6522_state \<Rightarrow> via_6522_state" where
  "via_6522_apply_reset s = via_6522_init\<lparr>porta_input := porta_input s, cb2_in := cb2_in s,
     ca2_in := ca2_in s\<rparr>"

definition t1_cycle :: "'a via_bus \<Rightarrow> 'a via_bus" where
  "t1_cycle = (\<lambda>(s, b).
     if \<not> t1_running s then (s, b)
     else if t1_loaded s then (s\<lparr>t1_loaded := False\<rparr>, b)
     else if t1_reload s then (s\<lparr>t1c := t1l s, t1_reload := False\<rparr>, b)
     else if t1c s = 0 then
       (let s = s\<lparr>t1c := 0xFFFF, t1_reload := True\<rparr> in
        if via_acr s AND VIA_ACR_T1_CONT \<noteq> 0 then
          (let (s, b) = via_set_ifr VIA_INT_T1 (s, b)
           in (if via_acr s AND VIA_ACR_T1_OUT \<noteq> 0 then s\<lparr>pb7 := \<not> pb7 s\<rparr> else s, b))
        else if t1_armed s then
          (let (s, b) = via_set_ifr VIA_INT_T1 (s\<lparr>t1_armed := False\<rparr>, b)
           in (if via_acr s AND VIA_ACR_T1_OUT \<noteq> 0 then s\<lparr>pb7 := True\<rparr> else s, b))
        else (s, b))
     else (s\<lparr>t1c := t1c s - 1\<rparr>, b))"

definition shift_in :: "'a via_bus \<Rightarrow> 'a via_bus" where
  "shift_in = (\<lambda>(s, b).
     if sr_bits_remaining s > 0 then
       (let s = s\<lparr>via_sr := push_bit 1 (via_sr s) OR of_bool (cb2_in s),
                  sr_bits_remaining := sr_bits_remaining s - 1,
                  sr_shift_total := sr_shift_total s + 1\<rparr>
        in if sr_bits_remaining s = 0 then via_set_ifr VIA_INT_SR (s, b) else (s, b))
     else (s, b))"

definition t2_cycle :: "'a via_bus \<Rightarrow> 'a via_bus" where
  "t2_cycle = (\<lambda>(s, b).
     if \<not> t2_running s then (s, b)
     else if t2_loaded s then (s\<lparr>t2_loaded := False\<rparr>, b)
     else if via_acr s AND VIA_ACR_SR_MODE = VIA_ACR_SR_IN_T2 then
       (if t2c s = 0 then
          (let (s, b) = shift_in (via_set_ifr VIA_INT_T2 (s, b))
           in (s\<lparr>t2c := to16 (t2l_lo s)\<rparr>, b))
        else (s\<lparr>t2c := t2c s - 1\<rparr>, b))
     else
       (let (s, b) = (if t2c s = 0 \<and> t2_armed s
                      then via_set_ifr VIA_INT_T2 (s\<lparr>t2_armed := False\<rparr>, b) else (s, b))
        in (s\<lparr>t2c := t2c s - 1\<rparr>, b)))"

definition via_res_edge :: "'a via_bus \<Rightarrow> 'a via_bus" where
  "via_res_edge = (\<lambda>(s, b).
     let (s, b) = (if bus_res b \<and> \<not> via_prev_res s
                   then (via_6522_apply_reset s, b\<lparr>bank_config := 0, bus_irq := False\<rparr>) else (s, b))
     in (s\<lparr>via_prev_res := bus_res b\<rparr>, b))"

definition via_6522_tick :: "'a via_bus \<Rightarrow> 'a via_bus" where
  "via_6522_tick v =
     (let v = via_res_edge v
      in if \<not> cpu_cycle_due (snd v) then v else t2_cycle (t1_cycle v))"

text \<open>The chip's own \<open>reset\<close> has no bus to drive.\<close>

definition via_6522_reset :: "via_6522_state \<Rightarrow> via_6522_state" where
  "via_6522_reset s = via_6522_apply_reset s"

section \<open>Inputs from other chips\<close>

definition via_6522_set_cb2 :: "bool \<Rightarrow> 'a via_bus \<Rightarrow> 'a via_bus" where
  "via_6522_set_cb2 level = (\<lambda>(s, b).
     let prev = cb2_in s; s = s\<lparr>cb2_in := level\<rparr>;
         cb2_mode = via_pcr s AND VIA_PCR_CB2_MASK
     in if (cb2_mode = VIA_PCR_CB2_IND_NEG_E \<or> via_pcr s AND 0xC0 = 0) \<and> prev \<and> \<not> cb2_in s
        then via_set_ifr VIA_INT_CB2 (s, b) else (s, b))"

definition via_6522_set_cb2_quiet :: "bool \<Rightarrow> via_6522_state \<Rightarrow> via_6522_state" where
  "via_6522_set_cb2_quiet level s = s\<lparr>cb2_in := level\<rparr>"

definition via_6522_set_ca2 :: "bool \<Rightarrow> 'a via_bus \<Rightarrow> 'a via_bus" where
  "via_6522_set_ca2 level = (\<lambda>(s, b).
     let prev = ca2_in s; s = s\<lparr>ca2_in := level\<rparr>;
         mode = via_pcr s AND VIA_PCR_CA2_MASK
     in if mode AND 0x08 \<noteq> 0 then (s, b)
        else if (if mode AND VIA_PCR_CA2_POS_E \<noteq> 0 then \<not> prev \<and> ca2_in s else prev \<and> \<not> ca2_in s)
        then via_set_ifr VIA_INT_CA2 (s, b) else (s, b))"

definition via_6522_set_porta_input_bit :: "u8 \<Rightarrow> bool \<Rightarrow> via_6522_state \<Rightarrow> via_6522_state" where
  "via_6522_set_porta_input_bit bit_mask level s =
     s\<lparr>porta_input := if level then porta_input s OR bit_mask else porta_input s AND NOT bit_mask\<rparr>"

end
