(* ===== verification/Via_Timing.thy ===== *)
theory Via_Timing imports Via_6522 begin

text \<open>
  Properties of the VIA: its interrupt line always agrees with IFR and IER, timer 1 and
  timer 2 time out after the cycles the datasheet gives, and eight shifts bring in a byte.
\<close>

section \<open>The interrupt line\<close>

definition via_ok :: "'a via_bus \<Rightarrow> bool" where
  "via_ok = (\<lambda>(s, b).
     bit (via_ifr s) 7 = (via_ifr s AND via_ier s AND 0x7F \<noteq> 0) \<and>
     bus_irq b = (via_ifr s AND via_ier s AND 0x7F \<noteq> 0) \<and>
     bank_config b = (orb s AND ddrb s) AND 0x1F)"

lemma update_irq_pending:
  "(p OR 0x80) AND e AND 0x7F = p AND e AND 0x7F" "(p AND 0x7F) AND e AND 0x7F = p AND e AND 0x7F"
  "bit (p OR 0x80) 7" "\<not> bit (p AND 0x7F) 7" for p e :: u8
   by ((rule bit_word_eqI; auto simp: bit_lits)+) (simp_all add: bit_lits)

lemma update_irq_ok:
  "bank_config b = (orb s AND ddrb s) AND 0x1F \<Longrightarrow> via_ok (update_irq (s, b))"
  by (simp add: via_ok_def update_irq_def Let_def update_irq_pending)

lemma via_ok_bank: "via_ok (s, b) \<Longrightarrow> bank_config b = (orb s AND ddrb s) AND 0x1F"
  by (simp add: via_ok_def)

text \<open>The fields the line does not depend on.\<close>

lemma via_ok_update [simp]:
  "via_ok (s\<lparr>ora := x_ora\<rparr>, b) = via_ok (s, b)"
  "via_ok (s\<lparr>ddra := x_ddra\<rparr>, b) = via_ok (s, b)"
  "via_ok (s\<lparr>t1c := x_t1c\<rparr>, b) = via_ok (s, b)"
  "via_ok (s\<lparr>t1l := x_t1l\<rparr>, b) = via_ok (s, b)"
  "via_ok (s\<lparr>t2c := x_t2c\<rparr>, b) = via_ok (s, b)"
  "via_ok (s\<lparr>t2l_lo := x_t2l_lo\<rparr>, b) = via_ok (s, b)"
  "via_ok (s\<lparr>via_sr := x_via_sr\<rparr>, b) = via_ok (s, b)"
  "via_ok (s\<lparr>via_acr := x_via_acr\<rparr>, b) = via_ok (s, b)"
  "via_ok (s\<lparr>via_pcr := x_via_pcr\<rparr>, b) = via_ok (s, b)"
  "via_ok (s\<lparr>pb7 := x_pb7\<rparr>, b) = via_ok (s, b)"
  "via_ok (s\<lparr>t1_running := x_t1_running\<rparr>, b) = via_ok (s, b)"
  "via_ok (s\<lparr>t2_running := x_t2_running\<rparr>, b) = via_ok (s, b)"
  "via_ok (s\<lparr>t1_loaded := x_t1_loaded\<rparr>, b) = via_ok (s, b)"
  "via_ok (s\<lparr>t2_loaded := x_t2_loaded\<rparr>, b) = via_ok (s, b)"
  "via_ok (s\<lparr>t1_reload := x_t1_reload\<rparr>, b) = via_ok (s, b)"
  "via_ok (s\<lparr>t1_armed := x_t1_armed\<rparr>, b) = via_ok (s, b)"
  "via_ok (s\<lparr>t2_armed := x_t2_armed\<rparr>, b) = via_ok (s, b)"
  "via_ok (s\<lparr>sr_bits_remaining := x_sr_bits_remaining\<rparr>, b) = via_ok (s, b)"
  "via_ok (s\<lparr>sr_shift_total := x_sr_shift_total\<rparr>, b) = via_ok (s, b)"
  "via_ok (s\<lparr>cb2_in := x_cb2_in\<rparr>, b) = via_ok (s, b)"
  "via_ok (s\<lparr>prev_cb2 := x_prev_cb2\<rparr>, b) = via_ok (s, b)"
  "via_ok (s\<lparr>ca2_in := x_ca2_in\<rparr>, b) = via_ok (s, b)"
  "via_ok (s\<lparr>via_prev_res := x_via_prev_res\<rparr>, b) = via_ok (s, b)"
  "via_ok (s\<lparr>porta_input := x_porta_input\<rparr>, b) = via_ok (s, b)"
  by (simp_all add: via_ok_def)

lemma set_clear_ifr_ok:
  "via_ok (s, b) \<Longrightarrow> via_ok (via_set_ifr m (s, b))"
  "via_ok (s, b) \<Longrightarrow> via_ok (via_clear_ifr m (s, b))"
  by (simp_all add: via_set_ifr_def via_clear_ifr_def update_irq_ok via_ok_bank)


lemma pair_ok: "P (f v) \<Longrightarrow> f v = (s, b) \<Longrightarrow> P (s, b)"
  by simp

lemma read_reg_ok: "via_ok v \<Longrightarrow> via_ok (snd (via_read_reg d reg v))"
  using set_clear_ifr_ok(2)[of "fst v" "snd v"]
  by (cases v) (auto simp: via_read_reg_def ora_access_def Let_def split_beta)

lemma write_reg_ok: "via_ok v \<Longrightarrow> via_ok (via_write_reg reg d v)"
proof -
  assume ok: "via_ok v"
  obtain s b where v: "v = (s, b)" by (cases v)
  have bank: "via_ok (update_bank_config (s\<lparr>orb := d\<rparr>, b))" "via_ok (update_bank_config (s\<lparr>ddrb := d\<rparr>, b))"
    using ok by (simp_all add: v update_bank_config_def via_ok_def)
  have irq: "via_ok (update_irq (s\<lparr>via_ifr := x\<rparr>, b))" "via_ok (update_irq (s\<lparr>via_ier := x\<rparr>, b))" for x
    using ok by (simp_all add: v update_irq_ok via_ok_bank)
  have clear: "via_ok (via_clear_ifr m (t, b))" if "via_ok (t, b)" for m t
    using that by (rule set_clear_ifr_ok)
  show ?thesis
    using ok bank irq clear[of s] unfolding v
    by (simp add: via_write_reg_def ora_access_def Let_def split_beta clear)
qed

lemma t1_cycle_ok: "via_ok v \<Longrightarrow> via_ok (t1_cycle v)"
  by (cases v) (simp add: t1_cycle_def Let_def split_beta set_clear_ifr_ok(1))

lemma shift_in_ok: "via_ok v \<Longrightarrow> via_ok (shift_in v)"
  by (cases v) (simp add: shift_in_def Let_def set_clear_ifr_ok)

lemma t2_cycle_ok: "via_ok v \<Longrightarrow> via_ok (t2_cycle v)"
  by (cases v) (simp add: t2_cycle_def Let_def split_beta set_clear_ifr_ok(1) shift_in_ok)

lemma res_edge_ok: "via_ok v \<Longrightarrow> via_ok (via_res_edge v)"
  by (cases v) (simp add: via_res_edge_def via_ok_def via_6522_apply_reset_def via_6522_init_def Let_def)

lemma tick_ok: "via_ok v \<Longrightarrow> via_ok (via_6522_tick v)"
  by (simp add: via_6522_tick_def Let_def res_edge_ok t1_cycle_ok t2_cycle_ok)

lemma inputs_ok:
  "via_ok (s, b) \<Longrightarrow> via_ok (via_6522_set_cb2 l (s, b))"
  "via_ok (s, b) \<Longrightarrow> via_ok (via_6522_set_ca2 l (s, b))"
  "via_ok (s, b) \<Longrightarrow> via_ok (via_6522_set_cb2_quiet l s, b)"
  "via_ok (s, b) \<Longrightarrow> via_ok (via_6522_set_porta_input_bit m l s, b)"
  by (simp_all add: via_6522_set_cb2_def via_6522_set_ca2_def via_6522_set_cb2_quiet_def
      via_6522_set_porta_input_bit_def Let_def set_clear_ifr_ok)

text \<open>Everything that happens to the VIA, as steps on the chip and its bus lines.\<close>

inductive via_step :: "'a via_bus \<Rightarrow> 'a via_bus \<Rightarrow> bool" where
  via_reads: "via_step v (snd (via_6522_read d addr v))"
| via_writes: "via_step v (snd (via_6522_write addr x v))"
| via_ticks: "via_step v (via_6522_tick v)"
| via_cb2: "via_step v (via_6522_set_cb2 l v)"
| via_cb2_quiet: "via_step (s, b) (via_6522_set_cb2_quiet l s, b)"
| via_ca2: "via_step v (via_6522_set_ca2 l v)"
| via_porta: "via_step (s, b) (via_6522_set_porta_input_bit m l s, b)"
| via_lines: "bus_irq b' = bus_irq b \<Longrightarrow> bank_config b' = bank_config b \<Longrightarrow> via_step (s, b) (s, b')"

lemma step_ok: "via_step v w \<Longrightarrow> via_ok v \<Longrightarrow> via_ok w"
proof (induction rule: via_step.induct)
  case (via_reads v d addr)
  then show ?case by (simp add: via_6522_read_def read_reg_ok split_beta Let_def)
next
  case (via_writes v addr x)
  then show ?case by (simp add: via_6522_write_def write_reg_ok)
next
  case (via_cb2 v l)
  then show ?case by (cases v) (simp add: inputs_ok)
next
  case (via_ca2 v l)
  then show ?case by (cases v) (simp add: inputs_ok)
next
  case (via_lines b' b s)
  then show ?case by (simp add: via_ok_def)
qed (simp_all add: tick_ok inputs_ok)

lemma steps_ok: "via_step\<^sup>*\<^sup>* v w \<Longrightarrow> via_ok v \<Longrightarrow> via_ok w"
  by (induction rule: rtranclp_induct) (auto intro: step_ok)

text \<open>
  Property C19: in every state the VIA reaches from reset, whatever accesses, ticks, pin
  changes and other bus activity lie between, IFR bit 7 and the bus's IRQ line are set exactly
  when an enabled interrupt is flagged, and the bank lines show the output bits of port B.
\<close>

theorem via_irq_invariant:
  assumes "via_step\<^sup>*\<^sup>* (via_6522_init, bus_init) (s, b)"
  shows "bit (via_ifr s) 7 = (via_ifr s AND via_ier s AND 0x7F \<noteq> 0) \<and>
    bus_irq b = (via_ifr s AND via_ier s AND 0x7F \<noteq> 0) \<and>
    bank_config b = (orb s AND ddrb s) AND 0x1F"
proof -
  have "via_ok (via_6522_init, bus_init)"
    by (simp add: via_ok_def via_6522_init_def bus_init_def)
  then have "via_ok (s, b)" by (rule steps_ok[OF assms])
  then show ?thesis by (simp add: via_ok_def)
qed

theorem via_irq_witness:
  "case snd (via_6522_write 0xE 0xC0 (via_6522_init, bus_init\<lparr>bus_viacs := True\<rparr>)) of (s, b) \<Rightarrow>
     bus_irq b = (via_ifr s AND via_ier s AND 0x7F \<noteq> 0)"
proof -
  have "via_step (via_6522_init, bus_init) (via_6522_init, bus_init\<lparr>bus_viacs := True\<rparr>)"
    by (rule via_lines) simp_all
  then have r: "via_step\<^sup>*\<^sup>* (via_6522_init, bus_init)
      (snd (via_6522_write 0xE 0xC0 (via_6522_init, bus_init\<lparr>bus_viacs := True\<rparr>)))"
    using via_writes by (meson converse_rtranclp_into_rtranclp r_into_rtranclp)
  obtain s b where w: "snd (via_6522_write 0xE 0xC0
      (via_6522_init, bus_init\<lparr>bus_viacs := True\<rparr>)) = (s, b)" by (rule prod.exhaust)
  show ?thesis using via_irq_invariant[OF r[unfolded w]] by (simp add: w)
qed

section \<open>The CPU cycles\<close>

text \<open>A tick with a cycle due and RES low.\<close>

definition counting :: "'a bus_scheme \<Rightarrow> bool" where
  "counting b \<longleftrightarrow> cpu_cycle_due b \<and> \<not> bus_res b"

lemma tick_counting:
  "counting b \<Longrightarrow> via_6522_tick (s, b) = t2_cycle (t1_cycle (s\<lparr>via_prev_res := False\<rparr>, b))"
  by (simp add: via_6522_tick_def via_res_edge_def counting_def Let_def)

lemma set_ifr_fields [simp]:
  "t1c (fst (via_set_ifr m v)) = t1c (fst v)" "t1l (fst (via_set_ifr m v)) = t1l (fst v)"
  "t1_running (fst (via_set_ifr m v)) = t1_running (fst v)"
  "t1_loaded (fst (via_set_ifr m v)) = t1_loaded (fst v)"
  "t1_reload (fst (via_set_ifr m v)) = t1_reload (fst v)"
  "t1_armed (fst (via_set_ifr m v)) = t1_armed (fst v)"
  "t2c (fst (via_set_ifr m v)) = t2c (fst v)" "t2l_lo (fst (via_set_ifr m v)) = t2l_lo (fst v)"
  "t2_running (fst (via_set_ifr m v)) = t2_running (fst v)"
  "t2_loaded (fst (via_set_ifr m v)) = t2_loaded (fst v)"
  "t2_armed (fst (via_set_ifr m v)) = t2_armed (fst v)"
  "via_acr (fst (via_set_ifr m v)) = via_acr (fst v)" "pb7 (fst (via_set_ifr m v)) = pb7 (fst v)"
  "via_sr (fst (via_set_ifr m v)) = via_sr (fst v)" "cb2_in (fst (via_set_ifr m v)) = cb2_in (fst v)"
  "sr_bits_remaining (fst (via_set_ifr m v)) = sr_bits_remaining (fst v)"
  "sr_shift_total (fst (via_set_ifr m v)) = sr_shift_total (fst v)"
  "counting (snd (via_set_ifr m v)) = counting (snd v)"
  by (simp_all add: via_set_ifr_def update_irq_def counting_def Let_def split_beta)

lemma set_ifr_bit [simp]:
  "n < 7 \<Longrightarrow> bit (via_ifr (fst (via_set_ifr m v))) n = (bit (via_ifr (fst v)) n \<or> bit m n)"
  by (auto simp: via_set_ifr_def update_irq_def Let_def split_beta bit_lits)

lemma shift_in_fields [simp]:
  "t1c (fst (shift_in v)) = t1c (fst v)" "t1l (fst (shift_in v)) = t1l (fst v)"
  "t1_running (fst (shift_in v)) = t1_running (fst v)"
  "t1_loaded (fst (shift_in v)) = t1_loaded (fst v)"
  "t1_reload (fst (shift_in v)) = t1_reload (fst v)"
  "t1_armed (fst (shift_in v)) = t1_armed (fst v)"
  "via_acr (fst (shift_in v)) = via_acr (fst v)" "pb7 (fst (shift_in v)) = pb7 (fst v)"
  "counting (snd (shift_in v)) = counting (snd v)"
  "bit (via_ifr (fst (shift_in v))) 6 = bit (via_ifr (fst v)) 6"
  by (simp_all add: shift_in_def split_beta Let_def bit_lits)

lemma t2_cycle_t1 [simp]:
  "t1c (fst (t2_cycle v)) = t1c (fst v)" "t1l (fst (t2_cycle v)) = t1l (fst v)"
  "t1_running (fst (t2_cycle v)) = t1_running (fst v)"
  "t1_loaded (fst (t2_cycle v)) = t1_loaded (fst v)"
  "t1_reload (fst (t2_cycle v)) = t1_reload (fst v)"
  "t1_armed (fst (t2_cycle v)) = t1_armed (fst v)"
  "via_acr (fst (t2_cycle v)) = via_acr (fst v)" "pb7 (fst (t2_cycle v)) = pb7 (fst v)"
  "counting (snd (t2_cycle v)) = counting (snd v)"
  "bit (via_ifr (fst (t2_cycle v))) 6 = bit (via_ifr (fst v)) 6"
  by (simp_all add: t2_cycle_def split_beta Let_def bit_lits)

lemma t1_cycle_t2 [simp]:
  "t2c (fst (t1_cycle v)) = t2c (fst v)" "t2l_lo (fst (t1_cycle v)) = t2l_lo (fst v)"
  "t2_running (fst (t1_cycle v)) = t2_running (fst v)"
  "t2_loaded (fst (t1_cycle v)) = t2_loaded (fst v)"
  "t2_armed (fst (t1_cycle v)) = t2_armed (fst v)"
  "via_acr (fst (t1_cycle v)) = via_acr (fst v)"
  "counting (snd (t1_cycle v)) = counting (snd v)"
  "bit (via_ifr (fst (t1_cycle v))) 5 = bit (via_ifr (fst v)) 5"
  by (simp_all add: t1_cycle_def split_beta Let_def bit_lits)

section \<open>Timer 1\<close>

text \<open>
  The timer \<open>k > 0\<close> cycles after a write of T1CH with the latch \<open>n\<close>: the counter goes
  through \<open>n, ..., 0, $FFFF\<close> with period \<open>n + 2\<close>.
\<close>

definition t1_at :: "u8 \<Rightarrow> u16 \<Rightarrow> nat \<Rightarrow> 'a via_bus \<Rightarrow> bool" where
  "t1_at acr n k = (\<lambda>(s, b). let j = (k - 1) mod (unat n + 2) in
     counting b \<and> via_acr s = acr \<and> t1_running s \<and> \<not> t1_loaded s \<and> t1l s = n \<and>
     t1c s = (if j \<le> unat n then n - word_of_nat j else 0xFFFF) \<and>
     (t1_reload s \<longleftrightarrow> j = unat n + 1) \<and>
     (bit (via_ifr s) 6 \<longleftrightarrow> unat n + 2 \<le> k) \<and>
     (\<not> bit acr 6 \<longrightarrow> (t1_armed s \<longleftrightarrow> k < unat n + 2)) \<and>
     (bit acr 7 \<longrightarrow> (pb7 s \<longleftrightarrow> (if bit acr 6 then odd (k div (unat n + 2)) else unat n + 2 \<le> k))))"

lemma u8_flag_ne: "(w AND 0x40 \<noteq> 0) = bit w 6" "(w AND 0x80 \<noteq> 0) = bit w 7" for w :: u8
  by (simp_all add: u8_flag_iff)

lemma t1_write:
  fixes s :: via_6522_state
  assumes "counting b"
  shows "case via_write_reg 0x5 d (s, b) of (s', b') \<Rightarrow>
    counting b' \<and> via_acr s' = via_acr s \<and> t1_running s' \<and> t1_loaded s' \<and> \<not> t1_reload s' \<and>
    t1_armed s' \<and> t1c s' = t1l s' \<and> t1l s' = (t1l s AND 0x00FF) OR push_bit 8 (to16 d) \<and>
    \<not> bit (via_ifr s') 6 \<and> (bit (via_acr s) 7 \<longrightarrow> \<not> pb7 s')"
  using assms
  by (simp add: via_write_reg_def via_clear_ifr_def update_irq_def Let_def u8_flag_ne counting_def
      split_beta bit_lits bit_not_iff)

lemma t1_start:
  assumes "counting b"
  shows "t1_at (via_acr s) ((t1l s AND 0x00FF) OR push_bit 8 (to16 d)) 1
    (via_6522_tick (via_write_reg 0x5 d (s, b)))"
proof -
  obtain s' b' where w: "via_write_reg 0x5 d (s, b) = (s', b')" by (rule prod.exhaust)
  note f = t1_write[OF assms, of s d, unfolded w prod.case]
  then show ?thesis
    unfolding w by (simp add: tick_counting t1_at_def split_beta t1_cycle_def Let_def)
qed

lemma count_zero: "m \<le> unat n \<Longrightarrow> n - word_of_nat m = 0 \<longleftrightarrow> m = unat n" for n :: u16
proof -
  assume "m \<le> unat n"
  then have m: "unat (word_of_nat m :: u16) = m"
    using unat_u16_less[of n] by (simp add: unat_of_nat)
  have "n - word_of_nat m = 0 \<longleftrightarrow> n = word_of_nat m" by (rule right_minus_eq)
  then show ?thesis using m by auto
qed

lemma t1_step:
  assumes "t1_at acr n k v" "0 < k"
  shows "t1_at acr n (Suc k) (via_6522_tick v)"
proof -
  obtain s b where v: "v = (s, b)" by (rule prod.exhaust)
  define j where "j = (k - 1) mod (unat n + 2)"
  have j: "j < unat n + 2" by (simp add: j_def)
  have k: "k mod (unat n + 2) = (if j = unat n + 1 then 0 else Suc j)"
    using assms(2) mod_Suc[of "k - 1" "unat n + 2"] by (simp add: j_def)
  have d: "Suc k div (unat n + 2) = (if j = unat n then Suc (k div (unat n + 2)) else k div (unat n + 2))"
    using div_Suc[of k "unat n + 2"] mod_Suc[of k "unat n + 2"] k j by auto
  have first: "j = unat n \<Longrightarrow> unat n + 2 \<le> Suc k"
    using k assms(2) mod_less[of k "unat n + 2"] by (cases "k < unat n + 2") auto
  have rest: "(unat n + 2 \<le> Suc k) = (unat n + 2 \<le> k)" if "j \<noteq> unat n"
    using that mod_less[of "k - 1" "unat n + 2"] by (cases "k = unat n + 1") (auto simp: j_def)
  have zero: "n - word_of_nat j = 0 \<longleftrightarrow> j = unat n" if "j \<le> unat n"
    using that by (rule count_zero)
  from assms(1) have a: "counting b" "via_acr s = acr" "t1_running s" "\<not> t1_loaded s" "t1l s = n"
    "t1c s = (if j \<le> unat n then n - word_of_nat j else 0xFFFF)" "t1_reload s \<longleftrightarrow> j = unat n + 1"
    "bit (via_ifr s) 6 \<longleftrightarrow> unat n + 2 \<le> k" "\<not> bit acr 6 \<Longrightarrow> (t1_armed s \<longleftrightarrow> k < unat n + 2)"
    "bit acr 7 \<Longrightarrow> (pb7 s \<longleftrightarrow> (if bit acr 6 then odd (k div (unat n + 2)) else unat n + 2 \<le> k))"
    by (simp_all add: v t1_at_def j_def Let_def)
  consider "j = unat n + 1" | "j = unat n" | "j < unat n" using j by linarith
  then show ?thesis
  proof cases
    case 1
    then have "(k < unat n + 2) = (Suc k < unat n + 2)" using rest by auto
    then show ?thesis using 1 a k d rest
      by (simp add: v tick_counting t1_at_def split_beta t1_cycle_def Let_def)
  next
    case 2
    then show ?thesis using a k d first zero
      by (simp add: v tick_counting t1_at_def split_beta t1_cycle_def Let_def u8_flag_ne bit_lits)
  next
    case 3
    then have "(k < unat n + 2) = (Suc k < unat n + 2)" using rest by auto
    then show ?thesis using 3 a k d rest zero
      by (simp add: v tick_counting t1_at_def split_beta t1_cycle_def Let_def)
  qed
qed
lemma t1_run:
  assumes "counting b"
  shows "t1_at (via_acr s) ((t1l s AND 0x00FF) OR push_bit 8 (to16 d)) (Suc k)
    ((via_6522_tick ^^ Suc k) (via_write_reg 0x5 d (s, b)))"
proof (induction k)
  case 0
  then show ?case using t1_start[OF assms] by simp
next
  case (Suc k)
  then show ?case using t1_step[OF Suc.IH] by simp
qed

text \<open>
  Property C20: writing T1CH starts timer 1 with the latch \<open>n\<close>. Over the following CPU
  cycles, with no other access, the counter takes the values \<open>n, n - 1, ..., 0, $FFFF\<close> again
  and again; the flag first shows \<open>n + 2\<close> cycles after the write. With PB7 enabled, PB7
  is a square wave of half-period \<open>n + 2\<close> in free-run mode and one low pulse of \<open>n + 2\<close> cycles
  in one-shot mode.
\<close>

theorem timer1_correct:
  fixes d :: u8 and s :: via_6522_state and b :: "'a bus_scheme"
  assumes "cpu_cycle_due b" "\<not> bus_res b" "0 < k"
  defines "n \<equiv> (t1l s AND 0x00FF) OR push_bit 8 (to16 d)"
    and "t \<equiv> fst ((via_6522_tick ^^ k) (via_write_reg 0x5 d (s, b)))"
    and "j \<equiv> (k - 1) mod (unat ((t1l s AND 0x00FF) OR push_bit 8 (to16 d)) + 2)"
  shows "t1c t = (if j \<le> unat n then n - word_of_nat j else 0xFFFF) \<and>
    (bit (via_ifr t) 6 \<longleftrightarrow> unat n + 2 \<le> k) \<and>
    (bit (via_acr s) 7 \<longrightarrow>
      (pb7 t \<longleftrightarrow> (if bit (via_acr s) 6 then odd (k div (unat n + 2)) else unat n + 2 \<le> k)))"
proof -
  obtain m where k: "k = Suc m" using assms(3) by (cases k) auto
  have "counting b" using assms(1,2) by (simp add: counting_def)
  from t1_run[OF this, of s d m] show ?thesis
    by (simp add: t1_at_def Let_def split_beta t_def n_def j_def k del: funpow.simps)
qed

theorem timer1_witness:
  "bit (via_ifr (fst ((via_6522_tick ^^ 5) (via_write_reg 0x5 0
     (via_6522_init\<lparr>t1l := 3\<rparr>, bus_init\<lparr>cpu_cycle_due := True\<rparr>))))) 6 \<and>
   \<not> bit (via_ifr (fst ((via_6522_tick ^^ 4) (via_write_reg 0x5 0
     (via_6522_init\<lparr>t1l := 3\<rparr>, bus_init\<lparr>cpu_cycle_due := True\<rparr>))))) 6"
  using timer1_correct[where b = "bus_init\<lparr>cpu_cycle_due := True\<rparr>" and k = 5 and
      s = "via_6522_init\<lparr>t1l := 3\<rparr>" and d = 0]
    timer1_correct[where b = "bus_init\<lparr>cpu_cycle_due := True\<rparr>" and k = 4 and
      s = "via_6522_init\<lparr>t1l := 3\<rparr>" and d = 0]
  by (simp add: bus_init_def del: funpow.simps)

section \<open>Timer 2\<close>

definition t2_at :: "u8 \<Rightarrow> u16 \<Rightarrow> nat \<Rightarrow> 'a via_bus \<Rightarrow> bool" where
  "t2_at acr n k = (\<lambda>(s, b).
     counting b \<and> via_acr s = acr \<and> t2_running s \<and> \<not> t2_loaded s \<and>
     t2c s = n - word_of_nat (k - 1) \<and> (t2_armed s \<longleftrightarrow> k < unat n + 2) \<and>
     (bit (via_ifr s) 5 \<longleftrightarrow> unat n + 2 \<le> k))"

lemma t2_write:
  assumes "counting b"
  shows "case via_write_reg 0x9 d (s, b) of (s', b') \<Rightarrow>
    counting b' \<and> via_acr s' = via_acr s \<and> t2_running s' \<and> t2_loaded s' \<and> t2_armed s' \<and>
    t2c s' = to16 (t2l_lo s) OR push_bit 8 (to16 d) \<and> \<not> bit (via_ifr s') 5"
  using assms
  by (simp add: via_write_reg_def via_clear_ifr_def update_irq_def Let_def counting_def
      split_beta bit_lits bit_not_iff)

lemma t2_start:
  assumes "counting b"
  shows "t2_at (via_acr s) (to16 (t2l_lo s) OR push_bit 8 (to16 d)) 1
    (via_6522_tick (via_write_reg 0x9 d (s, b)))"
proof -
  obtain s' b' where w: "via_write_reg 0x9 d (s, b) = (s', b')" by (rule prod.exhaust)
  note f = t2_write[OF assms, of s d, unfolded w prod.case]
  then show ?thesis
    unfolding w by (simp add: tick_counting t2_at_def split_beta t2_cycle_def Let_def)
qed

lemma t2_step:
  assumes "t2_at acr n k v" "0 < k" "acr AND VIA_ACR_SR_MODE \<noteq> VIA_ACR_SR_IN_T2"
  shows "t2_at acr n (Suc k) (via_6522_tick v)"
proof -
  obtain s b where v: "v = (s, b)" by (rule prod.exhaust)
  have zero: "n - word_of_nat (k - 1) = 0 \<longleftrightarrow> k = unat n + 1" if "k < unat n + 2"
    using assms(2) that count_zero[of "k - 1" n] by (cases k) auto
  have down: "n - word_of_nat (k - 1) - 1 = n - word_of_nat k"
    using assms(2) by (cases k) simp_all
  from assms(1) have a: "counting b" "via_acr s = acr" "t2_running s" "\<not> t2_loaded s"
     "t2c s = n - word_of_nat (k - 1)" "t2_armed s \<longleftrightarrow> k < unat n + 2"
     "bit (via_ifr s) 5 \<longleftrightarrow> unat n + 2 \<le> k"
    by (simp_all add: v t2_at_def)
  consider "k < unat n + 1" | "k = unat n + 1" | "unat n + 2 \<le> k" by linarith
  then show ?thesis
    by cases (use a zero down assms(3) in
      \<open>simp_all add: v tick_counting t2_at_def split_beta t2_cycle_def Let_def bit_lits\<close>)
qed

lemma t2_run:
  assumes "counting b" "via_acr s AND VIA_ACR_SR_MODE \<noteq> VIA_ACR_SR_IN_T2"
  shows "t2_at (via_acr s) (to16 (t2l_lo s) OR push_bit 8 (to16 d)) (Suc k)
    ((via_6522_tick ^^ Suc k) (via_write_reg 0x9 d (s, b)))"
proof (induction k)
  case 0
  then show ?case using t2_start[OF assms(1)] by simp
next
  case (Suc k)
  then show ?case using t2_step[OF Suc.IH _ assms(2)] by simp
qed

text \<open>
  Writing T2CH starts timer 2 with \<open>n\<close>, its flag shows \<open>n + 2\<close> cycles later and,
  until the next write, the counter goes on down through the whole 16-bit range without another
  time-out.
\<close>

theorem timer2_correct:
  fixes d :: u8 and s :: via_6522_state and b :: "'a bus_scheme"
  assumes "cpu_cycle_due b" "\<not> bus_res b" "0 < k"
    "via_acr s AND VIA_ACR_SR_MODE \<noteq> VIA_ACR_SR_IN_T2"
  defines "n \<equiv> to16 (t2l_lo s) OR push_bit 8 (to16 d)"
    and "t \<equiv> fst ((via_6522_tick ^^ k) (via_write_reg 0x9 d (s, b)))"
  shows "t2c t = n - word_of_nat (k - 1) \<and> (bit (via_ifr t) 5 \<longleftrightarrow> unat n + 2 \<le> k) \<and>
    (t2_armed t \<longleftrightarrow> k < unat n + 2)"
proof -
  obtain m where k: "k = Suc m" using assms(3) by (cases k) auto
  have "counting b" using assms(1,2) by (simp add: counting_def)
  from t2_run[OF this assms(4), of d m] show ?thesis
    by (simp add: t2_at_def split_beta t_def n_def k del: funpow.simps)
qed

theorem timer2_witness:
  "bit (via_ifr (fst ((via_6522_tick ^^ 5) (via_write_reg 0x9 0
     (via_6522_init\<lparr>t2l_lo := 3\<rparr>, bus_init\<lparr>cpu_cycle_due := True\<rparr>))))) 5"
  using timer2_correct[where b = "bus_init\<lparr>cpu_cycle_due := True\<rparr>" and k = 5 and
      s = "via_6522_init\<lparr>t2l_lo := 3\<rparr>" and d = 0]
  by (simp add: bus_init_def via_6522_init_def del: funpow.simps)

section \<open>The shift register\<close>

text \<open>
  The bits in the order they arrive: the first one ends in bit 7.
\<close>

definition shift_bit :: "bool \<Rightarrow> 'a via_bus \<Rightarrow> 'a via_bus" where
  "shift_bit x = (\<lambda>(s, b). shift_in (via_6522_set_cb2_quiet x s, b))"

lemma shift_bit_fields:
  assumes "sr_bits_remaining (fst v) \<noteq> 0"
  shows "bit (via_sr (fst (shift_bit x v))) n \<longleftrightarrow>
      n < 8 \<and> (if n = 0 then x else bit (via_sr (fst v)) (n - 1))"
    and "sr_bits_remaining (fst (shift_bit x v)) = sr_bits_remaining (fst v) - 1"
    and "sr_shift_total (fst (shift_bit x v)) = sr_shift_total (fst v) + 1"
    and "bit (via_ifr (fst (shift_bit x v))) 2 \<longleftrightarrow>
      bit (via_ifr (fst v)) 2 \<or> sr_bits_remaining (fst v) = 1"
  using assms
  by (auto simp: shift_bit_def shift_in_def via_6522_set_cb2_quiet_def split_beta Let_def
      word_gt_0 bit_lits bit_push_bit_iff simp del: push_bit_Suc)

lemma shift_bits_fields:
  assumes "length xs \<le> unat (sr_bits_remaining (fst v))"
  shows "(\<forall>n. bit (via_sr (fst (fold shift_bit xs v))) n \<longleftrightarrow> n < 8 \<and>
      (if n < length xs then rev xs ! n else bit (via_sr (fst v)) (n - length xs))) \<and>
    sr_bits_remaining (fst (fold shift_bit xs v)) = sr_bits_remaining (fst v) - word_of_nat (length xs) \<and>
    sr_shift_total (fst (fold shift_bit xs v)) = sr_shift_total (fst v) + word_of_nat (length xs) \<and>
    (bit (via_ifr (fst (fold shift_bit xs v))) 2 \<longleftrightarrow>
      bit (via_ifr (fst v)) 2 \<or> xs \<noteq> [] \<and> length xs = unat (sr_bits_remaining (fst v)))"
  using assms
proof (induction xs arbitrary: v)
  case Nil
  then show ?case using bit_imp_le_length[of "via_sr (fst v)"] by auto
next
  case (Cons x xs)
  have nz: "sr_bits_remaining (fst v) \<noteq> 0" using Cons.prems by auto
  note f = shift_bit_fields[OF nz]
  have u: "unat (sr_bits_remaining (fst (shift_bit x v))) = unat (sr_bits_remaining (fst v)) - 1"
    using nz f(2) by (simp add: unat_minus_one)
  have one: "sr_bits_remaining (fst v) = 1 \<longleftrightarrow> unat (sr_bits_remaining (fst v)) = 1"
    by (auto simp: word_unat_eq_iff)
  have "length xs \<le> unat (sr_bits_remaining (fst (shift_bit x v)))"
    using Cons.prems u by simp
  note all = Cons.IH[OF this]
  note ih1 = all[THEN conjunct1, THEN spec]
    and ih2 = all[THEN conjunct2, THEN conjunct1]
    and ih3 = all[THEN conjunct2, THEN conjunct2, THEN conjunct1]
    and ih4 = all[THEN conjunct2, THEN conjunct2, THEN conjunct2]
  have b: "bit (via_sr (fst (fold shift_bit (x # xs) v))) n \<longleftrightarrow> n < 8 \<and>
      (if n < length (x # xs) then rev (x # xs) ! n else bit (via_sr (fst v)) (n - length (x # xs)))" for n
    by (simp add: ih1 f(1) nth_append) auto
  have r: "sr_bits_remaining (fst (fold shift_bit (x # xs) v)) =
      sr_bits_remaining (fst v) - word_of_nat (length (x # xs))"
    by (simp add: ih2 f(2))
  have t: "sr_shift_total (fst (fold shift_bit (x # xs) v)) =
      sr_shift_total (fst v) + word_of_nat (length (x # xs))"
    by (simp add: ih3 f(3))
  have z: "length xs = unat (sr_bits_remaining (fst (shift_bit x v))) \<longleftrightarrow>
      length (x # xs) = unat (sr_bits_remaining (fst v))"
    using u nz by (auto simp: unat_gt_0)
  have "sr_bits_remaining (fst v) = 1 \<Longrightarrow> xs = []"
    using Cons.prems one by simp
  then have i: "bit (via_ifr (fst (fold shift_bit (x # xs) v))) 2 \<longleftrightarrow>
      bit (via_ifr (fst v)) 2 \<or> x # xs \<noteq> [] \<and> length (x # xs) = unat (sr_bits_remaining (fst v))"
    using ih4 f(4)[of x] z one by (cases "xs = []") auto
  show ?case using b r t i by blast
qed

lemma sr_arm:
  assumes "via_acr s AND VIA_ACR_SR_MODE = VIA_ACR_SR_IN_T2"
  shows "sr_bits_remaining (fst (snd (via_read_reg d 0xA (s, b)))) = 8"
    "sr_shift_total (fst (snd (via_read_reg d 0xA (s, b)))) = sr_shift_total s"
  using assms by (simp_all add: via_read_reg_def via_clear_ifr_def update_irq_def Let_def)

text \<open>
  In shift-in mode a read of SR arms the shift register for eight bits; the eight
  levels of CB2 at the following underflows become the byte, first bit uppermost, and the SR
  flag is raised with the last of them.
\<close>

theorem shift_in_byte:
  fixes d :: "u8 option" and s :: via_6522_state and b :: "'a bus_scheme"
  assumes "via_acr s AND VIA_ACR_SR_MODE = VIA_ACR_SR_IN_T2"
  defines "v \<equiv> snd (via_read_reg d 0xA (s, b))"
  shows "case fold shift_bit [x7, x6, x5, x4, x3, x2, x1, x0] v of (t, c) \<Rightarrow>
     (\<forall>n. bit (via_sr t) n = (n < 8 \<and> [x0, x1, x2, x3, x4, x5, x6, x7] ! n)) \<and>
     sr_bits_remaining t = 0 \<and> bit (via_ifr t) 2 \<and>
     sr_shift_total t = sr_shift_total s + 8"
proof -
  let ?xs = "[x7, x6, x5, x4, x3, x2, x1, x0]"
  note a = sr_arm[OF assms(1), of d b, folded v_def]
  have "length ?xs \<le> unat (sr_bits_remaining (fst v))" by (simp add: a)
  from shift_bits_fields[OF this] show ?thesis
    by (simp add: a split_beta del: fold.simps)
qed

theorem shift_in_witness:
  "case fold shift_bit [True, False, False, False, False, False, False, True]
     (snd (via_read_reg None 0xA (via_6522_init\<lparr>via_acr := 4\<rparr>, bus_init))) of (t, c) \<Rightarrow>
   bit (via_sr t) 0 \<and> \<not> bit (via_sr t) 1 \<and> bit (via_sr t) 7 \<and> sr_bits_remaining t = 0"
  using shift_in_byte[where s = "via_6522_init\<lparr>via_acr := 4\<rparr>" and b = bus_init and d = None and
      ?x7.0 = True and ?x6.0 = False and ?x5.0 = False and ?x4.0 = False and ?x3.0 = False and
      ?x2.0 = False and ?x1.0 = False and ?x0.0 = True]
  by (simp add: split_beta del: fold.simps)

end
