(* ===== verification/Fifo.thy ===== *)
theory Fifo imports Prelude begin

text \<open>
  The byte queues of the chips: an interface that says what a bounded queue promises, and
  the arithmetic of the ring buffers that provide it.
\<close>

section \<open>The interface\<close>

text \<open>
  \<open>content\<close> is the queue as a list, oldest first; \<open>put\<close> refuses when \<open>cap\<close> elements are
  queued, \<open>get\<close> takes the oldest of a queue that is not empty.
\<close>

locale fifo =
  fixes content :: "'q \<Rightarrow> 'b list"
    and put :: "'b \<Rightarrow> 'q \<Rightarrow> 'q option"
    and get :: "'q \<Rightarrow> 'b \<times> 'q"
    and cap :: nat
    and inv :: "'q \<Rightarrow> bool"
  assumes put_room: "inv q \<Longrightarrow> length (content q) < cap \<Longrightarrow>
      \<exists>q'. put x q = Some q' \<and> inv q' \<and> content q' = content q @ [x]"
    and put_full: "inv q \<Longrightarrow> \<not> length (content q) < cap \<Longrightarrow> put x q = None"
    and get_first: "inv q \<Longrightarrow> content q = x # xs \<Longrightarrow>
      fst (get q) = x \<and> inv (snd (get q)) \<and> content (snd (get q)) = xs"
    and inv_cap: "inv q \<Longrightarrow> length (content q) \<le> cap"

text \<open>Queue a list until the queue refuses; take \<open>n\<close> elements.\<close>

fun put_while :: "('b \<Rightarrow> 'q \<Rightarrow> 'q option) \<Rightarrow> 'b list \<Rightarrow> 'q \<Rightarrow> 'q" where
  "put_while put [] q = q"
| "put_while put (x # xs) q = (case put x q of None \<Rightarrow> q | Some q' \<Rightarrow> put_while put xs q')"

fun get_n :: "('q \<Rightarrow> 'b \<times> 'q) \<Rightarrow> nat \<Rightarrow> 'q \<Rightarrow> 'b list \<times> 'q" where
  "get_n get 0 q = ([], q)"
| "get_n get (Suc n) q = (let (x, q') = get q; (xs, q'') = get_n get n q' in (x # xs, q''))"

context fifo
begin

lemma put_while_content:
  "inv q \<Longrightarrow> inv (put_while put xs q) \<and>
    content (put_while put xs q) = content q @ take (cap - length (content q)) xs"
proof (induction xs arbitrary: q)
  case (Cons x xs)
  show ?case
  proof (cases "length (content q) < cap")
    case True
    then obtain q' where q': "put x q = Some q'" "inv q'" "content q' = content q @ [x]"
      using put_room[OF Cons.prems] by blast
    have "cap - length (content q) = Suc (cap - length (content q'))"
      using True q'(3) by simp
    then show ?thesis using Cons.IH[OF q'(2)] q' by simp
  next
    case False
    then show ?thesis using put_full[OF Cons.prems False] Cons.prems by simp
  qed
qed simp

lemma get_n_content:
  "inv q \<Longrightarrow> n \<le> length (content q) \<Longrightarrow> fst (get_n get n q) = take n (content q) \<and>
    inv (snd (get_n get n q)) \<and> content (snd (get_n get n q)) = drop n (content q)"
proof (induction n arbitrary: q)
  case (Suc n)
  then obtain x xs where c: "content q = x # xs" by (cases "content q") auto
  note g = get_first[OF Suc.prems(1) c]
  have "n \<le> length (content (snd (get q)))" using Suc.prems(2) g c by simp
  from Suc.IH[OF _ this] g show ?case by (simp add: split_beta Let_def c)
qed simp

text \<open>What was queued comes out in order: the bytes that fit, none of the others.\<close>

lemma queue_in_order:
  assumes "inv q" "content q = []"
  shows "fst (get_n get (min cap (length xs)) (put_while put xs q)) = take cap xs \<and>
    content (snd (get_n get (min cap (length xs)) (put_while put xs q))) = []"
proof -
  have p: "inv (put_while put xs q)" "content (put_while put xs q) = take cap xs"
    using put_while_content[OF assms(1)] assms(2) by simp_all
  then show ?thesis using get_n_content[OF p(1), of "min cap (length xs)"]
    by (simp add: min_def)
qed

end

section \<open>Ring buffers\<close>

text \<open>The elements of a ring of size \<open>n\<close>: \<open>count\<close> of them, from index \<open>first\<close> on.\<close>

definition ring :: "nat \<Rightarrow> (nat \<Rightarrow> 'b) \<Rightarrow> nat \<Rightarrow> nat \<Rightarrow> 'b list" where
  "ring n buf first count = map (\<lambda>i. buf ((first + i) mod n)) [0..<count]"

lemma length_ring [simp]: "length (ring n buf first count) = count"
  by (simp add: ring_def)

lemma ring_zero [simp]: "ring n buf first 0 = []"
  by (simp add: ring_def)

lemma mod_inj_window:
  "i < n \<Longrightarrow> j < n \<Longrightarrow> (a + i) mod n = (a + j) mod n \<Longrightarrow> i = j" for a i j n :: nat
proof (induction i j rule: linorder_wlog)
  case (le i j)
  then have "n dvd (a + j) - (a + i)" by (metis add_le_mono le_refl mod_eq_dvd_iff_nat)
  then have "n dvd j - i" by simp
  then show ?case using le by (metis diff_is_0_eq dvd_imp_le le_antisym less_imp_diff_less
      less_le_not_le neq0_conv)
qed simp

text \<open>Writing the slot after the last element appends, if the ring is not full.\<close>

lemma ring_append:
  assumes "count < n"
  shows "ring n (buf((first + count) mod n := x)) first (Suc count) = ring n buf first count @ [x]"
proof -
  have "(first + i) mod n \<noteq> (first + count) mod n" if "i < count" for i
    using mod_inj_window[of i n count first] that assms by auto
  then show ?thesis by (simp add: ring_def)
qed

lemma nth_ring: "i < count \<Longrightarrow> ring n buf first count ! i = buf ((first + i) mod n)"
  by (simp add: ring_def)

lemma ring_head:
  assumes "0 < count"
  shows "ring n buf first count = buf (first mod n) # ring n buf (Suc first mod n) (count - 1)"
proof (rule nth_equalityI)
  fix i assume i: "i < length (ring n buf first count)"
  show "ring n buf first count ! i =
      (buf (first mod n) # ring n buf (Suc first mod n) (count - 1)) ! i"
  proof (cases i)
    case 0
    then show ?thesis using assms by (simp add: nth_ring)
  next
    case (Suc k)
    have "(Suc first mod n + k) mod n = (first + Suc k) mod n"
      by (metis add_Suc add_Suc_right mod_add_left_eq)
    then show ?thesis using i Suc by (simp add: nth_ring)
  qed
qed (use assms in simp)

end
