(* ===== verification/Serial_Usb.thy ===== *)
theory Serial_Usb imports Fifo Via_Timing begin

text \<open>
  The USB serial chip of the wendy2c (\<open>src/emulator/chips/serial_usb.c\<close>), which feeds
  queued bytes to the VIA's CB2 and shift register, and the LED taps and control button
  (\<open>chips/led_buttons.c\<close>).
\<close>

section \<open>The serial chip\<close>

definition SERIAL_USB_BUF_SIZE :: nat where "SERIAL_USB_BUF_SIZE = 0x11000"

datatype serial_phase = SERIAL_IDLE | SERIAL_START | SERIAL_SHIFTING

record serial_usb_state =
  s_buf :: "nat \<Rightarrow> u8"
  s_head :: nat
  s_tail :: nat
  s_state :: serial_phase
  current_byte :: u8
  bit_index :: u8
  prev_shift_total :: u32

definition queue_empty :: "serial_usb_state \<Rightarrow> bool" where
  "queue_empty s \<longleftrightarrow> s_head s = s_tail s"

definition queue_full :: "serial_usb_state \<Rightarrow> bool" where
  "queue_full s \<longleftrightarrow> (s_head s + 1) mod SERIAL_USB_BUF_SIZE = s_tail s"

definition queue_pop :: "serial_usb_state \<Rightarrow> u8 \<times> serial_usb_state" where
  "queue_pop s =
     (s_buf s (s_tail s), s\<lparr>s_tail := (s_tail s + 1) mod SERIAL_USB_BUF_SIZE\<rparr>)"

definition serial_usb_queue_byte :: "u8 \<Rightarrow> serial_usb_state \<Rightarrow> serial_usb_state option" where
  "serial_usb_queue_byte byte s =
     (if queue_full s then None
      else Some (s\<lparr>s_buf := (s_buf s)(s_head s := byte),
                   s_head := (s_head s + 1) mod SERIAL_USB_BUF_SIZE\<rparr>))"

definition serial_usb_queue_count :: "serial_usb_state \<Rightarrow> int" where
  "serial_usb_queue_count s =
     (let n = int (s_head s) - int (s_tail s)
      in if n < 0 then n + int SERIAL_USB_BUF_SIZE else n)"

text \<open>The file as its bytes; None where it cannot be opened (-1).\<close>

definition serial_usb_queue_file :: "u8 list option \<Rightarrow> serial_usb_state \<Rightarrow> serial_usb_state option" where
  "serial_usb_queue_file file s =
     (case file of None \<Rightarrow> None | Some bytes \<Rightarrow> Some (put_while serial_usb_queue_byte bytes s))"

definition byte_bit :: "u8 \<Rightarrow> u8 \<Rightarrow> bool" where
  "byte_bit byte i \<longleftrightarrow> drop_bit (unat i) byte AND 1 \<noteq> 0"

text \<open>The loop over the shifts since the last tick.\<close>

function catch_up ::
  "u32 \<Rightarrow> serial_usb_state \<Rightarrow> via_6522_state \<Rightarrow> serial_usb_state \<times> via_6522_state" where
  "catch_up shifts s v =
     (if shifts > prev_shift_total s then
        (let s = s\<lparr>prev_shift_total := prev_shift_total s + 1, bit_index := bit_index s + 1\<rparr> in
         if bit_index s < 8
         then catch_up shifts s (via_6522_set_cb2_quiet (byte_bit (current_byte s) (bit_index s)) v)
         else (s\<lparr>s_state := SERIAL_IDLE\<rparr>, via_6522_set_cb2_quiet True v))
      else (s, v))"
  by pat_completeness auto
termination
proof (relation "measure (\<lambda>(shifts, s, v). unat shifts - unat (prev_shift_total s))")
  fix shifts s v s'
  assume "prev_shift_total s < shifts"
    and s': "s' = s\<lparr>prev_shift_total := prev_shift_total s + 1, bit_index := bit_index s + 1\<rparr>"
  then have "unat (prev_shift_total s) < unat shifts" by (simp add: word_less_nat_alt)
  moreover have "unat (prev_shift_total s + 1) = unat (prev_shift_total s) + 1"
    using calculation unsigned_less[of shifts, where 'a=nat] by (simp add: unat_word_ariths)
  ultimately show "((shifts, s', via_6522_set_cb2_quiet (byte_bit (current_byte s') (bit_index s')) v),
      shifts, s, v) \<in> measure (\<lambda>(shifts, s, v). unat shifts - unat (prev_shift_total s))"
    by (simp add: s')
qed simp

declare catch_up.simps [simp del]

definition serial_usb_tick ::
  "serial_usb_state \<times> 'a via_bus \<Rightarrow> serial_usb_state \<times> 'a via_bus" where
  "serial_usb_tick = (\<lambda>(s, v, b). case s_state s of
     SERIAL_IDLE \<Rightarrow>
       if queue_empty s \<or> via_ier v AND VIA_INT_CB2 = 0 \<or> via_ifr v AND VIA_INT_CB2 \<noteq> 0 \<or>
          via_ifr v AND VIA_INT_SR \<noteq> 0
       then (s, v, b)
       else
         (let (x, s) = queue_pop s;
              s = s\<lparr>current_byte := x, bit_index := 0, prev_shift_total := sr_shift_total v\<rparr>;
              (v, b) = via_6522_set_cb2 False (v, b);
              v = via_6522_set_cb2_quiet (byte_bit x 0) v
          in (s\<lparr>s_state := SERIAL_SHIFTING\<rparr>, v, b))
   | SERIAL_START \<Rightarrow> (s\<lparr>s_state := SERIAL_IDLE\<rparr>, v, b)
   | SERIAL_SHIFTING \<Rightarrow> (let (s, v) = catch_up (sr_shift_total v) s v in (s, v, b)))"

definition serial_usb_init :: "via_6522_state \<Rightarrow> serial_usb_state \<times> via_6522_state" where
  "serial_usb_init v =
     (\<lparr>s_buf = (\<lambda>_. 0), s_head = 0, s_tail = 0, s_state = SERIAL_IDLE, current_byte = 0,
       bit_index = 0, prev_shift_total = 0\<rparr>, via_6522_set_cb2_quiet True v)"

definition serial_usb_reset ::
  "serial_usb_state \<Rightarrow> via_6522_state \<Rightarrow> serial_usb_state \<times> via_6522_state" where
  "serial_usb_reset s v =
     (s\<lparr>s_head := 0, s_tail := 0, s_state := SERIAL_IDLE, current_byte := 0, bit_index := 0,
        prev_shift_total := 0\<rparr>, via_6522_set_cb2_quiet True v)"

section \<open>LEDs and button\<close>

record led_buttons_state =
  led_pb_mask :: u8
  control_led_pa_mask :: u8
  button_pa_mask :: u8
  led_on :: bool
  control_led_on :: bool
  button_pressed :: bool

text \<open>The tick reads the pins; \<open>drive\<close> is what drives port B from outside, as for a read.\<close>

definition led_buttons_tick ::
  "u8 option \<Rightarrow> via_6522_state \<Rightarrow> led_buttons_state \<Rightarrow> led_buttons_state" where
  "led_buttons_tick drive v s =
     s\<lparr>led_on := portb_pin_value drive v AND led_pb_mask s \<noteq> 0,
       control_led_on := porta_pin_value v AND control_led_pa_mask s \<noteq> 0\<rparr>"

definition led_buttons_reset ::
  "via_6522_state \<Rightarrow> led_buttons_state \<Rightarrow> led_buttons_state \<times> via_6522_state" where
  "led_buttons_reset v s =
     (s\<lparr>led_on := False, control_led_on := False, button_pressed := False\<rparr>,
      via_6522_set_porta_input_bit (button_pa_mask s) True v)"

definition led_buttons_init :: "via_6522_state \<Rightarrow> led_buttons_state \<times> via_6522_state" where
  "led_buttons_init v =
     (\<lparr>led_pb_mask = 0x40, control_led_pa_mask = 0x04, button_pa_mask = 0x02, led_on = False,
       control_led_on = False, button_pressed = False\<rparr>,
      via_6522_set_porta_input_bit 0x02 True v)"

definition led_buttons_press ::
  "bool \<Rightarrow> led_buttons_state \<Rightarrow> via_6522_state \<Rightarrow> led_buttons_state \<times> via_6522_state" where
  "led_buttons_press down s v =
     (s\<lparr>button_pressed := down\<rparr>, via_6522_set_porta_input_bit (button_pa_mask s) (\<not> down) v)"

section \<open>The queue\<close>

definition serial_ok :: "serial_usb_state \<Rightarrow> bool" where
  "serial_ok s \<longleftrightarrow> s_head s < SERIAL_USB_BUF_SIZE \<and> s_tail s < SERIAL_USB_BUF_SIZE"

definition serial_count :: "serial_usb_state \<Rightarrow> nat" where
  "serial_count s = nat (serial_usb_queue_count s)"

definition serial_content :: "serial_usb_state \<Rightarrow> u8 list" where
  "serial_content s = ring SERIAL_USB_BUF_SIZE (s_buf s) (s_tail s) (serial_count s)"

lemma buf_size: "1 < SERIAL_USB_BUF_SIZE"
  by (simp add: SERIAL_USB_BUF_SIZE_def)

lemma serial_count_cases:
  "serial_count s = (if s_tail s \<le> s_head s then s_head s - s_tail s
     else s_head s + SERIAL_USB_BUF_SIZE - s_tail s)"
  by (auto simp: serial_count_def serial_usb_queue_count_def Let_def)

lemma head_count:
  assumes "serial_ok s"
  shows "s_head s = (s_tail s + serial_count s) mod SERIAL_USB_BUF_SIZE"
    and "serial_count s < SERIAL_USB_BUF_SIZE"
proof -
  have e: "s_head s = s_tail s + serial_count s \<or> s_head s + SERIAL_USB_BUF_SIZE = s_tail s + serial_count s"
    using assms by (auto simp: serial_count_cases serial_ok_def)
  then show "s_head s = (s_tail s + serial_count s) mod SERIAL_USB_BUF_SIZE"
    using assms by (metis mod_add_self2 mod_less serial_ok_def)
  show "serial_count s < SERIAL_USB_BUF_SIZE"
    using assms by (auto simp: serial_count_cases serial_ok_def)
qed

lemma wrap_suc: "h < n \<Longrightarrow> Suc h mod n = (if Suc h = n then 0 else Suc h)" for h n :: nat
  by auto

interpretation serial_q: fifo serial_content serial_usb_queue_byte queue_pop
  "SERIAL_USB_BUF_SIZE - 1" serial_ok
proof unfold_locales
  fix s :: serial_usb_state and x
  assume ok: "serial_ok s"
  note hc = head_count[OF ok]
  have full: "queue_full s \<longleftrightarrow> serial_count s = SERIAL_USB_BUF_SIZE - 1"
    using ok buf_size by (auto simp: queue_full_def serial_count_cases serial_ok_def wrap_suc)
  show "length (serial_content s) \<le> SERIAL_USB_BUF_SIZE - 1"
    using hc(2) by (simp add: serial_content_def)
  show "\<not> length (serial_content s) < SERIAL_USB_BUF_SIZE - 1 \<Longrightarrow> serial_usb_queue_byte x s = None"
    using hc(2) full by (simp add: serial_content_def serial_usb_queue_byte_def)
  show "\<exists>s'. serial_usb_queue_byte x s = Some s' \<and> serial_ok s' \<and>
      serial_content s' = serial_content s @ [x]"
    if room: "length (serial_content s) < SERIAL_USB_BUF_SIZE - 1"
  proof -
    let ?s = "s\<lparr>s_buf := (s_buf s)(s_head s := x), s_head := (s_head s + 1) mod SERIAL_USB_BUF_SIZE\<rparr>"
    have c: "serial_count s < SERIAL_USB_BUF_SIZE - 1" using room by (simp add: serial_content_def)
    then have n: "serial_count ?s = Suc (serial_count s)"
      using ok buf_size by (auto simp: serial_count_cases serial_ok_def wrap_suc)
    have "serial_content ?s = serial_content s @ [x]"
      using ring_append[of "serial_count s" SERIAL_USB_BUF_SIZE "s_buf s" "s_tail s" x] c hc(1)
      unfolding serial_content_def n by simp
    moreover have "serial_ok ?s" using ok buf_size by (simp add: serial_ok_def)
    ultimately show ?thesis using c full by (simp add: serial_usb_queue_byte_def)
  qed
next
  fix s :: serial_usb_state and x xs
  assume ok: "serial_ok s" and c: "serial_content s = x # xs"
  let ?s = "s\<lparr>s_tail := (s_tail s + 1) mod SERIAL_USB_BUF_SIZE\<rparr>"
  have pos: "0 < serial_count s" using c by (cases "serial_count s") (simp_all add: serial_content_def)
  then have n: "serial_count ?s = serial_count s - 1"
    using ok buf_size by (auto simp: serial_count_cases serial_ok_def wrap_suc)
  have "ring SERIAL_USB_BUF_SIZE (s_buf s) (s_tail s) (serial_count s) =
      s_buf s (s_tail s mod SERIAL_USB_BUF_SIZE) # serial_content ?s"
    using ring_head[OF pos] unfolding serial_content_def n by simp
  then have "x = s_buf s (s_tail s) \<and> xs = serial_content ?s"
    using c ok by (simp add: serial_content_def serial_ok_def)
  then show "fst (queue_pop s) = x \<and> serial_ok (snd (queue_pop s)) \<and> serial_content (snd (queue_pop s)) = xs"
    using ok buf_size by (simp add: queue_pop_def serial_ok_def)
qed

text \<open>
  What is queued for the serial chip comes out in order. Queueing a file on an
  empty queue keeps its first \<open>SERIAL_USB_BUF_SIZE - 1\<close> bytes, and taking them one by one
  gives exactly these bytes and leaves the queue empty.
\<close>

theorem serial_queue_in_order:
  assumes "s_head s < SERIAL_USB_BUF_SIZE" "s_head s = s_tail s"
  defines "cap \<equiv> SERIAL_USB_BUF_SIZE - 1"
  shows "\<exists>t. serial_usb_queue_file (Some bytes) s = Some t \<and>
    fst (get_n queue_pop (min cap (length bytes)) t) = take cap bytes \<and>
    queue_empty (snd (get_n queue_pop (min cap (length bytes)) t))"
proof -
  have ok: "serial_ok s" using assms by (simp add: serial_ok_def)
  have e: "serial_content s = []"
    using assms(2) by (simp add: serial_content_def serial_count_cases)
  have empty: "queue_empty u" if "serial_ok u" "serial_content u = []" for u
    using that head_count(1)[OF that(1)] by (simp add: serial_content_def queue_empty_def serial_ok_def ring_def)
  let ?t = "put_while serial_usb_queue_byte bytes s"
  have p: "serial_ok ?t" "serial_content ?t = take cap bytes"
    using serial_q.put_while_content[OF ok] e by (simp_all add: cap_def)
  have n: "min cap (length bytes) \<le> length (serial_content ?t)" by (simp add: p(2) min_def)
  have "serial_ok (snd (get_n queue_pop (min cap (length bytes)) ?t))"
    using serial_q.get_n_content[OF p(1) n] by blast
  then show ?thesis
    using serial_q.queue_in_order[OF ok e, of bytes] empty
    by (simp add: serial_usb_queue_file_def cap_def)
qed

theorem serial_queue_witness:
  "\<exists>t. serial_usb_queue_file (Some [1, 2, 3]) (fst (serial_usb_init via_6522_init)) = Some t \<and>
    fst (get_n queue_pop (Suc (Suc (Suc 0))) t) = [1, 2, 3]"
  using serial_queue_in_order[of "fst (serial_usb_init via_6522_init)" "[1, 2, 3]"]
  by (auto simp: serial_usb_init_def SERIAL_USB_BUF_SIZE_def simp del: get_n.simps)

section \<open>A byte on the wire\<close>

lemma content_updates [simp]:
  "serial_content (s\<lparr>current_byte := x\<rparr>) = serial_content s"
  "serial_content (s\<lparr>bit_index := i\<rparr>) = serial_content s"
  "serial_content (s\<lparr>prev_shift_total := n\<rparr>) = serial_content s"
  "serial_content (s\<lparr>s_state := p\<rparr>) = serial_content s"
  by (simp_all add: serial_content_def serial_count_def serial_usb_queue_count_def)

text \<open>One bit: the VIA shifts at its underflow, then the serial chip ticks.\<close>

definition wire_bit ::
  "serial_usb_state \<times> 'a via_bus \<Rightarrow> serial_usb_state \<times> 'a via_bus" where
  "wire_bit = (\<lambda>(s, v). serial_usb_tick (s, shift_in v))"

text \<open>The state when \<open>k\<close> bits of the byte \<open>x\<close> have been shifted, \<open>n\<close> shifts after power-on.\<close>

definition sent_bits :: "u8 \<Rightarrow> u32 \<Rightarrow> nat \<Rightarrow> serial_usb_state \<times> 'a via_bus \<Rightarrow> bool" where
  "sent_bits x n k = (\<lambda>(s, v, b).
     current_byte s = x \<and> unat (bit_index s) = k \<and> unat (sr_bits_remaining v) = 8 - k \<and>
     sr_shift_total v = n + word_of_nat k \<and> prev_shift_total s = sr_shift_total v \<and>
     (\<forall>i<k. bit (via_sr v) i = bit x (k - 1 - i)) \<and>
     (if k < 8 then s_state s = SERIAL_SHIFTING \<and> cb2_in v = bit x k
      else s_state s = SERIAL_IDLE \<and> cb2_in v))"

lemma byte_bit_iff: "byte_bit x i = bit x (unat i)"
  using and_bit_zero_iff[of 0 "drop_bit (unat i) x"] by (simp add: byte_bit_def bit_drop_bit_eq)

lemma quiet_fields [simp]:
  "sr_bits_remaining (via_6522_set_cb2_quiet l v) = sr_bits_remaining v"
  "sr_shift_total (via_6522_set_cb2_quiet l v) = sr_shift_total v"
  "via_sr (via_6522_set_cb2_quiet l v) = via_sr v" "cb2_in (via_6522_set_cb2_quiet l v) = l"
  by (simp_all add: via_6522_set_cb2_quiet_def)

lemma shift_in_step:
  assumes "0 < sr_bits_remaining v" "shift_in (v, b) = (v', b')"
  shows "bit (via_sr v') i \<longleftrightarrow> i < 8 \<and> (if i = 0 then cb2_in v else bit (via_sr v) (i - 1))"
    and "sr_bits_remaining v' = sr_bits_remaining v - 1"
    and "sr_shift_total v' = sr_shift_total v + 1"
proof -
  have e: "shift_bit (cb2_in v) (v, b) = shift_in (v, b)"
    by (simp add: shift_bit_def via_6522_set_cb2_quiet_def)
  show "bit (via_sr v') i \<longleftrightarrow> i < 8 \<and> (if i = 0 then cb2_in v else bit (via_sr v) (i - 1))"
    "sr_bits_remaining v' = sr_bits_remaining v - 1" "sr_shift_total v' = sr_shift_total v + 1"
    using shift_bit_fields(1-3)[of "(v, b)" "cb2_in v"] assms unfolding e by (auto simp: word_gt_0)
qed

lemma wire_bit_step:
  assumes "sent_bits x n k (s, v, b)" "k < 8" "unat n + 8 < 2 ^ 32"
  shows "sent_bits x n (Suc k) (wire_bit (s, v, b))"
proof -
  from assms(1,2) have a: "current_byte s = x" "unat (bit_index s) = k"
    "unat (sr_bits_remaining v) = 8 - k" "sr_shift_total v = n + word_of_nat k"
    "prev_shift_total s = sr_shift_total v" "\<And>i. i < k \<Longrightarrow> bit (via_sr v) i = bit x (k - 1 - i)"
    "s_state s = SERIAL_SHIFTING" "cb2_in v = bit x k"
    by (simp_all add: sent_bits_def)
  obtain v' b' where w: "shift_in (v, b) = (v', b')" by (rule prod.exhaust)
  have pos: "0 < sr_bits_remaining v" using a(3) assms(2) by (simp add: word_less_nat_alt)
  note f = shift_in_step[OF pos w]
  have r: "unat (sr_bits_remaining v') = 8 - Suc k"
    using f(2) a(3) pos unat_minus_one[of "sr_bits_remaining v"] by (simp add: word_gt_0)
  have tot: "unat (sr_shift_total v) = unat n + k"
    using a(4) assms(2,3) by (simp add: unat_word_ariths unat_of_nat)
  have later: "sr_shift_total v < sr_shift_total v + 1"
    using tot assms(2,3) by (simp add: word_less_nat_alt unat_word_ariths)
  have bits: "bit (via_sr v') i = bit x (Suc k - 1 - i)" if "i < Suc k" for i
    using that f(1)[of i] a(6)[of "i - 1"] a(8) assms(2) by (cases i) auto
  have idx: "unat (bit_index s + 1) = Suc k"
    using a(2) assms(2) by (simp add: unat_word_ariths)
  define s1 where "s1 = s\<lparr>prev_shift_total := prev_shift_total s + 1, bit_index := bit_index s + 1\<rparr>"
  have s1: "current_byte s1 = x" "unat (bit_index s1) = Suc k" "prev_shift_total s1 = sr_shift_total v'"
    "s_state s1 = SERIAL_SHIFTING"
    using a idx f(3) by (simp_all add: s1_def)
  have stop: "catch_up (sr_shift_total v') s1 u = (s1, u)" for u
    by (subst catch_up.simps) (simp add: s1)
  have loop: "catch_up (sr_shift_total v') s v' = (if Suc k < 8
      then (s1, via_6522_set_cb2_quiet (bit x (Suc k)) v')
      else (s1\<lparr>s_state := SERIAL_IDLE\<rparr>, via_6522_set_cb2_quiet True v'))"
  proof -
    have lt: "bit_index s1 < 8 \<longleftrightarrow> Suc k < 8" using s1(2) by (simp add: word_less_nat_alt)
    have "prev_shift_total s < sr_shift_total v'" using later a(5) f(3) by simp
    then have "catch_up (sr_shift_total v') s v' = (if bit_index s1 < 8
        then catch_up (sr_shift_total v') s1
          (via_6522_set_cb2_quiet (byte_bit (current_byte s1) (bit_index s1)) v')
        else (s1\<lparr>s_state := SERIAL_IDLE\<rparr>, via_6522_set_cb2_quiet True v'))"
      by (subst catch_up.simps) (simp only: if_True Let_def s1_def[symmetric])
    then show ?thesis by (simp only: lt stop s1 byte_bit_iff)
  qed
  have "wire_bit (s, v, b) = (let (s, v) = catch_up (sr_shift_total v') s v' in (s, v, b'))"
    by (simp add: wire_bit_def w serial_usb_tick_def a(7))
  then have wb: "wire_bit (s, v, b) = (if Suc k < 8
      then (s1, via_6522_set_cb2_quiet (bit x (Suc k)) v', b')
      else (s1\<lparr>s_state := SERIAL_IDLE\<rparr>, via_6522_set_cb2_quiet True v', b'))"
    unfolding loop by (simp split: if_splits)
  show ?thesis
    unfolding wb using s1 r bits f(3) a(4) by (simp add: sent_bits_def)
qed

lemma wire_bits:
  assumes "sent_bits x n 0 c" "unat n + 8 < 2 ^ 32"
  shows "k \<le> 8 \<Longrightarrow> sent_bits x n k ((wire_bit ^^ k) c)"
proof (induction k)
  case (Suc k)
  then have "sent_bits x n k ((wire_bit ^^ k) c)" by simp
  then show ?case
    using wire_bit_step[OF _ _ assms(2), of x k] Suc.prems by (cases "(wire_bit ^^ k) c") simp
qed (use assms in simp)

text \<open>
  Property C24: a byte crosses the serial line. When the program has enabled the CB2 interrupt
  and handled the previous byte, a tick of the serial chip takes the next byte from the queue;
  once the program has switched the VIA to shift-in mode and armed it by reading SR, the eight
  shifts that follow leave the byte bit-reversed in SR (bit 0 was sent first), the line is idle
  high and the chip is ready for the next byte.
\<close>

theorem serial_byte_arrives:
  fixes s :: serial_usb_state and v :: via_6522_state and b :: "'a bus_scheme"
  assumes "serial_ok s" "serial_content s = x # xs" "s_state s = SERIAL_IDLE"
    and "bit (via_ier v) 3" "\<not> bit (via_ifr v) 3" "\<not> bit (via_ifr v) 2"
    and "unat (sr_shift_total v) + 8 < 2 ^ 32"
    and "serial_usb_tick (s, v, b) = (s1, v1, b1)"
    and "acr AND VIA_ACR_SR_MODE = VIA_ACR_SR_IN_T2"
    and "snd (via_read_reg d 0xA (v1\<lparr>via_acr := acr\<rparr>, b1)) = (v2, b2)"
  shows "case (wire_bit ^^ 8) (s1, v2, b2) of (t, w, c) \<Rightarrow>
    (\<forall>i<8. bit (via_sr w) i = bit x (7 - i)) \<and> cb2_in w \<and> s_state t = SERIAL_IDLE \<and>
    serial_content s1 = xs"
proof -
  let ?q = "snd (queue_pop s)"
  have pop: "fst (queue_pop s) = x" "serial_content ?q = xs"
    using serial_q.get_first[OF assms(1,2)] by simp_all
  have ne: "\<not> queue_empty s"
    using assms(2) by (auto simp: queue_empty_def serial_content_def serial_count_cases)
  obtain v' b' where cb: "via_6522_set_cb2 False (v, b) = (v', b')" by (rule prod.exhaust)
  have tot: "sr_shift_total v' = sr_shift_total v"
    using cb by (auto simp: via_6522_set_cb2_def Let_def via_set_ifr_def update_irq_def split: if_splits)
  have t: "s1 = ?q\<lparr>current_byte := x, bit_index := 0, prev_shift_total := sr_shift_total v,
      s_state := SERIAL_SHIFTING\<rparr>" "v1 = via_6522_set_cb2_quiet (bit x 0) v'"
    using assms(3-6,8) ne pop(1) cb
    by (auto simp: serial_usb_tick_def u8_flag_iff split_beta Let_def byte_bit_iff)
  have arm: "sr_bits_remaining v2 = 8" "sr_shift_total v2 = sr_shift_total v" "cb2_in v2 = bit x 0"
    using assms(9,10) tot t(2)
    by (auto simp: via_read_reg_def via_clear_ifr_def update_irq_def Let_def)
  have content: "serial_content s1 = xs"
    using pop(2) by (simp add: t(1))
  have "sent_bits x (sr_shift_total v) 0 (s1, v2, b2)"
    by (simp add: sent_bits_def t(1) arm)
  from wire_bits[OF this assms(7), of 8] content show ?thesis
    by (simp add: sent_bits_def split_beta del: funpow.simps)
qed

text \<open>A concrete line: one byte queued, CB2 interrupts enabled, SR armed in shift-in mode.\<close>

definition one_byte :: "u8 \<Rightarrow> serial_usb_state" where
  "one_byte x = \<lparr>s_buf = (\<lambda>_. x), s_head = 1, s_tail = 0, s_state = SERIAL_IDLE, current_byte = 0,
     bit_index = 0, prev_shift_total = 0\<rparr>"

definition listening :: via_6522_state where
  "listening = via_6522_init\<lparr>via_ier := 8\<rparr>"

lemma one_byte_fields:
  "serial_ok (one_byte x)" "serial_content (one_byte x) = [x]" "s_state (one_byte x) = SERIAL_IDLE"
  by (simp_all add: one_byte_def serial_ok_def serial_content_def serial_count_cases ring_def
      SERIAL_USB_BUF_SIZE_def)

lemma listening_fields:
  "bit (via_ier listening) 3" "\<not> bit (via_ifr listening) 3" "\<not> bit (via_ifr listening) 2"
  "unat (sr_shift_total listening) + 8 < 2 ^ 32"
  by (simp_all add: listening_def via_6522_init_def bit_lits)

theorem serial_byte_witness:
  "let (s1, v1, b1) = serial_usb_tick (one_byte 0x41, listening, bus_init);
       (t, w, c) = (wire_bit ^^ 8) (s1, snd (via_read_reg None 0xA (v1\<lparr>via_acr := VIA_ACR_SR_IN_T2\<rparr>, b1)))
   in bit (via_sr w) 1 = bit (0x41 :: u8) 6 \<and> cb2_in w \<and> s_state t = SERIAL_IDLE"
proof -
  obtain s1 v1 b1 where t: "serial_usb_tick (one_byte 0x41, listening, bus_init) = (s1, v1, b1)"
    by (metis prod.exhaust)
  obtain v2 b2 where r: "snd (via_read_reg None 0xA (v1\<lparr>via_acr := VIA_ACR_SR_IN_T2\<rparr>, b1)) = (v2, b2)"
    by (metis prod.exhaust)
  have "VIA_ACR_SR_IN_T2 AND VIA_ACR_SR_MODE = VIA_ACR_SR_IN_T2" by code_simp
  from serial_byte_arrives[OF one_byte_fields listening_fields t this r]
  show ?thesis unfolding t r Let_def prod.case by (simp add: split_beta del: funpow.simps)
qed

text \<open>
  Property C40: a hardware reset of the VIA in the middle of a byte stalls the serial chip: the
  VIA's count of shifts, which the chip takes to be monotonic, starts again at zero, and until
  it has passed its old value every tick of the chip leaves chip and line as they are.
\<close>

theorem serial_stalls_after_reset:
  assumes "s_state s = SERIAL_SHIFTING" "sr_shift_total v \<le> prev_shift_total s"
  shows "sr_shift_total (via_6522_apply_reset u) = 0 \<and> serial_usb_tick (s, v, b) = (s, v, b)"
proof -
  have "catch_up (sr_shift_total v) s v = (s, v)"
    by (subst catch_up.simps, rule if_not_P) (use assms(2) in simp)
  then show ?thesis
    using assms(1) by (simp add: serial_usb_tick_def via_6522_apply_reset_def via_6522_init_def)
qed

text \<open>Reset after the third shift of a byte: the tick that follows does nothing.\<close>

theorem serial_stall_witness:
  "let s = (one_byte 0x41)\<lparr>s_state := SERIAL_SHIFTING, prev_shift_total := 3\<rparr>;
       v = via_6522_apply_reset (listening\<lparr>sr_shift_total := 3\<rparr>)
   in serial_usb_tick (s, v, bus_init) = (s, v, bus_init)"
  using serial_stalls_after_reset[of "(one_byte 0x41)\<lparr>s_state := SERIAL_SHIFTING, prev_shift_total := 3\<rparr>"
      "via_6522_apply_reset (listening\<lparr>sr_shift_total := 3\<rparr>)" "listening\<lparr>sr_shift_total := 3\<rparr>" bus_init]
  by (simp add: via_6522_apply_reset_def via_6522_init_def)

end
