(* ===== verification/Ps2_Board.thy ===== *)
theory Ps2_Board imports Fifo Via_Timing begin

text \<open>
  Michael's PS/2 keyboard board with a keyboard plugged in
  (\<open>src/emulator/chips/ps2_keyboard_board.c\<close>): the byte queues, the frames on the wire, the
  keyboard's answers to commands, and the frame detector on the VIA's CA2. Times are the
  bus's oscillator ticks.
\<close>

section \<open>State\<close>

datatype ps2_fault = PS2_FAULT_NONE | PS2_FAULT_NOEDGE | PS2_FAULT_NOACK | PS2_FAULT_RESEND

definition PS2_QUEUE_SIZE :: nat where "PS2_QUEUE_SIZE = 16384"

definition PS2_LAST_OF_KEY :: u16 where "PS2_LAST_OF_KEY = 0x100"

record ps2_byte_queue =
  q_entries :: "nat \<Rightarrow> u16"
  q_head :: nat
  q_count :: nat

record ps2_board_state =
  ticks_per_us :: u32
  fault :: ps2_fault
  shift_register :: u8
  prev_solb_low :: bool
  board_ca2 :: bool
  frame_active :: bool
  from_host :: bool
  frame_byte :: u8
  frame_last_of_key :: bool
  frame_start :: u64
  frame_end :: u64
  detector_until :: u64
  replies :: ps2_byte_queue
  keys :: ps2_byte_queue
  next_send :: u64
  keys_after :: u64
  key_interval_us :: u32
  awaiting_argument_for :: u8
  commands :: u32

abbreviation (input) SOLB :: u8 where "SOLB \<equiv> 0x08"
abbreviation (input) SOEB :: u8 where "SOEB \<equiv> 0x10"
abbreviation (input) START :: u8 where "START \<equiv> 0x20"
abbreviation (input) BIT_US :: u32 where "BIT_US \<equiv> 80"
abbreviation (input) HOST_FRAME_BITS :: u32 where "HOST_FRAME_BITS \<equiv> 12"
abbreviation (input) DEVICE_FRAME_BITS :: u32 where "DEVICE_FRAME_BITS \<equiv> 11"
abbreviation (input) DETECT_IDLE_US :: u32 where "DETECT_IDLE_US \<equiv> 150"
abbreviation (input) START_DELAY_US :: u32 where "START_DELAY_US \<equiv> 1000"
abbreviation (input) REPLY_DELAY_US :: u32 where "REPLY_DELAY_US \<equiv> 1000"
abbreviation (input) BYTE_GAP_US :: u32 where "BYTE_GAP_US \<equiv> 1000"
abbreviation (input) KEY_QUIET_US :: u32 where "KEY_QUIET_US \<equiv> 200000"
abbreviation (input) KEY_INTERVAL_US :: u32 where "KEY_INTERVAL_US \<equiv> 20000"
abbreviation (input) SCAN_CODE_SET :: u16 where "SCAN_CODE_SET \<equiv> 0x02"

section \<open>Queues\<close>

text \<open>None is the -1 of a full queue. \<open>queue_take\<close> is only called on a queue that is not empty.\<close>

definition queue_put :: "u16 \<Rightarrow> ps2_byte_queue \<Rightarrow> ps2_byte_queue option" where
  "queue_put entry q =
     (if q_count q = PS2_QUEUE_SIZE then None
      else Some (q\<lparr>q_entries := (q_entries q)((q_head q + q_count q) mod PS2_QUEUE_SIZE := entry),
                   q_count := q_count q + 1\<rparr>))"

definition queue_take :: "ps2_byte_queue \<Rightarrow> u16 \<times> ps2_byte_queue" where
  "queue_take q =
     (q_entries q (q_head q),
      q\<lparr>q_head := (q_head q + 1) mod PS2_QUEUE_SIZE, q_count := q_count q - 1\<rparr>)"

text \<open>A put whose result the code ignores: a full queue drops the entry.\<close>

definition queue_put_or_drop :: "u16 \<Rightarrow> ps2_byte_queue \<Rightarrow> ps2_byte_queue" where
  "queue_put_or_drop entry q = (case queue_put entry q of Some q' \<Rightarrow> q' | None \<Rightarrow> q)"

section \<open>Frames and commands\<close>

definition driven_low :: "via_6522_state \<Rightarrow> u8 \<Rightarrow> bool" where
  "driven_low via b \<longleftrightarrow> ddra via AND b \<noteq> 0 \<and> porta_pin_value via AND b = 0"

definition us :: "ps2_board_state \<Rightarrow> u32 \<Rightarrow> u64" where
  "us s n = ucast n * ucast (ticks_per_us s)"

definition start_frame :: "u64 \<Rightarrow> u16 \<Rightarrow> bool \<Rightarrow> ps2_board_state \<Rightarrow> ps2_board_state" where
  "start_frame start entry host s =
     s\<lparr>frame_active := True, from_host := host, frame_byte := to8 entry,
       frame_last_of_key := entry AND PS2_LAST_OF_KEY \<noteq> 0, frame_start := start,
       frame_end := start + us s (BIT_US * (if host then HOST_FRAME_BITS else DEVICE_FRAME_BITS))\<rparr>"

definition reply :: "u16 \<Rightarrow> ps2_board_state \<Rightarrow> ps2_board_state" where
  "reply byte s = s\<lparr>replies := queue_put_or_drop byte (replies s)\<rparr>"

definition receive_command :: "u8 \<Rightarrow> u64 \<Rightarrow> ps2_board_state \<Rightarrow> ps2_board_state" where
  "receive_command byte now s =
     (let s = s\<lparr>commands := commands s + 1, next_send := now + us s REPLY_DELAY_US,
                keys_after := now + us s KEY_QUIET_US\<rparr>
      in if fault s = PS2_FAULT_NOACK then s
         else if fault s = PS2_FAULT_RESEND then reply 0xFE s
         else if awaiting_argument_for s \<noteq> 0 then
           (let s = reply 0xFA s;
                s = (if awaiting_argument_for s = 0xF0 \<and> byte = 0x00 then reply SCAN_CODE_SET s else s)
            in s\<lparr>awaiting_argument_for := 0\<rparr>)
         else if byte = 0xEE then reply 0xEE s
         else if byte = 0xFF then reply 0xAA (reply 0xFA s)
         else if byte = 0xF2 then reply 0x83 (reply 0xAB (reply 0xFA s))
         else if byte = 0xED \<or> byte = 0xF0 \<or> byte = 0xF3
         then reply 0xFA (s\<lparr>awaiting_argument_for := byte\<rparr>)
         else reply 0xFA s)"

section \<open>Tick\<close>

text \<open>
  The four parts of the tick: the release of the clock by the host, the end of the frame on
  the wire, the start of the next frame from the keyboard, and the frame detector.
\<close>

definition board_release ::
  "u8 option \<Rightarrow> u64 \<Rightarrow> via_6522_state \<Rightarrow> ps2_board_state \<Rightarrow> ps2_board_state" where
  "board_release drive now via s =
     (let solb_low = driven_low via SOLB;
          s = (if prev_solb_low s \<and> \<not> solb_low then
                 (let s = s\<lparr>detector_until := now + us s DETECT_IDLE_US\<rparr>
                  in if driven_low via START \<and> \<not> frame_active s
                     then start_frame (now + us s START_DELAY_US) (to16 (portb_pin_value drive via)) True s
                     else s)
               else s)
      in s\<lparr>prev_solb_low := solb_low\<rparr>)"

definition board_frame_end :: "u64 \<Rightarrow> ps2_board_state \<Rightarrow> ps2_board_state" where
  "board_frame_end now s =
     (if frame_active s \<and> now \<ge> frame_end s then
        (let s = s\<lparr>frame_active := False, detector_until := now + us s DETECT_IDLE_US,
                   shift_register := frame_byte s\<rparr>
         in if from_host s then receive_command (frame_byte s) now s
            else s\<lparr>next_send := now + us s (if frame_last_of_key s then key_interval_us s else BYTE_GAP_US)\<rparr>)
      else s)"

definition board_send :: "u64 \<Rightarrow> bool \<Rightarrow> ps2_board_state \<Rightarrow> ps2_board_state" where
  "board_send now solb_low s =
     (if \<not> frame_active s \<and> \<not> solb_low \<and> now \<ge> next_send s then
        (if q_count (replies s) \<noteq> 0 then
           (let (entry, q) = queue_take (replies s) in start_frame now entry False (s\<lparr>replies := q\<rparr>))
         else if q_count (keys s) \<noteq> 0 \<and> commands s \<noteq> 0 \<and> now \<ge> keys_after s then
           (let (entry, q) = queue_take (keys s) in start_frame now entry False (s\<lparr>keys := q\<rparr>))
         else s)
      else s)"

definition clock_busy :: "u64 \<Rightarrow> bool \<Rightarrow> ps2_board_state \<Rightarrow> bool" where
  "clock_busy now solb_low s \<longleftrightarrow>
     solb_low \<or> frame_active s \<and> now \<ge> frame_start s \<or> now < detector_until s"

definition board_lines :: "u8 option \<Rightarrow> u64 \<Rightarrow> via_6522_state \<Rightarrow> ps2_board_state \<Rightarrow> ps2_board_state" where
  "board_lines drive now via s =
     board_send now (driven_low via SOLB) (board_frame_end now (board_release drive now via s))"

definition detector_level :: "u64 \<Rightarrow> bool \<Rightarrow> ps2_board_state \<Rightarrow> bool" where
  "detector_level now solb_low s \<longleftrightarrow> fault s = PS2_FAULT_NOEDGE \<or> \<not> clock_busy now solb_low s"

definition board_detector ::
  "u64 \<Rightarrow> ps2_board_state \<times> 'a via_bus \<Rightarrow> ps2_board_state \<times> 'a via_bus" where
  "board_detector now = (\<lambda>(s, via, b).
     let ca2 = detector_level now (driven_low via SOLB) s
     in if ca2 \<noteq> board_ca2 s then (s\<lparr>board_ca2 := ca2\<rparr>, via_6522_set_ca2 ca2 (via, b)) else (s, via, b))"

definition ps2_board_tick ::
  "u8 option \<Rightarrow> ps2_board_state \<times> 'a via_bus \<Rightarrow> ps2_board_state \<times> 'a via_bus" where
  "ps2_board_tick drive = (\<lambda>(s, via, b).
     board_detector (osc_ticks b) (board_lines drive (osc_ticks b) via s, via, b))"

definition ps2_board_output :: "via_6522_state \<Rightarrow> ps2_board_state \<Rightarrow> u8 option" where
  "ps2_board_output via s =
     (if \<not> driven_low via SOEB then None else Some (NOT (shift_register s)))"

text \<open>A key is queued whole or not at all.\<close>

fun key_entries :: "u8 list \<Rightarrow> u16 list" where
  "key_entries [] = []"
| "key_entries (c # cs) = (to16 c OR (if cs = [] then PS2_LAST_OF_KEY else 0)) # key_entries cs"

definition ps2_board_queue_key :: "u8 list \<Rightarrow> ps2_board_state \<Rightarrow> ps2_board_state option" where
  "ps2_board_queue_key codes s =
     (if q_count (keys s) + length codes > PS2_QUEUE_SIZE then None
      else Some (s\<lparr>keys := fold queue_put_or_drop (key_entries codes) (keys s)\<rparr>))"

definition empty_queue :: ps2_byte_queue where
  "empty_queue = \<lparr>q_entries = (\<lambda>_. 0), q_head = 0, q_count = 0\<rparr>"

definition ps2_board_init :: "u32 \<Rightarrow> via_6522_state \<Rightarrow> ps2_board_state \<times> via_6522_state" where
  "ps2_board_init tpu via =
     (\<lparr>ticks_per_us = tpu, fault = PS2_FAULT_NONE, shift_register = 0, prev_solb_low = False,
       board_ca2 = True, frame_active = False, from_host = False, frame_byte = 0,
       frame_last_of_key = False, frame_start = 0, frame_end = 0, detector_until = 0,
       replies = empty_queue, keys = empty_queue, next_send = 0, keys_after = 0,
       key_interval_us = KEY_INTERVAL_US, awaiting_argument_for = 0, commands = 0\<rparr>,
      via\<lparr>ca2_in := True\<rparr>)"

section \<open>The queues in order\<close>

definition queue_ok :: "ps2_byte_queue \<Rightarrow> bool" where
  "queue_ok q \<longleftrightarrow> q_head q < PS2_QUEUE_SIZE \<and> q_count q \<le> PS2_QUEUE_SIZE"

definition queue_content :: "ps2_byte_queue \<Rightarrow> u16 list" where
  "queue_content q = ring PS2_QUEUE_SIZE (q_entries q) (q_head q) (q_count q)"

lemma queue_size: "1 < PS2_QUEUE_SIZE"
  by (simp add: PS2_QUEUE_SIZE_def)

lemma length_queue_content [simp]: "length (queue_content q) = q_count q"
  by (simp add: queue_content_def)

interpretation ps2_q: fifo queue_content queue_put queue_take PS2_QUEUE_SIZE queue_ok
proof unfold_locales
  fix q :: ps2_byte_queue and x
  assume ok: "queue_ok q"
  show "\<not> length (queue_content q) < PS2_QUEUE_SIZE \<Longrightarrow> queue_put x q = None"
    using ok by (simp add: queue_put_def queue_ok_def)
  show "length (queue_content q) \<le> PS2_QUEUE_SIZE"
    using ok by (simp add: queue_ok_def)
  show "\<exists>q'. queue_put x q = Some q' \<and> queue_ok q' \<and> queue_content q' = queue_content q @ [x]"
    if "length (queue_content q) < PS2_QUEUE_SIZE"
    using that ok ring_append[of "q_count q" PS2_QUEUE_SIZE "q_entries q" "q_head q" x]
    by (simp add: queue_put_def queue_ok_def queue_content_def)
next
  fix q :: ps2_byte_queue and x xs
  assume ok: "queue_ok q" and c: "queue_content q = x # xs"
  have pos: "0 < q_count q" using c by (metis length_queue_content length_greater_0_conv list.distinct(1))
  then show "fst (queue_take q) = x \<and> queue_ok (snd (queue_take q)) \<and> queue_content (snd (queue_take q)) = xs"
    using ok c ring_head[OF pos, of PS2_QUEUE_SIZE "q_entries q" "q_head q"] queue_size
    by (auto simp: queue_take_def queue_ok_def queue_content_def)
qed


section \<open>Keys\<close>

lemma put_or_drop_content:
  "queue_ok q \<Longrightarrow> q_count q < PS2_QUEUE_SIZE \<Longrightarrow>
    queue_ok (queue_put_or_drop x q) \<and> queue_content (queue_put_or_drop x q) = queue_content q @ [x]"
  using ps2_q.put_room[of q x] by (auto simp: queue_put_or_drop_def)

lemma put_all_content:
  "queue_ok q \<Longrightarrow> q_count q + length xs \<le> PS2_QUEUE_SIZE \<Longrightarrow>
    queue_ok (fold queue_put_or_drop xs q) \<and>
    queue_content (fold queue_put_or_drop xs q) = queue_content q @ xs"
proof (induction xs arbitrary: q)
  case (Cons x xs)
  have p: "queue_ok (queue_put_or_drop x q)" "queue_content (queue_put_or_drop x q) = queue_content q @ [x]"
    using put_or_drop_content[of q x] Cons.prems by auto
  have "q_count (queue_put_or_drop x q) = Suc (q_count q)"
    using arg_cong[OF p(2), of length] by (simp only: length_queue_content length_append_singleton)
  then have "q_count (queue_put_or_drop x q) + length xs \<le> PS2_QUEUE_SIZE"
    using Cons.prems(2) by simp
  from Cons.IH[OF p(1) this] p(2) show ?case by simp
qed simp

lemma length_key_entries [simp]: "length (key_entries codes) = length codes"
  by (induction codes rule: key_entries.induct) auto

lemma last_of_key_bit: "PS2_LAST_OF_KEY = push_bit 8 1"
  by (simp add: PS2_LAST_OF_KEY_def)

lemma bit_last_of_key: "bit PS2_LAST_OF_KEY n \<longleftrightarrow> n = 8"
  unfolding last_of_key_bit by (simp only: bit_push_bit_iff bit_1_iff) auto

lemma entry_byte: "to8 (to16 c OR (if l then PS2_LAST_OF_KEY else 0)) = c"
  by (rule bit_word_eqI) (auto simp: bit_simps bit_last_of_key)

lemma key_bytes [simp]: "map to8 (key_entries cs) = cs"
  by (induction cs rule: key_entries.induct)
    (auto simp: entry_byte[where l=True, simplified] entry_byte[where l=False, simplified])

lemma entry_flag: "(to16 c OR (if l then PS2_LAST_OF_KEY else 0)) AND PS2_LAST_OF_KEY \<noteq> 0 \<longleftrightarrow> l"
  unfolding last_of_key_bit
  by (subst and_bit_zero_iff) (auto simp: bit_simps bit_last_of_key simp flip: last_of_key_bit)

lemma queue_key_content:
  assumes "queue_ok (keys s)" "ps2_board_queue_key codes s = Some s'"
  shows "queue_ok (keys s') \<and> queue_content (keys s') = queue_content (keys s) @ key_entries codes"
  using put_all_content[OF assms(1), of "key_entries codes"] assms(2)
  by (auto simp: ps2_board_queue_key_def split: if_splits)

text \<open>
  A key is sent whole, in order, and marked at its end. With room for all its
  codes the queue holds them behind what it held, as the bytes of the codes with the last one
  alone marked; without room nothing is queued.
\<close>

theorem ps2_key_queued_whole:
  assumes "queue_ok (keys s)" "n = q_count (keys s)"
  shows "case ps2_board_queue_key codes s of
      Some s' \<Rightarrow> n + length codes \<le> PS2_QUEUE_SIZE \<and>
        fst (get_n queue_take n (keys s')) = queue_content (keys s) \<and>
        (let sent = fst (get_n queue_take (length codes) (snd (get_n queue_take n (keys s'))))
         in map to8 sent = codes \<and>
            map (\<lambda>e. e AND PS2_LAST_OF_KEY \<noteq> 0) sent =
              map (\<lambda>i. Suc i = length codes) [0..<length codes])
    | None \<Rightarrow> PS2_QUEUE_SIZE < n + length codes"
proof (cases "PS2_QUEUE_SIZE < n + length codes")
  case False
  let ?q = "fold queue_put_or_drop (key_entries codes) (keys s)"
  have q: "queue_ok ?q" "queue_content ?q = queue_content (keys s) @ key_entries codes"
    using put_all_content[OF assms(1), of "key_entries codes"] False assms(2) by simp_all
  have len: "length (queue_content ?q) = n + length codes"
    unfolding q(2) by (simp add: assms(2))
  have first: "fst (get_n queue_take n ?q) = queue_content (keys s)"
    "queue_ok (snd (get_n queue_take n ?q))"
    "queue_content (snd (get_n queue_take n ?q)) = key_entries codes"
    using ps2_q.get_n_content[OF q(1), of n] len q(2) assms(2) by simp_all
  have second: "fst (get_n queue_take (length codes) (snd (get_n queue_take n ?q))) = key_entries codes"
    using ps2_q.get_n_content[OF first(2), of "length codes"] first(3) by simp
  have flags: "map (\<lambda>e. e AND PS2_LAST_OF_KEY \<noteq> 0) (key_entries cs) =
      map (\<lambda>i. Suc i = length cs) [0..<length cs]" for cs
  proof (induction cs rule: key_entries.induct)
    case (2 c cs)
    have s: "[0..<length (c # cs)] = 0 # map Suc [0..<length cs]"
      by (simp add: map_Suc_upt upt_conv_Cons del: upt_Suc)
    show ?case
      unfolding s using 2 entry_flag[of c "cs = []"] by (auto simp del: upt_Suc)
  qed simp
  show ?thesis
    using False assms(2) first(1) second key_bytes flags by (simp add: ps2_board_queue_key_def Let_def)
qed (simp add: ps2_board_queue_key_def assms(2))

theorem ps2_key_witness:
  "\<exists>s. ps2_board_queue_key [0x1C, 0xF0, 0x1C] (fst (ps2_board_init 2 via_6522_init)) = Some s \<and>
    map to8 (fst (get_n queue_take 3 (keys s))) = [0x1C, 0xF0, 0x1C]"
proof -
  let ?s = "fst (ps2_board_init 2 via_6522_init)"
  have ok: "queue_ok (keys ?s)" "0 = q_count (keys ?s)"
    by (simp_all add: ps2_board_init_def empty_queue_def queue_ok_def PS2_QUEUE_SIZE_def)
  obtain t where t: "ps2_board_queue_key [0x1C, 0xF0, 0x1C] ?s = Some t"
    by (simp add: ps2_board_queue_key_def ps2_board_init_def empty_queue_def PS2_QUEUE_SIZE_def)
  show ?thesis
    using ps2_key_queued_whole[OF ok, of "[0x1C, 0xF0, 0x1C]"] t
    by (simp add: Let_def numeral_3_eq_3 del: get_n.simps(2))
qed

end
