(* ===== verification/Ps2_Protocol.thy ===== *)
theory Ps2_Protocol imports Ps2_Board begin

text \<open>
  The keyboard board over time: what the tick does while the host leaves the lines alone, and
  the exchange of a command and its answer as a run of ticks.
\<close>

section \<open>Runs of ticks\<close>

text \<open>One oscillator tick of the board alone, the VIA's registers as the host left them.\<close>

definition board_step ::
  "u8 option \<Rightarrow> ps2_board_state \<times> 'a via_bus \<Rightarrow> ps2_board_state \<times> 'a via_bus" where
  "board_step drive = (\<lambda>(s, via, b). ps2_board_tick drive (s, via, b\<lparr>osc_ticks := osc_ticks b + 1\<rparr>))"

text \<open>The same without the frame detector: the ticks \<open>t + 1\<close> to \<open>t + n\<close>.\<close>

fun lines_run :: "u8 option \<Rightarrow> via_6522_state \<Rightarrow> nat \<Rightarrow> nat \<Rightarrow> ps2_board_state \<Rightarrow> ps2_board_state" where
  "lines_run drive via t 0 s = s"
| "lines_run drive via t (Suc n) s =
     lines_run drive via (Suc t) n (board_lines drive (word_of_nat (Suc t)) via s)"

lemma lines_run_add:
  "lines_run drive via t (n + m) s = lines_run drive via (t + n) m (lines_run drive via t n s)"
  by (induction n arbitrary: t s) simp_all

lemma lines_run_Suc:
  "lines_run drive via t (Suc n) s = board_lines drive (word_of_nat (t + Suc n)) via (lines_run drive via t n s)"
  using lines_run_add[of drive via t n 1 s] by simp

lemma lines_run_quiet:
  "(\<And>k. t < k \<Longrightarrow> k \<le> t + n \<Longrightarrow> board_lines drive (word_of_nat k) via s = s) \<Longrightarrow>
    lines_run drive via t n s = s"
proof (induction n)
  case (Suc n)
  from Suc.IH Suc.prems have "lines_run drive via t n s = s" by simp
  moreover have "board_lines drive (word_of_nat (t + Suc n)) via s = s" by (rule Suc.prems) simp_all
  ultimately show ?case by (simp only: lines_run_Suc)
qed simp

text \<open>The detector only moves CA2: the lines of the board and the pins are as without it.\<close>

lemma us_ca2 [simp]: "us (s\<lparr>board_ca2 := c\<rparr>) = us s"
  by (simp add: us_def fun_eq_iff)

lemma start_frame_ca2 [simp]:
  "start_frame t e h (s\<lparr>board_ca2 := c\<rparr>) = start_frame t e h s\<lparr>board_ca2 := c\<rparr>"
  by (simp add: start_frame_def)

lemma reply_ca2: "reply x (s\<lparr>board_ca2 := c\<rparr>) = reply x s\<lparr>board_ca2 := c\<rparr>"
  by (simp add: reply_def)

lemma receive_ca2: "receive_command x t (s\<lparr>board_ca2 := c\<rparr>) = receive_command x t s\<lparr>board_ca2 := c\<rparr>"
proof -
  have i: "(if b then u\<lparr>board_ca2 := c\<rparr> else w\<lparr>board_ca2 := c\<rparr>) = (if b then u else w)\<lparr>board_ca2 := c\<rparr>"
    for b and u w :: ps2_board_state
    by simp
  let ?u = "\<lambda>s. s\<lparr>commands := commands s + 1, next_send := t + us s REPLY_DELAY_US,
    keys_after := t + us s KEY_QUIET_US\<rparr>"
  let ?f = "\<lambda>s. s\<lparr>awaiting_argument_for := x\<rparr>" and ?g = "\<lambda>s. s\<lparr>awaiting_argument_for := 0\<rparr>"
  have u: "?u (s\<lparr>board_ca2 := c\<rparr>) = ?u s\<lparr>board_ca2 := c\<rparr>"
    "?f (v\<lparr>board_ca2 := c\<rparr>) = ?f v\<lparr>board_ca2 := c\<rparr>" "?g (v\<lparr>board_ca2 := c\<rparr>) = ?g v\<lparr>board_ca2 := c\<rparr>" for v
    by simp_all
  have k: "fault (v\<lparr>board_ca2 := c\<rparr>) = fault v"
    "awaiting_argument_for (v\<lparr>board_ca2 := c\<rparr>) = awaiting_argument_for v" for v
    by simp_all
  show ?thesis unfolding receive_command_def Let_def u k reply_ca2 i ..
qed

lemma board_lines_ca2:
  "board_lines drive t via (s\<lparr>board_ca2 := c\<rparr>) = board_lines drive t via s\<lparr>board_ca2 := c\<rparr>"
proof -
  have r: "board_release drive t via (s\<lparr>board_ca2 := c\<rparr>) = board_release drive t via s\<lparr>board_ca2 := c\<rparr>" for s
    unfolding board_release_def Let_def us_ca2 by (simp add: start_frame_def us_def)
  have comm: "s\<lparr>board_ca2 := c, frame_active := False, detector_until := d, shift_register := z\<rparr> =
      (s\<lparr>frame_active := False, detector_until := d, shift_register := z\<rparr>)\<lparr>board_ca2 := c\<rparr>" for s d z
    by simp
  have e: "board_frame_end t (s\<lparr>board_ca2 := c\<rparr>) = board_frame_end t s\<lparr>board_ca2 := c\<rparr>" for s
    unfolding board_frame_end_def Let_def us_ca2 by (simp add: comm receive_ca2 us_def)
  have n: "board_send t l (s\<lparr>board_ca2 := c\<rparr>) = board_send t l s\<lparr>board_ca2 := c\<rparr>" for s l
    unfolding board_send_def Let_def by (simp add: start_frame_def us_def split_beta)
  show ?thesis by (simp only: board_lines_def r e n)
qed

definition same_pins :: "via_6522_state \<Rightarrow> via_6522_state \<Rightarrow> bool" where
  "same_pins v w \<longleftrightarrow> ora w = ora v \<and> ddra w = ddra v \<and> porta_input w = porta_input v \<and>
     orb w = orb v \<and> ddrb w = ddrb v \<and> via_acr w = via_acr v \<and> pb7 w = pb7 v"

lemma same_pins_lines:
  "same_pins v w \<Longrightarrow> driven_low w p = driven_low v p"
  "same_pins v w \<Longrightarrow> board_lines drive t w s = board_lines drive t v s"
proof -
  show d: "same_pins v w \<Longrightarrow> driven_low w p = driven_low v p" for p
    by (simp add: same_pins_def driven_low_def porta_pin_value_def)
  assume h: "same_pins v w"
  then have "portb_pin_value drive w = portb_pin_value drive v"
    by (simp add: same_pins_def portb_pin_value_def Let_def split: option.split)
  then show "board_lines drive t w s = board_lines drive t v s"
    by (simp only: board_lines_def board_release_def d[OF h])
qed

lemma set_ca2_pins:
  "via_6522_set_ca2 l (v, b) = (w, b') \<Longrightarrow>
    same_pins v w \<and> osc_ticks b' = osc_ticks b \<and> ca2_in w = l"
  by (auto simp: via_6522_set_ca2_def Let_def via_set_ifr_def update_irq_def same_pins_def split: if_splits)

lemma board_detector_cases:
  obtains c w b' where "board_detector t (s, v, b) = (s\<lparr>board_ca2 := c\<rparr>, w, b')" "same_pins v w"
    "osc_ticks b' = osc_ticks b"
proof (cases "detector_level t (driven_low v SOLB) s = board_ca2 s")
  case True
  then have "board_detector t (s, v, b) = (s\<lparr>board_ca2 := board_ca2 s\<rparr>, v, b)"
    by (simp add: board_detector_def Let_def)
  then show ?thesis by (rule that) (simp_all add: same_pins_def)
next
  case False
  let ?c = "detector_level t (driven_low v SOLB) s"
  obtain w b' where w: "via_6522_set_ca2 ?c (v, b) = (w, b')" by (rule prod.exhaust)
  have "board_detector t (s, v, b) = (s\<lparr>board_ca2 := ?c\<rparr>, w, b')"
    unfolding board_detector_def Let_def prod.case if_P[OF False] w ..
  then show ?thesis by (rule that) (use set_ca2_pins[OF w] in simp_all)
qed

lemma same_pins_trans: "same_pins u v \<Longrightarrow> same_pins v w \<Longrightarrow> same_pins u w"
  by (simp add: same_pins_def)

lemma board_run_lines:
  "\<exists>c w b'. (board_step drive ^^ n) (s, v, b) =
      (lines_run drive v (unat (osc_ticks b)) n s\<lparr>board_ca2 := c\<rparr>, w, b') \<and>
    same_pins v w \<and> osc_ticks b' = osc_ticks b + word_of_nat n"
proof (induction n)
  case 0
  have "(board_step drive ^^ 0) (s, v, b) =
      (lines_run drive v (unat (osc_ticks b)) 0 s\<lparr>board_ca2 := board_ca2 s\<rparr>, v, b)"
    by simp
  then show ?case by (intro exI[of _ "board_ca2 s"] exI[of _ v] exI[of _ b]) (auto simp: same_pins_def)
next
  case (Suc n)
  then obtain c w b' where IH:
    "(board_step drive ^^ n) (s, v, b) =
      (lines_run drive v (unat (osc_ticks b)) n s\<lparr>board_ca2 := c\<rparr>, w, b')"
    "same_pins v w" "osc_ticks b' = osc_ticks b + word_of_nat n"
    by blast
  let ?t = "unat (osc_ticks b)" and ?b = "b'\<lparr>osc_ticks := osc_ticks b' + 1\<rparr>"
  have t: "osc_ticks ?b = word_of_nat (?t + Suc n)"
    by (simp add: IH(3))
  have l: "board_lines drive (osc_ticks ?b) w (lines_run drive v ?t n s\<lparr>board_ca2 := c\<rparr>) =
      lines_run drive v ?t (Suc n) s\<lparr>board_ca2 := c\<rparr>"
    by (simp only: t same_pins_lines(2)[OF IH(2)] board_lines_ca2 lines_run_Suc)
  have step: "(board_step drive ^^ Suc n) (s, v, b) =
      board_detector (osc_ticks ?b) (lines_run drive v ?t (Suc n) s\<lparr>board_ca2 := c\<rparr>, w, ?b)"
  proof -
    have "(board_step drive ^^ Suc n) (s, v, b) = board_step drive ((board_step drive ^^ n) (s, v, b))"
      by simp
    also have "\<dots> = board_detector (osc_ticks ?b)
        (lines_run drive v ?t (Suc n) s\<lparr>board_ca2 := c\<rparr>, w, ?b)"
      unfolding IH(1) by (simp only: board_step_def prod.case ps2_board_tick_def l)
    finally show ?thesis .
  qed
  show ?case
  proof (rule board_detector_cases[of "osc_ticks ?b" "lines_run drive v ?t (Suc n) s\<lparr>board_ca2 := c\<rparr>" w ?b])
    fix c' w' b''
    assume d: "board_detector (osc_ticks ?b) (lines_run drive v ?t (Suc n) s\<lparr>board_ca2 := c\<rparr>, w, ?b) =
        (lines_run drive v ?t (Suc n) s\<lparr>board_ca2 := c\<rparr>\<lparr>board_ca2 := c'\<rparr>, w', b'')"
      "same_pins w w'" "osc_ticks b'' = osc_ticks ?b"
    have "osc_ticks b'' = osc_ticks b + word_of_nat (Suc n)" using d(3) t by simp
    moreover have "(board_step drive ^^ Suc n) (s, v, b) =
        (lines_run drive v ?t (Suc n) s\<lparr>board_ca2 := c'\<rparr>, w', b'')"
      unfolding step d(1) by simp
    ultimately show ?case using same_pins_trans[OF IH(2) d(2)] by blast
  qed
qed

section \<open>A command and its answer\<close>

lemma unat_us: "unat (us s n) = unat n * unat (ticks_per_us s)"
proof -
  have "unat n < 2 ^ 32" "unat (ticks_per_us s) < 2 ^ 32"
    using unsigned_less[of n] unsigned_less[of "ticks_per_us s"] by simp_all
  then have p: "unat n * unat (ticks_per_us s) < 2 ^ 64"
    using mult_strict_mono[of "unat n" "2 ^ 32" "unat (ticks_per_us s)" "2 ^ 32"] by simp
  have "unat (ucast w :: u64) = unat w" for w :: u32
  proof -
    have "unat w < 2 ^ 64" by (rule order.strict_trans[OF unsigned_less]) simp
    then show ?thesis by (simp add: unsigned_ucast_eq take_bit_nat_eq_self)
  qed
  then show ?thesis using p by (simp add: us_def unat_word_ariths)
qed

text \<open>Nothing moves while the host leaves the clock alone and no time has come.\<close>

definition host_quiet :: "via_6522_state \<Rightarrow> ps2_board_state \<Rightarrow> bool" where
  "host_quiet via s \<longleftrightarrow> \<not> driven_low via SOLB \<and> \<not> prev_solb_low s"

lemma quiet_release: "host_quiet via s \<Longrightarrow> board_release drive t via s = s"
  by (simp add: host_quiet_def board_release_def Let_def)

lemma lines_quiet:
  assumes "host_quiet via s"
  shows "frame_active s \<Longrightarrow> t < frame_end s \<Longrightarrow> board_lines drive t via s = s"
    and "\<not> frame_active s \<Longrightarrow> t < next_send s \<Longrightarrow> board_lines drive t via s = s"
  using assms
  by (auto simp: board_lines_def quiet_release board_frame_end_def board_send_def host_quiet_def)

lemma lines_run_until:
  assumes "0 < d" "unat e = t + d"
    and "\<And>k. k < e \<Longrightarrow> board_lines drive k via s = s"
  shows "lines_run drive via t d s = board_lines drive e via s"
proof -
  obtain n where n: "d = Suc n" using assms(1) by (cases d) auto
  have "unat e < 2 ^ 64" using unsigned_less[of e] by simp
  then have lt: "word_of_nat k < e" if "k \<le> t + n" for k
    using that assms(2) n by (simp add: word_less_nat_alt unat_of_nat)
  have "lines_run drive via t n s = s"
    by (rule lines_run_quiet) (use assms(3) lt in blast)
  moreover have "word_of_nat (t + Suc n) = e"
    by (simp only: n[symmetric] assms(2)[symmetric]) simp
  ultimately show ?thesis by (simp only: n lines_run_Suc)
qed

lemma frame_runs:
  assumes "host_quiet via s" "frame_active s" "0 < d" "unat (frame_end s) = t + d"
  shows "lines_run drive via t d s = board_send (frame_end s) False (board_frame_end (frame_end s) s)"
  using lines_run_until[OF assms(3,4) lines_quiet(1)[OF assms(1,2)]] assms(1)
  by (simp add: board_lines_def quiet_release host_quiet_def)

lemma wait_runs:
  assumes "host_quiet via s" "\<not> frame_active s" "0 < d" "unat (next_send s) = t + d"
  shows "lines_run drive via t d s = board_send (next_send s) False s"
  using lines_run_until[OF assms(3,4) lines_quiet(2)[OF assms(1,2)]] assms(1,2)
  by (simp add: board_lines_def quiet_release host_quiet_def board_frame_end_def)

text \<open>The keyboard's answers to the commands, as its description lists them.\<close>

definition ps2_answers :: "u8 \<Rightarrow> u16 list" where
  "ps2_answers x = (if x = 0xEE then [0xEE] else if x = 0xFF then [0xFA, 0xAA]
     else if x = 0xF2 then [0xFA, 0xAB, 0x83] else [0xFA])"

lemma reply_content:
  "queue_ok (replies s) \<Longrightarrow> q_count (replies s) < PS2_QUEUE_SIZE \<Longrightarrow>
    queue_ok (replies (reply x s)) \<and> queue_content (replies (reply x s)) = queue_content (replies s) @ [x]"
  using put_or_drop_content[of "replies s" x] by (simp add: reply_def)

lemma reply_count:
  "queue_ok (replies s) \<Longrightarrow> q_count (replies s) < PS2_QUEUE_SIZE \<Longrightarrow>
    q_count (replies (reply x s)) = Suc (q_count (replies s))"
  using arg_cong[OF conjunct2[OF reply_content[of s x]], of length]
  by (simp only: length_queue_content length_append_singleton)

lemma reply_fields [simp]:
  "commands (reply x s) = commands s" "next_send (reply x s) = next_send s"
  "ticks_per_us (reply x s) = ticks_per_us s" "frame_active (reply x s) = frame_active s"
  "prev_solb_low (reply x s) = prev_solb_low s" "awaiting_argument_for (reply x s) = awaiting_argument_for s"
  "us (reply x s) = us s"
  by (simp_all add: reply_def us_def fun_eq_iff)

lemma answers_queued:
  fixes x :: u8 and now :: u64
  assumes "fault s = PS2_FAULT_NONE" "awaiting_argument_for s = 0" "queue_ok (replies s)"
    and "queue_content (replies s) = []"
  defines "r \<equiv> receive_command x now s"
  shows "queue_ok (replies r) \<and> queue_content (replies r) = ps2_answers x \<and> commands r = commands s + 1 \<and>
    next_send r = now + us s REPLY_DELAY_US \<and> ticks_per_us r = ticks_per_us s \<and>
    frame_active r = frame_active s \<and> prev_solb_low r = prev_solb_low s"
proof -
  have c: "q_count (replies s) = 0" using assms(4) by (metis length_queue_content list.size(3))
  note n = reply_content reply_count c assms(1-4) PS2_QUEUE_SIZE_def
  show ?thesis
    unfolding r_def receive_command_def Let_def by (simp add: n ps2_answers_def)
qed

text \<open>The four phases, each a run up to its time.\<close>

lemma us_later:
  "unat w + unat n * unat (ticks_per_us s) < 2 ^ 64 \<Longrightarrow>
    unat (w + us s n) = unat w + unat n * unat (ticks_per_us s)"
  by (simp add: unat_word_ariths unat_us)

lemma release_starts:
  assumes "\<not> frame_active s" "prev_solb_low s" "\<not> driven_low v SOLB" "driven_low v START"
    and "0 < unat (ticks_per_us s)" "Suc t + 1960 * unat (ticks_per_us s) < 2 ^ 64"
  shows "\<exists>s'. lines_run drive v t 1 s = s' \<and> host_quiet v s' \<and> frame_active s' \<and> from_host s' \<and>
    frame_byte s' = portb_pin_value drive v \<and>
    unat (frame_end s') = Suc t + 1960 * unat (ticks_per_us s) \<and>
    fault s' = fault s \<and> awaiting_argument_for s' = awaiting_argument_for s \<and>
    replies s' = replies s \<and> ticks_per_us s' = ticks_per_us s \<and> commands s' = commands s"
proof -
  define t0 :: u64 where "t0 = word_of_nat (Suc t)"
  have t0: "unat t0 = Suc t" using assms(6) by (simp add: t0_def unat_of_nat del: of_nat_Suc)
  define s0 where "s0 = s\<lparr>detector_until := t0 + us s DETECT_IDLE_US\<rparr>"
  have s0: "us s0 = us s" "\<not> frame_active s0" "fault s0 = fault s" "replies s0 = replies s"
    "awaiting_argument_for s0 = awaiting_argument_for s" "ticks_per_us s0 = ticks_per_us s"
    "commands s0 = commands s"
    using assms(1) by (simp_all add: s0_def us_def fun_eq_iff)
  define s1 where "s1 = start_frame (t0 + us s START_DELAY_US) (to16 (portb_pin_value drive v)) True
      s0\<lparr>prev_solb_low := False\<rparr>"
  have r: "board_release drive t0 v s = s1"
    unfolding board_release_def Let_def s0_def[symmetric] s0(1)
    using assms(2-4) s0(2) by (simp add: s1_def)
  have fe: "unat (frame_end s1) = Suc t + 1960 * unat (ticks_per_us s)"
  proof -
    have a: "unat (t0 + us s START_DELAY_US) = Suc t + 1000 * unat (ticks_per_us s)"
      using assms(6) by (subst us_later) (simp_all add: t0)
    have "frame_end s1 = (t0 + us s START_DELAY_US) + us s 960"
      by (simp add: s1_def start_frame_def s0)
    then show ?thesis using a assms(6) by (simp only:) (subst us_later; simp)
  qed
  have f: "frame_active s1" "from_host s1" "frame_byte s1 = portb_pin_value drive v" "\<not> prev_solb_low s1"
    "fault s1 = fault s" "awaiting_argument_for s1 = awaiting_argument_for s" "replies s1 = replies s"
    "ticks_per_us s1 = ticks_per_us s" "commands s1 = commands s"
    using s0 by (simp_all add: s1_def start_frame_def)
  have "t0 < frame_end s1" using fe assms(5) by (simp only: word_less_nat_alt t0)
  then have e: "board_send t0 (driven_low v SOLB) (board_frame_end t0 s1) = s1"
    using f(1) by (simp add: board_frame_end_def board_send_def)
  have "lines_run drive v t 1 s = board_lines drive t0 v s" by (simp add: t0_def)
  also have "\<dots> = s1" unfolding board_lines_def r by (rule e)
  finally show ?thesis using fe f assms(3) unfolding host_quiet_def by blast
qed

lemma command_arrives:
  assumes "host_quiet v s" "frame_active s" "from_host s" "0 < d" "unat (frame_end s) = t + d"
    and "fault s = PS2_FAULT_NONE" "awaiting_argument_for s = 0"
    and "queue_ok (replies s)" "queue_content (replies s) = []"
    and "0 < unat (ticks_per_us s)" "t + d + 1000 * unat (ticks_per_us s) < 2 ^ 64"
  shows "\<exists>s'. lines_run drive v t d s = s' \<and> host_quiet v s' \<and> \<not> frame_active s' \<and>
    queue_ok (replies s') \<and> queue_content (replies s') = ps2_answers (frame_byte s) \<and>
    unat (next_send s') = t + d + 1000 * unat (ticks_per_us s) \<and>
    ticks_per_us s' = ticks_per_us s \<and> commands s' = commands s + 1"
proof -
  define u where "u = s\<lparr>frame_active := False, detector_until := frame_end s + us s DETECT_IDLE_US,
    shift_register := frame_byte s\<rparr>"
  define s2 where "s2 = receive_command (frame_byte s) (frame_end s) u"
  have u: "fault u = PS2_FAULT_NONE" "awaiting_argument_for u = 0" "queue_ok (replies u)"
    "queue_content (replies u) = []" "\<not> frame_active u" "us u = us s" "commands u = commands s"
    "ticks_per_us u = ticks_per_us s" "prev_solb_low u = prev_solb_low s"
    using assms(6-9) by (simp_all add: u_def us_def fun_eq_iff)
  note a = answers_queued[OF u(1-4), of "frame_byte s" "frame_end s", folded s2_def, unfolded u]
  have ns: "unat (next_send s2) = t + d + 1000 * unat (ticks_per_us s)"
    using a assms(5,11) by (simp add: us_later)
  have "board_frame_end (frame_end s) s = s2"
    using assms(2,3) by (simp add: board_frame_end_def s2_def u_def Let_def)
  moreover have "board_send (frame_end s) False s2 = s2"
    using ns assms(5,10) by (simp add: board_send_def word_le_nat_alt)
  ultimately have "lines_run drive v t d s = s2"
    using frame_runs[OF assms(1,2,4,5)] by simp
  then show ?thesis
    using a ns u(5) assms(1) by (simp add: host_quiet_def)
qed

lemma answer_starts:
  assumes "host_quiet v s" "\<not> frame_active s" "0 < d" "unat (next_send s) = t + d"
    and "queue_ok (replies s)" "queue_content (replies s) = y # ys" "y AND PS2_LAST_OF_KEY = 0"
    and "t + d + 880 * unat (ticks_per_us s) < 2 ^ 64"
  shows "\<exists>s'. lines_run drive v t d s = s' \<and> host_quiet v s' \<and> frame_active s' \<and> \<not> from_host s' \<and>
    frame_byte s' = to8 y \<and> \<not> frame_last_of_key s' \<and> queue_content (replies s') = ys \<and>
    unat (frame_end s') = t + d + 880 * unat (ticks_per_us s) \<and>
    ticks_per_us s' = ticks_per_us s \<and> commands s' = commands s"
proof -
  note first = ps2_q.get_first[OF assms(5,6)]
  define s3 where "s3 = start_frame (next_send s) y False (s\<lparr>replies := snd (queue_take (replies s))\<rparr>)"
  have "q_count (replies s) \<noteq> 0"
    using assms(6) by (metis length_queue_content length_0_conv list.distinct(1))
  then have "board_send (next_send s) False s = s3"
    using assms(2) first by (simp add: board_send_def s3_def split_beta)
  then have "lines_run drive v t d s = s3"
    using wait_runs[OF assms(1-4)] by simp
  moreover have "unat (next_send s + us s 880) = t + d + 880 * unat (ticks_per_us s)"
    using assms(4,8) by (simp add: us_later)
  ultimately show ?thesis
    using assms(1,7) first by (simp add: s3_def start_frame_def host_quiet_def us_def)
qed

lemma answer_arrives:
  assumes "host_quiet v s" "frame_active s" "\<not> from_host s" "\<not> frame_last_of_key s" "0 < d"
    and "unat (frame_end s) = t + d" "0 < unat (ticks_per_us s)"
    and "t + d + 1000 * unat (ticks_per_us s) < 2 ^ 64"
  shows "\<exists>s'. lines_run drive v t d s = s' \<and> shift_register s' = frame_byte s \<and>
    replies s' = replies s \<and> commands s' = commands s"
proof -
  define s4 where "s4 = s\<lparr>frame_active := False, detector_until := frame_end s + us s DETECT_IDLE_US,
    shift_register := frame_byte s, next_send := frame_end s + us s BYTE_GAP_US\<rparr>"
  have "board_frame_end (frame_end s) s = s4"
    using assms(2-4) by (simp add: board_frame_end_def s4_def us_def)
  moreover have "unat (next_send s4) = t + d + 1000 * unat (ticks_per_us s)"
    using assms(6,8) by (simp add: us_later s4_def)
  then have "board_send (frame_end s) False s4 = s4"
    using assms(6,7) by (simp add: board_send_def word_le_nat_alt)
  ultimately have "lines_run drive v t d s = s4"
    using frame_runs[OF assms(1,2,5,6)] by simp
  then show ?thesis by (simp add: s4_def)
qed

lemma first_answer:
  obtains y ys where "ps2_answers x = y # ys" "y AND PS2_LAST_OF_KEY = 0" "to16 (to8 y) = y"
  by (cases "x = 0xEE"; cases "x = 0xFF"; cases "x = 0xF2")
    (auto simp: ps2_answers_def PS2_LAST_OF_KEY_def)

text \<open>
  Property C36: a command is answered. When the host releases the clock with START low on an
  idle board, and leaves the lines alone, the byte on port B reaches the keyboard (the start
  delay and a host frame later), the keyboard queues the answer its protocol has for it, and
  after the reply delay and a device frame the first byte of the answer is in the board's
  shift register, with the rest of the answer still queued.
\<close>

theorem ps2_command_answered:
  fixes b :: "'a bus_scheme"
  assumes "fault s = PS2_FAULT_NONE" "awaiting_argument_for s = 0" "\<not> frame_active s"
    and "queue_ok (replies s)" "queue_content (replies s) = []"
    and "prev_solb_low s" "\<not> driven_low v SOLB" "driven_low v START"
    and "0 < unat (ticks_per_us s)" "unat (osc_ticks b) + 1 + 4840 * unat (ticks_per_us s) < 2 ^ 64"
  shows "case (board_step drive ^^ (1 + 3840 * unat (ticks_per_us s))) (s, v, b) of (s', v', b') \<Rightarrow>
    to16 (shift_register s') = hd (ps2_answers (portb_pin_value drive v)) \<and>
    queue_content (replies s') = tl (ps2_answers (portb_pin_value drive v)) \<and>
    commands s' = commands s + 1"
proof -
  define x where "x = portb_pin_value drive v"
  define m where "m = unat (ticks_per_us s)"
  define t where "t = unat (osc_ticks b)"
  have m: "0 < m" "t + 1 + 4840 * m < 2 ^ 64" using assms(9,10) by (simp_all add: m_def t_def)
  obtain s1 where s1: "lines_run drive v t 1 s = s1" "host_quiet v s1" "frame_active s1" "from_host s1"
      "frame_byte s1 = x" "unat (frame_end s1) = (t + 1) + 1960 * m" "fault s1 = PS2_FAULT_NONE"
      "awaiting_argument_for s1 = 0" "replies s1 = replies s" "unat (ticks_per_us s1) = m"
      "commands s1 = commands s"
    using release_starts[OF assms(3,6-9), where t = t and drive = drive] m assms(1,2) by (auto simp: m_def x_def)
  obtain s2 where s2: "lines_run drive v (t + 1) (1960 * m) s1 = s2" "host_quiet v s2"
      "\<not> frame_active s2" "queue_ok (replies s2)" "queue_content (replies s2) = ps2_answers x"
      "unat (next_send s2) = (t + 1 + 1960 * m) + 1000 * m" "unat (ticks_per_us s2) = m"
      "commands s2 = commands s + 1"
    using command_arrives[OF s1(2-4) _ s1(6-8), where drive = drive] m assms(4,5) s1(5,9-11) by auto
  obtain y ys where y: "ps2_answers x = y # ys" "y AND PS2_LAST_OF_KEY = 0" "to16 (to8 y) = y"
    by (rule first_answer)
  obtain s3 where s3: "lines_run drive v (t + 1 + 1960 * m) (1000 * m) s2 = s3" "host_quiet v s3"
      "frame_active s3" "\<not> from_host s3" "frame_byte s3 = to8 y" "\<not> frame_last_of_key s3"
      "queue_content (replies s3) = ys" "unat (frame_end s3) = (t + 1 + 1960 * m + 1000 * m) + 880 * m"
      "unat (ticks_per_us s3) = m" "commands s3 = commands s + 1"
    using answer_starts[OF s2(2,3) _ s2(6,4) s2(5)[unfolded y(1)] y(2), where drive = drive] m s2(7,8) by auto
  obtain s4 where s4: "lines_run drive v (t + 1 + 1960 * m + 1000 * m) (880 * m) s3 = s4"
      "shift_register s4 = to8 y" "replies s4 = replies s3" "commands s4 = commands s + 1"
    using answer_arrives[OF s3(2-4,6) _ s3(8), where drive = drive] m s3(5,9,10) by auto
  have n: "1 + 3840 * m = 1 + 1960 * m + 1000 * m + 880 * m" by simp
  have "lines_run drive v t (1 + 3840 * m) s = s4"
    unfolding n lines_run_add s1(1) s2(1) by (simp only: add.assoc[symmetric] s2(1) s3(1) s4(1))
  then obtain c w b' where "(board_step drive ^^ (1 + 3840 * m)) (s, v, b) = (s4\<lparr>board_ca2 := c\<rparr>, w, b')"
    using board_run_lines[where drive = drive and n = "1 + 3840 * m" and s = s and v = v and b = b] unfolding t_def[symmetric] by auto
  then show ?thesis
    unfolding m_def[symmetric] x_def[symmetric] using y s4 s3(7) by simp
qed

text \<open>A reset command to a keyboard at two ticks a microsecond, SOLB just released.\<close>

definition released_pins :: via_6522_state where
  "released_pins = via_6522_init\<lparr>ddra := 0x28, ora := 0x08, ddrb := 0xFF, orb := 0xFF\<rparr>"

definition held_board :: ps2_board_state where
  "held_board = (fst (ps2_board_init 2 via_6522_init))\<lparr>prev_solb_low := True\<rparr>"

theorem ps2_command_witness:
  "case (board_step None ^^ (1 + 3840 * 2)) (held_board, released_pins, bus_init) of (s', v', b') \<Rightarrow>
    to16 (shift_register s') = 0xFA \<and> queue_content (replies s') = [0xAA] \<and> commands s' = 1"
proof -
  have b: "fault held_board = PS2_FAULT_NONE" "awaiting_argument_for held_board = 0"
    "\<not> frame_active held_board" "queue_ok (replies held_board)" "queue_content (replies held_board) = []"
    "prev_solb_low held_board" "unat (ticks_per_us held_board) = 2" "commands held_board = 0"
    by (simp_all add: held_board_def ps2_board_init_def empty_queue_def queue_ok_def queue_content_def
        PS2_QUEUE_SIZE_def)
  have p: "\<not> driven_low released_pins SOLB" "driven_low released_pins START"
    "portb_pin_value None released_pins = 0xFF"
    by (simp_all add: driven_low_def released_pins_def via_6522_init_def porta_pin_value_def
        portb_pin_value_def)
  have a: "ps2_answers 0xFF = [0xFA, 0xAA]" by (simp add: ps2_answers_def)
  show ?thesis
    using ps2_command_answered[OF b(1-6) p(1,2), where b = bus_init and drive = None] b(7,8)
    unfolding p(3) a by (simp add: bus_init_def del: funpow.simps)
qed

section \<open>The frame detector\<close>

definition ps2_inv :: "ps2_board_state \<Rightarrow> via_6522_state \<Rightarrow> bool" where
  "ps2_inv s v \<longleftrightarrow> queue_ok (replies s) \<and> queue_ok (keys s) \<and> board_ca2 s = ca2_in v"

lemma put_or_drop_ok: "queue_ok q \<Longrightarrow> queue_ok (queue_put_or_drop x q)"
  by (simp add: queue_put_or_drop_def queue_put_def queue_ok_def split: option.split)

lemma reply_ok: "queue_ok (replies s) \<Longrightarrow> queue_ok (replies (reply x s))"
  by (simp add: reply_def put_or_drop_ok)

lemma take_ok: "queue_ok q \<Longrightarrow> queue_ok (snd (queue_take q))"
  using queue_size by (auto simp: queue_take_def queue_ok_def)

lemma reply_frame [simp]:
  "keys (reply x s) = keys s" "board_ca2 (reply x s) = board_ca2 s" "fault (reply x s) = fault s"
  by (simp_all add: reply_def)

lemma receive_frame:
  "keys (receive_command x t s) = keys s" "board_ca2 (receive_command x t s) = board_ca2 s"
  "fault (receive_command x t s) = fault s"
  "queue_ok (replies s) \<Longrightarrow> queue_ok (replies (receive_command x t s))"
  by (simp_all add: receive_command_def Let_def reply_ok)

lemma lines_frame:
  "queue_ok (replies s) \<Longrightarrow> queue_ok (replies (board_lines drive t v s))"
  "queue_ok (keys s) \<Longrightarrow> queue_ok (keys (board_lines drive t v s))"
  "board_ca2 (board_lines drive t v s) = board_ca2 s"
  "fault (board_lines drive t v s) = fault s"
proof -
  let ?r = "board_release drive t v s"
  let ?e = "board_frame_end t ?r"
  have r: "replies ?r = replies s" "keys ?r = keys s" "board_ca2 ?r = board_ca2 s" "fault ?r = fault s"
    by (simp_all add: board_release_def Let_def start_frame_def)
  have e: "queue_ok (replies ?r) \<Longrightarrow> queue_ok (replies ?e)" "keys ?e = keys ?r"
    "board_ca2 ?e = board_ca2 ?r" "fault ?e = fault ?r"
    by (simp_all add: board_frame_end_def Let_def receive_frame)
  show "queue_ok (replies s) \<Longrightarrow> queue_ok (replies (board_lines drive t v s))"
    "queue_ok (keys s) \<Longrightarrow> queue_ok (keys (board_lines drive t v s))"
    "board_ca2 (board_lines drive t v s) = board_ca2 s" "fault (board_lines drive t v s) = fault s"
    using r e by (simp_all add: board_lines_def board_send_def start_frame_def split_beta take_ok)
qed

lemma set_ca2_edge:
  assumes "via_6522_set_ca2 l (v, b) = (w, b')" "bit (via_pcr v) 3 = False" "ca2_in v \<noteq> l"
  shows "l = bit (via_pcr v) 2 \<Longrightarrow> bit (via_ifr w) 0"
proof -
  have m: "via_pcr v AND 0x0E AND 0x08 = via_pcr v AND 0x08" "via_pcr v AND 0x0E AND 0x04 = via_pcr v AND 0x04"
    by (rule bit_word_eqI; auto simp: bit_simps bit_lits)+
  show "l = bit (via_pcr v) 2 \<Longrightarrow> bit (via_ifr w) 0"
    using assms
    by (auto simp: via_6522_set_ca2_def Let_def via_set_ifr_def update_irq_def m u8_flag_iff bit_lits
        split: if_splits)
qed

text \<open>
  CA2 follows the keyboard clock. Every tick keeps the queues well formed and the
  board's CA2 equal to the VIA's, which is low exactly while the clock is held low or clocks a
  frame, and for the detector's hold-over after it (with the fault \<open>noedge\<close>, never); and when
  CA2 moves in the direction the program selected, the VIA's CA2 interrupt flag is set.
\<close>

theorem ps2_ca2_tracks_clock:
  assumes "ps2_inv s v" "ps2_board_tick drive (s, v, b) = (s', v', b')"
  shows "ps2_inv s' v' \<and>
    (ca2_in v' \<longleftrightarrow> fault s = PS2_FAULT_NOEDGE \<or> \<not> clock_busy (osc_ticks b) (driven_low v SOLB) s') \<and>
    (ca2_in v' \<noteq> ca2_in v \<longrightarrow> \<not> bit (via_pcr v) 3 \<longrightarrow> ca2_in v' = bit (via_pcr v) 2 \<longrightarrow> bit (via_ifr v') 0)"
proof -
  let ?l = "board_lines drive (osc_ticks b) v s"
  let ?c = "detector_level (osc_ticks b) (driven_low v SOLB) ?l"
  have d: "board_detector (osc_ticks b) (?l, v, b) = (s', v', b')"
    using assms(2) by (simp add: ps2_board_tick_def)
  have q: "queue_ok (replies ?l)" "queue_ok (keys ?l)" "board_ca2 ?l = ca2_in v" "fault ?l = fault s"
    using assms(1) lines_frame by (simp_all add: ps2_inv_def)
  show ?thesis
  proof (cases "?c = board_ca2 ?l")
    case True
    then have "\<not> ?c \<noteq> board_ca2 ?l" by simp
    with d have "(?l, v, b) = (s', v', b')"
      unfolding board_detector_def Let_def prod.case by (simp only: if_False simp_thms)
    then have e: "?l = s'" "v = v'" by blast+
    show ?thesis
      unfolding e[symmetric] ps2_inv_def using True q by (simp add: detector_level_def)
  next
    case False
    have e: "s' = ?l\<lparr>board_ca2 := ?c\<rparr>" "via_6522_set_ca2 ?c (v, b) = (v', b')"
      using d unfolding board_detector_def Let_def prod.case if_P[OF False] by (simp_all only: prod.inject)
    have l: "ca2_in v' = ?c" using set_ca2_pins[OF e(2)] by simp
    have "clock_busy (osc_ticks b) (driven_low v SOLB) s' = clock_busy (osc_ticks b) (driven_low v SOLB) ?l"
      by (simp add: e(1) clock_busy_def)
    then have c: "?c \<longleftrightarrow> fault s = PS2_FAULT_NOEDGE \<or> \<not> clock_busy (osc_ticks b) (driven_low v SOLB) s'"
      using q(4) by (simp add: detector_level_def)
    have i: "ps2_inv s' v'" using q(1,2) l by (simp add: ps2_inv_def e(1))
    have "ca2_in v \<noteq> ?c" using False q(3) by simp
    then show ?thesis using i c l set_ca2_edge[OF e(2)] by auto
  qed
qed

theorem ps2_ca2_witness:
  "case ps2_board_tick None (held_board, released_pins\<lparr>ca2_in := True\<rparr>, bus_init) of (s', v', b') \<Rightarrow>
    ca2_in v' \<longleftrightarrow> \<not> clock_busy 0 False s'"
proof -
  obtain s' v' b' where t: "ps2_board_tick None (held_board, released_pins\<lparr>ca2_in := True\<rparr>, bus_init) = (s', v', b')"
    by (metis prod.exhaust)
  have "ps2_inv held_board (released_pins\<lparr>ca2_in := True\<rparr>)"
    by (simp add: ps2_inv_def held_board_def ps2_board_init_def empty_queue_def queue_ok_def PS2_QUEUE_SIZE_def)
  moreover have "\<not> driven_low (released_pins\<lparr>ca2_in := True\<rparr>) SOLB"
    by (simp add: driven_low_def released_pins_def via_6522_init_def porta_pin_value_def)
  ultimately show ?thesis
    using ps2_ca2_tracks_clock[OF _ t] unfolding t
    by (simp add: held_board_def ps2_board_init_def bus_init_def)
qed

end
