(* ===== verification/Ps2_Keys.thy ===== *)
theory Ps2_Keys imports Ps2_Board begin

text \<open>
  The keys a terminal sends, as scan code set 2 bytes (\<open>src/emulator/ps2_keys.c\<close>), and typing
  a text on Michael's keyboard (\<open>type_keys\<close> of \<open>emu_michael.c\<close>).
\<close>

section \<open>Tables\<close>

abbreviation (input) SHIFT :: u8 where "SHIFT \<equiv> 0x12"
abbreviation (input) CTRL :: u8 where "CTRL \<equiv> 0x14"
abbreviation (input) ALT :: u8 where "ALT \<equiv> 0x11"
abbreviation (input) EXTENDED :: u16 where "EXTENDED \<equiv> 0x100"
abbreviation (input) RELEASE :: u8 where "RELEASE \<equiv> 0xF0"
abbreviation (input) PREFIX :: u8 where "PREFIX \<equiv> 0xE0"

definition PS2_KEY_MAX_CODES :: nat where "PS2_KEY_MAX_CODES = 10"

text \<open>Scan code, plain and shifted character; the letters first.\<close>

definition main_keys :: "(u8 \<times> u8 \<times> u8) list" where
  "main_keys = [
     (0x1C, 0x61, 0x41), (0x32, 0x62, 0x42), (0x21, 0x63, 0x43), (0x23, 0x64, 0x44),
     (0x24, 0x65, 0x45), (0x2B, 0x66, 0x46), (0x34, 0x67, 0x47), (0x33, 0x68, 0x48),
     (0x43, 0x69, 0x49), (0x3B, 0x6A, 0x4A), (0x42, 0x6B, 0x4B), (0x4B, 0x6C, 0x4C),
     (0x3A, 0x6D, 0x4D), (0x31, 0x6E, 0x4E), (0x44, 0x6F, 0x4F), (0x4D, 0x70, 0x50),
     (0x15, 0x71, 0x51), (0x2D, 0x72, 0x52), (0x1B, 0x73, 0x53), (0x2C, 0x74, 0x54),
     (0x3C, 0x75, 0x55), (0x2A, 0x76, 0x56), (0x1D, 0x77, 0x57), (0x22, 0x78, 0x58),
     (0x35, 0x79, 0x59), (0x1A, 0x7A, 0x5A), (0x16, 0x31, 0x21), (0x1E, 0x32, 0x40),
     (0x26, 0x33, 0x23), (0x25, 0x34, 0x24), (0x2E, 0x35, 0x25), (0x36, 0x36, 0x5E),
     (0x3D, 0x37, 0x26), (0x3E, 0x38, 0x2A), (0x46, 0x39, 0x28), (0x45, 0x30, 0x29),
     (0x0E, 0x60, 0x7E), (0x4E, 0x2D, 0x5F), (0x55, 0x3D, 0x2B), (0x54, 0x5B, 0x7B),
     (0x5B, 0x5D, 0x7D), (0x5D, 0x5C, 0x7C), (0x4C, 0x3B, 0x3A), (0x52, 0x27, 0x22),
     (0x41, 0x2C, 0x3C), (0x49, 0x2E, 0x3E), (0x4A, 0x2F, 0x3F), (0x29, 0x20, 0x20)]"

text \<open>The sequences after an ESC, with their extended keys and modifiers.\<close>

definition sequences :: "(u8 list \<times> u16 \<times> u8) list" where
  "sequences = [
     ([0x5B, 0x31, 0x3B, 0x35, 0x43], EXTENDED OR 0x74, CTRL),
     ([0x5B, 0x31, 0x3B, 0x35, 0x44], EXTENDED OR 0x6B, CTRL),
     ([0x5B, 0x31, 0x7E], EXTENDED OR 0x6C, 0), ([0x5B, 0x32, 0x7E], EXTENDED OR 0x70, 0),
     ([0x5B, 0x33, 0x7E], EXTENDED OR 0x71, 0), ([0x5B, 0x34, 0x7E], EXTENDED OR 0x69, 0),
     ([0x5B, 0x35, 0x7E], EXTENDED OR 0x7D, 0), ([0x5B, 0x36, 0x7E], EXTENDED OR 0x7A, 0),
     ([0x5B, 0x37, 0x7E], EXTENDED OR 0x6C, 0), ([0x5B, 0x38, 0x7E], EXTENDED OR 0x69, 0),
     ([0x5B, 0x41], EXTENDED OR 0x75, 0), ([0x5B, 0x42], EXTENDED OR 0x72, 0),
     ([0x5B, 0x43], EXTENDED OR 0x74, 0), ([0x5B, 0x44], EXTENDED OR 0x6B, 0),
     ([0x5B, 0x48], EXTENDED OR 0x6C, 0), ([0x5B, 0x46], EXTENDED OR 0x69, 0),
     ([0x4F, 0x41], EXTENDED OR 0x75, 0), ([0x4F, 0x42], EXTENDED OR 0x72, 0),
     ([0x4F, 0x43], EXTENDED OR 0x74, 0), ([0x4F, 0x44], EXTENDED OR 0x6B, 0),
     ([0x4F, 0x48], EXTENDED OR 0x6C, 0), ([0x4F, 0x46], EXTENDED OR 0x69, 0)]"

section \<open>Encoding\<close>

definition press :: "u16 \<Rightarrow> u8 \<Rightarrow> u8 list" where
  "press key modifier =
     (let code = to8 (key AND 0xFF)
      in (if modifier \<noteq> 0 then [modifier] else []) @
         (if key AND EXTENDED \<noteq> 0 then [PREFIX] else []) @ [code] @
         (if key AND EXTENDED \<noteq> 0 then [PREFIX] else []) @ [RELEASE, code] @
         (if modifier \<noteq> 0 then [RELEASE, modifier] else []))"

text \<open>The search of the main keys: the plain character of an entry before its shifted one.\<close>

fun main_key :: "(u8 \<times> u8 \<times> u8) list \<Rightarrow> u8 \<Rightarrow> u8 list" where
  "main_key [] c = []"
| "main_key ((code, plain, shifted) # ks) c =
     (if c = plain then press (to16 code) 0
      else if c = shifted then press (to16 code) SHIFT
      else main_key ks c)"

text \<open>A byte other than ESC; the empty list is a byte no key produces.\<close>

definition plain_key :: "u8 \<Rightarrow> u8 list" where
  "plain_key c =
     (if c = 0x0D \<or> c = 0x0A then press 0x5A 0
      else if c = 0x08 \<or> c = 0x7F then press 0x66 0
      else if c = 0x09 then press 0x0D 0
      else if 0x01 \<le> c \<and> c \<le> 0x1A then press (to16 (fst (main_keys ! unat (c - 1)))) CTRL
      else main_key main_keys c)"

text \<open>The decimal number of ESC [ n ; 3 u: its value, its digits and what follows.\<close>

fun alt_number :: "nat \<Rightarrow> u8 list \<Rightarrow> nat \<times> nat \<times> u8 list" where
  "alt_number code [] = (code, 0, [])"
| "alt_number code (d # ds) =
     (if 0x30 \<le> d \<and> d \<le> 0x39 \<and> code < 0x100
      then (case alt_number (code * 10 + unat (d - 0x30)) ds of (v, n, r) \<Rightarrow> (v, Suc n, r))
      else (code, 0, d # ds))"

text \<open>The codes and the bytes consumed, of the input after its ESC.\<close>

definition alt_key :: "u8 list \<Rightarrow> (u8 list \<times> nat) option" where
  "alt_key rest = (case rest of
     [] \<Rightarrow> None
   | b # ds \<Rightarrow>
       if b \<noteq> 0x5B then None
       else (case alt_number 0 ds of (code, n, r) \<Rightarrow>
         if n = 0 \<or> code < 0x20 \<or> code > 0x7E \<or> take 3 r \<noteq> [0x3B, 0x33, 0x75] then None
         else Some ([ALT] @ plain_key (word_of_nat code) @ [RELEASE, ALT], 2 + n + 3)))"

definition ps2_encode_key :: "u8 \<Rightarrow> u8 list \<Rightarrow> u8 list \<times> nat" where
  "ps2_encode_key c rest =
     (if c = 0x1B then
        (case alt_key rest of
           Some r \<Rightarrow> r
         | None \<Rightarrow>
             (case List.find (\<lambda>(s, key, modifier). take (length s) rest = s) sequences of
                Some (s, key, modifier) \<Rightarrow> (press key modifier, length s + 1)
              | None \<Rightarrow> (press 0x76 0, 1)))
      else (plain_key c, 1))"

section \<open>Bounds\<close>

lemma length_press: "length (press key m) \<le> 8" "m = 0 \<Longrightarrow> length (press key m) \<le> 5"
  "\<not> bit key 8 \<Longrightarrow> length (press key m) \<le> 6"
proof -
  have "key AND EXTENDED = 0" if "\<not> bit key 8"
    using and_bit_zero_iff[of 8 key] that by simp
  then show "length (press key m) \<le> 8" "m = 0 \<Longrightarrow> length (press key m) \<le> 5"
    "\<not> bit key 8 \<Longrightarrow> length (press key m) \<le> 6"
    by (simp_all add: press_def Let_def)
qed

lemma length_main_key: "length (main_key ks c) \<le> 6"
proof (induction ks c rule: main_key.induct)
  case (2 code plain shifted ks c)
  have "\<not> bit (to16 code) 8" by (simp add: bit_simps)
  then show ?case using 2 length_press(3) by simp
qed simp

lemma length_plain_key: "length (plain_key c) \<le> 6"
proof -
  have "\<not> bit (to16 w) 8" "\<not> bit (0x5A :: u16) 8" "\<not> bit (0x66 :: u16) 8" "\<not> bit (0x0D :: u16) 8" for w :: u8
    by (simp_all add: bit_simps)
  then show ?thesis using length_press(3) length_main_key by (simp add: plain_key_def)
qed

lemma alt_number_split: "alt_number k ds = (v, n, r) \<Longrightarrow> length ds = n + length r"
proof (induction k ds arbitrary: v n r rule: alt_number.induct)
  case (2 code d ds)
  then show ?case by (auto split: if_splits prod.splits)
qed simp

lemma alt_key_bounds:
  assumes "alt_key rest = Some (codes, used)"
  shows "length codes \<le> 9 \<and> 0 < used \<and> used \<le> Suc (length rest)"
proof -
  from assms obtain ds where rest: "rest = 0x5B # ds"
    by (auto simp: alt_key_def split: list.splits if_splits)
  obtain v n r where a: "alt_number 0 ds = (v, n, r)" by (metis prod.exhaust)
  from assms have t: "take 3 r = [0x3B, 0x33, 0x75]" "codes = [ALT] @ plain_key (word_of_nat v) @ [RELEASE, ALT]"
    "used = 2 + n + 3"
    by (auto simp: alt_key_def rest a split: if_splits)
  have "3 \<le> length r" using arg_cong[OF t(1), of length] by simp
  then show ?thesis
    using alt_number_split[OF a] t(2,3) length_plain_key[of "word_of_nat v"] by (simp add: rest)
qed

lemma encode_bounds:
  "length (fst (ps2_encode_key c rest)) \<le> PS2_KEY_MAX_CODES \<and>
   0 < snd (ps2_encode_key c rest) \<and> snd (ps2_encode_key c rest) \<le> Suc (length rest)"
proof (cases "c = 0x1B")
  case True
  show ?thesis
  proof (cases "alt_key rest")
    case None
    show ?thesis
    proof (cases "List.find (\<lambda>(s, key, modifier). take (length s) rest = s) sequences")
      case (Some e)
      obtain s k m where e: "e = (s, k, m)" by (metis prod.exhaust)
      have "take (length s) rest = s"
        using Some e by (auto simp: find_Some_iff)
      then have "length s \<le> length rest" by (metis nat_le_linear take_all length_take min.cobounded1)
      then show ?thesis using True None Some e length_press(1)[of k m]
        by (simp add: ps2_encode_key_def PS2_KEY_MAX_CODES_def)
    qed (use True None length_press(1)[where key = "0x76" and m = 0] in \<open>simp add: ps2_encode_key_def PS2_KEY_MAX_CODES_def\<close>)
  next
    case (Some r)
    then show ?thesis
      using True alt_key_bounds[of rest "fst r" "snd r"] by (simp add: ps2_encode_key_def PS2_KEY_MAX_CODES_def)
  qed
next
  case False
  then show ?thesis
    using length_plain_key[of c] by (simp add: ps2_encode_key_def PS2_KEY_MAX_CODES_def)
qed

section \<open>Typing a text\<close>

lemma encode_used: "(codes, used) = ps2_encode_key c rest \<Longrightarrow> 0 < used"
  using encode_bounds[of c rest] by (metis snd_conv)

text \<open>The queued result and whether every key found room (\<open>type_keys\<close> returns 0).\<close>

function type_keys :: "u8 list \<Rightarrow> ps2_board_state \<Rightarrow> bool \<times> ps2_board_state" where
  "type_keys [] kbd = (True, kbd)"
| "type_keys (c # rest) kbd =
     (let (codes, used) = ps2_encode_key c rest
      in if codes \<noteq> [] then
           (case ps2_board_queue_key codes kbd of
              None \<Rightarrow> (False, kbd)
            | Some kbd \<Rightarrow> type_keys (drop used (c # rest)) kbd)
         else type_keys (drop used (c # rest)) kbd)"
  by pat_completeness auto
termination
  by (relation "measure (\<lambda>(cs, kbd). length cs)")
    (auto simp: drop_Cons' dest: encode_used)

text \<open>
  What a driver makes of the codes: shift is held from its make code to its break code, a break
  code is skipped, any other code is a character of its key.
\<close>

definition key_char :: "bool \<Rightarrow> u8 \<Rightarrow> u8" where
  "key_char held code = (case List.find (\<lambda>(k, plain, shifted). k = code) main_keys of
     Some (k, plain, shifted) \<Rightarrow> if held then shifted else plain | None \<Rightarrow> 0)"

fun typed_text :: "bool \<Rightarrow> u8 list \<Rightarrow> u8 list" where
  "typed_text held [] = []"
| "typed_text held [k] = (if k = SHIFT then [] else [key_char held k])"
| "typed_text held (k # k' # ks) =
     (if k = RELEASE then typed_text (held \<and> k' \<noteq> SHIFT) ks
      else if k = SHIFT then typed_text True (k' # ks)
      else key_char held k # typed_text held (k' # ks))"

lemma main_key_entry:
  "main_key ks c = [] \<or> (\<exists>(code, p, s) \<in> set ks.
     c = p \<and> main_key ks c = press (to16 code) 0 \<or> c = s \<and> main_key ks c = press (to16 code) SHIFT)"
  by (induction ks c rule: main_key.induct) auto

lemma main_keys_decode:
  "list_all (\<lambda>(code, p, s). key_char False code = p \<and> key_char True code = s \<and>
     code \<noteq> SHIFT \<and> code \<noteq> RELEASE) main_keys"
  by code_simp

lemma printable_keys: "list_all (\<lambda>i. main_key main_keys (word_of_nat i) \<noteq> []) [0x20..<0x7F]"
  by code_simp

lemma typed_press:
  assumes "main_key main_keys c \<noteq> []"
  shows "typed_text False (main_key main_keys c @ ks) = c # typed_text False ks"
proof -
  obtain code p s where e: "(code, p, s) \<in> set main_keys"
    "c = p \<and> main_key main_keys c = press (to16 code) 0 \<or>
     c = s \<and> main_key main_keys c = press (to16 code) SHIFT"
    using main_key_entry[of main_keys c] assms by auto
  have k: "key_char False code = p" "key_char True code = s" "code \<noteq> SHIFT" "code \<noteq> RELEASE"
    using main_keys_decode e(1) by (auto simp: list_all_iff)
  have "to8 (to16 code AND 0xFF) = code" "to16 code AND EXTENDED = 0"
    using and_bit_zero_iff[of 8 "to16 code"]
    by (simp_all add: and_FF_u16 bit_simps)
  then have "press (to16 code) 0 = [code, RELEASE, code]"
    "press (to16 code) SHIFT = [SHIFT, code, RELEASE, code, RELEASE, SHIFT]"
    by (simp_all add: press_def Let_def)
  then show ?thesis using e(2) k by auto
qed

definition printable :: "u8 \<Rightarrow> bool" where
  "printable c \<longleftrightarrow> 0x20 \<le> c \<and> c \<le> 0x7E"

lemma printable_key:
  assumes "printable c"
  shows "ps2_encode_key c rest = (main_key main_keys c, 1)" "main_key main_keys c \<noteq> []"
proof -
  have "c \<noteq> 0x1B" "c \<noteq> 0x0D" "c \<noteq> 0x0A" "c \<noteq> 0x08" "c \<noteq> 0x7F" "c \<noteq> 0x09"
    using assms by (auto simp: printable_def)
  moreover have "(0x1A :: u8) < 0x20" by simp
  then have "\<not> c \<le> 0x1A" using assms unfolding printable_def by (metis leD less_le_trans)
  ultimately have "plain_key c = main_key main_keys c" "c \<noteq> 0x1B" by (simp_all add: plain_key_def)
  then show "ps2_encode_key c rest = (main_key main_keys c, 1)"
    by (simp add: ps2_encode_key_def)
  have "unat (0x20 :: u8) \<le> unat c" "unat c \<le> unat (0x7E :: u8)"
    using assms unfolding printable_def word_le_nat_alt by blast+
  then have "0x20 \<le> unat c" "unat c < 0x7F" by simp_all
  then have "unat c \<in> set [0x20..<0x7F]" by (simp only: set_upt atLeastLessThan_iff)
  then have "main_key main_keys (word_of_nat (unat c)) \<noteq> []"
    using printable_keys unfolding list_all_iff by blast
  then show "main_key main_keys c \<noteq> []" by simp
qed

lemma type_keys_content:
  "queue_ok (keys kbd) \<Longrightarrow> list_all printable cs \<Longrightarrow> type_keys cs kbd = (True, kbd') \<Longrightarrow>
    queue_ok (keys kbd') \<and> map to8 (queue_content (keys kbd')) =
      map to8 (queue_content (keys kbd)) @ concat (map (main_key main_keys) cs)"
proof (induction cs kbd arbitrary: kbd' rule: type_keys.induct)
  case (2 c rest kbd)
  then have c: "printable c" and rest: "list_all printable rest" by simp_all
  note k = printable_key[OF c]
  from 2(5) obtain kbd1 where kbd1: "ps2_board_queue_key (main_key main_keys c) kbd = Some kbd1"
    and t: "type_keys rest kbd1 = (True, kbd')"
    by (auto simp: k split: option.splits)
  note q = queue_key_content[OF 2(3) kbd1]
  have "queue_ok (keys kbd') \<and> map to8 (queue_content (keys kbd')) =
      map to8 (queue_content (keys kbd1)) @ concat (map (main_key main_keys) rest)"
    using 2(1)[OF refl, of "main_key main_keys c" 1] k kbd1 t q rest by simp
  then show ?case using q by simp
qed simp

lemma type_keys_room:
  "queue_ok (keys kbd) \<Longrightarrow> list_all printable cs \<Longrightarrow> q_count (keys kbd) + 6 * length cs \<le> PS2_QUEUE_SIZE \<Longrightarrow>
    fst (type_keys cs kbd)"
proof (induction cs arbitrary: kbd)
  case (Cons c cs)
  then have c: "printable c" by simp
  have six: "length (main_key main_keys c) \<le> 6" by (rule length_main_key)
  then obtain kbd1 where k: "ps2_board_queue_key (main_key main_keys c) kbd = Some kbd1"
    using Cons.prems(3) by (simp add: ps2_board_queue_key_def)
  note q = queue_key_content[OF Cons.prems(1) k]
  have "q_count (keys kbd1) = q_count (keys kbd) + length (main_key main_keys c)"
    using arg_cong[OF conjunct2[OF q], of length]
    by (simp only: length_queue_content length_append length_key_entries)
  then have "fst (type_keys cs kbd1)"
    using Cons.IH[of kbd1] q six Cons.prems by simp
  then show ?case using printable_key[OF c] k by simp
qed simp

text \<open>
  A printable text typed on the keyboard arrives as that text: what \<open>type_keys\<close>
  adds to the keyboard's queue decodes, by make and break codes and the state of shift, to the
  characters typed.
\<close>

theorem typed_text_arrives:
  assumes "queue_ok (keys kbd)" "list_all printable cs" "type_keys cs kbd = (True, kbd')"
  shows "\<exists>codes. map to8 (queue_content (keys kbd')) = map to8 (queue_content (keys kbd)) @ codes \<and>
    typed_text False codes = cs"
proof -
  have "typed_text False (concat (map (main_key main_keys) cs)) = cs"
    using assms(2) by (induction cs) (simp_all add: typed_press printable_key(2))
  then show ?thesis using type_keys_content[OF assms] by blast
qed

theorem typed_text_witness:
  "\<exists>kbd codes. type_keys [0x48, 0x69, 0x21] (fst (ps2_board_init 2 via_6522_init)) = (True, kbd) \<and>
    map to8 (queue_content (keys kbd)) = codes \<and> typed_text False codes = [0x48, 0x69, 0x21]"
proof -
  let ?k = "fst (ps2_board_init 2 via_6522_init)"
  have ok: "queue_ok (keys ?k)" "queue_content (keys ?k) = []" "q_count (keys ?k) = 0"
    by (simp_all add: ps2_board_init_def empty_queue_def queue_ok_def queue_content_def PS2_QUEUE_SIZE_def)
  have p: "list_all printable [0x48, 0x69, 0x21]" by (simp add: printable_def)
  have "fst (type_keys [0x48, 0x69, 0x21] ?k)"
    by (rule type_keys_room[OF ok(1) p]) (simp only: ok(3) PS2_QUEUE_SIZE_def, simp)
  then obtain kbd where k: "type_keys [0x48, 0x69, 0x21] ?k = (True, kbd)"
    by (metis prod.collapse)
  show ?thesis using typed_text_arrives[OF ok(1) p k] ok(2) k by auto
qed

end
