(* ===== verification/Lcd_Hd44780.thy ===== *)
theory Lcd_Hd44780 imports Via_Timing begin

text \<open>
  The HD44780 character display of both boards (\<open>src/emulator/chips/lcd_hd44780.c\<close>): its
  registers and memories, the commands, the strobe on its E line and what the panel shows.
  Text is kept as its bytes.
\<close>

section \<open>State\<close>

datatype lcd_port = LCD_PORT_A | LCD_PORT_B

record lcd_wiring =
  rs_port :: lcd_port
  rs_bit :: u8
  rw_port :: lcd_port
  rw_bit :: u8
  e_port :: lcd_port
  e_bit :: u8
  data_port :: lcd_port
  data_mask :: u8

definition LCD_WIRING_WENDY2C :: lcd_wiring where
  "LCD_WIRING_WENDY2C = \<lparr>rs_port = LCD_PORT_A, rs_bit = 0x01, rw_port = LCD_PORT_A, rw_bit = 0x08,
     e_port = LCD_PORT_B, e_bit = 0x20, data_port = LCD_PORT_A, data_mask = 0xF0\<rparr>"

definition LCD_WIRING_MICHAEL :: lcd_wiring where
  "LCD_WIRING_MICHAEL = \<lparr>rs_port = LCD_PORT_A, rs_bit = 0x20, rw_port = LCD_PORT_A, rw_bit = 0x40,
     e_port = LCD_PORT_A, e_bit = 0x80, data_port = LCD_PORT_B, data_mask = 0xFF\<rparr>"

definition LCD_DDRAM_SIZE :: nat where "LCD_DDRAM_SIZE = 80"

record lcd_state =
  ddram :: "nat \<Rightarrow> u8"
  cgram :: "nat \<Rightarrow> u8"
  rows :: u8
  cols :: u8
  ac :: u8
  cgram_mode :: bool
  entry_id :: bool
  entry_s :: bool
  display_on :: bool
  cursor_on :: bool
  blink_on :: bool
  two_line_mode :: bool
  four_bit_mode :: bool
  font_5x10 :: bool
  high_nibble :: u8
  high_nibble_pending :: bool
  prev_e :: bool
  lcd_dirty :: bool
  wiring :: lcd_wiring
  undriven_strobes :: u32
  lcd_contention :: u32
  lcd_contending :: bool

section \<open>Pins\<close>

text \<open>\<open>drive\<close> is what drives port B from outside, as for a read of the VIA.\<close>

definition port_pins :: "u8 option \<Rightarrow> via_6522_state \<Rightarrow> lcd_port \<Rightarrow> u8" where
  "port_pins drive via p = (case p of LCD_PORT_A \<Rightarrow> porta_pin_value via | LCD_PORT_B \<Rightarrow> portb_pin_value drive via)"

definition lcd_pin :: "u8 option \<Rightarrow> via_6522_state \<Rightarrow> lcd_port \<Rightarrow> u8 \<Rightarrow> bool" where
  "lcd_pin drive via p b \<longleftrightarrow> port_pins drive via p AND b \<noteq> 0"

definition port_ddr :: "via_6522_state \<Rightarrow> lcd_port \<Rightarrow> u8" where
  "port_ddr via p = (case p of LCD_PORT_A \<Rightarrow> ddra via | LCD_PORT_B \<Rightarrow> ddrb via)"

definition lcd_driven :: "via_6522_state \<Rightarrow> lcd_port \<Rightarrow> u8 \<Rightarrow> bool" where
  "lcd_driven via p bits \<longleftrightarrow> port_ddr via p AND bits = bits"

section \<open>Memory and commands\<close>

definition ddram_index :: "lcd_state \<Rightarrow> u8 \<Rightarrow> nat" where
  "ddram_index s addr =
     (let a = addr AND 0x7F
      in if \<not> two_line_mode s then unat a mod LCD_DDRAM_SIZE
         else (if a \<ge> 0x40 then 40 else 0) + unat (a AND 0x3F) mod 40)"

definition read_value :: "lcd_state \<Rightarrow> bool \<Rightarrow> u8" where
  "read_value s rs =
     (if \<not> rs then ac s AND 0x7F
      else if cgram_mode s then cgram s (unat (ac s AND 0x3F)) else ddram s (ddram_index s (ac s)))"

definition advance_ac :: "lcd_state \<Rightarrow> lcd_state" where
  "advance_ac s = s\<lparr>ac :=
     (if cgram_mode s then (if entry_id s then ac s + 1 else ac s - 1) AND 0x3F
      else if two_line_mode s then
        (if entry_id s then (if ac s = 0x27 then 0x40 else if ac s = 0x67 then 0x00 else ac s + 1)
         else (if ac s = 0x40 then 0x27 else if ac s = 0x00 then 0x67 else ac s - 1))
      else
        (if entry_id s then (if ac s \<ge> 0x4F then 0x00 else ac s + 1)
         else (if ac s = 0x00 then 0x4F else ac s - 1)))\<rparr>"

definition lcd_clear_ddram :: "lcd_state \<Rightarrow> lcd_state" where
  "lcd_clear_ddram s = s\<lparr>ddram := \<lambda>i. if i < LCD_DDRAM_SIZE then 0x20 else ddram s i\<rparr>"

text \<open>A byte strobed in: data, or a command by its highest bit.\<close>

definition execute_byte :: "bool \<Rightarrow> u8 \<Rightarrow> lcd_state \<Rightarrow> lcd_state" where
  "execute_byte rs byte s =
     (if rs then
        (let s = (if cgram_mode s then s\<lparr>cgram := (cgram s)(unat (ac s AND 0x3F) := byte)\<rparr>
                  else s\<lparr>ddram := (ddram s)(ddram_index s (ac s) := byte)\<rparr>)
         in (advance_ac s)\<lparr>lcd_dirty := True\<rparr>)
      else if byte AND 0x80 \<noteq> 0 then s\<lparr>ac := byte AND 0x7F, cgram_mode := False\<rparr>
      else if byte AND 0x40 \<noteq> 0 then s\<lparr>ac := byte AND 0x3F, cgram_mode := True\<rparr>
      else if byte AND 0x20 \<noteq> 0 then
        s\<lparr>four_bit_mode := byte AND 0x10 = 0, two_line_mode := byte AND 0x08 \<noteq> 0,
          font_5x10 := byte AND 0x08 = 0 \<and> byte AND 0x04 \<noteq> 0\<rparr>
      else if byte AND 0x10 \<noteq> 0 then s
      else if byte AND 0x08 \<noteq> 0 then
        s\<lparr>display_on := byte AND 0x04 \<noteq> 0, cursor_on := byte AND 0x02 \<noteq> 0,
          blink_on := byte AND 0x01 \<noteq> 0\<rparr>
      else if byte AND 0x04 \<noteq> 0 then
        s\<lparr>entry_id := byte AND 0x02 \<noteq> 0, entry_s := byte AND 0x01 \<noteq> 0\<rparr>
      else if byte AND 0x02 \<noteq> 0 then s\<lparr>ac := 0, cgram_mode := False\<rparr>
      else if byte AND 0x01 \<noteq> 0 then
        (lcd_clear_ddram s)\<lparr>ac := 0, cgram_mode := False, lcd_dirty := True\<rparr>
      else s)"

definition lcd_hd44780_instruction :: "u8 \<Rightarrow> lcd_state \<Rightarrow> lcd_state" where
  "lcd_hd44780_instruction byte s = execute_byte False byte s"

section \<open>The bus side\<close>

definition lcd_hd44780_output :: "u8 option \<Rightarrow> via_6522_state option \<Rightarrow> lcd_state \<Rightarrow> u8 option" where
  "lcd_hd44780_output drive via s = (case via of
     None \<Rightarrow> None
   | Some v \<Rightarrow>
       (let w = wiring s
        in if \<not> lcd_pin drive v (e_port w) (e_bit w) \<or> \<not> lcd_pin drive v (rw_port w) (rw_bit w) then None
           else Some (read_value s (lcd_pin drive v (rs_port w) (rs_bit w)) AND data_mask w)))"

text \<open>A byte from the wired data lines, nibble by nibble in four-bit mode.\<close>

definition lcd_latch :: "bool \<Rightarrow> u8 \<Rightarrow> lcd_state \<Rightarrow> lcd_state" where
  "lcd_latch rs data s =
     (if four_bit_mode s then
        (let nibble = drop_bit 4 data
         in if \<not> high_nibble_pending s then s\<lparr>high_nibble := nibble, high_nibble_pending := True\<rparr>
            else execute_byte rs (push_bit 4 (high_nibble s) OR nibble) (s\<lparr>high_nibble_pending := False\<rparr>))
      else execute_byte rs data s)"

definition lcd_falling_edge :: "u8 option \<Rightarrow> via_6522_state \<Rightarrow> lcd_state \<Rightarrow> lcd_state" where
  "lcd_falling_edge drive via s =
     (let w = wiring s;
          rs = lcd_pin drive via (rs_port w) (rs_bit w);
          rw = lcd_pin drive via (rw_port w) (rw_bit w);
          s = (if \<not> lcd_driven via (rs_port w) (rs_bit w) \<or> \<not> lcd_driven via (rw_port w) (rw_bit w) \<or>
                  (\<not> rw \<and> \<not> lcd_driven via (data_port w) (data_mask w))
               then s\<lparr>undriven_strobes := undriven_strobes s + 1\<rparr> else s)
      in if rw then (if rs then advance_ac s else s)
         else lcd_latch rs (port_pins drive via (data_port w) AND data_mask w) s)"

definition lcd_hd44780_tick :: "u8 option \<Rightarrow> via_6522_state option \<Rightarrow> lcd_state \<Rightarrow> lcd_state" where
  "lcd_hd44780_tick drive via s = (case via of
     None \<Rightarrow> s
   | Some v \<Rightarrow>
       (let w = wiring s;
            e = lcd_pin drive v (e_port w) (e_bit w);
            reading = e \<and> lcd_pin drive v (rw_port w) (rw_bit w);
            s = (if reading \<and> port_ddr v (data_port w) AND data_mask w \<noteq> 0
                 then (if lcd_contending s then s else s\<lparr>lcd_contention := lcd_contention s + 1\<rparr>)
                   \<lparr>lcd_contending := True\<rparr>
                 else s\<lparr>lcd_contending := False\<rparr>);
            s = (if prev_e s \<and> \<not> e then lcd_falling_edge drive v s else s)
        in s\<lparr>prev_e := e\<rparr>))"

definition lcd_hd44780_reset :: "lcd_state \<Rightarrow> lcd_state" where
  "lcd_hd44780_reset s =
     (lcd_clear_ddram s)\<lparr>cgram := \<lambda>i. if i < 64 then 0 else cgram s i, ac := 0, cgram_mode := False,
       entry_id := True, entry_s := False, display_on := False, cursor_on := False, blink_on := False,
       two_line_mode := False, four_bit_mode := False, font_5x10 := False, high_nibble := 0,
       high_nibble_pending := False, prev_e := False, lcd_dirty := True\<rparr>"

definition lcd_hd44780_init :: lcd_state where
  "lcd_hd44780_init = \<lparr>ddram = \<lambda>i. if i < LCD_DDRAM_SIZE then 0x20 else 0, cgram = \<lambda>_. 0, rows = 2,
     cols = 16, ac = 0, cgram_mode = False, entry_id = True, entry_s = False, display_on = False,
     cursor_on = False, blink_on = False, two_line_mode = False, four_bit_mode = False,
     font_5x10 = False, high_nibble = 0, high_nibble_pending = False, prev_e = False,
     lcd_dirty = False, wiring = LCD_WIRING_WENDY2C, undriven_strobes = 0, lcd_contention = 0,
     lcd_contending = False\<rparr>"

definition lcd_hd44780_set_wiring :: "lcd_wiring \<Rightarrow> lcd_state \<Rightarrow> lcd_state" where
  "lcd_hd44780_set_wiring w s = s\<lparr>wiring := w\<rparr>"

definition lcd_hd44780_set_geometry :: "u8 \<Rightarrow> u8 \<Rightarrow> lcd_state \<Rightarrow> lcd_state" where
  "lcd_hd44780_set_geometry r c s =
     (let r = (if r < 1 then 1 else r); r = (if r > 4 then 4 else r);
          c = (if c < 1 then 1 else c); c = (if c > 20 then 20 else c)
      in s\<lparr>rows := r, cols := c\<rparr>)"

section \<open>The panel\<close>

definition line_base :: "u8 \<Rightarrow> u8 \<Rightarrow> u8" where
  "line_base row c =
     (if c = 20 then [0x00, 0x40, 0x14, 0x54] ! unat (row AND 3) else [0x00, 0x40] ! unat (row AND 1))"

definition panel_row :: "lcd_state \<Rightarrow> nat \<Rightarrow> u8 list" where
  "panel_row s r =
     map (\<lambda>c. ddram s (ddram_index s (line_base (word_of_nat r) (cols s) + word_of_nat c))) [0..<unat (cols s)]"

definition lcd_hd44780_visible_bytes :: "lcd_state \<Rightarrow> u8 list" where
  "lcd_hd44780_visible_bytes s = concat (map (panel_row s) [0..<unat (rows s)])"

text \<open>The row and the column of the address counter: the first row that shows it, or its line.\<close>

definition lcd_hd44780_cursor :: "lcd_state \<Rightarrow> nat \<times> nat" where
  "lcd_hd44780_cursor s =
     (if cgram_mode s then (0, 0)
      else let a = unat (ac s AND 0x7F); n = unat (cols s);
               base = (\<lambda>r. unat (line_base (word_of_nat r) (cols s)))
      in case List.find (\<lambda>r. base r \<le> a \<and> a < base r + n) [0..<unat (rows s)] of
           Some r \<Rightarrow> (r, a - base r)
         | None \<Rightarrow>
             (let row = (if a \<ge> 0x40 then 1 else 0); col = (if row = 1 then a - 0x40 else a)
              in (row, if col \<ge> n then n - 1 else col)))"

definition shown_char :: "u8 \<Rightarrow> u8" where
  "shown_char b =
     (if b = 0x06 then 0x7E else if b = 0x07 then 0x5C
      else if b \<ge> 0x20 \<and> b \<le> 0x7E then b else if b = 0 then 0x20 else 0x3F)"

text \<open>Whether the panel was dirty, the text with its NUL, and the state after.\<close>

definition lcd_hd44780_render :: "lcd_state \<Rightarrow> bool \<times> u8 list \<times> lcd_state" where
  "lcd_hd44780_render s =
     (lcd_dirty s, map shown_char (lcd_hd44780_visible_bytes s) @ [0], s\<lparr>lcd_dirty := False\<rparr>)"

end
