(* ===== verification/Lcd_Panel.thy ===== *)
theory Lcd_Panel imports Lcd_Hd44780 begin

text \<open>
  What a program sees of the display: memory accesses stay in range, a byte crosses the
  four-bit and the eight-bit interface alike, and text written at a cell shows there.
\<close>

section \<open>Ranges\<close>

lemma ddram_index_bound: "ddram_index s addr < LCD_DDRAM_SIZE"
proof -
  have "unat w mod 40 < 40" for w :: u8 by simp
  then have "(if b then 40 else 0) + unat w mod 40 < (80 :: nat)" for b and w :: u8
    by (cases b) (simp_all add: trans_less_add1 add.commute)
  then show ?thesis by (simp add: ddram_index_def Let_def LCD_DDRAM_SIZE_def)
qed

lemma geometry_bounds:
  "unat (rows (lcd_hd44780_set_geometry r c s)) \<le> 4" "unat (cols (lcd_hd44780_set_geometry r c s)) \<le> 20"
  "1 \<le> unat (rows (lcd_hd44780_set_geometry r c s))" "1 \<le> unat (cols (lcd_hd44780_set_geometry r c s))"
  by (auto simp: lcd_hd44780_set_geometry_def Let_def word_less_nat_alt not_less Suc_le_eq)

lemma length_panel_row [simp]: "length (panel_row s r) = unat (cols s)"
  by (simp add: panel_row_def)

lemma length_visible: "length (lcd_hd44780_visible_bytes s) = unat (rows s) * unat (cols s)"
  by (simp add: lcd_hd44780_visible_bytes_def length_concat o_def sum_list_triv)

text \<open>
  The display never leaves its memory. Every address maps into DDRAM, no byte
  strobed in changes a cell outside it, and at every geometry that can be set the panel's bytes
  fit the buffer of \<open>LCD_DDRAM_SIZE\<close> bytes that rendering uses.
\<close>

theorem lcd_stays_in_memory:
  "ddram_index s addr < LCD_DDRAM_SIZE \<and>
   ddram (execute_byte rs x s) (LCD_DDRAM_SIZE + i) = ddram s (LCD_DDRAM_SIZE + i) \<and>
   cgram (execute_byte rs x s) (64 + i) = cgram s (64 + i) \<and>
   length (lcd_hd44780_visible_bytes (lcd_hd44780_set_geometry r c s)) \<le> LCD_DDRAM_SIZE"
proof -
  have "unat (w AND 0x3F) < 64" for w :: u8
  proof -
    have "unat (take_bit 6 w) < 2 ^ 6" by (simp only: unsigned_take_bit_eq take_bit_nat_less_exp)
    then show ?thesis by (simp add: take_bit_eq_mask mask_eq_exp_minus_1)
  qed
  then have cg: "64 + i \<noteq> unat (ac s AND 0x3F)" for i by (metis not_add_less1)
  have dd: "LCD_DDRAM_SIZE + i \<noteq> ddram_index s a" for a i
    using ddram_index_bound[of s a] by simp
  have "unat (rows (lcd_hd44780_set_geometry r c s)) * unat (cols (lcd_hd44780_set_geometry r c s)) \<le> 4 * 20"
    by (intro mult_le_mono geometry_bounds)
  then show ?thesis
    using ddram_index_bound[of s addr] cg dd
    by (simp add: length_visible execute_byte_def Let_def advance_ac_def lcd_clear_ddram_def LCD_DDRAM_SIZE_def)
qed

section \<open>The two interfaces\<close>

text \<open>A strobe: the program raises E, then lowers it with the value on the pins.\<close>

definition lcd_strobe ::
  "u8 option \<Rightarrow> via_6522_state \<Rightarrow> via_6522_state \<Rightarrow> lcd_state \<Rightarrow> lcd_state" where
  "lcd_strobe drive high low s = lcd_hd44780_tick drive (Some low) (lcd_hd44780_tick drive (Some high) s)"

text \<open>The pins of a write: RS as given, RW low, E as given, all wired pins driven.\<close>

definition lcd_write_pins :: "u8 option \<Rightarrow> lcd_wiring \<Rightarrow> bool \<Rightarrow> bool \<Rightarrow> via_6522_state \<Rightarrow> bool" where
  "lcd_write_pins drive w rs e v \<longleftrightarrow>
     lcd_pin drive v (rs_port w) (rs_bit w) = rs \<and> \<not> lcd_pin drive v (rw_port w) (rw_bit w) \<and>
     lcd_pin drive v (e_port w) (e_bit w) = e \<and> lcd_driven v (rs_port w) (rs_bit w) \<and>
     lcd_driven v (rw_port w) (rw_bit w) \<and> lcd_driven v (data_port w) (data_mask w)"

lemma strobe_latches:
  assumes "lcd_write_pins drive (wiring s) rs True high" "lcd_write_pins drive (wiring s) rs False low"
    and "\<not> prev_e s"
  shows "lcd_strobe drive high low s =
    (lcd_latch rs (port_pins drive low (data_port (wiring s)) AND data_mask (wiring s))
      (s\<lparr>prev_e := True, lcd_contending := False\<rparr>))\<lparr>prev_e := False\<rparr>"
proof -
  have h: "lcd_hd44780_tick drive (Some high) s = s\<lparr>prev_e := True, lcd_contending := False\<rparr>"
    using assms(1,3) by (simp add: lcd_hd44780_tick_def lcd_write_pins_def Let_def)
  show ?thesis
    unfolding lcd_strobe_def h
    using assms(2) by (simp add: lcd_hd44780_tick_def lcd_write_pins_def Let_def lcd_falling_edge_def)
qed

text \<open>Bytes executed do not depend on the strobe's own state.\<close>

lemma strobe_frame:
  "ddram_index (s\<lparr>prev_e := e\<rparr>) a = ddram_index s a" "ddram_index (s\<lparr>lcd_contending := c\<rparr>) a = ddram_index s a"
  "ddram_index (s\<lparr>high_nibble := n\<rparr>) a = ddram_index s a" "ddram_index (s\<lparr>high_nibble_pending := p\<rparr>) a = ddram_index s a"
  "lcd_clear_ddram (s\<lparr>prev_e := e\<rparr>) = lcd_clear_ddram s\<lparr>prev_e := e\<rparr>"
  "lcd_clear_ddram (s\<lparr>lcd_contending := c\<rparr>) = lcd_clear_ddram s\<lparr>lcd_contending := c\<rparr>"
  "lcd_clear_ddram (s\<lparr>high_nibble := n\<rparr>) = lcd_clear_ddram s\<lparr>high_nibble := n\<rparr>"
  "lcd_clear_ddram (s\<lparr>high_nibble_pending := p\<rparr>) = lcd_clear_ddram s\<lparr>high_nibble_pending := p\<rparr>"
  by (simp_all add: ddram_index_def lcd_clear_ddram_def cong: if_cong)

lemma execute_data:
  "execute_byte True x s =
     (if cgram_mode s then advance_ac (s\<lparr>cgram := (cgram s)(unat (ac s AND 0x3F) := x)\<rparr>)
      else advance_ac (s\<lparr>ddram := (ddram s)(ddram_index s (ac s) := x)\<rparr>))\<lparr>lcd_dirty := True\<rparr>"
  by (simp add: execute_byte_def)

lemma execute_strobe_state:
  "execute_byte rs x (s\<lparr>prev_e := e\<rparr>) = execute_byte rs x s\<lparr>prev_e := e\<rparr>"
  "execute_byte rs x (s\<lparr>lcd_contending := c\<rparr>) = execute_byte rs x s\<lparr>lcd_contending := c\<rparr>"
  "execute_byte rs x (s\<lparr>high_nibble := n\<rparr>) = execute_byte rs x s\<lparr>high_nibble := n\<rparr>"
  "execute_byte rs x (s\<lparr>high_nibble_pending := p\<rparr>) = execute_byte rs x s\<lparr>high_nibble_pending := p\<rparr>"
proof -
  have d: "execute_byte True x (s\<lparr>prev_e := e\<rparr>) = execute_byte True x s\<lparr>prev_e := e\<rparr>"
    "execute_byte True x (s\<lparr>lcd_contending := c\<rparr>) = execute_byte True x s\<lparr>lcd_contending := c\<rparr>"
    "execute_byte True x (s\<lparr>high_nibble := n\<rparr>) = execute_byte True x s\<lparr>high_nibble := n\<rparr>"
    "execute_byte True x (s\<lparr>high_nibble_pending := p\<rparr>) = execute_byte True x s\<lparr>high_nibble_pending := p\<rparr>"
    by (simp_all add: execute_data strobe_frame) (simp_all add: advance_ac_def)
  note u = execute_byte_def if_distrib[of "\<lambda>s. s\<lparr>prev_e := e\<rparr>"] if_distrib[of "\<lambda>s. s\<lparr>lcd_contending := c\<rparr>"]
    if_distrib[of "\<lambda>s. s\<lparr>high_nibble := n\<rparr>"] if_distrib[of "\<lambda>s. s\<lparr>high_nibble_pending := p\<rparr>"] strobe_frame
  have c: "execute_byte False x (s\<lparr>prev_e := e\<rparr>) = execute_byte False x s\<lparr>prev_e := e\<rparr>"
    "execute_byte False x (s\<lparr>lcd_contending := c\<rparr>) = execute_byte False x s\<lparr>lcd_contending := c\<rparr>"
    "execute_byte False x (s\<lparr>high_nibble := n\<rparr>) = execute_byte False x s\<lparr>high_nibble := n\<rparr>"
    "execute_byte False x (s\<lparr>high_nibble_pending := p\<rparr>) = execute_byte False x s\<lparr>high_nibble_pending := p\<rparr>"
    by (simp_all add: u split del: if_split; intro if_cong refl; simp)+
  show "execute_byte rs x (s\<lparr>prev_e := e\<rparr>) = execute_byte rs x s\<lparr>prev_e := e\<rparr>"
    "execute_byte rs x (s\<lparr>lcd_contending := c\<rparr>) = execute_byte rs x s\<lparr>lcd_contending := c\<rparr>"
    "execute_byte rs x (s\<lparr>high_nibble := n\<rparr>) = execute_byte rs x s\<lparr>high_nibble := n\<rparr>"
    "execute_byte rs x (s\<lparr>high_nibble_pending := p\<rparr>) = execute_byte rs x s\<lparr>high_nibble_pending := p\<rparr>"
    by (cases rs; simp only: c d)+
qed

lemma nibbles_join: "push_bit 4 (drop_bit 4 (x AND 0xF0)) OR drop_bit 4 (push_bit 4 x AND 0xF0) = x" for x :: u8
proof (rule bit_word_eqI)
  fix n assume n: "n < LENGTH(8)"
  have m: "bit (0xF0 :: int) k \<longleftrightarrow> 4 \<le> k \<and> k < 8" for k
  proof -
    have "(0xF0 :: int) = push_bit 4 (mask 4)" by (simp add: mask_eq_exp_minus_1)
    then show ?thesis by (simp only: bit_push_bit_iff bit_mask_iff) auto
  qed
  show "bit (push_bit 4 (drop_bit 4 (x AND 0xF0)) OR drop_bit 4 (push_bit 4 x AND 0xF0)) n = bit x n"
    using n by (auto simp: bit_simps m bit_lits)
qed

text \<open>
  The four-bit and the eight-bit interface carry the same bytes. On Michael's
  wiring one strobe with the byte on port B, and on the wendy2c's wiring in four-bit mode two
  strobes with its high and then its low nibble on the upper pins of port A, both execute
  exactly this byte, once.
\<close>

theorem lcd_interfaces_agree:
  assumes "\<not> prev_e s" "\<not> lcd_contending s"
    and "lcd_write_pins drive (wiring s) rs True up" "lcd_write_pins drive (wiring s) rs False down"
    and "lcd_write_pins drive (wiring s) rs True up'" "lcd_write_pins drive (wiring s) rs False down'"
  shows "(wiring s = LCD_WIRING_MICHAEL \<and> \<not> four_bit_mode s \<and> portb_pin_value drive down = x \<longrightarrow>
      lcd_strobe drive up down s = execute_byte rs x s) \<and>
    (wiring s = LCD_WIRING_WENDY2C \<and> four_bit_mode s \<and> \<not> high_nibble_pending s \<and>
      porta_pin_value down AND 0xF0 = x AND 0xF0 \<and> porta_pin_value down' AND 0xF0 = push_bit 4 x AND 0xF0 \<longrightarrow>
      lcd_strobe drive up' down' (lcd_strobe drive up down s) =
        execute_byte rs x s\<lparr>high_nibble := drop_bit 4 (x AND 0xF0)\<rparr>)"
proof (intro conjI impI)
  have idle: "s\<lparr>prev_e := False\<rparr> = s" "s\<lparr>lcd_contending := False\<rparr> = s" using assms(1,2) by simp_all
  have frame: "prev_e (execute_byte r y t) = prev_e t" "lcd_contending (execute_byte r y t) = lcd_contending t"
    "high_nibble_pending (execute_byte r y t) = high_nibble_pending t" for r y t
    by (simp_all add: execute_byte_def advance_ac_def lcd_clear_ddram_def Let_def)
  note st = strobe_latches[OF assms(3,4,1)]
  {
    assume "wiring s = LCD_WIRING_MICHAEL \<and> \<not> four_bit_mode s \<and> portb_pin_value drive down = x"
    then have "lcd_strobe drive up down s =
        (execute_byte rs (x AND 0xFF) (s\<lparr>prev_e := True, lcd_contending := False\<rparr>))\<lparr>prev_e := False\<rparr>"
      unfolding st by (simp add: lcd_latch_def LCD_WIRING_MICHAEL_def port_pins_def)
    moreover have "x AND 0xFF = x" by (rule bit_word_eqI) (auto simp: bit_simps bit_lits)
    ultimately show "lcd_strobe drive up down s = execute_byte rs x s"
      using frame[of rs x s] assms(1,2) by (simp add: execute_strobe_state)
  next
    assume a: "wiring s = LCD_WIRING_WENDY2C \<and> four_bit_mode s \<and> \<not> high_nibble_pending s \<and>
      porta_pin_value down AND 0xF0 = x AND 0xF0 \<and> porta_pin_value down' AND 0xF0 = push_bit 4 x AND 0xF0"
    let ?s = "s\<lparr>high_nibble := drop_bit 4 (x AND 0xF0), high_nibble_pending := True\<rparr>"
    have one: "lcd_strobe drive up down s = ?s"
      unfolding st using a assms(1,2) by (simp add: lcd_latch_def LCD_WIRING_WENDY2C_def port_pins_def)
    have "lcd_strobe drive up' down' ?s =
        (execute_byte rs x (?s\<lparr>prev_e := True, lcd_contending := False, high_nibble_pending := False\<rparr>))
          \<lparr>prev_e := False\<rparr>"
      using strobe_latches[of drive ?s rs up' down'] assms(1,5,6) a nibbles_join[of x]
      by (simp add: lcd_latch_def LCD_WIRING_WENDY2C_def port_pins_def)
    then show "lcd_strobe drive up' down' (lcd_strobe drive up down s) =
        execute_byte rs x s\<lparr>high_nibble := drop_bit 4 (x AND 0xF0)\<rparr>"
      unfolding one using frame[of rs x s] a assms(1,2) by (simp add: execute_strobe_state)
  }
qed

text \<open>Michael's pins with RS high and an A on port B, E high or low.\<close>

definition michael_lcd_pins :: "bool \<Rightarrow> via_6522_state" where
  "michael_lcd_pins e = via_6522_init\<lparr>ddra := 0xE0, ora := if e then 0xA0 else 0x20, ddrb := 0xFF, orb := 0x41\<rparr>"

lemma michael_lcd_pins_write: "lcd_write_pins None LCD_WIRING_MICHAEL True e (michael_lcd_pins e)"
  by (cases e) (simp_all add: lcd_write_pins_def lcd_pin_def lcd_driven_def port_pins_def port_ddr_def
      porta_pin_value_def LCD_WIRING_MICHAEL_def michael_lcd_pins_def via_6522_init_def)

theorem lcd_interfaces_witness:
  "let s = lcd_hd44780_set_wiring LCD_WIRING_MICHAEL lcd_hd44780_init
   in lcd_strobe None (michael_lcd_pins True) (michael_lcd_pins False) s = execute_byte True 0x41 s"
proof -
  let ?s = "lcd_hd44780_set_wiring LCD_WIRING_MICHAEL lcd_hd44780_init"
  have s: "\<not> prev_e ?s" "\<not> lcd_contending ?s" "wiring ?s = LCD_WIRING_MICHAEL" "\<not> four_bit_mode ?s"
    by (simp_all add: lcd_hd44780_set_wiring_def lcd_hd44780_init_def)
  have "portb_pin_value None (michael_lcd_pins False) = 0x41"
    by (simp add: portb_pin_value_def michael_lcd_pins_def via_6522_init_def)
  with lcd_interfaces_agree[OF s(1,2), where drive = None and rs = True
      and up = "michael_lcd_pins True" and up' = "michael_lcd_pins True"
      and down = "michael_lcd_pins False" and down' = "michael_lcd_pins False" and x = "0x41"]
  show ?thesis
    using s(3,4) by (simp add: michael_lcd_pins_write)
qed

section \<open>Text on the panel\<close>

text \<open>Where the rows of the two geometries start in DDRAM.\<close>

definition row_start :: "u8 \<Rightarrow> nat \<Rightarrow> nat" where
  "row_start c r = (if c = 20 then [0, 40, 20, 60] ! r else [0, 40] ! r)"

definition known_geometry :: "lcd_state \<Rightarrow> bool" where
  "known_geometry s \<longleftrightarrow> rows s = 2 \<and> cols s = 16 \<or> rows s = 4 \<and> cols s = 20"

definition line_index :: "u8 \<Rightarrow> nat" where
  "line_index addr = (let a = addr AND 0x7F in (if a \<ge> 0x40 then 40 else 0) + unat (a AND 0x3F) mod 40)"

lemma two_line_index: "two_line_mode s \<Longrightarrow> ddram_index s addr = line_index addr"
  by (simp add: ddram_index_def line_index_def Let_def)

definition cell_ok :: "u8 \<Rightarrow> nat \<Rightarrow> nat \<Rightarrow> bool" where
  "cell_ok n r c =
     (let a = line_base (word_of_nat r) n + word_of_nat c
      in line_index a = row_start n r + c \<and> (0x80 OR a) AND 0x7F = a \<and>
         (Suc c < unat n \<longrightarrow> a \<noteq> 0x27 \<and> a \<noteq> 0x67))"

lemma cells_ok:
  "list_all (\<lambda>r. list_all (cell_ok 16 r) [0..<16]) [0..<2]"
  "list_all (\<lambda>r. list_all (cell_ok 20 r) [0..<20]) [0..<4]"
  by code_simp+

lemma cell_ok_known:
  assumes "known_geometry s" "r < unat (rows s)" "c < unat (cols s)"
  shows "cell_ok (cols s) r c"
  using assms cells_ok by (auto simp: known_geometry_def list_all_iff)

lemma cell_address:
  assumes "known_geometry s" "r < unat (rows s)" "c < unat (cols s)"
  defines "a \<equiv> line_base (word_of_nat r) (cols s) + word_of_nat c"
  shows "line_index a = row_start (cols s) r + c" "(0x80 OR a) AND 0x7F = a"
    and "Suc c < unat (cols s) \<Longrightarrow> a \<noteq> 0x27 \<and> a \<noteq> 0x67"
  using cell_ok_known[OF assms(1-3)] unfolding cell_ok_def a_def Let_def by blast+

lemma rows_apart:
  "known_geometry s \<Longrightarrow> r < unat (rows s) \<Longrightarrow> r' < unat (rows s) \<Longrightarrow> r \<noteq> r' \<Longrightarrow>
    c < unat (cols s) \<Longrightarrow> c' < unat (cols s) \<Longrightarrow>
    row_start (cols s) r + c \<noteq> row_start (cols s) r' + c'"
proof -
  have "q < 4 \<Longrightarrow> q = 0 \<or> q = 1 \<or> q = 2 \<or> q = 3" "q < 2 \<Longrightarrow> q = 0 \<or> q = 1" for q :: nat
    by arith+
  note cases4 = this
  assume "known_geometry s" "r < unat (rows s)" "r' < unat (rows s)" "r \<noteq> r'"
    "c < unat (cols s)" "c' < unat (cols s)"
  then show ?thesis
    using cases4[of r] cases4[of r'] unfolding known_geometry_def row_start_def
    by (auto simp: nth_Cons')
qed

text \<open>Text written where the address counter stands: a span of DDRAM, the rest as it was.\<close>

lemma data_written:
  "two_line_mode s \<Longrightarrow> entry_id s \<Longrightarrow> \<not> cgram_mode s \<Longrightarrow> known_geometry s \<Longrightarrow> r < unat (rows s) \<Longrightarrow>
    c + length xs \<le> unat (cols s) \<Longrightarrow>
    (xs \<noteq> [] \<longrightarrow> ac s = line_base (word_of_nat r) (cols s) + word_of_nat c) \<Longrightarrow>
    ddram (fold (execute_byte True) xs s) =
      (\<lambda>i. if row_start (cols s) r + c \<le> i \<and> i < row_start (cols s) r + c + length xs
           then xs ! (i - (row_start (cols s) r + c)) else ddram s i) \<and>
    rows (fold (execute_byte True) xs s) = rows s \<and> cols (fold (execute_byte True) xs s) = cols s \<and>
    two_line_mode (fold (execute_byte True) xs s)"
proof (induction xs arbitrary: s c)
  case (Cons x xs)
  let ?a = "line_base (word_of_nat r) (cols s) + word_of_nat c"
  let ?s = "execute_byte True x s"
  have c: "c < unat (cols s)" and a: "ac s = ?a" using Cons.prems(6,7) by simp_all
  note ca = cell_address[OF Cons.prems(4,5) c]
  have s1: "two_line_mode ?s" "entry_id ?s" "\<not> cgram_mode ?s" "rows ?s = rows s" "cols ?s = cols s"
    "ddram ?s = (ddram s)(row_start (cols s) r + c := x)"
    using Cons.prems(1-3) ca(1) two_line_index[OF Cons.prems(1)]
    by (simp_all add: execute_byte_def advance_ac_def a Let_def)
  have "ac ?s = line_base (word_of_nat r) (cols s) + word_of_nat (Suc c)" if "xs \<noteq> []"
  proof -
    have "Suc c < unat (cols s)" using that Cons.prems(6) by (cases xs) auto
    from ca(3)[OF this] show ?thesis
      using Cons.prems(1-3) by (simp add: execute_byte_def advance_ac_def a Let_def add.assoc add.commute)
  qed
  moreover have "known_geometry ?s" using Cons.prems(4) s1(4,5) by (simp add: known_geometry_def)
  ultimately have IH: "ddram (fold (execute_byte True) xs ?s) =
      (\<lambda>i. if row_start (cols s) r + Suc c \<le> i \<and> i < row_start (cols s) r + Suc c + length xs
           then xs ! (i - (row_start (cols s) r + Suc c)) else ddram ?s i) \<and>
    rows (fold (execute_byte True) xs ?s) = rows s \<and> cols (fold (execute_byte True) xs ?s) = cols s \<and>
    two_line_mode (fold (execute_byte True) xs ?s)"
    using Cons.IH[of ?s "Suc c"] s1 Cons.prems(5,6) by (simp cong: if_cong)
  have "(if k + Suc c \<le> i \<and> i < k + Suc c + length xs then xs ! (i - (k + Suc c))
      else ((ddram s)(k + c := x)) i) =
    (if k + c \<le> i \<and> i < k + c + length (x # xs) then (x # xs) ! (i - (k + c)) else ddram s i)" for i k
    by (cases "i = k + c") (auto simp: nth_Cons' Suc_diff_Suc not_less_eq_eq)
  then show ?case using IH s1(6) by (simp add: fun_eq_iff)
qed (auto simp: fun_eq_iff)

text \<open>
  Text shows where it is written. On a two-line display that writes to the right,
  at either geometry of the boards, setting the address to a cell and sending a text that fits
  its row puts the text into this row from that cell on, and changes no other cell of the panel.
\<close>

theorem lcd_text_shows:
  assumes "two_line_mode s" "entry_id s" "known_geometry s" "r < unat (rows s)"
    and "c + length xs \<le> unat (cols s)" "c < unat (cols s)" "r' < unat (rows s)"
  shows "panel_row (fold (execute_byte True) xs
      (execute_byte False (0x80 OR (line_base (word_of_nat r) (cols s) + word_of_nat c)) s)) r' =
    (if r' = r then take c (panel_row s r) @ xs @ drop (c + length xs) (panel_row s r)
     else panel_row s r')"
proof -
  let ?a = "line_base (word_of_nat r) (cols s) + word_of_nat c"
  let ?s = "execute_byte False (0x80 OR ?a) s"
  let ?t = "fold (execute_byte True) xs ?s"
  note ca = cell_address[OF assms(3,4,6)]
  have "bit (0x80 OR ?a) 7" by (simp add: bit_lits)
  then have s: "?s = s\<lparr>ac := ?a, cgram_mode := False\<rparr>"
    using ca(2) by (simp add: execute_byte_def u8_flag_iff)
  have g: "known_geometry ?s" using assms(3) by (simp add: s known_geometry_def)
  have t: "ddram ?t = (\<lambda>i. if row_start (cols s) r + c \<le> i \<and> i < row_start (cols s) r + c + length xs
      then xs ! (i - (row_start (cols s) r + c)) else ddram s i)"
    "cols ?t = cols s" "two_line_mode ?t"
    using data_written[of ?s r c xs] g assms(1,2,4,5) by (simp_all add: s cong: if_cong)
  have row: "panel_row u q = map (\<lambda>k. ddram u (row_start (cols s) q + k)) [0..<unat (cols s)]"
    if "two_line_mode u" "cols u = cols s" "q < unat (rows s)" for u q
    using cell_address(1)[OF assms(3) that(3)] that(1,2) two_line_index[OF that(1)]
    by (simp add: panel_row_def)
  show ?thesis
  proof (cases "r' = r")
    case True
    then show ?thesis
      using row[OF t(3,2) assms(4)] row[OF assms(1) refl assms(4)] assms(5) t(1)
      by (auto intro!: nth_equalityI simp: nth_append)
  next
    case False
    have out: "\<not> (row_start (cols s) r + c \<le> i \<and> i < row_start (cols s) r + c + length xs)"
      if k: "k < unat (cols s)" "i = row_start (cols s) r' + k" for i k
    proof
      assume i: "row_start (cols s) r + c \<le> i \<and> i < row_start (cols s) r + c + length xs"
      then have "i - row_start (cols s) r < unat (cols s)" using assms(5) by linarith
      from rows_apart[OF assms(3,4,7) False[symmetric] this k(1)] i k(2) show False by simp
    qed
    show ?thesis
      using False row[OF t(3,2) assms(7)] row[OF assms(1) refl assms(7)] out
      unfolding t(1) by (auto intro!: map_cong)
  qed
qed

theorem lcd_text_witness:
  "let s = lcd_hd44780_set_geometry 4 20 (lcd_hd44780_instruction 0x38 lcd_hd44780_init)
   in panel_row (fold (execute_byte True) [0x48, 0x69] (execute_byte False (0x80 OR 0x15) s)) 2 =
      take 1 (panel_row s 2) @ [0x48, 0x69] @ drop (Suc (Suc (Suc 0))) (panel_row s 2)"
proof -
  let ?s = "lcd_hd44780_set_geometry 4 20 (lcd_hd44780_instruction 0x38 lcd_hd44780_init)"
  have s: "two_line_mode ?s" "entry_id ?s" "rows ?s = 4" "cols ?s = 20"
    by (simp_all add: lcd_hd44780_set_geometry_def lcd_hd44780_instruction_def lcd_hd44780_init_def
        execute_byte_def)
  then have g: "known_geometry ?s" by (simp add: known_geometry_def)
  have a: "line_base (word_of_nat 2) (cols ?s) + word_of_nat 1 = 0x15"
    by (simp add: s(4) line_base_def)
  show ?thesis
    using lcd_text_shows[OF s(1,2) g, where r = 2 and c = 1 and xs = "[0x48, 0x69]" and r' = 2]
    unfolding a Let_def by (simp add: s(3,4))
qed

end
