(* ===== verification/Gal_Spi.thy ===== *)
theory Gal_Spi imports Via_Timing begin

text \<open>
  An SPI device as its master drives it (\<open>src/emulator/chips/spi.h\<close>), and the GAL20RA10
  interface with its 74HC299 that puts one on the VIA's port B (\<open>chips/gal_spi.c\<close>).
\<close>

section \<open>SPI devices\<close>

text \<open>\<open>(uint8_t)(w << 1 | b)\<close>.\<close>

definition shl1 :: "u8 \<Rightarrow> bool \<Rightarrow> u8" where
  "shl1 w b = push_bit 1 w OR of_bool b"

lemma bit_shl1: "bit (shl1 w b) i \<longleftrightarrow> i < 8 \<and> (if i = 0 then b else bit w (i - 1))"
  unfolding shl1_def
  by (simp only: bit_or_iff bit_push_bit_iff bit_of_bool_iff) (auto dest: bit_imp_le_length)

text \<open>The operations of a device over its state \<open>'d\<close>; None is an operation it does not have.\<close>

record 'd spi_device =
  dev_pulse :: "(bool \<Rightarrow> 'd \<Rightarrow> bool \<times> 'd) option"
  dev_select :: "(bool \<Rightarrow> 'd \<Rightarrow> 'd) option"
  dev_reset :: "('d \<Rightarrow> 'd) option"

definition spi_pulse :: "'d spi_device \<Rightarrow> bool \<Rightarrow> 'd \<Rightarrow> bool \<times> 'd" where
  "spi_pulse d mosi x = (case dev_pulse d of Some f \<Rightarrow> f mosi x | None \<Rightarrow> (True, x))"

text \<open>The loop over the bits \<open>i - 1\<close> down to 0, most significant first.\<close>

fun spi_bits :: "'d spi_device \<Rightarrow> u8 \<Rightarrow> nat \<Rightarrow> u8 \<Rightarrow> 'd \<Rightarrow> u8 \<times> 'd" where
  "spi_bits d out 0 inb x = (inb, x)"
| "spi_bits d out (Suc i) inb x =
     (let (m, x) = spi_pulse d (drop_bit i out AND 1 \<noteq> 0) x
      in spi_bits d out i (shl1 inb m) x)"

definition spi_byte :: "'d spi_device \<Rightarrow> u8 \<Rightarrow> 'd \<Rightarrow> u8 \<times> 'd" where
  "spi_byte d out x = spi_bits d out 8 0 x"

definition spi_select :: "'d spi_device \<Rightarrow> bool \<Rightarrow> 'd \<Rightarrow> 'd" where
  "spi_select d selected x = (case dev_select d of Some f \<Rightarrow> f selected x | None \<Rightarrow> x)"

definition spi_reset :: "'d spi_device \<Rightarrow> 'd \<Rightarrow> 'd" where
  "spi_reset d x = (case dev_reset d of Some f \<Rightarrow> f x | None \<Rightarrow> x)"

lemma low_bit_of: "drop_bit i x AND 1 \<noteq> 0 \<longleftrightarrow> bit x i" for x :: u8
  using and_bit_zero_iff[of 0 "drop_bit i x"] by (simp add: bit_drop_bit_eq)

section \<open>The GAL interface\<close>

record gal_spi_state =
  brst :: bool
  gal_output :: bool
  gal_count :: u8
  misor :: bool
  gal_sr :: u8
  gal_bytes :: u32

abbreviation (input) GAL_E :: u8 where "GAL_E \<equiv> 0x04"

definition gal_e :: "via_6522_state \<Rightarrow> bool" where
  "gal_e via \<longleftrightarrow> ddra via AND GAL_E \<noteq> 0 \<and> porta_pin_value via AND GAL_E \<noteq> 0"

definition gal_spi_tick ::
  "u8 option \<Rightarrow> 'd spi_device \<Rightarrow> via_6522_state \<Rightarrow> gal_spi_state \<times> 'd \<Rightarrow> gal_spi_state \<times> 'd" where
  "gal_spi_tick drive dev via = (\<lambda>(s, x).
     let e = gal_e via;
         s0 = (\<not> gal_output s);
         s1 = (\<not> gal_output s \<and> \<not> brst s);
         b = ((e \<and> \<not> gal_output s \<and> gal_count s = 0) \<or> (brst s \<and> gal_count s \<noteq> 7));
         out = (e \<and> (gal_output s \<or> brst s \<and> gal_count s = 7));
         sr = (if s0 \<and> s1 then portb_pin_value drive via
               else if s0 then shl1 (gal_sr s) (misor s)
               else gal_sr s);
         bytes = (if b \<and> \<not> brst s then gal_bytes s + 1 else gal_bytes s);
         cnt = (if brst s then (gal_count s + 1) AND 7 else 0);
         s = s\<lparr>gal_sr := sr, gal_bytes := bytes, gal_count := cnt, brst := b, gal_output := out\<rparr>
     in if b then (let (m, x) = spi_pulse dev (bit sr 7) x in (s\<lparr>misor := m\<rparr>, x)) else (s, x))"

definition gal_spi_reset :: "gal_spi_state \<Rightarrow> gal_spi_state" where
  "gal_spi_reset s = s\<lparr>brst := False, gal_output := False, gal_count := 0, misor := False\<rparr>"

definition gal_spi_init :: gal_spi_state where
  "gal_spi_init = \<lparr>brst = False, gal_output = False, gal_count = 0, misor = False, gal_sr = 0, gal_bytes = 0\<rparr>"

definition gal_spi_output :: "gal_spi_state \<Rightarrow> u8 option" where
  "gal_spi_output s = (if \<not> gal_output s then None else Some (gal_sr s))"

section \<open>A burst\<close>

text \<open>The ticks of a list of port states.\<close>

definition gal_run ::
  "u8 option \<Rightarrow> 'd spi_device \<Rightarrow> via_6522_state list \<Rightarrow> gal_spi_state \<times> 'd \<Rightarrow> gal_spi_state \<times> 'd" where
  "gal_run drive dev vias = fold (gal_spi_tick drive dev) vias"

text \<open>In a burst with \<open>j\<close> bits still to send: what is sent stands above what has come in.\<close>

definition in_burst ::
  "'d spi_device \<Rightarrow> u8 \<Rightarrow> nat \<Rightarrow> u8 \<times> 'd \<Rightarrow> u32 \<Rightarrow> gal_spi_state \<times> 'd \<Rightarrow> bool" where
  "in_burst dev out j result n = (\<lambda>(s, x).
     brst s \<and> \<not> gal_output s \<and> unat (gal_count s) = 7 - j \<and> gal_bytes s = n \<and>
     (\<exists>inb. spi_bits dev out j (shl1 inb (misor s)) x = result \<and>
       (\<forall>i<8. bit (gal_sr s) i = (if i < 7 - j then bit inb i else bit out (i - (7 - j))))))"

lemma burst_tick:
  assumes "in_burst dev out (Suc j) result n (s, x)" "Suc j \<le> 7"
  shows "in_burst dev out j result n (gal_spi_tick drive dev via (s, x))"
proof -
  from assms obtain inb where a: "brst s" "\<not> gal_output s" "unat (gal_count s) = 7 - Suc j" "gal_bytes s = n"
    "spi_bits dev out (Suc j) (shl1 inb (misor s)) x = result"
    "\<And>i. i < 8 \<Longrightarrow> bit (gal_sr s) i = (if i < 7 - Suc j then bit inb i else bit out (i - (7 - Suc j)))"
    by (auto simp: in_burst_def)
  let ?in = "shl1 inb (misor s)" and ?sr = "shl1 (gal_sr s) (misor s)"
  have c: "gal_count s \<noteq> 7" "unat ((gal_count s + 1) AND 7) = 7 - j"
  proof -
    have "unat (gal_count s + 1) = 7 - j" using a(3) assms(2) by (simp add: unat_word_ariths)
    moreover have "w AND 7 = w" if "unat w \<le> 7" for w :: u8
    proof -
      have "w < 2 ^ 3" using that by (simp add: word_less_nat_alt)
      then have "w AND mask 3 = w" by (rule less_mask_eq)
      then show ?thesis by (simp add: mask_eq_exp_minus_1)
    qed
    ultimately show "unat ((gal_count s + 1) AND 7) = 7 - j" by simp
    show "gal_count s \<noteq> 7" using a(3) by auto
  qed
  have sr: "bit ?sr i = (if i < 7 - j then bit ?in i else bit out (i - (7 - j)))" if i: "i < 8" for i
  proof (cases i)
    case 0
    then show ?thesis using assms(2) by (simp only: bit_shl1) simp
  next
    case (Suc k)
    then show ?thesis
      using a(6)[of k] i assms(2) by (simp only: bit_shl1) (auto simp: Suc_diff_Suc)
  qed
  obtain m y where p: "spi_pulse dev (bit ?sr 7) x = (m, y)" by (rule prod.exhaust)
  have "bit ?sr 7 = bit out j" using sr[of 7] assms(2) by auto
  with p have "spi_bits dev out j (shl1 ?in m) y = result"
    using a(5) low_bit_of[of j out] by (simp add: Let_def)
  then show ?thesis
    using a(1,2,4) c sr p
    by (auto simp: in_burst_def gal_spi_tick_def Let_def)
qed

lemma burst_ticks:
  "in_burst dev out j result n c \<Longrightarrow> j \<le> 7 \<Longrightarrow> length vias = j \<Longrightarrow>
    in_burst dev out 0 result n (gal_run drive dev vias c)"
proof (induction vias arbitrary: j c)
  case (Cons v vias)
  obtain s x where c: "c = (s, x)" by (rule prod.exhaust)
  obtain i where j: "j = Suc i" using Cons.prems(3) by (cases j) auto
  from Cons.prems have "in_burst dev out i result n (gal_spi_tick drive dev v (s, x))"
    using burst_tick by (simp add: c j)
  then show ?case using Cons.IH[of i] Cons.prems by (simp add: gal_run_def c j)
qed (simp add: gal_run_def)

text \<open>
  A burst of the GAL is one byte on the SPI bus. From idle, a tick that finds E
  high with a byte on port B, seven ticks whatever E does, and a ninth leave the interface
  with the byte the device returned in the '299 and the device as \<open>spi_byte\<close> leaves it; the
  byte is driven onto port B exactly if E is still high at the last tick. One burst is counted.
\<close>

theorem gal_burst_is_spi_byte:
  fixes x :: 'd and drive :: "u8 option" and dev :: "'d spi_device"
  assumes "\<not> brst s" "\<not> gal_output s" "gal_count s = 0"
    and "gal_e first" "length middle = 7"
  defines "r \<equiv> spi_byte dev (portb_pin_value drive first) x"
  shows "case gal_run drive dev (first # middle @ [fin]) (s, x) of (s', x') \<Rightarrow>
    gal_sr s' = fst r \<and> x' = snd r \<and> \<not> brst s' \<and> gal_count s' = 0 \<and> gal_bytes s' = gal_bytes s + 1 \<and>
    gal_spi_output s' = (if gal_e fin then Some (fst r) else None)"
proof -
  let ?out = "portb_pin_value drive first"
  obtain m y where p: "spi_pulse dev (bit ?out 7) x = (m, y)" by (rule prod.exhaust)
  have one: "gal_spi_tick drive dev first (s, x) =
      (s\<lparr>gal_sr := ?out, gal_bytes := gal_bytes s + 1, gal_count := 0, brst := True, gal_output := False,
         misor := m\<rparr>, y)"
    using assms(1-4) p by (simp add: gal_spi_tick_def Let_def)
  have "r = spi_bits dev ?out 7 (shl1 0 m) y"
    using p low_bit_of[of 7 ?out] by (simp add: r_def spi_byte_def eval_nat_numeral)
  then have "in_burst dev ?out 7 r (gal_bytes s + 1) (gal_spi_tick drive dev first (s, x))"
    unfolding one by (auto simp: in_burst_def intro!: exI[of _ 0])
  from burst_ticks[OF this _ assms(5)]
  have "in_burst dev ?out 0 r (gal_bytes s + 1) (gal_run drive dev (first # middle) (s, x))"
    by (simp add: gal_run_def)
  then obtain t z inb where t: "gal_run drive dev (first # middle) (s, x) = (t, z)" "brst t" "\<not> gal_output t"
    "unat (gal_count t) = 7" "gal_bytes t = gal_bytes s + 1" "r = (shl1 inb (misor t), z)"
    "\<And>i. i < 8 \<Longrightarrow> bit (gal_sr t) i = (if i < 7 then bit inb i else bit ?out (i - 7))"
    by (auto simp: in_burst_def split: prod.splits)
  have c: "gal_count t = 7" using t(4) by (simp add: word_unat_eq_iff)
  have "shl1 (gal_sr t) (misor t) = shl1 inb (misor t)"
  proof (rule bit_word_eqI)
    fix i assume i: "i < LENGTH(8)"
    show "bit (shl1 (gal_sr t) (misor t)) i = bit (shl1 inb (misor t)) i"
      using i t(7)[of "i - 1"] by (simp only: bit_shl1) auto
  qed
  then have "gal_spi_tick drive dev fin (t, z) = (t\<lparr>gal_sr := fst r, gal_count := 0, brst := False,
      gal_output := gal_e fin\<rparr>, z)"
    using t(2,3) c by (simp add: gal_spi_tick_def Let_def t(6))
  moreover have "gal_run drive dev (first # middle @ [fin]) (s, x) =
      gal_spi_tick drive dev fin (gal_run drive dev (first # middle) (s, x))"
    by (simp add: gal_run_def)
  ultimately show ?thesis using t(1,5,6) by (simp add: gal_spi_output_def)
qed

text \<open>A device that echoes the previous bit, E high throughout.\<close>

theorem gal_burst_witness:
  "let dev = \<lparr>dev_pulse = Some (\<lambda>m x. (x, m)), dev_select = None, dev_reset = None\<rparr>;
       pins = via_6522_init\<lparr>ddra := 4, ora := 4, ddrb := 0xFF, orb := 0xA5\<rparr>
   in gal_spi_output (fst (gal_run None dev (pins # replicate 7 pins @ [pins]) (gal_spi_init, False))) =
      Some (fst (spi_byte dev 0xA5 False))"
proof -
  let ?dev = "\<lparr>dev_pulse = Some (\<lambda>m x. (x, m)), dev_select = None, dev_reset = None\<rparr>"
  let ?pins = "via_6522_init\<lparr>ddra := 4, ora := 4, ddrb := 0xFF, orb := 0xA5\<rparr>"
  have p: "gal_e ?pins" "portb_pin_value None ?pins = 0xA5"
    by (simp_all add: gal_e_def porta_pin_value_def portb_pin_value_def via_6522_init_def)
  have i: "\<not> brst gal_spi_init" "\<not> gal_output gal_spi_init" "gal_count gal_spi_init = 0"
    by (simp_all add: gal_spi_init_def)
  show ?thesis
    using gal_burst_is_spi_byte[OF i p(1), where middle = "replicate 7 ?pins" and fin = ?pins
        and drive = None and dev = ?dev and x = False] p
    by (simp add: split_beta Let_def)
qed

end
