(* ===== verification/W5500.thy ===== *)
theory W5500 imports Gal_Spi begin

text \<open>
  The W5500 Ethernet controller as an SPI device (\<open>src/emulator/chips/w5500.c\<close>): its register
  and buffer memory, the frames on the bus, the TCP sockets with their commands, and the peer
  on the network. The peer's callbacks act on a state \<open>'p\<close> of its own, passed along.
\<close>

section \<open>State\<close>

definition W5500_SOCKETS :: nat where "W5500_SOCKETS = 8"
definition W5500_BUFFER :: nat where "W5500_BUFFER = 0x800"

record 'p w5500_peer =
  peer_receive :: "(nat \<Rightarrow> u8 list \<Rightarrow> 'p \<Rightarrow> 'p) option"
  peer_closed :: "(nat \<Rightarrow> 'p \<Rightarrow> 'p) option"

record w5500_state =
  cs_mask :: u8
  selected :: bool
  cs_delay :: u32
  pin_selected :: bool
  pin_ticks :: u32
  w_in :: u8
  w_out :: u8
  w_bits :: u8
  phase :: u8
  w_addr :: u16
  control :: u8
  data_left :: u8
  frames :: u32
  common :: "nat \<Rightarrow> u8"
  socket :: "nat \<Rightarrow> nat \<Rightarrow> u8"
  w_tx :: "nat \<Rightarrow> nat \<Rightarrow> u8"
  w_rx :: "nat \<Rightarrow> nat \<Rightarrow> u8"

abbreviation (input) SN_MR :: nat where "SN_MR \<equiv> 0x00"
abbreviation (input) SN_CR :: nat where "SN_CR \<equiv> 0x01"
abbreviation (input) SN_IR :: nat where "SN_IR \<equiv> 0x02"
abbreviation (input) SN_SR :: nat where "SN_SR \<equiv> 0x03"
abbreviation (input) SN_PORT :: nat where "SN_PORT \<equiv> 0x04"
abbreviation (input) SN_TX_FSR :: nat where "SN_TX_FSR \<equiv> 0x20"
abbreviation (input) SN_TX_RD :: nat where "SN_TX_RD \<equiv> 0x22"
abbreviation (input) SN_TX_WR :: nat where "SN_TX_WR \<equiv> 0x24"
abbreviation (input) SN_RX_RSR :: nat where "SN_RX_RSR \<equiv> 0x26"
abbreviation (input) SN_RX_RD :: nat where "SN_RX_RD \<equiv> 0x28"
abbreviation (input) SN_RX_WR :: nat where "SN_RX_WR \<equiv> 0x2A"
abbreviation (input) SOCK_CLOSED :: u8 where "SOCK_CLOSED \<equiv> 0x00"
abbreviation (input) SOCK_INIT :: u8 where "SOCK_INIT \<equiv> 0x13"
abbreviation (input) SOCK_LISTEN :: u8 where "SOCK_LISTEN \<equiv> 0x14"
abbreviation (input) SOCK_ESTABLISHED :: u8 where "SOCK_ESTABLISHED \<equiv> 0x17"
abbreviation (input) SOCK_CLOSE_WAIT :: u8 where "SOCK_CLOSE_WAIT \<equiv> 0x1C"

section \<open>Registers\<close>

definition reset_registers :: "w5500_state \<Rightarrow> w5500_state" where
  "reset_registers s = s\<lparr>
     common := (\<lambda>_. 0)(0x19 := 0x07, 0x1A := 0xD0, 0x1B := 0x08, 0x2E := 0xBF, 0x39 := 0x04),
     socket := (\<lambda>n. (\<lambda>r. if 0x06 \<le> r \<and> r < 0x06 + 6 then 0xFF else 0)
       (0x16 := 0x80, 0x1E := 0x02, 0x1F := 0x02, 0x20 := 0x08, 0x2D := 0x40))\<rparr>"

text \<open>A byte of the chip's memory; None is where nothing is.\<close>

datatype w5500_cell = Common nat | Socket nat nat | Tx nat nat | Rx nat nat

definition cell :: "u16 \<Rightarrow> w5500_state \<Rightarrow> w5500_cell option" where
  "cell addr s =
     (let bsb = unat (drop_bit 3 (control s)); n = (bsb - 1) div 4; a = unat addr
      in if bsb = 0 then (if a < 0x40 then Some (Common a) else None)
         else if n \<ge> W5500_SOCKETS then None
         else if (bsb - 1) mod 4 = 0 then (if a < 0x30 then Some (Socket n a) else None)
         else if (bsb - 1) mod 4 = 1 then Some (Tx n (a mod W5500_BUFFER))
         else if (bsb - 1) mod 4 = 2 then Some (Rx n (a mod W5500_BUFFER))
         else None)"

fun load_cell :: "w5500_cell \<Rightarrow> w5500_state \<Rightarrow> u8" where
  "load_cell (Common a) s = common s a"
| "load_cell (Socket n a) s = socket s n a"
| "load_cell (Tx n a) s = w_tx s n a"
| "load_cell (Rx n a) s = w_rx s n a"

definition put_reg :: "nat \<Rightarrow> nat \<Rightarrow> u8 \<Rightarrow> w5500_state \<Rightarrow> w5500_state" where
  "put_reg n r v s = s\<lparr>socket := (socket s)(n := (socket s n)(r := v))\<rparr>"

fun store_cell :: "w5500_cell \<Rightarrow> u8 \<Rightarrow> w5500_state \<Rightarrow> w5500_state" where
  "store_cell (Common a) v s = s\<lparr>common := (common s)(a := v)\<rparr>"
| "store_cell (Socket n a) v s = put_reg n a v s"
| "store_cell (Tx n a) v s = s\<lparr>w_tx := (w_tx s)(n := (w_tx s n)(a := v))\<rparr>"
| "store_cell (Rx n a) v s = s\<lparr>w_rx := (w_rx s)(n := (w_rx s n)(a := v))\<rparr>"

definition read_cell :: "w5500_state \<Rightarrow> u8" where
  "read_cell s = (case cell (w_addr s) s of Some c \<Rightarrow> load_cell c s | None \<Rightarrow> 0x00)"

definition get16 :: "(nat \<Rightarrow> u8) \<Rightarrow> nat \<Rightarrow> u16" where
  "get16 r reg = push_bit 8 (to16 (r reg)) OR to16 (r (reg + 1))"

definition put16 :: "nat \<Rightarrow> nat \<Rightarrow> u16 \<Rightarrow> w5500_state \<Rightarrow> w5500_state" where
  "put16 n reg v s = put_reg n (reg + 1) (to8 v) (put_reg n reg (to8 (drop_bit 8 v)) s)"

definition update_free :: "nat \<Rightarrow> w5500_state \<Rightarrow> w5500_state" where
  "update_free n s =
     put16 n SN_TX_FSR (0x800 - (get16 (socket s n) SN_TX_WR - get16 (socket s n) SN_TX_RD)) s"

section \<open>Sockets\<close>

definition connected :: "(nat \<Rightarrow> u8) \<Rightarrow> bool" where
  "connected r \<longleftrightarrow> r SN_SR = SOCK_ESTABLISHED \<or> r SN_SR = SOCK_CLOSE_WAIT"

definition close_socket :: "'p w5500_peer \<Rightarrow> nat \<Rightarrow> w5500_state \<times> 'p \<Rightarrow> w5500_state \<times> 'p" where
  "close_socket pr n = (\<lambda>(s, p).
     (put_reg n SN_SR SOCK_CLOSED s,
      if connected (socket s n) then (case peer_closed pr of Some f \<Rightarrow> f n p | None \<Rightarrow> p) else p))"

definition send_data :: "'p w5500_peer \<Rightarrow> nat \<Rightarrow> w5500_state \<times> 'p \<Rightarrow> w5500_state \<times> 'p" where
  "send_data pr n = (\<lambda>(s, p).
     let rd = get16 (socket s n) SN_TX_RD;
         len = min (unat (get16 (socket s n) SN_TX_WR - rd)) W5500_BUFFER;
         data = map (\<lambda>i. w_tx s n ((unat rd + i) mod W5500_BUFFER)) [0..<len];
         p = (if len \<noteq> 0 then (case peer_receive pr of Some f \<Rightarrow> f n data p | None \<Rightarrow> p) else p);
         s = put16 n SN_TX_RD (get16 (socket s n) SN_TX_WR) s
     in (put_reg n SN_IR (socket s n SN_IR OR 0x10) s, p))"

definition command_effect :: "'p w5500_peer \<Rightarrow> nat \<Rightarrow> u8 \<Rightarrow> w5500_state \<times> 'p \<Rightarrow> w5500_state \<times> 'p" where
  "command_effect pr n cmd = (\<lambda>(s, p).
     if cmd = 0x01 then
       (if socket s n SN_MR AND 0x0F \<noteq> 0x01 then (s, p)
        else
          (let (s, p) = close_socket pr n (s, p);
               s = put_reg n SN_SR SOCK_INIT s;
               s = put16 n SN_TX_RD (get16 (socket s n) SN_TX_WR) s;
               s = put16 n SN_RX_WR (get16 (socket s n) SN_RX_RD) s
           in (put16 n SN_RX_RSR 0 s, p)))
     else if cmd = 0x02 then
       (if socket s n SN_SR = SOCK_INIT then put_reg n SN_SR SOCK_LISTEN s else s, p)
     else if cmd = 0x08 then
       close_socket pr n
         (if connected (socket s n) then put_reg n SN_IR (socket s n SN_IR OR 0x02) s else s, p)
     else if cmd = 0x10 then close_socket pr n (s, p)
     else if cmd = 0x20 then (if connected (socket s n) then send_data pr n (s, p) else (s, p))
     else if cmd = 0x40 then
       (put16 n SN_RX_RSR (get16 (socket s n) SN_RX_WR - get16 (socket s n) SN_RX_RD) s, p)
     else (s, p))"

definition w5500_command :: "'p w5500_peer \<Rightarrow> nat \<Rightarrow> u8 \<Rightarrow> w5500_state \<times> 'p \<Rightarrow> w5500_state \<times> 'p" where
  "w5500_command pr n cmd x = (let (s, p) = command_effect pr n cmd x in (update_free n s, p))"

definition read_only_regs :: "nat set" where
  "read_only_regs = {SN_SR, SN_TX_FSR, SN_TX_FSR + 1, SN_TX_RD, SN_TX_RD + 1, SN_RX_RSR, SN_RX_RSR + 1,
     SN_RX_WR, SN_RX_WR + 1}"

definition write_socket ::
  "'p w5500_peer \<Rightarrow> nat \<Rightarrow> nat \<Rightarrow> u8 \<Rightarrow> w5500_state \<times> 'p \<Rightarrow> w5500_state \<times> 'p" where
  "write_socket pr n reg v = (\<lambda>(s, p).
     if reg = SN_CR then w5500_command pr n v (s, p)
     else if reg = SN_IR then (put_reg n SN_IR (socket s n SN_IR AND NOT v) s, p)
     else if reg \<in> read_only_regs then (s, p)
     else (update_free n (put_reg n reg v s), p))"

definition write_cell :: "'p w5500_peer \<Rightarrow> u8 \<Rightarrow> w5500_state \<times> 'p \<Rightarrow> w5500_state \<times> 'p" where
  "write_cell pr v = (\<lambda>(s, p).
     let c = cell (w_addr s) s; bsb = unat (drop_bit 3 (control s))
     in if bsb = 0 \<and> w_addr s = 0x0000 \<and> v AND 0x80 \<noteq> 0 then (reset_registers s, p)
        else if bsb = 0 \<and> w_addr s = 0x0039 then (s, p)
        else case c of
          None \<Rightarrow> (s, p)
        | Some cl \<Rightarrow>
            if bsb mod 4 = 1 then write_socket pr ((bsb - 1) div 4) (unat (w_addr s)) v (s, p)
            else (store_cell cl v s, p))"

section \<open>Frames\<close>

definition end_frame :: "w5500_state \<Rightarrow> w5500_state" where
  "end_frame s = s\<lparr>phase := 0, w_bits := 0, w_out := 0x01\<rparr>"

definition fixed_length :: "u8 \<Rightarrow> u8" where
  "fixed_length b = [0, 1, 2, 4] ! unat (b AND 0x03)"

definition data_byte :: "'p w5500_peer \<Rightarrow> u8 \<Rightarrow> w5500_state \<times> 'p \<Rightarrow> w5500_state \<times> 'p" where
  "data_byte pr b = (\<lambda>(s, p).
     let writes = (control s AND 0x04 \<noteq> 0);
         (s, p) = (if writes then write_cell pr b (s, p) else (s, p));
         s = s\<lparr>w_addr := w_addr s + 1\<rparr>;
         left = data_left s;
         s = (if left \<noteq> 0 then s\<lparr>data_left := left - 1\<rparr> else s)
     in if left \<noteq> 0 \<and> data_left s = 0 then (end_frame s, p)
        else if \<not> writes then (s\<lparr>w_out := read_cell s\<rparr>, p) else (s, p))"

definition byte_done :: "'p w5500_peer \<Rightarrow> u8 \<Rightarrow> w5500_state \<times> 'p \<Rightarrow> w5500_state \<times> 'p" where
  "byte_done pr b = (\<lambda>(s, p).
     if phase s = 0 then (s\<lparr>w_addr := push_bit 8 (to16 b), phase := 1, w_out := 0x02\<rparr>, p)
     else if phase s = 1 then (s\<lparr>w_addr := w_addr s OR to16 b, phase := 2, w_out := 0x03\<rparr>, p)
     else if phase s = 2 then
       (let s = s\<lparr>control := b, data_left := fixed_length b, phase := 3, frames := frames s + 1\<rparr>
        in (s\<lparr>w_out := if b AND 0x04 \<noteq> 0 then 0x00 else read_cell s\<rparr>, p))
     else data_byte pr b (s, p))"

definition w5500_pulse ::
  "'p w5500_peer \<Rightarrow> bool \<Rightarrow> w5500_state \<times> 'p \<Rightarrow> bool \<times> (w5500_state \<times> 'p)" where
  "w5500_pulse pr mosi = (\<lambda>(s, p).
     if \<not> selected s then (True, s, p)
     else
       (let miso = bit (w_out s) 7;
            s = s\<lparr>w_out := push_bit 1 (w_out s), w_in := shl1 (w_in s) mosi, w_bits := w_bits s + 1\<rparr>
        in (miso, if w_bits s = 8 then byte_done pr (w_in s) (s\<lparr>w_bits := 0\<rparr>, p) else (s, p))))"

section \<open>Chip select and reset\<close>

text \<open>\<open>via\<close> is None where the chip select is the FPGA's.\<close>

definition w5500_tick :: "via_6522_state option \<Rightarrow> w5500_state \<Rightarrow> w5500_state" where
  "w5500_tick via s = (case via of
     None \<Rightarrow> s
   | Some v \<Rightarrow>
       (let pin = (ddra v AND cs_mask s \<noteq> 0 \<and> porta_pin_value v AND cs_mask s = 0);
            s = (if pin \<noteq> pin_selected s then s\<lparr>pin_selected := pin, pin_ticks := 0\<rparr>
                 else if pin_ticks s < cs_delay s then s\<lparr>pin_ticks := pin_ticks s + 1\<rparr> else s);
            sel = (if pin_ticks s \<ge> cs_delay s then pin else selected s);
            s = (if selected s \<and> \<not> sel then end_frame s else s)
        in s\<lparr>selected := sel\<rparr>))"

definition w5500_reset :: "w5500_state \<Rightarrow> w5500_state" where
  "w5500_reset s = reset_registers (end_frame s)"

definition w5500_init :: "u8 \<Rightarrow> w5500_state" where
  "w5500_init cs = end_frame (reset_registers
     \<lparr>cs_mask = cs, selected = False, cs_delay = 0, pin_selected = False, pin_ticks = 0, w_in = 0,
      w_out = 0, w_bits = 0, phase = 0, w_addr = 0, control = 0, data_left = 0, frames = 0,
      common = (\<lambda>_. 0), socket = (\<lambda>_ _. 0), w_tx = (\<lambda>_ _. 0), w_rx = (\<lambda>_ _. 0)\<rparr>)"

definition w5500_cs_glitch :: "w5500_state \<Rightarrow> w5500_state" where
  "w5500_cs_glitch s = (if selected s then end_frame s else s)"

definition w5500_select :: "bool \<Rightarrow> w5500_state \<Rightarrow> w5500_state" where
  "w5500_select sel s = (if selected s \<and> \<not> sel then end_frame s else s)\<lparr>selected := sel\<rparr>"

definition w5500_reset_line :: "w5500_state \<Rightarrow> w5500_state" where
  "w5500_reset_line s = reset_registers (end_frame s)"

definition w5500_spi :: "'p w5500_peer \<Rightarrow> (w5500_state \<times> 'p) spi_device" where
  "w5500_spi pr = \<lparr>dev_pulse = Some (w5500_pulse pr), dev_select = Some (\<lambda>sel (s, p). (w5500_select sel s, p)),
     dev_reset = Some (\<lambda>(s, p). (w5500_reset_line s, p))\<rparr>"

section \<open>The network\<close>

text \<open>The first socket listening on the port, or None (-1).\<close>

definition w5500_peer_connect :: "u16 \<Rightarrow> w5500_state \<Rightarrow> (nat \<times> w5500_state) option" where
  "w5500_peer_connect port s =
     (case List.find (\<lambda>n. socket s n SN_SR = SOCK_LISTEN \<and> get16 (socket s n) SN_PORT = port)
        [0..<W5500_SOCKETS] of
        None \<Rightarrow> None
      | Some n \<Rightarrow> Some (n, put_reg n SN_IR (socket s n SN_IR OR 0x01) (put_reg n SN_SR SOCK_ESTABLISHED s)))"

text \<open>The number of bytes taken; \<open>room\<close> is the unsigned difference of the C code.\<close>

definition w5500_peer_send :: "nat \<Rightarrow> u8 list \<Rightarrow> w5500_state \<Rightarrow> nat \<times> w5500_state" where
  "w5500_peer_send n data s =
     (if socket s n SN_SR \<noteq> SOCK_ESTABLISHED then (0, s)
      else
        (let room = (0x800 :: u32) - ucast (get16 (socket s n) SN_RX_RSR);
             wr = get16 (socket s n) SN_RX_WR;
             len = (if length data > unat room then unat room else length data);
             s = s\<lparr>w_rx := (w_rx s)(n := fold (\<lambda>i m. m((unat wr + i) mod W5500_BUFFER := data ! i)) [0..<len] (w_rx s n))\<rparr>;
             s = put16 n SN_RX_WR (wr + word_of_nat len) s;
             s = put16 n SN_RX_RSR (get16 (socket s n) SN_RX_RSR + word_of_nat len) s;
             s = (if len \<noteq> 0 then put_reg n SN_IR (socket s n SN_IR OR 0x04) s else s)
         in (len, s)))"

definition w5500_peer_close :: "nat \<Rightarrow> w5500_state \<Rightarrow> w5500_state" where
  "w5500_peer_close n s =
     (if socket s n SN_SR \<noteq> SOCK_ESTABLISHED then s
      else put_reg n SN_IR (socket s n SN_IR OR 0x02) (put_reg n SN_SR SOCK_CLOSE_WAIT s))"

end
