(* ===== verification/W5500_Frames.thy ===== *)
theory W5500_Frames imports W5500 Fifo begin

text \<open>
  The frames of the W5500 on the SPI bus: eight pulses are a byte of the chip's protocol, the
  header is answered with its count, and what a frame writes a frame reads back.
\<close>

section \<open>A byte of pulses\<close>

lemma pulse_shift:
  assumes "selected s" "w_bits s \<noteq> 7"
  shows "w5500_pulse pr m (s, p) = (bit (w_out s) 7,
    s\<lparr>w_out := push_bit 1 (w_out s), w_in := shl1 (w_in s) m, w_bits := w_bits s + 1\<rparr>, p)"
proof -
  have "w_bits s + 1 \<noteq> 8"
  proof
    assume "w_bits s + 1 = 8"
    then have "w_bits s + 1 - 1 = 8 - 1" by simp
    then show False using assms(2) by simp
  qed
  then show ?thesis using assms(1) by (simp add: w5500_pulse_def Let_def)
qed

lemma pulse_last:
  assumes "selected s" "w_bits s = 7"
  shows "w5500_pulse pr m (s, p) = (bit (w_out s) 7,
    byte_done pr (shl1 (w_in s) m)
      (s\<lparr>w_out := push_bit 1 (w_out s), w_in := shl1 (w_in s) m, w_bits := 0\<rparr>, p))"
  using assms by (simp add: w5500_pulse_def Let_def)

lemma spi_pulse_w5500: "spi_pulse (w5500_spi pr) m x = w5500_pulse pr m x"
  by (simp add: spi_pulse_def w5500_spi_def)

text \<open>\<open>j\<close> bits are still to come: those before them have moved in and out.\<close>

lemma pulses_to_come:
  assumes "selected s" "unat (w_bits s) = 8 - j" "0 < j" "j \<le> 8"
  shows "\<exists>b' r. spi_bits (w5500_spi pr) b j inb (s, p) = (r,
      byte_done pr b' (s\<lparr>w_out := push_bit j (w_out s), w_in := b', w_bits := 0\<rparr>, p)) \<and>
    (\<forall>i<8. bit b' i = (if i < j then bit b i else bit (w_in s) (i - j))) \<and>
    (\<forall>i<8. bit r i = (if i < j then bit (w_out s) (8 - j + i) else bit inb (i - j)))"
  using assms
proof (induction j arbitrary: s inb)
  case (Suc j)
  let ?m = "bit b j"
  show ?case
  proof (cases j)
    case 0
    then have "w_bits s = 7" using Suc.prems(2) by (simp add: word_unat_eq_iff)
    then show ?thesis
      using pulse_last[OF Suc.prems(1), of pr ?m p] 0
      by (auto simp: spi_pulse_w5500 u8_flag_iff(1) bit_shl1)
  next
    case (Suc k)
    then have b: "w_bits s \<noteq> 7" "unat (w_bits s + 1) = 8 - j"
      using Suc.prems(2,4) by (auto simp: unat_word_ariths)
    let ?t = "s\<lparr>w_out := push_bit 1 (w_out s), w_in := shl1 (w_in s) ?m, w_bits := w_bits s + 1\<rparr>"
    have step: "spi_bits (w5500_spi pr) b (Suc j) inb (s, p) =
        spi_bits (w5500_spi pr) b j (shl1 inb (bit (w_out s) 7)) (?t, p)"
      using pulse_shift[OF Suc.prems(1) b(1), of pr ?m p] by (simp add: spi_pulse_w5500 low_bit_of)
    obtain b' r where r: "spi_bits (w5500_spi pr) b j (shl1 inb (bit (w_out s) 7)) (?t, p) = (r,
        byte_done pr b' (?t\<lparr>w_out := push_bit j (w_out ?t), w_in := b', w_bits := 0\<rparr>, p))"
      "\<And>i. i < 8 \<Longrightarrow> bit b' i = (if i < j then bit b i else bit (w_in ?t) (i - j))"
      "\<And>i. i < 8 \<Longrightarrow> bit r i = (if i < j then bit (w_out ?t) (8 - j + i)
         else bit (shl1 inb (bit (w_out s) 7)) (i - j))"
      using Suc.IH[of ?t "shl1 inb (bit (w_out s) 7)"] Suc.prems(1,4) b(2) Suc by auto
    have "w_out ?t = push_bit 1 (w_out s)" by simp
    then have "push_bit j (w_out ?t) = push_bit (Suc j) (w_out s)"
      by (simp only: push_bit_push_bit Suc_eq_plus1)
    moreover have "bit b' i = (if i < Suc j then bit b i else bit (w_in s) (i - Suc j))" if "i < 8" for i
      using r(2)[OF that] that Suc.prems(4) by (auto simp: bit_shl1 not_less Suc_le_eq less_Suc_eq)
    moreover have "bit r i = (if i < Suc j then bit (w_out s) (8 - Suc j + i) else bit inb (i - Suc j))"
      if "i < 8" for i
    proof -
      have "bit (push_bit 1 (w_out s)) (8 - j + i) \<longleftrightarrow> bit (w_out s) (8 - Suc j + i)" if "i < j"
        using that Suc.prems(4) by (simp only: bit_push_bit_iff) (auto simp: Suc_diff_le)
      then show ?thesis
        using r(3)[OF that] that Suc.prems(4) by (auto simp: bit_shl1 not_less Suc_le_eq less_Suc_eq)
    qed
    ultimately show ?thesis unfolding step r(1) by (intro exI[of _ b'] exI[of _ r]) simp
  qed
qed simp

lemma spi_byte_w5500:
  assumes "selected s" "w_bits s = 0"
  shows "spi_byte (w5500_spi pr) b (s, p) = (w_out s, byte_done pr b (s\<lparr>w_out := 0, w_in := b\<rparr>, p))"
proof -
  obtain b' r where r: "spi_bits (w5500_spi pr) b 8 0 (s, p) = (r,
      byte_done pr b' (s\<lparr>w_out := push_bit 8 (w_out s), w_in := b', w_bits := 0\<rparr>, p))"
    "\<And>i. i < 8 \<Longrightarrow> bit b' i = bit b i" "\<And>i. i < 8 \<Longrightarrow> bit r i = bit (w_out s) i"
    using pulses_to_come[OF assms(1), of 8 pr b 0 p] assms(2) by auto
  have "b' = b" "r = w_out s" by (rule bit_word_eqI; use r(2,3) in simp)+
  moreover have "push_bit 8 (w_out s) = 0" by (rule bit_word_eqI) (simp add: bit_push_bit_iff)
  moreover have "s\<lparr>w_bits := 0\<rparr> = s" using assms(2) by simp
  then have "s\<lparr>w_out := 0, w_in := b, w_bits := 0\<rparr> = s\<lparr>w_out := 0, w_in := b\<rparr>"
    using assms(2) by simp
  ultimately show ?thesis by (simp only: spi_byte_def r(1))
qed

section \<open>Frames\<close>

text \<open>A list of bytes exchanged, and a frame: select, the bytes, deselect.\<close>

fun spi_bytes :: "'d spi_device \<Rightarrow> u8 list \<Rightarrow> 'd \<Rightarrow> u8 list \<times> 'd" where
  "spi_bytes d [] x = ([], x)"
| "spi_bytes d (b # bs) x =
     (let (r, x) = spi_byte d b x; (rs, x) = spi_bytes d bs x in (r # rs, x))"

definition w5500_frame ::
  "'p w5500_peer \<Rightarrow> u8 list \<Rightarrow> w5500_state \<times> 'p \<Rightarrow> u8 list \<times> (w5500_state \<times> 'p)" where
  "w5500_frame pr bs x =
     (let d = w5500_spi pr; (rs, x) = spi_bytes d bs (spi_select d True x)
      in (rs, spi_select d False x))"

lemma spi_bytes_append:
  "spi_bytes d (bs @ cs) x =
    (let (rs, y) = spi_bytes d bs x; (qs, z) = spi_bytes d cs y in (rs @ qs, z))"
  by (induction bs arbitrary: x) (simp_all add: split_beta Let_def)

text \<open>Between two frames.\<close>

definition idle_frame :: "w5500_state \<Rightarrow> bool" where
  "idle_frame s \<longleftrightarrow> phase s = 0 \<and> w_bits s = 0 \<and> w_out s = 0x01"

definition same_memory :: "w5500_state \<Rightarrow> w5500_state \<Rightarrow> bool" where
  "same_memory s t \<longleftrightarrow> common t = common s \<and> socket t = socket s \<and> w_tx t = w_tx s \<and> w_rx t = w_rx s"

definition frame_addr :: "u8 \<Rightarrow> u8 \<Rightarrow> u16" where
  "frame_addr hi lo = push_bit 8 (to16 hi) OR to16 lo"

definition in_data :: "u8 \<Rightarrow> u16 \<Rightarrow> w5500_state \<Rightarrow> bool" where
  "in_data c addr s \<longleftrightarrow> selected s \<and> w_bits s = 0 \<and> phase s = 3 \<and> control s = c \<and> w_addr s = addr \<and>
     data_left s = fixed_length c"

lemma header_answers:
  assumes "selected s" "idle_frame s"
  shows "\<exists>t. spi_bytes (w5500_spi pr) [hi, lo, c] (s, p) = ([1, 2, 3], t, p) \<and>
    in_data c (frame_addr hi lo) t \<and> same_memory s t \<and>
    w_out t = (if c AND 0x04 \<noteq> 0 then 0 else read_cell t)"
  using assms
  by (simp add: spi_byte_w5500 byte_done_def idle_frame_def in_data_def frame_addr_def same_memory_def
      Let_def read_cell_def cell_def)

text \<open>In variable length mode the data goes on: what is read depends on the address alone.\<close>

lemma cell_control: "control t = control s \<Longrightarrow> cell a t = cell a s"
  by (simp add: cell_def)

lemma load_same: "same_memory s t \<Longrightarrow> load_cell c t = load_cell c s"
  by (cases c) (simp_all add: same_memory_def)

definition cell_byte :: "u8 \<Rightarrow> u16 \<Rightarrow> w5500_state \<Rightarrow> u8" where
  "cell_byte c a s = (case cell a (s\<lparr>control := c\<rparr>) of Some cl \<Rightarrow> load_cell cl s | None \<Rightarrow> 0)"

lemma read_cell_byte: "read_cell s = cell_byte (control s) (w_addr s) s"
  unfolding read_cell_def cell_byte_def by simp

lemma cell_byte_same: "same_memory s t \<Longrightarrow> cell_byte c a t = cell_byte c a s"
  by (simp add: cell_byte_def load_same cell_def split: option.split)

lemma read_data:
  assumes "fixed_length c = 0" "c AND 0x04 = 0"
  shows "in_data c a s \<Longrightarrow> w_out s = cell_byte c a s \<Longrightarrow>
    \<exists>t. spi_bytes (w5500_spi pr) ds (s, p) =
        (map (\<lambda>i. cell_byte c (a + word_of_nat i) s) [0..<length ds], t, p) \<and>
      in_data c (a + word_of_nat (length ds)) t \<and> same_memory s t"
proof (induction ds arbitrary: s a)
  case (Cons d ds)
  let ?t = "s\<lparr>w_out := cell_byte c (a + 1) s, w_in := d, w_addr := a + 1\<rparr>"
  have "same_memory s ?t" by (simp add: same_memory_def)
  note same = cell_byte_same[OF this]
  have "spi_byte (w5500_spi pr) d (s, p) = (cell_byte c a s, ?t, p)"
  proof -
    have "read_cell (s\<lparr>w_out := 0, w_in := d, w_addr := a + 1\<rparr>) = cell_byte c (a + 1) s"
      using Cons.prems(1) unfolding read_cell_byte
      by (simp add: in_data_def cell_byte_same[of s "s\<lparr>w_out := 0, w_in := d, w_addr := a + 1\<rparr>"] same_memory_def)
    then show ?thesis
      using Cons.prems assms
      by (simp add: spi_byte_w5500 in_data_def byte_done_def data_byte_def Let_def)
  qed
  moreover have "in_data c (a + 1) ?t" using Cons.prems(1) by (simp add: in_data_def)
  moreover note Cons.IH[OF this]
  ultimately show ?case
    by (auto simp: same same_memory_def split_beta Let_def map_upt_Suc add.assoc simp del: upt_Suc)
qed (simp add: same_memory_def)

text \<open>Writing to a TX buffer: the bytes go where the address points, around the buffer.\<close>

definition tx_control :: "nat \<Rightarrow> bool \<Rightarrow> u8" where
  "tx_control n writes = word_of_nat ((4 * n + 2) * 8 + (if writes then 4 else 0))"

lemma tx_control_fields:
  assumes "n < 8"
  shows "unat (drop_bit 3 (tx_control n w)) = 4 * n + 2" "fixed_length (tx_control n w) = 0"
    and "tx_control n w AND 0x04 \<noteq> 0 \<longleftrightarrow> w"
proof -
  have "n \<in> {0, 1, 2, 3, 4, 5, 6, 7}" using assms by auto
  then show "unat (drop_bit 3 (tx_control n w)) = 4 * n + 2" "fixed_length (tx_control n w) = 0"
    "tx_control n w AND 0x04 \<noteq> 0 \<longleftrightarrow> w"
    by (cases w; auto simp: tx_control_def fixed_length_def)+
qed

lemma tx_cell:
  assumes "n < 8"
  shows "cell a (s\<lparr>control := tx_control n w\<rparr>) = Some (Tx n (unat a mod W5500_BUFFER))"
proof -
  have "Suc (4 * n) div 4 = n" "Suc (4 * n) mod 4 = 1" by presburger+
  then show ?thesis
    using assms tx_control_fields(1)[OF assms, where w = w] by (simp add: cell_def Let_def W5500_SOCKETS_def)
qed

definition tx_store :: "nat \<Rightarrow> u16 \<Rightarrow> u8 list \<Rightarrow> (nat \<Rightarrow> nat \<Rightarrow> u8) \<Rightarrow> nat \<Rightarrow> nat \<Rightarrow> u8" where
  "tx_store n a bs m = m(n := fold (\<lambda>i r. r(unat (a + word_of_nat i) mod W5500_BUFFER := bs ! i))
     [0..<length bs] (m n))"

lemma tx_store_Cons: "tx_store n a (b # bs) m =
    tx_store n (a + 1) bs (m(n := (m n)(unat a mod W5500_BUFFER := b)))"
proof -
  have "[0..<length (b # bs)] = 0 # map Suc [0..<length bs]"
    by (simp add: map_Suc_upt upt_conv_Cons del: upt_Suc)
  then show ?thesis
    by (simp add: tx_store_def fold_map o_def add.assoc del: upt_Suc)
qed

lemma write_data:
  assumes "n < 8"
  shows "in_data (tx_control n True) a s \<Longrightarrow> w_out s = 0 \<Longrightarrow>
    \<exists>t. spi_bytes (w5500_spi pr) bs (s, p) = (replicate (length bs) 0, t, p) \<and>
      common t = common s \<and> socket t = socket s \<and> w_rx t = w_rx s \<and> w_tx t = tx_store n a bs (w_tx s) \<and>
      selected t"
proof (induction bs arbitrary: s a)
  case (Cons b bs)
  note f = tx_control_fields[OF assms, where w = True]
  let ?t = "s\<lparr>w_out := 0, w_in := b, w_tx := (w_tx s)(n := (w_tx s n)(unat a mod W5500_BUFFER := b)),
    w_addr := a + 1\<rparr>"
  have c: "cell a (s\<lparr>w_out := 0, w_in := b\<rparr>) = Some (Tx n (unat a mod W5500_BUFFER))"
    using tx_cell[OF assms, where a = a and s = s and w = True] Cons.prems(1) by (simp add: cell_def in_data_def)
  have "(4 * n + 2) mod 4 \<noteq> 1" by presburger
  then have one: "spi_byte (w5500_spi pr) b (s, p) = (0, ?t, p)"
    using Cons.prems f c
    by (simp add: spi_byte_w5500 in_data_def byte_done_def data_byte_def write_cell_def Let_def)
  have "in_data (tx_control n True) (a + 1) ?t"
    using Cons.prems(1) by (simp add: in_data_def)
  from Cons.IH[OF this] obtain t where t:
    "spi_bytes (w5500_spi pr) bs (?t, p) = (replicate (length bs) 0, t, p)" "common t = common s"
    "socket t = socket s" "w_rx t = w_rx s" "w_tx t = tx_store n a (b # bs) (w_tx s)" "selected t"
    unfolding tx_store_Cons by (auto simp: fun_upd_def)
  then show ?case using one by (intro exI[of _ t]) simp
qed (auto simp: tx_store_def in_data_def)

lemma tx_store_other: "k \<noteq> n \<Longrightarrow> tx_store n a bs m k = m k"
  by (simp add: tx_store_def)

lemma tx_address: "unat (a + word_of_nat i) mod W5500_BUFFER = (unat a + i) mod W5500_BUFFER" for a :: u16
proof -
  have "unat (a + word_of_nat i) = (unat a + i) mod 65536"
    by (simp add: unat_word_ariths unat_of_nat take_bit_eq_mod mod_simps)
  moreover have "(x mod 65536) mod 2048 = x mod 2048" for x :: nat
    by (simp add: mod_mod_cancel)
  ultimately show ?thesis by (simp add: W5500_BUFFER_def)
qed

lemma tx_store_load:
  assumes "length bs \<le> W5500_BUFFER" "i < length bs"
  shows "tx_store n a bs m n (unat (a + word_of_nat i) mod W5500_BUFFER) = bs ! i"
proof -
  have "fold (\<lambda>i r. r((unat a + i) mod W5500_BUFFER := bs ! i)) [0..<k] r ((unat a + i) mod W5500_BUFFER) =
      (if i < k then bs ! i else r ((unat a + i) mod W5500_BUFFER))" if "k \<le> length bs" for k r
    using that
  proof (induction k)
    case (Suc k)
    have "(unat a + i) mod W5500_BUFFER = (unat a + k) mod W5500_BUFFER \<longleftrightarrow> i = k"
      using mod_inj_window[of i W5500_BUFFER k "unat a"] Suc.prems assms by auto
    then show ?case using Suc by (simp add: less_Suc_eq)
  qed simp
  then show ?thesis using assms(2) by (simp add: tx_store_def tx_address)
qed

text \<open>
  What one frame writes another reads. A frame that writes up to the buffer's size
  of bytes to a socket's TX buffer, from any address on, and a frame that reads as many from
  there: both headers are answered 1, 2, 3, the write's data with zeros, the read's data with the
  bytes written, and no register and no other buffer has changed.
\<close>

theorem w5500_frame_roundtrip:
  assumes "n < W5500_SOCKETS" "length bs \<le> W5500_BUFFER" "\<not> selected s" "idle_frame s"
  shows "case w5500_frame pr ([hi, lo, tx_control n True] @ bs) (s, p) of (sent, x) \<Rightarrow>
    case w5500_frame pr ([hi, lo, tx_control n False] @ replicate (length bs) d) x of (got, (t, q)) \<Rightarrow>
      sent = [1, 2, 3] @ replicate (length bs) 0 \<and> got = [1, 2, 3] @ bs \<and>
      common t = common s \<and> socket t = socket s \<and> w_rx t = w_rx s \<and>
      (\<forall>k. k \<noteq> n \<longrightarrow> w_tx t k = w_tx s k)"
proof -
  have n: "n < 8" using assms(1) by (simp add: W5500_SOCKETS_def)
  note f = tx_control_fields[OF n]
  let ?a = "frame_addr hi lo" and ?d = "w5500_spi pr"
  have on: "spi_select ?d True (u, p) = (u\<lparr>selected := True\<rparr>, p)" for u
    by (simp add: spi_select_def w5500_spi_def w5500_select_def)
  have off: "spi_select ?d False (u, p) = (end_frame u\<lparr>selected := False\<rparr>, p)" if "selected u" for u
    using that by (simp add: spi_select_def w5500_spi_def w5500_select_def)
  \<comment> \<open>the write\<close>
  obtain s1 where s1: "spi_bytes ?d [hi, lo, tx_control n True] (s\<lparr>selected := True\<rparr>, p) = ([1, 2, 3], s1, p)"
      "in_data (tx_control n True) ?a s1" "same_memory s s1" "w_out s1 = 0"
    using header_answers[of "s\<lparr>selected := True\<rparr>" pr hi lo "tx_control n True" p] assms(4) f(3)[of True]
    by (auto simp: idle_frame_def same_memory_def)
  obtain s2 where s2: "spi_bytes ?d bs (s1, p) = (replicate (length bs) 0, s2, p)" "common s2 = common s"
      "socket s2 = socket s" "w_rx s2 = w_rx s" "w_tx s2 = tx_store n ?a bs (w_tx s)" "selected s2"
    using write_data[OF n s1(2,4), of pr bs p] s1(3) by (auto simp: same_memory_def)
  let ?u = "end_frame s2\<lparr>selected := False\<rparr>"
  have w: "w5500_frame pr ([hi, lo, tx_control n True] @ bs) (s, p) =
      ([1, 2, 3] @ replicate (length bs) 0, ?u, p)"
    unfolding w5500_frame_def Let_def on spi_bytes_append s1(1) prod.case s2(1) off[OF s2(6)] ..
  \<comment> \<open>the read\<close>
  obtain s3 where s3: "spi_bytes ?d [hi, lo, tx_control n False] (?u\<lparr>selected := True\<rparr>, p) = ([1, 2, 3], s3, p)"
      "in_data (tx_control n False) ?a s3" "same_memory s2 s3" "w_out s3 = read_cell s3"
    using header_answers[of "?u\<lparr>selected := True\<rparr>" pr hi lo "tx_control n False" p] f(3)[of False]
    by (auto simp: idle_frame_def same_memory_def end_frame_def)
  have o3: "w_out s3 = cell_byte (tx_control n False) ?a s3"
    using s3(2,4) unfolding read_cell_byte by (simp add: in_data_def)
  obtain s4 where s4: "spi_bytes ?d (replicate (length bs) d) (s3, p) =
        (map (\<lambda>i. cell_byte (tx_control n False) (?a + word_of_nat i) s3) [0..<length bs], s4, p)"
      "in_data (tx_control n False) (?a + word_of_nat (length bs)) s4" "same_memory s3 s4"
    using read_data[OF f(2) _ s3(2) o3, of pr "replicate (length bs) d" p] f(3)[of False] by auto
  have "cell_byte (tx_control n False) (?a + word_of_nat i) s3 = bs ! i" if "i < length bs" for i
    using tx_store_load[OF assms(2) that] s3(3) s2(5)
    by (simp add: cell_byte_def tx_cell[OF n] same_memory_def)
  then have got: "map (\<lambda>i. cell_byte (tx_control n False) (?a + word_of_nat i) s3) [0..<length bs] = bs"
    by (intro nth_equalityI) simp_all
  have sel4: "selected s4" using s4(2) by (simp add: in_data_def)
  have r: "w5500_frame pr ([hi, lo, tx_control n False] @ replicate (length bs) d) (?u, p) =
      ([1, 2, 3] @ bs, end_frame s4\<lparr>selected := False\<rparr>, p)"
    unfolding w5500_frame_def Let_def on spi_bytes_append s3(1) prod.case s4(1) off[OF sel4] got ..
  show ?thesis
    unfolding w r prod.case using s2 s3(3) s4(3) tx_store_other
    by (simp add: same_memory_def end_frame_def)
qed

theorem w5500_frame_witness:
  "let pr = \<lparr>peer_receive = None, peer_closed = None\<rparr>;
       (sent, x) = w5500_frame pr ([0x07, 0xFF, tx_control 2 True] @ [0xAB, 0xCD]) (w5500_init 1, ())
   in fst (w5500_frame pr ([0x07, 0xFF, tx_control 2 False] @ replicate 2 0) x) = [1, 2, 3, 0xAB, 0xCD]"
proof -
  have i: "\<not> selected (w5500_init 1)" "idle_frame (w5500_init 1)"
    by (simp_all add: w5500_init_def end_frame_def reset_registers_def idle_frame_def)
  have "2 < W5500_SOCKETS" "length [0xAB, 0xCD :: u8] \<le> W5500_BUFFER"
    by (simp_all add: W5500_SOCKETS_def W5500_BUFFER_def)
  from w5500_frame_roundtrip[OF this i, where pr = "\<lparr>peer_receive = None, peer_closed = None\<rparr>"
      and hi = "0x07" and lo = "0xFF" and d = 0 and p = "()"]
  show ?thesis by (simp add: split_beta Let_def numeral_2_eq_2)
qed

end
