(* ===== verification/W5500_Sockets.thy ===== *)
theory W5500_Sockets imports W5500 Fifo begin

text \<open>
  The sockets of the W5500: the invariant of their registers and the transitions of their state
  under everything the driver and the network do, and the receive buffer as a queue.
\<close>

section \<open>Registers\<close>

lemma socket_put_reg: "socket (put_reg n r v s) m q = (if m = n \<and> q = r then v else socket s m q)"
  by (simp add: put_reg_def)

lemma socket_put16:
  "socket (put16 n r v s) m q = (if m = n \<and> q = r + 1 then to8 v
     else if m = n \<and> q = r then to8 (drop_bit 8 v) else socket s m q)"
  by (simp add: put16_def socket_put_reg)

lemma get16_put16:
  "get16 (socket (put16 n r v s) m) q = (if m = n \<and> q = r then v else get16 (socket s m) q)"
  if "m \<noteq> n \<or> q = r \<or> (q + 1 \<noteq> r \<and> q \<noteq> r + 1)"
proof -
  have "push_bit 8 (to16 (to8 (drop_bit 8 v))) OR to16 (to8 v) = v"
    using split_u16[of v] by (simp only: or.commute)
  then show ?thesis using that by (auto simp: get16_def socket_put16)
qed

lemma get16_put_reg:
  "get16 (socket (put_reg n r v s) m) q = get16 (socket s m) q" if "m \<noteq> n \<or> (q \<noteq> r \<and> q + 1 \<noteq> r)"
  using that by (auto simp: get16_def socket_put_reg)

section \<open>The state of a socket\<close>

definition sock_ok :: "w5500_state \<Rightarrow> nat \<Rightarrow> bool" where
  "sock_ok s n \<longleftrightarrow>
     socket s n SN_SR \<in> {SOCK_CLOSED, SOCK_INIT, SOCK_LISTEN, SOCK_ESTABLISHED, SOCK_CLOSE_WAIT} \<and>
     get16 (socket s n) SN_TX_FSR = 0x800 - (get16 (socket s n) SN_TX_WR - get16 (socket s n) SN_TX_RD)"

text \<open>The driver opens, listens and closes; only the network connects and sends its FIN.\<close>

definition driver_next :: "u8 \<Rightarrow> u8 \<Rightarrow> bool" where
  "driver_next a b \<longleftrightarrow> b = a \<or> b = SOCK_CLOSED \<or> b = SOCK_INIT \<or> a = SOCK_INIT \<and> b = SOCK_LISTEN"

definition network_next :: "u8 \<Rightarrow> u8 \<Rightarrow> bool" where
  "network_next a b \<longleftrightarrow> b = a \<or> a = SOCK_LISTEN \<and> b = SOCK_ESTABLISHED \<or>
     a = SOCK_ESTABLISHED \<and> b = SOCK_CLOSE_WAIT"

definition sock_step :: "(u8 \<Rightarrow> u8 \<Rightarrow> bool) \<Rightarrow> w5500_state \<Rightarrow> w5500_state \<Rightarrow> bool" where
  "sock_step nxt s t \<longleftrightarrow>
     (\<forall>n. (sock_ok s n \<longrightarrow> sock_ok t n) \<and> nxt (socket s n SN_SR) (socket t n SN_SR))"

lemma sock_step_same: "socket t = socket s \<Longrightarrow> sock_step driver_next s t \<and> sock_step network_next s t"
  by (simp add: sock_step_def sock_ok_def driver_next_def network_next_def)

text \<open>A register write by the driver ends with the free size brought up to date.\<close>

lemma update_free_regs:
  "socket (update_free n s) m SN_SR = socket s m SN_SR"
  "m \<noteq> n \<Longrightarrow> sock_ok (update_free n s) m = sock_ok s m"
  "sock_ok (update_free n s) n \<longleftrightarrow>
    socket s n SN_SR \<in> {SOCK_CLOSED, SOCK_INIT, SOCK_LISTEN, SOCK_ESTABLISHED, SOCK_CLOSE_WAIT}"
  by (simp_all add: update_free_def sock_ok_def socket_put16 get16_put16)

lemma step_update_free:
  assumes "\<And>m. m \<noteq> n \<Longrightarrow> socket u m = socket s m" "driver_next (socket s n SN_SR) (socket u n SN_SR)"
  shows "sock_step driver_next s (update_free n u)"
  unfolding sock_step_def
proof (intro allI conjI impI)
  fix m
  show "driver_next (socket s m SN_SR) (socket (update_free n u) m SN_SR)"
    using assms by (cases "m = n") (simp_all add: update_free_regs(1) driver_next_def)
  assume ok: "sock_ok s m"
  show "sock_ok (update_free n u) m"
  proof (cases "m = n")
    case True
    have "socket u n SN_SR \<in> {SOCK_CLOSED, SOCK_INIT, SOCK_LISTEN, SOCK_ESTABLISHED, SOCK_CLOSE_WAIT}"
      using assms(2) ok True by (auto simp: driver_next_def sock_ok_def)
    then show ?thesis unfolding True update_free_regs(3) .
  next
    case False
    then show ?thesis using assms(1) ok by (simp add: update_free_regs(2)) (simp add: sock_ok_def)
  qed
qed

lemma close_socket_regs:
  "socket (fst (close_socket pr n (s, p))) m q = (if m = n \<and> q = SN_SR then SOCK_CLOSED else socket s m q)"
  by (simp add: close_socket_def socket_put_reg)

lemma send_data_regs:
  "socket (fst (send_data pr n (s, p))) m q = (if m = n \<and> q = SN_IR then socket s n SN_IR OR 0x10
     else socket (put16 n SN_TX_RD (get16 (socket s n) SN_TX_WR) s) m q)"
  by (simp add: send_data_def Let_def socket_put_reg socket_put16)

lemma command_effect_regs:
  "m \<noteq> n \<Longrightarrow> socket (fst (command_effect pr n cmd (s, p))) m = socket s m"
  "driver_next (socket s n SN_SR) (socket (fst (command_effect pr n cmd (s, p))) n SN_SR)"
proof -
  show "m \<noteq> n \<Longrightarrow> socket (fst (command_effect pr n cmd (s, p))) m = socket s m"
    by (rule ext) (simp add: command_effect_def split_beta Let_def close_socket_regs send_data_regs
        socket_put_reg socket_put16)
  show "driver_next (socket s n SN_SR) (socket (fst (command_effect pr n cmd (s, p))) n SN_SR)"
    by (simp add: command_effect_def split_beta Let_def close_socket_regs send_data_regs
        socket_put_reg socket_put16 driver_next_def)
qed

lemma command_step: "sock_step driver_next s (fst (w5500_command pr n cmd (s, p)))"
  by (simp add: w5500_command_def split_beta Let_def)
    (intro step_update_free command_effect_regs)

lemma write_socket_step: "sock_step driver_next s (fst (write_socket pr n reg v (s, p)))"
proof -
  consider "reg = SN_CR" | "reg = SN_IR" | "reg \<in> read_only_regs" "reg \<noteq> SN_CR" "reg \<noteq> SN_IR" |
    "reg \<notin> read_only_regs" "reg \<noteq> SN_CR" "reg \<noteq> SN_IR" by blast
  then show ?thesis
  proof cases
    case 1
    then show ?thesis using command_step by (simp add: write_socket_def)
  next
    case 2
    then show ?thesis
      by (simp add: write_socket_def sock_step_def sock_ok_def socket_put_reg get16_put_reg driver_next_def)
  next
    case 3
    then show ?thesis by (simp add: write_socket_def sock_step_same)
  next
    case 4
    then have "reg \<noteq> SN_SR" by (auto simp: read_only_regs_def)
    then have "sock_step driver_next s (update_free n (put_reg n reg v s))"
      by (intro step_update_free) (auto simp: socket_put_reg driver_next_def fun_eq_iff)
    then show ?thesis using 4 by (simp add: write_socket_def)
  qed
qed

lemma store_cell_socket: "\<forall>n a. c \<noteq> Socket n a \<Longrightarrow> socket (store_cell c v s) = socket s"
  by (cases c) auto

lemma cell_socket:
  assumes "cell a s = Some (Socket n r)"
  shows "unat (drop_bit 3 (control s)) mod 4 = 1"
proof -
  have "m \<noteq> 0 \<Longrightarrow> (m - 1) mod 4 = 0 \<Longrightarrow> m mod 4 = 1" for m :: nat by presburger
  then show ?thesis using assms by (auto simp: cell_def Let_def split: if_splits)
qed

lemma reset_sock_ok: "sock_ok (reset_registers s) n" "socket (reset_registers s) n SN_SR = SOCK_CLOSED"
  by (simp_all add: sock_ok_def reset_registers_def get16_def)

lemma write_cell_step: "sock_step driver_next s (fst (write_cell pr v (s, p)))"
proof -
  let ?m = "unat (drop_bit 3 (control s))"
  have r: "sock_step driver_next s (reset_registers s)"
    by (simp add: sock_step_def reset_sock_ok driver_next_def)
  have "sock_step driver_next s (store_cell c v s)" if "cell (w_addr s) s = Some c" "?m mod 4 \<noteq> 1" for c
  proof -
    have "\<forall>n a. c \<noteq> Socket n a" using cell_socket that by auto
    from sock_step_same[OF store_cell_socket[OF this]] show ?thesis ..
  qed
  then show ?thesis
    using r write_socket_step sock_step_same[of s s]
    by (auto simp: write_cell_def Let_def split: option.split)
qed

lemma byte_done_step: "sock_step driver_next s (fst (byte_done pr b (s, p)))"
proof -
  have eq: "sock_step driver_next s u" if "sock_step driver_next s t" "socket u = socket t" for t u
    using that by (simp add: sock_step_def sock_ok_def)
  have "sock_step driver_next s (fst (data_byte pr b (s, p)))"
  proof (cases "control s AND 0x04 \<noteq> 0")
    case True
    show ?thesis
      by (rule eq[OF write_cell_step[where s = s and pr = pr and v = b and p = p]])
        (simp add: True data_byte_def Let_def split_beta end_frame_def)
  next
    case False
    show ?thesis
      by (rule conjunct1[OF sock_step_same]) (simp add: False data_byte_def Let_def split_beta end_frame_def)
  qed
  then show ?thesis
    using sock_step_same by (auto simp: byte_done_def Let_def)
qed

section \<open>Everything that happens to the chip\<close>

text \<open>
  The driver's side: the master's pulses and lines, the chip's tick and reset. The network's: the
  peer's connections, bytes and FINs.
\<close>

datatype side = Driver | Network

inductive w5500_step :: "'p w5500_peer \<Rightarrow> side \<Rightarrow> w5500_state \<times> 'p \<Rightarrow> w5500_state \<times> 'p \<Rightarrow> bool" for pr where
  pulse: "w5500_step pr Driver (s, p) (snd (w5500_pulse pr mosi (s, p)))"
| select: "w5500_step pr Driver (s, p) (w5500_select sel s, p)"
| tick: "w5500_step pr Driver (s, p) (w5500_tick via s, p)"
| glitch: "w5500_step pr Driver (s, p) (w5500_cs_glitch s, p)"
| reset: "w5500_step pr Driver (s, p) (w5500_reset s, p)"
| reset_line: "w5500_step pr Driver (s, p) (w5500_reset_line s, p)"
| connect: "w5500_peer_connect port s = Some (n, t) \<Longrightarrow> w5500_step pr Network (s, p) (t, q)"
| send: "w5500_step pr Network (s, p) (snd (w5500_peer_send n data s), q)"
| close: "w5500_step pr Network (s, p) (w5500_peer_close n s, q)"

text \<open>A step of the driver's side or of the network's.\<close>

lemma pulse_step: "sock_step driver_next s (fst (snd (w5500_pulse pr mosi (s, p))))"
proof -
  have "sock_step driver_next s t \<Longrightarrow> socket u = socket s \<Longrightarrow> sock_step driver_next u t" for t u
    by (simp add: sock_step_def sock_ok_def)
  note eq = this[OF byte_done_step]
  show ?thesis
  proof (cases "selected s \<and> w_bits s + 1 = 8")
    case True
    let ?u = "s\<lparr>w_out := push_bit 1 (w_out s), w_in := shl1 (w_in s) mosi, w_bits := 0\<rparr>"
    have "sock_step driver_next ?u (fst (byte_done pr (shl1 (w_in s) mosi) (?u, p)))"
      by (rule byte_done_step)
    then show ?thesis using True by (simp add: w5500_pulse_def Let_def sock_step_def sock_ok_def)
  next
    case False
    then show ?thesis using sock_step_same by (auto simp: w5500_pulse_def Let_def)
  qed
qed

lemma network_steps:
  "w5500_peer_connect port s = Some (n, t) \<Longrightarrow> sock_step network_next s t"
  "sock_step network_next s (snd (w5500_peer_send k data s))"
  "sock_step network_next s (w5500_peer_close k s)"
proof -
  show "sock_step network_next s t" if "w5500_peer_connect port s = Some (n, t)"
  proof -
    have "socket s n SN_SR = SOCK_LISTEN"
      and t: "t = put_reg n SN_IR (socket s n SN_IR OR 0x01) (put_reg n SN_SR SOCK_ESTABLISHED s)"
      using that by (auto simp: w5500_peer_connect_def find_Some_iff split: option.splits)
    then show ?thesis
      by (simp add: sock_step_def sock_ok_def socket_put_reg get16_put_reg network_next_def)
  qed
  show "sock_step network_next s (snd (w5500_peer_send k data s))"
    by (simp add: w5500_peer_send_def Let_def sock_step_def sock_ok_def socket_put_reg get16_put_reg
        socket_put16 get16_put16 network_next_def)
  show "sock_step network_next s (w5500_peer_close k s)"
    by (simp add: w5500_peer_close_def sock_step_def sock_ok_def socket_put_reg get16_put_reg network_next_def)
qed

lemma end_frame_socket [simp]: "socket (end_frame s) = socket s"
  by (simp add: end_frame_def)

lemma line_frames:
  "socket (w5500_select sel s) = socket s" "socket (w5500_tick via s) = socket s"
  "socket (w5500_cs_glitch s) = socket s"
proof -
  show "socket (w5500_tick via s) = socket s"
  proof (cases via)
    case (Some v)
    define pin where "pin = (ddra v AND cs_mask s \<noteq> 0 \<and> porta_pin_value v AND cs_mask s = 0)"
    define u where "u = (if pin \<noteq> pin_selected s then s\<lparr>pin_selected := pin, pin_ticks := 0\<rparr>
      else if pin_ticks s < cs_delay s then s\<lparr>pin_ticks := pin_ticks s + 1\<rparr> else s)"
    define sel where "sel = (if pin_ticks u \<ge> cs_delay u then pin else selected u)"
    have "w5500_tick via s = (if selected u \<and> \<not> sel then end_frame u else u)\<lparr>selected := sel\<rparr>"
      by (simp only: w5500_tick_def Some option.case Let_def pin_def u_def sel_def)
    moreover have "socket u = socket s" by (simp add: u_def)
    ultimately show ?thesis by simp
  qed (simp add: w5500_tick_def)
qed (simp_all add: w5500_select_def w5500_cs_glitch_def)

lemma reset_steps:
  "sock_step driver_next s (w5500_reset s)" "sock_step driver_next s (w5500_reset_line s)"
  by (simp_all add: sock_step_def reset_sock_ok driver_next_def w5500_reset_def w5500_reset_line_def)

lemma w5500_step_sock:
  "w5500_step pr who x y \<Longrightarrow>
   sock_step (case who of Driver \<Rightarrow> driver_next | Network \<Rightarrow> network_next) (fst x) (fst y)"
  by (induction rule: w5500_step.induct)
    (simp_all add: pulse_step reset_steps network_steps line_frames[THEN sock_step_same, THEN conjunct1])

text \<open>
  Property C21: the sockets of the chip stay sound. From power-on, whatever the driver clocks in
  and the network does, every socket is in one of the five states of the model with its free
  TX size equal to the buffer less what waits to be sent. A step of the driver's side - whatever
  bits it clocks in, lines it moves, and a reset - leaves the state of a socket, closes or opens it,
  or brings it from INIT to LISTEN: no step of the driver makes a connection or its end. A step of
  the network leaves it, connects a socket that listens, or half-closes a connected one.
\<close>

theorem w5500_sockets_sound:
  assumes "(\<lambda>x y. \<exists>who. w5500_step pr who x y)\<^sup>*\<^sup>* (w5500_init cs, p) (s, q)" "w5500_step pr who (s, q) (t, q')"
  shows "sock_ok s n \<and> sock_ok t n \<and>
    (let a = socket s n SN_SR; b = socket t n SN_SR in
     case who of
       Driver \<Rightarrow> b = a \<or> b = SOCK_CLOSED \<or> b = SOCK_INIT \<or> a = SOCK_INIT \<and> b = SOCK_LISTEN
     | Network \<Rightarrow> b = a \<or> a = SOCK_LISTEN \<and> b = SOCK_ESTABLISHED \<or> a = SOCK_ESTABLISHED \<and> b = SOCK_CLOSE_WAIT)"
proof -
  have "sock_ok (fst y) n" if "(\<lambda>x y. \<exists>who. w5500_step pr who x y)\<^sup>*\<^sup>* (w5500_init cs, p) y" for y
    using that
  proof (induction rule: rtranclp_induct)
    case base
    have "socket (w5500_init cs) = socket (reset_registers (w5500_init cs))"
      by (simp add: w5500_init_def end_frame_def reset_registers_def)
    then show ?case using reset_sock_ok(1)[of "w5500_init cs" n] by (simp add: sock_ok_def)
  next
    case (step y z)
    then show ?case using w5500_step_sock[of pr _ y z] by (auto simp: sock_step_def)
  qed
  from this[OF assms(1)] have ok: "sock_ok s n" by simp
  have "sock_step (case who of Driver \<Rightarrow> driver_next | Network \<Rightarrow> network_next) s t"
    using w5500_step_sock[OF assms(2)] by simp
  then show ?thesis using ok by (cases who) (auto simp: sock_step_def driver_next_def network_next_def)
qed

theorem w5500_sockets_witness:
  "sock_ok (w5500_select True (w5500_init 1)) 3"
proof -
  have "w5500_step \<lparr>peer_receive = None, peer_closed = None\<rparr> Driver (w5500_init 1, ())
      (w5500_select True (w5500_init 1), ())"
    by (rule w5500_step.select)
  from w5500_sockets_sound[OF rtranclp.rtrancl_refl this, of 3] show ?thesis by blast
qed

section \<open>The receive buffer\<close>

text \<open>
  The queue the driver sees: from Sn\_RX\_RD on, Sn\_RX\_RSR bytes. Taking one is reading it,
  writing the pointer past it, and the RECV command.
\<close>

definition rx_ok :: "nat \<Rightarrow> w5500_state \<times> 'p \<Rightarrow> bool" where
  "rx_ok n = (\<lambda>(s, p). socket s n SN_SR = SOCK_ESTABLISHED \<and>
     get16 (socket s n) SN_RX_WR = get16 (socket s n) SN_RX_RD + get16 (socket s n) SN_RX_RSR \<and>
     unat (get16 (socket s n) SN_RX_RSR) \<le> W5500_BUFFER)"

definition rx_content :: "nat \<Rightarrow> w5500_state \<times> 'p \<Rightarrow> u8 list" where
  "rx_content n = (\<lambda>(s, p). ring W5500_BUFFER (w_rx s n) (unat (get16 (socket s n) SN_RX_RD))
     (unat (get16 (socket s n) SN_RX_RSR)))"

definition rx_put :: "nat \<Rightarrow> u8 \<Rightarrow> w5500_state \<times> 'p \<Rightarrow> (w5500_state \<times> 'p) option" where
  "rx_put n x = (\<lambda>(s, p). case w5500_peer_send n [x] s of (k, t) \<Rightarrow> if k = 0 then None else Some (t, p))"

definition rx_take :: "'p w5500_peer \<Rightarrow> nat \<Rightarrow> w5500_state \<times> 'p \<Rightarrow> u8 \<times> (w5500_state \<times> 'p)" where
  "rx_take pr n = (\<lambda>(s, p).
     let rd = get16 (socket s n) SN_RX_RD; next_rd = rd + 1
     in (w_rx s n (unat rd mod W5500_BUFFER),
         write_socket pr n SN_CR 0x40
           (write_socket pr n (SN_RX_RD + 1) (to8 next_rd)
             (write_socket pr n SN_RX_RD (to8 (drop_bit 8 next_rd)) (s, p)))))"

lemma update_free_other:
  "q \<noteq> SN_TX_FSR \<Longrightarrow> q \<noteq> SN_TX_FSR + 1 \<Longrightarrow> socket (update_free n s) m q = socket s m q"
  "w_rx (update_free n s) = w_rx s"
  by (simp_all add: update_free_def socket_put16) (simp add: put16_def put_reg_def)

lemma w_rx_put: "w_rx (put_reg n r v s) = w_rx s" "w_rx (put16 n r w s) = w_rx s"
  by (simp_all add: put16_def put_reg_def)

lemma buffer_address: "unat (a + b) mod W5500_BUFFER = (unat a + unat b) mod W5500_BUFFER" for a b :: u16
proof -
  have "(x mod 65536) mod 2048 = x mod 2048" for x :: nat
    by (simp add: mod_mod_cancel)
  then show ?thesis by (simp add: unat_word_ariths W5500_BUFFER_def)
qed

lemma ring_append_list:
  "count + k \<le> n \<Longrightarrow> k \<le> length xs \<Longrightarrow>
    ring n (fold (\<lambda>i m. m((first + count + i) mod n := xs ! i)) [0..<k] buf) first (count + k) =
    ring n buf first count @ take k xs"
proof (induction k)
  case (Suc k)
  let ?f = "\<lambda>k. fold (\<lambda>i m. m((first + count + i) mod n := xs ! i)) [0..<k] buf"
  have "ring n (?f (Suc k)) first (count + Suc k) = ring n (?f k) first (count + k) @ [xs ! k]"
    using ring_append[of "count + k" n "?f k" first "xs ! k"] Suc.prems by (simp add: add.assoc del: fun_upd_apply)
  then show ?case using Suc by (simp add: take_Suc_conv_app_nth del: fun_upd_apply)
qed simp

lemma peer_send_content:
  assumes "rx_ok n (s, p)" "w5500_peer_send n data s = (k, t)"
  shows "k = min (length data) (W5500_BUFFER - length (rx_content n (s, p)))"
    and "rx_ok n (t, p)" "rx_content n (t, p) = rx_content n (s, p) @ take k data"
proof -
  let ?rd = "get16 (socket s n) SN_RX_RD" and ?rsr = "get16 (socket s n) SN_RX_RSR"
  let ?wr = "get16 (socket s n) SN_RX_WR"
  from assms(1) have r: "socket s n SN_SR = SOCK_ESTABLISHED" "?wr = ?rd + ?rsr" "unat ?rsr \<le> 2048"
    by (simp_all add: rx_ok_def W5500_BUFFER_def)
  have c: "length (rx_content n (s, p)) = unat ?rsr" by (simp add: rx_content_def)
  have "unat (ucast ?rsr :: u32) = unat ?rsr"
    using order.strict_trans[OF unsigned_less[of ?rsr, where 'a=nat], of "2 ^ 32"]
    by (simp add: unsigned_ucast_eq take_bit_nat_eq_self)
  then have room: "unat ((0x800 :: u32) - ucast ?rsr) = 2048 - unat ?rsr"
    using r(3) by (simp add: unat_sub word_le_nat_alt)
  define len where "len = min (length data) (2048 - unat ?rsr)"
  have len: "(if length data > unat ((0x800 :: u32) - ucast ?rsr) then unat ((0x800 :: u32) - ucast ?rsr)
      else length data) = len"
    unfolding room by (simp add: len_def)
  define buf where "buf = fold (\<lambda>i m. m((unat ?wr + i) mod W5500_BUFFER := data ! i)) [0..<len] (w_rx s n)"
  have t: "k = len" "socket t n SN_SR = SOCK_ESTABLISHED" "get16 (socket t n) SN_RX_RD = ?rd"
    "get16 (socket t n) SN_RX_WR = ?wr + word_of_nat len"
    "get16 (socket t n) SN_RX_RSR = ?rsr + word_of_nat len" "w_rx t n = buf"
  proof -
    define u where "u = put16 n SN_RX_WR (?wr + word_of_nat len) (s\<lparr>w_rx := (w_rx s)(n := buf)\<rparr>)"
    define v where "v = put16 n SN_RX_RSR (?rsr + word_of_nat len) u"
    have "get16 (socket u n) SN_RX_RSR = ?rsr" by (simp add: u_def get16_put16)
    then have "put16 n SN_RX_RSR (get16 (socket u n) SN_RX_RSR + word_of_nat len) u = v"
      by (simp add: v_def)
    then have "(k, t) = (len, if len \<noteq> 0 then put_reg n SN_IR (socket v n SN_IR OR 0x04) v else v)"
      using assms(2) r(1)
      by (simp only: w5500_peer_send_def Let_def len buf_def[symmetric] u_def[symmetric]
          not_True_eq_False if_False) auto
    moreover have "socket v n SN_SR = SOCK_ESTABLISHED" "get16 (socket v n) SN_RX_RD = ?rd"
      "get16 (socket v n) SN_RX_WR = ?wr + word_of_nat len"
      "get16 (socket v n) SN_RX_RSR = ?rsr + word_of_nat len" "w_rx v n = buf"
      using r(1) by (simp_all add: v_def u_def socket_put16 get16_put16 w_rx_put)
    ultimately show "k = len" "socket t n SN_SR = SOCK_ESTABLISHED" "get16 (socket t n) SN_RX_RD = ?rd"
      "get16 (socket t n) SN_RX_WR = ?wr + word_of_nat len"
      "get16 (socket t n) SN_RX_RSR = ?rsr + word_of_nat len" "w_rx t n = buf"
      by (simp_all add: socket_put_reg get16_put_reg w_rx_put)
  qed
  show "k = min (length data) (W5500_BUFFER - length (rx_content n (s, p)))"
    by (simp add: t(1) len_def c W5500_BUFFER_def)
  have fits: "unat ?rsr + len \<le> 2048" using r(3) by (simp add: len_def)
  then have rsr: "unat (?rsr + word_of_nat len) = unat ?rsr + len"
    by (simp add: unat_word_ariths unat_of_nat)
  show "rx_ok n (t, p)"
    using t r(2) fits rsr by (simp add: rx_ok_def W5500_BUFFER_def add.assoc)
  have "buf = fold (\<lambda>i m. m((unat ?rd + unat ?rsr + i) mod W5500_BUFFER := data ! i)) [0..<len] (w_rx s n)"
  proof -
    have "(unat ?wr + i) mod W5500_BUFFER = (unat ?rd + unat ?rsr + i) mod W5500_BUFFER" for i
      by (metis r(2) buffer_address mod_add_left_eq)
    then show ?thesis by (simp only: buf_def)
  qed
  then have "ring W5500_BUFFER buf (unat ?rd) (unat ?rsr + len) =
      ring W5500_BUFFER (w_rx s n) (unat ?rd) (unat ?rsr) @ take len data"
    using ring_append_list[of "unat ?rsr" len W5500_BUFFER data "unat ?rd"] fits
    by (simp add: W5500_BUFFER_def len_def)
  then show "rx_content n (t, p) = rx_content n (s, p) @ take k data"
    using t rsr by (simp add: rx_content_def)
qed

text \<open>Reading one byte: the pointer moves by one, the RECV command takes it off the count.\<close>

lemma write_rx_rd:
  "q = SN_RX_RD \<or> q = SN_RX_RD + 1 \<Longrightarrow>
    write_socket pr n q v (s, p) = (update_free n (put_reg n q v s), p)"
  by (auto simp: write_socket_def read_only_regs_def)

lemma take_content:
  assumes "rx_ok n x" "rx_content n x = b # bs"
  shows "fst (rx_take pr n x) = b" "rx_ok n (snd (rx_take pr n x))"
    "rx_content n (snd (rx_take pr n x)) = bs"
proof -
  obtain s p where x: "x = (s, p)" by (cases x)
  let ?rd = "get16 (socket s n) SN_RX_RD" and ?rsr = "get16 (socket s n) SN_RX_RSR"
  let ?wr = "get16 (socket s n) SN_RX_WR"
  from assms(1) have r: "socket s n SN_SR = SOCK_ESTABLISHED" "?wr = ?rd + ?rsr" "unat ?rsr \<le> W5500_BUFFER"
    by (simp_all add: rx_ok_def x)
  have ne: "unat ?rsr \<noteq> 0" using assms(2) by (intro notI) (simp add: rx_content_def x)
  define u where "u = update_free n (put_reg n (SN_RX_RD + 1) (to8 (?rd + 1))
      (update_free n (put_reg n SN_RX_RD (to8 (drop_bit 8 (?rd + 1))) s)))"
  define v where "v = put16 n SN_RX_RSR (get16 (socket u n) SN_RX_WR - get16 (socket u n) SN_RX_RD) u"
  have take: "rx_take pr n x = (w_rx s n (unat ?rd mod W5500_BUFFER), update_free n v, p)"
    by (simp add: rx_take_def x Let_def write_rx_rd u_def[simplified, symmetric] v_def
        write_socket_def w5500_command_def command_effect_def read_only_regs_def)
  have u: "socket u n SN_SR = SOCK_ESTABLISHED" "get16 (socket u n) SN_RX_RD = ?rd + 1"
    "get16 (socket u n) SN_RX_WR = ?wr" "w_rx u = w_rx s"
    using r(1) split_u16[of "?rd + 1"]
    by (simp_all add: u_def get16_def update_free_other socket_put_reg w_rx_put or.commute)
  have v: "socket v n SN_SR = SOCK_ESTABLISHED" "get16 (socket v n) SN_RX_RD = ?rd + 1"
    "get16 (socket v n) SN_RX_WR = ?wr" "get16 (socket v n) SN_RX_RSR = ?rsr - 1" "w_rx v = w_rx s"
    using u r(2) by (simp_all add: v_def socket_put16 get16_put16 w_rx_put)
  have f: "get16 (socket (update_free n v) n) q = get16 (socket v n) q"
    if "q = SN_RX_RD \<or> q = SN_RX_WR \<or> q = SN_RX_RSR" for q
    using that by (auto simp: get16_def update_free_other)
  have rsr: "unat (?rsr - 1) = unat ?rsr - 1"
    using ne by (simp add: unat_minus_one unat_eq_zero)
  show "fst (rx_take pr n x) = b"
    using assms(2) ne by (simp add: take[unfolded x] x rx_content_def ring_head)
  show "rx_ok n (snd (rx_take pr n x))"
    using v r rsr by (simp add: take[unfolded x] x rx_ok_def f update_free_other add_diff_eq)
  have "ring W5500_BUFFER (w_rx s n) (unat (?rd + 1)) k =
      ring W5500_BUFFER (w_rx s n) (Suc (unat ?rd) mod W5500_BUFFER) k" for k
  proof -
    have "(unat (?rd + 1) + i) mod W5500_BUFFER = (Suc (unat ?rd) mod W5500_BUFFER + i) mod W5500_BUFFER" for i
    proof -
      have "unat (?rd + 1) mod W5500_BUFFER = Suc (unat ?rd) mod W5500_BUFFER"
        using buffer_address[of ?rd 1] by simp
      then show ?thesis by (simp only: mod_add_left_eq[symmetric, of "unat (?rd + 1)"] mod_mod_trivial)
    qed
    then show ?thesis by (simp add: ring_def)
  qed
  then show "rx_content n (snd (rx_take pr n x)) = bs"
    using v rsr assms(2) ne by (simp add: take[unfolded x] rx_content_def x f update_free_other ring_head)
qed

lemma rx_put_content:
  assumes "rx_ok n x"
  shows "length (rx_content n x) < W5500_BUFFER \<Longrightarrow>
      \<exists>y. rx_put n b x = Some y \<and> rx_ok n y \<and> rx_content n y = rx_content n x @ [b]"
    "\<not> length (rx_content n x) < W5500_BUFFER \<Longrightarrow> rx_put n b x = None"
proof -
  obtain s p where x: "x = (s, p)" by (cases x)
  obtain k t where t: "w5500_peer_send n [b] s = (k, t)" by fastforce
  note c = peer_send_content[OF assms[unfolded x] t, folded x]
  show "\<exists>y. rx_put n b x = Some y \<and> rx_ok n y \<and> rx_content n y = rx_content n x @ [b]"
    if "length (rx_content n x) < W5500_BUFFER"
    using that c by (simp add: rx_put_def x t)
  show "rx_put n b x = None" if "\<not> length (rx_content n x) < W5500_BUFFER"
    using that c by (simp add: rx_put_def x t)
qed

interpretation rx: fifo "rx_content n" "rx_put n" "rx_take pr n" W5500_BUFFER "rx_ok n" for n pr
proof unfold_locales
  show "length (rx_content n q) \<le> W5500_BUFFER" if "rx_ok n q" for q :: "w5500_state \<times> 'a"
    using that by (auto simp: rx_ok_def rx_content_def)
qed (blast intro: rx_put_content take_content)+

text \<open>
  Property C22: what the peer sends arrives, in order. Of a segment a connected peer sends, a
  socket takes as many bytes as its receive buffer has room for; reading that many bytes and what
  was waiting before them, each with its RECV command, gives what was waiting and then the
  segment's bytes, in order, and leaves the buffer empty.
\<close>

theorem w5500_receive_in_order:
  assumes "rx_ok n (s, p)" "w5500_peer_send n data s = (k, t)"
  shows "k = min (length data) (W5500_BUFFER - length (rx_content n (s, p))) \<and>
    fst (get_n (rx_take pr n) (length (rx_content n (s, p)) + k) (t, p)) =
      rx_content n (s, p) @ take k data \<and>
    rx_content n (snd (get_n (rx_take pr n) (length (rx_content n (s, p)) + k) (t, p))) = []"
proof -
  note c = peer_send_content[OF assms]
  have "length (rx_content n (s, p)) + k = length (rx_content n (t, p))" using c by simp
  then show ?thesis using rx.get_n_content[OF c(2), of _ pr] c by simp
qed

theorem w5500_receive_witness:
  fixes s :: w5500_state
  defines "s \<equiv> put_reg 2 SN_SR SOCK_ESTABLISHED (w5500_init 1)"
  shows "fst (get_n (rx_take \<lparr>peer_receive = None, peer_closed = None\<rparr> 2) 3
    (snd (w5500_peer_send 2 [0x47, 0x45, 0x54] s), ())) = [0x47, 0x45, 0x54]"
proof -
  have ok: "rx_ok 2 (s, ())" "rx_content 2 (s, ()) = []"
    by (simp_all add: s_def rx_ok_def rx_content_def put_reg_def w5500_init_def end_frame_def
        reset_registers_def get16_def)
  obtain k t where t: "w5500_peer_send 2 [0x47, 0x45, 0x54] s = (k, t)" by fastforce
  let ?pr = "\<lparr>peer_receive = None, peer_closed = None\<rparr>"
  note r = w5500_receive_in_order[OF ok(1) t, of ?pr, unfolded ok(2)]
  from conjunct1[OF r] have "k = 3" by (simp add: W5500_BUFFER_def)
  moreover from conjunct1[OF conjunct2[OF r]] have "fst (get_n (rx_take ?pr 2) k (t, ())) = take k [0x47, 0x45, 0x54]" by simp
  ultimately show ?thesis by (simp add: t del: get_n.simps)
qed

end
