(* ===== verification/Net_Client.thy ===== *)
theory Net_Client imports W5500_Sockets W5500_Frames begin

text \<open>
  A client on the network for the W5500's sockets (\<open>src/emulator/chips/net_client.c\<close>). It is the
  peer of the chip: the chip's callbacks act on the client, the client's tick on the chip. A socket
  of -1 and a missing response file are None; the report only prints.
\<close>

section \<open>State\<close>

record net_client =
  nc_port :: u16
  request :: "u8 list"
  connections :: nat
  latency :: nat
  idle :: nat
  response :: "u8 list option"
  nc_socket :: "nat option"
  nc_wait :: nat
  nc_sent :: nat
  nc_made :: nat
  nc_closed :: nat
  received :: u32
  idle_socket :: "nat \<Rightarrow> nat option"
  idle_made :: nat
  idle_closed :: nat

section \<open>The chip's callbacks\<close>

definition nc_receive :: "nat \<Rightarrow> u8 list \<Rightarrow> net_client \<Rightarrow> net_client" where
  "nc_receive n data c =
     (if nc_socket c \<noteq> Some n then c
      else (case response c of Some r \<Rightarrow> c\<lparr>response := Some (r @ data)\<rparr> | None \<Rightarrow> c)
        \<lparr>received := received c + word_of_nat (length data)\<rparr>)"

definition nc_close :: "nat \<Rightarrow> net_client \<Rightarrow> net_client" where
  "nc_close n c =
     (case List.find (\<lambda>i. idle_socket c i = Some n) [0..<idle_made c] of
        Some i \<Rightarrow> c\<lparr>idle_socket := (idle_socket c)(i := None), idle_closed := idle_closed c + 1\<rparr>
      | None \<Rightarrow> if nc_socket c \<noteq> Some n then c
                else c\<lparr>nc_socket := None, nc_closed := nc_closed c + 1\<rparr>)"

definition client_peer :: "net_client w5500_peer" where
  "client_peer = \<lparr>peer_receive = Some nc_receive, peer_closed = Some nc_close\<rparr>"

section \<open>The client's tick\<close>

definition net_client_tick :: "w5500_state \<times> net_client \<Rightarrow> w5500_state \<times> net_client" where
  "net_client_tick = (\<lambda>(s, c).
     if idle_made c < idle c then
       (case w5500_peer_connect (nc_port c) s of
          Some (n, t) \<Rightarrow>
            (t, c\<lparr>idle_socket := (idle_socket c)(idle_made c := Some n), idle_made := idle_made c + 1\<rparr>)
        | None \<Rightarrow> (s, c))
     else
       (case nc_socket c of
          None \<Rightarrow>
            if nc_made c = connections c then (s, c)
            else (case w5500_peer_connect (nc_port c) s of
                Some (n, t) \<Rightarrow>
                  (t, c\<lparr>nc_socket := Some n, nc_made := nc_made c + 1, nc_wait := latency c, nc_sent := 0\<rparr>)
              | None \<Rightarrow> (s, c))
        | Some n \<Rightarrow>
            (let c = (if nc_wait c \<noteq> 0 then c\<lparr>nc_wait := nc_wait c - 1\<rparr> else c)
             in if nc_wait c \<noteq> 0 then (s, c)
                else if nc_sent c < length (request c) then
                  (let (k, s) = w5500_peer_send n (drop (nc_sent c) (request c)) s
                   in (s, c\<lparr>nc_sent := nc_sent c + k\<rparr>))
                else (s, c))))"

definition net_client_init :: "u16 \<Rightarrow> u8 list \<Rightarrow> nat \<Rightarrow> nat \<Rightarrow> nat \<Rightarrow> u8 list option \<Rightarrow> net_client" where
  "net_client_init port req conns idl lat resp =
     \<lparr>nc_port = port, request = req, connections = conns, latency = lat,
      idle = (if idl < W5500_SOCKETS then idl else W5500_SOCKETS), response = resp, nc_socket = None,
      nc_wait = 0, nc_sent = 0, nc_made = 0, nc_closed = 0, received = 0, idle_socket = (\<lambda>_. None),
      idle_made = 0, idle_closed = 0\<rparr>"

section \<open>The chip and its client\<close>

text \<open>The master's pulses and lines, the chip's tick, and the client's tick.\<close>

inductive net_step :: "w5500_state \<times> net_client \<Rightarrow> w5500_state \<times> net_client \<Rightarrow> bool" where
  net_pulse: "net_step x (snd (w5500_pulse client_peer mosi x))"
| net_line: "t = w5500_select sel s \<or> t = w5500_tick via s \<or> t = w5500_cs_glitch s \<or> t = w5500_reset s \<or>
    t = w5500_reset_line s \<Longrightarrow> net_step (s, c) (t, c)"
| net_tick: "net_step x (net_client_tick x)"

definition client_ok :: "net_client \<Rightarrow> bool" where
  "client_ok c \<longleftrightarrow> nc_made c \<le> connections c \<and> nc_sent c \<le> length (request c) \<and>
     nc_made c = nc_closed c + (if nc_socket c = None then 0 else 1) \<and>
     idle_closed c \<le> idle_made c \<and> idle_made c \<le> idle c \<and> idle c \<le> W5500_SOCKETS \<and>
     card {i. i < idle_made c \<and> idle_socket c i \<noteq> None} = idle_made c - idle_closed c"

text \<open>What the client was given does not change.\<close>

definition same_job :: "net_client \<Rightarrow> net_client \<Rightarrow> bool" where
  "same_job c d \<longleftrightarrow> nc_port c = nc_port d \<and> request c = request d \<and> connections c = connections d \<and>
     idle c = idle d \<and> latency c = latency d"

lemma receive_ok: "client_ok c \<Longrightarrow> client_ok (nc_receive n data c) \<and> same_job (nc_receive n data c) c"
  by (auto simp: nc_receive_def client_ok_def same_job_def split: option.split)

lemma close_ok: "client_ok c \<Longrightarrow> client_ok (nc_close n c) \<and> same_job (nc_close n c) c"
proof (cases "List.find (\<lambda>i. idle_socket c i = Some n) [0..<idle_made c]")
  case None
  assume "client_ok c"
  then show ?thesis using None by (auto simp: nc_close_def client_ok_def same_job_def)
next
  case (Some i)
  assume ok: "client_ok c"
  let ?open = "{i. i < idle_made c \<and> idle_socket c i \<noteq> None}"
  have i: "i \<in> ?open" using Some by (auto simp: find_Some_iff)
  have "{j. j < idle_made c \<and> ((idle_socket c)(i := None)) j \<noteq> None} = ?open - {i}" by auto
  moreover have "card (?open - {i}) = card ?open - 1" using i by (simp add: card_Diff_singleton)
  moreover have "0 < card ?open" using i by (auto simp: card_gt_0_iff)
  ultimately show ?thesis using ok Some by (simp add: nc_close_def client_ok_def same_job_def)
qed

lemma send_le: "fst (w5500_peer_send n data s) \<le> length data"
  by (simp add: w5500_peer_send_def Let_def)

lemma client_tick_ok: "client_ok c \<Longrightarrow> client_ok (snd (net_client_tick (s, c))) \<and> same_job (snd (net_client_tick (s, c))) c"
proof -
  assume ok: "client_ok c"
  have "client_ok (c\<lparr>idle_socket := (idle_socket c)(idle_made c := Some n), idle_made := idle_made c + 1\<rparr>)"
    if "idle_made c < idle c" for n
  proof -
    have "{i. i < idle_made c + 1 \<and> ((idle_socket c)(idle_made c := Some n)) i \<noteq> None} =
        insert (idle_made c) {i. i < idle_made c \<and> idle_socket c i \<noteq> None}" by auto
    then show ?thesis using ok that by (simp add: client_ok_def Suc_diff_le)
  qed
  moreover have "client_ok (c\<lparr>nc_wait := w, nc_sent := nc_sent c + k\<rparr>)" "client_ok (c\<lparr>nc_sent := nc_sent c + k\<rparr>)"
    if "k \<le> length (drop (nc_sent c) (request c))" for k w
    using ok that by (auto simp: client_ok_def)
  moreover have "client_ok (c\<lparr>nc_socket := Some n, nc_made := nc_made c + 1, nc_wait := w, nc_sent := 0\<rparr>)"
    if "nc_socket c = None" "nc_made c \<noteq> connections c" for n w
    using ok that by (simp add: client_ok_def)
  moreover have "client_ok (c\<lparr>nc_wait := w\<rparr>)" for w using ok by (simp add: client_ok_def)
  ultimately show ?thesis
    using ok send_le[of _ "drop (nc_sent c) (request c)" s]
    by (simp add: net_client_tick_def Let_def split_beta same_job_def split: option.split)
qed

text \<open>What the callbacks keep, the chip keeps.\<close>

lemma pulse_keeps_peer:
  assumes "\<And>f n data p. peer_receive pr = Some f \<Longrightarrow> P p \<Longrightarrow> P (f n data p)"
    and "\<And>f n p. peer_closed pr = Some f \<Longrightarrow> P p \<Longrightarrow> P (f n p)"
    and "P (snd x)"
  shows "P (snd (snd (w5500_pulse pr mosi x)))"
proof -
  have close: "P p \<Longrightarrow> P (snd (close_socket pr n (s, p)))" for n s p
    using assms(2) by (simp add: close_socket_def split: option.split)
  have send: "P p \<Longrightarrow> P (snd (send_data pr n (s, p)))" for n s p
    using assms(1) by (simp add: send_data_def Let_def split: option.split)
  have eff: "P p \<Longrightarrow> P (snd (command_effect pr n cmd (s, p)))" for n cmd s p
    using close send by (simp add: command_effect_def Let_def split_beta)
  have cmd: "P p \<Longrightarrow> P (snd (w5500_command pr n cmd (s, p)))" for n cmd s p
    using eff by (simp add: w5500_command_def split_beta)
  have sock: "P p \<Longrightarrow> P (snd (write_socket pr n reg v (s, p)))" for n reg v s p
    using cmd by (simp add: write_socket_def)
  have cl: "P p \<Longrightarrow> P (snd (write_cell pr v (s, p)))" for v s p
    using sock by (simp add: write_cell_def Let_def split: option.split)
  have dat: "P p \<Longrightarrow> P (snd (data_byte pr b (s, p)))" for b s p
    using cl by (simp add: data_byte_def Let_def split_beta)
  have byte: "P p \<Longrightarrow> P (snd (byte_done pr b (s, p)))" for b s p
    using dat by (simp add: byte_done_def Let_def)
  show ?thesis using assms(3) byte by (cases x) (simp add: w5500_pulse_def Let_def)
qed

lemma net_step_ok:
  assumes "net_step x y" "client_ok (snd x)"
  shows "client_ok (snd y) \<and> same_job (snd y) (snd x)"
  using assms
proof (induction rule: net_step.induct)
  case (net_pulse x mosi)
  have "client_ok c \<and> same_job c (snd x) \<Longrightarrow>
      client_ok (nc_receive n data c) \<and> same_job (nc_receive n data c) (snd x)"
    "client_ok c \<and> same_job c (snd x) \<Longrightarrow> client_ok (nc_close n c) \<and> same_job (nc_close n c) (snd x)" for n data c
    using receive_ok[of c n data] close_ok[of c n] by (auto simp: same_job_def)
  then show ?case
    using net_pulse pulse_keeps_peer[where pr = client_peer and P = "\<lambda>c. client_ok c \<and> same_job c (snd x)"]
    by (simp add: client_peer_def same_job_def)
next
  case (net_line t sel s via c)
  then show ?case by (simp add: same_job_def)
next
  case (net_tick x)
  then show ?case using client_tick_ok by (metis prod.collapse)
qed

lemma net_reachable_ok:
  assumes "net_step\<^sup>*\<^sup>* (s, c) y" "client_ok c"
  shows "client_ok (snd y) \<and> same_job (snd y) c"
  using assms
proof (induction rule: rtranclp_induct)
  case base
  then show ?case by (simp add: same_job_def)
next
  case (step y z)
  then show ?case using net_step_ok[of y z] by (auto simp: same_job_def)
qed

text \<open>The socket a connection to a port gets: the first that listens there.\<close>

definition listens :: "u16 \<Rightarrow> w5500_state \<Rightarrow> nat \<Rightarrow> bool" where
  "listens port s j \<longleftrightarrow> j < W5500_SOCKETS \<and> socket s j SN_SR = SOCK_LISTEN \<and> get16 (socket s j) SN_PORT = port"

definition first_listening :: "u16 \<Rightarrow> w5500_state \<Rightarrow> nat \<Rightarrow> bool" where
  "first_listening port s j \<longleftrightarrow> listens port s j \<and> (\<forall>i<j. \<not> listens port s i)"

lemma peer_connect_first:
  "(\<exists>j t. w5500_peer_connect port s = Some (j, t) \<and> first_listening port s j \<and> socket t j SN_SR = SOCK_ESTABLISHED) \<or>
   w5500_peer_connect port s = None \<and> (\<forall>j. \<not> listens port s j)"
proof (cases "List.find (\<lambda>n. socket s n SN_SR = SOCK_LISTEN \<and> get16 (socket s n) SN_PORT = port) [0..<W5500_SOCKETS]")
  case None
  then have "w5500_peer_connect port s = None" by (simp add: w5500_peer_connect_def)
  moreover have "\<forall>j. \<not> listens port s j" using None by (auto simp: find_None_iff listens_def)
  ultimately show ?thesis by simp
next
  case (Some j)
  then have "first_listening port s j" by (auto simp: find_Some_iff first_listening_def listens_def)
  then show ?thesis using Some by (auto simp: w5500_peer_connect_def socket_put_reg)
qed

text \<open>A tick, by what the client is at.\<close>

lemma client_idle:
  assumes "idle_made c < idle c" "net_client_tick (s, c) = (t, d)"
  shows "(\<exists>j. first_listening (nc_port c) s j \<and> socket t j SN_SR = SOCK_ESTABLISHED \<and>
      d = c\<lparr>idle_socket := (idle_socket c)(idle_made c := Some j), idle_made := idle_made c + 1\<rparr>) \<or>
    (\<forall>j. \<not> listens (nc_port c) s j) \<and> (t, d) = (s, c)"
  using assms peer_connect_first[of "nc_port c" s] by (auto simp: net_client_tick_def)

lemma client_connect:
  assumes "\<not> idle_made c < idle c" "nc_socket c = None" "net_client_tick (s, c) = (t, d)"
  shows "nc_made c \<noteq> connections c \<and> (\<exists>j. first_listening (nc_port c) s j \<and> socket t j SN_SR = SOCK_ESTABLISHED \<and>
      d = c\<lparr>nc_socket := Some j, nc_made := nc_made c + 1, nc_wait := latency c, nc_sent := 0\<rparr>) \<or>
    (nc_made c = connections c \<or> (\<forall>j. \<not> listens (nc_port c) s j)) \<and> (t, d) = (s, c)"
  using assms peer_connect_first[of "nc_port c" s] by (auto simp: net_client_tick_def split: if_splits)

lemma client_wait:
  assumes "\<not> idle_made c < idle c" "nc_socket c = Some n" "1 < nc_wait c" "net_client_tick (s, c) = (t, d)"
  shows "(t, d) = (s, c\<lparr>nc_wait := nc_wait c - 1\<rparr>)"
  using assms by (auto simp: net_client_tick_def Let_def)

lemma client_send:
  assumes "\<not> idle_made c < idle c" "nc_socket c = Some n" "nc_wait c \<le> 1" "rx_ok n (s, ())" "nc_sent c \<le> length (request c)"
    and "net_client_tick (s, c) = (t, d)"
  shows "nc_sent d = nc_sent c + min (length (request c) - nc_sent c) (W5500_BUFFER - length (rx_content n (s, ())))"
    "rx_content n (t, ()) = rx_content n (s, ()) @ take (nc_sent d - nc_sent c) (drop (nc_sent c) (request c))"
    "nc_socket d = Some n"
proof -
  let ?rest = "drop (nc_sent c) (request c)"
  obtain k u where k: "w5500_peer_send n ?rest s = (k, u)" by fastforce
  note sent = peer_send_content[OF assms(4) k]
  have e: "d = c\<lparr>nc_wait := 0, nc_sent := nc_sent c + k\<rparr> \<and> (t = u \<or> t = s \<and> k = 0 \<and> ?rest = [])"
  proof (cases "nc_sent c < length (request c)")
    case True
    then show ?thesis using assms(1-3,6) k by (auto simp: net_client_tick_def Let_def split: if_splits)
  next
    case False
    then have "k = 0" "?rest = []" using sent(1) by simp_all
    then show ?thesis using False assms(1-3,6) by (auto simp: net_client_tick_def Let_def split: if_splits)
  qed
  then show "nc_sent d = nc_sent c + min (length (request c) - nc_sent c) (W5500_BUFFER - length (rx_content n (s, ())))"
    "nc_socket d = Some n" using sent(1) assms(2) by auto
  show "rx_content n (t, ()) = rx_content n (s, ()) @ take (nc_sent d - nc_sent c) ?rest"
    using e sent(3) by auto
qed

text \<open>
  Property C38: the client makes its connections and sends its request, in order. In every state that
  the chip and the client reach, however the program drives the chip, the client has made at most the
  connections it was given, all but the open one closed, has open the idle connections it made less
  those closed, and has sent no more than its request. Its next tick, from there: while an idle connection is
  missing, and then while none is open and one is left to make, it connects to the first socket that listens
  on its port, if there is one, and starts its request anew; on an open connection it waits out its latency,
  one tick at a time; and then, with the pointers of the socket's receive buffer as the chip keeps them, it puts
  the next bytes of the request behind what waits there, exactly as many as fit.
\<close>

theorem net_client_sound:
  assumes "net_step\<^sup>*\<^sup>* (w5500_init cs, net_client_init port req conns idl lat resp) (s, c)"
    and "net_client_tick (s, c) = (t, d)"
  shows "nc_made c \<le> conns \<and> nc_made c = nc_closed c + (if nc_socket c = None then 0 else 1) \<and>
    card {i. i < idle_made c \<and> idle_socket c i \<noteq> None} = idle_made c - idle_closed c \<and>
    idle_made c \<le> min idl W5500_SOCKETS \<and> nc_sent c \<le> length req \<and>
    (if idle_made c < min idl W5500_SOCKETS then
       (\<exists>j. first_listening port s j \<and> socket t j SN_SR = SOCK_ESTABLISHED \<and>
          d = c\<lparr>idle_socket := (idle_socket c)(idle_made c := Some j), idle_made := idle_made c + 1\<rparr>) \<or>
       (\<forall>j. \<not> listens port s j) \<and> (t, d) = (s, c)
     else case nc_socket c of
       None \<Rightarrow>
         nc_made c < conns \<and> (\<exists>j. first_listening port s j \<and> socket t j SN_SR = SOCK_ESTABLISHED \<and>
            d = c\<lparr>nc_socket := Some j, nc_made := nc_made c + 1, nc_wait := lat, nc_sent := 0\<rparr>) \<or>
         (nc_made c = conns \<or> (\<forall>j. \<not> listens port s j)) \<and> (t, d) = (s, c)
     | Some n \<Rightarrow>
         if 1 < nc_wait c then (t, d) = (s, c\<lparr>nc_wait := nc_wait c - 1\<rparr>)
         else rx_ok n (s, ()) \<longrightarrow>
           nc_sent d = nc_sent c + min (length req - nc_sent c) (W5500_BUFFER - length (rx_content n (s, ()))) \<and>
           rx_content n (t, ()) = rx_content n (s, ()) @ take (nc_sent d - nc_sent c) (drop (nc_sent c) req) \<and>
           nc_socket d = Some n)"
proof -
  let ?c = "net_client_init port req conns idl lat resp"
  have "client_ok ?c" by (simp add: client_ok_def net_client_init_def)
  from net_reachable_ok[OF assms(1) this] have ok: "client_ok c" and job: "same_job c ?c" by simp_all
  have j: "request c = req" "connections c = conns" "nc_port c = port" "latency c = lat" "idle c = min idl W5500_SOCKETS"
    using job by (simp_all add: same_job_def net_client_init_def)
  have sent: "nc_sent c \<le> length (request c)" using ok by (simp add: client_ok_def)
  have made: "nc_made c \<noteq> conns \<longleftrightarrow> nc_made c < conns" using ok j by (auto simp: client_ok_def)
  note client_idle[OF _ assms(2), unfolded j] client_connect[OF _ _ assms(2), unfolded j made] client_wait[OF _ _ _ assms(2), unfolded j]
    client_send[OF _ _ _ _ sent assms(2), unfolded j]
  then show ?thesis
    using ok j by (auto simp: client_ok_def linorder_not_less split: option.split)
qed

text \<open>A program that opens a socket and listens, in two frames, and a client that sends GET.\<close>

lemma frame_reachable: "net_step\<^sup>*\<^sup>* x (snd (w5500_frame client_peer bs x))"
proof -
  let ?d = "w5500_spi client_peer"
  have bits: "net_step\<^sup>*\<^sup>* x (snd (spi_bits ?d b i inb x))" for b i inb x
  proof (induction i arbitrary: inb x)
    case (Suc i)
    have "net_step x (snd (spi_pulse ?d m x))" for m
      unfolding spi_pulse_w5500 by (rule net_step.net_pulse)
    then show ?case using Suc by (simp add: split_beta Let_def) (blast intro: converse_rtranclp_into_rtranclp)
  qed simp
  have bytes: "net_step\<^sup>*\<^sup>* x (snd (spi_bytes ?d bs x))" for bs x
  proof (induction bs arbitrary: x)
    case (Cons b bs)
    show ?case using rtranclp_trans[OF bits[of x b 8 0] Cons.IH]
      by (simp add: split_beta Let_def spi_byte_def)
  qed simp
  have sel: "net_step\<^sup>*\<^sup>* x (spi_select ?d v x)" for v x
    by (cases x) (auto simp: spi_select_def w5500_spi_def intro: net_step.net_line)
  show ?thesis
    using rtranclp_trans[OF rtranclp_trans[OF sel[where v = True] bytes] sel[where v = False]]
    by (simp add: w5500_frame_def Let_def split_beta)
qed

definition opened :: "net_client \<Rightarrow> w5500_state" where
  "opened c = fst (snd (w5500_frame client_peer [0, 0, 0x0C, 1, 1] (w5500_init 1, c)))"

definition listening :: "net_client \<Rightarrow> w5500_state" where
  "listening c = fst (snd (w5500_frame client_peer [0, 1, 0x0C, 2]
     (snd (w5500_frame client_peer [0, 0, 0x0C, 1, 1] (w5500_init 1, c)))))"

lemmas frame_defs = w5500_frame_def w5500_select_def spi_byte_w5500 byte_done_def data_byte_def
  end_frame_def fixed_length_def write_cell_def cell_def write_socket_def read_only_regs_def update_free_def
  get16_def put16_def put_reg_def w5500_command_def command_effect_def close_socket_def connected_def
  W5500_SOCKETS_def

lemma listening_socket:
  "snd (w5500_frame client_peer [0, 1, 0x0C, 2]
     (snd (w5500_frame client_peer [0, 0, 0x0C, 1, 1] (w5500_init 1, c)))) = (listening c, c)"
  "socket (listening c) 0 SN_SR = SOCK_LISTEN" "get16 (socket (listening c) 0) SN_PORT = 0"
  "get16 (socket (listening c) 0) SN_RX_WR = 0" "get16 (socket (listening c) 0) SN_RX_RD = 0"
  "get16 (socket (listening c) 0) SN_RX_RSR = 0"
proof -
  have sel: "spi_select (w5500_spi client_peer) v (s, p) = (w5500_select v s, p)" for v s p
    by (simp add: spi_select_def w5500_spi_def)
  have o: "snd (w5500_frame client_peer [0, 0, 0x0C, 1, 1] (w5500_init 1, c)) = (opened c, c)"
    "phase (opened c) = 0" "w_bits (opened c) = 0" "\<not> selected (opened c)"
    "socket (opened c) 0 SN_SR = SOCK_INIT"
    "\<forall>r \<in> {SN_PORT, 5, SN_RX_RSR, 0x27, SN_RX_RD, 0x29, SN_RX_WR, 0x2B}. socket (opened c) 0 r = 0"
    by (simp_all add: opened_def sel frame_defs w5500_init_def reset_registers_def Let_def)
  show "snd (w5500_frame client_peer [0, 1, 0x0C, 2]
     (snd (w5500_frame client_peer [0, 0, 0x0C, 1, 1] (w5500_init 1, c)))) = (listening c, c)"
    "socket (listening c) 0 SN_SR = SOCK_LISTEN" "get16 (socket (listening c) 0) SN_PORT = 0"
    "get16 (socket (listening c) 0) SN_RX_WR = 0" "get16 (socket (listening c) 0) SN_RX_RD = 0"
    "get16 (socket (listening c) 0) SN_RX_RSR = 0"
    unfolding listening_def o(1) using o(2-6) by (simp_all add: sel frame_defs Let_def)
qed

theorem net_client_witness:
  "let c = net_client_init 0 [0x47, 0x45, 0x54] 1 0 0 None;
     (t, d) = net_client_tick (net_client_tick (listening c, c))
   in rx_content 0 (t, ()) = [0x47, 0x45, 0x54] \<and> nc_made c \<le> 1"
proof -
  define c where "c = net_client_init 0 [0x47, 0x45, 0x54] 1 0 0 None"
  have cf: "nc_port c = 0" "request c = [0x47, 0x45, 0x54]" "connections c = 1" "idle c = 0" "latency c = 0"
    "nc_socket c = None" "nc_made c = 0" "idle_made c = 0"
    by (simp_all add: c_def net_client_init_def W5500_SOCKETS_def)
  define u where "u = put_reg 0 SN_IR (socket (listening c) 0 SN_IR OR 0x01)
    (put_reg 0 SN_SR SOCK_ESTABLISHED (listening c))"
  have "List.find (\<lambda>n. socket (listening c) n SN_SR = SOCK_LISTEN \<and>
      get16 (socket (listening c) n) SN_PORT = 0) [0..<W5500_SOCKETS] = Some 0"
    by (simp add: W5500_SOCKETS_def listening_socket upt_conv_Cons)
  then have one: "net_client_tick (listening c, c) =
      (u, c\<lparr>nc_socket := Some 0, nc_made := 1, nc_wait := 0, nc_sent := 0\<rparr>)"
    by (simp add: net_client_tick_def cf w5500_peer_connect_def u_def)
  let ?c = "c\<lparr>nc_socket := Some 0, nc_made := 1, nc_wait := 0, nc_sent := 0\<rparr>"
  obtain t d where two: "net_client_tick (u, ?c) = (t, d)" by fastforce
  have ok: "rx_ok 0 (u, ())" "rx_content 0 (u, ()) = []"
    using listening_socket[of c] by (simp_all add: rx_ok_def rx_content_def u_def socket_put_reg get16_put_reg)
  have "net_step\<^sup>*\<^sup>* (w5500_init 1, c) (listening c, c)"
    using rtranclp_trans[OF frame_reachable frame_reachable, of "(w5500_init 1, c)" "[0, 1, 0x0C, 2]"
        "[0, 0, 0x0C, 1, 1]"] by (simp only: listening_socket(1))
  then have "net_step\<^sup>*\<^sup>* (w5500_init 1, c) (u, ?c)"
    using net_step.net_tick[of "(listening c, c)"] unfolding one by (rule rtranclp.rtrancl_into_rtrancl)
  from net_client_sound[OF this[unfolded c_def], folded c_def, OF two] ok
  have "nc_sent d = 3" "rx_content 0 (t, ()) = take (nc_sent d) [0x47, 0x45, 0x54]"
    by (simp_all add: cf W5500_BUFFER_def)
  then show ?thesis
    unfolding Let_def c_def[symmetric] one two prod.case using cf by simp
qed

end
