(* ===== verification/Fpga_Text.thy ===== *)
theory Fpga_Text imports Prelude begin

text \<open>
  The FPGA's text mode: the character grid and its operations
  (\<open>src/emulator/chips/fpga_text.c\<close>). Rows, columns and the region are C's \<open>int\<close>; an array is a
  function of its index, of which the program is shown to use only the cells of the grid.
\<close>

section \<open>State\<close>

abbreviation (input) TEXT_ROWS :: int where "TEXT_ROWS \<equiv> 20"
abbreviation (input) TEXT_COLS :: int where "TEXT_COLS \<equiv> 20"

record fpga_text =
  chars :: "int \<Rightarrow> int \<Rightarrow> u8"
  reverse_cells :: "int \<Rightarrow> int \<Rightarrow> bool"
  text_row :: int
  text_col :: int
  region_top :: int
  region_bottom :: int
  scroll_offset :: int
  text_cursor :: bool
  text_reverse :: bool
  text_used :: bool

definition put_cell :: "int \<Rightarrow> int \<Rightarrow> u8 \<Rightarrow> bool \<Rightarrow> fpga_text \<Rightarrow> fpga_text" where
  "put_cell r c x v t = t\<lparr>chars := (chars t)(r := (chars t r)(c := x)),
     reverse_cells := (reverse_cells t)(r := (reverse_cells t r)(c := v))\<rparr>"

definition blank :: "int \<Rightarrow> int \<Rightarrow> fpga_text \<Rightarrow> fpga_text" where
  "blank r c t = put_cell r c 0x20 False t"

text \<open>The columns from \<open>c1\<close> up to \<open>c2\<close>, without \<open>c2\<close>, one after the other.\<close>

definition blank_cols :: "int \<Rightarrow> int \<Rightarrow> int \<Rightarrow> fpga_text \<Rightarrow> fpga_text" where
  "blank_cols r c1 c2 t = fold (blank r) [c1..c2 - 1] t"

definition goto_cell :: "int \<Rightarrow> int \<Rightarrow> fpga_text \<Rightarrow> fpga_text" where
  "goto_cell r c t = t\<lparr>text_row := if r > TEXT_ROWS - 1 then TEXT_ROWS - 1 else r,
     text_col := if c > TEXT_COLS then TEXT_COLS else c\<rparr>"

definition text_clear :: "fpga_text \<Rightarrow> fpga_text" where
  "text_clear t = goto_cell 0 0 (fold (\<lambda>r. blank_cols r 0 TEXT_COLS) [0..TEXT_ROWS - 1] t)"

definition text_region :: "int \<Rightarrow> int \<Rightarrow> fpga_text \<Rightarrow> fpga_text" where
  "text_region tp bt t =
     (let bt = (if bt > TEXT_ROWS - 1 then TEXT_ROWS - 1 else bt)
      in if tp < bt
         then goto_cell 0 0
           ((if tp \<noteq> region_top t \<or> bt \<noteq> region_bottom t then t\<lparr>scroll_offset := 0\<rparr> else t)
             \<lparr>region_top := tp, region_bottom := bt\<rparr>)
         else t)"

section \<open>Moving cells\<close>

text \<open>\<open>memmove\<close> of \<open>n\<close> bytes within a row.\<close>

definition move_cells :: "int \<Rightarrow> int \<Rightarrow> int \<Rightarrow> (int \<Rightarrow> 'a) \<Rightarrow> int \<Rightarrow> 'a" where
  "move_cells dst src n f = (\<lambda>i. if dst \<le> i \<and> i < dst + n then f (src + (i - dst)) else f i)"

definition shift_row :: "int \<Rightarrow> bool \<Rightarrow> fpga_text \<Rightarrow> fpga_text" where
  "shift_row n ins t =
     (if text_col t \<ge> TEXT_COLS \<or> n = 0 then t
      else
        (let col = text_col t; r = text_row t; span = TEXT_COLS - col; n = (if n > span then span else n);
             move = (\<lambda>dst src t. t\<lparr>
               chars := (chars t)(r := move_cells dst src (span - n) (chars t r)),
               reverse_cells := (reverse_cells t)(r := move_cells dst src (span - n) (reverse_cells t r))\<rparr>)
         in if ins then blank_cols r col (col + n) (move (col + n) col t)
            else blank_cols r (TEXT_COLS - n) TEXT_COLS (move col (col + n) t)))"

definition copy_row :: "int \<Rightarrow> int \<Rightarrow> fpga_text \<Rightarrow> fpga_text" where
  "copy_row dst src t = t\<lparr>
     chars := (chars t)(dst := \<lambda>c. if 0 \<le> c \<and> c < TEXT_COLS then chars t src c else chars t dst c),
     reverse_cells := (reverse_cells t)(dst :=
       \<lambda>c. if 0 \<le> c \<and> c < TEXT_COLS then reverse_cells t src c else reverse_cells t dst c)\<rparr>"

text \<open>One row of a scroll: the \<open>i\<close>-th from the side the rows move to.\<close>

definition scroll_row :: "int \<Rightarrow> int \<Rightarrow> bool \<Rightarrow> int \<Rightarrow> fpga_text \<Rightarrow> fpga_text" where
  "scroll_row tp n up i t =
     (let dst = (if up then tp + i else region_bottom t - i);
          src = (if up then dst + n else dst - n)
      in if (if up then src \<le> region_bottom t else src \<ge> tp) then copy_row dst src t
         else blank_cols dst 0 TEXT_COLS t)"

definition text_scroll :: "int \<Rightarrow> int \<Rightarrow> bool \<Rightarrow> fpga_text \<Rightarrow> fpga_text" where
  "text_scroll tp n up t =
     (let height = region_bottom t - tp + 1
      in if n = 0 \<or> height \<le> 0 then t
         else
           (let t = (if tp = region_top t \<and> n < height
                  then t\<lparr>scroll_offset := (scroll_offset t + (if up then height - n else n)) mod height\<rparr> else t);
                n = (if n > height then height else n)
            in fold (scroll_row tp n up) [0..height - 1] t))"

definition text_lines :: "int \<Rightarrow> bool \<Rightarrow> fpga_text \<Rightarrow> fpga_text" where
  "text_lines n up t =
     (if region_top t \<le> text_row t \<and> text_row t \<le> region_bottom t
      then text_scroll (text_row t) n up (t\<lparr>text_col := 0\<rparr>) else t)"

section \<open>Operations\<close>

definition text_put :: "u8 \<Rightarrow> fpga_text \<Rightarrow> fpga_text" where
  "text_put code t =
     (if code \<ge> 0x20 then
        (if text_col t < TEXT_COLS then
           (let t = put_cell (text_row t) (text_col t) code (text_reverse t) t;
                t = t\<lparr>text_col := text_col t + 1\<rparr>
            in if text_col t = TEXT_COLS \<and> text_row t < TEXT_ROWS - 1
               then t\<lparr>text_row := text_row t + 1, text_col := 0\<rparr> else t)
         else t)
      else if code = 0x08 then (if text_col t > 0 then t\<lparr>text_col := text_col t - 1\<rparr> else t)
      else if code = 0x0A then
        (if text_row t < TEXT_ROWS - 1 then t\<lparr>text_row := text_row t + 1\<rparr> else t)\<lparr>text_col := 0\<rparr>
      else if code = 0x0D then t\<lparr>text_col := 0\<rparr>
      else t)"

definition fpga_text_init :: fpga_text where
  "fpga_text_init = text_clear \<lparr>chars = (\<lambda>_ _. 0), reverse_cells = (\<lambda>_ _. False), text_row = 0, text_col = 0,
     region_top = 0, region_bottom = TEXT_ROWS - 1, scroll_offset = 0, text_cursor = False,
     text_reverse = False, text_used = False\<rparr>"

definition fpga_text_op :: "u8 \<Rightarrow> u8 \<Rightarrow> u8 \<Rightarrow> fpga_text \<Rightarrow> fpga_text" where
  "fpga_text_op code a b t =
     (if code = 0x00 then text_clear (t\<lparr>text_cursor := False, text_reverse := False, scroll_offset := 0,
        region_top := 0, region_bottom := TEXT_ROWS - 1\<rparr>)\<lparr>text_used := True\<rparr>
      else if code = 0x02 then goto_cell (uint a) (uint b) t
      else if code = 0x03 then text_put a t
      else if code = 0x04 then text_clear t
      else if code = 0x05 then shift_row TEXT_COLS False t
      else if code = 0x06 then shift_row (uint a) True t
      else if code = 0x07 then shift_row (uint a) False t
      else if code = 0x08 then text_region (uint a) (uint b) t
      else if code = 0x09 then text_region 0 (TEXT_ROWS - 1) t
      else if code = 0x0A then text_scroll (region_top t) (uint a) True t
      else if code = 0x0B then text_scroll (region_top t) (uint a) False t
      else if code = 0x0C then text_lines (uint a) False t
      else if code = 0x0D then text_lines (uint a) True t
      else if code = 0x0E then t\<lparr>text_cursor := a \<noteq> 0\<rparr>
      else if code = 0x0F then t\<lparr>text_reverse := a \<noteq> 0\<rparr>
      else t)"

definition fpga_text_row :: "fpga_text \<Rightarrow> int \<Rightarrow> u8 list" where
  "fpga_text_row t r = map (chars t r) [0..TEXT_COLS - 1]"

section \<open>Cells after an operation\<close>

text \<open>A cell: its character and whether it is reversed.\<close>

definition text_cell :: "fpga_text \<Rightarrow> int \<Rightarrow> int \<Rightarrow> u8 \<times> bool" where
  "text_cell t r c = (chars t r c, reverse_cells t r c)"

abbreviation (input) blank_cell :: "u8 \<times> bool" where "blank_cell \<equiv> (0x20, False)"

definition in_grid :: "int \<Rightarrow> int \<Rightarrow> bool" where
  "in_grid r c \<longleftrightarrow> 0 \<le> r \<and> r < TEXT_ROWS \<and> 0 \<le> c \<and> c < TEXT_COLS"

text \<open>The registers of the grid are those of another.\<close>

definition same_regs :: "fpga_text \<Rightarrow> fpga_text \<Rightarrow> bool" where
  "same_regs t u \<longleftrightarrow> text_row t = text_row u \<and> text_col t = text_col u \<and> region_top t = region_top u \<and>
     region_bottom t = region_bottom u \<and> scroll_offset t = scroll_offset u \<and>
     text_cursor t = text_cursor u \<and> text_reverse t = text_reverse u \<and> text_used t = text_used u"

lemma put_cell_cell [simp]:
  "text_cell (put_cell r c x v t) r' c' = (if r' = r \<and> c' = c then (x, v) else text_cell t r' c')"
  by (simp add: put_cell_def text_cell_def)

lemma put_cell_regs [simp]: "same_regs (put_cell r c x v t) u = same_regs t u"
  by (simp add: put_cell_def same_regs_def)

lemma same_regs_refl [simp]: "same_regs t t"
  by (simp add: same_regs_def)

lemma blank_cols_cell [simp]:
  "text_cell (blank_cols r c1 c2 t) r' c' =
    (if r' = r \<and> c1 \<le> c' \<and> c' < c2 then blank_cell else text_cell t r' c')"
  and blank_cols_regs [simp]: "same_regs (blank_cols r c1 c2 t) u = same_regs t u"
proof -
  have "text_cell (fold (blank r) cs t) r' c' = (if r' = r \<and> c' \<in> set cs then blank_cell else text_cell t r' c')"
    for cs by (induction cs arbitrary: t) (auto simp: blank_def)
  then show "text_cell (blank_cols r c1 c2 t) r' c' =
    (if r' = r \<and> c1 \<le> c' \<and> c' < c2 then blank_cell else text_cell t r' c')"
    by (auto simp: blank_cols_def)
  have "same_regs (fold (blank r) cs t) u = same_regs t u" for cs
    by (induction cs arbitrary: t) (simp_all add: blank_def)
  then show "same_regs (blank_cols r c1 c2 t) u = same_regs t u" by (simp add: blank_cols_def)
qed

lemma clear_cells:
  "text_cell (text_clear t) r c = (if in_grid r c then blank_cell else text_cell t r c)"
  "same_regs (text_clear t) (t\<lparr>text_row := 0, text_col := 0\<rparr>)"
proof -
  let ?f = "\<lambda>r. blank_cols r 0 TEXT_COLS"
  have "text_cell (fold ?f rs t) r c =
      (if r \<in> set rs \<and> 0 \<le> c \<and> c < TEXT_COLS then blank_cell else text_cell t r c)" for rs
    by (induction rs arbitrary: t) auto
  then show "text_cell (text_clear t) r c = (if in_grid r c then blank_cell else text_cell t r c)"
    by (auto simp: text_clear_def goto_cell_def text_cell_def in_grid_def)
  have "same_regs (fold ?f rs t) t" for rs
    by (induction rs rule: rev_induct) simp_all
  then show "same_regs (text_clear t) (t\<lparr>text_row := 0, text_col := 0\<rparr>)"
    unfolding text_clear_def goto_cell_def by (simp add: same_regs_def)
qed

text \<open>An inserted or deleted span: the rest of the row moves, blanks come in.\<close>

lemma shift_cells:
  assumes "0 \<le> n" "0 \<le> text_col t"
  shows "text_cell (shift_row n ins t) r c =
    (if r \<noteq> text_row t \<or> c < text_col t \<or> TEXT_COLS \<le> c then text_cell t r c
     else if ins then (if c < text_col t + n then blank_cell else text_cell t r (c - n))
     else if c + n < TEXT_COLS then text_cell t r (c + n) else blank_cell)"
    and "same_regs (shift_row n ins t) t"
proof -
  show "text_cell (shift_row n ins t) r c =
    (if r \<noteq> text_row t \<or> c < text_col t \<or> TEXT_COLS \<le> c then text_cell t r c
     else if ins then (if c < text_col t + n then blank_cell else text_cell t r (c - n))
     else if c + n < TEXT_COLS then text_cell t r (c + n) else blank_cell)"
    using assms by (simp add: shift_row_def Let_def) (auto simp: text_cell_def move_cells_def algebra_simps)
  show "same_regs (shift_row n ins t) t"
    by (simp add: shift_row_def Let_def) (simp add: same_regs_def)
qed

lemma copy_row_cell [simp]:
  "text_cell (copy_row dst src t) r c =
    (if r = dst \<and> 0 \<le> c \<and> c < TEXT_COLS then text_cell t src c else text_cell t r c)"
  by (simp add: copy_row_def text_cell_def)

lemma copy_row_regs [simp]: "same_regs (copy_row dst src t) u = same_regs t u"
  by (simp add: copy_row_def same_regs_def)

text \<open>The rows of a scroll, in the order of the loop: a row is read before it is written.\<close>

definition scrolled :: "int \<Rightarrow> int \<Rightarrow> int \<Rightarrow> bool \<Rightarrow> fpga_text \<Rightarrow> int \<Rightarrow> int \<Rightarrow> u8 \<times> bool" where
  "scrolled tp bt n up t r c =
     (let src = (if up then r + n else r - n) in if tp \<le> src \<and> src \<le> bt then text_cell t src c else blank_cell)"

lemma upto_Suc: "[0..int (Suc k) - 1] = [0..int k - 1] @ [int k]"
  by (simp add: upto_rec2)

lemma scroll_rows:
  assumes "0 < n" "bt = region_bottom t"
  shows "same_regs (fold (scroll_row tp n up) [0..int k - 1] t) t \<and>
    (int k \<le> bt - tp + 1 \<longrightarrow> (\<forall>r c. text_cell (fold (scroll_row tp n up) [0..int k - 1] t) r c =
      (if (if up then tp \<le> r \<and> r < tp + int k else bt - int k < r \<and> r \<le> bt) \<and> 0 \<le> c \<and> c < TEXT_COLS
       then scrolled tp bt n up t r c else text_cell t r c)))"
proof (induction k)
  case (Suc k)
  define u where "u = fold (scroll_row tp n up) [0..int k - 1] t"
  have regs: "same_regs u t" and bt: "region_bottom u = bt"
    using Suc assms(2) by (auto simp: same_regs_def u_def)
  have step: "fold (scroll_row tp n up) [0..int (Suc k) - 1] t = scroll_row tp n up (int k) u"
    unfolding u_def by (simp only: upto_Suc fold_append comp_def fold.simps id_apply)
  have "same_regs (scroll_row tp n up (int k) u) t"
    using regs by (simp add: scroll_row_def Let_def)
  moreover have "text_cell (scroll_row tp n up (int k) u) r c =
      (if (if up then tp \<le> r \<and> r < tp + int (Suc k) else bt - int (Suc k) < r \<and> r \<le> bt) \<and> 0 \<le> c \<and> c < TEXT_COLS
       then scrolled tp bt n up t r c else text_cell t r c)" if fits: "int (Suc k) \<le> bt - tp + 1" for r c
  proof -
    have cells: "text_cell u r c =
      (if (if up then tp \<le> r \<and> r < tp + int k else bt - int k < r \<and> r \<le> bt) \<and> 0 \<le> c \<and> c < TEXT_COLS
       then scrolled tp bt n up t r c else text_cell t r c)" for r c
      using Suc fits by (simp add: u_def[symmetric])
    show ?thesis
      using assms(1) fits
      by (cases up) (auto simp: scroll_row_def Let_def bt cells scrolled_def)
  qed
  ultimately show ?case unfolding step by blast
qed auto

lemma scroll_all:
  fixes t :: fpga_text and n tp :: int
  assumes "0 \<le> n"
  defines "h \<equiv> region_bottom t - tp + 1"
  shows "(\<forall>r c. text_cell (text_scroll tp n up t) r c =
      (if tp \<le> r \<and> r \<le> region_bottom t \<and> 0 \<le> c \<and> c < TEXT_COLS
       then scrolled tp (region_bottom t) n up t r c else text_cell t r c)) \<and>
    same_regs (text_scroll tp n up t) (t\<lparr>scroll_offset :=
      if tp = region_top t \<and> 0 < n \<and> n < h then (scroll_offset t + (if up then h - n else n)) mod h
      else scroll_offset t\<rparr>)"
proof (cases "n = 0 \<or> h \<le> 0")
  case True
  then show ?thesis using assms by (auto simp: text_scroll_def Let_def scrolled_def same_regs_def)
next
  case False
  define u where "u = (if tp = region_top t \<and> n < h
    then t\<lparr>scroll_offset := (scroll_offset t + (if up then h - n else n)) mod h\<rparr> else t)"
  define m where "m = (if n > h then h else n)"
  have u: "region_bottom u = region_bottom t" "text_cell u = text_cell t"
    by (auto simp: u_def text_cell_def fun_eq_iff)
  have s: "text_scroll tp n up t = fold (scroll_row tp m up) [0..int (nat h) - 1] u"
    using False by (simp add: text_scroll_def Let_def u_def m_def h_def)
  have m: "0 < m" using False assms(1) by (simp add: m_def)
  note f = scroll_rows[OF m u(1)[symmetric], of tp up "nat h", folded s]
  have sc: "scrolled tp (region_bottom t) m up u r c = scrolled tp (region_bottom t) n up t r c"
    if "tp \<le> r" "r \<le> region_bottom t" for r c
    using that False by (auto simp: scrolled_def Let_def u m_def h_def)
  have "text_cell (text_scroll tp n up t) r c =
      (if tp \<le> r \<and> r \<le> region_bottom t \<and> 0 \<le> c \<and> c < TEXT_COLS
       then scrolled tp (region_bottom t) n up t r c else text_cell t r c)" for r c
    using f sc False by (simp add: h_def u(2)) force
  moreover have "same_regs (text_scroll tp n up t) (t\<lparr>scroll_offset :=
      if tp = region_top t \<and> 0 < n \<and> n < h then (scroll_offset t + (if up then h - n else n)) mod h
      else scroll_offset t\<rparr>)"
    using f False assms(1) by (auto simp: same_regs_def u_def)
  ultimately show ?thesis by blast
qed

lemmas scroll_cells = scroll_all[THEN conjunct1, rule_format]
lemmas scroll_regs = scroll_all[THEN conjunct2]

section \<open>The grid stays sound\<close>

definition text_ok :: "fpga_text \<Rightarrow> bool" where
  "text_ok t \<longleftrightarrow> 0 \<le> text_row t \<and> text_row t < TEXT_ROWS \<and> 0 \<le> text_col t \<and> text_col t \<le> TEXT_COLS \<and>
     0 \<le> region_top t \<and> region_top t < region_bottom t \<and> region_bottom t < TEXT_ROWS \<and>
     0 \<le> scroll_offset t \<and> scroll_offset t \<le> region_bottom t - region_top t"

text \<open>What no operation may touch: the memory beside the grid.\<close>

definition same_outside :: "fpga_text \<Rightarrow> fpga_text \<Rightarrow> bool" where
  "same_outside t u \<longleftrightarrow> (\<forall>r c. \<not> in_grid r c \<longrightarrow> text_cell t r c = text_cell u r c)"

lemma same_outside_refl: "text_cell t = text_cell u \<Longrightarrow> same_outside t u"
  by (simp add: same_outside_def)

lemma text_ok_regs:
  "same_regs u t \<Longrightarrow> text_ok u = text_ok t"
  by (simp add: same_regs_def text_ok_def)

lemma goto_ok: "text_ok t \<Longrightarrow> 0 \<le> r \<Longrightarrow> 0 \<le> c \<Longrightarrow> text_ok (goto_cell r c t)"
  by (simp add: goto_cell_def text_ok_def)

lemma goto_text_cell [simp]: "text_cell (goto_cell r c t) = text_cell t"
  by (simp add: goto_cell_def text_cell_def fun_eq_iff)

lemma clear_ok: "text_ok t \<Longrightarrow> text_ok (text_clear t) \<and> same_outside (text_clear t) t"
  using text_ok_regs[OF clear_cells(2)] by (simp add: same_outside_def clear_cells(1)) (simp add: text_ok_def)

lemma put_ok: "text_ok t \<Longrightarrow> text_ok (text_put x t) \<and> same_outside (text_put x t) t"
  by (auto simp: text_put_def Let_def text_ok_def same_outside_def in_grid_def text_cell_def put_cell_def)

lemma region_ok:
  "text_ok t \<Longrightarrow> 0 \<le> tp \<Longrightarrow> text_ok (text_region tp bt t) \<and> same_outside (text_region tp bt t) t"
  by (auto simp: text_region_def Let_def text_ok_def goto_cell_def same_outside_def text_cell_def)

lemma shift_ok: "text_ok t \<Longrightarrow> 0 \<le> n \<Longrightarrow> text_ok (shift_row n ins t) \<and> same_outside (shift_row n ins t) t"
  using text_ok_regs[OF shift_cells(2), of n t ins] shift_cells(1)[of n t ins]
  by (simp add: text_ok_def same_outside_def in_grid_def)

lemma scroll_ok:
  assumes "text_ok t" "0 \<le> n" "region_top t \<le> tp"
  shows "text_ok (text_scroll tp n up t) \<and> same_outside (text_scroll tp n up t) t"
proof
  show "text_ok (text_scroll tp n up t)"
  proof -
    have "0 \<le> x mod (region_bottom t - region_top t + 1) \<and>
        x mod (region_bottom t - region_top t + 1) \<le> region_bottom t - region_top t" for x
      using assms(1) pos_mod_bound[of "region_bottom t - region_top t + 1" x] by (simp add: text_ok_def)
    then show ?thesis
      unfolding text_ok_regs[OF scroll_regs[OF assms(2)]] using assms(1) by (auto simp: text_ok_def)
  qed
  show "same_outside (text_scroll tp n up t) t"
    using assms by (auto simp: same_outside_def scroll_cells in_grid_def text_ok_def)
qed

lemma lines_ok: "text_ok t \<Longrightarrow> 0 \<le> n \<Longrightarrow> text_ok (text_lines n up t) \<and> same_outside (text_lines n up t) t"
  using scroll_ok[of "t\<lparr>text_col := 0\<rparr>" n "text_row t" up]
  by (auto simp: text_lines_def text_ok_def same_outside_def text_cell_def)

lemma op_ok: "text_ok t \<Longrightarrow> text_ok (fpga_text_op code a b t) \<and> same_outside (fpga_text_op code a b t) t"
proof -
  assume ok: "text_ok t"
  have same: "same_outside t t" by (simp add: same_outside_def)
  let ?t0 = "t\<lparr>text_cursor := False, text_reverse := False, scroll_offset := 0, region_top := 0, region_bottom := 19\<rparr>"
  have on: "text_ok (text_clear ?t0\<lparr>text_used := True\<rparr>) \<and> same_outside (text_clear ?t0\<lparr>text_used := True\<rparr>) t"
    using clear_ok[of ?t0] ok by (simp add: text_ok_def same_outside_def text_cell_def)
  have flags: "text_ok (t\<lparr>text_cursor := v\<rparr>) \<and> same_outside (t\<lparr>text_cursor := v\<rparr>) t"
    "text_ok (t\<lparr>text_reverse := v\<rparr>) \<and> same_outside (t\<lparr>text_reverse := v\<rparr>) t" for v
    using ok by (simp_all add: text_ok_def same_outside_def text_cell_def)
  have goto: "same_outside (goto_cell r c t) t" for r c by (simp add: same_outside_def)
  show ?thesis
    using ok same on flags goto
    by (simp add: fpga_text_op_def goto_ok clear_ok put_ok region_ok shift_ok scroll_ok lines_ok)
qed

lemma init_ok: "text_ok fpga_text_init"
  unfolding fpga_text_init_def by (rule clear_ok[THEN conjunct1]) (simp add: text_ok_def)

text \<open>
  Property C37: the text mode stays in its grid. From power-on, whatever operations with whatever
  arguments the program sends, the cursor is on the grid or just past the end of a row, the scroll
  region is a region of at least two rows, its picture is moved by less than its height, and no
  byte of memory beside the grid has changed.
\<close>

theorem text_mode_sound:
  fixes ops :: "(u8 \<times> u8 \<times> u8) list"
  shows "case fold (\<lambda>(code, a, b). fpga_text_op code a b) ops fpga_text_init of t \<Rightarrow>
    0 \<le> text_row t \<and> text_row t < TEXT_ROWS \<and> 0 \<le> text_col t \<and> text_col t \<le> TEXT_COLS \<and>
    0 \<le> region_top t \<and> region_top t < region_bottom t \<and> region_bottom t < TEXT_ROWS \<and>
    0 \<le> scroll_offset t \<and> scroll_offset t < region_bottom t - region_top t + 1 \<and>
    {(r, c). text_cell t r c \<noteq> text_cell fpga_text_init r c} \<subseteq> {0..<TEXT_ROWS} \<times> {0..<TEXT_COLS}"
proof -
  have "text_ok (fold (\<lambda>(code, a, b). fpga_text_op code a b) ops t) \<and>
      same_outside (fold (\<lambda>(code, a, b). fpga_text_op code a b) ops t) t" if "text_ok t" for t
    using that
  proof (induction ops arbitrary: t)
    case (Cons op ops)
    obtain code a b where op: "op = (code, a, b)" by (cases op)
    show ?case using Cons.IH[of "fpga_text_op code a b t"] op_ok[OF Cons.prems, of code a b]
      by (simp add: op same_outside_def)
  qed (simp add: same_outside_def)
  from this[OF init_ok] have t: "text_ok (fold (\<lambda>(code, a, b). fpga_text_op code a b) ops fpga_text_init)"
    "\<And>r c. \<not> in_grid r c \<Longrightarrow> text_cell (fold (\<lambda>(code, a, b). fpga_text_op code a b) ops fpga_text_init) r c =
      text_cell fpga_text_init r c"
    by (simp_all add: same_outside_def)
  have "{(r, c). text_cell (fold (\<lambda>(code, a, b). fpga_text_op code a b) ops fpga_text_init) r c \<noteq>
      text_cell fpga_text_init r c} \<subseteq> {(r, c). in_grid r c}"
    using t(2) by blast
  moreover have "{(r, c). in_grid r c} = {0..<TEXT_ROWS} \<times> {0..<TEXT_COLS}"
    by (auto simp: in_grid_def)
  ultimately show ?thesis using t(1) by (simp add: text_ok_def)
qed

end
