(* ===== verification/Ili9341.thy ===== *)
theory Ili9341 imports Prelude "HOL-Library.Signed_Division" begin

text \<open>
  The ILI9341 display controller and its panel (\<open>src/emulator/chips/ili9341.c\<close>): its registers,
  the window pixels are written through, and the pixel the glass shows.
\<close>

abbreviation (input) ILI9341_LINES :: int where "ILI9341_LINES \<equiv> 320"
abbreviation (input) ILI9341_WIDTH :: int where "ILI9341_WIDTH \<equiv> 240"
abbreviation (input) ILI9341_GS :: u8 where "ILI9341_GS \<equiv> 0x40"
abbreviation (input) ILI9341_SS :: u8 where "ILI9341_SS \<equiv> 0x20"
abbreviation (input) CASET :: u8 where "CASET \<equiv> 0x2A"
abbreviation (input) PASET :: u8 where "PASET \<equiv> 0x2B"
abbreviation (input) RAMWR :: u8 where "RAMWR \<equiv> 0x2C"
abbreviation (input) VSCRDEF :: u8 where "VSCRDEF \<equiv> 0x33"
abbreviation (input) MADCTL :: u8 where "MADCTL \<equiv> 0x36"
abbreviation (input) VSCRSADD :: u8 where "VSCRSADD \<equiv> 0x37"
abbreviation (input) RAMWRC :: u8 where "RAMWRC \<equiv> 0x3C"

record ili9341 =
  memory :: "int \<Rightarrow> int \<Rightarrow> u16"
  lcd_command :: u8
  params :: "nat \<Rightarrow> u8"
  n_params :: nat
  win_sc :: u16
  win_ec :: u16
  win_sp :: u16
  win_ep :: u16
  pix_col :: u16
  pix_page :: u16
  have_high :: bool
  pix_high :: u8
  madctl :: u8
  scan :: u8
  scr_tfa :: u16
  scr_vsa :: u16
  scr_bfa :: u16
  scr_ssa :: u16
  in_reset :: bool
  sleeping :: bool
  display_on :: bool
  backlight :: u8

section \<open>Reset\<close>

definition panel_reset :: "ili9341 \<Rightarrow> ili9341" where
  "panel_reset p = p\<lparr>lcd_command := 0, n_params := 0, have_high := False, win_sc := 0, win_sp := 0,
     pix_col := 0, pix_page := 0, win_ec := 239, win_ep := 319, madctl := 0, scan := 0x82,
     scr_tfa := 0, scr_bfa := 0, scr_ssa := 0, scr_vsa := 320, sleeping := True, display_on := False\<rparr>"

definition ili9341_init :: ili9341 where
  "ili9341_init = panel_reset
     \<lparr>memory = (\<lambda>_ _. 0), lcd_command = 0, params = (\<lambda>_. 0), n_params = 0, win_sc = 0, win_ec = 0,
      win_sp = 0, win_ep = 0, pix_col = 0, pix_page = 0, have_high = False, pix_high = 0, madctl = 0,
      scan = 0, scr_tfa = 0, scr_vsa = 0, scr_bfa = 0, scr_ssa = 0, in_reset = False, sleeping = False,
      display_on = False, backlight = 0\<rparr>\<lparr>backlight := 255\<rparr>"

definition ili9341_reset_line :: "bool \<Rightarrow> ili9341 \<Rightarrow> ili9341" where
  "ili9341_reset_line level p =
     (let p = p\<lparr>in_reset := \<not> level\<rparr> in if in_reset p then panel_reset p else p)"

section \<open>Commands\<close>

definition ili9341_command :: "u8 \<Rightarrow> ili9341 \<Rightarrow> ili9341" where
  "ili9341_command cmd p =
     (if in_reset p then p
      else
        (let p = p\<lparr>lcd_command := cmd, n_params := 0, have_high := False\<rparr>
         in if cmd = 0x01 then panel_reset p
            else if cmd = 0x10 then p\<lparr>sleeping := True\<rparr>
            else if cmd = 0x11 then p\<lparr>sleeping := False\<rparr>
            else if cmd = 0x28 then p\<lparr>display_on := False\<rparr>
            else if cmd = 0x29 then p\<lparr>display_on := True\<rparr>
            else if cmd = RAMWR then p\<lparr>pix_col := win_sc p, pix_page := win_sp p\<rparr>
            else p))"

definition be_word :: "u8 \<Rightarrow> u8 \<Rightarrow> u16" where
  "be_word hi lo = push_bit 8 (to16 hi) OR to16 lo"

section \<open>Pixels\<close>

definition swap_red_blue :: "u16 \<Rightarrow> u16" where
  "swap_red_blue v = (v AND 0x07E0) OR drop_bit 11 v OR push_bit 11 (v AND 0x1F)"

text \<open>The memory cell the counters name, through MADCTL.\<close>

definition pixel_at :: "ili9341 \<Rightarrow> int \<times> int" where
  "pixel_at p =
     (let mv = (madctl p AND 0x20 \<noteq> 0);
          line = (if mv then uint (pix_col p) else uint (pix_page p));
          x = (if mv then uint (pix_page p) else uint (pix_col p));
          line = (if madctl p AND 0x80 \<noteq> 0 then ILI9341_LINES - 1 - line else line);
          x = (if madctl p AND 0x40 \<noteq> 0 then ILI9341_WIDTH - 1 - x else x)
      in (line, x))"

definition next_pixel :: "ili9341 \<Rightarrow> ili9341" where
  "next_pixel p =
     (if pix_col p \<ge> win_ec p
      then p\<lparr>pix_col := win_sc p, pix_page := if pix_page p \<ge> win_ep p then win_sp p else pix_page p + 1\<rparr>
      else p\<lparr>pix_col := pix_col p + 1\<rparr>)"

definition write_pixel :: "u16 \<Rightarrow> ili9341 \<Rightarrow> ili9341" where
  "write_pixel v p =
     (let (line, x) = pixel_at p;
          v = (if madctl p AND 0x08 = 0 then swap_red_blue v else v)
      in next_pixel (if 0 \<le> line \<and> line < ILI9341_LINES \<and> 0 \<le> x \<and> x < ILI9341_WIDTH
           then p\<lparr>memory := (memory p)(line := (memory p line)(x := v))\<rparr> else p))"

section \<open>Parameters\<close>

definition parameters :: "ili9341 \<Rightarrow> ili9341" where
  "parameters p =
     (let w = (\<lambda>i. be_word (params p i) (params p (i + 1))); cmd = lcd_command p; n = n_params p
      in if cmd = CASET then (if n = 4 then p\<lparr>win_sc := w 0, win_ec := w 2\<rparr> else p)
         else if cmd = PASET then (if n = 4 then p\<lparr>win_sp := w 0, win_ep := w 2\<rparr> else p)
         else if cmd = MADCTL then (if n = 1 then p\<lparr>madctl := params p 0\<rparr> else p)
         else if cmd = 0xB6 then (if n = 2 then p\<lparr>scan := params p 1\<rparr> else p)
         else if cmd = VSCRSADD then (if n = 2 then p\<lparr>scr_ssa := w 0\<rparr> else p)
         else if cmd = VSCRDEF then
           (if n = 6 \<and> uint (w 0) + uint (w 2) + uint (w 4) = ILI9341_LINES
            then p\<lparr>scr_tfa := w 0, scr_vsa := w 2, scr_bfa := w 4\<rparr> else p)
         else p)"

definition ili9341_data :: "u8 \<Rightarrow> ili9341 \<Rightarrow> ili9341" where
  "ili9341_data d p =
     (if in_reset p then p
      else if lcd_command p = RAMWR \<or> lcd_command p = RAMWRC then
        (let p = (if have_high p then write_pixel (be_word (pix_high p) d) p else p\<lparr>pix_high := d\<rparr>)
         in p\<lparr>have_high := \<not> have_high p\<rparr>)
      else if n_params p < 6 then
        parameters (p\<lparr>params := (params p)(n_params p := d), n_params := n_params p + 1\<rparr>)
      else p)"

section \<open>The glass\<close>

definition ili9341_showing :: "ili9341 \<Rightarrow> bool" where
  "ili9341_showing p \<longleftrightarrow> \<not> in_reset p \<and> \<not> sleeping p \<and> display_on p"

definition ili9341_glass_line :: "ili9341 \<Rightarrow> int \<Rightarrow> int" where
  "ili9341_glass_line p y =
     (let k = (if scan p AND ILI9341_GS \<noteq> 0 then ILI9341_LINES - 1 - y else y);
          tfa = uint (scr_tfa p); vsa = uint (scr_vsa p)
      in if k < tfa \<or> k \<ge> tfa + vsa then k
         else
           (let at = (uint (scr_ssa p) - tfa + k - tfa) smod vsa
            in tfa + (if at < 0 then at + vsa else at)))"

definition ili9341_glass_pixel :: "ili9341 \<Rightarrow> int \<Rightarrow> int \<Rightarrow> u16" where
  "ili9341_glass_pixel p x y =
     (if \<not> ili9341_showing p then 0xFFFF
      else memory p (ili9341_glass_line p y)
        (if scan p AND ILI9341_SS \<noteq> 0 then x else ILI9341_WIDTH - 1 - x))"

section \<open>Words sent to the controller\<close>

lemma be_word_split [simp]: "be_word (to8 (drop_bit 8 w)) (to8 w) = w"
  using split_u16[of w] by (simp add: be_word_def or.commute)

text \<open>C's remainder, corrected when it is negative, is the modulus.\<close>

lemma smod_corrected:
  fixes a m :: int
  assumes "0 < m"
  shows "(if a smod m < 0 then a smod m + m else a smod m) = a mod m"
proof (cases "a < 0")
  case True
  then have s: "a smod m = - ((- a) mod m)" using assms by (simp add: smod_int_alt_def)
  show ?thesis
  proof (cases "(- a) mod m = 0")
    case True
    then have "m dvd a" by (simp add: mod_eq_0_iff_dvd)
    then show ?thesis using True s by (simp add: mod_eq_0_iff_dvd)
  next
    case False
    then have "a mod m = m - (- a) mod m" using zmod_zminus1_eq_if[of "- a" m] by simp
    moreover have "0 < (- a) mod m" using False pos_mod_sign[OF assms, of "- a"] by simp
    ultimately show ?thesis using s by simp
  qed
next
  case False
  then have "a smod m = a mod m" using assms by (auto simp: smod_int_alt_def sgn_if)
  then show ?thesis using pos_mod_sign[OF assms, of a] by (simp only: not_less[symmetric] if_False)
qed

end
