(* ===== verification/Font_12x16.thy ===== *)
theory Font_12x16 imports Prelude begin

text \<open>
  The font of the FPGA text mode (\<open>src/emulator/chips/font_12x16.h\<close>): for each of the 256 characters a word
  for each of its twelve columns, the top pixel in bit 0.
\<close>

definition font_12x16 :: "u16 list list" where
  "font_12x16 = [
    [0x0000, 0x0000, 0x0000, 0x0000, 0x0000, 0x0000, 0x0000, 0x0000, 0x0000, 0x0000, 0x0000, 0x0000],
    [0x0000, 0x0000, 0x0000, 0x0000, 0x0000, 0x0000, 0x0000, 0x0000, 0x0000, 0x0000, 0x0000, 0x0000],
    [0x0000, 0x0000, 0x0000, 0x0000, 0x0000, 0x0000, 0x0000, 0x0000, 0x0000, 0x0000, 0x0000, 0x0000],
    [0x0000, 0x0000, 0x0000, 0x0000, 0x0000, 0x0000, 0x0000, 0x0000, 0x0000, 0x0000, 0x0000, 0x0000],
    [0x0000, 0x0000, 0x0000, 0x0000, 0x0000, 0x0000, 0x0000, 0x0000, 0x0000, 0x0000, 0x0000, 0x0000],
    [0x0000, 0x0000, 0x0000, 0x0000, 0x0000, 0x0000, 0x0000, 0x0000, 0x0000, 0x0000, 0x0000, 0x0000],
    [0x0000, 0x0000, 0x0000, 0x0000, 0x0000, 0x0000, 0x0000, 0x0000, 0x0000, 0x0000, 0x0000, 0x0000],
    [0x0000, 0x0000, 0x0000, 0x0000, 0x0000, 0x0000, 0x0000, 0x0000, 0x0000, 0x0000, 0x0000, 0x0000],
    [0x0000, 0x0000, 0x0000, 0x0000, 0x0000, 0x0000, 0x0000, 0x0000, 0x0000, 0x0000, 0x0000, 0x0000],
    [0x0000, 0x0000, 0x0000, 0x0000, 0x0000, 0x0000, 0x0000, 0x0000, 0x0000, 0x0000, 0x0000, 0x0000],
    [0x0000, 0x0000, 0x0000, 0x0000, 0x0000, 0x0000, 0x0000, 0x0000, 0x0000, 0x0000, 0x0000, 0x0000],
    [0x0000, 0x0000, 0x0000, 0x0000, 0x0000, 0x0000, 0x0000, 0x0000, 0x0000, 0x0000, 0x0000, 0x0000],
    [0x0000, 0x0000, 0x0000, 0x0000, 0x0000, 0x0000, 0x0000, 0x0000, 0x0000, 0x0000, 0x0000, 0x0000],
    [0x0000, 0x0000, 0x0000, 0x0000, 0x0000, 0x0000, 0x0000, 0x0000, 0x0000, 0x0000, 0x0000, 0x0000],
    [0x0000, 0x0000, 0x0000, 0x0000, 0x0000, 0x0000, 0x0000, 0x0000, 0x0000, 0x0000, 0x0000, 0x0000],
    [0x0000, 0x0000, 0x0000, 0x0000, 0x0000, 0x0000, 0x0000, 0x0000, 0x0000, 0x0000, 0x0000, 0x0000],
    [0x0000, 0x0000, 0x0000, 0x0000, 0x0000, 0x0000, 0x0000, 0x0000, 0x0000, 0x0000, 0x0000, 0x0000],
    [0x0000, 0x0000, 0x0000, 0x0000, 0x0000, 0x0000, 0x0000, 0x0000, 0x0000, 0x0000, 0x0000, 0x0000],
    [0x0000, 0x0000, 0x0000, 0x0000, 0x0000, 0x0000, 0x0000, 0x0000, 0x0000, 0x0000, 0x0000, 0x0000],
    [0x0000, 0x0000, 0x0000, 0x0000, 0x0000, 0x0000, 0x0000, 0x0000, 0x0000, 0x0000, 0x0000, 0x0000],
    [0x0000, 0x0000, 0x0000, 0x0000, 0x0000, 0x0000, 0x0000, 0x0000, 0x0000, 0x0000, 0x0000, 0x0000],
    [0x0000, 0x0000, 0x0000, 0x0000, 0x0000, 0x0000, 0x0000, 0x0000, 0x0000, 0x0000, 0x0000, 0x0000],
    [0x0000, 0x0000, 0x0000, 0x0000, 0x0000, 0x0000, 0x0000, 0x0000, 0x0000, 0x0000, 0x0000, 0x0000],
    [0x0000, 0x0000, 0x0000, 0x0000, 0x0000, 0x0000, 0x0000, 0x0000, 0x0000, 0x0000, 0x0000, 0x0000],
    [0x0000, 0x0000, 0x0000, 0x0000, 0x0000, 0x0000, 0x0000, 0x0000, 0x0000, 0x0000, 0x0000, 0x0000],
    [0x0000, 0x0000, 0x0000, 0x0000, 0x0000, 0x0000, 0x0000, 0x0000, 0x0000, 0x0000, 0x0000, 0x0000],
    [0x0000, 0x0000, 0x0000, 0x0000, 0x0000, 0x0000, 0x0000, 0x0000, 0x0000, 0x0000, 0x0000, 0x0000],
    [0x0000, 0x0000, 0x0000, 0x0000, 0x0000, 0x0000, 0x0000, 0x0000, 0x0000, 0x0000, 0x0000, 0x0000],
    [0x0000, 0x0000, 0x0000, 0x0000, 0x0000, 0x0000, 0x0000, 0x0000, 0x0000, 0x0000, 0x0000, 0x0000],
    [0x0000, 0x0000, 0x0000, 0x0000, 0x0000, 0x0000, 0x0000, 0x0000, 0x0000, 0x0000, 0x0000, 0x0000],
    [0x0000, 0x0000, 0x0000, 0x0000, 0x0000, 0x0000, 0x0000, 0x0000, 0x0000, 0x0000, 0x0000, 0x0000],
    [0x0000, 0x0000, 0x0000, 0x0000, 0x0000, 0x0000, 0x0000, 0x0000, 0x0000, 0x0000, 0x0000, 0x0000],
    [0x0000, 0x0000, 0x0000, 0x0000, 0x0000, 0x0000, 0x0000, 0x0000, 0x0000, 0x0000, 0x0000, 0x0000],
    [0x0000, 0x0000, 0x0000, 0x0000, 0x007C, 0x33FF, 0x33FF, 0x007C, 0x0000, 0x0000, 0x0000, 0x0000],
    [0x0000, 0x0000, 0x0000, 0x003C, 0x003C, 0x0000, 0x0000, 0x003C, 0x003C, 0x0000, 0x0000, 0x0000],
    [0x0000, 0x0200, 0x1E10, 0x1F90, 0x03F0, 0x027E, 0x1E1E, 0x1F90, 0x03F0, 0x027E, 0x001E, 0x0010],
    [0x0000, 0x0000, 0x0478, 0x0CFC, 0x0CCC, 0x3FFF, 0x3FFF, 0x0CCC, 0x0FCC, 0x0788, 0x0000, 0x0000],
    [0x0000, 0x3000, 0x3838, 0x1C38, 0x0E38, 0x0700, 0x0380, 0x01C0, 0x38E0, 0x3870, 0x3838, 0x001C],
    [0x0000, 0x0000, 0x1F00, 0x3FB8, 0x31FC, 0x21C6, 0x37E2, 0x1E3E, 0x1C1C, 0x3600, 0x2200, 0x0000],
    [0x0000, 0x0000, 0x0000, 0x0000, 0x0027, 0x003F, 0x001F, 0x0000, 0x0000, 0x0000, 0x0000, 0x0000],
    [0x0000, 0x0000, 0x0000, 0x03F0, 0x0FFC, 0x1FFE, 0x3807, 0x2001, 0x2001, 0x0000, 0x0000, 0x0000],
    [0x0000, 0x0000, 0x0000, 0x2001, 0x2001, 0x3807, 0x1FFE, 0x0FFC, 0x03F0, 0x0000, 0x0000, 0x0000],
    [0x0000, 0x0000, 0x0C98, 0x0EB8, 0x03E0, 0x0FF8, 0x0FF8, 0x03E0, 0x0EB8, 0x0C98, 0x0000, 0x0000],
    [0x0000, 0x0000, 0x0180, 0x0180, 0x0180, 0x0FF0, 0x0FF0, 0x0180, 0x0180, 0x0180, 0x0000, 0x0000],
    [0x0000, 0x0000, 0x0000, 0x0000, 0xB800, 0xF800, 0x7800, 0x0000, 0x0000, 0x0000, 0x0000, 0x0000],
    [0x0000, 0x0000, 0x0180, 0x0180, 0x0180, 0x0180, 0x0180, 0x0180, 0x0180, 0x0180, 0x0000, 0x0000],
    [0x0000, 0x0000, 0x0000, 0x0000, 0x3800, 0x3800, 0x3800, 0x0000, 0x0000, 0x0000, 0x0000, 0x0000],
    [0x0000, 0x1800, 0x1C00, 0x0E00, 0x0700, 0x0380, 0x01C0, 0x00E0, 0x0070, 0x0038, 0x001C, 0x000E],
    [0x0000, 0x07F8, 0x1FFE, 0x1E06, 0x3303, 0x3183, 0x30C3, 0x3063, 0x3033, 0x181E, 0x1FFE, 0x07F8],
    [0x0000, 0x0000, 0x0000, 0x300C, 0x300C, 0x300E, 0x3FFF, 0x3FFF, 0x3000, 0x3000, 0x3000, 0x0000],
    [0x0000, 0x301C, 0x381E, 0x3C07, 0x3E03, 0x3703, 0x3383, 0x31C3, 0x30E3, 0x3077, 0x303E, 0x301C],
    [0x0000, 0x0C0C, 0x1C0E, 0x3807, 0x30C3, 0x30C3, 0x30C3, 0x30C3, 0x30C3, 0x39E7, 0x1F7E, 0x0E3C],
    [0x0000, 0x03C0, 0x03E0, 0x0370, 0x0338, 0x031C, 0x030E, 0x0307, 0x3FFF, 0x3FFF, 0x0300, 0x0300],
    [0x0000, 0x0C3F, 0x1C7F, 0x3863, 0x3063, 0x3063, 0x3063, 0x3063, 0x3063, 0x38E3, 0x1FC3, 0x0F83],
    [0x0000, 0x0FC0, 0x1FF0, 0x39F8, 0x30DC, 0x30CE, 0x30C7, 0x30C3, 0x30C3, 0x39C3, 0x1F80, 0x0F00],
    [0x0000, 0x0003, 0x0003, 0x0003, 0x3003, 0x3C03, 0x0F03, 0x03C3, 0x00F3, 0x003F, 0x000F, 0x0003],
    [0x0000, 0x0F00, 0x1FBC, 0x39FE, 0x30E7, 0x30C3, 0x30C3, 0x30C3, 0x30E7, 0x39FE, 0x1FBC, 0x0F00],
    [0x0000, 0x003C, 0x007E, 0x30E7, 0x30C3, 0x30C3, 0x38C3, 0x1CC3, 0x0EC3, 0x07E7, 0x03FE, 0x00FC],
    [0x0000, 0x0000, 0x0000, 0x0000, 0x1C70, 0x1C70, 0x1C70, 0x0000, 0x0000, 0x0000, 0x0000, 0x0000],
    [0x0000, 0x0000, 0x0000, 0x0000, 0x9C70, 0xFC70, 0x7C70, 0x0000, 0x0000, 0x0000, 0x0000, 0x0000],
    [0x0000, 0x0000, 0x00C0, 0x01E0, 0x03F0, 0x0738, 0x0E1C, 0x1C0E, 0x3807, 0x3003, 0x0000, 0x0000],
    [0x0000, 0x0000, 0x0660, 0x0660, 0x0660, 0x0660, 0x0660, 0x0660, 0x0660, 0x0660, 0x0660, 0x0000],
    [0x0000, 0x0000, 0x3003, 0x3807, 0x1C0E, 0x0E1C, 0x0738, 0x03F0, 0x01E0, 0x00C0, 0x0000, 0x0000],
    [0x0000, 0x001C, 0x001E, 0x0007, 0x0003, 0x3783, 0x37C3, 0x00E3, 0x0077, 0x003E, 0x001C, 0x0000],
    [0x0000, 0x0FF8, 0x1FFE, 0x1807, 0x33F3, 0x37FB, 0x361B, 0x37FB, 0x37FB, 0x3607, 0x03FE, 0x01F8],
    [0x0000, 0x3800, 0x3F00, 0x07E0, 0x06FC, 0x061F, 0x061F, 0x06FC, 0x07E0, 0x3F00, 0x3800, 0x0000],
    [0x0000, 0x3FFF, 0x3FFF, 0x30C3, 0x30C3, 0x30C3, 0x30C3, 0x30E7, 0x39FE, 0x1FBC, 0x0F00, 0x0000],
    [0x0000, 0x03F0, 0x0FFC, 0x1C0E, 0x3807, 0x3003, 0x3003, 0x3003, 0x3807, 0x1C0E, 0x0C0C, 0x0000],
    [0x0000, 0x3FFF, 0x3FFF, 0x3003, 0x3003, 0x3003, 0x3003, 0x3807, 0x1C0E, 0x0FFC, 0x03F0, 0x0000],
    [0x0000, 0x3FFF, 0x3FFF, 0x30C3, 0x30C3, 0x30C3, 0x30C3, 0x30C3, 0x30C3, 0x3003, 0x3003, 0x0000],
    [0x0000, 0x3FFF, 0x3FFF, 0x00C3, 0x00C3, 0x00C3, 0x00C3, 0x00C3, 0x00C3, 0x0003, 0x0003, 0x0000],
    [0x0000, 0x03F0, 0x0FFC, 0x1C0E, 0x3807, 0x3003, 0x30C3, 0x30C3, 0x30C3, 0x3FC7, 0x3FC6, 0x0000],
    [0x0000, 0x3FFF, 0x3FFF, 0x00C0, 0x00C0, 0x00C0, 0x00C0, 0x00C0, 0x00C0, 0x3FFF, 0x3FFF, 0x0000],
    [0x0000, 0x0000, 0x0000, 0x3003, 0x3003, 0x3FFF, 0x3FFF, 0x3003, 0x3003, 0x0000, 0x0000, 0x0000],
    [0x0000, 0x0E00, 0x1E00, 0x3800, 0x3000, 0x3000, 0x3000, 0x3000, 0x3800, 0x1FFF, 0x07FF, 0x0000],
    [0x0000, 0x3FFF, 0x3FFF, 0x00C0, 0x01E0, 0x03F0, 0x0738, 0x0E1C, 0x1C0E, 0x3807, 0x3003, 0x0000],
    [0x0000, 0x3FFF, 0x3FFF, 0x3000, 0x3000, 0x3000, 0x3000, 0x3000, 0x3000, 0x3000, 0x3000, 0x0000],
    [0x0000, 0x3FFF, 0x3FFF, 0x001E, 0x0078, 0x01E0, 0x01E0, 0x0078, 0x001E, 0x3FFF, 0x3FFF, 0x0000],
    [0x0000, 0x3FFF, 0x3FFF, 0x000E, 0x0038, 0x00F0, 0x03C0, 0x0700, 0x1C00, 0x3FFF, 0x3FFF, 0x0000],
    [0x0000, 0x03F0, 0x0FFC, 0x1C0E, 0x3807, 0x3003, 0x3003, 0x3807, 0x1C0E, 0x0FFC, 0x03F0, 0x0000],
    [0x0000, 0x3FFF, 0x3FFF, 0x0183, 0x0183, 0x0183, 0x0183, 0x0183, 0x01C7, 0x00FE, 0x007C, 0x0000],
    [0x0000, 0x03F0, 0x0FFC, 0x1C0E, 0x3807, 0x3003, 0x3603, 0x3E07, 0x1C0E, 0x3FFC, 0x33F0, 0x0000],
    [0x0000, 0x3FFF, 0x3FFF, 0x0183, 0x0183, 0x0383, 0x0783, 0x0F83, 0x1DC7, 0x38FE, 0x307C, 0x0000],
    [0x0000, 0x0C3C, 0x1C7E, 0x38E7, 0x30C3, 0x30C3, 0x30C3, 0x30C3, 0x39C7, 0x1F8E, 0x0F0C, 0x0000],
    [0x0000, 0x0000, 0x0003, 0x0003, 0x0003, 0x3FFF, 0x3FFF, 0x0003, 0x0003, 0x0003, 0x0000, 0x0000],
    [0x0000, 0x07FF, 0x1FFF, 0x3800, 0x3000, 0x3000, 0x3000, 0x3000, 0x3800, 0x1FFF, 0x07FF, 0x0000],
    [0x0000, 0x0007, 0x003F, 0x01F8, 0x0FC0, 0x3E00, 0x3E00, 0x0FC0, 0x01F8, 0x003F, 0x0007, 0x0000],
    [0x0000, 0x3FFF, 0x3FFF, 0x1C00, 0x0600, 0x0380, 0x0380, 0x0600, 0x1C00, 0x3FFF, 0x3FFF, 0x0000],
    [0x0000, 0x3003, 0x3C0F, 0x0E1C, 0x0330, 0x01E0, 0x01E0, 0x0330, 0x0E1C, 0x3C0F, 0x3003, 0x0000],
    [0x0000, 0x0003, 0x000F, 0x003C, 0x00F0, 0x3FC0, 0x3FC0, 0x00F0, 0x003C, 0x000F, 0x0003, 0x0000],
    [0x0000, 0x3003, 0x3C03, 0x3E03, 0x3303, 0x31C3, 0x30E3, 0x3033, 0x301F, 0x300F, 0x3003, 0x0000],
    [0x0000, 0x0000, 0x0000, 0x3FFF, 0x3FFF, 0x3003, 0x3003, 0x3003, 0x3003, 0x0000, 0x0000, 0x0000],
    [0x0000, 0x000E, 0x001C, 0x0038, 0x0070, 0x00E0, 0x01C0, 0x0380, 0x0700, 0x0E00, 0x1C00, 0x1800],
    [0x0000, 0x0000, 0x0000, 0x3003, 0x3003, 0x3003, 0x3003, 0x3FFF, 0x3FFF, 0x0000, 0x0000, 0x0000],
    [0x0000, 0x0060, 0x0070, 0x0038, 0x001C, 0x000E, 0x0007, 0x000E, 0x001C, 0x0038, 0x0070, 0x0060],
    [0x0000, 0xC000, 0xC000, 0xC000, 0xC000, 0xC000, 0xC000, 0xC000, 0xC000, 0xC000, 0xC000, 0xC000],
    [0x0000, 0x0000, 0x0000, 0x0000, 0x0000, 0x003E, 0x007E, 0x004E, 0x0000, 0x0000, 0x0000, 0x0000],
    [0x0000, 0x1C00, 0x3E40, 0x3360, 0x3360, 0x3360, 0x3360, 0x3360, 0x3360, 0x3FE0, 0x3FC0, 0x0000],
    [0x0000, 0x3FFF, 0x3FFF, 0x30C0, 0x3060, 0x3060, 0x3060, 0x3060, 0x38E0, 0x1FC0, 0x0F80, 0x0000],
    [0x0000, 0x0F80, 0x1FC0, 0x38E0, 0x3060, 0x3060, 0x3060, 0x3060, 0x3060, 0x18C0, 0x0880, 0x0000],
    [0x0000, 0x0F80, 0x1FC0, 0x38E0, 0x3060, 0x3060, 0x3060, 0x30E0, 0x30C0, 0x3FFF, 0x3FFF, 0x0000],
    [0x0000, 0x0F80, 0x1FC0, 0x3BE0, 0x3360, 0x3360, 0x3360, 0x3360, 0x3360, 0x13C0, 0x0180, 0x0000],
    [0x0000, 0x00C0, 0x00C0, 0x3FFC, 0x3FFE, 0x00C7, 0x00C3, 0x00C3, 0x0003, 0x0000, 0x0000, 0x0000],
    [0x0000, 0x0380, 0xC7C0, 0xCEE0, 0xCC60, 0xCC60, 0xCC60, 0xCC60, 0xE660, 0x7FE0, 0x3FE0, 0x0000],
    [0x0000, 0x3FFF, 0x3FFF, 0x00C0, 0x0060, 0x0060, 0x0060, 0x00E0, 0x3FC0, 0x3F80, 0x0000, 0x0000],
    [0x0000, 0x0000, 0x0000, 0x3000, 0x3060, 0x3FEC, 0x3FEC, 0x3000, 0x3000, 0x0000, 0x0000, 0x0000],
    [0x0000, 0x0000, 0x0000, 0x6000, 0xE000, 0xC000, 0xC060, 0xFFEC, 0x7FEC, 0x0000, 0x0000, 0x0000],
    [0x0000, 0x0000, 0x3FFF, 0x3FFF, 0x0300, 0x0780, 0x0FC0, 0x1CE0, 0x3860, 0x3000, 0x0000, 0x0000],
    [0x0000, 0x0000, 0x0000, 0x3000, 0x3003, 0x3FFF, 0x3FFF, 0x3000, 0x3000, 0x0000, 0x0000, 0x0000],
    [0x0000, 0x3FE0, 0x3FC0, 0x00E0, 0x00E0, 0x3FC0, 0x3FC0, 0x00E0, 0x00E0, 0x3FC0, 0x3F80, 0x0000],
    [0x0000, 0x0000, 0x3FE0, 0x3FE0, 0x0060, 0x0060, 0x0060, 0x0060, 0x00E0, 0x3FC0, 0x3F80, 0x0000],
    [0x0000, 0x0F80, 0x1FC0, 0x38E0, 0x3060, 0x3060, 0x3060, 0x3060, 0x38E0, 0x1FC0, 0x0F80, 0x0000],
    [0x0000, 0xFFE0, 0xFFE0, 0x0C60, 0x1860, 0x1860, 0x1860, 0x1860, 0x1CE0, 0x0FC0, 0x0780, 0x0000],
    [0x0000, 0x0780, 0x0FC0, 0x1CE0, 0x1860, 0x1860, 0x1860, 0x1860, 0x0C60, 0xFFE0, 0xFFE0, 0x0000],
    [0x0000, 0x0000, 0x3FE0, 0x3FE0, 0x00C0, 0x0060, 0x0060, 0x0060, 0x0060, 0x00E0, 0x00C0, 0x0000],
    [0x0000, 0x11C0, 0x33E0, 0x3360, 0x3360, 0x3360, 0x3360, 0x3F60, 0x1E40, 0x0000, 0x0000, 0x0000],
    [0x0000, 0x0060, 0x0060, 0x1FFE, 0x3FFE, 0x3060, 0x3060, 0x3060, 0x3000, 0x0000, 0x0000, 0x0000],
    [0x0000, 0x0FE0, 0x1FE0, 0x3800, 0x3000, 0x3000, 0x3000, 0x3000, 0x1800, 0x3FE0, 0x3FE0, 0x0000],
    [0x0000, 0x0060, 0x01E0, 0x0780, 0x1E00, 0x3800, 0x3800, 0x1E00, 0x0780, 0x01E0, 0x0060, 0x0000],
    [0x0000, 0x07E0, 0x1FE0, 0x3800, 0x1C00, 0x0FE0, 0x0FE0, 0x1C00, 0x3800, 0x1FE0, 0x07E0, 0x0000],
    [0x0000, 0x3060, 0x38E0, 0x1DC0, 0x0F80, 0x0700, 0x0F80, 0x1DC0, 0x38E0, 0x3060, 0x0000, 0x0000],
    [0x0000, 0x0000, 0x0060, 0x81E0, 0xE780, 0x7E00, 0x1E00, 0x0780, 0x01E0, 0x0060, 0x0000, 0x0000],
    [0x0000, 0x3060, 0x3860, 0x3C60, 0x3660, 0x3360, 0x31E0, 0x30E0, 0x3060, 0x3020, 0x0000, 0x0000],
    [0x0000, 0x0000, 0x0080, 0x01C0, 0x1FFC, 0x3F7E, 0x7007, 0x6003, 0x6003, 0x6003, 0x0000, 0x0000],
    [0x0000, 0x0000, 0x0000, 0x0000, 0x0000, 0x3FFF, 0x3FFF, 0x0000, 0x0000, 0x0000, 0x0000, 0x0000],
    [0x0000, 0x0000, 0x6003, 0x6003, 0x6003, 0x7007, 0x3F7E, 0x1FFC, 0x01C0, 0x0080, 0x0000, 0x0000],
    [0x0000, 0x0010, 0x0018, 0x000C, 0x0004, 0x000C, 0x0018, 0x0010, 0x0018, 0x000C, 0x0004, 0x0000],
    [0x0000, 0x0F00, 0x0F80, 0x0CC0, 0x0C60, 0x0C30, 0x0C30, 0x0C60, 0x0CC0, 0x0F80, 0x0F00, 0x0000],
    [0x0000, 0x01F0, 0x07FC, 0xCE0E, 0xDC07, 0xF803, 0xF803, 0x1803, 0x1C07, 0x0E1E, 0x061C, 0x0000],
    [0x0000, 0x0FE0, 0x1FE0, 0x380C, 0x300C, 0x3000, 0x3000, 0x300C, 0x180C, 0x3FE0, 0x3FE0, 0x0000],
    [0x0000, 0x0F80, 0x1FC0, 0x3BE0, 0x3360, 0x3368, 0x336C, 0x3366, 0x3362, 0x13C0, 0x0380, 0x0000],
    [0x0000, 0x1C00, 0x3E40, 0x3368, 0x336C, 0x3366, 0x3366, 0x336C, 0x3368, 0x3FE0, 0x3FC0, 0x0000],
    [0x0000, 0x1C00, 0x3E40, 0x336C, 0x336C, 0x3360, 0x3360, 0x336C, 0x336C, 0x3FE0, 0x3FC0, 0x0000],
    [0x0000, 0x1C00, 0x3E40, 0x3360, 0x3362, 0x3366, 0x336C, 0x3368, 0x3360, 0x3FE0, 0x3FC0, 0x0000],
    [0x0000, 0x1C00, 0x3E40, 0x3360, 0x3364, 0x336A, 0x336A, 0x3364, 0x3360, 0x3FE0, 0x3FC0, 0x0000],
    [0x0000, 0x0F80, 0x1FC0, 0xB8E0, 0xB060, 0xF060, 0xF060, 0x3060, 0x38E0, 0x18C0, 0x0880, 0x0000],
    [0x0000, 0x0F80, 0x1FC0, 0x33E8, 0x336C, 0x3366, 0x3366, 0x336C, 0x3368, 0x13C0, 0x0380, 0x0000],
    [0x0000, 0x0F80, 0x1FC0, 0x33EC, 0x336C, 0x3360, 0x3360, 0x336C, 0x336C, 0x13C0, 0x0380, 0x0000],
    [0x0000, 0x0F80, 0x1FC0, 0x33E0, 0x3362, 0x3366, 0x336C, 0x3368, 0x3360, 0x13C0, 0x0380, 0x0000],
    [0x0000, 0x0000, 0x0000, 0x300C, 0x306C, 0x3FE0, 0x3FEC, 0x300C, 0x3000, 0x0000, 0x0000, 0x0000],
    [0x0000, 0x0000, 0x0000, 0x3008, 0x306C, 0x3FE6, 0x3FE6, 0x300C, 0x3008, 0x0000, 0x0000, 0x0000],
    [0x0000, 0x0000, 0x0000, 0x3000, 0x3062, 0x3FE6, 0x3FEC, 0x3008, 0x3000, 0x0000, 0x0000, 0x0000],
    [0x0000, 0x3800, 0x3E00, 0x0F83, 0x0DE3, 0x0C78, 0x0C78, 0x0DE3, 0x0F83, 0x3E00, 0x3800, 0x0000],
    [0x0000, 0x3800, 0x3E00, 0x0F80, 0x0DE2, 0x0C75, 0x0C75, 0x0DE2, 0x0F80, 0x3E00, 0x3800, 0x0000],
    [0x0000, 0x3FF8, 0x3FF8, 0x3198, 0x3198, 0x319C, 0x319E, 0x319B, 0x3199, 0x3018, 0x3018, 0x0000],
    [0x0000, 0x1C80, 0x3EC0, 0x2240, 0x2240, 0x1FC0, 0x3F80, 0x2240, 0x2240, 0x33C0, 0x1180, 0x0000],
    [0x0000, 0x3C00, 0x3F80, 0x07F0, 0x067C, 0x061F, 0x3FFF, 0x3FFF, 0x30C3, 0x30C3, 0x3003, 0x0000],
    [0x0000, 0x0F80, 0x1FC0, 0x38E8, 0x306C, 0x3066, 0x3066, 0x306C, 0x38E8, 0x1FC0, 0x0F80, 0x0000],
    [0x0000, 0x0F80, 0x1FC0, 0x38EC, 0x306C, 0x3060, 0x3060, 0x306C, 0x38EC, 0x1FC0, 0x0F80, 0x0000],
    [0x0000, 0x0F80, 0x1FC0, 0x38E0, 0x3062, 0x3066, 0x306C, 0x3068, 0x38E0, 0x1FC0, 0x0F80, 0x0000],
    [0x0000, 0x0FE0, 0x1FE0, 0x3808, 0x300C, 0x3006, 0x3006, 0x300C, 0x1808, 0x3FE0, 0x3FE0, 0x0000],
    [0x0000, 0x0FE0, 0x1FE0, 0x3800, 0x3002, 0x3006, 0x300C, 0x3008, 0x1800, 0x3FE0, 0x3FE0, 0x0000],
    [0x0000, 0x0000, 0xC3E0, 0xC7EC, 0xCC0C, 0xF800, 0x7800, 0x1C0C, 0x0FEC, 0x03E0, 0x0000, 0x0000],
    [0x0000, 0x0FE0, 0x1FF3, 0x383B, 0x3018, 0x3018, 0x3018, 0x301B, 0x383B, 0x1FF0, 0x0FE0, 0x0000],
    [0x0000, 0x0FE0, 0x1FE0, 0x380C, 0x300C, 0x3000, 0x3000, 0x300C, 0x180C, 0x3FE0, 0x3FE0, 0x0000],
    [0x0000, 0x0000, 0x03E0, 0x07F0, 0x0E38, 0x3FFE, 0x3FFE, 0x0C18, 0x0E38, 0x0630, 0x0000, 0x0000],
    [0x0000, 0x0000, 0x1800, 0x1C80, 0x1FF8, 0x0BFC, 0x188C, 0x188C, 0x181C, 0x1818, 0x0800, 0x0000],
    [0x0000, 0x0003, 0x0A0F, 0x0A3C, 0x0AF0, 0x3FC0, 0x3FC0, 0x0AF0, 0x0A3C, 0x0A0F, 0x0003, 0x0000],
    [0x0000, 0x3FF8, 0x3FF8, 0x0088, 0x0088, 0x00F8, 0x0270, 0x1F80, 0x3F80, 0x2200, 0x2200, 0x0000],
    [0x0000, 0x0000, 0x3000, 0x7080, 0x6080, 0x7FFE, 0x3FFF, 0x0083, 0x0087, 0x0006, 0x0000, 0x0000],
    [0x0000, 0x1C00, 0x3E40, 0x3360, 0x3368, 0x336C, 0x3366, 0x3362, 0x3360, 0x3FE0, 0x3FC0, 0x0000],
    [0x0000, 0x0000, 0x0000, 0x3000, 0x3068, 0x3FEC, 0x3FE6, 0x3002, 0x3000, 0x0000, 0x0000, 0x0000],
    [0x0000, 0x0F80, 0x1FC0, 0x38E0, 0x3068, 0x306C, 0x3066, 0x3062, 0x38E0, 0x1FC0, 0x0F80, 0x0000],
    [0x0000, 0x0FE0, 0x1FE0, 0x3800, 0x3008, 0x300C, 0x3006, 0x3002, 0x1800, 0x3FE0, 0x3FE0, 0x0000],
    [0x0000, 0x0000, 0x3FE0, 0x3FE8, 0x006C, 0x0064, 0x006C, 0x0068, 0x00EC, 0x3FC4, 0x3F80, 0x0000],
    [0x0000, 0x3FF8, 0x3FF8, 0x0072, 0x00E3, 0x01C1, 0x0383, 0x0702, 0x0E03, 0x3FF9, 0x3FF8, 0x0000],
    [0x0000, 0x0070, 0x06FA, 0x06DB, 0x06DB, 0x06DB, 0x06DB, 0x06DB, 0x06DB, 0x06FF, 0x00FE, 0x0000],
    [0x0000, 0x003C, 0x067E, 0x06E7, 0x06C3, 0x06C3, 0x06C3, 0x06C3, 0x06E7, 0x067E, 0x003C, 0x0000],
    [0x0000, 0x0E00, 0x1F00, 0x3B80, 0x31C0, 0x30FB, 0x307B, 0x3000, 0x3800, 0x1E00, 0x0E00, 0x0000],
    [0x0000, 0x01F8, 0x01F8, 0x0018, 0x0018, 0x0018, 0x0018, 0x0018, 0x0018, 0x0018, 0x0018, 0x0018],
    [0x0018, 0x0018, 0x0018, 0x0018, 0x0018, 0x0018, 0x0018, 0x0018, 0x0018, 0x03F8, 0x03F8, 0x0000],
    [0x0000, 0x0048, 0x047C, 0x067C, 0x0340, 0x0180, 0x00C0, 0x1960, 0x1D30, 0x1710, 0x1200, 0x0000],
    [0x0000, 0x0048, 0x047C, 0x067C, 0x0340, 0x0180, 0x06C0, 0x0760, 0x0430, 0x1F10, 0x1F00, 0x0000],
    [0x0000, 0x0000, 0x0000, 0x0000, 0x0F80, 0x3FF3, 0x3FF3, 0x0F80, 0x0000, 0x0000, 0x0000, 0x0000],
    [0x0000, 0x0080, 0x01C0, 0x0360, 0x0220, 0x0000, 0x0080, 0x01C0, 0x0360, 0x0220, 0x0000, 0x0000],
    [0x0000, 0x0220, 0x0360, 0x01C0, 0x0080, 0x0000, 0x0220, 0x0360, 0x01C0, 0x0080, 0x0000, 0x0000],
    [0x5555, 0x0000, 0xAAAA, 0x0000, 0x5555, 0x0000, 0xAAAA, 0x0000, 0x5555, 0x0000, 0xAAAA, 0x0000],
    [0xAAAA, 0x5555, 0xAAAA, 0x5555, 0xAAAA, 0x5555, 0xAAAA, 0x5555, 0xAAAA, 0x5555, 0xAAAA, 0x5555],
    [0xAAAA, 0xFFFF, 0x5555, 0xFFFF, 0xAAAA, 0xFFFF, 0x5555, 0xFFFF, 0xAAAA, 0xFFFF, 0x5555, 0xFFFF],
    [0x0000, 0x0000, 0x0000, 0x0000, 0x0000, 0xFFFF, 0xFFFF, 0x0000, 0x0000, 0x0000, 0x0000, 0x0000],
    [0x0180, 0x0180, 0x0180, 0x0180, 0x0180, 0xFFFF, 0xFFFF, 0x0000, 0x0000, 0x0000, 0x0000, 0x0000],
    [0x06C0, 0x06C0, 0x06C0, 0x06C0, 0x06C0, 0xFFFF, 0xFFFF, 0x0000, 0x0000, 0x0000, 0x0000, 0x0000],
    [0x0180, 0x0180, 0xFFFF, 0xFFFF, 0x0000, 0xFFFF, 0xFFFF, 0x0000, 0x0000, 0x0000, 0x0000, 0x0000],
    [0x0180, 0x0180, 0xFF80, 0xFF80, 0x0180, 0xFF80, 0xFF80, 0x0000, 0x0000, 0x0000, 0x0000, 0x0000],
    [0x06C0, 0x06C0, 0x06C0, 0x06C0, 0x06C0, 0xFFC0, 0xFFC0, 0x0000, 0x0000, 0x0000, 0x0000, 0x0000],
    [0x06C0, 0x06C0, 0xFEFF, 0xFEFF, 0x0000, 0xFFFF, 0xFFFF, 0x0000, 0x0000, 0x0000, 0x0000, 0x0000],
    [0x0000, 0x0000, 0xFFFF, 0xFFFF, 0x0000, 0xFFFF, 0xFFFF, 0x0000, 0x0000, 0x0000, 0x0000, 0x0000],
    [0x06C0, 0x06C0, 0xFEC0, 0xFEC0, 0x00C0, 0xFFC0, 0xFFC0, 0x0000, 0x0000, 0x0000, 0x0000, 0x0000],
    [0x06C0, 0x06C0, 0x06FF, 0x06FF, 0x0600, 0x07FF, 0x07FF, 0x0000, 0x0000, 0x0000, 0x0000, 0x0000],
    [0x0180, 0x0180, 0x01FF, 0x01FF, 0x0180, 0x01FF, 0x01FF, 0x0000, 0x0000, 0x0000, 0x0000, 0x0000],
    [0x06C0, 0x06C0, 0x06C0, 0x06C0, 0x06C0, 0x07FF, 0x07FF, 0x0000, 0x0000, 0x0000, 0x0000, 0x0000],
    [0x0180, 0x0180, 0x0180, 0x0180, 0x0180, 0xFF80, 0xFF80, 0x0000, 0x0000, 0x0000, 0x0000, 0x0000],
    [0x0000, 0x0000, 0x0000, 0x0000, 0x0000, 0x01FF, 0x01FF, 0x0180, 0x0180, 0x0180, 0x0180, 0x0180],
    [0x0180, 0x0180, 0x0180, 0x0180, 0x0180, 0x01FF, 0x01FF, 0x0180, 0x0180, 0x0180, 0x0180, 0x0180],
    [0x0180, 0x0180, 0x0180, 0x0180, 0x0180, 0xFF80, 0xFF80, 0x0180, 0x0180, 0x0180, 0x0180, 0x0180],
    [0x0000, 0x0000, 0x0000, 0x0000, 0x0000, 0xFFFF, 0xFFFF, 0x0180, 0x0180, 0x0180, 0x0180, 0x0180],
    [0x0180, 0x0180, 0x0180, 0x0180, 0x0180, 0x0180, 0x0180, 0x0180, 0x0180, 0x0180, 0x0180, 0x0180],
    [0x0180, 0x0180, 0x0180, 0x0180, 0x0180, 0xFFFF, 0xFFFF, 0x0180, 0x0180, 0x0180, 0x0180, 0x0180],
    [0x0000, 0x0000, 0x0000, 0x0000, 0x0000, 0xFFFF, 0xFFFF, 0x06C0, 0x06C0, 0x06C0, 0x06C0, 0x06C0],
    [0x0000, 0x0000, 0xFFFF, 0xFFFF, 0x0000, 0xFFFF, 0xFFFF, 0x0180, 0x0180, 0x0180, 0x0180, 0x0180],
    [0x0000, 0x0000, 0x07FF, 0x07FF, 0x0600, 0x06FF, 0x06FF, 0x06C0, 0x06C0, 0x06C0, 0x06C0, 0x06C0],
    [0x0000, 0x0000, 0xFFC0, 0xFFC0, 0x00C0, 0xFEC0, 0xFEC0, 0x06C0, 0x06C0, 0x06C0, 0x06C0, 0x06C0],
    [0x06C0, 0x06C0, 0x06FF, 0x06FF, 0x0600, 0x06FF, 0x06FF, 0x06C0, 0x06C0, 0x06C0, 0x06C0, 0x06C0],
    [0x06C0, 0x06C0, 0xFEC0, 0xFEC0, 0x00C0, 0xFEC0, 0xFEC0, 0x06C0, 0x06C0, 0x06C0, 0x06C0, 0x06C0],
    [0x0000, 0x0000, 0xFFFF, 0xFFFF, 0x0000, 0xFEFF, 0xFEFF, 0x06C0, 0x06C0, 0x06C0, 0x06C0, 0x06C0],
    [0x06C0, 0x06C0, 0x06C0, 0x06C0, 0x06C0, 0x06C0, 0x06C0, 0x06C0, 0x06C0, 0x06C0, 0x06C0, 0x06C0],
    [0x06C0, 0x06C0, 0xFEFF, 0xFEFF, 0x0000, 0xFEFF, 0xFEFF, 0x06C0, 0x06C0, 0x06C0, 0x06C0, 0x06C0],
    [0x06C0, 0x06C0, 0x06C0, 0x06C0, 0x06C0, 0x06FF, 0x06FF, 0x06C0, 0x06C0, 0x06C0, 0x06C0, 0x06C0],
    [0x0180, 0x0180, 0x01FF, 0x01FF, 0x0180, 0x01FF, 0x01FF, 0x0180, 0x0180, 0x0180, 0x0180, 0x0180],
    [0x06C0, 0x06C0, 0x06C0, 0x06C0, 0x06C0, 0xFEC0, 0xFEC0, 0x06C0, 0x06C0, 0x06C0, 0x06C0, 0x06C0],
    [0x0180, 0x0180, 0xFF80, 0xFF80, 0x0180, 0xFF80, 0xFF80, 0x0180, 0x0180, 0x0180, 0x0180, 0x0180],
    [0x0000, 0x0000, 0x01FF, 0x01FF, 0x0180, 0x01FF, 0x01FF, 0x0180, 0x0180, 0x0180, 0x0180, 0x0180],
    [0x0000, 0x0000, 0x0000, 0x0000, 0x0000, 0x07FF, 0x07FF, 0x06C0, 0x06C0, 0x06C0, 0x06C0, 0x06C0],
    [0x0000, 0x0000, 0x0000, 0x0000, 0x0000, 0xFFC0, 0xFFC0, 0x06C0, 0x06C0, 0x06C0, 0x06C0, 0x06C0],
    [0x0000, 0x0000, 0xFF80, 0xFF80, 0x0180, 0xFF80, 0xFF80, 0x0180, 0x0180, 0x0180, 0x0180, 0x0180],
    [0x0180, 0x0180, 0xFFFF, 0xFFFF, 0x0000, 0xFFFF, 0xFFFF, 0x0180, 0x0180, 0x0180, 0x0180, 0x0180],
    [0x06C0, 0x06C0, 0x06C0, 0x06C0, 0x06C0, 0xFEFF, 0xFEFF, 0x06C0, 0x06C0, 0x06C0, 0x06C0, 0x06C0],
    [0x0180, 0x0180, 0x0180, 0x0180, 0x0180, 0x01FF, 0x01FF, 0x0000, 0x0000, 0x0000, 0x0000, 0x0000],
    [0x0000, 0x0000, 0x0000, 0x0000, 0x0000, 0xFF80, 0xFF80, 0x0180, 0x0180, 0x0180, 0x0180, 0x0180],
    [0xFFFF, 0xFFFF, 0xFFFF, 0xFFFF, 0xFFFF, 0xFFFF, 0xFFFF, 0xFFFF, 0xFFFF, 0xFFFF, 0xFFFF, 0xFFFF],
    [0xFF00, 0xFF00, 0xFF00, 0xFF00, 0xFF00, 0xFF00, 0xFF00, 0xFF00, 0xFF00, 0xFF00, 0xFF00, 0xFF00],
    [0xFFFF, 0xFFFF, 0xFFFF, 0xFFFF, 0xFFFF, 0xFFFF, 0x0000, 0x0000, 0x0000, 0x0000, 0x0000, 0x0000],
    [0x0000, 0x0000, 0x0000, 0x0000, 0x0000, 0x0000, 0xFFFF, 0xFFFF, 0xFFFF, 0xFFFF, 0xFFFF, 0xFFFF],
    [0x00FF, 0x00FF, 0x00FF, 0x00FF, 0x00FF, 0x00FF, 0x00FF, 0x00FF, 0x00FF, 0x00FF, 0x00FF, 0x00FF],
    [0x0000, 0x0000, 0x0E00, 0x1B00, 0x3180, 0x3180, 0x1B00, 0x0E00, 0x1B00, 0x3180, 0x0000, 0x0000],
    [0x0000, 0x0000, 0xFFC0, 0xFFE0, 0x2130, 0x2110, 0x2110, 0x3330, 0x3FE0, 0x1EC0, 0x0000, 0x0000],
    [0x0000, 0x0000, 0x3FFE, 0x3FFE, 0x0006, 0x0006, 0x0006, 0x0006, 0x0006, 0x000E, 0x000E, 0x0000],
    [0x0000, 0x0008, 0x000C, 0x3FFC, 0x3FFC, 0x000C, 0x000C, 0x3FFC, 0x3FFC, 0x000C, 0x000C, 0x0004],
    [0x0000, 0x0000, 0x380E, 0x3C1E, 0x3E3E, 0x3776, 0x33E6, 0x31C6, 0x3086, 0x380E, 0x380E, 0x0000],
    [0x0000, 0x0F80, 0x1FC0, 0x38E0, 0x3060, 0x3060, 0x3060, 0x38E0, 0x1FE0, 0x0F60, 0x0060, 0x0000],
    [0x0000, 0xFFF0, 0xFFF0, 0x0E00, 0x0C00, 0x0C00, 0x0C00, 0x0600, 0x0FF0, 0x0FF0, 0x0000, 0x0000],
    [0x0000, 0x0000, 0x00C0, 0x00E0, 0x3860, 0x3FC0, 0x0F80, 0x0180, 0x00C0, 0x0060, 0x0060, 0x0000],
    [0x0000, 0x01E0, 0x03F0, 0x2739, 0x2619, 0x3E1F, 0x3E1F, 0x2619, 0x2739, 0x03F0, 0x01C0, 0x0000],
    [0x0000, 0x0000, 0x0FF0, 0x1FF8, 0x399C, 0x318C, 0x318C, 0x399C, 0x1FF8, 0x0FE0, 0x0000, 0x0000],
    [0x0000, 0x0000, 0x31C0, 0x33E0, 0x3E30, 0x1C18, 0x0018, 0x1C18, 0x3E30, 0x33E0, 0x31C0, 0x0000],
    [0x0000, 0x0000, 0x0000, 0x1C78, 0x3EFC, 0x33CC, 0x338C, 0x3F0C, 0x1E18, 0x0000, 0x0000, 0x0000],
    [0x0000, 0x0380, 0x07C0, 0x0440, 0x06C0, 0x0380, 0x0380, 0x06C0, 0x0440, 0x07C0, 0x0380, 0x0000],
    [0x0000, 0x0000, 0x0780, 0x6FC0, 0x7CE0, 0x1E60, 0x1FE0, 0x19E0, 0x1CF8, 0x0FD8, 0x0700, 0x0000],
    [0x0000, 0x0000, 0x03F0, 0x0FFC, 0x1CCE, 0x18C6, 0x30C3, 0x30C3, 0x30C3, 0x3003, 0x0000, 0x0000],
    [0x0000, 0x0000, 0x3FF8, 0x3FFC, 0x000E, 0x0006, 0x000E, 0x3FFC, 0x3FF8, 0x0000, 0x0000, 0x0000],
    [0x0000, 0x0000, 0x1998, 0x1998, 0x1998, 0x1998, 0x1998, 0x1998, 0x1998, 0x1998, 0x0000, 0x0000],
    [0x0000, 0x0000, 0x0000, 0x18C0, 0x18C0, 0x1BF0, 0x1BF0, 0x18C0, 0x18C0, 0x0000, 0x0000, 0x0000],
    [0x0000, 0x0000, 0x3606, 0x3606, 0x330C, 0x330C, 0x3198, 0x3198, 0x30F0, 0x30F0, 0x3060, 0x0000],
    [0x0000, 0x0000, 0x3040, 0x30E0, 0x30E0, 0x31B0, 0x31B0, 0x3318, 0x3318, 0x360C, 0x360C, 0x0000],
    [0x0000, 0x0000, 0x0000, 0x0000, 0x0000, 0xFFFC, 0xFFFE, 0x0007, 0x0003, 0x0007, 0x001E, 0x001C],
    [0x3800, 0x7800, 0xE000, 0xC000, 0xE000, 0x7FFF, 0x3FFF, 0x0000, 0x0000, 0x0000, 0x0000, 0x0000],
    [0x0000, 0x0000, 0x0180, 0x0180, 0x0180, 0x0DB0, 0x0DB0, 0x0180, 0x0180, 0x0180, 0x0000, 0x0000],
    [0x0000, 0x0660, 0x0660, 0x0330, 0x0330, 0x0660, 0x0660, 0x0CC0, 0x0CC0, 0x0660, 0x0660, 0x0000],
    [0x0000, 0x0000, 0x0000, 0x001E, 0x003F, 0x0033, 0x0033, 0x003F, 0x001E, 0x0000, 0x0000, 0x0000],
    [0x0000, 0x0000, 0x0000, 0x03C0, 0x07E0, 0x07E0, 0x07E0, 0x07E0, 0x03C0, 0x0000, 0x0000, 0x0000],
    [0x0000, 0x0000, 0x0000, 0x0000, 0x0000, 0x0180, 0x03C0, 0x0180, 0x0000, 0x0000, 0x0000, 0x0000],
    [0x0000, 0x0000, 0x0300, 0x0600, 0x0C00, 0x1800, 0x3FFE, 0x3FFE, 0x0006, 0x0006, 0x0006, 0x0006],
    [0x0000, 0x0000, 0x001F, 0x001E, 0x0003, 0x001F, 0x001E, 0x0000, 0x0000, 0x0000, 0x0000, 0x0000],
    [0x0000, 0x0000, 0x0019, 0x001D, 0x0015, 0x0017, 0x0012, 0x0000, 0x0000, 0x0000, 0x0000, 0x0000],
    [0x0000, 0x0000, 0x0000, 0x0000, 0x03F0, 0x03F0, 0x03F0, 0x03F0, 0x0000, 0x0000, 0x0000, 0x0000],
    [0x0000, 0x0000, 0x0000, 0x0000, 0x0000, 0x0000, 0x0000, 0x0000, 0x0000, 0x0000, 0x0000, 0x0000]]"

end
