(* ===== verification/Fpga_Render.thy ===== *)
theory Fpga_Render imports Fpga_Text Ili9341 Font_12x16 begin

text \<open>
  The renderer of the FPGA's text mode (\<open>src/emulator/chips/fpga_text_render.c\<close>): it draws the grid
  through the commands of the display, and what the glass then shows is the grid.
\<close>

section \<open>State\<close>

abbreviation (input) CELL_W :: int where "CELL_W \<equiv> 12"
abbreviation (input) CELL_H :: int where "CELL_H \<equiv> 16"
abbreviation (input) CELL_REVERSE :: int where "CELL_REVERSE \<equiv> 0x100"
abbreviation (input) CELL_CURSOR :: int where "CELL_CURSOR \<equiv> 0x200"

definition FPGA_TEXT_BLINK_US :: u64 where "FPGA_TEXT_BLINK_US = 250000"

record fpga_text_render =
  drawn :: "int \<Rightarrow> int \<Rightarrow> int"
  set_up :: bool
  sent_scroll :: bool
  sent_top :: int
  sent_bottom :: int
  sent_offset :: int
  blink_row :: int
  blink_col :: int
  blink_cursor :: bool
  blink_on :: bool
  blink_us :: u64

definition fpga_text_render_init :: fpga_text_render where
  "fpga_text_render_init = \<lparr>drawn = (\<lambda>_ _. -1), set_up = False, sent_scroll = False, sent_top = 0,
     sent_bottom = 0, sent_offset = 0, blink_row = 0, blink_col = 0, blink_cursor = False,
     blink_on = False, blink_us = 0\<rparr>"

section \<open>The display's commands\<close>

definition send_word :: "int \<Rightarrow> ili9341 \<Rightarrow> ili9341" where
  "send_word w p = ili9341_data (word_of_int w) (ili9341_data (word_of_int (drop_bit 8 w)) p)"

definition send_words :: "u8 \<Rightarrow> int list \<Rightarrow> ili9341 \<Rightarrow> ili9341" where
  "send_words cmd ws p = fold send_word ws (ili9341_command cmd p)"

text \<open>The operands of the remainder are not negative.\<close>

definition memory_row :: "fpga_text_render \<Rightarrow> int \<Rightarrow> int" where
  "memory_row r row =
     (if row < sent_top r \<or> row > sent_bottom r then row
      else sent_bottom r - (sent_offset r + sent_bottom r - row) mod (sent_bottom r - sent_top r + 1))"

definition send_scroll :: "fpga_text_render \<Rightarrow> ili9341 \<Rightarrow> ili9341" where
  "send_scroll r p =
     (let tfa = (TEXT_ROWS - 1 - sent_bottom r) * CELL_H
      in send_words VSCRSADD [tfa + sent_offset r * CELL_H]
          (send_words VSCRDEF [tfa, (sent_bottom r - sent_top r + 1) * CELL_H, sent_top r * CELL_H] p))"

definition cell_column :: "int \<Rightarrow> int \<Rightarrow> u16" where
  "cell_column cl x =
     font_12x16 ! nat (cl AND 0xFF) ! nat x XOR
     ((if cl AND CELL_REVERSE \<noteq> 0 then 0xFFFF else 0) XOR
      (if cl AND CELL_CURSOR \<noteq> 0 then push_bit 14 0xFFFF else 0))"

definition cell_pixel :: "int \<Rightarrow> int \<Rightarrow> int \<Rightarrow> int" where
  "cell_pixel cl x y = (if bit (cell_column cl x) (nat y) then 0xFFFF else 0)"

definition draw_cell :: "int \<Rightarrow> int \<Rightarrow> int \<Rightarrow> ili9341 \<Rightarrow> ili9341" where
  "draw_cell m c cl p =
     (let p = send_words CASET [m * CELL_H, m * CELL_H + CELL_H - 1] p;
          p = send_words PASET [c * CELL_W, c * CELL_W + CELL_W - 1] p;
          p = ili9341_command RAMWR p
      in fold (\<lambda>x. fold (\<lambda>y. send_word (cell_pixel cl x y)) [0..CELL_H - 1]) [0..CELL_W - 1] p)"

section \<open>Drawing the grid\<close>

definition blink :: "fpga_text \<Rightarrow> u64 \<Rightarrow> fpga_text_render \<Rightarrow> fpga_text_render" where
  "blink t now_us r =
     (if text_row t \<noteq> blink_row r \<or> text_col t \<noteq> blink_col r \<or> text_cursor t \<noteq> blink_cursor r \<or>
         now_us < blink_us r
      then r\<lparr>blink_row := text_row t, blink_col := text_col t, blink_cursor := text_cursor t,
             blink_on := True, blink_us := now_us\<rparr>
      else
        (let periods = (now_us - blink_us r) div FPGA_TEXT_BLINK_US
         in r\<lparr>blink_on := (blink_on r \<noteq> bit periods 0), blink_us := blink_us r + periods * FPGA_TEXT_BLINK_US\<rparr>))"

definition cell_code :: "fpga_text \<Rightarrow> bool \<Rightarrow> int \<Rightarrow> int \<Rightarrow> int" where
  "cell_code t cursor_shown row c =
     uint (chars t row c) OR (if reverse_cells t row c then CELL_REVERSE else 0) OR
     (if cursor_shown \<and> row = text_row t \<and> c = text_col t then CELL_CURSOR else 0)"

definition draw_at ::
  "fpga_text \<Rightarrow> bool \<Rightarrow> int \<Rightarrow> int \<Rightarrow> fpga_text_render \<times> ili9341 \<Rightarrow> fpga_text_render \<times> ili9341" where
  "draw_at t cursor_shown row c = (\<lambda>(r, p).
     let m = memory_row r row; cl = cell_code t cursor_shown row c
     in if drawn r m c = cl then (r, p)
        else (r\<lparr>drawn := (drawn r)(m := (drawn r m)(c := cl))\<rparr>, draw_cell m c cl p))"

definition render_setup :: "fpga_text \<Rightarrow> fpga_text_render \<times> ili9341 \<Rightarrow> fpga_text_render \<times> ili9341" where
  "render_setup t = (\<lambda>(r, p).
     let (r, p) = (if set_up r then (r, p)
                   else (r\<lparr>set_up := True\<rparr>, ili9341_data 0xA8 (ili9341_command MADCTL p)))
     in if \<not> sent_scroll r \<or> region_top t \<noteq> sent_top r \<or> region_bottom t \<noteq> sent_bottom r \<or>
           scroll_offset t \<noteq> sent_offset r
        then
          (let r = r\<lparr>sent_top := region_top t, sent_bottom := region_bottom t,
                     sent_offset := scroll_offset t, sent_scroll := True\<rparr>
           in (r, send_scroll r p))
        else (r, p))"

definition fpga_text_render_draw ::
  "fpga_text \<Rightarrow> u64 \<Rightarrow> fpga_text_render \<times> ili9341 \<Rightarrow> fpga_text_render \<times> ili9341" where
  "fpga_text_render_draw t now_us x =
     (let (r, p) = render_setup t x;
          r = blink t now_us r;
          cursor_shown = (text_cursor t \<and> text_col t < TEXT_COLS \<and> blink_on r)
      in fold (\<lambda>row. fold (draw_at t cursor_shown row) [0..TEXT_COLS - 1]) [0..TEXT_ROWS - 1] (r, p))"

section \<open>Writing a window\<close>

lemma uint_small: "0 \<le> k \<Longrightarrow> k < 65536 \<Longrightarrow> uint (word_of_int k :: u16) = k"
  by (simp add: unsigned_of_int take_bit_int_eq_self)

lemma be_word_of_int [simp]: "be_word (word_of_int (drop_bit 8 w)) (word_of_int w) = word_of_int w"
proof -
  have "to8 (drop_bit 8 (word_of_int w :: u16)) = word_of_int (drop_bit 8 w)"
    by (rule bit_eqI) (auto simp: bit_unsigned_iff bit_drop_bit_eq bit_of_int_iff)
  moreover have "to8 (word_of_int w :: u16) = word_of_int w"
    by (rule bit_eqI) (auto simp: bit_unsigned_iff bit_of_int_iff)
  ultimately show ?thesis by (metis be_word_split)
qed

text \<open>The registers that drawing leaves alone.\<close>

definition same_panel :: "ili9341 \<Rightarrow> ili9341 \<Rightarrow> bool" where
  "same_panel p q \<longleftrightarrow> in_reset p = in_reset q \<and> madctl p = madctl q \<and> scan p = scan q \<and>
     sleeping p = sleeping q \<and> display_on p = display_on q \<and> backlight p = backlight q \<and>
     scr_tfa p = scr_tfa q \<and> scr_vsa p = scr_vsa q \<and> scr_bfa p = scr_bfa q \<and> scr_ssa p = scr_ssa q"

lemma same_panel_trans: "same_panel p q \<Longrightarrow> same_panel q r \<Longrightarrow> same_panel p r"
  by (simp add: same_panel_def)

text \<open>The window of a cell is set, and the next pixel is \<open>(x, y)\<close> of it.\<close>

definition pen_at :: "int \<Rightarrow> int \<Rightarrow> int \<Rightarrow> int \<Rightarrow> ili9341 \<Rightarrow> bool" where
  "pen_at m c x y p \<longleftrightarrow> \<not> in_reset p \<and> lcd_command p = RAMWR \<and> \<not> have_high p \<and> madctl p = 0xA8 \<and>
     win_sc p = word_of_int (m * CELL_H) \<and> win_ec p = word_of_int (m * CELL_H + 15) \<and>
     win_sp p = word_of_int (c * CELL_W) \<and> win_ep p = word_of_int (c * CELL_W + 11) \<and>
     pix_col p = word_of_int (m * CELL_H + y) \<and> pix_page p = word_of_int (c * CELL_W + x)"

definition set_pixel :: "int \<Rightarrow> int \<Rightarrow> u16 \<Rightarrow> (int \<Rightarrow> int \<Rightarrow> u16) \<Rightarrow> int \<Rightarrow> int \<Rightarrow> u16" where
  "set_pixel l x v mem = mem(l := (mem l)(x := v))"

lemma send_pixel:
  assumes "pen_at m c x y p" "0 \<le> m" "m < 20" "0 \<le> c" "c < 20" "0 \<le> x" "x < CELL_W" "0 \<le> y" "y < CELL_H"
  shows "memory (send_word w p) = set_pixel (319 - (m * CELL_H + y)) (c * CELL_W + x) (word_of_int w) (memory p)"
    and "same_panel (send_word w p) p"
    and "y < 15 \<Longrightarrow> pen_at m c x (y + 1) (send_word w p)"
    and "y = 15 \<Longrightarrow> x < 11 \<Longrightarrow> pen_at m c (x + 1) 0 (send_word w p)"
proof -
  define q where "q = p\<lparr>pix_high := word_of_int (drop_bit 8 w), have_high := True\<rparr>"
  have s: "send_word w p = write_pixel (word_of_int w) q\<lparr>have_high := False\<rparr>"
    using assms(1) by (simp add: send_word_def ili9341_data_def pen_at_def q_def write_pixel_def next_pixel_def
        split_beta Let_def)
  have col: "uint (pix_col q) = m * CELL_H + y" "uint (win_ec q) = m * CELL_H + 15"
    and page: "uint (pix_page q) = c * CELL_W + x" "uint (win_ep q) = c * CELL_W + 11"
    using assms by (simp_all add: q_def pen_at_def uint_small del: of_int_add of_int_mult)
  have at: "pixel_at q = (319 - (m * CELL_H + y), c * CELL_W + x)"
    using assms(1) col page by (simp add: pixel_at_def q_def pen_at_def)
  have wr: "write_pixel (word_of_int w) q = next_pixel (q\<lparr>memory :=
      set_pixel (319 - (m * CELL_H + y)) (c * CELL_W + x) (word_of_int w) (memory p)\<rparr>)"
    using assms by (simp add: write_pixel_def at) (simp add: set_pixel_def q_def pen_at_def)
  show "memory (send_word w p) = set_pixel (319 - (m * CELL_H + y)) (c * CELL_W + x) (word_of_int w) (memory p)"
    "same_panel (send_word w p) p"
    unfolding s wr by (simp_all add: next_pixel_def same_panel_def q_def)
  have le: "win_ec q \<le> pix_col q \<longleftrightarrow> 15 \<le> y" "win_ep q \<le> pix_page q \<longleftrightarrow> 11 \<le> x"
    using col page by (simp_all add: word_le_def)
  show "pen_at m c x (y + 1) (send_word w p)" if "y < 15"
    using assms(1) le that unfolding s wr by (simp add: next_pixel_def pen_at_def q_def add.assoc)
  show "pen_at m c (x + 1) 0 (send_word w p)" if "y = 15" "x < 11"
    using assms(1) le that unfolding s wr by (simp add: next_pixel_def pen_at_def q_def add.assoc)
qed

text \<open>A column of a cell, then all of them.\<close>

lemma send_column:
  fixes m c x :: int and p :: ili9341 and f :: "int \<Rightarrow> int" and k :: nat
  assumes "pen_at m c x 0 p" "0 \<le> m" "m < 20" "0 \<le> c" "c < 20" "0 \<le> x" "x < CELL_W" "k \<le> 16"
  defines "q \<equiv> fold (\<lambda>y. send_word (f y)) [0..int k - 1] p"
  shows "memory q = (\<lambda>l xx. if xx = c * CELL_W + x \<and> 319 - m * CELL_H - int k < l \<and> l \<le> 319 - m * CELL_H
      then word_of_int (f (319 - m * CELL_H - l)) else memory p l xx) \<and> same_panel q p \<and>
    (k < 16 \<longrightarrow> pen_at m c x (int k) q) \<and> (k = 16 \<longrightarrow> x < 11 \<longrightarrow> pen_at m c (x + 1) 0 q)"
  using assms(8) unfolding q_def
proof (induction k)
  case 0
  then show ?case using assms(1) by (auto simp: same_panel_def fun_eq_iff)
next
  case (Suc k)
  define u where "u = fold (\<lambda>y. send_word (f y)) [0..int k - 1] p"
  have step: "fold (\<lambda>y. send_word (f y)) [0..int (Suc k) - 1] p = send_word (f (int k)) u"
    unfolding u_def by (simp only: upto_Suc fold_append comp_def fold.simps id_apply)
  have u: "memory u = (\<lambda>l xx. if xx = c * CELL_W + x \<and> 319 - m * CELL_H - int k < l \<and> l \<le> 319 - m * CELL_H
      then word_of_int (f (319 - m * CELL_H - l)) else memory p l xx)" "same_panel u p" "pen_at m c x (int k) u"
    using Suc by (simp_all add: u_def)
  note s = send_pixel[OF u(3) assms(2-7), of "f (int k)"]
  have "memory (send_word (f (int k)) u) = (\<lambda>l xx. if xx = c * CELL_W + x \<and>
      319 - m * CELL_H - int (Suc k) < l \<and> l \<le> 319 - m * CELL_H
      then word_of_int (f (319 - m * CELL_H - l)) else memory p l xx)"
    using s(1) Suc.prems by (auto simp: u(1) set_pixel_def fun_eq_iff)
  moreover have "same_panel (send_word (f (int k)) u) p"
    using s(2) u(2) Suc.prems by (auto intro: same_panel_trans)
  ultimately show ?case
    unfolding step using s(3,4) Suc.prems by (simp add: add.commute)
qed

lemma send_columns:
  fixes m c :: int and p :: ili9341 and f :: "int \<Rightarrow> int \<Rightarrow> int" and k :: nat
  assumes "pen_at m c 0 0 p" "0 \<le> m" "m < 20" "0 \<le> c" "c < 20" "k \<le> 12"
  defines "q \<equiv> fold (\<lambda>x. fold (\<lambda>y. send_word (f x y)) [0..CELL_H - 1]) [0..int k - 1] p"
  shows "memory q = (\<lambda>l xx. if c * CELL_W \<le> xx \<and> xx < c * CELL_W + int k \<and> 319 - m * CELL_H - 16 < l \<and>
        l \<le> 319 - m * CELL_H
      then word_of_int (f (xx - c * CELL_W) (319 - m * CELL_H - l)) else memory p l xx) \<and> same_panel q p \<and>
    (k < 12 \<longrightarrow> pen_at m c (int k) 0 q)"
  using assms(6) unfolding q_def
proof (induction k)
  case 0
  then show ?case using assms(1) by (auto simp: same_panel_def fun_eq_iff)
next
  case (Suc k)
  define u where "u = fold (\<lambda>x. fold (\<lambda>y. send_word (f x y)) [0..CELL_H - 1]) [0..int k - 1] p"
  define v where "v = fold (\<lambda>y. send_word (f (int k) y)) [0..CELL_H - 1] u"
  have step: "fold (\<lambda>x. fold (\<lambda>y. send_word (f x y)) [0..CELL_H - 1]) [0..int (Suc k) - 1] p = v"
    unfolding u_def v_def by (simp only: upto_Suc fold_append comp_def fold.simps id_apply)
  have u: "memory u = (\<lambda>l xx. if c * CELL_W \<le> xx \<and> xx < c * CELL_W + int k \<and> 319 - m * CELL_H - 16 < l \<and>
        l \<le> 319 - m * CELL_H
      then word_of_int (f (xx - c * CELL_W) (319 - m * CELL_H - l)) else memory p l xx)"
    "same_panel u p" "pen_at m c (int k) 0 u"
    using Suc by (simp_all add: u_def)
  have v: "memory v = (\<lambda>l xx. if xx = c * CELL_W + int k \<and> 319 - m * CELL_H - 16 < l \<and> l \<le> 319 - m * CELL_H
      then word_of_int (f (int k) (319 - m * CELL_H - l)) else memory u l xx)" "same_panel v u"
    "int k < 11 \<Longrightarrow> pen_at m c (int k + 1) 0 v"
    using send_column[OF u(3) assms(2-5), of 16 "f (int k)"] Suc.prems by (simp_all add: v_def)
  have "memory v = (\<lambda>l xx. if c * CELL_W \<le> xx \<and> xx < c * CELL_W + int (Suc k) \<and> 319 - m * CELL_H - 16 < l \<and>
        l \<le> 319 - m * CELL_H
      then word_of_int (f (xx - c * CELL_W) (319 - m * CELL_H - l)) else memory p l xx)"
    unfolding v(1) u(1) by (intro ext) auto
  then show ?case
    unfolding step using v(2,3) u(2) Suc.prems by (auto simp: add.commute intro: same_panel_trans)
qed

text \<open>The panel takes a command's words as its parameters.\<close>

lemma send_window:
  assumes "\<not> in_reset p"
  shows "send_words CASET [a, b] p = p\<lparr>lcd_command := CASET, n_params := 4, have_high := False,
      params := params (send_words CASET [a, b] p), win_sc := word_of_int a, win_ec := word_of_int b\<rparr>"
    and "send_words PASET [a, b] p = p\<lparr>lcd_command := PASET, n_params := 4, have_high := False,
      params := params (send_words PASET [a, b] p), win_sp := word_of_int a, win_ep := word_of_int b\<rparr>"
  using assms by (simp_all add: send_words_def send_word_def ili9341_command_def ili9341_data_def
      parameters_def Let_def)

text \<open>The memory a cell covers: line \<open>319 - (16 m + y)\<close> and pixel \<open>12 c + x\<close>.\<close>

definition cell_area :: "int \<Rightarrow> int \<Rightarrow> int \<Rightarrow> int \<Rightarrow> bool" where
  "cell_area m c l xx \<longleftrightarrow> c * CELL_W \<le> xx \<and> xx < c * CELL_W + CELL_W \<and>
     319 - m * CELL_H - CELL_H < l \<and> l \<le> 319 - m * CELL_H"

lemma draw_cell_memory:
  assumes "\<not> in_reset p" "madctl p = 0xA8" "0 \<le> m" "m < 20" "0 \<le> c" "c < 20"
  shows "memory (draw_cell m c cl p) = (\<lambda>l xx. if cell_area m c l xx
      then word_of_int (cell_pixel cl (xx - c * CELL_W) (319 - m * CELL_H - l)) else memory p l xx) \<and>
    same_panel (draw_cell m c cl p) p"
proof -
  define w where "w = send_words CASET [m * CELL_H, m * CELL_H + CELL_H - 1] p"
  define v where "v = send_words PASET [c * CELL_W, c * CELL_W + CELL_W - 1] w"
  define u where "u = ili9341_command RAMWR v"
  have w: "memory w = memory p" "same_panel w p" "\<not> in_reset w" "madctl w = 0xA8"
    "win_sc w = word_of_int (m * CELL_H)" "win_ec w = word_of_int (m * CELL_H + 15)"
    unfolding w_def by (subst send_window(1)[OF assms(1)], use assms in \<open>simp add: same_panel_def\<close>)+
  have v: "memory v = memory p" "same_panel v p" "\<not> in_reset v" "madctl v = 0xA8"
    "win_sc v = word_of_int (m * CELL_H)" "win_ec v = word_of_int (m * CELL_H + 15)"
    "win_sp v = word_of_int (c * CELL_W)" "win_ep v = word_of_int (c * CELL_W + 11)"
    unfolding v_def by (subst send_window(2)[OF w(3)], use w in \<open>simp add: same_panel_def\<close>)+
  have u: "pen_at m c 0 0 u" "memory u = memory p" "same_panel u p"
    using v by (simp_all add: u_def ili9341_command_def pen_at_def same_panel_def)
  have "draw_cell m c cl p = fold (\<lambda>x. fold (\<lambda>y. send_word (cell_pixel cl x y)) [0..CELL_H - 1]) [0..CELL_W - 1] u"
    unfolding draw_cell_def Let_def u_def v_def w_def ..
  with send_columns[OF u(1) assms(3-6), of 12 "cell_pixel cl"] u(2,3) show ?thesis
    by (auto simp: cell_area_def fun_eq_iff intro: same_panel_trans)
qed

section \<open>The hardware scroll\<close>

definition scroll_sent_ok :: "fpga_text_render \<Rightarrow> bool" where
  "scroll_sent_ok r \<longleftrightarrow> 0 \<le> sent_top r \<and> sent_top r < sent_bottom r \<and> sent_bottom r < TEXT_ROWS \<and>
     0 \<le> sent_offset r \<and> sent_offset r \<le> sent_bottom r - sent_top r"

definition scroll_regs_ok :: "fpga_text_render \<Rightarrow> ili9341 \<Rightarrow> bool" where
  "scroll_regs_ok r p \<longleftrightarrow>
     uint (scr_tfa p) = (TEXT_ROWS - 1 - sent_bottom r) * CELL_H \<and>
     uint (scr_vsa p) = (sent_bottom r - sent_top r + 1) * CELL_H \<and>
     uint (scr_ssa p) = (TEXT_ROWS - 1 - sent_bottom r) * CELL_H + sent_offset r * CELL_H"

lemma scroll_byte:
  "\<not> in_reset p \<Longrightarrow> lcd_command p = VSCRDEF \<Longrightarrow> n_params p < 5 \<Longrightarrow>
    ili9341_data d p = p\<lparr>params := (params p)(n_params p := d), n_params := n_params p + 1\<rparr>"
  by (simp add: ili9341_data_def parameters_def)

lemma scroll_areas:
  assumes "\<not> in_reset p" "lcd_command p = VSCRDEF" "n_params p = 5"
    and "w = (\<lambda>i. be_word (((params p)(5 := d)) i) (((params p)(5 := d)) (i + 1)))"
    and "uint (w 0) + uint (w 2) + uint (w 4) = 320"
  shows "ili9341_data d p = p\<lparr>params := (params p)(5 := d), n_params := 6, scr_tfa := w 0, scr_vsa := w 2,
    scr_bfa := w 4\<rparr>"
  using assms by (simp add: ili9341_data_def parameters_def Let_def)

lemma send_areas:
  assumes "\<not> in_reset p"
    and "uint (word_of_int a :: u16) + uint (word_of_int b :: u16) + uint (word_of_int d :: u16) = 320"
  shows "\<exists>f. send_words VSCRDEF [a, b, d] p = p\<lparr>lcd_command := VSCRDEF, n_params := 6, have_high := False,
    params := f, scr_tfa := word_of_int a, scr_vsa := word_of_int b, scr_bfa := word_of_int d\<rparr>"
proof -
  define u where "u = p\<lparr>lcd_command := VSCRDEF, have_high := False, params := (params p)
    (0 := word_of_int (drop_bit 8 a), 1 := word_of_int a, 2 := word_of_int (drop_bit 8 b), 3 := word_of_int b,
     4 := word_of_int (drop_bit 8 d)), n_params := 5\<rparr>"
  have "ili9341_command VSCRDEF p = p\<lparr>lcd_command := VSCRDEF, n_params := 0, have_high := False\<rparr>"
    using assms(1) by (simp add: ili9341_command_def)
  then have five: "send_words VSCRDEF [a, b, d] p = ili9341_data (word_of_int d) u"
    using assms(1)
    by (simp add: send_words_def send_word_def scroll_byte u_def eval_nat_numeral del: fun_upd_apply)
  have "ili9341_data (word_of_int d) u = u\<lparr>params := (params u)(5 := word_of_int d), n_params := 6,
      scr_tfa := word_of_int a, scr_vsa := word_of_int b, scr_bfa := word_of_int d\<rparr>"
    by (subst scroll_areas[OF _ _ _ refl]) (use assms in \<open>simp_all add: u_def\<close>)
  moreover have "\<dots> = p\<lparr>lcd_command := VSCRDEF, n_params := 6, have_high := False,
      params := (params u)(5 := word_of_int d), scr_tfa := word_of_int a, scr_vsa := word_of_int b,
      scr_bfa := word_of_int d\<rparr>"
    by (simp add: u_def)
  ultimately show ?thesis unfolding five by metis
qed

lemma start_byte:
  assumes "\<not> in_reset p" "lcd_command p = VSCRSADD"
  shows "n_params p = 0 \<Longrightarrow> ili9341_data d p = p\<lparr>params := (params p)(0 := d), n_params := 1\<rparr>"
    "n_params p = 1 \<Longrightarrow> ili9341_data d p =
      p\<lparr>params := (params p)(1 := d), n_params := 2, scr_ssa := be_word (params p 0) d\<rparr>"
  using assms by (simp_all add: ili9341_data_def parameters_def Let_def)

lemma send_start:
  assumes "\<not> in_reset p"
  shows "\<exists>f. send_words VSCRSADD [a] p = p\<lparr>lcd_command := VSCRSADD, n_params := 2, have_high := False,
    params := f, scr_ssa := word_of_int a\<rparr>"
proof -
  define u where "u = p\<lparr>lcd_command := VSCRSADD, n_params := 0, have_high := False\<rparr>"
  define v where "v = u\<lparr>params := (params u)(0 := word_of_int (drop_bit 8 a)), n_params := 1\<rparr>"
  have u: "\<not> in_reset u" "lcd_command u = VSCRSADD" "n_params u = 0" using assms by (simp_all add: u_def)
  have v: "\<not> in_reset v" "lcd_command v = VSCRSADD" "n_params v = 1" "params v 0 = word_of_int (drop_bit 8 a)"
    using u by (simp_all add: v_def)
  have "send_words VSCRSADD [a] p = ili9341_data (word_of_int a) (ili9341_data (word_of_int (drop_bit 8 a)) u)"
    using assms by (simp add: send_words_def send_word_def ili9341_command_def u_def)
  also have "ili9341_data (word_of_int (drop_bit 8 a)) u = v"
    unfolding v_def by (rule start_byte(1)[OF u])
  also have "ili9341_data (word_of_int a) v = v\<lparr>params := (params v)(1 := word_of_int a), n_params := 2,
      scr_ssa := word_of_int a\<rparr>"
    using start_byte(2)[OF v(1-3), of "word_of_int a"] by (simp add: v(4))
  also have "\<dots> = p\<lparr>lcd_command := VSCRSADD, n_params := 2, have_high := False,
      params := (params v)(1 := word_of_int a), scr_ssa := word_of_int a\<rparr>"
    by (simp add: u_def v_def)
  finally show ?thesis by blast
qed

lemma send_scroll_effect:
  assumes "\<not> in_reset p" "scroll_sent_ok r"
  shows "scroll_regs_ok r (send_scroll r p) \<and> memory (send_scroll r p) = memory p \<and>
    same_panel (send_scroll r p\<lparr>scr_tfa := scr_tfa p, scr_vsa := scr_vsa p, scr_bfa := scr_bfa p,
      scr_ssa := scr_ssa p\<rparr>) p"
proof -
  define tfa where "tfa = (TEXT_ROWS - 1 - sent_bottom r) * CELL_H"
  define vsa where "vsa = (sent_bottom r - sent_top r + 1) * CELL_H"
  define bfa where "bfa = sent_top r * CELL_H"
  define ssa where "ssa = tfa + sent_offset r * CELL_H"
  have u: "uint (word_of_int tfa :: u16) = tfa" "uint (word_of_int vsa :: u16) = vsa"
    "uint (word_of_int bfa :: u16) = bfa" "uint (word_of_int ssa :: u16) = ssa"
    using assms(2) by (simp_all add: tfa_def vsa_def bfa_def ssa_def uint_small scroll_sent_ok_def
        del: of_int_add of_int_mult of_int_diff)
  have "tfa + vsa + bfa = 320" by (simp add: tfa_def vsa_def bfa_def)
  with u have "uint (word_of_int tfa :: u16) + uint (word_of_int vsa :: u16) + uint (word_of_int bfa :: u16) = 320"
    by simp
  from send_areas[OF assms(1) this] obtain f where
    f: "send_words VSCRDEF [tfa, vsa, bfa] p = p\<lparr>lcd_command := VSCRDEF, n_params := 6, have_high := False,
      params := f, scr_tfa := word_of_int tfa, scr_vsa := word_of_int vsa, scr_bfa := word_of_int bfa\<rparr>" ..
  define q where "q = send_words VSCRDEF [tfa, vsa, bfa] p"
  have "\<not> in_reset q" unfolding q_def f using assms(1) by simp
  from send_start[OF this] obtain g where
    g: "send_words VSCRSADD [ssa] q = q\<lparr>lcd_command := VSCRSADD, n_params := 2, have_high := False,
      params := g, scr_ssa := word_of_int ssa\<rparr>" by blast
  have eq: "send_scroll r p = send_words VSCRSADD [ssa] q"
    unfolding send_scroll_def Let_def q_def tfa_def vsa_def bfa_def ssa_def ..
  have s: "send_scroll r p = p\<lparr>lcd_command := VSCRSADD, n_params := 2, have_high := False,
      params := g, scr_tfa := word_of_int tfa, scr_vsa := word_of_int vsa, scr_bfa := word_of_int bfa,
      scr_ssa := word_of_int ssa\<rparr>"
    by (simp only: eq g) (simp add: q_def f)
  show ?thesis
    unfolding s by (simp add: scroll_regs_ok_def same_panel_def u) (simp add: tfa_def vsa_def ssa_def)
qed

lemma memory_row_range:
  assumes "scroll_sent_ok r" "0 \<le> row" "row < TEXT_ROWS"
  shows "0 \<le> memory_row r row \<and> memory_row r row < TEXT_ROWS"
proof -
  define z where "z = (sent_offset r + sent_bottom r - row) mod (sent_bottom r - sent_top r + 1)"
  have "0 < sent_bottom r - sent_top r + 1" using assms(1) by (simp add: scroll_sent_ok_def)
  from pos_mod_bound[OF this] pos_mod_sign[OF this] have "0 \<le> z" "z < sent_bottom r - sent_top r + 1"
    unfolding z_def by blast+
  then show ?thesis using assms by (simp add: memory_row_def z_def[symmetric] scroll_sent_ok_def)
qed

lemma scaled_mod:
  fixes a b h :: int
  assumes "0 < h" "0 \<le> b" "b < CELL_H"
  shows "(CELL_H * a + b) mod (CELL_H * h) = CELL_H * (a mod h) + b"
proof -
  have "0 \<le> CELL_H * (a mod h) + b" "CELL_H * (a mod h) + b < CELL_H * h"
    using assms(2,3) pos_mod_bound[OF assms(1), of a] pos_mod_sign[OF assms(1), of a] by linarith+
  moreover have "CELL_H * a + b = (CELL_H * (a mod h) + b) + (CELL_H * h) * (a div h)"
  proof -
    define u q where "u = a mod h" and "q = a div h"
    have "a = u + h * q" by (simp add: u_def q_def)
    then show ?thesis unfolding u_def[symmetric] q_def[symmetric] by (simp add: algebra_simps)
  qed
  ultimately show ?thesis by (simp only: mod_mult_self2 mod_pos_pos_trivial)
qed

text \<open>The glass shows row \<open>row\<close> of the grid from the memory row the renderer draws it in.\<close>

lemma glass_line_row:
  assumes "scroll_sent_ok r" "scroll_regs_ok r p" "scan p AND ILI9341_GS \<noteq> 0"
    and "0 \<le> row" "row < TEXT_ROWS" "0 \<le> y" "y < CELL_H"
  shows "ili9341_glass_line p (row * CELL_H + y) = 319 - (memory_row r row * CELL_H + y)"
proof -
  let ?tfa = "(TEXT_ROWS - 1 - sent_bottom r) * CELL_H" and ?h = "sent_bottom r - sent_top r + 1"
  let ?k = "ILI9341_LINES - 1 - (row * CELL_H + y)"
  have h: "0 < ?h" using assms(1) by (simp add: scroll_sent_ok_def)
  then have "0 < ?h * CELL_H" by simp
  note c = smod_corrected[OF this]
  have regs: "uint (scr_tfa p) = ?tfa" "uint (scr_vsa p) = ?h * CELL_H"
    "uint (scr_ssa p) = ?tfa + sent_offset r * CELL_H"
    using assms(2) by (simp_all only: scroll_regs_ok_def)
  have g: "ili9341_glass_line p (row * CELL_H + y) =
      (if ?k < ?tfa \<or> ?k \<ge> ?tfa + ?h * CELL_H then ?k
       else ?tfa + (?tfa + sent_offset r * CELL_H - ?tfa + ?k - ?tfa) mod (?h * CELL_H))"
    by (simp only: ili9341_glass_line_def Let_def regs assms(3) if_True not_False_eq_True c)
  show ?thesis
  proof (cases "row < sent_top r \<or> row > sent_bottom r")
    case True
    then have "?k < ?tfa \<or> ?k \<ge> ?tfa + ?h * CELL_H" using assms(6,7) by (auto simp: algebra_simps)
    then show ?thesis using True by (simp add: g memory_row_def)
  next
    case False
    then have "\<not> (?k < ?tfa \<or> ?k \<ge> ?tfa + ?h * CELL_H)" using assms(6,7) by (auto simp: algebra_simps)
    moreover have "?tfa + sent_offset r * CELL_H - ?tfa + ?k - ?tfa = CELL_H * (sent_offset r + sent_bottom r - row) + (15 - y)"
      by (simp add: algebra_simps)
    moreover have "(CELL_H * (sent_offset r + sent_bottom r - row) + (15 - y)) mod (?h * CELL_H) =
        CELL_H * ((sent_offset r + sent_bottom r - row) mod ?h) + (15 - y)"
      using scaled_mod[OF h, of "15 - y" "sent_offset r + sent_bottom r - row"] assms(6,7)
      by (simp only: mult.commute[of ?h])
    ultimately have "ili9341_glass_line p (row * CELL_H + y) =
        ?tfa + (CELL_H * ((sent_offset r + sent_bottom r - row) mod ?h) + (15 - y))"
      by (simp only: g if_False)
    then show ?thesis using False by (simp add: memory_row_def algebra_simps)
  qed
qed

lemma memory_row_inj:
  assumes "scroll_sent_ok r" "memory_row r a = memory_row r b"
  shows "a = b"
proof -
  let ?h = "sent_bottom r - sent_top r + 1"
  define f where "f x = (sent_offset r + sent_bottom r - x) mod ?h" for x
  have row: "memory_row r x = (if x < sent_top r \<or> x > sent_bottom r then x else sent_bottom r - f x)" for x
    by (simp add: memory_row_def f_def)
  have h: "0 < ?h" using assms(1) by (simp add: scroll_sent_ok_def)
  have in_region: "sent_top r \<le> sent_bottom r - f x" "sent_bottom r - f x \<le> sent_bottom r" for x
    unfolding f_def using pos_mod_bound[OF h, of "sent_offset r + sent_bottom r - x"]
      pos_mod_sign[OF h, of "sent_offset r + sent_bottom r - x"] by linarith+
  consider "sent_top r \<le> a" "a \<le> sent_bottom r" "sent_top r \<le> b" "b \<le> sent_bottom r" |
    "a < sent_top r \<or> sent_bottom r < a" | "b < sent_top r \<or> sent_bottom r < b" by linarith
  then show ?thesis
  proof cases
    case 1
    then have "f a = f b" using assms(2) by (simp add: row)
    then have "(sent_offset r + sent_bottom r - a) mod ?h = (sent_offset r + sent_bottom r - b) mod ?h"
      by (simp only: f_def)
    then have "?h dvd (sent_offset r + sent_bottom r - a) - (sent_offset r + sent_bottom r - b)"
      by (rule mod_eq_dvd_iff[THEN iffD1])
    then have "?h dvd b - a" by simp
    then show ?thesis using 1 zdvd_not_zless[of "b - a" ?h] zdvd_not_zless[of "a - b" ?h]
      by (metis dvd_minus_iff minus_diff_eq diff_gt_0_iff_gt linorder_neqE_linordered_idom
          add_increasing2 diff_mono zle_add1_eq_le zero_le_one)
  next
    case 2
    then show ?thesis using in_region[of b] assms(2) by (auto simp: row split: if_splits)
  next
    case 3
    then show ?thesis using in_region[of a] assms(2) by (auto simp: row split: if_splits)
  qed
qed

section \<open>What the memory holds\<close>

definition shows_cell :: "ili9341 \<Rightarrow> int \<Rightarrow> int \<Rightarrow> int \<Rightarrow> bool" where
  "shows_cell p m c cl \<longleftrightarrow> (\<forall>x y. 0 \<le> x \<and> x < CELL_W \<and> 0 \<le> y \<and> y < CELL_H \<longrightarrow>
     memory p (319 - (m * CELL_H + y)) (c * CELL_W + x) = word_of_int (cell_pixel cl x y))"

text \<open>What the renderer remembers is true of the display.\<close>

definition render_inv :: "fpga_text_render \<Rightarrow> ili9341 \<Rightarrow> bool" where
  "render_inv r p \<longleftrightarrow> (set_up r \<longrightarrow> madctl p = 0xA8) \<and>
     (sent_scroll r \<longrightarrow> scroll_sent_ok r \<and> scroll_regs_ok r p) \<and>
     (\<forall>m c. 0 \<le> m \<and> m < TEXT_ROWS \<and> 0 \<le> c \<and> c < TEXT_COLS \<and> drawn r m c \<noteq> -1 \<longrightarrow>
        shows_cell p m c (drawn r m c))"

text \<open>Drawing is under way: set up, with the scroll sent.\<close>

definition drawing :: "fpga_text_render \<Rightarrow> ili9341 \<Rightarrow> bool" where
  "drawing r p \<longleftrightarrow> render_inv r p \<and> set_up r \<and> sent_scroll r \<and> \<not> in_reset p"

lemma cell_code_known: "cell_code t s row c \<noteq> -1"
proof -
  have "0 \<le> cell_code t s row c" by (simp add: cell_code_def)
  then show ?thesis by linarith
qed

definition same_sent :: "fpga_text_render \<Rightarrow> fpga_text_render \<Rightarrow> bool" where
  "same_sent r r' \<longleftrightarrow> set_up r = set_up r' \<and> sent_scroll r = sent_scroll r' \<and> sent_top r = sent_top r' \<and>
     sent_bottom r = sent_bottom r' \<and> sent_offset r = sent_offset r' \<and> blink_on r = blink_on r'"

lemma draw_at_step:
  assumes "drawing r p" "in_grid row c" "draw_at t s row c (r, p) = (r', p')"
  shows "drawing r' p' \<and> same_panel p' p \<and> same_sent r' r \<and>
    drawn r' = (\<lambda>m k. if m = memory_row r row \<and> k = c then cell_code t s row c else drawn r m k)"
proof -
  define m where "m = memory_row r row"
  define cl where "cl = cell_code t s row c"
  have d: "scroll_sent_ok r" "scroll_regs_ok r p" "madctl p = 0xA8" "\<not> in_reset p" "set_up r" "sent_scroll r"
    and cells: "0 \<le> m' \<Longrightarrow> m' < TEXT_ROWS \<Longrightarrow> 0 \<le> c' \<Longrightarrow> c' < TEXT_COLS \<Longrightarrow> drawn r m' c' \<noteq> -1 \<Longrightarrow>
        shows_cell p m' c' (drawn r m' c')" for m' c'
    using assms(1) by (auto simp: drawing_def render_inv_def)
  have m: "0 \<le> m" "m < 20" and c: "0 \<le> c" "c < 20"
    using memory_row_range[OF d(1), of row] assms(2) by (auto simp: m_def in_grid_def)
  show ?thesis
  proof (cases "drawn r m c = cl")
    case True
    then have "r' = r" "p' = p" using assms(3) by (simp_all add: draw_at_def Let_def m_def cl_def)
    then show ?thesis using assms(1) True
      by (simp add: same_panel_def same_sent_def fun_eq_iff m_def[symmetric] cl_def[symmetric])
  next
    case False
    then have r': "r' = r\<lparr>drawn := (drawn r)(m := (drawn r m)(c := cl))\<rparr>" and p': "p' = draw_cell m c cl p"
      using assms(3) by (auto simp: draw_at_def Let_def m_def cl_def)
    have mem: "memory p' = (\<lambda>l xx. if cell_area m c l xx
        then word_of_int (cell_pixel cl (xx - c * CELL_W) (319 - m * CELL_H - l)) else memory p l xx)"
      and same: "same_panel p' p"
      using draw_cell_memory[OF d(4,3) m c, of cl] by (simp_all add: p')
    have "shows_cell p' m' c' (drawn r' m' c')"
      if "0 \<le> m'" "m' < TEXT_ROWS" "0 \<le> c'" "c' < TEXT_COLS" "drawn r' m' c' \<noteq> -1" for m' c'
    proof (cases "m' = m \<and> c' = c")
      case True
      then show ?thesis by (auto simp: shows_cell_def mem cell_area_def r')
    next
      case False
      then have old: "drawn r' m' c' = drawn r m' c'" by (auto simp: r')
      have "\<not> cell_area m c (319 - (m' * CELL_H + y)) (c' * CELL_W + x)"
        if "0 \<le> x" "x < CELL_W" "0 \<le> y" "y < CELL_H" for x y
        using that False by (auto simp: cell_area_def)
      then show ?thesis using cells[OF \<open>0 \<le> m'\<close> \<open>m' < TEXT_ROWS\<close> \<open>0 \<le> c'\<close> \<open>c' < TEXT_COLS\<close>] that(5)
        by (auto simp: shows_cell_def mem old)
    qed
    moreover have "scroll_regs_ok r' p'" "scroll_sent_ok r'" "madctl p' = 0xA8" "\<not> in_reset p'"
      using d same by (simp_all add: scroll_regs_ok_def scroll_sent_ok_def r' same_panel_def)
    ultimately have "drawing r' p'"
      using d by (simp add: drawing_def render_inv_def) (simp add: r')
    then show ?thesis using same
      by (auto simp: r' same_sent_def fun_eq_iff m_def[symmetric] cl_def[symmetric])
  qed
qed

lemma fold_product: "fold (\<lambda>x. fold (f x) ys) xs s = fold (\<lambda>(x, y). f x y) (List.product xs ys) s"
  by (induction xs arbitrary: s) (simp_all add: fold_map comp_def)

lemma draw_cells:
  assumes "drawing r p" "\<forall>(row, c) \<in> set cells. in_grid row c"
    and "fold (\<lambda>(row, c). draw_at t s row c) cells (r, p) = (r', p')"
  shows "drawing r' p' \<and> same_panel p' p \<and> same_sent r' r \<and>
    (\<forall>(row, c) \<in> set cells. drawn r' (memory_row r row) c = cell_code t s row c)"
  using assms(2,3)
proof (induction cells arbitrary: r' p' rule: rev_induct)
  case Nil
  then show ?case using assms(1) by (simp add: same_panel_def same_sent_def)
next
  case (snoc x cells)
  obtain row c where x: "x = (row, c)" by fastforce
  obtain r1 p1 where one: "fold (\<lambda>(row, c). draw_at t s row c) cells (r, p) = (r1, p1)" by fastforce
  from snoc.IH[OF _ one] snoc.prems(1) have a: "drawing r1 p1" "same_panel p1 p" "same_sent r1 r"
    "\<forall>(row, c) \<in> set cells. drawn r1 (memory_row r row) c = cell_code t s row c" by auto
  have mr: "memory_row r1 = memory_row r"
    using a(3) by (simp add: memory_row_def same_sent_def fun_eq_iff)
  have ok: "scroll_sent_ok r" using a(1,3) by (simp add: drawing_def render_inv_def scroll_sent_ok_def same_sent_def)
  have "draw_at t s row c (r1, p1) = (r', p')" using snoc.prems(2) one by (simp add: x)
  from draw_at_step[OF a(1) _ this] snoc.prems(1) have b: "drawing r' p'" "same_panel p' p1" "same_sent r' r1"
    "drawn r' = (\<lambda>m k. if m = memory_row r row \<and> k = c then cell_code t s row c else drawn r1 m k)"
    by (auto simp: x mr)
  have "drawn r' (memory_row r row') c' = cell_code t s row' c'" if "(row', c') \<in> set (cells @ [x])" for row' c'
    using that a(4) memory_row_inj[OF ok, of row' row] by (auto simp: b(4) x)
  then have "\<forall>(row, c) \<in> set (cells @ [x]). drawn r' (memory_row r row) c = cell_code t s row c" by blast
  moreover have "same_sent r' r" using a(3) b(3) by (simp add: same_sent_def)
  ultimately show ?case using b(1) same_panel_trans[OF b(2) a(2)] by blast
qed

lemma setup_effect:
  assumes "render_inv r p" "\<not> in_reset p" "text_ok t" "render_setup t (r, p) = (r', p')"
  shows "drawing r' p' \<and> sent_top r' = region_top t \<and> sent_bottom r' = region_bottom t \<and>
    sent_offset r' = scroll_offset t \<and> scan p' = scan p \<and> sleeping p' = sleeping p \<and>
    display_on p' = display_on p \<and> in_reset p' = in_reset p"
proof -
  define r1 where "r1 = r\<lparr>set_up := True\<rparr>"
  define p1 where "p1 = (if set_up r then p else ili9341_data 0xA8 (ili9341_command MADCTL p))"
  have p1: "memory p1 = memory p" "madctl p1 = 0xA8" "in_reset p1 = in_reset p" "scan p1 = scan p"
    "sleeping p1 = sleeping p" "display_on p1 = display_on p" "scr_tfa p1 = scr_tfa p"
    "scr_vsa p1 = scr_vsa p" "scr_ssa p1 = scr_ssa p"
    using assms(1,2) by (simp_all add: p1_def ili9341_command_def ili9341_data_def parameters_def render_inv_def)
  have r1: "render_inv r1 p1"
    using assms(1) p1 by (simp add: render_inv_def r1_def scroll_sent_ok_def scroll_regs_ok_def shows_cell_def)
  have r1r: "r1 = r" if "set_up r" using that by (simp add: r1_def)
  have eqn: "render_setup t (r, p) = (if \<not> sent_scroll r1 \<or> region_top t \<noteq> sent_top r1 \<or>
        region_bottom t \<noteq> sent_bottom r1 \<or> scroll_offset t \<noteq> sent_offset r1
      then (r1\<lparr>sent_top := region_top t, sent_bottom := region_bottom t, sent_offset := scroll_offset t,
          sent_scroll := True\<rparr>,
        send_scroll (r1\<lparr>sent_top := region_top t, sent_bottom := region_bottom t,
          sent_offset := scroll_offset t, sent_scroll := True\<rparr>) p1)
      else (r1, p1))"
    by (cases "set_up r") (simp_all add: render_setup_def Let_def p1_def r1r, simp_all add: r1_def)
  show ?thesis
  proof (cases "\<not> sent_scroll r1 \<or> region_top t \<noteq> sent_top r1 \<or>
      region_bottom t \<noteq> sent_bottom r1 \<or> scroll_offset t \<noteq> sent_offset r1")
    case True
    define r2 where "r2 = r1\<lparr>sent_top := region_top t, sent_bottom := region_bottom t,
      sent_offset := scroll_offset t, sent_scroll := True\<rparr>"
    have e: "r' = r2" "p' = send_scroll r2 p1" using assms(4) True by (auto simp: eqn r2_def)
    have ok: "scroll_sent_ok r2" using assms(3) by (auto simp: r2_def scroll_sent_ok_def text_ok_def)
    have "\<not> in_reset p1" using p1 assms(2) by simp
    note s = send_scroll_effect[OF this ok]
    have f: "scroll_regs_ok r2 p'" "memory p' = memory p1" "in_reset p' = in_reset p1" "madctl p' = madctl p1"
      "scan p' = scan p1" "sleeping p' = sleeping p1" "display_on p' = display_on p1"
      using s by (simp_all add: e same_panel_def)
    then have "drawing r' p'"
      using r1 ok assms(2) p1 by (simp add: drawing_def render_inv_def e(1) shows_cell_def) (simp add: r2_def r1_def)
    then show ?thesis using f p1 by (simp add: e(1)) (simp add: r2_def)
  next
    case False
    then have e: "r' = r1" "p' = p1" using assms(4) by (auto simp: eqn)
    then show ?thesis using False r1 p1 assms(2) by (simp add: drawing_def) (simp add: r1_def)
  qed
qed

text \<open>A pixel of a cell, from the font, the reverse video and the cursor.\<close>

lemma cell_pixel_meaning:
  assumes "0 \<le> y" "y < CELL_H"
  shows "word_of_int (cell_pixel (cell_code t s row c) x y) =
    (if bit (font_12x16 ! unat (chars t row c) ! nat x) (nat y) \<noteq>
        (reverse_cells t row c \<noteq> (s \<and> row = text_row t \<and> c = text_col t \<and> 14 \<le> y)) then 0xFFFF else 0 :: u16)"
proof -
  let ?u = "uint (chars t row c)"
  have low: "?u AND 0xFF = ?u"
    using take_bit_int_eq_self[of ?u 8] uint_bounded[of "chars t row c"]
    by (simp add: take_bit_eq_mask mask_numeral)
  have z: "?u AND 0x100 = 0" "?u AND 0x200 = 0"
  proof -
    have "?u AND k = 0" if "0xFF AND k = (0 :: int)" for k
    proof -
      have "?u AND k = (?u AND 0xFF) AND k" by (simp only: low)
      also have "\<dots> = ?u AND (0xFF AND k)" by (rule and.assoc)
      finally show ?thesis using that by simp
    qed
    then show "?u AND 0x100 = 0" "?u AND 0x200 = 0" by simp_all
  qed
  have code: "cell_code t s row c AND 0xFF = ?u"
    "cell_code t s row c AND CELL_REVERSE \<noteq> 0 \<longleftrightarrow> reverse_cells t row c"
    "cell_code t s row c AND CELL_CURSOR \<noteq> 0 \<longleftrightarrow> s \<and> row = text_row t \<and> c = text_col t"
    by (simp_all add: cell_code_def bit.conj_disj_distrib2 low z)
  have top: "bit (push_bit 14 0xFFFF :: u16) (nat y) \<longleftrightarrow> 14 \<le> y" and all: "bit (0xFFFF :: u16) (nat y)"
  proof -
    have n: "nat y < 16" using assms by simp
    have ones: "(0xFFFF :: u16) = - 1" by simp
    show "bit (0xFFFF :: u16) (nat y)" unfolding ones using n by simp
    show "bit (push_bit 14 0xFFFF :: u16) (nat y) \<longleftrightarrow> 14 \<le> y"
      using n by (simp only: bit_push_bit_iff ones) auto
  qed
  have pix: "bit (cell_column (cell_code t s row c) x) (nat y) \<longleftrightarrow>
      bit (font_12x16 ! unat (chars t row c) ! nat x) (nat y) \<noteq>
        (reverse_cells t row c \<noteq> (s \<and> row = text_row t \<and> c = text_col t \<and> 14 \<le> y))"
    unfolding cell_column_def code nat_uint_eq
    by (cases "reverse_cells t row c"; cases "s \<and> row = text_row t \<and> c = text_col t")
      (simp_all only: bit_xor_iff top all if_True if_False simp_thms bit_0_eq bot_apply bot_bool_def, auto)
  show ?thesis
    unfolding cell_pixel_def pix by (simp only: if_distrib[of word_of_int] of_int_numeral of_int_0)
qed

lemma blink_frame:
  "drawing (blink t now_us r) p = drawing r p"
  "sent_top (blink t now_us r) = sent_top r" "sent_bottom (blink t now_us r) = sent_bottom r"
  "sent_offset (blink t now_us r) = sent_offset r"
proof -
  have f: "drawn (blink t now_us r) = drawn r" "set_up (blink t now_us r) = set_up r"
    "sent_scroll (blink t now_us r) = sent_scroll r" "sent_top (blink t now_us r) = sent_top r"
    "sent_bottom (blink t now_us r) = sent_bottom r" "sent_offset (blink t now_us r) = sent_offset r"
    by (simp_all add: blink_def Let_def)
  then show "drawing (blink t now_us r) p = drawing r p"
    by (simp add: drawing_def render_inv_def scroll_sent_ok_def scroll_regs_ok_def)
  show "sent_top (blink t now_us r) = sent_top r" "sent_bottom (blink t now_us r) = sent_bottom r"
    "sent_offset (blink t now_us r) = sent_offset r" by (simp_all only: f)
qed

section \<open>The picture\<close>

lemma draw_effect:
  assumes "text_ok t" "render_inv r p" "\<not> in_reset p"
    and "fpga_text_render_draw t now_us (r, p) = (r', p')"
  shows "drawing r' p' \<and> scan p' = scan p \<and> sleeping p' = sleeping p \<and> display_on p' = display_on p \<and>
    (\<forall>row c. in_grid row c \<longrightarrow> shows_cell p' (memory_row r' row) c
      (cell_code t (text_cursor t \<and> text_col t < TEXT_COLS \<and> blink_on r') row c))"
proof -
  obtain r1 p1 where one: "render_setup t (r, p) = (r1, p1)" by fastforce
  define r2 where "r2 = blink t now_us r1"
  define s where "s = (text_cursor t \<and> text_col t < TEXT_COLS \<and> blink_on r2)"
  let ?cells = "List.product [0..TEXT_ROWS - 1] [0..TEXT_COLS - 1]"
  have run: "fold (\<lambda>(row, c). draw_at t s row c) ?cells (r2, p1) = (r', p')"
    using assms(4) one by (simp add: fpga_text_render_draw_def Let_def r2_def[symmetric] s_def[symmetric] fold_product)
  note su = setup_effect[OF assms(2,3,1) one]
  have "drawing r2 p1" using su by (simp add: r2_def blink_frame(1))
  moreover have "\<forall>(row, c) \<in> set ?cells. in_grid row c" by (auto simp: in_grid_def)
  ultimately have d: "drawing r' p'" "same_panel p' p1" "same_sent r' r2"
    "\<forall>(row, c) \<in> set ?cells. drawn r' (memory_row r2 row) c = cell_code t s row c"
    using draw_cells[OF _ _ run] by blast+
  have mr: "memory_row r2 = memory_row r'" using d(3) by (simp add: memory_row_def same_sent_def fun_eq_iff)
  have ok: "scroll_sent_ok r'" using d(1) by (simp add: drawing_def render_inv_def)
  have s: "s = (text_cursor t \<and> text_col t < TEXT_COLS \<and> blink_on r')"
    using d(3) by (simp add: s_def same_sent_def)
  have "shows_cell p' (memory_row r' row) c (cell_code t s row c)" if g: "in_grid row c" for row c
  proof -
    have "shows_cell p' m k (drawn r' m k)"
      if "0 \<le> m \<and> m < TEXT_ROWS \<and> 0 \<le> k \<and> k < TEXT_COLS \<and> drawn r' m k \<noteq> -1" for m k
      using d(1) that by (simp add: drawing_def render_inv_def)
    moreover have "(row, c) \<in> set ?cells" using g by (simp add: in_grid_def)
    with d(4) mr have "drawn r' (memory_row r' row) c = cell_code t s row c" by auto
    ultimately show ?thesis
      using g memory_row_range[OF ok, of row] cell_code_known[of t s row c] by (metis in_grid_def)
  qed
  then show ?thesis using d(1,2) su by (simp add: s same_panel_def)
qed

text \<open>
  After a drawing each of the sixteen by twelve pixels of each cell on the glass is the font's for
  the character in the grid, wherever the hardware scroll has moved the picture.
\<close>

lemma glass_after_draw:
  assumes "text_ok t" "render_inv r p"
    and "ili9341_showing p" "scan p AND ILI9341_GS \<noteq> 0" "scan p AND ILI9341_SS \<noteq> 0"
    and "fpga_text_render_draw t now_us (r, p) = (r', p')"
    and "in_grid row c" "0 \<le> x" "x < CELL_W" "0 \<le> y" "y < CELL_H"
  shows "ili9341_glass_pixel p' (c * CELL_W + x) (row * CELL_H + y) =
      (if bit (font_12x16 ! unat (chars t row c) ! nat x) (nat y) \<noteq>
          (reverse_cells t row c \<noteq> ((text_cursor t \<and> text_col t < TEXT_COLS \<and> blink_on r') \<and>
            row = text_row t \<and> c = text_col t \<and> 14 \<le> y)) then 0xFFFF else 0)"
proof -
  let ?s = "text_cursor t \<and> text_col t < TEXT_COLS \<and> blink_on r'"
  have "\<not> in_reset p" using assms(3) by (simp add: ili9341_showing_def)
  note d = draw_effect[OF assms(1,2) this assms(6)]
  have ok: "scroll_sent_ok r'" "scroll_regs_ok r' p'" using d by (simp_all add: drawing_def render_inv_def)
  have p': "ili9341_showing p'" "scan p' = scan p"
    using d assms(3) by (simp_all add: drawing_def ili9341_showing_def)
  have g: "0 \<le> row" "row < TEXT_ROWS" using assms(7) by (simp_all add: in_grid_def)
  have "memory p' (319 - (memory_row r' row * CELL_H + y)) (c * CELL_W + x) =
      word_of_int (cell_pixel (cell_code t ?s row c) x y)"
    using d assms(7-11) by (simp add: shows_cell_def)
  moreover have "ili9341_glass_pixel p' (c * CELL_W + x) (row * CELL_H + y) =
      memory p' (319 - (memory_row r' row * CELL_H + y)) (c * CELL_W + x)"
    using p' assms(4,5) glass_line_row[OF ok _ g assms(10,11)] by (simp add: ili9341_glass_pixel_def)
  ultimately show ?thesis
    using cell_pixel_meaning[OF assms(10,11), of t ?s row c x] by (simp only:)
qed

text \<open>A controller held in reset takes nothing.\<close>

lemma draw_in_reset:
  assumes "in_reset p"
  shows "snd (fpga_text_render_draw t now_us (r, p)) = p"
proof -
  have w: "ili9341_command c p = p" "ili9341_data d p = p" for c d
    using assms by (simp_all add: ili9341_command_def ili9341_data_def)
  have sw: "send_word k p = p" for k by (simp add: send_word_def w)
  have f: "fold (\<lambda>z. send_word (f z)) zs p = p" "fold send_word ws p = p" for f :: "int \<Rightarrow> int" and zs ws
    by (induction zs, simp_all add: sw) (induction ws, simp_all add: sw)
  have ff: "fold (\<lambda>x. fold (\<lambda>y. send_word (g x y)) ys) xs p = p" for g :: "int \<Rightarrow> int \<Rightarrow> int" and xs ys
    by (induction xs) (simp_all add: f)
  have s: "send_words c ws p = p" for c ws by (simp add: send_words_def w f)
  have dc: "draw_cell m c cl p = p" for m c cl by (simp add: draw_cell_def s w ff)
  have "snd (fold (\<lambda>(row, c). draw_at t v row c) cells (r1, p)) = p" for v cells r1
    by (induction cells arbitrary: r1) (auto simp: draw_at_def Let_def dc)
  moreover have "snd (render_setup t (r, p)) = p"
    by (simp add: render_setup_def Let_def w send_scroll_def s split_beta)
  then obtain r1 where "render_setup t (r, p) = (r1, p)" by (metis prod.collapse)
  ultimately show ?thesis
    by (simp add: fpga_text_render_draw_def Let_def fold_product)
qed

end
