(* ===== verification/Fpga_Bus.thy ===== *)
theory Fpga_Bus imports Fpga_Render Gal_Spi Fifo begin

text \<open>
  The bus between Michael and its FPGA (\<open>src/emulator/chips/fpga_bus.c\<close>): the transfers on the
  VIA's ports, the commands, the reply queue and the status bits, and the network's frames on an
  SPI device. The device and its state are arguments; the log file is not modelled.
\<close>

section \<open>State\<close>

definition FPGA_REPLY_DEPTH :: nat where "FPGA_REPLY_DEPTH = 512"

abbreviation (input) BUS_E :: u8 where "BUS_E \<equiv> 0x04"
abbreviation (input) BUS_SOEB :: u8 where "BUS_SOEB \<equiv> 0x10"
abbreviation (input) BUS_RS :: u8 where "BUS_RS \<equiv> 0x20"
abbreviation (input) BUS_RW :: u8 where "BUS_RW \<equiv> 0x40"
abbreviation (input) F_NOP :: u16 where "F_NOP \<equiv> 0x00"
abbreviation (input) F_ID :: u16 where "F_ID \<equiv> 0x01"
abbreviation (input) F_RESET :: u16 where "F_RESET \<equiv> 0x03"
abbreviation (input) F_ECHO :: u16 where "F_ECHO \<equiv> 0x04"
abbreviation (input) DISP_RESET :: u16 where "DISP_RESET \<equiv> 0x10"
abbreviation (input) DISP_COMMAND :: u16 where "DISP_COMMAND \<equiv> 0x11"
abbreviation (input) DISP_DATA :: u16 where "DISP_DATA \<equiv> 0x12"
abbreviation (input) F_BACKLIGHT :: u16 where "F_BACKLIGHT \<equiv> 0x13"
abbreviation (input) SERIAL_SEND :: u16 where "SERIAL_SEND \<equiv> 0x50"
abbreviation (input) F_TEXT :: u16 where "F_TEXT \<equiv> 0x80"
abbreviation (input) F_LONG :: u16 where "F_LONG \<equiv> 0x100"
abbreviation (input) TEXT_ON :: u16 where "TEXT_ON \<equiv> 0x100"
abbreviation (input) TEXT_OFF :: u16 where "TEXT_OFF \<equiv> 0x101"
abbreviation (input) F_GOTO :: u16 where "F_GOTO \<equiv> 0x102"
abbreviation (input) F_PUT :: u16 where "F_PUT \<equiv> 0x103"
abbreviation (input) F_CLEAR :: u16 where "F_CLEAR \<equiv> 0x104"
abbreviation (input) CLEAR_EOL :: u16 where "CLEAR_EOL \<equiv> 0x105"
abbreviation (input) F_REGION :: u16 where "F_REGION \<equiv> 0x108"
abbreviation (input) REGION_RESET :: u16 where "REGION_RESET \<equiv> 0x109"
abbreviation (input) GEOMETRY :: u16 where "GEOMETRY \<equiv> 0x110"
abbreviation (input) F_NET :: u16 where "F_NET \<equiv> 0x81"
abbreviation (input) NET_OP :: u16 where "NET_OP \<equiv> 0x200"
abbreviation (input) NET_RESET :: u16 where "NET_RESET \<equiv> 0x200"
abbreviation (input) NET_READ :: u16 where "NET_READ \<equiv> 0x201"
abbreviation (input) NET_WRITE :: u16 where "NET_WRITE \<equiv> 0x202"
abbreviation (input) NET_STATUS :: u16 where "NET_STATUS \<equiv> 0x203"
abbreviation (input) ABANDONED :: u8 where "ABANDONED \<equiv> 0x01"
abbreviation (input) UNKNOWN :: u8 where "UNKNOWN \<equiv> 0x02"
abbreviation (input) EXTRA :: u8 where "EXTRA \<equiv> 0x04"
abbreviation (input) UNDERFLOW :: u8 where "UNDERFLOW \<equiv> 0x08"
abbreviation (input) OVERFLOW :: u8 where "OVERFLOW \<equiv> 0x10"
abbreviation (input) NET_ERROR :: u8 where "NET_ERROR \<equiv> 0x20"

record fpga_bus_state =
  e_was :: bool
  transfers :: u32
  fpga_cmd :: u16
  args_left :: u8
  first_arg :: u8
  sticky :: u8
  text_mode :: bool
  reply_buf :: "nat \<Rightarrow> u8"
  reply_head :: nat
  reply_count :: nat
  fpga_absent :: bool
  reading :: bool
  read_rs :: bool
  read_value :: u8
  grid :: fpga_text
  panel :: ili9341
  render :: fpga_text_render
  render_us :: u64
  net_open :: bool
  net_sent :: u8

section \<open>The commands\<close>

definition display_cmd :: "fpga_bus_state \<Rightarrow> u16 \<Rightarrow> bool" where
  "display_cmd s c \<longleftrightarrow> c = F_BACKLIGHT \<or> c = DISP_RESET \<or> \<not> text_mode s \<and> (c = DISP_COMMAND \<or> c = DISP_DATA)"

definition text_cmd :: "u16 \<Rightarrow> bool" where
  "text_cmd c \<longleftrightarrow> c \<ge> TEXT_ON \<and> c < GEOMETRY"

definition net_cmd :: "u16 \<Rightarrow> bool" where
  "net_cmd c \<longleftrightarrow> c \<ge> NET_RESET \<and> c \<le> NET_STATUS"

definition known_cmd :: "fpga_bus_state \<Rightarrow> u16 \<Rightarrow> bool" where
  "known_cmd s c \<longleftrightarrow> c = F_NOP \<or> c = F_ID \<or> c = F_RESET \<or> c = F_ECHO \<or> c = SERIAL_SEND \<or> c = F_TEXT \<or>
     c = GEOMETRY \<or> display_cmd s c \<or> text_cmd c \<or> c = F_NET \<or> net_cmd c"

definition streams :: "u16 \<Rightarrow> bool" where
  "streams c \<longleftrightarrow> c = F_ECHO \<or> c = SERIAL_SEND \<or> c = DISP_COMMAND \<or> c = DISP_DATA \<or> c = F_PUT \<or> c = NET_WRITE"

definition arguments :: "fpga_bus_state \<Rightarrow> u16 \<Rightarrow> u8" where
  "arguments s c =
     (if display_cmd s c then (if c \<noteq> DISP_DATA then 1 else 0)
      else if c = F_TEXT \<or> c = F_NET then 1
      else if c = NET_READ then 4
      else if c = NET_WRITE then 3
      else if net_cmd c then 0
      else if \<not> text_cmd c \<or> c = F_PUT then 0
      else if c = F_GOTO \<or> c = F_REGION then 2
      else if c = TEXT_ON \<or> c = TEXT_OFF \<or> c = F_CLEAR \<or> c = CLEAR_EOL \<or> c = REGION_RESET then 0 else 1)"

definition push_reply :: "u8 \<Rightarrow> fpga_bus_state \<Rightarrow> fpga_bus_state" where
  "push_reply b s =
     (if reply_count s = FPGA_REPLY_DEPTH then s\<lparr>sticky := sticky s OR OVERFLOW\<rparr>
      else s\<lparr>reply_buf := (reply_buf s)((reply_head s + reply_count s) mod FPGA_REPLY_DEPTH := b),
             reply_count := reply_count s + 1\<rparr>)"

definition fpga_bus_render :: "u64 \<Rightarrow> fpga_bus_state \<Rightarrow> fpga_bus_state" where
  "fpga_bus_render now_us s =
     (if \<not> text_mode s then s
      else
        (let (r, p) = fpga_text_render_draw (grid s) now_us (render s, panel s)
         in s\<lparr>render := r, panel := p, render_us := now_us\<rparr>))"

definition grid_op :: "u16 \<Rightarrow> u8 \<Rightarrow> u8 \<Rightarrow> fpga_bus_state \<Rightarrow> fpga_bus_state" where
  "grid_op c a b s = s\<lparr>grid := fpga_text_op (to8 (c AND 0xFF)) a b (grid s)\<rparr>"

text \<open>What a command does to the replies, then to the text mode.\<close>

definition start_replies :: "u16 \<Rightarrow> fpga_bus_state \<Rightarrow> fpga_bus_state" where
  "start_replies c s =
     (let s = (if c = F_ID then push_reply 0x0B (push_reply 2 (push_reply 0x42 (push_reply 0x4D s))) else s);
          s = (if c = NET_STATUS then push_reply 0x00 s else s);
          s = (if c = GEOMETRY then push_reply 20 (push_reply 20 s) else s)
      in if c = F_RESET then s\<lparr>reply_count := 0, sticky := 0\<rparr> else s)"

definition start_text :: "u16 \<Rightarrow> fpga_bus_state \<Rightarrow> fpga_bus_state" where
  "start_text c s =
     (let s = (if c = TEXT_ON then s\<lparr>text_mode := True, render := fpga_text_render_init\<rparr> else s);
          s = (if text_mode s \<and> (c = TEXT_OFF \<or> c = DISP_RESET)
               then fpga_bus_render (render_us s) s\<lparr>text_mode := False\<rparr> else s)
      in if text_cmd c \<and> args_left s = 0 \<and> c \<noteq> F_PUT then grid_op c 0 0 s else s)"

definition fpga_start :: "'d spi_device \<Rightarrow> u16 \<Rightarrow> fpga_bus_state \<times> 'd \<Rightarrow> fpga_bus_state \<times> 'd" where
  "fpga_start dev c = (\<lambda>(s, x).
     let s = (if \<not> known_cmd s c then s\<lparr>sticky := sticky s OR UNKNOWN\<rparr> else s);
         s = s\<lparr>fpga_cmd := c, args_left := arguments s c\<rparr>
     in (start_text c (start_replies c s), if c = NET_RESET then spi_reset dev x else x))"

section \<open>The network's frames\<close>

definition net_close :: "'d spi_device \<Rightarrow> fpga_bus_state \<times> 'd \<Rightarrow> fpga_bus_state \<times> 'd" where
  "net_close dev = (\<lambda>(s, x). (s\<lparr>net_open := False\<rparr>, if net_open s then spi_select dev False x else x))"

definition net_header :: "'d spi_device \<Rightarrow> u8 \<Rightarrow> fpga_bus_state \<times> 'd \<Rightarrow> fpga_bus_state \<times> 'd" where
  "net_header dev b = (\<lambda>(s, x).
     let (s, x) = (if \<not> net_open s then (s\<lparr>net_open := True, net_sent := 0\<rparr>, spi_select dev True x) else (s, x));
         (got, x) = spi_byte dev b x;
         s = s\<lparr>net_sent := net_sent s + 1\<rparr>
     in (if got \<noteq> net_sent s then s\<lparr>sticky := sticky s OR NET_ERROR\<rparr> else s, x))"

fun net_fetch :: "'d spi_device \<Rightarrow> nat \<Rightarrow> fpga_bus_state \<times> 'd \<Rightarrow> fpga_bus_state \<times> 'd" where
  "net_fetch dev 0 y = y"
| "net_fetch dev (Suc n) (s, x) =
     (let (b, x) = spi_byte dev 0x00 x in net_fetch dev n (push_reply b s, x))"

definition net_data :: "'d spi_device \<Rightarrow> u8 \<Rightarrow> fpga_bus_state \<times> 'd \<Rightarrow> fpga_bus_state \<times> 'd" where
  "net_data dev d = (\<lambda>(s, x).
     if args_left s \<noteq> 0 then
       (let s = s\<lparr>args_left := args_left s - 1\<rparr>
        in if fpga_cmd s = NET_READ \<and> args_left s = 0
           then net_close dev (net_fetch dev (if d \<noteq> 0 then unat d else 256) (s, x))
           else net_header dev d (s, x))
     else if fpga_cmd s = NET_WRITE then (s, snd (spi_byte dev d x))
     else (s\<lparr>sticky := sticky s OR EXTRA\<rparr>, x))"

section \<open>Writes\<close>

definition write_command :: "'d spi_device \<Rightarrow> u8 \<Rightarrow> fpga_bus_state \<times> 'd \<Rightarrow> fpga_bus_state \<times> 'd" where
  "write_command dev c = (\<lambda>(s, x).
     let s = (if args_left s \<noteq> 0 then s\<lparr>sticky := sticky s OR ABANDONED\<rparr> else s)
     in fpga_start dev (to16 c) (net_close dev (s, x)))"

definition display_argument :: "u8 \<Rightarrow> fpga_bus_state \<Rightarrow> fpga_bus_state" where
  "display_argument a s =
     (if fpga_cmd s = DISP_RESET then s\<lparr>panel := ili9341_reset_line (a AND 1 \<noteq> 0) (panel s)\<rparr>
      else if fpga_cmd s = DISP_COMMAND then s\<lparr>panel := ili9341_command a (panel s)\<rparr>
      else if fpga_cmd s = F_BACKLIGHT then s\<lparr>panel := panel s\<lparr>backlight := a\<rparr>\<rparr>
      else s)"

definition take_argument :: "u8 \<Rightarrow> fpga_bus_state \<Rightarrow> fpga_bus_state" where
  "take_argument d s =
     (let s = (if args_left s = 2 then s\<lparr>first_arg := d\<rparr> else s);
          s = s\<lparr>args_left := args_left s - 1\<rparr>;
          c = fpga_cmd s
      in if args_left s \<noteq> 0 then s
         else if text_cmd c then grid_op c (if arguments s c = 2 then first_arg s else d) d s
         else if display_cmd s c then display_argument d s
         else s)"

definition write_data :: "'d spi_device \<Rightarrow> u8 \<Rightarrow> fpga_bus_state \<times> 'd \<Rightarrow> fpga_bus_state \<times> 'd" where
  "write_data dev d = (\<lambda>(s, x).
     let c = fpga_cmd s
     in if c = F_NET \<and> args_left s \<noteq> 0 then fpga_start dev (NET_OP OR to16 d) (s, x)
        else if net_cmd c then net_data dev d (s, x)
        else if c = F_TEXT \<and> args_left s \<noteq> 0 then fpga_start dev (F_LONG OR to16 d) (s, x)
        else if args_left s \<noteq> 0 then (take_argument d s, x)
        else if c = F_ECHO then (push_reply d s, x)
        else if c = F_PUT then (grid_op F_PUT d 0 s, x)
        else if display_cmd s c \<and> streams c then (s\<lparr>panel := ili9341_data d (panel s)\<rparr>, x)
        else if known_cmd s c \<and> \<not> streams c then (s\<lparr>sticky := sticky s OR EXTRA\<rparr>, x)
        else (s, x))"

section \<open>Transfers\<close>

definition start_read :: "bool \<Rightarrow> fpga_bus_state \<Rightarrow> fpga_bus_state" where
  "start_read rs s =
     (let s = s\<lparr>reading := True, read_rs := rs\<rparr>
      in if \<not> rs then s\<lparr>read_value := sticky s, sticky := 0\<rparr>
         else if reply_count s \<noteq> 0 then s\<lparr>read_value := reply_buf s (reply_head s)\<rparr>
         else s\<lparr>read_value := 0x00, sticky := sticky s OR UNDERFLOW\<rparr>)"

definition end_read :: "fpga_bus_state \<Rightarrow> fpga_bus_state" where
  "end_read s =
     (if read_rs s \<and> reply_count s \<noteq> 0
      then s\<lparr>reply_head := (reply_head s + 1) mod FPGA_REPLY_DEPTH, reply_count := reply_count s - 1\<rparr>
      else s)\<lparr>reading := False\<rparr>"

definition fpga_bus_tick ::
  "u8 option \<Rightarrow> 'd spi_device \<Rightarrow> via_6522_state \<Rightarrow> fpga_bus_state \<times> 'd \<Rightarrow> fpga_bus_state \<times> 'd" where
  "fpga_bus_tick drive dev via = (\<lambda>(s, x).
     let pins = porta_pin_value via;
         e = (ddra via AND BUS_E \<noteq> 0 \<and> pins AND BUS_E \<noteq> 0);
         rs = (pins AND BUS_RS \<noteq> 0);
         (s, x) =
           (if e \<and> \<not> e_was s then
              (let s = s\<lparr>transfers := transfers s + 1\<rparr>
               in if fpga_absent s then (s, x)
                  else if pins AND BUS_RW = 0 then
                    (if rs then write_data dev (portb_pin_value drive via) (s, x)
                     else write_command dev (portb_pin_value drive via) (s, x))
                  else (start_read rs s, x))
            else if \<not> e \<and> e_was s \<and> reading s then (end_read s, x)
            else (s, x))
     in (s\<lparr>e_was := e\<rparr>, x))"

definition fpga_bus_output :: "via_6522_state \<Rightarrow> fpga_bus_state \<Rightarrow> u8 option" where
  "fpga_bus_output via s =
     (if \<not> reading s \<or> porta_pin_value via AND BUS_SOEB = 0 then None else Some (read_value s))"

definition fpga_bus_init :: fpga_bus_state where
  "fpga_bus_init = \<lparr>e_was = False, transfers = 0, fpga_cmd = 0, args_left = 0, first_arg = 0, sticky = 0,
     text_mode = False, reply_buf = (\<lambda>_. 0), reply_head = 0, reply_count = 0, fpga_absent = False,
     reading = False, read_rs = False, read_value = 0, grid = fpga_text_init, panel = ili9341_init,
     render = \<lparr>drawn = (\<lambda>_ _. 0), set_up = False, sent_scroll = False, sent_top = 0, sent_bottom = 0,
       sent_offset = 0, blink_row = 0, blink_col = 0, blink_cursor = False, blink_on = False, blink_us = 0\<rparr>,
     render_us = 0, net_open = False, net_sent = 0\<rparr>"

end
