(* ===== verification/Fpga_Link.thy ===== *)
theory Fpga_Link imports Fpga_Bus begin

text \<open>
  What the FPGA bus promises: the reply queue is a queue, what is echoed is read back, and in text
  mode the glass shows the grid, whatever is sent over the bus.
\<close>

section \<open>The display under the bus\<close>

text \<open>The parts of the bus that the picture depends on.\<close>

definition same_display :: "fpga_bus_state \<Rightarrow> fpga_bus_state \<Rightarrow> bool" where
  "same_display s t \<longleftrightarrow> grid s = grid t \<and> panel s = panel t \<and> render s = render t \<and>
     text_mode s = text_mode t \<and> fpga_cmd s = fpga_cmd t"

definition display_inv :: "fpga_bus_state \<Rightarrow> bool" where
  "display_inv s \<longleftrightarrow> text_ok (grid s) \<and>
     (text_mode s \<longrightarrow> fpga_cmd s \<noteq> DISP_RESET \<and> (in_reset (panel s) \<or> render_inv (render s) (panel s)))"

lemma display_inv_same: "same_display s t \<Longrightarrow> display_inv s = display_inv t"
  by (simp add: same_display_def display_inv_def)

lemma same_display_refl: "same_display s s"
  by (simp add: same_display_def)

lemma push_display [simp]: "same_display (push_reply b s) t = same_display s t"
  by (simp add: push_reply_def same_display_def)

lemma grid_op_keeps: "display_inv s \<Longrightarrow> display_inv (grid_op c a b s)"
  using op_ok[of "grid s"] by (simp add: grid_op_def display_inv_def)

lemma render_keeps: "display_inv s \<Longrightarrow> display_inv (fpga_bus_render now_us s)"
proof (cases "text_mode s")
  case True
  assume inv: "display_inv s"
  obtain r p where d: "fpga_text_render_draw (grid s) now_us (render s, panel s) = (r, p)" by fastforce
  have e: "fpga_bus_render now_us s = s\<lparr>render := r, panel := p, render_us := now_us\<rparr>"
    using True d by (simp add: fpga_bus_render_def)
  show ?thesis
  proof (cases "in_reset (panel s)")
    case True
    then have "p = panel s" using draw_in_reset[OF True, of "grid s" now_us "render s"] by (simp add: d)
    then show ?thesis using inv True by (simp add: e display_inv_def)
  next
    case False
    then have "drawing r p" using draw_effect[OF _ _ False d] inv True by (simp add: display_inv_def)
    then show ?thesis using inv by (simp add: e display_inv_def drawing_def)
  qed
qed (simp add: fpga_bus_render_def)

lemma render_keeps_fields [simp]:
  "fpga_cmd (fpga_bus_render now_us s) = fpga_cmd s" "args_left (fpga_bus_render now_us s) = args_left s"
  "text_mode (fpga_bus_render now_us s) = text_mode s" "grid (fpga_bus_render now_us s) = grid s"
  by (simp_all add: fpga_bus_render_def split_beta)

text \<open>A command: the old one goes, so nothing is asked of it but the grid.\<close>

lemma start_text_keeps:
  assumes "text_ok (grid s)" "text_mode s \<longrightarrow> in_reset (panel s) \<or> render_inv (render s) (panel s)"
    and "fpga_cmd s = c"
  shows "display_inv (start_text c s)"
proof -
  define s1 where "s1 = (if c = TEXT_ON then s\<lparr>text_mode := True, render := fpga_text_render_init\<rparr> else s)"
  define s2 where "s2 = (if text_mode s1 \<and> (c = TEXT_OFF \<or> c = DISP_RESET)
    then fpga_bus_render (render_us s1) s1\<lparr>text_mode := False\<rparr> else s1)"
  have "render_inv fpga_text_render_init p" for p
    by (simp add: render_inv_def fpga_text_render_init_def)
  then have "display_inv s2" using assms by (simp add: display_inv_def s1_def s2_def)
  then have "display_inv (grid_op c 0 0 s2)" by (rule grid_op_keeps)
  moreover have "start_text c s = (if text_cmd c \<and> args_left s2 = 0 \<and> c \<noteq> F_PUT then grid_op c 0 0 s2 else s2)"
    unfolding start_text_def Let_def s1_def s2_def ..
  ultimately show ?thesis using \<open>display_inv s2\<close> by simp
qed

lemma start_replies_display [simp]: "same_display (start_replies c s) t = same_display s t"
proof -
  have "same_display (s\<lparr>reply_count := 0, sticky := 0\<rparr>) t = same_display s t" for s
    by (simp add: same_display_def)
  then show ?thesis by (simp add: start_replies_def Let_def)
qed

lemma start_keeps: "display_inv s \<Longrightarrow> display_inv (fst (fpga_start dev c (s, x)))"
proof -
  assume inv: "display_inv s"
  define u where "u = (if \<not> known_cmd s c then s\<lparr>sticky := sticky s OR UNKNOWN\<rparr> else s)"
  define v where "v = start_replies c (u\<lparr>fpga_cmd := c, args_left := arguments u c\<rparr>)"
  have "same_display v (s\<lparr>fpga_cmd := c\<rparr>)"
    unfolding v_def start_replies_display by (simp add: same_display_def u_def)
  then have "display_inv (start_text c v)"
    using inv by (intro start_text_keeps) (auto simp: same_display_def display_inv_def)
  then show ?thesis by (simp add: fpga_start_def Let_def u_def v_def)
qed

lemma net_same:
  "same_display (fst (net_close dev (s, x))) s"
  "same_display (fst (net_data dev d (s, x))) s"
proof -
  show c: "same_display (fst (net_close dev (s, x))) s" for s x
    by (simp add: net_close_def same_display_def)
  have f: "same_display (fst (net_fetch dev n (s, x))) s" for n s x
  proof (induction n arbitrary: s x)
    case (Suc n)
    have "same_display (fst (net_fetch dev n (push_reply (fst (spi_byte dev 0 x)) s, snd (spi_byte dev 0 x)))) s"
      using Suc.IH[of "push_reply (fst (spi_byte dev 0 x)) s" "snd (spi_byte dev 0 x)"] push_display same_display_refl
      by (simp add: same_display_def push_reply_def)
    then show ?case by (simp add: split_beta Let_def)
  qed (simp add: same_display_def)
  have fc: "same_display (fst (net_close dev (net_fetch dev n (s, x)))) s" for n s x
    using c[of "fst (net_fetch dev n (s, x))" "snd (net_fetch dev n (s, x))"] f[of n s x]
    by (simp add: same_display_def)
  have h: "same_display (fst (net_header dev d (s, x))) s" for s x
    by (simp add: net_header_def split_beta Let_def same_display_def)
  have a: "same_display t (s\<lparr>args_left := k\<rparr>) \<Longrightarrow> same_display t s" for t k by (simp add: same_display_def)
  show "same_display (fst (net_data dev d (s, x))) s"
    using a[OF fc] a[OF h] by (simp add: net_data_def Let_def) (simp add: same_display_def)
qed

lemma command_keeps: "display_inv s \<Longrightarrow> display_inv (fst (write_command dev c (s, x)))"
proof -
  assume inv: "display_inv s"
  define u where "u = (if args_left s \<noteq> 0 then s\<lparr>sticky := sticky s OR ABANDONED\<rparr> else s)"
  have "same_display u s" by (simp add: u_def same_display_def)
  moreover have "same_display (fst (net_close dev (u, x))) u" by (rule net_same)
  ultimately have "display_inv (fst (net_close dev (u, x)))" using inv by (simp add: display_inv_same)
  from start_keeps[OF this, of dev "to16 c" "snd (net_close dev (u, x))"] show ?thesis
    by (simp add: write_command_def Let_def u_def)
qed

lemma argument_keeps: "display_inv s \<Longrightarrow> display_inv (take_argument d s)"
proof -
  assume inv: "display_inv s"
  define u where "u = (if args_left s = 2 then s\<lparr>first_arg := d\<rparr> else s)
    \<lparr>args_left := args_left (if args_left s = 2 then s\<lparr>first_arg := d\<rparr> else s) - 1\<rparr>"
  have u: "same_display u s" "fpga_cmd u = fpga_cmd s" by (simp_all add: u_def same_display_def)
  then have iu: "display_inv u" using inv by (simp add: display_inv_same)
  have "display_inv (display_argument d u)" if "display_cmd u (fpga_cmd u)"
  proof (cases "text_mode u")
    case True
    then have "fpga_cmd u = F_BACKLIGHT" using iu that by (auto simp: display_inv_def display_cmd_def)
    moreover have "render_inv r (p\<lparr>backlight := b\<rparr>) = render_inv r p" for r p b
      by (simp add: render_inv_def scroll_regs_ok_def shows_cell_def)
    ultimately show ?thesis using iu by (simp add: display_argument_def display_inv_def)
  next
    case False
    then show ?thesis using iu by (simp add: display_argument_def display_inv_def)
  qed
  moreover have "take_argument d s = (if args_left u \<noteq> 0 then u
      else if text_cmd (fpga_cmd u) then grid_op (fpga_cmd u) (if arguments u (fpga_cmd u) = 2 then first_arg u else d) d u
      else if display_cmd u (fpga_cmd u) then display_argument d u else u)"
    unfolding take_argument_def u_def Let_def ..
  ultimately show ?thesis using iu grid_op_keeps[OF iu] by simp
qed

lemma data_keeps: "display_inv s \<Longrightarrow> display_inv (fst (write_data dev d (s, x)))"
proof -
  assume inv: "display_inv s"
  have f: "display_inv t" if "same_display t s" for t using inv that by (simp add: display_inv_same)
  have p: "display_inv (push_reply d s)" "display_inv (s\<lparr>sticky := sticky s OR EXTRA\<rparr>)"
    by (rule f, simp add: same_display_refl)+ (simp add: same_display_def f)
  have panel: "display_inv (s\<lparr>panel := q\<rparr>)" if "display_cmd s (fpga_cmd s)" "streams (fpga_cmd s)" for q
    using inv that by (auto simp: display_inv_def display_cmd_def streams_def)
  show ?thesis
    using inv start_keeps[OF inv, where dev = dev and x = x]
      f[OF net_same(2)[where dev = dev and x = x and s = s]] argument_keeps[OF inv] p grid_op_keeps[OF inv] panel
    by (simp add: write_data_def Let_def)
qed

lemma tick_keeps: "display_inv s \<Longrightarrow> display_inv (fst (fpga_bus_tick drive dev via (s, x)))"
proof -
  assume inv: "display_inv s"
  have f: "display_inv t" if "same_display t s" for t using inv that by (simp add: display_inv_same)
  define u where "u = s\<lparr>transfers := transfers s + 1\<rparr>"
  have u: "display_inv u" by (rule f) (simp add: u_def same_display_def)
  have r: "display_inv (start_read rs u)" "display_inv (end_read s)" for rs
    by (rule f, simp add: start_read_def end_read_def Let_def u_def same_display_def)+
  have e: "display_inv (t\<lparr>e_was := k\<rparr>) = display_inv t" for t k by (simp add: display_inv_def)
  show ?thesis
    using inv u r command_keeps[OF u, where dev = dev and x = x] data_keeps[OF u, where dev = dev and x = x]
    by (simp add: fpga_bus_tick_def Let_def split_beta e u_def[symmetric])
qed

section \<open>The glass in text mode\<close>

text \<open>
  What happens to the FPGA: ticks with the VIA in any state, drawings, and its device changing
  (the network) or the FPGA losing or getting its configuration.
\<close>

inductive fpga_step :: "'d spi_device \<Rightarrow> fpga_bus_state \<times> 'd \<Rightarrow> fpga_bus_state \<times> 'd \<Rightarrow> bool" for dev where
  tick: "fpga_step dev (s, x) (fpga_bus_tick drive dev via (s, x))"
| draw: "fpga_step dev (s, x) (fpga_bus_render now_us s, x)"
| device: "fpga_step dev (s, x) (s, y)"
| configure: "fpga_step dev (s, x) (s\<lparr>fpga_absent := v\<rparr>, x)"

lemma fpga_reachable_inv: "(fpga_step dev)\<^sup>*\<^sup>* (fpga_bus_init, x) y \<Longrightarrow> display_inv (fst y)"
proof (induction rule: rtranclp_induct)
  case base
  then show ?case using init_ok by (simp add: display_inv_def fpga_bus_init_def)
next
  case (step y z)
  from step.hyps(2) step.IH show ?case
    by cases (simp_all add: tick_keeps render_keeps, simp add: display_inv_def)
qed

text \<open>
  Property C9: in text mode the glass shows the grid. Whatever was sent over the bus and drawn
  before, when text mode is on and the display shows its memory and is scanned as the board's
  driver sets it up, then after a drawing each of the twelve by sixteen pixels of each cell on the
  glass is the font's for the character in the grid, inverted by the reverse video and by the
  cursor in the bottom two rows of its cell, wherever the hardware scroll has moved the picture.
\<close>

theorem text_mode_glass:
  assumes "(fpga_step dev)\<^sup>*\<^sup>* (fpga_bus_init, d) (s, x)" "text_mode s" "ili9341_showing (panel s)"
    and "scan (panel s) AND ILI9341_GS \<noteq> 0" "scan (panel s) AND ILI9341_SS \<noteq> 0"
    and "in_grid r c" "0 \<le> px" "px < CELL_W" "0 \<le> py" "py < CELL_H"
  shows "case fpga_bus_render now_us s of t \<Rightarrow>
    grid t = grid s \<and>
    ili9341_glass_pixel (panel t) (c * CELL_W + px) (r * CELL_H + py) =
      (if bit (font_12x16 ! unat (chars (grid s) r c) ! nat px) (nat py) \<noteq>
          (reverse_cells (grid s) r c \<noteq>
            ((text_cursor (grid s) \<and> text_col (grid s) < TEXT_COLS \<and> blink_on (render t)) \<and>
             r = text_row (grid s) \<and> c = text_col (grid s) \<and> 14 \<le> py)) then 0xFFFF else 0)"
proof -
  obtain rr p where d: "fpga_text_render_draw (grid s) now_us (render s, panel s) = (rr, p)" by fastforce
  have "display_inv s" using fpga_reachable_inv[OF assms(1)] by simp
  then have inv: "text_ok (grid s)" "render_inv (render s) (panel s)"
    using assms(2,3) by (simp_all add: display_inv_def ili9341_showing_def)
  have "fpga_bus_render now_us s = s\<lparr>render := rr, panel := p, render_us := now_us\<rparr>"
    using assms(2) d by (simp add: fpga_bus_render_def)
  with glass_after_draw[OF inv assms(3-5) d assms(6-10)] show ?thesis by simp
qed

section \<open>Transfers of a program\<close>

definition bus_pins :: "bool \<Rightarrow> bool \<Rightarrow> bool \<Rightarrow> u8 \<Rightarrow> via_6522_state" where
  "bus_pins e rs rw b = via_6522_init\<lparr>ddra := 0x74, ddrb := 0xFF, orb := b,
     ora := 0x10 OR (if e then BUS_E else 0) OR (if rs then BUS_RS else 0) OR (if rw then BUS_RW else 0)\<rparr>"

definition bus_cycle :: "'d spi_device \<Rightarrow> bool \<Rightarrow> u8 \<Rightarrow> fpga_bus_state \<times> 'd \<Rightarrow> fpga_bus_state \<times> 'd" where
  "bus_cycle dev rs b y = fpga_bus_tick None dev (bus_pins False rs False b)
     (fpga_bus_tick None dev (bus_pins True rs False b) y)"

definition reply_cycle :: "'d spi_device \<Rightarrow> fpga_bus_state \<times> 'd \<Rightarrow> u8 \<times> fpga_bus_state \<times> 'd" where
  "reply_cycle dev y =
     (let y = fpga_bus_tick None dev (bus_pins True True True 0) y
      in (case fpga_bus_output (bus_pins True True True 0) (fst y) of Some v \<Rightarrow> v | None \<Rightarrow> 0xFF,
          fpga_bus_tick None dev (bus_pins False True True 0) y))"

lemma bus_pins_ports:
  "porta_pin_value (bus_pins e rs rw b) =
    (if e then (if rs then (if rw then 0x74 else 0x34) else (if rw then 0x54 else 0x14))
     else (if rs then (if rw then 0x70 else 0x30) else (if rw then 0x50 else 0x10)))"
  "portb_pin_value None (bus_pins e rs rw b) = b" "ddra (bus_pins e rs rw b) = 0x74"
proof -
  have init: "porta_input via_6522_init = 0" "via_acr via_6522_init = 0"
    by (simp_all add: via_6522_init_def)
  show "porta_pin_value (bus_pins e rs rw b) =
    (if e then (if rs then (if rw then 0x74 else 0x34) else (if rw then 0x54 else 0x14))
     else (if rs then (if rw then 0x70 else 0x30) else (if rw then 0x50 else 0x10)))"
    by (simp add: bus_pins_def porta_pin_value_def init)
  have "(0xFF :: u8) = - 1" by simp
  then have "b AND 0xFF = b" by (simp only: and.right_neutral)
  then show "portb_pin_value None (bus_pins e rs rw b) = b"
    by (simp add: bus_pins_def portb_pin_value_def init)
  show "ddra (bus_pins e rs rw b) = 0x74" by (simp add: bus_pins_def)
qed

lemma bus_pins_lines [simp]:
  "ddra (bus_pins e rs rw b) AND BUS_E \<noteq> 0"
  "porta_pin_value (bus_pins e rs rw b) AND BUS_E = 0 \<longleftrightarrow> \<not> e"
  "porta_pin_value (bus_pins e rs rw b) AND BUS_RS = 0 \<longleftrightarrow> \<not> rs"
  "porta_pin_value (bus_pins e rs rw b) AND BUS_RW = 0 \<longleftrightarrow> \<not> rw"
  "porta_pin_value (bus_pins e rs rw b) AND BUS_SOEB \<noteq> 0" "portb_pin_value None (bus_pins e rs rw b) = b"
  by (simp_all add: bus_pins_ports)

text \<open>
  The display woken, turned on and scanned as on the board; text mode turned on, and an A put into
  the grid.
\<close>

definition no_device :: "unit spi_device" where
  "no_device = \<lparr>dev_pulse = None, dev_select = None, dev_reset = None\<rparr>"

definition bus_session :: "(bool \<times> u8) list \<Rightarrow> fpga_bus_state" where
  "bus_session cycles = fst (fold (\<lambda>(rs, b). bus_cycle no_device rs b) cycles (fpga_bus_init, ()))"

lemma session_reachable: "(fpga_step no_device)\<^sup>*\<^sup>* (fpga_bus_init, ()) (bus_session cycles, ())"
proof -
  have "(fpga_step no_device)\<^sup>*\<^sup>* y (bus_cycle no_device rs b y)" for rs b y
    unfolding bus_cycle_def by (cases y) (metis fpga_step.tick prod.collapse rtranclp.simps)
  then have "(fpga_step no_device)\<^sup>*\<^sup>* y (fold (\<lambda>(rs, b). bus_cycle no_device rs b) cycles y)" for y
  proof (induction cycles arbitrary: y)
    case (Cons a cycles)
    obtain rs b where "a = (rs, b)" by fastforce
    then show ?case using rtranclp_trans[OF Cons.prems Cons.IH[OF Cons.prems]] by simp
  qed simp
  from this[of "(fpga_bus_init, ())"] show ?thesis by (metis bus_session_def old.unit.exhaust prod.collapse)
qed

definition demo_session :: "(bool \<times> u8) list" where
  "demo_session = [(False, 0x11), (True, 0x11), (False, 0x11), (True, 0x29), (False, 0x11), (True, 0xB6),
     (True, 0x0A), (True, 0xE2), (False, 0x80), (True, 0x00), (False, 0x80), (True, 0x03), (True, 0x41)]"

lemma demo_state:
  "text_mode (bus_session demo_session)" "ili9341_showing (panel (bus_session demo_session))"
  "scan (panel (bus_session demo_session)) = 0xE2"
  "grid (bus_session demo_session) = fpga_text_op 3 0x41 0 (fpga_text_op 0 0 0 fpga_text_init)"
  by (simp_all add: bus_session_def demo_session_def bus_cycle_def fpga_bus_tick_def Let_def fpga_bus_init_def
      write_command_def net_close_def fpga_start_def start_replies_def start_text_def text_cmd_def arguments_def
      display_cmd_def net_cmd_def known_cmd_def write_data_def take_argument_def display_argument_def streams_def
      ili9341_command_def ili9341_data_def parameters_def ili9341_init_def panel_reset_def ili9341_showing_def
      grid_op_def)

lemma demo_cell:
  "chars (grid (bus_session demo_session)) 0 0 = 0x41"
  "\<not> reverse_cells (grid (bus_session demo_session)) 0 0" "\<not> text_cursor (grid (bus_session demo_session))"
proof -
  let ?on = "text_clear (fpga_text_init\<lparr>text_cursor := False, text_reverse := False, scroll_offset := 0,
    region_top := 0, region_bottom := TEXT_ROWS - 1\<rparr>)"
  have r: "text_row ?on = 0" "text_col ?on = 0" "\<not> text_reverse ?on" "\<not> text_cursor ?on"
    using clear_cells(2) by (simp_all add: same_regs_def)
  show "chars (grid (bus_session demo_session)) 0 0 = 0x41"
    "\<not> reverse_cells (grid (bus_session demo_session)) 0 0" "\<not> text_cursor (grid (bus_session demo_session))"
    unfolding demo_state(4) using r
    by (simp_all add: fpga_text_op_def text_put_def Let_def put_cell_def)
qed

theorem text_mode_glass_witness:
  "ili9341_glass_pixel (panel (fpga_bus_render 0 (bus_session demo_session))) 5 3 =
    (if bit (font_12x16 ! 0x41 ! 5) 3 then 0xFFFF else 0)"
proof -
  let ?s = "bus_session demo_session"
  have s: "scan (panel ?s) AND ILI9341_GS \<noteq> 0" "scan (panel ?s) AND ILI9341_SS \<noteq> 0" "in_grid 0 0"
    by (simp_all add: demo_state(3) in_grid_def)
  from text_mode_glass[OF session_reachable demo_state(1,2) s, of 5 3 0] demo_cell
  show ?thesis by simp
qed

section \<open>The reply queue\<close>

text \<open>Echo is on, and the bus is between transfers.\<close>

definition echo_ready :: "fpga_bus_state \<times> 'd \<Rightarrow> bool" where
  "echo_ready = (\<lambda>(s, x). fpga_cmd s = F_ECHO \<and> args_left s = 0 \<and> \<not> fpga_absent s \<and> \<not> e_was s \<and>
     \<not> reading s \<and> reply_head s < FPGA_REPLY_DEPTH \<and> reply_count s \<le> FPGA_REPLY_DEPTH)"

definition replies_of :: "fpga_bus_state \<times> 'd \<Rightarrow> u8 list" where
  "replies_of = (\<lambda>(s, x). ring FPGA_REPLY_DEPTH (reply_buf s) (reply_head s) (reply_count s))"

definition echo_put :: "'d spi_device \<Rightarrow> u8 \<Rightarrow> fpga_bus_state \<times> 'd \<Rightarrow> (fpga_bus_state \<times> 'd) option" where
  "echo_put dev b y = (if reply_count (fst y) = FPGA_REPLY_DEPTH then None else Some (bus_cycle dev True b y))"

lemma push_reading [simp]: "reading (push_reply b s) = reading s"
  by (simp add: push_reply_def)

lemma echo_cycle:
  assumes "echo_ready (s, x)"
  shows "bus_cycle dev True b (s, x) = (push_reply b s\<lparr>transfers := transfers s + 1, e_was := False\<rparr>, x)"
proof -
  have d: "write_data dev b (s\<lparr>transfers := k\<rparr>, x) = (push_reply b (s\<lparr>transfers := k\<rparr>), x)" for k
    using assms by (simp add: write_data_def echo_ready_def net_cmd_def)
  have "fpga_bus_tick None dev (bus_pins True True False b) (s, x) =
      (push_reply b (s\<lparr>transfers := transfers s + 1\<rparr>)\<lparr>e_was := True\<rparr>, x)"
    using assms d by (simp add: fpga_bus_tick_def Let_def echo_ready_def)
  then show ?thesis
    using assms by (simp add: bus_cycle_def fpga_bus_tick_def Let_def echo_ready_def) (simp add: push_reply_def)
qed

lemma echo_put_content:
  assumes "echo_ready y"
  shows "length (replies_of y) < FPGA_REPLY_DEPTH \<Longrightarrow>
      \<exists>z. echo_put dev b y = Some z \<and> echo_ready z \<and> replies_of z = replies_of y @ [b]"
    "\<not> length (replies_of y) < FPGA_REPLY_DEPTH \<Longrightarrow> echo_put dev b y = None"
proof -
  obtain s x where y: "y = (s, x)" by (cases y)
  have len: "length (replies_of y) = reply_count s" by (simp add: replies_of_def y)
  show "\<exists>z. echo_put dev b y = Some z \<and> echo_ready z \<and> replies_of z = replies_of y @ [b]"
    if "length (replies_of y) < FPGA_REPLY_DEPTH"
    using that assms ring_append[of "reply_count s" FPGA_REPLY_DEPTH "reply_buf s" "reply_head s" b]
    by (simp add: echo_put_def y echo_cycle[OF assms[unfolded y]] len[unfolded y])
      (simp add: echo_ready_def replies_of_def push_reply_def del: fun_upd_apply)
  show "echo_put dev b y = None" if "\<not> length (replies_of y) < FPGA_REPLY_DEPTH"
    using that assms unfolding len by (simp add: echo_put_def y echo_ready_def)
qed

lemma reply_cycle_content:
  assumes "echo_ready y" "replies_of y = b # bs"
  shows "fst (reply_cycle dev y) = b \<and> echo_ready (snd (reply_cycle dev y)) \<and>
    replies_of (snd (reply_cycle dev y)) = bs"
proof -
  obtain s x where y: "y = (s, x)" by (cases y)
  have n: "0 < reply_count s" using assms(2) by (cases "reply_count s") (simp_all add: replies_of_def y)
  have h: "reply_head s mod FPGA_REPLY_DEPTH = reply_head s" using assms(1) by (simp add: echo_ready_def y)
  define t where "t = s\<lparr>transfers := transfers s + 1, reading := True, read_rs := True,
    read_value := reply_buf s (reply_head s)\<rparr>"
  have one: "fpga_bus_tick None dev (bus_pins True True True 0) y = (t\<lparr>e_was := True\<rparr>, x)"
    using assms(1) n by (simp add: y fpga_bus_tick_def Let_def echo_ready_def start_read_def t_def)
  have two: "fpga_bus_tick None dev (bus_pins False True True 0) (t\<lparr>e_was := True\<rparr>, x) =
      (t\<lparr>reply_head := (reply_head s + 1) mod FPGA_REPLY_DEPTH, reply_count := reply_count s - 1,
         reading := False, e_was := False\<rparr>, x)"
    using n by (simp add: fpga_bus_tick_def Let_def end_read_def t_def)
  have out: "fpga_bus_output (bus_pins True True True 0) (t\<lparr>e_was := True\<rparr>) = Some (reply_buf s (reply_head s))"
    by (simp add: fpga_bus_output_def t_def)
  show ?thesis
    using assms n ring_head[OF n, of FPGA_REPLY_DEPTH "reply_buf s" "reply_head s"] h
    by (simp add: reply_cycle_def one two out) (auto simp: t_def replies_of_def echo_ready_def y FPGA_REPLY_DEPTH_def)
qed

interpretation rq: fifo replies_of "echo_put dev" "reply_cycle dev" FPGA_REPLY_DEPTH echo_ready for dev
proof unfold_locales
  show "length (replies_of q) \<le> FPGA_REPLY_DEPTH" if "echo_ready q" for q :: "fpga_bus_state \<times> 'a"
    using that by (auto simp: echo_ready_def replies_of_def)
qed (blast dest: echo_put_content reply_cycle_content)+

lemma echo_run:
  "echo_ready y \<Longrightarrow> case fold (bus_cycle dev True) xs y of z \<Rightarrow> echo_ready z \<and>
    replies_of z = replies_of y @ take (FPGA_REPLY_DEPTH - length (replies_of y)) xs \<and>
    (bit (sticky (fst z)) 4 \<longleftrightarrow> bit (sticky (fst y)) 4 \<or> FPGA_REPLY_DEPTH < length (replies_of y) + length xs)"
proof (induction xs arbitrary: y)
  case Nil
  have "length (replies_of y) \<le> FPGA_REPLY_DEPTH" using rq.inv_cap[OF Nil] .
  then show ?case using Nil by simp
next
  case (Cons b xs)
  obtain s x where y: "y = (s, x)" by (cases y)
  let ?z = "bus_cycle dev True b y"
  have z: "?z = (push_reply b s\<lparr>transfers := transfers s + 1, e_was := False\<rparr>, x)"
    using echo_cycle[of s x dev b] Cons.prems by (simp add: y)
  have len: "length (replies_of y) = reply_count s" by (simp add: replies_of_def y)
  show ?case
  proof (cases "reply_count s = FPGA_REPLY_DEPTH")
    case True
    have "echo_ready ?z" "replies_of ?z = replies_of y" "bit (sticky (fst ?z)) 4"
      unfolding z using Cons.prems True
      by (simp_all add: push_reply_def echo_ready_def y replies_of_def bit_or_iff)
    then show ?thesis using Cons.IH[of ?z] True by (simp add: len)
  next
    case False
    then have "length (replies_of y) < FPGA_REPLY_DEPTH"
      using rq.inv_cap[OF Cons.prems] by (simp add: len)
    from rq.put_room[OF Cons.prems this, of dev b] have r: "echo_ready ?z" "replies_of ?z = replies_of y @ [b]"
      using False by (auto simp: echo_put_def y)
    have "sticky (fst ?z) = sticky s" unfolding z using False by (simp add: push_reply_def)
    moreover have "FPGA_REPLY_DEPTH - length (replies_of y) = Suc (FPGA_REPLY_DEPTH - length (replies_of ?z))"
      using \<open>length (replies_of y) < FPGA_REPLY_DEPTH\<close> r(2) by simp
    ultimately show ?thesis using Cons.IH[OF r(1)] r(2) by (simp add: y)
  qed
qed

text \<open>Between transfers, with the reply queue in bounds: as every transfer leaves the bus.\<close>

definition bus_idle :: "fpga_bus_state \<Rightarrow> bool" where
  "bus_idle s \<longleftrightarrow> \<not> fpga_absent s \<and> \<not> e_was s \<and> \<not> reading s \<and> reply_head s < FPGA_REPLY_DEPTH"

lemma echo_start:
  fixes dev :: "'d spi_device" and x :: 'd
  assumes "bus_idle s"
  defines "z \<equiv> bus_cycle dev False 0x04 (bus_cycle dev False 0x03 (s, x))"
  shows "echo_ready z \<and> replies_of z = [] \<and> sticky (fst z) = 0"
proof -
  have one: "\<exists>t y. bus_cycle dev False 0x03 (s, x) = (t, y) \<and> bus_idle t \<and> args_left t = 0 \<and> sticky t = 0 \<and>
      reply_count t = 0"
    using assms(1) by (simp add: bus_cycle_def fpga_bus_tick_def Let_def bus_idle_def write_command_def net_close_def
        fpga_start_def start_replies_def start_text_def text_cmd_def arguments_def display_cmd_def net_cmd_def
        known_cmd_def)
  then obtain t y where t: "bus_cycle dev False 0x03 (s, x) = (t, y)" "bus_idle t" "args_left t = 0" "sticky t = 0"
    "reply_count t = 0" by blast
  show ?thesis
    using t(2-5) unfolding z_def t(1)
    by (simp add: bus_cycle_def fpga_bus_tick_def Let_def bus_idle_def write_command_def net_close_def
        fpga_start_def start_replies_def start_text_def text_cmd_def arguments_def display_cmd_def net_cmd_def
        known_cmd_def echo_ready_def replies_of_def)
qed

text \<open>
  What is echoed is read back. From a bus between transfers, after the commands RESET
  and ECHO, the bytes written come back from as many reads of the reply queue, in order, up to the
  depth of the queue; the status bit OVERFLOW is set exactly if more were written.
\<close>

theorem fpga_echo:
  assumes "bus_idle s"
  shows "case fold (bus_cycle dev True) xs (bus_cycle dev False 0x04 (bus_cycle dev False 0x03 (s, x))) of z \<Rightarrow>
    fst (get_n (reply_cycle dev) (min FPGA_REPLY_DEPTH (length xs)) z) = take FPGA_REPLY_DEPTH xs \<and>
    (bit (sticky (fst z)) 4 \<longleftrightarrow> FPGA_REPLY_DEPTH < length xs)"
proof -
  note e = echo_start[OF assms, of dev x]
  note r = echo_run[OF conjunct1[OF e], of dev xs]
  then show ?thesis
    using e rq.get_n_content[OF conjunct1[OF r[simplified]], of "min FPGA_REPLY_DEPTH (length xs)" dev]
    by (simp add: min_def split: if_splits)
qed

theorem fpga_echo_witness:
  fixes dev :: "unit spi_device"
  defines "dev \<equiv> \<lparr>dev_pulse = None, dev_select = None, dev_reset = None\<rparr>"
  shows "fst (get_n (reply_cycle dev) 2 (fold (bus_cycle dev True) [0x48, 0x69]
    (bus_cycle dev False 0x04 (bus_cycle dev False 0x03 (fpga_bus_init, ()))))) = [0x48, 0x69]"
proof -
  have "bus_idle fpga_bus_init" by (simp add: bus_idle_def fpga_bus_init_def FPGA_REPLY_DEPTH_def)
  from fpga_echo[OF this, of dev "[0x48, 0x69]" "()"] show ?thesis
    by (simp add: FPGA_REPLY_DEPTH_def numeral_2_eq_2 del: get_n.simps fold.simps)
qed

end
