(* ===== verification/C_Text.thy ===== *)
theory C_Text imports Prelude
begin

text \<open>
  Text as the C library reads it: the lines of a stream (\<open>fgets\<close>), strings up to their NUL, and
  numbers (\<open>strtol\<close>); and numbers as it prints them. The terminal, the bootstrap assembler, the keyboard's
  options and the servers share it.
\<close>

section \<open>Lines and strings\<close>

text \<open>A line and what follows it: up to its newline, or as many bytes as the buffer holds.\<close>

definition fgets :: "nat \<Rightarrow> u8 list \<Rightarrow> u8 list \<times> u8 list" where
  "fgets room bytes =
     (let n = length (takeWhile (\<lambda>c. c \<noteq> 0x0A) bytes); k = min (room - 1) (if n < length bytes then n + 1 else n)
      in (take k bytes, drop k bytes))"

lemma fgets_shorter: "1 < room \<Longrightarrow> bytes \<noteq> [] \<Longrightarrow> length (snd (fgets room bytes)) < length bytes"
  by (cases bytes) (auto simp: fgets_def Let_def)

lemma fgets_line:
  "0x0A \<notin> set body \<Longrightarrow> length body < room - 1 \<Longrightarrow> fgets room (body @ 0x0A # rest) = (body @ [0x0A], rest)"
proof -
  assume b: "0x0A \<notin> set body" "length body < room - 1"
  then have "takeWhile (\<lambda>c. c \<noteq> 0x0A) (body @ 0x0A # rest) = body" by (induction body) auto
  moreover have "room - Suc 0 \<le> Suc (length body) \<Longrightarrow> room - Suc (length body) = 1" using b(2) by linarith
  ultimately show ?thesis using b by (simp add: fgets_def Let_def min_def)
qed

text \<open>What C sees of a buffer: the bytes before the NUL.\<close>

definition c_line :: "u8 list \<Rightarrow> u8 list" where
  "c_line = takeWhile (\<lambda>c. c \<noteq> 0)"

definition bytes_of :: "string \<Rightarrow> u8 list" where
  "bytes_of s = map of_char s"

definition string_of :: "u8 list \<Rightarrow> string" where
  "string_of bs = map (\<lambda>b. char_of (unat b)) (c_line bs)"

text \<open>What follows a prefix: \<open>strncmp\<close> of its length is zero.\<close>

definition after_prefix :: "string \<Rightarrow> string \<Rightarrow> string option" where
  "after_prefix p s = (if take (length p) s = p then Some (drop (length p) s) else None)"

section \<open>Numbers\<close>

text \<open>
  \<open>strtol\<close>: white space, a sign, \<open>0x\<close> before a digit in base 16, then the digits. The result
  is the number and what follows it, or None where there are no digits.
\<close>

definition hex_digit :: "char \<Rightarrow> int option" where
  "hex_digit ch =
     (let c = of_char ch :: int in
      if 48 \<le> c \<and> c \<le> 57 then Some (c - 48)
      else if 65 \<le> c \<and> c \<le> 70 then Some (c - 55)
      else if 97 \<le> c \<and> c \<le> 102 then Some (c - 87) else None)"

fun hex_digits :: "int \<Rightarrow> string \<Rightarrow> int \<times> string" where
  "hex_digits n [] = (n, [])"
| "hex_digits n (ch # s) = (case hex_digit ch of Some d \<Rightarrow> hex_digits (16 * n + d) s | None \<Rightarrow> (n, ch # s))"

definition starts_digit :: "string \<Rightarrow> bool" where
  "starts_digit s \<longleftrightarrow> s \<noteq> [] \<and> hex_digit (hd s) \<noteq> None"

fun hex_number :: "string \<Rightarrow> (int \<times> string) option" where
  "hex_number (CHR ''0'' # x # s) =
     (if (x = CHR ''x'' \<or> x = CHR ''X'') \<and> starts_digit s then Some (hex_digits 0 s)
      else Some (hex_digits 0 (CHR ''0'' # x # s)))"
| "hex_number s = (if starts_digit s then Some (hex_digits 0 s) else None)"

definition is_space :: "char \<Rightarrow> bool" where
  "is_space ch \<longleftrightarrow> of_char ch = (32 :: int) \<or> (9 \<le> (of_char ch :: int) \<and> (of_char ch :: int) \<le> 13)"

definition is_decimal :: "char \<Rightarrow> bool" where
  "is_decimal ch \<longleftrightarrow> 48 \<le> (of_char ch :: int) \<and> (of_char ch :: int) \<le> 57"

fun decimal_digits :: "int \<Rightarrow> string \<Rightarrow> int \<times> string" where
  "decimal_digits n [] = (n, [])"
| "decimal_digits n (ch # s) = (if is_decimal ch then decimal_digits (10 * n + (of_char ch - 48)) s else (n, ch # s))"

definition decimal_number :: "string \<Rightarrow> (int \<times> string) option" where
  "decimal_number s = (if s \<noteq> [] \<and> is_decimal (hd s) then Some (decimal_digits 0 s) else None)"

definition strtol_of :: "(string \<Rightarrow> (int \<times> string) option) \<Rightarrow> string \<Rightarrow> (int \<times> string) option" where
  "strtol_of number p =
     (let s = dropWhile is_space p in
      if s \<noteq> [] \<and> hd s = CHR ''-'' then map_option (\<lambda>(n, r). (- n, r)) (number (tl s))
      else if s \<noteq> [] \<and> hd s = CHR ''+'' then number (tl s) else number s)"

abbreviation strtol16 :: "string \<Rightarrow> (int \<times> string) option" where
  "strtol16 \<equiv> strtol_of hex_number"

abbreviation strtol10 :: "string \<Rightarrow> (int \<times> string) option" where
  "strtol10 \<equiv> strtol_of decimal_number"

text \<open>The value as a \<open>long\<close>, stopped at its bounds, and 0 where there are no digits; and cast to \<open>int\<close>.\<close>

definition long_value :: "(int \<times> string) option \<Rightarrow> int" where
  "long_value r = (case r of None \<Rightarrow> 0 | Some (n, _) \<Rightarrow> max (- (2 ^ 63)) (min (2 ^ 63 - 1) n))"

definition as_int :: "int \<Rightarrow> int" where
  "as_int n = (n + 2 ^ 31) mod 2 ^ 32 - 2 ^ 31"

lemma as_int_id: "- (2 ^ 31) \<le> n \<Longrightarrow> n < 2 ^ 31 \<Longrightarrow> as_int n = n"
  by (simp add: as_int_def)

lemma as_int_bounds: "- (2 ^ 31) \<le> as_int n \<and> as_int n < 2 ^ 31"
  using pos_mod_bound[of "2 ^ 32" "n + 2 ^ 31"] pos_mod_sign[of "2 ^ 32" "n + 2 ^ 31"] by (simp add: as_int_def)

lemma hex_digits_shorter: "length (snd (hex_digits n s)) \<le> length s"
  by (induction n s rule: hex_digits.induct) (auto split: option.split)

lemma starts_digit_shorter: "starts_digit s \<Longrightarrow> length (snd (hex_digits n s)) < length s"
  using hex_digits_shorter[of _ "tl s"]
  by (cases s) (auto simp: starts_digit_def less_Suc_eq_le)

lemma hex_number_shorter: "hex_number s = Some (n, r) \<Longrightarrow> length r < length s"
proof (induction s rule: hex_number.induct)
  case (1 x s)
  have "starts_digit (CHR ''0'' # x # s)" by (simp add: starts_digit_def hex_digit_def)
  from starts_digit_shorter[OF this, of 0] starts_digit_shorter[of s 0] 1 show ?case
    by (auto split: if_splits)
qed (metis (no_types, lifting) hex_number.simps option.discI option.inject snd_conv starts_digit_shorter)+

lemma strtol16_shorter: "strtol16 p = Some (n, r) \<Longrightarrow> length r < length p"
proof -
  assume a: "strtol16 p = Some (n, r)"
  define s where "s = dropWhile is_space p"
  have "length s \<le> length p" by (simp add: s_def length_dropWhile_le)
  moreover have "length r < length s"
    using a hex_number_shorter[of s] hex_number_shorter[of "tl s"]
    by (cases s) (fastforce simp: strtol_of_def s_def[symmetric] Let_def split: if_splits)+
  ultimately show ?thesis by simp
qed

section \<open>Printing\<close>

text \<open>A number in decimal digits, as \<open>%d\<close> and \<open>%u\<close> print it.\<close>

fun dec_digits :: "nat \<Rightarrow> u8 list" where
  "dec_digits n = (if n < 10 then [48 + word_of_nat n] else dec_digits (n div 10) @ [48 + word_of_nat (n mod 10)])"

declare dec_digits.simps [simp del]

definition dec_int :: "int \<Rightarrow> u8 list" where
  "dec_int v = (if v < 0 then 45 # dec_digits (nat (- v)) else dec_digits (nat v))"

end
