(* ===== verification/Cpu_Host.thy ===== *)
theory Cpu_Host imports Cpu_Chip begin

text \<open>
  What the CPU core keeps of its host. The core reaches the host only through memory
  accesses and the loop hook; a predicate on the host that these keep is kept by every
  instruction, interrupt and reset, whatever the program does. The two machines provide
  the interface for the lines the CPU does not drive.
\<close>

section \<open>The interface\<close>

definition host_kept :: "'h hooks \<Rightarrow> ('h \<Rightarrow> bool) \<Rightarrow> 'h cpu \<Rightarrow> bool" where
  "host_kept k P s \<longleftrightarrow> cpu_hooks s = k \<and> P (cpu_host s)"

locale host_invariant =
  fixes k :: "'h hooks" and P :: "'h \<Rightarrow> bool"
  assumes access_read: "P h \<Longrightarrow> P (snd (host_read k a h))"
    and access_write: "P h \<Longrightarrow> P (host_write k a v h)"
    and access_loop: "P h \<Longrightarrow> P (loopexternal k h)"
begin

lemma kept_pair: "P h \<Longrightarrow> P (pair_host k a b h)"
  by (simp add: pair_host_def access_read)

lemma kept_operand: "cpu_hooks s = k \<Longrightarrow> P (cpu_host s) \<Longrightarrow> P (operand_host s)"
  by (simp add: operand_host_def access_read)

lemmas access = access_read access_write kept_pair kept_operand

lemma kept_plain: "list_all (\<lambda>f. \<forall>s. host_kept k P s \<longrightarrow> host_kept k P (f s)) plain_handlers"
  by (simp add: plain_handlers_def insn_defs state_simps host_kept_def access)

lemma kept_arith: "list_all (\<lambda>f. \<forall>s. host_kept k P s \<longrightarrow> host_kept k P (f s)) arith_handlers"
  by (simp add: arith_handlers_def arith_defs state_simps host_kept_def access)

lemmas kept_plain_each = kept_plain[unfolded plain_handlers_def list.pred_inject]
lemmas kept_arith_each = kept_arith[unfolded arith_handlers_def list.pred_inject]

lemma kept_tail: "host_kept k P s \<Longrightarrow> host_kept k P (no_penalty s)" "host_kept k P s \<Longrightarrow> host_kept k P (putvalue w s)"
  by (simp_all add: state_simps host_kept_def access)

lemma kept_undocumented: "list_all (\<lambda>f. \<forall>s. host_kept k P s \<longrightarrow> host_kept k P (f s)) pair_handlers"
  by (simp add: kept_plain_each kept_arith_each pair_handlers_def pair_defs kept_tail Let_def)

lemma kept_handler: "host_kept k P s \<Longrightarrow> host_kept k P (optable v opc s)"
  by (rule optable_cases[OF kept_plain kept_arith kept_undocumented, THEN spec, THEN mp])

lemma kept_mode: "host_kept k P s \<Longrightarrow> host_kept k P (run_mode m s)"
  by (cases m; simp add: mode_defs imp_mode_def acc_mode_def host_kept_def cpu_frame Let_def split_def access)

lemma kept_fetch_execute:
  assumes "host_kept k P s" shows "host_kept k P (fetch_execute s)"
proof -
  have "host_kept k P (decoded s)" using assms by (simp add: decoded_def host_kept_def cpu_frame access)
  then have "host_kept k P (handled s)" by (simp add: handled_def Let_def kept_mode kept_handler)
  then show ?thesis by (simp add: fetch_execute_eq host_kept_def)
qed

lemma kept_step: "host_kept k P s \<Longrightarrow> host_kept k P (step6502 s)"
  using kept_fetch_execute[of "cpu_select_tables s"]
  by (simp add: step6502_def cpu_select_tables_def call_external_def host_kept_def access_loop Let_def)

lemma kept_calls:
  "host_kept k P s \<Longrightarrow> host_kept k P (reset6502 s)" "host_kept k P s \<Longrightarrow> host_kept k P (irq6502 s)" "host_kept k P s \<Longrightarrow> host_kept k P (nmi6502 s)"
  "host_kept k P s \<Longrightarrow> host_kept k P (cpu_clear_wai s)"
  by (simp_all add: reset6502_def irq6502_def nmi6502_def cpu_clear_wai_def host_kept_def state_simps access)

end

section \<open>The addresses of the stack page\<close>

lemma slot_val: "unat (slot w) = 256 + unat w"
  using unat_u8_less[of w] by (simp add: slot_def BASE_STACK_def unat_word_ariths unsigned_ucast_eq take_bit_nat_eq_self)

lemma slot_less: "slot w < 0x200"
  using slot_val[of w] unat_u8_less[of w] by (simp add: word_less_nat_alt)

lemma slot_bits:
  "n \<noteq> 8 \<Longrightarrow> 8 \<le> n \<Longrightarrow> \<not> bit (slot w) n" "bit (slot w) 8" "n < 8 \<Longrightarrow> bit (slot w) n = bit w n"
proof -
  define p :: u16 where "p = push_bit 8 1"
  have p: "bit p n \<longleftrightarrow> n = 8" for n
    unfolding p_def bit_push_bit_iff by (auto simp: bit_1_iff)
  have z: "p AND to16 w = 0"
    by (rule bit_word_eqI) (auto simp: bit_and_iff p bit_unsigned_iff)
  have "slot w = p + to16 w" by (simp add: slot_def BASE_STACK_def p_def)
  also have "\<dots> = p OR to16 w" using z by (rule disjunctive_add_eq_or)
  finally have s: "slot w = p OR to16 w" .
  show "n \<noteq> 8 \<Longrightarrow> 8 \<le> n \<Longrightarrow> \<not> bit (slot w) n" "bit (slot w) 8" "n < 8 \<Longrightarrow> bit (slot w) n = bit w n"
    unfolding s by (auto simp: bit_or_iff p bit_unsigned_iff)
qed

section \<open>Chips on the host\<close>

text \<open>A chip that only ticks, and a chip of the board as one of the core whose host is the board.\<close>

definition ticking :: "('m \<Rightarrow> 'm) \<Rightarrow> 'm chip" where
  "ticking f = \<lparr>chip_tick = Some f, chip_read = None, chip_write = None, chip_reset = None\<rparr>"

definition on_host :: "'h chip \<Rightarrow> 'h cpu chip" where
  "on_host c = ticking (\<lambda>s. case chip_tick c of Some f \<Rightarrow> s\<lparr>cpu_host := f (cpu_host s)\<rparr> | None \<Rightarrow> s)"

lemma ticking_ops [simp]:
  "chip_tick (ticking f) = Some f" "chip_read (ticking f) = None" "chip_write (ticking f) = None"
  by (simp_all add: ticking_def)

lemma tick_on_host: "tick_chips (map on_host cs) s = s\<lparr>cpu_host := tick_chips cs (cpu_host s)\<rparr>"
  by (induction cs arbitrary: s) (auto simp: on_host_def split: option.split)

section \<open>The CPU chip on a machine's bus\<close>

text \<open>The lines a memory access leaves alone, and the tick counter.\<close>

definition cpu_inputs :: "'a bus_scheme \<Rightarrow> bool \<times> bool \<times> bool \<times> u64" where
  "cpu_inputs h = (bus_res h, bus_nmi h, cpu_cycle_due h, osc_ticks h)"

locale cpu_bus =
  fixes k :: "'a bus_scheme hooks"
  assumes read_inputs: "cpu_inputs (snd (host_read k a h)) = cpu_inputs h"
    and write_inputs: "cpu_inputs (host_write k a v h) = cpu_inputs h"
    and loop_inputs: "cpu_inputs (loopexternal k h) = cpu_inputs h"

sublocale cpu_bus \<subseteq> lines: host_invariant k "\<lambda>h. cpu_inputs h = z" for z
  by unfold_locales (simp_all add: read_inputs write_inputs loop_inputs)

context cpu_bus
begin

lemma lines_inputs:
  assumes "cpu_hooks s = k"
  shows "cpu_hooks (snd (cpu_lines c s)) = k"
    and "cpu_inputs (cpu_host (snd (cpu_lines c s))) = cpu_inputs (cpu_host s)"
proof -
  define K where "K = host_kept k (\<lambda>h. cpu_inputs h = cpu_inputs (cpu_host s))"
  have r: "K t \<Longrightarrow> K (reset6502 t)" "K t \<Longrightarrow> K (nmi6502 t)" "K t \<Longrightarrow> K (irq6502 t)"
    "K t \<Longrightarrow> K (cpu_clear_wai t)" for t
    unfolding K_def by (fact lines.kept_calls)+
  have "K s" using assms by (simp add: K_def host_kept_def)
  then have "K (snd (cpu_lines c s))"
    by (simp add: cpu_lines_def Let_def split_def r)
  then show "cpu_hooks (snd (cpu_lines c s)) = k"
    "cpu_inputs (cpu_host (snd (cpu_lines c s))) = cpu_inputs (cpu_host s)"
    by (simp_all add: K_def host_kept_def)
qed

text \<open>A tick that has a CPU cycle pays for exactly one, and the request is answered.\<close>

lemma tick_paced:
  assumes "cpu_hooks s = k" "\<not> bus_res (cpu_host s)" "cpu_cycle_due (cpu_host s)"
    and t: "cpu_65c02_tick c s = (c', s')"
  shows "cpu_hooks s' = k"
    and "bus_res (cpu_host s') = bus_res (cpu_host s)" "osc_ticks (cpu_host s') = osc_ticks (cpu_host s)"
    and "clockticks6502 s' - cycles_owed c' = clockticks6502 s - cycles_owed c + 1"
    and "unat (cycles_owed c) \<le> 10 \<Longrightarrow> unat (cycles_owed c') \<le> 10"
    and "\<not> cpu_cycle_due (cpu_host s')"
proof -
  obtain c1 s1 where l: "cpu_lines c s = (c1, s1)" by (rule prod.exhaust)
  have i: "cpu_hooks s1 = k" "cpu_inputs (cpu_host s1) = cpu_inputs (cpu_host s)"
    using lines_inputs[OF assms(1), of c] by (simp_all add: l)
  define s2 where "s2 = s1\<lparr>cpu_host := (cpu_host s1)\<lparr>cpu_cycle_due := False\<rparr>\<rparr>"
  have c: "cpu_cycle c1 s2 = (c', s')"
    using t i(2) assms(3) by (simp add: cpu_65c02_tick_def l s2_def cpu_inputs_def)
  have e: "clockticks6502 s2 = clockticks6502 s" "cycles_owed c1 = cycles_owed c"
    using cpu_lines_clock[OF l] assms(2) by (simp_all add: s2_def)
  show "clockticks6502 s' - cycles_owed c' = clockticks6502 s - cycles_owed c + 1"
    "unat (cycles_owed c) \<le> 10 \<Longrightarrow> unat (cycles_owed c') \<le> 10"
    using cpu_cycle_account[OF c] by (simp_all add: e)
  have "host_kept k (\<lambda>h. cpu_inputs h = cpu_inputs (cpu_host s2)) s2"
    using i(1) by (simp add: host_kept_def s2_def)
  then have "host_kept k (\<lambda>h. cpu_inputs h = cpu_inputs (cpu_host s2)) (step6502 s2)"
    by (rule lines.kept_step)
  moreover have "s' = s2 \<or> s' = step6502 s2"
    using c by (auto simp: cpu_cycle_def Let_def split: if_splits)
  ultimately have "cpu_hooks s' = k \<and> cpu_inputs (cpu_host s') = cpu_inputs (cpu_host s2)"
    using i(1) by (auto simp: host_kept_def s2_def)
  with i(2) show "cpu_hooks s' = k" "bus_res (cpu_host s') = bus_res (cpu_host s)"
    "osc_ticks (cpu_host s') = osc_ticks (cpu_host s)" "\<not> cpu_cycle_due (cpu_host s')"
    by (simp_all add: s2_def cpu_inputs_def)
qed

text \<open>A tick without a CPU cycle leaves the count and the debt alone.\<close>

lemma tick_idle:
  assumes "cpu_hooks s = k" "\<not> bus_res (cpu_host s)" "\<not> cpu_cycle_due (cpu_host s)"
    and t: "cpu_65c02_tick c s = (c', s')"
  shows "cpu_hooks s' = k" "cpu_inputs (cpu_host s') = cpu_inputs (cpu_host s)"
    and "clockticks6502 s' = clockticks6502 s" "cycles_owed c' = cycles_owed c"
proof -
  obtain c1 s1 where l: "cpu_lines c s = (c1, s1)" by (rule prod.exhaust)
  have i: "cpu_hooks s1 = k" "cpu_inputs (cpu_host s1) = cpu_inputs (cpu_host s)"
    using lines_inputs[OF assms(1), of c] by (simp_all add: l)
  then have e: "c' = c1" "s' = s1" using t assms(3) by (auto simp: cpu_65c02_tick_def l cpu_inputs_def)
  show "cpu_hooks s' = k" "cpu_inputs (cpu_host s') = cpu_inputs (cpu_host s)"
    "clockticks6502 s' = clockticks6502 s" "cycles_owed c' = cycles_owed c"
    using i cpu_lines_clock[OF l] assms(2) by (simp_all add: e)
qed

text \<open>Every tick out of reset, with or without a CPU cycle.\<close>

lemma tick_account:
  assumes "cpu_hooks s = k" "\<not> bus_res (cpu_host s)" "cpu_65c02_tick c s = (c', s')"
  shows "cpu_hooks s' = k" "\<not> bus_res (cpu_host s')" "\<not> cpu_cycle_due (cpu_host s')"
    and "osc_ticks (cpu_host s') = osc_ticks (cpu_host s)"
    and "clockticks6502 s' - cycles_owed c' =
      clockticks6502 s - cycles_owed c + (if cpu_cycle_due (cpu_host s) then 1 else 0)"
    and "unat (cycles_owed c) \<le> 10 \<Longrightarrow> unat (cycles_owed c') \<le> 10"
  using tick_paced[OF assms(1,2) _ assms(3)] tick_idle[OF assms(1,2) _ assms(3)] assms(2)
  by (cases "cpu_cycle_due (cpu_host s)"; simp add: cpu_inputs_def)+

end

text \<open>A predicate of a machine's bus that also a CPU cycle's request leaves alone.\<close>

locale bus_invariant = host_invariant k P for k :: "'a bus_scheme hooks" and P +
  assumes access_due: "P (h\<lparr>cpu_cycle_due := d\<rparr>) = P h"
begin

lemma cycle_keeps:
  assumes "cpu_hooks s = k" "P (cpu_host s)"
  shows "P (cpu_host (snd (cpu_65c02_tick c s)))"
proof -
  have r: "host_kept k P t \<Longrightarrow> host_kept k P (reset6502 t)" "host_kept k P t \<Longrightarrow> host_kept k P (nmi6502 t)"
    "host_kept k P t \<Longrightarrow> host_kept k P (irq6502 t)" "host_kept k P t \<Longrightarrow> host_kept k P (cpu_clear_wai t)" for t
    by (fact kept_calls)+
  have "host_kept k P s" using assms by (simp add: host_kept_def)
  then have l: "host_kept k P (snd (cpu_lines c s))"
    by (simp add: cpu_lines_def Let_def split_def r)
  have d: "host_kept k P (t\<lparr>cpu_host := (cpu_host t)\<lparr>cpu_cycle_due := False\<rparr>\<rparr>) = host_kept k P t" for t
    by (simp add: host_kept_def access_due)
  have "host_kept k P (snd (cpu_cycle e t))" if "host_kept k P t" for e t
    using that kept_step[of t] by (simp add: cpu_cycle_def Let_def)
  then have "host_kept k P (snd (cpu_65c02_tick c s))"
    using l by (simp add: cpu_65c02_tick_def split_def Let_def d)
  then show ?thesis by (simp add: host_kept_def)
qed

end

end
