(* ===== verification/Via_Frame.thy ===== *)
theory Via_Frame imports Ps2_Board Serial_Usb
begin

text \<open>
  What the VIA and the chips wired to it change on the bus: the IRQ line and the bank lines,
  nothing else. The machines use it to frame every other part of their state.
\<close>

named_theorems board_frame "operations that change only the VIA's bus lines"

definition board_of :: "'a bus_scheme \<Rightarrow> 'a bus_scheme" where
  "board_of b = b\<lparr>bus_irq := False, bank_config := 0\<rparr>"

lemma board_of_lines [simp]:
  "board_of (b\<lparr>bus_irq := i\<rparr>) = board_of b" "board_of (b\<lparr>bank_config := c\<rparr>) = board_of b"
  by (simp_all add: board_of_def)

lemma board_update [board_frame]:
  "board_of (snd (update_irq v)) = board_of (snd v)" "board_of (snd (update_bank_config v)) = board_of (snd v)"
  by (simp_all add: update_irq_def update_bank_config_def split_def Let_def)

lemma board_ifr [board_frame]:
  "board_of (snd (via_set_ifr w v)) = board_of (snd v)" "board_of (snd (via_clear_ifr w v)) = board_of (snd v)"
  "board_of (snd (ora_access v)) = board_of (snd v)"
  by (simp_all add: via_set_ifr_def via_clear_ifr_def ora_access_def split_def board_frame)

lemma board_read_reg [board_frame]: "board_of (snd (snd (via_read_reg d r v))) = board_of (snd v)"
  by (simp add: via_read_reg_def split_def Let_def board_frame)

lemma board_write_reg [board_frame]: "board_of (snd (via_write_reg r x v)) = board_of (snd v)"
  by (simp add: via_write_reg_def split_def Let_def board_frame)

lemma board_access [board_frame]:
  "board_of (snd (snd (via_6522_read d a v))) = board_of (snd v)"
  "board_of (snd (snd (via_6522_write a x v))) = board_of (snd v)"
  by (simp_all add: via_6522_read_def via_6522_write_def split_def Let_def board_frame)

lemma board_cycles [board_frame]:
  "board_of (snd (t1_cycle v)) = board_of (snd v)" "board_of (snd (shift_in v)) = board_of (snd v)"
  "board_of (snd (via_res_edge v)) = board_of (snd v)"
  by (simp_all add: t1_cycle_def shift_in_def via_res_edge_def split_def Let_def board_frame)

lemma board_t2 [board_frame]: "board_of (snd (t2_cycle v)) = board_of (snd v)"
  by (simp add: t2_cycle_def split_def Let_def board_frame)

lemma board_via_tick [board_frame]: "board_of (snd (via_6522_tick v)) = board_of (snd v)"
  by (simp add: via_6522_tick_def Let_def board_frame)

lemma board_inputs [board_frame]:
  "board_of (snd (via_6522_set_cb2 l v)) = board_of (snd v)"
  "board_of (snd (via_6522_set_ca2 l v)) = board_of (snd v)"
  by (simp_all add: via_6522_set_cb2_def via_6522_set_ca2_def split_def Let_def board_frame)

lemma board_ps2 [board_frame]: "board_of (snd (snd (ps2_board_tick d x))) = board_of (snd (snd x))"
  by (simp add: ps2_board_tick_def board_detector_def split_def Let_def board_frame)

lemma board_serial [board_frame]: "board_of (snd (snd (serial_usb_tick x))) = board_of (snd (snd x))"
  by (simp add: serial_usb_tick_def split_def Let_def board_frame split: serial_phase.split)

text \<open>What equal boards share.\<close>

lemma board_fields:
  assumes "board_of b = board_of c"
  shows "bus_addr b = bus_addr c" "bus_rwb b = bus_rwb c" "bus_romcs b = bus_romcs c"
    "bus_ramcs b = bus_ramcs c" "bus_viacs b = bus_viacs c" "r_bits b = r_bits c"
    "bus_res b = bus_res c" "bus_nmi b = bus_nmi c" "cpu_cycle_due b = cpu_cycle_due c"
    "osc_ticks b = osc_ticks c" "bus_cks b = bus_cks c" "bus_ck b = bus_ck c"
    "bus.more b = bus.more c"
  using arg_cong[OF assms, of bus_addr] arg_cong[OF assms, of bus_rwb] arg_cong[OF assms, of bus_romcs]
    arg_cong[OF assms, of bus_ramcs] arg_cong[OF assms, of bus_viacs] arg_cong[OF assms, of r_bits]
    arg_cong[OF assms, of bus_res] arg_cong[OF assms, of bus_nmi] arg_cong[OF assms, of cpu_cycle_due]
    arg_cong[OF assms, of osc_ticks] arg_cong[OF assms, of bus_cks] arg_cong[OF assms, of bus_ck]
    arg_cong[OF assms, of bus.more]
  by (simp_all add: board_of_def)

end
