(* ===== verification/Michael.thy ===== *)
theory Michael
  imports C_Text Cpu_Host Memory_Chips Via_Frame Ps2_Keys Lcd_Panel Fpga_Bus Gal_Spi Net_Client
    "HOL-Library.Monad_Syntax"
begin

text \<open>
  The Michael board (\<open>src/emulator/emu_michael.c\<close>): its chips on one bus, the CPU's accesses
  through the glue logic, the devices on port B, the board's checks and faults, loading a
  program, reset and stepping. The machine's record extends the bus with the state of every
  chip; the CPU core runs on it as its host.
\<close>

section \<open>The machine\<close>

text \<open>What the options plug in, and the state of the board.\<close>

record michael_config =
  ram_decode :: glue_michael_ram
  add_gal :: bool
  add_w5500 :: bool
  add_client :: bool
  cs_bounce :: bool
  cs_flaky :: bool
  irq_cut :: bool

record michael = bus +
  m_rom :: rom_28c256_state
  m_ram :: ram_628128_state
  m_via :: via_6522_state
  m_lcd :: lcd_state
  m_kbd :: ps2_board_state
  m_serial :: serial_usb_state
  m_fpga :: fpga_bus_state
  m_gal :: gal_spi_state
  m_net :: "w5500_state \<times> net_client"
  contention :: u32
  contending :: bool
  bounce_level :: u8
  bounce_falls :: u32
  m_cpu :: cpu_65c02_state

section \<open>Port B\<close>

text \<open>
  Who drives port B, and what is read there. The LCD is on port A but for its data, so its
  output does not depend on what port B reads.
\<close>

definition portb_drives :: "michael_config \<Rightarrow> michael \<Rightarrow> u8 option list" where
  "portb_drives cfg m =
     [lcd_hd44780_output None (Some (m_via m)) (m_lcd m), ps2_board_output (m_via m) (m_kbd m),
      fpga_bus_output (m_via m) (m_fpga m), if add_gal cfg then gal_spi_output (m_gal m) else None]"

definition wired_and :: "u8 option list \<Rightarrow> u8" where
  "wired_and ds = foldr (\<lambda>d v. (case d of Some x \<Rightarrow> x | None \<Rightarrow> 0xFF) AND v) ds 0xFF"

definition portb_input :: "michael_config \<Rightarrow> michael \<Rightarrow> u8" where
  "portb_input cfg m =
     (let ds = portb_drives cfg m in if list_ex (\<lambda>d. d \<noteq> None) ds then wired_and ds else 0x00)"

definition portb_drive :: "michael_config \<Rightarrow> michael \<Rightarrow> u8 option" where
  "portb_drive cfg m = Some (portb_input cfg m)"

definition bus_check_tick :: "michael_config \<Rightarrow> michael \<Rightarrow> michael" where
  "bus_check_tick cfg m =
     (let drivers = of_bool (ddrb (m_via m) \<noteq> 0) + length (filter (\<lambda>d. d \<noteq> None) (portb_drives cfg m)) :: nat
      in if drivers > 1
         then (if contending m then m else m\<lparr>contention := contention m + 1\<rparr>)\<lparr>contending := True\<rparr>
         else m\<lparr>contending := False\<rparr>)"

definition popcount :: "u8 \<Rightarrow> nat" where
  "popcount w = length (filter (bit w) [0..<8])"

text \<open>A fall of several lines at once, or every 37th fall, disturbs the W5500's chip select.\<close>

definition cs_glitch :: "michael \<Rightarrow> michael" where
  "cs_glitch m = (let (w, c) = m_net m in m\<lparr>m_net := (w5500_cs_glitch w, c)\<rparr>)"

definition bounce_tick :: "michael_config \<Rightarrow> michael \<Rightarrow> michael" where
  "bounce_tick cfg m =
     (let ds = portb_drives cfg m; via = m_via m;
          level = (orb via AND ddrb via) OR (bounce_level m AND NOT (ddrb via));
          level = (if list_ex (\<lambda>d. d \<noteq> None) ds
                   then (level AND ddrb via) OR (wired_and ds AND NOT (ddrb via)) else level);
          falling = popcount (bounce_level m AND NOT level);
          m = (if cs_bounce cfg \<and> falling > 2 then cs_glitch m else m);
          m = (if cs_flaky cfg \<and> falling \<noteq> 0 \<and> selected (fst (m_net m))
               then (let m = m\<lparr>bounce_falls := bounce_falls m + 1\<rparr>
                     in if bounce_falls m mod 37 = 0 then cs_glitch m else m)
               else m)
      in m\<lparr>bounce_level := level\<rparr>)"

section \<open>The chips\<close>

definition no_spi :: "'d spi_device" where
  "no_spi = \<lparr>dev_pulse = None, dev_select = None, dev_reset = None\<rparr>"

definition michael_peer :: "michael_config \<Rightarrow> net_client w5500_peer" where
  "michael_peer cfg = (if add_client cfg then client_peer else \<lparr>peer_receive = None, peer_closed = None\<rparr>)"

definition glue_chip :: "michael_config \<Rightarrow> michael chip" where
  "glue_chip cfg = ticking (glue_michael_tick (ram_decode cfg))"

definition rom_chip :: "michael chip" where
  "rom_chip = \<lparr>chip_tick = None, chip_read = Some (\<lambda>a m. (rom_28c256_read m a (m_rom m), m)),
     chip_write = Some (\<lambda>a v m. (rom_28c256_write m a v, m)), chip_reset = Some (\<lambda>m. m)\<rparr>"

definition ram_chip :: "michael chip" where
  "ram_chip = \<lparr>chip_tick = None, chip_read = Some (\<lambda>a m. (ram_628128_read m a (m_ram m), m)),
     chip_write = Some (\<lambda>a v m. let (ok, r) = ram_628128_write m a v (m_ram m) in (ok, m\<lparr>m_ram := r\<rparr>)),
     chip_reset = Some (\<lambda>m. m)\<rparr>"

definition via_chip :: "michael_config \<Rightarrow> michael chip" where
  "via_chip cfg =
     \<lparr>chip_tick = Some (\<lambda>m. let (v, m) = via_6522_tick (m_via m, m) in m\<lparr>m_via := v\<rparr>),
      chip_read = Some (\<lambda>a m. let (r, v, m) = via_6522_read (portb_drive cfg m) a (m_via m, m)
                              in (r, m\<lparr>m_via := v\<rparr>)),
      chip_write = Some (\<lambda>a d m. let (ok, v, m) = via_6522_write a d (m_via m, m) in (ok, m\<lparr>m_via := v\<rparr>)),
      chip_reset = Some (\<lambda>m. m\<lparr>m_via := via_6522_reset (m_via m)\<rparr>)\<rparr>"

definition lcd_chip :: "michael_config \<Rightarrow> michael chip" where
  "lcd_chip cfg = (ticking (\<lambda>m. m\<lparr>m_lcd := lcd_hd44780_tick (portb_drive cfg m) (Some (m_via m)) (m_lcd m)\<rparr>))
     \<lparr>chip_reset := Some (\<lambda>m. m\<lparr>m_lcd := lcd_hd44780_reset (m_lcd m)\<rparr>)\<rparr>"

definition kbd_chip :: "michael_config \<Rightarrow> michael chip" where
  "kbd_chip cfg = ticking (\<lambda>m. let (k, v, m) = ps2_board_tick (portb_drive cfg m) (m_kbd m, m_via m, m)
     in m\<lparr>m_kbd := k, m_via := v\<rparr>)"

definition serial_chip :: "michael chip" where
  "serial_chip = (ticking (\<lambda>m. let (s, v, m) = serial_usb_tick (m_serial m, m_via m, m)
       in m\<lparr>m_serial := s, m_via := v\<rparr>))
     \<lparr>chip_reset := Some (\<lambda>m. let (s, v) = serial_usb_reset (m_serial m) (m_via m)
       in m\<lparr>m_serial := s, m_via := v\<rparr>)\<rparr>"

text \<open>The FPGA has the W5500 on its own SPI, or the GAL interface has it.\<close>

definition fpga_chip :: "michael_config \<Rightarrow> michael chip" where
  "fpga_chip cfg = ticking (\<lambda>m.
     let (f, x) = fpga_bus_tick (portb_drive cfg m)
           (if add_w5500 cfg \<and> \<not> add_gal cfg then w5500_spi (michael_peer cfg) else no_spi)
           (m_via m) (m_fpga m, m_net m)
     in m\<lparr>m_fpga := f, m_net := x\<rparr>)"

definition w5500_chip :: "michael_config \<Rightarrow> michael chip" where
  "w5500_chip cfg = (ticking (\<lambda>m. let (w, c) = m_net m
       in m\<lparr>m_net := (w5500_tick (if add_gal cfg then Some (m_via m) else None) w, c)\<rparr>))
     \<lparr>chip_reset := Some (\<lambda>m. let (w, c) = m_net m in m\<lparr>m_net := (w5500_reset w, c)\<rparr>)\<rparr>"

definition gal_chip :: "michael_config \<Rightarrow> michael chip" where
  "gal_chip cfg = (ticking (\<lambda>m.
       let (g, x) = gal_spi_tick (portb_drive cfg m)
             (if add_w5500 cfg then w5500_spi (michael_peer cfg) else no_spi) (m_via m) (m_gal m, m_net m)
       in m\<lparr>m_gal := g, m_net := x\<rparr>))
     \<lparr>chip_reset := Some (\<lambda>m. m\<lparr>m_gal := gal_spi_reset (m_gal m)\<rparr>)\<rparr>"

definition client_chip :: "michael chip" where
  "client_chip = ticking (\<lambda>m. m\<lparr>m_net := net_client_tick (m_net m)\<rparr>)"

definition irq_cut_tick :: "michael \<Rightarrow> michael" where
  "irq_cut_tick m = m\<lparr>bus_irq := False\<rparr>"

text \<open>The chips in the order they are added to the bus, all but the CPU, which comes last.\<close>

definition michael_chips :: "michael_config \<Rightarrow> michael chip list" where
  "michael_chips cfg =
     [glue_chip cfg, rom_chip, ram_chip, via_chip cfg, lcd_chip cfg, kbd_chip cfg, serial_chip, fpga_chip cfg] @
     (if add_w5500 cfg then [w5500_chip cfg] else []) @ (if add_gal cfg then [gal_chip cfg] else []) @
     (if add_client cfg then [client_chip] else []) @
     (if cs_bounce cfg \<or> cs_flaky cfg then [ticking (bounce_tick cfg)] else []) @
     [ticking (bus_check_tick cfg)] @ (if irq_cut cfg then [ticking irq_cut_tick] else [])"

section \<open>The CPU's accesses\<close>

definition michael_cpu_read :: "michael_config \<Rightarrow> u16 \<Rightarrow> michael \<Rightarrow> u8 \<times> michael" where
  "michael_cpu_read cfg addr m =
     (let m = m\<lparr>bus_addr := addr, bus_rwb := True\<rparr>;
          (chip_addr, m) = glue_michael_decode (ram_decode cfg) m;
          (r, m) = bus_read (michael_chips cfg) chip_addr m
      in (case r of Some data \<Rightarrow> data | None \<Rightarrow> 0xFF, m))"

text \<open>With the Eater decode a write to the VIA also goes to the RAM.\<close>

definition michael_bus_write :: "michael_config \<Rightarrow> u8 \<Rightarrow> michael \<Rightarrow> michael" where
  "michael_bus_write cfg data m =
     (let (chip_addr, m) = glue_michael_decode (ram_decode cfg) m;
          m = (if bus_viacs m \<and> bus_ramcs m
               then (snd (bus_write (michael_chips cfg) chip_addr data (m\<lparr>bus_ramcs := False\<rparr>)))
                      \<lparr>bus_ramcs := True, bus_viacs := False\<rparr>
               else m)
      in snd (bus_write (michael_chips cfg) chip_addr data m))"

definition michael_cpu_write :: "michael_config \<Rightarrow> u16 \<Rightarrow> u8 \<Rightarrow> michael \<Rightarrow> michael" where
  "michael_cpu_write cfg addr data m = michael_bus_write cfg data (m\<lparr>bus_addr := addr, bus_rwb := False\<rparr>)"

text \<open>
  The hooks while the machine runs. No tap and no loop hook is set anywhere; \<open>rd\<close> and \<open>wr\<close>
  are the program's own \<open>read6502\<close> and \<open>write6502\<close>, which the external hooks replace.
\<close>

definition michael_hooks ::
  "michael_config \<Rightarrow> (u16 \<Rightarrow> michael \<Rightarrow> u8 \<times> michael) \<Rightarrow> (u16 \<Rightarrow> u8 \<Rightarrow> michael \<Rightarrow> michael) \<Rightarrow> michael hooks"
where
  "michael_hooks cfg rd wr = \<lparr>read6502 = rd, write6502 = wr,
     cpu_external_read = Some (michael_cpu_read cfg), cpu_external_write = Some (michael_cpu_write cfg),
     cpu_bus_read_tap = None, cpu_bus_write_tap = None, loopexternal = (\<lambda>m. m)\<rparr>"

section \<open>Ticks\<close>

text \<open>The chips of the board tick on the core's host, the CPU chip ticks the core.\<close>

definition cpu_chip :: "michael cpu chip" where
  "cpu_chip = (ticking (\<lambda>s. let (c, s) = cpu_65c02_tick (m_cpu (cpu_host s)) s
       in s\<lparr>cpu_host := (cpu_host s)\<lparr>m_cpu := c\<rparr>\<rparr>))
     \<lparr>chip_reset := Some (\<lambda>s. let (c, s) = cpu_65c02_reset (m_cpu (cpu_host s)) s
       in s\<lparr>cpu_host := (cpu_host s)\<lparr>m_cpu := c\<rparr>\<rparr>)\<rparr>"

definition michael_tick :: "michael_config \<Rightarrow> michael cpu \<Rightarrow> michael cpu" where
  "michael_tick cfg = bus_step (\<lambda>s. s\<lparr>cpu_host := (cpu_host s)\<lparr>osc_ticks := osc_ticks (cpu_host s) + 1\<rparr>\<rparr>)
     (map on_host (michael_chips cfg) @ [cpu_chip])"

definition michael_res :: "bool \<Rightarrow> michael cpu \<Rightarrow> michael cpu" where
  "michael_res level s = s\<lparr>cpu_host := (cpu_host s)\<lparr>bus_res := level\<rparr>\<rparr>"

definition pulse_reset :: "michael_config \<Rightarrow> michael cpu \<Rightarrow> michael cpu" where
  "pulse_reset cfg s = michael_res False ((michael_tick cfg ^^ 8) (michael_res True s))"

text \<open>Up to \<open>n\<close> ticks, and the lowest stack pointer seen.\<close>

fun michael_step :: "michael_config \<Rightarrow> u64 \<Rightarrow> bool \<Rightarrow> nat \<Rightarrow> michael cpu \<times> u8 \<Rightarrow> michael cpu \<times> u8" where
  "michael_step cfg cap stop_at_stp 0 x = x"
| "michael_step cfg cap stop_at_stp (Suc n) (s, lowest) =
     (if osc_ticks (cpu_host s) < cap \<and> \<not> (stop_at_stp \<and> stp_pending s)
      then (let s = michael_tick cfg s
            in michael_step cfg cap stop_at_stp n (s, if cpu_sp s < lowest then cpu_sp s else lowest))
      else (s, lowest))"

section \<open>The keyboard's options\<close>

text \<open>The bytes of the list, at most as many as the queue holds; the whole list is one key.\<close>

function scancodes :: "u8 list \<Rightarrow> string \<Rightarrow> u8 list option" where
  "scancodes codes [] = Some codes"
| "scancodes codes (ch # p) =
     (case strtol16 (ch # p) of
        None \<Rightarrow> None
      | Some (byte, rest) \<Rightarrow>
          if byte < 0 \<or> byte > 0xFF \<or> (rest \<noteq> [] \<and> hd rest \<noteq> CHR '','') \<or> length codes = PS2_QUEUE_SIZE
          then None else scancodes (codes @ [word_of_int byte]) (tl rest))"
  by pat_completeness auto
termination
  by (relation "measure (\<lambda>(codes, p). length p)") (auto dest: strtol16_shorter)

definition queue_scancodes :: "string \<Rightarrow> ps2_board_state \<Rightarrow> ps2_board_state option" where
  "queue_scancodes list kbd = (case scancodes [] list of
     None \<Rightarrow> None | Some codes \<Rightarrow> ps2_board_queue_key codes kbd)"

text \<open>A file is its bytes, or None where it cannot be opened.\<close>

type_synonym disk_file = "u8 list option"

definition queue_keys_file :: "disk_file \<Rightarrow> ps2_board_state \<Rightarrow> ps2_board_state option" where
  "queue_keys_file f kbd = (case f of
     None \<Rightarrow> None
   | Some text_bytes \<Rightarrow>
       (let (ok, kbd) = type_keys (take PS2_QUEUE_SIZE text_bytes) kbd in if ok then Some kbd else None))"

definition board_fault :: "string option \<Rightarrow> ps2_fault" where
  "board_fault name = (case name of
     None \<Rightarrow> PS2_FAULT_NONE
   | Some n \<Rightarrow> if n = ''noedge'' then PS2_FAULT_NOEDGE else if n = ''noack'' then PS2_FAULT_NOACK
              else if n = ''resend'' then PS2_FAULT_RESEND else PS2_FAULT_NONE)"

section \<open>Setting the board up\<close>

record michael_opts =
  ram_map :: "string option"
  kbd_fault :: "string option"
  key_interval_ms :: u32
  kbd_scancodes :: "string option"
  keys_file :: "disk_file option"
  serial_input :: "disk_file option"
  no_fpga :: bool
  gal_spi_added :: bool
  w5500_added :: bool
  w5500_cs_rc :: bool
  w5500_cs_bounce :: bool
  w5500_cs_flaky :: bool
  net_request :: "disk_file option"
  net_response :: bool
  net_port :: u16
  net_connections :: nat
  net_idle :: nat
  rom_file :: "disk_file option"
  code_file :: disk_file
  load_address :: "u16 option"

definition michael_config_of :: "michael_opts \<Rightarrow> michael_config" where
  "michael_config_of opts =
     \<lparr>ram_decode = (case Option.bind (ram_map opts) glue_michael_ram_by_name of
          Some r \<Rightarrow> r | None \<Rightarrow> GLUE_MICHAEL_RAM_16K),
      add_gal = gal_spi_added opts, add_w5500 = w5500_added opts, add_client = net_request opts \<noteq> None,
      cs_bounce = w5500_cs_bounce opts, cs_flaky = w5500_cs_flaky opts,
      irq_cut = (kbd_fault opts = Some ''noirq'')\<rparr>"

definition set_vector :: "u16 \<Rightarrow> u16 \<Rightarrow> rom_28c256_state \<Rightarrow> rom_28c256_state" where
  "set_vector vector target rom =
     rom(vector AND (ROM_28C256_SIZE - 1) := to8 (target AND 0xFF),
         (vector + 1) AND (ROM_28C256_SIZE - 1) := to8 (drop_bit 8 target))"

definition MICHAEL_TICKS_PER_US :: u32 where "MICHAEL_TICKS_PER_US = 2"

text \<open>Where a program is loaded into RAM, the ROM may hold only the vectors.\<close>

definition rom_path :: "michael_opts \<Rightarrow> disk_file option" where
  "rom_path opts = (case rom_file opts of
     Some f \<Rightarrow> Some f | None \<Rightarrow> if load_address opts = None then Some (code_file opts) else None)"

definition michael_rom :: "michael_opts \<Rightarrow> rom_28c256_state option" where
  "michael_rom opts = (case rom_path opts of
     Some f \<Rightarrow> rom_28c256_load f
   | None \<Rightarrow> Some (set_vector 0xFFFE 0x3F00
       (set_vector 0xFFFC (case load_address opts of Some a \<Rightarrow> a | None \<Rightarrow> 0) rom_28c256_init)))"

definition michael_keyboard :: "michael_opts \<Rightarrow> ps2_board_state \<Rightarrow> ps2_board_state option" where
  "michael_keyboard opts kbd =
     (let kbd = kbd\<lparr>fault := board_fault (kbd_fault opts)\<rparr>;
          kbd = (if key_interval_ms opts \<noteq> 0 then kbd\<lparr>key_interval_us := key_interval_ms opts * 1000\<rparr> else kbd)
      in do { kbd \<leftarrow> (case kbd_scancodes opts of Some l \<Rightarrow> queue_scancodes l kbd | None \<Rightarrow> Some kbd);
              (case keys_file opts of Some f \<Rightarrow> queue_keys_file f kbd | None \<Rightarrow> Some kbd) })"

definition michael_client :: "michael_opts \<Rightarrow> net_client option" where
  "michael_client opts =
     (let client = (\<lambda>req. net_client_init (net_port opts) req (net_connections opts) (net_idle opts)
            (unat (1000 * MICHAEL_TICKS_PER_US)) (if net_response opts then Some [] else None))
      in case net_request opts of
           None \<Rightarrow> Some (client []) | Some None \<Rightarrow> None | Some (Some bytes) \<Rightarrow> Some (client (take 0x10000 bytes)))"

text \<open>The board before the first tick, or None where an option fails (a return of 1).\<close>

definition michael_setup :: "michael_opts \<Rightarrow> michael option" where
  "michael_setup opts =
     (let lcd = lcd_hd44780_set_geometry 4 20 (lcd_hd44780_set_wiring LCD_WIRING_MICHAEL lcd_hd44780_init);
          (kbd, via) = ps2_board_init MICHAEL_TICKS_PER_US via_6522_init;
          (ser, via) = serial_usb_init via;
          w = w5500_init 0x01;
          w = (if w5500_cs_rc opts then w\<lparr>cs_delay := 20 * MICHAEL_TICKS_PER_US\<rparr> else w)
      in do { kbd \<leftarrow> michael_keyboard opts kbd;
              ser \<leftarrow> (case serial_input opts of Some f \<Rightarrow> serial_usb_queue_file f ser | None \<Rightarrow> Some ser);
              client \<leftarrow> michael_client opts;
              rom \<leftarrow> michael_rom opts;
              Some (bus.extend bus_init (michael.fields rom ram_628128_init via lcd kbd ser
                (fpga_bus_init\<lparr>fpga_absent := no_fpga opts \<or> gal_spi_added opts\<rparr>) gal_spi_init (w, client)
                0 False 0xFF 0 cpu_65c02_init)) })"

section \<open>Loading and starting\<close>

text \<open>The program goes into RAM through the bus; None where a byte has no RAM.\<close>

fun load_bytes :: "michael_config \<Rightarrow> u16 \<Rightarrow> u8 list \<Rightarrow> michael \<Rightarrow> michael option" where
  "load_bytes cfg a [] m = Some m"
| "load_bytes cfg a (byte # bytes) m =
     (let m = m\<lparr>bus_addr := a, bus_rwb := False\<rparr>;
          m = snd (glue_michael_decode (ram_decode cfg) m)
      in if \<not> bus_ramcs m then None else load_bytes cfg (a + 1) bytes (michael_bus_write cfg byte m))"

definition load_program :: "michael_config \<Rightarrow> disk_file \<Rightarrow> u16 \<Rightarrow> michael \<Rightarrow> michael option" where
  "load_program cfg f load m = (case f of
     None \<Rightarrow> None | Some bytes \<Rightarrow> map_option (\<lambda>m. m\<lparr>bus_rwb := True\<rparr>) (load_bytes cfg load bytes m))"

definition rom_lcd_setup :: "u8 list" where
  "rom_lcd_setup = [0x38, 0x08, 0x01, 0x06, 0x0C]"

definition michael_boot ::
  "michael_opts \<Rightarrow> cpu_variant \<Rightarrow> (u16 \<Rightarrow> michael \<Rightarrow> u8 \<times> michael) \<Rightarrow> (u16 \<Rightarrow> u8 \<Rightarrow> michael \<Rightarrow> michael) \<Rightarrow>
   michael cpu option" where
  "michael_boot opts variant rd wr =
     (let cfg = michael_config_of opts in
      do { m \<leftarrow> michael_setup opts;
           m \<leftarrow> (case load_address opts of Some load \<Rightarrow> load_program cfg (code_file opts) load m | None \<Rightarrow> Some m);
           let s = pulse_reset cfg ((power_on (michael_hooks cfg rd wr) m)\<lparr>cpu_variant_sel := variant\<rparr>);
           Some (if rom_path opts = None
                 then s\<lparr>cpu_host := (cpu_host s)\<lparr>m_lcd := fold lcd_hd44780_instruction rom_lcd_setup
                        (m_lcd (cpu_host s))\<rparr>\<rparr>
                 else s) })"

text \<open>The plain run: batches of ticks to the cap or to an STP.\<close>

partial_function (option) michael_run ::
  "michael_config \<Rightarrow> u64 \<Rightarrow> michael cpu \<times> u8 \<Rightarrow> (michael cpu \<times> u8) option" where
  "michael_run cfg cap x =
     (if osc_ticks (cpu_host (fst x)) < cap \<and> \<not> stp_pending (fst x)
      then michael_run cfg cap (michael_step cfg cap True 50000 x) else Some x)"

text \<open>The LED is lit while PA1 is an output driven high.\<close>

definition michael_led_on :: "via_6522_state \<Rightarrow> bool" where
  "michael_led_on via \<longleftrightarrow> ddra via AND 0x02 \<noteq> 0 \<and> porta_pin_value via AND 0x02 \<noteq> 0"

end
