(* ===== verification/Michael_Memory.thy ===== *)
theory Michael_Memory imports Michael
begin

text \<open>
  Michael's memory as the program sees it: what the board's decode makes of the CPU's
  accesses, refined to one map from addresses to bytes. The stack page is part of it, so
  calls and interrupts return on this board.
\<close>

section \<open>Who answers an access\<close>

lemmas chip_defs = glue_chip_def rom_chip_def ram_chip_def via_chip_def lcd_chip_def kbd_chip_def
  serial_chip_def fpga_chip_def w5500_chip_def gal_chip_def client_chip_def

lemma michael_read_eq:
  "bus_read (michael_chips cfg) a m =
     (case rom_28c256_read m a (m_rom m) of Some v \<Rightarrow> (Some v, m) | None \<Rightarrow>
        (case ram_628128_read m a (m_ram m) of Some v \<Rightarrow> (Some v, m) | None \<Rightarrow>
           (let (r, s, m') = via_6522_read (portb_drive cfg m) a (m_via m, m) in (r, m'\<lparr>m_via := s\<rparr>))))"
  by (cases "add_w5500 cfg"; cases "add_gal cfg"; cases "add_client cfg"; cases "irq_cut cfg";
      cases "cs_bounce cfg \<or> cs_flaky cfg";
      simp add: michael_chips_def chip_defs split: option.splits prod.splits)

lemma michael_write_eq:
  "bus_write (michael_chips cfg) a v m =
     (if rom_28c256_write m a v then (True, m)
      else let (ok, r) = ram_628128_write m a v (m_ram m)
           in if ok then (True, m\<lparr>m_ram := r\<rparr>)
              else let (ok, s, m') = via_6522_write a v (m_via m, m\<lparr>m_ram := r\<rparr>) in (ok, m'\<lparr>m_via := s\<rparr>))"
  by (cases "add_w5500 cfg"; cases "add_gal cfg"; cases "add_client cfg"; cases "irq_cut cfg";
      cases "cs_bounce cfg \<or> cs_flaky cfg";
      simp add: michael_chips_def chip_defs split: option.splits prod.splits bool.splits)

section \<open>The map\<close>

fun ram_holds :: "glue_michael_ram \<Rightarrow> u16 \<Rightarrow> bool" where
  "ram_holds GLUE_MICHAEL_RAM_16K a \<longleftrightarrow> a < 0x4000"
| "ram_holds GLUE_MICHAEL_RAM_EATER a \<longleftrightarrow> a < 0x4000"
| "ram_holds GLUE_MICHAEL_RAM_FULL a \<longleftrightarrow> a < 0x6000"
| "ram_holds GLUE_MICHAEL_RAM_MIRROR8K a \<longleftrightarrow> a < 0x6000"

fun ram_takes :: "glue_michael_ram \<Rightarrow> u16 \<Rightarrow> bool" where
  "ram_takes GLUE_MICHAEL_RAM_EATER a \<longleftrightarrow> a < 0x8000"
| "ram_takes r a \<longleftrightarrow> ram_holds r a"

text \<open>The cell of the chip: addresses with the same cell are the same byte.\<close>

fun ram_cell :: "glue_michael_ram \<Rightarrow> u16 \<Rightarrow> u32" where
  "ram_cell GLUE_MICHAEL_RAM_16K a = ucast (a AND 0x3FFF)"
| "ram_cell GLUE_MICHAEL_RAM_EATER a = ucast (a AND 0x3FFF)"
| "ram_cell GLUE_MICHAEL_RAM_FULL a = push_bit 15 (of_bool (bit a 14)) OR ucast (a AND 0x3FFF)"
| "ram_cell GLUE_MICHAEL_RAM_MIRROR8K a = ucast (a AND 0x1FFF)"

text \<open>What the program finds at an address; at the VIA's there is no memory.\<close>

definition michael_memory :: "michael_config \<Rightarrow> michael \<Rightarrow> u16 \<Rightarrow> u8 option" where
  "michael_memory cfg m a =
     (if 0x8000 \<le> a then Some (m_rom m (a AND 0x7FFF))
      else if 0x6000 \<le> a then None
      else if ram_holds (ram_decode cfg) a then Some (m_ram m (ram_cell (ram_decode cfg) a))
      else Some 0xFF)"

definition memory_write ::
  "michael_config \<Rightarrow> u16 \<Rightarrow> u8 \<Rightarrow> (u16 \<Rightarrow> u8 option) \<Rightarrow> u16 \<Rightarrow> u8 option" where
  "memory_write cfg a v mem = (\<lambda>b.
     if ram_takes (ram_decode cfg) a \<and> ram_holds (ram_decode cfg) b \<and>
        ram_cell (ram_decode cfg) a = ram_cell (ram_decode cfg) b
     then Some v else mem b)"

section \<open>The decode\<close>

lemma low13_u16: "(0x1FFF :: u16) = mask 13"
  by (simp add: mask_eq_exp_minus_1)

lemma below_half: "a < 0x8000 \<Longrightarrow> \<not> bit a 15" for a :: u16
  using top_bit_u16[of a] by (simp add: not_le)

lemma decoded_cell:
  assumes "glue_michael_decode d b = (c, b')" "bus_ramcs b'"
  shows "physical_addr b' c = ram_cell d (bus_addr b)"
proof (rule bit_word_eqI)
  fix i
  have "bus_addr b < 0x8000"
    using assms by (cases d) (auto simp: glue_michael_decode_def Let_def word_less_nat_alt split: if_splits)
  then have hi: "\<not> bit (bus_addr b) 15" by (rule below_half)
  have m14: "bit (ucast (w AND 0x3FFF) :: u32) i \<longleftrightarrow> i < 14 \<and> bit w i" for w :: u16
    by (auto simp: low14_u16 bit_simps)
  have m13: "bit (ucast (w AND mask 13) :: u32) j \<longleftrightarrow> j < 13 \<and> bit w j" for w :: u16 and j
    by (auto simp: bit_simps)
  have z: "bit (push_bit 15 (of_bool p) :: u32) i \<longleftrightarrow> i = 15 \<and> p" for p
    by (auto simp: bit_simps)
  have r: "bit (to8 (drop_bit 14 w AND 1)) j \<longleftrightarrow> j = 0 \<and> bit w 14" for w :: u16 and j
    by (auto simp: bit_simps)
  show "bit (physical_addr b' c) i = bit (ram_cell d (bus_addr b)) i"
    using assms hi
    by (cases d) (auto simp: glue_michael_decode_def Let_def bit_physical_addr m14 m13 z r low13_u16
        bit_and_iff bit_or_iff bit_mask_iff)
qed

section \<open>The accesses refine the map\<close>

lemma board_fields_michael:
  assumes "board_of m = board_of n"
  shows "m_rom m = m_rom n" "m_ram m = m_ram n" "m_cpu m = m_cpu n"
  using arg_cong[OF assms, of m_rom] arg_cong[OF assms, of m_ram] arg_cong[OF assms, of m_cpu]
  by (simp_all add: board_of_def)

lemma board_memory: "board_of m = board_of n \<Longrightarrow> michael_memory cfg m = michael_memory cfg n"
  using board_fields_michael[of m n] by (simp add: michael_memory_def fun_eq_iff)

lemma memory_bus_fields [simp]:
  "michael_memory cfg (m\<lparr>bus_addr := a\<rparr>) = michael_memory cfg m"
  "michael_memory cfg (m\<lparr>bus_rwb := rwb\<rparr>) = michael_memory cfg m"
  "michael_memory cfg (m\<lparr>bus_romcs := cs\<rparr>) = michael_memory cfg m"
  "michael_memory cfg (m\<lparr>bus_ramcs := cs\<rparr>) = michael_memory cfg m"
  "michael_memory cfg (m\<lparr>bus_viacs := cs\<rparr>) = michael_memory cfg m"
  "michael_memory cfg (m\<lparr>r_bits := r\<rparr>) = michael_memory cfg m"
  "michael_memory cfg (m\<lparr>m_via := v\<rparr>) = michael_memory cfg m"
  by (simp_all add: michael_memory_def fun_eq_iff)

lemma decode_lines:
  assumes "glue_michael_decode d b = (c, b')"
  shows "bus_romcs b' \<longleftrightarrow> 0x8000 \<le> bus_addr b"
    and "bus_viacs b' \<longleftrightarrow> 0x6000 \<le> bus_addr b \<and> bus_addr b < 0x8000"
    and "bus_ramcs b' \<longleftrightarrow> (if bus_rwb b then ram_holds d (bus_addr b) else ram_takes d (bus_addr b))"
    and "bus_addr b' = bus_addr b" "bus_rwb b' = bus_rwb b"
    and "bus_romcs b' \<Longrightarrow> c = bus_addr b"
  using assms
  by (cases d; auto simp: glue_michael_decode_def Let_def decode_rom decode_via word_less_nat_alt
      word_le_nat_alt split: if_splits)+

lemma decode_memory:
  assumes "glue_michael_decode d (m :: michael) = (c, m')"
  shows "michael_memory cfg m' = michael_memory cfg m" "m_rom m' = m_rom m" "m_ram m' = m_ram m"
    "cpu_inputs m' = cpu_inputs m" "m_cpu m' = m_cpu m"
  using assms by (cases d; auto simp: glue_michael_decode_def Let_def cpu_inputs_def split: if_splits)+

lemma no_overlap: "ram_holds d a \<Longrightarrow> a < 0x6000" "ram_takes d a \<Longrightarrow> a < 0x8000"
  by (cases d; simp add: word_less_nat_alt)+

lemma michael_read_memory:
  shows "michael_memory cfg (snd (michael_cpu_read cfg a m)) = michael_memory cfg m"
    and "michael_memory cfg m a = Some v \<Longrightarrow> fst (michael_cpu_read cfg a m) = v"
proof -
  obtain c m1 where d: "glue_michael_decode (ram_decode cfg) (m\<lparr>bus_addr := a, bus_rwb := True\<rparr>) = (c, m1)"
    by (rule prod.exhaust)
  note l = decode_lines[OF d, simplified] and k = decode_memory[OF d, simplified] and
    cell = decoded_cell[OF d, simplified]
  obtain r s m2 where v: "via_6522_read (portb_drive cfg m1) c (m_via m1, m1) = (r, s, m2)"
    by (metis prod.exhaust)
  have b: "board_of m2 = board_of m1"
    using board_access(1)[of "portb_drive cfg m1" c "(m_via m1, m1)"] by (simp add: v)
  show "michael_memory cfg (snd (michael_cpu_read cfg a m)) = michael_memory cfg m"
    using k(1) board_memory[OF b]
    by (simp add: michael_cpu_read_def d michael_read_eq v split: option.split)
  assume "michael_memory cfg m a = Some v"
  then show "fst (michael_cpu_read cfg a m) = v"
    using l k cell v no_overlap(1)[of "ram_decode cfg" a]
    by (auto simp: michael_cpu_read_def d michael_read_eq michael_memory_def rom_28c256_read_def
        ram_628128_read_def via_6522_read_def split: if_splits)
qed

text \<open>A write on the bus, by the chip selected.\<close>

lemma michael_bus_cases:
  assumes "\<not> bus_rwb m"
  shows "bus_romcs m \<Longrightarrow> snd (bus_write (michael_chips cfg) c v m) = m"
    and "\<not> bus_romcs m \<Longrightarrow> bus_ramcs m \<Longrightarrow>
      snd (bus_write (michael_chips cfg) c v m) = m\<lparr>m_ram := (m_ram m)(physical_addr m c := v)\<rparr>"
    and "\<not> bus_romcs m \<Longrightarrow> \<not> bus_ramcs m \<Longrightarrow> \<exists>n s. board_of n = board_of m \<and>
      snd (bus_write (michael_chips cfg) c v m) = n\<lparr>m_via := s\<rparr>"
proof -
  obtain ok s n where w: "via_6522_write c v (m_via m, m) = (ok, s, n)" by (metis prod.exhaust)
  have b: "board_of n = board_of m"
    using board_access(2)[of c v "(m_via m, m)"] by (simp add: w)
  show "bus_romcs m \<Longrightarrow> snd (bus_write (michael_chips cfg) c v m) = m"
    "\<not> bus_romcs m \<Longrightarrow> bus_ramcs m \<Longrightarrow>
      snd (bus_write (michael_chips cfg) c v m) = m\<lparr>m_ram := (m_ram m)(physical_addr m c := v)\<rparr>"
    using assms by (simp_all add: michael_write_eq rom_28c256_write_def ram_628128_write_def)
  show "\<exists>n s. board_of n = board_of m \<and> snd (bus_write (michael_chips cfg) c v m) = n\<lparr>m_via := s\<rparr>"
    if "\<not> bus_romcs m" "\<not> bus_ramcs m"
    using that b w by (auto simp: michael_write_eq rom_28c256_write_def ram_628128_write_def)
qed

lemma ram_write_memory:
  assumes "m_ram n = (m_ram m)(ram_cell (ram_decode cfg) a := v)" "m_rom n = m_rom m"
    "ram_takes (ram_decode cfg) a"
  shows "michael_memory cfg n = memory_write cfg a v (michael_memory cfg m)"
  using assms no_overlap(1)[of "ram_decode cfg"]
  by (fastforce simp: michael_memory_def memory_write_def fun_eq_iff word_less_nat_alt word_le_nat_alt)

lemma michael_write_memory:
  "michael_memory cfg (michael_cpu_write cfg a v m) = memory_write cfg a v (michael_memory cfg m)"
proof -
  obtain c m1 where d: "glue_michael_decode (ram_decode cfg) (m\<lparr>bus_addr := a, bus_rwb := False\<rparr>) = (c, m1)"
    by (rule prod.exhaust)
  note l = decode_lines[OF d, simplified] and k = decode_memory[OF d, simplified] and
    cell = decoded_cell[OF d, simplified]
  have same: "michael_memory cfg m = memory_write cfg a v (michael_memory cfg m)"
    if "\<not> ram_takes (ram_decode cfg) a"
    using that by (simp add: memory_write_def)
  show ?thesis
  proof (cases "bus_viacs m1 \<and> bus_ramcs m1")
    case True
    define m2 where "m2 = m1\<lparr>bus_ramcs := False\<rparr>"
    have "\<not> bus_romcs m2" "\<not> bus_ramcs m2" "\<not> bus_rwb m2"
      using True l by (auto simp: m2_def)
    from michael_bus_cases(3)[OF this(3,1,2), of cfg c v] obtain n s where
      n: "board_of n = board_of m2" "snd (bus_write (michael_chips cfg) c v m2) = n\<lparr>m_via := s\<rparr>"
      by blast
    define m3 where "m3 = n\<lparr>m_via := s, bus_ramcs := True, bus_viacs := False\<rparr>"
    have f: "bus_romcs m3 = bus_romcs m1" "bus_rwb m3 = bus_rwb m1" "r_bits m3 = r_bits m1"
      "m_ram m3 = m_ram m1" "m_rom m3 = m_rom m1" "bus_ramcs m3"
      using board_fields[OF n(1)] board_fields_michael[OF n(1)] by (simp_all add: m3_def m2_def)
    have "michael_cpu_write cfg a v m = snd (bus_write (michael_chips cfg) c v m3)"
      using True n(2) by (simp add: michael_cpu_write_def michael_bus_write_def d m2_def m3_def)
    also have "\<dots> = m3\<lparr>m_ram := (m_ram m3)(physical_addr m3 c := v)\<rparr>"
      using f True l by (intro michael_bus_cases(2)) auto
    finally have e: "michael_cpu_write cfg a v m = m3\<lparr>m_ram := (m_ram m3)(physical_addr m3 c := v)\<rparr>" .
    have "physical_addr m3 c = ram_cell (ram_decode cfg) a"
      using cell True f(3) by (simp add: physical_addr_def)
    then show ?thesis using e f k True l by (intro ram_write_memory) simp_all
  next
    case False
    then have e: "michael_cpu_write cfg a v m = snd (bus_write (michael_chips cfg) c v m1)"
      by (auto simp: michael_cpu_write_def michael_bus_write_def d)
    have rw: "\<not> bus_rwb m1" using l by simp
    consider (rom) "bus_romcs m1" | (ram) "\<not> bus_romcs m1" "bus_ramcs m1"
      | (other) "\<not> bus_romcs m1" "\<not> bus_ramcs m1" by blast
    then show ?thesis
    proof cases
      case rom
      then have "\<not> ram_takes (ram_decode cfg) a"
        using l no_overlap(2)[of "ram_decode cfg" a] by (auto simp: not_less)
      then show ?thesis using same michael_bus_cases(1)[OF rw rom] k(1) by (simp add: e)
    next
      case ram
      then show ?thesis
        using michael_bus_cases(2)[OF rw ram, of cfg c v] k l cell by (simp add: e ram_write_memory)
    next
      case other
      then obtain n s where n: "board_of n = board_of m1" "michael_cpu_write cfg a v m = n\<lparr>m_via := s\<rparr>"
        using michael_bus_cases(3)[OF rw other, of cfg c v] e by auto
      then show ?thesis using other l same board_memory[OF n(1)] k(1) by simp
    qed
  qed
qed

text \<open>
  Property C2: Michael's memory refines one map. Whatever the state of the board, a read by
  the CPU leaves the map as it was and returns its byte wherever there is memory; a write
  changes the map at the written address and at those that share its RAM cell, and nowhere
  else, so that the ROM cannot be written and what lies outside the RAM's decode is lost.
\<close>

theorem michael_memory_refined:
  "michael_memory cfg (snd (michael_cpu_read cfg a m)) = michael_memory cfg m \<and>
   fst (michael_cpu_read cfg a m) \<in>
     (case michael_memory cfg m a of Some v \<Rightarrow> {v} | None \<Rightarrow> UNIV) \<and>
   michael_memory cfg (michael_cpu_write cfg a v m) = memory_write cfg a v (michael_memory cfg m)"
  by (auto simp: michael_read_memory michael_write_memory split: option.split)

section \<open>The stack\<close>

lemma michael_host [simp]:
  "host_read (michael_hooks cfg rd wr) a m = michael_cpu_read cfg a m"
  "host_write (michael_hooks cfg rd wr) a v m = michael_cpu_write cfg a v m"
  by (simp_all add: host_read_def host_write_def michael_hooks_def)

lemma slot_masked: "slot w AND 0x3FFF = slot w" "slot w AND 0x1FFF = slot w" "\<not> bit (slot w) 14"
proof -
  show m: "slot w AND 0x3FFF = slot w"
    unfolding low14_u16 by (rule less_mask_eq) (use slot_less[of w] in \<open>simp add: word_less_nat_alt\<close>)
  show "slot w AND 0x1FFF = slot w"
    unfolding low13_u16 by (rule less_mask_eq) (use slot_less[of w] in \<open>simp add: word_less_nat_alt\<close>)
  have "\<not> bit (slot w AND mask 14) 14" by (simp add: bit_simps)
  then show "\<not> bit (slot w) 14" using m by (simp add: low14_u16)
qed

lemma slot_ram:
  "ram_holds d (slot w)" "ram_takes d (slot w)" "ram_cell d (slot w) = ucast (slot w)"
  using slot_less[of w] by (cases d; simp add: word_less_nat_alt slot_masked)+

lemma slot_cell: "ram_cell d (slot w) = ram_cell d (slot x) \<longleftrightarrow> w = x"
proof -
  have "unat (ucast (slot y) :: u32) = unat (slot y)" for y
    using slot_val[of y] unat_u8_less[of y] by (simp add: unsigned_ucast_eq take_bit_nat_eq_self)
  then have "(ucast (slot w) :: u32) = ucast (slot x) \<longleftrightarrow> slot w = slot x"
    by (metis word_unat_eq_iff)
  then show ?thesis by (simp add: slot_ram slot_inj)
qed

lemma slot_memory: "michael_memory cfg m (slot w) = Some (m_ram m (ram_cell (ram_decode cfg) (slot w)))"
  using slot_less[of w] by (simp add: michael_memory_def slot_ram(1) not_le[symmetric])
    (simp add: word_less_nat_alt word_le_nat_alt)

lemma stack_memory:
  "stack_byte (michael_hooks cfg rd wr) m w = the (michael_memory cfg m (slot w))"
  using michael_read_memory(2)[OF slot_memory] by (simp add: stack_byte_def slot_memory)

interpretation michael_stack: stack_page "michael_hooks cfg rd wr" "\<lambda>_. True" for cfg rd wr
  by unfold_locales (simp_all add: stack_memory michael_read_memory michael_write_memory
      memory_write_def slot_ram(1,2) slot_cell fun_eq_iff)

text \<open>
  Property C23: an interrupt on Michael returns. Whatever the interrupted program, the
  configuration and the handler (as long as the stack pointer is back and the three bytes the
  interrupt pushed are untouched when it ends), its RTI continues the program where it was,
  with its stack pointer and its status.
\<close>

theorem michael_interrupt_returns:
  assumes "cpu_hooks s = michael_hooks cfg rd wr" "cpu_hooks u = michael_hooks cfg rd wr"
    and "f = irq6502 \<or> f = nmi6502" "status_ok (cpu_status s)" "cpu_sp u = cpu_sp (f s)"
    and "\<And>w. w \<in> {cpu_sp s, cpu_sp s - 1, cpu_sp s - 2} \<Longrightarrow>
      michael_memory cfg (cpu_host u) (slot w) = michael_memory cfg (cpu_host (f s)) (slot w)"
  shows "cpu_pc (rti_insn u) = cpu_pc s \<and> cpu_sp (rti_insn u) = cpu_sp s \<and>
    cpu_status (rti_insn u) = cpu_status s"
  using michael_stack.interrupt_returns[OF assms(1) TrueI assms(2) TrueI assms(3,4,5)] assms(6)
  by (simp add: stack_memory)

text \<open>A board with 16K of RAM, one NOP loaded at 0x1000, for concrete instances.\<close>

definition nop_opts :: michael_opts where
  "nop_opts = \<lparr>ram_map = None, kbd_fault = None, key_interval_ms = 0, kbd_scancodes = None,
     keys_file = None, serial_input = None, no_fpga = False, gal_spi_added = False, w5500_added = False,
     w5500_cs_rc = False, w5500_cs_bounce = False, w5500_cs_flaky = False, net_request = None,
     net_response = False, net_port = 80, net_connections = 1, net_idle = 0, rom_file = None,
     code_file = Some [0xEA], load_address = Some 0x1000\<rparr>"

definition nop_board :: michael where
  "nop_board = (case michael_setup nop_opts of Some m \<Rightarrow> m | None \<Rightarrow> undefined)"

definition nop_core :: "michael cpu" where
  "nop_core = (power_on (michael_hooks (michael_config_of nop_opts) (\<lambda>a m. (0, m)) (\<lambda>a v m. m)) nop_board)
     \<lparr>cpu_status := 0x20, cpu_pc := 0x1234\<rparr>"

theorem michael_interrupt_witness: "cpu_pc (rti_insn (irq6502 nop_core)) = 0x1234"
  using michael_interrupt_returns[where f = irq6502 and cfg = "michael_config_of nop_opts" and
      rd = "\<lambda>a m. (0, m)" and wr = "\<lambda>a v m. m" and s = nop_core and u = "irq6502 nop_core"]
  by (simp add: nop_core_def status_ok_def irq6502_def cpu_frame Let_def)

end
