(* ===== verification/Michael_Run.thy ===== *)
theory Michael_Run imports Michael_Memory
begin

text \<open>
  Michael running: the CPU keeps the pace of the oscillator whatever the program and the
  devices do, a plain run ends, and a loaded program is what the CPU finds.
\<close>

section \<open>The CPU's bus\<close>

lemma board_inputs_kept: "board_of m = board_of n \<Longrightarrow> cpu_inputs m = cpu_inputs n"
  using board_fields[of m n] by (simp add: cpu_inputs_def)

lemma inputs_via [simp]: "cpu_inputs (m\<lparr>m_via := v\<rparr>) = cpu_inputs m"
  by (simp add: cpu_inputs_def)

lemma michael_read_inputs: "cpu_inputs (snd (michael_cpu_read cfg a m)) = cpu_inputs m"
proof -
  obtain c m1 where d: "glue_michael_decode (ram_decode cfg) (m\<lparr>bus_addr := a, bus_rwb := True\<rparr>) = (c, m1)"
    by (rule prod.exhaust)
  obtain r s m2 where v: "via_6522_read (portb_drive cfg m1) c (m_via m1, m1) = (r, s, m2)"
    by (metis prod.exhaust)
  have "board_of m2 = board_of m1"
    using board_access(1)[of "portb_drive cfg m1" c "(m_via m1, m1)"] by (simp add: v)
  then have "cpu_inputs m2 = cpu_inputs m1" by (rule board_inputs_kept)
  then show ?thesis
    using decode_memory(4)[OF d]
    by (auto simp: michael_cpu_read_def d michael_read_eq v cpu_inputs_def split: option.split)
qed

lemma michael_bus_inputs: "cpu_inputs (snd (bus_write (michael_chips cfg) c v m)) = cpu_inputs m"
proof -
  obtain ok s n where w: "via_6522_write c v (m_via m, m) = (ok, s, n)" by (metis prod.exhaust)
  have "board_of n = board_of m"
    using board_access(2)[of c v "(m_via m, m)"] by (simp add: w)
  then have "cpu_inputs n = cpu_inputs m" by (rule board_inputs_kept)
  then show ?thesis
    using w by (auto simp: michael_write_eq ram_628128_write_def cpu_inputs_def)
qed

lemma michael_write_inputs: "cpu_inputs (michael_cpu_write cfg a v m) = cpu_inputs m"
proof -
  obtain c m1 where d: "glue_michael_decode (ram_decode cfg) (m\<lparr>bus_addr := a, bus_rwb := False\<rparr>) = (c, m1)"
    by (rule prod.exhaust)
  have "cpu_inputs (n\<lparr>bus_ramcs := cs\<rparr>) = cpu_inputs n" "cpu_inputs (n\<lparr>bus_viacs := cs\<rparr>) = cpu_inputs n"
    for n :: michael and cs
    by (simp_all add: cpu_inputs_def)
  then show ?thesis
    using decode_memory(4)[OF d]
    by (simp add: michael_cpu_write_def michael_bus_write_def d michael_bus_inputs Let_def)
      (simp add: cpu_inputs_def)
qed

lemma michael_loop [simp]: "loopexternal (michael_hooks cfg rd wr) = (\<lambda>m. m)"
  by (simp add: michael_hooks_def)

interpretation michael_core: cpu_bus "michael_hooks cfg rd wr" for cfg rd wr
  by unfold_locales (simp_all add: michael_read_inputs michael_write_inputs)

section \<open>A tick of the board\<close>

definition tick_lines :: "michael \<Rightarrow> bool \<times> bool \<times> u64 \<times> cpu_65c02_state" where
  "tick_lines m = (bus_res m, bus_nmi m, osc_ticks m, m_cpu m)"

lemma glue_tick_lines:
  "tick_lines (glue_michael_tick d m) = tick_lines m" "cpu_cycle_due (glue_michael_tick d m)"
  by (cases d; simp add: glue_michael_tick_def glue_michael_decode_def tick_lines_def Let_def)+

text \<open>Every other chip of the board leaves these lines and the CPU's request alone.\<close>

lemma board_tick_lines:
  assumes "board_of m = board_of n"
  shows "tick_lines m = tick_lines n \<and> cpu_cycle_due m = cpu_cycle_due n"
  using board_fields[OF assms] board_fields_michael[OF assms] by (simp add: tick_lines_def)

definition tick_frame :: "michael chip \<Rightarrow> bool" where
  "tick_frame c \<longleftrightarrow> (\<forall>f m. chip_tick c = Some f \<longrightarrow>
     tick_lines (f m) = tick_lines m \<and> cpu_cycle_due (f m) = cpu_cycle_due m)"

lemma tick_frame_via:
  "tick_frame (via_chip cfg)" "tick_frame (kbd_chip cfg)" "tick_frame serial_chip"
proof -
  have e: "tick_lines (n\<lparr>m_via := v\<rparr>) = tick_lines n" "tick_lines (n\<lparr>m_kbd := k\<rparr>) = tick_lines n"
    "tick_lines (n\<lparr>m_serial := s\<rparr>) = tick_lines n" for n v k s
    by (simp_all add: tick_lines_def)
  show "tick_frame (via_chip cfg)"
  proof -
    have "board_of (snd (via_6522_tick (m_via m, m))) = board_of m" for m :: michael
      by (simp add: board_frame)
    from board_tick_lines[OF this] show ?thesis
      by (simp add: tick_frame_def via_chip_def split_def Let_def e)
  qed
  show "tick_frame (kbd_chip cfg)"
  proof -
    have "board_of (snd (snd (ps2_board_tick (portb_drive cfg m) (m_kbd m, m_via m, m)))) = board_of m" for m
      by (simp add: board_frame)
    from board_tick_lines[OF this] show ?thesis
      by (simp add: tick_frame_def kbd_chip_def split_def Let_def e)
  qed
  show "tick_frame serial_chip"
  proof -
    have "board_of (snd (snd (serial_usb_tick (m_serial m, m_via m, m)))) = board_of m" for m :: michael
      by (simp add: board_frame)
    from board_tick_lines[OF this] show ?thesis
      by (simp add: tick_frame_def serial_chip_def split_def Let_def e)
  qed
qed

lemma tick_frame_other:
  "tick_frame rom_chip" "tick_frame ram_chip" "tick_frame (lcd_chip cfg)" "tick_frame (fpga_chip cfg)"
  "tick_frame (w5500_chip cfg)" "tick_frame (gal_chip cfg)" "tick_frame client_chip"
  "tick_frame (ticking (bounce_tick cfg))" "tick_frame (ticking (bus_check_tick cfg))"
  "tick_frame (ticking irq_cut_tick)"
  by (simp_all add: tick_frame_def rom_chip_def ram_chip_def lcd_chip_def fpga_chip_def w5500_chip_def
      gal_chip_def client_chip_def bounce_tick_def cs_glitch_def bus_check_tick_def irq_cut_tick_def
      tick_lines_def split_def Let_def)

lemma michael_chips_frame:
  "\<exists>cs. michael_chips cfg = glue_chip cfg # cs \<and> list_all tick_frame cs"
  by (simp add: michael_chips_def tick_frame_via tick_frame_other)

lemma tick_chips_frame:
  assumes "list_all tick_frame cs"
  shows "tick_lines (tick_chips cs m) = tick_lines m \<and> cpu_cycle_due (tick_chips cs m) = cpu_cycle_due m"
  using assms by (induction cs arbitrary: m) (auto simp: tick_frame_def split: option.split)

lemma board_ticks:
  "tick_lines (tick_chips (michael_chips cfg) m) = tick_lines m" "cpu_cycle_due (tick_chips (michael_chips cfg) m)"
proof -
  obtain cs where "michael_chips cfg = glue_chip cfg # cs" "list_all tick_frame cs"
    using michael_chips_frame by blast
  then show "tick_lines (tick_chips (michael_chips cfg) m) = tick_lines m"
    "cpu_cycle_due (tick_chips (michael_chips cfg) m)"
    using tick_chips_frame by (simp_all add: glue_chip_def glue_tick_lines)
qed

section \<open>The pace\<close>

text \<open>The cycles the core has run, less those it still owes.\<close>

definition cycles_paid :: "michael cpu \<Rightarrow> u64" where
  "cycles_paid s = clockticks6502 s - cycles_owed (m_cpu (cpu_host s))"

definition michael_ok :: "michael_config \<Rightarrow> michael cpu \<Rightarrow> bool" where
  "michael_ok cfg s \<longleftrightarrow> (\<exists>rd wr. cpu_hooks s = michael_hooks cfg rd wr) \<and> \<not> bus_res (cpu_host s) \<and>
     unat (cycles_owed (m_cpu (cpu_host s))) \<le> 10"

lemma michael_tick_paced:
  assumes "michael_ok cfg s"
  shows "michael_ok cfg (michael_tick cfg s)"
    and "cycles_paid (michael_tick cfg s) = cycles_paid s + 1"
    and "osc_ticks (cpu_host (michael_tick cfg s)) = osc_ticks (cpu_host s) + 1"
proof -
  obtain rd wr where k: "cpu_hooks s = michael_hooks cfg rd wr"
    using assms by (auto simp: michael_ok_def)
  define m where "m = (cpu_host s)\<lparr>osc_ticks := osc_ticks (cpu_host s) + 1\<rparr>"
  define n where "n = tick_chips (michael_chips cfg) m"
  have l: "bus_res n = bus_res m" "osc_ticks n = osc_ticks m" "m_cpu n = m_cpu m" "cpu_cycle_due n"
    using board_ticks[of cfg m] by (simp_all add: n_def tick_lines_def)
  obtain c t where t: "cpu_65c02_tick (m_cpu n) (s\<lparr>cpu_host := n\<rparr>) = (c, t)"
    by (rule prod.exhaust)
  have e: "michael_tick cfg s = t\<lparr>cpu_host := (cpu_host t)\<lparr>m_cpu := c\<rparr>\<rparr>"
    using t by (simp add: michael_tick_def bus_step_def tick_chips_append tick_on_host cpu_chip_def
        m_def[symmetric] n_def[symmetric] ticking_def)
  have h: "cpu_hooks (s\<lparr>cpu_host := n\<rparr>) = michael_hooks cfg rd wr" "\<not> bus_res (cpu_host (s\<lparr>cpu_host := n\<rparr>))"
    "cpu_cycle_due (cpu_host (s\<lparr>cpu_host := n\<rparr>))"
    using k l assms by (simp_all add: michael_ok_def m_def)
  note p = michael_core.tick_paced[OF h t]
  show "michael_ok cfg (michael_tick cfg s)" "cycles_paid (michael_tick cfg s) = cycles_paid s + 1"
    "osc_ticks (cpu_host (michael_tick cfg s)) = osc_ticks (cpu_host s) + 1"
    using p l assms by (auto simp: e michael_ok_def cycles_paid_def m_def)
qed

lemma michael_ticks_paced:
  assumes "michael_ok cfg s"
  shows "michael_ok cfg ((michael_tick cfg ^^ n) s)"
    and "cycles_paid ((michael_tick cfg ^^ n) s) = cycles_paid s + of_nat n"
    and "osc_ticks (cpu_host ((michael_tick cfg ^^ n) s)) = osc_ticks (cpu_host s) + of_nat n"
  using assms by (induction n) (auto simp: michael_tick_paced)

text \<open>
  Property C16: the CPU keeps the pace of Michael's oscillator. While the board is not in
  reset, each tick is one CPU cycle, whatever the program, the interrupts and the devices do:
  after any number of ticks the cycles run, less at most ten still owed, have advanced by that
  number, as the oscillator's count has.
\<close>

theorem michael_pace:
  assumes "cpu_hooks s = michael_hooks cfg rd wr" "\<not> bus_res (cpu_host s)"
    "unat (cycles_owed (m_cpu (cpu_host s))) \<le> 10" "t = (michael_tick cfg ^^ n) s"
  shows "cycles_paid t = cycles_paid s + of_nat n \<and>
    osc_ticks (cpu_host t) = osc_ticks (cpu_host s) + of_nat n \<and>
    unat (cycles_owed (m_cpu (cpu_host t))) \<le> 10 \<and> \<not> bus_res (cpu_host t)"
proof -
  have "michael_ok cfg s" using assms(1-3) by (auto simp: michael_ok_def)
  from michael_ticks_paced[OF this, of n] show ?thesis by (simp add: assms(4) michael_ok_def)
qed

lemma nop_board_lines: "\<not> bus_res nop_board" "cycles_owed (m_cpu nop_board) = 0" "osc_ticks nop_board = 0"
  by (simp_all add: nop_board_def nop_opts_def michael_setup_def michael_keyboard_def michael_client_def
      michael_rom_def rom_path_def bus.defs michael.defs bus_init_def cpu_65c02_init_def split_def Let_def)

theorem michael_pace_witness:
  "cycles_paid ((michael_tick (michael_config_of nop_opts) ^^ 1000) nop_core) = cycles_paid nop_core + 1000"
  using michael_pace[where s = nop_core and cfg = "michael_config_of nop_opts" and rd = "\<lambda>a m. (0, m)" and
      wr = "\<lambda>a v m. m" and n = 1000, OF _ _ _ refl]
  by (simp add: nop_core_def nop_board_lines)

section \<open>The plain run\<close>

abbreviation (input) ticks_of :: "michael cpu \<Rightarrow> nat" where
  "ticks_of s \<equiv> unat (osc_ticks (cpu_host s))"

text \<open>How a batch of ticks moves: \<open>t\<close> is reached from \<open>s\<close> below the cap.\<close>

definition ran_on :: "michael_config \<Rightarrow> u64 \<Rightarrow> michael cpu \<Rightarrow> michael cpu \<Rightarrow> bool" where
  "ran_on cfg cap s t \<longleftrightarrow> michael_ok cfg t \<and> ticks_of s \<le> ticks_of t \<and>
     (ticks_of s \<le> unat cap \<longrightarrow> ticks_of t \<le> unat cap) \<and>
     cycles_paid t - osc_ticks (cpu_host t) = cycles_paid s - osc_ticks (cpu_host s)"

lemma ran_on_refl: "michael_ok cfg s \<Longrightarrow> ran_on cfg cap s s"
  by (simp add: ran_on_def)

lemma ran_on_trans: "ran_on cfg cap s t \<Longrightarrow> ran_on cfg cap t u \<Longrightarrow> ran_on cfg cap s u"
  by (auto simp: ran_on_def)

lemma ran_on_tick:
  assumes "michael_ok cfg s" "osc_ticks (cpu_host s) < cap"
  shows "ran_on cfg cap s (michael_tick cfg s)" "ticks_of (michael_tick cfg s) = ticks_of s + 1"
proof -
  have "ticks_of s + 1 \<le> unat cap" using assms(2) by (simp add: word_less_nat_alt)
  then have "unat (osc_ticks (cpu_host s) + 1) = ticks_of s + 1"
    using unsigned_less[where ?'b = 64 and ?'a = nat, of cap] by (simp add: unat_word_ariths)
  then show "ticks_of (michael_tick cfg s) = ticks_of s + 1"
    by (simp add: michael_tick_paced[OF assms(1)])
  with \<open>ticks_of s + 1 \<le> unat cap\<close> show "ran_on cfg cap s (michael_tick cfg s)"
    using michael_tick_paced[OF assms(1)] by (simp add: ran_on_def)
qed

lemma michael_step_ran:
  "michael_ok cfg s \<Longrightarrow> michael_step cfg cap b n (s, l) = (t, l') \<Longrightarrow> ran_on cfg cap s t \<and> l' \<le> l"
proof (induction n arbitrary: s l)
  case (Suc n)
  show ?case
  proof (cases "osc_ticks (cpu_host s) < cap \<and> \<not> (b \<and> stp_pending s)")
    case True
    define u where "u = michael_tick cfg s"
    define m where "m = (if cpu_sp u < l then cpu_sp u else l)"
    have st: "michael_step cfg cap b n (u, m) = (t, l')"
      using Suc.prems(2) True by (auto simp: u_def m_def Let_def split: if_splits)
    have u: "ran_on cfg cap s u" "michael_ok cfg u"
      using ran_on_tick(1)[OF Suc.prems(1)] True michael_tick_paced(1)[OF Suc.prems(1)] by (simp_all add: u_def)
    have "m \<le> l" by (auto simp: m_def)
    with Suc.IH[OF u(2) st] u(1) show ?thesis by (meson order_trans ran_on_trans)
  next
    case False
    then show ?thesis using Suc.prems by (auto simp: ran_on_refl)
  qed
qed (auto simp: ran_on_refl)

lemma michael_step_moves:
  assumes "michael_ok cfg s" "osc_ticks (cpu_host s) < cap" "\<not> stp_pending s"
    "michael_step cfg cap True (Suc n) (s, l) = (t, l')"
  shows "ticks_of s < ticks_of t"
proof -
  obtain m where "michael_step cfg cap True n (michael_tick cfg s, m) = (t, l')"
    using assms(2-4) by (auto simp: Let_def split: if_splits)
  from michael_step_ran[OF michael_tick_paced(1)[OF assms(1)] this]
  show ?thesis using ran_on_tick(2)[OF assms(1,2)] by (simp add: ran_on_def)
qed

lemma michael_run_returns:
  "michael_ok cfg s \<Longrightarrow> ticks_of s \<le> unat cap \<Longrightarrow> \<exists>t l'. michael_run cfg cap (s, l) = Some (t, l') \<and>
     ran_on cfg cap s t \<and> l' \<le> l \<and> (osc_ticks (cpu_host t) = cap \<or> stp_pending t)"
proof (induction "unat cap - ticks_of s" arbitrary: s l rule: less_induct)
  case less
  show ?case
  proof (cases "osc_ticks (cpu_host s) < cap \<and> \<not> stp_pending s")
    case True
    obtain u m where u: "michael_step cfg cap True 50000 (s, l) = (u, m)" by (rule prod.exhaust)
    have n: "50000 = Suc 49999" by simp
    note r = michael_step_ran[OF less.prems(1) u] and
      mv = michael_step_moves[OF less.prems(1) _ _ u[unfolded n]]
    have "unat cap - ticks_of u < unat cap - ticks_of s" "ticks_of u \<le> unat cap"
      using r mv True less.prems(2) by (auto simp: ran_on_def word_less_nat_alt)
    from less.hyps[OF this(1) _ this(2), of m] r obtain t l' where
      "michael_run cfg cap (u, m) = Some (t, l')" "ran_on cfg cap u t" "l' \<le> m"
      "osc_ticks (cpu_host t) = cap \<or> stp_pending t"
      by (auto simp: ran_on_def)
    then show ?thesis
      using r True u by (subst michael_run.simps) (auto intro: ran_on_trans)
  next
    case False
    then have "osc_ticks (cpu_host s) = cap \<or> stp_pending s"
      using less.prems(2) by (metis word_le_nat_alt antisym_conv2)
    then show ?thesis
      using False less.prems by (subst michael_run.simps) (auto intro: ran_on_refl)
  qed
qed

text \<open>
  Property C5: a plain run of Michael ends, at the cap or at an STP, whatever program runs.
  The oscillator stops within the cap, the CPU has paid for one cycle per tick, and the lowest
  stack pointer reported is no higher than the one passed in.
\<close>

theorem michael_run_ends:
  assumes "cpu_hooks s = michael_hooks cfg rd wr" "\<not> bus_res (cpu_host s)"
    "unat (cycles_owed (m_cpu (cpu_host s))) \<le> 10" "osc_ticks (cpu_host s) \<le> cap"
  shows "\<exists>t lowest'. michael_run cfg cap (s, lowest) = Some (t, lowest') \<and>
    (osc_ticks (cpu_host t) = cap \<or> stp_pending t) \<and> osc_ticks (cpu_host t) \<le> cap \<and>
    cycles_paid t - cycles_paid s = osc_ticks (cpu_host t) - osc_ticks (cpu_host s) \<and> lowest' \<le> lowest"
proof -
  have "michael_ok cfg s" "ticks_of s \<le> unat cap"
    using assms by (auto simp: michael_ok_def word_le_nat_alt)
  from michael_run_returns[OF this, of lowest] obtain t l where
    t: "michael_run cfg cap (s, lowest) = Some (t, l)" "ran_on cfg cap s t" "l \<le> lowest"
      "osc_ticks (cpu_host t) = cap \<or> stp_pending t" by blast
  have "cycles_paid t - cycles_paid s = osc_ticks (cpu_host t) - osc_ticks (cpu_host s)"
    using t(2) by (simp add: ran_on_def algebra_simps)
  moreover have "osc_ticks (cpu_host t) \<le> cap"
    using t(2) \<open>ticks_of s \<le> unat cap\<close> by (simp add: ran_on_def word_le_nat_alt)
  ultimately show ?thesis using t by blast
qed

theorem michael_run_witness:
  "\<exists>t lowest'. michael_run (michael_config_of nop_opts) 200000000 (nop_core, 0xFF) = Some (t, lowest')"
proof -
  have "osc_ticks (cpu_host nop_core) \<le> 200000000"
    by (simp add: nop_core_def nop_board_lines)
  then show ?thesis
    using michael_run_ends[where s = nop_core and cfg = "michael_config_of nop_opts" and
        rd = "\<lambda>a m. (0, m)" and wr = "\<lambda>a v m. m" and cap = 200000000 and lowest = "0xFF"]
    by (auto simp: nop_core_def nop_board_lines)
qed

section \<open>A loaded program\<close>

lemma load_byte:
  assumes "ram_takes (ram_decode cfg) a"
  shows "load_bytes cfg a (byte # bytes) m = load_bytes cfg (a + 1) bytes (michael_cpu_write cfg a byte m)"
proof -
  obtain c n where d: "glue_michael_decode (ram_decode cfg) (m\<lparr>bus_addr := a, bus_rwb := False\<rparr>) = (c, n)"
    by (rule prod.exhaust)
  have dd: "glue_michael_decode (ram_decode cfg) n = (c, n)"
    using d by (cases "ram_decode cfg") (auto simp: glue_michael_decode_def Let_def split: if_splits)
  have "bus_ramcs n" using decode_lines(3)[OF d] assms by simp
  moreover have "michael_bus_write cfg byte n = michael_cpu_write cfg a byte m"
    by (simp add: michael_cpu_write_def michael_bus_write_def d dd)
  ultimately show ?thesis by (simp add: d)
qed

fun memory_load ::
  "michael_config \<Rightarrow> u16 \<Rightarrow> u8 list \<Rightarrow> (u16 \<Rightarrow> u8 option) \<Rightarrow> u16 \<Rightarrow> u8 option" where
  "memory_load cfg a [] mem = mem"
| "memory_load cfg a (b # bs) mem = memory_load cfg (a + 1) bs (memory_write cfg a b mem)"

lemma load_bytes_memory:
  "\<forall>i<length bytes. ram_takes (ram_decode cfg) (a + of_nat i) \<Longrightarrow>
    \<exists>m'. load_bytes cfg a bytes m = Some m' \<and>
      michael_memory cfg m' = memory_load cfg a bytes (michael_memory cfg m)"
proof (induction bytes arbitrary: a m)
  case (Cons b bs)
  have "ram_takes (ram_decode cfg) a" using Cons.prems by auto
  moreover have "\<forall>i<length bs. ram_takes (ram_decode cfg) (a + 1 + of_nat i)"
  proof (intro allI impI)
    fix i assume "i < length bs"
    then have "ram_takes (ram_decode cfg) (a + of_nat (Suc i))" using Cons.prems by auto
    then show "ram_takes (ram_decode cfg) (a + 1 + of_nat i)" by (simp add: algebra_simps)
  qed
  ultimately show ?case
    using Cons.IH[of "a + 1" "michael_cpu_write cfg a b m"] load_byte[of cfg a b bs m]
    by (simp add: michael_write_memory)
qed simp

lemma load_bytes_fails:
  "\<not> ram_takes (ram_decode cfg) (a + of_nat i) \<Longrightarrow> i < length bytes \<Longrightarrow> load_bytes cfg a bytes m = None"
proof (induction bytes arbitrary: a i m)
  case (Cons b bs)
  obtain c n where d: "glue_michael_decode (ram_decode cfg) (m\<lparr>bus_addr := a, bus_rwb := False\<rparr>) = (c, n)"
    by (rule prod.exhaust)
  show ?case
  proof (cases "ram_takes (ram_decode cfg) a")
    case False
    then show ?thesis using decode_lines(3)[OF d] by (simp add: d)
  next
    case True
    then have "i \<noteq> 0" using Cons.prems(1) by (cases i) auto
    then obtain j where j: "i = Suc j" by (cases i) auto
    have "\<not> ram_takes (ram_decode cfg) (a + 1 + of_nat j)"
      using Cons.prems(1) by (simp add: j add.assoc)
    moreover have "j < length bs" using Cons.prems(2) by (simp add: j)
    ultimately show ?thesis
      using load_byte[OF True, of b bs m] Cons.IH by (simp del: load_bytes.simps)
  qed
qed simp

lemma cell_low: "ram_cell d a = ram_cell d b \<Longrightarrow> unat a mod 0x2000 = unat b mod 0x2000"
proof -
  have c: "take_bit 13 (ram_cell d a) = take_bit 13 (ucast a)" for a
    by (rule bit_word_eqI; cases d)
      (auto simp: bit_simps low14_u16 low13_u16)
  assume "ram_cell d a = ram_cell d b"
  then have "take_bit 13 (ucast a :: u32) = take_bit 13 (ucast b)" using c by metis
  then have "unat (take_bit 13 (ucast a :: u32)) = unat (take_bit 13 (ucast b :: u32))" by simp
  moreover have "unat (take_bit 13 (ucast x :: u32)) = unat x mod 0x2000" for x :: u16
    using unat_u16_less[of x]
    by (simp add: unsigned_take_bit_eq unsigned_ucast_eq take_bit_nat_eq_self) (simp add: take_bit_eq_mod)
  ultimately show ?thesis by simp
qed

lemma memory_load_other:
  "\<forall>i<length bs. ram_cell (ram_decode cfg) (a + of_nat i) \<noteq> ram_cell (ram_decode cfg) b \<Longrightarrow>
    memory_load cfg a bs mem b = mem b"
proof (induction bs arbitrary: a mem)
  case (Cons x bs)
  have "\<forall>i<length bs. ram_cell (ram_decode cfg) (a + 1 + of_nat i) \<noteq> ram_cell (ram_decode cfg) b"
    using Cons.prems by (auto simp: algebra_simps dest: spec[of _ "Suc _"])
  moreover have "ram_cell (ram_decode cfg) a \<noteq> ram_cell (ram_decode cfg) b"
    using Cons.prems by (auto dest: spec[of _ 0])
  ultimately show ?case using Cons.IH by (simp add: memory_write_def)
qed simp

lemma cell_apart:
  assumes "i < 0x1FFF"
  shows "ram_cell d (a + 1 + of_nat i) \<noteq> ram_cell d a"
proof
  assume c: "ram_cell d (a + 1 + of_nat i) = ram_cell d a"
  have "unat (a + 1 + of_nat i) = (unat a + (1 + i)) mod 0x10000"
  proof -
    have "a + 1 + of_nat i = word_of_nat (unat a + (1 + i))" by (simp add: add.assoc)
    then show ?thesis by (simp only: unat_of_nat) simp
  qed
  then have "unat (a + 1 + of_nat i) mod 0x2000 = (unat a + (1 + i)) mod 0x2000"
    by (simp add: mod_mod_cancel)
  with cell_low[OF c] have "(unat a + (1 + i)) mod 0x2000 = unat a mod 0x2000" by simp
  then have "0x2000 dvd 1 + i" using mod_eq_dvd_iff_nat[of "unat a" "unat a + (1 + i)"] by simp
  then have "0x2000 \<le> 1 + i" by (rule dvd_imp_le) simp
  then show False using assms by simp
qed

lemma memory_load_at:
  "length bs \<le> 0x2000 \<Longrightarrow> i < length bs \<Longrightarrow> ram_takes (ram_decode cfg) (a + of_nat i) \<Longrightarrow>
    ram_holds (ram_decode cfg) b \<Longrightarrow> ram_cell (ram_decode cfg) b = ram_cell (ram_decode cfg) (a + of_nat i) \<Longrightarrow>
    memory_load cfg a bs mem b = Some (bs ! i)"
proof (induction bs arbitrary: a i mem)
  case (Cons x bs)
  show ?case
  proof (cases i)
    case 0
    have "\<forall>j<length bs. ram_cell (ram_decode cfg) (a + 1 + of_nat j) \<noteq> ram_cell (ram_decode cfg) b"
      using Cons.prems(1,5) 0 by (auto dest!: cell_apart[THEN notE, rotated])
    from memory_load_other[OF this] Cons.prems(3-5) 0 show ?thesis by (simp add: memory_write_def)
  next
    case (Suc j)
    then show ?thesis
      using Cons.IH[of j "a + 1" "memory_write cfg a x mem"] Cons.prems by (simp add: add.assoc)
  qed
qed simp

text \<open>
  Property C32: a loaded program is what the CPU finds. A load succeeds only where every byte
  has RAM to go to; a program that runs out of RAM is refused. Of a loaded program of up to 8K the CPU
  reads each byte, as it is in the file, at every address where the decode gives it the cell that the byte is
  in: its own where the decode reads RAM there (below 0x4000, or below 0x6000 with all of it or the 8K mirrored)
  and its mirrors. At an address below 0x6000 where the decode takes a byte and reads no RAM, the CPU
  finds 0xFF.
\<close>

theorem michael_program_loaded:
  assumes "length bytes \<le> 0x2000"
  shows "case load_program cfg (Some bytes) load m of
     Some m' \<Rightarrow>
       (\<forall>i<length bytes. ram_takes (ram_decode cfg) (load + of_nat i) \<and>
          (ram_holds (ram_decode cfg) (load + of_nat i) \<longrightarrow> fst (michael_cpu_read cfg (load + of_nat i) m') = bytes ! i) \<and>
          (\<forall>b. ram_holds (ram_decode cfg) b \<and> ram_cell (ram_decode cfg) b = ram_cell (ram_decode cfg) (load + of_nat i) \<longrightarrow>
             fst (michael_cpu_read cfg b m') = bytes ! i) \<and>
          (\<not> ram_holds (ram_decode cfg) (load + of_nat i) \<and> load + of_nat i < 0x6000 \<longrightarrow>
             fst (michael_cpu_read cfg (load + of_nat i) m') = 0xFF))
   | None \<Rightarrow> \<exists>i<length bytes. \<not> ram_takes (ram_decode cfg) (load + of_nat i)"
proof (cases "\<forall>j<length bytes. ram_takes (ram_decode cfg) (load + of_nat j)")
  case True
  from load_bytes_memory[OF True, of m] obtain m' where
    m': "load_bytes cfg load bytes m = Some m'"
      "michael_memory cfg m' = memory_load cfg load bytes (michael_memory cfg m)" by blast
  have l: "load_program cfg (Some bytes) load m = Some (m'\<lparr>bus_rwb := True\<rparr>)"
    using m'(1) by (simp add: load_program_def)
  have rd: "fst (michael_cpu_read cfg b (m'\<lparr>bus_rwb := True\<rparr>)) = bytes ! i"
    if "i < length bytes" "ram_holds (ram_decode cfg) b" "ram_cell (ram_decode cfg) b = ram_cell (ram_decode cfg) (load + of_nat i)" for i b
  proof (rule michael_read_memory(2))
    show "michael_memory cfg (m'\<lparr>bus_rwb := True\<rparr>) b = Some (bytes ! i)"
      using memory_load_at[OF assms that(1) _ that(2,3)] True that(1) by (simp add: m'(2))
  qed
  have "fst (michael_cpu_read cfg a (m'\<lparr>bus_rwb := True\<rparr>)) = 0xFF" if "\<not> ram_holds (ram_decode cfg) a" "a < 0x6000" for a
  proof -
    have "a < 0x8000" using that(2) by (rule order.strict_trans) simp
    then show ?thesis using that by (intro michael_read_memory(2)) (simp add: michael_memory_def linorder_not_le[symmetric])
  qed
  with rd True show ?thesis unfolding l by simp
next
  case False
  then obtain j where j: "j < length bytes" "\<not> ram_takes (ram_decode cfg) (load + of_nat j)" by blast
  then show ?thesis
    using load_bytes_fails[OF j(2,1), of m] by (auto simp: load_program_def)
qed

theorem michael_load_witness:
  "case load_program (michael_config_of nop_opts) (Some [0xEA]) 0x1000 nop_board of
     Some m \<Rightarrow> fst (michael_cpu_read (michael_config_of nop_opts) 0x1000 m) = 0xEA | None \<Rightarrow> False"
  using michael_program_loaded[where cfg = "michael_config_of nop_opts" and load = "0x1000" and
      bytes = "[0xEA]" and m = nop_board]
  by (simp add: michael_config_of_def nop_opts_def split: option.splits)

end
