(* ===== verification/Syscall_Ports.thy ===== *)
theory Syscall_Ports imports Prelude
begin

text \<open>
  The wendy2c's file ports at $F800-$F80F (\<open>src/emulator/chips/syscall_ports.c\<close>): the file
  name buffer, the table of open files, the current handle and the power-off, over a model of
  the C library's files: a disk of named byte lists and streams with a position. Writes are
  visible at once; C may hold them back until the close, which a program sees only if it has
  the file open twice.
\<close>

section \<open>The C library's files\<close>

record stream =
  stream_name :: string
  stream_pos :: nat
  stream_writing :: bool

record disk =
  disk_files :: "string \<Rightarrow> u8 list option"
  disk_creatable :: "string \<Rightarrow> bool"

definition file_bytes :: "disk \<Rightarrow> stream \<Rightarrow> u8 list" where
  "file_bytes d f = (case disk_files d (stream_name f) of Some bytes \<Rightarrow> bytes | None \<Rightarrow> [])"

definition fopen_rb :: "string \<Rightarrow> disk \<Rightarrow> (stream \<times> disk) option" where
  "fopen_rb name d = (case disk_files d name of
     None \<Rightarrow> None | Some _ \<Rightarrow> Some (\<lparr>stream_name = name, stream_pos = 0, stream_writing = False\<rparr>, d))"

definition fopen_wb :: "string \<Rightarrow> disk \<Rightarrow> (stream \<times> disk) option" where
  "fopen_wb name d =
     (if \<not> disk_creatable d name then None
      else Some (\<lparr>stream_name = name, stream_pos = 0, stream_writing = True\<rparr>,
                 d\<lparr>disk_files := (disk_files d)(name \<mapsto> [])\<rparr>))"

text \<open>None is EOF, also for a stream that only writes.\<close>

definition fgetc :: "disk \<Rightarrow> stream \<Rightarrow> u8 option \<times> stream" where
  "fgetc d f =
     (if \<not> stream_writing f \<and> stream_pos f < length (file_bytes d f)
      then (Some (file_bytes d f ! stream_pos f), f\<lparr>stream_pos := stream_pos f + 1\<rparr>) else (None, f))"

definition ungetc :: "stream \<Rightarrow> stream" where
  "ungetc f = f\<lparr>stream_pos := stream_pos f - 1\<rparr>"

definition put_at :: "nat \<Rightarrow> u8 \<Rightarrow> u8 list \<Rightarrow> u8 list" where
  "put_at p b bytes = take p (bytes @ replicate (p - length bytes) 0) @ [b] @ drop (p + 1) bytes"

definition fputc :: "u8 \<Rightarrow> disk \<Rightarrow> stream \<Rightarrow> disk \<times> stream" where
  "fputc b d f =
     (if stream_writing f
      then (d\<lparr>disk_files := (disk_files d)(stream_name f \<mapsto> put_at (stream_pos f) b (file_bytes d f))\<rparr>,
            f\<lparr>stream_pos := stream_pos f + 1\<rparr>)
      else (d, f))"

section \<open>The ports\<close>

definition SYSC_MAX_FILES :: u8 where "SYSC_MAX_FILES = 16"

record syscall_ports_state =
  namebuf :: "u8 list"
  current_handle :: u8
  poweroff :: bool
  poweroff_code :: u8
  sysc_files :: "u8 \<Rightarrow> stream option"

definition syscall_ports_init :: syscall_ports_state where
  "syscall_ports_init = \<lparr>namebuf = [], current_handle = 0, poweroff = False, poweroff_code = 0,
     sysc_files = (\<lambda>_. None)\<rparr>"

text \<open>The first free handle from \<open>h\<close> on.\<close>

definition free_handle :: "(u8 \<Rightarrow> stream option) \<Rightarrow> u8 option" where
  "free_handle files = List.find (\<lambda>h. files h = None) (map word_of_nat [1..<Suc (unat SYSC_MAX_FILES)])"

definition sysc_open ::
  "(disk \<Rightarrow> (stream \<times> disk) option) \<Rightarrow> syscall_ports_state \<times> disk \<Rightarrow> u8 \<times> syscall_ports_state \<times> disk" where
  "sysc_open fopen = (\<lambda>(s, d). case free_handle (sysc_files s) of
     None \<Rightarrow> (0, s, d)
   | Some h \<Rightarrow> (case fopen d of
       None \<Rightarrow> (0, s, d)
     | Some (f, d) \<Rightarrow> (h, s\<lparr>sysc_files := (sysc_files s)(h \<mapsto> f)\<rparr>, d)))"

text \<open>The name is a C string: it ends at the first NUL.\<close>

definition c_name :: "u8 list \<Rightarrow> string" where
  "c_name bytes = map (\<lambda>b. char_of (unat b)) (takeWhile (\<lambda>b. b \<noteq> 0) bytes)"

definition open_port ::
  "(string \<Rightarrow> disk \<Rightarrow> (stream \<times> disk) option) \<Rightarrow> syscall_ports_state \<times> disk \<Rightarrow> u8 \<times> syscall_ports_state \<times> disk"
where
  "open_port fopen x =
     (let (h, s, d) = sysc_open (fopen (c_name (namebuf (fst x)))) x
      in (h, s\<lparr>current_handle := h, namebuf := []\<rparr>, d))"

definition cur :: "syscall_ports_state \<Rightarrow> stream option" where
  "cur s = (if 1 \<le> current_handle s \<and> current_handle s \<le> SYSC_MAX_FILES
            then sysc_files s (current_handle s) else None)"

definition put_cur :: "stream \<Rightarrow> syscall_ports_state \<Rightarrow> syscall_ports_state" where
  "put_cur f s = s\<lparr>sysc_files := (sysc_files s)(current_handle s \<mapsto> f)\<rparr>"

definition syscall_ports_read ::
  "u16 \<Rightarrow> syscall_ports_state \<times> disk \<Rightarrow> u8 option \<times> syscall_ports_state \<times> disk" where
  "syscall_ports_read addr = (\<lambda>(s, d).
     if addr < 0xF800 \<or> addr > 0xF80F then (None, s, d)
     else if addr = 0xF802 then (let (h, x) = open_port fopen_rb (s, d) in (Some h, x))
     else if addr = 0xF803 then (let (h, x) = open_port fopen_wb (s, d) in (Some h, x))
     else if addr = 0xF805 then (case cur s of
         None \<Rightarrow> (Some 0, s, d)
       | Some f \<Rightarrow> (let (b, f) = fgetc d f in (Some (case b of Some v \<Rightarrow> v | None \<Rightarrow> 0), put_cur f s, d)))
     else if addr = 0xF806 then (case cur s of
         None \<Rightarrow> (Some 0, s, d)
       | Some f \<Rightarrow> (case fgetc d f of
           (None, f) \<Rightarrow> (Some 0x80, put_cur (f\<lparr>stream_pos := 0\<rparr>) s, d)
         | (Some _, f) \<Rightarrow> (Some 0, put_cur (ungetc f) s, d)))
     else (Some 0, s, d))"

definition syscall_ports_write ::
  "u16 \<Rightarrow> u8 \<Rightarrow> syscall_ports_state \<times> disk \<Rightarrow> bool \<times> syscall_ports_state \<times> disk" where
  "syscall_ports_write addr data = (\<lambda>(s, d).
     if addr < 0xF800 \<or> addr > 0xF80F then (False, s, d)
     else if addr = 0xF800 then
       (True, if length (namebuf s) < 255 then s\<lparr>namebuf := namebuf s @ [data]\<rparr> else s, d)
     else if addr = 0xF801 then (True, s\<lparr>namebuf := []\<rparr>, d)
     else if addr = 0xF804 then (True, s\<lparr>current_handle := data\<rparr>, d)
     else if addr = 0xF807 then (case cur s of
         None \<Rightarrow> (True, s, d)
       | Some f \<Rightarrow> (let (d, f) = fputc data d f in (True, put_cur f s, d)))
     else if addr = 0xF808 then
       (True, (if cur s = None then s else s\<lparr>sysc_files := (sysc_files s)(current_handle s := None)\<rparr>)
                \<lparr>current_handle := 0\<rparr>, d)
     else if addr = 0xF80F then (True, s\<lparr>poweroff := True, poweroff_code := data\<rparr>, d)
     else (True, s, d))"

section \<open>A program's use of the ports\<close>

definition port_write :: "u16 \<Rightarrow> u8 \<Rightarrow> syscall_ports_state \<times> disk \<Rightarrow> syscall_ports_state \<times> disk" where
  "port_write addr data x = snd (syscall_ports_write addr data x)"

definition port_read :: "u16 \<Rightarrow> syscall_ports_state \<times> disk \<Rightarrow> u8 \<times> syscall_ports_state \<times> disk" where
  "port_read addr x = (let (v, x) = syscall_ports_read addr x in (case v of Some b \<Rightarrow> b | None \<Rightarrow> 0xFF, x))"

definition port_name :: "u8 list \<Rightarrow> syscall_ports_state \<times> disk \<Rightarrow> syscall_ports_state \<times> disk" where
  "port_name name x = fold (port_write 0xF800) name (port_write 0xF801 0 x)"

definition save_file :: "u8 list \<Rightarrow> u8 list \<Rightarrow> syscall_ports_state \<times> disk \<Rightarrow> u8 \<times> syscall_ports_state \<times> disk" where
  "save_file name bytes x =
     (let (h, x) = port_read 0xF803 (port_name name x)
      in (h, port_write 0xF808 0 (fold (port_write 0xF807) bytes x)))"

text \<open>Bytes read while the end is not flagged, \<open>n\<close> at most.\<close>

fun read_file :: "nat \<Rightarrow> syscall_ports_state \<times> disk \<Rightarrow> u8 list \<times> syscall_ports_state \<times> disk" where
  "read_file 0 x = ([], x)"
| "read_file (Suc n) x =
     (let (e, x) = port_read 0xF806 x
      in if e AND 0x80 \<noteq> 0 then ([], x)
         else let (b, x) = port_read 0xF805 x; (bs, x) = read_file n x in (b # bs, x))"

definition load_file :: "nat \<Rightarrow> u8 list \<Rightarrow> syscall_ports_state \<times> disk \<Rightarrow> u8 list \<times> syscall_ports_state \<times> disk" where
  "load_file n name x = (let (h, x) = port_read 0xF802 (port_name name x) in read_file n x)"

section \<open>A file written and read back\<close>

lemma find_in: "List.find P xs = Some x \<Longrightarrow> x \<in> set xs \<and> P x"
  by (induction xs) (auto split: if_splits)

lemma free_handle_range:
  assumes "free_handle files = Some h"
  shows "files h = None" "1 \<le> h" "h \<le> SYSC_MAX_FILES"
proof -
  have "h \<in> set (map word_of_nat [1..<Suc (unat SYSC_MAX_FILES)])" "files h = None"
    using find_in[OF assms[unfolded free_handle_def]] by simp_all
  then obtain i where "h = word_of_nat i" "1 \<le> i" "i \<le> 16"
    by (auto simp: SYSC_MAX_FILES_def)
  then show "1 \<le> h" "h \<le> SYSC_MAX_FILES"
    by (simp_all add: SYSC_MAX_FILES_def word_le_nat_alt unat_of_nat)
  show "files h = None" by fact
qed

lemma port_name_eq: "port_name name (s, d) = (s\<lparr>namebuf := take 255 name\<rparr>, d)"
proof -
  have "fold (port_write 0xF800) bytes (t, d) = (t\<lparr>namebuf := take 255 (namebuf t @ bytes)\<rparr>, d)"
    if "length (namebuf t) \<le> 255" for bytes t
    using that
  proof (induction bytes arbitrary: t)
    case (Cons b bytes)
    show ?case
    proof (cases "length (namebuf t) < 255")
      case True
      then show ?thesis
        using Cons.IH[of "t\<lparr>namebuf := namebuf t @ [b]\<rparr>"]
        by (simp add: port_write_def syscall_ports_write_def)
    next
      case False
      then have "length (namebuf t) = 255" using Cons.prems by simp
      then show ?thesis
        using Cons.IH[of t] by (simp add: port_write_def syscall_ports_write_def)
    qed
  qed simp
  then show ?thesis
    by (simp add: port_name_def port_write_def syscall_ports_write_def)
qed

text \<open>A handle in use as the current one.\<close>

definition holding :: "u8 \<Rightarrow> stream \<Rightarrow> syscall_ports_state \<Rightarrow> bool" where
  "holding h f s \<longleftrightarrow> current_handle s = h \<and> sysc_files s h = Some f \<and> 1 \<le> h \<and> h \<le> SYSC_MAX_FILES"

lemma holding_cur: "holding h f s \<Longrightarrow> cur s = Some f"
  by (auto simp: holding_def cur_def)

lemma holding_put: "holding h f s \<Longrightarrow> holding h g (put_cur g s)"
  by (auto simp: holding_def put_cur_def)

lemma put_cur_twice [simp]: "put_cur g (put_cur f s) = put_cur g s"
  by (simp add: put_cur_def)

definition disk_put :: "string \<Rightarrow> u8 list \<Rightarrow> disk \<Rightarrow> disk" where
  "disk_put name bytes d = d\<lparr>disk_files := (disk_files d)(name \<mapsto> bytes)\<rparr>"

lemma write_bytes:
  assumes "holding h f s" "stream_writing f" "disk_files d (stream_name f) = Some bytes"
    "stream_pos f = length bytes"
  shows "fold (port_write 0xF807) added (s, d) =
     (put_cur (f\<lparr>stream_pos := length bytes + length added\<rparr>) s, disk_put (stream_name f) (bytes @ added) d)"
  using assms
proof (induction added arbitrary: s d f bytes)
  case Nil
  then have "f\<lparr>stream_pos := length bytes\<rparr> = f" by simp
  moreover have "put_cur f s = s" using Nil.prems(1) by (auto simp: put_cur_def holding_def fun_upd_idem)
  moreover have "disk_put (stream_name f) bytes d = d"
    using Nil.prems(3) by (simp add: disk_put_def fun_upd_idem)
  ultimately show ?case by simp
next
  case (Cons b added)
  define g where "g = f\<lparr>stream_pos := length bytes + 1\<rparr>"
  have "put_at (length bytes) b bytes = bytes @ [b]" by (simp add: put_at_def)
  then have w: "port_write 0xF807 b (s, d) = (put_cur g s, disk_put (stream_name f) (bytes @ [b]) d)"
    using Cons.prems holding_cur[OF Cons.prems(1)]
    by (simp add: port_write_def syscall_ports_write_def fputc_def file_bytes_def disk_put_def g_def)
  have "fold (port_write 0xF807) added (put_cur g s, disk_put (stream_name f) (bytes @ [b]) d) =
      (put_cur (g\<lparr>stream_pos := length (bytes @ [b]) + length added\<rparr>) (put_cur g s),
       disk_put (stream_name g) ((bytes @ [b]) @ added) (disk_put (stream_name f) (bytes @ [b]) d))"
    using Cons.prems holding_put[OF Cons.prems(1), of g]
    by (intro Cons.IH) (simp_all add: g_def disk_put_def)
  then show ?case by (simp add: w) (simp add: g_def disk_put_def)
qed

lemma read_bytes:
  assumes "holding h f s" "\<not> stream_writing f" "disk_files d (stream_name f) = Some bytes"
    "stream_pos f \<le> length bytes" "length bytes - stream_pos f < n"
  shows "fst (read_file n (s, d)) = drop (stream_pos f) bytes"
  using assms
proof (induction n arbitrary: s f)
  case (Suc n)
  have fb: "file_bytes d f = bytes" using Suc.prems(3) by (simp add: file_bytes_def)
  show ?case
  proof (cases "stream_pos f < length bytes")
    case True
    define g where "g = f\<lparr>stream_pos := stream_pos f + 1\<rparr>"
    have u: "ungetc g = f" by (simp add: ungetc_def g_def)
    have e: "port_read 0xF806 (s, d) = (0, put_cur f s, d)"
      using Suc.prems(2) True holding_cur[OF Suc.prems(1)] u
      by (simp add: port_read_def syscall_ports_read_def fgetc_def fb g_def)
    have b: "port_read 0xF805 (put_cur f s, d) = (bytes ! stream_pos f, put_cur g s, d)"
      using Suc.prems(2) True holding_cur[OF holding_put[OF Suc.prems(1)], of f]
      by (simp add: port_read_def syscall_ports_read_def fgetc_def fb g_def)
    have "fst (read_file n (put_cur g s, d)) = drop (stream_pos g) bytes"
      using Suc.prems holding_put[OF Suc.prems(1), of g] True by (intro Suc.IH) (simp_all add: g_def)
    then show ?thesis
      using True by (simp add: e b split_def Let_def g_def Cons_nth_drop_Suc)
  next
    case False
    have "port_read 0xF806 (s, d) = (0x80, put_cur (f\<lparr>stream_pos := 0\<rparr>) s, d)"
      using False holding_cur[OF Suc.prems(1)]
      by (simp add: port_read_def syscall_ports_read_def fgetc_def fb)
    then show ?thesis using False by simp
  qed
qed simp

text \<open>
  Property C28: a file a program writes through the ports reads back. Given a free handle, a
  name without NUL of at most 255 bytes and a directory that takes the file, writing bytes one
  by one, closing, opening again and reading until the end is flagged returns exactly these
  bytes; the handle is free again after the close, and no other file has changed.
\<close>

theorem file_roundtrip:
  assumes "length name \<le> 255" "free_handle (sysc_files s) = Some h"
    "disk_creatable d (c_name name)" "length bytes < n"
    "save_file name bytes (s, d) = (h', s', d')"
  shows "h' = h \<and> fst (load_file n name (s', d')) = bytes \<and> sysc_files s' = sysc_files s \<and>
    (\<forall>other. other \<noteq> c_name name \<longrightarrow> disk_files d' other = disk_files d other)"
proof -
  note r = free_handle_range[OF assms(2)]
  define f where "f = \<lparr>stream_name = c_name name, stream_pos = 0, stream_writing = True\<rparr>"
  define t where "t = s\<lparr>sysc_files := (sysc_files s)(h \<mapsto> f), current_handle := h, namebuf := []\<rparr>"
  have o: "port_read 0xF803 (port_name name (s, d)) = (h, t, disk_put (c_name name) [] d)"
    using assms(1-3)
    by (simp add: port_name_eq port_read_def syscall_ports_read_def open_port_def sysc_open_def
        fopen_wb_def f_def t_def disk_put_def)
  have hold: "holding h f t" using r by (simp add: holding_def t_def)
  have "fold (port_write 0xF807) bytes (t, disk_put (c_name name) [] d) =
      (put_cur (f\<lparr>stream_pos := length bytes\<rparr>) t, disk_put (c_name name) bytes d)"
    using write_bytes[OF hold, of "disk_put (c_name name) [] d" "[]" bytes]
    by (simp add: f_def disk_put_def)
  then have "save_file name bytes (s, d) =
      (h, port_write 0xF808 0 (put_cur (f\<lparr>stream_pos := length bytes\<rparr>) t, disk_put (c_name name) bytes d))"
    by (simp add: save_file_def o)
  moreover have "port_write 0xF808 0 (put_cur g t, e) =
      (t\<lparr>sysc_files := (sysc_files s), current_handle := 0\<rparr>, e)" for g e
    using holding_cur[OF holding_put[OF hold], of g] r(1)
    by (simp add: port_write_def syscall_ports_write_def put_cur_def t_def fun_upd_idem)
  ultimately have s': "h' = h" "s' = t\<lparr>sysc_files := sysc_files s, current_handle := 0\<rparr>"
    "d' = disk_put (c_name name) bytes d"
    using assms(5) by simp_all
  define g where "g = \<lparr>stream_name = c_name name, stream_pos = 0, stream_writing = False\<rparr>"
  define u where "u = s'\<lparr>sysc_files := (sysc_files s)(h \<mapsto> g), current_handle := h, namebuf := []\<rparr>"
  have "port_read 0xF802 (port_name name (s', d')) = (h, u, d')"
    using assms(1,2)
    by (simp add: port_name_eq port_read_def syscall_ports_read_def open_port_def sysc_open_def
        fopen_rb_def g_def u_def s' t_def disk_put_def)
  moreover have "holding h g u" using r by (simp add: holding_def u_def)
  from read_bytes[OF this, of d' bytes n] have "fst (read_file n (u, d')) = bytes"
    using assms(4) by (simp add: g_def s'(3) disk_put_def)
  ultimately show ?thesis
    by (simp add: load_file_def s' disk_put_def)
qed

theorem file_witness:
  "case save_file [0x41] [1, 2, 3] (syscall_ports_init, \<lparr>disk_files = (\<lambda>_. None), disk_creatable = (\<lambda>_. True)\<rparr>) of
     (h, x) \<Rightarrow> h = 1 \<and> fst (load_file 9 [0x41] x) = [1, 2, 3]"
proof -
  let ?d = "\<lparr>disk_files = (\<lambda>_. None), disk_creatable = (\<lambda>_. True)\<rparr>"
  obtain h s d where e: "save_file [0x41] [1, 2, 3] (syscall_ports_init, ?d) = (h, s, d)"
    by (metis prod.exhaust)
  have "free_handle (sysc_files syscall_ports_init) = Some 1"
    by (simp add: free_handle_def syscall_ports_init_def SYSC_MAX_FILES_def upt_rec)
  from file_roundtrip[OF _ this _ _ e, of 9] show ?thesis by (simp add: e)
qed

end
