(* ===== verification/Serial_Link.thy ===== *)
theory Serial_Link imports Via_Frame
begin

text \<open>
  The host-driven serial link of the wendy2c (\<open>src/emulator/serial_link.c\<close>): commands on a
  socket that move the CB2 line and the reset line at emulated times. The conversion of
  nanoseconds to oscillator ticks is floating point and a parameter \<open>conv\<close>, from the
  nanoseconds and the residue carried to the ticks and the next residue; what the socket
  delivers and whether an answer can be sent are arguments of the poll.
\<close>

section \<open>State\<close>

definition RX_BUF_SIZE :: nat where "RX_BUF_SIZE = 4096"

abbreviation (input) OP_LOW :: u8 where "OP_LOW \<equiv> 0x01"
abbreviation (input) OP_HIGH :: u8 where "OP_HIGH \<equiv> 0x02"
abbreviation (input) OP_DELAY :: u8 where "OP_DELAY \<equiv> 0x03"
abbreviation (input) OP_RESET_ON :: u8 where "OP_RESET_ON \<equiv> 0x10"
abbreviation (input) OP_RESET_OFF :: u8 where "OP_RESET_OFF \<equiv> 0x11"
abbreviation (input) OP_PING :: u8 where "OP_PING \<equiv> 0x20"
abbreviation (input) OP_TX_START :: u8 where "OP_TX_START \<equiv> 0x30"
abbreviation (input) OP_TX_END :: u8 where "OP_TX_END \<equiv> 0x31"

text \<open>\<open>last_cb2\<close> is None while it is not valid; \<open>answers\<close> is what has been sent back.\<close>

record 'r serial_link =
  has_client :: bool
  rx :: "u8 list"
  unblock_at_osc :: u64
  has_unblock :: bool
  tick_residue :: 'r
  in_tx :: bool
  last_cb2 :: "bool option"
  answers :: "u8 list"

type_synonym ('r, 'a) link_bus = "'r serial_link \<times> 'a via_bus"

definition drop_client :: "'r serial_link \<Rightarrow> 'r serial_link" where
  "drop_client l = l\<lparr>has_client := False, rx := [], in_tx := False, has_unblock := False\<rparr>"

text \<open>\<open>zero\<close> is the residue 0.\<close>

definition try_accept :: "'r \<Rightarrow> bool \<Rightarrow> 'r serial_link \<Rightarrow> 'r serial_link" where
  "try_accept zero accepted l =
     (if has_client l \<or> \<not> accepted then l
      else l\<lparr>has_client := True, rx := [], has_unblock := False, in_tx := False, tick_residue := zero,
             last_cb2 := None\<rparr>)"

datatype socket_input = Nothing_yet | Closed | Bytes_in "u8 list"

definition try_recv :: "socket_input \<Rightarrow> 'r serial_link \<Rightarrow> 'r serial_link" where
  "try_recv r l =
     (if \<not> has_client l \<or> length (rx l) \<ge> RX_BUF_SIZE then l
      else case r of
          Nothing_yet \<Rightarrow> l
        | Closed \<Rightarrow> drop_client l
        | Bytes_in bytes \<Rightarrow> l\<lparr>rx := rx l @ take (RX_BUF_SIZE - length (rx l)) bytes\<rparr>)"

definition try_send :: "bool \<Rightarrow> u8 \<Rightarrow> 'r serial_link \<Rightarrow> 'r serial_link" where
  "try_send ok b l =
     (if \<not> has_client l then l else if ok then l\<lparr>answers := answers l @ [b]\<rparr> else drop_client l)"

section \<open>Commands\<close>

definition apply_cb2 :: "bool \<Rightarrow> ('r, 'a) link_bus \<Rightarrow> ('r, 'a) link_bus" where
  "apply_cb2 level = (\<lambda>(l, v).
     if last_cb2 l = Some level then (l, v) else (l\<lparr>last_cb2 := Some level\<rparr>, via_6522_set_cb2 level v))"

text \<open>The length of the command at the front: 0 while it is not complete, -1 where it is unknown.\<close>

definition command_len :: "u8 list \<Rightarrow> int" where
  "command_len bytes =
     (if bytes = [] then 0
      else let op = hd bytes in
        if op = OP_LOW \<or> op = OP_HIGH \<or> op = OP_DELAY then (if length bytes \<ge> 9 then 9 else 0)
        else if op = OP_RESET_ON \<or> op = OP_RESET_OFF \<or> op = OP_PING \<or> op = OP_TX_START \<or> op = OP_TX_END
        then 1 else - 1)"

definition read_u64le :: "u8 list \<Rightarrow> u64" where
  "read_u64le bytes = fold (\<lambda>i v. v OR push_bit (8 * i) (ucast (bytes ! i))) [0..<8] 0"

definition wait_ns :: "(u64 \<Rightarrow> 'r \<Rightarrow> u64 \<times> 'r) \<Rightarrow> u64 \<Rightarrow> u64 \<Rightarrow> 'r serial_link \<Rightarrow> 'r serial_link" where
  "wait_ns conv now ns l =
     (let (ticks, r) = conv ns (tick_residue l)
      in l\<lparr>tick_residue := r, unblock_at_osc := now + ticks, has_unblock := True\<rparr>)"

definition set_res :: "bool \<Rightarrow> 'a via_bus \<Rightarrow> 'a via_bus" where
  "set_res level = (\<lambda>(s, b). (s, b\<lparr>bus_res := level\<rparr>))"

definition link_command ::
  "(u64 \<Rightarrow> 'r \<Rightarrow> u64 \<times> 'r) \<Rightarrow> u64 \<Rightarrow> bool \<Rightarrow> u8 \<Rightarrow> u64 \<Rightarrow> ('r, 'a) link_bus \<Rightarrow> ('r, 'a) link_bus" where
  "link_command conv now ok op ns = (\<lambda>(l, v).
     if op = OP_LOW then (let (l, v) = apply_cb2 False (l, v) in (wait_ns conv now ns l, v))
     else if op = OP_HIGH then (let (l, v) = apply_cb2 True (l, v) in (wait_ns conv now ns l, v))
     else if op = OP_DELAY then (wait_ns conv now ns l, v)
     else if op = OP_RESET_ON then (l, set_res True v)
     else if op = OP_RESET_OFF then (l, set_res False v)
     else if op = OP_PING then (try_send ok OP_PING l, v)
     else if op = OP_TX_START then (l\<lparr>in_tx := True\<rparr>, v)
     else if op = OP_TX_END then (l\<lparr>in_tx := False\<rparr>, v)
     else (l, v))"

text \<open>
  One command. Its bytes are consumed by a move of what follows them; None where the buffer
  has become shorter than the command, and the size of that move is negative.
\<close>

definition apply_one ::
  "(u64 \<Rightarrow> 'r \<Rightarrow> u64 \<times> 'r) \<Rightarrow> u64 \<Rightarrow> bool \<Rightarrow> nat \<Rightarrow> ('r, 'a) link_bus \<Rightarrow> ('r, 'a) link_bus option" where
  "apply_one conv now ok len = (\<lambda>(l, v).
     let (l, v) = link_command conv now ok (hd (rx l)) (read_u64le (tl (rx l))) (l, v)
     in if length (rx l) < len then None else Some (l\<lparr>rx := drop len (rx l)\<rparr>, v))"

lemma effect_rx: "length (rx (fst (link_command conv now ok op ns x))) \<le> length (rx (fst x))"
  by (simp add: link_command_def apply_cb2_def wait_ns_def try_send_def drop_client_def split_def Let_def)

lemma apply_one_shorter:
  "apply_one conv now ok len x = Some (l, v) \<Longrightarrow> 0 < len \<Longrightarrow> rx (fst x) \<noteq> [] \<Longrightarrow>
    length (rx l) < length (rx (fst x))"
  using effect_rx[of conv now ok "hd (rx (fst x))" "read_u64le (tl (rx (fst x)))" x]
  by (auto simp: apply_one_def split_def Let_def split: if_splits)

function link_drain ::
  "(u64 \<Rightarrow> 'r \<Rightarrow> u64 \<times> 'r) \<Rightarrow> u64 \<Rightarrow> bool \<Rightarrow> ('r, 'a) link_bus \<Rightarrow> ('r, 'a) link_bus option" where
  "link_drain conv now ok (l, v) =
     (if rx l = [] \<or> has_unblock l \<and> now < unblock_at_osc l then Some (l, v)
      else if command_len (rx l) < 0 then Some (drop_client l, v)
      else if command_len (rx l) = 0 then Some (l, v)
      else case apply_one conv now ok (nat (command_len (rx l))) (l, v) of
          None \<Rightarrow> None
        | Some x \<Rightarrow> link_drain conv now ok x)"
  by pat_completeness auto
termination
  by (relation "measure (\<lambda>(conv, now, ok, l, v). length (rx l))") (auto dest: apply_one_shorter)

declare link_drain.simps [simp del]

section \<open>The calls of the run loop\<close>

definition serial_link_poll ::
  "(u64 \<Rightarrow> 'r \<Rightarrow> u64 \<times> 'r) \<Rightarrow> 'r \<Rightarrow> bool \<Rightarrow> socket_input \<Rightarrow> bool \<Rightarrow> u64 \<Rightarrow> ('r, 'a) link_bus \<Rightarrow>
   ('r, 'a) link_bus option" where
  "serial_link_poll conv zero accepted r ok now = (\<lambda>(l, v).
     let l = try_accept zero accepted l
     in if \<not> has_client l then Some (l, v) else link_drain conv now ok (try_recv r l, v))"

definition serial_link_should_stall :: "u64 \<Rightarrow> 'r serial_link \<Rightarrow> bool" where
  "serial_link_should_stall now l \<longleftrightarrow>
     has_client l \<and> in_tx l \<and> \<not> (has_unblock l \<and> now < unblock_at_osc l) \<and> rx l = []"

definition serial_link_needs_repoll :: "u64 \<Rightarrow> 'r serial_link \<Rightarrow> bool" where
  "serial_link_needs_repoll now l \<longleftrightarrow>
     has_client l \<and> in_tx l \<and> has_unblock l \<and> now \<ge> unblock_at_osc l"

section \<open>How the bytes arrive does not matter\<close>

text \<open>As long as answers can be sent, a command leaves the buffer to its consumer.\<close>

lemma link_command_rx:
  "link_command conv now True op ns (l\<lparr>rx := z\<rparr>, v) =
     (let (l', v') = link_command conv now True op ns (l, v) in (l'\<lparr>rx := z\<rparr>, v'))"
  "rx (fst (link_command conv now True op ns (l, v))) = rx l"
  "has_client (fst (link_command conv now True op ns (l, v))) = has_client l"
  by (simp_all add: link_command_def apply_cb2_def wait_ns_def try_send_def split_def Let_def)

lemma apply_one_ok:
  "apply_one conv now True n (l, v) =
     (if length (rx l) < n then None
      else let (l', v') = link_command conv now True (hd (rx l)) (read_u64le (tl (rx l))) (l, v)
           in Some (l'\<lparr>rx := drop n (rx l)\<rparr>, v'))"
  using link_command_rx(2)[of conv now "hd (rx l)" "read_u64le (tl (rx l))" l v]
  by (simp add: apply_one_def split_def Let_def)

lemma command_len_bounds: "0 < command_len z \<Longrightarrow> nat (command_len z) \<le> length z"
  by (cases z) (auto simp: command_len_def Let_def split: if_splits)

lemma command_len_append: "z \<noteq> [] \<Longrightarrow> command_len z \<noteq> 0 \<Longrightarrow> command_len (z @ y) = command_len z"
  by (auto simp: command_len_def Let_def split: if_splits)

lemma read_u64le_append: "8 \<le> length z \<Longrightarrow> read_u64le (z @ y) = read_u64le z"
  unfolding read_u64le_def by (rule fold_cong) (auto simp: nth_append)

lemma link_command_append:
  assumes "0 < command_len z"
  shows "link_command conv now True (hd (z @ y)) (read_u64le (tl (z @ y))) x =
    link_command conv now True (hd z) (read_u64le (tl z)) x"
proof -
  obtain op t where z: "z = op # t" using assms by (cases z) (auto simp: command_len_def)
  consider "8 \<le> length t" | "op \<noteq> OP_LOW" "op \<noteq> OP_HIGH" "op \<noteq> OP_DELAY"
    using assms by (auto simp: command_len_def z Let_def split: if_splits)
  then show ?thesis
  proof cases
    case 1
    then show ?thesis by (simp add: z read_u64le_append)
  next
    case 2
    then show ?thesis by (cases x) (simp add: link_command_def z)
  qed
qed

lemma drain_total: "\<exists>y. link_drain conv now True x = Some y"
proof (induction conv now "True" x rule: link_drain.induct)
  case (1 conv now l v)
  show ?case
    using 1 command_len_bounds[of "rx l"]
    by (subst link_drain.simps) (auto simp: apply_one_ok not_le split_def Let_def split: option.split)
qed

lemma drain_append:
  assumes "link_drain conv now True (l, v) = Some (l', v')" "has_client l"
  shows "link_drain conv now True (l\<lparr>rx := rx l @ y\<rparr>, v) =
    (if has_client l' then link_drain conv now True (l'\<lparr>rx := rx l' @ y\<rparr>, v') else Some (l', v'))"
  using assms
proof (induction conv now "True" "(l, v)" arbitrary: l v rule: link_drain.induct)
  case (1 conv now l v)
  let ?stop = "rx l = [] \<or> has_unblock l \<and> now < unblock_at_osc l"
  consider (stop) "?stop" | (unknown) "\<not> ?stop" "command_len (rx l) < 0"
    | (part) "\<not> ?stop" "command_len (rx l) = 0" | (one) "\<not> ?stop" "0 < command_len (rx l)" by linarith
  then show ?case
  proof cases
    case stop
    then have "l' = l" "v' = v" using "1.prems"(1) by (auto simp: link_drain.simps[of conv now True l v])
    then show ?thesis using "1.prems"(2) by simp
  next
    case part
    then have "l' = l" "v' = v" using "1.prems"(1) by (auto simp: link_drain.simps[of conv now True l v])
    then show ?thesis using "1.prems"(2) by simp
  next
    case unknown
    then have e: "l' = drop_client l" "v' = v"
      using "1.prems"(1) by (auto simp: link_drain.simps[of conv now True l v])
    have "command_len (rx l @ y) < 0" using unknown command_len_append[of "rx l" y] by auto
    then have "link_drain conv now True (l\<lparr>rx := rx l @ y\<rparr>, v) = Some (drop_client (l\<lparr>rx := rx l @ y\<rparr>), v)"
      using unknown by (subst link_drain.simps) auto
    then show ?thesis by (simp add: e drop_client_def)
  next
    case one
    obtain l1 v1 where c: "link_command conv now True (hd (rx l)) (read_u64le (tl (rx l))) (l, v) = (l1, v1)"
      by (rule prod.exhaust)
    define n where "n = nat (command_len (rx l))"
    have n: "n \<le> length (rx l)" using command_len_bounds[OF one(2)] by (simp add: n_def)
    have a: "apply_one conv now True n (l, v) = Some (l1\<lparr>rx := drop n (rx l)\<rparr>, v1)"
      using n by (simp add: apply_one_ok c)
    have len: "command_len (rx l @ y) = command_len (rx l)"
      using one command_len_append[of "rx l" y] by auto
    have b: "apply_one conv now True n (l\<lparr>rx := rx l @ y\<rparr>, v) = Some (l1\<lparr>rx := drop n (rx l) @ y\<rparr>, v1)"
      using n c by (simp add: apply_one_ok link_command_append[OF one(2)] link_command_rx(1) drop_append)
    have h: "has_client l1" using link_command_rx(3) "1.prems"(2) c by (metis fst_conv)
    have d: "link_drain conv now True (l1\<lparr>rx := drop n (rx l)\<rparr>, v1) = Some (l', v')"
      using "1.prems"(1) one a by (subst (asm) link_drain.simps) (simp add: n_def)
    have "link_drain conv now True (l\<lparr>rx := rx l @ y\<rparr>, v) =
        link_drain conv now True (l1\<lparr>rx := drop n (rx l) @ y\<rparr>, v1)"
      using one b by (subst link_drain.simps) (auto simp: len n_def)
    also have "\<dots> = (if has_client l' then link_drain conv now True (l'\<lparr>rx := rx l' @ y\<rparr>, v')
        else Some (l', v'))"
      using "1.hyps"[OF one(1) _ _ a[unfolded n_def]] one d h
      by (simp add: n_def)
    finally show ?thesis .
  qed
qed

section \<open>The wire protocol\<close>

datatype link_op = Line bool u64 | Wait u64 | Reset_line bool | Ping | Tx bool

definition le64 :: "u64 \<Rightarrow> u8 list" where
  "le64 w = map (\<lambda>i. ucast (drop_bit (8 * i) w)) [0..<8]"

fun encode_op :: "link_op \<Rightarrow> u8 list" where
  "encode_op (Line level ns) = (if level then OP_HIGH else OP_LOW) # le64 ns"
| "encode_op (Wait ns) = OP_DELAY # le64 ns"
| "encode_op (Reset_line level) = [if level then OP_RESET_ON else OP_RESET_OFF]"
| "encode_op Ping = [OP_PING]"
| "encode_op (Tx start) = [if start then OP_TX_START else OP_TX_END]"

fun run_op :: "(u64 \<Rightarrow> 'r \<Rightarrow> u64 \<times> 'r) \<Rightarrow> u64 \<Rightarrow> link_op \<Rightarrow> ('r, 'a) link_bus \<Rightarrow> ('r, 'a) link_bus" where
  "run_op conv now (Line level ns) (l, v) =
     (let (l, v) = apply_cb2 level (l, v) in (wait_ns conv now ns l, v))"
| "run_op conv now (Wait ns) (l, v) = (wait_ns conv now ns l, v)"
| "run_op conv now (Reset_line level) (l, v) = (l, set_res level v)"
| "run_op conv now Ping (l, v) = (l\<lparr>answers := answers l @ [OP_PING]\<rparr>, v)"
| "run_op conv now (Tx start) (l, v) = (l\<lparr>in_tx := start\<rparr>, v)"

text \<open>The commands run in order until one makes the link wait; the rest stays queued.\<close>

fun run_ops :: "(u64 \<Rightarrow> 'r \<Rightarrow> u64 \<times> 'r) \<Rightarrow> u64 \<Rightarrow> link_op list \<Rightarrow> ('r, 'a) link_bus \<Rightarrow>
    link_op list \<times> ('r, 'a) link_bus" where
  "run_ops conv now [] x = ([], x)"
| "run_ops conv now (c # cs) (l, v) =
     (if has_unblock l \<and> now < unblock_at_osc l then (c # cs, l, v)
      else run_ops conv now cs (run_op conv now c (l, v)))"

definition encode_ops :: "link_op list \<Rightarrow> u8 list" where
  "encode_ops cs = concat (map encode_op cs)"

lemma read_le64: "read_u64le (le64 w @ rest) = w"
proof -
  have b: "bit (push_bit k (ucast (ucast (drop_bit k w) :: u8)) :: u64) n \<longleftrightarrow> k \<le> n \<and> n < k + 8 \<and> bit w n"
    for k n
    by (auto simp: bit_simps dest: bit_imp_le_length)
  have b0: "bit (ucast (ucast w :: u8) :: u64) n \<longleftrightarrow> n < 8 \<and> bit w n" for n
    by (auto simp: bit_simps dest: bit_imp_le_length)
  have nth: "(le64 w @ rest) ! i = ucast (drop_bit (8 * i) w)" if "i < 8" for i
    using that by (simp add: le64_def nth_append)
  have "read_u64le (le64 w @ rest) =
      fold (\<lambda>i v. v OR push_bit (8 * i) (ucast (ucast (drop_bit (8 * i) w) :: u8))) [0..<8] 0"
    unfolding read_u64le_def by (rule fold_cong) (simp_all add: nth)
  also have "\<dots> = w"
  proof (rule bit_word_eqI)
    fix n assume "n < LENGTH(64)"
    then have n: "n < 64" by simp
    show "bit (fold (\<lambda>i v. v OR push_bit (8 * i) (ucast (ucast (drop_bit (8 * i) w) :: u8))) [0..<8] (0 :: u64)) n = bit w n"
      using n by (simp add: upt_rec[of _ 8] bit_or_iff b b0) linarith
  qed
  finally show ?thesis .
qed

lemma length_le64: "length (le64 w) = 8"
  by (simp add: le64_def)

lemma encode_front:
  assumes "rx l = encode_op c @ rest" "has_client l"
  shows "command_len (rx l) = int (length (encode_op c))"
    and "link_command conv now True (hd (rx l)) (read_u64le (tl (rx l))) (l, v) = run_op conv now c (l, v)"
proof -
  have "command_len (encode_op c @ rest) = int (length (encode_op c))"
    by (cases c) (simp_all add: command_len_def length_le64)
  then show "command_len (rx l) = int (length (encode_op c))" by (simp only: assms(1))
  show "link_command conv now True (hd (rx l)) (read_u64le (tl (rx l))) (l, v) = run_op conv now c (l, v)"
    using assms(2) unfolding assms(1) by (cases c) (simp_all add: link_command_def read_le64 try_send_def)
qed

lemma encode_nonempty: "encode_op c \<noteq> []"
  by (cases c) simp_all

lemma run_op_fields:
  "has_client (fst (run_op conv now c (l, v))) = has_client l"
  "run_op conv now c (l\<lparr>rx := z\<rparr>, v) = (let (l', v') = run_op conv now c (l, v) in (l'\<lparr>rx := z\<rparr>, v'))"
  by (cases c; simp add: apply_cb2_def wait_ns_def split_def Let_def)+

lemma run_ops_rx:
  "run_ops conv now cs (l\<lparr>rx := z\<rparr>, v) =
     (let (rest, l', v') = run_ops conv now cs (l, v) in (rest, l'\<lparr>rx := z\<rparr>, v'))"
  by (induction cs arbitrary: l v) (simp_all add: run_op_fields(2) split_def Let_def)

lemma drain_runs:
  "has_client l \<Longrightarrow> rx l = encode_ops cs \<Longrightarrow> link_drain conv now True (l, v) =
     (let (rest, l', v') = run_ops conv now cs (l, v) in Some (l'\<lparr>rx := encode_ops rest\<rparr>, v'))"
proof (induction cs arbitrary: l v)
  case Nil
  then show ?case by (subst link_drain.simps) (simp add: encode_ops_def)
next
  case (Cons c cs)
  have f: "rx l = encode_op c @ encode_ops cs" using Cons.prems(2) by (simp add: encode_ops_def)
  note e = encode_front[OF f Cons.prems(1)]
  show ?case
  proof (cases "has_unblock l \<and> now < unblock_at_osc l")
    case True
    then show ?thesis using Cons.prems(2) by (subst link_drain.simps) simp
  next
    case False
    obtain l1 v1 where r: "run_op conv now c (l, v) = (l1, v1)" by (rule prod.exhaust)
    have "apply_one conv now True (length (encode_op c)) (l, v) = Some (l1\<lparr>rx := encode_ops cs\<rparr>, v1)"
      by (simp add: apply_one_ok e(2) r) (simp add: f)
    moreover have "rx l \<noteq> []" using f encode_nonempty[of c] by simp
    ultimately have "link_drain conv now True (l, v) = link_drain conv now True (l1\<lparr>rx := encode_ops cs\<rparr>, v1)"
      using False encode_nonempty[of c] by (subst link_drain.simps) (auto simp: e(1))
    also have "\<dots> = (let (rest, l', v') = run_ops conv now cs (l1\<lparr>rx := encode_ops cs\<rparr>, v1)
        in Some (l'\<lparr>rx := encode_ops rest\<rparr>, v'))"
    proof (rule Cons.IH)
      show "has_client (l1\<lparr>rx := encode_ops cs\<rparr>)"
        using run_op_fields(1)[of conv now c l v] Cons.prems(1) r by simp
    qed simp
    finally show ?thesis using False r by (auto simp: run_ops_rx split_def Let_def)
  qed
qed

section \<open>Polls of one moment\<close>

definition link_polls ::
  "(u64 \<Rightarrow> 'r \<Rightarrow> u64 \<times> 'r) \<Rightarrow> 'r \<Rightarrow> u64 \<Rightarrow> u8 list list \<Rightarrow> ('r, 'a) link_bus \<Rightarrow> ('r, 'a) link_bus option" where
  "link_polls conv zero now chunks x =
     fold (\<lambda>c y. Option.bind y (serial_link_poll conv zero False (Bytes_in c) True now)) chunks (Some x)"

lemma poll_received:
  assumes "has_client l" "length (rx l) + length c \<le> RX_BUF_SIZE"
  shows "serial_link_poll conv zero False (Bytes_in c) True now (l, v) =
    link_drain conv now True (l\<lparr>rx := rx l @ c\<rparr>, v)"
proof (cases "length (rx l) = RX_BUF_SIZE")
  case True
  then have "c = []" using assms(2) by simp
  then show ?thesis using assms(1) True
    by (simp add: serial_link_poll_def try_accept_def try_recv_def)
next
  case False
  then show ?thesis using assms
    by (simp add: serial_link_poll_def try_accept_def try_recv_def)
qed

lemma polls_dropped: "\<not> has_client l \<Longrightarrow> link_polls conv zero now chunks (l, v) = Some (l, v)"
  unfolding link_polls_def
  by (induction chunks) (simp_all add: serial_link_poll_def try_accept_def)

lemma drain_rx: "link_drain conv now True x = Some y \<Longrightarrow> length (rx (fst y)) \<le> length (rx (fst x))"
proof (induction conv now "True" x rule: link_drain.induct)
  case (1 conv now l v)
  note d = link_drain.simps[of conv now True l v]
  show ?case
  proof (cases "\<exists>z. (rx l \<noteq> [] \<and> \<not> (has_unblock l \<and> now < unblock_at_osc l)) \<and> 0 < command_len (rx l) \<and>
      apply_one conv now True (nat (command_len (rx l))) (l, v) = Some z")
    case True
    then obtain m w where z: "rx l \<noteq> []" "\<not> (has_unblock l \<and> now < unblock_at_osc l)" "0 < command_len (rx l)"
      "apply_one conv now True (nat (command_len (rx l))) (l, v) = Some (m, w)" by auto
    have "link_drain conv now True (m, w) = Some y" using "1.prems" z by (auto simp: d)
    with "1.hyps"[OF _ _ _ z(4)] z have "length (rx (fst y)) \<le> length (rx m)" by auto
    moreover have "length (rx m) < length (rx l)"
      using apply_one_shorter[OF z(4)] z(1,3) by simp
    ultimately show ?thesis by simp
  next
    case False
    then show ?thesis using "1.prems"
      by (auto simp: d drop_client_def split: if_splits option.splits)
  qed
qed

lemma polls_drain:
  "has_client l \<Longrightarrow> length (rx l) + length (concat (c # chunks)) \<le> RX_BUF_SIZE \<Longrightarrow>
    link_polls conv zero now (c # chunks) (l, v) = link_drain conv now True (l\<lparr>rx := rx l @ concat (c # chunks)\<rparr>, v)"
proof (induction chunks arbitrary: c l v)
  case Nil
  then show ?case by (simp add: link_polls_def poll_received)
next
  case (Cons d chunks)
  obtain l1 v1 where d1: "link_drain conv now True (l\<lparr>rx := rx l @ c\<rparr>, v) = Some (l1, v1)"
    using drain_total by (metis prod.exhaust)
  have "serial_link_poll conv zero False (Bytes_in c) True now (l, v) = Some (l1, v1)"
    using poll_received[OF Cons.prems(1), where c = c and conv = conv and zero = zero and now = now and v = v]
      Cons.prems(2) d1 by simp
  then have p: "link_polls conv zero now (c # d # chunks) (l, v) = link_polls conv zero now (d # chunks) (l1, v1)"
    by (simp add: link_polls_def)
  have len: "length (rx l1) \<le> length (rx l) + length c" using drain_rx[OF d1] by simp
  have a: "link_drain conv now True (l\<lparr>rx := rx l @ concat (c # d # chunks)\<rparr>, v) =
      (if has_client l1 then link_drain conv now True (l1\<lparr>rx := rx l1 @ concat (d # chunks)\<rparr>, v1)
       else Some (l1, v1))"
    using drain_append[OF d1, of "concat (d # chunks)"] Cons.prems(1) by simp
  show ?case
  proof (cases "has_client l1")
    case True
    then show ?thesis using Cons.IH[OF True, where c = d and v = v1] Cons.prems(2) len a True by (simp add: p)
  next
    case False
    then show ?thesis using a by (simp add: p polls_dropped)
  qed
qed

text \<open>
  Property C8: the link follows its protocol however the bytes arrive. Commands encoded on the
  wire and received in any pieces, split anywhere, have the effect of the commands in order,
  up to the first that waits; what follows it stays queued, byte for byte.
\<close>

theorem link_protocol:
  assumes "has_client l" "rx l = []" "chunks \<noteq> []" "concat chunks = encode_ops cs"
    "length (concat chunks) \<le> RX_BUF_SIZE"
  shows "link_polls conv zero now chunks (l, v) =
    (let (rest, l', v') = run_ops conv now cs (l, v) in Some (l'\<lparr>rx := encode_ops rest\<rparr>, v'))"
proof -
  obtain c ds where "chunks = c # ds" using assms(3) by (cases chunks) auto
  then have c: "chunks = c # ds" .
  have "length (rx l) + length (concat (c # ds)) \<le> RX_BUF_SIZE" using assms(2,5) by (simp add: c)
  from polls_drain[OF assms(1) this, where conv = conv and zero = zero and now = now and v = v]
  have "link_polls conv zero now chunks (l, v) = link_drain conv now True (l\<lparr>rx := encode_ops cs\<rparr>, v)"
    using assms(4) by (simp only: c assms(2) append_Nil)
  also have "\<dots> = (let (rest, l', v') = run_ops conv now cs (l\<lparr>rx := encode_ops cs\<rparr>, v)
      in Some (l'\<lparr>rx := encode_ops rest\<rparr>, v'))"
    by (rule drain_runs) (simp_all add: assms(1))
  finally show ?thesis by (simp add: run_ops_rx split_def Let_def)
qed

text \<open>A link with a client and nothing received; a tick is a nanosecond.\<close>

definition idle_link :: "unit serial_link" where
  "idle_link = \<lparr>has_client = True, rx = [], unblock_at_osc = 0, has_unblock = False, tick_residue = (),
     in_tx = False, last_cb2 = None, answers = []\<rparr>"

theorem link_protocol_witness:
  "case link_polls (\<lambda>ns r. (ns, r)) () 100 [[OP_TX_START, OP_LOW, 26], [0, 0, 0, 0, 0, 0], [0, OP_TX_END]]
       (idle_link, via_6522_init, bus_init) of
     Some (l, v) \<Rightarrow> in_tx l \<and> last_cb2 l = Some False \<and> unblock_at_osc l = 126 \<and> rx l = [OP_TX_END]
   | None \<Rightarrow> False"
proof -
  have "concat [[OP_TX_START, OP_LOW, 26], [0, 0, 0, 0, 0, 0], [0, OP_TX_END]] =
      encode_ops [Tx True, Line False 26, Tx False]"
    by (simp add: encode_ops_def le64_def upt_rec[of _ 8] drop_bit_eq_div)
  from link_protocol[where l = idle_link and conv = "\<lambda>ns r. (ns, r)" and zero = "()" and now = 100 and
      v = "(via_6522_init, bus_init)", OF _ _ _ this]
  show ?thesis
    by (simp add: idle_link_def RX_BUF_SIZE_def apply_cb2_def wait_ns_def encode_ops_def split_def Let_def)
qed

section \<open>What the link gets wrong\<close>

text \<open>
  A client that is gone when its ping is answered takes the buffer with it, and the command is
  then consumed from an empty buffer: the move has a negative size.
\<close>

lemma ping_to_lost_client:
  assumes "has_client l" "rx l = []" "\<not> has_unblock l"
  shows "serial_link_poll conv zero False (Bytes_in [OP_PING]) False now (l, v) = None"
  using assms
  by (simp add: serial_link_poll_def try_accept_def try_recv_def RX_BUF_SIZE_def)
    (subst link_drain.simps, simp add: command_len_def apply_one_def link_command_def try_send_def drop_client_def)

text \<open>Part of a command in the buffer keeps the run loop from stalling, though nothing can run.\<close>

lemma partial_command_runs_on:
  assumes "has_client l" "in_tx l" "\<not> (has_unblock l \<and> now < unblock_at_osc l)" "rx l = [OP_LOW]"
  shows "link_drain conv now ok (l, v) = Some (l, v) \<and> \<not> serial_link_should_stall now l"
  using assms by (subst link_drain.simps) (simp add: command_len_def serial_link_should_stall_def)

end
