(* ===== verification/Wendy2c.thy ===== *)
theory Wendy2c
  imports Cpu_Host Clock_22v10 Memory_Chips Serial_Usb Lcd_Panel Syscall_Ports Serial_Link
    "HOL-Library.Monad_Syntax"
begin

text \<open>
  The wendy2c board (\<open>src/emulator/emu_wendy2c.c\<close>): its chips on one bus, the CPU's accesses
  through the 22V10's chip selects, starting from the ROM or from a program put into RAM, and
  the batches of ticks with the serial link polled between them. Audio samples the port but
  changes nothing, and is left out.
\<close>

section \<open>The machine\<close>

record wendy2c = bus +
  w_rom :: rom_28c256_state
  w_ram :: ram_628128_state
  w_via :: via_6522_state
  w_lcd :: lcd_state
  w_serial :: serial_usb_state
  w_led :: led_buttons_state
  w_files :: "syscall_ports_state \<times> disk"
  w_cpu :: cpu_65c02_state

section \<open>The chips\<close>

definition w_clock_chip :: "wendy2c chip" where
  "w_clock_chip = (ticking clock_22v10_tick)\<lparr>chip_reset := Some (\<lambda>m. m)\<rparr>"

definition w_files_chip :: "wendy2c chip" where
  "w_files_chip = \<lparr>chip_tick = None,
     chip_read = Some (\<lambda>a m. let (r, x) = syscall_ports_read a (w_files m) in (r, m\<lparr>w_files := x\<rparr>)),
     chip_write = Some (\<lambda>a v m. let (ok, x) = syscall_ports_write a v (w_files m) in (ok, m\<lparr>w_files := x\<rparr>)),
     chip_reset = None\<rparr>"

definition w_rom_chip :: "wendy2c chip" where
  "w_rom_chip = \<lparr>chip_tick = None, chip_read = Some (\<lambda>a m. (rom_28c256_read m a (w_rom m), m)),
     chip_write = Some (\<lambda>a v m. (rom_28c256_write m a v, m)), chip_reset = Some (\<lambda>m. m)\<rparr>"

definition w_ram_chip :: "wendy2c chip" where
  "w_ram_chip = \<lparr>chip_tick = None, chip_read = Some (\<lambda>a m. (ram_628128_read m a (w_ram m), m)),
     chip_write = Some (\<lambda>a v m. let (ok, r) = ram_628128_write m a v (w_ram m) in (ok, m\<lparr>w_ram := r\<rparr>)),
     chip_reset = Some (\<lambda>m. m)\<rparr>"

text \<open>Nothing drives the ports from outside but the button, through \<open>porta_input\<close>.\<close>

definition w_via_chip :: "wendy2c chip" where
  "w_via_chip =
     \<lparr>chip_tick = Some (\<lambda>m. let (v, m) = via_6522_tick (w_via m, m) in m\<lparr>w_via := v\<rparr>),
      chip_read = Some (\<lambda>a m. let (r, v, m) = via_6522_read None a (w_via m, m) in (r, m\<lparr>w_via := v\<rparr>)),
      chip_write = Some (\<lambda>a d m. let (ok, v, m) = via_6522_write a d (w_via m, m) in (ok, m\<lparr>w_via := v\<rparr>)),
      chip_reset = Some (\<lambda>m. m\<lparr>w_via := via_6522_reset (w_via m)\<rparr>)\<rparr>"

definition w_lcd_chip :: "wendy2c chip" where
  "w_lcd_chip = (ticking (\<lambda>m. m\<lparr>w_lcd := lcd_hd44780_tick None (Some (w_via m)) (w_lcd m)\<rparr>))
     \<lparr>chip_reset := Some (\<lambda>m. m\<lparr>w_lcd := lcd_hd44780_reset (w_lcd m)\<rparr>)\<rparr>"

definition w_serial_chip :: "wendy2c chip" where
  "w_serial_chip = (ticking (\<lambda>m. let (s, v, m) = serial_usb_tick (w_serial m, w_via m, m)
       in m\<lparr>w_serial := s, w_via := v\<rparr>))
     \<lparr>chip_reset := Some (\<lambda>m. let (s, v) = serial_usb_reset (w_serial m) (w_via m)
       in m\<lparr>w_serial := s, w_via := v\<rparr>)\<rparr>"

definition w_led_chip :: "wendy2c chip" where
  "w_led_chip = (ticking (\<lambda>m. m\<lparr>w_led := led_buttons_tick None (w_via m) (w_led m)\<rparr>))
     \<lparr>chip_reset := Some (\<lambda>m. let (l, v) = led_buttons_reset (w_via m) (w_led m)
       in m\<lparr>w_led := l, w_via := v\<rparr>)\<rparr>"

text \<open>The clock is first; the file ports, where there is a disk, come before the memories.\<close>

definition wendy2c_chips :: "bool \<Rightarrow> wendy2c chip list" where
  "wendy2c_chips disk = [w_clock_chip] @ (if disk then [w_files_chip] else []) @
     [w_rom_chip, w_ram_chip, w_via_chip, w_lcd_chip, w_serial_chip, w_led_chip]"

section \<open>The CPU's accesses\<close>

definition wendy2c_cpu_read :: "bool \<Rightarrow> u16 \<Rightarrow> wendy2c \<Rightarrow> u8 \<times> wendy2c" where
  "wendy2c_cpu_read disk addr m =
     (let m = clock_22v10_refresh_combinational (m\<lparr>bus_addr := addr, bus_rwb := True\<rparr>);
          (r, m) = bus_read (wendy2c_chips disk) addr m
      in (case r of Some data \<Rightarrow> data | None \<Rightarrow> 0xFF, m))"

definition wendy2c_cpu_write :: "bool \<Rightarrow> u16 \<Rightarrow> u8 \<Rightarrow> wendy2c \<Rightarrow> wendy2c" where
  "wendy2c_cpu_write disk addr data m =
     snd (bus_write (wendy2c_chips disk) addr data
       (clock_22v10_refresh_combinational (m\<lparr>bus_addr := addr, bus_rwb := False\<rparr>)))"

definition wendy2c_hooks ::
  "bool \<Rightarrow> (u16 \<Rightarrow> wendy2c \<Rightarrow> u8 \<times> wendy2c) \<Rightarrow> (u16 \<Rightarrow> u8 \<Rightarrow> wendy2c \<Rightarrow> wendy2c) \<Rightarrow> wendy2c hooks"
where
  "wendy2c_hooks disk rd wr = \<lparr>read6502 = rd, write6502 = wr,
     cpu_external_read = Some (wendy2c_cpu_read disk), cpu_external_write = Some (wendy2c_cpu_write disk),
     cpu_bus_read_tap = None, cpu_bus_write_tap = None, loopexternal = (\<lambda>m. m)\<rparr>"

section \<open>Ticks\<close>

definition w_cpu_chip :: "wendy2c cpu chip" where
  "w_cpu_chip = (ticking (\<lambda>s. let (c, s) = cpu_65c02_tick (w_cpu (cpu_host s)) s
       in s\<lparr>cpu_host := (cpu_host s)\<lparr>w_cpu := c\<rparr>\<rparr>))
     \<lparr>chip_reset := Some (\<lambda>s. let (c, s) = cpu_65c02_reset (w_cpu (cpu_host s)) s
       in s\<lparr>cpu_host := (cpu_host s)\<lparr>w_cpu := c\<rparr>\<rparr>)\<rparr>"

definition wendy2c_tick :: "bool \<Rightarrow> wendy2c cpu \<Rightarrow> wendy2c cpu" where
  "wendy2c_tick disk = bus_step (\<lambda>s. s\<lparr>cpu_host := (cpu_host s)\<lparr>osc_ticks := osc_ticks (cpu_host s) + 1\<rparr>\<rparr>)
     (map on_host (wendy2c_chips disk) @ [w_cpu_chip])"

definition wendy2c_res :: "bool \<Rightarrow> wendy2c cpu \<Rightarrow> wendy2c cpu" where
  "wendy2c_res level s = s\<lparr>cpu_host := (cpu_host s)\<lparr>bus_res := level\<rparr>\<rparr>"

definition wendy2c_pulse_reset :: "bool \<Rightarrow> wendy2c cpu \<Rightarrow> wendy2c cpu" where
  "wendy2c_pulse_reset disk s = wendy2c_res False ((wendy2c_tick disk ^^ 8) (wendy2c_res True s))"

section \<open>Starting\<close>

text \<open>The board before the first tick; None where a file cannot be opened or is empty.\<close>

definition wendy2c_setup ::
  "u8 list option \<Rightarrow> u8 list option option \<Rightarrow> bool \<Rightarrow> disk \<Rightarrow> wendy2c option" where
  "wendy2c_setup rom_image serial_in single_row d =
     (let lcd = (if single_row then lcd_hd44780_set_geometry 1 16 lcd_hd44780_init else lcd_hd44780_init);
          (ser, via) = serial_usb_init via_6522_init;
          (led, via) = led_buttons_init via
      in do { rom \<leftarrow> rom_28c256_load rom_image;
              ser \<leftarrow> (case serial_in of Some f \<Rightarrow> serial_usb_queue_file f ser | None \<Rightarrow> Some ser);
              Some (bus.extend bus_init (wendy2c.fields rom ram_628128_init via lcd ser led
                (syscall_ports_init, d) cpu_65c02_init)) })"

text \<open>A program put straight into RAM, through the bus, with bank 1 mapped.\<close>

fun preload :: "bool \<Rightarrow> u16 \<Rightarrow> u8 list \<Rightarrow> wendy2c \<Rightarrow> wendy2c" where
  "preload disk a [] m = m"
| "preload disk a (byte # bytes) m =
     preload disk (a + 1) bytes (snd (bus_write (wendy2c_chips disk) a byte
       (clock_22v10_refresh_combinational (m\<lparr>bus_addr := a\<rparr>))))"

definition start_program :: "bool \<Rightarrow> u16 \<Rightarrow> u8 list \<Rightarrow> wendy2c cpu \<Rightarrow> wendy2c cpu" where
  "start_program disk load bytes s =
     (let m = preload disk load bytes ((cpu_host s)\<lparr>bank_config := 0x01, bus_rwb := False\<rparr>);
          m = m\<lparr>w_via := (w_via m)\<lparr>orb := 0x01, ddrb := 0x1F\<rparr>, bank_config := 0x01, bus_rwb := True\<rparr>
      in s\<lparr>cpu_host := m, cpu_pc := load, cpu_sp := 0xFF\<rparr>)"

section \<open>Batches\<close>

text \<open>
  The link's state runs beside the machine. \<open>polls\<close> is what the socket brings to the polls to
  come: whether a client connects, what is received, whether an answer can be sent.
\<close>

type_synonym poll_input = "bool \<times> socket_input \<times> bool"

type_synonym 'r link_run = "'r serial_link \<times> poll_input list \<times> wendy2c cpu"

definition poll_link ::
  "(u64 \<Rightarrow> 'r \<Rightarrow> u64 \<times> 'r) \<Rightarrow> 'r \<Rightarrow> 'r link_run \<Rightarrow> 'r link_run option" where
  "poll_link conv zero = (\<lambda>(l, polls, s).
     let (accepted, r, ok) = (case polls of [] \<Rightarrow> (False, Nothing_yet, True) | p # _ \<Rightarrow> p);
         m = cpu_host s
     in map_option (\<lambda>(l, v, m). (l, tl polls, s\<lparr>cpu_host := m\<lparr>w_via := v\<rparr>\<rparr>))
          (serial_link_poll conv zero accepted r ok (osc_ticks m) (l, w_via m, m)))"

text \<open>
  Up to \<open>n\<close> ticks; the link is polled when its time has come, and a stall ends the batch. The
  result tells whether the cap was reached, and is None where a poll is undefined.
\<close>

fun run_batch ::
  "(u64 \<Rightarrow> 'r \<Rightarrow> u64 \<times> 'r) \<Rightarrow> 'r \<Rightarrow> bool \<Rightarrow> u64 \<Rightarrow> nat \<Rightarrow> 'r link_run \<Rightarrow> (bool \<times> 'r link_run) option" where
  "run_batch conv zero disk cap 0 x = Some (False, x)"
| "run_batch conv zero disk cap (Suc n) (l, polls, s) =
     (if osc_ticks (cpu_host s) \<ge> cap then Some (True, l, polls, s)
      else let s = wendy2c_tick disk s; now = osc_ticks (cpu_host s) in
        if serial_link_needs_repoll now l
        then (case poll_link conv zero (l, polls, s) of
            None \<Rightarrow> None
          | Some (l, polls, s) \<Rightarrow>
              if serial_link_should_stall now l then Some (False, l, polls, s)
              else run_batch conv zero disk cap n (l, polls, s))
        else run_batch conv zero disk cap n (l, polls, s))"

text \<open>
  One poll before a batch; the flag is a stall, in which the batch is put off. \<open>web_step\<close> is
  the step of the browser loop.
\<close>

definition link_step ::
  "(u64 \<Rightarrow> 'r \<Rightarrow> u64 \<times> 'r) \<Rightarrow> 'r \<Rightarrow> 'r link_run \<Rightarrow> (bool \<times> 'r link_run) option" where
  "link_step conv zero x = map_option
     (\<lambda>(l, polls, s). (serial_link_should_stall (osc_ticks (cpu_host s)) l, l, polls, s)) (poll_link conv zero x)"

definition web_step ::
  "(u64 \<Rightarrow> 'r \<Rightarrow> u64 \<times> 'r) \<Rightarrow> 'r \<Rightarrow> bool \<Rightarrow> u64 \<Rightarrow> 'r link_run \<Rightarrow> (bool \<times> 'r link_run) option" where
  "web_step conv zero disk cap x = do { (stalled, x) \<leftarrow> link_step conv zero x;
     if stalled then Some (False, x) else run_batch conv zero disk cap 5000 x }"

text \<open>
  The plain run: batches of 50000 ticks up to the cap, until an STP or the power-off port stops
  the board. The result of a batch tells whether it did. A run without a link is one without a
  client and without polls to come.
\<close>

definition halted :: "wendy2c cpu \<Rightarrow> bool" where
  "halted s \<longleftrightarrow> stp_pending s \<or> poweroff (fst (w_files (cpu_host s)))"

fun plain_batch ::
  "(u64 \<Rightarrow> 'r \<Rightarrow> u64 \<times> 'r) \<Rightarrow> 'r \<Rightarrow> bool \<Rightarrow> u64 \<Rightarrow> nat \<Rightarrow> 'r link_run \<Rightarrow> (bool \<times> 'r link_run) option" where
  "plain_batch conv zero disk cap 0 x = Some (False, x)"
| "plain_batch conv zero disk cap (Suc n) (l, polls, s) =
     (if osc_ticks (cpu_host s) \<ge> cap then Some (False, l, polls, s)
      else let s = wendy2c_tick disk s; now = osc_ticks (cpu_host s) in
        if halted s then Some (True, l, polls, s)
        else if serial_link_needs_repoll now l
        then (case poll_link conv zero (l, polls, s) of
            None \<Rightarrow> None
          | Some (l, polls, s) \<Rightarrow>
              if serial_link_should_stall now l then Some (False, l, polls, s)
              else plain_batch conv zero disk cap n (l, polls, s))
        else plain_batch conv zero disk cap n (l, polls, s))"

partial_function (option) wendy2c_run ::
  "(u64 \<Rightarrow> 'r \<Rightarrow> u64 \<times> 'r) \<Rightarrow> 'r \<Rightarrow> bool \<Rightarrow> u64 \<Rightarrow> 'r link_run \<Rightarrow> 'r link_run option" where
  "wendy2c_run conv zero disk cap x =
     (if osc_ticks (cpu_host (snd (snd x))) < cap
      then do { (stalled, x) \<leftarrow> link_step conv zero x;
                if stalled then wendy2c_run conv zero disk cap x
                else do { (stp, x) \<leftarrow> plain_batch conv zero disk cap 50000 x;
                          if stp then Some x else wendy2c_run conv zero disk cap x } }
      else Some x)"

text \<open>The button and the reset of the live and browser loops.\<close>

definition press_button :: "bool \<Rightarrow> wendy2c cpu \<Rightarrow> wendy2c cpu" where
  "press_button down s =
     (let m = cpu_host s; (l, v) = led_buttons_press down (w_led m) (w_via m)
      in s\<lparr>cpu_host := m\<lparr>w_led := l, w_via := v\<rparr>\<rparr>)"

end
