(* ===== verification/Wendy2c_Memory.thy ===== *)
theory Wendy2c_Memory imports Wendy2c Cpu_Stack
begin

text \<open>
  The wendy2c's banked memory as the program sees it: the state of the ROM, the RAM and the
  bank lines, and what each access of the CPU does to it. The stack page is RAM in every bank,
  so calls and interrupts return on this board too; and the CPU runs at the pace of its
  divided clock.
\<close>

section \<open>Who answers an access\<close>

lemmas w_chip_defs = w_clock_chip_def w_files_chip_def w_rom_chip_def w_ram_chip_def w_via_chip_def
  w_lcd_chip_def w_serial_chip_def w_led_chip_def

definition in_ports :: "bool \<Rightarrow> u16 \<Rightarrow> bool" where
  "in_ports disk a \<longleftrightarrow> disk \<and> 0xF800 \<le> a \<and> a \<le> 0xF80F"

lemma ports_claim:
  "fst (syscall_ports_read a x) = None \<longleftrightarrow> \<not> (0xF800 \<le> a \<and> a \<le> 0xF80F)"
  "fst (syscall_ports_write a v x) \<longleftrightarrow> 0xF800 \<le> a \<and> a \<le> 0xF80F"
  "\<not> (0xF800 \<le> a \<and> a \<le> 0xF80F) \<Longrightarrow> syscall_ports_read a x = (None, x)"
  "\<not> (0xF800 \<le> a \<and> a \<le> 0xF80F) \<Longrightarrow> syscall_ports_write a v x = (False, x)"
  by (auto simp: syscall_ports_read_def syscall_ports_write_def not_le not_less split_def Let_def
      split: option.splits)

lemma wendy2c_read_eq:
  "bus_read (wendy2c_chips disk) a m =
     (if in_ports disk a then let (r, x) = syscall_ports_read a (w_files m) in (r, m\<lparr>w_files := x\<rparr>)
      else case rom_28c256_read m a (w_rom m) of Some v \<Rightarrow> (Some v, m) | None \<Rightarrow>
        (case ram_628128_read m a (w_ram m) of Some v \<Rightarrow> (Some v, m) | None \<Rightarrow>
           (let (r, s, m') = via_6522_read None a (w_via m, m) in (r, m'\<lparr>w_via := s\<rparr>))))"
proof (cases "in_ports disk a")
  case True
  then obtain v x where "syscall_ports_read a (w_files m) = (Some v, x)"
    using ports_claim(1)[of a "w_files m"] by (cases "syscall_ports_read a (w_files m)") (auto simp: in_ports_def)
  then show ?thesis using True by (simp add: wendy2c_chips_def w_chip_defs in_ports_def)
next
  case False
  then have "\<not> disk \<or> syscall_ports_read a (w_files m) = (None, w_files m)"
    using ports_claim(3)[of a "w_files m"] by (auto simp: in_ports_def)
  then show ?thesis using False
    by (auto simp: wendy2c_chips_def w_chip_defs split: option.splits prod.splits)
qed

lemma wendy2c_write_eq:
  "bus_write (wendy2c_chips disk) a v m =
     (if in_ports disk a then (True, m\<lparr>w_files := snd (syscall_ports_write a v (w_files m))\<rparr>)
      else if rom_28c256_write m a v then (True, m)
      else let (ok, r) = ram_628128_write m a v (w_ram m)
           in if ok then (True, m\<lparr>w_ram := r\<rparr>)
              else let (ok, s, m') = via_6522_write a v (w_via m, m\<lparr>w_ram := r\<rparr>) in (ok, m'\<lparr>w_via := s\<rparr>))"
proof (cases "in_ports disk a")
  case True
  then have "fst (syscall_ports_write a v (w_files m))" using ports_claim(2)[of a v "w_files m"]
    by (simp add: in_ports_def)
  then show ?thesis using True
    by (cases "syscall_ports_write a v (w_files m)") (simp add: wendy2c_chips_def w_chip_defs in_ports_def)
next
  case False
  then have "\<not> disk \<or> syscall_ports_write a v (w_files m) = (False, w_files m)"
    using ports_claim(4)[of a v "w_files m"] by (auto simp: in_ports_def)
  then show ?thesis using False
    by (auto simp: wendy2c_chips_def w_chip_defs split: option.splits prod.splits bool.splits)
qed

section \<open>The banked memory\<close>

definition pld_select :: "pld_fun \<Rightarrow> u16 \<Rightarrow> u8 \<Rightarrow> bool" where
  "pld_select f a c = f (bit a 15) (bit a 14) (bit a 13) (bit a 12) (bit a 11)
     (bit c 4) (bit c 3) (bit c 2) (bit c 1) (bit c 0)"

text \<open>The RAM cell of an address in a bank.\<close>

definition banked_cell :: "u8 \<Rightarrow> u16 \<Rightarrow> u32" where
  "banked_cell c a = ucast (a AND 0x3FFF) OR push_bit 14 (of_bool (bit a 15)) OR
     push_bit 15 (of_bool (pld_select pld_r15 a c)) OR push_bit 16 (of_bool (pld_select pld_r16 a c)) OR
     push_bit 17 (of_bool (pld_select pld_r17 a c)) OR push_bit 18 (of_bool (pld_select pld_r18 a c))"

text \<open>The state the program's memory depends on: the ROM, the RAM and port B's registers.\<close>

record banked =
  b_rom :: "u16 \<Rightarrow> u8"
  b_ram :: "u32 \<Rightarrow> u8"
  b_orb :: u8
  b_ddrb :: u8
  b_bank :: u8

definition banked_of :: "wendy2c \<Rightarrow> banked" where
  "banked_of m = \<lparr>b_rom = w_rom m, b_ram = w_ram m, b_orb = orb (w_via m), b_ddrb = ddrb (w_via m),
     b_bank = bank_config m\<rparr>"

text \<open>What is at an address; at the VIA and the file ports there is no memory.\<close>

definition banked_at :: "bool \<Rightarrow> banked \<Rightarrow> u16 \<Rightarrow> u8 option" where
  "banked_at disk b a =
     (if in_ports disk a \<or> pld_select pld_viacs a (b_bank b) then None
      else if pld_select pld_romcs a (b_bank b) then Some (b_rom b (a AND 0x7FFF))
      else Some (b_ram b (banked_cell (b_bank b) a)))"

text \<open>A write: into the RAM of the bank, or to the VIA's port B, which switches the bank.\<close>

definition banked_write :: "bool \<Rightarrow> u16 \<Rightarrow> u8 \<Rightarrow> banked \<Rightarrow> banked" where
  "banked_write disk a v b =
     (if in_ports disk a \<or> pld_select pld_romcs a (b_bank b) then b
      else if pld_select pld_viacs a (b_bank b) then
        (if a AND 0xF = 0 then b\<lparr>b_orb := v, b_bank := (v AND b_ddrb b) AND 0x1F\<rparr>
         else if a AND 0xF = 2 then b\<lparr>b_ddrb := v, b_bank := (b_orb b AND v) AND 0x1F\<rparr>
         else b)
      else b\<lparr>b_ram := (b_ram b)(banked_cell (b_bank b) a := v)\<rparr>)"

section \<open>The VIA's accesses\<close>

definition port_b :: "'a via_bus \<Rightarrow> u8 \<times> u8 \<times> u8" where
  "port_b v = (orb (fst v), ddrb (fst v), bank_config (snd v))"

lemma port_b_ifr [simp]:
  "port_b (update_irq v) = port_b v" "port_b (via_clear_ifr w v) = port_b v" "port_b (ora_access v) = port_b v"
  by (simp_all add: port_b_def update_irq_def via_clear_ifr_def ora_access_def split_def Let_def)

lemma port_b_ifr_pair:
  "(s', b') = via_clear_ifr w v \<Longrightarrow> port_b (s', b') = port_b v" "(s', b') = ora_access v \<Longrightarrow> port_b (s', b') = port_b v"
  by (metis port_b_ifr)+

lemma port_b_parts:
  "orb (fst (via_clear_ifr w v)) = orb (fst v)" "ddrb (fst (via_clear_ifr w v)) = ddrb (fst v)"
  "bank_config (snd (via_clear_ifr w v)) = bank_config (snd v)"
  "orb (fst (ora_access v)) = orb (fst v)" "ddrb (fst (ora_access v)) = ddrb (fst v)"
  "bank_config (snd (ora_access v)) = bank_config (snd v)"
  "orb (fst (update_irq v)) = orb (fst v)" "ddrb (fst (update_irq v)) = ddrb (fst v)"
  "bank_config (snd (update_irq v)) = bank_config (snd v)"
  using port_b_ifr(2)[of w v] port_b_ifr(3)[of v] port_b_ifr(1)[of v] by (simp_all add: port_b_def)

lemma via_read_port_b: "port_b (snd (via_6522_read d a v)) = port_b v"
proof -
  have "port_b (snd (via_read_reg d r v)) = port_b v" for r
    by (simp add: via_read_reg_def split_def Let_def port_b_def port_b_parts)
  then show ?thesis by (simp add: via_6522_read_def split_def Let_def)
qed

lemma via_write_port_b:
  assumes "bus_viacs (snd v)"
  shows "port_b (snd (via_6522_write a x v)) =
    (if a AND 0xF = 0 then (x, ddrb (fst v), (x AND ddrb (fst v)) AND 0x1F)
     else if a AND 0xF = 2 then (orb (fst v), x, (orb (fst v) AND x) AND 0x1F)
     else port_b v)"
  using assms
  by (simp add: via_6522_write_def via_write_reg_def update_bank_config_def split_def Let_def port_b_def
      port_b_parts)

section \<open>The accesses refine the banked memory\<close>

lemma refresh_fields:
  fixes b :: wendy2c
  defines "t \<equiv> clock_22v10_refresh_combinational b"
  shows "bus_addr t = bus_addr b" "bus_rwb t = bus_rwb b" "banked_of t = banked_of b"
    "w_via t = w_via b" "w_files t = w_files b" "bank_config t = bank_config b" "w_rom t = w_rom b"
    "w_ram t = w_ram b" "cpu_inputs t = cpu_inputs b" "bus_cks t = bus_cks b" "bus_ck t = bus_ck b"
    "w_cpu t = w_cpu b"
  by (simp_all add: t_def clock_22v10_refresh_combinational_def Let_def banked_of_def cpu_inputs_def)

lemma refresh_select:
  fixes b :: wendy2c
  defines "t \<equiv> clock_22v10_refresh_combinational b"
  shows "bus_romcs t = pld_select pld_romcs (bus_addr b) (bank_config b)"
    "bus_ramcs t = pld_select pld_ramcs (bus_addr b) (bank_config b)"
    "bus_viacs t = pld_select pld_viacs (bus_addr b) (bank_config b)"
  by (simp_all add: t_def refresh_lines pld_lines_def pld_select_def)

lemma one_select:
  "pld_select pld_ramcs a c \<longleftrightarrow> \<not> pld_select pld_romcs a c \<and> \<not> pld_select pld_viacs a c"
  "\<not> (pld_select pld_romcs a c \<and> pld_select pld_viacs a c)"
  unfolding pld_select_def pld_defs
  by (cases "bit a 15"; cases "bit a 14"; cases "bit a 13"; cases "bit a 12"; cases "bit a 11"; simp)+

lemma refresh_cell:
  fixes b :: wendy2c
  shows "physical_addr (clock_22v10_refresh_combinational b) (bus_addr b) =
    banked_cell (bank_config b) (bus_addr b)"
proof (rule bit_word_eqI)
  fix n :: nat
  let ?t = "clock_22v10_refresh_combinational b"
  have r: "bit (r_bits ?t) 0 = pld_select pld_r15 (bus_addr b) (bank_config b)"
    "bit (r_bits ?t) 1 = pld_select pld_r16 (bus_addr b) (bank_config b)"
    "bit (r_bits ?t) 2 = pld_select pld_r17 (bus_addr b) (bank_config b)"
    "bit (r_bits ?t) 3 = pld_select pld_r18 (bus_addr b) (bank_config b)"
    by (simp_all only: refresh_lines pld_lines_def pld_select_def)
  have low: "bit (ucast (bus_addr b AND 0x3FFF) :: u32) j \<longleftrightarrow> j < 14 \<and> bit (bus_addr b) j" for j
    by (auto simp: low14_u16 bit_simps)
  have one: "bit (push_bit k (of_bool p) :: u32) j \<longleftrightarrow> j = k \<and> p" if "k < 32" for j k p
    using that by (auto simp: bit_simps)
  consider "n < 14" | "n = 14" | "n = 15" | "n = 16" | "n = 17" | "n = 18" | "19 \<le> n" by linarith
  then show "bit (physical_addr ?t (bus_addr b)) n = bit (banked_cell (bank_config b) (bus_addr b)) n"
    by cases (simp_all add: bit_physical_addr banked_cell_def bit_or_iff low one r r[unfolded One_nat_def])
qed

lemma wendy2c_read_banked:
  shows "banked_of (snd (wendy2c_cpu_read disk a m)) = banked_of m"
    and "banked_at disk (banked_of m) a = Some v \<Longrightarrow> fst (wendy2c_cpu_read disk a m) = v"
proof -
  define b where "b = m\<lparr>bus_addr := a, bus_rwb := True\<rparr>"
  define t where "t = clock_22v10_refresh_combinational b"
  note f = refresh_fields[of b, folded t_def] and l = refresh_select[of b, folded t_def]
    and cell = refresh_cell[of b, folded t_def]
  have b: "banked_of b = banked_of m" "bus_addr b = a" "bus_rwb b" "bank_config b = bank_config m"
    "w_rom b = w_rom m" "w_ram b = w_ram m"
    by (simp_all add: b_def banked_of_def)
  obtain r s n where v: "via_6522_read None a (w_via t, t) = (r, s, n)" by (metis prod.exhaust)
  have bn: "board_of n = board_of t"
    using board_access(1)[of None a "(w_via t, t)"] by (simp add: v)
  have n: "w_rom n = w_rom t" "w_ram n = w_ram t"
    using arg_cong[OF bn, of w_rom] arg_cong[OF bn, of w_ram] by (simp_all add: board_of_def)
  have "port_b (s, n) = port_b (w_via t, t)"
    using via_read_port_b[of None a "(w_via t, t)"] by (simp add: v)
  then have vb: "banked_of (n\<lparr>w_via := s\<rparr>) = banked_of t"
    using n by (simp add: banked_of_def port_b_def)
  obtain q x where p: "syscall_ports_read a (w_files t) = (q, x)" by (rule prod.exhaust)
  have pb: "banked_of (t\<lparr>w_files := x\<rparr>) = banked_of t" by (simp add: banked_of_def)
  have e: "wendy2c_cpu_read disk a m =
      (let (r, n) = bus_read (wendy2c_chips disk) a t in (case r of Some data \<Rightarrow> data | None \<Rightarrow> 0xFF, n))"
    by (simp add: wendy2c_cpu_read_def t_def b_def)
  show "banked_of (snd (wendy2c_cpu_read disk a m)) = banked_of m"
    using vb pb f(3) b(1) by (simp add: e wendy2c_read_eq v p split: option.split)
  assume at: "banked_at disk (banked_of m) a = Some v"
  then show "fst (wendy2c_cpu_read disk a m) = v"
    using l f b cell one_select[of a "bank_config m"]
    by (auto simp: e wendy2c_read_eq v banked_at_def banked_of_def rom_28c256_read_def ram_628128_read_def
        split: if_splits)
qed

lemma wendy2c_write_banked:
  "banked_of (wendy2c_cpu_write disk a v m) = banked_write disk a v (banked_of m)"
proof -
  define b where "b = m\<lparr>bus_addr := a, bus_rwb := False\<rparr>"
  define t where "t = clock_22v10_refresh_combinational b"
  note f = refresh_fields[of b, folded t_def] and l = refresh_select[of b, folded t_def]
    and cell = refresh_cell[of b, folded t_def]
  have b: "banked_of b = banked_of m" "bus_addr b = a" "\<not> bus_rwb b" "bank_config b = bank_config m"
    "w_rom b = w_rom m" "w_ram b = w_ram m" "w_via b = w_via m"
    by (simp_all add: b_def banked_of_def)
  have e: "wendy2c_cpu_write disk a v m = snd (bus_write (wendy2c_chips disk) a v t)"
    by (simp add: wendy2c_cpu_write_def t_def b_def)
  consider (ports) "in_ports disk a" | (rom) "\<not> in_ports disk a" "bus_romcs t"
    | (ram) "\<not> in_ports disk a" "\<not> bus_romcs t" "bus_ramcs t"
    | (via) "\<not> in_ports disk a" "\<not> bus_romcs t" "\<not> bus_ramcs t" "bus_viacs t"
    using l one_select[of a "bank_config m"] b by auto
  then show ?thesis
  proof cases
    case ports
    then show ?thesis
      using f b by (simp add: e wendy2c_write_eq banked_write_def banked_of_def)
  next
    case rom
    then show ?thesis
      using f b l by (simp add: e wendy2c_write_eq rom_28c256_write_def banked_write_def banked_of_def)
  next
    case ram
    then show ?thesis
      using f b l cell one_select[of a "bank_config m"]
      by (auto simp: e wendy2c_write_eq rom_28c256_write_def ram_628128_write_def banked_write_def banked_of_def)
  next
    case via
    obtain ok s n where w: "via_6522_write a v (w_via t, t) = (ok, s, n)" by (metis prod.exhaust)
    have bn: "board_of n = board_of t"
      using board_access(2)[of a v "(w_via t, t)"] by (simp add: w)
    have n: "w_rom n = w_rom t" "w_ram n = w_ram t"
      using arg_cong[OF bn, of w_rom] arg_cong[OF bn, of w_ram] by (simp_all add: board_of_def)
    have t: "t\<lparr>w_ram := w_ram t\<rparr> = t" by simp
    have "wendy2c_cpu_write disk a v m = n\<lparr>w_via := s\<rparr>"
      using via f(2) b(3)
      by (simp add: e wendy2c_write_eq rom_28c256_write_def ram_628128_write_def t w)
    moreover have "port_b (s, n) =
        (if a AND 0xF = 0 then (v, ddrb (w_via t), (v AND ddrb (w_via t)) AND 0x1F)
         else if a AND 0xF = 2 then (orb (w_via t), v, (orb (w_via t) AND v) AND 0x1F)
         else port_b (w_via t, t))"
      using via_write_port_b[of "(w_via t, t)" a v] via(4) by (simp add: w)
    ultimately show ?thesis
      using via f b l n by (auto simp: banked_write_def banked_of_def port_b_def)
  qed
qed

text \<open>
  Property C3: the wendy2c's memory refines its banked memory. A read by the CPU leaves the
  ROM, the RAM and the banks as they were and returns the byte the current bank has there; a
  write goes to one RAM cell of the current bank, never to the ROM, and only a write to port
  B's registers switches the bank, to the output bits of the port.
\<close>

theorem wendy2c_memory_refined:
  "banked_of (snd (wendy2c_cpu_read disk a m)) = banked_of m \<and>
   fst (wendy2c_cpu_read disk a m) \<in>
     (case banked_at disk (banked_of m) a of Some v \<Rightarrow> {v} | None \<Rightarrow> UNIV) \<and>
   banked_of (wendy2c_cpu_write disk a v m) = banked_write disk a v (banked_of m)"
  by (auto simp: wendy2c_read_banked wendy2c_write_banked split: option.split)

section \<open>The stack\<close>

lemma wendy2c_host [simp]:
  "host_read (wendy2c_hooks disk rd wr) a m = wendy2c_cpu_read disk a m"
  "host_write (wendy2c_hooks disk rd wr) a v m = wendy2c_cpu_write disk a v m"
  by (simp_all add: host_read_def host_write_def wendy2c_hooks_def)

lemma slot_selects:
  "\<not> pld_select pld_viacs (slot w) c" "\<not> pld_select pld_romcs (slot w) c" "\<not> in_ports disk (slot w)"
proof -
  show "\<not> pld_select pld_viacs (slot w) c" "\<not> pld_select pld_romcs (slot w) c"
    by (simp_all add: pld_select_def pld_viacs_def pld_romcs_def slot_bits(1))
  show "\<not> in_ports disk (slot w)"
    using slot_less[of w] by (simp add: in_ports_def word_less_nat_alt word_le_nat_alt)
qed

lemma slot_banked:
  "banked_at disk b (slot w) = Some (b_ram b (banked_cell (b_bank b) (slot w)))"
  by (simp add: banked_at_def slot_selects)

lemma banked_slot_inj: "banked_cell c (slot w) = banked_cell c (slot x) \<longleftrightarrow> w = x"
proof
  have low: "bit (ucast (a AND 0x3FFF) :: u32) n \<longleftrightarrow> n < 14 \<and> bit a n" for a :: u16 and n
    by (auto simp: low14_u16 bit_simps)
  have b: "bit (banked_cell c (slot y)) n \<longleftrightarrow> bit y n" if "n < 8" for y n
    using that slot_bits(3)[of n y] by (simp add: banked_cell_def bit_or_iff bit_push_bit_iff low)
  assume "banked_cell c (slot w) = banked_cell c (slot x)"
  then show "w = x" by (intro bit_word_eqI) (simp, metis b)
qed simp

lemma wendy_stack_byte:
  "stack_byte (wendy2c_hooks disk rd wr) m w = the (banked_at disk (banked_of m) (slot w))"
  using wendy2c_read_banked(2)[OF slot_banked] by (simp add: stack_byte_def slot_banked)

interpretation wendy2c_stack: stack_page "wendy2c_hooks disk rd wr" "\<lambda>_. True" for disk rd wr
  by unfold_locales (simp_all add: wendy_stack_byte wendy2c_read_banked(1) wendy2c_write_banked banked_write_def
      slot_selects slot_banked banked_slot_inj fun_eq_iff)

end
