(* ===== verification/Wendy2c_Run.thy ===== *)
theory Wendy2c_Run imports Wendy2c_Memory
begin

text \<open>
  The wendy2c running: its divided clock bounds how many CPU cycles a number of oscillator
  ticks can hold, whatever program runs and wherever in memory.
\<close>

section \<open>The CPU's bus\<close>

definition clock_lines :: "wendy2c \<Rightarrow> bool \<times> bool \<times> (bool \<times> bool \<times> bool \<times> u64)" where
  "clock_lines m = (bus_cks m, bus_ck m, cpu_inputs m)"

lemma board_clock: "board_of m = board_of n \<Longrightarrow> clock_lines m = clock_lines n"
  using board_fields[of m n] by (simp add: clock_lines_def cpu_inputs_def)

lemma clock_lines_fields [simp]:
  "clock_lines (m\<lparr>w_via := v\<rparr>) = clock_lines m" "clock_lines (m\<lparr>w_files := x\<rparr>) = clock_lines m"
  "clock_lines (m\<lparr>w_ram := r\<rparr>) = clock_lines m" "clock_lines (m\<lparr>bus_addr := a\<rparr>) = clock_lines m"
  "clock_lines (m\<lparr>bus_rwb := rwb\<rparr>) = clock_lines m"
  by (simp_all add: clock_lines_def cpu_inputs_def)

lemma refresh_clock: "clock_lines (clock_22v10_refresh_combinational m) = clock_lines m"
  by (simp add: clock_22v10_refresh_combinational_def clock_lines_def cpu_inputs_def Let_def)

lemma wendy2c_access_clock:
  "clock_lines (snd (wendy2c_cpu_read disk a m)) = clock_lines m"
  "clock_lines (wendy2c_cpu_write disk a v m) = clock_lines m"
proof -
  have r: "clock_lines (snd (bus_read (wendy2c_chips disk) a n)) = clock_lines n" for n
  proof -
    obtain r s b where v: "via_6522_read None a (w_via n, n) = (r, s, b)" by (metis prod.exhaust)
    have "board_of b = board_of n" using board_access(1)[of None a "(w_via n, n)"] by (simp add: v)
    from board_clock[OF this] show ?thesis
      by (simp add: wendy2c_read_eq v split_def Let_def split: option.split)
  qed
  have w: "clock_lines (snd (bus_write (wendy2c_chips disk) a v n)) = clock_lines n" for n
  proof -
    obtain ok s b where e: "via_6522_write a v (w_via n, n) = (ok, s, b)" by (metis prod.exhaust)
    have "board_of b = board_of n" using board_access(2)[of a v "(w_via n, n)"] by (simp add: e)
    from board_clock[OF this] show ?thesis
      by (simp add: wendy2c_write_eq ram_628128_write_def e)
  qed
  show "clock_lines (snd (wendy2c_cpu_read disk a m)) = clock_lines m"
    using r by (simp add: wendy2c_cpu_read_def split_def Let_def refresh_clock)
  show "clock_lines (wendy2c_cpu_write disk a v m) = clock_lines m"
    using w by (simp add: wendy2c_cpu_write_def refresh_clock)
qed

lemma wendy2c_loop [simp]: "loopexternal (wendy2c_hooks disk rd wr) = (\<lambda>m. m)"
  by (simp add: wendy2c_hooks_def)

interpretation wendy2c_core: cpu_bus "wendy2c_hooks disk rd wr" for disk rd wr
  using wendy2c_access_clock by unfold_locales (simp_all add: clock_lines_def)

interpretation wendy2c_clock: bus_invariant "wendy2c_hooks disk rd wr" "\<lambda>h. (bus_cks h, bus_ck h) = z"
  for disk rd wr z
  using wendy2c_access_clock by unfold_locales (simp_all add: clock_lines_def)

section \<open>A tick of the board\<close>

definition w_lines :: "wendy2c \<Rightarrow> (bool \<times> bool \<times> bool \<times> bool \<times> bool \<times> u64) \<times> cpu_65c02_state" where
  "w_lines m = ((bus_cks m, bus_ck m, cpu_inputs m), w_cpu m)"

definition w_frame :: "wendy2c chip \<Rightarrow> bool" where
  "w_frame c \<longleftrightarrow> (\<forall>f m. chip_tick c = Some f \<longrightarrow> w_lines (f m) = w_lines m)"

lemma board_w_lines:
  assumes "board_of m = board_of n"
  shows "w_lines m = w_lines n"
  using board_fields[OF assms] arg_cong[OF assms, of w_cpu]
  by (simp add: w_lines_def cpu_inputs_def) (simp add: board_of_def)

lemma w_frame_chips:
  "w_frame w_files_chip" "w_frame w_rom_chip" "w_frame w_ram_chip" "w_frame w_lcd_chip" "w_frame w_led_chip"
  by (simp_all add: w_frame_def w_chip_defs w_lines_def cpu_inputs_def)

lemma w_frame_via: "w_frame w_via_chip" "w_frame w_serial_chip"
proof -
  have e: "w_lines (n\<lparr>w_via := v\<rparr>) = w_lines n" "w_lines (n\<lparr>w_serial := s\<rparr>) = w_lines n" for n v s
    by (simp_all add: w_lines_def cpu_inputs_def)
  have "board_of (snd (via_6522_tick (w_via m, m))) = board_of m" for m :: wendy2c
    by (simp add: board_frame)
  from board_w_lines[OF this] show "w_frame w_via_chip"
    by (simp add: w_frame_def w_via_chip_def split_def Let_def e)
  have "board_of (snd (snd (serial_usb_tick (w_serial m, w_via m, m)))) = board_of m" for m :: wendy2c
    by (simp add: board_frame)
  from board_w_lines[OF this] show "w_frame w_serial_chip"
    by (simp add: w_frame_def w_serial_chip_def split_def Let_def e)
qed

lemma w_ticks_frame: "list_all w_frame cs \<Longrightarrow> w_lines (tick_chips cs m) = w_lines m"
  by (induction cs arbitrary: m) (auto simp: w_frame_def split: option.split)

lemma wendy2c_board_ticks: "w_lines (tick_chips (wendy2c_chips disk) m) = w_lines (clock_22v10_tick m)"
proof -
  have "\<exists>cs. wendy2c_chips disk = w_clock_chip # cs \<and> list_all w_frame cs"
    by (simp add: wendy2c_chips_def w_frame_chips w_frame_via)
  then obtain cs where "wendy2c_chips disk = w_clock_chip # cs" "list_all w_frame cs" by blast
  then show ?thesis by (simp add: w_ticks_frame w_clock_chip_def)
qed

section \<open>The pace\<close>

definition w_cycles_paid :: "wendy2c cpu \<Rightarrow> u64" where
  "w_cycles_paid s = clockticks6502 s - cycles_owed (w_cpu (cpu_host s))"

definition wendy2c_ok :: "bool \<Rightarrow> wendy2c cpu \<Rightarrow> bool" where
  "wendy2c_ok disk s \<longleftrightarrow> (\<exists>rd wr. cpu_hooks s = wendy2c_hooks disk rd wr) \<and> \<not> bus_res (cpu_host s) \<and>
     \<not> cpu_cycle_due (cpu_host s) \<and> unat (cycles_owed (w_cpu (cpu_host s))) \<le> 10"

text \<open>The two registered outputs of the clock, and whether a tick ends a CPU cycle.\<close>

definition clock_phase :: "wendy2c cpu \<Rightarrow> bool \<times> bool" where
  "clock_phase s = (bus_cks (cpu_host s), bus_ck (cpu_host s))"

lemma clock_tick_inputs:
  "bus_res (clock_22v10_tick m) = bus_res m" "bus_nmi (clock_22v10_tick m) = bus_nmi m"
  "osc_ticks (clock_22v10_tick m) = osc_ticks m" "w_cpu (clock_22v10_tick m) = w_cpu m"
  by (simp_all add: clock_22v10_tick_def clock_22v10_refresh_combinational_def Let_def)

lemma clock_tick_phase:
  fixes m :: wendy2c
  defines "t \<equiv> clock_22v10_tick m"
  assumes "\<not> cpu_cycle_due m"
  shows "cpu_cycle_due t \<longleftrightarrow> bus_ck m \<and> bus_cks m"
    and "(bus_cks m, bus_ck m) = (True, True) \<Longrightarrow> (bus_cks t, bus_ck t) = (False, False)"
    and "(bus_cks m, bus_ck m) = (True, False) \<Longrightarrow> (bus_cks t, bus_ck t) = (False, True)"
    and "(bus_cks m, bus_ck m) = (False, True) \<Longrightarrow> (bus_cks t, bus_ck t) = (True, True)"
    and "(bus_cks m, bus_ck m) = (False, False) \<Longrightarrow> bus_cks t"
  using assms(2) by (auto simp: t_def tick_clock(1-3))

lemma wendy2c_tick_paced:
  assumes "wendy2c_ok disk s"
  defines "t \<equiv> wendy2c_tick disk s"
  shows "wendy2c_ok disk t" "osc_ticks (cpu_host t) = osc_ticks (cpu_host s) + 1"
    and "w_cycles_paid t = w_cycles_paid s + (if clock_phase s = (True, True) then 1 else 0)"
    and "clock_phase s = (True, True) \<Longrightarrow> clock_phase t = (False, False)"
    and "clock_phase s = (True, False) \<Longrightarrow> clock_phase t = (False, True)"
    and "clock_phase s = (False, True) \<Longrightarrow> clock_phase t = (True, True)"
    and "clock_phase s = (False, False) \<Longrightarrow> fst (clock_phase t)"
proof -
  obtain rd wr where k: "cpu_hooks s = wendy2c_hooks disk rd wr"
    using assms by (auto simp: wendy2c_ok_def)
  define m where "m = (cpu_host s)\<lparr>osc_ticks := osc_ticks (cpu_host s) + 1\<rparr>"
  define n where "n = tick_chips (wendy2c_chips disk) m"
  have wl: "w_lines n = w_lines (clock_22v10_tick m)" by (simp add: n_def wendy2c_board_ticks)
  have l: "bus_res n = bus_res m" "osc_ticks n = osc_ticks m" "w_cpu n = w_cpu m"
    "bus_cks n = bus_cks (clock_22v10_tick m)" "bus_ck n = bus_ck (clock_22v10_tick m)"
    "cpu_cycle_due n = cpu_cycle_due (clock_22v10_tick m)"
    using wl by (simp_all add: w_lines_def cpu_inputs_def clock_tick_inputs)
  have nd: "\<not> cpu_cycle_due m" using assms(1) by (simp add: wendy2c_ok_def m_def)
  note ph = clock_tick_phase[OF nd]
  have sm: "clock_phase s = (bus_cks m, bus_ck m)" by (simp add: clock_phase_def m_def)
  obtain c u where u: "cpu_65c02_tick (w_cpu n) (s\<lparr>cpu_host := n\<rparr>) = (c, u)"
    by (rule prod.exhaust)
  have e: "t = u\<lparr>cpu_host := (cpu_host u)\<lparr>w_cpu := c\<rparr>\<rparr>"
    using u by (simp add: t_def wendy2c_tick_def bus_step_def tick_chips_append tick_on_host w_cpu_chip_def
        m_def[symmetric] n_def[symmetric] ticking_def)
  have h: "cpu_hooks (s\<lparr>cpu_host := n\<rparr>) = wendy2c_hooks disk rd wr" "\<not> bus_res (cpu_host (s\<lparr>cpu_host := n\<rparr>))"
    using k l assms(1) by (simp_all add: wendy2c_ok_def m_def)
  have "(bus_cks (cpu_host u), bus_ck (cpu_host u)) = (bus_cks n, bus_ck n)"
    using wendy2c_clock.cycle_keeps[OF h(1), where z = "(bus_cks n, bus_ck n)" and c = "w_cpu n"] by (simp add: u)
  then have pt: "clock_phase t = (bus_cks (clock_22v10_tick m), bus_ck (clock_22v10_tick m))"
    using l by (simp add: clock_phase_def e)
  show "clock_phase s = (True, True) \<Longrightarrow> clock_phase t = (False, False)"
    "clock_phase s = (True, False) \<Longrightarrow> clock_phase t = (False, True)"
    "clock_phase s = (False, True) \<Longrightarrow> clock_phase t = (True, True)"
    "clock_phase s = (False, False) \<Longrightarrow> fst (clock_phase t)"
    using ph by (simp_all add: sm pt)
  note p = wendy2c_core.tick_account[OF h u]
  show "wendy2c_ok disk t" "osc_ticks (cpu_host t) = osc_ticks (cpu_host s) + 1"
    using p(1-4,6) l(2,3) assms(1) by (auto simp: e wendy2c_ok_def m_def)
  have "clockticks6502 (s\<lparr>cpu_host := n\<rparr>) - cycles_owed (w_cpu n) = w_cycles_paid s"
    using l(3) by (simp add: w_cycles_paid_def m_def)
  then show "w_cycles_paid t = w_cycles_paid s + (if clock_phase s = (True, True) then 1 else 0)"
    using p(5) ph(1) l(6) by (simp add: e w_cycles_paid_def sm conj_commute)
qed

text \<open>In phase, with \<open>c\<close> cycles in \<open>n\<close> ticks.\<close>

definition in_pace :: "bool \<times> bool \<Rightarrow> nat \<Rightarrow> nat \<Rightarrow> bool" where
  "in_pace p c n \<longleftrightarrow>
     (if p = (False, False) then 2 * c \<le> n \<and> n \<le> 4 * c
      else if p = (True, False) then 2 * c + 1 \<le> n \<and> n \<le> 4 * c + 1
      else if p = (False, True) then 2 * c + 2 \<le> n \<and> n \<le> 4 * c + 2
      else 2 * c + 1 \<le> n \<and> n \<le> 4 * c + 3)"

lemma wendy2c_in_pace:
  assumes "wendy2c_ok disk s" "clock_phase s = (False, False)"
  shows "\<exists>c. wendy2c_ok disk ((wendy2c_tick disk ^^ n) s) \<and>
    osc_ticks (cpu_host ((wendy2c_tick disk ^^ n) s)) = osc_ticks (cpu_host s) + of_nat n \<and>
    w_cycles_paid ((wendy2c_tick disk ^^ n) s) = w_cycles_paid s + of_nat c \<and>
    in_pace (clock_phase ((wendy2c_tick disk ^^ n) s)) c n"
proof (induction n)
  case 0
  show ?case using assms by (intro exI[of _ 0]) (simp add: in_pace_def)
next
  case (Suc n)
  define t where "t = (wendy2c_tick disk ^^ n) s"
  obtain c where c: "wendy2c_ok disk t" "osc_ticks (cpu_host t) = osc_ticks (cpu_host s) + of_nat n"
    "w_cycles_paid t = w_cycles_paid s + of_nat c" "in_pace (clock_phase t) c n"
    using Suc.IH by (auto simp: t_def)
  note p = wendy2c_tick_paced[OF c(1)]
  have e: "(wendy2c_tick disk ^^ Suc n) s = wendy2c_tick disk t" by (simp add: t_def)
  define d where "d = (if clock_phase t = (True, True) then c + 1 else c)"
  have "in_pace (clock_phase (wendy2c_tick disk t)) d (Suc n)"
    using c(4) p(4-7) by (cases "clock_phase t"; cases "clock_phase (wendy2c_tick disk t)")
      (auto simp: in_pace_def d_def split: if_splits)
  moreover have "w_cycles_paid (wendy2c_tick disk t) = w_cycles_paid s + of_nat d"
    using p(3) c(3) by (simp add: d_def)
  ultimately show ?case using p(1,2) c(2)
    unfolding e by (intro exI[of _ d]) (simp add: ac_simps)
qed

text \<open>
  Property C27: the CPU of the wendy2c keeps the pace of its divided clock. From the start of a
  clock period, out of reset and whatever program runs in ROM or RAM, any number of ticks holds
  at least a quarter and at most half as many CPU cycles, up to the period under way.
\<close>

theorem wendy2c_pace:
  assumes "cpu_hooks s = wendy2c_hooks disk rd wr" "\<not> bus_res (cpu_host s)"
    "\<not> cpu_cycle_due (cpu_host s)" "unat (cycles_owed (w_cpu (cpu_host s))) \<le> 10"
    "\<not> bus_cks (cpu_host s)" "\<not> bus_ck (cpu_host s)" "t = (wendy2c_tick disk ^^ n) s"
  shows "\<exists>c. w_cycles_paid t = w_cycles_paid s + of_nat c \<and> 2 * c \<le> n \<and> n \<le> 4 * c + 3 \<and>
    osc_ticks (cpu_host t) = osc_ticks (cpu_host s) + of_nat n \<and>
    unat (cycles_owed (w_cpu (cpu_host t))) \<le> 10"
proof -
  have "wendy2c_ok disk s" "clock_phase s = (False, False)"
    using assms(1-6) by (auto simp: wendy2c_ok_def clock_phase_def)
  from wendy2c_in_pace[OF this, of n] obtain c where
    "wendy2c_ok disk t" "osc_ticks (cpu_host t) = osc_ticks (cpu_host s) + of_nat n"
    "w_cycles_paid t = w_cycles_paid s + of_nat c" "in_pace (clock_phase t) c n"
    by (auto simp: assms(7))
  then show ?thesis
    by (intro exI[of _ c]) (auto simp: in_pace_def wendy2c_ok_def split: if_splits)
qed

text \<open>A board whose ROM is one NOP, for a concrete instance.\<close>

definition nop_wendy :: "wendy2c cpu" where
  "nop_wendy = power_on (wendy2c_hooks False (\<lambda>a m. (0, m)) (\<lambda>a v m. m))
     (case wendy2c_setup (Some [0xEA]) None False \<lparr>disk_files = (\<lambda>_. None), disk_creatable = (\<lambda>_. True)\<rparr> of
        Some m \<Rightarrow> m | None \<Rightarrow> undefined)"

lemma nop_wendy_lines:
  "\<not> bus_res (cpu_host nop_wendy)" "\<not> cpu_cycle_due (cpu_host nop_wendy)" "\<not> bus_cks (cpu_host nop_wendy)"
  "\<not> bus_ck (cpu_host nop_wendy)" "cycles_owed (w_cpu (cpu_host nop_wendy)) = 0"
  by (simp_all add: nop_wendy_def wendy2c_setup_def rom_28c256_load_def bus.defs wendy2c.defs bus_init_def
      cpu_65c02_init_def split_def Let_def)

theorem wendy2c_pace_witness:
  "\<exists>c. w_cycles_paid ((wendy2c_tick False ^^ 1000) nop_wendy) = w_cycles_paid nop_wendy + of_nat c \<and>
     250 \<le> c + 1 \<and> c \<le> 500"
proof -
  from wendy2c_pace[where s = nop_wendy and disk = False and rd = "\<lambda>a m. (0, m)" and
      wr = "\<lambda>a v m. m" and n = 1000, OF _ _ _ _ _ _ refl]
  obtain c where "w_cycles_paid ((wendy2c_tick False ^^ 1000) nop_wendy) = w_cycles_paid nop_wendy + of_nat c"
    "2 * c \<le> 1000" "1000 \<le> 4 * c + 3"
    using nop_wendy_lines by (auto simp: nop_wendy_def)
  then show ?thesis by (intro exI[of _ c]) simp
qed

section \<open>The plain run\<close>

abbreviation (input) w_ticks_of :: "wendy2c cpu \<Rightarrow> nat" where
  "w_ticks_of s \<equiv> unat (osc_ticks (cpu_host s))"

text \<open>\<open>k\<close> ticks within the cap, none of which but the last stops the board.\<close>

definition ticked :: "bool \<Rightarrow> u64 \<Rightarrow> wendy2c cpu \<Rightarrow> nat \<Rightarrow> bool" where
  "ticked disk cap s k \<longleftrightarrow> w_ticks_of s + k \<le> unat cap \<and> (\<forall>m. 0 < m \<and> m < k \<longrightarrow> \<not> halted ((wendy2c_tick disk ^^ m) s))"

lemma wendy2c_tick_below:
  fixes cap :: u64
  assumes "wendy2c_ok disk s" "w_ticks_of s < unat cap"
  shows "w_ticks_of (wendy2c_tick disk s) = w_ticks_of s + 1"
proof -
  have "w_ticks_of s + 1 < 2 ^ 64" using assms(2) unsigned_less[where ?'b = 64 and ?'a = nat, of cap] by simp
  then show ?thesis by (simp add: wendy2c_tick_paced(2)[OF assms(1)] unat_word_ariths)
qed

lemma ticks_funpow: "(wendy2c_tick disk ^^ m) (wendy2c_tick disk s) = (wendy2c_tick disk ^^ Suc m) s"
  by (simp add: funpow_swap1)

lemma ticked_Suc:
  assumes "wendy2c_ok disk s" "w_ticks_of s < unat cap" "\<not> halted (wendy2c_tick disk s)"
    "ticked disk cap (wendy2c_tick disk s) k"
  shows "ticked disk cap s (Suc k)"
proof -
  have "\<not> halted ((wendy2c_tick disk ^^ m) s)" if "0 < m" "m < Suc k" for m
  proof (cases m)
    case (Suc i)
    then have "(wendy2c_tick disk ^^ m) s = (wendy2c_tick disk ^^ i) (wendy2c_tick disk s)"
      by (simp only: ticks_funpow)
    then show ?thesis using that assms(3,4) Suc by (cases i) (auto simp: ticked_def simp del: funpow.simps(2))
  qed (use that in simp)
  then show ?thesis
    using assms(4) wendy2c_tick_below[OF assms(1,2)] by (simp add: ticked_def)
qed

lemma quiet_link:
  assumes "\<not> has_client l"
  shows "\<not> serial_link_needs_repoll now l" "link_step conv zero (l, [], s) = Some (False, l, [], s)"
proof -
  show "\<not> serial_link_needs_repoll now l" using assms by (simp add: serial_link_needs_repoll_def)
  have "cpu_host s\<lparr>w_via := w_via (cpu_host s)\<rparr> = cpu_host s" by simp
  then show "link_step conv zero (l, [], s) = Some (False, l, [], s)"
    using assms by (simp add: link_step_def poll_link_def serial_link_poll_def try_accept_def Let_def
        serial_link_should_stall_def)
qed

lemma plain_batch_quiet:
  assumes "wendy2c_ok disk s" "\<not> has_client l" "w_ticks_of s \<le> unat cap"
  shows "\<exists>b k t. plain_batch conv zero disk cap n (l, [], s) = Some (b, l, [], t) \<and>
    t = (wendy2c_tick disk ^^ k) s \<and> ticked disk cap s k \<and> wendy2c_ok disk t \<and> w_ticks_of t = w_ticks_of s + k \<and>
    (halted t \<and> 0 < k \<longleftrightarrow> b) \<and> (b \<or> k = n \<or> w_ticks_of t = unat cap)"
  using assms
proof (induction n arbitrary: s)
  case 0
  then show ?case by (intro exI[of _ False] exI[of _ 0]) (simp add: ticked_def)
next
  case (Suc n)
  define u where "u = wendy2c_tick disk s"
  show ?case
  proof (cases "osc_ticks (cpu_host s) < cap")
    case below: True
    then have lt: "w_ticks_of s < unat cap" by (simp add: word_less_nat_alt)
    have u: "wendy2c_ok disk u" "w_ticks_of u = w_ticks_of s + 1"
      using Suc.prems(1) wendy2c_tick_paced(1) wendy2c_tick_below[OF Suc.prems(1) lt] by (simp_all add: u_def)
    show ?thesis
    proof (cases "halted u")
      case True
      then show ?thesis
        using below lt u Suc.prems(2)
        by (intro exI[of _ True] exI[of _ 1] exI[of _ u]) (simp add: u_def[symmetric] ticked_def Let_def)
    next
      case False
      obtain b k t where t: "plain_batch conv zero disk cap n (l, [], u) = Some (b, l, [], t)"
        "t = (wendy2c_tick disk ^^ k) u" "ticked disk cap u k" "wendy2c_ok disk t" "w_ticks_of t = w_ticks_of u + k"
        "halted t \<and> 0 < k \<longleftrightarrow> b" "b \<or> k = n \<or> w_ticks_of t = unat cap"
        using Suc.IH[OF u(1) Suc.prems(2)] u(2) lt by auto
      have "plain_batch conv zero disk cap (Suc n) (l, [], s) = Some (b, l, [], t)"
        using below False t(1) quiet_link(1)[OF Suc.prems(2)]
        by (simp add: u_def[symmetric] Let_def not_le[symmetric])
      moreover have "t = (wendy2c_tick disk ^^ Suc k) s" using t(2) by (simp only: u_def ticks_funpow)
      moreover have "ticked disk cap s (Suc k)"
        using ticked_Suc[OF Suc.prems(1) lt] False t(3) by (simp add: u_def)
      moreover have "halted t \<longleftrightarrow> b" using t(2,6) False by (cases k) auto
      ultimately show ?thesis
        using t(4,5,7) u(2) by (intro exI[of _ b] exI[of _ "Suc k"] exI[of _ t]) auto
    qed
  next
    case False
    then have "plain_batch conv zero disk cap (Suc n) (l, [], s) = Some (False, l, [], s)" by (simp add: not_less)
    moreover have "w_ticks_of s = unat cap" using False Suc.prems(3) by (simp add: word_less_nat_alt)
    ultimately show ?thesis
      using Suc.prems(1,3) by (intro exI[of _ False] exI[of _ 0] exI[of _ s]) (simp add: ticked_def)
  qed
qed

lemma ticked_append:
  assumes "ticked disk cap s j" "t = (wendy2c_tick disk ^^ j) s" "w_ticks_of t = w_ticks_of s + j"
    "ticked disk cap t k" "\<not> (halted t \<and> 0 < j)"
  shows "ticked disk cap s (k + j)" "(wendy2c_tick disk ^^ k) t = (wendy2c_tick disk ^^ (k + j)) s"
proof -
  show "(wendy2c_tick disk ^^ k) t = (wendy2c_tick disk ^^ (k + j)) s" by (simp add: assms(2) funpow_add)
  have "\<not> halted ((wendy2c_tick disk ^^ m) s)" if m: "0 < m" "m < k + j" for m
  proof -
    consider "m < j" | "m = j" | "j < m" by linarith
    then show ?thesis
    proof cases
      case 3
      then have "(wendy2c_tick disk ^^ m) s = (wendy2c_tick disk ^^ (m - j)) t"
        by (simp add: assms(2) funpow_add[symmetric, THEN fun_cong, unfolded o_apply])
      then show ?thesis using 3 m assms(4) by (simp add: ticked_def)
    qed (use m assms in \<open>auto simp: ticked_def\<close>)
  qed
  then show "ticked disk cap s (k + j)" using assms(3,4) by (simp add: ticked_def)
qed

lemma wendy2c_run_returns:
  "wendy2c_ok disk s \<Longrightarrow> \<not> has_client l \<Longrightarrow> w_ticks_of s \<le> unat cap \<Longrightarrow>
   \<exists>k t. wendy2c_run conv zero disk cap (l, [], s) = Some (l, [], t) \<and> t = (wendy2c_tick disk ^^ k) s \<and>
     ticked disk cap s k \<and> w_ticks_of t = w_ticks_of s + k \<and> (w_ticks_of t = unat cap \<or> halted t)"
proof (induction "unat cap - w_ticks_of s" arbitrary: s rule: less_induct)
  case less
  show ?case
  proof (cases "osc_ticks (cpu_host s) < cap")
    case True
    note q = quiet_link(2)[OF less.prems(2)]
    obtain b j u where u: "plain_batch conv zero disk cap 50000 (l, [], s) = Some (b, l, [], u)"
      "u = (wendy2c_tick disk ^^ j) s" "ticked disk cap s j" "wendy2c_ok disk u" "w_ticks_of u = w_ticks_of s + j"
      "halted u \<and> 0 < j \<longleftrightarrow> b" "b \<or> j = 50000 \<or> w_ticks_of u = unat cap"
      using plain_batch_quiet[OF less.prems] by blast
    show ?thesis
    proof (cases b)
      case b: True
      then have "wendy2c_run conv zero disk cap (l, [], s) = Some (l, [], u)"
        using True q u(1) by (subst wendy2c_run.simps) simp
      then show ?thesis using u b by blast
    next
      case False
      have e: "wendy2c_run conv zero disk cap (l, [], s) = wendy2c_run conv zero disk cap (l, [], u)"
        using True False q u(1) by (subst wendy2c_run.simps) simp
      have "w_ticks_of s < unat cap" "w_ticks_of u \<le> unat cap"
        using True u(3,5) by (simp_all add: ticked_def word_less_nat_alt)
      then have "unat cap - w_ticks_of u < unat cap - w_ticks_of s" "w_ticks_of u \<le> unat cap"
        using u(5,7) False by auto
      from less.hyps[OF this(1) u(4) less.prems(2) this(2)] obtain k t where t:
        "wendy2c_run conv zero disk cap (l, [], u) = Some (l, [], t)" "t = (wendy2c_tick disk ^^ k) u"
        "ticked disk cap u k" "w_ticks_of t = w_ticks_of u + k" "w_ticks_of t = unat cap \<or> halted t"
        by blast
      have "\<not> (halted u \<and> 0 < j)" using u(6) False by simp
      from ticked_append[OF u(3,2,5) t(3) this] show ?thesis
        using e t u(5) by (intro exI[of _ "k + j"] exI[of _ t]) simp
    qed
  next
    case False
    then have "wendy2c_run conv zero disk cap (l, [], s) = Some (l, [], s)" by (subst wendy2c_run.simps) simp
    moreover have "w_ticks_of s = unat cap" using False less.prems(3) by (simp add: word_less_nat_alt)
    ultimately show ?thesis by (intro exI[of _ 0] exI[of _ s]) (simp add: ticked_def)
  qed
qed

text \<open>
  Property C6: a plain run of the wendy2c ends, whatever program runs. It is some number of
  ticks within the cap, and it stops at the first of them after which the CPU has met STP or
  the program has written the power-off port, or else at the cap.
\<close>

theorem wendy2c_run_ends:
  assumes "cpu_hooks s = wendy2c_hooks disk rd wr" "\<not> bus_res (cpu_host s)"
    "\<not> cpu_cycle_due (cpu_host s)" "unat (cycles_owed (w_cpu (cpu_host s))) \<le> 10"
    "\<not> has_client l" "osc_ticks (cpu_host s) \<le> cap"
  shows "\<exists>n t. wendy2c_run conv zero disk cap (l, [], s) = Some (l, [], t) \<and> t = (wendy2c_tick disk ^^ n) s \<and>
    unat (osc_ticks (cpu_host t)) = unat (osc_ticks (cpu_host s)) + n \<and> osc_ticks (cpu_host t) \<le> cap \<and>
    (osc_ticks (cpu_host t) = cap \<or> halted t) \<and>
    (\<forall>m. 0 < m \<and> m < n \<longrightarrow> \<not> halted ((wendy2c_tick disk ^^ m) s))"
proof -
  have "wendy2c_ok disk s" "w_ticks_of s \<le> unat cap"
    using assms by (auto simp: wendy2c_ok_def word_le_nat_alt)
  from wendy2c_run_returns[OF this(1) assms(5) this(2), of conv zero] obtain n t where
    "wendy2c_run conv zero disk cap (l, [], s) = Some (l, [], t)" "t = (wendy2c_tick disk ^^ n) s"
    "ticked disk cap s n" "w_ticks_of t = w_ticks_of s + n" "w_ticks_of t = unat cap \<or> halted t"
    by blast
  then show ?thesis
    by (intro exI[of _ n] exI[of _ t]) (auto simp: ticked_def word_le_nat_alt word_unat_eq_iff)
qed

definition no_client :: "unit serial_link" where
  "no_client = idle_link\<lparr>has_client := False\<rparr>"

theorem wendy2c_run_witness:
  "\<exists>t. wendy2c_run (\<lambda>ns r. (ns, r)) () False 1000000 (no_client, [], nop_wendy) = Some (no_client, [], t) \<and>
     (osc_ticks (cpu_host t) = 1000000 \<or> halted t)"
proof -
  have "cpu_hooks nop_wendy = wendy2c_hooks False (\<lambda>a m. (0, m)) (\<lambda>a v m. m)" "osc_ticks (cpu_host nop_wendy) = 0"
    "\<not> has_client no_client"
    by (simp_all add: nop_wendy_def no_client_def idle_link_def wendy2c_setup_def rom_28c256_load_def bus.defs wendy2c.defs
        bus_init_def split_def Let_def)
  then show ?thesis
    using wendy2c_run_ends[where s = nop_wendy and disk = False and rd = "\<lambda>a m. (0, m)" and
        wr = "\<lambda>a v m. m" and cap = 1000000 and l = no_client and conv = "\<lambda>ns r. (ns, r)" and zero = "()"]
      nop_wendy_lines by auto
qed

end
