(* ===== verification/Web_Display.thy ===== *)
theory Web_Display imports Ili9341
begin

text \<open>
  The graphic display's pixels on their way to a page (\<open>src/emulator/web_display.c\<close>): messages
  of rectangles in run-length coding that carry what the page does not have yet, and the page's
  decoder (\<open>applyDisplay\<close> in \<open>src/emulator/web/board.js\<close>).
\<close>

section \<open>Writing runs\<close>

definition LINES :: nat where "LINES = 320"
definition WIDTH :: nat where "WIDTH = 240"
definition BAND :: nat where "BAND = 16"
definition WEB_DISPLAY_TAG :: u8 where "WEB_DISPLAY_TAG = 0x02"
definition WEB_DISPLAY_RECT_MAX :: nat where "WEB_DISPLAY_RECT_MAX = 5 + 3 + 2 * BAND * WIDTH"

datatype run_kind = LITERAL | COLOUR | FIRST | SECOND

primrec kind_code :: "run_kind \<Rightarrow> u8" where
  "kind_code LITERAL = 0"
| "kind_code COLOUR = 1"
| "kind_code FIRST = 2"
| "kind_code SECOND = 3"

record writer =
  w_out :: "u8 list"
  first_colour :: u16
  second_colour :: u16

definition put8 :: "u8 \<Rightarrow> writer \<Rightarrow> writer" where
  "put8 v w = w\<lparr>w_out := w_out w @ [v]\<rparr>"

definition put_u16 :: "u16 \<Rightarrow> writer \<Rightarrow> writer" where
  "put_u16 v w = w\<lparr>w_out := w_out w @ [to8 v, to8 (drop_bit 8 v)]\<rparr>"

definition put_run :: "run_kind \<Rightarrow> nat \<Rightarrow> writer \<Rightarrow> writer" where
  "put_run kind n w =
     (if n < 64 then put8 (push_bit 6 (kind_code kind) OR word_of_nat n) w
      else put_u16 (word_of_nat n) (put8 (push_bit 6 (kind_code kind)) w))"

text \<open>Whether pixel \<open>i\<close> is alone (its neighbour differs) and not remembered.\<close>

definition lone :: "writer \<Rightarrow> u16 list \<Rightarrow> nat \<Rightarrow> bool" where
  "lone w px i \<longleftrightarrow> (i + 1 = length px \<or> px ! (i + 1) \<noteq> px ! i) \<and>
     px ! i \<noteq> first_colour w \<and> px ! i \<noteq> second_colour w"

definition put_literal :: "u16 list \<Rightarrow> writer \<Rightarrow> writer" where
  "put_literal px w = (if px = [] then w else fold put_u16 px (put_run LITERAL (length px) w))"

definition run_at :: "u16 list \<Rightarrow> nat \<Rightarrow> nat" where
  "run_at px i = length (takeWhile (\<lambda>p. p = px ! i) (drop i px))"

definition put_colour_run :: "u16 \<Rightarrow> nat \<Rightarrow> writer \<Rightarrow> writer" where
  "put_colour_run v run w =
     (if v = first_colour w then put_run FIRST run w
      else if v = second_colour w
      then (put_run SECOND run w)\<lparr>second_colour := first_colour w, first_colour := v\<rparr>
      else (put_u16 v (put_run COLOUR run w))\<lparr>second_colour := first_colour w, first_colour := v\<rparr>)"

lemma run_at_pos: "i < length px \<Longrightarrow> 0 < run_at px i"
  by (simp add: run_at_def Cons_nth_drop_Suc[symmetric])

text \<open>\<open>literal\<close> pixels before \<open>i\<close> wait to go as themselves.\<close>

function put_pixels_from :: "u16 list \<Rightarrow> nat \<Rightarrow> nat \<Rightarrow> writer \<Rightarrow> writer" where
  "put_pixels_from px i literal w =
     (let pending = take literal (drop (i - literal) px) in
      if length px \<le> i then put_literal pending w
      else if lone w px i \<and> (literal \<noteq> 0 \<or> i + 1 < length px \<and> lone w px (i + 1))
      then put_pixels_from px (i + 1) (literal + 1) w
      else put_pixels_from px (i + run_at px i) 0 (put_colour_run (px ! i) (run_at px i) (put_literal pending w)))"
  by pat_completeness auto
termination
  by (relation "measure (\<lambda>(px, i, literal, w). length px - i)") (auto simp: run_at_pos diff_less_mono2)

declare put_pixels_from.simps [simp del]

definition put_pixels :: "u16 list \<Rightarrow> writer \<Rightarrow> writer" where
  "put_pixels px w = put_pixels_from px 0 0 w"

section \<open>Messages\<close>

type_synonym frame = "nat \<Rightarrow> nat \<Rightarrow> u16"

definition frame_of :: "ili9341 \<Rightarrow> frame" where
  "frame_of d = (\<lambda>l x. memory d (int l) (int x))"

record web_display_shadow =
  pixels :: frame
  known :: "nat \<Rightarrow> bool"
  next_line :: nat

definition web_display_shadow_forget :: web_display_shadow where
  "web_display_shadow_forget = \<lparr>pixels = (\<lambda>_ _. 0), known = (\<lambda>_. False), next_line = 0\<rparr>"

text \<open>Where a line differs from what the page has.\<close>

definition changed :: "web_display_shadow \<Rightarrow> (nat \<Rightarrow> u16) \<Rightarrow> nat \<Rightarrow> (nat \<times> nat) option" where
  "changed s line l =
     (let same = (\<lambda>x. line x = pixels s l x) in
      if \<not> known s l then Some (0, WIDTH)
      else if list_all same [0..<WIDTH] then None
      else Some (length (takeWhile same [0..<WIDTH]), WIDTH - length (takeWhile same (rev [0..<WIDTH]))))"

definition rect_pixels :: "frame \<Rightarrow> nat \<Rightarrow> nat \<Rightarrow> nat \<Rightarrow> nat \<Rightarrow> u16 list" where
  "rect_pixels m l h x width = concat (map (\<lambda>i. map (\<lambda>j. m (l + i) (x + j)) [0..<width]) [0..<h])"

definition put_rect :: "frame \<Rightarrow> nat \<Rightarrow> nat \<Rightarrow> nat \<Rightarrow> nat \<Rightarrow> writer \<Rightarrow> writer" where
  "put_rect m l h x width w =
     put_pixels (rect_pixels m l h x width)
       (put8 (word_of_nat (h - 1)) (put8 (word_of_nat (width - 1)) (put8 (word_of_nat x) (put_u16 (word_of_nat l) w))))"

definition shadow_rect :: "frame \<Rightarrow> nat \<Rightarrow> nat \<Rightarrow> nat \<Rightarrow> nat \<Rightarrow> web_display_shadow \<Rightarrow> web_display_shadow" where
  "shadow_rect m l h x width s =
     s\<lparr>pixels := (\<lambda>i j. if l \<le> i \<and> i < l + h \<and> x \<le> j \<and> j < x + width then m i j else pixels s i j),
       known := (\<lambda>i. l \<le> i \<and> i < l + h \<or> known s i)\<rparr>"

text \<open>
  A gathered band goes into the message, unless that takes it over its budget: then the message
  ends before it, and the next one starts with it.
\<close>

type_synonym band = "nat \<times> nat \<times> nat \<times> nat"

definition flush_band ::
  "frame \<Rightarrow> nat \<Rightarrow> band \<Rightarrow> web_display_shadow \<Rightarrow> writer \<Rightarrow> (u8 list \<times> web_display_shadow) + (web_display_shadow \<times> writer)"
where
  "flush_band m budget = (\<lambda>(band, h, x0, x1) s w.
     let w' = put_rect m band h x0 (x1 - x0) w
     in if length (w_out w') > budget \<and> length (w_out w) > 1 then Inl (w_out w, s\<lparr>next_line := band\<rparr>)
        else Inr (shadow_rect m band h x0 (x1 - x0) s, w'))"

fun encode_lines ::
  "frame \<Rightarrow> nat \<Rightarrow> nat list \<Rightarrow> band option \<Rightarrow> web_display_shadow \<Rightarrow> writer \<Rightarrow> u8 list \<times> web_display_shadow"
where
  "encode_lines m budget [] band s w =
     (case (case band of None \<Rightarrow> Inr (s, w) | Some b \<Rightarrow> flush_band m budget b s w) of
        Inl r \<Rightarrow> r
      | Inr (s, w) \<Rightarrow> (if length (w_out w) > 1 then w_out w else [], s))"
| "encode_lines m budget (l # ls) band s w =
     (let more = changed s (m l) l in
      case (band, more) of
        (Some (b, h, x0, x1), Some (a, c)) \<Rightarrow>
          if l = b + h \<and> h < BAND then encode_lines m budget ls (Some (b, h + 1, min a x0, max c x1)) s w
          else (case flush_band m budget (b, h, x0, x1) s w of
              Inl r \<Rightarrow> r
            | Inr (s, w) \<Rightarrow> encode_lines m budget ls (Some (l, 1, a, c)) s w)
      | (Some b, None) \<Rightarrow> (case flush_band m budget b s w of
              Inl r \<Rightarrow> r
            | Inr (s, w) \<Rightarrow> encode_lines m budget ls None s w)
      | (None, _) \<Rightarrow> encode_lines m budget ls (map_option (\<lambda>(a, c). (l, 1, a, c)) more) s w)"

definition web_display_encode :: "frame \<Rightarrow> nat \<Rightarrow> web_display_shadow \<Rightarrow> u8 list \<times> web_display_shadow" where
  "web_display_encode m budget s =
     encode_lines m budget (map (\<lambda>i. (next_line s + i) mod LINES) [0..<LINES]) None s
       \<lparr>w_out = [WEB_DISPLAY_TAG], first_colour = 0x0000, second_colour = 0xFFFF\<rparr>"

section \<open>The page\<close>

text \<open>
  The page's copy is a flat array. A read past the end of the message gives None; the page takes
  as many pixels as the message has.
\<close>

type_synonym page = "nat \<Rightarrow> u16"

definition u16_at :: "u8 list \<Rightarrow> u16" where
  "u16_at b = to16 (b ! 0) OR push_bit 8 (to16 (b ! 1))"

fun page_literal :: "nat \<Rightarrow> u8 list \<Rightarrow> (u16 list \<times> u8 list) option" where
  "page_literal 0 b = Some ([], b)"
| "page_literal (Suc n) b =
     (if length b < 2 then None
      else map_option (\<lambda>(px, b'). (u16_at b # px, b')) (page_literal n (drop 2 b)))"

text \<open>The length of a run: in its first byte, or after it.\<close>

definition page_count :: "u8 list \<Rightarrow> (nat \<times> u8 list) option" where
  "page_count b =
     (let n = unat (b ! 0 AND 63) in
      if n \<noteq> 0 then Some (n, drop 1 b)
      else if length b < 3 then None else Some (unat (u16_at (drop 1 b)), drop 3 b))"

definition page_run :: "nat \<Rightarrow> u16 \<times> u16 \<Rightarrow> u8 list \<Rightarrow> (u16 list \<times> (u16 \<times> u16) \<times> u8 list) option" where
  "page_run room = (\<lambda>(c0, c1) b.
     case page_count b of
       None \<Rightarrow> None
     | Some (n, b') \<Rightarrow>
         (let kind = drop_bit 6 (b ! 0); n = min n room in
          if kind = 1 then
            (if length b' < 2 then None else Some (replicate n (u16_at b'), (u16_at b', c0), drop 2 b'))
          else if kind = 2 then Some (replicate n c0, (c0, c1), b')
          else if kind = 3 then Some (replicate n c1, (c1, c0), b')
          else map_option (\<lambda>(px, b). (px, (c0, c1), b)) (page_literal n b')))"

lemma page_literal_shorter: "page_literal n b = Some (px, b') \<Longrightarrow> length b' \<le> length b \<and> length px = n"
  by (induction n arbitrary: b px) (fastforce split: if_splits)+

lemma page_run_shorter: "b \<noteq> [] \<Longrightarrow> page_run room cs b = Some (px, cs', b') \<Longrightarrow> length b' < length b"
proof -
  assume "b \<noteq> []" and r: "page_run room cs b = Some (px, cs', b')"
  then obtain v t where "b = v # t" by (cases b) auto
  with r show ?thesis
    by (cases cs) (auto simp: page_run_def page_count_def Let_def split: option.splits if_splits
        dest!: page_literal_shorter)
qed

function page_runs :: "nat \<Rightarrow> u16 \<times> u16 \<Rightarrow> u8 list \<Rightarrow> (u16 list \<times> (u16 \<times> u16) \<times> u8 list) option" where
  "page_runs room cs b =
     (if room = 0 \<or> b = [] then Some ([], cs, b)
      else case page_run room cs b of
          None \<Rightarrow> None
        | Some (px, cs', b') \<Rightarrow>
            map_option (\<lambda>(qx, r). (px @ qx, r)) (page_runs (room - length px) cs' b'))"
  by pat_completeness auto
termination
  by (relation "measure (\<lambda>(room, cs, b). length b)") (auto dest: page_run_shorter)

declare page_runs.simps [simp del]

lemma page_runs_shorter: "page_runs room cs b = Some (px, cs', b') \<Longrightarrow> length b' \<le> length b"
proof (induction room cs b arbitrary: px rule: page_runs.induct)
  case (1 room cs b)
  show ?case
    using 1 by (subst (asm) (2) page_runs.simps)
      (fastforce split: if_splits option.splits dest: page_run_shorter)
qed

text \<open>Pixels outside the array are not stored, as a typed array's are not.\<close>

definition page_put :: "nat \<Rightarrow> nat \<Rightarrow> nat \<Rightarrow> u16 list \<Rightarrow> page \<Rightarrow> page" where
  "page_put line x w px p = fold (\<lambda>at p. let i = (line + at div w) * WIDTH + x + at mod w in
     if i < LINES * WIDTH then p(i := px ! at) else p) [0..<length px] p"

function page_rects :: "u16 \<times> u16 \<Rightarrow> u8 list \<Rightarrow> page \<Rightarrow> page option" where
  "page_rects cs b p =
     (if length b < 5 then Some p
      else let line = unat (u16_at b); x = unat (b ! 2); w = unat (b ! 3) + 1; h = unat (b ! 4) + 1 in
        case page_runs (w * h) cs (drop 5 b) of
          None \<Rightarrow> None
        | Some (px, cs', b') \<Rightarrow> page_rects cs' b' (page_put line x w px p))"
  by pat_completeness auto
termination
  by (relation "measure (\<lambda>(cs, b, p). length b)") (auto dest: page_runs_shorter)

declare page_rects.simps [simp del]

definition apply_display :: "u8 list \<Rightarrow> page \<Rightarrow> page option" where
  "apply_display msg p = page_rects (0x0000, 0xFFFF) (drop 1 msg) p"

section \<open>A run decoded\<close>

abbreviation (input) "colours w \<equiv> (first_colour w, second_colour w)"

lemma u16_at_put [simp]: "u16_at (to8 v # to8 (drop_bit 8 v) # b) = v"
  by (simp add: u16_at_def split_u16)

lemma kind_bits:
  assumes "n < 64"
  shows "(push_bit 6 (kind_code k) OR word_of_nat n) AND 63 = (word_of_nat n :: u8)"
    "drop_bit 6 (push_bit 6 (kind_code k) OR word_of_nat n) = kind_code k"
proof -
  have "take_bit 6 n = n" using assms by (simp add: take_bit_nat_eq_self)
  then have n: "bit n i \<Longrightarrow> i < 6" for i by (metis bit_take_bit_iff)
  have k: "bit (kind_code k) i \<Longrightarrow> i < 2" for i
    by (cases k) (auto simp: bit_lits bit_1_iff bit_numeral_word_iff)
  show "(push_bit 6 (kind_code k) OR word_of_nat n) AND 63 = (word_of_nat n :: u8)"
    by (rule bit_word_eqI) (auto simp: bit_simps bit_lits bit_numeral_word_iff dest: n)
  show "drop_bit 6 (push_bit 6 (kind_code k) OR word_of_nat n) = kind_code k"
    by (rule bit_word_eqI) (auto simp: bit_simps dest: n k)
qed

lemma kind_code_values [simp]:
  "kind_code k = 0 \<longleftrightarrow> k = LITERAL" "kind_code k = 1 \<longleftrightarrow> k = COLOUR" "kind_code k = 2 \<longleftrightarrow> k = FIRST"
  "kind_code k = 3 \<longleftrightarrow> k = SECOND"
  by (cases k; simp)+

definition run_bytes :: "run_kind \<Rightarrow> nat \<Rightarrow> u8 list" where
  "run_bytes k n = (if n < 64 then [push_bit 6 (kind_code k) OR word_of_nat n]
     else [push_bit 6 (kind_code k), to8 (word_of_nat n), to8 (drop_bit 8 (word_of_nat n))])"

lemma run_bytes_not_empty [simp]: "run_bytes k n \<noteq> []"
  by (simp add: run_bytes_def)

lemma put_run_out: "put_run k n w = w\<lparr>w_out := w_out w @ run_bytes k n\<rparr>"
  by (simp add: put_run_def run_bytes_def put8_def put_u16_def)

lemma fold_put16: "fold put_u16 px w = w\<lparr>w_out := w_out w @ concat (map (\<lambda>v. [to8 v, to8 (drop_bit 8 v)]) px)\<rparr>"
  by (induction px arbitrary: w) (simp_all add: put_u16_def)

lemma page_literal_put:
  "page_literal (length px) (concat (map (\<lambda>v. [to8 v, to8 (drop_bit 8 v)]) px) @ rest) = Some (px, rest)"
  by (induction px) simp_all

text \<open>The page reads the first byte's kind and the run's length as they were written.\<close>

lemma page_count_put:
  assumes "0 < n" "n < 65536"
  shows "page_count (run_bytes k n @ rest) = Some (n, rest)"
    "drop_bit 6 ((run_bytes k n @ rest) ! 0) = kind_code k" "run_bytes k n @ rest \<noteq> []"
proof -
  have z: "push_bit 6 (kind_code k) AND 63 = (0 :: u8)" "drop_bit 6 (push_bit 6 (kind_code k)) = kind_code k"
    using kind_bits[of 0 k] by simp_all
  have "n < 64 \<Longrightarrow> unat (word_of_nat n :: u8) = n" "unat (word_of_nat n :: u16) = n"
    using assms by (simp_all add: unat_of_nat take_bit_nat_eq_self)
  then show "page_count (run_bytes k n @ rest) = Some (n, rest)"
    using assms(1) by (auto simp: page_count_def run_bytes_def kind_bits z Let_def)
  show "drop_bit 6 ((run_bytes k n @ rest) ! 0) = kind_code k" "run_bytes k n @ rest \<noteq> []"
    using kind_bits(2)[of n k] z by (simp_all add: run_bytes_def)
qed

text \<open>A run written is read back with the room for it, and leaves the same colours remembered.\<close>

lemma page_colour_run:
  assumes "0 < n" "n \<le> room" "n < 65536" "w' = put_colour_run v n w"
  shows "\<exists>bs. w_out w' = w_out w @ bs \<and> bs \<noteq> [] \<and> length bs \<le> 3 * n \<and>
    (\<forall>rest. page_run room (colours w) (bs @ rest) = Some (replicate n v, colours w', rest))"
proof -
  note c = page_count_put[OF assms(1,3)]
  have l: "length (run_bytes k n) + 2 \<le> 3 * n" for k using assms(1) by (auto simp: run_bytes_def)
  consider "v = first_colour w" | "v \<noteq> first_colour w" "v = second_colour w"
    | "v \<noteq> first_colour w" "v \<noteq> second_colour w" by blast
  then show ?thesis
  proof cases
    case 1
    then show ?thesis using assms l[of FIRST]
      by (intro exI[of _ "run_bytes FIRST n"])
        (simp add: put_colour_run_def put_run_out page_run_def c min_absorb1 del: append_is_Nil_conv)
  next
    case 2
    then show ?thesis using assms l[of SECOND]
      by (intro exI[of _ "run_bytes SECOND n"])
        (simp add: put_colour_run_def put_run_out page_run_def c min_absorb1 del: append_is_Nil_conv)
  next
    case 3
    then show ?thesis using assms l[of COLOUR]
      by (intro exI[of _ "run_bytes COLOUR n @ [to8 v, to8 (drop_bit 8 v)]"])
        (simp add: put_colour_run_def put_run_out put_u16_def page_run_def c min_absorb1 del: append_is_Nil_conv)
  qed
qed

text \<open>Pixels written: the page reads them back, whatever follows, in at most three bytes each.\<close>

definition writes :: "u16 list \<Rightarrow> writer \<Rightarrow> writer \<Rightarrow> bool" where
  "writes px w w' \<longleftrightarrow> (\<exists>bs. w_out w' = w_out w @ bs \<and> length bs \<le> 3 * length px \<and> (px \<noteq> [] \<longrightarrow> bs \<noteq> []) \<and>
     (\<forall>room rest. length px \<le> room \<longrightarrow> page_runs room (colours w) (bs @ rest) =
        map_option (\<lambda>(qx, r). (px @ qx, r)) (page_runs (room - length px) (colours w') rest)))"

lemma writes_none: "writes [] w w"
  by (simp add: writes_def option.map_ident id_def)

lemma map_option_runs:
  "map_option (\<lambda>(qx, r). (px @ qx, r)) (map_option (\<lambda>(qx, r). (px' @ qx, r)) z) =
   map_option (\<lambda>(qx, r). ((px @ px') @ qx, r)) z"
  by (cases z) auto

lemma writes_append:
  assumes "writes px w w'" "writes qx w' w''"
  shows "writes (px @ qx) w w''"
proof -
  obtain bs where b: "w_out w' = w_out w @ bs" "length bs \<le> 3 * length px" "px \<noteq> [] \<longrightarrow> bs \<noteq> []"
    "\<And>room rest. length px \<le> room \<Longrightarrow> page_runs room (colours w) (bs @ rest) =
        map_option (\<lambda>(qx, r). (px @ qx, r)) (page_runs (room - length px) (colours w') rest)"
    using assms(1) by (auto simp: writes_def)
  obtain cs where c: "w_out w'' = w_out w' @ cs" "length cs \<le> 3 * length qx" "qx \<noteq> [] \<longrightarrow> cs \<noteq> []"
    "\<And>room rest. length qx \<le> room \<Longrightarrow> page_runs room (colours w') (cs @ rest) =
        map_option (\<lambda>(px, r). (qx @ px, r)) (page_runs (room - length qx) (colours w'') rest)"
    using assms(2) by (auto simp: writes_def)
  have "page_runs room (colours w) ((bs @ cs) @ rest) =
      map_option (\<lambda>(rx, r). ((px @ qx) @ rx, r)) (page_runs (room - length (px @ qx)) (colours w'') rest)"
    if "length (px @ qx) \<le> room" for room rest
    using b(4)[of room "cs @ rest"] c(4)[of "room - length px" rest] that
    by (simp add: map_option_runs le_diff_conv2 add.commute)
  then show ?thesis
    unfolding writes_def using b(1-3) c(1-3) by (intro exI[of _ "bs @ cs"]) auto
qed

lemma page_runs_one:
  assumes "bs \<noteq> []" "px \<noteq> []" "length px \<le> room"
    "page_run room cs (bs @ rest) = Some (px, cs', rest)"
  shows "page_runs room cs (bs @ rest) = map_option (\<lambda>(qx, r). (px @ qx, r)) (page_runs (room - length px) cs' rest)"
proof -
  have "0 < room" using assms(2,3) by (cases px) auto
  then show ?thesis using assms(1,4) by (subst page_runs.simps) simp
qed

lemma colour_run_writes:
  assumes "0 < n" "n < 65536"
  shows "writes (replicate n v) w (put_colour_run v n w)"
proof -
  obtain bs where bs: "w_out (put_colour_run v n w) = w_out w @ bs" "bs \<noteq> []" "length bs \<le> 3 * n"
    using page_colour_run[OF assms(1) order_refl assms(2) refl] by blast
  have "page_run room (colours w) (bs @ rest) = Some (replicate n v, colours (put_colour_run v n w), rest)"
    if "n \<le> room" for room rest
    using page_colour_run[where v = v and w = w, OF assms(1) that assms(2) refl] bs(1) by auto
  from page_runs_one[OF bs(2) _ _ this] assms(1) show ?thesis
    unfolding writes_def using bs by (intro exI[of _ bs]) auto
qed

lemma literal_writes:
  assumes "length px < 65536"
  shows "writes px w (put_literal px w)"
proof (cases "px = []")
  case True
  then show ?thesis by (simp add: put_literal_def writes_none)
next
  case False
  then have n: "0 < length px" by simp
  define bs where "bs = run_bytes LITERAL (length px) @ concat (map (\<lambda>v. [to8 v, to8 (drop_bit 8 v)]) px)"
  note c = page_count_put[OF n assms, of LITERAL]
  have w: "put_literal px w = w\<lparr>w_out := w_out w @ bs\<rparr>"
    using False by (simp add: put_literal_def put_run_out fold_put16 bs_def)
  have len: "length (concat (map (\<lambda>v. [to8 v, to8 (drop_bit 8 v)]) px)) = 2 * length px"
    by (induction px) simp_all
  have "page_run room (colours w) (bs @ rest) = Some (px, colours w, rest)" if "length px \<le> room" for room rest
    using that by (simp add: page_run_def bs_def c page_literal_put min_absorb1 del: append_is_Nil_conv)
  from page_runs_one[OF _ False _ this] show ?thesis
    unfolding writes_def using n len
    by (intro exI[of _ bs]) (auto simp: w bs_def run_bytes_def simp del: length_greater_0_conv)
qed

lemma run_at_drop: "i < length px \<Longrightarrow> drop i px = replicate (run_at px i) (px ! i) @ drop (i + run_at px i) px"
proof -
  assume "i < length px"
  have e: "\<forall>v \<in> set (takeWhile (\<lambda>p. p = px ! i) (drop i px)). v = px ! i" by (auto dest: set_takeWhileD)
  have "drop i px = takeWhile (\<lambda>p. p = px ! i) (drop i px) @ dropWhile (\<lambda>p. p = px ! i) (drop i px)" by simp
  also have "takeWhile (\<lambda>p. p = px ! i) (drop i px) = replicate (run_at px i) (px ! i)"
    using e by (simp add: run_at_def replicate_length_same)
  also have "dropWhile (\<lambda>p. p = px ! i) (drop i px) = drop (run_at px i) (drop i px)"
    by (simp add: run_at_def dropWhile_eq_drop)
  finally have "drop i px = replicate (run_at px i) (px ! i) @ drop (run_at px i) (drop i px)" .
  then show ?thesis by (metis add.commute drop_drop)
qed

lemma put_pixels_writes:
  "literal \<le> i \<Longrightarrow> i \<le> length px \<Longrightarrow> length px < 65536 \<Longrightarrow>
   writes (drop (i - literal) px) w (put_pixels_from px i literal w)"
proof (induction px i literal w rule: put_pixels_from.induct)
  case (1 px i literal w)
  define pending where "pending = take literal (drop (i - literal) px)"
  have p: "drop (i - literal) px = pending @ drop i px"
    using "1.prems"(1) append_take_drop_id[of literal "drop (i - literal) px"] by (simp add: pending_def)
  have l: "length pending < 65536" using "1.prems" by (simp add: pending_def)
  let ?lone = "lone w px i \<and> (literal \<noteq> 0 \<or> i + 1 < length px \<and> lone w px (i + 1))"
  consider "length px \<le> i" | "i < length px" "?lone" | "i < length px" "\<not> ?lone" by linarith
  then show ?case
  proof cases
    case 1
    then have "put_pixels_from px i literal w = put_literal pending w"
      by (subst put_pixels_from.simps) (simp add: pending_def)
    then show ?thesis using literal_writes[OF l] 1 by (simp add: p)
  next
    case 2
    then have "put_pixels_from px i literal w = put_pixels_from px (i + 1) (literal + 1) w"
      by (subst put_pixels_from.simps) simp
    then show ?thesis using "1.IH"(1)[OF refl] 2 "1.prems" by simp
  next
    case 3
    define w' where "w' = put_colour_run (px ! i) (run_at px i) (put_literal pending w)"
    have e: "put_pixels_from px i literal w = put_pixels_from px (i + run_at px i) 0 w'"
      using 3 by (subst put_pixels_from.simps) (auto simp: pending_def w'_def Let_def)
    have r: "0 < run_at px i" "i + run_at px i \<le> length px"
      using 3(1) run_at_pos length_takeWhile_le[of "\<lambda>p. p = px ! i" "drop i px"] by (auto simp: run_at_def)
    have "writes (drop (i + run_at px i) px) w' (put_pixels_from px (i + run_at px i) 0 w')"
      using "1.IH"(2)[OF refl] 3 r "1.prems" by (auto simp: w'_def pending_def)
    moreover have "writes (replicate (run_at px i) (px ! i)) (put_literal pending w) w'"
      unfolding w'_def using r "1.prems" by (intro colour_run_writes) simp_all
    ultimately show ?thesis
      using literal_writes[OF l, of w] by (auto simp: e p run_at_drop[OF 3(1)] intro: writes_append)
  qed
qed

section \<open>A rectangle decoded\<close>

definition fits :: "nat \<Rightarrow> nat \<Rightarrow> nat \<Rightarrow> nat \<Rightarrow> bool" where
  "fits l h x width \<longleftrightarrow> 0 < h \<and> h \<le> BAND \<and> l + h \<le> LINES \<and> 0 < width \<and> x + width \<le> WIDTH"

lemma length_rect [simp]: "length (rect_pixels m l h x width) = h * width"
  by (simp add: rect_pixels_def length_concat comp_def sum_list_triv)

lemma rect_nth: "at < h * width \<Longrightarrow> rect_pixels m l h x width ! at = m (l + at div width) (x + at mod width)"
proof (induction h)
  case (Suc h)
  have s: "rect_pixels m l (Suc h) x width = rect_pixels m l h x width @ map (\<lambda>j. m (l + h) (x + j)) [0..<width]"
    by (simp add: rect_pixels_def)
  show ?case
  proof (cases "at < h * width")
    case True
    then show ?thesis using Suc.IH by (simp add: s nth_append)
  next
    case False
    then obtain j where j: "at = h * width + j" "j < width"
      using Suc.prems by (metis add.commute add_less_cancel_left le_add_diff_inverse mult_Suc not_less)
    then show ?thesis by (simp add: s nth_append)
  qed
qed simp

lemma fold_put:
  assumes "inj_on f {..<n}"
  shows "a < n \<Longrightarrow> f a < N \<Longrightarrow> fold (\<lambda>at p. if f at < N then p(f at := g at) else p) [0..<n] p (f a) = g a"
    and "(\<And>a. a < n \<Longrightarrow> f a \<noteq> i) \<Longrightarrow> fold (\<lambda>at p. if f at < N then p(f at := g at) else p) [0..<n] p i = p i"
proof -
  have keep: "fold (\<lambda>at p. if f at < N then p(f at := g at) else p) ats p i = p i" if "i \<notin> f ` set ats" for ats i p
    using that by (induction ats arbitrary: p) auto
  { assume "\<And>a. a < n \<Longrightarrow> f a \<noteq> i"
    then have "i \<notin> f ` set [0..<n]" by (metis atLeastLessThan_iff imageE set_upt)
    then show "fold (\<lambda>at p. if f at < N then p(f at := g at) else p) [0..<n] p i = p i" by (rule keep) }
  assume a: "a < n" "f a < N"
  then have "[0..<n] = [0..<a] @ a # [Suc a..<n]" using upt_conv_Cons upt_add_eq_append[of 0 a "n - a"] by simp
  moreover have "f a \<notin> f ` set [Suc a..<n]"
  proof
    assume "f a \<in> f ` set [Suc a..<n]"
    then obtain b where "f a = f b" "Suc a \<le> b" "b < n" by auto
    then show False using inj_onD[OF assms, of a b] a(1) by simp
  qed
  ultimately show "fold (\<lambda>at p. if f at < N then p(f at := g at) else p) [0..<n] p (f a) = g a"
    using a(2) keep[of "f a" "[Suc a..<n]"] by simp
qed

text \<open>The pixels of a rectangle go where they belong, and no other pixel of the page changes.\<close>

lemma page_put_rect:
  assumes "fits l h x width" "L < LINES" "c < WIDTH"
  shows "page_put l x width (rect_pixels m l h x width) p (L * WIDTH + c) =
    (if l \<le> L \<and> L < l + h \<and> x \<le> c \<and> c < x + width then m L c else p (L * WIDTH + c))"
proof -
  define f where "f = (\<lambda>at. (l + at div width) * WIDTH + x + at mod width)"
  have w: "0 < width" "x + width \<le> WIDTH" "l + h \<le> LINES" using assms(1) by (auto simp: fits_def)
  have lt: "x + at mod width < WIDTH" for at
    using w mod_less_divisor[OF w(1), of at] by linarith
  have fd: "f at div WIDTH = l + at div width" "f at mod WIDTH = x + at mod width" for at
    using lt[of at] by (simp_all add: f_def add.assoc)
  have inj: "inj_on f {..<n}" for n
  proof (rule inj_onI)
    fix a b assume "f a = f b"
    then have "a div width = b div width" "a mod width = b mod width"
      using fd[of a] fd[of b] by simp_all
    then show "a = b" by (metis div_mult_mod_eq)
  qed
  have e: "page_put l x width (rect_pixels m l h x width) p =
      fold (\<lambda>at p. if f at < LINES * WIDTH then p(f at := rect_pixels m l h x width ! at) else p) [0..<h * width] p"
    unfolding page_put_def f_def Let_def length_rect by (rule refl)
  have Lc: "(L * WIDTH + c) div WIDTH = L" "(L * WIDTH + c) mod WIDTH = c" using assms(3) by simp_all
  show ?thesis
  proof (cases "l \<le> L \<and> L < l + h \<and> x \<le> c \<and> c < x + width")
    case True
    define a where "a = (L - l) * width + (c - x)"
    have cx: "c - x < width" using True by auto
    then have a: "a div width = L - l" "a mod width = c - x" by (simp_all add: a_def)
    have "a < (L - l + 1) * width" using cx by (simp add: a_def)
    also have "\<dots> \<le> h * width" using True by (intro mult_le_mono1) auto
    finally have an: "a < h * width" .
    have fa: "f a = L * WIDTH + c" using True by (simp add: f_def a)
    have "L * WIDTH + c < (L + 1) * WIDTH" using assms(3) by simp
    also have "\<dots> \<le> LINES * WIDTH" using assms(2) by (intro mult_le_mono1) simp
    finally have "f a < LINES * WIDTH" by (simp add: fa)
    from fold_put(1)[OF inj an this, where g = "\<lambda>at. rect_pixels m l h x width ! at" and p = p] True
    show ?thesis by (simp add: e fa rect_nth[OF an] a)
  next
    case False
    have "f a \<noteq> L * WIDTH + c" if "a < h * width" for a
    proof
      assume "f a = L * WIDTH + c"
      then have "L = l + a div width" "c = x + a mod width" using fd[of a] Lc by simp_all
      moreover have "a div width < h" using that by (simp add: less_mult_imp_div_less)
      ultimately show False using False mod_less_divisor[OF w(1), of a] by auto
    qed
    from fold_put(2)[OF inj this] show ?thesis using False by (auto simp: e)
  qed
qed

text \<open>What a message has so far: it takes the page from \<open>p\<close> to \<open>q\<close>, whatever follows.\<close>

definition decodes :: "writer \<Rightarrow> page \<Rightarrow> page \<Rightarrow> bool" where
  "decodes w p q \<longleftrightarrow> (\<exists>bs. w_out w = WEB_DISPLAY_TAG # bs \<and>
     (\<forall>rest. page_rects (0x0000, 0xFFFF) (bs @ rest) p = page_rects (colours w) rest q))"

lemma put_rect_decodes:
  assumes "decodes w p q" "fits l h x width"
  shows "decodes (put_rect m l h x width w) p (page_put l x width (rect_pixels m l h x width) q)"
    and "length (w_out w) < length (w_out (put_rect m l h x width w))"
    and "length (w_out (put_rect m l h x width w)) \<le> length (w_out w) + 5 + 3 * BAND * WIDTH"
proof -
  define px where "px = rect_pixels m l h x width"
  define head where "head = [to8 (word_of_nat l), to8 (drop_bit 8 (word_of_nat l)), word_of_nat x,
    word_of_nat (width - 1), word_of_nat (h - 1) :: u8]"
  define v where "v = w\<lparr>w_out := w_out w @ head\<rparr>"
  have b: "0 < h" "h \<le> 16" "l + h \<le> 320" "0 < width" "x + width \<le> 240"
    using assms(2) by (auto simp: fits_def BAND_def LINES_def WIDTH_def)
  have hw: "h * width \<le> 3840" using mult_le_mono[of h 16 width 240] b by simp
  have pw: "put_rect m l h x width w = put_pixels px v"
    by (simp add: put_rect_def put8_def put_u16_def v_def head_def px_def)
  have "writes px v (put_pixels px v)"
    using put_pixels_writes[of 0 0 px v] hw by (simp add: put_pixels_def px_def)
  then obtain bs where bs: "w_out (put_pixels px v) = w_out w @ head @ bs" "length bs \<le> 3 * (h * width)"
    "\<And>rest. page_runs (h * width) (colours w) (bs @ rest) =
        map_option (\<lambda>(qx, r). (px @ qx, r)) (page_runs 0 (colours (put_pixels px v)) rest)"
    by (fastforce simp: writes_def v_def px_def)
  show "length (w_out w) < length (w_out (put_rect m l h x width w))"
    "length (w_out (put_rect m l h x width w)) \<le> length (w_out w) + 5 + 3 * BAND * WIDTH"
    using bs(1,2) hw by (simp_all add: pw head_def BAND_def WIDTH_def)
  have n8: "k < 256 \<Longrightarrow> unat (word_of_nat k :: u8) = k" for k by (simp add: unat_of_nat take_bit_nat_eq_self)
  have u: "unat (word_of_nat l :: u16) = l" "unat (word_of_nat x :: u8) = x"
    "unat (word_of_nat (width - 1) :: u8) = width - 1" "unat (word_of_nat (h - 1) :: u8) = h - 1"
    using b n8[of x] n8[of "width - 1"] n8[of "h - 1"] by (simp_all add: unat_of_nat take_bit_nat_eq_self del: of_nat_diff)
  obtain d where d: "w_out w = WEB_DISPLAY_TAG # d"
    "\<And>rest. page_rects (0x0000, 0xFFFF) (d @ rest) p = page_rects (colours w) rest q"
    using assms(1) by (auto simp: decodes_def)
  have "page_rects (colours w) (head @ bs @ rest) q =
      page_rects (colours (put_pixels px v)) rest (page_put l x width px q)" for rest
  proof -
    have "page_runs 0 cs rest = Some ([], cs, rest)" for cs by (subst page_runs.simps) simp
    then have "page_runs (width * h) (colours w) (bs @ rest) = Some (px, colours (put_pixels px v), rest)"
      using bs(3)[of rest] by (simp add: mult.commute)
    then show ?thesis
      using b u by (subst page_rects.simps) (simp add: head_def Let_def)
  qed
  then show "decodes (put_rect m l h x width w) p (page_put l x width (rect_pixels m l h x width) q)"
    unfolding decodes_def pw px_def[symmetric] using d bs(1) by (intro exI[of _ "d @ head @ bs"]) simp
qed

section \<open>What the page has\<close>

definition synced :: "frame \<Rightarrow> web_display_shadow \<Rightarrow> nat \<Rightarrow> bool" where
  "synced m s l \<longleftrightarrow> known s l \<and> (\<forall>x<WIDTH. pixels s l x = m l x)"

text \<open>The shadow is true of the page.\<close>

definition agrees :: "web_display_shadow \<Rightarrow> page \<Rightarrow> bool" where
  "agrees s p \<longleftrightarrow> (\<forall>l<LINES. \<forall>x<WIDTH. known s l \<longrightarrow> pixels s l x = p (l * WIDTH + x))"

lemma upt_rev_nth: "k < n \<Longrightarrow> rev [0..<n] ! k = n - 1 - k"
  by (simp add: rev_nth)

lemma changed_none: "changed s (m l) l = None \<longleftrightarrow> synced m s l"
  by (auto simp: changed_def synced_def Let_def list_all_iff)

lemma changed_some:
  assumes "changed s (m l) l = Some (a, c)"
  shows "a < c" "c \<le> WIDTH" "x < WIDTH \<Longrightarrow> \<not> (a \<le> x \<and> x < c) \<Longrightarrow> known s l \<and> pixels s l x = m l x"
    "\<not> synced m s l"
proof -
  define same where "same = (\<lambda>x. m l x = pixels s l x)"
  let ?t = "takeWhile same [0..<WIDTH]" and ?u = "takeWhile same (rev [0..<WIDTH])"
  have head: "same x" if "x < length ?t" for x
  proof -
    have "?t ! x \<in> set ?t" using that by (rule nth_mem)
    then have "same (?t ! x)" by (rule set_takeWhileD[THEN conjunct2])
    moreover have "length ?t \<le> WIDTH" using length_takeWhile_le[of same "[0..<WIDTH]"] by simp
    ultimately show ?thesis using that by (simp add: takeWhile_nth)
  qed
  have tail: "same x" if "WIDTH - length ?u \<le> x" "x < WIDTH" for x
  proof -
    have k: "WIDTH - 1 - x < length ?u" using that by linarith
    then have "?u ! (WIDTH - 1 - x) \<in> set ?u" by (rule nth_mem)
    then have "same (?u ! (WIDTH - 1 - x))" by (rule set_takeWhileD[THEN conjunct2])
    moreover have "?u ! (WIDTH - 1 - x) = x" using k that by (simp add: takeWhile_nth upt_rev_nth)
    ultimately show ?thesis by simp
  qed
  have W: "0 < WIDTH" by (simp add: WIDTH_def)
  show ns: "\<not> synced m s l" using assms changed_none[of s m l] by auto
  consider "\<not> known s l" "a = 0" "c = WIDTH"
    | "known s l" "\<not> list_all same [0..<WIDTH]" "a = length ?t" "c = WIDTH - length ?u"
    using assms by (auto simp: changed_def same_def Let_def split: if_splits)
  note cases = this
  show "c \<le> WIDTH" using cases by cases simp_all
  show "x < WIDTH \<Longrightarrow> \<not> (a \<le> x \<and> x < c) \<Longrightarrow> known s l \<and> pixels s l x = m l x"
    using cases head[of x] tail[of x] by cases (auto simp: same_def)
  show "a < c"
    using cases
  proof cases
    case 2
    then obtain x where "x < WIDTH" "\<not> same x" by (auto simp: list_all_iff)
    then show ?thesis using 2 head[of x] tail[of x] by linarith
  qed (use W in simp)
qed

section \<open>A message\<close>

definition band_ok :: "frame \<Rightarrow> web_display_shadow \<Rightarrow> nat list \<Rightarrow> band \<Rightarrow> bool" where
  "band_ok m s ls = (\<lambda>(b, h, x0, x1). fits b h x0 (x1 - x0) \<and> x0 < x1 \<and> \<not> synced m s b \<and> {b..<b + h} \<inter> set ls = {} \<and>
     (\<forall>i x. b \<le> i \<and> i < b + h \<and> x < WIDTH \<and> \<not> (x0 \<le> x \<and> x < x1) \<longrightarrow> known s i \<and> pixels s i x = m i x))"

lemma band_start:
  assumes "changed s (m l) l = Some (a, c)" "l < LINES" "l \<notin> set ls"
  shows "band_ok m s ls (l, 1, a, c)"
proof -
  note c = changed_some[where m = m and l = l, OF assms(1)]
  have "known s i \<and> pixels s i x = m i x" if "l \<le> i" "i < l + 1" "x < WIDTH" "\<not> (a \<le> x \<and> x < c)" for i x
    using that c(3)[of x] by (simp add: le_less_Suc_eq)
  then show ?thesis using c(1,2,4) assms(2,3) by (auto simp: band_ok_def fits_def BAND_def)
qed

lemma band_extend:
  assumes "band_ok m s ((b + h) # ls) (b, h, x0, x1)" "changed s (m (b + h)) (b + h) = Some (a, c)" "b + h < LINES"
    "h < BAND" "b + h \<notin> set ls"
  shows "band_ok m s ls (b, h + 1, min a x0, max c x1)"
proof -
  note c = changed_some[where m = m and l = "b + h", OF assms(2)]
  have b: "fits b h x0 (x1 - x0)" "x0 < x1" "\<not> synced m s b" "{b..<b + h} \<inter> set ls = {}"
    "\<And>i x. b \<le> i \<Longrightarrow> i < b + h \<Longrightarrow> x < WIDTH \<Longrightarrow> \<not> (x0 \<le> x \<and> x < x1) \<Longrightarrow> known s i \<and> pixels s i x = m i x"
    using assms(1) by (auto simp: band_ok_def)
  have "fits b (h + 1) (min a x0) (max c x1 - min a x0)"
    using b(1,2) c(1,2) assms(3,4) by (auto simp: fits_def)
  moreover have "{b..<b + (h + 1)} \<inter> set ls = {}"
    using b(4) assms(5) by (auto simp: less_Suc_eq)
  moreover have "known s i \<and> pixels s i x = m i x"
    if "b \<le> i" "i < b + (h + 1)" "x < WIDTH" "\<not> (min a x0 \<le> x \<and> x < max c x1)" for i x
  proof -
    have "\<not> (x0 \<le> x \<and> x < x1)" "\<not> (a \<le> x \<and> x < c)" using that(4) by auto
    then show ?thesis using that(1-3) b(5)[of i x] c(3)[of x] by (cases "i = b + h") simp_all
  qed
  ultimately show ?thesis using b(2,3) c(1) by (auto simp: band_ok_def)
qed

text \<open>A band that goes is in the page afterwards, and what was in it stays.\<close>

lemma flush_band_sends:
  assumes "band_ok m s ls (b, h, x0, x1)" "flush_band m budget (b, h, x0, x1) s w = Inr (s', w')"
    "decodes w p q" "agrees s q"
  shows "\<exists>q'. decodes w' p q' \<and> agrees s' q'" "synced m s' b" "synced m s l \<Longrightarrow> synced m s' l"
    "length (w_out w) < length (w_out w')" "next_line s' = next_line s"
    "length (w_out w) \<le> 1 \<and> length (w_out w') \<le> length (w_out w) + 5 + 3 * BAND * WIDTH \<or> length (w_out w') \<le> budget"
    "l \<in> set ls \<Longrightarrow> changed s' (m l) l = changed s (m l) l"
proof -
  have f: "fits b h x0 (x1 - x0)" "x0 < x1" "{b..<b + h} \<inter> set ls = {}" "0 < h"
    "\<And>i x. b \<le> i \<Longrightarrow> i < b + h \<Longrightarrow> x < WIDTH \<Longrightarrow> \<not> (x0 \<le> x \<and> x < x1) \<Longrightarrow> known s i \<and> pixels s i x = m i x"
    using assms(1) by (auto simp: band_ok_def fits_def)
  have e: "s' = shadow_rect m b h x0 (x1 - x0) s" "w' = put_rect m b h x0 (x1 - x0) w"
    "length (w_out w') > budget \<longrightarrow> length (w_out w) \<le> 1"
    using assms(2) by (auto simp: flush_band_def Let_def split: if_splits)
  note d = put_rect_decodes[OF assms(3) f(1), of m]
  let ?q = "page_put b x0 (x1 - x0) (rect_pixels m b h x0 (x1 - x0)) q"
  have "agrees s' ?q"
    using assms(4) f(2) f(5)
    by (auto simp: agrees_def e shadow_rect_def page_put_rect[OF f(1)])
  with d(1) show "\<exists>q'. decodes w' p q' \<and> agrees s' q'" by (auto simp: e)
  have "synced m s' i" if "b \<le> i" "i < b + h" for i
    using that f(2) f(5)[of i] by (auto simp: synced_def e shadow_rect_def)
  then show "synced m s' b" using f(4) by simp
  show "synced m s l \<Longrightarrow> synced m s' l" by (auto simp: synced_def e shadow_rect_def)
  show "length (w_out w) < length (w_out w')" "next_line s' = next_line s"
    using d(2) by (simp_all add: e shadow_rect_def)
  show "length (w_out w) \<le> 1 \<and> length (w_out w') \<le> length (w_out w) + 5 + 3 * BAND * WIDTH \<or> length (w_out w') \<le> budget"
    using d(3) e(3) by (auto simp: e(2))
  assume "l \<in> set ls"
  then have "\<not> (b \<le> l \<and> l < b + h)" using f(3) by auto
  then have "known s' l = known s l" "pixels s' l = pixels s l" by (auto simp: e(1) shadow_rect_def)
  then show "changed s' (m l) l = changed s (m l) l" by (simp add: changed_def)
qed

text \<open>What a message does for the page, from any point of its making.\<close>

definition sent :: "u8 list \<Rightarrow> page \<Rightarrow> page option" where
  "sent msg p = (if msg = [] then Some p else apply_display msg p)"

lemma decodes_sent:
  assumes "decodes w p q"
  shows "sent (w_out w) p = Some q" "w_out w \<noteq> []" "length (w_out w) \<le> 1 \<Longrightarrow> q = p"
proof -
  obtain bs where bs: "w_out w = WEB_DISPLAY_TAG # bs"
    "page_rects (0x0000, 0xFFFF) (bs @ []) p = page_rects (colours w) [] q"
    using assms unfolding decodes_def by blast
  have e: "page_rects cs [] q = Some q" for cs q by (subst page_rects.simps) simp
  show "sent (w_out w) p = Some q" "w_out w \<noteq> []" using bs by (simp_all add: sent_def apply_display_def e)
  show "length (w_out w) \<le> 1 \<Longrightarrow> q = p" using bs e by simp
qed

definition MESSAGE_MAX :: "nat \<Rightarrow> nat" where
  "MESSAGE_MAX budget = max budget (6 + 3 * BAND * WIDTH)"

definition page_gets :: "frame \<Rightarrow> nat \<Rightarrow> web_display_shadow \<Rightarrow> page \<Rightarrow> u8 list \<times> web_display_shadow \<Rightarrow> bool" where
  "page_gets m budget s p = (\<lambda>(msg, s'). (\<exists>q. sent msg p = Some q \<and> agrees s' q) \<and> length msg \<le> MESSAGE_MAX budget \<and>
     next_line s' < LINES \<and> (\<forall>l. synced m s l \<longrightarrow> synced m s' l))"

lemma page_gets_trans:
  "page_gets m budget s' p r \<Longrightarrow> (\<And>l. synced m s l \<Longrightarrow> synced m s' l) \<Longrightarrow> page_gets m budget s p r"
  by (auto simp: page_gets_def)

lemma flush_then:
  fixes k :: "web_display_shadow \<Rightarrow> writer \<Rightarrow> u8 list \<times> web_display_shadow"
  assumes "band_ok m s ls b" "decodes w p q" "agrees s q" "next_line s < LINES"
    "length (w_out w) \<le> MESSAGE_MAX budget"
    and k: "\<And>s' w' q'. decodes w' p q' \<Longrightarrow> agrees s' q' \<Longrightarrow> next_line s' < LINES \<Longrightarrow>
      length (w_out w') \<le> MESSAGE_MAX budget \<Longrightarrow> 1 < length (w_out w') \<Longrightarrow>
      (\<And>l. l \<in> set ls \<Longrightarrow> changed s' (m l) l = changed s (m l) l) \<Longrightarrow>
      page_gets m budget s' p (k s' w') \<and> fst (k s' w') \<noteq> []"
  defines "r \<equiv> (case flush_band m budget b s w of Inl r \<Rightarrow> r | Inr (s', w') \<Rightarrow> k s' w')"
  shows "page_gets m budget s p r \<and> fst r \<noteq> [] \<and>
    (length (w_out w) \<le> 1 \<longrightarrow> (\<exists>l<LINES. \<not> synced m s l \<and> synced m (snd r) l))"
proof -
  obtain b' h x0 x1 where b: "b = (b', h, x0, x1)" by (metis prod.exhaust)
  have bl: "b' < LINES" "\<not> synced m s b'" using assms(1) by (auto simp: b band_ok_def fits_def)
  have one: "0 < length (w_out w)" using decodes_sent(2)[OF assms(2)] by simp
  have over: "x = (w_out w, s\<lparr>next_line := b'\<rparr>) \<and> 1 < length (w_out w)" if "flush_band m budget b s w = Inl x" for x
    using that by (auto simp: flush_band_def b Let_def split: if_splits)
  show ?thesis
  proof (cases "flush_band m budget b s w")
    case (Inl x)
    have "agrees (s\<lparr>next_line := b'\<rparr>) q" "synced m (s\<lparr>next_line := b'\<rparr>) l = synced m s l" for l
      using assms(3) by (simp_all add: agrees_def synced_def)
    then show ?thesis
      using Inl over[OF Inl] assms(5) bl(1) decodes_sent(1,2)[OF assms(2)] by (simp add: r_def page_gets_def)
  next
    case (Inr y)
    then obtain s' w' where goes: "flush_band m budget b s w = Inr (s', w')" by (cases y) auto
    note f = flush_band_sends[OF assms(1)[unfolded b] goes[unfolded b] assms(2,3)]
    obtain q' where q: "decodes w' p q'" "agrees s' q'" using f(1) by blast
    have "length (w_out w') \<le> MESSAGE_MAX budget" using f(6) by (auto simp: MESSAGE_MAX_def)
    moreover have "1 < length (w_out w')" using f(4) one by linarith
    ultimately have kr: "page_gets m budget s' p (k s' w')" "fst (k s' w') \<noteq> []"
      using k[OF q _ _ _ f(7)] f(5) assms(4) by simp_all
    have r: "r = k s' w'" by (simp add: r_def goes)
    have "synced m (snd r) b'" using kr(1) f(2) by (auto simp: page_gets_def r split_def)
    then show ?thesis using page_gets_trans[OF kr(1) f(3)] kr(2) bl by (auto simp: r)
  qed
qed

lemma encode_lines_sends:
  assumes "distinct ls" "set ls \<subseteq> {..<LINES}" "decodes w p q" "agrees s q" "next_line s < LINES"
    "length (w_out w) \<le> MESSAGE_MAX budget" "case band of None \<Rightarrow> True | Some b \<Rightarrow> band_ok m s ls b"
  defines "r \<equiv> encode_lines m budget ls band s w"
  shows "page_gets m budget s p r \<and>
    (1 < length (w_out w) \<or> band \<noteq> None \<or> (\<exists>l\<in>set ls. \<not> synced m s l) \<longleftrightarrow> fst r \<noteq> []) \<and>
    (length (w_out w) \<le> 1 \<and> (band \<noteq> None \<or> (\<exists>l\<in>set ls. \<not> synced m s l)) \<longrightarrow>
       (\<exists>l<LINES. \<not> synced m s l \<and> synced m (snd r) l))"
  using assms(1-7) unfolding r_def
proof (induction ls arbitrary: band s w q)
  case Nil
  show ?case
  proof (cases band)
    case None
    then show ?thesis
      using Nil.prems decodes_sent[OF Nil.prems(3)] by (auto simp: page_gets_def sent_def MESSAGE_MAX_def)
  next
    case (Some b)
    have "page_gets m budget s' p (if 1 < length (w_out w') then w_out w' else [], s')"
      if "decodes w' p q'" "agrees s' q'" "next_line s' < LINES" "length (w_out w') \<le> MESSAGE_MAX budget"
        "1 < length (w_out w')" for s' w' q'
      using that decodes_sent(1)[OF that(1)] by (auto simp: page_gets_def)
    note k = this
    have "band_ok m s [] b" using Nil.prems(7) by (simp add: Some)
    from flush_then[where k = "\<lambda>s' w'. (if 1 < length (w_out w') then w_out w' else [], s')", OF this Nil.prems(3-6)] k
      decodes_sent(2)
    show ?thesis unfolding Some by (simp add: Some)
  qed
next
  case (Cons l ls)
  have l: "l < LINES" "l \<notin> set ls" "distinct ls" "set ls \<subseteq> {..<LINES}" using Cons.prems(1,2) by auto
  note IH = Cons.IH[OF l(3,4)]
  define start :: "band option" where "start = map_option (\<lambda>(a, c). (l, 1, a, c)) (changed s (m l) l)"
  have sync: "changed s (m l) l = None \<longleftrightarrow> synced m s l" by (rule changed_none)
  have st: "case start of None \<Rightarrow> True | Some b \<Rightarrow> band_ok m s' ls b" if "changed s' (m l) l = changed s (m l) l" for s'
    using that band_start[where m = m and l = l and s = s' and ls = ls] l(1,2)
    by (auto simp: start_def split: option.splits)
  have sn: "start \<noteq> None \<longleftrightarrow> \<not> synced m s l" using sync by (auto simp: start_def)
  show ?case
  proof (cases band)
    case None
    have "encode_lines m budget (l # ls) band s w = encode_lines m budget ls start s w"
      by (simp add: None start_def Let_def)
    then show ?thesis using IH[OF Cons.prems(3-6) st[OF refl], unfolded sn] by (simp add: None)
  next
    case (Some q0)
    obtain b h x0 x1 where q0: "q0 = (b, h, x0, x1)" by (metis prod.exhaust)
    have bok: "band_ok m s (l # ls) (b, h, x0, x1)" using Cons.prems(7) by (simp add: Some q0)
    show ?thesis
    proof (cases "\<exists>a c. changed s (m l) l = Some (a, c) \<and> l = b + h \<and> h < BAND")
      case True
      then obtain a c where ac: "changed s (m l) l = Some (a, c)" "l = b + h" "h < BAND" by blast
      define band' where "band' = (b, h + 1, min a x0, max c x1)"
      have "band_ok m s ls band'"
        unfolding band'_def using bok ac l(1,2) by (intro band_extend) simp_all
      moreover have "encode_lines m budget (l # ls) band s w = encode_lines m budget ls (Some band') s w"
        using ac by (simp add: Some q0 Let_def band'_def)
      ultimately show ?thesis using IH[OF Cons.prems(3-6), of "Some band'"] by (simp add: Some)
    next
      case False
      define k where "k = (\<lambda>s' w'. encode_lines m budget ls start s' w')"
      have e: "encode_lines m budget (l # ls) band s w =
          (case flush_band m budget (b, h, x0, x1) s w of Inl r \<Rightarrow> r | Inr (s', w') \<Rightarrow> k s' w')"
        using False by (cases "changed s (m l) l"; cases "flush_band m budget (b, h, x0, x1) s w")
            (auto simp: Some q0 Let_def k_def start_def)
      have kk: "page_gets m budget s' p (k s' w') \<and> fst (k s' w') \<noteq> []"
        if "decodes w' p q'" "agrees s' q'" "next_line s' < LINES" "length (w_out w') \<le> MESSAGE_MAX budget"
          "1 < length (w_out w')" "\<And>i. i \<in> set (l # ls) \<Longrightarrow> changed s' (m i) i = changed s (m i) i" for s' w' q'
      proof -
        have "changed s' (m l) l = changed s (m l) l" using that(6)[of l] by simp
        from IH[OF that(1-4) st[OF this]] that(5) show ?thesis unfolding k_def by blast
      qed
      have "page_gets m budget s p (case flush_band m budget (b, h, x0, x1) s w of Inl r \<Rightarrow> r | Inr (s', w') \<Rightarrow> k s' w') \<and>
        fst (case flush_band m budget (b, h, x0, x1) s w of Inl r \<Rightarrow> r | Inr (s', w') \<Rightarrow> k s' w') \<noteq> [] \<and>
        (length (w_out w) \<le> 1 \<longrightarrow> (\<exists>l<LINES. \<not> synced m s l \<and>
          synced m (snd (case flush_band m budget (b, h, x0, x1) s w of Inl r \<Rightarrow> r | Inr (s', w') \<Rightarrow> k s' w')) l))"
        by (rule flush_then[OF bok Cons.prems(3-6)]) (rule kk)
      then show ?thesis
        unfolding e by (simp add: Some)
    qed
  qed
qed

lemma line_order:
  assumes "n < LINES"
  defines "ls \<equiv> map (\<lambda>i. (n + i) mod LINES) [0..<LINES]"
  shows "distinct ls" "set ls = {..<LINES}"
proof -
  have m: "(n + i) mod LINES = (if n + i < LINES then n + i else n + i - LINES)" if "i < LINES" for i
    using that assms(1) by (simp add: mod_if)
  have "inj_on (\<lambda>i. (n + i) mod LINES) {0..<LINES}"
    by (rule inj_onI) (auto simp: m split: if_splits)
  then show d: "distinct ls" by (simp add: ls_def distinct_map)
  have "set ls \<subseteq> {..<LINES}" by (auto simp: ls_def LINES_def)
  moreover have "card (set ls) = LINES" using distinct_card[OF d] by (simp add: ls_def)
  ultimately show "set ls = {..<LINES}" by (intro card_subset_eq) simp_all
qed

lemma encode_sends:
  fixes m :: frame and budget :: nat
  assumes "agrees s p" "next_line s < LINES"
  defines "r \<equiv> web_display_encode m budget s"
  shows "page_gets m budget s p r"
    and "fst r = [] \<longleftrightarrow> (\<forall>l<LINES. synced m s l)"
    and "fst r \<noteq> [] \<Longrightarrow> \<exists>l<LINES. \<not> synced m s l \<and> synced m (snd r) l"
proof -
  define w where "w = \<lparr>w_out = [WEB_DISPLAY_TAG], first_colour = 0x0000, second_colour = 0xFFFF\<rparr>"
  define ls where "ls = map (\<lambda>i. (next_line s + i) mod LINES) [0..<LINES]"
  have r: "r = encode_lines m budget ls None s w" by (simp add: r_def web_display_encode_def w_def ls_def)
  have sl: "set ls = {..<LINES}" using line_order(2)[OF assms(2)] by (simp only: ls_def)
  have "decodes w p p" by (auto simp: decodes_def w_def)
  moreover have "length (w_out w) \<le> MESSAGE_MAX budget" by (simp add: w_def MESSAGE_MAX_def)
  ultimately have "page_gets m budget s p r \<and>
    (1 < length (w_out w) \<or> None \<noteq> (None :: band option) \<or> (\<exists>l\<in>set ls. \<not> synced m s l) \<longleftrightarrow> fst r \<noteq> []) \<and>
    (length (w_out w) \<le> 1 \<and> (None \<noteq> (None :: band option) \<or> (\<exists>l\<in>set ls. \<not> synced m s l)) \<longrightarrow>
       (\<exists>l<LINES. \<not> synced m s l \<and> synced m (snd r) l))"
    unfolding r using assms(1,2) line_order[OF assms(2)] by (intro encode_lines_sends) (simp_all add: ls_def)
  then show "page_gets m budget s p r" "fst r = [] \<longleftrightarrow> (\<forall>l<LINES. synced m s l)"
    "fst r \<noteq> [] \<Longrightarrow> \<exists>l<LINES. \<not> synced m s l \<and> synced m (snd r) l"
    using sl by (auto simp: w_def)
qed

text \<open>
  Property C10: a message tells the page the truth. Where the shadow is true of the page, the page
  decodes the message to a picture of which the new shadow is true. The message is empty exactly
  when the page has the whole memory; else at least one line more is now the memory's, and none
  is lost. Its length is at most the budget or that of one rectangle of three bytes a pixel.
\<close>

theorem web_display_message:
  assumes "agrees s p" "next_line s < LINES" "web_display_encode m budget s = (msg, s')"
  shows "(\<exists>q. sent msg p = Some q \<and> agrees s' q) \<and> next_line s' < LINES \<and>
    (msg = [] \<longleftrightarrow> (\<forall>l<LINES. synced m s l)) \<and>
    (msg \<noteq> [] \<longrightarrow> (\<exists>l<LINES. \<not> synced m s l \<and> synced m s' l)) \<and>
    (\<forall>l. synced m s l \<longrightarrow> synced m s' l) \<and> length msg \<le> max budget (6 + 3 * BAND * WIDTH)"
  using encode_sends[OF assms(1,2), of m budget] unfolding assms(3)
  by (auto simp: page_gets_def MESSAGE_MAX_def)

text \<open>A picture of stripes, for concrete instances.\<close>

definition stripes :: frame where
  "stripes l x = (if x mod 8 < 4 then of_nat l else 0xF800)"

theorem web_display_message_witness:
  "\<exists>q. sent (fst (web_display_encode stripes 8192 web_display_shadow_forget)) (\<lambda>_. 0) = Some q"
proof -
  obtain msg s' where e: "web_display_encode stripes 8192 web_display_shadow_forget = (msg, s')"
    by (rule prod.exhaust)
  have "agrees web_display_shadow_forget (\<lambda>_. 0)" "next_line web_display_shadow_forget < LINES"
    by (simp_all add: agrees_def web_display_shadow_forget_def LINES_def)
  from web_display_message[OF this e] show ?thesis by (auto simp: e)
qed

section \<open>A page that catches up\<close>

fun send_messages :: "frame \<Rightarrow> nat list \<Rightarrow> web_display_shadow \<times> page \<Rightarrow> (web_display_shadow \<times> page) option" where
  "send_messages m [] x = Some x"
| "send_messages m (budget # budgets) (s, p) =
     (let (msg, s') = web_display_encode m budget s
      in case sent msg p of None \<Rightarrow> None | Some q \<Rightarrow> send_messages m budgets (s', q))"

definition behind :: "frame \<Rightarrow> web_display_shadow \<Rightarrow> nat" where
  "behind m s = card {l. l < LINES \<and> \<not> synced m s l}"

lemma behind_less:
  assumes "\<exists>l<LINES. \<not> synced m s l \<and> synced m s' l" "\<And>l. synced m s l \<Longrightarrow> synced m s' l"
  shows "behind m s' < behind m s"
  unfolding behind_def using assms by (intro psubset_card_mono) auto

lemma send_messages_sync:
  "agrees s p \<Longrightarrow> next_line s < LINES \<Longrightarrow> behind m s \<le> length budgets \<Longrightarrow>
   \<exists>s' q. send_messages m budgets (s, p) = Some (s', q) \<and> agrees s' q \<and> next_line s' < LINES \<and> behind m s' = 0"
proof (induction budgets arbitrary: s p)
  case (Cons budget budgets)
  obtain msg s' where e: "web_display_encode m budget s = (msg, s')" by (rule prod.exhaust)
  note w = encode_sends[OF Cons.prems(1,2), of m budget, unfolded e fst_conv snd_conv]
  obtain q where q: "sent msg p = Some q" "agrees s' q" "next_line s' < LINES" "\<And>l. synced m s l \<Longrightarrow> synced m s' l"
    using w(1) by (auto simp: page_gets_def)
  have "behind m s' \<le> length budgets"
  proof (cases "msg = []")
    case True
    then have "{l. l < LINES \<and> \<not> synced m s' l} = {}" using w(2) q(4) by blast
    then show ?thesis by (simp add: behind_def del: Collect_empty_eq)
  next
    case False
    then have "behind m s' < behind m s" using w(3) q(4) by (intro behind_less) auto
    then show ?thesis using Cons.prems(3) by simp
  qed
  from Cons.IH[OF q(2,3) this] show ?case by (simp add: e q(1))
qed simp

text \<open>
  Property C30: a page that has just connected, with anything on its canvas, has the display's
  memory after at most 320 messages of whatever budgets, if the memory stays as it is; the next
  message is then empty.
\<close>

theorem web_display_catches_up:
  assumes "LINES \<le> length budgets"
  shows "\<exists>s q. send_messages m budgets (web_display_shadow_forget, p) = Some (s, q) \<and>
    (\<forall>l<LINES. \<forall>x<WIDTH. q (l * WIDTH + x) = m l x) \<and> fst (web_display_encode m budget s) = []"
proof -
  have "agrees web_display_shadow_forget p" "next_line web_display_shadow_forget < LINES"
    by (simp_all add: agrees_def web_display_shadow_forget_def LINES_def)
  moreover have "behind m web_display_shadow_forget \<le> length budgets"
  proof -
    have "{l. l < LINES \<and> \<not> synced m web_display_shadow_forget l} \<subseteq> {..<LINES}" by auto
    from card_mono[OF _ this] show ?thesis using assms by (simp add: behind_def)
  qed
  ultimately obtain s q where s: "send_messages m budgets (web_display_shadow_forget, p) = Some (s, q)"
    "agrees s q" "next_line s < LINES" "behind m s = 0"
    using send_messages_sync by blast
  have sy: "synced m s l" if "l < LINES" for l using s(4) that by (auto simp: behind_def)
  then have "fst (web_display_encode m budget s) = []" using encode_sends(2)[OF s(2,3)] by blast
  then show ?thesis using s(1,2) sy by (auto simp: agrees_def synced_def)
qed

theorem web_display_catches_up_witness:
  "\<exists>s q. send_messages stripes (replicate 320 8192) (web_display_shadow_forget, \<lambda>_. 0) = Some (s, q) \<and>
     q (3 * 240 + 9) = 3"
proof -
  have "LINES \<le> length (replicate 320 (8192 :: nat))" by (simp add: LINES_def)
  from web_display_catches_up[OF this, where m = stripes and p = "\<lambda>_. 0"] obtain s q where
    s: "send_messages stripes (replicate 320 8192) (web_display_shadow_forget, \<lambda>_. 0) = Some (s, q)"
    "\<forall>l<LINES. \<forall>x<WIDTH. q (l * WIDTH + x) = stripes l x" by blast
  have "q (3 * WIDTH + 9) = stripes 3 9" using s(2)[rule_format, of 3 9] by (simp add: LINES_def WIDTH_def)
  then have "q (3 * 240 + 9) = 3" by (simp add: WIDTH_def stripes_def)
  then show ?thesis using s(1) by blast
qed

section \<open>What a message can take\<close>

text \<open>
  Pixels that cycle through three colours cost three bytes each: every pixel's successor is still
  remembered when it is looked at, so none goes as itself, and forgotten when its turn comes.
\<close>

fun cycle3 :: "nat \<Rightarrow> u16 \<Rightarrow> u16 \<Rightarrow> u16 \<Rightarrow> u16 list" where
  "cycle3 0 a b c = []"
| "cycle3 (Suc n) a b c = a # cycle3 n b c a"

lemma cycle3_nth: "length (cycle3 n a b c) = n"
  "i < n \<Longrightarrow> cycle3 n a b c ! i = (if i mod 3 = 0 then a else if i mod 3 = 1 then b else c)"
proof -
  show "length (cycle3 n a b c) = n" by (induction n arbitrary: a b c) simp_all
  show "i < n \<Longrightarrow> cycle3 n a b c ! i = (if i mod 3 = 0 then a else if i mod 3 = 1 then b else c)"
  proof (induction n arbitrary: i a b c)
    case (Suc n)
    show ?case
    proof (cases i)
      case (Suc j)
      have "j mod 3 = 0 \<and> Suc j mod 3 = 1 \<or> j mod 3 = 1 \<and> Suc j mod 3 = 2 \<or> j mod 3 = 2 \<and> Suc j mod 3 = 0" by presburger
      then show ?thesis using Suc.IH[of j b c a] Suc.prems Suc by auto
    qed simp
  qed simp
qed

lemma put_cycle3:
  "drop i px = cycle3 k a b c \<Longrightarrow> colours w = (c, b) \<Longrightarrow> a \<noteq> b \<Longrightarrow> b \<noteq> c \<Longrightarrow> a \<noteq> c \<Longrightarrow>
   length (w_out (put_pixels_from px i 0 w)) = length (w_out w) + 3 * k"
proof (induction k arbitrary: i a b c w)
  case 0
  then show ?case by (subst put_pixels_from.simps) (simp add: put_literal_def)
next
  case (Suc k)
  have d: "drop i px = a # cycle3 k b c a" using Suc.prems(1) by simp
  then have i: "i < length px" "px ! i = a" "drop (i + 1) px = cycle3 k b c a"
    using Cons_nth_drop_Suc[of i px] by (cases "i < length px"; simp)+
  have nx: "i + 1 < length px \<Longrightarrow> px ! (i + 1) = b"
    using i(3) Cons_nth_drop_Suc[of "i + 1" px] by (cases k) auto
  have "takeWhile (\<lambda>p. p = a) (cycle3 k b c a) = []" using Suc.prems(3) by (cases k) auto
  then have run: "run_at px i = 1" by (simp add: run_at_def d i(2))
  have nl: "\<not> (i + 1 < length px \<and> lone w px (i + 1))" using nx Suc.prems(2) by (auto simp: lone_def)
  define v where "v = put_colour_run a 1 w"
  have v: "length (w_out v) = length (w_out w) + 3" "colours v = (a, c)"
    using Suc.prems(2,4,5) Suc.prems(3) by (auto simp: v_def put_colour_run_def put_run_out run_bytes_def put_u16_def)
  have "put_pixels_from px i 0 w = put_pixels_from px (i + 1) 0 v"
    using i nl by (subst put_pixels_from.simps) (auto simp: run v_def put_literal_def Let_def)
  then show ?case using Suc.IH[OF i(3) v(2)] Suc.prems(3-5) v(1) by simp
qed

text \<open>
  A band of such lines takes more than \<open>WEB_DISPLAY_RECT_MAX\<close>, which is the room a caller leaves
  after the budget: the rectangle is put before its length is looked at, and its last bytes then
  go past the buffer.
\<close>

definition three_colours :: frame where
  "three_colours l x = (if x mod 3 = 0 then 0xF800 else if x mod 3 = 1 then 0xFFFF else 0)"

lemma rect_over_max:
  assumes "colours w = (0x0000, 0xFFFF)" "length (w_out w) \<le> budget" "budget < length (w_out w) + 3837"
  shows "budget + WEB_DISPLAY_RECT_MAX < length (w_out (put_rect three_colours l BAND 0 WIDTH w))"
proof -
  define px where "px = rect_pixels three_colours l BAND 0 WIDTH"
  have "px = cycle3 (BAND * WIDTH) 0xF800 0xFFFF 0"
  proof (rule nth_equalityI)
    fix i assume "i < length px"
    then have i: "i < BAND * WIDTH" by (simp add: px_def)
    have "i mod WIDTH mod 3 = i mod 3" by (simp add: WIDTH_def mod_mod_cancel)
    then show "px ! i = cycle3 (BAND * WIDTH) 0xF800 0xFFFF 0 ! i"
      using i by (simp add: px_def rect_nth three_colours_def cycle3_nth(2))
  qed (simp add: px_def cycle3_nth)
  moreover define v where "v = put8 (word_of_nat (BAND - 1)) (put8 (word_of_nat (WIDTH - 1)) (put8 (word_of_nat 0)
    (put_u16 (word_of_nat l) w)))"
  moreover from this have "colours v = (0, 0xFFFF)" "length (w_out v) = length (w_out w) + 5"
    using assms(1) by (simp_all add: put8_def put_u16_def)
  ultimately have "length (w_out (put_pixels_from px 0 0 v)) = length (w_out w) + 5 + 3 * (BAND * WIDTH)"
    using put_cycle3[of 0 px "BAND * WIDTH" "0xF800" "0xFFFF" 0 v] by simp
  then show ?thesis
    using assms(3) by (simp add: put_rect_def px_def v_def put_pixels_def WEB_DISPLAY_RECT_MAX_def BAND_def WIDTH_def)
qed

end
