(* ===== verification/Console.thy ===== *)
theory Console imports C_Text "HOL-Library.Monad_Syntax"
begin

text \<open>
  The screen of the plain machine's terminal (\<open>src/emulator/console.c\<close>): the cell grid, the
  escape sequences, scrolling and the margins. What C leaves undefined, an access outside the
  grid or an \<open>int\<close> that overflows, is None. The highlighting of repaints (\<open>--show-repaints\<close>)
  is off.
\<close>

section \<open>C's integers and memory\<close>

definition int32 :: "int \<Rightarrow> int option" where
  "int32 v = (if - (2 ^ 31) \<le> v \<and> v < 2 ^ 31 then Some v else None)"

definition memset_at :: "int \<Rightarrow> 'a \<Rightarrow> int \<Rightarrow> 'a list \<Rightarrow> 'a list option" where
  "memset_at at v n xs =
     (if 0 \<le> at \<and> 0 \<le> n \<and> at + n \<le> int (length xs)
      then Some (take (nat at) xs @ replicate (nat n) v @ drop (nat (at + n)) xs) else None)"

definition memmove_at :: "int \<Rightarrow> int \<Rightarrow> int \<Rightarrow> 'a list \<Rightarrow> 'a list option" where
  "memmove_at dst src n xs =
     (if 0 \<le> dst \<and> 0 \<le> src \<and> 0 \<le> n \<and> dst + n \<le> int (length xs) \<and> src + n \<le> int (length xs)
      then Some (take (nat dst) xs @ take (nat n) (drop (nat src) xs) @ drop (nat (dst + n)) xs) else None)"

section \<open>State\<close>

text \<open>There are no cells (the pointer is NULL) exactly while there are no rows.\<close>

record console =
  screen_rows :: int
  screen_cols :: int
  screen_cells :: "u8 list"
  screen_attr :: "u8 list"
  cursor_row :: int
  cursor_col :: int
  parser_state :: nat
  csi_params :: "int list"
  csi_param_value :: int
  csi_private :: bool
  current_attr :: u8
  scroll_top :: int
  scroll_bot :: int
  inject_buf :: "u8 list"

definition console_init :: console where
  "console_init = \<lparr>screen_rows = 0, screen_cols = 0, screen_cells = [], screen_attr = [], cursor_row = 0,
     cursor_col = 0, parser_state = 0, csi_params = [], csi_param_value = - 1, csi_private = False,
     current_attr = 0, scroll_top = 0, scroll_bot = - 1, inject_buf = []\<rparr>"

definition no_screen :: "console \<Rightarrow> bool" where
  "no_screen t \<longleftrightarrow> screen_rows t \<le> 0 \<or> screen_cols t \<le> 0"

text \<open>The last row of the scrolling region.\<close>

definition ebot :: "console \<Rightarrow> int" where
  "ebot t = (if 0 \<le> scroll_bot t \<and> scroll_bot t < screen_rows t then scroll_bot t else screen_rows t - 1)"

section \<open>The grid\<close>

definition blank_cells :: "int \<Rightarrow> int \<Rightarrow> console \<Rightarrow> console option" where
  "blank_cells at n t = do { cells \<leftarrow> memset_at at 32 n (screen_cells t); attr \<leftarrow> memset_at at 0 n (screen_attr t);
     Some (t\<lparr>screen_cells := cells, screen_attr := attr\<rparr>) }"

definition move_span :: "int \<Rightarrow> int \<Rightarrow> int \<Rightarrow> console \<Rightarrow> console option" where
  "move_span dst src n t = do { cells \<leftarrow> memmove_at dst src n (screen_cells t);
     attr \<leftarrow> memmove_at dst src n (screen_attr t); Some (t\<lparr>screen_cells := cells, screen_attr := attr\<rparr>) }"

text \<open>Where a row starts: \<open>r * screen_cols\<close>, a product of two \<open>int\<close>s.\<close>

definition row_start :: "int \<Rightarrow> console \<Rightarrow> int option" where
  "row_start r t = int32 (r * screen_cols t)"

text \<open>A row at a time, as the loops do; those of the regions multiply with a \<open>size_t\<close>.\<close>

fun blank_rows :: "int list \<Rightarrow> console \<Rightarrow> console option" where
  "blank_rows [] t = Some t"
| "blank_rows (r # rs) t = do { i \<leftarrow> row_start r t; t \<leftarrow> blank_cells i (screen_cols t) t; blank_rows rs t }"

fun blank_region :: "int list \<Rightarrow> console \<Rightarrow> console option" where
  "blank_region [] t = Some t"
| "blank_region (r # rs) t = do { t \<leftarrow> blank_cells (r * screen_cols t) (screen_cols t) t; blank_region rs t }"

definition blank_from_cursor :: "console \<Rightarrow> console option" where
  "blank_from_cursor t =
     (let start = max 0 (cursor_col t) in
      if start < screen_cols t
      then do { i \<leftarrow> row_start (cursor_row t) t; blank_cells (i + start) (screen_cols t - start) t } else Some t)"

definition blank_to_cursor :: "console \<Rightarrow> console option" where
  "blank_to_cursor t = do { e \<leftarrow> int32 (cursor_col t + 1); i \<leftarrow> row_start (cursor_row t) t;
     blank_cells i (min e (screen_cols t)) t }"

definition console_clear_line :: "int \<Rightarrow> console \<Rightarrow> console option" where
  "console_clear_line mode t =
     (if no_screen t then Some t
      else if mode = 1 then blank_to_cursor t
      else if mode = 2 then do { i \<leftarrow> row_start (cursor_row t) t; blank_cells i (screen_cols t) t }
      else blank_from_cursor t)"

definition console_clear_screen :: "int \<Rightarrow> console \<Rightarrow> console option" where
  "console_clear_screen mode t =
     (if no_screen t then Some t
      else if mode = 1 then do { t \<leftarrow> blank_rows [0..cursor_row t - 1] t; blank_to_cursor t }
      else if mode = 2 \<or> mode = 3 then blank_cells 0 (screen_rows t * screen_cols t) t
      else do { t \<leftarrow> blank_from_cursor t; blank_rows [cursor_row t + 1..screen_rows t - 1] t })"

definition console_scroll_region_up :: "int \<Rightarrow> int \<Rightarrow> int \<Rightarrow> console \<Rightarrow> console option" where
  "console_scroll_region_up top_row bot_row lines t =
     (let cols = screen_cols t; region = bot_row - top_row + 1 in
      if no_screen t \<or> lines \<le> 0 \<or> top_row > bot_row then Some t
      else if lines \<ge> region then blank_region [top_row..bot_row] t
      else do { t \<leftarrow> move_span (top_row * cols) ((top_row + lines) * cols) ((region - lines) * cols) t;
                blank_cells ((bot_row - lines + 1) * cols) (lines * cols) t })"

definition console_scroll_region_down :: "int \<Rightarrow> int \<Rightarrow> int \<Rightarrow> console \<Rightarrow> console option" where
  "console_scroll_region_down top_row bot_row lines t =
     (let cols = screen_cols t; region = bot_row - top_row + 1 in
      if no_screen t \<or> lines \<le> 0 \<or> top_row > bot_row then Some t
      else if lines \<ge> region then blank_region [top_row..bot_row] t
      else do { t \<leftarrow> move_span ((top_row + lines) * cols) (top_row * cols) ((region - lines) * cols) t;
                blank_cells (top_row * cols) (lines * cols) t })"

text \<open>The cells of the cursor's row from the cursor on, moved by \<open>n\<close>.\<close>

definition shift_row_cells :: "int \<Rightarrow> bool \<Rightarrow> console \<Rightarrow> console option" where
  "shift_row_cells n ins t =
     (let line = cursor_row t * screen_cols t; col = cursor_col t; cols = screen_cols t; keep = cols - col - n in
      if ins
      then do { t \<leftarrow> move_span (line + col + n) (line + col) keep t; blank_cells (line + col) n t }
      else do { t \<leftarrow> move_span (line + col) (line + col + n) keep t; blank_cells (line + (cols - n)) n t })"

definition console_shift_chars :: "int \<Rightarrow> bool \<Rightarrow> console \<Rightarrow> console option" where
  "console_shift_chars n ins t =
     (if screen_rows t \<le> 0 \<or> cursor_row t < 0 \<or> cursor_row t \<ge> screen_rows t \<or>
         cursor_col t < 0 \<or> cursor_col t \<ge> screen_cols t then Some t
      else shift_row_cells (min (max 1 n) (screen_cols t - cursor_col t)) ins t)"

section \<open>Characters\<close>

text \<open>The cursor down a row, scrolling at the bottom margin.\<close>

definition row_down :: "console \<Rightarrow> console option" where
  "row_down t =
     do {
       row \<leftarrow> int32 (cursor_row t + 1);
       if row > ebot t
       then map_option (\<lambda>u. u\<lparr>cursor_row := ebot t\<rparr>)
         (console_scroll_region_up (scroll_top t) (ebot t) 1 (t\<lparr>cursor_row := row\<rparr>))
       else Some (t\<lparr>cursor_row := (if row \<ge> screen_rows t then screen_rows t - 1 else row)\<rparr>) }"

definition wrap_at_edge :: "console \<Rightarrow> console option" where
  "wrap_at_edge t = (if cursor_col t \<ge> screen_cols t then row_down (t\<lparr>cursor_col := 0\<rparr>) else Some t)"

definition put_here :: "u8 \<Rightarrow> console \<Rightarrow> console option" where
  "put_here ch t =
     do { start \<leftarrow> row_start (cursor_row t) t; i \<leftarrow> int32 (start + cursor_col t);
          cells \<leftarrow> memset_at i ch 1 (screen_cells t); attr \<leftarrow> memset_at i (current_attr t) 1 (screen_attr t);
          Some (t\<lparr>screen_cells := cells, screen_attr := attr\<rparr>) }"

definition console_put_char :: "u8 \<Rightarrow> console \<Rightarrow> console option" where
  "console_put_char ch t =
     (if no_screen t then Some t
      else do {
        let t = t\<lparr>cursor_row := max 0 (cursor_row t)\<rparr>;
        t \<leftarrow> (if cursor_row t \<ge> screen_rows t
              then map_option (\<lambda>u. u\<lparr>cursor_row := screen_rows t - 1\<rparr>)
                (console_scroll_region_up (scroll_top t) (ebot t) 1 t)
              else Some t);
        t \<leftarrow> wrap_at_edge (t\<lparr>cursor_col := max 0 (cursor_col t)\<rparr>);
        t \<leftarrow> put_here ch t;
        col \<leftarrow> int32 (cursor_col t + 1);
        wrap_at_edge (t\<lparr>cursor_col := col\<rparr>) })"

section \<open>Sequences\<close>

definition INJECT_SIZE :: nat where "INJECT_SIZE = 32"

definition serial_inject_response :: "u8 list \<Rightarrow> console \<Rightarrow> console" where
  "serial_inject_response bytes t =
     t\<lparr>inject_buf := inject_buf t @ take (INJECT_SIZE - length (inject_buf t)) bytes\<rparr>"

definition cursor_to :: "int option \<Rightarrow> int option \<Rightarrow> console \<Rightarrow> console option" where
  "cursor_to r c t = do { r \<leftarrow> r; c \<leftarrow> c; Some (t\<lparr>cursor_row := r, cursor_col := c\<rparr>) }"

definition or_one :: "int \<Rightarrow> int" where
  "or_one n = (if n \<noteq> 0 then n else 1)"

definition sgr :: "int \<Rightarrow> u8 \<Rightarrow> u8" where
  "sgr p a = (if p = 0 then 0 else if p = 7 then 1 else if p = 27 then 0 else a)"

text \<open>\<open>ps\<close> are the parameters, at least one; \<open>q\<close> is the second or 0.\<close>

definition csi_action :: "u8 \<Rightarrow> int list \<Rightarrow> console \<Rightarrow> console option" where
  "csi_action final ps t =
     (let p = hd ps; q = (if length ps > 1 then ps ! 1 else 0); n = or_one p; row = cursor_row t; col = cursor_col t;
          rows = screen_rows t; cols = screen_cols t in
      if final = 0x41 then cursor_to (map_option (max 0) (int32 (row - n))) (Some col) t
      else if final = 0x42 then cursor_to (map_option (min (rows - 1)) (int32 (row + n))) (Some col) t
      else if final = 0x43 then cursor_to (Some row) (map_option (min (cols - 1)) (int32 (col + n))) t
      else if final = 0x44 then cursor_to (Some row) (map_option (max 0) (int32 (col - n))) t
      else if final = 0x45 then cursor_to (map_option (min (rows - 1)) (int32 (row + n))) (Some 0) t
      else if final = 0x46 then cursor_to (map_option (max 0) (int32 (row - n))) (Some 0) t
      else if final = 0x47 then cursor_to (Some row) (Some (min (cols - 1) (max 0 (n - 1)))) t
      else if final = 0x48 \<or> final = 0x66 then
        cursor_to (Some (min (rows - 1) (max 0 (n - 1)))) (Some (min (cols - 1) (max 0 (or_one q - 1)))) t
      else if final = 0x4A then console_clear_screen p t
      else if final = 0x4B then console_clear_line p t
      else if final = 0x6E then
        (if p = 6
         then do { r \<leftarrow> int32 (row + 1); c \<leftarrow> int32 (col + 1);
                   Some (serial_inject_response ([0x1B, 0x5B] @ dec_int r @ [0x3B] @ dec_int c @ [0x52]) t) }
         else Some t)
      else if final = 0x72 then
        (let top_row = n - 1; bot_row = min (rows - 1) ((if q \<noteq> 0 then q else rows) - 1) in
         Some (if top_row < bot_row then t\<lparr>scroll_top := top_row, scroll_bot := bot_row, cursor_row := 0, cursor_col := 0\<rparr> else t))
      else if final = 0x53 then console_scroll_region_up (scroll_top t) (ebot t) n t
      else if final = 0x54 then console_scroll_region_down (scroll_top t) (ebot t) n t
      else if final = 0x4C \<or> final = 0x4D then
        (if row < scroll_top t \<or> row > ebot t then Some t
         else map_option (\<lambda>u. u\<lparr>cursor_col := 0\<rparr>)
           (if final = 0x4C then console_scroll_region_down row (ebot t) n t
            else console_scroll_region_up row (ebot t) n t))
      else if final = 0x40 then console_shift_chars p True t
      else if final = 0x50 then console_shift_chars p False t
      else if final = 0x6D then Some (t\<lparr>current_attr := fold sgr ps (current_attr t)\<rparr>)
      else Some t)"

definition console_handle_csi :: "u8 \<Rightarrow> console \<Rightarrow> console option" where
  "console_handle_csi final t =
     (if csi_private t then Some (t\<lparr>csi_private := False\<rparr>)
      else csi_action final (if csi_params t = [] then [0] else csi_params t) t)"

definition add_param :: "console \<Rightarrow> console" where
  "add_param t =
     (if length (csi_params t) < 8
      then t\<lparr>csi_params := csi_params t @ [if csi_param_value t < 0 then 0 else csi_param_value t]\<rparr> else t)"

definition handle_ground :: "u8 \<Rightarrow> console \<Rightarrow> console option" where
  "handle_ground ch t =
     (if ch = 0x1B then Some (t\<lparr>parser_state := 1\<rparr>)
      else if ch = 0x0D then Some (t\<lparr>cursor_col := 0\<rparr>)
      else if ch = 0x0A then row_down t
      else if ch = 0x08 then map_option (\<lambda>col. t\<lparr>cursor_col := max 0 col\<rparr>) (int32 (cursor_col t - 1))
      else if ch = 0x09 then
        map_option (\<lambda>col. t\<lparr>cursor_col := min (screen_cols t - 1) (col div 8 * 8)\<rparr>) (int32 (cursor_col t + 8))
      else if ch \<ge> 0x20 then console_put_char ch t
      else Some t)"

definition handle_param :: "u8 \<Rightarrow> console \<Rightarrow> console option" where
  "handle_param ch t =
     (if ch = 0x3F \<and> csi_params t = [] \<and> csi_param_value t < 0 then Some (t\<lparr>csi_private := True\<rparr>)
      else if 0x30 \<le> ch \<and> ch \<le> 0x39
      then map_option (\<lambda>v. t\<lparr>csi_param_value := v\<rparr>)
        (int32 (max 0 (csi_param_value t) * 10 + (uint ch - 0x30)))
      else if ch = 0x3B then Some ((add_param t)\<lparr>csi_param_value := - 1\<rparr>)
      else map_option (\<lambda>u. u\<lparr>parser_state := 0\<rparr>) (console_handle_csi ch (add_param t)))"

definition console_handle_byte :: "u8 \<Rightarrow> console \<Rightarrow> console option" where
  "console_handle_byte ch t =
     (if parser_state t = 0 then handle_ground ch t
      else if parser_state t = 1 then
        Some (if ch = 0x5B then t\<lparr>parser_state := 2, csi_params := [], csi_param_value := - 1\<rparr>
              else t\<lparr>parser_state := 0\<rparr>)
      else if parser_state t = 2 then handle_param ch t
      else Some t)"

fun console_bytes :: "u8 list \<Rightarrow> console \<Rightarrow> console option" where
  "console_bytes [] t = Some t"
| "console_bytes (ch # chs) t = do { t \<leftarrow> console_handle_byte ch t; console_bytes chs t }"

section \<open>A new size\<close>

text \<open>The rows that both sizes have are copied, one by one; memory is there.\<close>

fun copy_rows :: "int list \<Rightarrow> int \<Rightarrow> int \<Rightarrow> int \<Rightarrow> 'a list \<Rightarrow> 'a list \<Rightarrow> 'a list option" where
  "copy_rows [] n cols from_cols from to = Some to"
| "copy_rows (r # rs) n cols from_cols from to =
     do {
       dst \<leftarrow> int32 (r * cols);
       src \<leftarrow> int32 (r * from_cols);
       if 0 \<le> dst \<and> 0 \<le> src \<and> 0 \<le> n \<and> src + n \<le> int (length from) \<and> dst + n \<le> int (length to)
       then copy_rows rs n cols from_cols from
         (take (nat dst) to @ take (nat n) (drop (nat src) from) @ drop (nat (dst + n)) to)
       else None }"

definition console_resize :: "int \<Rightarrow> int \<Rightarrow> console \<Rightarrow> console option" where
  "console_resize rows cols t =
     (if rows \<le> 0 \<or> cols \<le> 0 then Some t
      else if rows = screen_rows t \<and> cols = screen_cols t then Some t
      else do {
        let rs = [0..min rows (screen_rows t) - 1];
        let n = min cols (screen_cols t);
        cells \<leftarrow> copy_rows rs n cols (screen_cols t) (screen_cells t) (replicate (nat (rows * cols)) 32);
        attr \<leftarrow> copy_rows rs n cols (screen_cols t) (screen_attr t) (replicate (nat (rows * cols)) 0);
        Some (t\<lparr>screen_cells := cells, screen_attr := attr, screen_rows := rows, screen_cols := cols,
                scroll_top := 0, scroll_bot := rows - 1, cursor_row := max 0 (min (rows - 1) (cursor_row t)),
                cursor_col := max 0 (min (cols - 1) (cursor_col t))\<rparr>) })"

end
