(* ===== verification/Console_Sound.thy ===== *)
theory Console_Sound imports Console
begin

text \<open>
  The terminal is memory safe: as long as the numbers of the escape sequences stay below ten
  digits, no byte stream makes it leave its grid or overflow an \<open>int\<close>.
\<close>

section \<open>The grid\<close>

text \<open>An operation changed cells only.\<close>

definition cells_only :: "console \<Rightarrow> console \<Rightarrow> bool" where
  "cells_only t u \<longleftrightarrow> u\<lparr>screen_cells := [], screen_attr := []\<rparr> = t\<lparr>screen_cells := [], screen_attr := []\<rparr> \<and>
     length (screen_cells u) = length (screen_cells t) \<and> length (screen_attr u) = length (screen_attr t)"

definition keeps_grid :: "(console \<Rightarrow> console option) \<Rightarrow> console \<Rightarrow> bool" where
  "keeps_grid f t \<longleftrightarrow> (\<exists>u. f t = Some u \<and> cells_only t u)"

definition grid_ok :: "console \<Rightarrow> bool" where
  "grid_ok t \<longleftrightarrow> 0 < screen_rows t \<and> screen_rows t < 2 ^ 30 \<and> 0 < screen_cols t \<and> screen_cols t < 2 ^ 30 \<and>
     screen_rows t * screen_cols t < 2 ^ 31 \<and> int (length (screen_cells t)) = screen_rows t * screen_cols t \<and>
     int (length (screen_attr t)) = screen_rows t * screen_cols t"

lemma cells_only_refl [simp]: "cells_only t t"
  by (simp add: cells_only_def)

lemma cells_only_trans: "cells_only t u \<Longrightarrow> cells_only u v \<Longrightarrow> cells_only t v"
  unfolding cells_only_def by simp

lemma cells_only_fields:
  assumes "cells_only t u"
  shows "screen_rows u = screen_rows t" "screen_cols u = screen_cols t" "cursor_row u = cursor_row t"
    "cursor_col u = cursor_col t" "parser_state u = parser_state t" "csi_params u = csi_params t"
    "csi_param_value u = csi_param_value t" "csi_private u = csi_private t" "current_attr u = current_attr t"
    "scroll_top u = scroll_top t" "scroll_bot u = scroll_bot t" "inject_buf u = inject_buf t"
    "grid_ok t \<Longrightarrow> grid_ok u" "ebot u = ebot t" "no_screen u = no_screen t"
  using assms by (cases t; cases u; simp add: cells_only_def grid_ok_def ebot_def no_screen_def)+

lemma keeps_grid_none: "keeps_grid Some t"
  by (simp add: keeps_grid_def)

lemma keeps_grid_then:
  assumes "keeps_grid f t" "\<And>u. cells_only t u \<Longrightarrow> keeps_grid g u"
  shows "keeps_grid (\<lambda>t. f t \<bind> g) t"
proof -
  obtain u where u: "f t = Some u" "cells_only t u" using assms(1) by (auto simp: keeps_grid_def)
  obtain v where "g u = Some v" "cells_only u v" using assms(2)[OF u(2)] by (auto simp: keeps_grid_def)
  then show ?thesis using u by (auto simp: keeps_grid_def intro: cells_only_trans)
qed

lemma length_memset: "memset_at at v n xs = Some ys \<Longrightarrow> length ys = length xs"
  by (auto simp: memset_at_def split: if_splits)

lemma length_memmove: "memmove_at dst src n xs = Some ys \<Longrightarrow> length ys = length xs"
  by (auto simp: memmove_at_def split: if_splits)

lemma blank_cells_in:
  assumes "grid_ok t" "0 \<le> at" "0 \<le> n" "at + n \<le> screen_rows t * screen_cols t"
  shows "keeps_grid (blank_cells at n) t"
proof -
  obtain c a where e: "memset_at at 32 n (screen_cells t) = Some c" "memset_at at 0 n (screen_attr t) = Some a"
    using assms by (auto simp: memset_at_def grid_ok_def)
  then show ?thesis using length_memset by (auto simp: keeps_grid_def blank_cells_def cells_only_def)
qed

lemma move_span_in:
  assumes "grid_ok t" "0 \<le> dst" "0 \<le> src" "0 \<le> n" "dst + n \<le> screen_rows t * screen_cols t"
    "src + n \<le> screen_rows t * screen_cols t"
  shows "keeps_grid (move_span dst src n) t"
proof -
  obtain c a where e: "memmove_at dst src n (screen_cells t) = Some c" "memmove_at dst src n (screen_attr t) = Some a"
    using assms by (auto simp: memmove_at_def grid_ok_def)
  then show ?thesis using length_memmove by (auto simp: keeps_grid_def move_span_def cells_only_def)
qed

lemma row_in:
  fixes r rows cols :: int
  assumes "0 \<le> r" "r < rows" "0 \<le> cols"
  shows "0 \<le> r * cols" "r * cols + cols \<le> rows * cols"
proof -
  have "(r + 1) * cols \<le> rows * cols" using assms by (intro mult_right_mono) simp_all
  then show "r * cols + cols \<le> rows * cols" by (simp add: algebra_simps)
qed (use assms in simp)

lemma int32_in: "- (2 ^ 31) \<le> v \<Longrightarrow> v < 2 ^ 31 \<Longrightarrow> int32 v = Some v"
  by (simp add: int32_def)

lemma row_start_in:
  assumes "grid_ok t" "0 \<le> r" "r < screen_rows t"
  shows "row_start r t = Some (r * screen_cols t)"
proof -
  have "0 < screen_cols t" "screen_rows t * screen_cols t < 2 ^ 31" using assms(1) by (simp_all add: grid_ok_def)
  then show ?thesis
    using row_in[of r "screen_rows t" "screen_cols t"] assms(2,3) unfolding row_start_def by (intro int32_in) linarith+
qed

lemma blank_region_in:
  "grid_ok t \<Longrightarrow> \<forall>r\<in>set rs. 0 \<le> r \<and> r < screen_rows t \<Longrightarrow> keeps_grid (blank_region rs) t"
proof (induction rs arbitrary: t)
  case Nil
  then show ?case by (simp add: keeps_grid_def)
next
  case (Cons r rs)
  have "keeps_grid (\<lambda>t. blank_cells (r * screen_cols t0) (screen_cols t0) t \<bind> blank_region rs) t" if "t0 = t" for t0
  proof (rule keeps_grid_then)
    show "keeps_grid (blank_cells (r * screen_cols t0) (screen_cols t0)) t"
      unfolding that using Cons.prems row_in[of r "screen_rows t" "screen_cols t"]
      by (intro blank_cells_in) (auto simp: grid_ok_def)
    show "keeps_grid (blank_region rs) u" if "cells_only t u" for u
      using Cons.prems cells_only_fields[OF that] by (intro Cons.IH) auto
  qed
  from this[OF refl] show ?case by (simp add: keeps_grid_def)
qed

lemma blank_rows_region:
  "grid_ok t \<Longrightarrow> \<forall>r\<in>set rs. 0 \<le> r \<and> r < screen_rows t \<Longrightarrow> blank_rows rs t = blank_region rs t"
proof (induction rs arbitrary: t)
  case (Cons r rs)
  have "keeps_grid (blank_cells (r * screen_cols t) (screen_cols t)) t"
    using Cons.prems row_in[of r "screen_rows t" "screen_cols t"] by (intro blank_cells_in) (auto simp: grid_ok_def)
  then obtain u where u: "blank_cells (r * screen_cols t) (screen_cols t) t = Some u" "cells_only t u" by (auto simp: keeps_grid_def)
  then have "blank_rows rs u = blank_region rs u" using Cons.prems cells_only_fields[OF u(2)] by (intro Cons.IH) auto
  then show ?case using u Cons.prems row_start_in[of t r] by simp
qed simp

lemma blank_rows_in:
  "grid_ok t \<Longrightarrow> \<forall>r\<in>set rs. 0 \<le> r \<and> r < screen_rows t \<Longrightarrow> keeps_grid (blank_rows rs) t"
  using blank_region_in[of t rs] by (simp add: keeps_grid_def blank_rows_region)

lemma region_in:
  assumes "grid_ok t" "0 \<le> top_row" "bot_row < screen_rows t"
  shows "keeps_grid (console_scroll_region_up top_row bot_row lines) t"
    "keeps_grid (console_scroll_region_down top_row bot_row lines) t"
proof -
  define cols where "cols = screen_cols t"
  have c: "0 < cols" using assms(1) by (simp add: grid_ok_def cols_def)
  have all: "keeps_grid (blank_region [top_row..bot_row]) t"
    using assms by (intro blank_region_in) auto
  have part: "keeps_grid (\<lambda>t. move_span (a * cols) (b * cols) (n * cols) t \<bind> blank_cells (d * cols) (k * cols)) t"
    if "0 \<le> a" "0 \<le> b" "0 \<le> n" "0 \<le> d" "0 \<le> k" "a + n \<le> screen_rows t" "b + n \<le> screen_rows t" "d + k \<le> screen_rows t"
    for a b n d k
  proof -
    have m: "x * cols + y * cols \<le> screen_rows t * cols" if "x + y \<le> screen_rows t" for x y
      using mult_right_mono[OF that, of cols] c by (simp add: algebra_simps)
    show ?thesis
    proof (rule keeps_grid_then)
      show "keeps_grid (move_span (a * cols) (b * cols) (n * cols)) t"
        using that m c assms(1) by (intro move_span_in) (simp_all add: cols_def[symmetric])
      show "keeps_grid (blank_cells (d * cols) (k * cols)) u" if u: "cells_only t u" for u
        using \<open>0 \<le> d\<close> \<open>0 \<le> k\<close> m[OF \<open>d + k \<le> screen_rows t\<close>] c cells_only_fields(1,2,13)[OF u] assms(1)
        by (intro blank_cells_in) (simp_all add: cols_def[symmetric])
    qed
  qed
  show "keeps_grid (console_scroll_region_up top_row bot_row lines) t"
  proof (cases "no_screen t \<or> lines \<le> 0 \<or> top_row > bot_row")
    case False
    then show ?thesis
      using all part[of top_row "top_row + lines" "bot_row - top_row + 1 - lines" "bot_row - lines + 1" lines] assms
      by (cases "lines \<ge> bot_row - top_row + 1")
        (simp_all add: keeps_grid_def console_scroll_region_up_def Let_def cols_def)
  qed (simp add: keeps_grid_def console_scroll_region_up_def Let_def)
  show "keeps_grid (console_scroll_region_down top_row bot_row lines) t"
  proof (cases "no_screen t \<or> lines \<le> 0 \<or> top_row > bot_row")
    case False
    then show ?thesis
      using all part[of "top_row + lines" top_row "bot_row - top_row + 1 - lines" top_row lines] assms
      by (cases "lines \<ge> bot_row - top_row + 1")
        (simp_all add: keeps_grid_def console_scroll_region_down_def Let_def cols_def)
  qed (simp add: keeps_grid_def console_scroll_region_down_def Let_def)
qed

section \<open>The cursor in the grid\<close>

definition cursor_ok :: "console \<Rightarrow> bool" where
  "cursor_ok t \<longleftrightarrow> grid_ok t \<and> 0 \<le> cursor_row t \<and> cursor_row t < screen_rows t \<and> 0 \<le> cursor_col t \<and>
     cursor_col t < screen_cols t \<and> 0 \<le> scroll_top t \<and> scroll_top t \<le> scroll_bot t \<and> scroll_bot t < screen_rows t"

lemma cursor_ok_ebot: "cursor_ok t \<Longrightarrow> ebot t = scroll_bot t"
  by (auto simp: cursor_ok_def ebot_def)

lemma cells_only_cursor: "cells_only t u \<Longrightarrow> cursor_ok t \<Longrightarrow> cursor_ok u"
  using cells_only_fields[of t u] by (simp add: cursor_ok_def)

lemma keeps_grid_cursor: "keeps_grid f t \<Longrightarrow> cursor_ok t \<Longrightarrow> \<exists>u. f t = Some u \<and> cells_only t u \<and> cursor_ok u"
  by (auto simp: keeps_grid_def intro: cells_only_cursor)

text \<open>What is computed of the cursor is an \<open>int\<close>.\<close>

lemma cursor_int32:
  assumes "cursor_ok t"
  shows "int32 (cursor_row t + 1) = Some (cursor_row t + 1)" "int32 (cursor_col t + 1) = Some (cursor_col t + 1)"
    "int32 (cursor_col t - 1) = Some (cursor_col t - 1)" "int32 (cursor_col t + 8) = Some (cursor_col t + 8)"
    "row_start (cursor_row t) t = Some (cursor_row t * screen_cols t)"
    "int32 (cursor_row t * screen_cols t + cursor_col t) = Some (cursor_row t * screen_cols t + cursor_col t)"
proof -
  show "row_start (cursor_row t) t = Some (cursor_row t * screen_cols t)"
    using assms by (intro row_start_in) (simp_all add: cursor_ok_def)
  have "0 \<le> cursor_row t * screen_cols t" "cursor_row t * screen_cols t + screen_cols t \<le> screen_rows t * screen_cols t"
    "screen_rows t * screen_cols t < 2 ^ 31" "0 \<le> cursor_col t" "cursor_col t < screen_cols t"
    using assms row_in[of "cursor_row t" "screen_rows t" "screen_cols t"] by (auto simp: cursor_ok_def grid_ok_def)
  then show "int32 (cursor_row t * screen_cols t + cursor_col t) = Some (cursor_row t * screen_cols t + cursor_col t)"
    by (intro int32_in) linarith+
qed (use assms in \<open>auto simp: cursor_ok_def grid_ok_def int32_def\<close>)

lemma clear_in:
  assumes "cursor_ok t"
  shows "keeps_grid (console_clear_line mode) t" "keeps_grid (console_clear_screen mode) t"
proof -
  have g: "grid_ok t" using assms by (simp add: cursor_ok_def)
  have r: "0 \<le> cursor_row t * screen_cols t" "cursor_row t * screen_cols t + screen_cols t \<le> screen_rows t * screen_cols t"
    using assms row_in[of "cursor_row t" "screen_rows t" "screen_cols t"] by (auto simp: cursor_ok_def)
  have to: "keeps_grid blank_to_cursor u" if "cells_only t u" for u
  proof -
    have "keeps_grid (blank_cells (cursor_row u * screen_cols u) (min (cursor_col u + 1) (screen_cols u))) u"
      using r assms cells_only_fields[OF that] g by (intro blank_cells_in) (auto simp: cursor_ok_def)
    then show ?thesis using cursor_int32[OF cells_only_cursor[OF that assms]] by (simp add: keeps_grid_def blank_to_cursor_def)
  qed
  have "keeps_grid (blank_cells (cursor_row t * screen_cols t + cursor_col t) (screen_cols t - cursor_col t)) t"
    using r assms g by (intro blank_cells_in) (auto simp: cursor_ok_def)
  then have fc: "keeps_grid blank_from_cursor t"
    using assms cursor_int32[OF assms] by (simp add: keeps_grid_def blank_from_cursor_def Let_def cursor_ok_def)
  have "keeps_grid (blank_cells (cursor_row t * screen_cols t) (screen_cols t)) t"
    using r g by (intro blank_cells_in) (auto simp: grid_ok_def)
  then show "keeps_grid (console_clear_line mode) t"
    using to[of t] fc cursor_int32[OF assms] by (auto simp: keeps_grid_def console_clear_line_def)
  have "keeps_grid (blank_cells 0 (screen_rows t * screen_cols t)) t"
    using g by (intro blank_cells_in) (auto simp: grid_ok_def)
  moreover have "keeps_grid (\<lambda>t. blank_rows rs t \<bind> blank_to_cursor) t" if "rs = [0..cursor_row t - 1]" for rs
    using g to assms that by (intro keeps_grid_then blank_rows_in) (auto simp: cursor_ok_def)
  moreover have "keeps_grid (\<lambda>t. blank_from_cursor t \<bind> (\<lambda>t. blank_rows [cursor_row t + 1..screen_rows t - 1] t)) t"
  proof (intro keeps_grid_then fc)
    show "keeps_grid (\<lambda>t. blank_rows [cursor_row t + 1..screen_rows t - 1] t) u" if "cells_only t u" for u
    proof -
      have "keeps_grid (blank_rows [cursor_row u + 1..screen_rows u - 1]) u"
        using cells_only_cursor[OF that assms] by (intro blank_rows_in) (auto simp: cursor_ok_def)
      then show ?thesis by (simp add: keeps_grid_def)
    qed
  qed
  ultimately show "keeps_grid (console_clear_screen mode) t"
    by (auto simp: keeps_grid_def console_clear_screen_def)
qed

text \<open>A step that keeps the screen in order and leaves the parser alone.\<close>

definition stepped :: "console \<Rightarrow> console option \<Rightarrow> bool" where
  "stepped t r \<longleftrightarrow> (\<exists>u. r = Some u \<and> cursor_ok u \<and> parser_state u = parser_state t \<and>
     screen_rows u = screen_rows t \<and> screen_cols u = screen_cols t)"

definition steps :: "(console \<Rightarrow> console option) \<Rightarrow> console \<Rightarrow> bool" where
  "steps f t \<longleftrightarrow> stepped t (f t)"

lemma stepped_if: "(c \<Longrightarrow> stepped t a) \<Longrightarrow> (\<not> c \<Longrightarrow> stepped t b) \<Longrightarrow> stepped t (if c then a else b)"
  by simp

lemma keeps_grid_steps: "keeps_grid f t \<Longrightarrow> cursor_ok t \<Longrightarrow> steps f t"
  using cells_only_fields(1,2,5) cells_only_cursor unfolding keeps_grid_def steps_def stepped_def by blast

lemma cursor_ok_moved:
  "cursor_ok t \<Longrightarrow> 0 \<le> r \<Longrightarrow> r < screen_rows t \<Longrightarrow> 0 \<le> c \<Longrightarrow> c < screen_cols t \<Longrightarrow>
   cursor_ok (t\<lparr>cursor_row := r, cursor_col := c\<rparr>)"
  by (simp add: cursor_ok_def grid_ok_def)

lemma row_down_steps:
  assumes "cursor_ok t"
  shows "steps row_down t"
proof -
  define v where "v = t\<lparr>cursor_row := cursor_row t + 1\<rparr>"
  have "keeps_grid (console_scroll_region_up (scroll_top t) (ebot t) 1) v"
    using assms cursor_ok_ebot[OF assms] by (intro region_in) (auto simp: v_def cursor_ok_def grid_ok_def)
  then obtain u where u: "console_scroll_region_up (scroll_top t) (ebot t) 1 v = Some u" "cells_only v u"
    by (auto simp: keeps_grid_def)
  note f = cells_only_fields[OF u(2)]
  have "cursor_ok (u\<lparr>cursor_row := ebot t\<rparr>)"
    using assms f cursor_ok_ebot[OF assms] by (auto simp: v_def cursor_ok_def grid_ok_def)
  moreover have "cursor_row t + 1 < screen_rows t" if "\<not> cursor_row t + 1 > ebot t"
    using that assms cursor_ok_ebot[OF assms] by (auto simp: cursor_ok_def)
  ultimately show ?thesis
    using u(1) f(1,2,5) assms cursor_int32(1)[OF assms] by (auto simp: steps_def stepped_def row_down_def Let_def v_def cursor_ok_def grid_ok_def)
qed

lemma put_char_steps:
  assumes "cursor_ok t"
  shows "steps (console_put_char ch) t"
proof -
  have g: "grid_ok t" "\<not> no_screen t" using assms by (auto simp: cursor_ok_def grid_ok_def no_screen_def)
  define i where "i = cursor_row t * screen_cols t + cursor_col t"
  have i: "0 \<le> i" "i + 1 \<le> screen_rows t * screen_cols t"
    using assms row_in[of "cursor_row t" "screen_rows t" "screen_cols t"] by (auto simp: cursor_ok_def i_def)
  then obtain c a where m: "memset_at i ch 1 (screen_cells t) = Some c" "memset_at i (current_attr t) 1 (screen_attr t) = Some a"
    using g(1) by (auto simp: memset_at_def grid_ok_def)
  define u where "u = t\<lparr>screen_cells := c, screen_attr := a\<rparr>"
  have p: "put_here ch t = Some u" using cursor_int32[OF assms] by (simp add: put_here_def i_def[symmetric] m u_def)
  have u: "cells_only t u" using length_memset[OF m(1)] length_memset[OF m(2)] by (simp add: cells_only_def u_def)
  note f = cells_only_fields[OF u] and cu = cells_only_cursor[OF u assms]
  have "wrap_at_edge (t\<lparr>cursor_row := max 0 (cursor_row t), cursor_col := max 0 (cursor_col t)\<rparr>) = Some t"
    using assms by (simp add: wrap_at_edge_def cursor_ok_def)
  then have e: "console_put_char ch t = wrap_at_edge (u\<lparr>cursor_col := cursor_col u + 1\<rparr>)"
    using assms g(2) p cursor_int32(2)[OF cu] by (simp add: console_put_char_def cursor_ok_def)
  show ?thesis
  proof (cases "cursor_col u + 1 \<ge> screen_cols u")
    case True
    have "cursor_ok (u\<lparr>cursor_col := 0\<rparr>)" using cu by (auto simp: cursor_ok_def grid_ok_def)
    from row_down_steps[OF this] show ?thesis
      using True e f(1,2,5) by (simp add: steps_def stepped_def wrap_at_edge_def)
  next
    case False
    have "cursor_ok (u\<lparr>cursor_col := cursor_col u + 1\<rparr>)" using cu False by (auto simp: cursor_ok_def grid_ok_def)
    then show ?thesis using False e f(1,2,5) by (simp add: steps_def stepped_def wrap_at_edge_def)
  qed
qed

section \<open>Sequences\<close>

lemma shift_chars_steps:
  assumes "cursor_ok t"
  shows "steps (console_shift_chars n ins) t"
proof -
  define line where "line = cursor_row t * screen_cols t"
  define k where "k = min (max 1 n) (screen_cols t - cursor_col t)"
  have c: "0 \<le> cursor_col t" "cursor_col t < screen_cols t" "grid_ok t" using assms by (auto simp: cursor_ok_def)
  have l: "0 \<le> line" "line + screen_cols t \<le> screen_rows t * screen_cols t"
    using assms row_in[of "cursor_row t" "screen_rows t" "screen_cols t"] by (auto simp: cursor_ok_def line_def)
  have k: "0 < k" "cursor_col t + k \<le> screen_cols t" using c by (auto simp: k_def)
  have blank: "keeps_grid (blank_cells at k) u" if "cells_only t u" "0 \<le> at" "at + k \<le> line + screen_cols t" for at u
    using that k l c cells_only_fields[OF that(1)] by (intro blank_cells_in) auto
  have "keeps_grid (\<lambda>t. move_span (line + cursor_col t0 + k) (line + cursor_col t0) (screen_cols t0 - cursor_col t0 - k) t \<bind>
      blank_cells (line + cursor_col t0) k) t" if "t0 = t" for t0
    using c k l by (intro keeps_grid_then move_span_in blank) (auto simp: that)
  moreover have "keeps_grid (\<lambda>t. move_span (line + cursor_col t0) (line + cursor_col t0 + k) (screen_cols t0 - cursor_col t0 - k) t \<bind>
      blank_cells (line + (screen_cols t0 - k)) k) t" if "t0 = t" for t0
    using c k l by (intro keeps_grid_then move_span_in blank) (auto simp: that)
  ultimately have "keeps_grid (shift_row_cells k ins) t"
    by (auto simp: keeps_grid_def shift_row_cells_def line_def Let_def)
  then have "keeps_grid (console_shift_chars n ins) t"
    using assms by (auto simp: keeps_grid_def console_shift_chars_def k_def cursor_ok_def)
  then show ?thesis by (rule keeps_grid_steps[OF _ assms])
qed

text \<open>Numbers of at most nine digits fit every sum the sequences make of them.\<close>

definition small :: "int \<Rightarrow> bool" where
  "small p \<longleftrightarrow> 0 \<le> p \<and> p < 10 ^ 9"

lemma small_add: "small p \<Longrightarrow> 0 \<le> x \<Longrightarrow> x < 2 ^ 30 \<Longrightarrow> int32 (x + or_one p) = Some (x + or_one p)"
  "small p \<Longrightarrow> 0 \<le> x \<Longrightarrow> x < 2 ^ 30 \<Longrightarrow> int32 (x - or_one p) = Some (x - or_one p)" "small p \<Longrightarrow> 1 \<le> or_one p"
  by (auto simp: small_def or_one_def int32_def)

lemma cursor_to_steps:
  "cursor_ok t \<Longrightarrow> 0 \<le> r \<Longrightarrow> r < screen_rows t \<Longrightarrow> 0 \<le> c \<Longrightarrow> c < screen_cols t \<Longrightarrow> steps (cursor_to (Some r) (Some c)) t"
  by (simp add: steps_def stepped_def cursor_to_def cursor_ok_moved)

lemma lines_steps:
  assumes "cursor_ok t" "scroll_top t \<le> cursor_row t" "cursor_row t \<le> ebot t"
  shows "steps (\<lambda>t. map_option (\<lambda>u. u\<lparr>cursor_col := 0\<rparr>) (console_scroll_region_down (cursor_row t) (ebot t) n t)) t"
    "steps (\<lambda>t. map_option (\<lambda>u. u\<lparr>cursor_col := 0\<rparr>) (console_scroll_region_up (cursor_row t) (ebot t) n t)) t"
proof -
  have r: "0 \<le> cursor_row t" "ebot t < screen_rows t" "grid_ok t"
    using assms cursor_ok_ebot[OF assms(1)] by (auto simp: cursor_ok_def)
  have z: "cursor_ok u \<Longrightarrow> cursor_ok (u\<lparr>cursor_col := 0\<rparr>)" for u by (auto simp: cursor_ok_def grid_ok_def)
  show "steps (\<lambda>t. map_option (\<lambda>u. u\<lparr>cursor_col := 0\<rparr>) (console_scroll_region_down (cursor_row t) (ebot t) n t)) t"
    using keeps_grid_steps[OF region_in(2)[OF r(3,1,2)] assms(1), of n] z by (auto simp: steps_def stepped_def)
  show "steps (\<lambda>t. map_option (\<lambda>u. u\<lparr>cursor_col := 0\<rparr>) (console_scroll_region_up (cursor_row t) (ebot t) n t)) t"
    using keeps_grid_steps[OF region_in(1)[OF r(3,1,2)] assms(1), of n] z by (auto simp: steps_def stepped_def)
qed

lemma csi_action_steps:
  assumes "cursor_ok t" "ps \<noteq> []" "\<forall>p\<in>set ps. small p"
  shows "steps (csi_action final ps) t"
proof -
  define p where "p = hd ps"
  define q where "q = (if length ps > 1 then ps ! 1 else 0)"
  have sm: "small p" "small q" using assms(2,3) by (auto simp: p_def q_def small_def)
  have b: "0 \<le> cursor_row t" "cursor_row t < 2 ^ 30" "0 \<le> cursor_col t" "cursor_col t < 2 ^ 30"
    "cursor_row t < screen_rows t" "cursor_col t < screen_cols t" "0 < screen_rows t" "0 < screen_cols t" "grid_ok t"
    "0 \<le> scroll_top t" "ebot t < screen_rows t"
    using assms(1) cursor_ok_ebot[OF assms(1)] by (auto simp: cursor_ok_def grid_ok_def)
  note n = small_add(1,2)[OF sm(1)] small_add(3)[OF sm(1)] small_add(3)[OF sm(2)]
  have moves: "steps (cursor_to (map_option (max 0) (int32 (cursor_row t - or_one p))) (Some c)) t"
    "steps (cursor_to (map_option (min (screen_rows t - 1)) (int32 (cursor_row t + or_one p))) (Some c)) t"
    if "c = cursor_col t \<or> c = 0" for c
    using that b n by (auto intro!: cursor_to_steps[OF assms(1)])
  have cols: "steps (cursor_to (Some (cursor_row t)) (map_option (max 0) (int32 (cursor_col t - or_one p)))) t"
    "steps (cursor_to (Some (cursor_row t)) (map_option (min (screen_cols t - 1)) (int32 (cursor_col t + or_one p)))) t"
    "steps (cursor_to (Some (cursor_row t)) (Some (min (screen_cols t - 1) (max 0 (or_one p - 1))))) t"
    "steps (cursor_to (Some (min (screen_rows t - 1) (max 0 (or_one p - 1))))
      (Some (min (screen_cols t - 1) (max 0 (or_one q - 1))))) t"
    using b n by (auto intro!: cursor_to_steps[OF assms(1)])
  have regions: "steps (console_scroll_region_up (scroll_top t) (ebot t) (or_one p)) t"
    "steps (console_scroll_region_down (scroll_top t) (ebot t) (or_one p)) t"
    using keeps_grid_steps[OF region_in(1)[OF b(9,10,11)] assms(1)] keeps_grid_steps[OF region_in(2)[OF b(9,10,11)] assms(1)]
    by blast+
  have clears: "steps (console_clear_screen p) t" "steps (console_clear_line p) t"
    using keeps_grid_steps[OF clear_in(1)[OF assms(1)] assms(1)] keeps_grid_steps[OF clear_in(2)[OF assms(1)] assms(1)] by blast+
  have margin: "cursor_ok (t\<lparr>scroll_top := a, scroll_bot := z, cursor_row := 0, cursor_col := 0\<rparr>)"
    if "0 \<le> a" "a < z" "z \<le> screen_rows t - 1" for a z
    using that assms(1) by (auto simp: cursor_ok_def grid_ok_def)
  have marks: "cursor_ok (serial_inject_response r t)" "parser_state (serial_inject_response r t) = parser_state t"
    "cursor_ok (t\<lparr>current_attr := v\<rparr>)" for r v
    using assms(1) by (simp_all add: serial_inject_response_def cursor_ok_def grid_ok_def)
  have marked: "stepped t (Some (serial_inject_response r t))" "stepped t (Some t)" "stepped t (Some (t\<lparr>current_attr := v\<rparr>))" for r v
    using marks assms(1) by (simp_all add: stepped_def serial_inject_response_def)
  have margins: "stepped t (Some (if or_one p - 1 < z
      then t\<lparr>scroll_top := or_one p - 1, scroll_bot := z, cursor_row := 0, cursor_col := 0\<rparr> else t))"
    if "z \<le> screen_rows t - 1" for z
    using margin[of "or_one p - 1" z] n(3) that assms(1) by (simp add: stepped_def)
  have lines: "stepped t (if cursor_row t < scroll_top t \<or> ebot t < cursor_row t then Some t
      else map_option (\<lambda>u. u\<lparr>cursor_col := 0\<rparr>) (if c then console_scroll_region_down (cursor_row t) (ebot t) (or_one p) t
        else console_scroll_region_up (cursor_row t) (ebot t) (or_one p) t))" for c
    using lines_steps[OF assms(1), of "or_one p"] marked(2) by (simp add: steps_def)
  have dsr: "stepped t (int32 (cursor_row t + 1) \<bind> (\<lambda>r. int32 (cursor_col t + 1) \<bind> (\<lambda>c. Some (serial_inject_response (f r c) t))))" for f
    using marked cursor_int32[OF assms(1)] by simp
  note all = moves[unfolded steps_def] cols[unfolded steps_def] regions[unfolded steps_def] clears[unfolded steps_def]
    shift_chars_steps[OF assms(1), unfolded steps_def] lines margins dsr marked
  show ?thesis
    unfolding steps_def csi_action_def p_def[symmetric] q_def[symmetric] Let_def
    by (rule all stepped_if | simp; fail)+
qed

section \<open>Byte streams\<close>

definition digit :: "u8 \<Rightarrow> bool" where
  "digit ch \<longleftrightarrow> 0x30 \<le> ch \<and> ch \<le> 0x39"

text \<open>No more than nine digits in a row; \<open>k\<close> have been there already.\<close>

fun short_numbers :: "nat \<Rightarrow> u8 list \<Rightarrow> bool" where
  "short_numbers k [] \<longleftrightarrow> True"
| "short_numbers k (ch # chs) \<longleftrightarrow> (if digit ch then k < 9 \<and> short_numbers (k + 1) chs else short_numbers 0 chs)"

definition console_sane :: "nat \<Rightarrow> console \<Rightarrow> bool" where
  "console_sane k t \<longleftrightarrow> cursor_ok t \<and> parser_state t \<le> 2 \<and> k \<le> 9 \<and>
     (parser_state t = 2 \<longrightarrow> (\<forall>p\<in>set (csi_params t). small p) \<and> csi_param_value t < 10 ^ k)"

lemma digit_value: "digit ch \<Longrightarrow> 0 \<le> uint ch - 0x30 \<and> uint ch - 0x30 \<le> 9"
  by (simp add: digit_def word_le_def)

lemma param_step:
  assumes "console_sane k t" "parser_state t = 2" "digit ch" "k < 9"
  shows "\<exists>u. handle_param ch t = Some u \<and> console_sane (k + 1) u \<and>
    screen_rows u = screen_rows t \<and> screen_cols u = screen_cols t"
proof -
  define v where "v = max 0 (csi_param_value t) * 10 + (uint ch - 0x30)"
  have "csi_param_value t < 10 ^ k" using assms(1,2) by (simp add: console_sane_def)
  moreover have "(1 :: int) \<le> 10 ^ k" by simp
  ultimately have "max 0 (csi_param_value t) + 1 \<le> 10 ^ k" by linarith
  then have v: "0 \<le> v" "v < 10 ^ (k + 1)" using digit_value[OF assms(3)] by (simp_all add: v_def)
  have "(10 :: int) ^ (k + 1) \<le> 10 ^ 9" using assms(4) by (intro power_increasing) auto
  then have "int32 v = Some v" using v by (simp add: int32_def)
  moreover have "ch \<noteq> 0x3F" using assms(3) by (auto simp: digit_def)
  ultimately show ?thesis
    using assms v by (auto simp: handle_param_def digit_def v_def[symmetric] console_sane_def cursor_ok_def grid_ok_def)
qed

lemma add_param_small:
  assumes "console_sane k t" "parser_state t = 2"
  shows "cursor_ok (add_param t)" "parser_state (add_param t) = 2" "\<forall>p\<in>set (csi_params (add_param t)). small p"
    "screen_rows (add_param t) = screen_rows t" "screen_cols (add_param t) = screen_cols t"
proof -
  have "(10 :: int) ^ k \<le> 10 ^ 9" using assms(1) by (intro power_increasing) (auto simp: console_sane_def)
  then have "small (if csi_param_value t < 0 then 0 else csi_param_value t)"
    using assms by (auto simp: console_sane_def small_def)
  then show "\<forall>p\<in>set (csi_params (add_param t)). small p" using assms by (auto simp: add_param_def console_sane_def)
  show "cursor_ok (add_param t)" "parser_state (add_param t) = 2" "screen_rows (add_param t) = screen_rows t"
    "screen_cols (add_param t) = screen_cols t"
    using assms by (auto simp: add_param_def console_sane_def cursor_ok_def grid_ok_def)
qed

lemma param_end_step:
  assumes "console_sane k t" "parser_state t = 2" "\<not> digit ch"
  shows "\<exists>u. handle_param ch t = Some u \<and> console_sane 0 u \<and>
    screen_rows u = screen_rows t \<and> screen_cols u = screen_cols t"
proof -
  note a = add_param_small[OF assms(1,2)]
  consider (hide) "ch = 0x3F" "csi_params t = []" "csi_param_value t < 0" | (sep) "ch = 0x3B"
    | (fin) "ch \<noteq> 0x3B" "\<not> (ch = 0x3F \<and> csi_params t = [] \<and> csi_param_value t < 0)" by blast
  then show ?thesis
  proof cases
    case hide
    then show ?thesis using assms by (auto simp: handle_param_def console_sane_def cursor_ok_def grid_ok_def)
  next
    case sep
    have "cursor_ok ((add_param t)\<lparr>csi_param_value := - 1\<rparr>)" using a(1) by (simp add: cursor_ok_def grid_ok_def)
    then show ?thesis using sep a by (simp add: handle_param_def console_sane_def)
  next
    case fin
    have "steps (console_handle_csi ch) (add_param t)"
    proof (cases "csi_private (add_param t)")
      case True
      then show ?thesis using a(1) by (simp add: steps_def stepped_def console_handle_csi_def cursor_ok_def grid_ok_def)
    next
      case False
      then show ?thesis
        using csi_action_steps[OF a(1), of "if csi_params (add_param t) = [] then [0] else csi_params (add_param t)" ch] a(3)
        by (simp add: steps_def stepped_def console_handle_csi_def small_def)
    qed
    then obtain u where "console_handle_csi ch (add_param t) = Some u" "cursor_ok u" "screen_rows u = screen_rows t"
      "screen_cols u = screen_cols t" using a(4,5) by (auto simp: steps_def stepped_def)
    moreover from this(2) have "cursor_ok (u\<lparr>parser_state := 0\<rparr>)" by (simp add: cursor_ok_def grid_ok_def)
    ultimately show ?thesis
      using fin assms(3) unfolding handle_param_def digit_def console_sane_def by auto
  qed
qed

lemma ground_step:
  assumes "cursor_ok t" "parser_state t = 0"
  shows "\<exists>u. handle_ground ch t = Some u \<and> cursor_ok u \<and> parser_state u < 2 \<and>
    screen_rows u = screen_rows t \<and> screen_cols u = screen_cols t"
proof -
  have c: "0 \<le> cursor_col t" "cursor_col t < screen_cols t" "0 < screen_cols t"
    using assms(1) by (auto simp: cursor_ok_def)
  have "cursor_ok (t\<lparr>cursor_col := z\<rparr>)" if "0 \<le> z" "z < screen_cols t" for z
    using that assms(1) by (simp add: cursor_ok_def grid_ok_def)
  note moved = this[of 0] this[of "max 0 (cursor_col t - 1)"] this[of "min (screen_cols t - 1) ((cursor_col t + 8) div 8 * 8)"]
  have "cursor_ok (t\<lparr>parser_state := 1\<rparr>)" using assms(1) by (simp add: cursor_ok_def grid_ok_def)
  with moved c show ?thesis
    using cursor_int32[OF assms(1)] row_down_steps[OF assms(1)] put_char_steps[OF assms(1), of ch] assms
    by (auto simp: handle_ground_def steps_def stepped_def)
qed

lemma byte_step:
  assumes "console_sane k t" "digit ch \<longrightarrow> k < 9"
  shows "\<exists>u. console_handle_byte ch t = Some u \<and> console_sane (if digit ch then k + 1 else 0) u \<and>
    screen_rows u = screen_rows t \<and> screen_cols u = screen_cols t"
proof -
  have t: "cursor_ok t" "k \<le> 9" using assms(1) by (simp_all add: console_sane_def)
  consider "parser_state t = 0" | "parser_state t = 1" | "parser_state t = 2"
    using assms(1) by (auto simp: console_sane_def le_Suc_eq numeral_2_eq_2)
  then show ?thesis
  proof cases
    case 1
    obtain u where "handle_ground ch t = Some u" "cursor_ok u" "parser_state u < 2"
      "screen_rows u = screen_rows t" "screen_cols u = screen_cols t"
      using ground_step[OF t(1) 1] by blast
    then show ?thesis using assms(2) 1 by (cases "digit ch") (auto simp: console_handle_byte_def console_sane_def)
  next
    case 2
    have "cursor_ok (t\<lparr>parser_state := 2, csi_params := [], csi_param_value := - 1\<rparr>)" "cursor_ok (t\<lparr>parser_state := 0\<rparr>)"
      using t(1) by (simp_all add: cursor_ok_def grid_ok_def)
    then show ?thesis using assms(2) 2 by (auto simp: console_handle_byte_def console_sane_def digit_def)
  next
    case 3
    then have e: "console_handle_byte ch t = handle_param ch t" by (simp add: console_handle_byte_def)
    show ?thesis
      using param_step[OF assms(1) 3] param_end_step[OF assms(1) 3] assms(2) by (cases "digit ch") (simp_all add: e)
  qed
qed

lemma bytes_sane:
  "console_sane k t \<Longrightarrow> short_numbers k bytes \<Longrightarrow> \<exists>u k'. console_bytes bytes t = Some u \<and> console_sane k' u \<and>
     screen_rows u = screen_rows t \<and> screen_cols u = screen_cols t"
proof (induction bytes arbitrary: k t)
  case (Cons ch bytes)
  obtain u where u: "console_handle_byte ch t = Some u" "console_sane (if digit ch then k + 1 else 0) u"
    "screen_rows u = screen_rows t" "screen_cols u = screen_cols t"
    using byte_step[OF Cons.prems(1), of ch] Cons.prems(2) by (auto split: if_splits)
  have "short_numbers (if digit ch then k + 1 else 0) bytes" using Cons.prems(2) by (auto split: if_splits)
  from Cons.IH[OF u(2) this] u show ?case by auto
qed auto

lemma resize_from_nothing:
  assumes "0 < rows" "rows < 2 ^ 30" "0 < cols" "cols < 2 ^ 30" "rows * cols < 2 ^ 31"
  shows "\<exists>t. console_resize rows cols console_init = Some t \<and> console_sane 0 t \<and>
    screen_rows t = rows \<and> screen_cols t = cols"
  using assms
  by (simp add: console_resize_def console_init_def console_sane_def cursor_ok_def grid_ok_def)

text \<open>
  Property C11: the terminal is memory safe. Given a size of fewer than 2 to the 31 cells and fewer than 2 to the 30
  rows and columns, and any stream of bytes whose numbers have at most nine digits, every byte is
  handled: no access leaves the grid, and no \<open>int\<close> overflows, neither a parameter nor a sum or product that
  makes the place of a cell. The cursor and the margins stay on the screen and the size stays.
\<close>

theorem console_safe:
  assumes "0 < rows" "rows < 2 ^ 30" "0 < cols" "cols < 2 ^ 30" "rows * cols < 2 ^ 31" "short_numbers 0 bytes"
  shows "\<exists>t. console_resize rows cols console_init \<bind> console_bytes bytes = Some t \<and>
    screen_rows t = rows \<and> screen_cols t = cols \<and> 0 \<le> cursor_row t \<and> cursor_row t < rows \<and>
    0 \<le> cursor_col t \<and> cursor_col t < cols \<and> 0 \<le> scroll_top t \<and> scroll_top t \<le> scroll_bot t \<and>
    scroll_bot t < rows \<and> int (length (screen_cells t)) = rows * cols"
proof -
  obtain t where t: "console_resize rows cols console_init = Some t" "console_sane 0 t"
    "screen_rows t = rows" "screen_cols t = cols"
    using resize_from_nothing[OF assms(1-5)] by blast
  from bytes_sane[OF t(2) assms(6)] t(1,3,4) show ?thesis
    by (auto simp: console_sane_def cursor_ok_def grid_ok_def)
qed

theorem console_safe_witness:
  "\<exists>t. console_resize 24 80 console_init \<bind> console_bytes [0x1B, 0x5B, 0x39, 0x39, 0x3B, 0x39, 0x48, 0x41, 0x0A] = Some t \<and>
     cursor_row t < 24"
  using console_safe[of 24 80 "[0x1B, 0x5B, 0x39, 0x39, 0x3B, 0x39, 0x48, 0x41, 0x0A]"]
  by (auto simp: digit_def)

text \<open>
  The bounds are needed: ten digits overflow the parameter, or what the cursor becomes; on a larger
  screen, the place of a cell is no \<open>int\<close>.
\<close>

lemma ten_digits_overflow:
  assumes "parser_state t = 2" "csi_param_value t = 999999999"
  shows "console_handle_byte 0x39 t = None"
  using assms by (simp add: console_handle_byte_def handle_param_def int32_def)

lemma cursor_overflow:
  assumes "0 < cursor_row t"
  shows "csi_action 0x42 [2147483647] t = None"
  using assms by (simp add: csi_action_def cursor_to_def int32_def or_one_def Let_def)

lemma large_screen_overflows:
  assumes "2 ^ 31 \<le> cursor_row t * screen_cols t"
  shows "put_here ch t = None"
  using assms by (simp add: put_here_def row_start_def int32_def)

lemma large_screen_character:
  assumes "screen_rows t = 50000" "screen_cols t = 50000" "cursor_row t = 49999" "cursor_col t = 0" "parser_state t = 0"
  shows "console_handle_byte 0x41 t = None"
  using assms large_screen_overflows[of "t\<lparr>cursor_row := 49999, cursor_col := 0\<rparr>"]
  by (simp add: console_handle_byte_def handle_ground_def console_put_char_def no_screen_def wrap_at_edge_def)

end
