(* ===== verification/Direct_Io.thy ===== *)
theory Direct_Io imports Console_Sound
begin

text \<open>
  Screen calls and keys of the editor's direct build (\<open>src/emulator/direct_io.c\<close>): the calls as
  the escape sequences the terminal reads, and the decoding of escape sequences into keys.
\<close>

section \<open>Screen calls\<close>

abbreviation (input) SCR_GOTO :: u8 where "SCR_GOTO \<equiv> 0"
abbreviation (input) SCR_CLEAR :: u8 where "SCR_CLEAR \<equiv> 1"
abbreviation (input) SCR_CLEAR_EOL :: u8 where "SCR_CLEAR_EOL \<equiv> 2"
abbreviation (input) SCR_CURSOR_ON :: u8 where "SCR_CURSOR_ON \<equiv> 3"
abbreviation (input) SCR_CURSOR_OFF :: u8 where "SCR_CURSOR_OFF \<equiv> 4"
abbreviation (input) SCR_REVERSE :: u8 where "SCR_REVERSE \<equiv> 5"
abbreviation (input) SCR_NORMAL :: u8 where "SCR_NORMAL \<equiv> 6"
abbreviation (input) SCR_REGION :: u8 where "SCR_REGION \<equiv> 7"
abbreviation (input) SCR_REGION_RESET :: u8 where "SCR_REGION_RESET \<equiv> 8"
abbreviation (input) SCR_INSERT :: u8 where "SCR_INSERT \<equiv> 9"
abbreviation (input) SCR_DELETE :: u8 where "SCR_DELETE \<equiv> 10"
abbreviation (input) SCR_SCROLL_UP :: u8 where "SCR_SCROLL_UP \<equiv> 11"
abbreviation (input) SCR_SCROLL_DOWN :: u8 where "SCR_SCROLL_DOWN \<equiv> 12"
abbreviation (input) SCR_INSERT_LINES :: u8 where "SCR_INSERT_LINES \<equiv> 13"
abbreviation (input) SCR_DELETE_LINES :: u8 where "SCR_DELETE_LINES \<equiv> 14"

definition param :: "u8 \<Rightarrow> u8 list" where
  "param n = (if n = 1 then [] else dec_digits (unat n))"

abbreviation (input) csi :: "u8 list" where "csi \<equiv> [0x1B, 0x5B]"

definition count_seq :: "u8 \<Rightarrow> u8 \<Rightarrow> u8 list" where
  "count_seq n final = csi @ param n @ [final]"

definition direct_io_screen :: "u8 \<Rightarrow> u8 \<Rightarrow> u8 \<Rightarrow> u8 list" where
  "direct_io_screen op a y =
     (if op = SCR_GOTO then csi @ param a @ (if y \<noteq> 1 then 0x3B # dec_digits (unat y) else []) @ [0x48]
      else if op = SCR_CLEAR then csi @ [0x32, 0x4A] @ csi @ [0x48]
      else if op = SCR_CLEAR_EOL then csi @ [0x4B]
      else if op = SCR_CURSOR_ON then csi @ [0x3F, 0x32, 0x35, 0x68]
      else if op = SCR_CURSOR_OFF then csi @ [0x3F, 0x32, 0x35, 0x6C]
      else if op = SCR_REVERSE then csi @ [0x37, 0x6D]
      else if op = SCR_NORMAL then csi @ [0x6D]
      else if op = SCR_REGION then csi @ dec_digits (unat a) @ [0x3B] @ dec_digits (unat y) @ [0x72]
      else if op = SCR_REGION_RESET then csi @ [0x72]
      else if op = SCR_INSERT then count_seq a 0x40
      else if op = SCR_DELETE then count_seq a 0x50
      else if op = SCR_SCROLL_UP then count_seq a 0x53
      else if op = SCR_SCROLL_DOWN then count_seq a 0x54
      else if op = SCR_INSERT_LINES then count_seq a 0x4C
      else if op = SCR_DELETE_LINES then count_seq a 0x4D
      else [])"

section \<open>What a call means\<close>

text \<open>The effect of a call on the screen, written out; rows and columns count from 1, and 0 is 1.\<close>

definition screen_call :: "u8 \<Rightarrow> u8 \<Rightarrow> u8 \<Rightarrow> console \<Rightarrow> console option" where
  "screen_call op a y t =
     (let n = max 1 (uint a); rows = screen_rows t in
      if op = SCR_GOTO then Some (t\<lparr>cursor_row := min (rows - 1) (n - 1),
          cursor_col := min (screen_cols t - 1) (max 1 (uint y) - 1)\<rparr>)
      else if op = SCR_CLEAR then map_option
          (\<lambda>t. t\<lparr>cursor_row := min (rows - 1) 0, cursor_col := min (screen_cols t - 1) 0\<rparr>) (console_clear_screen 2 t)
      else if op = SCR_CLEAR_EOL then console_clear_line 0 t
      else if op = SCR_REVERSE then Some (t\<lparr>current_attr := 1\<rparr>)
      else if op = SCR_NORMAL then Some (t\<lparr>current_attr := 0\<rparr>)
      else if op = SCR_REGION then
        (let last_row = min (rows - 1) ((if y = 0 then rows else uint y) - 1) in
         Some (if n - 1 < last_row then t\<lparr>scroll_top := n - 1, scroll_bot := last_row, cursor_row := 0, cursor_col := 0\<rparr>
               else t))
      else if op = SCR_REGION_RESET then
        Some (if 1 < rows then t\<lparr>scroll_top := 0, scroll_bot := rows - 1, cursor_row := 0, cursor_col := 0\<rparr> else t)
      else if op = SCR_INSERT then console_shift_chars n True t
      else if op = SCR_DELETE then console_shift_chars n False t
      else if op = SCR_SCROLL_UP then console_scroll_region_up (scroll_top t) (ebot t) n t
      else if op = SCR_SCROLL_DOWN then console_scroll_region_down (scroll_top t) (ebot t) n t
      else if op = SCR_INSERT_LINES \<or> op = SCR_DELETE_LINES then
        (if cursor_row t < scroll_top t \<or> cursor_row t > ebot t then Some t
         else map_option (\<lambda>u. u\<lparr>cursor_col := 0\<rparr>)
           ((if op = SCR_INSERT_LINES then console_scroll_region_down else console_scroll_region_up)
             (cursor_row t) (ebot t) n t))
      else Some t)"

section \<open>The terminal and the parser's scratch\<close>

text \<open>The screen does not depend on what the parser keeps of the last sequence.\<close>

definition reparse :: "nat \<Rightarrow> int list \<Rightarrow> int \<Rightarrow> console \<Rightarrow> console" where
  "reparse p ps v t = t\<lparr>parser_state := p, csi_params := ps, csi_param_value := v\<rparr>"

definition performs :: "u8 list \<Rightarrow> console option \<Rightarrow> console \<Rightarrow> bool" where
  "performs bytes r t \<longleftrightarrow> (\<exists>ps v. console_bytes bytes t = map_option (reparse 0 ps v) r)"

lemma reparse_fields [simp]:
  "screen_rows (reparse p ps v t) = screen_rows t" "screen_cols (reparse p ps v t) = screen_cols t"
  "cursor_row (reparse p ps v t) = cursor_row t" "cursor_col (reparse p ps v t) = cursor_col t"
  "scroll_top (reparse p ps v t) = scroll_top t" "scroll_bot (reparse p ps v t) = scroll_bot t"
  "current_attr (reparse p ps v t) = current_attr t" "screen_cells (reparse p ps v t) = screen_cells t"
  "screen_attr (reparse p ps v t) = screen_attr t" "ebot (reparse p ps v t) = ebot t"
  "no_screen (reparse p ps v t) = no_screen t" "row_start r (reparse p ps v t) = row_start r t" "reparse q qs w (reparse p ps v t) = reparse q qs w t"
  "csi_private (reparse p ps v t) = csi_private t" "parser_state (reparse p ps v t) = p"
  "csi_params (reparse p ps v t) = ps" "csi_param_value (reparse p ps v t) = v"
  by (simp_all add: reparse_def ebot_def no_screen_def row_start_def)

lemma reparse_updates:
  "(reparse p ps v t)\<lparr>cursor_row := r\<rparr> = reparse p ps v (t\<lparr>cursor_row := r\<rparr>)"
  "(reparse p ps v t)\<lparr>cursor_col := c\<rparr> = reparse p ps v (t\<lparr>cursor_col := c\<rparr>)"
  "(reparse p ps v t)\<lparr>current_attr := a\<rparr> = reparse p ps v (t\<lparr>current_attr := a\<rparr>)"
  "(reparse p ps v t)\<lparr>scroll_top := x\<rparr> = reparse p ps v (t\<lparr>scroll_top := x\<rparr>)"
  "(reparse p ps v t)\<lparr>scroll_bot := z\<rparr> = reparse p ps v (t\<lparr>scroll_bot := z\<rparr>)"
  "(reparse p ps v t)\<lparr>parser_state := q\<rparr> = reparse q ps v t"
  by (simp_all add: reparse_def)

definition screenwise :: "(console \<Rightarrow> console option) \<Rightarrow> bool" where
  "screenwise f \<longleftrightarrow> (\<forall>p ps v t. f (reparse p ps v t) = map_option (reparse p ps v) (f t))"

lemma screenwise_bind:
  assumes "screenwise f" "screenwise g"
  shows "screenwise (\<lambda>t. f t \<bind> g)"
  using assms by (auto simp: screenwise_def bind_map_option map_option_bind intro!: Option.bind_cong)

lemma cells_screenwise: "screenwise (blank_cells at n)" "screenwise (move_span dst src n)"
  by (auto simp: screenwise_def blank_cells_def move_span_def reparse_def map_option_bind intro!: Option.bind_cong)

lemma rows_screenwise: "screenwise (blank_rows rs) \<and> screenwise (blank_region rs)"
proof (induction rs)
  case (Cons r rs)
  show ?case
    unfolding screenwise_def
    using cells_screenwise(1) Cons.IH
    by (auto simp: screenwise_def bind_map_option map_option_bind intro!: Option.bind_cong)
qed (simp add: screenwise_def)

lemma grid_screenwise:
  "screenwise (console_scroll_region_up a b n)" "screenwise (console_scroll_region_down a b n)"
  "screenwise (console_shift_chars n ins)" "screenwise (console_clear_line m)" "screenwise (console_clear_screen m)"
  using cells_screenwise rows_screenwise
  by (auto simp: screenwise_def console_scroll_region_up_def console_scroll_region_down_def console_shift_chars_def
      shift_row_cells_def console_clear_line_def console_clear_screen_def blank_to_cursor_def blank_from_cursor_def
      bind_map_option map_option_bind Let_def intro!: Option.bind_cong)

lemma csi_screenwise: "screenwise (csi_action final ps)"
  unfolding screenwise_def
proof (intro allI)
  fix p qs v t
  have g: "f (reparse p qs v u) = map_option (reparse p qs v) (f u)" if "screenwise f" for f u
    using that by (simp add: screenwise_def)
  note leaves = grid_screenwise[THEN g]
  have c: "cursor_to r c (reparse p qs v t) = map_option (reparse p qs v) (cursor_to r c t)" for r c
    by (cases r; cases c) (simp_all add: cursor_to_def reparse_updates)
  have h: "map_option (\<lambda>u. u\<lparr>cursor_col := 0\<rparr>) (map_option (reparse p qs v) r) =
      map_option (reparse p qs v) (map_option (\<lambda>u. u\<lparr>cursor_col := 0\<rparr>) r)" for r
    by (cases r) (simp_all add: reparse_updates)
  have i: "serial_inject_response r (reparse p qs v t) = reparse p qs v (serial_inject_response r t)" for r
    by (simp add: serial_inject_response_def reparse_def)
  show "csi_action final ps (reparse p qs v t) = map_option (reparse p qs v) (csi_action final ps t)"
    unfolding csi_action_def Let_def reparse_fields if_distrib[of "map_option (reparse p qs v)"]
    by (intro if_cong refl) (simp_all add: leaves c h i reparse_updates map_option_bind comp_def)
qed

section \<open>The parser on a sequence\<close>

lemma console_bytes_append: "console_bytes (as @ bs) t = console_bytes as t \<bind> console_bytes bs"
proof (induction as arbitrary: t)
  case (Cons a as)
  then show ?case by (cases "console_handle_byte a t") simp_all
qed simp

lemma console_bytes_one: "console_bytes [ch] t = console_handle_byte ch t"
  by (cases "console_handle_byte ch t") simp_all

lemma open_bytes: "parser_state t = 0 \<Longrightarrow> console_bytes (csi @ bs) t = console_bytes bs (reparse 2 [] (- 1) t)"
  by (simp add: console_handle_byte_def handle_ground_def reparse_def)

lemma digit_byte:
  assumes "d < 10"
  shows "uint (48 + word_of_nat d :: u8) = 48 + int d" "(48 :: u8) \<le> 48 + word_of_nat d" "48 + word_of_nat d \<le> (0x39 :: u8)"
    "48 + word_of_nat d \<noteq> (0x3F :: u8)"
proof -
  have u: "uint (word_of_nat d :: u8) = int d" using assms by (simp add: uint_nat unat_of_nat take_bit_nat_eq_self)
  then show v: "uint (48 + word_of_nat d :: u8) = 48 + int d" using assms by (simp add: uint_word_ariths)
  show "(48 :: u8) \<le> 48 + word_of_nat d" "48 + word_of_nat d \<le> (0x39 :: u8)"
    using assms by (simp_all add: word_le_def v)
  show "48 + word_of_nat d \<noteq> (0x3F :: u8)" using assms v by (auto simp: word_uint_eq_iff)
qed

lemma one_digit:
  assumes "parser_state t = 2" "d < 10" "csi_param_value t < 10 ^ 8"
  shows "console_handle_byte (48 + word_of_nat d) t = Some (t\<lparr>csi_param_value := max 0 (csi_param_value t) * 10 + int d\<rparr>)"
proof -
  define m where "m = max 0 (csi_param_value t)"
  have "m < 100000000" "0 \<le> m" using assms(3) by (simp_all add: m_def)
  then have "int32 (m * 10 + int d) = Some (m * 10 + int d)"
    using assms(2) unfolding int32_def by simp
  then show ?thesis
    using assms(1) digit_byte[OF assms(2)] by (simp add: console_handle_byte_def handle_param_def m_def)
qed

lemma dec_bytes:
  "parser_state t = 2 \<Longrightarrow> csi_param_value t \<le> 0 \<Longrightarrow> n < 1000 \<Longrightarrow>
   console_bytes (dec_digits n) t = Some (t\<lparr>csi_param_value := int n\<rparr>)"
proof (induction n arbitrary: t rule: dec_digits.induct)
  case (1 n)
  show ?case
  proof (cases "n < 10")
    case True
    then show ?thesis using one_digit[OF "1.prems"(1) True] "1.prems"(2)
      by (subst dec_digits.simps) (simp add: max_absorb1)
  next
    case False
    have "console_bytes (dec_digits (n div 10)) t = Some (t\<lparr>csi_param_value := int (n div 10)\<rparr>)"
      using "1.IH"[OF False "1.prems"(1,2)] "1.prems"(3) by simp
    then have "console_bytes (dec_digits n) t =
        console_handle_byte (48 + word_of_nat (n mod 10)) (t\<lparr>csi_param_value := int (n div 10)\<rparr>)"
      using False by (subst dec_digits.simps) (simp add: console_bytes_append console_bytes_one del: console_bytes.simps)
    also have "\<dots> = Some (t\<lparr>csi_param_value := int (n div 10) * 10 + int (n mod 10)\<rparr>)"
      using "1.prems" by (subst one_digit) simp_all
    also have "int (n div 10) * 10 + int (n mod 10) = int n"
      by (simp add: zdiv_int zmod_int)
    finally show ?thesis .
  qed
qed

text \<open>What the last byte of a sequence does, with its parameters read.\<close>

lemma last_byte:
  assumes "parser_state t = 2" "\<not> csi_private t" "length (csi_params t) < 8" "0x40 \<le> f"
  shows "console_bytes [f] t = map_option (reparse 0 (csi_params t @ [max 0 (csi_param_value t)]) (csi_param_value t))
    (csi_action f (csi_params t @ [max 0 (csi_param_value t)]) t)"
proof -
  have f: "f \<noteq> 0x3F" "\<not> f \<le> 0x39" "f \<noteq> 0x3B" using assms(4) by (auto simp: word_le_def)
  have m: "max 0 (csi_param_value t) = (if csi_param_value t < 0 then 0 else csi_param_value t)" by simp
  have "add_param t = reparse 2 (csi_params t @ [max 0 (csi_param_value t)]) (csi_param_value t) t"
    using assms(1,3) unfolding m by (simp add: add_param_def reparse_def)
  then have "console_bytes [f] t = map_option (\<lambda>u. u\<lparr>parser_state := 0\<rparr>)
      (map_option (reparse 2 (csi_params t @ [max 0 (csi_param_value t)]) (csi_param_value t))
        (csi_action f (csi_params t @ [max 0 (csi_param_value t)]) t))"
    using assms(1,2) f csi_screenwise
    by (simp add: console_bytes_one console_handle_byte_def handle_param_def console_handle_csi_def screenwise_def
        del: console_bytes.simps)
  then show ?thesis by (simp add: option.map_comp comp_def reparse_updates)
qed

lemma param_bytes:
  assumes "parser_state t = 2" "csi_param_value t = - 1"
  shows "console_bytes (param n) t = Some (t\<lparr>csi_param_value := (if n = 1 then - 1 else uint n)\<rparr>)"
  using assms dec_bytes[of t "unat n"] unat_u8_less[of n] by (simp add: param_def)

lemma count_bytes:
  assumes "parser_state t = 0" "\<not> csi_private t" "0x40 \<le> f"
  shows "performs (count_seq n f) (csi_action f [if n = 1 then 0 else uint n] t) t"
proof -
  define u where "u = reparse 2 [] (if n = 1 then - 1 else uint n) t"
  have "console_bytes (param n) (reparse 2 [] (- 1) t) = Some u"
    by (subst param_bytes) (simp_all add: u_def reparse_def)
  then have "console_bytes (count_seq n f) t = console_bytes [f] u"
    using open_bytes[OF assms(1)] by (simp add: count_seq_def console_bytes_append del: console_bytes.simps)
  moreover have "csi_action f ps u = map_option (reparse 2 [] (if n = 1 then - 1 else uint n)) (csi_action f ps t)" for ps
    using csi_screenwise[of f ps] by (simp add: u_def screenwise_def)
  moreover have "console_bytes [f] u = map_option (reparse 0 [if n = 1 then 0 else uint n] (csi_param_value u))
      (csi_action f [if n = 1 then 0 else uint n] u)"
    using last_byte[of u f] assms(2,3) by (simp add: u_def)
  ultimately show ?thesis by (auto simp: performs_def option.map_comp comp_def)
qed

text \<open>A sequence without parameters, and the two with two.\<close>

lemma plain_call:
  assumes "parser_state t = 0" "\<not> csi_private t" "0x40 \<le> f"
  shows "performs (csi @ [f]) (csi_action f [0] t) t"
  using count_bytes[OF assms, of 1] by (simp add: count_seq_def param_def)

lemma two_params:
  assumes "parser_state t = 0" "\<not> csi_private t" "0x40 \<le> f" "n < 1000"
    "first = [] \<and> m = 0 \<or> first = dec_digits m \<and> m < 1000"
  shows "performs (csi @ first @ [0x3B] @ dec_digits n @ [f]) (csi_action f [int m, int n] t) t"
proof -
  define v where "v = (if first = [] then - 1 else int m)"
  have p: "parser_state (reparse 2 [] (- 1) t) = 2" "csi_param_value (reparse 2 [] (- 1) t) \<le> 0" by simp_all
  have "console_bytes first (reparse 2 [] (- 1) t) = Some (reparse 2 [] v t)"
  proof (cases "first = []")
    case False
    then show ?thesis using assms(5) dec_bytes[OF p, of m] by (simp add: v_def reparse_def)
  qed (simp add: v_def)
  moreover have "max 0 v = int m" using assms(5) by (auto simp: v_def dec_digits.simps[of m] split: if_splits)
  then have "console_bytes [0x3B] (reparse 2 [] v t) = Some (reparse 2 [int m] (- 1) t)"
    by (auto simp: console_bytes_one console_handle_byte_def handle_param_def add_param_def reparse_def max_def
        simp del: console_bytes.simps split: if_splits)
  moreover have "console_bytes (dec_digits n) (reparse 2 [int m] (- 1) t) = Some (reparse 2 [int m] (int n) t)"
    by (subst dec_bytes) (simp_all add: assms(4) reparse_def)
  ultimately have "console_bytes (csi @ first @ [0x3B] @ dec_digits n @ [f]) t = console_bytes [f] (reparse 2 [int m] (int n) t)"
    unfolding open_bytes[OF assms(1)] by (simp only: console_bytes_append Option.bind.simps)
  moreover have "csi_action f ps (reparse 2 [int m] (int n) t) = map_option (reparse 2 [int m] (int n)) (csi_action f ps t)" for ps
    using csi_screenwise[of f ps] by (simp add: screenwise_def)
  ultimately show ?thesis
    using last_byte[of "reparse 2 [int m] (int n) t" f] assms(2,3) by (auto simp: performs_def option.map_comp comp_def)
qed

section \<open>The calls on the terminal\<close>

lemma or_one_max: "or_one (if n = 1 then 0 else uint n) = max 1 (uint n)" for n :: u8
  by (auto simp: or_one_def max_def word_uint_eq_iff) (use uint_u8_bounds(1)[of n] in linarith)

lemma or_one_max': "or_one (uint n) = max 1 (uint n)" for n :: u8
  by (auto simp: or_one_def max_def) (use uint_u8_bounds(1)[of n] in linarith)

lemma goto_call:
  assumes "parser_state t = 0" "\<not> csi_private t"
  shows "performs (direct_io_screen SCR_GOTO a y) (screen_call SCR_GOTO a y t) t"
proof (cases "y = 1")
  case True
  then show ?thesis
    using count_bytes[OF assms, of "0x48" a] uint_u8_bounds(1)[of a]
    by (simp add: direct_io_screen_def count_seq_def screen_call_def csi_action_def cursor_to_def or_one_max Let_def)
      (simp add: or_one_def)
next
  case False
  have u: "unat a < 1000" "unat y < 1000" using unat_u8_less[of a] unat_u8_less[of y] by simp_all
  have "performs (csi @ param a @ [0x3B] @ dec_digits (unat y) @ [0x48])
      (csi_action 0x48 [int (if a = 1 then 0 else unat a), int (unat y)] t) t"
    using u by (intro two_params assms) (auto simp: param_def)
  moreover have "int (if a = 1 then 0 else unat a) = (if a = 1 then 0 else uint a)" by simp
  ultimately show ?thesis
    using False by (simp add: direct_io_screen_def screen_call_def csi_action_def cursor_to_def or_one_max or_one_max' Let_def)
qed

lemma region_call:
  assumes "parser_state t = 0" "\<not> csi_private t"
  shows "performs (direct_io_screen SCR_REGION a y) (screen_call SCR_REGION a y t) t"
proof -
  have u: "unat a < 1000" "unat y < 1000" using unat_u8_less[of a] unat_u8_less[of y] by simp_all
  have "y = 0 \<longleftrightarrow> uint y = 0" by (simp add: uint_0_iff)
  then have e: "csi_action 0x72 [int (unat a), int (unat y)] t = screen_call SCR_REGION a y t"
    by (simp add: screen_call_def csi_action_def or_one_max' Let_def)
  have "performs (csi @ dec_digits (unat a) @ [0x3B] @ dec_digits (unat y) @ [0x72])
      (csi_action 0x72 [int (unat a), int (unat y)] t) t"
    using u by (intro two_params assms) simp_all
  then show ?thesis by (simp only: e) (simp add: direct_io_screen_def)
qed

lemma clear_call:
  assumes "parser_state t = 0" "\<not> csi_private t"
  shows "performs (direct_io_screen SCR_CLEAR a y) (screen_call SCR_CLEAR a y t) t"
proof -
  obtain ps v where one: "console_bytes (csi @ [0x32, 0x4A]) t = map_option (reparse 0 ps v) (console_clear_screen 2 t)"
    using count_bytes[OF assms, of "0x4A" 2]
    by (auto simp: performs_def count_seq_def param_def dec_digits.simps csi_action_def Let_def simp del: console_bytes.simps)
  have all: "console_bytes (direct_io_screen SCR_CLEAR a y) t =
      map_option (reparse 0 ps v) (console_clear_screen 2 t) \<bind> console_bytes (csi @ [0x48])"
    using console_bytes_append[of "csi @ [0x32, 0x4A]" "csi @ [0x48]" t] unfolding one
    by (simp add: direct_io_screen_def del: console_bytes.simps)
  show ?thesis
  proof (cases "console_clear_screen 2 t")
    case (Some u)
    have "\<not> csi_private u" "screen_rows u = screen_rows t" "screen_cols u = screen_cols t"
      using Some assms(2) by (auto simp: console_clear_screen_def blank_cells_def bind_eq_Some_conv split: if_splits)
    then show ?thesis
      using plain_call[of "reparse 0 ps v u" "0x48"] Some
      by (auto simp: performs_def all screen_call_def csi_action_def cursor_to_def or_one_def reparse_updates Let_def
          simp del: console_bytes.simps)
  qed (simp add: performs_def all screen_call_def Let_def del: console_bytes.simps)
qed

text \<open>The rest have one parameter or none.\<close>

lemma cursor_mode_call:
  assumes "parser_state t = 0" "\<not> csi_private t" "f = 0x68 \<or> f = 0x6C"
  shows "performs (csi @ [0x3F, 0x32, 0x35, f]) (Some t) t"
proof -
  have "f \<noteq> 0x3B" "f \<noteq> 0x3F" "\<not> f \<le> 0x39" using assms(3) by auto
  then have "console_bytes (csi @ [0x3F, 0x32, 0x35, f]) t = Some (reparse 0 [25] 25 (t\<lparr>csi_private := False\<rparr>))"
    using assms(1,2) by (simp add: open_bytes del: append.simps)
      (simp add: console_handle_byte_def handle_param_def console_handle_csi_def add_param_def int32_def reparse_def)
  moreover have "t\<lparr>csi_private := False\<rparr> = t" using assms(2) by simp
  ultimately show ?thesis by (auto simp: performs_def simp del: console_bytes.simps)
qed

lemma via_plain:
  assumes "parser_state t = 0" "\<not> csi_private t" "0x40 \<le> f" "direct_io_screen op a y = csi @ [f]"
    "screen_call op a y t = csi_action f [0] t"
  shows "performs (direct_io_screen op a y) (screen_call op a y t) t"
  unfolding assms(4,5) by (rule plain_call[OF assms(1-3)])

lemma via_count:
  assumes "parser_state t = 0" "\<not> csi_private t" "0x40 \<le> f" "direct_io_screen op a y = count_seq n f"
    "screen_call op a y t = csi_action f [if n = 1 then 0 else uint n] t"
  shows "performs (direct_io_screen op a y) (screen_call op a y t) t"
  unfolding assms(4,5) by (rule count_bytes[OF assms(1-3)])

lemma plain_action:
  "screen_call SCR_CLEAR_EOL a y t = csi_action 0x4B [0] t" "screen_call SCR_NORMAL a y t = csi_action 0x6D [0] t"
  "screen_call SCR_REGION_RESET a y t = csi_action 0x72 [0] t" "screen_call SCR_REVERSE a y t = csi_action 0x6D [7] t"
  by (simp_all add: screen_call_def csi_action_def sgr_def or_one_def Let_def)

lemma counted_action:
  defines "p \<equiv> \<lambda>a :: u8. if a = 1 then 0 else uint a"
  shows "screen_call SCR_INSERT a y t = csi_action 0x40 [p a] t" "screen_call SCR_DELETE a y t = csi_action 0x50 [p a] t"
    "screen_call SCR_SCROLL_UP a y t = csi_action 0x53 [p a] t" "screen_call SCR_SCROLL_DOWN a y t = csi_action 0x54 [p a] t"
    "screen_call SCR_INSERT_LINES a y t = csi_action 0x4C [p a] t"
    "screen_call SCR_DELETE_LINES a y t = csi_action 0x4D [p a] t"
proof -
  have o: "or_one (p a) = max 1 (uint a)" unfolding p_def by (rule or_one_max)
  have "max 1 (p a) = max 1 (uint a)" by (simp add: p_def)
  then have "console_shift_chars (p a) ins t = console_shift_chars (max 1 (uint a)) ins t" for ins
    by (simp add: console_shift_chars_def)
  then show "screen_call SCR_INSERT a y t = csi_action 0x40 [p a] t" "screen_call SCR_DELETE a y t = csi_action 0x50 [p a] t"
    "screen_call SCR_SCROLL_UP a y t = csi_action 0x53 [p a] t" "screen_call SCR_SCROLL_DOWN a y t = csi_action 0x54 [p a] t"
    "screen_call SCR_INSERT_LINES a y t = csi_action 0x4C [p a] t"
    "screen_call SCR_DELETE_LINES a y t = csi_action 0x4D [p a] t"
    by (simp_all add: screen_call_def csi_action_def o Let_def)
qed

lemma screen_call_performs:
  assumes "parser_state t = 0" "\<not> csi_private t"
  shows "performs (direct_io_screen op a y) (screen_call op a y t) t"
proof -
  note p = via_plain[OF assms] and c = via_count[OF assms]
  have z: "screen_call op a y t = csi_action f [if a = 1 then 0 else uint a] t"
    if "(op, f) \<in> {(9, 0x40), (10, 0x50), (11, 0x53), (12, 0x54), (13, 0x4C), (14, 0x4D)}" for f
    using that by (elim insertE emptyE) (simp_all add: counted_action)
  consider "op = 0" | "op = 1" | "op = 2" | "op = 3" | "op = 4" | "op = 5" | "op = 6" | "op = 7" | "op = 8" | "op = 9"
    | "op = 10" | "op = 11" | "op = 12" | "op = 13" | "op = 14"
    | "op \<notin> {0, 1, 2, 3, 4, 5, 6, 7, 8, 9, 10, 11, 12, 13, 14}" by blast
  then show ?thesis
  proof cases
    case 1
    then show ?thesis using goto_call[OF assms] by (simp del: console_bytes.simps)
  next
    case 2
    then show ?thesis using clear_call[OF assms] by (simp del: console_bytes.simps)
  next
    case 3
    then show ?thesis by (intro p[where f = "0x4B"]) (simp_all add: direct_io_screen_def plain_action)
  next
    case 4
    then show ?thesis using cursor_mode_call[OF assms, of "0x68"]
      by (simp add: direct_io_screen_def screen_call_def Let_def del: console_bytes.simps)
  next
    case 5
    then show ?thesis using cursor_mode_call[OF assms, of "0x6C"]
      by (simp add: direct_io_screen_def screen_call_def Let_def del: console_bytes.simps)
  next
    case 6
    then show ?thesis
      by (intro c[where f = "0x6D" and n = 7]) (simp_all add: direct_io_screen_def count_seq_def param_def dec_digits.simps plain_action)
  next
    case 7
    then show ?thesis by (intro p[where f = "0x6D"]) (simp_all add: direct_io_screen_def plain_action)
  next
    case 8
    then show ?thesis using region_call[OF assms] by (simp del: console_bytes.simps)
  next
    case 9
    then show ?thesis by (intro p[where f = "0x72"]) (simp_all add: direct_io_screen_def plain_action)
  next
    case 10
    then show ?thesis using z[of "0x40"] by (intro c[where f = "0x40" and n = a]) (simp_all add: direct_io_screen_def)
  next
    case 11
    then show ?thesis using z[of "0x50"] by (intro c[where f = "0x50" and n = a]) (simp_all add: direct_io_screen_def)
  next
    case 12
    then show ?thesis using z[of "0x53"] by (intro c[where f = "0x53" and n = a]) (simp_all add: direct_io_screen_def)
  next
    case 13
    then show ?thesis using z[of "0x54"] by (intro c[where f = "0x54" and n = a]) (simp_all add: direct_io_screen_def)
  next
    case 14
    then show ?thesis using z[of "0x4C"] by (intro c[where f = "0x4C" and n = a]) (simp_all add: direct_io_screen_def)
  next
    case 15
    then show ?thesis using z[of "0x4D"] by (intro c[where f = "0x4D" and n = a]) (simp_all add: direct_io_screen_def)
  next
    case 16
    then have "direct_io_screen op a y = []" "screen_call op a y t = Some t"
      by (simp_all add: direct_io_screen_def screen_call_def Let_def)
    moreover have "reparse 0 (csi_params t) (csi_param_value t) t = t" using assms(1) by (simp add: reparse_def)
    ultimately show ?thesis
      unfolding performs_def by (intro exI[of _ "csi_params t"] exI[of _ "csi_param_value t"]) simp
  qed
qed

text \<open>
  Property C12: every screen call of the direct interface does what it says. The terminal, given
  the bytes of a call between two sequences, ends up as the call's meaning has it, again between
  two sequences, up to the parser's scratch: any row, column, margin or count a byte can hold, on
  any screen.
\<close>

theorem screen_calls:
  assumes "parser_state t = 0" "\<not> csi_private t"
  shows "\<exists>ps v. console_bytes (direct_io_screen op a y) t = map_option (reparse 0 ps v) (screen_call op a y t)"
  using screen_call_performs[OF assms] by (simp add: performs_def)

theorem screen_calls_witness:
  "\<exists>ps v. console_resize 24 80 console_init \<bind> console_bytes (direct_io_screen SCR_GOTO 5 200) =
     Some (reparse 0 ps v (the (console_resize 24 80 console_init)\<lparr>cursor_row := 4, cursor_col := 79\<rparr>))"
proof -
  obtain t where t: "console_resize 24 80 console_init = Some t" "screen_rows t = 24" "screen_cols t = 80"
    "parser_state t = 0" "\<not> csi_private t"
    by (simp add: console_resize_def console_init_def)
  have "(max 1 (uint (5 :: u8))) = 5" "max 1 (uint (200 :: u8)) = 200" by simp_all
  then show ?thesis
    using screen_calls[OF t(4,5), of SCR_GOTO 5 200] by (simp add: t screen_call_def Let_def)
qed

section \<open>Text on the screen\<close>

text \<open>Where text starts in the grid, and the grid with the text over it.\<close>

definition cursor_index :: "console \<Rightarrow> nat" where
  "cursor_index t = nat (cursor_row t * screen_cols t + cursor_col t)"

definition overlay :: "nat \<Rightarrow> 'a list \<Rightarrow> 'a list \<Rightarrow> 'a list" where
  "overlay i new old = take i old @ new @ drop (i + length new) old"

lemma overlay_Cons:
  "i < length old \<Longrightarrow> overlay (i + 1) new (overlay i [x] old) = overlay i (x # new) old"
  by (simp add: overlay_def min_absorb2 take_Suc_conv_app_nth add.commute)

lemma put_char_overlay:
  assumes "cursor_ok t" "cursor_col t + 1 < screen_cols t"
  shows "console_put_char ch t = Some (t\<lparr>screen_cells := overlay (cursor_index t) [ch] (screen_cells t),
     screen_attr := overlay (cursor_index t) [current_attr t] (screen_attr t), cursor_col := cursor_col t + 1\<rparr>)"
proof -
  define i where "i = cursor_row t * screen_cols t + cursor_col t"
  have i: "0 \<le> i" "i + 1 \<le> screen_rows t * screen_cols t"
    using assms(1) row_in[of "cursor_row t" "screen_rows t" "screen_cols t"] by (auto simp: cursor_ok_def i_def)
  have m: "memset_at i v 1 xs = Some (overlay (cursor_index t) [v] xs)"
    if "int (length xs) = screen_rows t * screen_cols t" for v :: u8 and xs
    using i that by (simp add: memset_at_def overlay_def cursor_index_def i_def[symmetric] nat_add_distrib)
  have "put_here ch t = Some (t\<lparr>screen_cells := overlay (cursor_index t) [ch] (screen_cells t),
     screen_attr := overlay (cursor_index t) [current_attr t] (screen_attr t)\<rparr>)"
    using assms(1) m cursor_int32[OF assms(1)] by (simp add: put_here_def i_def[symmetric] cursor_ok_def grid_ok_def)
  moreover have "wrap_at_edge (t\<lparr>cursor_row := max 0 (cursor_row t), cursor_col := max 0 (cursor_col t)\<rparr>) = Some t"
    using assms by (simp add: wrap_at_edge_def cursor_ok_def)
  moreover have "\<not> no_screen t" using assms(1) by (auto simp: cursor_ok_def grid_ok_def no_screen_def)
  ultimately show ?thesis
    using assms cursor_int32(2)[OF assms(1)] by (simp add: console_put_char_def cursor_ok_def wrap_at_edge_def)
qed

lemma length_overlay: "i + length new \<le> length old \<Longrightarrow> length (overlay i new old) = length old"
  by (simp add: overlay_def)

lemma text_bytes:
  assumes "cursor_ok t" "parser_state t = 0" "cursor_col t + int (length bytes) < screen_cols t" "list_all (\<lambda>ch. ch \<ge> 0x20) bytes"
  shows "console_bytes bytes t = Some (t\<lparr>screen_cells := overlay (cursor_index t) bytes (screen_cells t),
     screen_attr := overlay (cursor_index t) (replicate (length bytes) (current_attr t)) (screen_attr t),
     cursor_col := cursor_col t + int (length bytes)\<rparr>)"
  using assms
proof (induction bytes arbitrary: t)
  case Nil
  then show ?case by (simp add: overlay_def)
next
  case (Cons ch chs)
  define u where "u = t\<lparr>screen_cells := overlay (cursor_index t) [ch] (screen_cells t),
     screen_attr := overlay (cursor_index t) [current_attr t] (screen_attr t), cursor_col := cursor_col t + 1\<rparr>"
  have c: "0x20 \<le> ch" "ch \<noteq> 0x1B" "ch \<noteq> 0x0D" "ch \<noteq> 0x0A" "ch \<noteq> 8" "ch \<noteq> 9"
    using Cons.prems(4) by auto
  then have h: "console_handle_byte ch t = Some u"
    using Cons.prems by (simp add: console_handle_byte_def handle_ground_def put_char_overlay u_def)
  have n: "0 \<le> cursor_row t * screen_cols t" "0 \<le> cursor_col t"
    "cursor_row t * screen_cols t + screen_cols t \<le> screen_rows t * screen_cols t"
    using Cons.prems(1) row_in[of "cursor_row t" "screen_rows t" "screen_cols t"] by (auto simp: cursor_ok_def)
  have len: "cursor_index t < length (screen_cells t)" "cursor_index t < length (screen_attr t)"
  proof -
    have "cursor_row t * screen_cols t + cursor_col t < screen_rows t * screen_cols t"
      using n Cons.prems(1) by (auto simp: cursor_ok_def)
    then show "cursor_index t < length (screen_cells t)" "cursor_index t < length (screen_attr t)"
      using Cons.prems(1) n by (simp_all add: cursor_ok_def grid_ok_def cursor_index_def nat_less_iff)
  qed
  have ok: "cursor_ok u"
    using Cons.prems(1,3) len by (simp add: cursor_ok_def grid_ok_def u_def length_overlay Suc_le_eq)
  have ix: "cursor_index u = cursor_index t + 1" using n by (simp add: cursor_index_def u_def nat_add_distrib)
  have "console_bytes chs u = Some (u\<lparr>screen_cells := overlay (cursor_index u) chs (screen_cells u),
     screen_attr := overlay (cursor_index u) (replicate (length chs) (current_attr u)) (screen_attr u),
     cursor_col := cursor_col u + int (length chs)\<rparr>)"
    using Cons.prems ok by (intro Cons.IH) (simp_all add: u_def)
  then show ?case
    using overlay_Cons[OF len(1)] overlay_Cons[OF len(2)] by (simp add: h ix) (simp add: u_def)
qed

text \<open>
  Property C31: text goes where it is sent. After a call to a row and a column, printable text that
  ends before the last column is in the grid from that cell on, with the attribute in force, and
  no other cell has changed; the cursor is after it.
\<close>

theorem text_at_cursor:
  assumes "cursor_ok t" "parser_state t = 0" "\<not> csi_private t" "1 \<le> uint a" "uint a \<le> screen_rows t" "1 \<le> uint y"
    "uint y + int (length text) \<le> screen_cols t" "list_all (\<lambda>ch. ch \<ge> 0x20) text"
  defines "i \<equiv> nat ((uint a - 1) * screen_cols t + (uint y - 1))"
  shows "\<exists>u. console_bytes (direct_io_screen SCR_GOTO a y @ text) t = Some u \<and>
    screen_cells u = overlay i text (screen_cells t) \<and>
    screen_attr u = overlay i (replicate (length text) (current_attr t)) (screen_attr t) \<and>
    cursor_row u = uint a - 1 \<and> cursor_col u = uint y - 1 + int (length text)"
proof -
  define v where "v = t\<lparr>cursor_row := uint a - 1, cursor_col := uint y - 1\<rparr>"
  have "screen_call SCR_GOTO a y t = Some v"
    using assms(4-7) by (simp add: screen_call_def Let_def v_def)
  then obtain ps p where g: "console_bytes (direct_io_screen SCR_GOTO a y) t = Some (reparse 0 ps p v)"
    using screen_call_performs[OF assms(2,3), of SCR_GOTO a y] by (auto simp: performs_def)
  have "cursor_ok (reparse 0 ps p v)"
    using assms(1,4-7) by (auto simp: v_def reparse_def cursor_ok_def grid_ok_def)
  moreover have "cursor_col (reparse 0 ps p v) + int (length text) < screen_cols (reparse 0 ps p v)"
    using assms(7) by (simp add: v_def)
  ultimately show ?thesis
    using text_bytes[OF _ _ _ assms(8), of "reparse 0 ps p v"]
    by (simp add: console_bytes_append g) (simp add: cursor_index_def reparse_def v_def i_def)
qed

theorem text_at_cursor_witness:
  "\<exists>t u. console_resize 24 80 console_init = Some t \<and> console_bytes (direct_io_screen SCR_GOTO 5 3 @ [72, 105]) t = Some u \<and>
     take 2 (drop 322 (screen_cells u)) = [72, 105]"
proof -
  obtain t where t: "console_resize 24 80 console_init = Some t" "console_sane 0 t" "screen_rows t = 24" "screen_cols t = 80"
    using resize_from_nothing[of 24 80] by auto
  have p: "parser_state t = 0" "\<not> csi_private t" using t(1) by (auto simp: console_resize_def console_init_def)
  have len: "length (screen_cells t) = 1920" using t(2-4) by (simp add: console_sane_def cursor_ok_def grid_ok_def)
  have ok: "cursor_ok t" using t(2) by (simp add: console_sane_def)
  have h: "1 \<le> uint (5 :: u8)" "uint (5 :: u8) \<le> screen_rows t" "1 \<le> uint (3 :: u8)"
    "uint (3 :: u8) + int (length [72, 105 :: u8]) \<le> screen_cols t" "list_all (\<lambda>ch :: u8. ch \<ge> 0x20) [72, 105]"
    by (simp_all add: t)
  obtain u where "console_bytes (direct_io_screen SCR_GOTO 5 3 @ [72, 105]) t = Some u"
    "screen_cells u = overlay 322 [72, 105] (screen_cells t)"
    using text_at_cursor[OF ok p h] by (auto simp: t)
  then show ?thesis using t(1) len by (intro exI[of _ t] exI[of _ u]) (simp add: overlay_def)
qed

section \<open>Keys\<close>

abbreviation (input) KEY_UP :: u8 where "KEY_UP \<equiv> 0x80"
abbreviation (input) KEY_DOWN :: u8 where "KEY_DOWN \<equiv> 0x81"
abbreviation (input) KEY_LEFT :: u8 where "KEY_LEFT \<equiv> 0x82"
abbreviation (input) KEY_RIGHT :: u8 where "KEY_RIGHT \<equiv> 0x83"
abbreviation (input) KEY_HOME :: u8 where "KEY_HOME \<equiv> 0x84"
abbreviation (input) KEY_END :: u8 where "KEY_END \<equiv> 0x85"
abbreviation (input) KEY_PGUP :: u8 where "KEY_PGUP \<equiv> 0x86"
abbreviation (input) KEY_PGDN :: u8 where "KEY_PGDN \<equiv> 0x87"
abbreviation (input) KEY_DEL :: u8 where "KEY_DEL \<equiv> 0x88"
abbreviation (input) KEY_WORD_FWD :: u8 where "KEY_WORD_FWD \<equiv> 0x89"
abbreviation (input) KEY_WORD_BACK :: u8 where "KEY_WORD_BACK \<equiv> 0x8A"
abbreviation (input) KEY_ESC :: u8 where "KEY_ESC \<equiv> 0x1B"
abbreviation (input) KEY_BS :: u8 where "KEY_BS \<equiv> 0x08"

text \<open>
  The input: a blocking read, and a wait that answers $FF when a byte has arrived. The bytes put
  back are a stack, its top first.
\<close>

record 's direct_io_input =
  input_read :: "'s \<Rightarrow> u8 \<times> 's"
  input_wait :: "u16 \<Rightarrow> 's \<Rightarrow> u8 \<times> 's"

type_synonym 's keys = "u8 list \<times> 's"

definition ESC_WAIT_MS :: u16 where "ESC_WAIT_MS = 100"

definition read_byte :: "'s direct_io_input \<Rightarrow> 's keys \<Rightarrow> u8 \<times> 's keys" where
  "read_byte io = (\<lambda>(pushback, s). case pushback of
     b # bs \<Rightarrow> (b, bs, s) | [] \<Rightarrow> (let (b, s) = input_read io s in (b, [], s)))"

definition unread :: "u8 \<Rightarrow> 's keys \<Rightarrow> 's keys" where
  "unread b = (\<lambda>(pushback, s). (b # pushback, s))"

definition wait_byte :: "'s direct_io_input \<Rightarrow> 's keys \<Rightarrow> bool \<times> 's keys" where
  "wait_byte io = (\<lambda>(pushback, s). let (r, s) = input_wait io ESC_WAIT_MS s in (r = 0xFF, pushback, s))"

text \<open>The rest of an unknown sequence is dropped; on an endless one this does not return.\<close>

partial_function (option) eat :: "'s direct_io_input \<Rightarrow> u8 \<Rightarrow> 's keys \<Rightarrow> (u8 \<times> 's keys) option" where
  "eat io b k = (if b \<noteq> 0 \<and> b < 0x40 then (let (b, k) = read_byte io k in eat io b k) else Some (0, k))"

definition final_keys :: "u8 list" where
  "final_keys = [KEY_UP, KEY_DOWN, KEY_RIGHT, KEY_LEFT, 0, KEY_END, 0, KEY_HOME]"

definition tilde_keys :: "u8 list" where
  "tilde_keys = [KEY_HOME, 0, KEY_DEL, KEY_END, KEY_PGUP, KEY_PGDN, KEY_HOME, KEY_END]"

definition read_csi :: "'s direct_io_input \<Rightarrow> 's keys \<Rightarrow> (u8 \<times> 's keys) option" where
  "read_csi io k =
     (let (b, k) = read_byte io k in
      if b \<ge> 0x41 then (if b \<le> 0x48 then Some (final_keys ! unat (b - 0x41), k) else eat io b k)
      else if b < 0x31 \<or> b \<ge> 0x39 then eat io b k
      else let d = b; (b, k) = read_byte io k in
        if b = 0x7E then Some (tilde_keys ! unat (d - 0x31), k)
        else if b \<noteq> 0x3B then eat io b k
        else let (b, k) = read_byte io k in
          if b \<noteq> 0x35 then eat io b k
          else let (b, k) = read_byte io k in
            if b = 0x43 then Some (KEY_WORD_FWD, k)
            else if b = 0x44 then Some (KEY_WORD_BACK, k)
            else eat io b k)"

definition direct_io_read_key :: "'s direct_io_input \<Rightarrow> 's keys \<Rightarrow> (u8 \<times> 's keys) option" where
  "direct_io_read_key io k =
     (let (b, k) = read_byte io k in
      if b < 0x7F \<and> b \<noteq> KEY_ESC then Some (b, k)
      else if b = 0x7F then Some (KEY_BS, k)
      else if b > 0x7F then Some (0, k)
      else let (arrived, k) = wait_byte io k in
        if \<not> arrived then Some (KEY_ESC, k)
        else let (b, k) = read_byte io k in
          if b = 0x5B then read_csi io k
          else if b = 0x4F then
            (let (arrived, k) = wait_byte io k in
             if \<not> arrived then Some (KEY_ESC, unread 0x4F k)
             else let (b, k) = read_byte io k in
               if 0x50 \<le> b \<and> b \<le> 0x53 then Some (0, k)
               else Some (KEY_ESC, unread 0x4F (unread b k)))
          else Some (KEY_ESC, unread b k))"

section \<open>What is put back\<close>

lemma read_byte_pushback: "length (fst (snd (read_byte io k))) \<le> length (fst k) - 1"
  by (cases k) (auto simp: read_byte_def split: list.split prod.split)

lemma read_byte_le: "read_byte io k = (b, k') \<Longrightarrow> length (fst k') \<le> length (fst k) - 1"
  using read_byte_pushback[of io k] by simp

lemma wait_byte_pushback: "wait_byte io k = (r, k') \<Longrightarrow> fst k' = fst k"
  by (cases k) (auto simp: wait_byte_def split: prod.splits)

lemma eat_pushback:
  assumes "eat io b k = Some r"
  shows "length (fst (snd r)) \<le> length (fst k)"
proof (rule eat.raw_induct[where P = "\<lambda>io b k r. length (fst (snd r)) \<le> length (fst k)", OF _ assms])
  fix f :: "'a direct_io_input \<Rightarrow> u8 \<Rightarrow> 'a keys \<Rightarrow> (u8 \<times> 'a keys) option" and io b k r
  assume IH: "\<And>io b k r. f io b k = Some r \<Longrightarrow> length (fst (snd r)) \<le> length (fst k)"
    and e: "(if b \<noteq> 0 \<and> b < 0x40 then (let (b, k) = read_byte io k in f io b k) else Some (0, k)) = Some r"
  obtain b' k' where n: "read_byte io k = (b', k')" by (rule prod.exhaust)
  show "length (fst (snd r)) \<le> length (fst k)"
    using e IH[of io b' k' r] read_byte_le[OF n] by (auto simp: n split: if_splits)
qed

text \<open>A key read keeps at most two bytes put back, the room there is for them.\<close>

lemma csi_pushback: "read_csi io k = Some r \<Longrightarrow> length (fst (snd r)) \<le> length (fst k)"
  by (auto simp: read_csi_def Let_def split: prod.splits if_splits dest!: eat_pushback read_byte_le)

lemma read_key_pushback:
  assumes "direct_io_read_key io k = Some r" "length (fst k) \<le> 2"
  shows "length (fst (snd r)) \<le> 2"
proof -
  obtain b k1 where b: "read_byte io k = (b, k1)" by (rule prod.exhaust)
  obtain a k2 where a: "wait_byte io k1 = (a, k2)" by (rule prod.exhaust)
  obtain c k3 where c: "read_byte io k2 = (c, k3)" by (rule prod.exhaust)
  obtain d k4 where d: "wait_byte io k3 = (d, k4)" by (rule prod.exhaust)
  obtain e k5 where e: "read_byte io k4 = (e, k5)" by (rule prod.exhaust)
  have l: "length (fst k1) \<le> 1" "length (fst k2) \<le> 1" "length (fst k3) = 0" "length (fst k4) = 0" "length (fst k5) = 0"
    using read_byte_le[OF b] wait_byte_pushback[OF a] read_byte_le[OF c] wait_byte_pushback[OF d] read_byte_le[OF e] assms(2)
    by simp_all
  have u: "length (fst (unread x z)) = Suc (length (fst z))" for x and z :: "'a keys" by (cases z) (simp add: unread_def)
  show ?thesis
    using assms(1) l csi_pushback[of io k3 r]
    by (auto simp: direct_io_read_key_def b a c d e u Let_def split: if_splits)
qed

section \<open>Keys typed\<close>

text \<open>Bytes that have all arrived, and then the end of the input.\<close>

definition typed :: "u8 list direct_io_input" where
  "typed = \<lparr>input_read = (\<lambda>s. case s of [] \<Rightarrow> (0, []) | b # bs \<Rightarrow> (b, bs)),
     input_wait = (\<lambda>_ s. (if s = [] then 0x01 else 0xFF, s))\<rparr>"

lemma typed_read [simp]:
  "read_byte typed ([], b # bs) = (b, [], bs)" "read_byte typed (p # ps, bs) = (p, ps, bs)"
  "read_byte typed ([], []) = (0, [], [])" "wait_byte typed (ps, b # bs) = (True, ps, b # bs)"
  "wait_byte typed (ps, []) = (False, ps, [])"
  by (simp_all add: read_byte_def wait_byte_def typed_def)

text \<open>The bytes terminals send for a key.\<close>

definition key_bytes :: "u8 \<Rightarrow> u8 list list" where
  "key_bytes key =
     (if key = KEY_UP then [csi @ [0x41]] else if key = KEY_DOWN then [csi @ [0x42]]
      else if key = KEY_RIGHT then [csi @ [0x43]] else if key = KEY_LEFT then [csi @ [0x44]]
      else if key = KEY_HOME then [csi @ [0x48], csi @ [0x31, 0x7E], csi @ [0x37, 0x7E]]
      else if key = KEY_END then [csi @ [0x46], csi @ [0x34, 0x7E], csi @ [0x38, 0x7E]]
      else if key = KEY_PGUP then [csi @ [0x35, 0x7E]] else if key = KEY_PGDN then [csi @ [0x36, 0x7E]]
      else if key = KEY_DEL then [csi @ [0x33, 0x7E]]
      else if key = KEY_WORD_FWD then [csi @ [0x31, 0x3B, 0x35, 0x43]]
      else if key = KEY_WORD_BACK then [csi @ [0x31, 0x3B, 0x35, 0x44]]
      else if key = KEY_BS then [[0x7F], [0x08]] else if key < 0x7F \<and> key \<noteq> KEY_ESC then [[key]] else [])"

lemma eat_typed: "\<exists>bs'. eat typed b ([], bs) = Some (0, [], bs')"
proof (induction bs arbitrary: b)
  case Nil
  have "eat typed 0 ([], []) = Some (0, [], [])" by (subst eat.simps) simp
  then show ?case by (subst eat.simps) simp
next
  case (Cons c bs)
  then show ?case by (subst eat.simps) simp
qed

lemma eat_typed_any: "\<exists>ps' bs'. eat typed b (ps, bs) = Some (0, ps', bs')"
proof (induction ps arbitrary: b)
  case Nil
  then show ?case using eat_typed by blast
next
  case (Cons p ps)
  then show ?case by (subst eat.simps) simp
qed

lemma read_key_typed: "\<exists>key k'. direct_io_read_key typed k = Some (key, k')"
proof -
  have e: "\<exists>key k'. eat typed b k = Some (key, k')" for b k
    using eat_typed_any by (cases k) fast
  have "\<exists>key k'. read_csi typed k = Some (key, k')" for k
    using e by (auto simp: read_csi_def Let_def split: prod.split)
  then show ?thesis by (auto simp: direct_io_read_key_def Let_def split: prod.split)
qed

text \<open>
  Property C29: keys are decoded, and input is safe. Every sequence a terminal sends for a key of
  the editor, arriving with anything after it, is that key, and exactly its bytes are gone. On any
  bytes that arrive the decoder returns, and it never puts back more than the two bytes there is
  room for, on any input device.
\<close>

theorem keys_decoded:
  "(bytes \<in> set (key_bytes key) \<longrightarrow> direct_io_read_key typed ([], bytes @ rest) = Some (key, [], rest)) \<and>
   (\<exists>key' k'. direct_io_read_key typed (pushed, arrived) = Some (key', k')) \<and>
   (direct_io_read_key io k = Some r \<and> length (fst k) \<le> 2 \<longrightarrow> length (fst (snd r)) \<le> 2)"
proof -
  have "direct_io_read_key typed ([], bytes @ rest) = Some (key, [], rest)" if "bytes \<in> set (key_bytes key)"
    using that
    by (auto simp: key_bytes_def direct_io_read_key_def read_csi_def final_keys_def tilde_keys_def Let_def split: if_splits)
  then show ?thesis using read_key_typed[of "(pushed, arrived)"] read_key_pushback[of io k r] by auto
qed

theorem keys_decoded_witness:
  "direct_io_read_key typed ([], [0x1B, 0x5B, 0x31, 0x3B, 0x35, 0x43] @ [0x41]) = Some (KEY_WORD_FWD, [], [0x41])"
proof -
  have "[0x1B, 0x5B, 0x31, 0x3B, 0x35, 0x43] \<in> set (key_bytes KEY_WORD_FWD)" by (simp add: key_bytes_def)
  with keys_decoded[where bytes = "[0x1B, 0x5B, 0x31, 0x3B, 0x35, 0x43]" and key = KEY_WORD_FWD and rest = "[0x41]" and
      pushed = "[]" and arrived = "[]" and io = typed and k = "([], [])" and r = "(0, [], [])"]
  show ?thesis by blast
qed

end
