(* ===== verification/Plain_Files.thy ===== *)
theory Plain_Files imports Syscall_Ports "HOL-Library.Monad_Syntax"
begin

text \<open>
  File and directory handles of the plain machine (\<open>src/emulator/file_io.c\<close>), over the model of the
  C library's files. A program that opens too many files or uses a handle that is not open ends
  with exit code 1: None. What \<open>scandir\<close> and \<open>stat\<close> find is a parameter.
\<close>

section \<open>State\<close>

text \<open>
  Handle \<open>h\<close> is at index \<open>h - 1\<close>; the standard input is handle 1. An open directory is its listing
  as text and a position.
\<close>

definition FILE_IO_MAX_HANDLES :: nat where "FILE_IO_MAX_HANDLES = 255"

record dir_state =
  dir_buffer :: "u8 list"
  buf_pos :: nat

record file_table =
  io_files :: "u8 \<Rightarrow> stream option"
  io_dirs :: "u8 \<Rightarrow> dir_state option"
  io_disk :: disk

definition files_init :: "stream \<Rightarrow> file_table \<Rightarrow> file_table" where
  "files_init input t = t\<lparr>io_files := (\<lambda>x. if x = 0 then Some input else None), io_dirs := (\<lambda>x. None)\<rparr>"

section \<open>Files\<close>

definition free_index :: "file_table \<Rightarrow> u8 option" where
  "free_index t = List.find (\<lambda>x. io_files t x = None \<and> io_dirs t x = None) (map word_of_nat [1..<FILE_IO_MAX_HANDLES])"

definition file_open_with_mode ::
  "(string \<Rightarrow> disk \<Rightarrow> (stream \<times> disk) option) \<Rightarrow> string \<Rightarrow> file_table \<Rightarrow> (u8 \<times> file_table) option"
where
  "file_open_with_mode fopen name t = do {
     x \<leftarrow> free_index t;
     Some (case fopen name (io_disk t) of None \<Rightarrow> (0, t)
       | Some (f, d) \<Rightarrow> (x + 1, t\<lparr>io_files := (io_files t)(x \<mapsto> f), io_disk := d\<rparr>)) }"

definition file_handle :: "u8 \<Rightarrow> file_table \<Rightarrow> stream option" where
  "file_handle h t = (if h = 0 then None else io_files t (h - 1))"

definition file_close :: "u8 \<Rightarrow> file_table \<Rightarrow> file_table option" where
  "file_close h t =
     (if h \<le> 1 then None
      else if io_dirs t (h - 1) \<noteq> None then Some (t\<lparr>io_dirs := (io_dirs t)(h - 1 := None)\<rparr>)
      else do { f \<leftarrow> file_handle h t; Some (t\<lparr>io_files := (io_files t)(h - 1 := None)\<rparr>) })"

definition file_read :: "u8 \<Rightarrow> file_table \<Rightarrow> (u8 option \<times> file_table) option" where
  "file_read h t = do {
     f \<leftarrow> file_handle h t;
     let (b, f) = fgetc (io_disk t) f;
     Some (b, t\<lparr>io_files := (io_files t)(h - 1 \<mapsto> f)\<rparr>) }"

definition file_write :: "u8 \<Rightarrow> u8 \<Rightarrow> file_table \<Rightarrow> file_table option" where
  "file_write h v t = do {
     f \<leftarrow> file_handle h t;
     let (d, f) = fputc v (io_disk t) f;
     Some (t\<lparr>io_files := (io_files t)(h - 1 \<mapsto> f), io_disk := d\<rparr>) }"

definition rewind :: "u8 \<Rightarrow> file_table \<Rightarrow> file_table" where
  "rewind h t = t\<lparr>io_files := (io_files t)(h - 1 := map_option (\<lambda>f. f\<lparr>stream_pos := 0\<rparr>) (io_files t (h - 1)))\<rparr>"

text \<open>How many handles a program leaves open.\<close>

definition files_destroy :: "file_table \<Rightarrow> nat \<times> file_table" where
  "files_destroy t =
     (let xs = map word_of_nat [1..<FILE_IO_MAX_HANDLES] in
      (length (filter (\<lambda>x. io_files t x \<noteq> None) xs) + length (filter (\<lambda>x. io_dirs t x \<noteq> None) xs),
       t\<lparr>io_files := (\<lambda>x. if x = 0 then io_files t x else None), io_dirs := (\<lambda>x. None)\<rparr>))"

section \<open>Directories\<close>

text \<open>
  An entry as \<open>scandir\<close> and \<open>stat\<close> give it: the name, the type where the directory knows it, and
  whether \<open>stat\<close> says it is a directory and has a write bit in its mode.
\<close>

datatype entry_type = DT_DIR | DT_UNKNOWN | DT_OTHER

record dirent =
  d_name :: "u8 list"
  d_type :: entry_type
  d_stat :: "(bool \<times> bool) option"

definition dir_filter :: "dirent \<Rightarrow> bool" where
  "dir_filter e \<longleftrightarrow> (case d_name e of b # _ \<Rightarrow> b \<noteq> 0x2E | [] \<Rightarrow> True)"

definition entry_is_dir :: "dirent \<Rightarrow> bool" where
  "entry_is_dir e = (case d_type e of DT_DIR \<Rightarrow> True | DT_UNKNOWN \<Rightarrow> (case d_stat e of Some (s_dir, _) \<Rightarrow> s_dir | None \<Rightarrow> False)
     | DT_OTHER \<Rightarrow> False)"

definition entry_meta :: "dirent \<Rightarrow> u8" where
  "entry_meta e =
     (if entry_is_dir e then 0x01
      else case d_stat e of Some (_, writable) \<Rightarrow> if writable then 0 else 0x02 | None \<Rightarrow> 0)"

definition entry_bytes :: "dirent \<Rightarrow> u8 list" where
  "entry_bytes e = entry_meta e # d_name e @ [0]"

definition dir_open :: "(string \<Rightarrow> disk \<Rightarrow> dirent list option) \<Rightarrow> string \<Rightarrow> file_table \<Rightarrow> (u8 \<times> file_table) option" where
  "dir_open scandir name t = do {
     slot \<leftarrow> free_index t;
     Some (case scandir name (io_disk t) of None \<Rightarrow> (0, t)
       | Some es \<Rightarrow> (slot + 1, t\<lparr>io_dirs := (io_dirs t)(slot \<mapsto>
           \<lparr>dir_buffer = concat (map entry_bytes (filter dir_filter es)), buf_pos = 0\<rparr>)\<rparr>)) }"

text \<open>What the ports read of an open directory.\<close>

definition dir_at_end :: "dir_state \<Rightarrow> bool" where
  "dir_at_end ds \<longleftrightarrow> length (dir_buffer ds) \<le> buf_pos ds"

definition dir_byte :: "u8 \<Rightarrow> dir_state \<Rightarrow> file_table \<Rightarrow> u8 \<times> file_table" where
  "dir_byte h ds t =
     (if dir_at_end ds then (4, t)
      else (dir_buffer ds ! buf_pos ds, t\<lparr>io_dirs := (io_dirs t)(h - 1 \<mapsto> ds\<lparr>buf_pos := buf_pos ds + 1\<rparr>)\<rparr>))"

definition open_dir :: "u8 \<Rightarrow> file_table \<Rightarrow> dir_state option" where
  "open_dir h t = (if h > 0 then io_dirs t (h - 1) else None)"

end
