(* ===== verification/Terminal_Serial.thy ===== *)
theory Terminal_Serial imports Console Fifo
begin

text \<open>
  The plain machine's serial line (\<open>src/emulator/console.c\<close> and the serial ports of
  \<open>src/emulator/emulator.c\<close>): the receive and transmit buffers paced at the baud rate, test
  pacing, the responses of the terminal, and waiting for input in emulated time. The real
  terminal on the standard input is a parameter.
\<close>

section \<open>Byte rings\<close>

text \<open>
  A buffer of \<open>SERIAL_BUF_SIZE\<close> bytes with a head and a tail; the indices, kept modulo 256, are
  bytes. It holds at most 255 bytes.
\<close>

definition SERIAL_BUF_SIZE :: nat where "SERIAL_BUF_SIZE = 256"

record byte_ring =
  ring_buf :: "u8 \<Rightarrow> u8"
  ring_head :: u8
  ring_tail :: u8

definition ring_count :: "byte_ring \<Rightarrow> nat" where
  "ring_count r = unat (ring_head r - ring_tail r)"

definition ring_put :: "u8 \<Rightarrow> byte_ring \<Rightarrow> byte_ring" where
  "ring_put b r = r\<lparr>ring_buf := (ring_buf r)(ring_head r := b), ring_head := ring_head r + 1\<rparr>"

definition ring_get :: "byte_ring \<Rightarrow> u8 \<times> byte_ring" where
  "ring_get r = (ring_buf r (ring_tail r), r\<lparr>ring_tail := ring_tail r + 1\<rparr>)"

definition ring_bytes :: "byte_ring \<Rightarrow> u8 list" where
  "ring_bytes r = map (\<lambda>i. ring_buf r (ring_tail r + of_nat i)) [0..<ring_count r]"

lemma length_ring_bytes [simp]: "length (ring_bytes r) = ring_count r"
  by (simp add: ring_bytes_def)

lemma ring_count_less: "ring_count r < 256"
  using unat_u8_less[of "ring_head r - ring_tail r"] by (simp add: ring_count_def)

lemma ring_count_zero: "ring_count r = 0 \<longleftrightarrow> ring_head r = ring_tail r"
  by (simp add: ring_count_def unat_eq_0)

lemma unat_suc_u8: "unat w < 255 \<Longrightarrow> unat (w + 1) = Suc (unat w)" for w :: u8
  by (simp add: unat_word_ariths)

lemma ring_count_put: "ring_count r < 255 \<Longrightarrow> ring_count (ring_put b r) = Suc (ring_count r)"
  using unat_suc_u8[of "ring_head r - ring_tail r"] by (simp add: ring_count_def ring_put_def algebra_simps)

lemma ring_count_get:
  assumes "0 < ring_count r" shows "ring_count (snd (ring_get r)) = ring_count r - 1"
proof -
  have e: "ring_head r - (ring_tail r + 1) = ring_head r - ring_tail r - 1" by (simp only: diff_diff_eq)
  have "unat (ring_head r - ring_tail r - 1) = ring_count r - 1"
    using assms unat_sub[of 1 "ring_head r - ring_tail r"] by (simp add: ring_count_def word_le_nat_alt Suc_le_eq)
  moreover have "ring_count (snd (ring_get r)) = unat (ring_head r - (ring_tail r + 1))"
    by (simp add: ring_count_def ring_get_def)
  ultimately show ?thesis by (simp only: e)
qed

lemma ring_bytes_put:
  assumes "ring_count r < 255" shows "ring_bytes (ring_put b r) = ring_bytes r @ [b]"
proof -
  have h: "ring_tail r + of_nat (ring_count r) = ring_head r" by (simp add: ring_count_def)
  have "ring_tail r + of_nat i \<noteq> ring_head r" if "i < ring_count r" for i
  proof
    assume "ring_tail r + of_nat i = ring_head r"
    then have "of_nat i = ring_head r - ring_tail r" by (simp add: algebra_simps)
    then have "unat (of_nat i :: u8) = ring_count r" by (simp add: ring_count_def)
    then show False using that ring_count_less[of r] by (simp add: unat_of_nat take_bit_nat_eq_self)
  qed
  then show ?thesis
    using h by (simp add: ring_bytes_def ring_count_put[OF assms] map_eq_conv del: upt_Suc)
      (simp add: ring_put_def)
qed

lemma ring_bytes_get:
  assumes "ring_bytes r = x # xs" shows "fst (ring_get r) = x" "ring_bytes (snd (ring_get r)) = xs"
proof -
  have n: "ring_count r = Suc (length xs)" using arg_cong[OF assms, of length] by simp
  have e: "ring_bytes r = ring_buf r (ring_tail r) # map (\<lambda>i. ring_buf r (ring_tail r + of_nat (Suc i))) [0..<length xs]"
    by (simp add: ring_bytes_def n upt_conv_Cons map_Suc_upt[symmetric] o_def del: upt_Suc)
  show "fst (ring_get r) = x" using e assms by (simp add: ring_get_def)
  have "ring_count (snd (ring_get r)) = length xs" using ring_count_get[of r] n by simp
  then show "ring_bytes (snd (ring_get r)) = xs"
    using e assms by (simp add: ring_bytes_def[of "snd (ring_get r)"]) (simp add: ring_get_def algebra_simps)
qed

text \<open>With the guard on the count the ring is a queue of 255 bytes; without it, one byte more loses them all.\<close>

definition ring_put_guarded :: "u8 \<Rightarrow> byte_ring \<Rightarrow> byte_ring option" where
  "ring_put_guarded b r = (if ring_count r < SERIAL_BUF_SIZE - 1 then Some (ring_put b r) else None)"

interpretation serial_ring: fifo ring_bytes ring_put_guarded ring_get 255 "\<lambda>r. True"
proof
  fix q x xs assume "ring_bytes q = x # xs"
  then show "fst (ring_get q) = x \<and> True \<and> ring_bytes (snd (ring_get q)) = xs"
    using ring_bytes_get by simp
next
  fix q show "length (ring_bytes q) \<le> 255" using ring_count_less[of q] by simp
qed (simp_all add: ring_put_guarded_def SERIAL_BUF_SIZE_def ring_bytes_put)

lemma ring_put_loses:
  assumes "ring_count r = 255" shows "ring_bytes (ring_put b r) = []"
proof -
  have "unat (ring_head r - ring_tail r) = unat (255 :: u8)" using assms by (simp add: ring_count_def)
  then have "ring_head r - ring_tail r = 255" by (simp only: word_unat_eq_iff)
  then have "ring_head r = ring_tail r + 255" by (simp add: diff_eq_eq add.commute)
  moreover have "(255 :: u8) + 1 = 0" by simp
  ultimately have "ring_head r + 1 = ring_tail r" by (simp only: add.assoc add_0_right)
  then have "ring_count (ring_put b r) = 0" by (simp add: ring_count_def ring_put_def)
  then show ?thesis by (simp add: ring_bytes_def)
qed

section \<open>State\<close>

text \<open>
  What the machine asks of the real terminal and its clock: whether a byte can be read
  (\<open>con_byte_ready\<close>), one byte (\<open>read\<close> on the standard input), whether one comes within so many
  milliseconds (\<open>wait_stdin\<close>), the CPU cycles that pass while it waits for one, the CPU cycles in so
  many milliseconds (a floating-point product), and whether Ctrl-C or Ctrl-Z have been pressed.
\<close>

datatype read_result = Got u8 | At_end | Interrupted | Failed

record 'd terminal =
  byte_ready :: "'d \<Rightarrow> bool \<times> 'd"
  stdin_read :: "'d \<Rightarrow> read_result \<times> 'd"
  stdin_wait :: "u16 \<Rightarrow> 'd \<Rightarrow> bool \<times> 'd"
  select_ticks :: "u64 \<Rightarrow> 'd \<Rightarrow> u64 \<times> 'd"
  wait_ticks :: "u16 \<Rightarrow> u64"
  signalled :: "'d \<Rightarrow> bool"

text \<open>
  \<open>serial_input\<close> is what is left of the input file, if there is one, \<open>serial_sent\<close> what was written
  to the standard output or the output file. \<open>screen\<close> is None once the terminal has left what C defines.
\<close>

record 'd serial =
  clock :: u64
  serial_baud :: nat
  serial_cycles_per_byte :: u64
  serial_rx :: byte_ring
  serial_rx_next_fill_at :: u64
  serial_tx :: byte_ring
  serial_tx_next_drain_at :: u64
  serial_pace_mask :: "u8 list option"
  serial_fill_index :: nat
  serial_pace_hold :: bool
  serial_pace_waited :: bool
  serial_inject_pos :: nat
  terminal_mode :: bool
  terminal_interactive :: bool
  serial_input :: "u8 list option"
  serial_has_output :: bool
  serial_sent :: "u8 list"
  screen :: "console option"
  stdin :: 'd
  emu_done :: bool
  exitcode_set :: "u8 option"

definition injected :: "('d, 'z) serial_scheme \<Rightarrow> u8 list" where
  "injected s = (case screen s of Some t \<Rightarrow> drop (serial_inject_pos s) (inject_buf t) | None \<Rightarrow> [])"

definition serial_reset :: "('d, 'z) serial_scheme \<Rightarrow> ('d, 'z) serial_scheme" where
  "serial_reset s =
     s\<lparr>serial_rx := (serial_rx s)\<lparr>ring_head := 0, ring_tail := 0\<rparr>, serial_rx_next_fill_at := 0,
       serial_tx := (serial_tx s)\<lparr>ring_head := 0, ring_tail := 0\<rparr>, serial_tx_next_drain_at := 0,
       serial_inject_pos := 0, screen := map_option (\<lambda>t. t\<lparr>inject_buf := []\<rparr>) (screen s),
       serial_pace_mask := None, serial_fill_index := 0, serial_pace_hold := False, serial_pace_waited := False\<rparr>"

definition serial_pace_start :: "u8 list \<Rightarrow> ('d, 'z) serial_scheme \<Rightarrow> ('d, 'z) serial_scheme" where
  "serial_pace_start m s =
     s\<lparr>serial_pace_mask := Some m, serial_fill_index := 0, serial_pace_hold := True, serial_pace_waited := False\<rparr>"

definition serial_pace_wait_times_out :: "('d, 'z) serial_scheme \<Rightarrow> bool \<times> ('d, 'z) serial_scheme" where
  "serial_pace_wait_times_out s =
     (if \<not> serial_pace_hold s \<or> serial_pace_waited s then (False, s) else (True, s\<lparr>serial_pace_waited := True\<rparr>))"

definition serial_program_idle :: "('d, 'z) serial_scheme \<Rightarrow> bool" where
  "serial_program_idle s \<longleftrightarrow> ring_count (serial_rx s) = 0 \<and> ring_count (serial_tx s) = 0 \<and> injected s = []"

section \<open>Receiving\<close>

text \<open>The next byte of the input, if one is there.\<close>

definition input_byte :: "'d terminal \<Rightarrow> ('d, 'z) serial_scheme \<Rightarrow> u8 option \<times> ('d, 'z) serial_scheme" where
  "input_byte io s =
     (if terminal_interactive s then
        let (ready, d) = byte_ready io (stdin s) in
        if \<not> ready then (None, s\<lparr>stdin := d\<rparr>)
        else let (r, d) = stdin_read io d in (case r of Got b \<Rightarrow> Some b | _ \<Rightarrow> None, s\<lparr>stdin := d\<rparr>)
      else case serial_input s of Some (b # bs) \<Rightarrow> (Some b, s\<lparr>serial_input := Some bs\<rparr>) | _ \<Rightarrow> (None, s))"

definition received :: "u8 \<Rightarrow> ('d, 'z) serial_scheme \<Rightarrow> ('d, 'z) serial_scheme" where
  "received b s =
     s\<lparr>serial_rx := ring_put b (serial_rx s),
       serial_rx_next_fill_at := serial_rx_next_fill_at s + serial_cycles_per_byte s,
       serial_fill_index := serial_fill_index s + 1\<rparr>"

definition pauses :: "nat \<Rightarrow> ('d, 'z) serial_scheme \<Rightarrow> bool" where
  "pauses i s \<longleftrightarrow> (case serial_pace_mask s of Some m \<Rightarrow> i < length m \<and> m ! i \<noteq> 0x30 | None \<Rightarrow> False)"

lemma received_count [simp]:
  "ring_count (serial_rx s) < 255 \<Longrightarrow> ring_count (serial_rx (received b s)) = Suc (ring_count (serial_rx s))"
  by (simp add: received_def ring_count_put)

lemma input_byte_rx [simp]: "serial_rx (snd (input_byte io s)) = serial_rx s"
  by (simp add: input_byte_def split: prod.split option.split list.split)

lemma input_byte_same: "(r, s') = input_byte io s \<Longrightarrow> serial_rx s' = serial_rx s"
  using input_byte_rx[of io s] by (metis snd_conv)

function fill_loop :: "'d terminal \<Rightarrow> bool \<Rightarrow> ('d, 'z) serial_scheme \<Rightarrow> bool \<times> ('d, 'z) serial_scheme" where
  "fill_loop io filled s =
     (if clock s \<ge> serial_rx_next_fill_at s \<and> ring_count (serial_rx s) < SERIAL_BUF_SIZE - 1 then
        case input_byte io s of
          (None, s') \<Rightarrow> (filled, s')
        | (Some b, s') \<Rightarrow>
            if pauses (serial_fill_index s') s'
            then (True, (received b s')\<lparr>serial_pace_hold := True, serial_pace_waited := False\<rparr>)
            else fill_loop io True (received b s')
      else (filled, s))"
  by pat_completeness auto
termination
  by (relation "measure (\<lambda>(io, filled, s). 255 - ring_count (serial_rx s))")
    (auto simp: SERIAL_BUF_SIZE_def dest: input_byte_same)

declare fill_loop.simps [simp del]

definition serial_rx_fill :: "'d terminal \<Rightarrow> ('d, 'z) serial_scheme \<Rightarrow> ('d, 'z) serial_scheme" where
  "serial_rx_fill io s =
     (if serial_pace_hold s then
        if \<not> serial_program_idle s then s
        else s\<lparr>serial_pace_hold := False, serial_pace_waited := False,
               serial_rx_next_fill_at := clock s + serial_cycles_per_byte s\<rparr>
      else let (filled, s) = fill_loop io False s in
        if \<not> filled \<and> serial_rx_next_fill_at s < clock s then s\<lparr>serial_rx_next_fill_at := clock s\<rparr> else s)"

abbreviation (input) UINT64_MAX :: u64 where "UINT64_MAX \<equiv> - 1"

definition serial_rx_next_arrival :: "'d terminal \<Rightarrow> ('d, 'z) serial_scheme \<Rightarrow> u64 \<times> ('d, 'z) serial_scheme" where
  "serial_rx_next_arrival io s =
     (if ring_count (serial_rx s) > 0 then (clock s, s)
      else
        let (pending, s) =
          (if terminal_interactive s then let (r, d) = byte_ready io (stdin s) in (r, s\<lparr>stdin := d\<rparr>)
           else (case serial_input s of Some bs \<Rightarrow> bs \<noteq> [] | None \<Rightarrow> False, s))
        in if \<not> pending then (UINT64_MAX, s)
           else if serial_pace_hold s then
             let tx = ring_count (serial_tx s);
                 idle_at = (if tx = 0 then clock s
                            else serial_tx_next_drain_at s + of_nat (tx - 1) * serial_cycles_per_byte s)
             in (max idle_at (clock s), s)
           else (max (serial_rx_next_fill_at s) (clock s), s))"

section \<open>Transmitting\<close>

definition serial_out :: "u8 \<Rightarrow> ('d, 'z) serial_scheme \<Rightarrow> ('d, 'z) serial_scheme" where
  "serial_out b s =
     s\<lparr>serial_sent := (if terminal_interactive s \<or> serial_has_output s then serial_sent s @ [b] else serial_sent s),
       screen := (if terminal_mode s then Option.bind (screen s) (console_handle_byte b) else screen s)\<rparr>"

definition transmit :: "('d, 'z) serial_scheme \<Rightarrow> ('d, 'z) serial_scheme" where
  "transmit s = (let (b, r) = ring_get (serial_tx s) in serial_out b (s\<lparr>serial_tx := r\<rparr>))"

lemma transmit_count [simp]:
  "0 < ring_count (serial_tx s) \<Longrightarrow> ring_count (serial_tx (transmit s)) = ring_count (serial_tx s) - 1"
  using ring_count_get[of "serial_tx s"] by (auto simp: transmit_def serial_out_def split: prod.split)

function drain_loop :: "('d, 'z) serial_scheme \<Rightarrow> ('d, 'z) serial_scheme" where
  "drain_loop s =
     (if clock s \<ge> serial_tx_next_drain_at s \<and> ring_count (serial_tx s) \<noteq> 0
      then drain_loop ((transmit s)
        \<lparr>serial_tx_next_drain_at := serial_tx_next_drain_at s + serial_cycles_per_byte s\<rparr>)
      else s)"
  by pat_completeness auto
termination by (relation "measure (\<lambda>s. ring_count (serial_tx s))") auto

declare drain_loop.simps [simp del]

definition serial_tx_drain :: "('d, 'z) serial_scheme \<Rightarrow> ('d, 'z) serial_scheme" where
  "serial_tx_drain s =
     (let s = drain_loop s in
      if ring_count (serial_tx s) = 0 \<and> serial_tx_next_drain_at s < clock s
      then s\<lparr>serial_tx_next_drain_at := clock s\<rparr> else s)"

function serial_tx_flush :: "('d, 'z) serial_scheme \<Rightarrow> ('d, 'z) serial_scheme" where
  "serial_tx_flush s = (if ring_count (serial_tx s) \<noteq> 0 then serial_tx_flush (transmit s) else s)"
  by pat_completeness auto
termination by (relation "measure (\<lambda>s. ring_count (serial_tx s))") auto

declare serial_tx_flush.simps [simp del]

section \<open>The ports\<close>

definition serial_ready_port :: "'d terminal \<Rightarrow> ('d, 'z) serial_scheme \<Rightarrow> u8 \<times> ('d, 'z) serial_scheme" where
  "serial_ready_port io s =
     (let s = (if serial_baud s > 0 then serial_tx_drain s else s) in
      if injected s \<noteq> [] then (0xFF, s)
      else if serial_baud s > 0 then
        let s = serial_rx_fill io s in (if ring_count (serial_rx s) \<noteq> 0 then 0xFF else 0x00, s)
      else if terminal_interactive s then
        let (r, d) = byte_ready io (stdin s) in (if r then 0xFF else 0x00, s\<lparr>stdin := d\<rparr>)
      else if terminal_mode s then
        (case serial_input s of Some (b # bs) \<Rightarrow> 0xFF | _ \<Rightarrow> 0x00, s)
      else (0x00, s))"

definition take_injected :: "('d, 'z) serial_scheme \<Rightarrow> ('d, 'z) serial_scheme" where
  "take_injected s =
     (if length (injected s) \<le> 1
      then s\<lparr>serial_inject_pos := 0, screen := map_option (\<lambda>t. t\<lparr>inject_buf := []\<rparr>) (screen s)\<rparr>
      else s\<lparr>serial_inject_pos := serial_inject_pos s + 1\<rparr>)"

definition interrupt :: "('d, 'z) serial_scheme \<Rightarrow> ('d, 'z) serial_scheme" where
  "interrupt s = s\<lparr>emu_done := True, exitcode_set := (case exitcode_set s of None \<Rightarrow> Some 130 | c \<Rightarrow> c)\<rparr>"

definition serial_data_port :: "'d terminal \<Rightarrow> ('d, 'z) serial_scheme \<Rightarrow> u8 \<times> ('d, 'z) serial_scheme" where
  "serial_data_port io s =
     (if injected s \<noteq> [] then (hd (injected s), take_injected s)
      else if serial_baud s > 0 then
        let s = serial_rx_fill io s in
        if ring_count (serial_rx s) \<noteq> 0
        then let (b, r) = ring_get (serial_rx s) in (b, s\<lparr>serial_rx := r\<rparr>) else (0, s)
      else if terminal_interactive s then
        let (r, d) = stdin_read io (stdin s); s = s\<lparr>stdin := d\<rparr> in
        (case r of Got b \<Rightarrow> (b, s) | Interrupted \<Rightarrow> (0, interrupt s) | _ \<Rightarrow> (0, s))
      else if terminal_mode s then
        (case serial_input s of Some (b # bs) \<Rightarrow> (b, s\<lparr>serial_input := Some bs\<rparr>) | _ \<Rightarrow> (0, s))
      else (0, s))"

definition serial_write_ready_port :: "('d, 'z) serial_scheme \<Rightarrow> u8 \<times> ('d, 'z) serial_scheme" where
  "serial_write_ready_port s =
     (if serial_baud s > 0
      then let s = serial_tx_drain s in
        (if ring_count (serial_tx s) < SERIAL_BUF_SIZE - 1 then 0xFF else 0x00, s)
      else (0xFF, s))"

definition serial_write_port :: "u8 \<Rightarrow> ('d, 'z) serial_scheme \<Rightarrow> ('d, 'z) serial_scheme" where
  "serial_write_port b s =
     (if serial_baud s > 0 then let s = serial_tx_drain s in s\<lparr>serial_tx := ring_put b (serial_tx s)\<rparr>
      else s\<lparr>serial_sent := (if terminal_interactive s \<or> terminal_mode s \<and> serial_has_output s
                             then serial_sent s @ [b] else serial_sent s),
             screen := (if terminal_mode s then Option.bind (screen s) (console_handle_byte b) else screen s)\<rparr>)"

section \<open>Waiting for input\<close>

text \<open>
  Time moves to the next arrival or to the deadline instead of being run through. On a terminal
  that neither sends nor lets time pass this does not return.
\<close>

partial_function (option) wait_loop ::
  "'d terminal \<Rightarrow> u64 \<Rightarrow> ('d, 'z) serial_scheme \<Rightarrow> (u8 \<times> ('d, 'z) serial_scheme) option" where
  "wait_loop io deadline s =
     (let s = serial_tx_drain s in
      if injected s \<noteq> [] then Some (0xFF, s)
      else let (out, s) = (if ring_count (serial_rx s) = 0 then serial_pace_wait_times_out s else (False, s)) in
      if out then Some (0x00, s\<lparr>clock := deadline\<rparr>)
      else let s = serial_rx_fill io s in
      if ring_count (serial_rx s) > 0 then Some (0xFF, s)
      else if clock s \<ge> deadline \<or> signalled io (stdin s) then Some (0x00, s)
      else let (arrival, s) = serial_rx_next_arrival io s in
      if arrival \<noteq> UINT64_MAX then wait_loop io deadline (s\<lparr>clock := min arrival deadline\<rparr>)
      else if terminal_interactive s then
        let (ticks, d) = select_ticks io (deadline - clock s) (stdin s) in
        wait_loop io deadline
          (s\<lparr>stdin := d, clock := (if deadline - clock s > ticks then clock s + ticks else deadline)\<rparr>)
      else wait_loop io deadline (s\<lparr>clock := deadline\<rparr>))"

definition serial_wait_ready ::
  "'d terminal \<Rightarrow> u16 \<Rightarrow> ('d, 'z) serial_scheme \<Rightarrow> (u8 \<times> ('d, 'z) serial_scheme) option" where
  "serial_wait_ready io ms s =
     (if serial_baud s = 0 then
        Some (if injected s \<noteq> [] then (0xFF, s)
          else if terminal_interactive s then
            let (r, d) = stdin_wait io ms (stdin s) in (if r then 0xFF else 0x00, s\<lparr>stdin := d\<rparr>)
          else (case serial_input s of Some (b # bs) \<Rightarrow> 0xFF | _ \<Rightarrow> 0x00, s))
      else wait_loop io (clock s + wait_ticks io ms) s)"

section \<open>The line between the ports and the wire\<close>

text \<open>
  The line of a file-driven run: what is still to be read, what has been accepted, and that
  time and bytes keep to the baud rate.
\<close>

definition to_read :: "('d, 'z) serial_scheme \<Rightarrow> u8 list" where
  "to_read s = ring_bytes (serial_rx s) @ the (serial_input s)"

definition accepted :: "('d, 'z) serial_scheme \<Rightarrow> u8 list" where
  "accepted s = serial_sent s @ ring_bytes (serial_tx s)"

definition line_ok :: "('d, 'z) serial_scheme \<Rightarrow> bool" where
  "line_ok s \<longleftrightarrow> \<not> terminal_interactive s \<and> 0 < serial_baud s \<and> serial_has_output s \<and> serial_input s \<noteq> None \<and>
     unat (serial_rx_next_fill_at s) \<le> unat (clock s) + unat (serial_cycles_per_byte s) \<and>
     unat (serial_tx_next_drain_at s) \<le> unat (clock s) + unat (serial_cycles_per_byte s) \<and>
     serial_fill_index s * unat (serial_cycles_per_byte s) \<le> unat (serial_rx_next_fill_at s) \<and>
     length (serial_sent s) * unat (serial_cycles_per_byte s) \<le> unat (serial_tx_next_drain_at s)"

definition room :: "('d, 'z) serial_scheme \<Rightarrow> bool" where
  "room s \<longleftrightarrow> unat (clock s) + 256 * unat (serial_cycles_per_byte s) < 2 ^ 64"

text \<open>What an operation that moves no byte between the program and the line keeps.\<close>

definition line_kept :: "('d, 'z) serial_scheme \<Rightarrow> ('d, 'z) serial_scheme \<Rightarrow> bool" where
  "line_kept s t \<longleftrightarrow> line_ok t \<and> to_read t = to_read s \<and> accepted t = accepted s \<and>
     serial_fill_index t + length (the (serial_input t)) = serial_fill_index s + length (the (serial_input s)) \<and>
     serial_cycles_per_byte t = serial_cycles_per_byte s \<and> clock s \<le> clock t"

lemma line_kept_refl: "line_ok s \<Longrightarrow> line_kept s s"
  by (simp add: line_kept_def)

lemma line_kept_trans: "line_kept s t \<Longrightarrow> line_kept t u \<Longrightarrow> line_kept s u"
  by (auto simp: line_kept_def)

lemma line_kept_pace [simp]:
  "line_kept s (u\<lparr>serial_pace_hold := h\<rparr>) = line_kept s u"
  "line_kept s (u\<lparr>serial_pace_waited := w\<rparr>) = line_kept s u"
  by (simp_all add: line_kept_def line_ok_def to_read_def accepted_def)

lemma unat_add_u64: "unat a + unat b < 2 ^ 64 \<Longrightarrow> unat (a + b) = unat a + unat b" for a b :: u64
  by (simp add: unat_word_ariths)

lemma fill_loop_kept:
  "line_ok s \<Longrightarrow> room s \<Longrightarrow> fill_loop io filled s = (f, t) \<Longrightarrow>
   line_kept s t \<and> clock t = clock s"
proof (induction io filled s arbitrary: f t rule: fill_loop.induct)
  case (1 io filled s)
  obtain bs where bs: "serial_input s = Some bs" using 1(2) by (auto simp: line_ok_def)
  have ni: "\<not> terminal_interactive s" using 1(2) by (simp add: line_ok_def)
  show ?case
  proof (cases "clock s \<ge> serial_rx_next_fill_at s \<and> ring_count (serial_rx s) < SERIAL_BUF_SIZE - 1 \<and> bs \<noteq> []")
    case False
    then have "t = s" using 1(4) bs ni
      by (subst (asm) fill_loop.simps) (auto simp: input_byte_def split: list.splits if_splits)
    then show ?thesis using 1(2) by (simp add: line_kept_refl)
  next
    case True
    then obtain b bs' where b: "bs = b # bs'" by (cases bs) auto
    define s' where "s' = s\<lparr>serial_input := Some bs'\<rparr>"
    have i: "input_byte io s = (Some b, s')" using ni bs b by (simp add: input_byte_def s'_def)
    define u where "u = received b s'"
    have n: "unat (serial_rx_next_fill_at u) = unat (serial_rx_next_fill_at s) + unat (serial_cycles_per_byte s)"
      using True 1(3) unat_add_u64[of "serial_rx_next_fill_at s" "serial_cycles_per_byte s"]
      by (simp add: u_def received_def s'_def room_def word_le_nat_alt)
    have c: "ring_count (serial_rx s) < 255" using True by (simp add: SERIAL_BUF_SIZE_def)
    have k: "line_kept s u" "clock u = clock s"
      using 1(2) True n bs b ring_bytes_put[OF c, of b]
      by (simp_all add: line_kept_def line_ok_def to_read_def accepted_def u_def received_def s'_def word_le_nat_alt)
    have rm: "room u" using 1(3) k by (simp add: room_def line_kept_def)
    show ?thesis
    proof (cases "pauses (serial_fill_index s') s'")
      case pause: True
      then have "t = u\<lparr>serial_pace_hold := True, serial_pace_waited := False\<rparr>"
        using 1(4) True i by (subst (asm) fill_loop.simps) (simp add: u_def)
      then show ?thesis using k by simp
    next
      case no: False
      then have e: "fill_loop io True u = (f, t)"
        using 1(4) True i by (subst (asm) fill_loop.simps) (simp add: u_def)
      have "line_kept u t \<and> clock t = clock u"
        using 1(1)[OF _ i[symmetric] refl no, folded u_def, OF _ _ rm e] True k by (simp add: line_kept_def)
      then show ?thesis using k line_kept_trans by metis
    qed
  qed
qed

lemma line_kept_ok: "line_kept s t \<Longrightarrow> line_ok t"
  by (simp add: line_kept_def)

text \<open>Moving a time to the clock, or the clock on.\<close>

lemma line_kept_fill_at:
  assumes "line_ok s" "unat (serial_rx_next_fill_at s) \<le> unat v" "unat v \<le> unat (clock s) + unat (serial_cycles_per_byte s)"
  shows "line_kept s (s\<lparr>serial_rx_next_fill_at := v\<rparr>)"
  using assms by (simp add: line_kept_def line_ok_def to_read_def accepted_def)

lemma line_kept_drain_at:
  assumes "line_ok s" "unat (serial_tx_next_drain_at s) \<le> unat v" "unat v \<le> unat (clock s) + unat (serial_cycles_per_byte s)"
  shows "line_kept s (s\<lparr>serial_tx_next_drain_at := v\<rparr>)"
  using assms by (simp add: line_kept_def line_ok_def to_read_def accepted_def)

lemma line_kept_clock: "line_ok s \<Longrightarrow> clock s \<le> v \<Longrightarrow> line_kept s (s\<lparr>clock := v\<rparr>)"
  by (auto simp: line_kept_def line_ok_def to_read_def accepted_def word_le_nat_alt)

lemma unat_clock_byte: "room s \<Longrightarrow> unat (clock s + serial_cycles_per_byte s) = unat (clock s) + unat (serial_cycles_per_byte s)"
  by (rule unat_add_u64) (simp add: room_def)

lemma rx_fill_kept:
  assumes "line_ok s" "room s"
  shows "line_kept s (serial_rx_fill io s) \<and> clock (serial_rx_fill io s) = clock s"
proof (cases "serial_pace_hold s")
  case True
  have "line_kept s (s\<lparr>serial_rx_next_fill_at := clock s + serial_cycles_per_byte s\<rparr>)"
    using assms unat_clock_byte[OF assms(2)] by (intro line_kept_fill_at) (simp_all add: line_ok_def)
  then have "line_kept s (s\<lparr>serial_rx_next_fill_at := clock s + serial_cycles_per_byte s,
      serial_pace_hold := False, serial_pace_waited := False\<rparr>)" by (simp only: line_kept_pace)
  also have "s\<lparr>serial_rx_next_fill_at := clock s + serial_cycles_per_byte s,
      serial_pace_hold := False, serial_pace_waited := False\<rparr> = s\<lparr>serial_pace_hold := False,
      serial_pace_waited := False, serial_rx_next_fill_at := clock s + serial_cycles_per_byte s\<rparr>" by simp
  finally show ?thesis using True assms(1) by (simp add: serial_rx_fill_def line_kept_refl)
next
  case False
  obtain f t where t: "fill_loop io False s = (f, t)" by (cases "fill_loop io False s")
  have k: "line_kept s t" "clock t = clock s" using fill_loop_kept[OF assms t] by simp_all
  have "line_kept t (t\<lparr>serial_rx_next_fill_at := clock t\<rparr>)" if "serial_rx_next_fill_at t < clock t"
    using that line_kept_ok[OF k(1)] by (intro line_kept_fill_at) (simp_all add: word_less_nat_alt)
  then show ?thesis using False t k line_kept_trans[OF k(1)] by (simp add: serial_rx_fill_def)
qed

lemma injected_pace [simp]: "injected (s\<lparr>serial_pace_waited := w\<rparr>) = injected s"
  by (simp add: injected_def split: option.split)

lemma transmit_hold [simp]: "serial_pace_hold (transmit s) = serial_pace_hold s"
  by (simp add: transmit_def serial_out_def split: prod.split)

lemma drain_hold [simp]: "serial_pace_hold (serial_tx_drain s) = serial_pace_hold s"
proof -
  have "serial_pace_hold (drain_loop s) = serial_pace_hold s"
    by (induction s rule: drain_loop.induct) (subst drain_loop.simps, simp)
  then show ?thesis by (simp add: serial_tx_drain_def Let_def)
qed

lemma drain_count: "ring_count (serial_tx (serial_tx_drain s)) \<le> ring_count (serial_tx s)"
proof -
  have "ring_count (serial_tx (drain_loop s)) \<le> ring_count (serial_tx s)"
    by (induction s rule: drain_loop.induct) (subst drain_loop.simps, auto intro: order_trans)
  then show ?thesis by (simp add: serial_tx_drain_def Let_def)
qed

lemma drain_loop_kept:
  "line_ok s \<Longrightarrow> room s \<Longrightarrow> line_kept s (drain_loop s) \<and> clock (drain_loop s) = clock s \<and>
   (ring_count (serial_tx (drain_loop s)) = 0 \<or> clock s < serial_tx_next_drain_at (drain_loop s))"
proof (induction s rule: drain_loop.induct)
  case (1 s)
  show ?case
  proof (cases "clock s \<ge> serial_tx_next_drain_at s \<and> ring_count (serial_tx s) \<noteq> 0")
    case False
    then show ?thesis using 1(2) by (subst (1 2 3 4) drain_loop.simps) (auto simp: line_kept_refl)
  next
    case True
    define u where "u = (transmit s)\<lparr>serial_tx_next_drain_at := serial_tx_next_drain_at s + serial_cycles_per_byte s\<rparr>"
    obtain b bs where b: "ring_bytes (serial_tx s) = b # bs"
      using True by (metis length_0_conv length_ring_bytes neq_Nil_conv)
    have n: "unat (serial_tx_next_drain_at s + serial_cycles_per_byte s) =
        unat (serial_tx_next_drain_at s) + unat (serial_cycles_per_byte s)"
      using True 1(3) by (intro unat_add_u64) (simp add: room_def word_le_nat_alt)
    have k: "line_kept s u" "clock u = clock s" "room u"
      using 1(2,3) True n ring_bytes_get[OF b] b
      by (auto simp: line_kept_def line_ok_def to_read_def accepted_def u_def transmit_def serial_out_def word_le_nat_alt
          room_def split: prod.split)
    have e: "drain_loop s = drain_loop u" using True by (subst drain_loop.simps) (simp add: u_def)
    have "line_kept u (drain_loop u) \<and> clock (drain_loop u) = clock u \<and>
        (ring_count (serial_tx (drain_loop u)) = 0 \<or> clock u < serial_tx_next_drain_at (drain_loop u))"
      using 1(1)[OF True, folded u_def, OF line_kept_ok[OF k(1)] k(3)] .
    then show ?thesis using k line_kept_trans[OF k(1)] unfolding e by simp
  qed
qed

lemma tx_drain_kept:
  assumes "line_ok s" "room s"
  shows "line_kept s (serial_tx_drain s) \<and> clock (serial_tx_drain s) = clock s \<and>
    (ring_count (serial_tx (serial_tx_drain s)) = 0 \<or> clock s < serial_tx_next_drain_at (serial_tx_drain s))"
proof -
  define t where "t = drain_loop s"
  have k: "line_kept s t" "clock t = clock s" "ring_count (serial_tx t) = 0 \<or> clock s < serial_tx_next_drain_at t"
    using drain_loop_kept[OF assms] by (simp_all add: t_def)
  have "line_kept t (t\<lparr>serial_tx_next_drain_at := clock t\<rparr>)" if "serial_tx_next_drain_at t < clock t"
    using that line_kept_ok[OF k(1)] by (intro line_kept_drain_at) (simp_all add: word_less_nat_alt)
  then show ?thesis using k line_kept_trans[OF k(1)] by (auto simp: serial_tx_drain_def t_def[symmetric] Let_def)
qed

section \<open>Waiting ends\<close>

lemma fill_loop_count: "fill_loop io filled s = (f, t) \<Longrightarrow> ring_count (serial_rx s) \<le> ring_count (serial_rx t)"
proof (induction io filled s arbitrary: f t rule: fill_loop.induct)
  case (1 io filled s)
  show ?case
  proof (cases "clock s \<ge> serial_rx_next_fill_at s \<and> ring_count (serial_rx s) < SERIAL_BUF_SIZE - 1")
    case False
    then have "t = s" using 1(2) by (subst (asm) fill_loop.simps) auto
    then show ?thesis by simp
  next
    case True
    obtain r s' where i: "input_byte io s = (r, s')" by (cases "input_byte io s")
    have q: "serial_rx s' = serial_rx s" using input_byte_same[OF i[symmetric]] .
    then have c: "ring_count (serial_rx s') < 255" using True by (simp add: SERIAL_BUF_SIZE_def)
    show ?thesis
    proof (cases r)
      case None
      then have "t = s'" using 1(2) True i by (subst (asm) fill_loop.simps) simp
      then show ?thesis using q by simp
    next
      case (Some b)
      show ?thesis
      proof (cases "pauses (serial_fill_index s') s'")
        case pause: True
        then have "serial_rx t = serial_rx (received b s')"
          using 1(2) True i Some by (subst (asm) fill_loop.simps) auto
        then show ?thesis using c q by simp
      next
        case no: False
        have "fill_loop io True (received b s') = (f, t)"
          using 1(2) True i Some no by (subst (asm) fill_loop.simps) simp
        from 1(1)[OF True i[symmetric] Some no this] show ?thesis using c q by simp
      qed
    qed
  qed
qed

text \<open>A fill that leaves the buffer empty has taken nothing, because nothing was there or it is not time.\<close>

lemma fill_loop_empty:
  assumes "line_ok s" "fill_loop io filled s = (f, t)" "ring_count (serial_rx t) = 0"
  shows "t = s \<and> f = filled \<and> (the (serial_input s) = [] \<or> clock s < serial_rx_next_fill_at s)"
proof (cases "clock s \<ge> serial_rx_next_fill_at s \<and> ring_count (serial_rx s) < SERIAL_BUF_SIZE - 1 \<and> the (serial_input s) \<noteq> []")
  case False
  have "ring_count (serial_rx s) = 0" using fill_loop_count[OF assms(2)] assms(3) by simp
  then show ?thesis using False assms(1,2)
    by (subst (asm) fill_loop.simps)
      (auto simp: input_byte_def line_ok_def SERIAL_BUF_SIZE_def split: list.splits if_splits)
next
  case True
  then obtain b bs where b: "serial_input s = Some (b # bs)"
    using assms(1) by (cases "serial_input s") (auto simp: line_ok_def neq_Nil_conv)
  define s' where "s' = s\<lparr>serial_input := Some bs\<rparr>"
  have i: "input_byte io s = (Some b, s')" using b assms(1) by (simp add: input_byte_def line_ok_def s'_def)
  have c: "0 < ring_count (serial_rx (received b s'))" using True by (simp add: s'_def SERIAL_BUF_SIZE_def)
  have "ring_count (serial_rx (received b s')) \<le> ring_count (serial_rx t)"
  proof (cases "pauses (serial_fill_index s') s'")
    case True
    then show ?thesis using assms(2) i \<open>_ \<and> _ \<and> _\<close>
      by (subst (asm) fill_loop.simps) auto
  next
    case False
    then have "fill_loop io True (received b s') = (f, t)"
      using assms(2) i \<open>_ \<and> _ \<and> _\<close> by (subst (asm) fill_loop.simps) simp
    then show ?thesis by (rule fill_loop_count)
  qed
  then show ?thesis using c assms(3) by simp
qed

lemma rx_fill_empty:
  assumes "line_ok s" "ring_count (serial_rx (serial_rx_fill io s)) = 0"
  defines "t \<equiv> serial_rx_fill io s"
  shows "serial_tx t = serial_tx s \<and> serial_tx_next_drain_at t = serial_tx_next_drain_at s \<and>
    serial_cycles_per_byte t = serial_cycles_per_byte s \<and>
    (if serial_pace_hold s then
       if serial_program_idle s then \<not> serial_pace_hold t \<and> serial_rx_next_fill_at t = clock s + serial_cycles_per_byte s
       else t = s
     else \<not> serial_pace_hold t \<and> (the (serial_input t) = [] \<or> clock s < serial_rx_next_fill_at t))"
proof (cases "serial_pace_hold s")
  case True
  then show ?thesis by (simp add: t_def serial_rx_fill_def)
next
  case False
  obtain f u where u: "fill_loop io False s = (f, u)" by (cases "fill_loop io False s")
  have "ring_count (serial_rx u) = 0" using assms(2) False u by (auto simp: serial_rx_fill_def split: if_splits)
  from fill_loop_empty[OF assms(1) u this] False u show ?thesis
    by (auto simp: t_def serial_rx_fill_def)
qed

lemma unat_of_nat_u64: "n < 2 ^ 64 \<Longrightarrow> unat (of_nat n :: u64) = n"
  by (simp add: unat_of_nat take_bit_nat_eq_self)

text \<open>The time at which the last byte but one of those waiting will have gone.\<close>

lemma unat_idle_at:
  fixes c d p :: u64
  assumes "unat d \<le> unat c + unat p" "unat c + 256 * unat p < 2 ^ 64" "n < 256" "0 < n" "c < d"
  shows "unat (d + of_nat (n - 1) * p) = unat d + (n - 1) * unat p" "c < d + of_nat (n - 1) * p"
    "unat (d + of_nat (n - 1) * p) \<le> unat c + 255 * unat p"
proof -
  have m: "(n - 1) * unat p \<le> 254 * unat p" using assms(3) by (intro mult_le_mono1) simp
  have w: "unat (of_nat (n - 1) * p) = (n - 1) * unat p"
  proof -
    have "(n - 1) * unat p < 2 ^ 64" using m assms(2) by linarith
    moreover have "unat (of_nat (n - 1) :: u64) = n - 1" using assms(3) by (intro unat_of_nat_u64) simp
    ultimately show ?thesis by (simp add: unat_word_ariths)
  qed
  show e: "unat (d + of_nat (n - 1) * p) = unat d + (n - 1) * unat p"
  proof -
    have "unat d + (n - 1) * unat p < 2 ^ 64" using m assms(1,2) by linarith
    then show ?thesis using unat_add_u64[of d "of_nat (n - 1) * p"] w by simp
  qed
  show "c < d + of_nat (n - 1) * p" using e assms(5) by (simp add: word_less_nat_alt)
  show "unat (d + of_nat (n - 1) * p) \<le> unat c + 255 * unat p" using e m assms(1) by linarith
qed

text \<open>The next arrival after a drain and a fill that left nothing to read is later, or the hold has just ended.\<close>

lemma next_arrival_later:
  assumes s: "line_ok s" "room s" "ring_count (serial_tx s) = 0 \<or> clock s < serial_tx_next_drain_at s" "injected s = []"
    and e: "ring_count (serial_rx (serial_rx_fill io s)) = 0"
    and a: "serial_rx_next_arrival io (serial_rx_fill io s) = (arrival, u)" "arrival \<noteq> UINT64_MAX"
  shows "u = serial_rx_fill io s \<and>
    (clock s < arrival \<or> clock s \<le> arrival \<and> serial_pace_hold s \<and> \<not> serial_pace_hold u)"
proof -
  define t where "t = serial_rx_fill io s"
  note f = rx_fill_empty[OF s(1) e, folded t_def]
  have k: "line_kept s t" "clock t = clock s" using rx_fill_kept[OF s(1,2), of io] by (simp_all add: t_def)
  have l: "\<not> terminal_interactive t" "the (serial_input t) \<noteq> []" "u = t"
    using line_kept_ok[OF k(1)] a e
    by (auto simp: line_ok_def serial_rx_next_arrival_def t_def[symmetric] Let_def split: option.splits if_splits)
  show ?thesis
  proof (cases "serial_pace_hold t")
    case True
    then have h: "serial_pace_hold s" "\<not> serial_program_idle s" "t = s" using f by (auto split: if_splits)
    then have n: "0 < ring_count (serial_tx s)" using s(4) e t_def by (auto simp: serial_program_idle_def)
    then have "clock s < serial_tx_next_drain_at s + of_nat (ring_count (serial_tx s) - 1) * serial_cycles_per_byte s"
      using s ring_count_less[of "serial_tx s"] by (intro unat_idle_at) (auto simp: line_ok_def room_def)
    then show ?thesis using a True l h n e
      by (auto simp: serial_rx_next_arrival_def t_def[symmetric] Let_def max_def split: option.splits if_splits)
  next
    case False
    have "arrival = max (serial_rx_next_fill_at t) (clock t)"
      using a e l False by (auto simp: serial_rx_next_arrival_def t_def[symmetric] split: option.splits if_splits)
    moreover have "serial_pace_hold s \<or> clock s < serial_rx_next_fill_at t" using f l False by (auto split: if_splits)
    ultimately show ?thesis using k(2) l False by (auto simp: t_def[symmetric] max_def)
  qed
qed

lemma wait_loop_ends:
  fixes s :: "('d, 'z) serial_scheme"
  assumes "line_ok s" "clock s \<le> deadline" "unat deadline + 256 * unat (serial_cycles_per_byte s) < 2 ^ 64"
  shows "\<exists>v t. wait_loop io deadline s = Some (v, t) \<and> line_kept s t \<and> clock t \<le> deadline \<and>
    (v = 0xFF \<and> (injected t \<noteq> [] \<or> 0 < ring_count (serial_rx t)) \<or>
     v = 0x00 \<and> (clock t = deadline \<or> signalled io (stdin t)))"
  using assms
proof (induction "2 * unat (deadline - clock s) + of_bool (serial_pace_hold s)" arbitrary: s rule: less_induct)
  case less
  define s1 where "s1 = serial_tx_drain s"
  define p where "p = (if ring_count (serial_rx s1) = 0 then serial_pace_wait_times_out s1 else (False, s1))"
  define s2 where "s2 = snd p"
  define s3 where "s3 = serial_rx_fill io s2"
  note step = wait_loop.simps[of io deadline s, folded s1_def, unfolded Let_def, folded p_def]
  have rm: "room t" if "line_kept s t" "clock t \<le> deadline" for t
    using that less.prems by (simp add: room_def line_kept_def word_le_nat_alt)
  have k1: "line_kept s s1" "clock s1 = clock s" "ring_count (serial_tx s1) = 0 \<or> clock s < serial_tx_next_drain_at s1"
    using tx_drain_kept[OF less.prems(1) rm[OF line_kept_refl[OF less.prems(1)] less.prems(2)]] by (simp_all add: s1_def)
  have p2: "s2 = s1 \<or> s2 = s1\<lparr>serial_pace_waited := True\<rparr>"
    by (simp add: s2_def p_def serial_pace_wait_times_out_def)
  then have k2: "line_kept s s2" "clock s2 = clock s" "injected s2 = injected s1"
    "ring_count (serial_tx s2) = 0 \<or> clock s2 < serial_tx_next_drain_at s2"
    using k1 by auto
  have k3: "line_kept s s3" "clock s3 = clock s"
    using rx_fill_kept[OF line_kept_ok[OF k2(1)] rm[OF k2(1)], of io] k2 less.prems(2) line_kept_trans
    by (auto simp: s3_def)
  have finish: ?case if "wait_loop io deadline s = Some (v, t)" "line_kept s t" "clock t \<le> deadline"
    "v = 0xFF \<and> (injected t \<noteq> [] \<or> 0 < ring_count (serial_rx t)) \<or> v = 0x00 \<and> (clock t = deadline \<or> signalled io (stdin t))" for v t
    using that by blast
  show ?case
  proof (cases "injected s1 \<noteq> []")
    case True
    then show ?thesis using step k1 less.prems(2) by (intro finish[of "0xFF" s1]) auto
  next
    case ni: False
    show ?thesis
    proof (cases "fst p")
      case True
      have "line_kept s (s2\<lparr>clock := deadline\<rparr>)"
        using line_kept_trans[OF k2(1) line_kept_clock[OF line_kept_ok[OF k2(1)]]] k2(2) less.prems(2) by simp
      then show ?thesis using step ni True by (intro finish[of 0 "s2\<lparr>clock := deadline\<rparr>"]) (auto simp: s2_def split: prod.split)
    next
      case np: False
      have step3: "wait_loop io deadline s =
          (if ring_count (serial_rx s3) > 0 then Some (0xFF, s3)
           else if clock s3 \<ge> deadline \<or> signalled io (stdin s3) then Some (0x00, s3)
           else let (arrival, u) = serial_rx_next_arrival io s3 in
             if arrival \<noteq> UINT64_MAX then wait_loop io deadline (u\<lparr>clock := min arrival deadline\<rparr>)
             else if terminal_interactive u then
               let (ticks, d) = select_ticks io (deadline - clock u) (stdin u) in
               wait_loop io deadline
                 (u\<lparr>stdin := d, clock := (if deadline - clock u > ticks then clock u + ticks else deadline)\<rparr>)
             else wait_loop io deadline (u\<lparr>clock := deadline\<rparr>))"
        using step ni np unfolding Let_def by (cases p) (simp add: s3_def s2_def)
      show ?thesis
      proof (cases "ring_count (serial_rx s3) > 0 \<or> clock s3 \<ge> deadline \<or> signalled io (stdin s3)")
        case True
        then show ?thesis using step3 k3 less.prems(2)
          by (intro finish[of "if ring_count (serial_rx s3) > 0 then 0xFF else 0" s3]) auto
      next
        case False
        obtain arrival u where a: "serial_rx_next_arrival io s3 = (arrival, u)" by (cases "serial_rx_next_arrival io s3")
        have u: "u = s3" using a line_kept_ok[OF k3(1)] False
          by (auto simp: serial_rx_next_arrival_def line_ok_def Let_def split: if_splits)
        define c where "c = (if arrival \<noteq> UINT64_MAX then min arrival deadline else deadline)"
        have st: "wait_loop io deadline s = wait_loop io deadline (s3\<lparr>clock := c\<rparr>)"
          using step3 False a u line_kept_ok[OF k3(1)] by (simp add: c_def line_ok_def)
        have later: "clock s < arrival \<or> clock s \<le> arrival \<and> serial_pace_hold s2 \<and> \<not> serial_pace_hold s3"
          if "arrival \<noteq> UINT64_MAX"
          using next_arrival_later[OF line_kept_ok[OF k2(1)] rm[OF k2(1)] k2(4), of io arrival u] that a ni k2 False less.prems(2) u
          by (simp add: s3_def[symmetric])
        have cl: "clock s \<le> c" "c \<le> deadline" using later less.prems(2) by (auto simp: c_def)
        have hold2: "serial_pace_hold s2 = serial_pace_hold s" using p2 by (auto simp: s1_def)
        have hold3: "serial_pace_hold s2" if "serial_pace_hold s3"
          using rx_fill_empty[OF line_kept_ok[OF k2(1)], of io] that False by (auto simp: s3_def[symmetric] split: if_splits)
        have mono: "unat (deadline - c) \<le> unat (deadline - clock s)" "clock s < c \<Longrightarrow> unat (deadline - c) < unat (deadline - clock s)"
          using cl less.prems(2) by (simp_all add: unat_sub word_le_nat_alt word_less_nat_alt)
        have dec: "2 * unat (deadline - clock (s3\<lparr>clock := c\<rparr>)) + of_bool (serial_pace_hold (s3\<lparr>clock := c\<rparr>))
            < 2 * unat (deadline - clock s) + of_bool (serial_pace_hold s)"
        proof (cases "clock s < c")
          case True
          then show ?thesis using mono(2) by (simp add: of_bool_def)
        next
          case ge: False
          then have "arrival \<noteq> UINT64_MAX" "\<not> clock s < arrival" using False k3(2) by (auto simp: c_def not_less min_def split: if_splits)
          then show ?thesis using later mono(1) hold2 by simp
        qed
        have k4: "line_kept s (s3\<lparr>clock := c\<rparr>)"
          using line_kept_trans[OF k3(1) line_kept_clock[OF line_kept_ok[OF k3(1)]]] k3(2) cl by simp
        from less.hyps[OF dec line_kept_ok[OF k4]] cl less.prems(3) k4
        obtain v t where "wait_loop io deadline (s3\<lparr>clock := c\<rparr>) = Some (v, t)" "line_kept (s3\<lparr>clock := c\<rparr>) t" "clock t \<le> deadline"
          "v = 0xFF \<and> (injected t \<noteq> [] \<or> 0 < ring_count (serial_rx t)) \<or> v = 0x00 \<and> (clock t = deadline \<or> signalled io (stdin t))"
          by (auto simp: line_kept_def)
        then show ?thesis using st line_kept_trans[OF k4] by (intro finish[of v t]) auto
      qed
    qed
  qed
qed

section \<open>The program's end of the line\<close>

text \<open>
  What the stubs do with the ports: read a byte if one is ready (\<open>serial_read\<close>), write one if it
  is accepted (\<open>serial_write\<close>), wait, and run for a time. A read says whether its byte came from the
  wire or is part of a response of the terminal.
\<close>

datatype line_event = Read | Write u8 | Wait u16 | Run u64

definition read_event :: "'d terminal \<Rightarrow> ('d, 'z) serial_scheme \<Rightarrow> u8 list \<times> ('d, 'z) serial_scheme" where
  "read_event io s =
     (let (ready, s) = serial_ready_port io s in
      if ready = 0 then ([], s)
      else let wire = (injected s = []); (b, s) = serial_data_port io s in (if wire then [b] else [], s))"

definition write_event :: "u8 \<Rightarrow> ('d, 'z) serial_scheme \<Rightarrow> u8 list \<times> ('d, 'z) serial_scheme" where
  "write_event b s =
     (let (ready, s) = serial_write_ready_port s in
      if ready = 0 then ([], s) else ([b], serial_write_port b s))"

fun line_step :: "'d terminal \<Rightarrow> line_event \<Rightarrow> ('d, 'z) serial_scheme \<Rightarrow> ((u8 list \<times> u8 list) \<times> ('d, 'z) serial_scheme) option" where
  "line_step io Read s = (let (r, s) = read_event io s in Some ((r, []), s))"
| "line_step io (Write b) s = (let (w, s) = write_event b s in Some (([], w), s))"
| "line_step io (Wait ms) s = map_option (\<lambda>(v, s). (([], []), s)) (serial_wait_ready io ms s)"
| "line_step io (Run t) s = Some (([], []), s\<lparr>clock := clock s + t\<rparr>)"

fun line_run :: "'d terminal \<Rightarrow> line_event list \<Rightarrow> ('d, 'z) serial_scheme \<Rightarrow> ((u8 list \<times> u8 list) \<times> ('d, 'z) serial_scheme) option" where
  "line_run io [] s = Some (([], []), s)"
| "line_run io (e # es) s =
     (case line_step io e s of None \<Rightarrow> None
      | Some ((r, w), s) \<Rightarrow> map_option (\<lambda>((r', w'), s). ((r @ r', w @ w'), s)) (line_run io es s))"

fun event_time :: "'d terminal \<Rightarrow> line_event \<Rightarrow> nat" where
  "event_time io (Wait ms) = unat (wait_ticks io ms)"
| "event_time io (Run t) = unat t"
| "event_time io _ = 0"

text \<open>What a step takes off the bytes to read and adds to the bytes accepted.\<close>

definition line_moved :: "u8 list \<Rightarrow> u8 list \<Rightarrow> nat \<Rightarrow> ('d, 'z) serial_scheme \<Rightarrow> ('d, 'z) serial_scheme \<Rightarrow> bool" where
  "line_moved r w d s t \<longleftrightarrow> line_ok t \<and> to_read s = r @ to_read t \<and> accepted t = accepted s @ w \<and>
     serial_fill_index t + length (the (serial_input t)) = serial_fill_index s + length (the (serial_input s)) \<and>
     serial_cycles_per_byte t = serial_cycles_per_byte s \<and> unat (clock t) \<le> unat (clock s) + d"

lemma line_moved_trans:
  "line_moved r w d s t \<Longrightarrow> line_moved r' w' d' t u \<Longrightarrow> line_moved (r @ r') (w @ w') (d + d') s u"
  by (auto simp: line_moved_def)

lemma line_kept_moved: "line_kept s t \<Longrightarrow> clock t = clock s \<Longrightarrow> line_moved [] [] 0 s t"
  by (simp add: line_moved_def line_kept_def)

lemma ready_port_kept:
  assumes "line_ok s" "room s" "serial_ready_port io s = (v, t)"
  shows "line_kept s t \<and> clock t = clock s \<and>
    (v = 0 \<or> injected t \<noteq> [] \<or> 0 < ring_count (serial_rx t))"
proof -
  define s1 where "s1 = serial_tx_drain s"
  have k1: "line_kept s s1" "clock s1 = clock s" using tx_drain_kept[OF assms(1,2)] by (simp_all add: s1_def)
  have r1: "room s1" using assms(2) k1 by (simp add: room_def line_kept_def)
  have k2: "line_kept s (serial_rx_fill io s1)" "clock (serial_rx_fill io s1) = clock s"
    using rx_fill_kept[OF line_kept_ok[OF k1(1)] r1, of io] k1 line_kept_trans by auto
  have "0 < serial_baud s" "0 < serial_baud s1" using assms(1) line_kept_ok[OF k1(1)] by (simp_all add: line_ok_def)
  then show ?thesis using assms(3) k1 k2
    by (auto simp: serial_ready_port_def s1_def[symmetric] Let_def split: if_splits)
qed

lemma take_injected_kept: "line_ok s \<Longrightarrow> line_kept s (take_injected s) \<and> clock (take_injected s) = clock s"
  by (simp add: take_injected_def line_kept_def line_ok_def to_read_def accepted_def)

lemma line_ok_rings [simp]:
  "line_ok (s\<lparr>serial_rx := q\<rparr>) = line_ok s" "line_ok (s\<lparr>serial_tx := q\<rparr>) = line_ok s"
  by (simp_all add: line_ok_def)

lemma data_port_moved:
  assumes "line_ok s" "room s" "serial_data_port io s = (b, t)" "injected s \<noteq> [] \<or> 0 < ring_count (serial_rx s)"
  shows "line_moved (if injected s = [] then [b] else []) [] 0 s t"
proof (cases "injected s = []")
  case False
  then show ?thesis using assms(3) take_injected_kept[OF assms(1)] by (auto simp: serial_data_port_def intro: line_kept_moved)
next
  case True
  define u where "u = serial_rx_fill io s"
  have k: "line_kept s u" "clock u = clock s" using rx_fill_kept[OF assms(1,2), of io] by (simp_all add: u_def)
  have c: "ring_count (serial_rx u) \<noteq> 0"
  proof (cases "serial_pace_hold s")
    case True
    then show ?thesis using assms(4) \<open>injected s = []\<close>
      by (simp add: u_def serial_rx_fill_def serial_program_idle_def)
  next
    case False
    obtain f v where v: "fill_loop io False s = (f, v)" by (cases "fill_loop io False s")
    show ?thesis using fill_loop_count[OF v] assms(4) True False v by (simp add: u_def serial_rx_fill_def)
  qed
  then obtain x xs where x: "ring_bytes (serial_rx u) = x # xs" by (metis length_0_conv length_ring_bytes neq_Nil_conv)
  have "0 < serial_baud s" using assms(1) by (simp add: line_ok_def)
  then have t: "b = x" "t = u\<lparr>serial_rx := snd (ring_get (serial_rx u))\<rparr>"
    using assms(3) True c ring_bytes_get[OF x] by (auto simp: serial_data_port_def u_def[symmetric] Let_def split: prod.splits)
  show ?thesis using k True ring_bytes_get[OF x] x
    by (simp add: t line_moved_def line_kept_def to_read_def accepted_def)
qed

lemma read_event_moved:
  assumes "line_ok s" "room s" "read_event io s = (r, t)"
  shows "line_moved r [] 0 s t"
proof -
  obtain v s1 where s1: "serial_ready_port io s = (v, s1)" by (cases "serial_ready_port io s")
  note k = ready_port_kept[OF assms(1,2) s1]
  show ?thesis
  proof (cases "v = 0")
    case True
    then show ?thesis using assms(3) s1 k by (auto simp: read_event_def intro: line_kept_moved)
  next
    case False
    obtain b u where u: "serial_data_port io s1 = (b, u)" by (cases "serial_data_port io s1")
    have "room s1" using assms(2) k by (simp add: room_def line_kept_def)
    then have "line_moved (if injected s1 = [] then [b] else []) [] 0 s1 u"
      using data_port_moved[OF line_kept_ok _ u] k False by blast
    with k have "line_moved ([] @ (if injected s1 = [] then [b] else [])) ([] @ []) (0 + 0) s u"
      by (intro line_moved_trans[OF line_kept_moved]) auto
    then show ?thesis using assms(3) s1 u False by (simp add: read_event_def Let_def)
  qed
qed

lemma write_event_moved:
  assumes "line_ok s" "room s" "write_event b s = (w, t)"
  shows "line_moved [] w 0 s t"
proof -
  define s1 where "s1 = serial_tx_drain s"
  define s2 where "s2 = serial_tx_drain s1"
  have k1: "line_kept s s1" "clock s1 = clock s" using tx_drain_kept[OF assms(1,2)] by (simp_all add: s1_def)
  have r1: "room s1" using assms(2) k1 by (simp add: room_def line_kept_def)
  have k2: "line_kept s s2" "clock s2 = clock s"
    using tx_drain_kept[OF line_kept_ok[OF k1(1)] r1] k1 line_kept_trans by (auto simp: s2_def)
  have b: "0 < serial_baud s" "0 < serial_baud s1" using assms(1) line_kept_ok[OF k1(1)] by (simp_all add: line_ok_def)
  show ?thesis
  proof (cases "ring_count (serial_tx s1) < 255")
    case False
    then show ?thesis using assms(3) b k1
      by (auto simp: write_event_def serial_write_ready_port_def s1_def[symmetric] SERIAL_BUF_SIZE_def intro: line_kept_moved)
  next
    case True
    have "ring_count (serial_tx s2) \<le> ring_count (serial_tx s1)" using drain_count by (simp add: s2_def)
    then have c: "ring_bytes (ring_put b (serial_tx s2)) = ring_bytes (serial_tx s2) @ [b]"
      using True by (intro ring_bytes_put) simp
    have "w = [b]" "t = s2\<lparr>serial_tx := ring_put b (serial_tx s2)\<rparr>"
      using assms(3) b True
      by (auto simp: write_event_def serial_write_ready_port_def serial_write_port_def s1_def[symmetric] s2_def[symmetric]
          SERIAL_BUF_SIZE_def Let_def)
    then show ?thesis using k2 c
      by (simp add: line_moved_def line_kept_def to_read_def accepted_def)
  qed
qed

lemma wait_event_moved:
  assumes "line_ok s" "unat (clock s) + unat (wait_ticks io ms) + 256 * unat (serial_cycles_per_byte s) < 2 ^ 64"
  shows "\<exists>v t. serial_wait_ready io ms s = Some (v, t) \<and> line_moved [] [] (unat (wait_ticks io ms)) s t"
proof -
  have d: "unat (clock s + wait_ticks io ms) = unat (clock s) + unat (wait_ticks io ms)"
    using assms(2) by (intro unat_add_u64) simp
  have b: "serial_baud s \<noteq> 0" using assms(1) by (simp add: line_ok_def)
  obtain v t where t: "wait_loop io (clock s + wait_ticks io ms) s = Some (v, t)" "line_kept s t" "clock t \<le> clock s + wait_ticks io ms"
    using wait_loop_ends[OF assms(1), of "clock s + wait_ticks io ms" io] d assms(2) by (auto simp: word_le_nat_alt)
  have "line_moved [] [] (unat (wait_ticks io ms)) s t"
    using t d by (simp add: line_moved_def line_kept_def word_le_nat_alt)
  then show ?thesis using t b by (auto simp: serial_wait_ready_def)
qed

lemma line_step_moved:
  assumes "line_ok s" "unat (clock s) + event_time io e + 256 * unat (serial_cycles_per_byte s) < 2 ^ 64"
  shows "\<exists>r w t. line_step io e s = Some ((r, w), t) \<and> line_moved r w (event_time io e) s t"
proof (cases e)
  case Read
  then show ?thesis using assms read_event_moved[of s io] by (cases "read_event io s") (simp add: room_def)
next
  case (Write b)
  then show ?thesis using assms write_event_moved[of s b] by (cases "write_event b s") (simp add: room_def)
next
  case (Wait ms)
  then show ?thesis using wait_event_moved[of s io ms] assms by auto
next
  case (Run t)
  have "unat (clock s + t) = unat (clock s) + unat t" using assms(2) Run by (intro unat_add_u64) simp
  then show ?thesis using assms(1) Run
    by (auto simp: line_moved_def line_ok_def to_read_def accepted_def)
qed

lemma line_run_moved:
  "line_ok s \<Longrightarrow> unat (clock s) + sum_list (map (event_time io) es) + 256 * unat (serial_cycles_per_byte s) < 2 ^ 64 \<Longrightarrow>
   \<exists>r w t. line_run io es s = Some ((r, w), t) \<and> line_moved r w (sum_list (map (event_time io) es)) s t"
proof (induction es arbitrary: s)
  case (Cons e es)
  obtain r w t where t: "line_step io e s = Some ((r, w), t)" "line_moved r w (event_time io e) s t"
    using line_step_moved[OF Cons.prems(1), of io e] Cons.prems(2) by auto
  obtain r' w' u where u: "line_run io es t = Some ((r', w'), u)" "line_moved r' w' (sum_list (map (event_time io) es)) t u"
    using Cons.IH[of t] Cons.prems(2) t(2) by (auto simp: line_moved_def)
  show ?case using t(1) u(1) line_moved_trans[OF t(2) u(2)] by simp
qed (simp add: line_moved_def)

text \<open>
  Property C39: the line is faithful and keeps to its rate. On any run of reads, writes, waits and
  time from a reset, paced or not, with an input file and a baud rate, every wait returns; what the
  program has read from the wire, what is buffered and what is left are the file, what it had
  accepted is what was sent and what is buffered, and neither direction is faster than a byte in
  \<open>serial_cycles_per_byte\<close> cycles.
\<close>

theorem serial_line_sound:
  assumes "0 < serial_baud s" "\<not> terminal_interactive s" "serial_has_output s" "serial_input s = Some bytes"
    and "serial_sent s = []" "u \<in> {serial_reset s, serial_pace_start m (serial_reset s)}"
    and "unat (clock s) + sum_list (map (event_time io) es) + 256 * unat (serial_cycles_per_byte s) < 2 ^ 64"
  shows "\<exists>r w t. line_run io es u = Some ((r, w), t) \<and>
    r @ ring_bytes (serial_rx t) @ the (serial_input t) = bytes \<and>
    serial_sent t @ ring_bytes (serial_tx t) = w \<and>
    (length r + ring_count (serial_rx t)) * unat (serial_cycles_per_byte t) \<le> unat (clock t) + unat (serial_cycles_per_byte t) \<and>
    length (serial_sent t) * unat (serial_cycles_per_byte t) \<le> unat (clock t) + unat (serial_cycles_per_byte t)"
proof -
  have u: "line_ok u" "to_read u = bytes" "accepted u = []" "serial_fill_index u = 0" "serial_input u = Some bytes"
    "clock u = clock s" "serial_cycles_per_byte u = serial_cycles_per_byte s"
    using assms(1-6) by (auto simp: line_ok_def to_read_def accepted_def serial_reset_def serial_pace_start_def ring_bytes_def ring_count_def)
  obtain r w t where t: "line_run io es u = Some ((r, w), t)" "line_moved r w (sum_list (map (event_time io) es)) u t"
    using line_run_moved[OF u(1), of io es] assms(7) u by auto
  have b: "r @ ring_bytes (serial_rx t) @ the (serial_input t) = bytes" using t(2) u by (simp add: line_moved_def to_read_def)
  then have "length r + ring_count (serial_rx t) + length (the (serial_input t)) = length bytes"
    by (metis add.assoc length_append length_ring_bytes)
  moreover have "serial_fill_index t + length (the (serial_input t)) = length bytes" using t(2) u by (simp add: line_moved_def)
  ultimately have "serial_fill_index t = length r + ring_count (serial_rx t)" by linarith
  then show ?thesis using t b u
    by (intro exI[of _ r] exI[of _ w] exI[of _ t]) (auto simp: line_moved_def line_ok_def accepted_def)
qed

text \<open>A terminal nobody uses, and a line at one byte in ten cycles with three bytes to come.\<close>

definition no_terminal :: "unit terminal" where
  "no_terminal = \<lparr>byte_ready = \<lambda>d. (False, d), stdin_read = \<lambda>d. (At_end, d), stdin_wait = \<lambda>ms d. (False, d),
     select_ticks = \<lambda>n d. (n, d), wait_ticks = ucast, signalled = \<lambda>d. False\<rparr>"

definition some_line :: "unit serial" where
  "some_line = \<lparr>clock = 0, serial_baud = 9600, serial_cycles_per_byte = 10, serial_rx = \<lparr>ring_buf = \<lambda>i. 0, ring_head = 0, ring_tail = 0\<rparr>,
     serial_rx_next_fill_at = 0, serial_tx = \<lparr>ring_buf = \<lambda>i. 0, ring_head = 0, ring_tail = 0\<rparr>, serial_tx_next_drain_at = 0,
     serial_pace_mask = None, serial_fill_index = 0, serial_pace_hold = False, serial_pace_waited = False,
     serial_inject_pos = 0, terminal_mode = False, terminal_interactive = False, serial_input = Some [1, 2, 3],
     serial_has_output = True, serial_sent = [], screen = Some console_init, stdin = (), emu_done = False, exitcode_set = None\<rparr>"

theorem serial_line_witness:
  "\<exists>r w t. line_run no_terminal [Read, Wait 15, Read, Write 7, Run 30, Read] (serial_reset some_line) = Some ((r, w), t) \<and>
    r @ ring_bytes (serial_rx t) @ the (serial_input t) = [1, 2, 3] \<and> serial_sent t @ ring_bytes (serial_tx t) = w"
  using serial_line_sound[of some_line "[1, 2, 3]" "serial_reset some_line" "[]" no_terminal "[Read, Wait 15, Read, Write 7, Run 30, Read]"]
  by (auto simp: some_line_def no_terminal_def)

end
