(* ===== verification/Plain_Ports.thy ===== *)
theory Plain_Ports imports Plain_Files Terminal_Serial Direct_Io
begin

text \<open>
  The ports of the plain machine (\<open>read6502\<close> and \<open>write6502\<close> in \<open>src/emulator/emulator.c\<close>): the
  console, the serial line, files and directories, arguments, screen calls, and the memory
  behind them. The highlighting of repaints and the watch on an address (\<open>E6502_WATCH\<close>), which
  only print, are left out, and so is the terminal mode of the real terminal.
\<close>

section \<open>State\<close>

text \<open>
  An access that ends the program (\<open>emulation_exit\<close>) or never returns (a wait on a dead terminal)
  leaves that here; nothing happens after it. The registers and the clock are the CPU's, copied
  for the ports before every instruction.
\<close>

datatype halt = Exits u8 | Hangs

record 'd plain = "'d serial" +
  memory :: "u16 \<Rightarrow> u8"
  reg_a :: u8
  reg_x :: u8
  reg_y :: u8
  handles :: file_table
  console_mode :: bool
  direct_io :: bool
  scr_a :: u8
  pushback :: "u8 list"
  con_eof_flag :: bool
  wait_ms :: u16
  pace_mask :: "u8 list option"
  pace_in :: nat
  pace_polls :: int
  pace_remaining :: int
  pace_log :: "(nat \<times> nat) list option"
  con_out :: "u8 list"
  err_out :: "u8 list"
  err_captured :: bool
  error_output_started :: bool
  arg_addresses :: "u16 list"
  term_size :: "int \<times> int"
  plain_halt :: "halt option"

record 'd plain_io =
  the_terminal :: "'d terminal"
  scandir :: "string \<Rightarrow> disk \<Rightarrow> dirent list option"

definition halts :: "halt \<Rightarrow> ('d, 'z) plain_scheme \<Rightarrow> ('d, 'z) plain_scheme" where
  "halts h m = m\<lparr>plain_halt := Some h\<rparr>"

text \<open>An exit with code 1 and a message, which is left out.\<close>

definition fail :: "('d, 'z) plain_scheme \<Rightarrow> u8 \<times> ('d, 'z) plain_scheme" where
  "fail m = (0, halts (Exits 1) m)"

text \<open>The size of the terminal, as the options and \<open>ioctl\<close> have it.\<close>

definition get_terminal_size :: "(int \<times> int) option \<Rightarrow> int \<Rightarrow> int \<Rightarrow> int \<times> int" where
  "get_terminal_size winsize override_rows override_cols =
     (let (rows, cols) = (case winsize of Some (r, c) \<Rightarrow> if 0 < r then (r, c) else (24, 80) | None \<Rightarrow> (24, 80)) in
      (if 0 < override_rows then override_rows else rows, if 0 < override_cols then override_cols else cols))"

section \<open>The console\<close>

definition end_pace_pause :: "('d, 'z) plain_scheme \<Rightarrow> ('d, 'z) plain_scheme" where
  "end_pace_pause m =
     m\<lparr>pace_remaining := 0, pace_log := map_option (\<lambda>ls. ls @ [(pace_in m, length (con_out m))]) (pace_log m)\<rparr>"

definition wait_ready :: "'d terminal \<Rightarrow> u16 \<Rightarrow> ('d, 'z) plain_scheme \<Rightarrow> u8 \<times> ('d, 'z) plain_scheme" where
  "wait_ready io ms m =
     (if terminal_mode m then
        (case serial_wait_ready io ms m of Some r \<Rightarrow> r | None \<Rightarrow> (0, halts Hangs m))
      else if con_eof_flag m then (0x01, m)
      else if console_mode m then
        let (r, d) = stdin_wait io ms (stdin m) in (if r then 0xFF else 0x00, m\<lparr>stdin := d\<rparr>)
      else if pace_remaining m > 1 then (0x00, m\<lparr>pace_remaining := 1\<rparr>)
      else (0xFF, if pace_remaining m = 1 then end_pace_pause m else m))"

text \<open>A byte of the input file, and the input file at its end started again.\<close>

definition input_getc :: "('d, 'z) plain_scheme \<Rightarrow> u8 option \<times> ('d, 'z) plain_scheme" where
  "input_getc m = (case io_files (handles m) 0 of None \<Rightarrow> (None, m) | Some f \<Rightarrow>
     let (b, f) = fgetc (io_disk (handles m)) f in (b, m\<lparr>handles := (handles m)\<lparr>io_files := (io_files (handles m))(0 \<mapsto> f)\<rparr>\<rparr>))"

definition input_rewind :: "('d, 'z) plain_scheme \<Rightarrow> ('d, 'z) plain_scheme" where
  "input_rewind m = m\<lparr>handles := rewind 1 (handles m)\<rparr>"

definition con_read_byte :: "'d terminal \<Rightarrow> ('d, 'z) plain_scheme \<Rightarrow> u8 \<times> ('d, 'z) plain_scheme" where
  "con_read_byte io m =
     (if console_mode m then
        let (r, d) = stdin_read io (stdin m); m = m\<lparr>stdin := d\<rparr> in
        (case r of Got b \<Rightarrow> (b, m) | At_end \<Rightarrow> (0, m\<lparr>con_eof_flag := True\<rparr>) | Interrupted \<Rightarrow> (0, interrupt m) | Failed \<Rightarrow> (0, m))
      else case input_getc m of
        (None, m) \<Rightarrow> (0, m\<lparr>con_eof_flag := True\<rparr>)
      | (Some b, m) \<Rightarrow>
          (b, m\<lparr>pace_remaining := (case pace_mask m of Some ms \<Rightarrow>
                   if pace_in m < length ms \<and> ms ! pace_in m \<noteq> 0x30 then pace_polls m else pace_remaining m
                 | None \<Rightarrow> pace_remaining m),
               pace_in := pace_in m + 1\<rparr>))"

definition con_input :: "'d terminal \<Rightarrow> ('d, 'z) plain_scheme direct_io_input" where
  "con_input io = \<lparr>input_read = con_read_byte io, input_wait = wait_ready io\<rparr>"

definition con_read :: "'d terminal \<Rightarrow> ('d, 'z) plain_scheme \<Rightarrow> u8 \<times> ('d, 'z) plain_scheme" where
  "con_read io m =
     (if terminal_mode m then fail m
      else if direct_io m then
        (case direct_io_read_key (con_input io) (pushback m, m) of
           Some (key, k, m') \<Rightarrow> (key, m'\<lparr>pushback := k\<rparr>) | None \<Rightarrow> (0, halts Hangs m))
      else con_read_byte io m)"

definition con_ready :: "'d terminal \<Rightarrow> ('d, 'z) plain_scheme \<Rightarrow> u8 \<times> ('d, 'z) plain_scheme" where
  "con_ready io m =
     (if terminal_mode m then fail m
      else if direct_io m \<and> pushback m \<noteq> [] then (0xFF, m)
      else if con_eof_flag m then (0x01, m)
      else if console_mode m then
        let (r, d) = byte_ready io (stdin m) in (if r then 0xFF else 0x00, m\<lparr>stdin := d\<rparr>)
      else if pace_remaining m > 0 then
        let m = m\<lparr>pace_remaining := pace_remaining m - 1\<rparr> in
        (0x00, if pace_remaining m = 0 then end_pace_pause m else m)
      else (0xFF, m))"

definition con_write_byte :: "u8 \<Rightarrow> ('d, 'z) plain_scheme \<Rightarrow> ('d, 'z) plain_scheme" where
  "con_write_byte v m =
     m\<lparr>con_out := con_out m @ [v],
       screen := (if console_mode m then Option.bind (screen m) (console_handle_byte v) else screen m)\<rparr>"

section \<open>Reading\<close>

abbreviation (input) port_read_b :: u16 where "port_read_b \<equiv> 0xF004"
abbreviation (input) port_write_b :: u16 where "port_write_b \<equiv> 0xF001"
abbreviation (input) port_write_d :: u16 where "port_write_d \<equiv> 0xF002"
abbreviation (input) port_exit :: u16 where "port_exit \<equiv> 0xF003"
abbreviation (input) port_open :: u16 where "port_open \<equiv> 0xF005"
abbreviation (input) port_close :: u16 where "port_close \<equiv> 0xF000"
abbreviation (input) port_read :: u16 where "port_read \<equiv> 0xFFE5"
abbreviation (input) port_argc :: u16 where "port_argc \<equiv> 0xFFE0"
abbreviation (input) port_argv_l :: u16 where "port_argv_l \<equiv> 0xFFE1"
abbreviation (input) port_argv_h :: u16 where "port_argv_h \<equiv> 0xFFE2"
abbreviation (input) port_openout :: u16 where "port_openout \<equiv> 0xFFE3"
abbreviation (input) port_write :: u16 where "port_write \<equiv> 0xFFE4"
abbreviation (input) port_con_read :: u16 where "port_con_read \<equiv> 0xFFF0"
abbreviation (input) port_con_flush :: u16 where "port_con_flush \<equiv> 0xFFF1"
abbreviation (input) port_term_rows :: u16 where "port_term_rows \<equiv> 0xFFF2"
abbreviation (input) port_term_cols :: u16 where "port_term_cols \<equiv> 0xFFF3"
abbreviation (input) port_con_ready :: u16 where "port_con_ready \<equiv> 0xFFF4"
abbreviation (input) port_serial_ready :: u16 where "port_serial_ready \<equiv> 0xFFF5"
abbreviation (input) port_serial_data :: u16 where "port_serial_data \<equiv> 0xFFF6"
abbreviation (input) port_serial_write :: u16 where "port_serial_write \<equiv> 0xFFF7"
abbreviation (input) port_serial_write_ready :: u16 where "port_serial_write_ready \<equiv> 0xFFF8"
abbreviation (input) port_eof_b :: u16 where "port_eof_b \<equiv> 0xFFF9"
abbreviation (input) port_eof :: u16 where "port_eof \<equiv> 0xFFFA"
abbreviation (input) port_opendir :: u16 where "port_opendir \<equiv> 0xFFFB"
abbreviation (input) port_wait_lo :: u16 where "port_wait_lo \<equiv> 0xFFE6"
abbreviation (input) port_wait_hi :: u16 where "port_wait_hi \<equiv> 0xFFE7"
abbreviation (input) port_wait_ready :: u16 where "port_wait_ready \<equiv> 0xFFE8"
abbreviation (input) port_scr_a :: u16 where "port_scr_a \<equiv> 0xFFE9"
abbreviation (input) port_scr_op :: u16 where "port_scr_op \<equiv> 0xFFEA"

text \<open>The C string at an address, up to a NUL or the end of memory.\<close>

definition memory_string :: "u16 \<Rightarrow> ('d, 'z) plain_scheme \<Rightarrow> string" where
  "memory_string a m = c_name (map (\<lambda>i. memory m (of_nat i)) [unat a..<0x10000])"

definition name_at_ax :: "('d, 'z) plain_scheme \<Rightarrow> string" where
  "name_at_ax m = memory_string (to16 (reg_a m) OR push_bit 8 (to16 (reg_x m))) m"

text \<open>An operation on the handles; None ends the program.\<close>

definition on_handles :: "(file_table \<Rightarrow> (u8 \<times> file_table) option) \<Rightarrow> ('d, 'z) plain_scheme \<Rightarrow> u8 \<times> ('d, 'z) plain_scheme" where
  "on_handles f m = (case f (handles m) of None \<Rightarrow> fail m | Some (v, t) \<Rightarrow> (v, m\<lparr>handles := t\<rparr>))"

definition read_handle :: "u8 \<Rightarrow> file_table \<Rightarrow> (u8 \<times> file_table) option" where
  "read_handle h t =
     (case open_dir h t of
        Some ds \<Rightarrow> Some (dir_byte h ds t)
      | None \<Rightarrow> (case file_read h t of None \<Rightarrow> None
          | Some (Some b, t) \<Rightarrow> Some (b, t) | Some (None, t) \<Rightarrow> Some (4, rewind h t)))"

definition eof_handle :: "u8 \<Rightarrow> file_table \<Rightarrow> (u8 \<times> file_table) option" where
  "eof_handle h t =
     (case open_dir h t of
        Some ds \<Rightarrow> Some (if dir_at_end ds then 0x80 else 0x00, t)
      | None \<Rightarrow> (case file_read h t of None \<Rightarrow> None
          | Some (Some b, _) \<Rightarrow> Some (0, t) | Some (None, t) \<Rightarrow> Some (0x80, rewind h t)))"

definition argv :: "('d, 'z) plain_scheme \<Rightarrow> (u16 \<Rightarrow> u8) \<Rightarrow> u8 \<times> ('d, 'z) plain_scheme" where
  "argv m half =
     (if unat (reg_a m) < length (arg_addresses m) then (half (arg_addresses m ! unat (reg_a m)), m) else fail m)"

definition plain_port_read :: "'d plain_io \<Rightarrow> u16 \<Rightarrow> ('d, 'z) plain_scheme \<Rightarrow> u8 \<times> ('d, 'z) plain_scheme" where
  "plain_port_read io address m =
     (if address = port_read_b then
        if terminal_mode m then fail m
        else (case input_getc m of (None, m) \<Rightarrow> (4, input_rewind m) | (Some b, m) \<Rightarrow> (b, m))
      else if address = port_open then on_handles (file_open_with_mode fopen_rb (name_at_ax m)) m
      else if address = port_openout then on_handles (file_open_with_mode fopen_wb (name_at_ax m)) m
      else if address = port_read then on_handles (read_handle (reg_a m)) m
      else if address = port_eof_b then
        if terminal_mode m then fail m
        else (case input_getc m of (None, m') \<Rightarrow> (0x80, input_rewind m') | (Some b, _) \<Rightarrow> (0, m))
      else if address = port_eof then on_handles (eof_handle (reg_a m)) m
      else if address = port_opendir then on_handles (dir_open (scandir io) (name_at_ax m)) m
      else if address = port_argc then (of_nat (length (arg_addresses m)), m)
      else if address = port_argv_l then argv m (\<lambda>w. to8 (w AND 0xFF))
      else if address = port_argv_h then argv m (\<lambda>w. to8 (drop_bit 8 w))
      else if address = port_con_read then con_read (the_terminal io) m
      else if address = port_term_rows then (if fst (term_size m) > 255 then 255 else word_of_int (fst (term_size m)), m)
      else if address = port_term_cols then (if snd (term_size m) > 255 then 255 else word_of_int (snd (term_size m)), m)
      else if address = port_con_ready then con_ready (the_terminal io) m
      else if address = port_wait_ready then
        if direct_io m \<and> pushback m \<noteq> [] then (0xFF, m) else wait_ready (the_terminal io) (wait_ms m) m
      else if address = port_serial_ready then serial_ready_port (the_terminal io) m
      else if address = port_serial_data then serial_data_port (the_terminal io) m
      else if address = port_serial_write_ready then serial_write_ready_port m
      else (memory m address,
            if address = 0xFFFE \<and> memory m 0xFFFE = 0 \<and> memory m 0xFFFF = 0 then m\<lparr>emu_done := True\<rparr> else m))"

section \<open>Writing\<close>

definition write_error_byte :: "u8 \<Rightarrow> ('d, 'z) plain_scheme \<Rightarrow> ('d, 'z) plain_scheme" where
  "write_error_byte v m =
     (if err_captured m then m\<lparr>err_out := err_out m @ [v]\<rparr>
      else m\<lparr>err_out := err_out m @ (if error_output_started m then [] else [0x0A]) @ [v], error_output_started := True\<rparr>)"

definition plain_port_write :: "u16 \<Rightarrow> u8 \<Rightarrow> ('d, 'z) plain_scheme \<Rightarrow> ('d, 'z) plain_scheme" where
  "plain_port_write address v m =
     (if address = port_write_b then if terminal_mode m then snd (fail m) else con_write_byte v m
      else if address = port_scr_a then m\<lparr>scr_a := v\<rparr>
      else if address = port_scr_op then fold con_write_byte (direct_io_screen v (scr_a m) (reg_y m)) m
      else if address = port_write_d then write_error_byte v m
      else if address = port_close then snd (on_handles (\<lambda>t. map_option (Pair 0) (file_close v t)) m)
      else if address = port_exit then m\<lparr>exitcode_set := Some v, emu_done := True\<rparr>
      else if address = port_write then snd (on_handles (\<lambda>t. map_option (Pair 0) (file_write (reg_x m) v t)) m)
      else if address = port_wait_lo then m\<lparr>wait_ms := (wait_ms m AND 0xFF00) OR to16 v\<rparr>
      else if address = port_wait_hi then m\<lparr>wait_ms := (wait_ms m AND 0x00FF) OR push_bit 8 (to16 v)\<rparr>
      else if address = port_con_flush then if terminal_mode m then snd (fail m) else m
      else if address = port_serial_write then serial_write_port v m
      else m\<lparr>memory := (memory m)(address := v)\<rparr>)"

text \<open>After an access that does not return there are no more.\<close>

definition plain_read :: "'d plain_io \<Rightarrow> u16 \<Rightarrow> ('d, 'z) plain_scheme \<Rightarrow> u8 \<times> ('d, 'z) plain_scheme" where
  "plain_read io address m = (if plain_halt m = None then plain_port_read io address m else (0, m))"

definition plain_write :: "u16 \<Rightarrow> u8 \<Rightarrow> ('d, 'z) plain_scheme \<Rightarrow> ('d, 'z) plain_scheme" where
  "plain_write address v m = (if plain_halt m = None then plain_port_write address v m else m)"

end
