(* ===== verification/Stubs.thy ===== *)
theory Stubs imports Plain_Ports
begin

text \<open>
  The jump table at $F006 and the routines behind it (\<open>src/emulator/stubs.c\<close>): the machine code
  through which a program of the plain machine calls the ports.
\<close>

section \<open>Writing code\<close>

text \<open>The writes to memory, latest first, and the address of the next byte.\<close>

type_synonym code = "(int \<times> u8) list \<times> int"

fun emit :: "u8 list \<Rightarrow> code \<Rightarrow> code" where
  "emit [] c = c"
| "emit (b # bs) (ws, p) = emit bs ((p, b) # ws, p + 1)"

definition emit_address :: "u16 \<Rightarrow> u8 list" where
  "emit_address v = [to8 (v AND 0xFF), to8 (drop_bit 8 v)]"

definition save_address :: "code \<Rightarrow> code" where
  "save_address = (\<lambda>(ws, p). (ws, p + 2))"

definition fill_address :: "int \<Rightarrow> code \<Rightarrow> code" where
  "fill_address v = (\<lambda>(ws, p). ((v + 1, word_of_int (p div 256)) # (v, word_of_int p) # ws, p))"

definition memory_after :: "(u16 \<Rightarrow> u8) \<Rightarrow> code \<Rightarrow> u16 \<Rightarrow> u8" where
  "memory_after m c a = (case map_of (fst c) (uint a) of Some b \<Rightarrow> b | None \<Rightarrow> m a)"

section \<open>The instructions\<close>

abbreviation (input) inst_jmp :: u8 where "inst_jmp \<equiv> 0x4C"
abbreviation (input) inst_lda :: u8 where "inst_lda \<equiv> 0xAD"
abbreviation (input) inst_beq :: u8 where "inst_beq \<equiv> 0xF0"
abbreviation (input) inst_clc :: u8 where "inst_clc \<equiv> 0x18"
abbreviation (input) inst_rts :: u8 where "inst_rts \<equiv> 0x60"
abbreviation (input) inst_sec :: u8 where "inst_sec \<equiv> 0x38"
abbreviation (input) inst_sta :: u8 where "inst_sta \<equiv> 0x8D"
abbreviation (input) inst_ldx :: u8 where "inst_ldx \<equiv> 0xAE"
abbreviation (input) inst_stx :: u8 where "inst_stx \<equiv> 0x8E"
abbreviation (input) inst_pha :: u8 where "inst_pha \<equiv> 0x48"
abbreviation (input) inst_pla :: u8 where "inst_pla \<equiv> 0x68"
abbreviation (input) inst_bit :: u8 where "inst_bit \<equiv> 0x2C"
abbreviation (input) inst_bmi :: u8 where "inst_bmi \<equiv> 0x30"
abbreviation (input) inst_lda_imm :: u8 where "inst_lda_imm \<equiv> 0xA9"
abbreviation (input) inst_php :: u8 where "inst_php \<equiv> 0x08"
abbreviation (input) inst_plp :: u8 where "inst_plp \<equiv> 0x28"
abbreviation (input) inst_eor_imm :: u8 where "inst_eor_imm \<equiv> 0x49"
abbreviation (input) inst_tya :: u8 where "inst_tya \<equiv> 0x98"
abbreviation (input) inst_tay :: u8 where "inst_tay \<equiv> 0xA8"

text \<open>The flags a call can return, as the mask of the others.\<close>

definition NVZC_NONE :: u8 where "NVZC_NONE = 0xC3"
definition NVZC_C :: u8 where "NVZC_C = 0xC2"
definition NVZC_N :: u8 where "NVZC_N = 0x43"

definition strict_tail :: "u16 \<Rightarrow> u8 \<Rightarrow> u8 list" where
  "strict_tail scratch m =
     [inst_sta] @ emit_address scratch @ [inst_php, inst_pla, inst_eor_imm, m, inst_pha, inst_lda] @
     emit_address scratch @ [inst_plp, inst_rts]"

section \<open>The routines\<close>

text \<open>\<open>ret\<close> is the code of a return for a mask, \<open>RTS\<close> or a jump to the tail that inverts flags.\<close>

definition ret_code :: "(u8 \<Rightarrow> u16) option \<Rightarrow> u8 \<Rightarrow> u8 list" where
  "ret_code tails m = (case tails of None \<Rightarrow> [inst_rts] | Some t \<Rightarrow> inst_jmp # emit_address (t m))"

definition on_port :: "u8 \<Rightarrow> u16 \<Rightarrow> u8 list" where
  "on_port inst port = inst # emit_address port"

text \<open>Read a port unless another says there is nothing, with carry set if so.\<close>

definition guarded_read :: "(u8 \<Rightarrow> u8 list) \<Rightarrow> u8 list \<Rightarrow> u8 \<Rightarrow> u16 \<Rightarrow> u8 list" where
  "guarded_read ret poll branch port =
     poll @ [branch, of_nat (3 + 1 + length (ret NVZC_C))] @ on_port inst_lda port @ [inst_clc] @ ret NVZC_C @
     [inst_sec] @ ret NVZC_C"

definition routines :: "bool \<Rightarrow> (u8 \<Rightarrow> u8 list) \<Rightarrow> u8 list list" where
  "routines terminal ret =
    [guarded_read ret (on_port inst_bit port_eof_b) inst_bmi port_read_b,
     on_port inst_sta port_write_b @ ret NVZC_NONE,
     on_port inst_sta port_write_d @ ret NVZC_NONE,
     on_port inst_sta port_exit,
     on_port inst_lda port_open @ ret NVZC_NONE,
     on_port inst_sta port_close @ ret NVZC_NONE,
     guarded_read ret (on_port inst_bit port_eof) inst_bmi port_read,
     on_port inst_lda port_argc @ ret NVZC_NONE,
     on_port inst_ldx port_argv_h @ on_port inst_lda port_argv_l @ ret NVZC_NONE,
     on_port inst_lda port_openout @ ret NVZC_NONE,
     on_port inst_sta port_write @ ret NVZC_NONE,
     on_port inst_lda port_con_read @ ret NVZC_NONE,
     on_port inst_sta port_con_flush @ ret NVZC_NONE,
     on_port inst_lda port_con_ready @ ret NVZC_NONE,
     on_port inst_lda port_term_rows @ ret NVZC_NONE,
     on_port inst_lda port_term_cols @ ret NVZC_NONE,
     guarded_read ret (on_port inst_lda port_serial_ready) inst_beq port_serial_data,
     (if terminal
      then [inst_pha] @ on_port inst_lda port_serial_write_ready @
        [inst_beq, of_nat (1 + 3 + 1 + length (ret NVZC_C)), inst_pla] @ on_port inst_sta port_serial_write @
        [inst_clc] @ ret NVZC_C @ [inst_pla, inst_sec] @ ret NVZC_C
      else [inst_sec] @ ret NVZC_C),
     on_port inst_lda port_opendir @ ret NVZC_NONE,
     on_port inst_sta port_wait_lo @ on_port inst_stx port_wait_hi @ on_port inst_lda port_wait_ready @ ret NVZC_N]"

definition scr_routine :: "bool \<Rightarrow> (u8 \<Rightarrow> u8 list) \<Rightarrow> u8 \<Rightarrow> u8 list" where
  "scr_routine strict ret op =
     on_port inst_sta port_scr_a @ [inst_lda_imm, op] @ on_port inst_sta port_scr_op @
     (if strict then [inst_tya, inst_eor_imm, 0xFF, inst_tay, inst_lda_imm, NOT op] else []) @ ret NVZC_NONE"

definition SCR_OP_COUNT :: int where "SCR_OP_COUNT = 15"

definition emit_tails :: "code \<Rightarrow> (u8 \<Rightarrow> u16) \<times> code" where
  "emit_tails s =
     (let scratch = word_of_int (snd s);
          s = (fst s, snd s + 1); tail_none = snd s;
          s = emit (strict_tail scratch NVZC_NONE) s; tail_c = snd s;
          s = emit (strict_tail scratch NVZC_C) s; tail_n = snd s;
          s = emit (strict_tail scratch NVZC_N) s
      in (\<lambda>m. word_of_int (if m = NVZC_C then tail_c else if m = NVZC_N then tail_n else tail_none), s))"

text \<open>
  The vectors, each a jump to a routine written later; the routines, each filling in its vector,
  whose jump is written with it in the table of the screen calls.
\<close>

fun emit_vectors :: "nat \<Rightarrow> code \<Rightarrow> code" where
  "emit_vectors 0 s = s"
| "emit_vectors (Suc n) s = emit_vectors n (save_address (emit [inst_jmp] s))"

definition put_code :: "int \<Rightarrow> u8 \<Rightarrow> code \<Rightarrow> code" where
  "put_code a b = (\<lambda>(ws, p). ((a, b) # ws, p))"

fun emit_routines :: "bool \<Rightarrow> int \<Rightarrow> u8 list list \<Rightarrow> code \<Rightarrow> code" where
  "emit_routines jumps vec [] s = s"
| "emit_routines jumps vec (bs # rs) s =
     emit_routines jumps (vec + 3) rs (emit bs (fill_address (vec + 1) (if jumps then put_code vec inst_jmp s else s)))"

definition screen_ops :: "u8 list" where
  "screen_ops = [SCR_GOTO, SCR_CLEAR, SCR_CLEAR_EOL, SCR_CURSOR_ON, SCR_CURSOR_OFF, SCR_REVERSE, SCR_NORMAL, SCR_REGION,
     SCR_REGION_RESET, SCR_INSERT, SCR_DELETE, SCR_SCROLL_UP, SCR_SCROLL_DOWN, SCR_INSERT_LINES, SCR_DELETE_LINES]"

definition generate_stubs :: "bool \<Rightarrow> bool \<Rightarrow> bool \<Rightarrow> code" where
  "generate_stubs terminal direct strict =
     (let s = emit_vectors 20 ([], 0xF006);
          addr_scr = snd s;
          s = (if direct then (fst s, snd s + 3 * SCR_OP_COUNT) else s);
          (tails, s) = (if strict then map_prod Some id (emit_tails s) else (None, s));
          ret = ret_code tails;
          s = emit_routines False 0xF006 (routines terminal ret) s
      in if direct then emit_routines True addr_scr (map (scr_routine strict ret) screen_ops) s else s)"

end
