(* ===== verification/Stub_Layout.thy ===== *)
theory Stub_Layout imports Stubs
begin

text \<open>
  Where the stubs end up: every vector jumps to its routine, the routines and the tails of the
  strict interface are in memory whole, and nothing overlaps.
\<close>

section \<open>What is written\<close>

definition stub_byte :: "code \<Rightarrow> int \<Rightarrow> u8 option" where
  "stub_byte c a = map_of (fst c) a"

text \<open>Code of the stubs in memory, below the arguments.\<close>

definition code_in :: "code \<Rightarrow> int \<Rightarrow> u8 list \<Rightarrow> bool" where
  "code_in c a bs \<longleftrightarrow> 0xF006 \<le> a \<and> a + int (length bs) \<le> 0xFE00 \<and> (\<forall>i<length bs. stub_byte c (a + int i) = Some (bs ! i))"

lemma stub_byte_emit:
  "stub_byte (emit bs c) a =
     (if snd c \<le> a \<and> a < snd c + int (length bs) then Some (bs ! nat (a - snd c)) else stub_byte c a)"
proof (induction bs arbitrary: c)
  case (Cons b bs)
  obtain ws p where c: "c = (ws, p)" by (cases c)
  have "nat (a - p) = Suc (nat (a - (p + 1)))" if "p + 1 \<le> a" using that by simp
  then show ?case unfolding c emit.simps Cons.IH by (auto simp: stub_byte_def)
qed auto

lemma snd_emit [simp]: "snd (emit bs c) = snd c + int (length bs)"
  by (induction bs c rule: emit.induct) simp_all

lemma stub_byte_fill:
  "stub_byte (fill_address v c) a =
     (if a = v + 1 then Some (word_of_int (snd c div 256)) else if a = v then Some (word_of_int (snd c)) else stub_byte c a)"
  by (cases c) (simp add: fill_address_def stub_byte_def)

lemma snd_fill [simp]: "snd (fill_address v c) = snd c"
  by (cases c) (simp add: fill_address_def)

lemma snd_save [simp]: "snd (save_address c) = snd c + 2"
  by (cases c) (simp add: save_address_def)

lemma stub_byte_save [simp]: "stub_byte (save_address c) a = stub_byte c a"
  by (cases c) (simp add: save_address_def stub_byte_def)

lemma stub_byte_vectors:
  "snd (emit_vectors n c) = snd c + 3 * int n \<and>
   stub_byte (emit_vectors n c) a = (if \<exists>i<n. a = snd c + 3 * int i then Some 0x4C else stub_byte c a)"
proof (induction n arbitrary: c)
  case (Suc n)
  have e: "(\<exists>i<Suc n. a = snd c + 3 * int i) \<longleftrightarrow> a = snd c \<or> (\<exists>i<n. a = snd c + 3 + 3 * int i)"
  proof (safe)
    fix i assume "i < Suc n" "\<not> (\<exists>i'<n. snd c + 3 * int i = snd c + 3 + 3 * int i')"
    then show "snd c + 3 * int i = snd c" by (cases i) auto
  next
    fix i assume "i < n"
    then show "\<exists>i'<Suc n. snd c + 3 + 3 * int i = snd c + 3 * int i'" by (intro exI[of _ "Suc i"]) simp
  next
    show "\<exists>i<Suc n. snd c = snd c + 3 * int i" by (intro exI[of _ 0]) simp
  qed
  show ?case unfolding e using Suc.IH[of "save_address (emit [0x4C] c)"] by (auto simp: stub_byte_emit)
qed simp

text \<open>The address of a routine, and what its vector holds.\<close>

definition routine_at :: "int \<Rightarrow> u8 list list \<Rightarrow> nat \<Rightarrow> int" where
  "routine_at p rs i = p + int (length (concat (take i rs)))"

lemma routine_at_simps [simp]:
  "routine_at p rs 0 = p" "routine_at p (r # rs) (Suc i) = routine_at (p + int (length r)) rs i"
  by (simp_all add: routine_at_def)

definition slot_of :: "int \<Rightarrow> nat \<Rightarrow> int \<Rightarrow> bool" where
  "slot_of vec n a \<longleftrightarrow> vec \<le> a \<and> a < vec + 3 * int n"

lemma stub_byte_put: "stub_byte (put_code v b c) a = (if a = v then Some b else stub_byte c a)"
  by (cases c) (simp add: put_code_def stub_byte_def)

lemma snd_put [simp]: "snd (put_code v b c) = snd c"
  by (cases c) (simp add: put_code_def)

lemma emit_routines_keeps:
  assumes "vec + 3 * int (length rs) \<le> snd c"
  shows "snd (emit_routines jumps vec rs c) = snd c + int (length (concat rs)) \<and>
    (a < snd c \<and> \<not> slot_of vec (length rs) a \<longrightarrow> stub_byte (emit_routines jumps vec rs c) a = stub_byte c a) \<and>
    (slot_of vec (length rs) a \<and> (a - vec) mod 3 = 0 \<longrightarrow>
       stub_byte (emit_routines jumps vec rs c) a = (if jumps then Some 0x4C else stub_byte c a))"
  using assms
proof (induction rs arbitrary: vec c)
  case (Cons r rs)
  define d where "d = emit r (fill_address (vec + 1) (if jumps then put_code vec 0x4C c else c))"
  have s: "snd d = snd c + int (length r)" by (simp add: d_def)
  have k: "vec + 3 + 3 * int (length rs) \<le> snd d" using Cons.prems s by simp
  have st: "stub_byte d a = (if jumps \<and> a = vec then Some 0x4C else stub_byte c a)" if "a < snd c" "a \<noteq> vec + 1" "a \<noteq> vec + 2"
    using that by (simp add: d_def stub_byte_emit stub_byte_fill stub_byte_put)
  have m: "(a - (vec + 3)) mod 3 = (a - vec) mod 3"
  proof -
    have "a - (vec + 3) = (a - vec) + (-1) * 3" by simp
    then show ?thesis by (metis mod_mult_self1)
  qed
  have n: "a \<noteq> vec + 1" "a \<noteq> vec + 2" if "(a - vec) mod 3 = 0" using that by auto
  note IH = Cons.IH[OF k]
  have p: "vec + 3 \<le> snd c" using Cons.prems by simp
  show ?case unfolding emit_routines.simps d_def[symmetric]
  proof (intro conjI impI)
    show "snd (emit_routines jumps (vec + 3) rs d) = snd c + int (length (concat (r # rs)))" using IH s by simp
  next
    assume a: "a < snd c \<and> \<not> slot_of vec (length (r # rs)) a"
    then have "a < snd d" "\<not> slot_of (vec + 3) (length rs) a" "a \<noteq> vec" "a \<noteq> vec + 1" "a \<noteq> vec + 2"
      using s by (auto simp: slot_of_def)
    then show "stub_byte (emit_routines jumps (vec + 3) rs d) a = stub_byte c a" using IH st a by simp
  next
    assume a: "slot_of vec (length (r # rs)) a \<and> (a - vec) mod 3 = 0"
    then have ac: "a < snd c" using Cons.prems by (auto simp: slot_of_def)
    show "stub_byte (emit_routines jumps (vec + 3) rs d) a = (if jumps then Some 0x4C else stub_byte c a)"
    proof (cases "a = vec")
      case True
      then have "a < snd d" "\<not> slot_of (vec + 3) (length rs) a" using s p by (auto simp: slot_of_def)
      then show ?thesis using IH st[OF ac] True by simp
    next
      case False
      then have "slot_of (vec + 3) (length rs) a" using a n by (auto simp: slot_of_def)
      then show ?thesis using IH st[OF ac] a m n False by simp
    qed
  qed
qed (auto simp: slot_of_def)

lemma emit_routines_placed:
  assumes "vec + 3 * int (length rs) \<le> snd c" "i < length rs"
  shows "(\<forall>j<length (rs ! i). stub_byte (emit_routines jumps vec rs c) (routine_at (snd c) rs i + int j) = Some (rs ! i ! j)) \<and>
    stub_byte (emit_routines jumps vec rs c) (vec + 3 * int i + 1) = Some (word_of_int (routine_at (snd c) rs i)) \<and>
    stub_byte (emit_routines jumps vec rs c) (vec + 3 * int i + 2) = Some (word_of_int (routine_at (snd c) rs i div 256))"
  using assms
proof (induction rs arbitrary: vec c i)
  case (Cons r rs)
  define d where "d = emit r (fill_address (vec + 1) (if jumps then put_code vec 0x4C c else c))"
  have s: "snd d = snd c + int (length r)" by (simp add: d_def)
  have k: "vec + 3 + 3 * int (length rs) \<le> snd d" using Cons.prems s by simp
  note keep = emit_routines_keeps[OF k, of jumps]
  show ?case
  proof (cases i)
    case 0
    have "stub_byte (emit_routines jumps (vec + 3) rs d) (snd c + int j) = Some (r ! j)" if "j < length r" for j
      using keep[of "snd c + int j"] that s Cons.prems by (auto simp: slot_of_def d_def stub_byte_emit)
    moreover have "stub_byte (emit_routines jumps (vec + 3) rs d) (vec + 1) = Some (word_of_int (snd c))"
      "stub_byte (emit_routines jumps (vec + 3) rs d) (vec + 2) = Some (word_of_int (snd c div 256))"
      using keep[of "vec + 1"] keep[of "vec + 2"] s Cons.prems by (auto simp: slot_of_def d_def stub_byte_emit stub_byte_fill)
    ultimately show ?thesis using 0 by (simp add: d_def)
  next
    case (Suc n)
    then show ?thesis using Cons.IH[OF k, of n] Cons.prems s by (simp add: d_def algebra_simps)
  qed
qed simp

section \<open>The tables\<close>

lemma routine_at_bound:
  "i < length rs \<Longrightarrow> p \<le> routine_at p rs i \<and> routine_at p rs i + int (length (rs ! i)) \<le> p + int (length (concat rs))"
proof (induction rs arbitrary: p i)
  case (Cons r rs)
  then show ?case by (cases i) (fastforce simp: routine_at_def)+
qed simp

definition low :: "int \<Rightarrow> u8" where "low q = word_of_int q"
definition high :: "int \<Rightarrow> u8" where "high q = word_of_int (q div 256)"

text \<open>The tails of the strict interface, and the byte they keep A in.\<close>

definition stub_scratch :: "bool \<Rightarrow> int" where
  "stub_scratch direct = (if direct then 0xF042 + 3 * SCR_OP_COUNT else 0xF042)"

definition stub_tails :: "bool \<Rightarrow> bool \<Rightarrow> (u8 \<Rightarrow> u16) option" where
  "stub_tails direct strict = (if strict then Some (fst (emit_tails ([], stub_scratch direct))) else None)"

definition stub_routines :: "bool \<Rightarrow> bool \<Rightarrow> bool \<Rightarrow> u8 list list" where
  "stub_routines terminal direct strict = routines terminal (ret_code (stub_tails direct strict))"

definition screen_routines :: "bool \<Rightarrow> bool \<Rightarrow> u8 list list" where
  "screen_routines direct strict = map (scr_routine strict (ret_code (stub_tails direct strict))) screen_ops"

lemma length_routines [simp]: "length (routines t ret) = 20" "length (stub_routines t d s) = 20" "length (screen_routines d s) = 15"
  by (simp_all add: routines_def stub_routines_def screen_routines_def screen_ops_def)

lemma length_ret: "length (ret_code tails m) = (if tails = None then 1 else 3)"
  by (simp add: ret_code_def emit_address_def split: option.split)

lemma length_on_port [simp]: "length (on_port b p) = 3"
  by (simp add: on_port_def emit_address_def)

lemma length_code:
  "length (concat (stub_routines t d s)) \<le> 300" "length (concat (screen_routines d s)) \<le> 300"
  by (simp_all add: stub_routines_def screen_routines_def screen_ops_def routines_def guarded_read_def scr_routine_def length_ret)

lemma length_strict_tail [simp]: "length (strict_tail a m) = 13"
  by (simp add: strict_tail_def emit_address_def)

lemma emit_tails_eq:
  "emit_tails c = (fst (emit_tails ([], snd c)),
     emit (strict_tail (word_of_int (snd c)) NVZC_N) (emit (strict_tail (word_of_int (snd c)) NVZC_C)
       (emit (strict_tail (word_of_int (snd c)) NVZC_NONE) (fst c, snd c + 1))))"
  by (simp add: emit_tails_def Let_def cong: if_cong)

lemma snd_emit_tails: "snd (snd (emit_tails c)) = snd c + 40"
  by (simp add: emit_tails_def Let_def)

text \<open>The generator's stages: vectors, tails, routines, screen calls.\<close>

definition stubs_vectors :: "bool \<Rightarrow> code" where
  "stubs_vectors direct = (fst (emit_vectors 20 ([], 0xF006)), stub_scratch direct)"

definition stubs_tails :: "bool \<Rightarrow> bool \<Rightarrow> code" where
  "stubs_tails direct strict = (if strict then snd (emit_tails (stubs_vectors direct)) else stubs_vectors direct)"

lemma generate_stubs_eq:
  "generate_stubs t d s =
     (let c = emit_routines False 0xF006 (stub_routines t d s) (stubs_tails d s)
      in if d then emit_routines True 0xF042 (screen_routines d s) c else c)"
proof -
  have v: "snd (emit_vectors 20 ([], 0xF006)) = 0xF042" using stub_byte_vectors[of 20 "([], 0xF006)"] by simp
  have e: "(if d then (fst (emit_vectors 20 ([], 0xF006)), snd (emit_vectors 20 ([], 0xF006)) + 3 * SCR_OP_COUNT)
      else emit_vectors 20 ([], 0xF006)) = stubs_vectors d"
    using v by (cases "emit_vectors 20 ([], 0xF006)") (simp add: stubs_vectors_def stub_scratch_def)
  have "snd (stubs_vectors d) = stub_scratch d" by (simp add: stubs_vectors_def)
  then have f: "fst (emit_tails (stubs_vectors d)) = fst (emit_tails ([], stub_scratch d))"
    using emit_tails_eq[of "stubs_vectors d"] by (metis fst_conv)
  show ?thesis
    unfolding generate_stubs_def Let_def e
    using f by (cases s; cases d) (simp_all add: v stubs_tails_def stub_routines_def screen_routines_def stub_tails_def split_beta)
qed

lemma stubs_tails_snd: "snd (stubs_tails d s) = stub_scratch d + (if s then 40 else 0)"
  by (simp add: stubs_tails_def snd_emit_tails) (simp add: stubs_vectors_def)

lemma scratch_bounds: "0xF042 \<le> stub_scratch d" "d \<Longrightarrow> stub_scratch d = 0xF042 + 45" "stub_scratch d \<le> 0xF06F"
  by (simp_all add: stub_scratch_def SCR_OP_COUNT_def)

lemma code_in_3:
  "code_in c a [x, y, z] \<longleftrightarrow> 0xF006 \<le> a \<and> a + 3 \<le> 0xFE00 \<and> stub_byte c a = Some x \<and>
     stub_byte c (a + 1) = Some y \<and> stub_byte c (a + 2) = Some z"
  by (simp add: code_in_def All_less_Suc numeral_3_eq_3 numeral_2_eq_2 conj_ac)

text \<open>What the screen calls leave of the rest.\<close>

lemma generate_stubs_byte:
  assumes "a < snd (stubs_tails d s) + int (length (concat (stub_routines t d s)))" "\<not> (d \<and> slot_of 0xF042 15 a)"
  shows "stub_byte (generate_stubs t d s) a = stub_byte (emit_routines False 0xF006 (stub_routines t d s) (stubs_tails d s)) a"
proof -
  have p: "0xF006 + 3 * int (length (stub_routines t d s)) \<le> snd (stubs_tails d s)"
    using scratch_bounds(1)[of d] by (simp add: stubs_tails_snd)
  note k = emit_routines_keeps[OF p, of False]
  have q: "0xF042 + 3 * int (length (screen_routines d s)) \<le> snd (emit_routines False 0xF006 (stub_routines t d s) (stubs_tails d s))" if d
    using k scratch_bounds(2)[OF that] by (simp add: stubs_tails_snd)
  show ?thesis
    using emit_routines_keeps[OF q, of True a] assms k by (auto simp: generate_stubs_eq Let_def)
qed

lemma stubs_tails_below: "a < 0xF042 \<Longrightarrow> stub_byte (stubs_tails d s) a = stub_byte (stubs_vectors d) a"
proof -
  assume a: "a < 0xF042"
  have c: "stub_byte (ws, p) a = stub_byte (ws, q) a" for ws and p q :: int by (simp add: stub_byte_def)
  have "stub_byte (snd (emit_tails v)) a = stub_byte v a" if "0xF042 \<le> snd v" for v
    using that a c[of "fst v" "snd v + 1" "snd v"] by (simp add: emit_tails_eq[of v] stub_byte_emit)
  then show ?thesis using scratch_bounds(1)[of d] by (simp add: stubs_tails_def stubs_vectors_def)
qed

lemma stub_layout:
  fixes t d s :: bool and i :: nat
  assumes "i < 20"
  defines "q \<equiv> routine_at (snd (stubs_tails d s)) (stub_routines t d s) i"
  shows "code_in (generate_stubs t d s) (0xF006 + 3 * int i) [0x4C, low q, high q] \<and>
    code_in (generate_stubs t d s) q (stub_routines t d s ! i) \<and> (s \<longrightarrow> stub_scratch d < q)"
proof -
  let ?R = "stub_routines t d s" let ?c = "stubs_tails d s"
  have p: "0xF006 + 3 * int (length ?R) \<le> snd ?c" using scratch_bounds(1)[of d] by (simp add: stubs_tails_snd)
  have b: "snd ?c \<le> q" "q + int (length (?R ! i)) \<le> snd ?c + int (length (concat ?R))"
    using routine_at_bound[of i ?R "snd ?c"] assms(1) by (simp_all add: q_def)
  have ns: "\<not> (d \<and> slot_of 0xF042 15 a)" if "snd ?c \<le> a \<or> a < 0xF042" for a
  proof (cases d)
    case True
    have "0xF042 + 45 \<le> snd ?c" using scratch_bounds(2)[OF True] stubs_tails_snd[of d s] by simp
    then show ?thesis using that by (auto simp: slot_of_def)
  qed simp
  note pl = emit_routines_placed[OF p, of i False, folded q_def]
  have vec: "stub_byte (generate_stubs t d s) a = stub_byte (emit_routines False 0xF006 ?R ?c) a" if "a < 0xF042" for a
  proof -
    have "a < snd ?c + int (length (concat ?R))" using that p by simp
    then show ?thesis using generate_stubs_byte[of a d s t] ns[of a] that by blast
  qed
  have v0: "stub_byte (generate_stubs t d s) (0xF006 + 3 * int i) = Some 0x4C"
  proof -
    have "stub_byte (emit_routines False 0xF006 ?R ?c) (0xF006 + 3 * int i) = stub_byte ?c (0xF006 + 3 * int i)"
      using emit_routines_keeps[OF p, of False "0xF006 + 3 * int i"] assms(1) by (simp add: slot_of_def)
    also have "\<dots> = stub_byte (stubs_vectors d) (0xF006 + 3 * int i)"
      using stubs_tails_below[of "0xF006 + 3 * int i" d s] assms(1) by simp
    also have "\<dots> = Some 0x4C" using stub_byte_vectors[of 20 "([], 0xF006)" "0xF006 + 3 * int i"] assms(1)
      by (auto simp: stubs_vectors_def stub_byte_def)
    finally show ?thesis using vec assms(1) by simp
  qed
  have len: "snd ?c + int (length (concat ?R)) \<le> 0xFE00"
  proof -
    have "snd ?c \<le> 0xF06F + 40" using scratch_bounds(3)[of d] stubs_tails_snd[of d s] by (cases s) auto
    then show ?thesis using length_code(1)[of t d s] by linarith
  qed
  have c1: "code_in (generate_stubs t d s) (0xF006 + 3 * int i) [0x4C, low q, high q]"
    unfolding code_in_3 low_def high_def using v0 vec[of "0xF006 + 3 * int i + 1"] vec[of "0xF006 + 3 * int i + 2"] pl assms(1)
    by simp
  have c2: "code_in (generate_stubs t d s) q (?R ! i)"
    unfolding code_in_def
  proof (intro conjI allI impI)
    fix j assume "j < length (?R ! i)"
    then have "q + int j < snd ?c + int (length (concat ?R))" "\<not> (d \<and> slot_of 0xF042 15 (q + int j))"
      "stub_byte (emit_routines False 0xF006 ?R ?c) (q + int j) = Some (?R ! i ! j)"
      using b ns[of "q + int j"] pl assms(1) by auto
    then show "stub_byte (generate_stubs t d s) (q + int j) = Some (?R ! i ! j)"
      using generate_stubs_byte[of "q + int j" d s t] by metis
  qed (use b p len in simp_all)
  show ?thesis using c1 c2 b by (auto simp: stubs_tails_snd)
qed

text \<open>The screen calls of the direct interface, and the tails of the strict one.\<close>

lemma screen_layout:
  fixes t s :: bool and i :: nat
  assumes "i < 15"
  defines "q \<equiv> routine_at (snd (stubs_tails True s) + int (length (concat (stub_routines t True s)))) (screen_routines True s) i"
  shows "code_in (generate_stubs t True s) (0xF042 + 3 * int i) [0x4C, low q, high q] \<and>
    code_in (generate_stubs t True s) q (screen_routines True s ! i) \<and> (s \<longrightarrow> stub_scratch True < q)"
proof -
  let ?R = "stub_routines t True s" let ?S = "screen_routines True s" let ?c = "stubs_tails True s"
  define c where "c = emit_routines False 0xF006 ?R ?c"
  have "0xF006 + 3 * int (length ?R) \<le> snd ?c" using scratch_bounds(1)[of True] by (simp add: stubs_tails_snd)
  then have sc: "snd c = snd ?c + int (length (concat ?R))" using emit_routines_keeps[of "0xF006" ?R ?c False] by (simp add: c_def)
  have g: "generate_stubs t True s = emit_routines True 0xF042 ?S c" by (simp add: generate_stubs_eq c_def Let_def)
  have lo: "0xF06F \<le> snd ?c" "snd ?c \<le> 0xF06F + 40" using scratch_bounds(2)[of True] stubs_tails_snd[of True s] by (cases s; simp)+
  have p: "0xF042 + 3 * int (length ?S) \<le> snd c" using sc lo by simp
  have b: "snd c \<le> q" "q + int (length (?S ! i)) \<le> snd c + int (length (concat ?S))"
    using routine_at_bound[of i ?S "snd c"] assms(1) sc by (simp_all add: q_def)
  have q: "routine_at (snd c) ?S i = q" by (simp add: q_def sc)
  note pl = emit_routines_placed[OF p, of i True, unfolded q]
  have v0: "stub_byte (generate_stubs t True s) (0xF042 + 3 * int i) = Some 0x4C"
    using emit_routines_keeps[OF p, of True "0xF042 + 3 * int i"] assms(1) by (simp add: slot_of_def g)
  have len: "snd c + int (length (concat ?S)) \<le> 0xFE00"
    using length_code(1)[of t True s] length_code(2)[of True s] lo sc by linarith
  have "code_in (generate_stubs t True s) (0xF042 + 3 * int i) [0x4C, low q, high q]"
    unfolding code_in_3 low_def high_def using v0 pl assms(1) by (simp add: g q)
  moreover have "code_in (generate_stubs t True s) q (?S ! i)"
    unfolding code_in_def g using pl assms(1) b len lo sc by (intro conjI) simp_all
  moreover have "s \<longrightarrow> stub_scratch True < q" using b sc scratch_bounds(2)[of True] stubs_tails_snd[of True s] by auto
  ultimately show ?thesis by blast
qed

lemma tail_layout:
  assumes "stub_tails d s = Some tail"
  shows "code_in (generate_stubs t d s) (uint (tail m))
      (strict_tail (word_of_int (stub_scratch d)) (if m = NVZC_C then NVZC_C else if m = NVZC_N then NVZC_N else NVZC_NONE)) \<and>
    stub_scratch d < uint (tail m)"
proof -
  have s: "s" using assms by (simp add: stub_tails_def split: if_splits)
  define a where "a = (if m = NVZC_C then stub_scratch d + 14 else if m = NVZC_N then stub_scratch d + 27 else stub_scratch d + 1)"
  have "tail m = word_of_int a"
    using assms s by (auto simp: stub_tails_def a_def emit_tails_def Let_def)
  moreover have ab: "stub_scratch d < a" "a + 13 \<le> stub_scratch d + 40" "stub_scratch d \<le> 0xF06F" "0xF042 \<le> stub_scratch d"
    using scratch_bounds(1)[of d] scratch_bounds(3)[of d] unfolding a_def by (simp_all split: if_split)
  ultimately have ta: "uint (tail m) = a" by (simp add: unsigned_of_int take_bit_int_eq_self)
  let ?code = "strict_tail (word_of_int (stub_scratch d)) (if m = NVZC_C then NVZC_C else if m = NVZC_N then NVZC_N else NVZC_NONE)"
  have st: "snd (stubs_vectors d) = stub_scratch d" by (simp add: stubs_vectors_def)
  have d: "NVZC_C \<noteq> NVZC_N" "NVZC_C \<noteq> NVZC_NONE" "NVZC_N \<noteq> NVZC_NONE" by (simp_all add: NVZC_C_def NVZC_N_def NVZC_NONE_def)
  have c: "stub_byte (stubs_tails d s) (a + int j) = Some (?code ! j)" if "j < 13" for j
    using that s d by (simp add: stubs_tails_def emit_tails_eq[of "stubs_vectors d"] st stub_byte_emit a_def)
  have p: "0xF006 + 3 * int (length (stub_routines t d s)) \<le> snd (stubs_tails d s)"
    using scratch_bounds(1)[of d] by (simp add: stubs_tails_snd)
  have below: "a + int j < snd (stubs_tails d s)" if "j < 13" for j using that ab s by (simp add: stubs_tails_snd)
  have "stub_byte (generate_stubs t d s) (a + int j) = Some (?code ! j)" if j: "j < 13" for j
  proof -
    have "\<not> (d \<and> slot_of 0xF042 15 (a + int j))"
    proof (cases d)
      case True
      then show ?thesis using ab(1) scratch_bounds(2)[OF True] by (simp add: slot_of_def)
    qed simp
    moreover have "a + int j < snd (stubs_tails d s) + int (length (concat (stub_routines t d s)))" using below[OF j] by simp
    ultimately have "stub_byte (generate_stubs t d s) (a + int j) =
        stub_byte (emit_routines False 0xF006 (stub_routines t d s) (stubs_tails d s)) (a + int j)"
      using generate_stubs_byte[of "a + int j" d s t] by blast
    also have "\<dots> = stub_byte (stubs_tails d s) (a + int j)"
      using emit_routines_keeps[OF p, of False "a + int j"] below[OF j] ab by (simp add: slot_of_def)
    finally show ?thesis using c[OF j] by simp
  qed
  then show ?thesis using ab by (simp add: code_in_def ta)
qed

end
