(* ===== verification/Plain_Machine.thy ===== *)
theory Plain_Machine imports Stubs Cpu_Host
begin

text \<open>
  The plain machine as a whole (\<open>main\<close>, \<open>emu_run_default\<close> and the server's \<open>RUN\<close> in
  \<open>src/emulator/emulator.c\<close> and \<open>src/emulator/emu_run.c\<close>): the program, the stubs and the arguments in
  memory, the CPU on the ports, the run up to the end or the cap, and the exit code. Signals, the
  throttle, tracing and dumps are left out.
\<close>

section \<open>The CPU on the ports\<close>

text \<open>
  The ports see the CPU's registers and clock, and the clock may move during a wait. They are
  copied before an instruction and the clock's move is added after it; in an undocumented
  instruction that loads A and then reads its operand again the port sees the A before it.
\<close>

definition plain_hooks :: "'d plain_io \<Rightarrow> ('d, 'z) plain_scheme hooks" where
  "plain_hooks io = \<lparr>read6502 = plain_read io, write6502 = plain_write, cpu_external_read = None, cpu_external_write = None,
     cpu_bus_read_tap = None, cpu_bus_write_tap = None, loopexternal = id\<rparr>"

definition plain_synced :: "('d, 'z) plain_scheme cpu \<Rightarrow> ('d, 'z) plain_scheme" where
  "plain_synced s = (cpu_host s)\<lparr>clock := clockticks6502 s, reg_a := cpu_a s, reg_x := cpu_x s, reg_y := cpu_y s\<rparr>"

definition plain_step :: "('d, 'z) plain_scheme cpu \<Rightarrow> ('d, 'z) plain_scheme cpu" where
  "plain_step s =
     (let t = step6502 (s\<lparr>cpu_host := plain_synced s\<rparr>)
      in t\<lparr>clockticks6502 := clockticks6502 t + (clock (cpu_host t) - clockticks6502 s)\<rparr>)"

section \<open>Loading\<close>

datatype load_error = Too_large | Will_not_fit | Args_too_long | Out_of_bounds

text \<open>The bytes from an address on; \<open>Out_of_bounds\<close> is a write past the array, which C does not define.\<close>

fun plain_load_bytes :: "int \<Rightarrow> u8 list \<Rightarrow> (u16 \<Rightarrow> u8) \<Rightarrow> load_error + (int \<times> (u16 \<Rightarrow> u8))" where
  "plain_load_bytes i [] m = Inr (i, m)"
| "plain_load_bytes i (b # bs) m = (if i > 0xFFFF then Inl Will_not_fit else plain_load_bytes (i + 1) bs (m(word_of_int i := b)))"

definition plain_load_program :: "u8 list \<Rightarrow> int \<Rightarrow> load_error + (u16 \<Rightarrow> u8)" where
  "plain_load_program program load_address =
     (let size = int (length program) in
      if load_address < 0 \<and> size > 0x10000 then Inl Too_large
      else case plain_load_bytes (if load_address < 0 then 0x10000 - size else load_address) program (\<lambda>_. 0) of
        Inl e \<Rightarrow> Inl e
      | Inr (i, m) \<Rightarrow>
          if i < 0xFFFE then
            if i < 2 then Inl Out_of_bounds
            else Inr ((m(0xFFFD := m (word_of_int (i - 1))))(0xFFFC := m (word_of_int (i - 2))))
          else Inr m)"

definition ARGV_BASE :: int where "ARGV_BASE = 0xFE00"
definition ARGV_TOP :: int where "ARGV_TOP = 0xFFE0"

text \<open>
  An argument with its NUL; the array has one byte more than the address space, which the CPU
  does not reach.
\<close>

fun put_string :: "int \<Rightarrow> u8 list \<Rightarrow> (u16 \<Rightarrow> u8) \<Rightarrow> load_error + (int \<times> (u16 \<Rightarrow> u8))" where
  "put_string p [] m = Inr (p, m)"
| "put_string p (b # bs) m =
     (if p > 0x10000 then Inl Out_of_bounds
      else put_string (p + 1) bs (if p = 0x10000 then m else m(word_of_int p := b)))"

fun put_args :: "int \<Rightarrow> u8 list list \<Rightarrow> (u16 \<Rightarrow> u8) \<Rightarrow> load_error + (u16 list \<times> (u16 \<Rightarrow> u8))" where
  "put_args p [] m = Inr ([], m)"
| "put_args p (s # ss) m =
     (case put_string p (s @ [0]) m of
        Inl e \<Rightarrow> Inl e
      | Inr (q, m) \<Rightarrow>
          if q > ARGV_TOP then Inl Args_too_long
          else map_sum id (map_prod (Cons (word_of_int p)) id) (put_args q ss m))"

definition plain_memory ::
  "bool \<Rightarrow> bool \<Rightarrow> bool \<Rightarrow> u8 list \<Rightarrow> int \<Rightarrow> u8 list list \<Rightarrow> load_error + (u16 list \<times> (u16 \<Rightarrow> u8))"
where
  "plain_memory terminal direct strict program load_address args =
     (case plain_load_program program load_address of
        Inl e \<Rightarrow> Inl e
      | Inr m \<Rightarrow> put_args ARGV_BASE args (memory_after m (generate_stubs terminal direct strict)))"

text \<open>The machine with a program, ready to run; the rest of the state is as the options made it.\<close>

definition plain_start ::
  "'d plain_io \<Rightarrow> bool \<Rightarrow> u8 list \<Rightarrow> int \<Rightarrow> u8 list list \<Rightarrow> ('d, 'z) plain_scheme \<Rightarrow> load_error + ('d, 'z) plain_scheme cpu"
where
  "plain_start io strict program load_address args m =
     (case plain_memory (terminal_mode m) (direct_io m) strict program load_address args of
        Inl e \<Rightarrow> Inl e
      | Inr (addresses, mem) \<Rightarrow>
          Inr (reset6502 (power_on (plain_hooks io) (m\<lparr>memory := mem, arg_addresses := addresses\<rparr>))))"

section \<open>Running\<close>

datatype outcome = Ended | Timed_out

text \<open>At a terminal a program may run for ever.\<close>

partial_function (option) plain_run ::
  "u64 \<Rightarrow> ('d, 'z) plain_scheme cpu \<Rightarrow> (outcome \<times> ('d, 'z) plain_scheme cpu) option" where
  "plain_run cap s =
     (if emu_done (cpu_host s) then Some (Ended, s)
      else let s = plain_step s in
        if plain_halt (cpu_host s) \<noteq> None then Some (Ended, s)
        else if \<not> console_mode (cpu_host s) \<and> \<not> terminal_mode (cpu_host s) \<and> clockticks6502 s > cap then Some (Timed_out, s)
        else plain_run cap s)"

text \<open>
  The byte after the BRK, where the stack has its address; the other way to end is to say so. Files
  left open turn success into failure.
\<close>

definition brk_location :: "('d, 'z) plain_scheme cpu \<Rightarrow> u16" where
  "brk_location s =
     (let m = memory (cpu_host s); sp = to16 (cpu_sp s) in to16 (m (0x100 + sp + 2)) + push_bit 8 (to16 (m (0x100 + sp + 3))) - 1)"

definition exit_code :: "('d, 'z) plain_scheme cpu \<Rightarrow> u8" where
  "exit_code s =
     (let code = (case exitcode_set (cpu_host s) of Some c \<Rightarrow> c | None \<Rightarrow> memory (cpu_host s) (brk_location s))
      in if fst (files_destroy (handles (cpu_host s))) > 0 \<and> code = 0 then 1 else code)"

end
