(* ===== verification/Plain_Calls.thy ===== *)
theory Plain_Calls imports Plain_Machine Cpu_Control
begin

text \<open>
  What a call through the jump table does: the stubs run on the CPU, instruction by instruction,
  and each one is the access to its port that the call promises.
\<close>

section \<open>Code in memory\<close>

definition no_port :: "u16 \<Rightarrow> bool" where "no_port a \<longleftrightarrow> a < 0xF000 \<or> 0xF006 \<le> a \<and> a < 0xFE00"

lemma no_port_differs:
  assumes "no_port a"
  shows "a \<noteq> 0xF004" "a \<noteq> 0xF005" "a \<noteq> 0xFFE3" "a \<noteq> 0xFFE5" "a \<noteq> 0xFFF9" "a \<noteq> 0xFFFA" "a \<noteq> 0xFFFB" "a \<noteq> 0xFFE0" "a \<noteq> 0xFFE1" "a \<noteq> 0xFFE2" "a \<noteq> 0xFFF0" "a \<noteq> 0xFFF2" "a \<noteq> 0xFFF3" "a \<noteq> 0xFFF4" "a \<noteq> 0xFFE8" "a \<noteq> 0xFFF5" "a \<noteq> 0xFFF6" "a \<noteq> 0xFFF8" "a \<noteq> 0xFFFE" "a \<noteq> 0xF001" "a \<noteq> 0xFFE9" "a \<noteq> 0xFFEA" "a \<noteq> 0xF002" "a \<noteq> 0xF000" "a \<noteq> 0xF003" "a \<noteq> 0xFFE4" "a \<noteq> 0xFFE6" "a \<noteq> 0xFFE7" "a \<noteq> 0xFFF1" "a \<noteq> 0xFFF7"
  using assms by (auto simp: no_port_def)

lemma plain_memory_read:
  assumes "no_port a" "plain_halt m = None"
  shows "plain_read io a m = (memory m a, m)"
  using no_port_differs[OF assms(1)] assms(2) by (simp add: plain_read_def plain_port_read_def)

lemma plain_memory_write:
  assumes "no_port a" "plain_halt m = None"
  shows "plain_write a v m = m\<lparr>memory := (memory m)(a := v)\<rparr>"
  using no_port_differs[OF assms(1)] assms(2) by (simp add: plain_write_def plain_port_write_def)

fun bytes_at :: "(u16 \<Rightarrow> u8) \<Rightarrow> u16 \<Rightarrow> u8 list \<Rightarrow> bool" where
  "bytes_at m a [] \<longleftrightarrow> True"
| "bytes_at m a (b # bs) \<longleftrightarrow> 0xF006 \<le> a \<and> a < 0xFE00 \<and> m a = b \<and> bytes_at m (a + 1) bs"

definition runs_code :: "'d plain_io \<Rightarrow> ('d, 'z) plain_scheme cpu \<Rightarrow> bool" where
  "runs_code io s \<longleftrightarrow> cpu_hooks s = plain_hooks io \<and> \<not> wai_pending s \<and> \<not> stp_pending s \<and> \<not> callexternal s \<and>
     plain_halt (cpu_host s) = None"

abbreviation (input) code_here :: "('d, 'z) plain_scheme cpu \<Rightarrow> u8 list \<Rightarrow> bool" where
  "code_here s bs \<equiv> bytes_at (memory (cpu_host s)) (cpu_pc s) bs"

lemma plain_synced_fields [simp]:
  "plain_halt (plain_synced s) = plain_halt (cpu_host s)" "memory (plain_synced s) = memory (cpu_host s)"
  by (simp_all add: plain_synced_def)

text \<open>An instruction of a program whose next byte is in memory: the state its mode and its handler start from.\<close>

definition started :: "('d, 'z) plain_scheme cpu \<Rightarrow> u8 \<Rightarrow> ('d, 'z) plain_scheme cpu" where
  "started s b = s\<lparr>cpu_host := plain_synced s, cpu_tables := cpu_variant_sel s, cpu_pc := cpu_pc s + 1, cpu_opcode := b,
     cpu_status := cpu_status s OR FLAG_CONSTANT, penaltyop := False, penaltyaddr := False\<rparr>"

lemma started_fields [simp]:
  "cpu_pc (started s b) = cpu_pc s + 1" "cpu_host (started s b) = plain_synced s" "cpu_hooks (started s b) = cpu_hooks s"
  "cpu_a (started s b) = cpu_a s" "cpu_x (started s b) = cpu_x s" "cpu_y (started s b) = cpu_y s" "cpu_sp (started s b) = cpu_sp s"
  "cpu_status (started s b) = cpu_status s OR FLAG_CONSTANT" "cpu_tables (started s b) = cpu_variant_sel s" "cpu_opcode (started s b) = b"
  by (simp_all add: started_def)

lemma host_read_plain: "cpu_hooks s = plain_hooks io \<Longrightarrow> host_read (cpu_hooks s) a m = plain_read io a m"
  by (simp add: host_read_def plain_hooks_def split: prod.split)

lemma host_write_plain: "cpu_hooks s = plain_hooks io \<Longrightarrow> host_write (cpu_hooks s) a v m = plain_write a v m"
  by (simp add: host_write_def plain_hooks_def)

definition after_step :: "('d, 'z) plain_scheme cpu \<Rightarrow> ('d, 'z) plain_scheme cpu \<Rightarrow> bool" where
  "after_step t r \<longleftrightarrow> cpu_pc t = cpu_pc r \<and> cpu_sp t = cpu_sp r \<and> cpu_a t = cpu_a r \<and> cpu_x t = cpu_x r \<and> cpu_y t = cpu_y r \<and>
     cpu_status t = cpu_status r \<and> cpu_host t = cpu_host r \<and> cpu_hooks t = cpu_hooks r \<and> wai_pending t = wai_pending r \<and>
     stp_pending t = stp_pending r \<and> callexternal t = callexternal r"

lemma step_started:
  assumes "runs_code io s" "code_here s (b # bs)"
    and "\<And>v. addrtable v b = mode" "\<And>v. optable v b = handler"
  shows "after_step (plain_step s) (handler (run_mode mode (started s b)))"
proof -
  define d where "d = s\<lparr>cpu_host := plain_synced s, cpu_tables := cpu_variant_sel s\<rparr>"
  have r: "host_read (plain_hooks io) (cpu_pc s) (plain_synced s) = (b, plain_synced s)"
    using assms(1,2) host_read_plain[of s io] plain_memory_read[of "cpu_pc s" "plain_synced s" io]
    by (simp add: runs_code_def no_port_def)
  have st: "decoded d = started s b" using r assms(1)
    by (simp add: decoded_def d_def cpu_frame started_def runs_code_def)
  have h: "handled d = handler (run_mode mode (started s b))"
    by (simp add: handled_def Let_def st assms(3,4))
  have e: "step6502 (s\<lparr>cpu_host := plain_synced s\<rparr>) =
     call_external ((fetch_execute d)\<lparr>clockgoal6502 := clockticks6502 (fetch_execute d), instructions := instructions (fetch_execute d) + 1\<rparr>)"
    using assms(1) by (simp add: step6502_def select_tables_eq d_def Let_def runs_code_def)
  have "callexternal (handled d) = callexternal s" by (simp add: d_def)
  then show ?thesis using assms(1)
    by (simp add: after_step_def plain_step_def e Let_def call_external_def fetch_execute_eq h runs_code_def)
qed

section \<open>Running to a state\<close>

text \<open>
  The registers as a record, and a host up to the copies of the registers and the clock, which
  each instruction makes anew. \<open>reaches\<close> says that from them the CPU comes to a state with \<open>Q\<close>.
\<close>

record regs =
  r_pc :: u16
  r_sp :: u8
  r_a :: u8
  r_x :: u8
  r_y :: u8
  r_p :: u8

definition tuned :: "u64 \<Rightarrow> u8 \<Rightarrow> u8 \<Rightarrow> u8 \<Rightarrow> ('d, 'z) plain_scheme \<Rightarrow> ('d, 'z) plain_scheme" where
  "tuned c a x y h = h\<lparr>clock := c, reg_a := a, reg_x := x, reg_y := y\<rparr>"

lemma tuned_fields [simp]:
  "plain_halt (tuned c a x y h) = plain_halt h" "memory (tuned c a x y h) = memory h"
  "tuned c a x y (tuned c' a' x' y' h) = tuned c a x y h"
  by (simp_all add: tuned_def)

lemma tuned_self [simp]: "\<exists>c a x y. h = tuned c a x y h"
  by (intro exI[of _ "clock h"] exI[of _ "reg_a h"] exI[of _ "reg_x h"] exI[of _ "reg_y h"]) (simp add: tuned_def)

definition cpu_at :: "'d plain_io \<Rightarrow> regs \<Rightarrow> ('d, 'z) plain_scheme \<Rightarrow> ('d, 'z) plain_scheme cpu \<Rightarrow> bool" where
  "cpu_at io r h s \<longleftrightarrow> cpu_hooks s = plain_hooks io \<and> \<not> wai_pending s \<and> \<not> stp_pending s \<and> \<not> callexternal s \<and>
     cpu_pc s = r_pc r \<and> cpu_sp s = r_sp r \<and> cpu_a s = r_a r \<and> cpu_x s = r_x r \<and> cpu_y s = r_y r \<and> cpu_status s = r_p r \<and>
     (\<exists>c a x y. cpu_host s = tuned c a x y h)"

definition reaches ::
  "'d plain_io \<Rightarrow> regs \<Rightarrow> ('d, 'z) plain_scheme \<Rightarrow> (('d, 'z) plain_scheme cpu \<Rightarrow> bool) \<Rightarrow> bool" where
  "reaches io r h Q \<longleftrightarrow> (\<forall>s. cpu_at io r h s \<longrightarrow> (\<exists>n. Q ((plain_step ^^ n) s)))"

abbreviation (input) code_at :: "('d, 'z) plain_scheme \<Rightarrow> regs \<Rightarrow> u8 list \<Rightarrow> bool" where
  "code_at h r bs \<equiv> bytes_at (memory h) (r_pc r) bs"

definition nz :: "u8 \<Rightarrow> u8 \<Rightarrow> u8" where
  "nz v p = put_flag FLAG_SIGN (bit v 7) (put_flag FLAG_ZERO (v = 0) p)"

abbreviation (input) word_of :: "u8 \<Rightarrow> u8 \<Rightarrow> u16" where
  "word_of lo hi \<equiv> to16 lo OR push_bit 8 (to16 hi)"

lemma u8_word_ops [simp]:
  fixes v w :: u8
  shows "to16 v AND 0xFF = to16 v" "to16 v AND 0x80 = 0 \<longleftrightarrow> \<not> bit v 7" "to16 v = 0 \<longleftrightarrow> v = 0"
    "to16 v AND to16 w = to16 (v AND w)" "to8 (to16 v AND 0xC0) = v AND 0xC0" "to16 v XOR to16 w = to16 (v XOR w)"
proof -
  have m: "(0xFF :: u16) = mask 8" by (simp add: mask_eq_exp_minus_1)
  show "to16 v AND 0xFF = to16 v" unfolding m
    by (rule bit_word_eqI) (auto simp: bit_simps intro: ccontr)
  show "to16 v AND 0x80 = 0 \<longleftrightarrow> \<not> bit v 7" using and_bit_zero_iff[of 7 "to16 v"] by (simp add: bit_simps)
  show "to16 v = 0 \<longleftrightarrow> v = 0" by (metis to8_to16 unsigned_0)
  show "to16 v AND to16 w = to16 (v AND w)" "to16 v XOR to16 w = to16 (v XOR w)"
    by (rule bit_word_eqI, auto simp: bit_simps)+
  have "to8 (to16 v AND 0xC0) = to8 (to16 v) AND to8 0xC0" by (rule bit_word_eqI) (auto simp: bit_simps)
  then show "to8 (to16 v AND 0xC0) = v AND 0xC0" by simp
qed

lemma nz8_eq: "nz8 v s = s\<lparr>cpu_status := nz v (cpu_status s)\<rparr>"
  by (simp add: nz8_def nz_def signcalc_eq zerocalc_eq)

lemma reaches_now: "(\<And>s. cpu_at io r h s \<Longrightarrow> Q s) \<Longrightarrow> reaches io r h Q"
  unfolding reaches_def by (metis funpow_0)

lemma reaches_step:
  assumes "\<And>s. cpu_at io r h s \<Longrightarrow> \<exists>r' h'. cpu_at io r' h' (plain_step s) \<and> reaches io r' h' Q"
  shows "reaches io r h Q"
  unfolding reaches_def
proof (intro allI impI)
  fix s assume "cpu_at io r h s"
  then obtain r' h' where "cpu_at io r' h' (plain_step s)" "reaches io r' h' Q" using assms by blast
  then obtain n where "Q ((plain_step ^^ n) (plain_step s))" unfolding reaches_def by blast
  then show "\<exists>n. Q ((plain_step ^^ n) s)" by (intro exI[of _ "Suc n"]) (simp add: funpow_swap1)
qed

lemma cpu_at_runs: "cpu_at io r h s \<Longrightarrow> plain_halt h = None \<Longrightarrow> runs_code io s"
  by (auto simp: cpu_at_def runs_code_def)

lemma cpu_at_plain_synced: "cpu_at io r h s \<Longrightarrow> plain_synced s = tuned (clockticks6502 s) (r_a r) (r_x r) (r_y r) h"
  by (auto simp: cpu_at_def plain_synced_def tuned_def)

lemma cpu_at_memory: "cpu_at io r h s \<Longrightarrow> memory (cpu_host s) = memory h"
  by (auto simp: cpu_at_def)

text \<open>One instruction: the opcode's mode and handler, from the state before to the registers and host after.\<close>

lemma reaches_opcode:
  assumes "plain_halt h = None" "code_at h r (b # bs)"
    and "\<And>v. addrtable v b = mode" "\<And>v. optable v b = handler"
    and "\<And>s c. cpu_at io r h s \<Longrightarrow> plain_synced s = tuned c (r_a r) (r_x r) (r_y r) h \<Longrightarrow>
      \<exists>r' h'. cpu_at io r' h' (handler (run_mode mode (started s b))) \<and> reaches io r' h' Q"
  shows "reaches io r h Q"
proof (rule reaches_step)
  fix s assume s: "cpu_at io r h s"
  have "code_here s (b # bs)" using assms(2) s cpu_at_memory[OF s] by (simp add: cpu_at_def)
  from step_started[OF cpu_at_runs[OF s assms(1)] this assms(3,4)]
  have "after_step (plain_step s) (handler (run_mode mode (started s b)))" .
  then have "cpu_at io r' h' (plain_step s) = cpu_at io r' h' (handler (run_mode mode (started s b)))" for r' h'
    by (simp add: after_step_def cpu_at_def)
  then show "\<exists>r' h'. cpu_at io r' h' (plain_step s) \<and> reaches io r' h' Q"
    using assms(5)[OF s cpu_at_plain_synced[OF s]] by simp
qed

lemma started_abso:
  assumes "cpu_at io r h s" "plain_halt h = None" "code_at h r [b, lo, hi]"
  shows "run_mode M_abso (started s b) = (started s b)\<lparr>cpu_ea := word_of lo hi, cpu_pc := r_pc r + 3\<rparr>"
proof -
  have k: "cpu_hooks (started s b) = plain_hooks io" using assms(1) by (simp add: cpu_at_def)
  have "plain_read io (r_pc r + 1) (plain_synced s) = (lo, plain_synced s)" "plain_read io (r_pc r + 1 + 1) (plain_synced s) = (hi, plain_synced s)"
    using assms cpu_at_memory[OF assms(1)] cpu_at_plain_synced[OF assms(1)]
    by (auto simp: plain_memory_read no_port_def)
  then show ?thesis using assms(1) host_read_plain[OF k]
    by (simp add: abso_mode_def cpu_frame pair_val_def pair_host_def cpu_at_def add.assoc)
qed

lemma started_operand:
  assumes "cpu_at io r h s" "\<And>v. addrtable v b = mode" "mode \<noteq> M_acc" "u = (started s b)\<lparr>cpu_ea := e, cpu_pc := q\<rparr>"
  shows "acc_operand u = False" "cpu_hooks u = plain_hooks io"
  using assms by (auto simp: acc_operand_def cpu_at_def)

section \<open>The instructions of the stubs\<close>

text \<open>Their modes and handlers, the same on both variants.\<close>

lemma stub_modes:
  "addrtable v 0x4C = M_abso" "addrtable v 0xAD = M_abso" "addrtable v 0x8D = M_abso" "addrtable v 0xAE = M_abso" "addrtable v 0x8E = M_abso" "addrtable v 0x2C = M_abso" "addrtable v 0x30 = M_rel" "addrtable v 0xF0 = M_rel" "addrtable v 0x18 = M_imp" "addrtable v 0x38 = M_imp" "addrtable v 0x60 = M_imp" "addrtable v 0x48 = M_imp" "addrtable v 0x68 = M_imp" "addrtable v 0xA9 = M_imm" "addrtable v 0x08 = M_imp" "addrtable v 0x28 = M_imp" "addrtable v 0x49 = M_imm" "addrtable v 0x98 = M_imp" "addrtable v 0xA8 = M_imp"
  by (cases v; simp add: addrtable_nmos_def addrtable_65c02_def)+

lemma stub_handlers:
  "optable v 0x4C = jmp_insn" "optable v 0xAD = lda_insn" "optable v 0x8D = sta_insn" "optable v 0xAE = ldx_insn" "optable v 0x8E = stx_insn" "optable v 0x2C = bit_insn" "optable v 0x30 = bmi_insn" "optable v 0xF0 = beq_insn" "optable v 0x18 = clc_insn" "optable v 0x38 = sec_insn" "optable v 0x60 = rts_insn" "optable v 0x48 = pha_insn" "optable v 0x68 = pla_insn" "optable v 0xA9 = lda_insn" "optable v 0x08 = php_insn" "optable v 0x28 = plp_insn" "optable v 0x49 = eor_insn" "optable v 0x98 = tya_insn" "optable v 0xA8 = tay_insn"
  by (cases v; simp add: optable_nmos_def optable_65c02_def)+

lemmas stub_tables = stub_modes stub_handlers

lemma reaches_jmp:
  assumes "plain_halt h = None" "code_at h r [0x4C, lo, hi]"
    and "reaches io (r\<lparr>r_pc := word_of lo hi, r_p := r_p r OR 0x20\<rparr>) h Q"
  shows "reaches io r h Q"
proof (rule reaches_opcode[OF assms(1,2) stub_modes(1) stub_handlers(1)])
  fix s c assume s: "cpu_at io r h s" "plain_synced s = tuned c (r_a r) (r_x r) (r_y r) h"
  have "cpu_at io (r\<lparr>r_pc := word_of lo hi, r_p := r_p r OR 0x20\<rparr>) h (jmp_insn (run_mode M_abso (started s 0x4C)))"
    using s unfolding started_abso[OF s(1) assms(1,2)] by (auto simp: cpu_at_def jmp_insn_def started_def)
  then show "\<exists>r' h'. cpu_at io r' h' (jmp_insn (run_mode M_abso (started s 0x4C))) \<and> reaches io r' h' Q"
    using assms(3) by blast
qed

lemmas stub_insns = started_def load_value_eq operand_def operand_host_def acc_operand_def stub_modes nz8_eq
  putvalue_eq zerocalc_eq signcalc_eq setflag_eq clearflag_eq saveaccum_def Let_def

lemma reaches_lda:
  assumes "plain_halt h = None" "code_at h r [0xAD, lo, hi]"
    and "\<And>c v h'. plain_read io (word_of lo hi) (tuned c (r_a r) (r_x r) (r_y r) h) = (v, h') \<Longrightarrow>
      reaches io (r\<lparr>r_pc := r_pc r + 3, r_a := v, r_p := nz v (r_p r OR 0x20)\<rparr>) h' Q"
  shows "reaches io r h Q"
proof (rule reaches_opcode[OF assms(1,2) stub_modes(2) stub_handlers(2)])
  fix s c assume s: "cpu_at io r h s" "plain_synced s = tuned c (r_a r) (r_x r) (r_y r) h"
  obtain v h' where v: "plain_read io (word_of lo hi) (tuned c (r_a r) (r_x r) (r_y r) h) = (v, h')"
    by (cases "plain_read io (word_of lo hi) (tuned c (r_a r) (r_x r) (r_y r) h)")
  have "cpu_at io (r\<lparr>r_pc := r_pc r + 3, r_a := v, r_p := nz v (r_p r OR 0x20)\<rparr>) h' (lda_insn (run_mode M_abso (started s 0xAD)))"
    using s v host_read_plain[of s io] unfolding started_abso[OF s(1) assms(1,2)]
    by (auto simp: cpu_at_def lda_insn_def stub_insns)
  then show "\<exists>r' h'. cpu_at io r' h' (lda_insn (run_mode M_abso (started s 0xAD))) \<and> reaches io r' h' Q"
    using assms(3)[OF v] by blast
qed

lemma reaches_ldx:
  assumes "plain_halt h = None" "code_at h r [0xAE, lo, hi]"
    and "\<And>c v h'. plain_read io (word_of lo hi) (tuned c (r_a r) (r_x r) (r_y r) h) = (v, h') \<Longrightarrow>
      reaches io (r\<lparr>r_pc := r_pc r + 3, r_x := v, r_p := nz v (r_p r OR 0x20)\<rparr>) h' Q"
  shows "reaches io r h Q"
proof (rule reaches_opcode[OF assms(1,2) stub_modes(4) stub_handlers(4)])
  fix s c assume s: "cpu_at io r h s" "plain_synced s = tuned c (r_a r) (r_x r) (r_y r) h"
  obtain v h' where v: "plain_read io (word_of lo hi) (tuned c (r_a r) (r_x r) (r_y r) h) = (v, h')"
    by (cases "plain_read io (word_of lo hi) (tuned c (r_a r) (r_x r) (r_y r) h)")
  have "cpu_at io (r\<lparr>r_pc := r_pc r + 3, r_x := v, r_p := nz v (r_p r OR 0x20)\<rparr>) h' (ldx_insn (run_mode M_abso (started s 0xAE)))"
    using s v host_read_plain[of s io] unfolding started_abso[OF s(1) assms(1,2)]
    by (auto simp: cpu_at_def ldx_insn_def stub_insns)
  then show "\<exists>r' h'. cpu_at io r' h' (ldx_insn (run_mode M_abso (started s 0xAE))) \<and> reaches io r' h' Q"
    using assms(3)[OF v] by blast
qed

lemma reaches_bit:
  assumes "plain_halt h = None" "code_at h r [0x2C, lo, hi]"
    and "\<And>c v h'. plain_read io (word_of lo hi) (tuned c (r_a r) (r_x r) (r_y r) h) = (v, h') \<Longrightarrow>
      reaches io (r\<lparr>r_pc := r_pc r + 3, r_p := (put_flag 0x02 (r_a r AND v = 0) (r_p r OR 0x20) AND 0x3F) OR (v AND 0xC0)\<rparr>) h' Q"
  shows "reaches io r h Q"
proof (rule reaches_opcode[OF assms(1,2) stub_modes(6) stub_handlers(6)])
  fix s c assume s: "cpu_at io r h s" "plain_synced s = tuned c (r_a r) (r_x r) (r_y r) h"
  obtain v h' where v: "plain_read io (word_of lo hi) (tuned c (r_a r) (r_x r) (r_y r) h) = (v, h')"
    by (cases "plain_read io (word_of lo hi) (tuned c (r_a r) (r_x r) (r_y r) h)")
  have "cpu_at io (r\<lparr>r_pc := r_pc r + 3, r_p := (put_flag 0x02 (r_a r AND v = 0) (r_p r OR 0x20) AND 0x3F) OR (v AND 0xC0)\<rparr>) h'
      (bit_insn (run_mode M_abso (started s 0x2C)))"
    using s v host_read_plain[of s io] unfolding started_abso[OF s(1) assms(1,2)]
    by (auto simp: cpu_at_def bit_insn_def stub_insns)
  then show "\<exists>r' h'. cpu_at io r' h' (bit_insn (run_mode M_abso (started s 0x2C))) \<and> reaches io r' h' Q"
    using assms(3)[OF v] by blast
qed

lemma reaches_sta:
  assumes "plain_halt h = None" "code_at h r [0x8D, lo, hi]"
    and "\<And>c. reaches io (r\<lparr>r_pc := r_pc r + 3, r_p := r_p r OR 0x20\<rparr>)
      (plain_write (word_of lo hi) (r_a r) (tuned c (r_a r) (r_x r) (r_y r) h)) Q"
  shows "reaches io r h Q"
proof (rule reaches_opcode[OF assms(1,2) stub_modes(3) stub_handlers(3)])
  fix s c assume s: "cpu_at io r h s" "plain_synced s = tuned c (r_a r) (r_x r) (r_y r) h"
  have "cpu_at io (r\<lparr>r_pc := r_pc r + 3, r_p := r_p r OR 0x20\<rparr>)
      (plain_write (word_of lo hi) (r_a r) (tuned c (r_a r) (r_x r) (r_y r) h)) (sta_insn (run_mode M_abso (started s 0x8D)))"
    using s host_write_plain[of s io] unfolding started_abso[OF s(1) assms(1,2)]
    by (auto simp: cpu_at_def sta_insn_def stub_insns)
  then show "\<exists>r' h'. cpu_at io r' h' (sta_insn (run_mode M_abso (started s 0x8D))) \<and> reaches io r' h' Q"
    using assms(3) by blast
qed

lemma reaches_stx:
  assumes "plain_halt h = None" "code_at h r [0x8E, lo, hi]"
    and "\<And>c. reaches io (r\<lparr>r_pc := r_pc r + 3, r_p := r_p r OR 0x20\<rparr>)
      (plain_write (word_of lo hi) (r_x r) (tuned c (r_a r) (r_x r) (r_y r) h)) Q"
  shows "reaches io r h Q"
proof (rule reaches_opcode[OF assms(1,2) stub_modes(5) stub_handlers(5)])
  fix s c assume s: "cpu_at io r h s" "plain_synced s = tuned c (r_a r) (r_x r) (r_y r) h"
  have "cpu_at io (r\<lparr>r_pc := r_pc r + 3, r_p := r_p r OR 0x20\<rparr>)
      (plain_write (word_of lo hi) (r_x r) (tuned c (r_a r) (r_x r) (r_y r) h)) (stx_insn (run_mode M_abso (started s 0x8E)))"
    using s host_write_plain[of s io] unfolding started_abso[OF s(1) assms(1,2)]
    by (auto simp: cpu_at_def stx_insn_def stub_insns)
  then show "\<exists>r' h'. cpu_at io r' h' (stx_insn (run_mode M_abso (started s 0x8E))) \<and> reaches io r' h' Q"
    using assms(3) by blast
qed

text \<open>The instructions that touch memory only: branches, the stack, and the registers.\<close>

lemma slot_no_port: "no_port (slot w)"
  using slot_less[of w] by (simp add: no_port_def order_less_trans[of _ "0x200"])

lemma slot_reads:
  assumes "cpu_hooks s = plain_hooks io" "plain_halt h = None"
  shows "host_read (cpu_hooks s) (slot w) h = (memory h (slot w), h)"
  using host_read_plain[OF assms(1)] plain_memory_read[OF slot_no_port assms(2)] by simp

lemma slot_written:
  assumes "cpu_hooks s = plain_hooks io" "plain_halt h = None"
  shows "host_write (cpu_hooks s) (slot w) v h = h\<lparr>memory := (memory h)(slot w := v)\<rparr>"
  using host_write_plain[OF assms(1)] plain_memory_write[OF slot_no_port assms(2)] by simp

lemma tuned_memory: "(tuned c a x y h)\<lparr>memory := m\<rparr> = tuned c a x y (h\<lparr>memory := m\<rparr>)"
  by (simp add: tuned_def)

text \<open>The operand byte of a branch or an immediate.\<close>

lemma started_byte:
  assumes "cpu_at io r h s" "plain_halt h = None" "code_at h r [b, v]"
  shows "host_read (plain_hooks io) (r_pc r + 1) (plain_synced s) = (v, plain_synced s)"
proof -
  have k: "cpu_hooks s = plain_hooks io" using assms(1) by (simp add: cpu_at_def)
  then show ?thesis using assms cpu_at_plain_synced[OF assms(1)] host_read_plain[OF k]
    by (auto simp: plain_memory_read no_port_def)
qed

lemma started_rel:
  assumes "cpu_at io r h s" "plain_halt h = None" "code_at h r [b, v]" "\<not> bit v 7"
  shows "run_mode M_rel (started s b) = (started s b)\<lparr>cpu_pc := r_pc r + 2, cpu_reladdr := to16 v\<rparr>"
  using started_byte[OF assms(1-3)] assms(1,4) by (simp add: rel_mode_def fetch_eq cpu_at_def Let_def add.assoc)

lemma reaches_insn:
  assumes "plain_halt h = None" "code_at h r (b # bs)"
    and "\<And>v. addrtable v b = mode" "\<And>v. optable v b = handler"
    and "\<And>s c. cpu_at io r h s \<Longrightarrow> plain_synced s = tuned c (r_a r) (r_x r) (r_y r) h \<Longrightarrow>
      cpu_at io r' h' (handler (run_mode mode (started s b)))"
    and "reaches io r' h' Q"
  shows "reaches io r h Q"
  using reaches_opcode[OF assms(1-4)] assms(5,6) by blast

lemma reaches_bmi:
  assumes "plain_halt h = None" "code_at h r [0x30, v]" "\<not> bit v 7"
    and "reaches io (r\<lparr>r_pc := r_pc r + 2 + (if bit (r_p r) 7 then to16 v else 0), r_p := r_p r OR 0x20\<rparr>) h Q"
  shows "reaches io r h Q"
proof (rule reaches_insn[OF assms(1,2) stub_modes(7) stub_handlers(7) _ assms(4)])
  fix s c assume s: "cpu_at io r h s" "plain_synced s = tuned c (r_a r) (r_x r) (r_y r) h"
  show "cpu_at io (r\<lparr>r_pc := r_pc r + 2 + (if bit (r_p r) 7 then to16 v else 0), r_p := r_p r OR 0x20\<rparr>) h
      (bmi_insn (run_mode M_rel (started s 0x30)))"
    using s unfolding started_rel[OF s(1) assms(1-3)]
    by (auto simp: cpu_at_def bmi_insn_def take_branch_def stub_insns and_self_iff bit_simps)
qed

lemma reaches_beq:
  assumes "plain_halt h = None" "code_at h r [0xF0, v]" "\<not> bit v 7"
    and "reaches io (r\<lparr>r_pc := r_pc r + 2 + (if bit (r_p r) 1 then to16 v else 0), r_p := r_p r OR 0x20\<rparr>) h Q"
  shows "reaches io r h Q"
proof (rule reaches_insn[OF assms(1,2) stub_modes(8) stub_handlers(8) _ assms(4)])
  fix s c assume s: "cpu_at io r h s" "plain_synced s = tuned c (r_a r) (r_x r) (r_y r) h"
  show "cpu_at io (r\<lparr>r_pc := r_pc r + 2 + (if bit (r_p r) 1 then to16 v else 0), r_p := r_p r OR 0x20\<rparr>) h
      (beq_insn (run_mode M_rel (started s 0xF0)))"
    using s unfolding started_rel[OF s(1) assms(1-3)]
    by (auto simp: cpu_at_def beq_insn_def take_branch_def stub_insns and_self_iff bit_simps)
qed

lemma reaches_clc:
  assumes "plain_halt h = None" "code_at h r [0x18]"
    and "reaches io (r\<lparr>r_pc := r_pc r + 1, r_p := put_flag 1 False (r_p r OR 0x20)\<rparr>) h Q"
  shows "reaches io r h Q"
  by (rule reaches_insn[OF assms(1,2) stub_modes(9) stub_handlers(9) _ assms(3)])
    (auto simp: cpu_at_def clc_insn_def stub_insns imp_mode_def)

lemma reaches_sec:
  assumes "plain_halt h = None" "code_at h r [0x38]"
    and "reaches io (r\<lparr>r_pc := r_pc r + 1, r_p := put_flag 1 True (r_p r OR 0x20)\<rparr>) h Q"
  shows "reaches io r h Q"
  by (rule reaches_insn[OF assms(1,2) stub_modes(10) stub_handlers(10) _ assms(3)])
    (auto simp: cpu_at_def sec_insn_def stub_insns imp_mode_def)

lemma reaches_rts:
  assumes "plain_halt h = None" "code_at h r [0x60]"
    and "reaches io (r\<lparr>r_pc := word_of (memory h (slot (r_sp r + 1))) (memory h (slot (r_sp r + 2))) + 1,
      r_sp := r_sp r + 2, r_p := r_p r OR 0x20\<rparr>) h Q"
  shows "reaches io r h Q"
proof (rule reaches_insn[OF assms(1,2) stub_modes(11) stub_handlers(11) _ assms(3)])
  fix s c assume s: "cpu_at io r h s" "plain_synced s = tuned c (r_a r) (r_x r) (r_y r) h"
  have k: "cpu_hooks s = plain_hooks io" using s by (simp add: cpu_at_def)
  show "cpu_at io (r\<lparr>r_pc := word_of (memory h (slot (r_sp r + 1))) (memory h (slot (r_sp r + 2))) + 1,
      r_sp := r_sp r + 2, r_p := r_p r OR 0x20\<rparr>) h (rts_insn (run_mode M_imp (started s 0x60)))"
    using s slot_reads[OF k, of "plain_synced s"] assms(1)
    by (auto simp: cpu_at_def rts_insn_def stub_insns imp_mode_def pull16_eq slot_def[symmetric] pair_val_def pair_host_def)
qed

lemma reaches_pha:
  assumes "plain_halt h = None" "code_at h r [0x48]"
    and "reaches io (r\<lparr>r_pc := r_pc r + 1, r_sp := r_sp r - 1, r_p := r_p r OR 0x20\<rparr>)
      (h\<lparr>memory := (memory h)(slot (r_sp r) := r_a r)\<rparr>) Q"
  shows "reaches io r h Q"
proof (rule reaches_insn[OF assms(1,2) stub_modes(12) stub_handlers(12) _ assms(3)])
  fix s c assume s: "cpu_at io r h s" "plain_synced s = tuned c (r_a r) (r_x r) (r_y r) h"
  have k: "cpu_hooks s = plain_hooks io" using s by (simp add: cpu_at_def)
  show "cpu_at io (r\<lparr>r_pc := r_pc r + 1, r_sp := r_sp r - 1, r_p := r_p r OR 0x20\<rparr>)
      (h\<lparr>memory := (memory h)(slot (r_sp r) := r_a r)\<rparr>) (pha_insn (run_mode M_imp (started s 0x48)))"
    using s slot_written[OF k, of "plain_synced s"] assms(1)
    by (auto simp: cpu_at_def pha_insn_def stub_insns imp_mode_def push8_slot tuned_memory)
qed

lemma reaches_php:
  assumes "plain_halt h = None" "code_at h r [0x08]"
    and "reaches io (r\<lparr>r_pc := r_pc r + 1, r_sp := r_sp r - 1, r_p := r_p r OR 0x20\<rparr>)
      (h\<lparr>memory := (memory h)(slot (r_sp r) := r_p r OR 0x30)\<rparr>) Q"
  shows "reaches io r h Q"
proof (rule reaches_insn[OF assms(1,2) stub_modes(15) stub_handlers(15) _ assms(3)])
  fix s c assume s: "cpu_at io r h s" "plain_synced s = tuned c (r_a r) (r_x r) (r_y r) h"
  have k: "cpu_hooks s = plain_hooks io" using s by (simp add: cpu_at_def)
  show "cpu_at io (r\<lparr>r_pc := r_pc r + 1, r_sp := r_sp r - 1, r_p := r_p r OR 0x20\<rparr>)
      (h\<lparr>memory := (memory h)(slot (r_sp r) := r_p r OR 0x30)\<rparr>) (php_insn (run_mode M_imp (started s 0x08)))"
    using s slot_written[OF k, of "plain_synced s"] assms(1)
    by (auto simp: cpu_at_def php_insn_def stub_insns imp_mode_def push8_slot tuned_memory or.assoc)
qed

lemma reaches_pla:
  assumes "plain_halt h = None" "code_at h r [0x68]"
  defines "v \<equiv> memory h (slot (r_sp r + 1))"
  assumes "reaches io (r\<lparr>r_pc := r_pc r + 1, r_sp := r_sp r + 1, r_a := v, r_p := nz v (r_p r OR 0x20)\<rparr>) h Q"
  shows "reaches io r h Q"
proof (rule reaches_insn[OF assms(1,2) stub_modes(13) stub_handlers(13) _ assms(4)])
  fix s c assume s: "cpu_at io r h s" "plain_synced s = tuned c (r_a r) (r_x r) (r_y r) h"
  have k: "cpu_hooks s = plain_hooks io" using s by (simp add: cpu_at_def)
  show "cpu_at io (r\<lparr>r_pc := r_pc r + 1, r_sp := r_sp r + 1, r_a := v, r_p := nz v (r_p r OR 0x20)\<rparr>) h
      (pla_insn (run_mode M_imp (started s 0x68)))"
    using s slot_reads[OF k, of "plain_synced s"] assms(1)
    by (auto simp: cpu_at_def pla_insn_def stub_insns imp_mode_def pull8_eq slot_def[symmetric] v_def)
qed

lemma reaches_plp:
  assumes "plain_halt h = None" "code_at h r [0x28]"
    and "reaches io (r\<lparr>r_pc := r_pc r + 1, r_sp := r_sp r + 1,
      r_p := (memory h (slot (r_sp r + 1)) AND NOT 0x10) OR 0x20\<rparr>) h Q"
  shows "reaches io r h Q"
proof (rule reaches_insn[OF assms(1,2) stub_modes(16) stub_handlers(16) _ assms(3)])
  fix s c assume s: "cpu_at io r h s" "plain_synced s = tuned c (r_a r) (r_x r) (r_y r) h"
  have k: "cpu_hooks s = plain_hooks io" using s by (simp add: cpu_at_def)
  show "cpu_at io (r\<lparr>r_pc := r_pc r + 1, r_sp := r_sp r + 1,
      r_p := (memory h (slot (r_sp r + 1)) AND NOT 0x10) OR 0x20\<rparr>) h (plp_insn (run_mode M_imp (started s 0x28)))"
    using s slot_reads[OF k, of "plain_synced s"] assms(1)
    by (auto simp: cpu_at_def plp_insn_def pull_status_def stub_insns imp_mode_def pull8_eq slot_def[symmetric])
qed

lemma reaches_lda_imm:
  assumes "plain_halt h = None" "code_at h r [0xA9, v]"
    and "reaches io (r\<lparr>r_pc := r_pc r + 2, r_a := v, r_p := nz v (r_p r OR 0x20)\<rparr>) h Q"
  shows "reaches io r h Q"
proof (rule reaches_insn[OF assms(1,2) stub_modes(14) stub_handlers(14) _ assms(3)])
  fix s c assume s: "cpu_at io r h s" "plain_synced s = tuned c (r_a r) (r_x r) (r_y r) h"
  show "cpu_at io (r\<lparr>r_pc := r_pc r + 2, r_a := v, r_p := nz v (r_p r OR 0x20)\<rparr>) h (lda_insn (run_mode M_imm (started s 0xA9)))"
    using s started_byte[OF s(1) assms(1,2)] by (auto simp: cpu_at_def lda_insn_def stub_insns imm_mode_def add.assoc)
qed

lemma reaches_eor_imm:
  assumes "plain_halt h = None" "code_at h r [0x49, v]"
    and "reaches io (r\<lparr>r_pc := r_pc r + 2, r_a := r_a r XOR v, r_p := nz (r_a r XOR v) (r_p r OR 0x20)\<rparr>) h Q"
  shows "reaches io r h Q"
proof (rule reaches_insn[OF assms(1,2) stub_modes(17) stub_handlers(17) _ assms(3)])
  fix s c assume s: "cpu_at io r h s" "plain_synced s = tuned c (r_a r) (r_x r) (r_y r) h"
  show "cpu_at io (r\<lparr>r_pc := r_pc r + 2, r_a := r_a r XOR v, r_p := nz (r_a r XOR v) (r_p r OR 0x20)\<rparr>) h
      (eor_insn (run_mode M_imm (started s 0x49)))"
    using s started_byte[OF s(1) assms(1,2)]
    by (auto simp: cpu_at_def eor_insn_def stub_insns imm_mode_def add.assoc nz_def)
qed

lemma reaches_tya:
  assumes "plain_halt h = None" "code_at h r [0x98]"
    and "reaches io (r\<lparr>r_pc := r_pc r + 1, r_a := r_y r, r_p := nz (r_y r) (r_p r OR 0x20)\<rparr>) h Q"
  shows "reaches io r h Q"
  by (rule reaches_insn[OF assms(1,2) stub_modes(18) stub_handlers(18) _ assms(3)])
    (auto simp: cpu_at_def tya_insn_def stub_insns imp_mode_def)

lemma reaches_tay:
  assumes "plain_halt h = None" "code_at h r [0xA8]"
    and "reaches io (r\<lparr>r_pc := r_pc r + 1, r_y := r_a r, r_p := nz (r_a r) (r_p r OR 0x20)\<rparr>) h Q"
  shows "reaches io r h Q"
  by (rule reaches_insn[OF assms(1,2) stub_modes(19) stub_handlers(19) _ assms(3)])
    (auto simp: cpu_at_def tay_insn_def stub_insns imp_mode_def)

end
