(* ===== verification/Stub_Code.thy ===== *)
theory Stub_Code imports Stub_Layout Plain_Calls
begin

text \<open>
  The stubs in the memory of the plain machine, and what an access to a port leaves of it.
\<close>

section \<open>Accesses keep the memory\<close>

text \<open>The serial line is a part of the state that does not have the memory.\<close>

lemma more_memory: "serial.more n = serial.more m \<Longrightarrow> memory n = memory m"
  for m n :: "('d, 'z) plain_scheme"
  by (cases m, cases n) (simp add: plain.defs)

definition line_frame :: "('d, 'z) serial_scheme \<Rightarrow> 'z \<times> bool \<times> u64" where
  "line_frame s = (serial.more s, terminal_mode s, clock s)"

lemma line_frame_updates [simp]:
  "line_frame (s\<lparr>serial_rx := v0\<rparr>) = line_frame s"
  "line_frame (s\<lparr>serial_rx_next_fill_at := v1\<rparr>) = line_frame s"
  "line_frame (s\<lparr>serial_tx := v2\<rparr>) = line_frame s"
  "line_frame (s\<lparr>serial_tx_next_drain_at := v3\<rparr>) = line_frame s"
  "line_frame (s\<lparr>serial_fill_index := v4\<rparr>) = line_frame s"
  "line_frame (s\<lparr>serial_pace_hold := v5\<rparr>) = line_frame s"
  "line_frame (s\<lparr>serial_pace_waited := v6\<rparr>) = line_frame s"
  "line_frame (s\<lparr>serial_inject_pos := v7\<rparr>) = line_frame s"
  "line_frame (s\<lparr>serial_input := v8\<rparr>) = line_frame s"
  "line_frame (s\<lparr>serial_sent := v9\<rparr>) = line_frame s"
  "line_frame (s\<lparr>screen := v10\<rparr>) = line_frame s"
  "line_frame (s\<lparr>stdin := v11\<rparr>) = line_frame s"
  "line_frame (s\<lparr>emu_done := v12\<rparr>) = line_frame s"
  "line_frame (s\<lparr>exitcode_set := v13\<rparr>) = line_frame s"
  by (simp_all add: line_frame_def)

lemma input_byte_frame: "line_frame (snd (input_byte io s)) = line_frame s"
  by (simp add: input_byte_def split: prod.split option.split list.split)

lemma received_frame [simp]: "line_frame (received b s) = line_frame s"
  by (simp add: received_def)

lemma fill_loop_frame: "line_frame (snd (fill_loop io filled s)) = line_frame s"
proof (induction io filled s rule: fill_loop.induct)
  case (1 io filled s)
  obtain r s' where i: "input_byte io s = (r, s')" by (cases "input_byte io s")
  have "line_frame s' = line_frame s" using input_byte_frame[of io s] i by simp
  then show ?case using 1 i by (subst fill_loop.simps) (auto split: option.split)
qed

lemma rx_fill_frame [simp]: "line_frame (serial_rx_fill io s) = line_frame s"
  using fill_loop_frame[of io False s] by (auto simp: serial_rx_fill_def Let_def split: prod.split)

lemma next_arrival_frame [simp]: "line_frame (snd (serial_rx_next_arrival io s)) = line_frame s"
  by (auto simp: serial_rx_next_arrival_def Let_def split: prod.split)

lemma transmit_frame [simp]: "line_frame (transmit s) = line_frame s"
  by (simp add: transmit_def serial_out_def split: prod.split)

lemma drain_loop_frame [simp]: "line_frame (drain_loop s) = line_frame s"
proof (induction s rule: drain_loop.induct)
  case (1 s)
  then show ?case by (subst drain_loop.simps) simp
qed

lemma tx_drain_frame [simp]: "line_frame (serial_tx_drain s) = line_frame s"
  by (simp add: serial_tx_drain_def Let_def)

lemma ready_port_frame: "line_frame (snd (serial_ready_port io s)) = line_frame s"
  by (simp add: serial_ready_port_def Let_def split: prod.split)

lemma take_frame [simp]: "line_frame (take_injected s) = line_frame s" "line_frame (interrupt s) = line_frame s"
  by (simp_all add: take_injected_def interrupt_def)

lemma data_port_frame: "line_frame (snd (serial_data_port io s)) = line_frame s"
  by (simp add: serial_data_port_def Let_def split: prod.split read_result.split option.split list.split)

lemma write_port_frame:
  "line_frame (snd (serial_write_ready_port s)) = line_frame s" "line_frame (serial_write_port b s) = line_frame s"
  by (simp_all add: serial_write_ready_port_def serial_write_port_def Let_def)

lemma frame_more: "line_frame t = line_frame s \<Longrightarrow> serial.more t = serial.more s"
  by (simp add: line_frame_def)

lemmas line_more [simp] = tx_drain_frame[THEN frame_more] rx_fill_frame[THEN frame_more] next_arrival_frame[THEN frame_more]

lemma wait_loop_more:
  assumes "wait_loop io deadline s = Some r"
  shows "serial.more (snd r) = serial.more s"
proof (rule wait_loop.raw_induct[where P = "\<lambda>io deadline s r. serial.more (snd r) = serial.more s", OF _ assms])
  fix f :: "'a terminal \<Rightarrow> u64 \<Rightarrow> ('a, 'b) serial_scheme \<Rightarrow> (u8 \<times> ('a, 'b) serial_scheme) option" and io deadline s r
  assume IH: "\<And>io deadline s r. f io deadline s = Some r \<Longrightarrow> serial.more (snd r) = serial.more s"
    and e: "(let s = serial_tx_drain s in
      if injected s \<noteq> [] then Some (0xFF, s)
      else let (out, s) = (if ring_count (serial_rx s) = 0 then serial_pace_wait_times_out s else (False, s)) in
      if out then Some (0x00, s\<lparr>clock := deadline\<rparr>)
      else let s = serial_rx_fill io s in
      if ring_count (serial_rx s) > 0 then Some (0xFF, s)
      else if clock s \<ge> deadline \<or> signalled io (stdin s) then Some (0x00, s)
      else let (arrival, s) = serial_rx_next_arrival io s in
      if arrival \<noteq> UINT64_MAX then f io deadline (s\<lparr>clock := min arrival deadline\<rparr>)
      else if terminal_interactive s then
        let (ticks, d) = select_ticks io (deadline - clock s) (stdin s) in
        f io deadline (s\<lparr>stdin := d, clock := (if deadline - clock s > ticks then clock s + ticks else deadline)\<rparr>)
      else f io deadline (s\<lparr>clock := deadline\<rparr>)) = Some r"
  define s1 where "s1 = serial_tx_drain s"
  obtain out s2 where p: "(if ring_count (serial_rx s1) = 0 then serial_pace_wait_times_out s1 else (False, s1)) = (out, s2)"
    by (rule prod.exhaust)
  have m2: "serial.more s2 = serial.more s"
    using p by (auto simp: s1_def serial_pace_wait_times_out_def split: if_splits)
  obtain a s3 where n: "serial_rx_next_arrival io (serial_rx_fill io s2) = (a, s3)" by (rule prod.exhaust)
  have m3: "serial.more s3 = serial.more s" using line_more(3)[of io "serial_rx_fill io s2"] m2 n by simp
  show "serial.more (snd r) = serial.more s"
    using e m2 m3 unfolding s1_def[symmetric] Let_def p n
    by (auto simp: s1_def n split: if_splits prod.splits dest!: IH)
qed

lemma wait_ready_more: "serial_wait_ready io ms s = Some r \<Longrightarrow> serial.more (snd r) = serial.more s"
  by (auto simp: serial_wait_ready_def Let_def dest: wait_loop_more split: if_splits prod.splits)

lemmas ports_memory = ready_port_frame[THEN frame_more, THEN more_memory] data_port_frame[THEN frame_more, THEN more_memory]
  write_port_frame[THEN frame_more, THEN more_memory]
  wait_ready_more[THEN more_memory]

text \<open>The console and its keys: what every read of the input keeps, the key decoder keeps.\<close>

lemma read_byte_keeps:
  assumes "\<And>s. P s \<Longrightarrow> P (snd (input_read io s))"
  shows "P (snd k) \<Longrightarrow> P (snd (snd (read_byte io k)))"
  using assms[of "snd k"] by (cases k) (auto simp: read_byte_def split: list.split prod.split)

lemma eat_keeps:
  assumes "\<And>s. P s \<Longrightarrow> P (snd (input_read io s))" "eat io b k = Some r" "P (snd k)"
  shows "P (snd (snd r))"
proof -
  have "io' = io \<longrightarrow> P (snd k) \<longrightarrow> P (snd (snd r))" if "eat io' b k = Some r" for io' b k r
  proof (rule eat.raw_induct[where P = "\<lambda>io' b k r. io' = io \<longrightarrow> P (snd k) \<longrightarrow> P (snd (snd r))", OF _ that])
    fix f :: "'a direct_io_input \<Rightarrow> u8 \<Rightarrow> 'a keys \<Rightarrow> (u8 \<times> 'a keys) option" and io' and b :: u8 and k r
    assume IH: "\<And>io' b k r. f io' b k = Some r \<Longrightarrow> io' = io \<longrightarrow> P (snd k) \<longrightarrow> P (snd (snd r))"
      and e: "(if b \<noteq> 0 \<and> b < 0x40 then (let (b, k) = read_byte io' k in f io' b k) else Some (0, k)) = Some r"
    obtain b' k' where n: "read_byte io k = (b', k')" by (rule prod.exhaust)
    show "io' = io \<longrightarrow> P (snd k) \<longrightarrow> P (snd (snd r))"
      using e IH[of io b' k' r] read_byte_keeps[of P io k] assms(1) n by (auto split: if_splits)
  qed
  then show ?thesis using assms(2,3) by blast
qed

lemma read_key_keeps:
  assumes "\<And>s. P s \<Longrightarrow> P (snd (input_read io s))" "\<And>ms s. P s \<Longrightarrow> P (snd (input_wait io ms s))"
    and "direct_io_read_key io k = Some r" "P (snd k)"
  shows "P (snd (snd r))"
proof -
  have e: "P (snd (snd r))" if "eat io b k = Some r" "P (snd k)" for b k r using eat_keeps[OF assms(1) that] .
  have b: "P (snd k')" if "read_byte io k = (b, k')" "P (snd k)" for b k k'
    using read_byte_keeps[of P io k] assms(1) that by (metis snd_conv)
  have w: "P (snd k')" if "wait_byte io k = (b, k')" "P (snd k)" for b k k'
    using assms(2)[of "snd k" ESC_WAIT_MS] that by (cases k) (auto simp: wait_byte_def split: prod.splits)
  have u: "snd (unread x k) = snd k" for x k by (cases k) (simp add: unread_def)
  have c: "P (snd (snd r))" if r: "read_csi io k = Some r" "P (snd k)" for k r
  proof -
    obtain b1 k1 where 1: "read_byte io k = (b1, k1)" by (rule prod.exhaust)
    obtain b2 k2 where 2: "read_byte io k1 = (b2, k2)" by (rule prod.exhaust)
    obtain b3 k3 where 3: "read_byte io k2 = (b3, k3)" by (rule prod.exhaust)
    obtain b4 k4 where 4: "read_byte io k3 = (b4, k4)" by (rule prod.exhaust)
    have "P (snd k1)" "P (snd k2)" "P (snd k3)" "P (snd k4)" using b[OF 1 r(2)] b[OF 2] b[OF 3] b[OF 4] by simp_all
    then show ?thesis using r(1) by (auto simp: read_csi_def Let_def 1 2 3 4 split: if_splits dest: e)
  qed
  obtain b1 k1 where 1: "read_byte io k = (b1, k1)" by (rule prod.exhaust)
  obtain a1 k2 where 2: "wait_byte io k1 = (a1, k2)" by (rule prod.exhaust)
  obtain b3 k3 where 3: "read_byte io k2 = (b3, k3)" by (rule prod.exhaust)
  obtain a4 k4 where 4: "wait_byte io k3 = (a4, k4)" by (rule prod.exhaust)
  obtain b5 k5 where 5: "read_byte io k4 = (b5, k5)" by (rule prod.exhaust)
  have "P (snd k1)" "P (snd k2)" "P (snd k3)" "P (snd k4)" "P (snd k5)"
    using b[OF 1 assms(4)] w[OF 2] b[OF 3] w[OF 4] b[OF 5] by simp_all
  then show ?thesis using assms(3) by (auto simp: direct_io_read_key_def Let_def u 1 2 3 4 5 split: if_splits dest: c)
qed

lemma end_pace_memory [simp]: "memory (end_pace_pause m) = memory m"
  by (simp add: end_pace_pause_def)

lemma wait_ready_memory [simp]: "memory (snd (wait_ready io ms m)) = memory m"
  using ports_memory(5)[of io ms m]
  by (auto simp: wait_ready_def halts_def Let_def split: option.split prod.split)

lemma input_getc_memory: "input_getc m = (b, n) \<Longrightarrow> memory n = memory m"
  by (auto simp: input_getc_def split: option.splits prod.splits)

lemma interrupt_memory [simp]: "memory (interrupt m) = memory m"
  by (simp add: interrupt_def)

lemma con_read_byte_memory [simp]: "memory (snd (con_read_byte io m)) = memory m"
  by (auto simp: con_read_byte_def Let_def dest: input_getc_memory split: option.split prod.split read_result.split)

lemma con_read_memory [simp]: "memory (snd (con_read io m)) = memory m"
proof -
  have "memory (snd (snd r)) = memory m" if "direct_io_read_key (con_input io) (pushback m, m) = Some r" for r
    using read_key_keeps[of "\<lambda>n. memory n = memory m" "con_input io", OF _ _ that] by (simp add: con_input_def)
  then show ?thesis by (auto simp: con_read_def fail_def halts_def split: option.split prod.split)
qed

lemma con_ready_memory [simp]: "memory (snd (con_ready io m)) = memory m"
  by (simp add: con_ready_def fail_def halts_def Let_def split: prod.split)

lemma on_handles_memory [simp]: "memory (snd (on_handles f m)) = memory m"
  by (simp add: on_handles_def fail_def halts_def split: option.split prod.split)

lemma con_write_memory [simp]: "memory (fold con_write_byte bs m) = memory m"
  by (induction bs arbitrary: m) (simp_all add: con_write_byte_def)

lemma if_memory:
  "(c \<Longrightarrow> memory (snd p) = v) \<Longrightarrow> (\<not> c \<Longrightarrow> memory (snd q) = v) \<Longrightarrow> memory (snd (if c then p else q)) = v"
  by simp

lemma plain_read_memory: "memory (snd (plain_read io a m)) = memory m"
  unfolding plain_read_def plain_port_read_def argv_def
  by (intro if_memory)
    (auto simp: ports_memory(1,2,3) fail_def halts_def input_rewind_def dest: input_getc_memory split: option.split prod.split)

text \<open>The ports that are written by the stubs.\<close>

definition write_ports :: "u16 list" where
  "write_ports = [port_write_b, port_write_d, port_exit, port_close, port_write, port_con_flush, port_serial_write, port_wait_lo, port_wait_hi, port_scr_a, port_scr_op]"

lemma plain_write_memory: "a \<in> set write_ports \<Longrightarrow> memory (plain_write a v m) = memory m"
  using ports_memory(4)[of v m]
  by (auto simp: write_ports_def plain_write_def plain_port_write_def fail_def halts_def con_write_byte_def write_error_byte_def)

section \<open>The stubs in memory\<close>

definition stubs_in :: "bool \<Rightarrow> bool \<Rightarrow> bool \<Rightarrow> (u16 \<Rightarrow> u8) \<Rightarrow> bool" where
  "stubs_in t d s m \<longleftrightarrow> (\<forall>a b. 0xF006 \<le> a \<and> a < 0xFE00 \<and> stub_byte (generate_stubs t d s) a = Some b \<longrightarrow> m (word_of_int a) = b)"

lemma code_in_Cons: "code_in c a (b # bs) \<Longrightarrow> stub_byte c a = Some b \<and> 0xF006 \<le> a \<and> a < 0xFE00 \<and> code_in c (a + 1) bs"
  by (auto simp: code_in_def All_less_Suc2 add.assoc)

lemma stubs_bytes:
  assumes "stubs_in t d s m"
  shows "code_in (generate_stubs t d s) a bs \<Longrightarrow> bytes_at m (word_of_int a) bs"
proof (induction bs arbitrary: a)
  case (Cons b bs)
  note c = code_in_Cons[OF Cons.prems]
  have "uint (word_of_int a :: u16) = a" using c by (simp add: unsigned_of_int take_bit_int_eq_self)
  then have "0xF006 \<le> (word_of_int a :: u16)" "(word_of_int a :: u16) < 0xFE00" using c by (simp_all add: word_le_def word_less_def)
  moreover have "m (word_of_int a) = b" using assms c by (simp add: stubs_in_def)
  moreover have "word_of_int a + 1 = (word_of_int (a + 1) :: u16)" by simp
  ultimately show ?case using Cons.IH[of "a + 1"] c by simp
qed simp

lemma bytes_at_append [simp]:
  "bytes_at m a (xs @ ys) \<longleftrightarrow> bytes_at m a xs \<and> bytes_at m (a + of_nat (length xs)) ys"
  by (induction xs arbitrary: a) (auto simp: add.assoc add.commute[of 1])

text \<open>The loader leaves them there, and the stack and the byte the strict tails keep A in are not a part of them.\<close>

lemma scratch_unwritten: "stub_byte (generate_stubs t d True) (stub_scratch d) = None"
proof -
  let ?z = "stub_scratch d"
  have p: "0xF006 + 3 * int (length (stub_routines t d True)) \<le> snd (stubs_tails d True)"
    using scratch_bounds(1)[of d] by (simp add: stubs_tails_snd)
  have n: "\<not> (d \<and> slot_of 0xF042 15 ?z)" using scratch_bounds(2)[of d] by (auto simp: slot_of_def)
  have "stub_byte (generate_stubs t d True) ?z = stub_byte (emit_routines False 0xF006 (stub_routines t d True) (stubs_tails d True)) ?z"
    using n by (intro generate_stubs_byte) (simp_all add: stubs_tails_snd)
  also have "\<dots> = stub_byte (stubs_tails d True) ?z"
    using emit_routines_keeps[OF p, of False ?z] scratch_bounds(1)[of d] by (simp add: slot_of_def stubs_tails_snd)
  also have "\<dots> = stub_byte (emit_vectors 20 ([], 0xF006)) ?z"
    unfolding stubs_tails_def emit_tails_eq[of "stubs_vectors d"]
    by (simp add: stub_byte_emit stubs_vectors_def) (simp add: stub_byte_def)
  also have "\<dots> = None" using stub_byte_vectors[of 20 "([], 0xF006)" ?z] scratch_bounds(1)[of d] by (auto simp: stub_byte_def)
  finally show ?thesis .
qed

lemma stubs_in_changed:
  assumes "stubs_in t d s m" "\<And>x. n x \<noteq> m x \<Longrightarrow> x < 0xF006 \<or> 0xFE00 \<le> x \<or> s \<and> x = word_of_int (stub_scratch d)"
  shows "stubs_in t d s n"
proof -
  have "n (word_of_int a) = m (word_of_int a)" if a: "0xF006 \<le> a" "a < 0xFE00" "stub_byte (generate_stubs t d s) a = Some b" for a b
  proof (rule ccontr)
    let ?x = "word_of_int a :: u16"
    have u: "uint ?x = a" using a by (simp add: unsigned_of_int take_bit_int_eq_self)
    assume "n ?x \<noteq> m ?x"
    then have "?x < 0xF006 \<or> 0xFE00 \<le> ?x \<or> s \<and> ?x = word_of_int (stub_scratch d)" by (rule assms(2))
    then have s: "s" "?x = word_of_int (stub_scratch d)" using u a(1,2) by (auto simp: word_less_def word_le_def)
    then have "a = stub_scratch d" using u scratch_bounds(1)[of d] scratch_bounds(3)[of d] by (simp add: unsigned_of_int take_bit_int_eq_self)
    then show False using a s scratch_unwritten[of t d] by simp
  qed
  then show ?thesis using assms(1) by (simp add: stubs_in_def)
qed

lemma put_string_below:
  "put_string p bs m = Inr (q, n) \<Longrightarrow> 0xFE00 \<le> p \<Longrightarrow> p \<le> q \<and> (\<forall>a<0xFE00. n a = m a)"
proof (induction p bs m rule: put_string.induct)
  case (2 p b bs m)
  then have p: "p \<le> 0x10000" by (auto split: if_splits)
  have "(word_of_int p :: u16) \<ge> 0xFE00" if "p \<noteq> 0x10000"
    using that p 2(3) by (simp add: word_le_def unsigned_of_int take_bit_int_eq_self)
  then show ?case using 2 p by (fastforce split: if_splits)
qed auto

lemma put_args_below:
  "put_args p ss m = Inr (as, n) \<Longrightarrow> 0xFE00 \<le> p \<Longrightarrow> \<forall>a<0xFE00. n a = m a"
proof (induction p ss m arbitrary: as rule: put_args.induct)
  case (2 p s ss m)
  obtain q m' where q: "put_string p (s @ [0]) m = Inr (q, m')" using 2(2) by (auto split: sum.splits)
  note b = put_string_below[OF q 2(3)]
  have t: "\<not> q > ARGV_TOP" using 2(2) q by (auto split: if_splits)
  obtain bs where "put_args q ss m' = Inr (bs, n)" using 2(2) q t by (cases "put_args q ss m'") auto
  from 2(1)[OF q refl t this] show ?case using b 2(3) by simp
qed simp

lemma plain_memory_stubs:
  assumes "plain_memory t d s program address args = Inr (as, m)"
  shows "stubs_in t d s m"
proof -
  obtain m0 where m0: "put_args ARGV_BASE args (memory_after m0 (generate_stubs t d s)) = Inr (as, m)"
    using assms by (auto simp: plain_memory_def split: sum.splits)
  note b = put_args_below[OF m0]
  show ?thesis unfolding stubs_in_def
  proof (intro allI impI, elim conjE)
    fix a b assume a: "0xF006 \<le> a" "a < 0xFE00" "stub_byte (generate_stubs t d s) a = Some b"
    have u: "uint (word_of_int a :: u16) = a" using a by (simp add: unsigned_of_int take_bit_int_eq_self)
    then have "(word_of_int a :: u16) < 0xFE00" using a by (simp add: word_less_def)
    then have "m (word_of_int a) = memory_after m0 (generate_stubs t d s) (word_of_int a)" using b by (simp add: ARGV_BASE_def)
    then show "m (word_of_int a) = b" using a u by (simp add: memory_after_def stub_byte_def)
  qed
qed

end
