(* ===== verification/Plain_Run.thy ===== *)
theory Plain_Run imports Stub_Code Cpu_Host
begin

text \<open>
  The run of the plain machine on files (\<open>emu_run_default\<close> without a terminal): no access takes time of
  its own, the key decoder returns at the end of the input, and the run ends.
\<close>

section \<open>Accesses without a terminal\<close>

definition on_files :: "u64 \<Rightarrow> ('d, 'z) plain_scheme \<Rightarrow> bool" where
  "on_files c m \<longleftrightarrow> \<not> console_mode m \<and> \<not> terminal_mode m \<and> clock m = c \<and> plain_halt m \<noteq> Some Hangs"

lemma frame_on_files: "line_frame n = line_frame m \<Longrightarrow> on_files c n = on_files c m"
  for m n :: "('d, 'z) plain_scheme"
  by (cases m, cases n) (simp add: line_frame_def on_files_def plain.defs)

lemmas ports_on_files [simp] = ready_port_frame[THEN frame_on_files] data_port_frame[THEN frame_on_files]
  write_port_frame[THEN frame_on_files]

lemma on_files_getc: "input_getc m = (b, n) \<Longrightarrow> on_files c n = on_files c m"
  by (auto simp: input_getc_def on_files_def split: option.splits prod.splits)

lemma on_files_fail [simp]: "on_files c (halts (Exits 1) m) \<longleftrightarrow> \<not> console_mode m \<and> \<not> terminal_mode m \<and> clock m = c"
  by (simp add: on_files_def halts_def)

lemma on_files_wait: "on_files c m \<Longrightarrow> on_files c (snd (wait_ready io ms m))"
  by (simp add: wait_ready_def on_files_def end_pace_pause_def)

lemma on_files_byte: "on_files c m \<Longrightarrow> on_files c (snd (con_read_byte io m))"
  using on_files_getc[of m]
  by (auto simp: con_read_byte_def split: prod.split option.split) (auto simp: on_files_def)

text \<open>The input that is left, and the decoder, which cannot go on past it.\<close>

definition left :: "('d, 'z) plain_scheme \<Rightarrow> nat" where
  "left m = (case io_files (handles m) 0 of Some f \<Rightarrow> length (file_bytes (io_disk (handles m)) f) - stream_pos f | None \<Rightarrow> 0)"

lemma byte_left:
  assumes "\<not> console_mode m" "con_read_byte io m = (b, n)"
  shows "\<not> console_mode n" "b = 0 \<or> left n < left m"
  using assms by (auto simp: con_read_byte_def input_getc_def fgetc_def left_def file_bytes_def split: option.splits if_splits)

lemma eat_ends:
  assumes "\<not> console_mode m"
  shows "\<exists>r. eat (con_input io) b (ps, m) = Some r"
  using assms
proof (induction "length ps + left m" arbitrary: b ps m rule: less_induct)
  case less
  obtain b' k where n: "read_byte (con_input io) (ps, m) = (b', k)" by (rule prod.exhaust)
  have k: "\<not> console_mode (snd k) \<and> (b' = 0 \<or> length (fst k) + left (snd k) < length ps + left m)"
    using n less.prems byte_left[OF less.prems, of io]
    by (cases ps) (auto simp: read_byte_def con_input_def split: prod.splits)
  have "\<exists>r. eat (con_input io) b' k = Some r"
  proof (cases "b' = 0")
    case True
    then show ?thesis by (simp add: eat.simps)
  next
    case False
    then show ?thesis using less.hyps[of "fst k" "snd k" b'] k by simp
  qed
  then show ?case by (subst eat.simps) (auto simp: n)
qed

lemma key_ends:
  assumes "on_files c m"
  shows "\<exists>r. direct_io_read_key (con_input io) (ps, m) = Some r \<and> on_files c (snd (snd r))"
proof -
  let ?io = "con_input io"
  have b: "on_files c (snd k')" if "read_byte ?io k = (b, k')" "on_files c (snd k)" for b k k'
    using read_byte_keeps[of "on_files c" ?io k] on_files_byte that by (metis con_input_def direct_io_input.select_convs(1) snd_conv)
  have w: "on_files c (snd k')" if "wait_byte ?io k = (b, k')" "on_files c (snd k)" for b k k'
    using on_files_wait[of c "snd k" io ESC_WAIT_MS] that by (cases k) (auto simp: wait_byte_def con_input_def split: prod.splits)
  have e: "\<exists>r. eat ?io b k = Some r" if "on_files c (snd k)" for b k
    using eat_ends[of "snd k" io b "fst k"] that by (simp add: on_files_def)
  have c: "\<exists>r. read_csi ?io k = Some r" if k: "on_files c (snd k)" for k
  proof -
    obtain b1 k1 where 1: "read_byte ?io k = (b1, k1)" by (rule prod.exhaust)
    obtain b2 k2 where 2: "read_byte ?io k1 = (b2, k2)" by (rule prod.exhaust)
    obtain b3 k3 where 3: "read_byte ?io k2 = (b3, k3)" by (rule prod.exhaust)
    obtain b4 k4 where 4: "read_byte ?io k3 = (b4, k4)" by (rule prod.exhaust)
    have "on_files c (snd k1)" "on_files c (snd k2)" "on_files c (snd k3)" "on_files c (snd k4)"
      using b[OF 1 k] b[OF 2] b[OF 3] b[OF 4] by simp_all
    then have "\<exists>r. eat ?io b1 k1 = Some r" "\<exists>r. eat ?io b2 k2 = Some r" "\<exists>r. eat ?io b3 k3 = Some r" "\<exists>r. eat ?io b4 k4 = Some r"
      using e by blast+
    then show ?thesis by (simp add: read_csi_def Let_def 1 2 3 4)
  qed
  obtain b1 k1 where 1: "read_byte ?io (ps, m) = (b1, k1)" by (rule prod.exhaust)
  obtain a1 k2 where 2: "wait_byte ?io k1 = (a1, k2)" by (rule prod.exhaust)
  obtain b3 k3 where 3: "read_byte ?io k2 = (b3, k3)" by (rule prod.exhaust)
  have "on_files c (snd k1)" "on_files c (snd k2)" "on_files c (snd k3)" using b[OF 1] w[OF 2] b[OF 3] assms by simp_all
  then have "\<exists>r. direct_io_read_key ?io (ps, m) = Some r"
    using c[of k3] by (simp add: direct_io_read_key_def Let_def 1 2 3 split: prod.split)
  then obtain r where r: "direct_io_read_key ?io (ps, m) = Some r" ..
  have "on_files c (snd (snd r))"
    by (rule read_key_keeps[of "on_files c" ?io, OF _ _ r]) (use assms on_files_byte on_files_wait in \<open>simp_all add: con_input_def\<close>)
  then show ?thesis using r by blast
qed

section \<open>The interface of the core\<close>

lemma on_files_if:
  "(b \<Longrightarrow> on_files c (snd p)) \<Longrightarrow> (\<not> b \<Longrightarrow> on_files c (snd q)) \<Longrightarrow> on_files c (snd (if b then p else q))"
  by simp

lemma on_files_handles: "on_files c m \<Longrightarrow> on_files c (snd (on_handles f m))"
  by (auto simp: on_handles_def fail_def on_files_def halts_def split: option.split)

lemma on_files_read:
  assumes "on_files c m"
  shows "on_files c (snd (plain_read io a m))"
proof -
  have g: "on_files c n" if "input_getc m = (b, n)" for b n using on_files_getc[OF that] assms by simp
  have r: "on_files c (input_rewind n) = on_files c n" "on_files c (n\<lparr>emu_done := v\<rparr>) = on_files c n"
    "on_files c (n\<lparr>pushback := w\<rparr>) = on_files c n" for n :: "('a, 'b) plain_scheme" and v w
    by (simp_all add: input_rewind_def on_files_def)
  have k: "on_files c (snd (con_read t m))" for t
    using assms key_ends[OF assms, of t "pushback m"] on_files_byte[OF assms]
    by (auto simp: con_read_def fail_def on_files_def)
  have y: "on_files c (snd (con_ready t m))" for t
    using assms by (auto simp: con_ready_def fail_def on_files_def end_pace_pause_def Let_def)
  show ?thesis
    unfolding plain_read_def plain_port_read_def argv_def
    by (intro on_files_if)
      (use assms g k y on_files_wait[OF assms] on_files_handles[OF assms] in
        \<open>auto simp: fail_def r split: option.split prod.split, (auto simp: on_files_def)?\<close>)
qed

lemma on_files_write:
  assumes "on_files c m"
  shows "on_files c (plain_write a v m)"
proof -
  have w: "on_files c (fold con_write_byte bs n) = on_files c n" for bs and n :: "('a, 'b) plain_scheme"
    by (induction bs arbitrary: n) (simp_all add: con_write_byte_def on_files_def)
  have b: "on_files c (con_write_byte v n) = on_files c n" for n :: "('a, 'b) plain_scheme"
    using w[of "[v]"] by simp
  show ?thesis
    using assms on_files_handles[OF assms] w[of _ m] b[of m]
    by (simp add: plain_write_def plain_port_write_def fail_def)
      (auto simp: on_files_def write_error_byte_def)
qed

interpretation on_files: host_invariant "plain_hooks io" "on_files c"
  by unfold_locales
    (use on_files_read on_files_write in \<open>auto simp: host_read_def host_write_def plain_hooks_def split: prod.split\<close>)

section \<open>The run\<close>

definition runs_on_files :: "'d plain_io \<Rightarrow> ('d, 'z) plain_scheme cpu \<Rightarrow> bool" where
  "runs_on_files io s \<longleftrightarrow> host_kept (plain_hooks io) (\<lambda>m. on_files (clock m) m) s"

lemma plain_step_files:
  assumes "runs_on_files io s"
  shows "runs_on_files io (plain_step s)" "cycles_moved (clockticks6502 s) (clockticks6502 (plain_step s))"
proof -
  let ?s = "s\<lparr>cpu_host := plain_synced s\<rparr>" let ?c = "clockticks6502 s"
  have "host_kept (plain_hooks io) (on_files ?c) ?s"
    using assms by (simp add: runs_on_files_def host_kept_def on_files_def plain_synced_def)
  then have k: "host_kept (plain_hooks io) (on_files ?c) (step6502 ?s)" by (rule on_files.kept_step)
  then have c: "clock (cpu_host (step6502 ?s)) = ?c" by (simp add: host_kept_def on_files_def)
  show "runs_on_files io (plain_step s)"
    using k by (simp add: plain_step_def Let_def runs_on_files_def host_kept_def on_files_def)
  show "cycles_moved ?c (clockticks6502 (plain_step s))"
    using step6502_cycles[of ?s] c by (simp add: plain_step_def Let_def)
qed

definition run_result :: "u64 \<Rightarrow> outcome \<Rightarrow> ('d, 'z) plain_scheme cpu \<Rightarrow> bool" where
  "run_result cap r t \<longleftrightarrow> plain_halt (cpu_host t) \<noteq> Some Hangs \<and> unat (clockticks6502 t) \<le> unat cap + 11 \<and>
     (case r of Ended \<Rightarrow> emu_done (cpu_host t) \<or> (\<exists>c. plain_halt (cpu_host t) = Some (Exits c)) | Timed_out \<Rightarrow> cap < clockticks6502 t)"

lemma plain_run_returns:
  assumes "runs_on_files io s" "clockticks6502 s \<le> cap" "unat cap + 11 < 2 ^ 64"
  shows "\<exists>r t. plain_run cap s = Some (r, t) \<and> run_result cap r t"
  using assms
proof (induction "unat cap - unat (clockticks6502 s)" arbitrary: s rule: less_induct)
  case less
  have nh: "plain_halt (cpu_host s) \<noteq> Some Hangs" using less.prems(1) by (simp add: runs_on_files_def host_kept_def on_files_def)
  note n = plain_step_files[OF less.prems(1)]
  have l: "unat (clockticks6502 s) \<le> unat cap" using less.prems(2) by (simp add: word_le_nat_alt)
  then have m: "unat (clockticks6502 s) < unat (clockticks6502 (plain_step s))"
    "unat (clockticks6502 (plain_step s)) \<le> unat cap + 11"
    using cycles_moved_unat[OF n(2)] less.prems(3) by linarith+
  have f: "\<not> console_mode (cpu_host (plain_step s))" "\<not> terminal_mode (cpu_host (plain_step s))"
    "plain_halt (cpu_host (plain_step s)) \<noteq> Some Hangs"
    using n(1) by (simp_all add: runs_on_files_def host_kept_def on_files_def)
  note step = plain_run.simps[of cap s, unfolded Let_def]
  consider "emu_done (cpu_host s)" | "\<not> emu_done (cpu_host s)" "plain_halt (cpu_host (plain_step s)) \<noteq> None"
    | "\<not> emu_done (cpu_host s)" "plain_halt (cpu_host (plain_step s)) = None" "cap < clockticks6502 (plain_step s)"
    | "\<not> emu_done (cpu_host s)" "plain_halt (cpu_host (plain_step s)) = None" "clockticks6502 (plain_step s) \<le> cap"
    by fastforce
  then show ?case
  proof cases
    case 1
    then show ?thesis using step nh l by (simp add: run_result_def)
  next
    case 2
    then obtain h where h: "plain_halt (cpu_host (plain_step s)) = Some h" by blast
    then have "\<exists>c. h = Exits c" using f(3) by (cases h) simp_all
    then show ?thesis using step 2(1) h f m by (simp add: run_result_def)
  next
    case 3
    then show ?thesis using step f m by (simp add: run_result_def)
  next
    case 4
    have "unat cap - unat (clockticks6502 (plain_step s)) < unat cap - unat (clockticks6502 s)"
      using m(1) 4(3) by (simp add: word_le_nat_alt)
    from less.hyps[OF this n(1) 4(3) less.prems(3)] show ?thesis using step 4 by (simp add: leD)
  qed
qed

text \<open>
  Property C7: a run on files ends. Whatever program is loaded, whatever the input, the run stops:
  the program has ended (a BRK without a handler, the exit call), an access has ended it with an
  exit code, or the cap is passed, by at most one instruction; no access waits for ever.
\<close>

theorem plain_run_ends:
  assumes "plain_start io strict program address args m = Inr s" "\<not> console_mode m" "\<not> terminal_mode m" "plain_halt m = None"
    and "unat cap + 11 < 2 ^ 64"
  shows "\<exists>r t. plain_run cap s = Some (r, t) \<and> run_result cap r t"
proof -
  obtain as mem where s: "s = reset6502 (power_on (plain_hooks io) (m\<lparr>memory := mem, arg_addresses := as\<rparr>))"
    using assms(1) by (auto simp: plain_start_def split: sum.splits)
  let ?c = "clock m"
  have "host_kept (plain_hooks io) (on_files ?c) (power_on (plain_hooks io) (m\<lparr>memory := mem, arg_addresses := as\<rparr>))"
    using assms(2-4) by (simp add: host_kept_def power_on_def on_files_def)
  then have "host_kept (plain_hooks io) (on_files ?c) s" unfolding s by (rule on_files.kept_calls(1))
  then have "runs_on_files io s" by (simp add: runs_on_files_def host_kept_def on_files_def)
  moreover have "clockticks6502 s = 0" by (simp add: s reset6502_def power_on_def cpu_frame Let_def split_def)
  ultimately show ?thesis using plain_run_returns[of io s cap] assms(5) by simp
qed

text \<open>A run of a program of two bytes on an empty input.\<close>

definition some_plain :: "unit plain" where
  "some_plain = \<lparr>clock = 0, serial_baud = 0, serial_cycles_per_byte = 0, serial_rx = \<lparr>ring_buf = \<lambda>i. 0, ring_head = 0, ring_tail = 0\<rparr>,
     serial_rx_next_fill_at = 0, serial_tx = \<lparr>ring_buf = \<lambda>i. 0, ring_head = 0, ring_tail = 0\<rparr>, serial_tx_next_drain_at = 0,
     serial_pace_mask = None, serial_fill_index = 0, serial_pace_hold = False, serial_pace_waited = False,
     serial_inject_pos = 0, terminal_mode = False, terminal_interactive = False, serial_input = None,
     serial_has_output = False, serial_sent = [], screen = None, stdin = (), emu_done = False, exitcode_set = None,
     memory = \<lambda>a. 0, reg_a = 0, reg_x = 0, reg_y = 0,
     handles = \<lparr>io_files = \<lambda>h. None, io_dirs = \<lambda>h. None, io_disk = \<lparr>disk_files = \<lambda>n. None, disk_creatable = \<lambda>n. False\<rparr>\<rparr>,
     console_mode = False, direct_io = False, scr_a = 0, pushback = [], con_eof_flag = False, wait_ms = 0,
     pace_mask = None, pace_in = 0, pace_polls = 2000, pace_remaining = 0, pace_log = None, con_out = [], err_out = [],
     err_captured = False, error_output_started = False, arg_addresses = [], term_size = (24, 80), plain_halt = None\<rparr>"

definition some_io :: "unit plain_io" where
  "some_io = \<lparr>the_terminal = no_terminal, scandir = \<lambda>n d. None\<rparr>"

lemma some_start: "\<exists>s. plain_start some_io True [0x00, 0x00] 0x0200 [] some_plain = Inr s"
  by (simp add: plain_start_def plain_memory_def plain_load_program_def split_def)

theorem plain_run_witness:
  "\<exists>s r t. plain_start some_io True [0x00, 0x00] 0x0200 [] some_plain = Inr s \<and> plain_run 30000000 s = Some (r, t) \<and> run_result 30000000 r t"
proof -
  obtain s where s: "plain_start some_io True [0x00, 0x00] 0x0200 [] some_plain = Inr s" using some_start by blast
  show ?thesis using plain_run_ends[OF s, of 30000000] s by (simp add: some_plain_def)
qed

end
