(* ===== verification/Plain_Loading.thy ===== *)
theory Plain_Loading imports Stub_Code Plain_Run
begin

text \<open>
  What the loader leaves in memory: the program, its entry point, and the arguments a program finds
  through \<open>argc\<close> and \<open>argv\<close>.
\<close>

lemma word_of_int_u16: "0 \<le> a \<Longrightarrow> a < 0x10000 \<Longrightarrow> uint (word_of_int a :: u16) = a"
  by (simp add: unsigned_of_int take_bit_int_eq_self)

lemma word_of_int_other: "0 \<le> a \<Longrightarrow> a < 0x10000 \<Longrightarrow> 0 \<le> b \<Longrightarrow> b < 0x10000 \<Longrightarrow> (word_of_int a :: u16) = word_of_int b \<longleftrightarrow> a = b"
  using word_of_int_u16 by metis

section \<open>The program\<close>

lemma loaded_bytes:
  assumes "plain_load_bytes i bs m = Inr (e, n)" "0 \<le> i" "i \<le> 0x10000"
  shows "e = i + int (length bs) \<and> e \<le> 0x10000 \<and> (\<forall>k<length bs. n (word_of_int (i + int k)) = bs ! k) \<and>
    (\<forall>a. 0 \<le> a \<and> a < i \<longrightarrow> n (word_of_int a) = m (word_of_int a))"
  using assms
proof (induction i bs m rule: plain_load_bytes.induct)
  case (2 i b bs m)
  then have i: "i \<le> 0xFFFF" "plain_load_bytes (i + 1) bs (m(word_of_int i := b)) = Inr (e, n)" by (auto split: if_splits)
  have IH: "e = i + 1 + int (length bs)" "e \<le> 0x10000" "\<forall>k<length bs. n (word_of_int (i + 1 + int k)) = bs ! k"
    "\<forall>a. 0 \<le> a \<and> a < i + 1 \<longrightarrow> n (word_of_int a) = (m(word_of_int i := b)) (word_of_int a)"
    using 2(1)[OF _ i(2)] i(1) 2(3) by auto
  have "n (word_of_int (i + int k)) = (b # bs) ! k" if "k < length (b # bs)" for k
    using IH(3,4) that 2(3) by (cases k) (auto simp: algebra_simps)
  moreover have "n (word_of_int a) = m (word_of_int a)" if "0 \<le> a" "a < i" for a
    using IH(4) that i(1) word_of_int_other[of a i] by simp
  ultimately show ?case using IH(1,2) by simp
qed auto

lemma stub_bytes_between: "a < 0xF006 \<Longrightarrow> stub_byte (generate_stubs t d s) a = None"
proof -
  assume a: "a < 0xF006"
  have p: "0xF006 + 3 * int (length (stub_routines t d s)) \<le> snd (stubs_tails d s)"
    using scratch_bounds(1)[of d] by (simp add: stubs_tails_snd)
  have "stub_byte (generate_stubs t d s) a = stub_byte (emit_routines False 0xF006 (stub_routines t d s) (stubs_tails d s)) a"
    using a p by (intro generate_stubs_byte) (simp_all add: slot_of_def)
  also have "\<dots> = stub_byte (stubs_tails d s) a"
    using emit_routines_keeps[OF p, of False a] a p by (simp add: slot_of_def)
  also have "\<dots> = stub_byte (emit_vectors 20 ([], 0xF006)) a"
    using stubs_tails_below[of a d s] a by (simp add: stubs_vectors_def) (simp add: stub_byte_def)
  also have "\<dots> = None" using stub_byte_vectors[of 20 "([], 0xF006)" a] a by (simp add: stub_byte_def)
  finally show ?thesis .
qed

lemma emit_routines_above:
  "vec + 3 * int (length rs) \<le> snd c \<Longrightarrow> snd c + int (length (concat rs)) \<le> a \<Longrightarrow>
   stub_byte (emit_routines jumps vec rs c) a = stub_byte c a"
proof (induction rs arbitrary: vec c)
  case (Cons r rs)
  define d where "d = emit r (fill_address (vec + 1) (if jumps then put_code vec 0x4C c else c))"
  have s: "snd d = snd c + int (length r)" by (simp add: d_def)
  have "stub_byte d a = stub_byte c a" using Cons.prems by (simp add: d_def stub_byte_emit stub_byte_fill stub_byte_put)
  then show ?case using Cons.IH[of "vec + 3" d] Cons.prems s by (simp add: d_def)
qed simp

text \<open>Where the stubs end: what \<open>generate_stubs\<close> returns.\<close>

definition stubs_end :: "bool \<Rightarrow> bool \<Rightarrow> bool \<Rightarrow> int" where
  "stubs_end t d s = snd (generate_stubs t d s)"

lemma stubs_end_eq:
  "stubs_end t d s = snd (stubs_tails d s) + int (length (concat (stub_routines t d s))) +
     (if d then int (length (concat (screen_routines True s))) else 0)"
proof -
  define c where "c = emit_routines False 0xF006 (stub_routines t d s) (stubs_tails d s)"
  have "0xF006 + 3 * int (length (stub_routines t d s)) \<le> snd (stubs_tails d s)"
    using scratch_bounds(1)[of d] by (simp add: stubs_tails_snd)
  then have c: "snd c = snd (stubs_tails d s) + int (length (concat (stub_routines t d s)))"
    using emit_routines_keeps by (simp add: c_def)
  show ?thesis
  proof (cases d)
    case True
    then have "0xF042 + 3 * int (length (screen_routines True s)) \<le> snd c"
      using c scratch_bounds(2)[OF True] by (simp add: stubs_tails_snd)
    then show ?thesis using c True emit_routines_keeps by (simp add: stubs_end_def generate_stubs_eq Let_def c_def)
  qed (use c in \<open>simp add: stubs_end_def generate_stubs_eq Let_def c_def\<close>)
qed

lemma stubs_end_bounds: "0xF042 \<le> stubs_end t d s" "stubs_end t d s \<le> 0xFE00"
proof -
  have z: "0xF042 \<le> stub_scratch d" "stub_scratch d \<le> 0xF06F" using scratch_bounds(1,3)[of d] by simp_all
  have l: "snd (stubs_tails d s) \<le> 0xF06F + 40" "stub_scratch d \<le> snd (stubs_tails d s)" using z by (simp_all add: stubs_tails_snd)
  have "0 \<le> (if d then int (length (concat (screen_routines True s))) else 0)"
    "(if d then int (length (concat (screen_routines True s))) else 0) \<le> int (length (concat (screen_routines True s)))" by simp_all
  then show "0xF042 \<le> stubs_end t d s" "stubs_end t d s \<le> 0xFE00"
    using z l length_code(1)[of t d s] length_code(2)[of True s] unfolding stubs_end_eq by linarith+
qed

lemma stub_bytes_above:
  assumes "stubs_end t d s \<le> a"
  shows "stub_byte (generate_stubs t d s) a = None"
proof -
  define c where "c = emit_routines False 0xF006 (stub_routines t d s) (stubs_tails d s)"
  have z: "0xF042 \<le> stub_scratch d" using scratch_bounds(1)[of d] by simp
  have p: "0xF006 + 3 * int (length (stub_routines t d s)) \<le> snd (stubs_tails d s)" using z by (simp add: stubs_tails_snd)
  have sc: "snd c = snd (stubs_tails d s) + int (length (concat (stub_routines t d s)))"
    using emit_routines_keeps[OF p, of False] by (simp add: c_def)
  have a: "snd c + (if d then int (length (concat (screen_routines True s))) else 0) \<le> a"
    using assms sc by (simp add: stubs_end_eq)
  then have ca: "snd c \<le> a" by (simp split: if_splits)
  then have ta: "stub_scratch d + (if s then 40 else 0) \<le> a" using sc by (simp add: stubs_tails_snd)
  have "stub_byte (stubs_vectors d) a = None"
    using stub_byte_vectors[of 20 "([], 0xF006)" a] ta z by (auto simp: stubs_vectors_def stub_byte_def split: if_splits)
  moreover have "snd (stubs_vectors d) = stub_scratch d" by (simp add: stubs_vectors_def)
  moreover have "stub_byte (fst v, snd v + 1) a = stub_byte v a" for v :: code by (simp add: stub_byte_def)
  ultimately have v: "stub_byte (stubs_tails d s) a = None"
    using ta z unfolding stubs_tails_def emit_tails_eq[of "stubs_vectors d"]
    by (simp add: stub_byte_emit split: if_splits) (metis)
  then have e: "stub_byte c a = None" using emit_routines_above[OF p, of a False] ca sc by (simp add: c_def)
  show ?thesis
  proof (cases d)
    case True
    then have q: "0xF042 + 3 * int (length (screen_routines True s)) \<le> snd c"
      using sc scratch_bounds(2)[OF True] by (simp add: stubs_tails_snd)
    show ?thesis using emit_routines_above[OF q, of a True] e a True by (simp add: generate_stubs_eq c_def Let_def)
  next
    case False
    then show ?thesis using e by (simp add: generate_stubs_eq c_def Let_def)
  qed
qed

section \<open>The arguments\<close>

lemma put_string_end: "put_string p bs m = Inr (q, n) \<Longrightarrow> q = p + int (length bs)"
proof (induction bs arbitrary: p m)
  case (Cons b bs)
  then obtain m' where "put_string (p + 1) bs m' = Inr (q, n)" by (auto split: if_splits)
  from Cons.IH[OF this] show ?case by simp
qed simp

lemma put_string_bytes:
  assumes "put_string p bs m = Inr (q, n)" "0 \<le> p" "p + int (length bs) \<le> 0x10000"
  shows "(\<forall>j<length bs. n (word_of_int (p + int j)) = bs ! j) \<and>
    (\<forall>a. 0 \<le> a \<and> a < 0x10000 \<and> \<not> (p \<le> a \<and> a < q) \<longrightarrow> n (word_of_int a) = m (word_of_int a))"
  using assms
proof (induction bs arbitrary: p m)
  case (Cons b bs)
  define m' where "m' = m(word_of_int p := b)"
  have p: "p < 0x10000" "0 \<le> p + 1" "p + 1 + int (length bs) \<le> 0x10000" using Cons.prems by simp_all
  then have e: "put_string (p + 1) bs m' = Inr (q, n)" using Cons.prems(1) by (simp add: m'_def)
  note IH = Cons.IH[OF e p(2,3)]
  have q: "p < q" using put_string_end[OF Cons.prems(1)] by simp
  have b: "n (word_of_int p) = m' (word_of_int p)" using IH p(1) Cons.prems(2) by simp
  have "n (word_of_int (p + int j)) = (b # bs) ! j" if "j < length (b # bs)" for j
  proof (cases j)
    case 0
    then show ?thesis using b by (simp add: m'_def)
  next
    case (Suc k)
    then have "n (word_of_int (p + 1 + int k)) = bs ! k" using IH that by simp
    moreover have e: "p + 1 + int k = p + int j" using Suc by simp
    ultimately show ?thesis unfolding e using Suc by (simp del: of_int_add of_nat_Suc)
  qed
  moreover have "n (word_of_int a) = m (word_of_int a)" if "0 \<le> a" "a < 0x10000" "\<not> (p \<le> a \<and> a < q)" for a
  proof -
    have "word_of_int a \<noteq> (word_of_int p :: u16)" using that p(1) q Cons.prems(2) word_of_int_other[of a p] by auto
    then show ?thesis using IH that by (simp add: m'_def)
  qed
  ultimately show ?case by blast
qed simp

text \<open>A list of strings at addresses, one after another in the window for them.\<close>

fun strings_at :: "(u16 \<Rightarrow> u8) \<Rightarrow> u16 list \<Rightarrow> u8 list list \<Rightarrow> bool" where
  "strings_at m (a # as) (s # ss) \<longleftrightarrow>
     0xFE00 \<le> a \<and> (\<forall>j<length (s @ [0]). m (a + of_nat j) = (s @ [0]) ! j) \<and> strings_at m as ss"
| "strings_at m [] [] \<longleftrightarrow> True"
| "strings_at m _ _ \<longleftrightarrow> False"

definition args_size :: "u8 list list \<Rightarrow> int" where
  "args_size ss = sum_list (map (\<lambda>s. int (length s) + 1) ss)"

lemma args_size_simps [simp]: "args_size [] = 0" "args_size (s # ss) = int (length s) + 1 + args_size ss"
  by (simp_all add: args_size_def)

lemma args_size_positive: "0 \<le> args_size ss"
  by (induction ss) simp_all

lemma put_args_strings:
  assumes "put_args p ss m = Inr (as, n)" "0xFE00 \<le> p" "p \<le> 0xFFE0"
  shows "strings_at n as ss \<and> p + args_size ss \<le> 0xFFE0 \<and>
    (\<forall>a. 0 \<le> a \<and> a < 0x10000 \<and> (a < p \<or> p + args_size ss \<le> a) \<longrightarrow> n (word_of_int a) = m (word_of_int a))"
  using assms
proof (induction p ss m arbitrary: as rule: put_args.induct)
  case (2 p s ss m)
  obtain q m' where q: "put_string p (s @ [0]) m = Inr (q, m')" using 2(2) by (auto split: sum.splits)
  have t: "\<not> q > ARGV_TOP" using 2(2) q by (auto split: if_splits)
  obtain bs where bs: "put_args q ss m' = Inr (bs, n)" "as = word_of_int p # bs"
    using 2(2) q t by (cases "put_args q ss m'") auto
  have qb: "q = p + int (length (s @ [0]))" "q \<le> 0xFFE0" using put_string_end[OF q] t by (simp_all add: ARGV_TOP_def)
  have b: "(\<forall>j<length (s @ [0]). m' (word_of_int (p + int j)) = (s @ [0]) ! j) \<and>
    (\<forall>a. 0 \<le> a \<and> a < 0x10000 \<and> \<not> (p \<le> a \<and> a < q) \<longrightarrow> m' (word_of_int a) = m (word_of_int a))"
    by (rule put_string_bytes[OF q]) (use qb 2(3) in linarith)+
  have IH: "strings_at n bs ss \<and> q + args_size ss \<le> 0xFFE0 \<and>
      (\<forall>a. 0 \<le> a \<and> a < 0x10000 \<and> (a < q \<or> q + args_size ss \<le> a) \<longrightarrow> n (word_of_int a) = m' (word_of_int a))"
    using 2(1)[OF q refl t bs(1)] qb 2(3) by simp
  have "n (word_of_int p + of_nat j) = (s @ [0]) ! j" if "j < length (s @ [0])" for j
  proof -
    have a: "0 \<le> p + int j \<and> p + int j < 0x10000 \<and> p + int j < q" using that qb 2(3) by simp
    then have "n (word_of_int (p + int j)) = m' (word_of_int (p + int j))" using IH by blast
    moreover have "m' (word_of_int (p + int j)) = (s @ [0]) ! j" using b that by blast
    ultimately show ?thesis by simp
  qed
  moreover have "0xFE00 \<le> (word_of_int p :: u16)" using word_of_int_u16[of p] 2(3,4) by (simp add: word_le_def)
  moreover have "n (word_of_int a) = m (word_of_int a)" if a: "0 \<le> a" "a < 0x10000" "a < p \<or> p + args_size (s # ss) \<le> a" for a
  proof -
    have "a < q \<or> q + args_size ss \<le> a" "\<not> (p \<le> a \<and> a < q)" using a(3) qb args_size_positive[of ss] by auto
    then show ?thesis using IH b a(1,2) by metis
  qed
  ultimately show ?case using IH bs(2) qb(1) by simp
qed simp

text \<open>
  Property C33: the program and its arguments are in memory. Every byte of the program is where the load
  address, or the end of memory, has it, but for those that lie where the stubs are (from 0xF006 to the end
  that \<open>generate_stubs\<close> returns, at most 0xFE00) or where the arguments are (from 0xFE00 on, their lengths
  with a NUL each, at most to 0xFFE0), and for the two bytes of the reset vector when the program ends before
  0xFFFE; then the last two bytes of a program of at least two are the vector. Each argument is at the address \<open>argv\<close> has, followed by a NUL.
\<close>

theorem plain_program_loaded:
  fixes program :: "u8 list" and address base size :: int
  assumes "plain_memory t d s program address args = Inr (as, m)"
  defines "size \<equiv> int (length program)" and "base \<equiv> if address < 0 then 0x10000 - int (length program) else address"
  shows "(\<forall>k<length program. let a = base + int k in
      (a < 0xF006 \<or> stubs_end t d s \<le> a) \<and> (a < 0xFE00 \<or> 0xFE00 + args_size args \<le> a) \<and>
      (base + size < 0xFFFE \<longrightarrow> a \<noteq> 0xFFFC \<and> a \<noteq> 0xFFFD) \<longrightarrow> m (word_of_int a) = program ! k) \<and>
    stubs_end t d s \<le> 0xFE00 \<and> 0xFE00 + args_size args \<le> 0xFFE0 \<and>
    (2 \<le> size \<and> base + size < 0xFFFE \<longrightarrow> m 0xFFFC = program ! (length program - 2) \<and> m 0xFFFD = program ! (length program - 1)) \<and>
    strings_at m as args"
proof -
  obtain m0 where m0: "plain_load_program program address = Inr m0"
    "put_args ARGV_BASE args (memory_after m0 (generate_stubs t d s)) = Inr (as, m)"
    using assms(1) by (auto simp: plain_memory_def split: sum.splits)
  obtain e n where n: "plain_load_bytes base program (\<lambda>_. 0) = Inr (e, n)"
    using m0(1) by (auto simp: plain_load_program_def Let_def base_def split: if_splits sum.splits)
  have b: "0 \<le> base" using m0(1) by (auto simp: plain_load_program_def Let_def base_def split: if_splits)
  define v where "v = (if e < 0xFFFE then (n(0xFFFD := n (word_of_int (e - 1))))(0xFFFC := n (word_of_int (e - 2))) else n)"
  have v: "m0 = v" using m0(1) n by (auto simp: plain_load_program_def Let_def base_def v_def split: if_splits)
  have "strings_at m as args \<and> ARGV_BASE + args_size args \<le> 0xFFE0 \<and> (\<forall>a. 0 \<le> a \<and> a < 0x10000 \<and>
      (a < ARGV_BASE \<or> ARGV_BASE + args_size args \<le> a) \<longrightarrow>
      m (word_of_int a) = memory_after m0 (generate_stubs t d s) (word_of_int a))"
    by (rule put_args_strings[OF m0(2)]) (simp_all add: ARGV_BASE_def)
  then have as: "strings_at m as args" "0xFE00 + args_size args \<le> 0xFFE0"
    and frame: "0 \<le> a \<Longrightarrow> a < 0x10000 \<Longrightarrow> a < 0xFE00 \<or> 0xFE00 + args_size args \<le> a \<Longrightarrow>
      m (word_of_int a) = memory_after m0 (generate_stubs t d s) (word_of_int a)" for a
    by (simp_all add: ARGV_BASE_def)
  have keep: "m (word_of_int a) = v (word_of_int a)" if a: "0 \<le> a" "a < 0x10000" "a < 0xF006 \<or> stubs_end t d s \<le> a" "a < 0xFE00 \<or> 0xFE00 + args_size args \<le> a" for a
  proof -
    have "m (word_of_int a) = memory_after m0 (generate_stubs t d s) (word_of_int a)" by (rule frame[OF a(1,2,4)])
    also have "stub_byte (generate_stubs t d s) a = None"
      using a(3) stub_bytes_between[where a = a and t = t and d = d and s = s] stub_bytes_above[of t d s a] by blast
    then have "memory_after m0 (generate_stubs t d s) (word_of_int a) = m0 (word_of_int a)"
      using word_of_int_u16[OF a(1,2)] by (simp add: memory_after_def stub_byte_def)
    finally show ?thesis using v by simp
  qed
  have l: "e = base + size \<and> e \<le> 0x10000 \<and> (\<forall>k<length program. n (word_of_int (base + int k)) = program ! k)" if "program \<noteq> []"
  proof -
    have "base \<le> 0x10000" using n that by (cases program) (auto split: if_splits)
    then show ?thesis using loaded_bytes[OF n b] by (simp add: size_def)
  qed
  have "m (word_of_int a) = program ! k"
    if k: "k < length program" "a = base + int k" "a < 0xF006 \<or> stubs_end t d s \<le> a" "a < 0xFE00 \<or> 0xFE00 + args_size args \<le> a"
      "base + size < 0xFFFE \<longrightarrow> a \<noteq> 0xFFFC \<and> a \<noteq> 0xFFFD" for k a
  proof -
    have p: "program \<noteq> []" using k(1) by auto
    have a: "0 \<le> a" "a < 0x10000" using l[OF p] k(1,2) b by (auto simp: size_def)
    have w: "(word_of_int a :: u16) \<noteq> 0xFFFC" "(word_of_int a :: u16) \<noteq> 0xFFFD" if "e < 0xFFFE"
      using word_of_int_other[OF a, where b = "0xFFFC"] word_of_int_other[OF a, where b = "0xFFFD"] k(5) that l[OF p] by auto
    have "m (word_of_int a) = v (word_of_int a)" using keep[OF a k(3,4)] .
    also have "\<dots> = n (word_of_int a)" using w by (simp add: v_def)
    finally show ?thesis using l[OF p] k(1,2) by simp
  qed
  then have "\<forall>k<length program. let a = base + int k in
      (a < 0xF006 \<or> stubs_end t d s \<le> a) \<and> (a < 0xFE00 \<or> 0xFE00 + args_size args \<le> a) \<and>
      (base + size < 0xFFFE \<longrightarrow> a \<noteq> 0xFFFC \<and> a \<noteq> 0xFFFD) \<longrightarrow> m (word_of_int a) = program ! k"
    by (simp add: Let_def)
  moreover have "m 0xFFFC = program ! (length program - 2) \<and> m 0xFFFD = program ! (length program - 1)"
    if z: "2 \<le> size" "base + size < 0xFFFE"
  proof -
    have p: "program \<noteq> []" using z(1) by (auto simp: size_def)
    have e: "e < 0xFFFE" "e - 1 = base + int (length program - 1)" "e - 2 = base + int (length program - 2)"
      using l[OF p] z by (simp_all add: size_def)
    have "v 0xFFFC = n (word_of_int (e - 2))" "v 0xFFFD = n (word_of_int (e - 1))" using e(1) by (simp_all add: v_def)
    moreover have "m 0xFFFC = v 0xFFFC" "m 0xFFFD = v 0xFFFD" using keep[of "0xFFFC"] keep[of "0xFFFD"] as(2) stubs_end_bounds(2)[of t d s] by simp_all
    moreover have "n (word_of_int (base + int k)) = program ! k" if "k < length program" for k using l[OF p] that by blast
    moreover have "length program - 2 < length program" "length program - 1 < length program" using p by simp_all
    ultimately show ?thesis unfolding e(2,3) by metis
  qed
  ultimately show ?thesis using as stubs_end_bounds(2)[of t d s] by simp
qed

theorem plain_program_witness:
  "\<exists>as m. plain_memory False False True [0xA9, 0x41, 0x00, 0x02] 0x0200 [[0x61, 0x62], []] = Inr (as, m) \<and>
    m 0x0201 = 0x41 \<and> m 0xFFFC = 0x00 \<and> m 0xFFFD = 0x02 \<and> strings_at m as [[0x61, 0x62], []]"
proof -
  obtain as m where m: "plain_memory False False True [0xA9, 0x41, 0x00, 0x02] 0x0200 [[0x61, 0x62], []] = Inr (as, m)"
    by (simp add: plain_memory_def plain_load_program_def ARGV_BASE_def ARGV_TOP_def)
  note p = plain_program_loaded[OF m]
  then have "m 0x0201 = 0x41" by (auto dest: spec[of _ 1] simp: Let_def)
  then show ?thesis using p m by simp
qed

end
