(* ===== verification/Stub_Calls.thy ===== *)
theory Stub_Calls imports Plain_Run
begin

text \<open>
  The contract of the jump table: from a call, the CPU comes back with exactly the registers, the
  status and the memory that the accesses of the call and its return make.
\<close>

declare bytes_at.simps [simp del]

section \<open>Accesses that may end the program\<close>

definition stops :: "(('d, 'z) plain_scheme cpu \<Rightarrow> bool) \<Rightarrow> bool" where
  "stops Q \<longleftrightarrow> (\<forall>u. plain_halt (cpu_host u) \<noteq> None \<longrightarrow> Q u)"

lemma reaches_stopped:
  assumes "stops Q" "plain_halt h \<noteq> None"
  shows "reaches io r h Q"
  using assms by (intro reaches_now) (auto simp: stops_def cpu_at_def)

lemma address_bytes: "word_of (to8 (v AND 0xFF)) (to8 (drop_bit 8 v)) = v"
proof -
  have "(0xFF :: u16) = mask 8" by (simp add: mask_eq_exp_minus_1)
  then show ?thesis unfolding \<open>0xFF = mask 8\<close> by (intro bit_word_eqI) (auto simp: bit_simps)
qed

lemma read_kept: "plain_read io a (tuned c x y z h) = (v, h') \<Longrightarrow> memory h' = memory h"
  using plain_read_memory[of io a "tuned c x y z h"] by simp

lemma port_lda:
  assumes "stops Q" "plain_halt h = None" "code_at h r (on_port 0xAD port)"
    and "\<And>c v h'. plain_read io port (tuned c (r_a r) (r_x r) (r_y r) h) = (v, h') \<Longrightarrow> plain_halt h' = None \<Longrightarrow>
      memory h' = memory h \<Longrightarrow> reaches io (r\<lparr>r_pc := r_pc r + 3, r_a := v, r_p := nz v (r_p r OR 0x20)\<rparr>) h' Q"
  shows "reaches io r h Q"
proof (rule reaches_lda[OF assms(2)])
  show "code_at h r [0xAD, to8 (port AND 0xFF), to8 (drop_bit 8 port)]"
    using assms(3) by (simp add: on_port_def emit_address_def)
qed (use assms(4) reaches_stopped[OF assms(1)] read_kept in \<open>unfold address_bytes, blast\<close>)

lemma port_ldx:
  assumes "stops Q" "plain_halt h = None" "code_at h r (on_port 0xAE port)"
    and "\<And>c v h'. plain_read io port (tuned c (r_a r) (r_x r) (r_y r) h) = (v, h') \<Longrightarrow> plain_halt h' = None \<Longrightarrow>
      memory h' = memory h \<Longrightarrow> reaches io (r\<lparr>r_pc := r_pc r + 3, r_x := v, r_p := nz v (r_p r OR 0x20)\<rparr>) h' Q"
  shows "reaches io r h Q"
proof (rule reaches_ldx[OF assms(2)])
  show "code_at h r [0xAE, to8 (port AND 0xFF), to8 (drop_bit 8 port)]"
    using assms(3) by (simp add: on_port_def emit_address_def)
qed (use assms(4) reaches_stopped[OF assms(1)] read_kept in \<open>unfold address_bytes, blast\<close>)

lemma port_bit:
  assumes "stops Q" "plain_halt h = None" "code_at h r (on_port 0x2C port)"
    and "\<And>c v h'. plain_read io port (tuned c (r_a r) (r_x r) (r_y r) h) = (v, h') \<Longrightarrow> plain_halt h' = None \<Longrightarrow>
      memory h' = memory h \<Longrightarrow>
      reaches io (r\<lparr>r_pc := r_pc r + 3, r_p := (put_flag 0x02 (r_a r AND v = 0) (r_p r OR 0x20) AND 0x3F) OR (v AND 0xC0)\<rparr>) h' Q"
  shows "reaches io r h Q"
proof (rule reaches_bit[OF assms(2)])
  show "code_at h r [0x2C, to8 (port AND 0xFF), to8 (drop_bit 8 port)]"
    using assms(3) by (simp add: on_port_def emit_address_def)
qed (use assms(4) reaches_stopped[OF assms(1)] read_kept in \<open>unfold address_bytes, blast\<close>)

lemma port_sta:
  assumes "stops Q" "plain_halt h = None" "code_at h r (on_port 0x8D port)" "port \<in> set write_ports"
    and "\<And>c h'. plain_write port (r_a r) (tuned c (r_a r) (r_x r) (r_y r) h) = h' \<Longrightarrow> plain_halt h' = None \<Longrightarrow>
      memory h' = memory h \<Longrightarrow> reaches io (r\<lparr>r_pc := r_pc r + 3, r_p := r_p r OR 0x20\<rparr>) h' Q"
  shows "reaches io r h Q"
proof (rule reaches_sta[OF assms(2)])
  show "code_at h r [0x8D, to8 (port AND 0xFF), to8 (drop_bit 8 port)]"
    using assms(3) by (simp add: on_port_def emit_address_def)
  fix c
  have "memory (plain_write port (r_a r) (tuned c (r_a r) (r_x r) (r_y r) h)) = memory h"
    by (simp add: plain_write_memory[OF assms(4)])
  then show "reaches io (r\<lparr>r_pc := r_pc r + 3, r_p := r_p r OR 0x20\<rparr>)
      (plain_write (word_of (to8 (port AND 0xFF)) (to8 (drop_bit 8 port))) (r_a r) (tuned c (r_a r) (r_x r) (r_y r) h)) Q"
    unfolding address_bytes using assms(5)[OF refl] reaches_stopped[OF assms(1)] by blast
qed

lemma port_stx:
  assumes "stops Q" "plain_halt h = None" "code_at h r (on_port 0x8E port)" "port \<in> set write_ports"
    and "\<And>c h'. plain_write port (r_x r) (tuned c (r_a r) (r_x r) (r_y r) h) = h' \<Longrightarrow> plain_halt h' = None \<Longrightarrow>
      memory h' = memory h \<Longrightarrow> reaches io (r\<lparr>r_pc := r_pc r + 3, r_p := r_p r OR 0x20\<rparr>) h' Q"
  shows "reaches io r h Q"
proof (rule reaches_stx[OF assms(2)])
  show "code_at h r [0x8E, to8 (port AND 0xFF), to8 (drop_bit 8 port)]"
    using assms(3) by (simp add: on_port_def emit_address_def)
  fix c
  have "memory (plain_write port (r_x r) (tuned c (r_a r) (r_x r) (r_y r) h)) = memory h"
    by (simp add: plain_write_memory[OF assms(4)])
  then show "reaches io (r\<lparr>r_pc := r_pc r + 3, r_p := r_p r OR 0x20\<rparr>)
      (plain_write (word_of (to8 (port AND 0xFF)) (to8 (drop_bit 8 port))) (r_x r) (tuned c (r_a r) (r_x r) (r_y r) h)) Q"
    unfolding address_bytes using assms(5)[OF refl] reaches_stopped[OF assms(1)] by blast
qed

section \<open>Returning\<close>

definition return_flags :: "bool \<Rightarrow> u8 \<Rightarrow> u8 \<Rightarrow> u8" where
  "return_flags s m p = (if s then (((p OR 0x30) XOR m) AND NOT 0x10) OR 0x20 else p OR 0x20)"

definition return_memory :: "bool \<Rightarrow> bool \<Rightarrow> u8 \<Rightarrow> regs \<Rightarrow> (u16 \<Rightarrow> u8) \<Rightarrow> u16 \<Rightarrow> u8" where
  "return_memory d s m r mem =
     (if s then mem(word_of_int (stub_scratch d) := r_a r, slot (r_sp r) := (r_p r OR 0x30) XOR m) else mem)"

abbreviation (input) return_address :: "('d, 'z) plain_scheme \<Rightarrow> regs \<Rightarrow> u16" where
  "return_address h r \<equiv> word_of (memory h (slot (r_sp r + 1))) (memory h (slot (r_sp r + 2))) + 1"

lemma bytes_at_update:
  "x < 0xF006 \<or> x < a \<Longrightarrow> bytes_at m a bs \<Longrightarrow> bytes_at (m(x := v)) a bs"
proof (induction bs arbitrary: a)
  case (Cons b bs)
  have "x < a + 1" if "x < a"
  proof -
    have "unat a < 0xFE00" using Cons.prems(2) by (simp add: bytes_at.simps word_less_nat_alt)
    then show ?thesis using that by (simp add: word_less_nat_alt unat_word_ariths)
  qed
  then have "x < 0xF006 \<or> x < a + 1" "bytes_at m (a + 1) bs" using Cons.prems by (auto simp: bytes_at.simps)
  then have "bytes_at (m(x := v)) (a + 1) bs" by (rule Cons.IH)
  moreover have "(m(x := v)) a = m a" using Cons.prems by (auto simp: bytes_at.simps)
  ultimately show ?case using Cons.prems(2) unfolding bytes_at.simps(2) by metis
qed (simp add: bytes_at.simps)

lemma reaches_tuned: "reaches io r (tuned c a x y h) Q = reaches io r h Q"
  by (simp add: reaches_def cpu_at_def)

lemma slot_below: "slot w < 0xF006"
  using slot_less[of w] by (rule order_less_trans) simp

text \<open>A strict tail is still there once it has written the byte it keeps A in and the one below the stack.\<close>

lemma tail_code:
  assumes "bytes_at mem t (strict_tail z m)" "z < t" "uint t + 13 \<le> 0xFE00"
  shows "bytes_at mem t (0x8D # emit_address z)" "bytes_at (mem(z := a)) (t + 3) [0x08]"
    "bytes_at (mem(z := a, slot sp := v)) (t + 4) [0x68]" "bytes_at (mem(z := a, slot sp := v)) (t + 5) [0x49, m]"
    "bytes_at (mem(z := a, slot sp := v)) (t + 7) [0x48]" "bytes_at (mem(z := a, slot sp := v)) (t + 8) (0xAD # emit_address z)"
    "bytes_at (mem(z := a, slot sp := v)) (t + 11) [0x28]" "bytes_at (mem(z := a, slot sp := v)) (t + 12) [0x60]"
proof -
  have lt: "z < t + of_nat k" if "k < 13" for k
  proof -
    have "uint (of_nat k :: u16) = int k" using that by (simp add: unsigned_of_nat take_bit_nat_eq_self)
    then show ?thesis using assms(2,3) that by (simp add: word_less_def uint_word_ariths)
  qed
  have u1: "bytes_at (mem(z := a)) (t + of_nat k) bs" if "bytes_at mem (t + of_nat k) bs" "k < 13" for k bs
    using bytes_at_update lt that by blast
  have u2: "bytes_at (mem(z := a, slot sp := v)) (t + of_nat k) bs" if "bytes_at mem (t + of_nat k) bs" "k < 13" for k bs
    using bytes_at_update slot_below u1[OF that] by blast
  have e: "emit_address v = [to8 (v AND 0xFF), to8 (drop_bit 8 v)]" for v by (simp add: emit_address_def)
  have c: "bytes_at mem t (0x8D # emit_address z)" "bytes_at mem (t + 3) [0x08]" "bytes_at mem (t + 4) [0x68]"
    "bytes_at mem (t + 5) [0x49, m]" "bytes_at mem (t + 7) [0x48]" "bytes_at mem (t + 8) (0xAD # emit_address z)"
    "bytes_at mem (t + 11) [0x28]" "bytes_at mem (t + 12) [0x60]"
    using assms(1) by (simp_all add: bytes_at.simps strict_tail_def e add.assoc)
  show "bytes_at mem t (0x8D # emit_address z)" by (rule c(1))
  show "bytes_at (mem(z := a)) (t + 3) [0x08]" "bytes_at (mem(z := a, slot sp := v)) (t + 4) [0x68]"
    "bytes_at (mem(z := a, slot sp := v)) (t + 5) [0x49, m]" "bytes_at (mem(z := a, slot sp := v)) (t + 7) [0x48]"
    "bytes_at (mem(z := a, slot sp := v)) (t + 8) (0xAD # emit_address z)"
    "bytes_at (mem(z := a, slot sp := v)) (t + 11) [0x28]" "bytes_at (mem(z := a, slot sp := v)) (t + 12) [0x60]"
    using u1[of 3] u2[of 4] u2[of 5] u2[of 7] u2[of 8] u2[of 11] u2[of 12] c by simp_all
qed

text \<open>The tail, from its last instruction to its first.\<close>

lemma reaches_tail:
  fixes p m :: u8
  defines "q \<equiv> (p OR 0x30) XOR m"
  assumes "plain_halt h = None" "bytes_at (memory h) t (strict_tail z m)" "z < t" "uint t + 13 \<le> 0xFE00" "no_port z" "\<And>w. slot w \<noteq> z"
    and "reaches io \<lparr>r_pc = word_of (memory h (slot (sp + 1))) (memory h (slot (sp + 2))) + 1, r_sp = sp + 2, r_a = a, r_x = x, r_y = y,
      r_p = (q AND NOT 0x10) OR 0x20\<rparr> (h\<lparr>memory := (memory h)(z := a, slot sp := q)\<rparr>) Q"
  shows "reaches io \<lparr>r_pc = t, r_sp = sp, r_a = a, r_x = x, r_y = y, r_p = p OR 0x20\<rparr> h Q"
proof -
  let ?h1 = "h\<lparr>memory := (memory h)(z := a)\<rparr>"
  let ?h2 = "h\<lparr>memory := (memory h)(z := a, slot sp := p OR 0x30)\<rparr>"
  let ?h3 = "h\<lparr>memory := (memory h)(z := a, slot sp := q)\<rparr>"
  note d = tail_code[OF assms(3-5)]
  have e: "emit_address v = [to8 (v AND 0xFF), to8 (drop_bit 8 v)]" for v by (simp add: emit_address_def)
  have h: "plain_halt (h\<lparr>memory := v\<rparr>) = None" for v using assms(2) by simp
  note sz = assms(7) and np = assms(6)
  note sl = slot_inj sz[of "sp + 1"] sz[of "sp + 2"] sz[of sp] sz[THEN not_sym]
  have 9: "reaches io \<lparr>r_pc = t + 12, r_sp = sp, r_a = a, r_x = x, r_y = y, r_p = (q AND NOT 0x10) OR 0x20\<rparr> ?h3 Q"
    by (rule reaches_rts[OF h]) (use assms(8) sl in \<open>simp_all add: d or.assoc\<close>)
  have 8: "reaches io \<lparr>r_pc = t + 11, r_sp = sp - 1, r_a = a, r_x = x, r_y = y, r_p = w\<rparr> ?h3 Q" for w
    by (rule reaches_plp[OF h]) (use 9 in \<open>simp_all add: d add.assoc\<close>)
  have 7: "reaches io \<lparr>r_pc = t + 8, r_sp = sp - 1, r_a = b, r_x = x, r_y = y, r_p = w\<rparr> ?h3 Q" for b w
  proof (rule reaches_lda[OF h])
    show "code_at ?h3 \<lparr>r_pc = t + 8, r_sp = sp - 1, r_a = b, r_x = x, r_y = y, r_p = w\<rparr> [0xAD, to8 (z AND 0xFF), to8 (drop_bit 8 z)]"
      using d(6) by (simp add: e)
  qed (use 8 sl in \<open>auto simp: address_bytes plain_memory_read[OF np] h add.assoc reaches_tuned\<close>)
  have 6: "reaches io \<lparr>r_pc = t + 7, r_sp = sp, r_a = q, r_x = x, r_y = y, r_p = w\<rparr> ?h2 Q" for w
    by (rule reaches_pha[OF h]) (use 7 in \<open>simp_all add: d add.assoc\<close>)
  have 5: "reaches io \<lparr>r_pc = t + 5, r_sp = sp, r_a = p OR 0x30, r_x = x, r_y = y, r_p = w\<rparr> ?h2 Q" for w
    by (rule reaches_eor_imm[where v = m, OF h]) (use 6 in \<open>simp_all add: d add.assoc q_def\<close>)
  have 4: "reaches io \<lparr>r_pc = t + 4, r_sp = sp - 1, r_a = b, r_x = x, r_y = y, r_p = w\<rparr> ?h2 Q" for b w
    by (rule reaches_pla[OF h]) (use 5 in \<open>simp_all add: d add.assoc\<close>)
  have 3: "reaches io \<lparr>r_pc = t + 3, r_sp = sp, r_a = a, r_x = x, r_y = y, r_p = p OR 0x20\<rparr> ?h1 Q"
    by (rule reaches_php[OF h]) (use 4 in \<open>simp_all add: d add.assoc or.assoc\<close>)
  show ?thesis
  proof (rule reaches_sta[OF assms(2)])
    show "code_at h \<lparr>r_pc = t, r_sp = sp, r_a = a, r_x = x, r_y = y, r_p = p OR 0x20\<rparr> [0x8D, to8 (z AND 0xFF), to8 (drop_bit 8 z)]"
      using d(1) by (simp add: e)
  qed (use 3 in \<open>simp add: address_bytes plain_memory_write[OF np] assms(2) tuned_memory reaches_tuned or.assoc\<close>)
qed

lemma reaches_return:
  assumes "plain_halt h = None" "stubs_in t d s (memory h)" "code_at h r (ret_code (stub_tails d s) m)"
    and "m = NVZC_NONE \<or> m = NVZC_C \<or> m = NVZC_N"
    and "reaches io (r\<lparr>r_pc := return_address h r, r_sp := r_sp r + 2, r_p := return_flags s m (r_p r)\<rparr>)
      (h\<lparr>memory := return_memory d s m r (memory h)\<rparr>) Q"
  shows "reaches io r h Q"
proof (cases s)
  case False
  then have "code_at h r [0x60]" using assms(3) by (simp add: ret_code_def stub_tails_def)
  from reaches_rts[OF assms(1) this] show ?thesis using assms(5) False by (simp add: return_flags_def return_memory_def)
next
  case True
  then obtain tail where tail: "stub_tails d s = Some tail" by (simp add: stub_tails_def)
  define z :: u16 where "z = word_of_int (stub_scratch d)"
  have zb: "uint z = stub_scratch d" using scratch_bounds(1)[of d] scratch_bounds(3)[of d] by (simp add: z_def unsigned_of_int take_bit_int_eq_self)
  have mm: "(if m = NVZC_C then NVZC_C else if m = NVZC_N then NVZC_N else NVZC_NONE) = m" using assms(4) by (elim disjE) simp_all
  note lay = tail_layout[OF tail, of t m, unfolded mm, folded z_def]
  have zt: "z < tail m" using lay[THEN conjunct2] unfolding word_less_def zb .
  have code: "bytes_at (memory h) (tail m) (strict_tail z m)"
    using stubs_bytes[OF assms(2) lay[THEN conjunct1]] by simp
  have fits: "uint (tail m) + 13 \<le> 0xFE00" using lay[THEN conjunct1] by (simp add: code_in_def)
  have sz: "slot w \<noteq> z" for w using slot_below[of w] zb scratch_bounds(1)[of d] by (auto simp: word_less_def)
  have np: "no_port z" using zb scratch_bounds(1)[of d] scratch_bounds(3)[of d] by (simp add: no_port_def word_less_def word_le_def)
  obtain pc sp a x y p where r: "r = \<lparr>r_pc = pc, r_sp = sp, r_a = a, r_x = x, r_y = y, r_p = p\<rparr>" by (cases r)
  have t: "reaches io \<lparr>r_pc = tail m, r_sp = sp, r_a = a, r_x = x, r_y = y, r_p = p OR 0x20\<rparr> h Q"
    by (rule reaches_tail[OF assms(1) code zt fits np sz])
      (use assms(5) True in \<open>simp add: r return_memory_def return_flags_def z_def[symmetric]\<close>)
  show ?thesis
  proof (rule reaches_jmp[OF assms(1)])
    show "code_at h r [0x4C, to8 (tail m AND 0xFF), to8 (drop_bit 8 (tail m))]"
      using assms(3) tail by (simp add: ret_code_def emit_address_def)
  qed (use t in \<open>simp add: address_bytes r\<close>)
qed

section \<open>The calls\<close>

text \<open>
  A call reads or writes a port, or reads one unless another says that nothing has come, or is one
  of the others. The table is in the order of the vectors, the screen calls last.
\<close>

datatype call = Get u16 | Put u16 | Leave | Unless_set u16 u16 | Unless_zero u16 u16 | Argv | Send | Refuse | Await | Screen u8

fun call_code :: "bool \<Rightarrow> (u8 \<Rightarrow> u8 list) \<Rightarrow> call \<Rightarrow> u8 list" where
  "call_code s ret (Get p) = on_port 0xAD p @ ret NVZC_NONE"
| "call_code s ret (Put p) = on_port 0x8D p @ ret NVZC_NONE"
| "call_code s ret Leave = on_port 0x8D port_exit"
| "call_code s ret (Unless_set g p) = guarded_read ret (on_port 0x2C g) 0x30 p"
| "call_code s ret (Unless_zero g p) = guarded_read ret (on_port 0xAD g) 0xF0 p"
| "call_code s ret Argv = on_port 0xAE port_argv_h @ on_port 0xAD port_argv_l @ ret NVZC_NONE"
| "call_code s ret Send = [0x48] @ on_port 0xAD port_serial_write_ready @
     [0xF0, of_nat (1 + 3 + 1 + length (ret NVZC_C)), 0x68] @ on_port 0x8D port_serial_write @
     [0x18] @ ret NVZC_C @ [0x68, 0x38] @ ret NVZC_C"
| "call_code s ret Refuse = [0x38] @ ret NVZC_C"
| "call_code s ret Await = on_port 0x8D port_wait_lo @ on_port 0x8E port_wait_hi @ on_port 0xAD port_wait_ready @ ret NVZC_N"
| "call_code s ret (Screen op) = scr_routine s ret op"

definition calls :: "bool \<Rightarrow> bool \<Rightarrow> call list" where
  "calls t d =
    [Unless_set port_eof_b port_read_b, Put port_write_b, Put port_write_d, Leave, Get port_open, Put port_close,
     Unless_set port_eof port_read, Get port_argc, Argv, Get port_openout, Put port_write, Get port_con_read,
     Put port_con_flush, Get port_con_ready, Get port_term_rows, Get port_term_cols,
     Unless_zero port_serial_ready port_serial_data, if t then Send else Refuse, Get port_opendir, Await] @
    (if d then map Screen screen_ops else [])"

lemma routines_calls: "routines t ret = map (call_code s ret) (take 20 (calls t d))"
  by (simp add: routines_def calls_def)

lemma screen_calls_code: "map (scr_routine s ret) screen_ops = map (call_code s ret) (drop 20 (calls t True))"
  by (simp add: calls_def screen_ops_def)

text \<open>Where a call is: its vector, and its code there.\<close>

lemma call_layout:
  assumes "i < length (calls t d)"
  shows "\<exists>q. code_in (generate_stubs t d s) (0xF006 + 3 * int i) [0x4C, low q, high q] \<and>
    code_in (generate_stubs t d s) q (call_code s (ret_code (stub_tails d s)) (calls t d ! i))"
proof (cases "i < 20")
  case True
  have "stub_routines t d s ! i = call_code s (ret_code (stub_tails d s)) (calls t d ! i)"
    using True assms by (simp add: stub_routines_def routines_calls[of t _ s d])
  then show ?thesis using stub_layout[OF True, of t d s] by auto
next
  case False
  have l: "length (calls t False) = 20" by (simp add: calls_def)
  then have d by (metis False assms)
  have i: "i - 20 < 15" using assms \<open>d\<close> False by (simp add: calls_def screen_ops_def)
  have "calls t d ! i = drop 20 (calls t True) ! (i - 20)" using assms \<open>d\<close> False by simp
  moreover have "i - 20 < length (drop 20 (calls t True))" using assms \<open>d\<close> False by simp
  ultimately have e: "screen_routines True s ! (i - 20) = call_code s (ret_code (stub_tails d s)) (calls t d ! i)"
    using \<open>d\<close> by (simp add: screen_routines_def screen_calls_code[of s _ t] del: drop_map)
  have v: "0xF042 + 3 * int (i - 20) = 0xF006 + 3 * int i" using False by simp
  show ?thesis using screen_layout[OF i, of t s] \<open>d\<close> unfolding e v by auto
qed

section \<open>What a call does\<close>

text \<open>The status after a \<open>bit\<close> of \<open>v\<close> with the accumulator \<open>a\<close>.\<close>

definition bit_flags :: "u8 \<Rightarrow> u8 \<Rightarrow> u8 \<Rightarrow> u8" where
  "bit_flags a v p = (put_flag 2 (a AND v = 0) p AND 0x3F) OR (v AND 0xC0)"

text \<open>
  \<open>made io s a x y p c h (a', x', y', p') h'\<close>: the accesses of the call \<open>c\<close> from the registers A, X, Y and the
  status \<open>p\<close> and the host \<open>h\<close>, each at some clock, give A, X, Y and the status, with the flag the call
  returns in it, and the host. With the strict interface the screen calls invert Y and leave the
  inverted number of the operation in A.
\<close>

inductive made ::
  "'d plain_io \<Rightarrow> bool \<Rightarrow> u8 \<Rightarrow> u8 \<Rightarrow> u8 \<Rightarrow> u8 \<Rightarrow> call \<Rightarrow> ('d, 'z) plain_scheme \<Rightarrow>
   u8 \<times> u8 \<times> u8 \<times> u8 \<Rightarrow> ('d, 'z) plain_scheme \<Rightarrow> bool"
  for io :: "'d plain_io" and s :: bool and a x y p :: u8
where
  get: "plain_read io q (tuned c a x y h) = (v, h') \<Longrightarrow> made io s a x y p (Get q) h (v, x, y, nz v p) h'"
| put: "plain_write q a (tuned c a x y h) = h' \<Longrightarrow> made io s a x y p (Put q) h (a, x, y, p) h'"
| end_set: "plain_read io g (tuned c a x y h) = (v, h') \<Longrightarrow> bit v 7 \<Longrightarrow>
    made io s a x y p (Unless_set g q) h (a, x, y, put_flag 1 True (bit_flags a v p)) h'"
| got_set: "plain_read io g (tuned c a x y h) = (v, h1) \<Longrightarrow> \<not> bit v 7 \<Longrightarrow> plain_read io q (tuned c' a x y h1) = (w, h') \<Longrightarrow>
    made io s a x y p (Unless_set g q) h (w, x, y, put_flag 1 False (nz w (bit_flags a v p))) h'"
| end_zero: "plain_read io g (tuned c a x y h) = (0, h') \<Longrightarrow>
    made io s a x y p (Unless_zero g q) h (0, x, y, put_flag 1 True (nz 0 p)) h'"
| got_zero: "plain_read io g (tuned c a x y h) = (v, h1) \<Longrightarrow> v \<noteq> 0 \<Longrightarrow> plain_read io q (tuned c' v x y h1) = (w, h') \<Longrightarrow>
    made io s a x y p (Unless_zero g q) h (w, x, y, put_flag 1 False (nz w p)) h'"
| argv: "plain_read io port_argv_h (tuned c a x y h) = (v, h1) \<Longrightarrow> plain_read io port_argv_l (tuned c' a v y h1) = (w, h') \<Longrightarrow>
    made io s a x y p Argv h (w, v, y, nz w p) h'"
| sent: "plain_read io port_serial_write_ready (tuned c a x y h) = (v, h1) \<Longrightarrow> v \<noteq> 0 \<Longrightarrow>
    plain_write port_serial_write a (tuned c' a x y h1) = h' \<Longrightarrow> made io s a x y p Send h (a, x, y, put_flag 1 False (nz a p)) h'"
| full: "plain_read io port_serial_write_ready (tuned c a x y h) = (0, h') \<Longrightarrow>
    made io s a x y p Send h (a, x, y, put_flag 1 True (nz a p)) h'"
| refused: "made io s a x y p Refuse h (a, x, y, put_flag 1 True p) h"
| waited: "plain_write port_wait_lo a (tuned c a x y h) = h1 \<Longrightarrow> plain_write port_wait_hi x (tuned c' a x y h1) = h2 \<Longrightarrow>
    plain_read io port_wait_ready (tuned c'' a x y h2) = (v, h') \<Longrightarrow> made io s a x y p Await h (v, x, y, nz v p) h'"
| drawn: "plain_write port_scr_a a (tuned c a x y h) = h1 \<Longrightarrow> plain_write port_scr_op op (tuned c' op x y h1) = h' \<Longrightarrow>
    v = (if s then NOT op else op) \<Longrightarrow> made io s a x y p (Screen op) h (v, x, if s then NOT y else y, nz v p) h'"

text \<open>
  The flags a call does not return, as a mask of N, V, Z and C: all of them, or all but the
  carry, or all but N after a wait.
\<close>

fun call_mask :: "call \<Rightarrow> u8" where
  "call_mask (Unless_set g q) = NVZC_C"
| "call_mask (Unless_zero g q) = NVZC_C"
| "call_mask Send = NVZC_C"
| "call_mask Refuse = NVZC_C"
| "call_mask Await = NVZC_N"
| "call_mask c = NVZC_NONE"

text \<open>All of memory but the byte below the stack and the one the strict tails keep A in.\<close>

definition memory_kept :: "bool \<Rightarrow> bool \<Rightarrow> u8 \<Rightarrow> (u16 \<Rightarrow> u8) \<Rightarrow> (u16 \<Rightarrow> u8) \<Rightarrow> bool" where
  "memory_kept d s sp m n \<longleftrightarrow> (\<forall>b. b \<noteq> slot sp \<and> \<not> (s \<and> b = word_of_int (stub_scratch d)) \<longrightarrow> n b = m b)"

text \<open>The unused bit of the status, which every instruction sets, says nothing.\<close>

definition same_flags :: "u8 \<Rightarrow> u8 \<Rightarrow> bool" where
  "same_flags p q \<longleftrightarrow> (\<forall>k. k \<noteq> 5 \<longrightarrow> bit q k = bit p k)"

lemma or_0x20: "p OR 0x20 = put_flag 0x20 True p" by (simp add: put_flag_def)

lemma bit_nz: "bit (nz v p) k = (if k = 7 then bit v 7 else if k = 1 then v = 0 else bit p k)"
  by (simp add: nz_def)

lemma unused_bit [simp]:
  "nz v (p OR 0x20) = nz v p OR 0x20" "put_flag 1 b (p OR 0x20) = put_flag 1 b p OR 0x20"
  "put_flag 2 b (p OR 0x20) = put_flag 2 b p OR 0x20"
  unfolding or_0x20 by (rule bit_word_eqI; simp add: bit_nz)+

lemma xor_ones [simp]: "v XOR 0xFF = NOT (v :: u8)"
proof -
  have m: "(0xFF :: u8) = mask 8" by (simp add: mask_eq_exp_minus_1)
  show ?thesis unfolding m by (rule bit_word_eqI) (auto simp: bit_simps)
qed

lemma nz_nz [simp]: "nz v (nz w p) = nz v p"
  by (rule bit_word_eqI) (simp add: bit_nz)

lemma same_flags_simps [simp]: "same_flags p p" "same_flags p (q OR 0x20) \<longleftrightarrow> same_flags p q" "same_flags (p OR 0x20) q \<longleftrightarrow> same_flags p q"
  by (auto simp: same_flags_def or_0x20)

lemma same_flags_nz: "same_flags p q \<Longrightarrow> same_flags (nz v p) (nz v q)"
  by (simp add: same_flags_def bit_nz)

lemma same_flags_carry: "same_flags p q \<Longrightarrow> same_flags (put_flag 1 b p) (put_flag 1 b q)"
  by (auto simp: same_flags_def)

lemma nz_bits [simp]: "bit (nz v p) 7 = bit v 7" "bit (nz v p) 0 = bit p 0" "bit (nz v p) 1 \<longleftrightarrow> v = 0" "bit (p OR 0x20) 0 = bit p 0"
  "bit (p OR 0x20) 7 = bit p 7" "bit (p OR 0x20) 1 = bit p 1" "bit (p OR 0x20) (Suc 0) = bit p 1" "bit (nz v p) (Suc 0) \<longleftrightarrow> v = 0"
  by (simp_all add: nz_def or_0x20)

lemma u8_numeral_bits:
  "bit (0x3F :: u8) k \<longleftrightarrow> k < 6" "bit (0xC0 :: u8) k \<longleftrightarrow> k = 6 \<or> k = 7" "bit (0x30 :: u8) k \<longleftrightarrow> k = 4 \<or> k = 5"
  "bit (0x20 :: u8) k \<longleftrightarrow> k = 5" "bit (0x10 :: u8) k \<longleftrightarrow> k = 4" "bit NVZC_C k \<longleftrightarrow> k = 1 \<or> k = 6 \<or> k = 7"
  "bit NVZC_N k \<longleftrightarrow> k = 0 \<or> k = 1 \<or> k = 6" "bit NVZC_NONE k \<longleftrightarrow> k = 0 \<or> k = 1 \<or> k = 6 \<or> k = 7"
  by (cases "k < 8"; auto simp: NVZC_C_def NVZC_N_def NVZC_NONE_def bit_simps less_Suc_eq numeral_eq_Suc)+

lemma bit_flags_unused: "(((p OR 0x20) AND 0x3F) OR w :: u8) = ((p AND 0x3F) OR w) OR 0x20"
  by (rule bit_word_eqI, unfold bit_or_iff bit_and_iff u8_numeral_bits) auto

lemma bit_test_flags:
  "((put_flag 2 (a AND v = 0) p OR 0x20) AND 0x3F) OR (v AND 0xC0) = bit_flags a v p OR 0x20"
  "bit (bit_flags a v p) 7 = bit v 7"
  by (simp_all add: bit_flags_def bit_flags_unused bit_or_iff bit_and_iff u8_numeral_bits)

lemma bit_return_flags:
  "bit (return_flags s m p) k \<longleftrightarrow> (if s then k = 5 \<or> k \<noteq> 4 \<and> bit p k \<noteq> bit m k else k = 5 \<or> bit p k)" if "k < 8"
  using that unfolding return_flags_def if_distrib[of bit] if_distribR bit_not_iff bit_or_iff bit_and_iff bit_xor_iff u8_numeral_bits
  by (auto simp: possible_bit_word)

lemma return_flags_same: "same_flags p q \<Longrightarrow> return_flags s m q = return_flags s m p"
  unfolding same_flags_def by (rule bit_word_eqI) (auto simp: bit_return_flags split: if_splits)

text \<open>
  What a return makes of the status: the flags of the call, or with the strict interface those in
  the mask inverted; I and D are never touched.
\<close>

lemma return_flags_bits:
  "k < 8 \<Longrightarrow> k \<noteq> 5 \<Longrightarrow> bit (return_flags False m p) k = bit p k"
  "k \<in> {0, 1, 6, 7} \<Longrightarrow> bit (return_flags True m p) k \<longleftrightarrow> bit p k \<noteq> bit m k"
  "m = NVZC_NONE \<or> m = NVZC_C \<or> m = NVZC_N \<Longrightarrow> k = 2 \<or> k = 3 \<Longrightarrow> bit (return_flags s m p) k = bit p k"
  by (cases s; auto simp: bit_return_flags u8_numeral_bits)+

text \<open>The CPU back from a call, at the address the stack had, with its result.\<close>

definition returned ::
  "'d plain_io \<Rightarrow> bool \<Rightarrow> bool \<Rightarrow> call \<Rightarrow> regs \<Rightarrow> ('d, 'z) plain_scheme \<Rightarrow> ('d, 'z) plain_scheme cpu \<Rightarrow> bool"
where
  "returned io d s call r h u \<longleftrightarrow>
     (\<exists>a x y p m n h'.
        made io s (r_a r) (r_x r) (r_y r) (r_p r) call (h\<lparr>memory := m\<rparr>) (a, x, y, p) h' \<and>
        memory_kept d s (r_sp r) (memory h) m \<and> memory_kept d s (r_sp r) (memory h) n \<and>
        cpu_at io \<lparr>r_pc = return_address h r, r_sp = r_sp r + 2, r_a = a, r_x = x, r_y = y,
          r_p = return_flags s (call_mask call) p\<rparr> (h'\<lparr>memory := n\<rparr>) u)"

definition ended :: "('d, 'z) plain_scheme cpu \<Rightarrow> bool" where
  "ended u \<longleftrightarrow> plain_halt (cpu_host u) \<noteq> None"

definition comes_back ::
  "'d plain_io \<Rightarrow> bool \<Rightarrow> bool \<Rightarrow> call \<Rightarrow> regs \<Rightarrow> ('d, 'z) plain_scheme \<Rightarrow> ('d, 'z) plain_scheme cpu \<Rightarrow> bool"
where
  "comes_back io d s call r h u \<longleftrightarrow> ended u \<or> returned io d s call r h u"

lemma comes_back_stops [simp]: "stops (comes_back io d s call r h)"
  by (simp add: stops_def comes_back_def ended_def)

lemma scratch_word: "uint (word_of_int (stub_scratch d) :: u16) = stub_scratch d"
  using scratch_bounds(1)[of d] scratch_bounds(3)[of d] by (simp add: unsigned_of_int take_bit_int_eq_self)

lemma slot_not_scratch: "slot w \<noteq> word_of_int (stub_scratch d)"
  using slot_below[of w] scratch_word[of d] scratch_bounds(1)[of d] by (auto simp: word_less_def)

lemma memory_kept_simps [simp]:
  "memory_kept d s sp m m" "memory_kept d s sp m (n(slot sp := v)) \<longleftrightarrow> memory_kept d s sp m n"
  by (auto simp: memory_kept_def)

lemma memory_kept_stubs:
  assumes "memory_kept d s sp m n" "stubs_in t d s m"
  shows "stubs_in t d s n"
proof (rule stubs_in_changed[OF assms(2)])
  fix x assume "n x \<noteq> m x"
  then have "x = slot sp \<or> s \<and> x = word_of_int (stub_scratch d)" using assms(1) unfolding memory_kept_def by blast
  then show "x < 0xF006 \<or> 0xFE00 \<le> x \<or> s \<and> x = word_of_int (stub_scratch d)" using slot_below[of sp] by blast
qed

text \<open>The last step of every call: its return.\<close>

lemma call_done:
  assumes "made io s (r_a r) (r_x r) (r_y r) (r_p r) call k (a, x, y, p) h'" "plain_halt h' = None" "stubs_in t d s (memory h)"
    and "k = h\<lparr>memory := m\<rparr>" "memory_kept d s (r_sp r) (memory h) m" "memory_kept d s (r_sp r) (memory h) (memory h')"
    and "code_at h' r' (ret_code (stub_tails d s) (call_mask call))"
    and "r_sp r' = r_sp r" "r_a r' = a" "r_x r' = x" "r_y r' = y" "same_flags p (r_p r')"
  shows "reaches io r' h' (comes_back io d s call r h)"
proof (rule reaches_return[OF assms(2) memory_kept_stubs[OF assms(6,3)] assms(7)])
  let ?r = "r'\<lparr>r_pc := return_address h' r', r_sp := r_sp r' + 2, r_p := return_flags s (call_mask call) (r_p r')\<rparr>"
  let ?n = "return_memory d s (call_mask call) r' (memory h')"
  show m: "call_mask call = NVZC_NONE \<or> call_mask call = NVZC_C \<or> call_mask call = NVZC_N" by (cases call) simp_all
  have "return_address h' r' = return_address h r"
    using assms(6,8) by (simp add: memory_kept_def slot_inj slot_not_scratch)
  then have e: "?r = \<lparr>r_pc = return_address h r, r_sp = r_sp r + 2, r_a = a, r_x = x, r_y = y, r_p = return_flags s (call_mask call) p\<rparr>"
    using assms(8-11) return_flags_same[OF assms(12)] by (cases r') simp
  have n: "memory_kept d s (r_sp r) (memory h) ?n" using assms(6,8) by (auto simp: return_memory_def memory_kept_def)
  show "reaches io ?r (h'\<lparr>memory := ?n\<rparr>) (comes_back io d s call r h)"
  proof (rule reaches_now)
    fix u assume u: "cpu_at io ?r (h'\<lparr>memory := ?n\<rparr>) u"
    have "returned io d s call r h u" unfolding returned_def
      using assms(1,4,5) n u unfolding e by blast
    then show "comes_back io d s call r h u" by (simp add: comes_back_def)
  qed
qed

section \<open>Each kind of call\<close>

text \<open>Where the code of a call is read, and what has been kept there.\<close>

lemma ret_length: "length (ret_code (stub_tails d s) m) = (if s then 3 else 1)"
  by (simp add: length_ret stub_tails_def)

lemma bytes_at_Cons: "bytes_at m a (b # bs) \<longleftrightarrow> bytes_at m a [b] \<and> bytes_at m (a + 1) bs"
  by (simp add: bytes_at.simps)

lemma get_call:
  assumes "plain_halt h = None" "stubs_in t d s (memory h)" "code_at h r (call_code s (ret_code (stub_tails d s)) (Get p))"
  shows "reaches io r h (comes_back io d s (Get p) r h)"
proof (rule port_lda[OF comes_back_stops assms(1)])
  show "code_at h r (on_port 0xAD p)" using assms(3) by simp
  fix c v h' assume v: "plain_read io p (tuned c (r_a r) (r_x r) (r_y r) h) = (v, h')" "plain_halt h' = None" "memory h' = memory h"
  show "reaches io (r\<lparr>r_pc := r_pc r + 3, r_a := v, r_p := nz v (r_p r OR 0x20)\<rparr>) h' (comes_back io d s (Get p) r h)"
    by (rule call_done[OF made.get[OF v(1)] v(2) assms(2), where m = "memory h"]) (use assms(3) v in simp_all)
qed

lemma put_call:
  assumes "plain_halt h = None" "stubs_in t d s (memory h)" "code_at h r (call_code s (ret_code (stub_tails d s)) (Put p))"
    and "p \<in> set write_ports"
  shows "reaches io r h (comes_back io d s (Put p) r h)"
proof (rule port_sta[OF comes_back_stops assms(1) _ assms(4)])
  show "code_at h r (on_port 0x8D p)" using assms(3) by simp
  fix c h' assume v: "plain_write p (r_a r) (tuned c (r_a r) (r_x r) (r_y r) h) = h'" "plain_halt h' = None" "memory h' = memory h"
  show "reaches io (r\<lparr>r_pc := r_pc r + 3, r_p := r_p r OR 0x20\<rparr>) h' (comes_back io d s (Put p) r h)"
    by (rule call_done[OF made.put[OF v(1)] v(2) assms(2), where m = "memory h"]) (use assms(3) v in simp_all)
qed

text \<open>Both reads guarded by a poll end alike.\<close>

lemma guarded_layout:
  fixes k :: u8
  assumes "bytes_at m a (guarded_read (ret_code (stub_tails d s)) poll branch port)" "length poll = 3"
  defines "k \<equiv> if s then 3 else 1"
  shows "bytes_at m a poll" "bytes_at m (a + 3) [branch, 4 + k]" "bytes_at m (a + 5) (on_port 0xAD port)" "bytes_at m (a + 8) [0x18]"
    "bytes_at m (a + 9) (ret_code (stub_tails d s) NVZC_C)" "bytes_at m (a + 9 + to16 k) [0x38]"
    "bytes_at m (a + 10 + to16 k) (ret_code (stub_tails d s) NVZC_C)" "\<not> bit (4 + k) 7" "to16 (4 + k) = 4 + to16 k"
proof -
  have "bytes_at m (a + 3) ([branch, 4 + k] @ on_port 0xAD port @ [0x18] @ ret_code (stub_tails d s) NVZC_C @ [0x38] @
      ret_code (stub_tails d s) NVZC_C)"
    using assms(1,2) unfolding guarded_read_def by (cases s; simp add: ret_length k_def)
  then show "bytes_at m (a + 3) [branch, 4 + k]" "bytes_at m (a + 5) (on_port 0xAD port)" "bytes_at m (a + 8) [0x18]"
    "bytes_at m (a + 9) (ret_code (stub_tails d s) NVZC_C)" "bytes_at m (a + 9 + to16 k) [0x38]"
    "bytes_at m (a + 10 + to16 k) (ret_code (stub_tails d s) NVZC_C)"
    unfolding bytes_at_append by (cases s; simp add: ret_length k_def add.assoc)+
  show "bytes_at m a poll" using assms(1) by (simp add: guarded_read_def)
qed (simp_all add: k_def)

lemma found_nothing:
  assumes "plain_halt h' = None" "memory_kept d s (r_sp r) (memory h) (memory h')" "stubs_in t d s (memory h)" "call_mask call = NVZC_C"
    and "bytes_at (memory h') q [0x38]" "bytes_at (memory h') q' (ret_code (stub_tails d s) NVZC_C)" "q' = q + 1"
    and "made io s (r_a r) (r_x r) (r_y r) (r_p r) call k (a, r_x r, r_y r, put_flag 1 True p) h'"
    and "k = h\<lparr>memory := m\<rparr>" "memory_kept d s (r_sp r) (memory h) m"
    and "r_pc r' = q" "r_sp r' = r_sp r" "r_a r' = a" "r_x r' = r_x r" "r_y r' = r_y r" "same_flags p (r_p r')"
  shows "reaches io r' h' (comes_back io d s call r h)"
proof (rule reaches_sec[OF assms(1)])
  show "code_at h' r' [0x38]" using assms by simp
  show "reaches io (r'\<lparr>r_pc := r_pc r' + 1, r_p := put_flag 1 True (r_p r' OR 0x20)\<rparr>) h' (comes_back io d s call r h)"
    by (rule call_done[OF assms(8,1,3,9,10)]) (use assms same_flags_carry in simp_all)
qed

lemma found_byte:
  assumes "plain_halt h' = None" "memory_kept d s (r_sp r) (memory h) (memory h')" "stubs_in t d s (memory h)" "call_mask call = NVZC_C"
    and "bytes_at (memory h') q [0x18]" "bytes_at (memory h') (q + 1) (ret_code (stub_tails d s) NVZC_C)"
    and "made io s (r_a r) (r_x r) (r_y r) (r_p r) call k (a, r_x r, r_y r, put_flag 1 False p) h'"
    and "k = h\<lparr>memory := m\<rparr>" "memory_kept d s (r_sp r) (memory h) m"
    and "r_pc r' = q" "r_sp r' = r_sp r" "r_a r' = a" "r_x r' = r_x r" "r_y r' = r_y r" "same_flags p (r_p r')"
  shows "reaches io r' h' (comes_back io d s call r h)"
proof (rule reaches_clc[OF assms(1)])
  show "code_at h' r' [0x18]" using assms by simp
  show "reaches io (r'\<lparr>r_pc := r_pc r' + 1, r_p := put_flag 1 False (r_p r' OR 0x20)\<rparr>) h' (comes_back io d s call r h)"
    by (rule call_done[OF assms(7,1,3,8,9)]) (use assms same_flags_carry in simp_all)
qed

lemma unless_set_call:
  assumes "plain_halt h = None" "stubs_in t d s (memory h)" "code_at h r (call_code s (ret_code (stub_tails d s)) (Unless_set g p))"
  shows "reaches io r h (comes_back io d s (Unless_set g p) r h)"
proof -
  define k :: u8 where "k = (if s then 3 else 1)"
  have b: "code_at h r (guarded_read (ret_code (stub_tails d s)) (on_port 0x2C g) 0x30 p)" using assms(3) by simp
  note lay = guarded_layout[OF b length_on_port, folded k_def]
  show ?thesis
  proof (rule port_bit[OF comes_back_stops assms(1) lay(1)])
    fix c v h'
    assume v: "plain_read io g (tuned c (r_a r) (r_x r) (r_y r) h) = (v, h')" "plain_halt h' = None" "memory h' = memory h"
    let ?r = "r\<lparr>r_pc := r_pc r + 3, r_p := (put_flag 2 (r_a r AND v = 0) (r_p r OR 0x20) AND 0x3F) OR (v AND 0xC0)\<rparr>"
    show "reaches io ?r h' (comes_back io d s (Unless_set g p) r h)"
    proof (rule reaches_bmi[OF v(2) _ lay(8)])
      show "code_at h' ?r [0x30, 4 + k]" using lay(2) v(3) by simp
      let ?q = "?r\<lparr>r_pc := r_pc ?r + 2 + (if bit (r_p ?r) 7 then to16 (4 + k) else 0), r_p := r_p ?r OR 0x20\<rparr>"
      show "reaches io ?q h' (comes_back io d s (Unless_set g p) r h)"
      proof (cases "bit v 7")
        case True
        show ?thesis
          by (rule found_nothing[OF v(2) _ assms(2) _ lay(6,7)[folded v(3)] _ made.end_set[OF v(1) True], where m = "memory h"])
            (use True v(3) lay(9) in \<open>simp_all add: bit_test_flags\<close>)
      next
        case False
        show ?thesis
        proof (rule port_lda[OF comes_back_stops v(2)])
          show "code_at h' ?q (on_port 0xAD p)" using lay(3) v(3) False by (simp add: bit_test_flags add.commute)
          fix c' w h2
          assume w: "plain_read io p (tuned c' (r_a ?q) (r_x ?q) (r_y ?q) h') = (w, h2)" "plain_halt h2 = None" "memory h2 = memory h'"
          have "plain_read io p (tuned c' (r_a r) (r_x r) (r_y r) h') = (w, h2)" using w(1) by simp
          note mk = made.got_set[OF v(1) False this]
          show "reaches io (?q\<lparr>r_pc := r_pc ?q + 3, r_a := w, r_p := nz w (r_p ?q OR 0x20)\<rparr>) h2 (comes_back io d s (Unless_set g p) r h)"
            by (rule found_byte[where q = "r_pc r + 8" and m = "memory h", OF w(2) _ assms(2) _ _ _ mk])
              (use w v False lay(4,5) in \<open>simp_all add: bit_test_flags add.assoc\<close>)
        qed
      qed
    qed
  qed
qed

lemma unless_zero_call:
  assumes "plain_halt h = None" "stubs_in t d s (memory h)" "code_at h r (call_code s (ret_code (stub_tails d s)) (Unless_zero g p))"
  shows "reaches io r h (comes_back io d s (Unless_zero g p) r h)"
proof -
  define k :: u8 where "k = (if s then 3 else 1)"
  have b: "code_at h r (guarded_read (ret_code (stub_tails d s)) (on_port 0xAD g) 0xF0 p)" using assms(3) by simp
  note lay = guarded_layout[OF b length_on_port, folded k_def]
  show ?thesis
  proof (rule port_lda[OF comes_back_stops assms(1) lay(1)])
    fix c v h'
    assume v: "plain_read io g (tuned c (r_a r) (r_x r) (r_y r) h) = (v, h')" "plain_halt h' = None" "memory h' = memory h"
    let ?r = "r\<lparr>r_pc := r_pc r + 3, r_a := v, r_p := nz v (r_p r OR 0x20)\<rparr>"
    show "reaches io ?r h' (comes_back io d s (Unless_zero g p) r h)"
    proof (rule reaches_beq[OF v(2) _ lay(8)])
      show "code_at h' ?r [0xF0, 4 + k]" using lay(2) v(3) by simp
      let ?q = "?r\<lparr>r_pc := r_pc ?r + 2 + (if bit (r_p ?r) 1 then to16 (4 + k) else 0), r_p := r_p ?r OR 0x20\<rparr>"
      show "reaches io ?q h' (comes_back io d s (Unless_zero g p) r h)"
      proof (cases "v = 0")
        case True
        then have v0: "plain_read io g (tuned c (r_a r) (r_x r) (r_y r) h) = (0, h')" using v(1) by simp
        show ?thesis
          by (rule found_nothing[OF v(2) _ assms(2) _ lay(6,7)[folded v(3)] _ made.end_zero[OF v0], where m = "memory h"])
            (use True v(3) lay(9) in simp_all)
      next
        case False
        show ?thesis
        proof (rule port_lda[OF comes_back_stops v(2)])
          show "code_at h' ?q (on_port 0xAD p)" using lay(3) v(3) False by (simp add: add.commute)
          fix c' w h2
          assume w: "plain_read io p (tuned c' (r_a ?q) (r_x ?q) (r_y ?q) h') = (w, h2)" "plain_halt h2 = None" "memory h2 = memory h'"
          have "plain_read io p (tuned c' v (r_x r) (r_y r) h') = (w, h2)" using w(1) by simp
          note mk = made.got_zero[OF v(1) False this]
          show "reaches io (?q\<lparr>r_pc := r_pc ?q + 3, r_a := w, r_p := nz w (r_p ?q OR 0x20)\<rparr>) h2 (comes_back io d s (Unless_zero g p) r h)"
            by (rule found_byte[where q = "r_pc r + 8" and m = "memory h", OF w(2) _ assms(2) _ _ _ mk])
              (use w v False lay(4,5) in \<open>simp_all add: add.assoc\<close>)
        qed
      qed
    qed
  qed
qed

lemma argv_call:
  assumes "plain_halt h = None" "stubs_in t d s (memory h)" "code_at h r (call_code s (ret_code (stub_tails d s)) Argv)"
  shows "reaches io r h (comes_back io d s Argv r h)"
proof (rule port_ldx[OF comes_back_stops assms(1)])
  show "code_at h r (on_port 0xAE port_argv_h)" using assms(3) by simp
  fix c v h'
  assume v: "plain_read io port_argv_h (tuned c (r_a r) (r_x r) (r_y r) h) = (v, h')" "plain_halt h' = None" "memory h' = memory h"
  let ?r = "r\<lparr>r_pc := r_pc r + 3, r_x := v, r_p := nz v (r_p r OR 0x20)\<rparr>"
  show "reaches io ?r h' (comes_back io d s Argv r h)"
  proof (rule port_lda[OF comes_back_stops v(2)])
    show "code_at h' ?r (on_port 0xAD port_argv_l)" using assms(3) v(3) by simp
    fix c' w h2
    assume w: "plain_read io port_argv_l (tuned c' (r_a ?r) (r_x ?r) (r_y ?r) h') = (w, h2)" "plain_halt h2 = None" "memory h2 = memory h'"
    have "plain_read io port_argv_l (tuned c' (r_a r) v (r_y r) h') = (w, h2)" using w(1) by simp
    note mk = made.argv[OF v(1) this]
    show "reaches io (?r\<lparr>r_pc := r_pc ?r + 3, r_a := w, r_p := nz w (r_p ?r OR 0x20)\<rparr>) h2 (comes_back io d s Argv r h)"
      by (rule call_done[OF mk w(2) assms(2), where m = "memory h"]) (use assms(3) w v in \<open>simp_all add: add.assoc\<close>)
  qed
qed

lemma refuse_call:
  assumes "plain_halt h = None" "stubs_in t d s (memory h)" "code_at h r (call_code s (ret_code (stub_tails d s)) Refuse)"
  shows "reaches io r h (comes_back io d s Refuse r h)"
proof -
  have "code_at h r ([0x38] @ ret_code (stub_tails d s) NVZC_C)" using assms(3) by simp
  then have b: "code_at h r [0x38]" "bytes_at (memory h) (r_pc r + 1) (ret_code (stub_tails d s) NVZC_C)"
    unfolding bytes_at_append by simp_all
  show ?thesis by (rule found_nothing[OF assms(1) _ assms(2) _ b refl made.refused, where m = "memory h"]) simp_all
qed

lemma await_call:
  assumes "plain_halt h = None" "stubs_in t d s (memory h)" "code_at h r (call_code s (ret_code (stub_tails d s)) Await)"
  shows "reaches io r h (comes_back io d s Await r h)"
proof (rule port_sta[OF comes_back_stops assms(1)])
  show "code_at h r (on_port 0x8D port_wait_lo)" using assms(3) by simp
  show "port_wait_lo \<in> set write_ports" by (simp add: write_ports_def)
  fix c h1
  assume h1: "plain_write port_wait_lo (r_a r) (tuned c (r_a r) (r_x r) (r_y r) h) = h1" "plain_halt h1 = None" "memory h1 = memory h"
  let ?r = "r\<lparr>r_pc := r_pc r + 3, r_p := r_p r OR 0x20\<rparr>"
  show "reaches io ?r h1 (comes_back io d s Await r h)"
  proof (rule port_stx[OF comes_back_stops h1(2)])
    show "code_at h1 ?r (on_port 0x8E port_wait_hi)" using assms(3) h1(3) by simp
    show "port_wait_hi \<in> set write_ports" by (simp add: write_ports_def)
    fix c' h2
    assume h2: "plain_write port_wait_hi (r_x ?r) (tuned c' (r_a ?r) (r_x ?r) (r_y ?r) h1) = h2" "plain_halt h2 = None" "memory h2 = memory h1"
    let ?q = "?r\<lparr>r_pc := r_pc ?r + 3, r_p := r_p ?r OR 0x20\<rparr>"
    show "reaches io ?q h2 (comes_back io d s Await r h)"
    proof (rule port_lda[OF comes_back_stops h2(2)])
      show "code_at h2 ?q (on_port 0xAD port_wait_ready)" using assms(3) h1(3) h2(3) by (simp add: add.assoc)
      fix c'' v h3
      assume v: "plain_read io port_wait_ready (tuned c'' (r_a ?q) (r_x ?q) (r_y ?q) h2) = (v, h3)" "plain_halt h3 = None" "memory h3 = memory h2"
      have e: "plain_write port_wait_hi (r_x r) (tuned c' (r_a r) (r_x r) (r_y r) h1) = h2"
        "plain_read io port_wait_ready (tuned c'' (r_a r) (r_x r) (r_y r) h2) = (v, h3)" using h2(1) v(1) by simp_all
      note mk = made.waited[OF h1(1) e]
      show "reaches io (?q\<lparr>r_pc := r_pc ?q + 3, r_a := v, r_p := nz v (r_p ?q OR 0x20)\<rparr>) h3 (comes_back io d s Await r h)"
        by (rule call_done[OF mk v(2) assms(2), where m = "memory h"]) (use assms(3) v h1 h2 in \<open>simp_all add: add.assoc\<close>)
    qed
  qed
qed

lemma screen_call:
  assumes "plain_halt h = None" "stubs_in t d s (memory h)" "code_at h r (call_code s (ret_code (stub_tails d s)) (Screen op))"
  shows "reaches io r h (comes_back io d s (Screen op) r h)"
proof -
  let ?ret = "ret_code (stub_tails d s) NVZC_NONE"
  have "code_at h r (on_port 0x8D port_scr_a @ [0xA9, op] @ on_port 0x8D port_scr_op @
      (if s then [0x98] @ [0x49, 0xFF] @ [0xA8] @ [0xA9, NOT op] else []) @ ?ret)"
    using assms(3) by (simp add: scr_routine_def cong: if_cong)
  then have b0: "code_at h r (on_port 0x8D port_scr_a)" "bytes_at (memory h) (r_pc r + 3) [0xA9, op]"
    "bytes_at (memory h) (r_pc r + 5) (on_port 0x8D port_scr_op)"
    and t: "bytes_at (memory h) (r_pc r + 8) ((if s then [0x98] @ [0x49, 0xFF] @ [0xA8] @ [0xA9, NOT op] else []) @ ?ret)"
    unfolding bytes_at_append by (simp_all add: add.assoc)
  have "bytes_at (memory h) (r_pc r + 8) ([0x98] @ [0x49, 0xFF] @ [0xA8] @ [0xA9, NOT op] @ ?ret)" if s using t that by simp
  then have b1: "bytes_at (memory h) (r_pc r + 8) [0x98]" "bytes_at (memory h) (r_pc r + 9) [0x49, 0xFF]"
    "bytes_at (memory h) (r_pc r + 11) [0xA8]" "bytes_at (memory h) (r_pc r + 12) [0xA9, NOT op]" "bytes_at (memory h) (r_pc r + 14) ?ret" if s
    unfolding bytes_at_append using that by (simp_all add: add.assoc)
  have "bytes_at (memory h) (r_pc r + (if s then 14 else 8)) ?ret" using b1(5) t by (cases s) simp_all
  note b = b0 b1(1-4) this
  let ?Q = "comes_back io d s (Screen op) r h"
  show ?thesis
  proof (rule port_sta[OF comes_back_stops assms(1) b(1)])
    show "port_scr_a \<in> set write_ports" by (simp add: write_ports_def)
    fix c h1
    assume h1: "plain_write port_scr_a (r_a r) (tuned c (r_a r) (r_x r) (r_y r) h) = h1" "plain_halt h1 = None" "memory h1 = memory h"
    show "reaches io (r\<lparr>r_pc := r_pc r + 3, r_p := r_p r OR 0x20\<rparr>) h1 ?Q"
    proof (rule reaches_lda_imm[where v = op, OF h1(2)])
      let ?r = "r\<lparr>r_pc := r_pc r + 5, r_a := op, r_p := nz op (r_p r OR 0x20)\<rparr>"
      have "reaches io ?r h1 ?Q"
      proof (rule port_sta[OF comes_back_stops h1(2)])
        show "code_at h1 ?r (on_port 0x8D port_scr_op)" using b(3) h1(3) by simp
        show "port_scr_op \<in> set write_ports" by (simp add: write_ports_def)
        fix c' h2
        assume h2: "plain_write port_scr_op (r_a ?r) (tuned c' (r_a ?r) (r_x ?r) (r_y ?r) h1) = h2" "plain_halt h2 = None" "memory h2 = memory h1"
        have "plain_write port_scr_op op (tuned c' op (r_x r) (r_y r) h1) = h2" using h2(1) by simp
        note mk = made.drawn[OF h1(1) this refl]
        have fin: "reaches io q h2 ?Q"
          if "r_pc q = r_pc r + (if s then 14 else 8)" "r_sp q = r_sp r" "r_x q = r_x r" "r_a q = (if s then NOT op else op)"
            "r_y q = (if s then NOT (r_y r) else r_y r)" "same_flags (nz (if s then NOT op else op) (r_p r)) (r_p q)" for q
          by (rule call_done[OF mk h2(2) assms(2), where m = "memory h"]) (use that b(8) h1 h2 in simp_all)
        show "reaches io (?r\<lparr>r_pc := r_pc ?r + 3, r_p := r_p ?r OR 0x20\<rparr>) h2 ?Q"
        proof (cases s)
          case False
          then show ?thesis by (intro fin) simp_all
        next
          case True
          have m: "memory h2 = memory h" using h1 h2 by simp
          note c = b(4-7)[OF True, folded m]
          have 3: "reaches io q h2 ?Q" if "r_pc q = r_pc r + 12" "r_sp q = r_sp r" "r_x q = r_x r" "r_y q = NOT (r_y r)"
            "same_flags (nz (NOT op) (r_p r)) (nz (NOT op) (r_p q))" for q
            by (rule reaches_lda_imm[where v = "NOT op", OF h2(2)], use c that in simp, rule fin) (use that True in simp_all)
          have 2: "reaches io q h2 ?Q" if "r_pc q = r_pc r + 11" "r_sp q = r_sp r" "r_x q = r_x r" "r_a q = NOT (r_y r)"
            "same_flags (nz (NOT op) (r_p r)) (nz (NOT op) (r_p q))" for q
            by (rule reaches_tay[OF h2(2)], use c that in simp, rule 3) (use that in simp_all)
          have 1: "reaches io q h2 ?Q" if "r_pc q = r_pc r + 9" "r_sp q = r_sp r" "r_x q = r_x r" "r_a q = r_y r"
            "same_flags (nz (NOT op) (r_p r)) (nz (NOT op) (r_p q))" for q
            by (rule reaches_eor_imm[where v = "0xFF", OF h2(2)], use c that in simp, rule 2) (use that in simp_all)
          show ?thesis
            by (rule reaches_tya[OF h2(2)], use c in \<open>simp add: add.commute\<close>, rule 1) simp_all
        qed
      qed
      then show "reaches io (r\<lparr>r_pc := r_pc r + 3, r_p := r_p r OR 0x20, r_pc := r_pc (r\<lparr>r_pc := r_pc r + 3, r_p := r_p r OR 0x20\<rparr>) + 2, r_a := op,
          r_p := nz op (r_p (r\<lparr>r_pc := r_pc r + 3, r_p := r_p r OR 0x20\<rparr>) OR 0x20)\<rparr>) h1 ?Q"
        by (simp add: or.assoc add.commute)
    qed (use b(2) h1(3) in simp)
  qed
qed

text \<open>\<open>serial_write\<close> keeps the byte on the stack while it asks for room.\<close>

lemma send_call:
  assumes "plain_halt h = None" "stubs_in t d s (memory h)" "code_at h r (call_code s (ret_code (stub_tails d s)) Send)"
  shows "reaches io r h (comes_back io d s Send r h)"
proof -
  let ?ret = "ret_code (stub_tails d s) NVZC_C" let ?Q = "comes_back io d s Send r h"
  define k :: u8 where "k = (if s then 3 else 1)"
  define l :: u16 where "l = to16 k"
  have "code_at h r ([0x48] @ on_port 0xAD port_serial_write_ready @ [0xF0, 5 + k] @ [0x68] @ on_port 0x8D port_serial_write @
      [0x18] @ ?ret @ [0x68] @ [0x38] @ ?ret)"
    using assms(3) by (cases s; simp add: ret_length k_def)
  then have b: "code_at h r [0x48]" "bytes_at (memory h) (r_pc r + 1) (on_port 0xAD port_serial_write_ready)"
    "bytes_at (memory h) (r_pc r + 4) [0xF0, 5 + k]" "bytes_at (memory h) (r_pc r + 6) [0x68]"
    "bytes_at (memory h) (r_pc r + 7) (on_port 0x8D port_serial_write)" "bytes_at (memory h) (r_pc r + 10) [0x18]"
    "bytes_at (memory h) (r_pc r + 11) ?ret" "bytes_at (memory h) (r_pc r + 11 + l) [0x68]" "bytes_at (memory h) (r_pc r + 12 + l) [0x38]"
    "bytes_at (memory h) (r_pc r + 13 + l) ?ret"
    unfolding bytes_at_append by (cases s; simp add: ret_length k_def l_def add.assoc)+
  have kb: "\<not> bit (5 + k) 7" "to16 (5 + k) = 5 + l" by (simp_all add: k_def l_def)
  define m where "m = (memory h)(slot (r_sp r) := r_a r)"
  define g where "g = h\<lparr>memory := m\<rparr>"
  have mk: "memory_kept d s (r_sp r) (memory h) m" by (simp add: m_def)
  have c: "bytes_at m a bs" if "bytes_at (memory h) a bs" for a bs
    unfolding m_def using that slot_below by (intro bytes_at_update) auto
  have g: "plain_halt g = None" "memory g = m" using assms(1) by (simp_all add: g_def)
  show ?thesis
  proof (rule reaches_pha[OF assms(1) b(1)], fold m_def, fold g_def)
    let ?r = "r\<lparr>r_pc := r_pc r + 1, r_sp := r_sp r - 1, r_p := r_p r OR 0x20\<rparr>"
    show "reaches io ?r g ?Q"
    proof (rule port_lda[OF comes_back_stops g(1)])
      show "code_at g ?r (on_port 0xAD port_serial_write_ready)" using c[OF b(2)] g by simp
      fix c1 v g1
      assume v: "plain_read io port_serial_write_ready (tuned c1 (r_a ?r) (r_x ?r) (r_y ?r) g) = (v, g1)" "plain_halt g1 = None" "memory g1 = memory g"
      have v0: "plain_read io port_serial_write_ready (tuned c1 (r_a r) (r_x r) (r_y r) g) = (v, g1)" using v(1) by simp
      have m1: "memory g1 = m" using v(3) g by simp
      let ?q = "r\<lparr>r_sp := r_sp r - 1, r_pc := r_pc r + 4, r_a := v, r_p := nz v (r_p r OR 0x20)\<rparr>"
      have "reaches io ?q g1 ?Q"
      proof (rule reaches_beq[OF v(2) _ kb(1)])
        show "code_at g1 ?q [0xF0, 5 + k]" using c[OF b(3)] m1 by simp
        show "reaches io (?q\<lparr>r_pc := r_pc ?q + 2 + (if bit (r_p ?q) 1 then to16 (5 + k) else 0), r_p := r_p ?q OR 0x20\<rparr>) g1 ?Q"
        proof (cases "v = 0")
          case True
          let ?e = "?q\<lparr>r_pc := r_pc r + 11 + l, r_p := r_p ?q OR 0x20\<rparr>"
          have "plain_read io port_serial_write_ready (tuned c1 (r_a r) (r_x r) (r_y r) g) = (0, g1)" using v0 True by simp
          note mf = made.full[OF this]
          have "reaches io ?e g1 ?Q"
            by (rule reaches_pla[OF v(2)], use c[OF b(8)] m1 in simp,
                rule found_nothing[where q = "r_pc r + 12 + l" and q' = "r_pc r + 13 + l", OF v(2) _ assms(2) _ _ _ _ mf g_def mk])
              (use m1 mk c[OF b(9)] c[OF b(10)] in \<open>simp_all add: m_def\<close>)
          then show ?thesis using True kb(2) by (simp add: add.commute add.left_commute or.assoc)
        next
          case False
          let ?e = "?q\<lparr>r_pc := r_pc r + 6, r_p := r_p ?q OR 0x20\<rparr>"
          have "reaches io ?e g1 ?Q"
          proof (rule reaches_pla[OF v(2)])
            show "code_at g1 ?e [0x68]" using c[OF b(4)] m1 by simp
            let ?f = "r\<lparr>r_pc := r_pc r + 7, r_p := nz (r_a r) (nz v (r_p r OR 0x20) OR 0x20)\<rparr>"
            have "reaches io ?f g1 ?Q"
            proof (rule port_sta[OF comes_back_stops v(2)])
              show "code_at g1 ?f (on_port 0x8D port_serial_write)" using c[OF b(5)] m1 by simp
              show "port_serial_write \<in> set write_ports" by (simp add: write_ports_def)
              fix c2 g2
              assume w: "plain_write port_serial_write (r_a ?f) (tuned c2 (r_a ?f) (r_x ?f) (r_y ?f) g1) = g2" "plain_halt g2 = None" "memory g2 = memory g1"
              have "plain_write port_serial_write (r_a r) (tuned c2 (r_a r) (r_x r) (r_y r) g1) = g2" using w(1) by simp
              note ms = made.sent[OF v0 False this]
              show "reaches io (?f\<lparr>r_pc := r_pc ?f + 3, r_p := r_p ?f OR 0x20\<rparr>) g2 ?Q"
                by (rule found_byte[where q = "r_pc r + 10", OF w(2) _ assms(2) _ _ _ ms g_def mk])
                  (use w(3) m1 mk c[OF b(6)] c[OF b(7)] in \<open>simp_all add: add.assoc\<close>)
            qed
            then show "reaches io (?e\<lparr>r_pc := r_pc ?e + 1, r_sp := r_sp ?e + 1, r_a := memory g1 (slot (r_sp ?e + 1)),
                r_p := nz (memory g1 (slot (r_sp ?e + 1))) (r_p ?e OR 0x20)\<rparr>) g1 ?Q"
              by (simp add: m1 m_def or.assoc add.commute)
          qed
          then show ?thesis using False by (simp add: add.commute or.assoc)
        qed
      qed
      then show "reaches io (?r\<lparr>r_pc := r_pc ?r + 3, r_a := v, r_p := nz v (r_p ?r OR 0x20)\<rparr>) g1 ?Q"
        by (simp add: or.assoc add.commute)
    qed
  qed
qed

lemma leave_call:
  assumes "plain_halt h = None" "code_at h r (call_code s ret Leave)"
  shows "reaches io r h (\<lambda>u. emu_done (cpu_host u) \<and> exitcode_set (cpu_host u) = Some (r_a r))"
proof (rule reaches_sta[OF assms(1)])
  show "code_at h r [0x8D, to8 (port_exit AND 0xFF), to8 (drop_bit 8 port_exit)]"
    using assms(2) by (simp add: on_port_def emit_address_def)
  fix c
  have "plain_write port_exit (r_a r) (tuned c (r_a r) (r_x r) (r_y r) h) =
      (tuned c (r_a r) (r_x r) (r_y r) h)\<lparr>exitcode_set := Some (r_a r), emu_done := True\<rparr>"
    using assms(1) by (simp add: plain_write_def plain_port_write_def)
  then show "reaches io (r\<lparr>r_pc := r_pc r + 3, r_p := r_p r OR 0x20\<rparr>)
      (plain_write (word_of (to8 (port_exit AND 0xFF)) (to8 (drop_bit 8 port_exit))) (r_a r) (tuned c (r_a r) (r_x r) (r_y r) h))
      (\<lambda>u. emu_done (cpu_host u) \<and> exitcode_set (cpu_host u) = Some (r_a r))"
    unfolding address_bytes by (intro reaches_now) (auto simp: cpu_at_def tuned_def)
qed

section \<open>The jump table\<close>

lemma call_at:
  assumes "plain_halt h = None" "stubs_in t d s (memory h)" "call \<in> set (calls t d)" "call \<noteq> Leave"
    and "code_at h r (call_code s (ret_code (stub_tails d s)) call)"
  shows "reaches io r h (comes_back io d s call r h)"
proof (cases call)
  case (Put p)
  then have "p \<in> set write_ports" using assms(3) by (auto simp: calls_def write_ports_def split: if_splits)
  then show ?thesis using put_call[of h t d s r p io] assms Put by simp
qed (use get_call[OF assms(1,2)] unless_set_call[OF assms(1,2)] unless_zero_call[OF assms(1,2)] argv_call[OF assms(1,2)]
    send_call[OF assms(1,2)] refuse_call[OF assms(1,2)] await_call[OF assms(1,2)] screen_call[OF assms(1,2)] assms(4,5) in
    \<open>simp_all only:\<close>)

lemma low_high: "0 \<le> q \<Longrightarrow> q < 0x10000 \<Longrightarrow> word_of (low q) (high q) = word_of_int q"
proof -
  assume q: "0 \<le> q" "q < 0x10000"
  define w :: u16 where "w = word_of_int q"
  have m: "(0xFF :: u16) = mask 8" by (simp add: mask_eq_exp_minus_1)
  have d: "q div 256 = drop_bit 8 q" by (simp add: drop_bit_eq_div)
  have "low q = to8 (w AND 0xFF)" unfolding low_def w_def m by (rule bit_word_eqI) (auto simp: bit_simps)
  moreover have "high q = to8 (drop_bit 8 w)" unfolding high_def w_def d by (rule bit_word_eqI) (auto simp: bit_simps)
  ultimately have "word_of (low q) (high q) = w" using address_bytes[of w] by simp
  then show ?thesis by (simp add: w_def)
qed

lemma bit_flags_unused_bit [simp]: "bit_flags a v (p OR 0x20) = bit_flags a v p OR 0x20"
  by (simp add: bit_flags_def bit_flags_unused)

lemma made_unused:
  assumes "made io s a x y (p OR 0x20) call h (a', x', y', p') h'"
  shows "\<exists>q. made io s a x y p call h (a', x', y', q) h' \<and> same_flags q p'"
proof -
  have same: "?thesis" if "made io s a x y p call h (a', x', y', q) h'" "p' = q OR 0x20" for q
    using that by auto
  from assms show ?thesis
  proof cases
    case get
    then show ?thesis by - (rule same, simp, (rule made.get; (assumption | simp)), simp)
  next
    case put
    then show ?thesis by - (rule same, simp, (rule made.put; (assumption | simp)), simp)
  next
    case end_set
    then show ?thesis by - (rule same, simp, (rule made.end_set; (assumption | simp)), simp)
  next
    case got_set
    then show ?thesis by - (rule same, simp, (rule made.got_set; (assumption | simp)), simp)
  next
    case end_zero
    then show ?thesis by - (rule same, simp, (rule made.end_zero; (assumption | simp)), simp)
  next
    case got_zero
    then show ?thesis by - (rule same, simp, (rule made.got_zero; (assumption | simp)), simp)
  next
    case argv
    then show ?thesis by - (rule same, simp, (rule made.argv; (assumption | simp)), simp)
  next
    case sent
    then show ?thesis by - (rule same, simp, (rule made.sent; (assumption | simp)), simp)
  next
    case full
    then show ?thesis by - (rule same, simp, (rule made.full; (assumption | simp)), simp)
  next
    case refused
    then show ?thesis by - (rule same, simp, (rule made.refused; (assumption | simp)), simp)
  next
    case waited
    then show ?thesis by - (rule same, simp, (rule made.waited; (assumption | simp)), simp)
  next
    case (drawn c h1 op c')
    have "made io s a x y p (Screen op) h (a', x, if s then NOT y else y, nz a' p) h'" by (rule made.drawn[OF drawn(5-7)])
    then show ?thesis using drawn same by simp
  qed
qed

lemma returned_jumped:
  assumes "returned io d s call (r\<lparr>r_pc := q, r_p := r_p r OR 0x20\<rparr>) h u"
  shows "returned io d s call r h u"
proof -
  obtain a x y p m n h' where
    m: "made io s (r_a r) (r_x r) (r_y r) (r_p r OR 0x20) call (h\<lparr>memory := m\<rparr>) (a, x, y, p) h'" and
    k: "memory_kept d s (r_sp r) (memory h) m" "memory_kept d s (r_sp r) (memory h) n"
      "cpu_at io \<lparr>r_pc = return_address h r, r_sp = r_sp r + 2, r_a = a, r_x = x, r_y = y,
        r_p = return_flags s (call_mask call) p\<rparr> (h'\<lparr>memory := n\<rparr>) u"
    using assms unfolding returned_def by auto
  obtain p' where p: "made io s (r_a r) (r_x r) (r_y r) (r_p r) call (h\<lparr>memory := m\<rparr>) (a, x, y, p') h'" "same_flags p' p"
    using made_unused[OF m] by blast
  from p(1) k show ?thesis unfolding returned_def return_flags_same[OF p(2)] by blast
qed

lemma returned_stubs:
  assumes "returned io d s call r h u" "stubs_in t d s (memory h)"
  shows "stubs_in t d s (memory (cpu_host u))"
  using assms memory_kept_stubs cpu_at_memory unfolding returned_def by fastforce

text \<open>
  Property C4: the calls of the jump table do what their ports do. With the stubs as the loader wrote
  them, from a call at any vector, in any mode and with or without the strict interface, the CPU
  comes to the end of the program (an exit, or an access that ends it) or back at the address on the
  stack. Back, the host is what the accesses of the call made of it, each made with the registers of that
  moment, and A, X, Y and the status are exactly those of \<open>made\<close>: a read gives A, a screen call leaves the
  number of its operation in A, the flag a call returns is in the status. With the strict interface the
  flags among N, V, Z and C that the call does not return are inverted, and a screen call leaves its
  inverted number in A and Y inverted. No byte of memory is changed but the one below the stack and, with
  the strict interface, the one its tails keep A in; and the stubs are there for the next call.
\<close>

theorem stub_calls:
  fixes h :: "('d, 'z) plain_scheme"
  assumes "plain_memory t d s program address args = Inr (addresses, m)" "plain_halt h = None"
    and "\<forall>a. 0xF006 \<le> a \<and> a < 0xFE00 \<longrightarrow> memory h a = m a \<or> s \<and> a = word_of_int (stub_scratch d)"
    and "i < length (calls t d)" "r_pc r = 0xF006 + 3 * of_nat i" "cpu_at io r h u"
  shows "\<exists>n. let v = (plain_step ^^ n) u in
    if calls t d ! i = Leave then emu_done (cpu_host v) \<and> exitcode_set (cpu_host v) = Some (r_a r)
    else ended v \<or> returned io d s (calls t d ! i) r h v \<and> stubs_in t d s (memory (cpu_host v))"
proof -
  have st: "stubs_in t d s (memory h)"
    by (rule stubs_in_changed[OF plain_memory_stubs[OF assms(1)]]) (use assms(3) linorder_not_less in metis)
  obtain q where q: "code_in (generate_stubs t d s) (0xF006 + 3 * int i) [0x4C, low q, high q]"
    "code_in (generate_stubs t d s) q (call_code s (ret_code (stub_tails d s)) (calls t d ! i))"
    using call_layout[OF assms(4)] by blast
  have qb: "0 \<le> q" "q < 0x10000" using q(2) by (auto simp: code_in_def)
  have v: "code_at h r [0x4C, low q, high q]" using stubs_bytes[OF st q(1)] assms(5) by simp
  define r' where "r' = r\<lparr>r_pc := word_of_int q, r_p := r_p r OR 0x20\<rparr>"
  have c: "code_at h r' (call_code s (ret_code (stub_tails d s)) (calls t d ! i))"
    using stubs_bytes[OF st q(2)] by (simp add: r'_def)
  let ?c = "calls t d ! i"
  let ?Q = "\<lambda>v. if ?c = Leave then emu_done (cpu_host v) \<and> exitcode_set (cpu_host v) = Some (r_a r) else comes_back io d s ?c r' h v"
  have "reaches io r' h ?Q"
  proof (cases "?c = Leave")
    case True
    then show ?thesis using leave_call[OF assms(2), of r' s _ io] c by (simp add: r'_def)
  next
    case False
    then show ?thesis using call_at[OF assms(2) st _ False c] assms(4) by simp
  qed
  then have "reaches io r h ?Q"
    by (intro reaches_jmp[OF assms(2) v]) (simp add: low_high qb r'_def)
  then obtain n where "?Q ((plain_step ^^ n) u)" using assms(6) unfolding reaches_def by blast
  then show ?thesis
    using returned_jumped[of io d s ?c r "word_of_int q" h] returned_stubs[OF _ st]
    by (intro exI[of _ n]) (auto simp: Let_def comes_back_def r'_def split: if_splits)
qed

text \<open>\<open>write_b\<close> with an A, called from address 0x0302 of a machine with the strict interface.\<close>

definition called_memory :: "u16 \<Rightarrow> u8" where
  "called_memory = (snd (projr (plain_memory False False True [0x00, 0x00] 0x0200 [])))(0x01FC := 0x02)"

definition calling_cpu :: "unit plain cpu" where
  "calling_cpu = (power_on (plain_hooks some_io) (some_plain\<lparr>memory := called_memory\<rparr>))\<lparr>cpu_pc := 0xF009, cpu_sp := 0xFB, cpu_a := 0x41\<rparr>"

theorem stub_calls_witness:
  "\<exists>n. let v = (plain_step ^^ n) calling_cpu in
     ended v \<or> returned some_io False True (Put 0xF001) \<lparr>r_pc = 0xF009, r_sp = 0xFB, r_a = 0x41, r_x = 0, r_y = 0, r_p = 0\<rparr>
       (some_plain\<lparr>memory := called_memory\<rparr>) v \<and> stubs_in False False True (memory (cpu_host v))"
proof -
  let ?r = "\<lparr>r_pc = 0xF009, r_sp = 0xFB, r_a = 0x41, r_x = 0, r_y = 0, r_p = 0\<rparr> :: regs"
  obtain as m where m: "plain_memory False False True [0x00, 0x00] 0x0200 [] = Inr (as, m)"
    by (simp add: plain_memory_def plain_load_program_def)
  have c: "cpu_at some_io ?r (some_plain\<lparr>memory := called_memory\<rparr>) calling_cpu"
    by (simp add: cpu_at_def calling_cpu_def power_on_def)
  have i: "calls False False ! 1 = Put 0xF001" "1 < length (calls False False)" by (simp_all add: calls_def)
  have k: "\<forall>a. 0xF006 \<le> a \<and> a < 0xFE00 \<longrightarrow> memory (some_plain\<lparr>memory := called_memory\<rparr>) a = m a \<or> True \<and> a = word_of_int (stub_scratch False)"
    by (auto simp: called_memory_def m)
  have h: "plain_halt (some_plain\<lparr>memory := called_memory\<rparr>) = None" by (simp add: some_plain_def)
  have p: "r_pc ?r = 0xF006 + 3 * of_nat 1" by simp
  show ?thesis using stub_calls[OF m h k i(2) p c, unfolded i] by (simp only: call.distinct if_False)
qed

end
