(* ===== verification/Asm_00.thy ===== *)
theory Asm_00 imports C_Text
begin

text \<open>
  The bootstrap assembler (\<open>src/asm/00/asm.c\<close>): lines of DATA with hexadecimal values and strings,
  from which the first assembler of the chain is made. Text is its bytes; the files are the input's
  bytes and the output's, and a failure keeps what has been written.
\<close>

section \<open>The assembler\<close>

definition asm_hex_digit :: "u8 \<Rightarrow> nat option" where
  "asm_hex_digit c =
     (if 0x30 \<le> c \<and> c \<le> 0x39 then Some (unat (c - 0x30))
      else if 0x41 \<le> c \<and> c \<le> 0x46 then Some (unat (c - 0x41) + 10)
      else if 0x61 \<le> c \<and> c \<le> 0x66 then Some (unat (c - 0x61) + 10) else None)"

text \<open>The character at the pointer, the NUL at the end of the line's.\<close>

fun at :: "u8 list \<Rightarrow> u8" where
  "at [] = 0"
| "at (c # cs) = c"

definition parse_hex :: "u8 list \<Rightarrow> (nat \<times> u8 list) option" where
  "parse_hex p =
     (if at p \<noteq> 0x24 then None
      else let p = tl p in
        case asm_hex_digit (at p) of None \<Rightarrow> None
        | Some d1 \<Rightarrow> let p = tl p in
          case asm_hex_digit (at p) of None \<Rightarrow> None
          | Some d2 \<Rightarrow> let p = tl p; value = d1 * 16 + d2 in
            case asm_hex_digit (at p) of None \<Rightarrow> Some (value, p)
            | Some d3 \<Rightarrow> let p = tl p in
              case asm_hex_digit (at p) of None \<Rightarrow> None
              | Some d4 \<Rightarrow> Some (value * 256 + d3 * 16 + d4, tl p))"

definition skip_whitespace :: "u8 list \<Rightarrow> u8 list" where
  "skip_whitespace = dropWhile (\<lambda>c. c = 0x20 \<or> c = 0x09)"

text \<open>A string from after its quote on: what is emitted, and what follows.\<close>

fun data_string :: "u8 list \<Rightarrow> u8 list \<times> u8 list" where
  "data_string [] = ([], [])"
| "data_string (c # p) =
     (if c = 0x22 then ([], p)
      else if c = 0x5C \<and> p \<noteq> [] then
        let (out, rest) = data_string (tl p) in ((if hd p = 0x6E then 0x0A else hd p) # out, rest)
      else let (out, rest) = data_string p in (c # out, rest))"

lemma data_string_shorter: "length (snd (data_string p)) \<le> length p"
  by (induction p rule: data_string.induct) (auto simp: Let_def split: prod.split)

lemma parse_hex_shorter: "parse_hex p = Some (v, q) \<Longrightarrow> length q < length p"
  by (cases p) (auto simp: parse_hex_def Let_def split: option.splits if_splits)

lemma skip_shorter: "length (skip_whitespace p) \<le> length p"
  by (simp add: skip_whitespace_def length_dropWhile_le)

text \<open>The arguments of a DATA line: what is written, and whether all of them are right.\<close>

function data_args :: "u8 list \<Rightarrow> u8 list \<times> bool" where
  "data_args p =
     (let p = skip_whitespace p in
      if at p = 0x00 \<or> at p = 0x0A \<or> at p = 0x3B then ([], True)
      else if at p = 0x24 then
        (case parse_hex p of
           None \<Rightarrow> ([], False)
         | Some (value, q) \<Rightarrow>
             let (out, ok) = data_args q
             in ((if value > 0xFF then [of_nat value, of_nat (value div 256)] else [of_nat value]) @ out, ok))
      else if at p = 0x22 then
        let (s, q) = data_string (tl p); (out, ok) = data_args q in (s @ out, ok)
      else ([], False))"
  by pat_completeness auto
termination
proof (relation "measure length")
  fix p q :: "u8 list" and s and out :: "u8 list"
  have n: "at x \<noteq> 0 \<Longrightarrow> length (tl x) < length x" for x by (cases x) auto
  show "(q', p) \<in> measure length" if "x = skip_whitespace p" "parse_hex x = Some y" "(v, q') = y" for x y v q'
    using that parse_hex_shorter[of x v q'] skip_shorter[of p] by simp
  show "(q', p) \<in> measure length"
    if "x = skip_whitespace p" "\<not> (at x = 0x00 \<or> at x = 0x0A \<or> at x = 0x3B)" "y = data_string (tl x)" "(s, q') = y" for x y s q'
    using that data_string_shorter[of "tl x"] skip_shorter[of p] n[of x] by (metis in_measure order_le_less_trans order_less_le_trans snd_conv)
qed auto

declare data_args.simps [simp del]

definition process_data :: "u8 list \<Rightarrow> u8 list \<times> bool" where
  "process_data p = data_args (drop 4 p)"

definition assemble_line :: "u8 list \<Rightarrow> u8 list \<times> bool" where
  "assemble_line line =
     (let p = skip_whitespace line in
      if at p = 0x00 \<or> at p = 0x0A \<or> at p = 0x3B then ([], True)
      else if take 4 p = [0x44, 0x41, 0x54, 0x41] \<and> (at (drop 4 p) = 0x20 \<or> at (drop 4 p) = 0x09) then process_data p
      else ([], False))"

text \<open>The line buffer has 1024 bytes; C sees what \<open>fgets\<close> leaves there up to a NUL.\<close>

function assemble :: "u8 list \<Rightarrow> u8 list \<times> bool" where
  "assemble bytes =
     (if bytes = [] then ([], True)
      else let (line, rest) = fgets 1024 bytes; (out, ok) = assemble_line (c_line line) in
        if ok then let (more, ok) = assemble rest in (out @ more, ok) else (out, False))"
  by pat_completeness auto
termination
  by (relation "measure length") (use fgets_shorter[of 1024] in \<open>auto, metis snd_conv\<close>)

declare assemble.simps [simp del]

section \<open>Sources\<close>

text \<open>
  What a source means: lines without arguments, with a comment or not, and lines of data, whose
  values are bytes, words and strings; and how they are written.
\<close>

datatype datum = Byte u8 | Word u16 | Text "u8 list"

datatype source_line = Blank "u8 list option" | Data "datum list"

definition hex_char :: "nat \<Rightarrow> u8" where
  "hex_char d = (if d < 10 then 0x30 + of_nat d else 0x37 + of_nat d)"

definition hex2 :: "u8 \<Rightarrow> u8 list" where
  "hex2 b = [hex_char (unat b div 16), hex_char (unat b mod 16)]"

definition text_char :: "u8 \<Rightarrow> u8 list" where
  "text_char c = (if c = 0x0A then [0x5C, 0x6E] else if c = 0x22 \<or> c = 0x5C then [0x5C, c] else [c])"

fun datum_text :: "datum \<Rightarrow> u8 list" where
  "datum_text (Byte b) = 0x24 # hex2 b"
| "datum_text (Word w) = 0x24 # hex2 (to8 (drop_bit 8 w)) @ hex2 (to8 w)"
| "datum_text (Text cs) = 0x22 # concat (map text_char cs) @ [0x22]"

fun datum_bytes :: "datum \<Rightarrow> u8 list" where
  "datum_bytes (Byte b) = [b]"
| "datum_bytes (Word w) = [to8 w, to8 (drop_bit 8 w)]"
| "datum_bytes (Text cs) = cs"

fun line_text :: "source_line \<Rightarrow> u8 list" where
  "line_text (Blank None) = [0x0A]"
| "line_text (Blank (Some comment)) = 0x3B # comment @ [0x0A]"
| "line_text (Data ds) = [0x44, 0x41, 0x54, 0x41] @ concat (map (\<lambda>d. 0x20 # datum_text d) ds) @ [0x20, 0x0A]"

fun line_bytes :: "source_line \<Rightarrow> u8 list" where
  "line_bytes (Blank c) = []"
| "line_bytes (Data ds) = concat (map datum_bytes ds)"

text \<open>A word below $0100 is not one to this assembler; a line fits in its buffer.\<close>

fun datum_writable :: "datum \<Rightarrow> bool" where
  "datum_writable (Byte b) = True"
| "datum_writable (Word w) = (0x100 \<le> w)"
| "datum_writable (Text cs) = (0 \<notin> set cs)"

fun writable :: "source_line \<Rightarrow> bool" where
  "writable (Blank None) = True"
| "writable (Blank (Some comment)) = (0x0A \<notin> set comment \<and> length comment \<le> 1021)"
| "writable (Data ds) = (list_all datum_writable ds \<and> length (line_text (Data ds)) \<le> 1023)"

section \<open>Values\<close>

lemma asm_hex_digit_char: "d < 16 \<Longrightarrow> asm_hex_digit (hex_char d) = Some d"
proof -
  have "\<forall>d\<in>set [0..<16]. asm_hex_digit (hex_char d) = Some d" by code_simp
  then show "d < 16 \<Longrightarrow> asm_hex_digit (hex_char d) = Some d" by simp
qed

lemma hex_char_not: "d < 16 \<Longrightarrow> hex_char d \<notin> {0, 0x0A}"
proof -
  have "\<forall>d\<in>set [0..<16]. hex_char d \<noteq> 0 \<and> hex_char d \<noteq> 0x0A" by code_simp
  then show "d < 16 \<Longrightarrow> hex_char d \<notin> {0, 0x0A}" by simp
qed

lemma at_Cons_append [simp]: "at ((c # cs) @ ds) = c"
  by simp

lemma hex2_value: "unat b div 16 * 16 + unat b mod 16 = unat (b :: u8)"
  by simp

lemma unat_u8_hex: "unat (b :: u8) div 16 < 16" "unat (b :: u8) mod 16 < 16"
  using unat_u8_less[of b] by simp_all

lemma parse_byte:
  "asm_hex_digit (at rest) = None \<Longrightarrow> parse_hex (0x24 # hex2 b @ rest) = Some (unat b, rest)"
  using unat_u8_hex[of b] by (simp add: parse_hex_def hex2_def asm_hex_digit_char Let_def)

lemma parse_word:
  "parse_hex (0x24 # hex2 b @ hex2 c @ rest) = Some (unat b * 256 + unat c, rest)"
  using unat_u8_hex[of b] unat_u8_hex[of c] by (simp add: parse_hex_def hex2_def asm_hex_digit_char Let_def)

lemma data_string_text:
  "0 \<notin> set cs \<Longrightarrow> data_string (concat (map text_char cs) @ 0x22 # rest) = (cs, rest)"
  by (induction cs) (auto simp: text_char_def)

lemma unat_high: "unat (to8 (drop_bit 8 w)) = unat (w :: u16) div 256"
  using unat_u16_less[of w]
  by (simp add: unsigned_ucast_eq unsigned_drop_bit_eq drop_bit_eq_div unat_div_distrib take_bit_eq_mod)

lemma unat_low: "unat (to8 w) = unat (w :: u16) mod 256"
  by (simp add: unsigned_ucast_eq take_bit_eq_mod)

lemma word_value: "unat (to8 (drop_bit 8 w)) * 256 + unat (to8 w) = unat (w :: u16)"
  by (subst unat_high, subst unat_low) simp

lemma word_bytes: "of_nat (unat w) = to8 w" "of_nat (unat w div 256) = to8 (drop_bit 8 (w :: u16))"
proof -
  have "of_nat (unat x) = x" for x :: u8 by simp
  then show "of_nat (unat w div 256) = to8 (drop_bit 8 w)" by (metis unat_high)
qed simp

text \<open>The arguments of a line, read back.\<close>

lemma data_args_space: "data_args (0x20 # p) = data_args p"
  by (subst (1 2) data_args.simps) (simp add: skip_whitespace_def)

lemma data_args_step:
  "data_args (0x20 # datum_text d @ 0x20 # rest) = (let (out, ok) = data_args (0x20 # rest) in (datum_bytes d @ out, ok))"
  if "datum_writable d"
proof (cases d)
  case (Byte b)
  have "asm_hex_digit (at (0x20 # rest)) = None" by (simp add: asm_hex_digit_def)
  note h = parse_byte[OF this, of b]
  show ?thesis using unat_u8_less[of b]
    by (subst data_args.simps) (simp add: Byte skip_whitespace_def h)
next
  case (Word w)
  then have "0x100 \<le> unat w" using that by (simp add: word_le_nat_alt)
  then show ?thesis
    by (subst data_args.simps)
      (simp add: Word skip_whitespace_def parse_word word_value word_bytes)
next
  case (Text cs)
  then show ?thesis using that
    by (subst data_args.simps) (simp add: skip_whitespace_def data_string_text)
qed

lemma data_args_list:
  "list_all datum_writable ds \<Longrightarrow> data_args (concat (map (\<lambda>d. 0x20 # datum_text d) ds) @ [0x20, 0x0A]) = (concat (map datum_bytes ds), True)"
proof (induction ds)
  case Nil
  then show ?case by (subst data_args.simps) (simp add: skip_whitespace_def)
next
  case (Cons d ds)
  obtain rest where r: "concat (map (\<lambda>d. 0x20 # datum_text d) ds) @ [0x20, 0x0A] = 0x20 # rest" by (cases ds) simp_all
  then show ?case using Cons data_args_step[of d rest] by simp
qed

section \<open>Lines\<close>

definition plain_byte :: "u8 \<Rightarrow> bool" where
  "plain_byte c \<longleftrightarrow> c \<noteq> 0 \<and> c \<noteq> 0x0A"

lemma hex2_plain: "list_all plain_byte (hex2 b)"
  using hex_char_not[OF unat_u8_hex(1)[of b]] hex_char_not[OF unat_u8_hex(2)[of b]]
  by (simp add: hex2_def plain_byte_def)

lemma text_plain: "0 \<notin> set cs \<Longrightarrow> list_all plain_byte (concat (map text_char cs))"
  by (induction cs) (auto simp: text_char_def plain_byte_def)

lemma datum_plain: "datum_writable d \<Longrightarrow> list_all plain_byte (datum_text d)"
  using hex2_plain by (cases d) (auto simp: text_plain, simp_all add: plain_byte_def)

lemma data_plain: "list_all datum_writable ds \<Longrightarrow> list_all plain_byte (concat (map (\<lambda>d. 0x20 # datum_text d) ds))"
  by (induction ds) (auto simp: datum_plain, simp_all add: plain_byte_def)

lemma c_line_plain: "list_all plain_byte body \<Longrightarrow> c_line (body @ [0x0A]) = body @ [0x0A]"
  by (induction body) (auto simp: c_line_def plain_byte_def)

text \<open>A line is its text up to the newline, and what it assembles to.\<close>

lemma line_body:
  assumes "writable l"
  obtains body where "line_text l = body @ [0x0A]" "0x0A \<notin> set body" "length body < 1023"
proof (cases l)
  case (Blank c)
  then show ?thesis
    using assms that[of "case c of None \<Rightarrow> [] | Some c \<Rightarrow> 0x3B # c"] by (cases c) auto
next
  case (Data ds)
  have "0x0A \<notin> set (concat (map (\<lambda>d. 0x20 # datum_text d) ds))"
    using data_plain[of ds] assms Data by (auto simp: list_all_iff plain_byte_def)
  then show ?thesis
    using assms Data that[of "[0x44, 0x41, 0x54, 0x41] @ concat (map (\<lambda>d. 0x20 # datum_text d) ds) @ [0x20]"] by simp
qed

lemma line_assembles:
  assumes "writable l"
  shows "assemble_line (c_line (line_text l)) = (line_bytes l, True)"
proof (cases l)
  case (Blank c)
  then show ?thesis
    by (cases c) (simp_all add: assemble_line_def c_line_def skip_whitespace_def)
next
  case (Data ds)
  define args where "args = concat (map (\<lambda>d. 0x20 # datum_text d) ds)"
  have ok: "list_all datum_writable ds" using assms Data by simp
  have "c_line (([0x44, 0x41, 0x54, 0x41] @ args @ [0x20]) @ [0x0A]) = ([0x44, 0x41, 0x54, 0x41] @ args @ [0x20]) @ [0x0A]"
    using data_plain[OF ok] by (intro c_line_plain) (simp add: args_def, simp add: plain_byte_def)
  moreover have "at (args @ [0x20, 0x0A]) = 0x20" by (cases ds) (simp_all add: args_def)
  ultimately show ?thesis
    using data_args_list[OF ok]
    by (simp add: Data assemble_line_def skip_whitespace_def process_data_def flip: args_def)
qed

text \<open>
  Property C34: The bootstrap assembler assembles a source to what its lines say: the written form of
  any list of lines - blank, comments, and data of bytes, words from $0100 and strings with any
  character but NUL, quotes, backslashes and newlines escaped, each within the line buffer - gives
  the bytes of the data in order, words low byte first, and no error.
\<close>

theorem assemble_source:
  "list_all writable ls \<Longrightarrow> assemble (concat (map line_text ls)) = (concat (map line_bytes ls), True)"
proof (induction ls)
  case Nil
  then show ?case by (subst assemble.simps) simp
next
  case (Cons l ls)
  then have "writable l" by simp
  then obtain body where b: "line_text l = body @ [0x0A]" "0x0A \<notin> set body" "length body < 1023" by (rule line_body)
  have "c_line (body @ [0x0A]) = c_line (line_text l)" using b by simp
  then have "assemble_line (c_line (body @ [0x0A])) = (line_bytes l, True)" using line_assembles[OF \<open>writable l\<close>] by simp
  then show ?case using Cons fgets_line[OF b(2), of 1024] b(3)
    by (subst assemble.simps) (simp add: b(1))
qed

lemma assemble_source_witness:
  "assemble (concat (map line_text [Blank (Some [0x21]), Data [Word 0x0200, Text [0x22, 0x0A], Byte 7], Blank None])) =
     ([0x00, 0x02, 0x22, 0x0A, 0x07], True)"
proof -
  have "list_all writable [Blank (Some [0x21]), Data [Word 0x0200, Text [0x22, 0x0A], Byte 7], Blank None]"
    by code_simp
  then have "assemble (concat (map line_text ls)) = (concat (map line_bytes ls), True)"
    if "ls = [Blank (Some [0x21]), Data [Word 0x0200, Text [0x22, 0x0A], Byte 7], Blank None]" for ls
    using that assemble_source by blast
  moreover have "concat (map line_bytes [Blank (Some [0x21]), Data [Word 0x0200, Text [0x22, 0x0A], Byte 7], Blank None]) =
      [0x00, 0x02, 0x22, 0x0A, 0x07]"
    by code_simp
  ultimately show ?thesis by metis
qed

text \<open>A word below $0100 is written with four digits and emitted as one byte.\<close>

lemma small_word_is_a_byte: "assemble_line (line_text (Data [Word 0x0012])) = ([0x12], True)"
  by code_simp

text \<open>A comment that does not fit in the buffer is read as a second line.\<close>

lemma long_comment_fails:
  "assemble (line_text (Blank (Some (replicate 1022 0x3B @ [0x21])))) = ([], False)"
proof -
  define body where "body = (0x3B :: u8) # replicate 1022 0x3B"
  have "takeWhile (\<lambda>c. c \<noteq> 0x0A) (body @ [0x21, 0x0A]) = body @ [0x21]"
    by (subst takeWhile_append2) (auto simp: body_def)
  then have n: "fgets 1024 (body @ [0x21, 0x0A]) = (body, [0x21, 0x0A])" by (simp add: fgets_def body_def)
  have "assemble_line (c_line body) = ([], True)"
    by (simp add: body_def c_line_def assemble_line_def skip_whitespace_def)
  moreover have "assemble [0x21, 0x0A] = ([], False)" by code_simp
  moreover have "length body = 1023" by (simp add: body_def)
  moreover have "line_text (Blank (Some (replicate 1022 0x3B @ [0x21]))) = body @ [0x21, 0x0A]"
    by (simp add: body_def)
  moreover have "body \<noteq> []" by (simp add: body_def)
  ultimately show ?thesis using n by (simp only:, subst assemble.simps) simp
qed

end
