(* ===== verification/Web_Json.thy ===== *)
theory Web_Json imports C_Text
begin

text \<open>
  The messages of a page (\<open>src/emulator/web_json.c\<close>): a parser for a subset of JSON that takes the type, a
  number and a list of bytes out of an object and reads past the rest. A position in the text is what
  follows it; \<open>None\<close> is a return of \<open>-1\<close>, after which C leaves the message unused.
\<close>

section \<open>Strings and numbers\<close>

definition WEB_JSON_MAX_DEPTH :: nat where "WEB_JSON_MAX_DEPTH = 8"
definition WEB_JSON_TYPE_MAX :: nat where "WEB_JSON_TYPE_MAX = 32"
definition WEB_JSON_BYTES_MAX :: nat where "WEB_JSON_BYTES_MAX = 64"
definition NUMBER_DIGITS_CAP :: nat where "NUMBER_DIGITS_CAP = 18"

definition is_ws :: "u8 \<Rightarrow> bool" where
  "is_ws c \<longleftrightarrow> c = 0x20 \<or> c = 0x09 \<or> c = 0x0A \<or> c = 0x0D"

definition skip_ws :: "u8 list \<Rightarrow> u8 list" where
  "skip_ws = dropWhile is_ws"

definition peek :: "u8 list \<Rightarrow> u8 option" where
  "peek p = (case p of [] \<Rightarrow> None | c # q \<Rightarrow> Some c)"

definition json_escape :: "u8 \<Rightarrow> u8 option" where
  "json_escape e =
     (if e = 0x22 then Some 0x22 else if e = 0x5C then Some 0x5C else if e = 0x2F then Some 0x2F
      else if e = 0x6E then Some 0x0A else if e = 0x72 then Some 0x0D else if e = 0x74 then Some 0x09
      else if e = 0x62 then Some 0x08 else if e = 0x66 then Some 0x0C else None)"

text \<open>The bytes of a string after its quote, unescaped, and what follows it.\<close>

fun string_body :: "u8 list \<Rightarrow> (u8 list \<times> u8 list) option" where
  "string_body [] = None"
| "string_body (c # p) =
     (if c = 0x22 then Some ([], p)
      else if c = 0x5C then
        (case p of [] \<Rightarrow> None
         | e # q \<Rightarrow> (case json_escape e of None \<Rightarrow> None | Some x \<Rightarrow> map_option (apfst (Cons x)) (string_body q)))
      else map_option (apfst (Cons c)) (string_body p))"

definition parse_string :: "u8 list \<Rightarrow> (u8 list \<times> u8 list) option" where
  "parse_string p = (if peek p \<noteq> Some 0x22 then None else string_body (tl p))"

text \<open>A buffer keeps the bytes but its last for the NUL; C reads the string in it up to the first.\<close>

definition in_buffer :: "nat \<Rightarrow> u8 list \<Rightarrow> u8 list" where
  "in_buffer room bytes = takeWhile (\<lambda>c. c \<noteq> 0) (take (room - 1) bytes)"

definition is_digit :: "u8 \<Rightarrow> bool" where
  "is_digit c \<longleftrightarrow> 0x30 \<le> c \<and> c \<le> 0x39"

definition digits_value :: "u8 list \<Rightarrow> int" where
  "digits_value ds = foldl (\<lambda>v c. v * 10 + uint (c - 0x30)) 0 ds"

definition parse_int :: "u8 list \<Rightarrow> (int \<times> u8 list) option" where
  "parse_int p =
     (let (sign, p) = (if peek p = Some 0x2D then (-1, tl p) else (1, p));
          ds = takeWhile is_digit p; q = dropWhile is_digit p
      in if ds = [] \<or> NUMBER_DIGITS_CAP < length ds \<or> peek q \<in> {Some 0x2E, Some 0x65, Some 0x45} then None
         else Some (sign * digits_value ds, q))"

text \<open>A list of bytes from after its bracket on.\<close>

lemma skip_ws_length: "length (skip_ws p) \<le> length p"
  by (simp add: skip_ws_def length_dropWhile_le)

lemma string_body_shorter: "string_body p = Some (s, q) \<Longrightarrow> length q < length p"
  by (induction p arbitrary: s q rule: string_body.induct)
    (fastforce split: if_splits list.splits option.splits)+

lemma parse_string_shorter: "parse_string p = Some (s, q) \<Longrightarrow> length q < length p"
  using string_body_shorter[of "tl p" s q] by (cases p) (auto simp: parse_string_def peek_def split: if_splits)

lemma parse_int_shorter: "parse_int p = Some (v, q) \<Longrightarrow> length q < length p"
proof -
  have "takeWhile is_digit r \<noteq> [] \<Longrightarrow> length (dropWhile is_digit r) < length r" for r
    using length_dropWhile_le[of is_digit "tl r"] by (cases r) (auto split: if_splits)
  from this[of p] this[of "tl p"] show "parse_int p = Some (v, q) \<Longrightarrow> length q < length p"
    by (auto simp: parse_int_def Let_def split: if_splits)
qed

lemma skip_tl_length: "length (tl (skip_ws p)) \<le> length p"
  using skip_ws_length[of p] by simp

lemma parse_int_after: "parse_int (skip_ws p) = Some (v, q) \<Longrightarrow> length (skip_ws q) - Suc 0 < length p"
  using parse_int_shorter[of "skip_ws p" v q] skip_ws_length[of p] skip_ws_length[of q] by linarith

function byte_items :: "u8 list \<Rightarrow> u8 list \<Rightarrow> (u8 list \<times> u8 list) option" where
  "byte_items out p =
     (if length out = WEB_JSON_BYTES_MAX then None
      else case parse_int (skip_ws p) of
        None \<Rightarrow> None
      | Some (v, q) \<Rightarrow>
          if v < 0 \<or> 255 < v then None
          else let out = out @ [word_of_int v]; q = skip_ws q in
            if peek q = Some 0x2C then byte_items out (tl q)
            else if peek q = Some 0x5D then Some (out, tl q) else None)"
  by pat_completeness auto
termination
  by (relation "measure (length \<circ> snd)") (auto dest!: parse_int_after)

declare byte_items.simps [simp del]

definition parse_byte_array :: "u8 list \<Rightarrow> (u8 list \<times> u8 list) option" where
  "parse_byte_array p =
     (if peek p \<noteq> Some 0x5B then None
      else let p = skip_ws (tl p) in if peek p = Some 0x5D then Some ([], tl p) else byte_items [] p)"

section \<open>Values read past\<close>

definition match_keyword :: "string \<Rightarrow> u8 list \<Rightarrow> u8 list option" where
  "match_keyword kw p = (if take (length kw) p = map of_char kw then Some (drop (length kw) p) else None)"

text \<open>
  A value at a depth, and the members and elements of an object or array from the next one on.
\<close>

function (domintros) parse_value :: "nat \<Rightarrow> u8 list \<Rightarrow> u8 list option"
  and parse_pairs :: "nat \<Rightarrow> u8 list \<Rightarrow> u8 list option"
  and parse_elements :: "nat \<Rightarrow> u8 list \<Rightarrow> u8 list option"
where
  "parse_value depth p =
     (if WEB_JSON_MAX_DEPTH < depth then None
      else let p = skip_ws p in
        case p of [] \<Rightarrow> None
        | c # q \<Rightarrow>
            if c = 0x22 then map_option snd (parse_string p)
            else if c = 0x7B then
              if WEB_JSON_MAX_DEPTH \<le> depth then None
              else let q = skip_ws q in if peek q = Some 0x7D then Some (tl q) else parse_pairs depth q
            else if c = 0x5B then
              if WEB_JSON_MAX_DEPTH \<le> depth then None
              else let q = skip_ws q in if peek q = Some 0x5D then Some (tl q) else parse_elements depth q
            else if c = 0x74 then match_keyword ''true'' p
            else if c = 0x66 then match_keyword ''false'' p
            else if c = 0x6E then match_keyword ''null'' p
            else if c = 0x2D \<or> is_digit c then map_option snd (parse_int p)
            else None)"
| "parse_pairs depth p =
     (case parse_string (skip_ws p) of
        None \<Rightarrow> None
      | Some (key, q) \<Rightarrow>
          let q = skip_ws q in
          if peek q \<noteq> Some 0x3A then None
          else case parse_value (depth + 1) (skip_ws (tl q)) of
            None \<Rightarrow> None
          | Some r \<Rightarrow> let r = skip_ws r in
              if peek r = Some 0x2C then parse_pairs depth (tl r) else if peek r = Some 0x7D then Some (tl r) else None)"
| "parse_elements depth p =
     (case parse_value (depth + 1) (skip_ws p) of
        None \<Rightarrow> None
      | Some r \<Rightarrow> let r = skip_ws r in
          if peek r = Some 0x2C then parse_elements depth (tl r) else if peek r = Some 0x5D then Some (tl r) else None)"
  by pat_completeness auto

text \<open>Each reads at least a byte, so the recursion ends.\<close>

lemma match_keyword_shorter: "match_keyword kw p = Some q \<Longrightarrow> kw \<noteq> [] \<Longrightarrow> p \<noteq> [] \<Longrightarrow> length q < length p"
  by (auto simp: match_keyword_def split: if_splits)

lemma after_space: "skip_ws p = c # q \<Longrightarrow> length (skip_ws q) < length p"
  using skip_ws_length[of p] skip_ws_length[of q] by simp

lemma after_key:
  "parse_string (skip_ws p) = Some (key, r) \<Longrightarrow> length (skip_ws (tl (skip_ws r))) < length p"
  using parse_string_shorter[of "skip_ws p" key r] skip_ws_length[of p] skip_ws_length[of "tl (skip_ws r)"] skip_tl_length[of r]
  by linarith

lemma after_value: "length r < length (skip_ws p) \<Longrightarrow> length (tl (skip_ws r)) < length p"
  using skip_tl_length[of r] skip_ws_length[of p] by linarith

lemma shorter_partly:
  "parse_value_parse_pairs_parse_elements_dom (Inl (d, p)) \<Longrightarrow> parse_value d p = Some q \<Longrightarrow> length q < length p"
  "parse_value_parse_pairs_parse_elements_dom (Inr (Inl (d, p))) \<Longrightarrow> parse_pairs d p = Some q \<Longrightarrow> length q < length p"
  "parse_value_parse_pairs_parse_elements_dom (Inr (Inr (d, p))) \<Longrightarrow> parse_elements d p = Some q \<Longrightarrow> length q < length p"
proof (induction arbitrary: q and q and q rule: parse_value_parse_pairs_parse_elements.pinduct)
  case (1 d p)
  have l: "length (skip_ws p) \<le> length p" by (rule skip_ws_length)
  show ?case
  proof (cases "skip_ws p")
    case Nil
    then show ?thesis using 1 by (simp add: parse_value.psimps split: if_splits)
  next
    case (Cons c r)
    have t: "length (tl (skip_ws r)) < length p" "length (skip_ws r) < length p"
      using l Cons skip_tl_length[of r] skip_ws_length[of r] by simp_all
    show ?thesis
      using 1 Cons l t parse_string_shorter[of "skip_ws p"] parse_int_shorter[of "skip_ws p"]
        match_keyword_shorter[of _ "skip_ws p"]
      by (auto simp: parse_value.psimps Let_def split: if_splits) fastforce+
  qed
next
  case (2 d p)
  have n: "tl (skip_ws q) \<noteq> [] \<Longrightarrow> length (tl (skip_ws q)) < length q" "length (tl (skip_ws q)) \<le> length q" for q
    using skip_tl_length[of q] skip_ws_length[of q] by (cases "skip_ws q"; simp)+
  from 2 obtain key r where r: "parse_string (skip_ws p) = Some (key, r)" "peek (skip_ws r) = Some 0x3A"
    by (auto simp: parse_pairs.psimps Let_def split: option.splits if_splits)
  let ?v = "skip_ws (tl (skip_ws r))"
  from 2 r obtain t where t: "parse_value (d + 1) ?v = Some t"
    by (auto simp: parse_pairs.psimps Let_def split: option.splits)
  have lr: "length r < length p" using parse_string_shorter[OF r(1)] skip_ws_length[of p] by simp
  have "length t < length ?v" using 2(2)[OF r(1) refl refl] r(2) t by simp
  then have lt: "length t < length p" using lr skip_ws_length[of "tl (skip_ws r)"] n(2)[of r] by linarith
  then show ?case
    using 2(1,4) 2(3)[OF r(1) refl refl _ t refl] r t n(2)[of t]
    by (fastforce simp: parse_pairs.psimps Let_def split: if_splits)
next
  case (3 d p)
  have n: "length (tl (skip_ws q)) \<le> length q" for q by (rule skip_tl_length)
  from 3 obtain t where t: "parse_value (d + 1) (skip_ws p) = Some t"
    by (auto simp: parse_elements.psimps split: option.splits)
  have "length t < length (skip_ws p)" using 3(2) t by simp
  then have "length t < length p" using skip_ws_length[of p] by simp
  then show ?case
    using 3(1,4) 3(3)[OF t refl] t n[of t]
    by (fastforce simp: parse_elements.psimps Let_def split: if_splits)
qed

lemma parse_value_total: "All parse_value_parse_pairs_parse_elements_dom"
proof (relation "measure (case_sum (\<lambda>(d, p). 2 * length p) (case_sum (\<lambda>(d, p). 2 * length p + 1) (\<lambda>(d, p). 2 * length p + 1)))", goal_cases)
  case (2 depth p x c q y)
  then show ?case using after_space[of p c q] by simp
next
  case (3 depth p x c q y)
  then show ?case using after_space[of p c q] by simp
next
  case (4 depth p x key r y)
  then show ?case using after_key[of p key r] by auto
next
  case (5 depth p x key r y t z)
  then show ?case
    using after_key[of p key r] shorter_partly(1)[of "depth + 1" "skip_ws (tl y)" t] skip_tl_length[of t] by auto
next
  case (6 depth p)
  then show ?case using skip_ws_length[of p] by simp
next
  case (7 depth p t z)
  then show ?case using shorter_partly(1)[of "depth + 1" "skip_ws p" t] after_value[of t p] by auto
qed simp

termination parse_value
  by (rule parse_value_total)

declare parse_value.simps [simp del] parse_pairs.simps [simp del] parse_elements.simps [simp del]

lemmas value_shorter = shorter_partly(1)[OF spec[OF parse_value_total]]

section \<open>Messages\<close>

text \<open>What was given of the three fields; a type is the C string in its buffer.\<close>

record web_json_msg =
  msg_type :: "u8 list option"
  msg_down :: "int option"
  msg_bytes :: "u8 list option"

definition no_msg :: web_json_msg where
  "no_msg = \<lparr>msg_type = None, msg_down = None, msg_bytes = None\<rparr>"

definition parse_member :: "u8 list \<Rightarrow> u8 list \<Rightarrow> web_json_msg \<Rightarrow> (web_json_msg \<times> u8 list) option" where
  "parse_member key p m =
     (if key = bytes_of ''type'' then
        map_option (\<lambda>(s, q). (m\<lparr>msg_type := Some (in_buffer WEB_JSON_TYPE_MAX s)\<rparr>, q)) (parse_string p)
      else if key = bytes_of ''down'' then map_option (\<lambda>(v, q). (m\<lparr>msg_down := Some v\<rparr>, q)) (parse_int p)
      else if key = bytes_of ''bytes'' then map_option (\<lambda>(b, q). (m\<lparr>msg_bytes := Some b\<rparr>, q)) (parse_byte_array p)
      else map_option (Pair m) (parse_value 1 p))"

lemma byte_items_shorter: "byte_items out p = Some (b, q) \<Longrightarrow> length q < length p"
proof (induction out p rule: byte_items.induct)
  case (1 out p)
  then obtain v r where v: "parse_int (skip_ws p) = Some (v, r)" "\<not> (v < 0 \<or> 255 < v)" "length out \<noteq> WEB_JSON_BYTES_MAX"
    by (subst (asm) (2) byte_items.simps) (auto split: if_splits option.splits)
  have l: "length (tl (skip_ws r)) < length p"
    using after_value[of r p] parse_int_shorter[OF v(1)] by simp
  show ?case
    using 1(2) v l 1(1)[OF v(3) v(1) refl v(2) refl refl]
    by (subst (asm) byte_items.simps) (auto simp: Let_def split: if_splits)
qed

lemma parse_member_shorter: "parse_member key p m = Some (m', q) \<Longrightarrow> length q < length p"
proof -
  have "parse_byte_array p = Some (b, q) \<Longrightarrow> length q < length p" for b
    using byte_items_shorter[of "[]" "skip_ws (tl p)" b q] skip_ws_length[of "tl p"]
    by (cases p) (auto simp: parse_byte_array_def peek_def Let_def split: if_splits)
  moreover have "parse_value 1 p = Some q \<Longrightarrow> length q < length p"
    by (rule value_shorter)
  ultimately show "parse_member key p m = Some (m', q) \<Longrightarrow> length q < length p"
    by (auto simp: parse_member_def parse_string_shorter parse_int_shorter split: if_splits)
qed

function parse_members :: "web_json_msg \<Rightarrow> u8 list \<Rightarrow> web_json_msg option" where
  "parse_members m p =
     (case parse_string (skip_ws p) of
        None \<Rightarrow> None
      | Some (key, q) \<Rightarrow>
          let q = skip_ws q in
          if peek q \<noteq> Some 0x3A then None
          else case parse_member (in_buffer 24 key) (skip_ws (tl q)) m of
            None \<Rightarrow> None
          | Some (m, r) \<Rightarrow> let r = skip_ws r in
              if peek r = Some 0x2C then parse_members m (tl r)
              else if peek r = Some 0x7D \<and> skip_ws (tl r) = [] then Some m else None)"
  by pat_completeness auto
termination
proof (relation "measure (length \<circ> snd)", goal_cases)
  case (2 m p x key q q' y m' r r')
  then have "length r < length (skip_ws (tl (skip_ws q)))" using parse_member_shorter by fastforce
  then show ?case using 2 after_key[of p key q] skip_tl_length[of r] by auto
qed simp

declare parse_members.simps [simp del]

definition web_json_parse :: "u8 list \<Rightarrow> web_json_msg option" where
  "web_json_parse s =
     (let p = skip_ws s in
      if peek p \<noteq> Some 0x7B then None
      else let p = skip_ws (tl p) in
        if peek p = Some 0x7D then (if skip_ws (tl p) = [] then Some no_msg else None) else parse_members no_msg p)"

section \<open>Objects as they are written\<close>

text \<open>What a page can send: values, their text without white space, and which of them the parser takes.\<close>

datatype json = JString "u8 list" | JNumber int | JTrue | JFalse | JNull | JArray "json list" | JObject "(u8 list \<times> json) list"

definition char_text :: "u8 \<Rightarrow> u8 list" where
  "char_text c =
     (if c = 0x22 then [0x5C, 0x22] else if c = 0x5C then [0x5C, 0x5C] else if c = 0x0A then [0x5C, 0x6E]
      else if c = 0x0D then [0x5C, 0x72] else if c = 0x09 then [0x5C, 0x74] else if c = 0x08 then [0x5C, 0x62]
      else if c = 0x0C then [0x5C, 0x66] else [c])"

definition string_text :: "u8 list \<Rightarrow> u8 list" where
  "string_text s = 0x22 # concat (map char_text s) @ [0x22]"

fun joined :: "u8 list list \<Rightarrow> u8 list" where
  "joined [] = []"
| "joined (x # xs) = x @ (if xs = [] then [] else 0x2C # joined xs)"

fun json_text :: "json \<Rightarrow> u8 list" where
  "json_text (JString s) = string_text s"
| "json_text (JNumber n) = dec_int n"
| "json_text JTrue = bytes_of ''true''"
| "json_text JFalse = bytes_of ''false''"
| "json_text JNull = bytes_of ''null''"
| "json_text (JArray vs) = 0x5B # joined (map json_text vs) @ [0x5D]"
| "json_text (JObject ms) = 0x7B # joined (map (\<lambda>(k, v). string_text k @ 0x3A # json_text v) ms) @ [0x7D]"

definition number_taken :: "int \<Rightarrow> bool" where
  "number_taken n \<longleftrightarrow> \<bar>n\<bar> < 10 ^ NUMBER_DIGITS_CAP"

fun taken :: "nat \<Rightarrow> json \<Rightarrow> bool" where
  "taken d (JNumber n) = (d \<le> WEB_JSON_MAX_DEPTH \<and> number_taken n)"
| "taken d (JArray vs) = (d < WEB_JSON_MAX_DEPTH \<and> list_all (taken (d + 1)) vs)"
| "taken d (JObject ms) = (d < WEB_JSON_MAX_DEPTH \<and> list_all (\<lambda>(k, v). taken (d + 1) v) ms)"
| "taken d v = (d \<le> WEB_JSON_MAX_DEPTH)"

fun byte_of :: "json \<Rightarrow> u8 option" where
  "byte_of (JNumber n) = (if 0 \<le> n \<and> n \<le> 255 then Some (word_of_int n) else None)"
| "byte_of v = None"

fun bytes_in :: "json \<Rightarrow> u8 list option" where
  "bytes_in (JArray vs) = (if length vs \<le> WEB_JSON_BYTES_MAX then those (map byte_of vs) else None)"
| "bytes_in v = None"

definition member_meaning :: "u8 list \<times> json \<Rightarrow> web_json_msg \<Rightarrow> web_json_msg option" where
  "member_meaning = (\<lambda>(k, v) m.
     let key = in_buffer 24 k in
     if key = bytes_of ''type'' then
       (case v of JString s \<Rightarrow> Some (m\<lparr>msg_type := Some (in_buffer WEB_JSON_TYPE_MAX s)\<rparr>) | _ \<Rightarrow> None)
     else if key = bytes_of ''down'' then
       (case v of JNumber n \<Rightarrow> if number_taken n then Some (m\<lparr>msg_down := Some n\<rparr>) else None | _ \<Rightarrow> None)
     else if key = bytes_of ''bytes'' then map_option (\<lambda>b. m\<lparr>msg_bytes := Some b\<rparr>) (bytes_in v)
     else if taken 1 v then Some m else None)"

fun object_meaning :: "(u8 list \<times> json) list \<Rightarrow> web_json_msg \<Rightarrow> web_json_msg option" where
  "object_meaning [] m = Some m"
| "object_meaning (x # xs) m = (case member_meaning x m of None \<Rightarrow> None | Some m \<Rightarrow> object_meaning xs m)"

section \<open>Reading back what is written\<close>

definition ends :: "u8 list \<Rightarrow> bool" where
  "ends rest \<longleftrightarrow> peek rest \<in> {Some 0x2C, Some 0x7D, Some 0x5D}"

lemma ends_Cons [simp]: "ends (0x2C # p)" "ends (0x7D # p)" "ends (0x5D # p)"
  by (simp_all add: ends_def peek_def)

lemma peek_simps [simp]: "peek [] = None" "peek (c # p) = Some c" "peek ((c # p) @ q) = Some c"
  by (simp_all add: peek_def)

lemma skip_ws_Cons: "\<not> is_ws c \<Longrightarrow> skip_ws (c # p) = c # p"
  by (simp add: skip_ws_def)

lemma string_body_text: "string_body (concat (map char_text s) @ 0x22 # rest) = Some (s, rest)"
proof (induction s)
  case (Cons c s)
  then show ?case by (cases "c \<in> {0x22, 0x5C, 0x0A, 0x0D, 0x09, 0x08, 0x0C}") (auto simp: char_text_def json_escape_def)
qed simp

lemma parse_string_text: "parse_string (string_text s @ rest) = Some (s, rest)"
  by (simp add: parse_string_def string_text_def string_body_text)

lemma digit_char: "d < 10 \<Longrightarrow> is_digit (48 + word_of_nat d) \<and> uint ((48 + word_of_nat d :: u8) - 0x30) = int d"
  by (simp add: is_digit_def word_le_nat_alt unat_word_ariths unat_of_nat take_bit_nat_eq_self uint_nat)

lemma dec_digits_digits: "list_all is_digit (dec_digits n) \<and> dec_digits n \<noteq> []"
proof (induction n rule: dec_digits.induct)
  case (1 n)
  then show ?case using digit_char[of n] digit_char[of "n mod 10"] by (subst (1 2) dec_digits.simps) auto
qed

lemma dec_digits_value: "digits_value (dec_digits n) = int n"
proof (induction n rule: dec_digits.induct)
  case (1 n)
  show ?case
  proof (cases "n < 10")
    case True
    then show ?thesis using digit_char[of n] by (subst dec_digits.simps) (simp add: digits_value_def)
  next
    case False
    then have "digits_value (dec_digits n) = digits_value (dec_digits (n div 10)) * 10 + int (n mod 10)"
      using digit_char[of "n mod 10"] by (subst dec_digits.simps) (simp add: digits_value_def)
    moreover have "int (n div 10) * 10 + int (n mod 10) = int n"
      using arg_cong[OF div_mult_mod_eq[of n 10], of int] by (simp only: of_nat_add of_nat_mult of_nat_numeral)
    ultimately show ?thesis using 1 False by simp
  qed
qed

lemma dec_digits_length: "0 < k \<Longrightarrow> length (dec_digits n) \<le> k \<longleftrightarrow> n < 10 ^ k"
proof (induction n arbitrary: k rule: dec_digits.induct)
  case (1 n)
  show ?case
  proof (cases "n < 10")
    case True
    have "(10 :: nat) \<le> 10 ^ k" using 1(2) by (cases k) simp_all
    then show ?thesis using True 1(2) by (subst dec_digits.simps) simp
  next
    case False
    then have l: "length (dec_digits n) = Suc (length (dec_digits (n div 10)))" by (subst dec_digits.simps) simp
    show ?thesis
    proof (cases k)
      case (Suc j)
      show ?thesis
      proof (cases "j = 0")
        case True
        then show ?thesis using False Suc l dec_digits_digits[of "n div 10"] by simp
      next
        case j: False
        then show ?thesis using 1(1)[OF False, of j] l Suc by (simp add: div_less_iff_less_mult mult.commute)
      qed
    qed (use 1 in simp)
  qed
qed

text \<open>Numbers, taken up to 18 digits.\<close>

lemma digits_before:
  assumes "ends rest"
  shows "takeWhile is_digit (dec_digits n @ rest) = dec_digits n" "dropWhile is_digit (dec_digits n @ rest) = rest"
    "peek rest \<notin> {Some 0x2E, Some 0x65, Some 0x45}"
proof -
  have r: "takeWhile is_digit rest = []" "dropWhile is_digit rest = rest"
    using assms by (cases rest; auto simp: ends_def is_digit_def)+
  show "takeWhile is_digit (dec_digits n @ rest) = dec_digits n" "dropWhile is_digit (dec_digits n @ rest) = rest"
    using dec_digits_digits[of n] r by (auto simp: list_all_iff takeWhile_append dropWhile_append)
  show "peek rest \<notin> {Some 0x2E, Some 0x65, Some 0x45}" using assms by (auto simp: ends_def)
qed

lemma dec_int_head: "\<exists>c t. dec_int n = c # t \<and> (c = 0x2D \<or> is_digit c)"
  using dec_digits_digits[of "nat n"] by (cases "dec_digits (nat n)") (auto simp: dec_int_def)

lemma parse_int_text: "ends rest \<Longrightarrow> parse_int (dec_int n @ rest) = (if number_taken n then Some (n, rest) else None)"
proof -
  assume e: "ends rest"
  note d = digits_before[OF e]
  have g: "parse_int q = (if m < 10 ^ NUMBER_DIGITS_CAP then Some (s * int m, rest) else None)"
    if "(if peek q = Some 0x2D then (-1, tl q) else (1, q)) = (s, dec_digits m @ rest)" for q s m
    using d(1)[of m] d(2)[of m] d(3) that dec_digits_digits[of m] dec_digits_value[of m] dec_digits_length[of NUMBER_DIGITS_CAP m]
    by (auto simp: parse_int_def NUMBER_DIGITS_CAP_def not_less)
  have n: "number_taken n \<longleftrightarrow> nat \<bar>n\<bar> < 10 ^ NUMBER_DIGITS_CAP"
    by (simp add: number_taken_def nat_less_iff)
  show ?thesis
  proof (cases "n < 0")
    case True
    then show ?thesis using g[of "dec_int n @ rest" "-1" "nat (- n)"] n by (simp add: dec_int_def)
  next
    case False
    have "peek (dec_digits (nat n) @ rest) \<noteq> Some 0x2D"
      using dec_digits_digits[of "nat n"] by (cases "dec_digits (nat n)") (auto simp: is_digit_def)
    then show ?thesis using False g[of "dec_int n @ rest" 1 "nat n"] n by (simp add: dec_int_def)
  qed
qed

text \<open>How a value begins decides who reads it.\<close>

lemma json_head: "\<exists>c t. json_text v = c # t \<and> \<not> is_ws c \<and> (c = 0x22 \<longleftrightarrow> (\<exists>s. v = JString s)) \<and>
    (c = 0x2D \<or> is_digit c \<longleftrightarrow> (\<exists>n. v = JNumber n)) \<and> (c = 0x5B \<longleftrightarrow> (\<exists>vs. v = JArray vs)) \<and> c \<noteq> 0x5D \<and> c \<noteq> 0x7D"
proof (cases v)
  case (JNumber n)
  then show ?thesis using dec_int_head[of n] by (auto simp: is_digit_def is_ws_def)
qed (auto simp: string_text_def bytes_of_def is_ws_def is_digit_def)

lemma skip_ws_json: "skip_ws (json_text v @ rest) = json_text v @ rest" "skip_ws (json_text v) = json_text v"
  using json_head[of v] by (auto simp: skip_ws_Cons)

lemma parse_int_other: "(\<forall>n. v \<noteq> JNumber n) \<Longrightarrow> parse_int (json_text v @ rest) = None"
  using json_head[of v] by (auto simp: parse_int_def)

lemma parse_string_other: "(\<forall>s. v \<noteq> JString s) \<Longrightarrow> parse_string (json_text v @ rest) = None"
  using json_head[of v] by (auto simp: parse_string_def)

lemma skip_ws_string: "skip_ws (string_text s @ p) = string_text s @ p"
  by (simp add: string_text_def skip_ws_Cons is_ws_def)

lemma skip_ws_colon: "skip_ws (0x3A # p) = 0x3A # p" "skip_ws (0x2C # p) = 0x2C # p" "skip_ws (0x5D # p) = 0x5D # p"
  "skip_ws (0x7D # p) = 0x7D # p" "skip_ws (0x7B # p) = 0x7B # p" "skip_ws (0x5B # p) = 0x5B # p"
  by (simp_all add: skip_ws_Cons is_ws_def)

text \<open>A value is read past exactly when it is taken.\<close>

abbreviation pair_text :: "u8 list \<times> json \<Rightarrow> u8 list" where
  "pair_text \<equiv> \<lambda>(k, v). string_text k @ 0x3A # json_text v"

lemma parse_elements_text:
  assumes "vs \<noteq> []" "\<And>v rest. v \<in> set vs \<Longrightarrow> ends rest \<Longrightarrow> parse_value (d + 1) (json_text v @ rest) = (if taken (d + 1) v then Some rest else None)"
  shows "parse_elements d (joined (map json_text vs) @ 0x5D # rest) = (if list_all (taken (d + 1)) vs then Some rest else None)"
  using assms
proof (induction vs)
  case (Cons v vs)
  show ?case
  proof (cases vs)
    case Nil
    then show ?thesis using Cons(3)[of v "0x5D # rest"]
      by (subst parse_elements.simps) (simp add: skip_ws_json skip_ws_colon)
  next
    case (Cons w ws)
    let ?r = "0x2C # joined (map json_text vs) @ 0x5D # rest"
    have "parse_elements d (joined (map json_text vs) @ 0x5D # rest) = (if list_all (taken (d + 1)) vs then Some rest else None)"
      by (rule Cons.IH) (use Cons Cons.prems in auto)
    then show ?thesis using Cons Cons.prems(2)[of v ?r]
      by (subst parse_elements.simps) (simp add: skip_ws_json skip_ws_colon)
  qed
qed simp

lemma parse_pairs_text:
  assumes "ms \<noteq> []" "\<And>k v rest. (k, v) \<in> set ms \<Longrightarrow> ends rest \<Longrightarrow> parse_value (d + 1) (json_text v @ rest) = (if taken (d + 1) v then Some rest else None)"
  shows "parse_pairs d (joined (map pair_text ms) @ 0x7D # rest) = (if list_all (\<lambda>(k, v). taken (d + 1) v) ms then Some rest else None)"
  using assms
proof (induction ms)
  case (Cons m ms)
  obtain k v where m: "m = (k, v)" by (rule prod.exhaust)
  show ?case
  proof (cases ms)
    case Nil
    then show ?thesis using Cons(3)[of k v "0x7D # rest"] m
      by (subst parse_pairs.simps) (simp add: skip_ws_json skip_ws_colon skip_ws_string parse_string_text)
  next
    case (Cons w ws)
    let ?r = "0x2C # joined (map pair_text ms) @ 0x7D # rest"
    have "parse_pairs d (joined (map pair_text ms) @ 0x7D # rest) = (if list_all (\<lambda>(k, v). taken (d + 1) v) ms then Some rest else None)"
    proof (rule Cons.IH)
      fix k v rest assume "(k, v) \<in> set ms" "ends rest"
      then show "parse_value (d + 1) (json_text v @ rest) = (if taken (d + 1) v then Some rest else None)"
        by (intro Cons.prems(2)[of k v rest]) simp_all
    qed (simp add: Cons)
    then show ?thesis using Cons Cons.prems(2)[of k v ?r] m
      by (subst parse_pairs.simps) (simp add: skip_ws_json skip_ws_colon skip_ws_string parse_string_text)
  qed
qed simp

lemma parse_value_text: "ends rest \<Longrightarrow> parse_value d (json_text v @ rest) = (if taken d v then Some rest else None)"
proof (induction v arbitrary: d rest)
  case (JString s)
  then show ?case using parse_string_text[of s rest]
    by (subst parse_value.simps) (simp add: skip_ws_string Let_def, simp add: string_text_def)
next
  case (JNumber n)
  have h: "skip_ws (dec_int n @ rest) = dec_int n @ rest" using skip_ws_json(1)[of "JNumber n"] by simp
  obtain c t where c: "dec_int n = c # t" "c = 0x2D \<or> is_digit c" using dec_int_head by blast
  then have "c \<noteq> 0x22 \<and> c \<noteq> 0x7B \<and> c \<noteq> 0x5B \<and> c \<noteq> 0x74 \<and> c \<noteq> 0x66 \<and> c \<noteq> 0x6E" by (auto simp: is_digit_def)
  then show ?case using c h parse_int_text[OF JNumber, of n]
    by (subst parse_value.simps) (simp add: Let_def)
next
  case (JArray vs)
  have e: "skip_ws (joined (map json_text vs) @ p) = joined (map json_text vs) @ p" if "vs \<noteq> []" for p
    using that skip_ws_json(1)[of "hd vs"] by (cases vs) simp_all
  have "peek (joined (map json_text vs) @ p) \<noteq> Some 0x5D" if "vs \<noteq> []" for p
    using that json_head[of "hd vs"] by (cases vs) auto
  then show ?case
    using parse_elements_text[of vs d rest] JArray e
    by (subst parse_value.simps) (cases "vs = []"; simp add: skip_ws_colon Let_def)
next
  case (JObject ms)
  have e: "skip_ws (joined (map pair_text ms) @ p) = joined (map pair_text ms) @ p"
    "peek (joined (map pair_text ms) @ p) \<noteq> Some 0x7D" if "ms \<noteq> []" for p
    using that skip_ws_string[of "fst (hd ms)"] by (cases ms; simp add: split_def string_text_def)+
  have "parse_pairs d (joined (map pair_text ms) @ 0x7D # rest) = (if list_all (\<lambda>(k, v). taken (d + 1) v) ms then Some rest else None)"
    if "ms \<noteq> []"
    by (rule parse_pairs_text[OF that]) (rule JObject.IH, auto)
  then show ?case
    using e by (subst parse_value.simps) (cases "ms = []"; simp add: skip_ws_colon Let_def)
qed (subst parse_value.simps, simp add: bytes_of_def skip_ws_Cons is_ws_def match_keyword_def is_digit_def)+

text \<open>The bytes of a key message, and a message.\<close>

lemma byte_items_text:
  "vs \<noteq> [] \<Longrightarrow> length out \<le> WEB_JSON_BYTES_MAX \<Longrightarrow> byte_items out (joined (map json_text vs) @ 0x5D # rest) =
     (if length out + length vs \<le> WEB_JSON_BYTES_MAX then map_option (\<lambda>b. (out @ b, rest)) (those (map byte_of vs)) else None)"
proof (induction vs arbitrary: out)
  case (Cons v vs)
  show ?case
  proof (cases "\<exists>n. v = JNumber n")
    case False
    then have "byte_of v = None" by (cases v) auto
    then show ?thesis using False parse_int_other[of v]
      by (subst byte_items.simps) (cases vs; simp add: skip_ws_json)
  next
    case True
    then obtain n where n: "v = JNumber n" ..
    note h = skip_ws_json(1)[of "JNumber n", simplified]
    have p: "parse_int (json_text v @ p) = (if number_taken n then Some (n, p) else None)" if "ends p" for p
      using parse_int_text[OF that] n by simp
    have t: "0 \<le> n \<and> n \<le> 255 \<Longrightarrow> number_taken n" by (simp add: number_taken_def NUMBER_DIGITS_CAP_def)
    show ?thesis
    proof (cases vs)
      case Nil
      then show ?thesis using n t p[of "0x5D # rest"] Cons.prems(2)
        by (subst byte_items.simps) (auto simp: h skip_ws_colon Let_def)
    next
      case (Cons w ws)
      let ?r = "0x2C # joined (map json_text vs) @ 0x5D # rest"
      show ?thesis
        using Cons Cons.IH[of "out @ [word_of_int n]"] n t p[of ?r] Cons.prems(2)
        by (subst byte_items.simps) (auto simp: h skip_ws_colon Let_def option.map_comp o_def split: option.splits)
    qed
  qed
qed simp

lemma parse_byte_array_text: "parse_byte_array (json_text v @ rest) = map_option (\<lambda>b. (b, rest)) (bytes_in v)"
proof (cases "\<exists>vs. v = JArray vs")
  case False
  then show ?thesis using json_head[of v] by (cases v) (auto simp: parse_byte_array_def)
next
  case True
  then obtain vs where v: "v = JArray vs" ..
  have "skip_ws (joined (map json_text vs) @ p) = joined (map json_text vs) @ p"
    "peek (joined (map json_text vs) @ p) \<noteq> Some 0x5D" if "vs \<noteq> []" for p
    using that skip_ws_json(1)[of "hd vs"] json_head[of "hd vs"] by (cases vs; auto)+
  then show ?thesis
    using v byte_items_text[of vs "[]" rest] by (cases "vs = []") (auto simp: parse_byte_array_def skip_ws_colon Let_def)
qed

lemma parse_member_text:
  "ends rest \<Longrightarrow> parse_member (in_buffer 24 k) (json_text v @ rest) m = map_option (\<lambda>m. (m, rest)) (member_meaning (k, v) m)"
proof -
  assume e: "ends rest"
  have s: "parse_string (json_text v @ rest) = (case v of JString s \<Rightarrow> Some (s, rest) | _ \<Rightarrow> None)"
    using parse_string_text parse_string_other[of v rest] by (cases v) auto
  have i: "parse_int (json_text v @ rest) = (case v of JNumber n \<Rightarrow> if number_taken n then Some (n, rest) else None | _ \<Rightarrow> None)"
    using parse_int_text[OF e] parse_int_other[of v rest] by (cases v) auto
  show ?thesis
    unfolding parse_member_def member_meaning_def Let_def prod.case s i parse_byte_array_text parse_value_text[OF e]
    by (simp add: option.map_comp o_def split: json.split)
qed

lemma parse_members_text: "ms \<noteq> [] \<Longrightarrow> parse_members m (joined (map pair_text ms) @ [0x7D]) = object_meaning ms m"
proof (induction ms arbitrary: m)
  case (Cons x ms)
  obtain k v where x: "x = (k, v)" by (rule prod.exhaust)
  show ?case
  proof (cases ms)
    case Nil
    then show ?thesis
      using x parse_member_text[of "[0x7D]" k v m]
      by (subst parse_members.simps)
        (simp add: skip_ws_string parse_string_text skip_ws_colon skip_ws_json Let_def split: option.split, simp add: skip_ws_def)
  next
    case (Cons y ys)
    define R where "R = joined (map pair_text ms) @ [0x7D]"
    have "joined (map pair_text (x # ms)) @ [0x7D] = string_text k @ 0x3A # json_text v @ 0x2C # R"
      using Cons x by (simp add: R_def)
    moreover have "parse_members m' R = object_meaning ms m'" for m' using Cons.IH Cons by (simp add: R_def)
    ultimately show ?thesis
      using x parse_member_text[of "0x2C # R" k v m]
      by (subst parse_members.simps)
        (simp add: skip_ws_string parse_string_text skip_ws_colon skip_ws_json Let_def split: option.split)
  qed
qed simp

text \<open>
  Property C35: The parser takes from an object exactly what it says. For any object as a page writes it - any
  members in any order, known or not, any values, nested or not - the result is the one the members mean:
  the type a string, the number of at most 18 digits, the bytes at most 64 numbers up to 255, the last of
  each; what other members hold does not matter as long as it is nested less than eight deep; and
  the message is refused exactly when a member is not of that kind.
\<close>

theorem web_json_parses: "web_json_parse (json_text (JObject ms)) = object_meaning ms no_msg"
proof (cases "ms = []")
  case False
  have "peek (joined (map pair_text ms) @ [0x7D]) \<noteq> Some 0x7D" "skip_ws (joined (map pair_text ms) @ [0x7D]) = joined (map pair_text ms) @ [0x7D]"
    using False skip_ws_string[of "fst (hd ms)"] by (cases ms; simp add: split_def string_text_def)+
  then show ?thesis
    using parse_members_text[OF False, of no_msg] by (simp add: web_json_parse_def skip_ws_colon Let_def)
qed (simp add: web_json_parse_def skip_ws_colon, simp add: skip_ws_def)

text \<open>Whatever arrives, the fields of the message keep their bounds.\<close>

definition msg_bounded :: "web_json_msg \<Rightarrow> bool" where
  "msg_bounded m \<longleftrightarrow>
     (case msg_type m of None \<Rightarrow> True | Some s \<Rightarrow> length s < WEB_JSON_TYPE_MAX \<and> 0 \<notin> set s) \<and>
     (case msg_down m of None \<Rightarrow> True | Some v \<Rightarrow> \<bar>v\<bar> < 10 ^ NUMBER_DIGITS_CAP) \<and>
     (case msg_bytes m of None \<Rightarrow> True | Some b \<Rightarrow> length b \<le> WEB_JSON_BYTES_MAX)"

lemma byte_items_bounded: "byte_items out p = Some (b, q) \<Longrightarrow> length out \<le> WEB_JSON_BYTES_MAX \<Longrightarrow> length b \<le> WEB_JSON_BYTES_MAX"
proof (induction out p rule: byte_items.induct)
  case (1 out p)
  from 1(2) obtain v r where v: "parse_int (skip_ws p) = Some (v, r)" "\<not> (v < 0 \<or> 255 < v)" "length out \<noteq> WEB_JSON_BYTES_MAX"
    by (subst (asm) byte_items.simps) (auto split: if_splits option.splits)
  let ?out = "out @ [word_of_int v]"
  have "(if peek (skip_ws r) = Some 0x2C then byte_items ?out (tl (skip_ws r))
      else if peek (skip_ws r) = Some 0x5D then Some (?out, tl (skip_ws r)) else None) = Some (b, q)"
    using 1(2) v by (subst (asm) byte_items.simps) (simp add: Let_def)
  moreover have "length ?out \<le> WEB_JSON_BYTES_MAX" using 1(3) v(3) by simp
  ultimately show ?case
    using 1(1)[OF v(3) v(1) refl v(2) refl refl] by (metis Pair_inject option.distinct(1) option.inject)
qed

lemma is_digit_value: "is_digit c \<Longrightarrow> uint (c - 0x30) \<le> 9"
proof -
  assume "is_digit c"
  then have c: "0x30 \<le> c" "unat c \<le> 0x39" by (simp_all add: is_digit_def word_le_nat_alt)
  have "unat (c - 0x30) = unat c - 0x30" using unat_sub[OF c(1)] by simp
  then show ?thesis using c(2) by (simp add: uint_nat)
qed

lemma digits_value_bound: "list_all is_digit ds \<Longrightarrow> 0 \<le> digits_value ds \<and> digits_value ds < 10 ^ length ds"
proof (induction ds rule: rev_induct)
  case (snoc c ds)
  have "digits_value (ds @ [c]) = digits_value ds * 10 + uint (c - 0x30)" by (simp add: digits_value_def)
  moreover have "uint (c - 0x30) \<le> 9" "0 \<le> uint (c - 0x30)" using snoc.prems is_digit_value by simp_all
  moreover have "0 \<le> digits_value ds" "digits_value ds < 10 ^ length ds" using snoc by simp_all
  ultimately show ?case by simp
qed (simp add: digits_value_def)

lemma parse_int_bounded: "parse_int p = Some (v, q) \<Longrightarrow> \<bar>v\<bar> < 10 ^ NUMBER_DIGITS_CAP"
proof -
  have "\<bar>digits_value (takeWhile is_digit r)\<bar> < 10 ^ NUMBER_DIGITS_CAP" if "length (takeWhile is_digit r) \<le> NUMBER_DIGITS_CAP" for r
  proof -
    have "list_all is_digit (takeWhile is_digit r)" by (auto simp: list_all_iff dest: set_takeWhileD)
    then have "\<bar>digits_value (takeWhile is_digit r)\<bar> < 10 ^ length (takeWhile is_digit r)" using digits_value_bound by fastforce
    also have "\<dots> \<le> 10 ^ NUMBER_DIGITS_CAP" using that by (intro power_increasing) simp_all
    finally show ?thesis .
  qed
  then show "parse_int p = Some (v, q) \<Longrightarrow> \<bar>v\<bar> < 10 ^ NUMBER_DIGITS_CAP"
    by (auto simp: parse_int_def Let_def abs_mult split: if_splits)
qed

lemma parse_member_bounded: "parse_member key p m = Some (m', q) \<Longrightarrow> msg_bounded m \<Longrightarrow> msg_bounded m'"
proof -
  have t: "length (in_buffer WEB_JSON_TYPE_MAX s) < WEB_JSON_TYPE_MAX \<and> 0 \<notin> set (in_buffer WEB_JSON_TYPE_MAX s)" for s
    using length_takeWhile_le[of "\<lambda>c. c \<noteq> 0" "take (WEB_JSON_TYPE_MAX - 1) s"]
    by (auto simp: in_buffer_def WEB_JSON_TYPE_MAX_def dest: set_takeWhileD)
  have b: "parse_byte_array p = Some (b, q) \<Longrightarrow> length b \<le> WEB_JSON_BYTES_MAX" for b
    using byte_items_bounded[of "[]"] by (auto simp: parse_byte_array_def Let_def split: if_splits)
  show "parse_member key p m = Some (m', q) \<Longrightarrow> msg_bounded m \<Longrightarrow> msg_bounded m'"
    using t b parse_int_bounded by (auto simp: parse_member_def msg_bounded_def split: if_splits)
qed

lemma parse_members_bounded: "parse_members m p = Some m' \<Longrightarrow> msg_bounded m \<Longrightarrow> msg_bounded m'"
proof (induction m p rule: parse_members.induct)
  case (1 m p)
  from 1(2) obtain key q m1 r where r: "parse_string (skip_ws p) = Some (key, q)" "peek (skip_ws q) = Some 0x3A"
      "parse_member (in_buffer 24 key) (skip_ws (tl (skip_ws q))) m = Some (m1, r)"
    by (subst (asm) parse_members.simps) (auto simp: Let_def split: option.splits if_splits)
  have b: "msg_bounded m1" using parse_member_bounded[OF r(3)] 1(3) .
  have "(if peek (skip_ws r) = Some 0x2C then parse_members m1 (tl (skip_ws r))
      else if peek (skip_ws r) = Some 0x7D \<and> skip_ws (tl (skip_ws r)) = [] then Some m1 else None) = Some m'"
    using 1(2) r by (subst (asm) parse_members.simps) (simp add: Let_def)
  then show ?case
    using b r(2) 1(1)[OF r(1) refl refl _ r(3) refl refl] by (auto split: if_splits)
qed

lemma web_json_bounded: "web_json_parse s = Some m \<Longrightarrow> msg_bounded m"
  using parse_members_bounded[of no_msg]
  by (auto simp: web_json_parse_def no_msg_def msg_bounded_def Let_def split: if_splits)

end
