(* ===== verification/Web_Server.thy ===== *)
theory Web_Server imports Web_Json Web_Display Fifo "HOL-Library.Monad_Syntax"
begin

text \<open>
  The server of the browser page (\<open>src/emulator/web_server.c\<close>): its clients with their buffers, requests and
  files, the WebSocket handshake and frames, the events of the pages, the snapshots' display deltas and the
  sound. What the operating system gives and takes - the bytes received, how many it sends, the files
  under the root - are arguments; the text of a snapshot (\<open>web_snapshot_json\<close>) is one too.
\<close>

section \<open>The digest of the handshake\<close>

text \<open>SHA-1: a block of 64 bytes, and the stream of blocks.\<close>

definition rol32 :: "u32 \<Rightarrow> nat \<Rightarrow> u32" where
  "rol32 v n = push_bit n v OR drop_bit (32 - n) v"

definition word_be :: "u8 list \<Rightarrow> nat \<Rightarrow> u32" where
  "word_be p i =
     push_bit 24 (ucast (p ! (i * 4))) OR push_bit 16 (ucast (p ! (i * 4 + 1))) OR push_bit 8 (ucast (p ! (i * 4 + 2))) OR
     ucast (p ! (i * 4 + 3))"

fun schedule :: "nat \<Rightarrow> u32 list \<Rightarrow> u32 list" where
  "schedule 0 w = w"
| "schedule (Suc n) w =
     (let i = length w in schedule n (w @ [rol32 (w ! (i - 3) XOR w ! (i - 8) XOR w ! (i - 14) XOR w ! (i - 16)) 1]))"

type_synonym sha1_h = "u32 \<times> u32 \<times> u32 \<times> u32 \<times> u32"

fun sha1_rounds :: "nat \<Rightarrow> u32 list \<Rightarrow> sha1_h \<Rightarrow> sha1_h" where
  "sha1_rounds i [] h = h"
| "sha1_rounds i (x # w) (a, b, c, d, e) =
     (let (f, k) = (if i < 20 then ((b AND c) OR (NOT b AND d), 0x5A827999)
                    else if i < 40 then (b XOR c XOR d, 0x6ED9EBA1)
                    else if i < 60 then ((b AND c) OR (b AND d) OR (c AND d), 0x8F1BBCDC)
                    else (b XOR c XOR d, 0xCA62C1D6));
          t = rol32 a 5 + f + e + k + x
      in sha1_rounds (i + 1) w (t, a, rol32 b 30, c, d))"

definition sha1_block :: "u8 list \<Rightarrow> sha1_h \<Rightarrow> sha1_h" where
  "sha1_block p = (\<lambda>(h0, h1, h2, h3, h4).
     let (a, b, c, d, e) = sha1_rounds 0 (schedule 64 (map (word_be p) [0..<16])) (h0, h1, h2, h3, h4)
     in (h0 + a, h1 + b, h2 + c, h3 + d, h4 + e))"

record sha1_ctx =
  sha_h :: sha1_h
  sha_len :: u64
  sha_buf :: "u8 list"

definition sha1_init :: sha1_ctx where
  "sha1_init = \<lparr>sha_h = (0x67452301, 0xEFCDAB89, 0x98BADCFE, 0x10325476, 0xC3D2E1F0), sha_len = 0, sha_buf = []\<rparr>"

function sha1_take :: "u8 list \<Rightarrow> sha1_ctx \<Rightarrow> sha1_ctx" where
  "sha1_take data c =
     (if data = [] \<or> 64 \<le> length (sha_buf c) then c
      else let n = min (64 - length (sha_buf c)) (length data);
               c = c\<lparr>sha_buf := sha_buf c @ take n data\<rparr>;
               c = (if length (sha_buf c) = 64 then c\<lparr>sha_h := sha1_block (sha_buf c) (sha_h c), sha_buf := []\<rparr> else c)
        in sha1_take (drop n data) c)"
  by pat_completeness auto
termination by (relation "measure (length \<circ> fst)") auto

declare sha1_take.simps [simp del]

definition sha1_update :: "u8 list \<Rightarrow> sha1_ctx \<Rightarrow> sha1_ctx" where
  "sha1_update data c = sha1_take data (c\<lparr>sha_len := sha_len c + of_nat (length data)\<rparr>)"

definition bytes_be :: "nat \<Rightarrow> 'a::len word \<Rightarrow> u8 list" where
  "bytes_be n w = map (\<lambda>i. ucast (drop_bit (8 * (n - 1 - i)) w)) [0..<n]"

text \<open>The padding is a byte 0x80 and zeros up to 56 bytes in the block; the buffer decides how many.\<close>

definition sha1_final :: "sha1_ctx \<Rightarrow> u8 list" where
  "sha1_final c =
     (let bits = sha_len c * 8; c = sha1_update [0x80] c;
          zeros = (56 + 64 - length (sha_buf c)) mod 64;
          c = sha1_update (replicate zeros 0) c; c = sha1_update (bytes_be 8 bits) c
      in case sha_h c of (h0, h1, h2, h3, h4) \<Rightarrow> concat (map (bytes_be 4) [h0, h1, h2, h3, h4]))"

text \<open>Base 64.\<close>

definition base64_char :: "nat \<Rightarrow> u8" where
  "base64_char i = bytes_of ''ABCDEFGHIJKLMNOPQRSTUVWXYZabcdefghijklmnopqrstuvwxyz0123456789+/'' ! i"

fun base64_encode :: "u8 list \<Rightarrow> u8 list" where
  "base64_encode (a # b # c # p) =
     (let v = unat a * 2 ^ 16 + unat b * 2 ^ 8 + unat c
      in [base64_char (v div 2 ^ 18 mod 64), base64_char (v div 2 ^ 12 mod 64), base64_char (v div 2 ^ 6 mod 64), base64_char (v mod 64)]
         @ base64_encode p)"
| "base64_encode [a, b] =
     (let v = unat a * 2 ^ 16 + unat b * 2 ^ 8
      in [base64_char (v div 2 ^ 18 mod 64), base64_char (v div 2 ^ 12 mod 64), base64_char (v div 2 ^ 6 mod 64), 0x3D])"
| "base64_encode [a] =
     (let v = unat a * 2 ^ 16
      in [base64_char (v div 2 ^ 18 mod 64), base64_char (v div 2 ^ 12 mod 64), 0x3D, 0x3D])"
| "base64_encode [] = []"

definition accept_key :: "u8 list \<Rightarrow> u8 list" where
  "accept_key key =
     base64_encode (sha1_final (sha1_update (bytes_of ''258EAFA5-E914-47DA-95CA-C5AB0DC85B11'') (sha1_update key sha1_init)))"

section \<open>Clients\<close>

datatype client_state = CS_FREE | CS_READING_HTTP | CS_WS_OPEN

definition CLIENT_INBUF_SIZE :: nat where "CLIENT_INBUF_SIZE = 8192"
definition CLIENT_OUTBUF_SIZE :: nat where "CLIENT_OUTBUF_SIZE = 65536"

record client =
  c_state :: client_state
  inbuf :: "u8 list"
  outbuf :: "u8 list"
  audio_init_sent :: bool
  c_display :: "web_display_shadow option"

definition close_client :: "client \<Rightarrow> client" where
  "close_client c = c\<lparr>c_state := CS_FREE, inbuf := [], outbuf := [], audio_init_sent := False, c_display := None\<rparr>"

text \<open>What \<open>send\<close> takes of the buffer, call by call: some bytes, not now, or an error.\<close>

datatype send_result = Sent nat | Not_now | Send_error

fun flush_outbuf :: "send_result list \<Rightarrow> client \<Rightarrow> client" where
  "flush_outbuf [] c = c"
| "flush_outbuf (r # rs) c =
     (if outbuf c = [] then c
      else case r of Sent n \<Rightarrow> flush_outbuf rs (c\<lparr>outbuf := drop n (outbuf c)\<rparr>) | Not_now \<Rightarrow> c | Send_error \<Rightarrow> close_client c)"

definition queue_bytes :: "u8 list \<Rightarrow> client \<Rightarrow> client" where
  "queue_bytes data c =
     (if CLIENT_OUTBUF_SIZE < length (outbuf c) + length data then close_client c else c\<lparr>outbuf := outbuf c @ data\<rparr>)"

section \<open>Requests\<close>

abbreviation crlf :: "u8 list" where
  "crlf \<equiv> [0x0D, 0x0A]"

text \<open>The first place where the pattern occurs: what is before it and what follows it.\<close>

fun split_at :: "u8 list \<Rightarrow> u8 list \<Rightarrow> (u8 list \<times> u8 list) option" where
  "split_at pat [] = (if pat = [] then Some ([], []) else None)"
| "split_at pat (c # p) =
     (if take (length pat) (c # p) = pat then Some ([], drop (length pat) (c # p))
      else map_option (apfst (Cons c)) (split_at pat p))"

definition occurs :: "u8 list \<Rightarrow> u8 list \<Rightarrow> bool" where
  "occurs pat p \<longleftrightarrow> split_at pat p \<noteq> None"

definition mime_for :: "u8 list \<Rightarrow> u8 list" where
  "mime_for path =
     (let octets = bytes_of ''application/octet-stream'' in
      if 0x2E \<notin> set path then octets
      else let ext = rev (takeWhile (\<lambda>c. c \<noteq> 0x2E) (rev path)) in
        if ext = bytes_of ''html'' then bytes_of ''text/html; charset=utf-8''
        else if ext = bytes_of ''css'' then bytes_of ''text/css; charset=utf-8''
        else if ext = bytes_of ''js'' then bytes_of ''application/javascript; charset=utf-8''
        else if ext = bytes_of ''svg'' then bytes_of ''image/svg+xml''
        else if ext = bytes_of ''ico'' then bytes_of ''image/x-icon'' else octets)"

definition send_simple :: "nat \<Rightarrow> string \<Rightarrow> string \<Rightarrow> client \<Rightarrow> client" where
  "send_simple code status body c =
     (let c = queue_bytes (bytes_of ''HTTP/1.1 '' @ dec_digits code @ bytes_of '' '' @ bytes_of status @ crlf @
           bytes_of ''Content-Type: text/plain'' @ crlf @ bytes_of ''Content-Length: '' @ dec_digits (length body) @ crlf @
           bytes_of ''Connection: close'' @ crlf @ crlf) c
      in if body = [] then c else queue_bytes (bytes_of body) c)"

definition bad_path :: "u8 list \<Rightarrow> bool" where
  "bad_path path \<longleftrightarrow>
     (case path of [] \<Rightarrow> True | c # _ \<Rightarrow> c \<noteq> 0x2F) \<or> occurs [0x2E, 0x2E] path \<or> occurs [0x2F, 0x2F] path \<or> 0x25 \<in> set path"

text \<open>Files under their paths; one that can be opened can be read.\<close>

definition send_file :: "(u8 list \<Rightarrow> u8 list option) \<Rightarrow> u8 list \<Rightarrow> u8 list \<Rightarrow> client \<Rightarrow> client" where
  "send_file files web_root path c =
     (if bad_path path then send_simple 400 ''Bad Request'' (''bad path'' @ [CHR 0x0A]) c
      else let rel = (if path = [0x2F] then bytes_of ''/index.html'' else path) in
        if 2048 \<le> length web_root + length rel then send_simple 400 ''Bad Request'' (''path too long'' @ [CHR 0x0A]) c
        else case files (web_root @ rel) of
          None \<Rightarrow> send_simple 404 ''Not Found'' (''file not found'' @ [CHR 0x0A]) c
        | Some bytes \<Rightarrow>
            if 1024 * 1024 < length bytes then send_simple 500 ''Internal Server Error'' (''file too large'' @ [CHR 0x0A]) c
            else let c = queue_bytes (bytes_of ''HTTP/1.1 200 OK'' @ crlf @ bytes_of ''Content-Type: '' @ mime_for rel @ crlf @
                  bytes_of ''Content-Length: '' @ dec_digits (length bytes) @ crlf @ bytes_of ''Cache-Control: no-cache'' @ crlf @
                  bytes_of ''Connection: close'' @ crlf @ crlf) c
              in if CLIENT_OUTBUF_SIZE < length (outbuf c) + length bytes
                 then send_simple 500 ''Internal Server Error'' (''outbuf overflow'' @ [CHR 0x0A]) c
                 else c\<lparr>outbuf := outbuf c @ bytes\<rparr>)"

text \<open>A frame to the page: the text or bytes with their length, at most 65535.\<close>

definition ws_send :: "u8 \<Rightarrow> u8 list \<Rightarrow> client \<Rightarrow> client" where
  "ws_send opcode data c =
     (if c_state c \<noteq> CS_WS_OPEN then c
      else let n = length data in
        if n \<le> 125 then queue_bytes data (queue_bytes [opcode, of_nat n] c)
        else if n \<le> 0xFFFF then queue_bytes data (queue_bytes [opcode, 126, of_nat (n div 256), of_nat n] c)
        else close_client c)"

definition ws_send_text :: "u8 list \<Rightarrow> client \<Rightarrow> client" where
  "ws_send_text = ws_send 0x81"

definition ws_send_binary :: "u8 list \<Rightarrow> client \<Rightarrow> client" where
  "ws_send_binary = ws_send 0x82"

definition do_ws_handshake :: "u8 list \<Rightarrow> u8 list \<Rightarrow> client \<Rightarrow> client" where
  "do_ws_handshake machine key c =
     (let c = queue_bytes (bytes_of ''HTTP/1.1 101 Switching Protocols'' @ crlf @ bytes_of ''Upgrade: websocket'' @ crlf @
           bytes_of ''Connection: Upgrade'' @ crlf @ bytes_of ''Sec-WebSocket-Accept: '' @ accept_key key @ crlf @ crlf) c
      in ws_send_text (bytes_of (''{'' @ [CHR 0x22] @ ''type'' @ [CHR 0x22] @ '':'' @ [CHR 0x22] @ ''hello'' @ [CHR 0x22] @ '','' @
           [CHR 0x22] @ ''machine'' @ [CHR 0x22] @ '':'' @ [CHR 0x22]) @ machine @ bytes_of ([CHR 0x22] @ ''}''))
         (c\<lparr>c_state := CS_WS_OPEN\<rparr>))"

definition lower :: "u8 \<Rightarrow> u8" where
  "lower c = (if 0x41 \<le> c \<and> c \<le> 0x5A then c + 0x20 else c)"

definition same_nocase :: "u8 list \<Rightarrow> u8 list \<Rightarrow> bool" where
  "same_nocase a b \<longleftrightarrow> map lower a = map lower b"

lemma split_at_shorter: "split_at pat p = Some (a, b) \<Longrightarrow> pat \<noteq> [] \<Longrightarrow> length b < length p"
  by (induction p arbitrary: a b) (fastforce split: if_splits)+

text \<open>The value of a header, line by line, in a buffer of the size given; a line ends with CR and LF.\<close>

function find_header :: "u8 list \<Rightarrow> nat \<Rightarrow> u8 list \<Rightarrow> u8 list option" where
  "find_header name room p =
     (if p = [] then None
      else case split_at crlf p of
        None \<Rightarrow> None
      | Some (line, rest) \<Rightarrow>
          let n = length name in
          if n + 1 < length line \<and> same_nocase (take n line) name \<and> line ! n = 0x3A
          then Some (take (room - 1) (dropWhile (\<lambda>c. c = 0x20 \<or> c = 0x09) (drop (n + 1) line)))
          else find_header name room rest)"
  by pat_completeness auto
termination by (relation "measure (\<lambda>(name, room, p). length p)") (auto dest: split_at_shorter)

declare find_header.simps [simp del]

definition is_blank :: "u8 \<Rightarrow> bool" where
  "is_blank c \<longleftrightarrow> c = 0x20 \<or> 0x09 \<le> c \<and> c \<le> 0x0D"

text \<open>\<open>%15s\<close> and \<open>%1023s\<close>: white space, then so many characters that are none.\<close>

definition scan_word :: "nat \<Rightarrow> u8 list \<Rightarrow> u8 list \<times> u8 list" where
  "scan_word n p =
     (let q = dropWhile is_blank p; w = take n (takeWhile (\<lambda>c. \<not> is_blank c) q) in (w, drop (length w) q))"

definition try_complete_request ::
  "(u8 list \<Rightarrow> u8 list option) \<Rightarrow> u8 list \<Rightarrow> u8 list \<Rightarrow> client \<Rightarrow> bool \<times> client" where
  "try_complete_request files web_root machine c =
     (case split_at (crlf @ crlf) (inbuf c) of
        None \<Rightarrow>
          (False, if CLIENT_INBUF_SIZE - 1 \<le> length (inbuf c)
                  then close_client (send_simple 400 ''Bad Request'' (''header too long'' @ [CHR 0x0A]) c) else c)
      | Some (head, rest) \<Rightarrow>
          let c = c\<lparr>inbuf := head @ [0x00, 0x0A, 0x0D, 0x0A] @ rest\<rparr>;
              req = c_line head; (method, p) = scan_word 15 req; (path, q) = scan_word 1023 p
          in (True,
              if path = [] \<or> method \<noteq> bytes_of ''GET'' then send_simple 400 ''Bad Request'' (''only GET supported'' @ [CHR 0x0A]) c
              else if (case find_header (bytes_of ''Upgrade'') 256 req of None \<Rightarrow> False | Some up \<Rightarrow> same_nocase up (bytes_of ''websocket'')) then
                (case find_header (bytes_of ''Sec-WebSocket-Key'') 128 req of
                   None \<Rightarrow> send_simple 400 ''Bad Request'' (''missing WS key'' @ [CHR 0x0A]) c
                 | Some key \<Rightarrow> (do_ws_handshake machine key c)\<lparr>inbuf := []\<rparr>)
              else send_file files web_root path c))"

section \<open>Frames and events\<close>

datatype web_event = Button_event bool | Reset_event | Keys_event "u8 list"

definition EVENT_QUEUE_SIZE :: nat where "EVENT_QUEUE_SIZE = 256"

record event_queue =
  events :: "nat \<Rightarrow> web_event"
  evt_head :: nat
  evt_tail :: nat

definition queue_event :: "web_event \<Rightarrow> event_queue \<Rightarrow> event_queue" where
  "queue_event e q =
     (let next = (evt_tail q + 1) mod EVENT_QUEUE_SIZE;
          q = (if next = evt_head q then q\<lparr>evt_head := (evt_head q + 1) mod EVENT_QUEUE_SIZE\<rparr> else q)
      in q\<lparr>events := (events q)(evt_tail q := e), evt_tail := next\<rparr>)"

definition take_event :: "event_queue \<Rightarrow> web_event option \<times> event_queue" where
  "take_event q =
     (if evt_head q \<noteq> evt_tail q then (Some (events q (evt_head q)), q\<lparr>evt_head := (evt_head q + 1) mod EVENT_QUEUE_SIZE\<rparr>)
      else (None, q))"

definition msg_event :: "web_json_msg \<Rightarrow> web_event option" where
  "msg_event m =
     (case msg_type m of None \<Rightarrow> None | Some t \<Rightarrow>
        if t = bytes_of ''button'' \<and> msg_down m \<noteq> None then Some (Button_event (the (msg_down m) \<noteq> 0))
        else if t = bytes_of ''reset'' then Some Reset_event
        else if t = bytes_of ''keys'' then map_option Keys_event (msg_bytes m) else None)"

definition text_event :: "u8 list \<Rightarrow> web_event option" where
  "text_event txt = Option.bind (web_json_parse txt) msg_event"

definition handle_text_msg :: "u8 list \<Rightarrow> event_queue \<Rightarrow> event_queue" where
  "handle_text_msg txt q = (case text_event txt of None \<Rightarrow> q | Some e \<Rightarrow> queue_event e q)"

text \<open>A frame of the page at the start of the buffer: more bytes needed, an error, or its length and its text.\<close>

datatype frame_result = Need_more | Frame_error | Frame nat "u8 list option"

definition unmask :: "u8 list \<Rightarrow> u8 list \<Rightarrow> u8 list" where
  "unmask m payload = map (\<lambda>i. payload ! i XOR m ! (i mod 4)) [0..<length payload]"

definition ws_parse_frame :: "client \<Rightarrow> frame_result \<times> client" where
  "ws_parse_frame c =
     (let b = inbuf c in
      if length b < 2 then (Need_more, c)
      else let opcode = b ! 0 AND 0x0F; masked = (b ! 1 AND 0x80 \<noteq> 0); short = b ! 1 AND 0x7F in
        if short = 126 \<and> length b < 4 then (Need_more, c)
        else if short = 127 then (Frame_error, c)
        else let (plen, hdr_len) = (if short = 126 then (unat (b ! 2) * 256 + unat (b ! 3), 4) else (unat short, 2)) in
          if \<not> masked then (Frame_error, c)
          else if length b < hdr_len + 4 + plen then (Need_more, c)
          else if plen > 8192 then (Frame_error, c)
          else let m = take 4 (drop hdr_len b); payload = unmask m (take plen (drop (hdr_len + 4) b));
                   total = hdr_len + 4 + plen in
            if opcode = 0x8 then (Frame_error, c)
            else if opcode = 0x9 then (Frame total None, queue_bytes [0x8A, 0] c)
            else if opcode = 0xA then (Frame total None, c)
            else if opcode \<noteq> 0x1 then (Frame_error, c)
            else (Frame total (Some payload), c))"

text \<open>
  The frames in the buffer. A client that is closed by the answer to a ping has an empty buffer; C then moves
  a negative number of bytes (\<open>inlen - consumed\<close>), which it does not define: None.
\<close>

lemma frame_length: "ws_parse_frame c = (Frame n t, d) \<Longrightarrow> 0 < n"
  by (auto simp: ws_parse_frame_def Let_def split: if_splits)

lemma frame_inbuf: "ws_parse_frame c = (r, d) \<Longrightarrow> length (inbuf d) \<le> length (inbuf c)"
  by (auto simp: ws_parse_frame_def queue_bytes_def close_client_def Let_def split: if_splits)

function ws_frames :: "event_queue \<times> client \<Rightarrow> (event_queue \<times> client) option" where
  "ws_frames (q, c) =
     (if c_state c \<noteq> CS_WS_OPEN \<or> inbuf c = [] then Some (q, c)
      else case ws_parse_frame c of
        (Need_more, c) \<Rightarrow> Some (q, c)
      | (Frame_error, c) \<Rightarrow> Some (q, close_client c)
      | (Frame n txt, d) \<Rightarrow>
          if length (inbuf d) < n then None
          else ws_frames ((case txt of None \<Rightarrow> q | Some t \<Rightarrow> handle_text_msg t q), d\<lparr>inbuf := drop n (inbuf d)\<rparr>))"
  by pat_completeness auto
termination
proof (relation "measure (\<lambda>(q, c). length (inbuf c))", goal_cases)
  case (2 q c x y n t)
  then have f: "ws_parse_frame c = (Frame n t, y)" by simp
  have "length (drop n (inbuf y)) < length (inbuf c)"
    using frame_length[OF f] frame_inbuf[OF f] 2(4) by simp
  then show ?case by simp
qed simp

declare ws_frames.simps [simp del]

section \<open>Reading and polling\<close>

text \<open>What \<open>recv\<close> gives: bytes, at most the room there is (none: the page has closed), nothing yet, or an error.\<close>

datatype recv = Received "u8 list" | Recv_later | Recv_error

record web_site =
  web_files :: "u8 list \<Rightarrow> u8 list option"
  web_root :: "u8 list"
  web_machine :: "u8 list"

definition read_from_client :: "web_site \<Rightarrow> send_result list \<Rightarrow> recv \<Rightarrow> event_queue \<times> client \<Rightarrow> (event_queue \<times> client) option" where
  "read_from_client site sends r = (\<lambda>(q, c).
     let room = CLIENT_INBUF_SIZE - length (inbuf c) in
     if c_state c = CS_FREE then Some (q, c)
     else if room = 0 then Some (q, close_client c)
     else case r of
       Recv_later \<Rightarrow> Some (q, c)
     | Recv_error \<Rightarrow> Some (q, close_client c)
     | Received b \<Rightarrow>
         let b = take room b in
         if b = [] then Some (q, close_client c)
         else let c = c\<lparr>inbuf := inbuf c @ b\<rparr> in
           if c_state c = CS_READING_HTTP then
             let (ready, c) = try_complete_request (web_files site) (web_root site) (web_machine site) c in
             if ready then
               let c = flush_outbuf sends c in
               Some (q, if c_state c \<noteq> CS_WS_OPEN \<and> outbuf c = [] then close_client c else c)
             else Some (q, c)
           else ws_frames (q, c))"

definition WEB_MAX_CLIENTS :: nat where "WEB_MAX_CLIENTS = 16"
definition AUDIO_RING_CAPACITY :: nat where "AUDIO_RING_CAPACITY = 8192"
definition DISPLAY_BUDGET :: nat where "DISPLAY_BUDGET = 32 * 1024"

record web_server =
  clients :: "client list"
  evts :: event_queue
  audio_ring :: "nat \<Rightarrow> u16"
  audio_head :: nat
  audio_tail :: nat
  audio_sample_rate :: int

text \<open>A connection gets the first free place; without one it is answered 503 and closed.\<close>

fun take_place :: "client list \<Rightarrow> client list" where
  "take_place [] = []"
| "take_place (c # cs) =
     (if c_state c = CS_FREE then c\<lparr>c_state := CS_READING_HTTP, inbuf := [], outbuf := []\<rparr> # cs else c # take_place cs)"

definition web_try_accept :: "nat \<Rightarrow> web_server \<Rightarrow> web_server" where
  "web_try_accept n s = s\<lparr>clients := (take_place ^^ n) (clients s)\<rparr>"

text \<open>The clients with input, in their order; \<open>ready i\<close> is what \<open>recv\<close> gives client \<open>i\<close>, if \<open>select\<close> says it can.\<close>

fun read_clients ::
  "web_site \<Rightarrow> (nat \<Rightarrow> send_result list) \<Rightarrow> (nat \<Rightarrow> recv option) \<Rightarrow> nat \<Rightarrow> client list \<Rightarrow> event_queue \<Rightarrow> (event_queue \<times> client list) option"
where
  "read_clients site sends ready i [] q = Some (q, [])"
| "read_clients site sends ready i (c # cs) q =
     do { (q, c) \<leftarrow> (case ready i of None \<Rightarrow> Some (q, c) | Some r \<Rightarrow> read_from_client site (sends i) r (q, c));
          (q, cs) \<leftarrow> read_clients site sends ready (i + 1) cs q;
          Some (q, c # cs) }"

definition flush_clients :: "(nat \<Rightarrow> send_result list) \<Rightarrow> client list \<Rightarrow> client list" where
  "flush_clients sends cs =
     map (\<lambda>(i, c). if c_state c \<noteq> CS_FREE then flush_outbuf (sends i) c else c) (zip [0..<length cs] cs)"

definition web_server_poll ::
  "web_site \<Rightarrow> nat \<Rightarrow> (nat \<Rightarrow> recv option) \<Rightarrow> (nat \<Rightarrow> send_result list) \<Rightarrow> (nat \<Rightarrow> send_result list) \<Rightarrow> web_server \<Rightarrow>
     (web_event option \<times> web_server) option"
where
  "web_server_poll site pending ready sends flushes s =
     (let s = web_try_accept pending s in
      do { (q, cs) \<leftarrow> read_clients site sends ready 0 (clients s) (evts s);
           let (e, q) = take_event q;
           Some (e, s\<lparr>clients := flush_clients flushes cs, evts := q\<rparr>) })"

definition web_server_client_count :: "web_server \<Rightarrow> nat" where
  "web_server_client_count s = length (filter (\<lambda>c. c_state c = CS_WS_OPEN) (clients s))"

text \<open>The server when it listens, and when it stops; the socket and the banner are left out.\<close>

definition web_server_start :: web_server where
  "web_server_start = \<lparr>clients = replicate WEB_MAX_CLIENTS
       \<lparr>c_state = CS_FREE, inbuf = [], outbuf = [], audio_init_sent = False, c_display = None\<rparr>,
     evts = \<lparr>events = (\<lambda>i. Reset_event), evt_head = 0, evt_tail = 0\<rparr>, audio_ring = (\<lambda>i. 0), audio_head = 0, audio_tail = 0,
     audio_sample_rate = 0\<rparr>"

definition web_server_stop :: "web_server \<Rightarrow> web_server" where
  "web_server_stop s = s\<lparr>clients := map close_client (clients s)\<rparr>"

section \<open>Snapshots and sound\<close>

definition any_open :: "web_server \<Rightarrow> bool" where
  "any_open s \<longleftrightarrow> list_ex (\<lambda>c. c_state c = CS_WS_OPEN) (clients s)"

text \<open>
  A snapshot as the page receives it, if it fits with its NUL; the two frequencies are their digits, as
  \<open>%.3f\<close> prints them. A flag is 0 or 1.
\<close>

record web_snapshot =
  s_size :: "int \<times> int"
  s_ddram :: "u8 list"
  s_cgram :: "u8 list"
  s_cursor :: "int \<times> int"
  s_cursor_on :: int
  s_blink_on :: int
  s_display_on :: int
  s_font_5x10 :: int
  s_panel_rows :: int
  s_panel_5x10 :: int
  s_leds :: "int list"
  s_button :: int
  s_porta :: u8
  s_portb :: u8
  s_ddra :: u8
  s_ddrb :: u8
  s_osc :: u64
  s_cpu :: u64
  s_mhz :: "u8 list"
  s_target_mhz :: "u8 list"
  s_pc :: u16
  s_irq :: int
  s_stopped :: int
  s_graphic :: "ili9341 option"

definition WEB_MAX_LEDS :: nat where "WEB_MAX_LEDS = 4"

definition json_array :: "u8 list list \<Rightarrow> u8 list" where
  "json_array xs = 0x5B # joined xs @ [0x5D]"

definition json_object :: "(string \<times> u8 list) list \<Rightarrow> u8 list" where
  "json_object xs = 0x7B # joined (map (\<lambda>(k, v). 0x22 # bytes_of k @ [0x22, 0x3A] @ v) xs) @ [0x7D]"

definition print_word :: "'a::len word \<Rightarrow> u8 list" where
  "print_word w = dec_digits (unat w)"

definition print_flag :: "bool \<Rightarrow> u8 list" where
  "print_flag b = (if b then [0x31] else [0x30])"

definition snapshot_text :: "web_snapshot \<Rightarrow> u8 list" where
  "snapshot_text s =
     (let (rows, cols) = s_size s; (row, col) = s_cursor s in
      json_object
       ([(''lcd'', json_object
           [(''rows'', dec_int rows), (''cols'', dec_int cols),
            (''ddram'', json_array (map print_word (take (nat (min (rows * cols) 80)) (s_ddram s)))),
            (''cgram'', json_array (map (\<lambda>b. print_word (b AND 0x1F)) (take 64 (s_cgram s)))),
            (''cur'', json_array [dec_int row, dec_int col]), (''cur_on'', dec_int (s_cursor_on s)), (''blink_on'', dec_int (s_blink_on s)),
            (''disp_on'', dec_int (s_display_on s)), (''f5x10'', dec_int (s_font_5x10 s)), (''panel_rows'', dec_int (s_panel_rows s)),
            (''panel_5x10'', dec_int (s_panel_5x10 s))]),
         (''btn'', dec_int (s_button s)), (''porta'', print_word (s_porta s)), (''portb'', print_word (s_portb s)),
         (''ddra'', print_word (s_ddra s)), (''ddrb'', print_word (s_ddrb s)), (''osc'', print_word (s_osc s)), (''cpu'', print_word (s_cpu s)),
         (''mhz'', s_mhz s), (''target_mhz'', s_target_mhz s), (''pc'', print_word (s_pc s)), (''irq'', dec_int (s_irq s)),
         (''stp'', dec_int (s_stopped s)), (''leds'', json_array (map (\<lambda>l. print_flag (l \<noteq> 0)) (take WEB_MAX_LEDS (s_leds s))))] @
        (case s_graphic s of None \<Rightarrow> [] | Some d \<Rightarrow>
          [(''gd'', json_object
             [(''on'', print_flag (ili9341_showing d)), (''bl'', print_word (backlight d)),
              (''gs'', print_flag (scan d AND ILI9341_GS \<noteq> 0)), (''ss'', print_flag (scan d AND ILI9341_SS \<noteq> 0)),
              (''scroll'', json_array [print_word (scr_tfa d), print_word (scr_vsa d), print_word (scr_bfa d), print_word (scr_ssa d)])])])))"

definition web_snapshot_json :: "nat \<Rightarrow> web_snapshot \<Rightarrow> u8 list option" where
  "web_snapshot_json cap s = (if length (snapshot_text s) < cap then Some (snapshot_text s) else None)"

definition send_display :: "frame \<Rightarrow> nat \<Rightarrow> client \<Rightarrow> client" where
  "send_display m reserve c =
     (let shadow = (case c_display c of None \<Rightarrow> web_display_shadow_forget | Some s \<Rightarrow> s);
          c = c\<lparr>c_display := Some shadow\<rparr>;
          room = int CLIENT_OUTBUF_SIZE - int (length (outbuf c)) - int reserve - int WEB_DISPLAY_RECT_MAX - 16;
          budget = min room (int DISPLAY_BUDGET)
      in if budget < 1024 then c
         else let (msg, shadow) = web_display_encode m (nat budget) shadow; c = c\<lparr>c_display := Some shadow\<rparr>
           in if msg = [] then c else ws_send_binary msg c)"

definition audio_init_text :: "int \<Rightarrow> u8 list" where
  "audio_init_text rate =
     bytes_of (''{'' @ [CHR 0x22] @ ''type'' @ [CHR 0x22] @ '':'' @ [CHR 0x22] @ ''audio_init'' @ [CHR 0x22] @ '','' @ [CHR 0x22] @
       ''rate'' @ [CHR 0x22] @ '':'') @ dec_int rate @ bytes_of ''}''"

definition on_open :: "(nat \<Rightarrow> client \<Rightarrow> client) \<Rightarrow> web_server \<Rightarrow> web_server" where
  "on_open f s =
     s\<lparr>clients := map (\<lambda>(i, c). if c_state c = CS_WS_OPEN then f i c else c) (zip [0..<length (clients s)] (clients s))\<rparr>"

definition broadcast_to :: "int \<Rightarrow> frame option \<Rightarrow> u8 list \<Rightarrow> send_result list \<Rightarrow> client \<Rightarrow> client" where
  "broadcast_to rate display json sends c =
     (let init = (if 0 < rate then audio_init_text rate else []);
          c = (if init \<noteq> [] \<and> \<not> audio_init_sent c then (ws_send_text init c)\<lparr>audio_init_sent := True\<rparr> else c);
          c = (case display of None \<Rightarrow> c | Some m \<Rightarrow> send_display m (length json + length init) c)
      in flush_outbuf sends (ws_send_text json c))"

definition web_server_broadcast :: "web_snapshot \<Rightarrow> (nat \<Rightarrow> send_result list) \<Rightarrow> web_server \<Rightarrow> web_server" where
  "web_server_broadcast snap sends s =
     (if \<not> any_open s then s
      else case web_snapshot_json 8192 snap of
        None \<Rightarrow> s
      | Some json \<Rightarrow> on_open (\<lambda>i. broadcast_to (audio_sample_rate s) (map_option frame_of (s_graphic snap)) json (sends i)) s)"

definition web_server_send_audio_rate :: "int \<Rightarrow> (nat \<Rightarrow> send_result list) \<Rightarrow> web_server \<Rightarrow> web_server" where
  "web_server_send_audio_rate rate sends s =
     on_open (\<lambda>i c. flush_outbuf (sends i) (ws_send_text (audio_init_text rate) c)) (s\<lparr>audio_sample_rate := rate\<rparr>)"

definition web_server_audio_tap :: "u16 \<Rightarrow> web_server \<Rightarrow> web_server" where
  "web_server_audio_tap sample s =
     (let next = (audio_tail s + 1) mod AUDIO_RING_CAPACITY;
          s = (if next = audio_head s then s\<lparr>audio_head := (audio_head s + 1) mod AUDIO_RING_CAPACITY\<rparr> else s)
      in s\<lparr>audio_ring := (audio_ring s)(audio_tail s := sample), audio_tail := next\<rparr>)"

definition audio_frame :: "u16 list \<Rightarrow> u8 list" where
  "audio_frame samples = 0x01 # concat (map (\<lambda>v. [to8 v, to8 (drop_bit 8 v)]) (take 2000 samples))"

definition web_server_broadcast_audio :: "u16 list \<Rightarrow> (nat \<Rightarrow> send_result list) \<Rightarrow> web_server \<Rightarrow> web_server" where
  "web_server_broadcast_audio samples sends s =
     (if samples = [] \<or> \<not> any_open s then s
      else on_open (\<lambda>i c. flush_outbuf (sends i) (ws_send_binary (audio_frame samples) c)) s)"

definition audio_waiting :: "web_server \<Rightarrow> u16 list" where
  "audio_waiting s =
     ring AUDIO_RING_CAPACITY (audio_ring s) (audio_head s)
       ((audio_tail s + AUDIO_RING_CAPACITY - audio_head s) mod AUDIO_RING_CAPACITY)"

text \<open>The samples waiting, in frames of 2000; \<open>sends\<close> is for each frame what the clients' sockets take.\<close>

function audio_batches :: "u16 list \<Rightarrow> (nat \<Rightarrow> send_result list) list \<Rightarrow> web_server \<Rightarrow> web_server" where
  "audio_batches samples sends s =
     (if samples = [] then s
      else audio_batches (drop 2000 samples) (tl sends)
        (web_server_broadcast_audio (take 2000 samples) (case sends of [] \<Rightarrow> (\<lambda>i. []) | x # xs \<Rightarrow> x) s))"
  by pat_completeness auto
termination by (relation "measure (\<lambda>(a, b, c). length a)") auto

definition web_server_flush_audio :: "(nat \<Rightarrow> send_result list) list \<Rightarrow> web_server \<Rightarrow> web_server" where
  "web_server_flush_audio sends s =
     (if \<not> any_open s then s\<lparr>audio_head := audio_tail s\<rparr>
      else (audio_batches (audio_waiting s) sends s)\<lparr>audio_head := audio_tail s\<rparr>)"

section \<open>Queues that lose the oldest\<close>

text \<open>
  The events and the samples wait in rings that overwrite: a full ring gives up its oldest element. \<open>content\<close>
  is the ring as a list, oldest first.
\<close>

locale lossy_queue =
  fixes content :: "'q \<Rightarrow> 'b list"
    and put :: "'b \<Rightarrow> 'q \<Rightarrow> 'q"
    and cap :: nat
    and inv :: "'q \<Rightarrow> bool"
  assumes put_keeps: "inv q \<Longrightarrow> inv (put x q)"
    and put_room: "inv q \<Longrightarrow> length (content q) < cap \<Longrightarrow> content (put x q) = content q @ [x]"
    and put_full: "inv q \<Longrightarrow> length (content q) = cap \<Longrightarrow> content (put x q) = tl (content q) @ [x]"
    and holds: "inv q \<Longrightarrow> length (content q) \<le> cap"
    and cap_positive: "0 < cap"

definition newest :: "nat \<Rightarrow> 'b list \<Rightarrow> 'b list" where
  "newest n xs = drop (length xs - n) xs"

lemma newest_newest: "newest n (newest n ys @ xs) = newest n (ys @ xs)"
proof (cases "length ys \<le> n")
  case False
  then show ?thesis by (simp add: newest_def add.commute)
qed (simp add: newest_def)

context lossy_queue
begin

lemma put_newest: "inv q \<Longrightarrow> content (put x q) = newest cap (content q @ [x])"
  using put_room[of q x] put_full[of q x] holds[of q] cap_positive
  by (cases "length (content q) < cap") (auto simp: newest_def drop_Suc)

text \<open>After any number of elements the newest are there, in order.\<close>

lemma puts_newest: "inv q \<Longrightarrow> inv (fold put xs q) \<and> content (fold put xs q) = newest cap (content q @ xs)"
proof (induction xs arbitrary: q)
  case Nil
  then show ?case using holds[of q] by (simp add: newest_def)
next
  case (Cons x xs)
  have "newest cap (newest cap (content q @ [x]) @ xs) = newest cap (content q @ x # xs)"
    using newest_newest[of cap "content q @ [x]" xs] by simp
  then show ?case using Cons put_keeps[of q x] put_newest[of q x] by simp
qed

end

text \<open>A ring of \<open>n\<close> places with a head and a tail holds \<open>n - 1\<close> elements.\<close>

definition ring_size :: "nat \<Rightarrow> nat \<Rightarrow> nat \<Rightarrow> nat" where
  "ring_size n h t = (t + n - h) mod n"

lemma ring_size_next:
  assumes "h < n" "t < n" "1 < n"
  shows "(t + 1) mod n \<noteq> h \<Longrightarrow> ring_size n h ((t + 1) mod n) = Suc (ring_size n h t)"
    and "(t + 1) mod n = h \<longleftrightarrow> ring_size n h t = n - 1"
    and "(h + ring_size n h t) mod n = t"
    and "(t + 1) mod n = h \<Longrightarrow> ring_size n ((h + 1) mod n) ((t + 1) mod n) = n - 1"
proof -
  have s: "ring_size n h t = (if h \<le> t then t - h else t + n - h)"
    using assms by (auto simp: ring_size_def mod_if)
  show "(t + 1) mod n \<noteq> h \<Longrightarrow> ring_size n h ((t + 1) mod n) = Suc (ring_size n h t)"
    unfolding s using assms by (auto simp: ring_size_def mod_if)
  show "(t + 1) mod n = h \<longleftrightarrow> ring_size n h t = n - 1"
    unfolding s using assms by (auto simp: mod_if)
  show "(h + ring_size n h t) mod n = t"
    unfolding s using assms by (auto simp: mod_if)
  show "(t + 1) mod n = h \<Longrightarrow> ring_size n ((h + 1) mod n) ((t + 1) mod n) = n - 1"
    using assms by (auto simp: ring_size_def mod_if)
qed

lemma ring_overwrite:
  assumes "h < n" "t < n" "1 < n"
  shows "(t + 1) mod n \<noteq> h \<Longrightarrow>
      ring n (buf(t := x)) h (ring_size n h ((t + 1) mod n)) = ring n buf h (ring_size n h t) @ [x]"
    and "(t + 1) mod n = h \<Longrightarrow>
      ring n (buf(t := x)) ((h + 1) mod n) (ring_size n ((h + 1) mod n) ((t + 1) mod n)) = tl (ring n buf h (ring_size n h t)) @ [x]"
proof -
  note z = ring_size_next[OF assms]
  have l: "ring_size n h t < n" using assms(3) by (simp add: ring_size_def)
  show "(t + 1) mod n \<noteq> h \<Longrightarrow>
      ring n (buf(t := x)) h (ring_size n h ((t + 1) mod n)) = ring n buf h (ring_size n h t) @ [x]"
    using ring_append[OF l, of buf h x] z(1,3) by simp
  assume f: "(t + 1) mod n = h"
  then have c: "ring_size n h t = n - 1" using z(2) by simp
  have t: "tl (ring n buf h (n - 1)) = ring n buf ((h + 1) mod n) (n - 2)"
    using ring_head[of "n - 1" n buf h] assms(3) by (simp add: numeral_2_eq_2)
  have "((h + 1) mod n + (n - 2)) mod n = t"
    using z(3) c assms(3) by (metis One_nat_def Suc_diff_Suc add.assoc add_Suc_right add_0_right mod_add_left_eq numeral_2_eq_2 plus_1_eq_Suc)
  then have "ring n (buf(t := x)) ((h + 1) mod n) (Suc (n - 2)) = ring n buf ((h + 1) mod n) (n - 2) @ [x]"
    using ring_append[of "n - 2" n buf "(h + 1) mod n" x] assms(3) by simp
  then show "ring n (buf(t := x)) ((h + 1) mod n) (ring_size n ((h + 1) mod n) ((t + 1) mod n)) = tl (ring n buf h (ring_size n h t)) @ [x]"
    using z(4)[OF f] c t assms(3) by (simp add: Suc_diff_Suc numeral_2_eq_2)
qed

definition waiting_events :: "event_queue \<Rightarrow> web_event list" where
  "waiting_events q = ring EVENT_QUEUE_SIZE (events q) (evt_head q) (ring_size EVENT_QUEUE_SIZE (evt_head q) (evt_tail q))"

definition events_ok :: "event_queue \<Rightarrow> bool" where
  "events_ok q \<longleftrightarrow> evt_head q < EVENT_QUEUE_SIZE \<and> evt_tail q < EVENT_QUEUE_SIZE"

interpretation page_events: lossy_queue waiting_events queue_event "EVENT_QUEUE_SIZE - 1" events_ok
proof
  fix q x assume ok: "events_ok q"
  then have b: "evt_head q < EVENT_QUEUE_SIZE" "evt_tail q < EVENT_QUEUE_SIZE" "1 < EVENT_QUEUE_SIZE"
    by (simp_all add: events_ok_def EVENT_QUEUE_SIZE_def)
  note z = ring_size_next[OF b] and o = ring_overwrite[OF b, of "events q" x]
  show "events_ok (queue_event x q)"
    using b by (simp add: events_ok_def queue_event_def Let_def)
  show "length (waiting_events q) < EVENT_QUEUE_SIZE - 1 \<Longrightarrow> waiting_events (queue_event x q) = waiting_events q @ [x]"
    using z(2) o(1) by (simp add: waiting_events_def queue_event_def Let_def)
  show "length (waiting_events q) = EVENT_QUEUE_SIZE - 1 \<Longrightarrow> waiting_events (queue_event x q) = tl (waiting_events q) @ [x]"
    using z(2) o(2) by (simp add: waiting_events_def queue_event_def Let_def)
  show "length (waiting_events q) \<le> EVENT_QUEUE_SIZE - 1"
    by (simp add: waiting_events_def ring_size_def EVENT_QUEUE_SIZE_def)
qed (simp add: EVENT_QUEUE_SIZE_def)

definition audio_ok :: "web_server \<Rightarrow> bool" where
  "audio_ok s \<longleftrightarrow> audio_head s < AUDIO_RING_CAPACITY \<and> audio_tail s < AUDIO_RING_CAPACITY"

interpretation samples: lossy_queue audio_waiting web_server_audio_tap "AUDIO_RING_CAPACITY - 1" audio_ok
proof
  fix s x assume ok: "audio_ok s"
  then have b: "audio_head s < AUDIO_RING_CAPACITY" "audio_tail s < AUDIO_RING_CAPACITY" "1 < AUDIO_RING_CAPACITY"
    by (simp_all add: audio_ok_def AUDIO_RING_CAPACITY_def)
  note z = ring_size_next[OF b] and o = ring_overwrite[OF b, of "audio_ring s" x]
  show "audio_ok (web_server_audio_tap x s)"
    using b by (simp add: audio_ok_def web_server_audio_tap_def Let_def)
  show "length (audio_waiting s) < AUDIO_RING_CAPACITY - 1 \<Longrightarrow> audio_waiting (web_server_audio_tap x s) = audio_waiting s @ [x]"
    using z(2) o(1) by (simp add: audio_waiting_def web_server_audio_tap_def ring_size_def[symmetric] Let_def)
  show "length (audio_waiting s) = AUDIO_RING_CAPACITY - 1 \<Longrightarrow> audio_waiting (web_server_audio_tap x s) = tl (audio_waiting s) @ [x]"
    using z(2) o(2) by (simp add: audio_waiting_def web_server_audio_tap_def ring_size_def[symmetric] Let_def)
  show "length (audio_waiting s) \<le> AUDIO_RING_CAPACITY - 1"
    by (simp add: audio_waiting_def AUDIO_RING_CAPACITY_def)
qed (simp add: AUDIO_RING_CAPACITY_def)

section \<open>A page's messages arrive\<close>

text \<open>The frame a page sends for a text: masked, with the length in one byte or in two more.\<close>

definition client_frame :: "u8 list \<Rightarrow> u8 list \<Rightarrow> u8 list" where
  "client_frame m t =
     0x81 # (if length t \<le> 125 then [0x80 OR of_nat (length t)] else [0xFE, of_nat (length t div 256), of_nat (length t)]) @ m @ unmask m t"

definition frame_fits :: "u8 list \<times> u8 list \<Rightarrow> bool" where
  "frame_fits = (\<lambda>(m, t). length m = 4 \<and> length t \<le> 8184)"

lemma length_unmask [simp]: "length (unmask m t) = length t"
  by (simp add: unmask_def)

lemma unmask_twice: "unmask m (unmask m t) = t"
  by (rule nth_equalityI) (simp_all add: unmask_def xor.assoc)

lemma short_length:
  "n \<le> 125 \<Longrightarrow> (0x80 OR of_nat n) AND 0x80 \<noteq> (0 :: u8) \<and> (0x80 OR of_nat n) AND 0x7F = (of_nat n :: u8) \<and> (of_nat n :: u8) \<noteq> 126 \<and>
     (of_nat n :: u8) \<noteq> 127 \<and> unat (of_nat n :: u8) = n"
proof -
  have "\<forall>n\<in>set [0..<126]. (0x80 OR of_nat n) AND 0x80 \<noteq> (0 :: u8) \<and> (0x80 OR of_nat n) AND 0x7F = (of_nat n :: u8) \<and>
      (of_nat n :: u8) \<noteq> 126 \<and> (of_nat n :: u8) \<noteq> 127 \<and> unat (of_nat n :: u8) = n"
    by code_simp
  then show "n \<le> 125 \<Longrightarrow> ?thesis" by simp
qed

lemma long_length: "n < 65536 \<Longrightarrow> unat (of_nat (n div 256) :: u8) * 256 + unat (of_nat n :: u8) = n"
  by (simp add: unat_of_nat take_bit_eq_mod)

lemma parse_whole:
  assumes "frame_fits (m, t)" "inbuf c = client_frame m t @ r"
  shows "ws_parse_frame c = (Frame (length (client_frame m t)) (Some t), c)"
proof -
  have m: "length m = 4" "length t \<le> 8184" using assms(1) by (simp_all add: frame_fits_def)
  show ?thesis
  proof (cases "length t \<le> 125")
    case True
    then show ?thesis using m assms(2) short_length[OF True]
      by (simp add: ws_parse_frame_def client_frame_def unmask_twice)
  next
    case False
    then show ?thesis using m assms(2) long_length[of "length t"]
      by (simp add: ws_parse_frame_def client_frame_def unmask_twice)
  qed
qed

lemma parse_part:
  assumes "frame_fits (m, t)" "inbuf c = take j (client_frame m t)" "j < length (client_frame m t)"
  shows "ws_parse_frame c = (Need_more, c)"
proof -
  have m: "length m = 4" "length t \<le> 8184" using assms(1) by (simp_all add: frame_fits_def)
  show ?thesis
  proof (cases "length t \<le> 125")
    case True
    then show ?thesis using m assms(2,3) short_length[OF True]
      by (simp add: ws_parse_frame_def client_frame_def Let_def min_def)
  next
    case False
    then show ?thesis using m assms(2,3) long_length[of "length t"]
      by (simp add: ws_parse_frame_def client_frame_def Let_def min_def)
  qed
qed

lemma length_frame: "frame_fits x \<Longrightarrow> 0 < length (case_prod client_frame x) \<and> length (case_prod client_frame x) \<le> CLIENT_INBUF_SIZE"
  by (cases x) (auto simp: client_frame_def frame_fits_def CLIENT_INBUF_SIZE_def)

abbreviation frames_of :: "(u8 list \<times> u8 list) list \<Rightarrow> u8 list" where
  "frames_of ms \<equiv> concat (map (case_prod client_frame) ms)"

text \<open>A piece that is no whole frame: the start of the next one.\<close>

definition begins :: "(u8 list \<times> u8 list) list \<Rightarrow> u8 list \<Rightarrow> bool" where
  "begins ms part \<longleftrightarrow> (case ms of [] \<Rightarrow> part = [] | x # _ \<Rightarrow> (\<exists>j<length (case_prod client_frame x). part = take j (case_prod client_frame x)))"

lemma frames_read:
  assumes "list_all frame_fits (don @ todo)" "c_state c = CS_WS_OPEN" "inbuf c = frames_of don @ part" "begins todo part"
  shows "ws_frames (q, c) = Some (fold (handle_text_msg \<circ> snd) don q, c\<lparr>inbuf := part\<rparr>)"
  using assms
proof (induction don arbitrary: q c)
  case Nil
  show ?case
  proof (cases "part = []")
    case False
    then obtain m t ms j where t: "todo = (m, t) # ms" "j < length (client_frame m t)" "part = take j (client_frame m t)"
      using Nil by (auto simp: begins_def split: list.splits)
    then have "ws_parse_frame c = (Need_more, c)" using parse_part[of m t c j] Nil by simp
    then show ?thesis using Nil False by (subst ws_frames.simps) simp
  qed (use Nil in \<open>subst ws_frames.simps, simp\<close>)
next
  case (Cons x don)
  obtain m t where x: "x = (m, t)" by (rule prod.exhaust)
  have p: "ws_parse_frame c = (Frame (length (client_frame m t)) (Some t), c)"
    using Cons.prems x by (intro parse_whole[where r = "frames_of don @ part"]) simp_all
  have "inbuf c \<noteq> []" using Cons.prems(3) x by (simp add: client_frame_def)
  show ?case
    using Cons.IH[of "c\<lparr>inbuf := frames_of don @ part\<rparr>" "handle_text_msg t q"] Cons.prems x \<open>inbuf c \<noteq> []\<close>
    by (subst ws_frames.simps) (simp only: p, simp add: o_def)
qed

lemma frames_split:
  assumes "list_all frame_fits ms" "B @ s = frames_of ms"
  obtains don todo part where "ms = don @ todo" "B = frames_of don @ part" "part @ s = frames_of todo" "begins todo part"
  using assms
proof (induction ms arbitrary: B thesis)
  case Nil
  then show ?case by (auto simp: begins_def)
next
  case (Cons x ms)
  let ?f = "case_prod client_frame x"
  show ?case
  proof (cases "length B < length ?f")
    case True
    then have "B = take (length B) ?f" using Cons.prems(3) by (simp add: append_eq_append_conv_if)
    then show ?thesis using Cons.prems(1)[of "[]" "x # ms" B] Cons.prems(3) True by (auto simp: begins_def)
  next
    case False
    then have "take (length ?f) B = ?f" using arg_cong[OF Cons.prems(3), of "take (length ?f)"] by simp
    then obtain B' where B: "B = ?f @ B'" by (metis append_take_drop_id)
    then have "B' @ s = frames_of ms" using Cons.prems(3) by simp
    then obtain don todo part where r: "ms = don @ todo" "B' = frames_of don @ part" "part @ s = frames_of todo" "begins todo part"
      using Cons.IH[of B'] Cons.prems(2) by auto
    then show ?thesis using Cons.prems(1)[of "x # don" todo part] B by simp
  qed
qed

text \<open>
  The bytes on their way and the reads that take them: the first takes \<open>n\<close> of them, or as many as there is room for.
\<close>

fun page_sends :: "web_site \<Rightarrow> nat list \<Rightarrow> u8 list \<Rightarrow> event_queue \<times> client \<Rightarrow> (u8 list \<times> event_queue \<times> client) option" where
  "page_sends site [] s x = Some (s, x)"
| "page_sends site (n # ns) s (q, c) =
     (if s = [] then Some (s, q, c)
      else let k = min n (CLIENT_INBUF_SIZE - length (inbuf c)) in
        case read_from_client site [] (Received (take k s)) (q, c) of
          None \<Rightarrow> None | Some x \<Rightarrow> page_sends site ns (drop k s) x)"

lemma begins_done: "list_all frame_fits ms \<Longrightarrow> begins ms part \<Longrightarrow> part = frames_of ms \<Longrightarrow> ms = [] \<and> part = []"
  by (cases ms) (auto simp: begins_def dest: arg_cong[of _ _ length])

lemma stream_read:
  assumes "list_all frame_fits ms" "c_state c = CS_WS_OPEN" "inbuf c @ s = frames_of ms" "begins ms (inbuf c)"
    "0 \<notin> set ns" "length s \<le> length ns"
  shows "page_sends site ns s (q, c) = Some ([], fold (handle_text_msg \<circ> snd) ms q, c\<lparr>inbuf := []\<rparr>)"
  using assms
proof (induction ns arbitrary: s q c ms)
  case Nil
  then show ?case using begins_done[of ms "inbuf c"] by auto
next
  case (Cons n ns)
  show ?case
  proof (cases "s = []")
    case True
    then show ?thesis using Cons.prems begins_done[of ms "inbuf c"] by auto
  next
    case False
    define k where "k = min n (CLIENT_INBUF_SIZE - length (inbuf c))"
    have "length (inbuf c) < CLIENT_INBUF_SIZE"
    proof (cases ms)
      case Nil
      then show ?thesis using Cons.prems(4) by (simp add: begins_def CLIENT_INBUF_SIZE_def)
    next
      case (Cons x xs)
      then show ?thesis using Cons.prems(1,4) length_frame[of x] by (auto simp: begins_def)
    qed
    then have k: "0 < k" "k \<le> CLIENT_INBUF_SIZE - length (inbuf c)" using Cons.prems(5) by (auto simp: k_def)
    have "(inbuf c @ take k s) @ drop k s = frames_of ms" using Cons.prems(3) by simp
    then obtain don todo part where r: "ms = don @ todo" "inbuf c @ take k s = frames_of don @ part"
        "part @ drop k s = frames_of todo" "begins todo part"
      by (rule frames_split[OF Cons.prems(1)])
    let ?c = "c\<lparr>inbuf := inbuf c @ take k s\<rparr>"
    have "ws_frames (q, ?c) = Some (fold (handle_text_msg \<circ> snd) don q, ?c\<lparr>inbuf := part\<rparr>)"
      using Cons.prems(1,2) r by (intro frames_read) simp_all
    moreover have "take (CLIENT_INBUF_SIZE - length (inbuf c)) (take k s) = take k s" using k by (simp add: min_def)
    moreover have "take k s \<noteq> []" using k(1) False by simp
    ultimately have rd: "read_from_client site [] (Received (take k s)) (q, c) =
        Some (fold (handle_text_msg \<circ> snd) don q, c\<lparr>inbuf := part\<rparr>)"
      using Cons.prems(2) k by (simp add: read_from_client_def Let_def)
    have "page_sends site ns (drop k s) (fold (handle_text_msg \<circ> snd) don q, c\<lparr>inbuf := part\<rparr>) =
        Some ([], fold (handle_text_msg \<circ> snd) todo (fold (handle_text_msg \<circ> snd) don q), c\<lparr>inbuf := part, inbuf := []\<rparr>)"
      by (rule Cons.IH) (use Cons.prems r k in auto)
    then show ?thesis using False rd r(1) by (simp add: k_def[symmetric] Let_def o_def)
  qed
qed

lemma handle_texts: "fold (handle_text_msg \<circ> snd) ms q = fold queue_event (List.map_filter (\<lambda>(m, t). text_event t) ms) q"
  by (induction ms arbitrary: q) (auto simp: List.map_filter_simps handle_text_msg_def split: option.split)

text \<open>
  Property C13: What a page sends arrives. Any texts, each in a frame with any mask and any length that
  the buffer holds, read in pieces of any sizes, leave the connection open and its buffer empty, and the
  events of those texts that are messages wait in the order they were sent, behind the ones that waited - all of
  them up to 255, else the newest 255.
\<close>

theorem page_events_arrive:
  assumes "list_all frame_fits ms" "c_state c = CS_WS_OPEN" "inbuf c = []" "events_ok q"
    and "0 \<notin> set ns" "length (frames_of ms) \<le> length ns"
  shows "\<exists>q'. page_sends site ns (frames_of ms) (q, c) = Some ([], q', c) \<and>
    waiting_events q' = newest 255 (waiting_events q @ List.map_filter (\<lambda>(m, t). text_event t) ms)"
proof -
  have "begins ms []" using assms(1) length_frame by (cases ms) (auto simp: begins_def)
  then have "page_sends site ns (frames_of ms) (q, c) = Some ([], fold (handle_text_msg \<circ> snd) ms q, c\<lparr>inbuf := []\<rparr>)"
    using assms by (intro stream_read) simp_all
  moreover have "c\<lparr>inbuf := []\<rparr> = c" using assms(3) by simp
  ultimately show ?thesis
    using page_events.puts_newest[OF assms(4)] by (simp add: handle_texts EVENT_QUEUE_SIZE_def)
qed

definition some_client :: client where
  "some_client = \<lparr>c_state = CS_WS_OPEN, inbuf = [], outbuf = [], audio_init_sent = False, c_display = None\<rparr>"

definition no_events :: event_queue where
  "no_events = \<lparr>events = (\<lambda>i. Reset_event), evt_head = 0, evt_tail = 0\<rparr>"

definition some_site :: web_site where
  "some_site = \<lparr>web_files = (\<lambda>p. None), web_root = [], web_machine = bytes_of ''michael''\<rparr>"

lemma page_events_witness:
  "\<exists>q'. page_sends some_site (replicate 100 3)
      (frames_of [([1, 2, 3, 4], json_text (JObject [(bytes_of ''type'', JString (bytes_of ''reset''))])), ([9, 0, 7, 255], bytes_of ''?'')])
      (no_events, some_client) = Some ([], q', some_client) \<and> waiting_events q' = [Reset_event]"
proof -
  let ?ms = "[([1, 2, 3, 4], json_text (JObject [(bytes_of ''type'', JString (bytes_of ''reset''))])), ([9, 0, 7, 255], bytes_of ''?'')]"
  have "text_event (json_text (JObject [(bytes_of ''type'', JString (bytes_of ''reset''))])) = Some Reset_event"
    "text_event (bytes_of ''?'') = None"
    by code_simp+
  then have e: "List.map_filter (\<lambda>(m, t). text_event t) ?ms = [Reset_event]" by (simp add: List.map_filter_simps)
  have "list_all frame_fits ?ms" by code_simp
  moreover have "length (frames_of ?ms) \<le> length (replicate 100 (3 :: nat))" by code_simp
  moreover have "events_ok no_events" "waiting_events no_events = []" by code_simp+
  ultimately show ?thesis
    using page_events_arrive[of ?ms some_client no_events "replicate 100 3" some_site]
    by (simp only: e) (simp add: some_client_def newest_def)
qed

text \<open>
  A ping that finds no room for its answer closes the client, and the move of the bytes behind it has a
  negative length.
\<close>

lemma ping_without_room:
  "ws_frames (q, some_client\<lparr>inbuf := [0x89, 0x80, 0, 0, 0, 0], outbuf := replicate 65535 0\<rparr>) = None"
  by (subst ws_frames.simps) (simp add: some_client_def ws_parse_frame_def queue_bytes_def close_client_def CLIENT_OUTBUF_SIZE_def unmask_def)

section \<open>Requests stay inside\<close>

lemma split_at_occurs: "split_at pat p \<noteq> None \<longleftrightarrow> (\<exists>a b. p = a @ pat @ b)"
proof (induction p)
  case (Cons c p)
  show ?case
  proof (cases "take (length pat) (c # p) = pat")
    case True
    then have "c # p = [] @ pat @ drop (length pat) (c # p)" by (metis append_Nil append_take_drop_id)
    then have "\<exists>a b. c # p = a @ pat @ b" by blast
    then show ?thesis using True by simp
  next
    case False
    then have "split_at pat (c # p) \<noteq> None \<longleftrightarrow> (\<exists>a b. p = a @ pat @ b)" using Cons by (auto simp: map_option_is_None)
    moreover have "c # p = a @ pat @ b \<Longrightarrow> a \<noteq> []" for a b using False by auto
    then have "(\<exists>a b. c # p = a @ pat @ b) \<longleftrightarrow> (\<exists>a b. p = a @ pat @ b)" by (metis append_Cons list.sel(3) neq_Nil_conv)
    ultimately show ?thesis by simp
  qed
qed auto

definition inside :: "u8 list \<Rightarrow> u8 list \<Rightarrow> bool" where
  "inside root path \<longleftrightarrow>
     (\<exists>rel. path = root @ 0x2F # rel \<and> (\<forall>a b. 0x2F # rel \<noteq> a @ bytes_of ''..'' @ b) \<and> (\<forall>a b. 0x2F # rel \<noteq> a @ bytes_of ''//'' @ b) \<and>
        0x25 \<notin> set rel)"

lemma good_path_inside: "\<not> bad_path path \<Longrightarrow> inside root (root @ path)"
  using split_at_occurs[of "[0x2E, 0x2E]" path] split_at_occurs[of "[0x2F, 0x2F]" path]
  by (cases path) (auto simp: bad_path_def occurs_def inside_def bytes_of_def)

lemma index_inside: "inside root (root @ bytes_of ''/index.html'')"
proof -
  have "\<not> bad_path (bytes_of ''/index.html'')" by code_simp
  then show ?thesis by (rule good_path_inside)
qed

text \<open>
  Property C14: A request reaches only the files under the root. Whatever bytes have been received, the
  answer is decided by the files whose path is the root and a slash, with no two dots or two
  slashes in a row and no percent sign after it: any other files may be there or not, with any contents.
\<close>

theorem requests_stay_inside:
  assumes "\<And>path. inside root path \<Longrightarrow> files path = files' path"
  shows "try_complete_request files root machine c = try_complete_request files' root machine c"
proof -
  have "send_file files root path d = send_file files' root path d" for path d
  proof (cases "bad_path path")
    case True
    then show ?thesis by (simp add: send_file_def)
  next
    case False
    then have "files (root @ path) = files' (root @ path)" "files (root @ bytes_of ''/index.html'') = files' (root @ bytes_of ''/index.html'')"
      using assms good_path_inside index_inside by blast+
    then show ?thesis by (simp add: send_file_def Let_def)
  qed
  then have "send_file files root = send_file files' root" by (intro ext)
  then show ?thesis by (simp only: try_complete_request_def)
qed

definition web_request :: "string list \<Rightarrow> u8 list" where
  "web_request ls = concat (map (\<lambda>l. bytes_of l @ crlf) ls) @ crlf"

lemma requests_stay_inside_witness:
  "try_complete_request (\<lambda>p. if p = bytes_of ''/etc/passwd'' then Some [1] else None) (bytes_of ''web'') [] (some_client\<lparr>inbuf := web_request [''GET /../etc/passwd HTTP/1.1'']\<rparr>) =
   try_complete_request (\<lambda>p. None) (bytes_of ''web'') [] (some_client\<lparr>inbuf := web_request [''GET /../etc/passwd HTTP/1.1'']\<rparr>)"
proof -
  have "path \<noteq> bytes_of ''/etc/passwd''" if "inside (bytes_of ''web'') path" for path
    using that by (auto simp: inside_def bytes_of_def)
  then show ?thesis by (intro requests_stay_inside) auto
qed

text \<open>
  The blank line's NUL takes the end of the last header with it, so that header is never found: a page's
  request is answered if another header follows the two that matter, and refused if the key comes last.
\<close>

lemma last_header_missed:
  "case split_at (crlf @ crlf) (web_request [''GET / HTTP/1.1'', ''Upgrade: websocket'', ''Sec-WebSocket-Key: x'']) of
     None \<Rightarrow> False
   | Some (head, rest) \<Rightarrow> find_header (bytes_of ''Upgrade'') 256 head = Some (bytes_of ''websocket'') \<and>
       find_header (bytes_of ''Sec-WebSocket-Key'') 128 head = None"
  by code_simp

end
