(* ===== verification/Spec2Isabelle.thy ===== *)
theory Spec2Isabelle
  imports Cpu_Alu Cpu_Stack Cpu_Control Cpu_Chip Clock_22v10 Memory_Chips Via_Timing Serial_Usb
    Ps2_Protocol Ps2_Keys Lcd_Panel W5500_Frames W5500_Sockets Net_Client Fpga_Link Michael_Run Wendy2c_Run
    Web_Display Direct_Io Plain_Loading Stub_Calls Asm_00 Web_Server
begin

text \<open>
  A model of the 6502 workbench's emulator (\<open>src/emulator\<close>): a 6502 and 65C02 core that runs three
  machines - the plain machine, a computer of 64K memory with ports for files and a terminal, and
  the two breadboard computers, Michael and the wendy2c, emulated chip by chip on a bus - and of
  the bootstrap assembler (\<open>src/asm/00\<close>). Everything is a definition in the order of the C code:
  a \<open>struct\<close> or the variables of a file are a \<open>record\<close>, a chip's callbacks are functions of its
  state and the bus, integers keep their width (\<open>u8\<close>, \<open>u16\<close>, \<open>u32\<close>, \<open>u64\<close>; C's \<open>int\<close> is \<open>int\<close> with its
  bounds proved where they matter), an array is a function or a list, a failure is a value.
\<close>

section \<open>The parts\<close>

text \<open>
  \<^bold>\<open>The core\<close> (\<open>cpu_core.c\<close>). \<open>Cpu_Tables\<close> has the tables of the two variants; \<open>Cpu_State\<close> the registers,
  the flags, pushes and pulls and an access to memory; \<open>Cpu_Addr\<close> the addressing modes; \<open>Cpu_Insn\<close> a
  definition for every instruction handler; \<open>Cpu_Step\<close> the dispatch, \<open>step6502\<close>, \<open>exec6502\<close> with
  its loop, IRQ, NMI and reset. The state is polymorphic in its host: the core reaches memory only
  through the hooks \<open>read6502\<close> and \<open>write6502\<close>, records the machines fill in.
  \<open>Cpu_Inv\<close> proves for the list of all handlers what no handler does and lifts it to instructions
  and runs; \<open>Cpu_Machine\<close> has the calls of a host as a step relation with its reachable states and
  shows that \<open>exec6502\<close> returns; \<open>Cpu_Alu\<close> relates ADC, SBC and the comparisons to arithmetic, binary
  and decimal; \<open>Cpu_Control\<close> has branches and bit instructions; \<open>Cpu_Stack\<close> calls, returns and
  interrupts; \<open>Cpu_Host\<close> the invariants a host keeps under every instruction.

  \<^bold>\<open>The bus and the chips\<close> (\<open>bus.c\<close>, \<open>chips/\<close>). \<open>Bus\<close> has the lines and a machine's chips in their order;
  \<open>Cpu_Chip\<close> the CPU paced by the clock; \<open>Clock_22v10\<close> the PLD of the wendy2c, whose lookup table it
  builds and checks against the equations; \<open>Memory_Chips\<close> RAM, ROM and Michael's decodes;
  \<open>Via_6522\<close> the VIA, with its timing and interrupts in \<open>Via_Timing\<close> and what it leaves alone in
  \<open>Via_Frame\<close>; \<open>Serial_Usb\<close> the serial chip on the VIA's shift register; \<open>Ps2_Board\<close>, \<open>Ps2_Protocol\<close> and
  \<open>Ps2_Keys\<close> (\<open>ps2_keys.c\<close>) the keyboard; \<open>Lcd_Hd44780\<close> and \<open>Lcd_Panel\<close> the character display;
  \<open>Gal_Spi\<close> SPI devices and the GAL that drives them; \<open>W5500\<close>, \<open>W5500_Frames\<close> and \<open>W5500_Sockets\<close> the
  Ethernet controller and \<open>Net_Client\<close> the client on its network; \<open>Fpga_Text\<close>, \<open>Ili9341\<close>,
  \<open>Font_12x16\<close>, \<open>Fpga_Render\<close>, \<open>Fpga_Bus\<close> and \<open>Fpga_Link\<close> the FPGA board: its text grid, the graphic
  display, the renderer between them and the bus that commands them.

  \<^bold>\<open>The boards.\<close> \<open>Michael\<close> (\<open>emu_michael.c\<close>) puts its chips on one bus with port B, the faults and the
  options; \<open>Michael_Memory\<close> proves that what the CPU sees of it is one map from addresses to bytes,
  and \<open>Michael_Run\<close> runs it. \<open>Wendy2c\<close>, \<open>Wendy2c_Memory\<close> and \<open>Wendy2c_Run\<close> do the same for
  \<open>emu_wendy2c.c\<close>, with banked memory and the divided clock. \<open>Syscall_Ports\<close> has its file ports over a
  model of the C library's files, and \<open>Serial_Link\<close> (\<open>serial_link.c\<close>) the protocol of a client that drives
  its serial line.

  \<^bold>\<open>The browser.\<close> \<open>Web_Display\<close> (\<open>web_display.c\<close>) sends the graphic display to a page, \<open>Web_Json\<close>
  (\<open>web_json.c\<close>) reads the messages of a page, and \<open>Web_Server\<close> (\<open>web_server.c\<close>) is the server between them:
  requests and the files they name, the upgrade with its SHA-1 and base64, frames in both directions, the queue
  of events, snapshots and sound.

  \<^bold>\<open>The plain machine\<close> (\<open>emulator.c\<close>). \<open>Console\<close> (\<open>console.c\<close>) is its terminal's screen, every access
  outside of which is \<open>None\<close>, \<open>Console_Sound\<close> its safety; \<open>Direct_Io\<close> (\<open>direct_io.c\<close>) screen calls and
  keys; \<open>Terminal_Serial\<close> the terminal's line with its rings and its baud rate; \<open>Plain_Files\<close>
  (\<open>file_io.c\<close>) files and directories; \<open>Plain_Ports\<close> the ports, \<open>read6502\<close> and \<open>write6502\<close>; \<open>Stubs\<close>
  (\<open>stubs.c\<close>) the generator of the jump table, whose layout \<open>Stub_Layout\<close> and whose presence in memory
  \<open>Stub_Code\<close> prove; \<open>Plain_Machine\<close> loads a program and runs it; \<open>Plain_Calls\<close> and \<open>Stub_Calls\<close> run the
  generated code on the CPU; \<open>Plain_Run\<close> and \<open>Plain_Loading\<close> are about runs and memory after loading.

  \<^bold>\<open>The bootstrap assembler\<close> (\<open>asm/00/asm.c\<close>) is \<open>Asm_00\<close>. \<open>C_Text\<close> has what the sources use of
  the C library's text: \<open>fgets\<close>, \<open>strtol\<close>, strings up to a NUL, decimal output.
\<close>

section \<open>Interfaces\<close>

text \<open>
  What several components rely on is a locale, interpreted on the model of each provider.
  \<open>fifo\<close> (\<open>Fifo\<close>): a bounded queue, for the serial chip's (\<open>serial_q\<close>), the keyboard's (\<open>ps2_q\<close>), the
  FPGA's replies (\<open>rq\<close>), a socket's receive buffer (\<open>rx\<close>) and the terminal's ring (\<open>serial_ring\<close>).
  \<open>lossy_queue\<close> (\<open>Web_Server\<close>): a ring that keeps the newest of what it is given, for the events of the pages
  (\<open>page_events\<close>) and the samples of the sound (\<open>samples\<close>).
  \<open>stack_page\<close> (\<open>Cpu_Stack\<close>): memory whose page one keeps what is written to it; flat memory
  (\<open>flat\<close>), Michael (\<open>michael_stack\<close>) and the wendy2c (\<open>wendy2c_stack\<close>) provide it, so calls and
  interrupts return on each.
  \<open>host_invariant\<close> (\<open>Cpu_Host\<close>): a predicate that every access keeps is kept by every instruction; with it
  \<open>cpu_bus\<close> and \<open>bus_invariant\<close> carry the pace of the CPU on the boards (\<open>michael_core\<close>, \<open>wendy2c_core\<close>,
  \<open>wendy2c_clock\<close>) and \<open>on_files\<close> the run of the plain machine.
\<close>

section \<open>What is proved\<close>

text \<open>
  The core: an instruction takes two to ten cycles, so \<open>exec6502\<close> returns with its goal reached and
  overshot by at most ten; the break and constant bits of the status; arithmetic in both modes;
  calls, branches and interrupts. The boards: the CPU's accesses refine a plain memory on Michael
  and a banked one on the wendy2c; each tick is a CPU cycle, or one in two to four with the divided
  clock; plain runs end, whatever program runs; a loaded program is what the CPU finds. The
  devices: timer 1 to the cycle, the agreement of interrupt flags and line; bytes arriving in order on every link; the
  PLD's table; the display's two interfaces; the sockets' states, which only the network connects; the picture on the glass for the
  grid; the messages that bring a page up to date. The plain machine: the terminal is memory safe on numbers of up to nine digits and
  fewer than 2 to the 31 cells; the escape
  sequence of a screen call means the call; no byte is lost on the paced line; a call of the jump table
  is the access it promises, with the registers and flags it promises, on the generated machine code; runs on files end. The assembler:
  written sources assemble to what they say. The browser server: a message of the protocol reads back, whatever
  other members surround it; what a page sends in frames of any size arrives as events; a file is read from inside its
  root only.

  Where the code does not do what it means to, or a comment says another thing, a lemma shows
  the case: the serial chip after a reset (\<open>Serial_Usb\<close>), the dropped client (\<open>Serial_Link\<close>), the bound of a
  rectangle (\<open>Web_Display\<close>), a ten-digit parameter and a screen whose cells are no \<open>int\<close> (\<open>Console_Sound\<close>), the full ring
  (\<open>Terminal_Serial\<close>), a small word and a long comment (\<open>Asm_00\<close>), a ping without room
  for its answer and the last header of a request (\<open>Web_Server\<close>).
\<close>

section \<open>Loops, bounds and parameters\<close>

text \<open>
  A loop that may not end is a \<open>partial_function\<close>, and that it returns is proved: \<open>exec_loop\<close> (each instruction
  moves the clock), \<open>michael_run\<close> and \<open>wendy2c_run\<close> (a tick per iteration up to the cap), \<open>plain_run\<close>
  (a cap on cycles), \<open>wait_loop\<close> (emulated time or the next arrival), \<open>eat\<close> (each key byte is
  consumed). No proof rests on fuel. The bounds are the code's: rings of 256 bytes, the
  serial chip's and the keyboard's queue sizes, the receive buffer of a client, 255 file handles, 320 lines
  of 240 pixels in bands of 16.

  Arguments of the model stand for what is not in the repository or has no meaning in it: the SPI
  device behind the GAL and the peer of the Ethernet controller; the socket input of the serial link
  and its conversion of nanoseconds; the real terminal with the time its waits take; the input device of the direct
  calls; the directories of the host, the files
  below the server's root, and what \<open>send\<close> and \<open>recv\<close> return for each client. Files are byte lists under names, streams have a position.
\<close>

section \<open>Not modelled\<close>

text \<open>
  Code without a state of its own beside the host's: rendering on the real terminal, reports, traces and
  dumps, wall-clock pacing, sound (floating-point samples of a port), the creation of the browser server's
  sockets and the loop that waits on them, the command line, signals and the commands of the server mode of
  \<open>emulator.c\<close>. Data that only tools print (\<open>src/firmware/fonts\<close>), an early copy of the emulator
  (\<open>src/attic/asm1\<close>), Arduino sketches, vendored and test code. Programs in 6502 assembly, Prog8 and Python are
  what runs on or around these machines.
\<close>

end
